(* ===== verification/Arcana_Prelude.thy ===== *)
theory Arcana_Prelude
  imports Complex_Main "HOL-Library.Multiset"
begin

text \<open>
  Shared vocabulary of the development: instants and durations in nanoseconds (Go's
  \<^verbatim>\<open>time.Time\<close> and \<^verbatim>\<open>time.Duration\<close>), 64-bit wrap-around written out on
  \<^typ>\<open>int\<close>, the conversion of a \<^verbatim>\<open>float64\<close> to an \<^verbatim>\<open>int64\<close>, decimal
  rendering of integers, and the list and map lemmas that several components use.

  Conventions. A \<^verbatim>\<open>float64\<close> is a \<^typ>\<open>real\<close>: rounding is not modelled. A Go
  \<^verbatim>\<open>error\<close> result is an option (\<open>None\<close> is \<^verbatim>\<open>nil\<close>) where the function returns
  nothing else, and the left summand of a sum where it returns a value too. A panic is
  \<open>None\<close> of an option around the whole result. Every read of the clock is an argument
  of the definition.
\<close>

type_synonym time = int
type_synonym duration = int

abbreviation millisecond :: duration where "millisecond \<equiv> 1000000"
abbreviation second :: duration where "second \<equiv> 1000000000"
abbreviation minute :: duration where "minute \<equiv> 60000000000"
abbreviation hour :: duration where "hour \<equiv> 3600000000000"
abbreviation day :: duration where "day \<equiv> 86400000000000"

text \<open>The zero \<^verbatim>\<open>time.Time\<close>: the first of January of the year 1, before the Unix epoch.\<close>

definition zero_time :: time where
  "zero_time = - 62135596800 * second"

text \<open>\<^verbatim>\<open>Time.Unix\<close>: whole seconds since the epoch, rounded down.\<close>

definition unix_seconds :: "time \<Rightarrow> int" where
  "unix_seconds t = t div second"

named_theorems redis_keys "the type and the distinctness of the Redis keys the code builds"
named_theorems redis_laws "what a Redis command replies and leaves behind"
named_theorems sql_laws "what a statement on a table returns and leaves behind"
named_theorems job_simps "field by field behaviour of the job operations"

subsection \<open>Machine integers\<close>

definition in_int64 :: "int \<Rightarrow> bool" where
  "in_int64 x \<longleftrightarrow> - (2 ^ 63) \<le> x \<and> x < 2 ^ 63"

definition wrap_int64 :: "int \<Rightarrow> int" where
  "wrap_int64 x = (x + 2 ^ 63) mod 2 ^ 64 - 2 ^ 63"

definition trunc :: "real \<Rightarrow> int" where
  "trunc x = (if 0 \<le> x then \<lfloor>x\<rfloor> else \<lceil>x\<rceil>)"

text \<open>
  \<^verbatim>\<open>int64(x)\<close> and \<^verbatim>\<open>time.Duration(x)\<close> for a float drop the fraction. Where the value
  does not fit, the language leaves the result to the implementation: the argument
  \<open>oor\<close> stands for what the platform gives there.
\<close>

definition int64_of_float :: "(real \<Rightarrow> int) \<Rightarrow> real \<Rightarrow> int" where
  "int64_of_float oor x = (if in_int64 (trunc x) then trunc x else oor x)"

lemma wrap_int64_in: "in_int64 (wrap_int64 x)"
proof -
  have "0 \<le> (x + 2 ^ 63) mod 2 ^ 64" and "(x + 2 ^ 63) mod 2 ^ 64 < (2 ^ 64 :: int)"
    by (rule pos_mod_sign, simp) (rule pos_mod_bound, simp)
  then show ?thesis unfolding in_int64_def wrap_int64_def by auto
qed

lemma wrap_int64_id: "in_int64 x \<Longrightarrow> wrap_int64 x = x"
  unfolding in_int64_def wrap_int64_def by (simp add: mod_pos_pos_trivial)

lemma trunc_nonneg: "0 \<le> x \<Longrightarrow> 0 \<le> trunc x"
  by (simp add: trunc_def)

lemma trunc_le: "0 \<le> x \<Longrightarrow> real_of_int (trunc x) \<le> x"
  by (simp add: trunc_def)

lemma trunc_mono: "0 \<le> x \<Longrightarrow> x \<le> y \<Longrightarrow> trunc x \<le> trunc y"
  by (simp add: trunc_def floor_mono)

lemma trunc_of_int [simp]: "trunc (real_of_int n) = n"
  by (simp add: trunc_def)

lemma trunc_le_iff: "0 \<le> x \<Longrightarrow> x \<le> real_of_int n \<Longrightarrow> trunc x \<le> n"
  using trunc_mono [of x "real_of_int n"] by simp

subsection \<open>Decimal rendering\<close>

fun nat_digits :: "nat \<Rightarrow> string" where
  "nat_digits n =
     (if n < 10 then [char_of (48 + n)] else nat_digits (n div 10) @ [char_of (48 + n mod 10)])"

declare nat_digits.simps [simp del]

text \<open>\<^verbatim>\<open>strconv.FormatInt(n, 10)\<close>, the \<^verbatim>\<open>%d\<close> verb.\<close>

definition itoa :: "int \<Rightarrow> string" where
  "itoa n = (if n < 0 then CHR ''-'' # nat_digits (nat (- n)) else nat_digits (nat n))"

lemma nat_digits_range: "c \<in> set (nat_digits n) \<Longrightarrow> 48 \<le> (of_char c :: nat) \<and> (of_char c :: nat) \<le> 57"
proof (induction n rule: nat_digits.induct)
  case (1 n)
  show ?case
  proof (cases "n < 10")
    case True
    with 1(2) have "c = char_of (48 + n)" by (subst (asm) nat_digits.simps) simp
    with True show ?thesis by (simp add: take_bit_eq_mod)
  next
    case False
    have "48 + n mod 10 < (256::nat)" using mod_less_divisor [of 10 n] by linarith
    with False 1 show ?thesis
      by (subst (asm) (2) nat_digits.simps) (auto simp: take_bit_eq_mod)
  qed
qed

lemma itoa_no_colon: "CHR '':'' \<notin> set (itoa n)"
  using nat_digits_range [of "CHR '':''"] by (auto simp: itoa_def)

lemma itoa_no_space: "CHR '' '' \<notin> set (itoa n)"
  using nat_digits_range [of "CHR '' ''"] by (auto simp: itoa_def)

subsection \<open>White space\<close>

definition is_space :: "char \<Rightarrow> bool" where
  "is_space c \<longleftrightarrow> c = CHR '' '' \<or> (9 \<le> (of_char c :: nat) \<and> (of_char c :: nat) \<le> 13)"

text \<open>\<^verbatim>\<open>strings.Fields\<close>.\<close>

fun str_fields_acc :: "string \<Rightarrow> string \<Rightarrow> string list" where
  "str_fields_acc acc [] = (if acc = [] then [] else [rev acc])"
| "str_fields_acc acc (c # cs) =
     (if is_space c then (if acc = [] then str_fields_acc [] cs else rev acc # str_fields_acc [] cs)
      else str_fields_acc (c # acc) cs)"

definition str_fields :: "string \<Rightarrow> string list" where
  "str_fields s = str_fields_acc [] s"

text \<open>\<^verbatim>\<open>strings.ToLower\<close> of an ASCII character, and \<^verbatim>\<open>strings.SplitN(s, " ", 2)\<close>.\<close>

definition to_lower :: "char \<Rightarrow> char" where
  "to_lower c = (if 65 \<le> (of_char c :: nat) \<and> (of_char c :: nat) \<le> 90 then char_of (of_char c + 32 :: nat) else c)"

definition split_two :: "string \<Rightarrow> string list" where
  "split_two s = (case dropWhile (\<lambda>c. c \<noteq> CHR '' '') s of
     [] \<Rightarrow> [s] | _ # rest \<Rightarrow> [takeWhile (\<lambda>c. c \<noteq> CHR '' '') s, rest])"

subsection \<open>Calls that may fail\<close>

text \<open>
  A call that changes a state and returns a value or an error, and the Go idiom
  \<^verbatim>\<open>x, err := f(); if err != nil { return nil, err }; ...\<close>: go on with the value, or return the error
  at once.
\<close>

type_synonym ('s, 'e, 'a) call = "'s \<Rightarrow> ('e + 'a) \<times> 's"

definition and_then :: "('s, 'e, 'a) call \<Rightarrow> ('a \<Rightarrow> ('s, 'e, 'b) call) \<Rightarrow> ('s, 'e, 'b) call" where
  "and_then f k s = (case f s of (Inl e, s1) \<Rightarrow> (Inl e, s1) | (Inr x, s1) \<Rightarrow> k x s1)"

definition ret :: "'a \<Rightarrow> ('s, 'e, 'a) call" where
  "ret x s = (Inr x, s)"

definition fail :: "'e \<Rightarrow> ('s, 'e, 'a) call" where
  "fail e s = (Inl e, s)"

text \<open>A value or an error that was computed without touching the state.\<close>

definition pure :: "('e + 'a) \<Rightarrow> ('s, 'e, 'a) call" where
  "pure r s = (r, s)"

lemma and_then_Inr: "fst (f s) = Inr x \<Longrightarrow> and_then f k s = k x (snd (f s))"
  by (cases "f s") (simp add: and_then_def)

lemma and_then_Inl: "fst (f s) = Inl e \<Longrightarrow> and_then f k s = (Inl e, snd (f s))"
  by (cases "f s") (simp add: and_then_def)

lemma and_then_simps [simp]:
  "and_then (ret x) k s = k x s"
  "and_then (fail e) k s = (Inl e, s)"
  "and_then (pure (Inr x)) k s = k x s"
  "and_then (pure (Inl e)) k s = (Inl e, s)"
  "ret x s = (Inr x, s)" "fail e s = (Inl e, s)" "pure r s = (r, s)"
  by (simp_all add: and_then_def ret_def fail_def pure_def)

lemma and_then_assoc: "and_then (and_then f g) k = and_then f (\<lambda>x. and_then (g x) k)"
  by (rule ext) (auto simp: and_then_def split: prod.splits sum.splits)

lemma and_then_cases:
  obtains e where "fst (f s) = Inl e" "and_then f k s = (Inl e, snd (f s))"
  | x where "fst (f s) = Inr x" "and_then f k s = k x (snd (f s))"
  by (cases "fst (f s)") (auto simp: and_then_Inl and_then_Inr)

subsection \<open>Lists\<close>

text \<open>Keeping the last \<open>n\<close> elements of a growing list.\<close>

definition push_last :: "nat \<Rightarrow> 'a list \<Rightarrow> 'a \<Rightarrow> 'a list" where
  "push_last n xs x = (if length xs < n then xs @ [x] else tl xs @ [x])"

lemma foldl_push_last:
  assumes "0 < n"
  shows "foldl (push_last n) [] xs = drop (length xs - n) xs"
proof (induction xs rule: rev_induct)
  case Nil
  then show ?case by simp
next
  case (snoc x xs)
  show ?case
  proof (cases "length xs < n")
    case True
    then have "Suc (length xs) - n = 0" "length xs - n = 0" by auto
    with True snoc show ?thesis by (simp add: push_last_def)
  next
    case False
    then have s: "Suc (length xs) - n = Suc (length xs - n)" by auto
    have "\<not> length (drop (length xs - n) xs) < n" using False by simp
    moreover have "tl (drop (length xs - n) xs) = drop (Suc (length xs - n)) xs"
      by (simp add: drop_Suc tl_drop)
    moreover have "Suc (length xs - n) \<le> length xs" using False assms by auto
    ultimately show ?thesis using snoc s by (simp add: push_last_def)
  qed
qed

lemma filter_nth_upt:
  "n \<le> length xs \<Longrightarrow> length (filter (\<lambda>i. P (xs ! i)) [0..<n]) = length (filter P (take n xs))"
proof (induction n)
  case 0
  then show ?case by simp
next
  case (Suc n)
  then have "take (Suc n) xs = take n xs @ [xs ! n]" by (simp add: take_Suc_conv_app_nth)
  with Suc show ?case by simp
qed

lemma rotated_update:
  assumes "length xs = n" "i < n"
  shows "drop (Suc i) (xs[i := x]) @ take (Suc i) (xs[i := x]) = tl (drop i xs @ take i xs) @ [x]"
proof -
  have "tl (drop i xs @ take i xs) = drop (Suc i) xs @ take i xs"
    using assms by (simp add: drop_Suc tl_drop)
  moreover have "take (Suc i) (xs[i := x]) = take i xs @ [x]"
    using assms by (simp add: take_Suc_conv_app_nth)
  ultimately show ?thesis using assms by simp
qed

lemma mset_rotated: "mset (drop i xs @ take i xs) = mset xs"
  by (metis append_take_drop_id mset_append union_commute)

lemma size_filter_mset: "mset xs = mset ys \<Longrightarrow> length (filter P xs) = length (filter P ys)"
  by (metis mset_filter size_mset)

lemma length_filter_le_map:
  "(\<And>x. x \<in> set xs \<Longrightarrow> P x \<Longrightarrow> Q x) \<Longrightarrow> length (filter P xs) \<le> length (filter Q xs)"
  by (induction xs) auto

lemma distinct_set_single: "distinct xs \<Longrightarrow> set xs = {x} \<Longrightarrow> xs = [x]"
proof (cases xs)
  case (Cons y ys)
  assume a: "distinct xs" "set xs = {x}"
  then have "y = x" "set ys \<subseteq> {x}" "y \<notin> set ys" using Cons by auto
  then have "ys = []" by (cases ys) auto
  then show ?thesis using Cons \<open>y = x\<close> by simp
qed simp

end
