(* ===== verification/Circuit_Breaker.thy ===== *)
theory Circuit_Breaker
  imports Arcana_Prelude
begin

text \<open>
  The circuit breaker of \<^verbatim>\<open>internal/resilience/circuitbreaker.go\<close> and the registry of
  breakers of \<^verbatim>\<open>internal/resilience/registry.go\<close>.

  The ring buffer of call outcomes is \<^verbatim>\<open>SlidingWindow\<close>; the breaker's own fields are
  the record \<open>CircuitBreaker\<close>, and each method that runs under the breaker's mutex is one
  function. Goroutines interleave between \<^verbatim>\<open>allowRequest\<close> and \<^verbatim>\<open>recordOutcome\<close>, so the
  concurrent breaker is the step relation \<open>cb_step\<close> on a breaker, the number of admitted
  calls still running and a clock.
\<close>

subsection \<open>Data\<close>

datatype State = StateClosed | StateOpen | StateHalfOpen

fun State_String :: "State \<Rightarrow> string" where
  "State_String StateClosed = ''CLOSED''"
| "State_String StateOpen = ''OPEN''"
| "State_String StateHalfOpen = ''HALF_OPEN''"

text \<open>The breaker's own errors, and the error the protected function returned.\<close>

datatype 'e cb_error = ErrCircuitOpen | ErrTooManyRequests | FnErr 'e

record CircuitBreakerConfig =
  cfg_Name :: string
  cfg_FailureThreshold :: int
  cfg_SuccessThreshold :: int
  cfg_Timeout :: duration
  cfg_MaxHalfOpenRequests :: int
  cfg_SlidingWindowSize :: int
  cfg_SlidingWindowType :: string
  cfg_SlowCallDurationThreshold :: duration
  cfg_SlowCallRateThreshold :: real

definition DefaultCircuitBreakerConfig :: "string \<Rightarrow> CircuitBreakerConfig" where
  "DefaultCircuitBreakerConfig name =
     \<lparr>cfg_Name = name, cfg_FailureThreshold = 5, cfg_SuccessThreshold = 3,
      cfg_Timeout = 30 * second, cfg_MaxHalfOpenRequests = 3, cfg_SlidingWindowSize = 10,
      cfg_SlidingWindowType = ''count'', cfg_SlowCallDurationThreshold = 2 * second,
      cfg_SlowCallRateThreshold = 1 / 2\<rparr>"

record CircuitBreakerMetrics =
  m_TotalCalls :: int
  m_SuccessfulCalls :: int
  m_FailedCalls :: int
  m_RejectedCalls :: int
  m_SlowCalls :: int
  m_StateTransitions :: int

definition zero_metrics :: CircuitBreakerMetrics where
  "zero_metrics = \<lparr>m_TotalCalls = 0, m_SuccessfulCalls = 0, m_FailedCalls = 0,
     m_RejectedCalls = 0, m_SlowCalls = 0, m_StateTransitions = 0\<rparr>"

record SlidingWindow =
  sw_size :: nat
  sw_outcomes :: "bool list"
  sw_durations :: "duration list"
  sw_index :: nat
  sw_count :: nat

subsection \<open>The sliding window\<close>

text \<open>\<^verbatim>\<open>make([]bool, size)\<close> panics on a negative size.\<close>

definition NewSlidingWindow :: "int \<Rightarrow> SlidingWindow option" where
  "NewSlidingWindow n =
     (if n < 0 then None
      else Some \<lparr>sw_size = nat n, sw_outcomes = replicate (nat n) False,
                 sw_durations = replicate (nat n) 0, sw_index = 0, sw_count = 0\<rparr>)"

text \<open>The slice writes panic when the index is out of range, as it is for size 0.\<close>

definition Record :: "bool \<Rightarrow> duration \<Rightarrow> SlidingWindow \<Rightarrow> SlidingWindow option" where
  "Record success d sw =
     (if sw_index sw < length (sw_outcomes sw) \<and> sw_index sw < length (sw_durations sw)
      then Some (sw\<lparr>sw_outcomes := (sw_outcomes sw)[sw_index sw := success],
                    sw_durations := (sw_durations sw)[sw_index sw := d],
                    sw_index := (sw_index sw + 1) mod sw_size sw,
                    sw_count := (if sw_count sw < sw_size sw then sw_count sw + 1 else sw_count sw)\<rparr>)
      else None)"

definition FailureRate :: "SlidingWindow \<Rightarrow> real" where
  "FailureRate sw =
     (if sw_count sw = 0 then 0
      else real (length (filter (\<lambda>i. \<not> sw_outcomes sw ! i) [0..<sw_count sw])) / real (sw_count sw))"

definition SlowCallRate :: "duration \<Rightarrow> SlidingWindow \<Rightarrow> real" where
  "SlowCallRate threshold sw =
     (if sw_count sw = 0 then 0
      else real (length (filter (\<lambda>i. threshold < sw_durations sw ! i) [0..<sw_count sw]))
             / real (sw_count sw))"

subsection \<open>The breaker\<close>

record CircuitBreaker =
  cb_config :: CircuitBreakerConfig
  cb_state :: State
  cb_failures :: int
  cb_successes :: int
  cb_halfOpenRequests :: int
  cb_lastFailure :: time
  cb_metrics :: CircuitBreakerMetrics
  cb_slidingWindow :: SlidingWindow

definition NewCircuitBreaker :: "CircuitBreakerConfig \<Rightarrow> CircuitBreaker option" where
  "NewCircuitBreaker config =
     (case NewSlidingWindow (cfg_SlidingWindowSize config) of
        None \<Rightarrow> None
      | Some w \<Rightarrow> Some \<lparr>cb_config = config, cb_state = StateClosed, cb_failures = 0,
          cb_successes = 0, cb_halfOpenRequests = 0, cb_lastFailure = zero_time,
          cb_metrics = zero_metrics, cb_slidingWindow = w\<rparr>)"

definition transitionTo :: "State \<Rightarrow> CircuitBreaker \<Rightarrow> CircuitBreaker" where
  "transitionTo newState cb =
     (if cb_state cb = newState then cb
      else cb\<lparr>cb_state := newState, cb_failures := 0, cb_successes := 0, cb_halfOpenRequests := 0,
              cb_metrics := (cb_metrics cb)
                \<lparr>m_StateTransitions := m_StateTransitions (cb_metrics cb) + 1\<rparr>\<rparr>)"

definition allowRequest :: "time \<Rightarrow> CircuitBreaker \<Rightarrow> 'e cb_error option \<times> CircuitBreaker" where
  "allowRequest now cb =
     (case cb_state cb of
        StateClosed \<Rightarrow> (None, cb)
      | StateOpen \<Rightarrow>
          (if now - cb_lastFailure cb > cfg_Timeout (cb_config cb)
           then (None, (transitionTo StateHalfOpen cb)\<lparr>cb_halfOpenRequests := 1\<rparr>)
           else (Some ErrCircuitOpen, cb))
      | StateHalfOpen \<Rightarrow>
          (if cb_halfOpenRequests cb \<ge> cfg_MaxHalfOpenRequests (cb_config cb)
           then (Some ErrTooManyRequests, cb)
           else (None, cb\<lparr>cb_halfOpenRequests := cb_halfOpenRequests cb + 1\<rparr>)))"

definition updateMetrics :: "bool \<Rightarrow> duration \<Rightarrow> CircuitBreaker \<Rightarrow> CircuitBreaker" where
  "updateMetrics success d cb =
     (let m = cb_metrics cb;
          m1 = m\<lparr>m_TotalCalls := m_TotalCalls m + 1\<rparr>;
          m2 = (if success then m1\<lparr>m_SuccessfulCalls := m_SuccessfulCalls m1 + 1\<rparr>
                else m1\<lparr>m_FailedCalls := m_FailedCalls m1 + 1\<rparr>);
          m3 = (if d > cfg_SlowCallDurationThreshold (cb_config cb)
                then m2\<lparr>m_SlowCalls := m_SlowCalls m2 + 1\<rparr> else m2)
      in cb\<lparr>cb_metrics := m3\<rparr>)"

definition updateStateClosed :: "time \<Rightarrow> bool \<Rightarrow> CircuitBreaker \<Rightarrow> CircuitBreaker" where
  "updateStateClosed now success cb =
     (if success then cb\<lparr>cb_failures := 0\<rparr>
      else let cb1 = cb\<lparr>cb_failures := cb_failures cb + 1, cb_lastFailure := now\<rparr>
           in if cb_failures cb1 \<ge> cfg_FailureThreshold (cb_config cb1)
              then transitionTo StateOpen cb1 else cb1)"

definition updateStateHalfOpen :: "bool \<Rightarrow> CircuitBreaker \<Rightarrow> CircuitBreaker" where
  "updateStateHalfOpen success cb =
     (if success
      then let cb1 = cb\<lparr>cb_successes := cb_successes cb + 1\<rparr>
           in if cb_successes cb1 \<ge> cfg_SuccessThreshold (cb_config cb1)
              then transitionTo StateClosed cb1 else cb1
      else transitionTo StateOpen cb)"

definition recordOutcome ::
  "time \<Rightarrow> bool \<Rightarrow> duration \<Rightarrow> CircuitBreaker \<Rightarrow> CircuitBreaker option" where
  "recordOutcome now success d cb =
     (case Record success d (cb_slidingWindow cb) of
        None \<Rightarrow> None
      | Some w \<Rightarrow>
          (let cb1 = updateMetrics success d (cb\<lparr>cb_slidingWindow := w\<rparr>)
           in Some (case cb_state cb1 of
                      StateClosed \<Rightarrow> updateStateClosed now success cb1
                    | StateHalfOpen \<Rightarrow> updateStateHalfOpen success cb1
                    | StateOpen \<Rightarrow> cb1)))"

definition recordRejection :: "CircuitBreaker \<Rightarrow> CircuitBreaker" where
  "recordRejection cb =
     cb\<lparr>cb_metrics := (cb_metrics cb)\<lparr>m_RejectedCalls := m_RejectedCalls (cb_metrics cb) + 1\<rparr>\<rparr>"

definition cb_Reset :: "CircuitBreaker \<Rightarrow> CircuitBreaker" where
  "cb_Reset cb = cb\<lparr>cb_state := StateClosed, cb_failures := 0, cb_successes := 0,
     cb_halfOpenRequests := 0\<rparr>"

definition cb_State :: "CircuitBreaker \<Rightarrow> State" where
  "cb_State cb = cb_state cb"

definition cb_Metrics :: "CircuitBreaker \<Rightarrow> CircuitBreakerMetrics" where
  "cb_Metrics cb = \<lparr>m_TotalCalls = m_TotalCalls (cb_metrics cb),
     m_SuccessfulCalls = m_SuccessfulCalls (cb_metrics cb),
     m_FailedCalls = m_FailedCalls (cb_metrics cb),
     m_RejectedCalls = m_RejectedCalls (cb_metrics cb),
     m_SlowCalls = m_SlowCalls (cb_metrics cb),
     m_StateTransitions = m_StateTransitions (cb_metrics cb)\<rparr>"

text \<open>
  The clock is read when the request is admitted (\<open>t_allow\<close>), before and after the call
  (\<open>t_start\<close>, \<open>t_end\<close>) and when a failure is recorded (\<open>t_record\<close>). The protected function
  acts on the caller's world \<^typ>\<open>'w\<close>.
\<close>

record call_times =
  t_allow :: time
  t_start :: time
  t_end :: time
  t_record :: time

definition Execute ::
  "call_times \<Rightarrow> ('w \<Rightarrow> 'e option \<times> 'w) \<Rightarrow> CircuitBreaker \<Rightarrow> 'w
     \<Rightarrow> ('e cb_error option \<times> CircuitBreaker \<times> 'w) option" where
  "Execute ts fn cb w =
     (case allowRequest (t_allow ts) cb of
        (Some err, cb1) \<Rightarrow> Some (Some err, recordRejection cb1, w)
      | (None, cb1) \<Rightarrow>
          (case fn w of (err, w1) \<Rightarrow>
             (case recordOutcome (t_record ts) (err = None) (t_end ts - t_start ts) cb1 of
                None \<Rightarrow> None
              | Some cb2 \<Rightarrow> Some (map_option FnErr err, cb2, w1))))"

definition ExecuteWithFallback ::
  "call_times \<Rightarrow> ('w \<Rightarrow> 'e option \<times> 'w) \<Rightarrow> ('e cb_error \<Rightarrow> 'w \<Rightarrow> 'f option \<times> 'w)
     \<Rightarrow> CircuitBreaker \<Rightarrow> 'w \<Rightarrow> ('f option \<times> CircuitBreaker \<times> 'w) option" where
  "ExecuteWithFallback ts fn fallback cb w =
     (case Execute ts fn cb w of
        None \<Rightarrow> None
      | Some (None, cb1, w1) \<Rightarrow> Some (None, cb1, w1)
      | Some (Some err, cb1, w1) \<Rightarrow> (case fallback err w1 of (r, w2) \<Rightarrow> Some (r, cb1, w2)))"

subsection \<open>Sequential and interleaved use\<close>

text \<open>One goroutine calling \<^verbatim>\<open>Execute\<close> in a loop, with the results it got.\<close>

fun run_executes ::
  "(call_times \<times> ('w \<Rightarrow> 'e option \<times> 'w)) list \<Rightarrow> CircuitBreaker \<Rightarrow> 'w
     \<Rightarrow> ('e cb_error option list \<times> CircuitBreaker \<times> 'w) option" where
  "run_executes [] cb w = Some ([], cb, w)"
| "run_executes ((ts, fn) # cs) cb w =
     (case Execute ts fn cb w of
        None \<Rightarrow> None
      | Some (r, cb1, w1) \<Rightarrow>
          (case run_executes cs cb1 w1 of
             None \<Rightarrow> None
           | Some (rs, cb2, w2) \<Rightarrow> Some (r # rs, cb2, w2)))"

record cb_sys =
  sys_cb :: CircuitBreaker
  sys_inflight :: nat
  sys_clock :: time

inductive cb_step :: "cb_sys \<Rightarrow> cb_sys \<Rightarrow> bool" where
  tick: "sys_clock s \<le> t \<Longrightarrow> cb_step s (s\<lparr>sys_clock := t\<rparr>)"
| admit: "allowRequest (sys_clock s) (sys_cb s) = (None :: unit cb_error option, cb1) \<Longrightarrow>
    cb_step s (s\<lparr>sys_cb := cb1, sys_inflight := sys_inflight s + 1\<rparr>)"
| reject: "allowRequest (sys_clock s) (sys_cb s) = (Some (e :: unit cb_error), cb1) \<Longrightarrow>
    cb_step s (s\<lparr>sys_cb := recordRejection cb1\<rparr>)"
| finish: "0 < sys_inflight s \<Longrightarrow>
    recordOutcome (sys_clock s) ok d (sys_cb s) = Some cb1 \<Longrightarrow>
    cb_step s (s\<lparr>sys_cb := cb1, sys_inflight := sys_inflight s - 1\<rparr>)"
| reset: "cb_step s (s\<lparr>sys_cb := cb_Reset (sys_cb s)\<rparr>)"

inductive cb_reachable :: "CircuitBreakerConfig \<Rightarrow> cb_sys \<Rightarrow> bool" for cfg where
  start: "NewCircuitBreaker cfg = Some cb \<Longrightarrow> zero_time \<le> t \<Longrightarrow>
    cb_reachable cfg \<lparr>sys_cb = cb, sys_inflight = 0, sys_clock = t\<rparr>"
| step: "cb_reachable cfg s \<Longrightarrow> cb_step s s' \<Longrightarrow> cb_reachable cfg s'"

subsection \<open>The registry\<close>

text \<open>
  A registered breaker is a shared pointer under its name: calls on it change the entry,
  so the entry holds its current value.
\<close>

record CircuitBreakerRegistry =
  reg_breakers :: "string \<rightharpoonup> CircuitBreaker"
  reg_configs :: "string \<rightharpoonup> CircuitBreakerConfig"

definition NewCircuitBreakerRegistry :: CircuitBreakerRegistry where
  "NewCircuitBreakerRegistry = \<lparr>reg_breakers = Map.empty, reg_configs = Map.empty\<rparr>"

definition RegisterConfig :: "CircuitBreakerConfig \<Rightarrow> CircuitBreakerRegistry \<Rightarrow> CircuitBreakerRegistry" where
  "RegisterConfig config r = r\<lparr>reg_configs := (reg_configs r)(cfg_Name config \<mapsto> config)\<rparr>"

definition reg_Get :: "string \<Rightarrow> CircuitBreakerRegistry \<Rightarrow> (CircuitBreaker \<times> CircuitBreakerRegistry) option" where
  "reg_Get name r =
     (case reg_breakers r name of
        Some cb \<Rightarrow> Some (cb, r)
      | None \<Rightarrow>
          (let config = (case reg_configs r name of Some c \<Rightarrow> c
                         | None \<Rightarrow> DefaultCircuitBreakerConfig name)
           in case NewCircuitBreaker config of
                None \<Rightarrow> None
              | Some cb \<Rightarrow> Some (cb, r\<lparr>reg_breakers := (reg_breakers r)(name \<mapsto> cb)\<rparr>)))"

definition reg_GetAll :: "CircuitBreakerRegistry \<Rightarrow> (string \<rightharpoonup> CircuitBreaker)" where
  "reg_GetAll r = (\<lambda>k. reg_breakers r k)"

definition reg_GetMetrics :: "CircuitBreakerRegistry \<Rightarrow> (string \<rightharpoonup> CircuitBreakerMetrics)" where
  "reg_GetMetrics r = (\<lambda>k. map_option cb_Metrics (reg_breakers r k))"

definition reg_Reset :: "CircuitBreakerRegistry \<Rightarrow> CircuitBreakerRegistry" where
  "reg_Reset r = r\<lparr>reg_breakers := (\<lambda>k. map_option cb_Reset (reg_breakers r k))\<rparr>"

subsection \<open>The window holds the last calls\<close>

definition sw_ok :: "SlidingWindow \<Rightarrow> bool" where
  "sw_ok w \<longleftrightarrow> 0 < sw_size w \<and> length (sw_outcomes w) = sw_size w
     \<and> length (sw_durations w) = sw_size w \<and> sw_count w \<le> sw_size w
     \<and> (if sw_count w < sw_size w then sw_index w = sw_count w else sw_index w < sw_size w)"

text \<open>What the buffer stands for: the recorded outcomes, oldest first.\<close>

definition sw_contents :: "SlidingWindow \<Rightarrow> bool list" where
  "sw_contents w = (if sw_count w < sw_size w then take (sw_count w) (sw_outcomes w)
     else drop (sw_index w) (sw_outcomes w) @ take (sw_index w) (sw_outcomes w))"

fun Record_all :: "(bool \<times> duration) list \<Rightarrow> SlidingWindow \<Rightarrow> SlidingWindow option" where
  "Record_all [] w = Some w"
| "Record_all ((b, d) # xs) w = (case Record b d w of None \<Rightarrow> None | Some w1 \<Rightarrow> Record_all xs w1)"

lemma sw_ok_new: "0 < n \<Longrightarrow> NewSlidingWindow n = Some w \<Longrightarrow> sw_ok w \<and> sw_contents w = [] \<and> sw_size w = nat n"
  by (auto simp: NewSlidingWindow_def sw_ok_def sw_contents_def split: if_splits)

lemma sw_ok_Record:
  assumes "sw_ok w"
  obtains w1 where "Record b d w = Some w1" "sw_ok w1" "sw_size w1 = sw_size w"
    "sw_contents w1 = push_last (sw_size w) (sw_contents w) b"
proof -
  have i: "sw_index w < sw_size w" using assms by (auto simp: sw_ok_def split: if_splits)
  define w1 where "w1 = w\<lparr>sw_outcomes := (sw_outcomes w)[sw_index w := b],
     sw_durations := (sw_durations w)[sw_index w := d],
     sw_index := (sw_index w + 1) mod sw_size w,
     sw_count := (if sw_count w < sw_size w then sw_count w + 1 else sw_count w)\<rparr>"
  have R: "Record b d w = Some w1" using assms i by (simp add: Record_def w1_def sw_ok_def)
  have ok: "sw_ok w1" using assms i by (auto simp: sw_ok_def w1_def mod_Suc split: if_splits)
  have len: "length (sw_outcomes w) = sw_size w" using assms by (simp add: sw_ok_def)
  have "sw_contents w1 = push_last (sw_size w) (sw_contents w) b"
  proof (cases "sw_count w < sw_size w")
    case True
    then have ic: "sw_index w = sw_count w" using assms by (simp add: sw_ok_def)
    have upd: "take (Suc (sw_count w)) ((sw_outcomes w)[sw_count w := b]) = take (sw_count w) (sw_outcomes w) @ [b]"
      using True len by (simp add: take_Suc_conv_app_nth)
    show ?thesis
    proof (cases "Suc (sw_count w) < sw_size w")
      case True2: True
      then show ?thesis using True ic upd len by (simp add: sw_contents_def w1_def push_last_def)
    next
      case False
      then have full: "Suc (sw_count w) = sw_size w" using True by simp
      then have "take (sw_size w) ((sw_outcomes w)[sw_count w := b]) = (sw_outcomes w)[sw_count w := b]"
        using len by simp
      then show ?thesis using True ic upd len full by (simp add: sw_contents_def w1_def push_last_def)
    qed
  next
    case False
    then have cs: "sw_count w = sw_size w" using assms by (simp add: sw_ok_def)
    have rot: "drop (Suc (sw_index w)) ((sw_outcomes w)[sw_index w := b])
        @ take (Suc (sw_index w)) ((sw_outcomes w)[sw_index w := b])
        = tl (drop (sw_index w) (sw_outcomes w) @ take (sw_index w) (sw_outcomes w)) @ [b]"
      by (rule rotated_update [OF len i])
    show ?thesis
    proof (cases "Suc (sw_index w) < sw_size w")
      case True
      then show ?thesis using cs rot len by (simp add: sw_contents_def w1_def push_last_def)
    next
      case False2: False
      then have "Suc (sw_index w) = sw_size w" using i by simp
      then show ?thesis using cs rot len by (simp add: sw_contents_def w1_def push_last_def)
    qed
  qed
  with that [OF R ok] show thesis by (simp add: w1_def)
qed

lemma Record_all_contents:
  assumes "sw_ok w"
  shows "\<exists>w1. Record_all xs w = Some w1 \<and> sw_ok w1 \<and> sw_size w1 = sw_size w
    \<and> sw_contents w1 = foldl (push_last (sw_size w)) (sw_contents w) (map fst xs)"
  using assms
proof (induction xs arbitrary: w)
  case Nil
  then show ?case by simp
next
  case (Cons x xs)
  obtain b d where x: "x = (b, d)" by (cases x)
  obtain w1 where w1: "Record b d w = Some w1" "sw_ok w1" "sw_size w1 = sw_size w"
    "sw_contents w1 = push_last (sw_size w) (sw_contents w) b"
    using Cons.prems by (rule sw_ok_Record)
  show ?case using Cons.IH [OF w1(2)] w1 x by simp
qed

lemma sw_contents_mset: "sw_ok w \<Longrightarrow> mset (sw_contents w) = mset (take (sw_count w) (sw_outcomes w))"
  by (auto simp: sw_ok_def sw_contents_def mset_rotated simp del: mset_append split: if_splits)

lemma sw_contents_length: "sw_ok w \<Longrightarrow> length (sw_contents w) = sw_count w"
  by (auto simp: sw_ok_def sw_contents_def split: if_splits)

lemma FailureRate_contents:
  assumes "sw_ok w"
  shows "FailureRate w = (if sw_contents w = [] then 0
    else real (length (filter Not (sw_contents w))) / real (length (sw_contents w)))"
proof -
  have "length (filter (\<lambda>i. \<not> sw_outcomes w ! i) [0..<sw_count w])
      = length (filter Not (take (sw_count w) (sw_outcomes w)))"
    using assms filter_nth_upt [of "sw_count w" "sw_outcomes w" Not] by (simp add: sw_ok_def)
  also have "\<dots> = length (filter Not (sw_contents w))"
    by (rule size_filter_mset) (simp add: sw_contents_mset assms)
  finally show ?thesis using sw_contents_length [OF assms] by (auto simp: FailureRate_def)
qed

subsection \<open>One call at a time\<close>

lemmas cb_defs = allowRequest_def transitionTo_def updateMetrics_def updateStateClosed_def
  updateStateHalfOpen_def recordRejection_def cb_Reset_def Let_def

lemma cb_config_kept [simp]:
  "cb_config (snd (allowRequest now cb)) = cb_config cb"
  "cb_config (transitionTo st cb) = cb_config cb"
  "cb_config (recordRejection cb) = cb_config cb"
  by (auto simp: cb_defs split: State.splits)

lemma recordOutcome_Some:
  assumes "sw_ok (cb_slidingWindow cb)"
  obtains cb1 w where "recordOutcome now ok d cb = Some cb1"
    "Record ok d (cb_slidingWindow cb) = Some w" "cb_slidingWindow cb1 = w" "sw_ok w"
    "sw_size w = sw_size (cb_slidingWindow cb)" "cb_config cb1 = cb_config cb"
proof -
  obtain w where w: "Record ok d (cb_slidingWindow cb) = Some w" "sw_ok w"
    "sw_size w = sw_size (cb_slidingWindow cb)"
    using assms by (rule sw_ok_Record)
  then obtain cb1 where R: "recordOutcome now ok d cb = Some cb1"
    by (simp add: recordOutcome_def Let_def)
  then have "cb_slidingWindow cb1 = w \<and> cb_config cb1 = cb_config cb"
    using w(1) by (auto simp: recordOutcome_def cb_defs split: State.splits)
  with that [OF R w(1) _ w(2,3)] show thesis by simp
qed

lemma Execute_closed_fail:
  assumes "cb_state cb = StateClosed" "sw_ok (cb_slidingWindow cb)" "fn w = (Some e, w1)"
  obtains cb1 where "Execute ts fn cb w = Some (Some (FnErr e), cb1, w1)"
    "cb_config cb1 = cb_config cb" "sw_ok (cb_slidingWindow cb1)" "cb_lastFailure cb1 = t_record ts"
    "cb_state cb1 = (if cb_failures cb + 1 < cfg_FailureThreshold (cb_config cb)
       then StateClosed else StateOpen)"
    "cb_failures cb + 1 < cfg_FailureThreshold (cb_config cb) \<Longrightarrow> cb_failures cb1 = cb_failures cb + 1"
proof -
  obtain sw where sw: "Record False (t_end ts - t_start ts) (cb_slidingWindow cb) = Some sw" "sw_ok sw"
    using assms(2) by (rule sw_ok_Record)
  obtain cb1 where R: "recordOutcome (t_record ts) False (t_end ts - t_start ts) cb = Some cb1"
    using assms(2) by (rule recordOutcome_Some)
  show thesis
  proof (rule that [of cb1])
    show "Execute ts fn cb w = Some (Some (FnErr e), cb1, w1)"
      using R assms by (simp add: Execute_def allowRequest_def)
  qed (use R assms(1) sw in \<open>auto simp: recordOutcome_def cb_defs\<close>)
qed

lemma Execute_halfopen_success:
  assumes "cb_state cb = StateHalfOpen" "sw_ok (cb_slidingWindow cb)" "fn w = (None, w1)"
    "cb_halfOpenRequests cb < cfg_MaxHalfOpenRequests (cb_config cb)"
  obtains cb1 where "Execute ts fn cb w = Some (None, cb1, w1)"
    "cb_config cb1 = cb_config cb" "sw_ok (cb_slidingWindow cb1)"
    "cb_state cb1 = (if cb_successes cb + 1 < cfg_SuccessThreshold (cb_config cb)
       then StateHalfOpen else StateClosed)"
    "cb_successes cb + 1 < cfg_SuccessThreshold (cb_config cb) \<Longrightarrow>
       cb_successes cb1 = cb_successes cb + 1 \<and> cb_halfOpenRequests cb1 = cb_halfOpenRequests cb + 1"
proof -
  define cb0 where "cb0 = cb\<lparr>cb_halfOpenRequests := cb_halfOpenRequests cb + 1\<rparr>"
  obtain sw where sw: "Record True (t_end ts - t_start ts) (cb_slidingWindow cb) = Some sw" "sw_ok sw"
    using assms(2) by (rule sw_ok_Record)
  have "sw_ok (cb_slidingWindow cb0)" using assms(2) by (simp add: cb0_def)
  then obtain cb1 where R: "recordOutcome (t_record ts) True (t_end ts - t_start ts) cb0 = Some cb1"
    by (rule recordOutcome_Some)
  show thesis
  proof (rule that [of cb1])
    show "Execute ts fn cb w = Some (None, cb1, w1)"
      using R assms by (simp add: Execute_def allowRequest_def cb0_def)
  qed (use R assms(1) sw in \<open>auto simp: recordOutcome_def cb_defs cb0_def\<close>)
qed

text \<open>The first call after the timeout is admitted as the first trial request.\<close>

lemma Execute_open_success:
  assumes "cb_state cb = StateOpen" "sw_ok (cb_slidingWindow cb)" "fn w = (None, w1)"
    "cfg_Timeout (cb_config cb) < t_allow ts - cb_lastFailure cb"
  obtains cb1 where "Execute ts fn cb w = Some (None, cb1, w1)"
    "cb_config cb1 = cb_config cb" "sw_ok (cb_slidingWindow cb1)"
    "cb_state cb1 = (if 1 < cfg_SuccessThreshold (cb_config cb) then StateHalfOpen else StateClosed)"
    "1 < cfg_SuccessThreshold (cb_config cb) \<Longrightarrow>
       cb_successes cb1 = 1 \<and> cb_halfOpenRequests cb1 = 1"
proof -
  define cb0 where "cb0 = (transitionTo StateHalfOpen cb)\<lparr>cb_halfOpenRequests := 1\<rparr>"
  obtain sw where sw: "Record True (t_end ts - t_start ts) (cb_slidingWindow cb) = Some sw" "sw_ok sw"
    using assms(2) by (rule sw_ok_Record)
  have "sw_ok (cb_slidingWindow cb0)" using assms(2) by (simp add: cb0_def transitionTo_def)
  then obtain cb1 where R: "recordOutcome (t_record ts) True (t_end ts - t_start ts) cb0 = Some cb1"
    by (rule recordOutcome_Some)
  show thesis
  proof (rule that [of cb1])
    show "Execute ts fn cb w = Some (None, cb1, w1)"
      using R assms by (simp add: Execute_def allowRequest_def cb0_def)
  qed (use R assms(1) sw in \<open>auto simp: recordOutcome_def cb_defs cb0_def\<close>)
qed

lemma Execute_halfopen_full:
  assumes "cb_state cb = StateHalfOpen" "cfg_MaxHalfOpenRequests (cb_config cb) \<le> cb_halfOpenRequests cb"
  shows "Execute ts fn cb w = Some (Some ErrTooManyRequests, recordRejection cb, w)"
  using assms by (simp add: Execute_def allowRequest_def)

lemma run_executes_append:
  "run_executes (cs @ ds) cb w =
     (case run_executes cs cb w of None \<Rightarrow> None
      | Some (rs, cb1, w1) \<Rightarrow> map_option (\<lambda>(rs', r). (rs @ rs', r)) (run_executes ds cb1 w1))"
  by (induction cs arbitrary: cb w) (auto simp: option.map_id split: option.splits prod.splits)

definition all_succeed :: "(call_times \<times> ('w \<Rightarrow> 'e option \<times> 'w)) list \<Rightarrow> bool" where
  "all_succeed cs \<longleftrightarrow> (\<forall>c \<in> set cs. \<forall>w. fst (snd c w) = None)"

definition all_fail :: "(call_times \<times> ('w \<Rightarrow> 'e option \<times> 'w)) list \<Rightarrow> bool" where
  "all_fail cs \<longleftrightarrow> (\<forall>c \<in> set cs. \<forall>w. fst (snd c w) \<noteq> None)"

lemma run_failing_closed:
  assumes "all_fail cs" "cb_state cb = StateClosed" "sw_ok (cb_slidingWindow cb)"
    "cb_failures cb + int (length cs) \<le> cfg_FailureThreshold (cb_config cb)" "cs \<noteq> []"
  shows "\<exists>rs cb1 w1. run_executes cs cb w = Some (rs, cb1, w1) \<and> length rs = length cs
    \<and> (\<forall>r \<in> set rs. \<exists>e. r = Some (FnErr e)) \<and> cb_lastFailure cb1 = t_record (fst (last cs))
    \<and> cb_state cb1 = (if cb_failures cb + int (length cs) < cfg_FailureThreshold (cb_config cb)
        then StateClosed else StateOpen)"
  using assms
proof (induction cs arbitrary: cb w)
  case Nil
  then show ?case by simp
next
  case (Cons c cs)
  obtain ts fn where c: "c = (ts, fn)" by (cases c)
  have "fst (fn w) \<noteq> None" using Cons.prems(1) c by (simp add: all_fail_def)
  then obtain e w1 where fn: "fn w = (Some e, w1)" by (cases "fn w") auto
  obtain cb1 where cb1: "Execute ts fn cb w = Some (Some (FnErr e), cb1, w1)"
    "cb_config cb1 = cb_config cb" "sw_ok (cb_slidingWindow cb1)" "cb_lastFailure cb1 = t_record ts"
    "cb_state cb1 = (if cb_failures cb + 1 < cfg_FailureThreshold (cb_config cb)
       then StateClosed else StateOpen)"
    "cb_failures cb + 1 < cfg_FailureThreshold (cb_config cb) \<Longrightarrow> cb_failures cb1 = cb_failures cb + 1"
    using Execute_closed_fail [where fn = fn and w = w, OF Cons.prems(2,3) fn] by blast
  show ?case
  proof (cases "cs = []")
    case True
    then show ?thesis using cb1 c by simp
  next
    case False
    then have lt: "cb_failures cb + 1 < cfg_FailureThreshold (cb_config cb)"
      using Cons.prems(4) by (cases cs) auto
    have "all_fail cs" using Cons.prems(1) by (simp add: all_fail_def)
    from Cons.IH [OF this _ cb1(3) _ False, of w1] lt Cons.prems(4) cb1 False
    show ?thesis by (auto simp: c add.assoc)
  qed
qed

lemma run_succeeding_halfopen:
  assumes "all_succeed cs" "cb_state cb = StateHalfOpen" "sw_ok (cb_slidingWindow cb)"
    "cb_halfOpenRequests cb + int (length cs) \<le> cfg_MaxHalfOpenRequests (cb_config cb)"
    "cb_successes cb + int (length cs) \<le> cfg_SuccessThreshold (cb_config cb)"
    "cb_successes cb < cfg_SuccessThreshold (cb_config cb)"
  shows "\<exists>cb1 w1. run_executes cs cb w = Some (replicate (length cs) None, cb1, w1)
    \<and> cb_config cb1 = cb_config cb
    \<and> (if cb_successes cb + int (length cs) < cfg_SuccessThreshold (cb_config cb)
       then cb_state cb1 = StateHalfOpen
         \<and> cb_halfOpenRequests cb1 = cb_halfOpenRequests cb + int (length cs)
       else cb_state cb1 = StateClosed)"
  using assms
proof (induction cs arbitrary: cb w)
  case Nil
  then show ?case by simp
next
  case (Cons c cs)
  obtain ts fn where c: "c = (ts, fn)" by (cases c)
  have "fst (fn w) = None" using Cons.prems(1) c by (simp add: all_succeed_def)
  then obtain w1 where fn: "fn w = (None, w1)" by (cases "fn w") auto
  have room: "cb_halfOpenRequests cb < cfg_MaxHalfOpenRequests (cb_config cb)"
    using Cons.prems(4) by simp
  obtain cb1 where cb1: "Execute ts fn cb w = Some (None, cb1, w1)"
    "cb_config cb1 = cb_config cb" "sw_ok (cb_slidingWindow cb1)"
    "cb_state cb1 = (if cb_successes cb + 1 < cfg_SuccessThreshold (cb_config cb)
       then StateHalfOpen else StateClosed)"
    "cb_successes cb + 1 < cfg_SuccessThreshold (cb_config cb) \<Longrightarrow>
       cb_successes cb1 = cb_successes cb + 1 \<and> cb_halfOpenRequests cb1 = cb_halfOpenRequests cb + 1"
    using Execute_halfopen_success [where fn = fn and w = w, OF Cons.prems(2,3) fn room] by blast
  show ?case
  proof (cases "cb_successes cb + 1 < cfg_SuccessThreshold (cb_config cb)")
    case True
    have "all_succeed cs" using Cons.prems(1) by (simp add: all_succeed_def)
    from Cons.IH [OF this _ cb1(3), of w1] True Cons.prems cb1
    show ?thesis by (auto simp: c add.assoc)
  next
    case False
    then have "cs = []" using Cons.prems(5) by (cases cs) auto
    then show ?thesis using False cb1 c by simp
  qed
qed

lemma run_halfopen_full:
  assumes "cb_state cb = StateHalfOpen" "cfg_MaxHalfOpenRequests (cb_config cb) \<le> cb_halfOpenRequests cb"
  shows "\<exists>cb1. run_executes cs cb w = Some (replicate (length cs) (Some ErrTooManyRequests), cb1, w)
    \<and> cb_state cb1 = StateHalfOpen"
  using assms
proof (induction cs arbitrary: cb)
  case Nil
  then show ?case by simp
next
  case (Cons c cs)
  obtain ts fn where c: "c = (ts, fn)" by (cases c)
  have "\<exists>cb1. run_executes cs (recordRejection cb) w
      = Some (replicate (length cs) (Some ErrTooManyRequests), cb1, w) \<and> cb_state cb1 = StateHalfOpen"
    by (rule Cons.IH) (use Cons.prems in \<open>simp_all add: recordRejection_def\<close>)
  then show ?case by (auto simp: c Execute_halfopen_full [OF Cons.prems])
qed

text \<open>From an open breaker whose timeout has passed, successful calls up to the limits.\<close>

lemma run_succeeding_open:
  assumes "cb_state cb = StateOpen" "sw_ok (cb_slidingWindow cb)" "all_succeed cs" "cs \<noteq> []"
    "cfg_Timeout (cb_config cb) < t_allow (fst (hd cs)) - cb_lastFailure cb"
    "int (length cs) \<le> cfg_MaxHalfOpenRequests (cb_config cb)"
    "int (length cs) \<le> cfg_SuccessThreshold (cb_config cb)"
  shows "\<exists>cb1 w1. run_executes cs cb w = Some (replicate (length cs) None, cb1, w1)
    \<and> cb_config cb1 = cb_config cb
    \<and> (if int (length cs) < cfg_SuccessThreshold (cb_config cb)
       then cb_state cb1 = StateHalfOpen \<and> cb_halfOpenRequests cb1 = int (length cs)
       else cb_state cb1 = StateClosed)"
proof -
  obtain ts fn ds where cs: "cs = (ts, fn) # ds" using assms(4) by (cases cs) auto
  have "fst (fn w) = None" using assms(3) cs by (simp add: all_succeed_def)
  then obtain w1 where fn: "fn w = (None, w1)" by (cases "fn w") auto
  have late: "cfg_Timeout (cb_config cb) < t_allow ts - cb_lastFailure cb" using assms(5) cs by simp
  obtain cb1 where cb1: "Execute ts fn cb w = Some (None, cb1, w1)"
    "cb_config cb1 = cb_config cb" "sw_ok (cb_slidingWindow cb1)"
    "cb_state cb1 = (if 1 < cfg_SuccessThreshold (cb_config cb) then StateHalfOpen else StateClosed)"
    "1 < cfg_SuccessThreshold (cb_config cb) \<Longrightarrow>
       cb_successes cb1 = 1 \<and> cb_halfOpenRequests cb1 = 1"
    using Execute_open_success [where fn = fn and w = w, OF assms(1,2) fn late] by blast
  show ?thesis
  proof (cases "1 < cfg_SuccessThreshold (cb_config cb)")
    case True
    have "all_succeed ds" using assms(3) cs by (simp add: all_succeed_def)
    from run_succeeding_halfopen [OF this _ cb1(3), of w1] True assms(6,7) cs cb1
    show ?thesis by (auto simp: add.commute)
  next
    case False
    then have "ds = []" using assms(7) cs by (cases ds) auto
    then show ?thesis using False cb1 cs by simp
  qed
qed

lemma NewCircuitBreaker_fields:
  "NewCircuitBreaker c = Some cb \<Longrightarrow> cb_state cb = StateClosed \<and> cb_config cb = c"
  by (auto simp: NewCircuitBreaker_def split: option.splits)

subsection \<open>Interleaved calls\<close>

definition cb_counters_ok :: "CircuitBreaker \<Rightarrow> bool" where
  "cb_counters_ok cb \<longleftrightarrow>
     (case cb_state cb of
        StateClosed \<Rightarrow> 0 \<le> cb_failures cb
          \<and> (cb_failures cb = 0 \<or> cb_failures cb < cfg_FailureThreshold (cb_config cb))
          \<and> cb_successes cb = 0 \<and> cb_halfOpenRequests cb = 0
      | StateOpen \<Rightarrow> cb_failures cb = 0 \<and> cb_successes cb = 0 \<and> cb_halfOpenRequests cb = 0
      | StateHalfOpen \<Rightarrow> cb_failures cb = 0 \<and> 0 \<le> cb_successes cb
          \<and> (cb_successes cb = 0 \<or> cb_successes cb < cfg_SuccessThreshold (cb_config cb))
          \<and> 1 \<le> cb_halfOpenRequests cb
          \<and> cb_halfOpenRequests cb \<le> max 1 (cfg_MaxHalfOpenRequests (cb_config cb)))"

definition cb_metrics_ok :: "CircuitBreaker \<Rightarrow> bool" where
  "cb_metrics_ok cb \<longleftrightarrow>
     (let m = cb_metrics cb in m_TotalCalls m = m_SuccessfulCalls m + m_FailedCalls m
        \<and> 0 \<le> m_SuccessfulCalls m \<and> 0 \<le> m_FailedCalls m \<and> 0 \<le> m_RejectedCalls m
        \<and> 0 \<le> m_SlowCalls m \<and> m_SlowCalls m \<le> m_TotalCalls m \<and> 0 \<le> m_StateTransitions m)"

definition cb_inv :: "CircuitBreakerConfig \<Rightarrow> cb_sys \<Rightarrow> bool" where
  "cb_inv cfg s \<longleftrightarrow> cb_config (sys_cb s) = cfg \<and> sw_ok (cb_slidingWindow (sys_cb s))
     \<and> sw_size (cb_slidingWindow (sys_cb s)) = nat (cfg_SlidingWindowSize cfg)
     \<and> cb_lastFailure (sys_cb s) \<le> sys_clock s
     \<and> cb_counters_ok (sys_cb s) \<and> cb_metrics_ok (sys_cb s)"

lemma cb_inv_start:
  assumes "0 < cfg_SlidingWindowSize cfg" "NewCircuitBreaker cfg = Some cb" "zero_time \<le> t"
  shows "cb_inv cfg \<lparr>sys_cb = cb, sys_inflight = n, sys_clock = t\<rparr>"
proof -
  obtain w where w: "NewSlidingWindow (cfg_SlidingWindowSize cfg) = Some w"
    using assms(1) by (simp add: NewSlidingWindow_def)
  show ?thesis using assms(2,3) w sw_ok_new [OF assms(1) w]
    by (auto simp: NewCircuitBreaker_def cb_inv_def cb_counters_ok_def cb_metrics_ok_def zero_metrics_def)
qed

text \<open>Recording an outcome: window and metrics first, then the state's own update.\<close>

definition update_state :: "time \<Rightarrow> bool \<Rightarrow> CircuitBreaker \<Rightarrow> CircuitBreaker" where
  "update_state now ok cb = (case cb_state cb of StateClosed \<Rightarrow> updateStateClosed now ok cb
     | StateHalfOpen \<Rightarrow> updateStateHalfOpen ok cb | StateOpen \<Rightarrow> cb)"

lemma recordOutcome_split:
  assumes "recordOutcome now ok d cb = Some cb1"
  obtains w where "cb1 = update_state now ok (updateMetrics ok d (cb\<lparr>cb_slidingWindow := w\<rparr>))"
  using assms by (auto simp: recordOutcome_def update_state_def Let_def split: option.splits)

lemma update_state_counters: "cb_counters_ok cb \<Longrightarrow> cb_counters_ok (update_state now ok cb)"
  by (cases "cb_state cb")
    (simp_all add: update_state_def updateStateClosed_def updateStateHalfOpen_def transitionTo_def
      cb_counters_ok_def Let_def)

lemma update_state_metrics: "cb_metrics_ok cb \<Longrightarrow> cb_metrics_ok (update_state now ok cb)"
  by (cases "cb_state cb")
    (simp_all add: update_state_def updateStateClosed_def updateStateHalfOpen_def transitionTo_def
      cb_metrics_ok_def Let_def)

lemma updateMetrics_kept [simp]:
  "cb_counters_ok (updateMetrics ok d (cb\<lparr>cb_slidingWindow := w\<rparr>)) = cb_counters_ok cb"
  "cb_metrics_ok cb \<Longrightarrow> cb_metrics_ok (updateMetrics ok d (cb\<lparr>cb_slidingWindow := w\<rparr>))"
  by (cases "cb_state cb"; simp add: updateMetrics_def cb_counters_ok_def cb_metrics_ok_def Let_def)+

lemma recordOutcome_counters:
  assumes "cb_counters_ok cb" "recordOutcome now ok d cb = Some cb1"
  shows "cb_counters_ok cb1"
  using assms(2) by (rule recordOutcome_split) (simp add: update_state_counters assms(1))

lemma recordOutcome_metrics:
  assumes "cb_metrics_ok cb" "recordOutcome now ok d cb = Some cb1"
  shows "cb_metrics_ok cb1"
  using assms(2) by (rule recordOutcome_split) (simp add: update_state_metrics assms(1))

lemma recordOutcome_lastFailure:
  assumes "recordOutcome now ok d cb = Some cb1"
  shows "cb_lastFailure cb1 = cb_lastFailure cb \<or> cb_lastFailure cb1 = now"
  using assms
  by (rule recordOutcome_split) (cases "cb_state cb"; simp add: update_state_def cb_defs)

lemma allowRequest_kept:
  assumes "allowRequest now cb = (r, cb1)"
  shows "cb_config cb1 = cb_config cb \<and> cb_slidingWindow cb1 = cb_slidingWindow cb
    \<and> cb_lastFailure cb1 = cb_lastFailure cb
    \<and> (cb_counters_ok cb \<longrightarrow> cb_counters_ok cb1) \<and> (cb_metrics_ok cb \<longrightarrow> cb_metrics_ok cb1)"
  using assms
  by (auto simp: cb_defs cb_counters_ok_def cb_metrics_ok_def split: State.splits if_splits)

lemma cb_inv_step:
  assumes "cb_step s s'" "cb_inv cfg s"
  shows "cb_inv cfg s'"
  using assms(1)
proof (cases rule: cb_step.cases)
  case (tick t)
  then show ?thesis using assms(2) by (simp add: cb_inv_def)
next
  case (admit cb1)
  then show ?thesis using assms(2) allowRequest_kept [OF admit(2)] by (simp add: cb_inv_def)
next
  case (reject e cb1)
  have "cb_counters_ok (recordRejection cb1) = cb_counters_ok cb1"
    "cb_metrics_ok cb1 \<Longrightarrow> cb_metrics_ok (recordRejection cb1)"
    by (auto simp: recordRejection_def cb_counters_ok_def cb_metrics_ok_def Let_def split: State.splits)
  then show ?thesis using reject(1) assms(2) allowRequest_kept [OF reject(2)]
    by (simp add: cb_inv_def) (simp add: recordRejection_def)
next
  case (finish ok d cb1)
  have "sw_ok (cb_slidingWindow (sys_cb s))" using assms(2) by (simp add: cb_inv_def)
  then obtain cb2 w where "recordOutcome (sys_clock s) ok d (sys_cb s) = Some cb2"
    "cb_slidingWindow cb2 = w" "sw_ok w" "sw_size w = sw_size (cb_slidingWindow (sys_cb s))"
    "cb_config cb2 = cb_config (sys_cb s)"
    by (rule recordOutcome_Some)
  then show ?thesis
    using finish assms(2) recordOutcome_counters [OF _ finish(3)] recordOutcome_metrics [OF _ finish(3)]
      recordOutcome_lastFailure [OF finish(3)]
    by (auto simp: cb_inv_def)
next
  case reset
  then show ?thesis using assms(2)
    by (auto simp: cb_inv_def cb_Reset_def cb_counters_ok_def cb_metrics_ok_def)
qed

lemma cb_inv_reachable:
  assumes "cb_reachable cfg s" "0 < cfg_SlidingWindowSize cfg"
  shows "cb_inv cfg s"
  using assms
  by (induction rule: cb_reachable.induct) (auto intro: cb_inv_start cb_inv_step)

lemma run_open_rejects:
  assumes "cb_state cb = StateOpen"
    "\<And>c. c \<in> set cs \<Longrightarrow> t_allow (fst c) - cb_lastFailure cb \<le> cfg_Timeout (cb_config cb)"
  shows "\<exists>cb1. run_executes cs cb w = Some (replicate (length cs) (Some ErrCircuitOpen), cb1, w)
    \<and> cb_state cb1 = StateOpen"
  using assms
proof (induction cs arbitrary: cb)
  case Nil
  then show ?case by simp
next
  case (Cons c cs)
  obtain ts fn where c: "c = (ts, fn)" by (cases c)
  have "t_allow ts - cb_lastFailure cb \<le> cfg_Timeout (cb_config cb)" using Cons.prems(2) [of c] c by simp
  then have ex: "Execute ts fn cb w = Some (Some ErrCircuitOpen, recordRejection cb, w)"
    using Cons.prems(1) by (simp add: Execute_def allowRequest_def)
  have "\<exists>cb1. run_executes cs (recordRejection cb) w
      = Some (replicate (length cs) (Some ErrCircuitOpen), cb1, w) \<and> cb_state cb1 = StateOpen"
    by (rule Cons.IH) (use Cons.prems in \<open>auto simp: recordRejection_def\<close>)
  then show ?case by (auto simp: c ex)
qed

lemma run_executes_config:
  "run_executes cs cb w = Some (rs, cb1, w1) \<Longrightarrow> cb_config cb1 = cb_config cb"
proof (induction cs arbitrary: cb w rs)
  case Nil
  then show ?case by simp
next
  case (Cons c cs)
  obtain ts fn where c: "c = (ts, fn)" by (cases c)
  obtain r cb2 w2 where ex: "Execute ts fn cb w = Some (r, cb2, w2)"
    using Cons.prems c by (auto split: option.splits)
  have rec: "cb_config z = cb_config y" if "recordOutcome u v x y = Some z" for u v x y z
    using that by (rule recordOutcome_split) (cases "cb_state y"; simp add: update_state_def cb_defs)
  have "cb_config cb2 = cb_config cb"
    using ex by (auto simp: Execute_def dest!: rec allowRequest_kept split: prod.splits option.splits)
  with Cons c ex show ?case by (fastforce split: option.splits)
qed

subsection \<open>Properties\<close>

text \<open>
  C10. Under any interleaving of admissions, rejections, completions, resets and passing
  time, the counters stay within the configured thresholds, the window stays well formed,
  the metrics add up, at most \<^verbatim>\<open>MaxHalfOpenRequests\<close> (and at least one) trial requests
  are admitted per half-open episode, and recording an outcome never panics.
\<close>

theorem breaker_invariant:
  assumes "cb_reachable cfg s" "0 < cfg_SlidingWindowSize cfg"
  shows "cb_inv cfg s \<and> (\<exists>cb1. recordOutcome now ok d (sys_cb s) = Some cb1)"
proof -
  from assms have inv: "cb_inv cfg s" by (rule cb_inv_reachable)
  then have "sw_ok (cb_slidingWindow (sys_cb s))" by (simp add: cb_inv_def)
  then obtain cb1 where "recordOutcome now ok d (sys_cb s) = Some cb1" by (rule recordOutcome_Some)
  with inv show ?thesis by blast
qed

definition demo_config :: CircuitBreakerConfig where
  "demo_config = DefaultCircuitBreakerConfig ''db''"

definition demo_breaker :: CircuitBreaker where
  "demo_breaker = \<lparr>cb_config = demo_config, cb_state = StateClosed, cb_failures = 0,
     cb_successes = 0, cb_halfOpenRequests = 0, cb_lastFailure = zero_time,
     cb_metrics = zero_metrics,
     cb_slidingWindow = \<lparr>sw_size = 10, sw_outcomes = replicate 10 False,
       sw_durations = replicate 10 0, sw_index = 0, sw_count = 0\<rparr>\<rparr>"

definition demo_times :: "time \<Rightarrow> call_times" where
  "demo_times t = \<lparr>t_allow = t, t_start = t, t_end = t + 1, t_record = t + 1\<rparr>"

definition demo_ok :: "nat \<Rightarrow> unit option \<times> nat" where
  "demo_ok n = (None, Suc n)"

definition demo_err :: "nat \<Rightarrow> unit option \<times> nat" where
  "demo_err n = (Some (), Suc n)"

lemma demo_new: "NewCircuitBreaker demo_config = Some demo_breaker"
  by (simp add: demo_config_def demo_breaker_def DefaultCircuitBreakerConfig_def
      NewCircuitBreaker_def NewSlidingWindow_def)

lemma demo_sw_ok: "sw_ok (cb_slidingWindow demo_breaker)"
  by (simp add: sw_ok_def demo_breaker_def)

lemma demo_reachable: "cb_reachable demo_config \<lparr>sys_cb = demo_breaker, sys_inflight = 0, sys_clock = 5\<rparr>"
  by (rule cb_reachable.start) (simp_all add: demo_new zero_time_def)

theorem breaker_invariant_witness:
  "cb_reachable demo_config \<lparr>sys_cb = demo_breaker, sys_inflight = 1, sys_clock = 5\<rparr>
   \<and> cb_inv demo_config \<lparr>sys_cb = demo_breaker, sys_inflight = 1, sys_clock = 5\<rparr>"
proof -
  have "allowRequest 5 demo_breaker = (None :: unit cb_error option, demo_breaker)"
    by (simp add: allowRequest_def demo_breaker_def)
  then have "cb_step \<lparr>sys_cb = demo_breaker, sys_inflight = 0, sys_clock = 5\<rparr>
      \<lparr>sys_cb = demo_breaker, sys_inflight = 1, sys_clock = 5\<rparr>"
    using cb_step.admit [of "\<lparr>sys_cb = demo_breaker, sys_inflight = 0, sys_clock = 5\<rparr>"] by simp
  with demo_reachable have r: "cb_reachable demo_config \<lparr>sys_cb = demo_breaker, sys_inflight = 1, sys_clock = 5\<rparr>"
    by (rule cb_reachable.step)
  have "0 < cfg_SlidingWindowSize demo_config" by (simp add: demo_config_def DefaultCircuitBreakerConfig_def)
  from breaker_invariant [OF r this] r show ?thesis by blast
qed

text \<open>
  C4. A closed breaker with no failures on record stays closed through fewer than
  \<^verbatim>\<open>FailureThreshold\<close> consecutive failing calls and passes every error on; the failing call
  that reaches the threshold opens it, and every call arriving within \<^verbatim>\<open>Timeout\<close> of that
  failure gets \<^verbatim>\<open>ErrCircuitOpen\<close> without the protected function being run.
\<close>

theorem breaker_trips_and_rejects:
  assumes "cb_state cb = StateClosed" "cb_failures cb = 0" "sw_ok (cb_slidingWindow cb)"
    and "all_fail cs" "cs \<noteq> []" "int (length cs) \<le> cfg_FailureThreshold (cb_config cb)"
    and "\<forall>c \<in> set ds. t_allow (fst c) - t_record (fst (last cs)) \<le> cfg_Timeout (cb_config cb)"
  shows "\<exists>rs cb1 w1. run_executes cs cb w = Some (rs, cb1, w1)
    \<and> length rs = length cs \<and> (\<forall>r \<in> set rs. \<exists>e. r = Some (FnErr e))
    \<and> (if int (length cs) < cfg_FailureThreshold (cb_config cb) then cb_state cb1 = StateClosed
       else \<exists>cb2. run_executes (cs @ ds) cb w
              = Some (rs @ replicate (length ds) (Some ErrCircuitOpen), cb2, w1) \<and> cb_state cb2 = StateOpen)"
proof -
  obtain rs cb1 w1 where r: "run_executes cs cb w = Some (rs, cb1, w1)" "length rs = length cs"
    "\<forall>r \<in> set rs. \<exists>e. r = Some (FnErr e)" "cb_lastFailure cb1 = t_record (fst (last cs))"
    "cb_state cb1 = (if int (length cs) < cfg_FailureThreshold (cb_config cb)
        then StateClosed else StateOpen)"
    using run_failing_closed [OF assms(4,1,3), of w] assms(2,5,6) by auto
  have cfg: "cb_config cb1 = cb_config cb" using r(1) by (rule run_executes_config)
  show ?thesis
  proof (cases "int (length cs) < cfg_FailureThreshold (cb_config cb)")
    case True
    then show ?thesis using r by auto
  next
    case False
    then obtain cb2 where "run_executes ds cb1 w1 = Some (replicate (length ds) (Some ErrCircuitOpen), cb2, w1)"
      "cb_state cb2 = StateOpen"
      using run_open_rejects [of cb1 ds w1] r assms(7) cfg by auto
    then show ?thesis using False r by (auto simp: run_executes_append)
  qed
qed

theorem breaker_trips_and_rejects_witness:
  "\<exists>rs cb1 w1. run_executes (map (\<lambda>t. (demo_times t, demo_err)) [1, 2, 3, 4, 5]) demo_breaker 0 = Some (rs, cb1, w1)
    \<and> (\<exists>cb2. run_executes (map (\<lambda>t. (demo_times t, demo_err)) [1, 2, 3, 4, 5] @ [(demo_times 7, demo_ok)]) demo_breaker 0
         = Some (rs @ [Some ErrCircuitOpen], cb2, w1) \<and> cb_state cb2 = StateOpen)"
proof -
  let ?cs = "map (\<lambda>t. (demo_times t, demo_err)) [1, 2, 3, 4, 5]"
  have "\<exists>rs cb1 w1. run_executes ?cs demo_breaker 0 = Some (rs, cb1, w1)
    \<and> length rs = length ?cs \<and> (\<forall>r \<in> set rs. \<exists>e. r = Some (FnErr e))
    \<and> (if int (length ?cs) < cfg_FailureThreshold (cb_config demo_breaker) then cb_state cb1 = StateClosed
       else \<exists>cb2. run_executes (?cs @ [(demo_times 7, demo_ok)]) demo_breaker 0
              = Some (rs @ replicate (length [(demo_times 7, demo_ok)]) (Some ErrCircuitOpen), cb2, w1)
              \<and> cb_state cb2 = StateOpen)"
    by (rule breaker_trips_and_rejects)
      (simp_all add: demo_breaker_def demo_config_def DefaultCircuitBreakerConfig_def all_fail_def
        demo_err_def demo_times_def sw_ok_def)
  moreover have "\<not> int (length ?cs) < cfg_FailureThreshold (cb_config demo_breaker)"
    by (simp add: demo_breaker_def demo_config_def DefaultCircuitBreakerConfig_def)
  ultimately show ?thesis by auto
qed


definition demo_open :: "int \<Rightarrow> CircuitBreaker" where
  "demo_open maxHalf = demo_breaker\<lparr>cb_state := StateOpen, cb_lastFailure := 0,
     cb_config := demo_config\<lparr>cfg_MaxHalfOpenRequests := maxHalf\<rparr>\<rparr>"

lemmas demo_defs = demo_open_def demo_breaker_def demo_config_def DefaultCircuitBreakerConfig_def
  demo_times_def demo_ok_def demo_err_def


text \<open>
  With \<^verbatim>\<open>MaxHalfOpenRequests\<close> below \<^verbatim>\<open>SuccessThreshold\<close> the breaker never recovers:
  after the timeout it admits \<^verbatim>\<open>MaxHalfOpenRequests\<close> calls, and even if all of them
  succeed, every later call, at any time, is refused with \<^verbatim>\<open>ErrTooManyRequests\<close>.
\<close>

theorem breaker_halfopen_starves:
  assumes "cb_state cb = StateOpen" "sw_ok (cb_slidingWindow cb)" "all_succeed cs" "cs \<noteq> []"
    and "cfg_Timeout (cb_config cb) < t_allow (fst (hd cs)) - cb_lastFailure cb"
    and "int (length cs) = cfg_MaxHalfOpenRequests (cb_config cb)"
    and "cfg_MaxHalfOpenRequests (cb_config cb) < cfg_SuccessThreshold (cb_config cb)"
  shows "\<exists>cb1 w1. run_executes (cs @ ds) cb w
      = Some (replicate (length cs) None @ replicate (length ds) (Some ErrTooManyRequests), cb1, w1)
    \<and> cb_state cb1 = StateHalfOpen"
proof -
  obtain cb1 w1 where r: "run_executes cs cb w = Some (replicate (length cs) None, cb1, w1)"
    "cb_config cb1 = cb_config cb" "cb_state cb1 = StateHalfOpen" "cb_halfOpenRequests cb1 = int (length cs)"
    using run_succeeding_open [OF assms(1-5), of w] assms(6,7) by auto
  obtain cb2 where "run_executes ds cb1 w1 = Some (replicate (length ds) (Some ErrTooManyRequests), cb2, w1)"
    "cb_state cb2 = StateHalfOpen"
    using run_halfopen_full [of cb1 ds w1] r assms(6) by auto
  with r show ?thesis by (auto simp: run_executes_append)
qed

theorem breaker_halfopen_starves_witness:
  "\<exists>cb1 w1. run_executes ([(demo_times (31 * second), demo_ok)] @ replicate 50 (demo_times (9000 * hour), demo_ok))
       (demo_open 1) 0
     = Some ([None] @ replicate 50 (Some ErrTooManyRequests), cb1, w1) \<and> cb_state cb1 = StateHalfOpen"
proof -
  let ?cs = "[(demo_times (31 * second), demo_ok)]" and ?ds = "replicate 50 (demo_times (9000 * hour), demo_ok)"
  have "\<exists>cb1 w1. run_executes (?cs @ ?ds) (demo_open 1) 0
      = Some (replicate (length ?cs) None @ replicate (length ?ds) (Some ErrTooManyRequests), cb1, w1)
    \<and> cb_state cb1 = StateHalfOpen"
    by (rule breaker_halfopen_starves) (simp_all add: demo_defs sw_ok_def all_succeed_def)
  then show ?thesis by simp
qed

text \<open>
  A failed trial request reopens the breaker without restarting its timeout: the very
  next call, at any later instant, is admitted again and runs the protected function.
\<close>

theorem breaker_reopens_without_waiting:
  assumes "cb_state cb = StateOpen" "sw_ok (cb_slidingWindow cb)"
    and "cfg_Timeout (cb_config cb) < t_allow ts - cb_lastFailure cb" "fn w = (Some e, w1)"
    and "t_allow ts \<le> t_allow ts'" "fn' w1 = (r, w2)"
  shows "\<exists>cb1 cb2. Execute ts fn cb w = Some (Some (FnErr e), cb1, w1) \<and> cb_state cb1 = StateOpen
    \<and> Execute ts' fn' cb1 w1 = Some (map_option FnErr r, cb2, w2)"
proof -
  define cb0 where "cb0 = (transitionTo StateHalfOpen cb)\<lparr>cb_halfOpenRequests := 1\<rparr>"
  have "sw_ok (cb_slidingWindow cb0)" using assms(2) by (simp add: cb0_def transitionTo_def)
  then obtain cb1 sw where R: "recordOutcome (t_record ts) False (t_end ts - t_start ts) cb0 = Some cb1"
    "cb_slidingWindow cb1 = sw" "sw_ok sw" "cb_config cb1 = cb_config cb0"
    by (rule recordOutcome_Some)
  then have st: "cb_state cb1 = StateOpen \<and> cb_lastFailure cb1 = cb_lastFailure cb"
    using assms(1) by (auto simp: recordOutcome_def cb_defs cb0_def split: option.splits)
  have ex: "Execute ts fn cb w = Some (Some (FnErr e), cb1, w1)"
    using R assms(1,3,4) by (simp add: Execute_def allowRequest_def cb0_def)
  define cb3 where "cb3 = (transitionTo StateHalfOpen cb1)\<lparr>cb_halfOpenRequests := 1\<rparr>"
  have "sw_ok (cb_slidingWindow cb3)" using R by (simp add: cb3_def transitionTo_def)
  then obtain cb2 where "recordOutcome (t_record ts') (r = None) (t_end ts' - t_start ts') cb3 = Some cb2"
    by (rule recordOutcome_Some)
  then have "Execute ts' fn' cb1 w1 = Some (map_option FnErr r, cb2, w2)"
    using st R assms(3,5,6) by (simp add: Execute_def allowRequest_def cb3_def cb0_def)
  with ex st show ?thesis by blast
qed

theorem breaker_reopens_without_waiting_witness:
  "\<exists>cb1 cb2. Execute (demo_times (31 * second)) demo_err (demo_open 3) 0 = Some (Some (FnErr ()), cb1, 1)
    \<and> cb_state cb1 = StateOpen
    \<and> Execute (demo_times (31 * second + 5)) demo_ok cb1 1 = Some (map_option FnErr None, cb2, 2)"
  by (rule breaker_reopens_without_waiting) (simp_all add: demo_defs sw_ok_def)

text \<open>
  The ring buffer refines the list of the last \<^verbatim>\<open>size\<close> calls: after any recorded
  history the failure rate is the fraction of failures among the most recent
  \<^verbatim>\<open>size\<close> outcomes, and 0 when nothing was recorded.
\<close>

theorem window_failure_rate:
  assumes "0 < n" "NewSlidingWindow n = Some w"
  shows "\<exists>w1. Record_all xs w = Some w1
    \<and> sw_contents w1 = drop (length xs - nat n) (map fst xs)
    \<and> FailureRate w1 = (let recent = drop (length xs - nat n) (map fst xs)
        in if recent = [] then 0 else real (length (filter Not recent)) / real (length recent))"
proof -
  have w: "sw_ok w" "sw_contents w = []" "sw_size w = nat n" using sw_ok_new [OF assms] by auto
  obtain w1 where w1: "Record_all xs w = Some w1" "sw_ok w1"
    "sw_contents w1 = foldl (push_last (nat n)) [] (map fst xs)"
    using Record_all_contents [OF w(1), of xs] w by auto
  moreover have "foldl (push_last (nat n)) [] (map fst xs) = drop (length xs - nat n) (map fst xs)"
    using foldl_push_last [of "nat n" "map fst xs"] assms(1) by simp
  ultimately show ?thesis using FailureRate_contents [OF w1(2)] by (simp add: Let_def)
qed

theorem window_failure_rate_witness:
  "\<exists>w1. Record_all [(False, 5), (True, 6), (True, 7)]
      \<lparr>sw_size = 2, sw_outcomes = [False, False], sw_durations = [0, 0], sw_index = 0, sw_count = 0\<rparr> = Some w1
    \<and> FailureRate w1 = 0"
proof -
  have "NewSlidingWindow 2 = Some \<lparr>sw_size = 2, sw_outcomes = [False, False], sw_durations = [0, 0],
      sw_index = 0, sw_count = 0\<rparr>"
    by (simp add: NewSlidingWindow_def numeral_eq_Suc)
  from window_failure_rate [OF _ this, of "[(False, 5), (True, 6), (True, 7)]"]
  show ?thesis by (auto simp: Let_def)
qed

text \<open>
  The registry hands out one breaker per name: the first \<^verbatim>\<open>Get\<close> creates it from the
  registered configuration (or the default one), every later \<^verbatim>\<open>Get\<close> returns the same
  breaker and leaves the registry alone, even if a new configuration was registered under
  that name in between, and no other name is touched.
\<close>

theorem registry_get_stable:
  assumes "reg_Get name r = Some (cb, r1)"
  shows "reg_Get name (RegisterConfig config r1) = Some (cb, RegisterConfig config r1)
    \<and> (\<forall>other. other \<noteq> name \<longrightarrow> reg_breakers r1 other = reg_breakers r other)
    \<and> (reg_breakers r name = None \<longrightarrow> cb_state cb = StateClosed
        \<and> cb_config cb = (case reg_configs r name of Some c \<Rightarrow> c | None \<Rightarrow> DefaultCircuitBreakerConfig name))"
proof (cases "reg_breakers r name")
  case None
  let ?c = "case reg_configs r name of Some c \<Rightarrow> c | None \<Rightarrow> DefaultCircuitBreakerConfig name"
  have new: "NewCircuitBreaker ?c = Some cb" and r1: "r1 = r\<lparr>reg_breakers := (reg_breakers r)(name \<mapsto> cb)\<rparr>"
    using assms None by (simp_all add: reg_Get_def Let_def split: option.splits)
  from NewCircuitBreaker_fields [OF new] show ?thesis
    by (simp add: r1 reg_Get_def RegisterConfig_def)
next
  case (Some a)
  then show ?thesis using assms by (simp add: reg_Get_def RegisterConfig_def)
qed

theorem registry_get_stable_witness:
  "\<exists>r1. reg_Get ''db'' NewCircuitBreakerRegistry = Some (demo_breaker, r1)
    \<and> reg_Get ''db'' (RegisterConfig (demo_config\<lparr>cfg_FailureThreshold := 1\<rparr>) r1)
       = Some (demo_breaker, RegisterConfig (demo_config\<lparr>cfg_FailureThreshold := 1\<rparr>) r1)"
proof -
  have "reg_Get ''db'' NewCircuitBreakerRegistry
      = Some (demo_breaker, NewCircuitBreakerRegistry\<lparr>reg_breakers := [''db'' \<mapsto> demo_breaker]\<rparr>)"
    using demo_new by (simp add: reg_Get_def NewCircuitBreakerRegistry_def demo_config_def)
  from this registry_get_stable [OF this, of "demo_config\<lparr>cfg_FailureThreshold := 1\<rparr>"]
  show ?thesis by blast
qed

end
