(* ===== verification/Rate_Limiter.thy ===== *)
theory Rate_Limiter
  imports Arcana_Prelude
begin

text \<open>
  The two limiters of \<^verbatim>\<open>internal/resilience/ratelimiter.go\<close>: the token bucket
  (\<^verbatim>\<open>TokenBucketLimiter\<close>) and the sliding log of timestamps (\<^verbatim>\<open>SlidingWindowLimiter\<close>).
  A method that holds the limiter's mutex is one function of the state and of the clock
  it reads; \<^verbatim>\<open>WaitN\<close> gives the mutex up while it sleeps and is therefore split into what
  it does before and after the sleep. The contract both limiters share, one request
  counted as allowed or rejected per call, is the locale \<open>rate_limiter\<close>.
\<close>

subsection \<open>Data\<close>

record RateLimiterConfig =
  rl_Name :: string
  rl_Rate :: int
  rl_Period :: duration
  rl_BurstSize :: int
  rl_WaitTimeout :: duration
  rl_FairnessEnabled :: bool

definition DefaultRateLimiterConfig :: "string \<Rightarrow> RateLimiterConfig" where
  "DefaultRateLimiterConfig name = \<lparr>rl_Name = name, rl_Rate = 100, rl_Period = second,
     rl_BurstSize = 10, rl_WaitTimeout = second, rl_FairnessEnabled = True\<rparr>"

record RateLimiterMetrics =
  rm_TotalRequests :: int
  rm_AllowedRequests :: int
  rm_RejectedRequests :: int
  rm_WaitedRequests :: int

definition zero_rl_metrics :: RateLimiterMetrics where
  "zero_rl_metrics = \<lparr>rm_TotalRequests = 0, rm_AllowedRequests = 0, rm_RejectedRequests = 0,
     rm_WaitedRequests = 0\<rparr>"

definition incr_total :: "RateLimiterMetrics \<Rightarrow> RateLimiterMetrics" where
  "incr_total m = m\<lparr>rm_TotalRequests := rm_TotalRequests m + 1\<rparr>"

definition incr_allowed :: "RateLimiterMetrics \<Rightarrow> RateLimiterMetrics" where
  "incr_allowed m = m\<lparr>rm_AllowedRequests := rm_AllowedRequests m + 1\<rparr>"

definition incr_rejected :: "RateLimiterMetrics \<Rightarrow> RateLimiterMetrics" where
  "incr_rejected m = m\<lparr>rm_RejectedRequests := rm_RejectedRequests m + 1\<rparr>"

definition incr_waited :: "RateLimiterMetrics \<Rightarrow> RateLimiterMetrics" where
  "incr_waited m = m\<lparr>rm_WaitedRequests := rm_WaitedRequests m + 1\<rparr>"

lemmas incr_defs = incr_total_def incr_allowed_def incr_rejected_def incr_waited_def

subsection \<open>Token bucket\<close>

record TokenBucketLimiter =
  tb_config :: RateLimiterConfig
  tb_tokens :: real
  tb_maxTokens :: real
  tb_refillRate :: real
  tb_lastRefill :: time
  tb_metrics :: RateLimiterMetrics

definition NewTokenBucketLimiter :: "time \<Rightarrow> RateLimiterConfig \<Rightarrow> TokenBucketLimiter" where
  "NewTokenBucketLimiter now config =
     (let maxTokens = real_of_int (rl_BurstSize config);
          refillRate = real_of_int (rl_Rate config) / real_of_int (rl_Period config)
      in \<lparr>tb_config = config, tb_tokens = maxTokens, tb_maxTokens = maxTokens,
          tb_refillRate = refillRate, tb_lastRefill = now, tb_metrics = zero_rl_metrics\<rparr>)"

definition refill :: "time \<Rightarrow> TokenBucketLimiter \<Rightarrow> TokenBucketLimiter" where
  "refill now l =
     (let elapsed = now - tb_lastRefill l;
          tokensToAdd = real_of_int elapsed * tb_refillRate l;
          tokens = tb_tokens l + tokensToAdd
      in l\<lparr>tb_lastRefill := now,
           tb_tokens := (if tokens > tb_maxTokens l then tb_maxTokens l else tokens)\<rparr>)"

definition AllowN :: "int \<Rightarrow> time \<Rightarrow> TokenBucketLimiter \<Rightarrow> bool \<times> TokenBucketLimiter" where
  "AllowN n now l =
     (let l1 = refill now l;
          l2 = l1\<lparr>tb_metrics := incr_total (tb_metrics l1)\<rparr>
      in if tb_tokens l2 \<ge> real_of_int n
         then (True, l2\<lparr>tb_tokens := tb_tokens l2 - real_of_int n,
                        tb_metrics := incr_allowed (tb_metrics l2)\<rparr>)
         else (False, l2\<lparr>tb_metrics := incr_rejected (tb_metrics l2)\<rparr>))"

definition tb_Allow :: "time \<Rightarrow> TokenBucketLimiter \<Rightarrow> bool \<times> TokenBucketLimiter" where
  "tb_Allow = AllowN 1"

text \<open>
  \<^verbatim>\<open>WaitN\<close> up to the point where it either has its answer or sleeps for \<open>d\<close>, and from
  the end of the sleep on. The context may be cancelled during the sleep.
\<close>

datatype wait_decision = Acquired | Rejected | Wait duration

datatype wait_error = ErrRateLimitExceeded | CtxErr

definition WaitN_begin ::
  "(real \<Rightarrow> int) \<Rightarrow> int \<Rightarrow> time \<Rightarrow> TokenBucketLimiter \<Rightarrow> wait_decision \<times> TokenBucketLimiter" where
  "WaitN_begin oor n now l =
     (let l1 = refill now (l\<lparr>tb_metrics := incr_total (tb_metrics l)\<rparr>)
      in if tb_tokens l1 \<ge> real_of_int n
         then (Acquired, l1\<lparr>tb_tokens := tb_tokens l1 - real_of_int n,
                            tb_metrics := incr_allowed (tb_metrics l1)\<rparr>)
         else let tokensNeeded = real_of_int n - tb_tokens l1;
                  waitTime = int64_of_float oor (tokensNeeded / tb_refillRate l1)
              in if waitTime > rl_WaitTimeout (tb_config l1)
                 then (Rejected, l1\<lparr>tb_metrics := incr_rejected (tb_metrics l1)\<rparr>)
                 else (Wait waitTime, l1\<lparr>tb_metrics := incr_waited (tb_metrics l1)\<rparr>))"

definition WaitN_resume :: "int \<Rightarrow> time \<Rightarrow> TokenBucketLimiter \<Rightarrow> TokenBucketLimiter" where
  "WaitN_resume n now l =
     (let l1 = refill now l
      in l1\<lparr>tb_tokens := tb_tokens l1 - real_of_int n, tb_metrics := incr_allowed (tb_metrics l1)\<rparr>)"

definition WaitN ::
  "(real \<Rightarrow> int) \<Rightarrow> bool \<Rightarrow> int \<Rightarrow> time \<Rightarrow> time \<Rightarrow> TokenBucketLimiter
     \<Rightarrow> wait_error option \<times> TokenBucketLimiter" where
  "WaitN oor cancelled n t_start t_wake l =
     (case WaitN_begin oor n t_start l of
        (Acquired, l1) \<Rightarrow> (None, l1)
      | (Rejected, l1) \<Rightarrow> (Some ErrRateLimitExceeded, l1)
      | (Wait d, l1) \<Rightarrow> if cancelled then (Some CtxErr, l1) else (None, WaitN_resume n t_wake l1))"

definition tb_Wait ::
  "(real \<Rightarrow> int) \<Rightarrow> bool \<Rightarrow> time \<Rightarrow> time \<Rightarrow> TokenBucketLimiter \<Rightarrow> wait_error option \<times> TokenBucketLimiter" where
  "tb_Wait oor cancelled = WaitN oor cancelled 1"

definition tb_Metrics :: "TokenBucketLimiter \<Rightarrow> RateLimiterMetrics" where
  "tb_Metrics l = \<lparr>rm_TotalRequests = rm_TotalRequests (tb_metrics l),
     rm_AllowedRequests = rm_AllowedRequests (tb_metrics l),
     rm_RejectedRequests = rm_RejectedRequests (tb_metrics l),
     rm_WaitedRequests = rm_WaitedRequests (tb_metrics l)\<rparr>"

subsection \<open>Sliding window of timestamps\<close>

record SlidingWindowLimiter =
  sl_config :: RateLimiterConfig
  sl_timestamps :: "time list"
  sl_metrics :: RateLimiterMetrics

text \<open>\<^verbatim>\<open>make\<close> panics on the negative capacity a negative rate asks for.\<close>

definition NewSlidingWindowLimiter :: "RateLimiterConfig \<Rightarrow> SlidingWindowLimiter option" where
  "NewSlidingWindowLimiter config =
     (if rl_Rate config < 0 then None
      else Some \<lparr>sl_config = config, sl_timestamps = [], sl_metrics = zero_rl_metrics\<rparr>)"

definition sl_Allow :: "time \<Rightarrow> SlidingWindowLimiter \<Rightarrow> bool \<times> SlidingWindowLimiter" where
  "sl_Allow now l =
     (let windowStart = now - rl_Period (sl_config l);
          l1 = l\<lparr>sl_timestamps := filter (\<lambda>ts. ts > windowStart) (sl_timestamps l)\<rparr>;
          l2 = l1\<lparr>sl_metrics := incr_total (sl_metrics l1)\<rparr>
      in if int (length (sl_timestamps l2)) < rl_Rate (sl_config l2)
         then (True, l2\<lparr>sl_timestamps := sl_timestamps l2 @ [now],
                        sl_metrics := incr_allowed (sl_metrics l2)\<rparr>)
         else (False, l2\<lparr>sl_metrics := incr_rejected (sl_metrics l2)\<rparr>))"

definition sl_Metrics :: "SlidingWindowLimiter \<Rightarrow> RateLimiterMetrics" where
  "sl_Metrics l = \<lparr>rm_TotalRequests = rm_TotalRequests (sl_metrics l),
     rm_AllowedRequests = rm_AllowedRequests (sl_metrics l),
     rm_RejectedRequests = rm_RejectedRequests (sl_metrics l),
     rm_WaitedRequests = rm_WaitedRequests (sl_metrics l)\<rparr>"

subsection \<open>The limiter interface\<close>

text \<open>The answers to a sequence of requests at the given instants.\<close>

fun run_allow :: "(time \<Rightarrow> 's \<Rightarrow> bool \<times> 's) \<Rightarrow> time list \<Rightarrow> 's \<Rightarrow> bool list \<times> 's" where
  "run_allow allow [] s = ([], s)"
| "run_allow allow (t # ts) s =
     (case allow t s of (b, s1) \<Rightarrow> (case run_allow allow ts s1 of (bs, s2) \<Rightarrow> (b # bs, s2)))"

definition count_true :: "bool list \<Rightarrow> int" where
  "count_true bs = int (length (filter id bs))"

lemma count_true_simps [simp]:
  "count_true [] = 0" "count_true (b # bs) = (if b then 1 else 0) + count_true bs"
  by (simp_all add: count_true_def)

locale rate_limiter =
  fixes allow :: "time \<Rightarrow> 's \<Rightarrow> bool \<times> 's" and metrics :: "'s \<Rightarrow> RateLimiterMetrics"
  assumes one_more: "allow now s = (b, s1) \<Longrightarrow>
      rm_TotalRequests (metrics s1) = rm_TotalRequests (metrics s) + 1"
    and allowed_iff: "allow now s = (b, s1) \<Longrightarrow>
      rm_AllowedRequests (metrics s1) = rm_AllowedRequests (metrics s) + (if b then 1 else 0)"
    and rejected_iff: "allow now s = (b, s1) \<Longrightarrow>
      rm_RejectedRequests (metrics s1) = rm_RejectedRequests (metrics s) + (if b then 0 else 1)"
    and waited_kept: "allow now s = (b, s1) \<Longrightarrow>
      rm_WaitedRequests (metrics s1) = rm_WaitedRequests (metrics s)"
begin

lemma run_counts:
  assumes "run_allow allow ts s = (bs, s1)"
  shows "length bs = length ts
    \<and> rm_TotalRequests (metrics s1) = rm_TotalRequests (metrics s) + int (length ts)
    \<and> rm_AllowedRequests (metrics s1) = rm_AllowedRequests (metrics s) + count_true bs
    \<and> rm_RejectedRequests (metrics s1) = rm_RejectedRequests (metrics s) + (int (length ts) - count_true bs)
    \<and> rm_WaitedRequests (metrics s1) = rm_WaitedRequests (metrics s)"
  using assms
proof (induction ts arbitrary: s bs)
  case Nil
  then show ?case by simp
next
  case (Cons t ts)
  obtain b s2 where a: "allow t s = (b, s2)" by (cases "allow t s")
  obtain bs' where r: "run_allow allow ts s2 = (bs', s1)" and bs: "bs = b # bs'"
    using Cons.prems a by (auto split: prod.splits)
  show ?case using Cons.IH [OF r] one_more [OF a] allowed_iff [OF a] rejected_iff [OF a] waited_kept [OF a]
    by (simp add: bs)
qed

end

interpretation tb: rate_limiter tb_Allow tb_Metrics
  by unfold_locales
    (auto simp: tb_Allow_def AllowN_def refill_def tb_Metrics_def incr_defs Let_def split: if_splits)

interpretation sl: rate_limiter sl_Allow sl_Metrics
  by unfold_locales
    (auto simp: sl_Allow_def sl_Metrics_def incr_defs Let_def split: if_splits)

text \<open>
  Accounting. Whatever the sequence of requests and whenever they come, both limiters
  count every request once in the total and once in exactly one of allowed and rejected,
  and the allowed counter grows by the number of requests that were answered yes.
\<close>

theorem limiter_metrics_conserved:
  assumes "run_allow tb_Allow ts l = (bs, l')" and "run_allow sl_Allow us k = (cs, k')"
    and "tb_metrics l = zero_rl_metrics" and "sl_metrics k = zero_rl_metrics"
  shows "tb_Metrics l' = \<lparr>rm_TotalRequests = int (length ts), rm_AllowedRequests = count_true bs,
           rm_RejectedRequests = int (length ts) - count_true bs, rm_WaitedRequests = 0\<rparr>
       \<and> sl_Metrics k' = \<lparr>rm_TotalRequests = int (length us), rm_AllowedRequests = count_true cs,
           rm_RejectedRequests = int (length us) - count_true cs, rm_WaitedRequests = 0\<rparr>"
  using tb.run_counts [OF assms(1)] sl.run_counts [OF assms(2)] assms(3,4)
  by (auto simp: tb_Metrics_def sl_Metrics_def zero_rl_metrics_def)

definition example_rl_config :: RateLimiterConfig where
  "example_rl_config = \<lparr>rl_Name = ''api'', rl_Rate = 2, rl_Period = 10, rl_BurstSize = 2,
     rl_WaitTimeout = 10, rl_FairnessEnabled = True\<rparr>"

definition example_sl :: SlidingWindowLimiter where
  "example_sl = \<lparr>sl_config = example_rl_config, sl_timestamps = [], sl_metrics = zero_rl_metrics\<rparr>"

lemmas limiter_eval = example_rl_config_def example_sl_def NewTokenBucketLimiter_def
  NewSlidingWindowLimiter_def zero_rl_metrics_def tb_Allow_def AllowN_def refill_def sl_Allow_def
  incr_defs Let_def

theorem limiter_metrics_conserved_witness:
  "fst (run_allow sl_Allow [0, 1, 2, 10] example_sl) = [True, True, False, True]
   \<and> rm_RejectedRequests (sl_Metrics (snd (run_allow sl_Allow [0, 1, 2, 10] example_sl))) = 1
   \<and> rm_AllowedRequests (tb_Metrics (snd (run_allow tb_Allow [0, 0, 0] (NewTokenBucketLimiter 0 example_rl_config)))) = 2"
  (is "?A \<and> ?B \<and> ?C")
proof -
  let ?r = "run_allow sl_Allow [0, 1, 2, 10] example_sl"
  let ?q = "run_allow tb_Allow [0, 0, 0] (NewTokenBucketLimiter 0 example_rl_config)"
  have a: ?A by (simp add: limiter_eval)
  have q: "fst ?q = [True, True, False]" by (simp add: limiter_eval)
  have "tb_Metrics (snd ?q) = \<lparr>rm_TotalRequests = int (length [0, 0, 0::time]),
        rm_AllowedRequests = count_true (fst ?q),
        rm_RejectedRequests = int (length [0, 0, 0::time]) - count_true (fst ?q), rm_WaitedRequests = 0\<rparr>
      \<and> sl_Metrics (snd ?r) = \<lparr>rm_TotalRequests = int (length [0, 1, 2, 10::time]),
        rm_AllowedRequests = count_true (fst ?r),
        rm_RejectedRequests = int (length [0, 1, 2, 10::time]) - count_true (fst ?r), rm_WaitedRequests = 0\<rparr>"
    by (rule limiter_metrics_conserved [of "[0, 0, 0]" "NewTokenBucketLimiter 0 example_rl_config" _ _
          "[0, 1, 2, 10]" example_sl])
      (simp_all add: NewTokenBucketLimiter_def example_sl_def Let_def)
  then show ?thesis using a q by simp
qed

subsection \<open>The sliding window admits exactly up to its rate\<close>

text \<open>The instants of the requests that were answered yes.\<close>

definition granted :: "time list \<Rightarrow> bool list \<Rightarrow> time list" where
  "granted ts bs = map fst (filter snd (zip ts bs))"

lemma run_allow_snoc:
  "run_allow allow (ts @ [t]) s =
     (case run_allow allow ts s of (bs, s1) \<Rightarrow> (case allow t s1 of (b, s2) \<Rightarrow> (bs @ [b], s2)))"
  by (induction ts arbitrary: s) (auto split: prod.splits)

lemma run_allow_length: "length (fst (run_allow allow ts s)) = length ts"
  by (induction ts arbitrary: s) (auto simp: case_prod_unfold)

lemma granted_snoc:
  "length bs = length ts \<Longrightarrow> granted (ts @ [t]) (bs @ [b]) = granted ts bs @ (if b then [t] else [])"
  by (simp add: granted_def)

lemma granted_subset: "set (granted ts bs) \<subseteq> set ts"
  by (auto simp: granted_def dest: set_zip_leftD)

lemma sl_Allow_step:
  assumes "sl_timestamps l = filter (\<lambda>u. c < u) hist" "c \<le> now - rl_Period (sl_config l)" "0 < rl_Period (sl_config l)"
  shows "fst (sl_Allow now l) \<longleftrightarrow>
           int (length (filter (\<lambda>u. now - rl_Period (sl_config l) < u) hist)) < rl_Rate (sl_config l)"
    and "sl_timestamps (snd (sl_Allow now l)) = filter (\<lambda>u. now - rl_Period (sl_config l) < u)
           (hist @ (if fst (sl_Allow now l) then [now] else []))"
    and "sl_config (snd (sl_Allow now l)) = sl_config l"
proof -
  have "filter (\<lambda>u. now - rl_Period (sl_config l) < u) (filter (\<lambda>u. c < u) hist)
      = filter (\<lambda>u. now - rl_Period (sl_config l) < u) hist"
    using assms(2) by (auto intro!: filter_cong)
  then show "fst (sl_Allow now l) \<longleftrightarrow>
           int (length (filter (\<lambda>u. now - rl_Period (sl_config l) < u) hist)) < rl_Rate (sl_config l)"
    and "sl_timestamps (snd (sl_Allow now l)) = filter (\<lambda>u. now - rl_Period (sl_config l) < u)
           (hist @ (if fst (sl_Allow now l) then [now] else []))"
    and "sl_config (snd (sl_Allow now l)) = sl_config l"
    using assms by (simp_all add: sl_Allow_def Let_def)
qed

text \<open>After any run the kept timestamps are the grants younger than some already expired cut.\<close>

lemma sl_run_timestamps:
  assumes "sl_timestamps l0 = []" "0 < rl_Period (sl_config l0)" "sorted (ts @ [now])"
  shows "\<exists>c. c \<le> now - rl_Period (sl_config l0)
           \<and> sl_timestamps (snd (run_allow sl_Allow ts l0))
               = filter (\<lambda>u. c < u) (granted ts (fst (run_allow sl_Allow ts l0)))
           \<and> sl_config (snd (run_allow sl_Allow ts l0)) = sl_config l0"
  using assms(3)
proof (induction ts arbitrary: now rule: rev_induct)
  case Nil
  then show ?case using assms by (auto simp: granted_def)
next
  case (snoc t ts)
  let ?r = "run_allow sl_Allow ts l0"
  have le: "t \<le> now" and srt: "sorted (ts @ [t])" using snoc.prems by (auto simp: sorted_append)
  obtain c where c: "c \<le> t - rl_Period (sl_config l0)"
      "sl_timestamps (snd ?r) = filter (\<lambda>u. c < u) (granted ts (fst ?r))"
      "sl_config (snd ?r) = sl_config l0"
    using snoc.IH [OF srt] by blast
  have st: "sl_timestamps (snd (sl_Allow t (snd ?r))) = filter (\<lambda>u. t - rl_Period (sl_config l0) < u)
      (granted ts (fst ?r) @ (if fst (sl_Allow t (snd ?r)) then [t] else []))"
    "sl_config (snd (sl_Allow t (snd ?r))) = sl_config l0"
    using sl_Allow_step(2,3) [of "snd ?r" c "granted ts (fst ?r)" t] c assms(2) by simp_all
  show ?case
    by (rule exI [of _ "t - rl_Period (sl_config l0)"])
      (use le st in \<open>simp add: run_allow_snoc granted_snoc run_allow_length case_prod_unfold\<close>)
qed

lemma sl_grant_iff:
  assumes "sl_timestamps l0 = []" "0 < rl_Period (sl_config l0)" "sorted (ts @ [now])"
    and "run_allow sl_Allow ts l0 = (bs, l)"
  shows "fst (sl_Allow now l) \<longleftrightarrow>
     int (length (filter (\<lambda>u. now - rl_Period (sl_config l0) < u) (granted ts bs))) < rl_Rate (sl_config l0)"
  using sl_run_timestamps [OF assms(1-3)] sl_Allow_step(1) [of l _ "granted ts bs" now] assms(2,4)
  by auto

lemma sl_window_bound:
  assumes "sl_timestamps l0 = []" "0 < rl_Period (sl_config l0)" "0 \<le> rl_Rate (sl_config l0)"
    and "sorted ts" "run_allow sl_Allow ts l0 = (bs, l)"
  shows "int (length (filter (\<lambda>u. t - rl_Period (sl_config l0) < u \<and> u \<le> t) (granted ts bs)))
           \<le> rl_Rate (sl_config l0)"
  using assms(4,5)
proof (induction ts arbitrary: bs l rule: rev_induct)
  case Nil
  then show ?case using assms(3) by (simp add: granted_def)
next
  case (snoc v ts)
  obtain bs1 l1 where r: "run_allow sl_Allow ts l0 = (bs1, l1)" by (cases "run_allow sl_Allow ts l0")
  have len: "length bs1 = length ts" using run_allow_length [of sl_Allow ts l0] r by simp
  have bs: "bs = bs1 @ [fst (sl_Allow v l1)]"
    using snoc.prems(2) r by (auto simp: run_allow_snoc split: prod.splits)
  have srt: "sorted ts" using snoc.prems(1) by (simp add: sorted_append)
  let ?F = "filter (\<lambda>u. t - rl_Period (sl_config l0) < u \<and> u \<le> t) (granted ts bs1)"
  have ih: "int (length ?F) \<le> rl_Rate (sl_config l0)"
    by (rule snoc.IH [OF srt r])
  show ?case
  proof (cases "fst (sl_Allow v l1) \<and> t - rl_Period (sl_config l0) < v \<and> v \<le> t")
    case True
    have "length ?F \<le> length (filter (\<lambda>u. v - rl_Period (sl_config l0) < u) (granted ts bs1))"
      by (rule length_filter_le_map) (use True in auto)
    moreover have "int (length (filter (\<lambda>u. v - rl_Period (sl_config l0) < u) (granted ts bs1)))
        < rl_Rate (sl_config l0)"
      using sl_grant_iff [OF assms(1,2) snoc.prems(1) r] True by simp
    ultimately show ?thesis using True by (simp add: bs granted_snoc len)
  next
    case False
    then show ?thesis using ih by (auto simp: bs granted_snoc len)
  qed
qed

text \<open>
  C11. The sliding-window limiter is exact. Over any run of requests at non-decreasing
  instants from a new limiter, a request is admitted if and only if fewer than
  \<^verbatim>\<open>Rate\<close> requests were admitted in the period that ends now; hence no window of one
  period, wherever it is placed, ever holds more than \<^verbatim>\<open>Rate\<close> admitted requests.
\<close>

theorem sliding_window_exact:
  assumes "NewSlidingWindowLimiter config = Some l0" "0 < rl_Period config"
    and "sorted (ts @ [now])" "run_allow sl_Allow ts l0 = (bs, l)"
  shows "(fst (sl_Allow now l) \<longleftrightarrow>
            int (length (filter (\<lambda>u. now - rl_Period config < u) (granted ts bs))) < rl_Rate config)
       \<and> (\<forall>t. int (length (filter (\<lambda>u. t - rl_Period config < u \<and> u \<le> t) (granted ts bs))) \<le> rl_Rate config)"
proof -
  have l0: "sl_timestamps l0 = []" "sl_config l0 = config" "0 \<le> rl_Rate config"
    using assms(1) by (auto simp: NewSlidingWindowLimiter_def split: if_splits)
  have "sorted ts" using assms(3) by (simp add: sorted_append)
  then show ?thesis
    using sl_grant_iff [of l0 ts now bs l] sl_window_bound [of l0 ts bs l] l0 assms(2-4) by simp
qed

theorem sliding_window_exact_witness:
  "\<not> fst (sl_Allow 9 (snd (run_allow sl_Allow [0, 1] example_sl)))
   \<and> fst (sl_Allow 10 (snd (run_allow sl_Allow [0, 1] example_sl)))"
proof -
  have r: "run_allow sl_Allow [0, 1] example_sl = ([True, True], snd (run_allow sl_Allow [0, 1] example_sl))"
    by (simp add: limiter_eval)
  have n: "NewSlidingWindowLimiter example_rl_config = Some example_sl"
    by (simp add: limiter_eval)
  show ?thesis
    using sliding_window_exact [OF n _ _ r, of 9] sliding_window_exact [OF n _ _ r, of 10]
    by (simp add: granted_def example_rl_config_def)
qed

subsection \<open>The token bucket bounds every burst\<close>

text \<open>The tokens handed out to a sequence of \<^verbatim>\<open>AllowN\<close> calls, and the state they leave.\<close>

fun run_allowN :: "(int \<times> time) list \<Rightarrow> TokenBucketLimiter \<Rightarrow> int \<times> TokenBucketLimiter" where
  "run_allowN [] l = (0, l)"
| "run_allowN ((n, t) # rs) l =
     (case AllowN n t l of (b, l1) \<Rightarrow>
        (case run_allowN rs l1 of (g, l2) \<Rightarrow> ((if b then n else 0) + g, l2)))"

definition tb_ok :: "TokenBucketLimiter \<Rightarrow> bool" where
  "tb_ok l \<longleftrightarrow> 0 \<le> tb_tokens l \<and> tb_tokens l \<le> tb_maxTokens l \<and> 0 \<le> tb_refillRate l"

lemma AllowN_step:
  assumes "tb_ok l" "tb_lastRefill l \<le> now" "0 \<le> n"
  shows "tb_ok (snd (AllowN n now l))" "tb_lastRefill (snd (AllowN n now l)) = now"
    and "tb_refillRate (snd (AllowN n now l)) = tb_refillRate l"
    and "tb_maxTokens (snd (AllowN n now l)) = tb_maxTokens l"
    and "tb_tokens (snd (AllowN n now l)) =
           min (tb_maxTokens l) (tb_tokens l + real_of_int (now - tb_lastRefill l) * tb_refillRate l)
           - real_of_int (if fst (AllowN n now l) then n else 0)"
proof -
  have "0 \<le> real_of_int (now - tb_lastRefill l) * tb_refillRate l"
    using assms by (simp add: tb_ok_def)
  then show "tb_ok (snd (AllowN n now l))"
    using assms by (auto simp: tb_ok_def AllowN_def refill_def Let_def)
qed (auto simp: AllowN_def refill_def Let_def min_def)

lemma run_allowN_inv:
  assumes "tb_ok l" "sorted (tb_lastRefill l # map snd rs)" "\<forall>r\<in>set rs. 0 \<le> fst r"
  shows "tb_ok (snd (run_allowN rs l)) \<and> tb_refillRate (snd (run_allowN rs l)) = tb_refillRate l
    \<and> tb_maxTokens (snd (run_allowN rs l)) = tb_maxTokens l
    \<and> tb_lastRefill (snd (run_allowN rs l)) = last (tb_lastRefill l # map snd rs)
    \<and> real_of_int (fst (run_allowN rs l)) + tb_tokens (snd (run_allowN rs l)) \<le> tb_tokens l
        + real_of_int (last (tb_lastRefill l # map snd rs) - tb_lastRefill l) * tb_refillRate l"
  using assms
proof (induction rs arbitrary: l)
  case Nil
  then show ?case by simp
next
  case (Cons r rs)
  obtain n t where r: "r = (n, t)" by (cases r)
  let ?l1 = "snd (AllowN n t l)"
  have le: "tb_lastRefill l \<le> t" "0 \<le> n" using Cons.prems r by auto
  note st = AllowN_step [OF Cons.prems(1) le]
  have "sorted (tb_lastRefill ?l1 # map snd rs)" "\<forall>r\<in>set rs. 0 \<le> fst r"
    using Cons.prems r st(2) by auto
  note ih = Cons.IH [OF st(1) this]
  have "tb_tokens ?l1 + real_of_int (if fst (AllowN n t l) then n else 0)
      \<le> tb_tokens l + real_of_int (t - tb_lastRefill l) * tb_refillRate l"
    using st(5) by simp
  then show ?case using ih st(2-4) r
    by (simp add: case_prod_unfold algebra_simps)
qed

lemma NewTokenBucket_ok:
  "0 \<le> rl_BurstSize c \<Longrightarrow> 0 \<le> rl_Rate c \<Longrightarrow> 0 < rl_Period c \<Longrightarrow> tb_ok (NewTokenBucketLimiter t c)"
  by (simp add: tb_ok_def NewTokenBucketLimiter_def Let_def)



subsection \<open>Waiting for tokens\<close>

text \<open>The waiters of one instant: \<open>k\<close> callers of \<^verbatim>\<open>WaitN\<close> that all wake at \<open>t\<close>.\<close>

definition resume_all :: "nat \<Rightarrow> int \<Rightarrow> time \<Rightarrow> TokenBucketLimiter \<Rightarrow> TokenBucketLimiter" where
  "resume_all k n t l = (WaitN_resume n t ^^ k) l"

definition begin_all :: "nat \<Rightarrow> (real \<Rightarrow> int) \<Rightarrow> int \<Rightarrow> time \<Rightarrow> TokenBucketLimiter \<Rightarrow> TokenBucketLimiter" where
  "begin_all k oor n t l = ((\<lambda>l. snd (WaitN_begin oor n t l)) ^^ k) l"

text \<open>The two limiters agree on what a waiting decision depends on.\<close>

definition same_bucket :: "TokenBucketLimiter \<Rightarrow> TokenBucketLimiter \<Rightarrow> bool" where
  "same_bucket l l' \<longleftrightarrow> tb_config l = tb_config l' \<and> tb_tokens l = tb_tokens l'
     \<and> tb_maxTokens l = tb_maxTokens l' \<and> tb_refillRate l = tb_refillRate l' \<and> tb_lastRefill l = tb_lastRefill l'"

lemma WaitN_begin_waits:
  assumes "fst (WaitN_begin oor n t l) = Wait d"
  shows "same_bucket (snd (WaitN_begin oor n t l)) (refill t l)"
    and "tb_tokens (refill t l) < real_of_int n"
    and "d = int64_of_float oor ((real_of_int n - tb_tokens (refill t l)) / tb_refillRate l)"
    and "d \<le> rl_WaitTimeout (tb_config l)"
  using assms by (auto simp: WaitN_begin_def refill_def same_bucket_def Let_def split: if_splits)

lemma refill_same: "same_bucket l (refill t k) \<Longrightarrow> tb_tokens k \<le> tb_maxTokens k \<Longrightarrow> same_bucket (refill t l) (refill t k)"
  by (auto simp: same_bucket_def refill_def Let_def)

lemma WaitN_begin_fst:
  "fst (WaitN_begin oor n t l) =
     (let r = refill t l; w = int64_of_float oor ((real_of_int n - tb_tokens r) / tb_refillRate r)
      in if tb_tokens r \<ge> real_of_int n then Acquired
         else if w > rl_WaitTimeout (tb_config r) then Rejected else Wait w)"
  by (simp add: WaitN_begin_def refill_def Let_def)

lemma WaitN_begin_cong:
  "same_bucket (refill t l) (refill t k) \<Longrightarrow> fst (WaitN_begin oor n t l) = fst (WaitN_begin oor n t k)"
  by (simp add: same_bucket_def WaitN_begin_fst Let_def)

lemma begin_all_same:
  assumes "fst (WaitN_begin oor n t l) = Wait d" "tb_tokens l \<le> tb_maxTokens l"
  shows "same_bucket (refill t (begin_all k oor n t l)) (refill t l)
    \<and> fst (WaitN_begin oor n t (begin_all k oor n t l)) = Wait d"
proof (induction k)
  case 0
  then show ?case using assms by (simp add: begin_all_def same_bucket_def)
next
  case (Suc k)
  let ?b = "begin_all k oor n t l"
  have "same_bucket (snd (WaitN_begin oor n t ?b)) (refill t ?b)"
    using WaitN_begin_waits(1) Suc by blast
  then have "same_bucket (snd (WaitN_begin oor n t ?b)) (refill t l)"
    using Suc by (auto simp: same_bucket_def)
  then have "same_bucket (refill t (begin_all (Suc k) oor n t l)) (refill t l)"
    using refill_same assms(2) by (simp add: begin_all_def)
  then show ?case using WaitN_begin_cong assms(1) by metis
qed

lemma resume_all_tokens:
  assumes "0 \<le> n" "0 < k"
  shows "tb_tokens (resume_all k n t l) = tb_tokens (refill t l) - real k * real_of_int n
    \<and> tb_lastRefill (resume_all k n t l) = t \<and> tb_maxTokens (resume_all k n t l) = tb_maxTokens l"
  using assms(2)
proof (induction k)
  case 0
  then show ?case by simp
next
  case (Suc k)
  have max: "tb_tokens (refill t l) \<le> tb_maxTokens l" by (simp add: refill_def Let_def)
  show ?case
  proof (cases "k = 0")
    case True
    then show ?thesis by (simp add: resume_all_def WaitN_resume_def refill_def Let_def)
  next
    case False
    then have ih: "tb_tokens (resume_all k n t l) = tb_tokens (refill t l) - real k * real_of_int n"
      "tb_lastRefill (resume_all k n t l) = t" "tb_maxTokens (resume_all k n t l) = tb_maxTokens l"
      using Suc by auto
    have "0 \<le> real k * real_of_int n" using assms(1) by simp
    then have "\<not> tb_tokens (resume_all k n t l) > tb_maxTokens l" using ih max by simp
    then show ?thesis using ih
      by (simp add: resume_all_def WaitN_resume_def refill_def Let_def algebra_simps)
  qed
qed

text \<open>
  A lone waiter is served in time. If \<^verbatim>\<open>WaitN\<close> decides to sleep for \<open>d\<close>, then \<open>d\<close> is
  within the configured timeout, and when it wakes at or after \<open>t + d\<close> with no other caller
  in between, the bucket has refilled so far that at most one nanosecond's worth of tokens
  is borrowed.
\<close>

theorem wait_serves_lone_caller:
  assumes "fst (WaitN_begin oor n t l) = Wait d" "tb_ok l" "tb_lastRefill l \<le> t" "0 < tb_refillRate l"
    and "real_of_int n \<le> tb_maxTokens l" "t + d \<le> t'"
    and "in_int64 (trunc ((real_of_int n - tb_tokens (refill t l)) / tb_refillRate l))"
  shows "d \<le> rl_WaitTimeout (tb_config l)
       \<and> fst (WaitN oor False n t t' l) = None
       \<and> - tb_refillRate l \<le> tb_tokens (snd (WaitN oor False n t t' l))"
proof -
  let ?r = "refill t l" and ?b = "snd (WaitN_begin oor n t l)"
  let ?x = "(real_of_int n - tb_tokens ?r) / tb_refillRate l"
  note w = WaitN_begin_waits [OF assms(1)]
  have x: "0 \<le> ?x" using w(2) assms(4) by simp
  have d: "d = trunc ?x" using w(3) assms(7) by (simp add: int64_of_float_def)
  have "?x - 1 \<le> real_of_int d" using x d by (simp add: trunc_def)
  then have "(?x - 1) * tb_refillRate l \<le> real_of_int d * tb_refillRate l"
    using assms(4) by (simp add: mult_right_mono)
  moreover have "?x * tb_refillRate l = real_of_int n - tb_tokens ?r" using assms(4) by simp
  ultimately have need: "real_of_int n - tb_tokens ?r - tb_refillRate l \<le> real_of_int d * tb_refillRate l"
    by (simp add: left_diff_distrib)
  have "real_of_int d * tb_refillRate l \<le> real_of_int (t' - t) * tb_refillRate l"
    using assms(4,6) by (intro mult_right_mono) auto
  then have "real_of_int n - tb_refillRate l \<le> tb_tokens ?r + real_of_int (t' - t) * tb_refillRate l"
    using need by linarith
  moreover have "real_of_int n - tb_refillRate l \<le> tb_maxTokens l" using assms(4,5) by linarith
  moreover have "tb_tokens ?b = tb_tokens ?r" "tb_lastRefill ?b = t" "tb_maxTokens ?b = tb_maxTokens l"
      "tb_refillRate ?b = tb_refillRate l"
    using w(1) by (auto simp: same_bucket_def refill_def Let_def)
  ultimately have "- tb_refillRate l \<le> tb_tokens (WaitN_resume n t' ?b)"
    by (simp add: WaitN_resume_def refill_def Let_def)
  moreover have "WaitN oor False n t t' l = (None, WaitN_resume n t' ?b)"
    using assms(1) by (simp add: WaitN_def case_prod_unfold)
  ultimately show ?thesis using w(4) by simp
qed

definition drained_bucket :: TokenBucketLimiter where
  "drained_bucket = (NewTokenBucketLimiter 0 example_rl_config)\<lparr>tb_tokens := 0\<rparr>"

lemma drained_bucket_waits: "fst (WaitN_begin (\<lambda>_. 0) 1 0 drained_bucket) = Wait 5"
  by (simp add: WaitN_begin_def drained_bucket_def NewTokenBucketLimiter_def example_rl_config_def
      refill_def Let_def int64_of_float_def trunc_def in_int64_def)

theorem wait_serves_lone_caller_witness:
  "fst (WaitN (\<lambda>_. 0) False 1 0 5 drained_bucket) = None
   \<and> - (1 / 5) \<le> tb_tokens (snd (WaitN (\<lambda>_. 0) False 1 0 5 drained_bucket))"
proof -
  have f: "tb_refillRate drained_bucket = 1 / 5" "tb_maxTokens drained_bucket = 2"
      "tb_tokens (refill 0 drained_bucket) = 0" "tb_lastRefill drained_bucket = 0" "tb_ok drained_bucket"
    by (simp_all add: drained_bucket_def NewTokenBucketLimiter_def example_rl_config_def refill_def
        Let_def tb_ok_def)
  show ?thesis
    using wait_serves_lone_caller [OF drained_bucket_waits, of 5]
    by (simp add: f trunc_def in_int64_def)
qed

text \<open>
  Concurrent waiters are not told apart. Any number of callers of \<^verbatim>\<open>WaitN\<close> that arrive
  while the bucket cannot serve one of them are all given the same sleep \<open>d\<close>, because
  waiting reserves nothing; at \<open>t + d\<close> all of them are let through, and the bucket, which
  has refilled for one of them, ends up \<open>k - 1\<close> requests in debt: the limit the token
  bucket keeps for \<^verbatim>\<open>Allow\<close> does not hold for \<^verbatim>\<open>Wait\<close>.
\<close>

theorem concurrent_waiters_overdraw:
  assumes "fst (WaitN_begin oor n t l) = Wait d" "tb_tokens l \<le> tb_maxTokens l" "0 < tb_refillRate l"
    and "0 \<le> n" "0 \<le> d" "0 < k"
    and "in_int64 (trunc ((real_of_int n - tb_tokens (refill t l)) / tb_refillRate l))"
  shows "(\<forall>i. fst (WaitN_begin oor n t (begin_all i oor n t l)) = Wait d)
       \<and> tb_tokens (resume_all k n (t + d) (begin_all k oor n t l)) \<le> - (real k - 1) * real_of_int n"
proof -
  let ?b = "begin_all k oor n t l" and ?r = "refill t l"
  let ?x = "(real_of_int n - tb_tokens ?r) / tb_refillRate l"
  note w = WaitN_begin_waits [OF assms(1)]
  obtain m where m: "k = Suc m" using assms(6) by (cases k) auto
  have "same_bucket ?b (refill t (begin_all m oor n t l))"
    using WaitN_begin_waits(1) begin_all_same [OF assms(1,2), of m] m by (simp add: begin_all_def)
  then have b: "tb_tokens ?b = tb_tokens ?r" "tb_lastRefill ?b = t" "tb_refillRate ?b = tb_refillRate l"
    using begin_all_same [OF assms(1,2), of m] by (auto simp: same_bucket_def refill_def Let_def)
  have "real_of_int d \<le> ?x" using w(2,3) assms(3,7) by (simp add: int64_of_float_def trunc_le)
  then have "real_of_int d * tb_refillRate l \<le> ?x * tb_refillRate l"
    using assms(3) by (intro mult_right_mono) simp_all
  then have "tb_tokens ?r + real_of_int d * tb_refillRate l \<le> real_of_int n" using assms(3) by simp
  then have "tb_tokens (refill (t + d) ?b) \<le> real_of_int n"
    using b by (simp add: refill_def Let_def)
  then show ?thesis
    using resume_all_tokens [OF assms(4,6)] begin_all_same [OF assms(1,2)]
    by (simp add: left_diff_distrib)
qed

theorem concurrent_waiters_overdraw_witness:
  "tb_tokens (resume_all 10 1 (0 + 5) (begin_all 10 (\<lambda>_. 0) 1 0 drained_bucket)) \<le> - 9"
proof -
  have f: "tb_refillRate drained_bucket = 1 / 5" "tb_tokens drained_bucket \<le> tb_maxTokens drained_bucket"
      "tb_tokens (refill 0 drained_bucket) = 0"
    by (simp_all add: drained_bucket_def NewTokenBucketLimiter_def example_rl_config_def refill_def Let_def)
  show ?thesis
    using concurrent_waiters_overdraw [OF drained_bucket_waits f(2), of 10]
    by (simp add: f trunc_def in_int64_def)
qed

end
