(* ===== verification/Retry.thy ===== *)
theory Retry
  imports Arcana_Prelude
begin

text \<open>
  \<^verbatim>\<open>internal/resilience/retry.go\<close>: retrying a call with randomised exponential backoff.
  The function that is retried is given by the error of each of its calls (\<open>None\<close> is
  success), the context by the answers of the two \<^verbatim>\<open>select\<close> statements of each attempt,
  the random source by the number drawn in each attempt. The loops are recursive functions
  over the attempt counter and leave a trace of the calls made and of the sleeps taken.
\<close>

record 'e RetryConfig =
  rc_MaxAttempts :: int
  rc_InitialInterval :: duration
  rc_MaxInterval :: duration
  rc_Multiplier :: real
  rc_RandomizationFactor :: real
  rc_RetryableErrors :: "'e list"

definition DefaultRetryConfig :: "'e RetryConfig" where
  "DefaultRetryConfig = \<lparr>rc_MaxAttempts = 3, rc_InitialInterval = 100 * millisecond,
     rc_MaxInterval = 10 * second, rc_Multiplier = 2, rc_RandomizationFactor = 1 / 2,
     rc_RetryableErrors = []\<rparr>"

definition isRetryableError :: "'e \<Rightarrow> 'e list \<Rightarrow> bool" where
  "isRetryableError err retryableErrors = (retryableErrors = [] \<or> err \<in> set retryableErrors)"

definition calculateInterval :: "(real \<Rightarrow> int) \<Rightarrow> real \<Rightarrow> duration \<Rightarrow> 'e RetryConfig \<Rightarrow> duration" where
  "calculateInterval oor rnd base config =
     (if rc_RandomizationFactor config = 0 then base
      else let delta = rc_RandomizationFactor config * real_of_int base;
               minInterval = real_of_int base - delta;
               maxInterval = real_of_int base + delta
           in int64_of_float oor (minInterval + rnd * (maxInterval - minInterval)))"

definition nextBackoffInterval ::
  "(real \<Rightarrow> int) \<Rightarrow> real \<Rightarrow> duration \<Rightarrow> 'e RetryConfig \<Rightarrow> duration \<times> duration" where
  "nextBackoffInterval oor rnd current config =
     (let sleep = calculateInterval oor rnd current config;
          next = int64_of_float oor (real_of_int current * rc_Multiplier config)
      in (sleep, if next > rc_MaxInterval config then rc_MaxInterval config else next))"

record 'e retry_env =
  outcome :: "int \<Rightarrow> 'e option"
  done_before :: "int \<Rightarrow> bool"
  done_asleep :: "int \<Rightarrow> bool"
  random :: "int \<Rightarrow> real"
  ctx_err :: 'e

datatype retry_event = Call int | Sleep duration

text \<open>The loop of \<^verbatim>\<open>Retry\<close> from the head of an attempt on.\<close>

function retry_loop ::
  "(real \<Rightarrow> int) \<Rightarrow> 'e retry_env \<Rightarrow> 'e RetryConfig \<Rightarrow> int \<Rightarrow> duration \<Rightarrow> 'e option
     \<Rightarrow> 'e option \<times> retry_event list" where
  "retry_loop oor env config attempt interval lastErr =
     (if attempt > rc_MaxAttempts config then (lastErr, [])
      else if done_before env attempt then (Some (ctx_err env), [])
      else case outcome env attempt of
          None \<Rightarrow> (None, [Call attempt])
        | Some err \<Rightarrow>
            if \<not> isRetryableError err (rc_RetryableErrors config) then (Some err, [Call attempt])
            else if attempt < rc_MaxAttempts config
            then (case nextBackoffInterval oor (random env attempt) interval config of
                    (sleepDur, next) \<Rightarrow>
                      if done_asleep env attempt
                      then (Some (ctx_err env), [Call attempt, Sleep sleepDur])
                      else (case retry_loop oor env config (attempt + 1) next (Some err) of
                              (r, tr) \<Rightarrow> (r, Call attempt # Sleep sleepDur # tr)))
            else (case retry_loop oor env config (attempt + 1) interval (Some err) of
                    (r, tr) \<Rightarrow> (r, Call attempt # tr)))"
  by pat_completeness auto

termination
  by (relation "measure (\<lambda>(_, _, config, attempt, _, _). nat (rc_MaxAttempts config + 1 - attempt))") auto

declare retry_loop.simps [simp del]

definition Retry :: "(real \<Rightarrow> int) \<Rightarrow> 'e retry_env \<Rightarrow> 'e RetryConfig \<Rightarrow> 'e option \<times> retry_event list" where
  "Retry oor env config = retry_loop oor env config 1 (rc_InitialInterval config) None"

text \<open>
  \<^verbatim>\<open>RetryWithResult\<close>: the function returns a value beside its error; \<open>zero\<close> is the zero
  value the result variable starts with.
\<close>

function retry_result_loop ::
  "(real \<Rightarrow> int) \<Rightarrow> (int \<Rightarrow> 'a) \<Rightarrow> 'e retry_env \<Rightarrow> 'e RetryConfig \<Rightarrow> int \<Rightarrow> duration \<Rightarrow> 'e option \<Rightarrow> 'a
     \<Rightarrow> 'a \<times> 'e option \<times> retry_event list" where
  "retry_result_loop oor val env config attempt interval lastErr result =
     (if attempt > rc_MaxAttempts config then (result, lastErr, [])
      else if done_before env attempt then (result, Some (ctx_err env), [])
      else case outcome env attempt of
          None \<Rightarrow> (val attempt, None, [Call attempt])
        | Some err \<Rightarrow>
            if attempt < rc_MaxAttempts config
            then let nextInterval = calculateInterval oor (random env attempt) interval config
                 in if done_asleep env attempt
                    then (val attempt, Some (ctx_err env), [Call attempt, Sleep nextInterval])
                    else let interval1 = int64_of_float oor (real_of_int interval * rc_Multiplier config);
                             interval2 = (if interval1 > rc_MaxInterval config then rc_MaxInterval config else interval1)
                         in (case retry_result_loop oor val env config (attempt + 1) interval2 (Some err) (val attempt) of
                               (x, r, tr) \<Rightarrow> (x, r, Call attempt # Sleep nextInterval # tr))
            else (case retry_result_loop oor val env config (attempt + 1) interval (Some err) (val attempt) of
                    (x, r, tr) \<Rightarrow> (x, r, Call attempt # tr)))"
  by pat_completeness auto

termination
  by (relation "measure (\<lambda>(_, _, _, config, attempt, _, _, _). nat (rc_MaxAttempts config + 1 - attempt))") auto

declare retry_result_loop.simps [simp del]

definition RetryWithResult ::
  "(real \<Rightarrow> int) \<Rightarrow> (int \<Rightarrow> 'a) \<Rightarrow> 'a \<Rightarrow> 'e retry_env \<Rightarrow> 'e RetryConfig \<Rightarrow> 'a \<times> 'e option \<times> retry_event list" where
  "RetryWithResult oor val zero env config =
     retry_result_loop oor val env config 1 (rc_InitialInterval config) None zero"

definition ExponentialBackoff :: "(real \<Rightarrow> int) \<Rightarrow> real \<Rightarrow> int \<Rightarrow> duration \<Rightarrow> duration \<Rightarrow> duration" where
  "ExponentialBackoff oor rnd attempt baseDelay maxDelay =
     (let delay = int64_of_float oor (real_of_int baseDelay * 2 powr real_of_int (attempt - 1));
          delay1 = (if delay > maxDelay then maxDelay else delay);
          jitter = int64_of_float oor (rnd * (1 / 4) * real_of_int delay1)
      in wrap_int64 (delay1 + jitter))"

subsection \<open>What the trace says\<close>

fun calls :: "retry_event list \<Rightarrow> int list" where
  "calls [] = []"
| "calls (Call n # tr) = n # calls tr"
| "calls (Sleep d # tr) = calls tr"

fun sleeps :: "retry_event list \<Rightarrow> duration list" where
  "sleeps [] = []"
| "sleeps (Call n # tr) = sleeps tr"
| "sleeps (Sleep d # tr) = d # sleeps tr"

text \<open>The intervals the attempts start from, and whether an attempt ends the loop.\<close>

fun base_interval :: "(real \<Rightarrow> int) \<Rightarrow> 'e RetryConfig \<Rightarrow> nat \<Rightarrow> duration" where
  "base_interval oor config 0 = rc_InitialInterval config"
| "base_interval oor config (Suc k) =
     snd (nextBackoffInterval oor 0 (base_interval oor config k) config)"

definition final_attempt :: "'e retry_env \<Rightarrow> 'e RetryConfig \<Rightarrow> int \<Rightarrow> bool" where
  "final_attempt env config k =
     (k = rc_MaxAttempts config
      \<or> (case outcome env k of None \<Rightarrow> True
           | Some err \<Rightarrow> \<not> isRetryableError err (rc_RetryableErrors config)))"

definition no_cancel :: "'e retry_env \<Rightarrow> bool" where
  "no_cancel env \<longleftrightarrow> (\<forall>k. \<not> done_before env k \<and> \<not> done_asleep env k)"

lemma next_interval_no_random:
  "snd (nextBackoffInterval oor r i config) = snd (nextBackoffInterval oor 0 i config)"
  by (simp add: nextBackoffInterval_def Let_def)

lemma upto_Cons: "i \<le> j \<Longrightarrow> [i..j] = i # [i + 1..j]"
  by (rule upto_rec1)

text \<open>The end of the attempts, an attempt that ends the loop, and one that does not.\<close>

lemma retry_exhausted: "rc_MaxAttempts config < k \<Longrightarrow> retry_loop oor env config k i e = (e, [])"
  by (subst retry_loop.simps) simp

lemma retry_final:
  assumes "final_attempt env config k" "k \<le> rc_MaxAttempts config" "\<not> done_before env k"
  shows "retry_loop oor env config k i e = (outcome env k, [Call k])"
  using assms
  by (subst retry_loop.simps)
    (auto simp: final_attempt_def retry_exhausted split: option.splits)

lemma retry_continues:
  assumes "\<not> final_attempt env config k" "k \<le> rc_MaxAttempts config" "\<not> done_before env k" "\<not> done_asleep env k"
    and "sleep = calculateInterval oor (random env k) i config"
  shows "retry_loop oor env config k i e =
    (case retry_loop oor env config (k + 1) (snd (nextBackoffInterval oor 0 i config)) (outcome env k) of
       (r, tr) \<Rightarrow> (r, Call k # Sleep sleep # tr))"
  using assms
  by (subst retry_loop.simps)
    (auto simp: final_attempt_def nextBackoffInterval_def Let_def split: option.splits prod.splits)

text \<open>Without cancellation the loop runs up to the first attempt that ends it.\<close>

lemma retry_loop_runs:
  assumes "no_cancel env" "k \<le> m" "m \<le> rc_MaxAttempts config"
    and "final_attempt env config m" "\<forall>j. k \<le> j \<and> j < m \<longrightarrow> \<not> final_attempt env config j"
    and "i = base_interval oor config b"
  shows "fst (retry_loop oor env config k i e) = outcome env m
    \<and> calls (snd (retry_loop oor env config k i e)) = [k..m]
    \<and> sleeps (snd (retry_loop oor env config k i e)) =
        map (\<lambda>j. calculateInterval oor (random env j) (base_interval oor config (b + nat (j - k))) config) [k..m - 1]"
  using assms(2,5,6)
proof (induction "nat (m - k)" arbitrary: k i e b)
  case 0
  then have "k = m" by simp
  then show ?case using retry_final [OF assms(4,3)] assms(1)
    by (simp add: no_cancel_def upto_Cons)
next
  case (Suc n)
  have km: "k < m" using Suc.hyps(2) by linarith
  let ?i = "snd (nextBackoffInterval oor 0 i config)"
  have nf: "\<not> final_attempt env config k" using Suc.prems(2) km by auto
  have e: "retry_loop oor env config k i e =
      (case retry_loop oor env config (k + 1) ?i (outcome env k) of
         (r, tr) \<Rightarrow> (r, Call k # Sleep (calculateInterval oor (random env k) i config) # tr))"
    by (rule retry_continues [OF nf]) (use assms(1,3) km in \<open>auto simp: no_cancel_def\<close>)
  have "n = nat (m - (k + 1))" using Suc.hyps(2) by linarith
  moreover have "k + 1 \<le> m" using km by simp
  moreover have "\<forall>j. k + 1 \<le> j \<and> j < m \<longrightarrow> \<not> final_attempt env config j"
    using Suc.prems(2) by (metis add_le_same_cancel1 le_add_same_cancel1 order_trans zero_le_one)
  moreover have "?i = base_interval oor config (Suc b)" using Suc.prems(3) by simp
  ultimately have ih: "fst (retry_loop oor env config (k + 1) ?i (outcome env k)) = outcome env m
    \<and> calls (snd (retry_loop oor env config (k + 1) ?i (outcome env k))) = [k + 1..m]
    \<and> sleeps (snd (retry_loop oor env config (k + 1) ?i (outcome env k))) =
        map (\<lambda>j. calculateInterval oor (random env j) (base_interval oor config (Suc b + nat (j - (k + 1)))) config) [k + 1..m - 1]"
    by (rule Suc.hyps(1))
  have shift: "b + nat (j - k) = Suc b + nat (j - (k + 1))" if "k + 1 \<le> j" for j
    using that by linarith
  have "map (\<lambda>j. calculateInterval oor (random env j) (base_interval oor config (Suc b + nat (j - (k + 1)))) config) [k + 1..m - 1]
      = map (\<lambda>j. calculateInterval oor (random env j) (base_interval oor config (b + nat (j - k))) config) [k + 1..m - 1]"
    by (rule map_cong [OF refl]) (auto simp: shift)
  with ih e km Suc.prems(3) show ?case
    by (simp add: case_prod_unfold upto_Cons)
qed

lemma calls_bounded:
  "\<exists>m. m \<le> rc_MaxAttempts config \<and> calls (snd (retry_loop oor env config k i e)) = [k..m]"
proof (induction oor env config k i e rule: retry_loop.induct)
  case (1 oor env config k i e)
  have stop: "\<exists>m. m \<le> rc_MaxAttempts config \<and> [] = [k..m]"
    by (rule exI [of _ "min (k - 1) (rc_MaxAttempts config)"]) auto
  consider (stop) "k > rc_MaxAttempts config \<or> done_before env k"
    | (final) "k \<le> rc_MaxAttempts config" "\<not> done_before env k" "final_attempt env config k"
    | (asleep) "k \<le> rc_MaxAttempts config" "\<not> done_before env k" "\<not> final_attempt env config k" "done_asleep env k"
    | (next_try) "k \<le> rc_MaxAttempts config" "\<not> done_before env k" "\<not> final_attempt env config k" "\<not> done_asleep env k"
    by linarith
  then show ?case
  proof cases
    case stop
    then show ?thesis using \<open>\<exists>m. m \<le> rc_MaxAttempts config \<and> [] = [k..m]\<close>
      by (subst retry_loop.simps) auto
  next
    case final
    then have "calls (snd (retry_loop oor env config k i e)) = [k..k]" by (simp add: retry_final)
    then show ?thesis using final(1) by blast
  next
    case asleep
    then have "calls (snd (retry_loop oor env config k i e)) = [k..k]"
      by (subst retry_loop.simps) (auto simp: final_attempt_def split: option.splits prod.splits)
    then show ?thesis using asleep(1) by blast
  next
    case next_try
    then obtain err where o: "outcome env k = Some err" "isRetryableError err (rc_RetryableErrors config)" "k < rc_MaxAttempts config"
      by (auto simp: final_attempt_def split: option.splits)
    let ?rest = "retry_loop oor env config (k + 1) (snd (nextBackoffInterval oor 0 i config)) (Some err)"
    obtain m where m: "m \<le> rc_MaxAttempts config" "calls (snd ?rest) = [k + 1..m]"
      using 1(1) [OF _ next_try(2) o(1) _ o(3) prod.collapse next_try(4)] next_try(1) o(2)
      by (auto simp: next_interval_no_random [of oor "random env k"])
    have c: "calls (snd (retry_loop oor env config k i e)) = k # [k + 1..m]"
      using retry_continues [OF next_try(3,1,2,4) refl, of oor i e] m(2) o(1) by (simp add: case_prod_unfold)
    show ?thesis
    proof (cases "k \<le> m")
      case True
      then show ?thesis using c m(1) by (auto simp: upto_Cons intro: exI [of _ m])
    next
      case False
      then have "k # [k + 1..m] = [k..k]" by (simp add: upto_Cons)
      then show ?thesis using c next_try(1) by auto
    qed
  qed
qed

text \<open>
  C14. \<^verbatim>\<open>Retry\<close> without cancellation is exact. If attempt \<open>m\<close> is the first that succeeds,
  fails with an error that is not retryable or is the last one allowed, the function is
  called exactly \<open>m\<close> times, its \<open>m\<close>-th answer is the result, and between attempts \<open>j\<close> and
  \<open>j + 1\<close> it sleeps the randomised \<open>j\<close>-th backoff interval. Under any cancellation the calls
  are those of attempts 1 up to some attempt not above \<^verbatim>\<open>MaxAttempts\<close>.
\<close>

theorem retry_exact:
  assumes "no_cancel env" "1 \<le> m" "m \<le> rc_MaxAttempts config"
    and "final_attempt env config m" "\<forall>j. 1 \<le> j \<and> j < m \<longrightarrow> \<not> final_attempt env config j"
  shows "fst (Retry oor env config) = outcome env m
    \<and> calls (snd (Retry oor env config)) = [1..m]
    \<and> sleeps (snd (Retry oor env config)) =
        map (\<lambda>j. calculateInterval oor (random env j) (base_interval oor config (nat (j - 1))) config) [1..m - 1]
    \<and> (\<exists>k \<le> rc_MaxAttempts config. calls (snd (Retry oor env' config)) = [1..k])"
  using retry_loop_runs [OF assms(1-5), of "rc_InitialInterval config" oor 0]
    calls_bounded [of config oor env' 1 "rc_InitialInterval config" None]
  by (auto simp: Retry_def)

definition flaky_env :: "nat retry_env" where
  "flaky_env = \<lparr>outcome = (\<lambda>k. if k < 3 then Some 7 else None), done_before = (\<lambda>_. False),
     done_asleep = (\<lambda>_. False), random = (\<lambda>_. 1 / 2), ctx_err = 0\<rparr>"

theorem retry_exact_witness:
  "fst (Retry (\<lambda>_. 0) flaky_env DefaultRetryConfig) = None
   \<and> calls (snd (Retry (\<lambda>_. 0) flaky_env DefaultRetryConfig)) = [1..3]"
proof -
  have "final_attempt flaky_env (DefaultRetryConfig :: nat RetryConfig) 3"
    "\<forall>j. 1 \<le> j \<and> j < 3 \<longrightarrow> \<not> final_attempt flaky_env (DefaultRetryConfig :: nat RetryConfig) j"
    by (auto simp: final_attempt_def flaky_env_def DefaultRetryConfig_def isRetryableError_def)
  then show ?thesis
    using retry_exact [of flaky_env 3 DefaultRetryConfig "\<lambda>_. 0"]
    by (simp add: no_cancel_def flaky_env_def DefaultRetryConfig_def)
qed

subsection \<open>Backoff\<close>

text \<open>Configurations whose intervals and products stay inside 64 bits.\<close>

definition sane_config :: "'e RetryConfig \<Rightarrow> bool" where
  "sane_config config \<longleftrightarrow> 0 \<le> rc_InitialInterval config \<and> rc_InitialInterval config \<le> rc_MaxInterval config
     \<and> 1 \<le> rc_Multiplier config \<and> 0 \<le> rc_RandomizationFactor config \<and> rc_RandomizationFactor config \<le> 1
     \<and> 2 * rc_MaxInterval config < 2 ^ 63 \<and> real_of_int (rc_MaxInterval config) * rc_Multiplier config < 2 ^ 63"

lemma int64_of_float_inside: "0 \<le> x \<Longrightarrow> x < 2 ^ 63 \<Longrightarrow> int64_of_float oor x = trunc x"
  by (simp add: int64_of_float_def in_int64_def trunc_def floor_less_iff)

lemma calculateInterval_bounds:
  assumes "sane_config config" "0 \<le> r" "r < 1" "0 \<le> i" "i \<le> rc_MaxInterval config"
  shows "0 \<le> calculateInterval oor r i config"
    and "real_of_int (calculateInterval oor r i config) \<le> (1 + rc_RandomizationFactor config) * real_of_int i"
    and "(1 - rc_RandomizationFactor config) * real_of_int i - 1 \<le> real_of_int (calculateInterval oor r i config)"
proof -
  let ?f = "rc_RandomizationFactor config"
  let ?x = "real_of_int i - ?f * real_of_int i + r * (real_of_int i + ?f * real_of_int i - (real_of_int i - ?f * real_of_int i))"
  have f: "0 \<le> ?f" "?f \<le> 1" "2 * rc_MaxInterval config < 2 ^ 63" using assms(1) by (auto simp: sane_config_def)
  have "r * (2 * (?f * real_of_int i)) \<le> 1 * (2 * (?f * real_of_int i))"
    using assms(2,3,4) f by (intro mult_right_mono) auto
  moreover have "?x = real_of_int i - ?f * real_of_int i + r * (2 * (?f * real_of_int i))"
    by (simp add: algebra_simps)
  ultimately have hi: "?x \<le> (1 + ?f) * real_of_int i" by (simp add: algebra_simps)
  have "0 \<le> r * (2 * (?f * real_of_int i))" using assms(2,4) f by simp
  then have lo: "(1 - ?f) * real_of_int i \<le> ?x" by (simp add: algebra_simps)
  have nn: "0 \<le> (1 - ?f) * real_of_int i" using assms(4) f by simp
  have "(1 + ?f) * real_of_int i \<le> 2 * real_of_int i" using f assms(4) by (intro mult_right_mono) auto
  also have "2 * real_of_int i < 2 ^ 63" using assms(5) f(3) by simp
  finally have x: "int64_of_float oor ?x = trunc ?x" using lo nn hi by (intro int64_of_float_inside) linarith+
  have c: "calculateInterval oor r i config = (if ?f = 0 then i else trunc ?x)"
    by (simp only: calculateInterval_def Let_def x)
  have x0: "0 \<le> ?x" using lo nn by linarith
  show "0 \<le> calculateInterval oor r i config"
    using trunc_nonneg [OF x0] assms(4) unfolding c by simp
  show "real_of_int (calculateInterval oor r i config) \<le> (1 + ?f) * real_of_int i"
    using trunc_le [OF x0] hi unfolding c by (cases "?f = 0") simp_all
  have "?x - 1 \<le> real_of_int (trunc ?x)" using x0 by (simp add: trunc_def)
  then show "(1 - ?f) * real_of_int i - 1 \<le> real_of_int (calculateInterval oor r i config)"
    using lo unfolding c by (cases "?f = 0") simp_all
qed

lemma next_interval_bounds:
  assumes "sane_config config" "0 \<le> i" "i \<le> rc_MaxInterval config"
  shows "snd (nextBackoffInterval oor r i config)
           = min (rc_MaxInterval config) (trunc (real_of_int i * rc_Multiplier config))"
    and "i \<le> snd (nextBackoffInterval oor r i config)"
    and "snd (nextBackoffInterval oor r i config) \<le> rc_MaxInterval config"
proof -
  let ?y = "real_of_int i * rc_Multiplier config"
  have m: "1 \<le> rc_Multiplier config" "real_of_int (rc_MaxInterval config) * rc_Multiplier config < 2 ^ 63"
    using assms(1) by (auto simp: sane_config_def)
  have "?y \<le> real_of_int (rc_MaxInterval config) * rc_Multiplier config"
    using assms(3) m(1) by (intro mult_right_mono) auto
  then have "?y < 2 ^ 63" using m(2) by (rule order.strict_trans1)
  then have "int64_of_float oor ?y = trunc ?y" using assms(2) m(1) by (intro int64_of_float_inside) auto
  then show eq: "snd (nextBackoffInterval oor r i config) = min (rc_MaxInterval config) (trunc ?y)"
    by (simp add: nextBackoffInterval_def Let_def)
  have "real_of_int i \<le> ?y" using assms(2) m(1) mult_left_mono [of 1 "rc_Multiplier config" "real_of_int i"] by simp
  then have "i \<le> trunc ?y" using trunc_mono [of "real_of_int i" ?y] assms(2) by simp
  then show "i \<le> snd (nextBackoffInterval oor r i config)"
    and "snd (nextBackoffInterval oor r i config) \<le> rc_MaxInterval config"
    using assms(3) by (simp_all add: eq)
qed

lemma sleeps_are_jittered:
  assumes "sane_config config" "0 \<le> i" "i \<le> rc_MaxInterval config"
    and "d \<in> set (sleeps (snd (retry_loop oor env config k i e)))"
  shows "\<exists>j b. 0 \<le> b \<and> b \<le> rc_MaxInterval config \<and> d = calculateInterval oor (random env j) b config"
  using assms
proof (induction oor env config k i e rule: retry_loop.induct)
  case (1 oor env config k i e)
  let ?i = "snd (nextBackoffInterval oor (random env k) i config)"
  have i: "0 \<le> ?i" "?i \<le> rc_MaxInterval config"
    using next_interval_bounds [OF 1(3-5), of oor "random env k"] 1(4) by auto
  have run: "\<not> k > rc_MaxAttempts config" "\<not> done_before env k"
    using 1(6) by (auto simp: retry_loop.simps [of oor env config k] split: if_splits)
  then obtain err where o: "outcome env k = Some err"
    using 1(6) by (cases "outcome env k") (auto simp: retry_loop.simps [of oor env config k])
  have r: "isRetryableError err (rc_RetryableErrors config)"
    using 1(6) run o by (auto simp: retry_loop.simps [of oor env config k] split: if_splits)
  have lt: "k < rc_MaxAttempts config"
    using 1(6) run o r by (auto simp: retry_loop.simps [of oor env config k] retry_exhausted split: if_splits)
  have "d = calculateInterval oor (random env k) i config
      \<or> \<not> done_asleep env k \<and> d \<in> set (sleeps (snd (retry_loop oor env config (k + 1) ?i (Some err))))"
    using 1(6) run o r lt
    by (auto simp: retry_loop.simps [of oor env config k] case_prod_unfold nextBackoffInterval_def Let_def
        split: if_splits)
  then show ?case
    using 1(1) [OF run o _ lt prod.collapse _ 1(3) i] r 1(4,5) by blast
qed

lemma base_interval_bounds:
  assumes "sane_config config"
  shows "0 \<le> base_interval oor config k \<and> base_interval oor config k \<le> rc_MaxInterval config"
proof (induction k)
  case 0
  then show ?case using assms by (simp add: sane_config_def)
next
  case (Suc k)
  then show ?case using next_interval_bounds [OF assms, of "base_interval oor config k" oor 0] by auto
qed

lemma base_interval_power:
  assumes "sane_config config" "rc_Multiplier config = real_of_int q"
  shows "base_interval oor config k = min (rc_MaxInterval config) (rc_InitialInterval config * q ^ k)"
proof (induction k)
  case 0
  then show ?case using assms(1) by (simp add: sane_config_def)
next
  case (Suc k)
  let ?b = "base_interval oor config k" and ?M = "rc_MaxInterval config" and ?I = "rc_InitialInterval config"
  have q: "1 \<le> q" "0 \<le> ?M" using assms by (auto simp: sane_config_def)
  have "base_interval oor config (Suc k) = min ?M (trunc (real_of_int (?b * q)))"
    using next_interval_bounds(1) [OF assms(1)] base_interval_bounds [OF assms(1), of oor k] assms(2)
    by simp
  also have "\<dots> = min ?M (?b * q)" by (simp only: trunc_of_int)
  also have "\<dots> = min ?M (?I * q ^ Suc k)"
  proof (cases "?I * q ^ k \<le> ?M")
    case True
    then show ?thesis using Suc by (simp add: algebra_simps)
  next
    case False
    then have "?M * 1 \<le> ?M * q" "?M * q \<le> ?I * q ^ k * q"
      using q by (intro mult_left_mono mult_right_mono; simp)+
    then show ?thesis using Suc False by (simp add: algebra_simps)
  qed
  finally show ?case .
qed

text \<open>
  Backoff. For a sane configuration and random numbers in \<open>[0, 1)\<close>, the interval
  \<^verbatim>\<open>Retry\<close> starts from never shrinks from one attempt to the next and never exceeds
  \<^verbatim>\<open>MaxInterval\<close> (for a whole multiplier it is the initial interval times its power,
  capped); every sleep, cancelled or not, is non-negative and at most \<^verbatim>\<open>MaxInterval\<close> plus
  the configured jitter.
\<close>

theorem retry_backoff_bounded:
  assumes "sane_config config" "\<forall>j. 0 \<le> random env j \<and> random env j < 1"
    and "d \<in> set (sleeps (snd (Retry oor env config)))"
  shows "0 \<le> d \<and> real_of_int d \<le> (1 + rc_RandomizationFactor config) * real_of_int (rc_MaxInterval config)
    \<and> base_interval oor config k \<le> base_interval oor config (Suc k)
    \<and> base_interval oor config k \<le> rc_MaxInterval config
    \<and> (rc_Multiplier config = real_of_int q \<longrightarrow>
         base_interval oor config k = min (rc_MaxInterval config) (rc_InitialInterval config * q ^ k))"
proof -
  have i: "0 \<le> rc_InitialInterval config" "rc_InitialInterval config \<le> rc_MaxInterval config"
    and f: "0 \<le> rc_RandomizationFactor config"
    using assms(1) by (auto simp: sane_config_def)
  obtain j b where b: "0 \<le> b" "b \<le> rc_MaxInterval config" "d = calculateInterval oor (random env j) b config"
    using sleeps_are_jittered [OF assms(1) i assms(3) [unfolded Retry_def]] by blast
  have "0 \<le> d" and up: "real_of_int d \<le> (1 + rc_RandomizationFactor config) * real_of_int b"
    using calculateInterval_bounds(1,2) [OF assms(1) _ _ b(1,2)] assms(2) b(3) by auto
  moreover have "(1 + rc_RandomizationFactor config) * real_of_int b
      \<le> (1 + rc_RandomizationFactor config) * real_of_int (rc_MaxInterval config)"
    using b(2) f by (intro mult_left_mono) auto
  moreover have "base_interval oor config k \<le> base_interval oor config (Suc k)"
    using next_interval_bounds(2) [OF assms(1)] base_interval_bounds [OF assms(1)] by simp
  ultimately show ?thesis
    using base_interval_bounds [OF assms(1)] base_interval_power [OF assms(1)] by (simp del: base_interval.simps)
qed

lemma flaky_sleeps: "sleeps (snd (Retry (\<lambda>_. 0) flaky_env DefaultRetryConfig)) = [100 * millisecond, 200 * millisecond]"
  by (simp add: Retry_def retry_loop.simps flaky_env_def DefaultRetryConfig_def isRetryableError_def
      nextBackoffInterval_def calculateInterval_def int64_of_float_def trunc_def in_int64_def Let_def)

theorem retry_backoff_bounded_witness:
  "real_of_int (200 * millisecond) \<le> (1 + 1 / 2) * real_of_int (10 * second)
   \<and> base_interval (\<lambda>_. 0) (DefaultRetryConfig :: nat RetryConfig) 9
       = min (10 * second) (100 * millisecond * 2 ^ 9)"
proof -
  have s: "sane_config (DefaultRetryConfig :: nat RetryConfig)"
    by (simp add: sane_config_def DefaultRetryConfig_def)
  have "(200 * millisecond) \<in> set (sleeps (snd (Retry (\<lambda>_. 0) flaky_env DefaultRetryConfig)))"
    by (simp add: flaky_sleeps)
  from retry_backoff_bounded [OF s _ this, of 9 2] show ?thesis
    by (simp add: flaky_env_def DefaultRetryConfig_def del: base_interval.simps)
qed

subsection \<open>\<^verbatim>\<open>RetryWithResult\<close> against \<^verbatim>\<open>Retry\<close>\<close>

lemma retry_result_loop_eq:
  "(case retry_result_loop oor val env config k i e x of (y, r, tr) \<Rightarrow> (r, tr))
     = retry_loop oor env (config\<lparr>rc_RetryableErrors := []\<rparr>) k i e"
proof (induction oor val env config k i e x rule: retry_result_loop.induct)
  case (1 oor val env config k i e x)
  then show ?case
    by (subst retry_result_loop.simps, subst retry_loop.simps)
      (auto simp: isRetryableError_def nextBackoffInterval_def calculateInterval_def Let_def case_prod_unfold
        prod_eq_iff split: option.splits)
qed

lemma retry_result_val:
  "fst (snd (retry_result_loop oor val env config k i e x)) = None \<Longrightarrow> k \<le> rc_MaxAttempts config
     \<Longrightarrow> \<exists>m \<ge> k. fst (retry_result_loop oor val env config k i e x) = val m \<and> outcome env m = None"
proof (induction oor val env config k i e x rule: retry_result_loop.induct)
  case (1 oor val env config k i e x)
  show ?case
  proof (cases "outcome env k")
    case None
    then show ?thesis using "1.prems"
      by (subst (asm) (1) retry_result_loop.simps, subst retry_result_loop.simps) (auto split: if_splits)
  next
    case (Some err)
    show ?thesis
    proof (cases "k < rc_MaxAttempts config")
      case True
      let ?i = "int64_of_float oor (real_of_int i * rc_Multiplier config)"
      let ?r = "retry_result_loop oor val env config (k + 1)
        (if ?i > rc_MaxInterval config then rc_MaxInterval config else ?i) (Some err) (val k)"
      have nd1: "\<not> done_before env k"
        using "1.prems" by (auto simp: retry_result_loop.simps [of oor val env config k])
      moreover have "\<not> done_asleep env k"
        using "1.prems" nd1 Some True by (auto simp: retry_result_loop.simps [of oor val env config k] Let_def)
      ultimately have nd: "\<not> done_before env k" "\<not> done_asleep env k" by auto
      have eq: "fst (retry_result_loop oor val env config k i e x) = fst ?r"
        "fst (snd (retry_result_loop oor val env config k i e x)) = fst (snd ?r)"
        using nd Some True by (simp_all add: retry_result_loop.simps [of oor val env config k] Let_def case_prod_unfold)
      have "\<exists>m \<ge> k + 1. fst ?r = val m \<and> outcome env m = None"
        using "1.IH"(1) [OF _ nd(1) Some True refl nd(2) refl refl] True "1.prems"(1) eq(2) by auto
      then show ?thesis unfolding eq(1) by (metis add_increasing2 order_trans zero_le_one order_refl)
    next
      case False
      then have "fst (snd (retry_result_loop oor val env config k i e x)) \<noteq> None"
        using "1.prems"(2) Some
        by (subst retry_result_loop.simps, subst (2) retry_result_loop.simps) simp
      then show ?thesis using "1.prems"(1) by simp
    qed
  qed
qed

text \<open>
  \<^verbatim>\<open>RetryWithResult\<close> is \<^verbatim>\<open>Retry\<close> with an empty list of retryable errors: same error,
  same calls, same sleeps, whatever \<^verbatim>\<open>RetryableErrors\<close> holds. So it retries errors that
  \<^verbatim>\<open>Retry\<close> would give up on. On success the value it returns is that of a successful call.
\<close>

theorem retry_with_result_ignores_retryable:
  "(case RetryWithResult oor val zero env config of (x, r, tr) \<Rightarrow> (r, tr))
     = Retry oor env (config\<lparr>rc_RetryableErrors := []\<rparr>)
   \<and> (fst (snd (RetryWithResult oor val zero env config)) = None \<longrightarrow> 1 \<le> rc_MaxAttempts config \<longrightarrow>
        (\<exists>m \<ge> 1. fst (RetryWithResult oor val zero env config) = val m \<and> outcome env m = None))"
  using retry_result_loop_eq [of oor val env config 1 "rc_InitialInterval config" None zero]
    retry_result_val [of oor val env config 1 "rc_InitialInterval config" None zero]
  by (simp add: RetryWithResult_def Retry_def)

definition picky_config :: "nat RetryConfig" where
  "picky_config = DefaultRetryConfig\<lparr>rc_RetryableErrors := [42]\<rparr>"

theorem retry_with_result_ignores_retryable_witness:
  "fst (snd (RetryWithResult (\<lambda>_. 0) (\<lambda>k. k) 0 flaky_env picky_config)) = None
   \<and> fst (Retry (\<lambda>_. 0) flaky_env picky_config) = Some 7
   \<and> (\<exists>m \<ge> 1. fst (RetryWithResult (\<lambda>_. 0) (\<lambda>k. k) 0 flaky_env picky_config) = m \<and> outcome flaky_env m = None)"
proof -
  have p: "picky_config\<lparr>rc_RetryableErrors := []\<rparr> = DefaultRetryConfig"
    by (simp add: picky_config_def DefaultRetryConfig_def)
  have d: "fst (Retry (\<lambda>_. 0) flaky_env (DefaultRetryConfig :: nat RetryConfig)) = None"
    by (simp add: Retry_def retry_loop.simps flaky_env_def DefaultRetryConfig_def isRetryableError_def
        nextBackoffInterval_def calculateInterval_def int64_of_float_def trunc_def in_int64_def Let_def)
  have "fst (Retry (\<lambda>_. 0) flaky_env picky_config) = Some 7"
    by (simp add: Retry_def retry_loop.simps flaky_env_def picky_config_def DefaultRetryConfig_def isRetryableError_def)
  then show ?thesis
    using retry_with_result_ignores_retryable [of "\<lambda>_. 0" "\<lambda>k. k" 0 flaky_env picky_config] d
    by (simp add: p case_prod_unfold prod_eq_iff picky_config_def DefaultRetryConfig_def)
qed

text \<open>
  A configuration that allows no attempt (\<^verbatim>\<open>MaxAttempts\<close> zero or negative, as in a
  zero-valued \<^verbatim>\<open>RetryConfig\<close>) reports success without ever calling the function.
\<close>

theorem retry_without_attempts_succeeds:
  "rc_MaxAttempts config \<le> 0 \<Longrightarrow>
     Retry oor env config = (None, []) \<and> RetryWithResult oor val zero env config = (zero, None, [])"
  by (simp add: Retry_def RetryWithResult_def retry_loop.simps retry_result_loop.simps)

theorem retry_without_attempts_succeeds_witness:
  "Retry (\<lambda>_. 0) flaky_env (DefaultRetryConfig\<lparr>rc_MaxAttempts := 0\<rparr>) = (None, [])"
  using retry_without_attempts_succeeds [of "DefaultRetryConfig\<lparr>rc_MaxAttempts := 0\<rparr> :: nat RetryConfig" "\<lambda>_. 0" flaky_env "\<lambda>k. k" 0]
  by simp

end
