(* ===== verification/Job_Model.thy ===== *)
theory Job_Model
  imports Arcana_Prelude "HOL-Library.Monad_Syntax"
begin

text \<open>
  The data model of the job system, \<^verbatim>\<open>internal/jobs/job.go\<close>: priorities, statuses, the
  retry policy with its delay computation, the job payload with its functional options, and
  the JSON documents jobs are stored as. A document is a tree; a timestamp is a leaf of its
  own (\<^verbatim>\<open>time.Time\<close> is written in a format that keeps the instant to the nanosecond, and
  refuses years outside 0 to 9999). Strings are assumed to be valid UTF-8 and integers to
  fit their Go type, so neither is changed by a round trip.
\<close>

subsection \<open>Errors, priorities, statuses\<close>

text \<open>\<open>Errorf s\<close> is the error that \<^verbatim>\<open>fmt.Errorf\<close> makes with the prefix \<open>s\<close>; \<open>ClientErr\<close> is an
  error of the Redis client that is passed on as it is.\<close>

datatype job_error =
    ErrJobNotFound | ErrDuplicateJob | ErrQueueEmpty | ErrJobAlreadyTaken
  | Errorf string | ClientErr

type_synonym Priority = int

definition PriorityLow :: Priority where "PriorityLow = 0"
definition PriorityNormal :: Priority where "PriorityNormal = 1"
definition PriorityHigh :: Priority where "PriorityHigh = 2"
definition PriorityCritical :: Priority where "PriorityCritical = 3"

lemmas priority_defs = PriorityLow_def PriorityNormal_def PriorityHigh_def PriorityCritical_def

definition Priority_String :: "Priority \<Rightarrow> string" where
  "Priority_String p =
     (if p = PriorityLow then ''low'' else if p = PriorityNormal then ''normal''
      else if p = PriorityHigh then ''high'' else if p = PriorityCritical then ''critical''
      else ''unknown'')"

definition QueueName :: "Priority \<Rightarrow> string" where
  "QueueName p = ''arcana:jobs:queue:'' @ Priority_String p"

type_synonym JobStatus = string

definition JobStatusPending :: JobStatus where "JobStatusPending = ''pending''"
definition JobStatusRunning :: JobStatus where "JobStatusRunning = ''running''"
definition JobStatusCompleted :: JobStatus where "JobStatusCompleted = ''completed''"
definition JobStatusFailed :: JobStatus where "JobStatusFailed = ''failed''"
definition JobStatusRetrying :: JobStatus where "JobStatusRetrying = ''retrying''"
definition JobStatusDead :: JobStatus where "JobStatusDead = ''dead''"

lemmas status_defs = JobStatusPending_def JobStatusRunning_def JobStatusCompleted_def
  JobStatusFailed_def JobStatusRetrying_def JobStatusDead_def

lemma QueueName_inj:
  "QueueName p = QueueName q \<longleftrightarrow> p = q \<or> p \<notin> {0, 1, 2, 3} \<and> q \<notin> {0, 1, 2, 3}"
  by (auto simp: QueueName_def Priority_String_def priority_defs)

subsection \<open>Retry policy\<close>

type_synonym RetryStrategy = string

definition RetryStrategyExponential :: RetryStrategy where "RetryStrategyExponential = ''exponential''"
definition RetryStrategyLinear :: RetryStrategy where "RetryStrategyLinear = ''linear''"
definition RetryStrategyFixed :: RetryStrategy where "RetryStrategyFixed = ''fixed''"

lemmas strategy_defs = RetryStrategyExponential_def RetryStrategyLinear_def RetryStrategyFixed_def

record RetryPolicy =
  rp_MaxRetries :: int
  rp_Strategy :: RetryStrategy
  rp_InitialDelay :: duration
  rp_MaxDelay :: duration
  rp_Multiplier :: real
  rp_JitterEnabled :: bool

definition DefaultRetryPolicy :: RetryPolicy where
  "DefaultRetryPolicy = \<lparr>rp_MaxRetries = 3, rp_Strategy = RetryStrategyExponential,
     rp_InitialDelay = second, rp_MaxDelay = 5 * minute, rp_Multiplier = 2, rp_JitterEnabled = True\<rparr>"

fun pow_loop :: "nat \<Rightarrow> real \<Rightarrow> real \<Rightarrow> real" where
  "pow_loop 0 base result = result"
| "pow_loop (Suc n) base result = pow_loop n base (result * base)"

definition pow :: "real \<Rightarrow> real \<Rightarrow> real" where
  "pow base e = pow_loop (nat (trunc e)) base 1"

definition CalculateDelay :: "(real \<Rightarrow> int) \<Rightarrow> RetryPolicy \<Rightarrow> int \<Rightarrow> duration" where
  "CalculateDelay oor p attempt =
     (let delay = (if rp_Strategy p = RetryStrategyExponential
                   then int64_of_float oor (real_of_int (rp_InitialDelay p)
                          * pow (rp_Multiplier p) (real_of_int (attempt - 1)))
                   else if rp_Strategy p = RetryStrategyLinear
                   then wrap_int64 (rp_InitialDelay p * attempt)
                   else rp_InitialDelay p)
      in if delay > rp_MaxDelay p then rp_MaxDelay p else delay)"

subsection \<open>JSON documents\<close>

datatype json =
    JNull | JBool bool | JNum real | JStr string | JTime time
  | JArr "json list" | JObj "(string \<times> json) list"

text \<open>An absent field and \<^verbatim>\<open>null\<close> leave the zero value; a value of another kind is an error.\<close>

fun as_str :: "json option \<Rightarrow> string option" where
  "as_str None = Some []"
| "as_str (Some JNull) = Some []"
| "as_str (Some (JStr s)) = Some s"
| "as_str (Some _) = None"

fun as_int :: "json option \<Rightarrow> int option" where
  "as_int None = Some 0"
| "as_int (Some JNull) = Some 0"
| "as_int (Some (JNum x)) = (if x = real_of_int \<lfloor>x\<rfloor> then Some \<lfloor>x\<rfloor> else None)"
| "as_int (Some _) = None"

fun as_float :: "json option \<Rightarrow> real option" where
  "as_float None = Some 0"
| "as_float (Some JNull) = Some 0"
| "as_float (Some (JNum x)) = Some x"
| "as_float (Some _) = None"

fun as_bool :: "json option \<Rightarrow> bool option" where
  "as_bool None = Some False"
| "as_bool (Some JNull) = Some False"
| "as_bool (Some (JBool b)) = Some b"
| "as_bool (Some _) = None"

fun as_time :: "json option \<Rightarrow> time option" where
  "as_time None = Some zero_time"
| "as_time (Some JNull) = Some zero_time"
| "as_time (Some (JTime t)) = Some t"
| "as_time (Some _) = None"

fun as_time_ptr :: "json option \<Rightarrow> time option option" where
  "as_time_ptr None = Some None"
| "as_time_ptr (Some JNull) = Some None"
| "as_time_ptr (Some (JTime t)) = Some (Some t)"
| "as_time_ptr (Some _) = None"

fun as_raw :: "json option \<Rightarrow> json option" where
  "as_raw None = Some JNull"
| "as_raw (Some d) = Some d"

fun str_list :: "json list \<Rightarrow> string list option" where
  "str_list [] = Some []"
| "str_list (d # ds) = do { s \<leftarrow> as_str (Some d); ss \<leftarrow> str_list ds; Some (s # ss) }"

fun as_strs :: "json option \<Rightarrow> string list option" where
  "as_strs None = Some []"
| "as_strs (Some JNull) = Some []"
| "as_strs (Some (JArr ds)) = str_list ds"
| "as_strs (Some _) = None"

fun as_obj :: "json option \<Rightarrow> (string \<times> json) list option" where
  "as_obj None = Some []"
| "as_obj (Some JNull) = Some []"
| "as_obj (Some (JObj fs)) = Some fs"
| "as_obj (Some _) = None"

text \<open>The fields of the tag \<^verbatim>\<open>omitempty\<close>.\<close>

definition omit :: "string \<Rightarrow> json option \<Rightarrow> (string \<times> json) list" where
  "omit k v = (case v of None \<Rightarrow> [] | Some d \<Rightarrow> [(k, d)])"

definition nonempty :: "'a list \<Rightarrow> json \<Rightarrow> json option" where
  "nonempty xs d = (if xs = [] then None else Some d)"

lemma map_of_omit [simp]:
  "k' \<noteq> k \<Longrightarrow> map_of (omit k v @ fs) k' = map_of fs k'"
  "map_of fs k = None \<Longrightarrow> map_of (omit k v @ fs) k = v"
  "k' \<noteq> k \<Longrightarrow> map_of (omit k v) k' = None"
  "map_of (omit k v) k = v"
  by (auto simp: omit_def split: option.splits)

lemma as_strs_nonempty [simp]: "as_strs (nonempty ss (JArr (map JStr ss))) = Some ss"
proof -
  have "str_list (map JStr ss) = Some ss" by (induction ss) auto
  then show ?thesis by (simp add: nonempty_def)
qed

lemma as_str_nonempty [simp]: "as_str (nonempty s (JStr s)) = Some s"
  by (simp add: nonempty_def)

lemma as_time_ptr_map [simp]: "as_time_ptr (map_option JTime t) = Some t"
  by (cases t) auto

subsection \<open>Job payloads\<close>

record JobPayload =
  jp_ID :: string
  jp_Type :: string
  jp_Payload :: json
  jp_Priority :: Priority
  jp_Status :: JobStatus
  jp_Attempts :: int
  jp_MaxRetries :: int
  jp_RetryPolicy :: RetryPolicy
  jp_Timeout :: duration
  jp_ScheduledAt :: "time option"
  jp_CreatedAt :: time
  jp_StartedAt :: "time option"
  jp_CompletedAt :: "time option"
  jp_LastError :: string
  jp_CorrelationID :: string
  jp_UniqueKey :: string
  jp_Tags :: "string list"

text \<open>\<^verbatim>\<open>json.Marshal\<close> of a payload fails when one of its timestamps has no JSON form.\<close>

definition time_ok :: "time \<Rightarrow> bool" where
  "time_ok t \<longleftrightarrow> - 62167219200 * second \<le> t \<and> t < 253402300800 * second"

definition times_ok :: "JobPayload \<Rightarrow> bool" where
  "times_ok j \<longleftrightarrow> time_ok (jp_CreatedAt j) \<and> pred_option time_ok (jp_ScheduledAt j)
     \<and> pred_option time_ok (jp_StartedAt j) \<and> pred_option time_ok (jp_CompletedAt j)"

definition policy_doc :: "RetryPolicy \<Rightarrow> json" where
  "policy_doc p = JObj [
     (''max_retries'', JNum (real_of_int (rp_MaxRetries p))),
     (''strategy'', JStr (rp_Strategy p)),
     (''initial_delay'', JNum (real_of_int (rp_InitialDelay p))),
     (''max_delay'', JNum (real_of_int (rp_MaxDelay p))),
     (''multiplier'', JNum (rp_Multiplier p)),
     (''jitter_enabled'', JBool (rp_JitterEnabled p))]"

definition job_doc :: "JobPayload \<Rightarrow> json" where
  "job_doc j = JObj (
     [(''id'', JStr (jp_ID j)),
      (''type'', JStr (jp_Type j)),
      (''payload'', jp_Payload j),
      (''priority'', JNum (real_of_int (jp_Priority j))),
      (''status'', JStr (jp_Status j)),
      (''attempts'', JNum (real_of_int (jp_Attempts j))),
      (''max_retries'', JNum (real_of_int (jp_MaxRetries j))),
      (''retry_policy'', policy_doc (jp_RetryPolicy j)),
      (''timeout'', JNum (real_of_int (jp_Timeout j)))]
     @ omit ''scheduled_at'' (map_option JTime (jp_ScheduledAt j))
     @ [(''created_at'', JTime (jp_CreatedAt j))]
     @ omit ''started_at'' (map_option JTime (jp_StartedAt j))
     @ omit ''completed_at'' (map_option JTime (jp_CompletedAt j))
     @ omit ''last_error'' (nonempty (jp_LastError j) (JStr (jp_LastError j)))
     @ omit ''correlation_id'' (nonempty (jp_CorrelationID j) (JStr (jp_CorrelationID j)))
     @ omit ''unique_key'' (nonempty (jp_UniqueKey j) (JStr (jp_UniqueKey j)))
     @ omit ''tags'' (nonempty (jp_Tags j) (JArr (map JStr (jp_Tags j)))))"

definition marshal_job :: "JobPayload \<Rightarrow> json option" where
  "marshal_job j = (if times_ok j then Some (job_doc j) else None)"

definition unmarshal_policy :: "json option \<Rightarrow> RetryPolicy option" where
  "unmarshal_policy d = do {
     fs \<leftarrow> as_obj d;
     max_retries \<leftarrow> as_int (map_of fs ''max_retries'');
     strategy \<leftarrow> as_str (map_of fs ''strategy'');
     initial_delay \<leftarrow> as_int (map_of fs ''initial_delay'');
     max_delay \<leftarrow> as_int (map_of fs ''max_delay'');
     multiplier \<leftarrow> as_float (map_of fs ''multiplier'');
     jitter_enabled \<leftarrow> as_bool (map_of fs ''jitter_enabled'');
     Some \<lparr>rp_MaxRetries = max_retries, rp_Strategy = strategy, rp_InitialDelay = initial_delay,
           rp_MaxDelay = max_delay, rp_Multiplier = multiplier, rp_JitterEnabled = jitter_enabled\<rparr> }"

definition unmarshal_job :: "json \<Rightarrow> JobPayload option" where
  "unmarshal_job d = do {
     fs \<leftarrow> as_obj (Some d);
     id1 \<leftarrow> as_str (map_of fs ''id'');
     type1 \<leftarrow> as_str (map_of fs ''type'');
     payload \<leftarrow> as_raw (map_of fs ''payload'');
     priority \<leftarrow> as_int (map_of fs ''priority'');
     status \<leftarrow> as_str (map_of fs ''status'');
     attempts \<leftarrow> as_int (map_of fs ''attempts'');
     max_retries \<leftarrow> as_int (map_of fs ''max_retries'');
     policy \<leftarrow> unmarshal_policy (map_of fs ''retry_policy'');
     timeout \<leftarrow> as_int (map_of fs ''timeout'');
     scheduled \<leftarrow> as_time_ptr (map_of fs ''scheduled_at'');
     created \<leftarrow> as_time (map_of fs ''created_at'');
     started \<leftarrow> as_time_ptr (map_of fs ''started_at'');
     completed \<leftarrow> as_time_ptr (map_of fs ''completed_at'');
     last_error \<leftarrow> as_str (map_of fs ''last_error'');
     correlation \<leftarrow> as_str (map_of fs ''correlation_id'');
     unique_key \<leftarrow> as_str (map_of fs ''unique_key'');
     tags \<leftarrow> as_strs (map_of fs ''tags'');
     Some \<lparr>jp_ID = id1, jp_Type = type1, jp_Payload = payload, jp_Priority = priority,
           jp_Status = status, jp_Attempts = attempts, jp_MaxRetries = max_retries,
           jp_RetryPolicy = policy, jp_Timeout = timeout, jp_ScheduledAt = scheduled,
           jp_CreatedAt = created, jp_StartedAt = started, jp_CompletedAt = completed,
           jp_LastError = last_error, jp_CorrelationID = correlation,
           jp_UniqueKey = unique_key, jp_Tags = tags\<rparr> }"

text \<open>\<open>data\<close> is what \<^verbatim>\<open>json.Marshal\<close> makes of the caller's value, \<open>uuid\<close> the fresh identifier.\<close>

type_synonym JobOption = "JobPayload \<Rightarrow> JobPayload"

definition NewJobPayload ::
  "string \<Rightarrow> time \<Rightarrow> string \<Rightarrow> json option \<Rightarrow> JobOption list \<Rightarrow> job_error + JobPayload" where
  "NewJobPayload uuid now jobType data opts =
     (case data of
        None \<Rightarrow> Inl (Errorf ''json'')
      | Some d \<Rightarrow> Inr (foldl (\<lambda>jp opt. opt jp)
          \<lparr>jp_ID = uuid, jp_Type = jobType, jp_Payload = d, jp_Priority = PriorityNormal,
           jp_Status = JobStatusPending, jp_Attempts = 0, jp_MaxRetries = 3,
           jp_RetryPolicy = DefaultRetryPolicy, jp_Timeout = 5 * minute, jp_ScheduledAt = None,
           jp_CreatedAt = now, jp_StartedAt = None, jp_CompletedAt = None, jp_LastError = [],
           jp_CorrelationID = [], jp_UniqueKey = [], jp_Tags = []\<rparr> opts))"

definition WithPriority :: "Priority \<Rightarrow> JobOption" where
  "WithPriority p jp = jp\<lparr>jp_Priority := p\<rparr>"

definition WithRetryPolicy :: "RetryPolicy \<Rightarrow> JobOption" where
  "WithRetryPolicy policy jp = jp\<lparr>jp_RetryPolicy := policy, jp_MaxRetries := rp_MaxRetries policy\<rparr>"

definition WithTimeout :: "duration \<Rightarrow> JobOption" where
  "WithTimeout d jp = jp\<lparr>jp_Timeout := d\<rparr>"

definition WithScheduledAt :: "time \<Rightarrow> JobOption" where
  "WithScheduledAt t jp = jp\<lparr>jp_ScheduledAt := Some t\<rparr>"

definition WithDelay :: "time \<Rightarrow> duration \<Rightarrow> JobOption" where
  "WithDelay now d jp = jp\<lparr>jp_ScheduledAt := Some (now + d)\<rparr>"

definition WithCorrelationID :: "string \<Rightarrow> JobOption" where
  "WithCorrelationID i jp = jp\<lparr>jp_CorrelationID := i\<rparr>"

definition WithUniqueKey :: "string \<Rightarrow> JobOption" where
  "WithUniqueKey key jp = jp\<lparr>jp_UniqueKey := key\<rparr>"

definition WithTags :: "string list \<Rightarrow> JobOption" where
  "WithTags tags jp = jp\<lparr>jp_Tags := jp_Tags jp @ tags\<rparr>"

lemmas option_defs = WithPriority_def WithRetryPolicy_def WithTimeout_def WithScheduledAt_def
  WithDelay_def WithCorrelationID_def WithUniqueKey_def WithTags_def

subsection \<open>Round trip\<close>

lemma unmarshal_policy_doc: "unmarshal_policy (Some (policy_doc p)) = Some p"
  by (simp add: unmarshal_policy_def policy_doc_def)

lemma unmarshal_job_doc [simp]: "unmarshal_job (job_doc j) = Some j"
  by (simp add: unmarshal_job_def job_doc_def unmarshal_policy_doc del: map_of_append)

text \<open>
  A stored job reads back as it was written: whenever \<^verbatim>\<open>json.Marshal\<close> succeeds on a
  payload (all its timestamps are in range), \<^verbatim>\<open>json.Unmarshal\<close> of the document gives the
  same payload, the omitted empty fields included; and it fails exactly when a timestamp
  is outside the years 0 to 9999.
\<close>

theorem job_json_roundtrip:
  "(case marshal_job j of Some d \<Rightarrow> unmarshal_job d = Some j | None \<Rightarrow> \<not> times_ok j)
   \<and> (times_ok j \<longleftrightarrow> marshal_job j \<noteq> None)"
  by (simp add: marshal_job_def)

subsection \<open>Delays between attempts\<close>

lemma pow_loop_power: "pow_loop n b r = r * b ^ n"
  by (induction n arbitrary: r) (simp_all add: algebra_simps)

lemma pow_power: "pow b (real_of_int n) = b ^ nat n"
  by (simp add: pow_def pow_loop_power)

lemma CalculateDelay_le_max: "CalculateDelay oor p attempt \<le> rp_MaxDelay p"
  by (simp add: CalculateDelay_def Let_def)

lemma exponential_delay:
  assumes "rp_Strategy p = RetryStrategyExponential"
    and "in_int64 (trunc (real_of_int (rp_InitialDelay p) * rp_Multiplier p ^ nat (n - 1)))"
  shows "CalculateDelay oor p n =
    min (rp_MaxDelay p) (trunc (real_of_int (rp_InitialDelay p) * rp_Multiplier p ^ nat (n - 1)))"
  using assms by (simp add: CalculateDelay_def Let_def pow_power int64_of_float_def del: of_int_diff)

lemma linear_delay:
  assumes "rp_Strategy p = RetryStrategyLinear" "in_int64 (rp_InitialDelay p * n)"
  shows "CalculateDelay oor p n = min (rp_MaxDelay p) (rp_InitialDelay p * n)"
  using assms by (simp add: CalculateDelay_def Let_def wrap_int64_id strategy_defs)

lemma exponential_mono:
  assumes "1 \<le> m" "0 \<le> d" "n \<le> n'"
  shows "trunc (real_of_int d * m ^ nat (n - 1)) \<le> trunc (real_of_int d * m ^ nat (n' - 1))"
  using assms by (intro trunc_mono mult_left_mono power_increasing) auto

text \<open>
  Retry delays. Whatever the strategy, the delay never exceeds \<^verbatim>\<open>MaxDelay\<close>. As long as
  the product stays within 64 bits, the exponential strategy waits the initial delay times
  the multiplier to the power of the attempts already made, the linear one the initial delay
  times the attempt, both capped; and a later attempt never waits less than an earlier one.
\<close>

theorem retry_delay_exact:
  assumes "1 \<le> rp_Multiplier p" "0 \<le> rp_InitialDelay p" "1 \<le> n" "n \<le> n'"
    and "in_int64 (trunc (real_of_int (rp_InitialDelay p) * rp_Multiplier p ^ nat (n' - 1)))"
    and "in_int64 (rp_InitialDelay p * n')"
  shows "CalculateDelay oor p k \<le> rp_MaxDelay p
    \<and> (rp_Strategy p = RetryStrategyExponential \<longrightarrow> CalculateDelay oor p n =
         min (rp_MaxDelay p) (trunc (real_of_int (rp_InitialDelay p) * rp_Multiplier p ^ nat (n - 1))))
    \<and> (rp_Strategy p = RetryStrategyLinear \<longrightarrow>
         CalculateDelay oor p n = min (rp_MaxDelay p) (rp_InitialDelay p * n))
    \<and> CalculateDelay oor p n \<le> CalculateDelay oor p n'"
proof -
  let ?e = "\<lambda>n. trunc (real_of_int (rp_InitialDelay p) * rp_Multiplier p ^ nat (n - 1))"
  have e: "?e n \<le> ?e n'" using exponential_mono assms(1,2,4) by blast
  have "0 \<le> ?e n" using assms(1,2) by (intro trunc_nonneg) auto
  then have in1: "in_int64 (?e n)" using e assms(5) by (simp add: in_int64_def)
  have l: "rp_InitialDelay p * n \<le> rp_InitialDelay p * n'" "0 \<le> rp_InitialDelay p * n"
    using assms(2-4) by (auto intro: mult_left_mono)
  then have in2: "in_int64 (rp_InitialDelay p * n)" using assms(6) by (auto simp: in_int64_def)
  have "CalculateDelay oor p n \<le> CalculateDelay oor p n'"
  proof (cases "rp_Strategy p = RetryStrategyExponential")
    case True
    show ?thesis using e unfolding exponential_delay [OF True in1] exponential_delay [OF True assms(5)] by simp
  next
    case ne: False
    show ?thesis
    proof (cases "rp_Strategy p = RetryStrategyLinear")
      case True
      show ?thesis using l(1) unfolding linear_delay [OF True in2] linear_delay [OF True assms(6)] by simp
    next
      case False
      then show ?thesis using ne by (simp add: CalculateDelay_def)
    qed
  qed
  then show ?thesis
    using CalculateDelay_le_max exponential_delay in1 linear_delay in2 by blast
qed

theorem retry_delay_exact_witness:
  "CalculateDelay (\<lambda>_. 0) DefaultRetryPolicy 3 = 4 * second
   \<and> CalculateDelay (\<lambda>_. 0) DefaultRetryPolicy 3 \<le> CalculateDelay (\<lambda>_. 0) DefaultRetryPolicy 20"
  using retry_delay_exact [of DefaultRetryPolicy 3 20 "\<lambda>_. 0" 1]
  by (simp add: DefaultRetryPolicy_def in_int64_def strategy_defs trunc_def)

text \<open>
  From the 35th attempt on the default policy leaves the 64-bit range before the cap is
  applied. On a platform that converts such floats to the smallest \<^verbatim>\<open>int64\<close> (amd64), the
  delay is then hugely negative instead of the configured maximum: the retry is due at once.
\<close>

theorem retry_delay_overflow:
  assumes "35 \<le> n"
  shows "CalculateDelay (\<lambda>_. - (2 ^ 63)) DefaultRetryPolicy n = - (2 ^ 63)"
proof -
  let ?x = "real_of_int second * 2 ^ nat (n - 1)"
  have "nat (n - 1) \<ge> 34" using assms by simp
  then have p: "(2::real) ^ 34 \<le> 2 ^ nat (n - 1)" by (intro power_increasing) auto
  then have "real_of_int second * 2 ^ 34 \<le> ?x" by (intro mult_left_mono) auto
  then have "9223372036854775808 \<le> ?x" by simp
  then have "9223372036854775808 \<le> trunc ?x"
    by (simp add: trunc_def le_floor_iff)
  then have "\<not> in_int64 (trunc ?x)" by (simp add: in_int64_def)
  then have "int64_of_float (\<lambda>_. - (2 ^ 63)) (real_of_int (rp_InitialDelay DefaultRetryPolicy)
      * pow (rp_Multiplier DefaultRetryPolicy) (real_of_int (n - 1))) = - (2 ^ 63)"
    by (simp add: int64_of_float_def pow_power DefaultRetryPolicy_def del: of_int_diff)
  then show ?thesis by (simp add: CalculateDelay_def Let_def DefaultRetryPolicy_def del: of_int_diff)
qed

theorem retry_delay_overflow_witness:
  "CalculateDelay (\<lambda>_. - (2 ^ 63)) DefaultRetryPolicy 35 < 0"
  using retry_delay_overflow [of 35] by simp

end
