(* ===== verification/WebSocket_Hub.thy ===== *)
theory WebSocket_Hub
  imports Job_Model
begin

text \<open>
  \<^verbatim>\<open>internal/websocket\<close>: the hub that knows the connected clients, their users and their rooms and
  distributes messages to them (\<^verbatim>\<open>hub.go\<close>), the client at the end of a connection
  (\<^verbatim>\<open>client.go\<close>) and the HTTP handler that admits connections (\<^verbatim>\<open>handler.go\<close>).

  Clients are shared by pointer, so a client is an address into a store that is part of the
  hub's state. A Go set \<^verbatim>\<open>map[K]bool\<close> (always filled with \<^verbatim>\<open>true\<close>) is a set; where the code ranges
  over one, the order is an argument. The three things a send on a channel can do are an
  outcome: it is done, it blocks because the buffer is full, or it panics because the channel
  is closed. The unbuffered channels to the hub hand over a request, which is the call of the
  hub's handler for it. The network connection is not modelled.
\<close>

subsection \<open>Messages and clients\<close>

definition sendBufferSize :: nat where "sendBufferSize = 256"
definition broadcastBufferSize :: nat where "broadcastBufferSize = 256"

type_synonym MessageType = string

definition MessageTypeMessage :: MessageType where "MessageTypeMessage = ''message''"
definition MessageTypeNotification :: MessageType where "MessageTypeNotification = ''notification''"
definition MessageTypeEvent :: MessageType where "MessageTypeEvent = ''event''"
definition MessageTypePing :: MessageType where "MessageTypePing = ''ping''"
definition MessageTypePong :: MessageType where "MessageTypePong = ''pong''"
definition MessageTypeError :: MessageType where "MessageTypeError = ''error''"
definition MessageTypeSubscribe :: MessageType where "MessageTypeSubscribe = ''subscribe''"
definition MessageTypeUnsubscribe :: MessageType where "MessageTypeUnsubscribe = ''unsubscribe''"
definition MessageTypeAck :: MessageType where "MessageTypeAck = ''ack''"

lemmas message_type_defs = MessageTypeMessage_def MessageTypeNotification_def MessageTypeEvent_def MessageTypePing_def
  MessageTypePong_def MessageTypeError_def MessageTypeSubscribe_def MessageTypeUnsubscribe_def MessageTypeAck_def

record Message =
  ms_ID :: string
  ms_Type :: MessageType
  ms_Event :: string
  ms_Room :: string
  ms_UserID :: nat
  ms_Data :: json
  ms_Timestamp :: time
  ms_Metadata :: "string \<rightharpoonup> json"

definition blank_message :: "MessageType \<Rightarrow> time \<Rightarrow> Message" where
  "blank_message ty now = \<lparr>ms_ID = [], ms_Type = ty, ms_Event = [], ms_Room = [], ms_UserID = 0, ms_Data = JNull,
     ms_Timestamp = now, ms_Metadata = Map.empty\<rparr>"

definition NewMessage :: "string \<Rightarrow> time \<Rightarrow> MessageType \<Rightarrow> json \<Rightarrow> Message" where
  "NewMessage uuid now msgType data = (blank_message msgType now)\<lparr>ms_ID := uuid, ms_Data := data\<rparr>"

definition NewEventMessage :: "string \<Rightarrow> time \<Rightarrow> string \<Rightarrow> json \<Rightarrow> Message" where
  "NewEventMessage uuid now event data =
     (blank_message MessageTypeEvent now)\<lparr>ms_ID := uuid, ms_Event := event, ms_Data := data\<rparr>"

definition NewNotification :: "string \<Rightarrow> time \<Rightarrow> string \<Rightarrow> string \<Rightarrow> Message" where
  "NewNotification uuid now title body =
     (blank_message MessageTypeNotification now)\<lparr>ms_ID := uuid, ms_Data := JObj [(''title'', JStr title), (''body'', JStr body)]\<rparr>"

record Client =
  cl_ID :: string
  cl_UserID :: nat
  cl_Username :: string
  cl_Rooms :: "string set"
  cl_send :: "Message list"
  cl_closed :: bool
  cl_metadata :: "string \<rightharpoonup> json"

definition NewClient :: "string \<Rightarrow> nat \<Rightarrow> string \<Rightarrow> Client" where
  "NewClient uuid userID username = \<lparr>cl_ID = uuid, cl_UserID = userID, cl_Username = username, cl_Rooms = {},
     cl_send = [], cl_closed = False, cl_metadata = Map.empty\<rparr>"

definition SetMetadata :: "string \<Rightarrow> json \<Rightarrow> Client \<Rightarrow> Client" where
  "SetMetadata key val c = c\<lparr>cl_metadata := (cl_metadata c)(key \<mapsto> val)\<rparr>"

definition GetMetadata :: "string \<Rightarrow> Client \<Rightarrow> json option" where
  "GetMetadata key c = cl_metadata c key"

subsection \<open>The hub\<close>

record HubMetrics =
  hm_TotalConnections :: int
  hm_ActiveConnections :: int
  hm_TotalMessages :: int
  hm_TotalBroadcasts :: int
  hm_TotalRooms :: int

type_synonym addr = nat

record Hub =
  hb_clients :: "addr set"
  hb_userClients :: "nat \<rightharpoonup> addr set"
  hb_roomClients :: "string \<rightharpoonup> addr set"
  hb_broadcast :: "Message list"
  hb_metrics :: HubMetrics
  hb_store :: "addr \<Rightarrow> Client"

definition NewHub :: "(addr \<Rightarrow> Client) \<Rightarrow> Hub" where
  "NewHub store = \<lparr>hb_clients = {}, hb_userClients = Map.empty, hb_roomClients = Map.empty, hb_broadcast = [],
     hb_metrics = \<lparr>hm_TotalConnections = 0, hm_ActiveConnections = 0, hm_TotalMessages = 0,
                   hm_TotalBroadcasts = 0, hm_TotalRooms = 0\<rparr>, hb_store = store\<rparr>"

definition upd_client :: "addr \<Rightarrow> (Client \<Rightarrow> Client) \<Rightarrow> Hub \<Rightarrow> Hub" where
  "upd_client a f h = h\<lparr>hb_store := (hb_store h)(a := f (hb_store h a))\<rparr>"

text \<open>Adding to and removing from a map of sets that keeps no empty sets.\<close>

definition add_member :: "'k \<Rightarrow> addr \<Rightarrow> ('k \<rightharpoonup> addr set) \<Rightarrow> ('k \<rightharpoonup> addr set)" where
  "add_member k a m = m(k \<mapsto> insert a (case m k of None \<Rightarrow> {} | Some s \<Rightarrow> s))"

definition del_member :: "'k \<Rightarrow> addr \<Rightarrow> ('k \<rightharpoonup> addr set) \<Rightarrow> ('k \<rightharpoonup> addr set)" where
  "del_member k a m = (case m k of None \<Rightarrow> m | Some s \<Rightarrow> if s - {a} = {} then m(k := None) else m(k \<mapsto> s - {a}))"

definition registerClient :: "addr \<Rightarrow> Hub \<Rightarrow> Hub" where
  "registerClient a h =
     (let c = hb_store h a;
          h1 = h\<lparr>hb_clients := insert a (hb_clients h)\<rparr>;
          h2 = (if cl_UserID c > 0 then h1\<lparr>hb_userClients := add_member (cl_UserID c) a (hb_userClients h1)\<rparr> else h1);
          m = hb_metrics h2
      in h2\<lparr>hb_metrics := m\<lparr>hm_TotalConnections := hm_TotalConnections m + 1,
                             hm_ActiveConnections := hm_ActiveConnections m + 1\<rparr>\<rparr>)"

text \<open>Closing a closed channel panics.\<close>

definition unregisterClient :: "addr \<Rightarrow> Hub \<Rightarrow> Hub option" where
  "unregisterClient a h =
     (if a \<notin> hb_clients h then Some h
      else if cl_closed (hb_store h a) then None
      else let c = hb_store h a;
               h1 = upd_client a (\<lambda>c. c\<lparr>cl_closed := True\<rparr>) (h\<lparr>hb_clients := hb_clients h - {a}\<rparr>);
               h2 = (if cl_UserID c > 0 then h1\<lparr>hb_userClients := del_member (cl_UserID c) a (hb_userClients h1)\<rparr> else h1);
               h3 = h2\<lparr>hb_roomClients := (\<lambda>room. del_member room a (hb_roomClients h2) room)\<rparr>;
               m = hb_metrics h3
           in Some (h3\<lparr>hb_metrics := m\<lparr>hm_ActiveConnections := hm_ActiveConnections m - 1\<rparr>\<rparr>))"

definition count_rooms :: "Hub \<Rightarrow> Hub" where
  "count_rooms h = h\<lparr>hb_metrics := (hb_metrics h)\<lparr>hm_TotalRooms := int (card (dom (hb_roomClients h)))\<rparr>\<rparr>"

definition handleJoinRoom :: "addr \<Rightarrow> string \<Rightarrow> Hub \<Rightarrow> Hub" where
  "handleJoinRoom a room h =
     count_rooms (upd_client a (\<lambda>c. c\<lparr>cl_Rooms := insert room (cl_Rooms c)\<rparr>)
       (h\<lparr>hb_roomClients := add_member room a (hb_roomClients h)\<rparr>))"

definition handleLeaveRoom :: "addr \<Rightarrow> string \<Rightarrow> Hub \<Rightarrow> Hub" where
  "handleLeaveRoom a room h =
     count_rooms (upd_client a (\<lambda>c. c\<lparr>cl_Rooms := cl_Rooms c - {room}\<rparr>)
       (h\<lparr>hb_roomClients := del_member room a (hb_roomClients h)\<rparr>))"

definition members :: "('k \<rightharpoonup> addr set) \<Rightarrow> 'k \<Rightarrow> addr set" where
  "members m k = (case m k of None \<Rightarrow> {} | Some s \<Rightarrow> s)"

definition targets :: "Message \<Rightarrow> Hub \<Rightarrow> addr set" where
  "targets message h =
     (if ms_Room message \<noteq> [] then members (hb_roomClients h) (ms_Room message)
      else if ms_UserID message > 0 then members (hb_userClients h) (ms_UserID message)
      else hb_clients h)"

text \<open>The \<^verbatim>\<open>select\<close> with a default: a full buffer is skipped, a closed channel panics.\<close>

fun deliver_loop :: "Message \<Rightarrow> addr list \<Rightarrow> Hub \<Rightarrow> Hub option" where
  "deliver_loop message [] h = Some h"
| "deliver_loop message (a # as) h =
     (if cl_closed (hb_store h a) then None
      else if length (cl_send (hb_store h a)) < sendBufferSize
      then (let h1 = upd_client a (\<lambda>c. c\<lparr>cl_send := cl_send c @ [message]\<rparr>) h;
                m = hb_metrics h1
            in deliver_loop message as (h1\<lparr>hb_metrics := m\<lparr>hm_TotalMessages := hm_TotalMessages m + 1\<rparr>\<rparr>))
      else deliver_loop message as h)"

definition handleBroadcast :: "addr list \<Rightarrow> Message \<Rightarrow> Hub \<Rightarrow> Hub option" where
  "handleBroadcast order message h =
     (let m = hb_metrics h
      in deliver_loop message order (h\<lparr>hb_metrics := m\<lparr>hm_TotalBroadcasts := hm_TotalBroadcasts m + 1\<rparr>\<rparr>))"

datatype 'a outcome = Done 'a | Blocks | Panics

definition hub_Broadcast :: "Message \<Rightarrow> Hub \<Rightarrow> Hub outcome" where
  "hub_Broadcast message h =
     (if length (hb_broadcast h) < broadcastBufferSize then Done (h\<lparr>hb_broadcast := hb_broadcast h @ [message]\<rparr>) else Blocks)"

definition BroadcastToRoom :: "string \<Rightarrow> Message \<Rightarrow> Hub \<Rightarrow> Hub outcome" where
  "BroadcastToRoom room message h = hub_Broadcast (message\<lparr>ms_Room := room\<rparr>) h"

definition BroadcastToUser :: "nat \<Rightarrow> Message \<Rightarrow> Hub \<Rightarrow> Hub outcome" where
  "BroadcastToUser userID message h = hub_Broadcast (message\<lparr>ms_UserID := userID\<rparr>) h"

definition SendHeartbeat :: "time \<Rightarrow> Hub \<Rightarrow> Hub outcome" where
  "SendHeartbeat now h = hub_Broadcast (blank_message MessageTypePing now) h"

text \<open>One round of \<^verbatim>\<open>Run\<close>: the request that is taken from one of the five channels. \<open>order\<close> is the order
  in which a broadcast happens to visit its targets.\<close>

datatype hub_event = Register addr | Unregister addr | Join addr string | Leave addr string | TakeBroadcast "addr list"

fun Run_step :: "hub_event \<Rightarrow> Hub \<Rightarrow> Hub option" where
  "Run_step (Register a) h = Some (registerClient a h)"
| "Run_step (Unregister a) h = unregisterClient a h"
| "Run_step (Join a room) h = Some (handleJoinRoom a room h)"
| "Run_step (Leave a room) h = Some (handleLeaveRoom a room h)"
| "Run_step (TakeBroadcast order) h =
     (case hb_broadcast h of
        [] \<Rightarrow> Some h
      | message # rest \<Rightarrow> handleBroadcast order message (h\<lparr>hb_broadcast := rest\<rparr>))"

definition JoinRoom :: "addr \<Rightarrow> string \<Rightarrow> Hub \<Rightarrow> Hub option" where
  "JoinRoom a room h = Run_step (Join a room) h"

definition LeaveRoom :: "addr \<Rightarrow> string \<Rightarrow> Hub \<Rightarrow> Hub option" where
  "LeaveRoom a room h = Run_step (Leave a room) h"

definition GetClientCount :: "Hub \<Rightarrow> nat" where
  "GetClientCount h = card (hb_clients h)"

definition GetRoomCount :: "Hub \<Rightarrow> nat" where
  "GetRoomCount h = card (dom (hb_roomClients h))"

definition GetRoomClientCount :: "string \<Rightarrow> Hub \<Rightarrow> nat" where
  "GetRoomClientCount room h = (case hb_roomClients h room of None \<Rightarrow> 0 | Some s \<Rightarrow> card s)"

definition GetMetrics :: "Hub \<Rightarrow> HubMetrics" where
  "GetMetrics h = hb_metrics h"

definition IsUserOnline :: "nat \<Rightarrow> Hub \<Rightarrow> bool" where
  "IsUserOnline userID h = (case hb_userClients h userID of None \<Rightarrow> False | Some s \<Rightarrow> card s > 0)"

definition GetOnlineUsers :: "Hub \<Rightarrow> nat set" where
  "GetOnlineUsers h = dom (hb_userClients h)"

subsection \<open>The client's side\<close>

text \<open>A blocking send on the client's own channel, and the send that skips a full buffer.\<close>

definition chan_send :: "addr \<Rightarrow> Message \<Rightarrow> Hub \<Rightarrow> Hub outcome" where
  "chan_send a message h =
     (if cl_closed (hb_store h a) then Panics
      else if length (cl_send (hb_store h a)) < sendBufferSize
      then Done (upd_client a (\<lambda>c. c\<lparr>cl_send := cl_send c @ [message]\<rparr>) h) else Blocks)"

definition Send :: "addr \<Rightarrow> Message \<Rightarrow> Hub \<Rightarrow> Hub option" where
  "Send a message h = (case chan_send a message h of Done h1 \<Rightarrow> Some h1 | Blocks \<Rightarrow> Some h | Panics \<Rightarrow> None)"

definition Close :: "addr \<Rightarrow> Hub \<Rightarrow> Hub option" where
  "Close a h = Run_step (Unregister a) h"

definition ack_message :: "string \<Rightarrow> string \<Rightarrow> time \<Rightarrow> Message" where
  "ack_message action room now =
     (blank_message MessageTypeAck now)\<lparr>ms_Data := JObj [(''action'', JStr action), (''room'', JStr room)]\<rparr>"

definition handleMessage :: "time \<Rightarrow> addr \<Rightarrow> Message \<Rightarrow> Hub \<Rightarrow> Hub outcome" where
  "handleMessage now a message h =
     (if ms_Type message = MessageTypePing then chan_send a (blank_message MessageTypePong now) h
      else if ms_Type message = MessageTypeSubscribe
      then (case ms_Data message of
              JStr room \<Rightarrow> (case JoinRoom a room h of
                              None \<Rightarrow> Panics
                            | Some h1 \<Rightarrow> chan_send a (ack_message ''subscribed'' room now) h1)
            | _ \<Rightarrow> Done h)
      else if ms_Type message = MessageTypeUnsubscribe
      then (case ms_Data message of
              JStr room \<Rightarrow> (case LeaveRoom a room h of
                              None \<Rightarrow> Panics
                            | Some h1 \<Rightarrow> chan_send a (ack_message ''unsubscribed'' room now) h1)
            | _ \<Rightarrow> Done h)
      else if ms_Type message = MessageTypeMessage
      then hub_Broadcast (message\<lparr>ms_UserID := cl_UserID (hb_store h a), ms_Timestamp := now\<rparr>) h
      else Done h)"

text \<open>One round of \<^verbatim>\<open>ReadPump\<close>: \<open>None\<close> is a failed read, which ends the loop with the deferred
  unregistration; \<open>decode\<close> is \<^verbatim>\<open>json.Unmarshal\<close>. The flag says whether the loop goes on.\<close>

definition ReadPump_step :: "(string \<Rightarrow> Message option) \<Rightarrow> time \<Rightarrow> addr \<Rightarrow> string option \<Rightarrow> Hub \<Rightarrow> (bool \<times> Hub) outcome" where
  "ReadPump_step decode now a incoming h =
     (case incoming of
        None \<Rightarrow> (case Run_step (Unregister a) h of None \<Rightarrow> Panics | Some h1 \<Rightarrow> Done (False, h1))
      | Some data \<Rightarrow>
          (case decode data of
             None \<Rightarrow> Done (True, h)
           | Some message \<Rightarrow>
               (case handleMessage now a message h of
                  Done h1 \<Rightarrow> Done (True, h1) | Blocks \<Rightarrow> Blocks | Panics \<Rightarrow> Panics)))"

text \<open>What \<^verbatim>\<open>WritePump\<close> can do next: write the oldest message, write a close frame and end when the
  channel is closed and drained, or ping when the ticker fires.\<close>

datatype write_action = WriteMessage Message | WriteClose | WritePing

definition WritePump_ready :: "bool \<Rightarrow> Client \<Rightarrow> (write_action \<times> Client) set" where
  "WritePump_ready ticked c =
     (case cl_send c of
        m # ms \<Rightarrow> {(WriteMessage m, c\<lparr>cl_send := ms\<rparr>)}
      | [] \<Rightarrow> if cl_closed c then {(WriteClose, c)} else {}) \<union> (if ticked then {(WritePing, c)} else {})"

subsection \<open>Admission of connections\<close>

record WebSocketConfig =
  wc_Enabled :: bool
  wc_Path :: string
  wc_AllowedOrigins :: "string list"
  wc_ReadBufferSize :: int
  wc_WriteBufferSize :: int
  wc_HandshakeTimeout :: duration
  wc_EnableCompression :: bool
  wc_HeartbeatInterval :: duration

definition DefaultWebSocketConfig :: WebSocketConfig where
  "DefaultWebSocketConfig = \<lparr>wc_Enabled = False, wc_Path = ''/ws'', wc_AllowedOrigins = [''*''],
     wc_ReadBufferSize = 1024, wc_WriteBufferSize = 1024, wc_HandshakeTimeout = 10 * second,
     wc_EnableCompression = True, wc_HeartbeatInterval = 30 * second\<rparr>"

definition checkOrigin :: "WebSocketConfig \<Rightarrow> string \<Rightarrow> bool" where
  "checkOrigin config origin \<longleftrightarrow> origin = [] \<or> list_ex (\<lambda>allowed. allowed = ''*'' \<or> allowed = origin) (wc_AllowedOrigins config)"

text \<open>The token of a request: the query parameter, or what follows the scheme \<^verbatim>\<open>bearer\<close> in the header.\<close>

definition request_token :: "string \<Rightarrow> string \<Rightarrow> string" where
  "request_token query authHeader =
     (if query \<noteq> [] then query
      else case split_two authHeader of
             [scheme, rest] \<Rightarrow> if map to_lower scheme = ''bearer'' then rest else []
           | _ \<Rightarrow> [])"

text \<open>\<open>validate\<close> is \<^verbatim>\<open>ValidateAccessToken\<close> of the token provider, if there is one; \<open>upgraded\<close> says whether
  the connection could be upgraded, \<open>a\<close> is the address of the new client.\<close>

definition handleWebSocket ::
  "(string \<Rightarrow> (nat \<times> string) option) option \<Rightarrow> bool \<Rightarrow> string \<Rightarrow> time \<Rightarrow> string \<Rightarrow> string \<Rightarrow> addr \<Rightarrow> Hub \<Rightarrow> Hub option" where
  "handleWebSocket validate upgraded uuid now query authHeader a h =
     (let token = request_token query authHeader;
          identity = (case validate of
            None \<Rightarrow> (0, [])
          | Some v \<Rightarrow> if token \<noteq> [] then (case v token of None \<Rightarrow> (0, []) | Some claims \<Rightarrow> claims) else (0, []))
      in if \<not> upgraded then Some h
         else let c = NewClient uuid (fst identity) (snd identity);
                  h1 = registerClient a (h\<lparr>hb_store := (hb_store h)(a := c)\<rparr>)
              in Send a ((blank_message MessageTypeEvent now)\<lparr>ms_Event := ''connected'',
                   ms_Data := JObj [(''clientId'', JStr uuid), (''userId'', JNum (of_nat (fst identity))),
                                    (''username'', JStr (snd identity))]\<rparr>) h1)"

record StatusResponse =
  sr_enabled :: bool
  sr_activeConnections :: int
  sr_totalConnections :: int
  sr_totalMessages :: int
  sr_totalBroadcasts :: int
  sr_activeRooms :: int
  sr_onlineUsers :: int

definition handleStatus :: "WebSocketConfig \<Rightarrow> Hub \<Rightarrow> StatusResponse" where
  "handleStatus config h =
     (let metrics = GetMetrics h
      in \<lparr>sr_enabled = wc_Enabled config, sr_activeConnections = hm_ActiveConnections metrics,
          sr_totalConnections = hm_TotalConnections metrics, sr_totalMessages = hm_TotalMessages metrics,
          sr_totalBroadcasts = hm_TotalBroadcasts metrics, sr_activeRooms = hm_TotalRooms metrics,
          sr_onlineUsers = int (card (GetOnlineUsers h))\<rparr>)"

subsection \<open>Maps of sets\<close>

lemma members_add: "members (add_member k a m) k' = (if k' = k then insert a (members m k) else members m k')"
  by (simp add: members_def add_member_def)

lemma members_del: "members (del_member k a m) k' = (if k' = k then members m k - {a} else members m k')"
  by (auto simp: members_def del_member_def split: option.splits)

lemma members_del_all: "members (\<lambda>k. del_member k a m k) k' = members m k' - {a}"
  using members_del [of k' a m k'] by (simp add: members_def)

definition no_empty :: "('k \<rightharpoonup> addr set) \<Rightarrow> bool" where
  "no_empty m \<longleftrightarrow> (\<forall>k. m k \<noteq> Some {})"

lemma no_empty_add: "no_empty m \<Longrightarrow> no_empty (add_member k a m)"
  by (simp add: no_empty_def add_member_def)

lemma no_empty_del: "no_empty m \<Longrightarrow> no_empty (del_member k a m)"
  by (auto simp: no_empty_def del_member_def split: option.splits)

lemma no_empty_del_all: "no_empty m \<Longrightarrow> no_empty (\<lambda>k. del_member k a m k)"
  by (auto simp: no_empty_def del_member_def split: option.splits if_splits)

lemma no_empty_dom: "no_empty m \<Longrightarrow> k \<in> dom m \<longleftrightarrow> members m k \<noteq> {}"
  by (auto simp: no_empty_def members_def split: option.splits)

subsection \<open>The hub's invariant\<close>

text \<open>
  The registered clients are finitely many, with open channels; the user table lists for every
  user exactly the registered clients of that user, the room table for every room exactly the
  registered clients that are in it; neither table has empty entries; the gauge counts them.
\<close>

definition hub_ok :: "Hub \<Rightarrow> bool" where
  "hub_ok h \<longleftrightarrow> finite (hb_clients h) \<and> (\<forall>a\<in>hb_clients h. \<not> cl_closed (hb_store h a))
     \<and> (\<forall>u. members (hb_userClients h) u = {a \<in> hb_clients h. u > 0 \<and> cl_UserID (hb_store h a) = u})
     \<and> (\<forall>r. members (hb_roomClients h) r = {a \<in> hb_clients h. r \<in> cl_Rooms (hb_store h a)})
     \<and> no_empty (hb_userClients h) \<and> no_empty (hb_roomClients h)
     \<and> hm_ActiveConnections (hb_metrics h) = int (card (hb_clients h))"

lemma hub_okD:
  assumes "hub_ok h"
  shows "finite (hb_clients h)" "a \<in> hb_clients h \<Longrightarrow> \<not> cl_closed (hb_store h a)"
    "members (hb_userClients h) u = {a \<in> hb_clients h. u > 0 \<and> cl_UserID (hb_store h a) = u}"
    "members (hb_roomClients h) r = {a \<in> hb_clients h. r \<in> cl_Rooms (hb_store h a)}"
    "no_empty (hb_userClients h)" "no_empty (hb_roomClients h)"
    "hm_ActiveConnections (hb_metrics h) = int (card (hb_clients h))"
  using assms by (auto simp: hub_ok_def)

lemma hub_ok_new: "hub_ok (NewHub st)"
  by (simp add: hub_ok_def NewHub_def members_def no_empty_def)

lemma hub_ok_register:
  assumes "hub_ok h" "a \<notin> hb_clients h" "\<not> cl_closed (hb_store h a)" "cl_Rooms (hb_store h a) = {}"
  shows "hub_ok (registerClient a h)"
  using hub_okD [OF assms(1)] assms(2-4)
  by (auto simp: hub_ok_def registerClient_def Let_def members_add no_empty_add)

definition removed :: "addr \<Rightarrow> Hub \<Rightarrow> Hub" where
  "removed a h = h\<lparr>hb_clients := hb_clients h - {a},
     hb_userClients := (if cl_UserID (hb_store h a) > 0 then del_member (cl_UserID (hb_store h a)) a (hb_userClients h)
                        else hb_userClients h),
     hb_roomClients := (\<lambda>room. del_member room a (hb_roomClients h) room),
     hb_metrics := (hb_metrics h)\<lparr>hm_ActiveConnections := hm_ActiveConnections (hb_metrics h) - 1\<rparr>,
     hb_store := (hb_store h)(a := (hb_store h a)\<lparr>cl_closed := True\<rparr>)\<rparr>"

lemma unregister_removes:
  "a \<in> hb_clients h \<Longrightarrow> \<not> cl_closed (hb_store h a) \<Longrightarrow> unregisterClient a h = Some (removed a h)"
  by (simp add: unregisterClient_def Let_def upd_client_def removed_def)

lemma hub_ok_removed:
  assumes "hub_ok h" "a \<in> hb_clients h"
  shows "hub_ok (removed a h)"
  unfolding hub_ok_def
proof (intro conjI allI)
  note d = hub_okD [OF assms(1)]
  show "finite (hb_clients (removed a h))" using d(1) by (simp add: removed_def)
  show "\<forall>b\<in>hb_clients (removed a h). \<not> cl_closed (hb_store (removed a h) b)" using d(2) by (simp add: removed_def)
  show "members (hb_userClients (removed a h)) u
      = {b \<in> hb_clients (removed a h). u > 0 \<and> cl_UserID (hb_store (removed a h) b) = u}" for u
    using d(3) [of u] by (auto simp: removed_def members_del)
  show "members (hb_roomClients (removed a h)) r = {b \<in> hb_clients (removed a h). r \<in> cl_Rooms (hb_store (removed a h) b)}" for r
    using d(4) [of r] by (auto simp: removed_def members_del_all)
  show "no_empty (hb_userClients (removed a h))" "no_empty (hb_roomClients (removed a h))"
    using d(5,6) by (simp_all add: removed_def no_empty_del no_empty_del_all)
  have "card (hb_clients h) = Suc (card (hb_clients h - {a}))" using d(1) assms(2) by (rule card.remove)
  then show "hm_ActiveConnections (hb_metrics (removed a h)) = int (card (hb_clients (removed a h)))"
    using d(7) by (simp add: removed_def)
qed

lemma hub_ok_unregister: "hub_ok h \<Longrightarrow> \<exists>h'. unregisterClient a h = Some h' \<and> hub_ok h'"
  using unregister_removes [of a h] hub_ok_removed [of h a] hub_okD(2) [of h a]
  by (cases "a \<in> hb_clients h") (simp_all add: unregisterClient_def)

lemma hub_ok_join: "hub_ok h \<Longrightarrow> a \<in> hb_clients h \<Longrightarrow> hub_ok (handleJoinRoom a room h)"
  by (auto simp: hub_ok_def handleJoinRoom_def count_rooms_def upd_client_def members_add no_empty_add)

lemma hub_ok_leave: "hub_ok h \<Longrightarrow> hub_ok (handleLeaveRoom a room h)"
  by (auto simp: hub_ok_def handleLeaveRoom_def count_rooms_def upd_client_def members_del no_empty_del)

text \<open>Only the send buffers matter to nothing in the invariant.\<close>

lemma hub_ok_send: "hub_ok (upd_client a (\<lambda>c. c\<lparr>cl_send := f c\<rparr>) h) = hub_ok h"
  by (auto simp: hub_ok_def upd_client_def)

lemma hub_ok_counters [simp]:
  "hub_ok (h\<lparr>hb_broadcast := ms\<rparr>) = hub_ok h"
  "hm_ActiveConnections m = hm_ActiveConnections (hb_metrics h) \<Longrightarrow> hub_ok (h\<lparr>hb_metrics := m\<rparr>) = hub_ok h"
  by (simp_all add: hub_ok_def)

subsection \<open>Delivery\<close>

definition receives :: "Message \<Rightarrow> Client \<Rightarrow> Client" where
  "receives message c = (if length (cl_send c) < sendBufferSize then c\<lparr>cl_send := cl_send c @ [message]\<rparr> else c)"

definition has_room :: "Hub \<Rightarrow> addr \<Rightarrow> bool" where
  "has_room h a \<longleftrightarrow> length (cl_send (hb_store h a)) < sendBufferSize"

definition delivered :: "Message \<Rightarrow> addr list \<Rightarrow> Hub \<Rightarrow> Hub" where
  "delivered message as h =
     h\<lparr>hb_store := (\<lambda>a. if a \<in> set as then receives message (hb_store h a) else hb_store h a),
       hb_metrics := (hb_metrics h)\<lparr>hm_TotalMessages := hm_TotalMessages (hb_metrics h) + int (length (filter (has_room h) as))\<rparr>\<rparr>"

lemma delivered_simps [simp]:
  "hb_clients (delivered message as h) = hb_clients h" "hb_userClients (delivered message as h) = hb_userClients h"
  "hb_roomClients (delivered message as h) = hb_roomClients h" "hb_broadcast (delivered message as h) = hb_broadcast h"
  "hb_store (delivered message as h) a = (if a \<in> set as then receives message (hb_store h a) else hb_store h a)"
  "hm_ActiveConnections (hb_metrics (delivered message as h)) = hm_ActiveConnections (hb_metrics h)"
  "hm_TotalBroadcasts (hb_metrics (delivered message as h)) = hm_TotalBroadcasts (hb_metrics h)"
  "hm_TotalMessages (hb_metrics (delivered message as h)) = hm_TotalMessages (hb_metrics h) + int (length (filter (has_room h) as))"
  by (simp_all add: delivered_def)

lemma delivered_Cons:
  assumes "a \<notin> set as" "has_room h a" "h1 = upd_client a (\<lambda>c. c\<lparr>cl_send := cl_send c @ [message]\<rparr>) h"
    and "h2 = h1\<lparr>hb_metrics := (hb_metrics h1)\<lparr>hm_TotalMessages := hm_TotalMessages (hb_metrics h1) + 1\<rparr>\<rparr>"
  shows "delivered message as h2 = delivered message (a # as) h"
proof -
  have f: "filter (has_room h2) as = filter (has_room h) as"
    using assms(1) by (intro filter_cong) (auto simp: assms(3,4) has_room_def upd_client_def)
  have st: "(\<lambda>b. if b \<in> set as then receives message (hb_store h2 b) else hb_store h2 b)
      = (\<lambda>b. if b \<in> set (a # as) then receives message (hb_store h b) else hb_store h b)"
    using assms(1,2) by (auto simp: fun_eq_iff assms(3,4) upd_client_def receives_def has_room_def)
  show ?thesis unfolding delivered_def f st using assms(2) by (simp add: assms(3,4) upd_client_def)
qed

lemma deliver_loop_effect:
  assumes "distinct as" "\<forall>a\<in>set as. \<not> cl_closed (hb_store h a)"
  shows "deliver_loop message as h = Some (delivered message as h)"
  using assms
proof (induction as arbitrary: h)
  case (Cons a as)
  let ?h = "upd_client a (\<lambda>c. c\<lparr>cl_send := cl_send c @ [message]\<rparr>) h"
  let ?h1 = "?h\<lparr>hb_metrics := (hb_metrics ?h)\<lparr>hm_TotalMessages := hm_TotalMessages (hb_metrics ?h) + 1\<rparr>\<rparr>"
  show ?case
  proof (cases "has_room h a")
    case True
    have "\<forall>b\<in>set as. \<not> cl_closed (hb_store ?h1 b)" using Cons(2,3) by (simp add: upd_client_def)
    then have "deliver_loop message as ?h1 = Some (delivered message as ?h1)" using Cons(1,2) by simp
    moreover have "deliver_loop message (a # as) h = deliver_loop message as ?h1"
      using Cons(3) True by (simp add: has_room_def Let_def)
    ultimately show ?thesis using delivered_Cons [OF _ True refl refl, of as message] Cons(2) by simp
  next
    case False
    then have "deliver_loop message (a # as) h = deliver_loop message as h" "receives message (hb_store h a) = hb_store h a"
      using Cons(3) by (simp_all add: has_room_def receives_def)
    then show ?thesis using Cons(1) [of h] Cons(2,3) False by (simp add: delivered_def fun_eq_iff)
  qed
qed (simp add: delivered_def)

text \<open>Whom a message is for.\<close>

definition addressed :: "Message \<Rightarrow> Client \<Rightarrow> bool" where
  "addressed message c =
     (if ms_Room message \<noteq> [] then ms_Room message \<in> cl_Rooms c
      else ms_UserID message > 0 \<longrightarrow> cl_UserID c = ms_UserID message)"

lemma targets_addressed: "hub_ok h \<Longrightarrow> targets message h = {a \<in> hb_clients h. addressed message (hb_store h a)}"
  by (auto simp: targets_def addressed_def hub_okD(3,4))

definition counted :: "Hub \<Rightarrow> Hub" where
  "counted h = h\<lparr>hb_metrics := (hb_metrics h)\<lparr>hm_TotalBroadcasts := hm_TotalBroadcasts (hb_metrics h) + 1\<rparr>\<rparr>"

lemma counted_simps [simp]:
  "hb_clients (counted h) = hb_clients h" "hb_userClients (counted h) = hb_userClients h"
  "hb_roomClients (counted h) = hb_roomClients h" "hb_broadcast (counted h) = hb_broadcast h" "hb_store (counted h) = hb_store h"
  "hm_ActiveConnections (hb_metrics (counted h)) = hm_ActiveConnections (hb_metrics h)"
  "hm_TotalBroadcasts (hb_metrics (counted h)) = hm_TotalBroadcasts (hb_metrics h) + 1"
  "hm_TotalMessages (hb_metrics (counted h)) = hm_TotalMessages (hb_metrics h)"
  by (simp_all add: counted_def)

lemma handleBroadcast_delivers:
  assumes "hub_ok h" "distinct order" "set order = targets message h"
  shows "handleBroadcast order message h = Some (delivered message order (counted h))"
proof -
  have "\<forall>a\<in>set order. \<not> cl_closed (hb_store (counted h) a)"
    using targets_addressed [OF assms(1)] assms(3) hub_okD(2) [OF assms(1)] by auto
  from deliver_loop_effect [OF assms(2) this] show ?thesis by (simp add: handleBroadcast_def Let_def counted_def)
qed

text \<open>
  Delivery. On a hub in order, \<^verbatim>\<open>handleBroadcast\<close> does not panic and puts the message, once, at
  the end of the send buffer of exactly those registered clients it is for and whose buffer
  is not full: the members of the room if it names a room, else the clients of the user if it
  names a user, else all. Nobody else's state changes, and the counters advance by one
  broadcast and by the number of messages put.
\<close>

theorem hub_delivers_exactly:
  assumes "hub_ok h" "distinct order" "set order = targets message h"
  shows "\<exists>h'. handleBroadcast order message h = Some h'
    \<and> (\<forall>a. hb_store h' a =
         (if a \<in> hb_clients h \<and> addressed message (hb_store h a) \<and> length (cl_send (hb_store h a)) < sendBufferSize
          then (hb_store h a)\<lparr>cl_send := cl_send (hb_store h a) @ [message]\<rparr> else hb_store h a))
    \<and> hm_TotalBroadcasts (hb_metrics h') = hm_TotalBroadcasts (hb_metrics h) + 1
    \<and> hm_TotalMessages (hb_metrics h') = hm_TotalMessages (hb_metrics h)
        + int (card {a \<in> hb_clients h. addressed message (hb_store h a) \<and> length (cl_send (hb_store h a)) < sendBufferSize})
    \<and> hb_clients h' = hb_clients h \<and> hb_userClients h' = hb_userClients h \<and> hb_roomClients h' = hb_roomClients h"
proof -
  let ?h = "counted h"
  have t: "set order = {a \<in> hb_clients h. addressed message (hb_store h a)}"
    using targets_addressed [OF assms(1)] assms(3) by simp
  note h' = handleBroadcast_delivers [OF assms]
  have "length (filter (has_room ?h) order) = card (set (filter (has_room ?h) order))"
    using assms(2) by (intro distinct_card [symmetric]) simp
  also have "set (filter (has_room ?h) order)
      = {a \<in> hb_clients h. addressed message (hb_store h a) \<and> length (cl_send (hb_store h a)) < sendBufferSize}"
    using t by (auto simp: has_room_def)
  finally have n: "length (filter (has_room ?h) order)
      = card {a \<in> hb_clients h. addressed message (hb_store h a) \<and> length (cl_send (hb_store h a)) < sendBufferSize}" .
  show ?thesis unfolding h' by (intro exI conjI allI, rule refl) (simp_all add: n t receives_def)
qed

text \<open>
  What may happen to the hub: new clients are registered, clients unregister, registered clients
  join rooms, clients leave rooms, someone posts a message, the hub takes the next one, and
  the connections fill and drain the send buffers.
\<close>

inductive hub_step :: "Hub \<Rightarrow> Hub \<Rightarrow> bool" where
  do_register: "a \<notin> hb_clients h \<Longrightarrow> \<not> cl_closed (hb_store h a) \<Longrightarrow> cl_Rooms (hb_store h a) = {} \<Longrightarrow>
     Run_step (Register a) h = Some h' \<Longrightarrow> hub_step h h'"
| do_unregister: "Run_step (Unregister a) h = Some h' \<Longrightarrow> hub_step h h'"
| do_join: "a \<in> hb_clients h \<Longrightarrow> Run_step (Join a room) h = Some h' \<Longrightarrow> hub_step h h'"
| do_leave: "Run_step (Leave a room) h = Some h' \<Longrightarrow> hub_step h h'"
| do_post: "hub_Broadcast message h = Done h' \<Longrightarrow> hub_step h h'"
| do_take: "hb_broadcast h = message # rest \<Longrightarrow> distinct order \<Longrightarrow> set order = targets message h \<Longrightarrow>
     Run_step (TakeBroadcast order) h = Some h' \<Longrightarrow> hub_step h h'"
| do_buffer: "hub_step h (upd_client a (\<lambda>c. c\<lparr>cl_send := ms\<rparr>) h)"

lemma take_broadcast_ok:
  assumes "hub_ok h" "hb_broadcast h = message # rest" "distinct order" "set order = targets message h"
  shows "\<exists>h'. Run_step (TakeBroadcast order) h = Some h' \<and> hub_ok h'"
proof -
  let ?h = "h\<lparr>hb_broadcast := rest\<rparr>" and ?g = "delivered message order (counted (h\<lparr>hb_broadcast := rest\<rparr>))"
  have h': "Run_step (TakeBroadcast order) h = Some ?g"
    using handleBroadcast_delivers [of ?h order message] assms by (simp add: targets_def)
  have "cl_closed (hb_store ?g a) = cl_closed (hb_store h a)" "cl_Rooms (hb_store ?g a) = cl_Rooms (hb_store h a)"
    "cl_UserID (hb_store ?g a) = cl_UserID (hb_store h a)" for a
    by (simp_all add: receives_def)
  then have "hub_ok ?g" using assms(1) unfolding hub_ok_def by simp
  then show ?thesis using h' by blast
qed

lemma hub_step_ok:
  assumes "hub_step h h'" "hub_ok h"
  shows "hub_ok h'"
  using assms
proof cases
  case (do_unregister a)
  then show ?thesis using hub_ok_unregister [OF assms(2), of a] by auto
next
  case (do_take message rest order)
  then show ?thesis using take_broadcast_ok [OF assms(2)] by (metis option.inject)
qed (auto simp: hub_ok_register hub_ok_join hub_ok_leave hub_ok_send hub_Broadcast_def split: if_splits)


definition anna :: Client where "anna = NewClient ''c1'' 7 ''anna''"
definition ben :: Client where "ben = NewClient ''c2'' 8 ''ben''"

definition demo_store :: "addr \<Rightarrow> Client" where
  "demo_store = (\<lambda>a. if a = 1 then anna else ben)"

definition demo_hub :: Hub where
  "demo_hub = registerClient 2 (registerClient 1 (NewHub demo_store))"

lemma demo_hub_simps [simp]:
  "hb_clients demo_hub = {1, 2}" "hb_store demo_hub = demo_store" "hb_broadcast demo_hub = []"
  "hb_userClients demo_hub = [7 \<mapsto> {1}, 8 \<mapsto> {2}]"
  by (auto simp: demo_hub_def registerClient_def NewHub_def Let_def demo_store_def anna_def ben_def NewClient_def add_member_def)

lemma demo_hub_reached: "hub_step\<^sup>*\<^sup>* (NewHub demo_store) demo_hub"
proof -
  have "hub_step (NewHub demo_store) (registerClient 1 (NewHub demo_store))"
    by (rule do_register [of 1]) (simp_all add: NewHub_def demo_store_def anna_def NewClient_def)
  moreover have "hub_step (registerClient 1 (NewHub demo_store)) demo_hub"
    by (rule do_register [of 2])
      (simp_all add: demo_hub_def registerClient_def Let_def NewHub_def demo_store_def anna_def ben_def NewClient_def)
  ultimately show ?thesis by (meson converse_rtranclp_into_rtranclp rtranclp.rtrancl_refl)
qed

lemma demo_hub_ok: "hub_ok demo_hub"
  unfolding demo_hub_def
  by (intro hub_ok_register hub_ok_new)
    (simp_all add: registerClient_def Let_def NewHub_def demo_store_def anna_def ben_def NewClient_def)


theorem hub_delivers_exactly_witness:
  "\<exists>h'. handleBroadcast [2, 1] (blank_message MessageTypePing 5) demo_hub = Some h'
     \<and> cl_send (hb_store h' 1) = [blank_message MessageTypePing 5] \<and> cl_send (hb_store h' 2) = [blank_message MessageTypePing 5]"
proof -
  have "set [2, 1] = targets (blank_message MessageTypePing 5) demo_hub"
    by (auto simp: targets_def blank_message_def)
  from hub_delivers_exactly [OF demo_hub_ok _ this] obtain h' where
    "handleBroadcast [2, 1] (blank_message MessageTypePing 5) demo_hub = Some h'"
    "\<forall>a. hb_store h' a = (if a \<in> hb_clients demo_hub \<and> addressed (blank_message MessageTypePing 5) (hb_store demo_hub a)
           \<and> length (cl_send (hb_store demo_hub a)) < sendBufferSize
          then (hb_store demo_hub a)\<lparr>cl_send := cl_send (hb_store demo_hub a) @ [blank_message MessageTypePing 5]\<rparr>
          else hb_store demo_hub a)"
    by auto
  then show ?thesis
    by (auto simp: addressed_def blank_message_def demo_store_def anna_def ben_def NewClient_def sendBufferSize_def)
qed

subsection \<open>Where the hub does not do what it says\<close>

text \<open>
  A message without a room stays with its sender. The client's handler is meant to
  broadcast a message to its room, "otherwise to all"; but it stamps the sender's user into
  the message, and the hub reads a message with a user as one for that user. So when a client of
  a signed-in user posts a message without a room, the hub delivers it to the sender's own
  clients only.
\<close>

theorem roomless_message_stays_with_sender:
  assumes "hub_ok h" "hb_broadcast h = []" "ms_Type m = MessageTypeMessage" "ms_Room m = []" "cl_UserID (hb_store h a) > 0"
    and "handleMessage now a m h = Done h1" "hb_broadcast h1 = [m']" "distinct order" "set order = targets m' h1"
    and "Run_step (TakeBroadcast order) h1 = Some h2" "b \<in> hb_clients h" "cl_UserID (hb_store h b) \<noteq> cl_UserID (hb_store h a)"
  shows "hb_store h2 b = hb_store h b"
proof -
  let ?m = "m\<lparr>ms_UserID := cl_UserID (hb_store h a), ms_Timestamp := now\<rparr>"
  have h1: "h1 = h\<lparr>hb_broadcast := [?m]\<rparr>" "m' = ?m"
    using assms(2,3,6,7) by (auto simp: handleMessage_def message_type_defs hub_Broadcast_def broadcastBufferSize_def split: if_splits)
  have ok: "hub_ok (h1\<lparr>hb_broadcast := []\<rparr>)" using assms(1) by (simp add: h1(1))
  have t: "set order = targets m' (h1\<lparr>hb_broadcast := []\<rparr>)" using assms(9) by (simp add: targets_def)
  have "handleBroadcast order m' (h1\<lparr>hb_broadcast := []\<rparr>) = Some h2" using assms(7,10) by simp
  then have "h2 = delivered m' order (counted (h1\<lparr>hb_broadcast := []\<rparr>))"
    using handleBroadcast_delivers [OF ok assms(8) t] by simp
  moreover have "b \<notin> set order"
    using targets_addressed [OF ok, of m'] t assms(4,5,12) by (auto simp: h1 addressed_def)
  ultimately show ?thesis by (simp add: h1(1))
qed

definition hello :: Message where
  "hello = NewMessage ''m1'' 5 MessageTypeMessage (JStr ''hello'')"

theorem roomless_message_stays_with_sender_witness:
  "\<exists>h1 h2. handleMessage 6 1 hello demo_hub = Done h1 \<and> Run_step (TakeBroadcast [1]) h1 = Some h2 \<and> cl_send (hb_store h2 2) = []"
proof -
  let ?m = "hello\<lparr>ms_UserID := 7, ms_Timestamp := 6\<rparr>" and ?h1 = "demo_hub\<lparr>hb_broadcast := [hello\<lparr>ms_UserID := 7, ms_Timestamp := 6\<rparr>]\<rparr>"
  have m: "ms_Type hello = MessageTypeMessage" "ms_Room hello = []"
    by (simp_all add: hello_def NewMessage_def blank_message_def)
  have 1: "handleMessage 6 1 hello demo_hub = Done ?h1"
    by (simp add: handleMessage_def m message_type_defs hub_Broadcast_def broadcastBufferSize_def demo_store_def anna_def NewClient_def)
  have t: "set [1] = targets ?m ?h1" by (simp add: targets_def members_def m)
  have ok: "hub_ok (demo_hub\<lparr>hb_broadcast := []\<rparr>)" using demo_hub_ok by simp
  have t': "set [1] = targets ?m (demo_hub\<lparr>hb_broadcast := []\<rparr>)" by (simp add: targets_def members_def m)
  have 2: "Run_step (TakeBroadcast [1]) ?h1 = Some (delivered ?m [1] (counted (demo_hub\<lparr>hb_broadcast := []\<rparr>)))"
    using handleBroadcast_delivers [OF ok _ t'] by simp
  have "hb_store (delivered ?m [1] (counted (demo_hub\<lparr>hb_broadcast := []\<rparr>))) 2 = hb_store demo_hub 2"
    by (rule roomless_message_stays_with_sender [OF demo_hub_ok _ m _ 1 _ _ t 2])
      (simp_all add: demo_store_def anna_def ben_def NewClient_def)
  then show ?thesis using 1 2 by (simp add: demo_store_def ben_def NewClient_def)
qed

lemma deliver_closed: "a \<in> set as \<Longrightarrow> cl_closed (hb_store g a) \<Longrightarrow> deliver_loop m as g = None"
proof (induction as arbitrary: g)
  case (Cons b as)
  show ?case
  proof (cases "cl_closed (hb_store g b)")
    case False
    then have "a \<in> set as" "a \<noteq> b" using Cons(2,3) by auto
    then show ?thesis using Cons(1) [of "upd_client b (\<lambda>c. c\<lparr>cl_send := cl_send c @ [m]\<rparr>) g\<lparr>hb_metrics := x\<rparr>" for x]
        Cons(1) [of g] Cons(3) False by (simp add: Let_def upd_client_def)
  qed simp
qed simp

text \<open>
  A closed client crashes the server. \<^verbatim>\<open>Close\<close> unregisters a client, which closes its channel, but
  its \<^verbatim>\<open>ReadPump\<close> goes on reading. The next ping or subscription of that client is then answered by a
  send on the closed channel, a panic that nothing recovers; and since \<^verbatim>\<open>handleJoinRoom\<close> does not
  check that the client is registered, the subscription first puts the client into the room,
  where the next broadcast to the room would panic in the hub.
\<close>

theorem closed_client_crashes_server:
  assumes "hub_ok h" "a \<in> hb_clients h" "Close a h = Some h1"
    and "ms_Type m = MessageTypePing \<or> (ms_Type m = MessageTypeSubscribe \<and> ms_Data m = JStr room)"
    and "JoinRoom a room h1 = Some h2" "a \<in> set order" "ms_Room m2 \<noteq> []" "ms_Room m2 = room"
  shows "handleMessage now a m h1 = Panics \<and> a \<in> targets m2 h2 \<and> handleBroadcast order m2 h2 = None"
proof -
  have h1: "h1 = removed a h"
    using assms(2,3) unregister_removes [OF assms(2) hub_okD(2) [OF assms(1,2)]] by (simp add: Close_def)
  have h2: "h2 = handleJoinRoom a room h1" using assms(5) by (simp add: JoinRoom_def)
  have c: "cl_closed (hb_store h1 a)" "cl_closed (hb_store h2 a)"
    by (simp_all add: h1 h2 removed_def handleJoinRoom_def count_rooms_def upd_client_def)
  have "handleMessage now a m h1 = Panics"
    using assms(4) c h2 by (auto simp: handleMessage_def chan_send_def JoinRoom_def message_type_defs)
  moreover have "a \<in> targets m2 h2"
    using assms(7,8) by (simp add: targets_def h2 handleJoinRoom_def count_rooms_def upd_client_def members_add)
  moreover have "handleBroadcast order m2 h2 = None"
    using deliver_closed [OF assms(6)] c(2) by (simp add: handleBroadcast_def Let_def)
  ultimately show ?thesis by blast
qed

theorem closed_client_crashes_server_witness:
  "\<exists>h1. Close 1 demo_hub = Some h1 \<and> handleMessage 6 1 (blank_message MessageTypePing 5) h1 = Panics"
proof -
  have "\<not> cl_closed (hb_store demo_hub 1)" by (simp add: demo_store_def anna_def NewClient_def)
  then have c: "Close 1 demo_hub = Some (removed 1 demo_hub)"
    using unregister_removes [of 1 demo_hub] by (simp add: Close_def)
  show ?thesis
    using closed_client_crashes_server [OF demo_hub_ok _ c, of "blank_message MessageTypePing 5" "''r''" _ "[1]"
        "(blank_message MessageTypePing 5)\<lparr>ms_Room := ''r''\<rparr>" 6] c
    by (simp add: JoinRoom_def blank_message_def)
qed

end
