(* ===== verification/App_Errors.thy ===== *)
theory App_Errors
  imports Arcana_Prelude
begin

text \<open>
  Application errors, \<^verbatim>\<open>pkg/errors/errors.go\<close>: an error value is opaque text, a chain link
  made by \<^verbatim>\<open>fmt.Errorf\<close> with the verb \<^verbatim>\<open>%w\<close>, or an \<^verbatim>\<open>AppError\<close> that may itself wrap a cause. A
  \<^verbatim>\<open>nil\<close> error is \<open>None\<close>. \<open>as_app\<close> is \<^verbatim>\<open>errors.As\<close> with a \<^verbatim>\<open>*AppError\<close> target: it walks the
  chain and stops at the first application error.
\<close>

datatype error =
    Opaque string
  | Wrapf string error
  | AppError (Code: string) (Message: string) (Status: int) (Err: "error option")

fun Error :: "error \<Rightarrow> string" where
  "Error (Opaque s) = s"
| "Error (Wrapf s e) = s @ '': '' @ Error e"
| "Error (AppError c m st None) = m"
| "Error (AppError c m st (Some e)) = m @ '': '' @ Error e"

fun Unwrap :: "error \<Rightarrow> error option" where
  "Unwrap (Opaque s) = None"
| "Unwrap (Wrapf s e) = Some e"
| "Unwrap (AppError c m st e) = e"

definition CodeNotFound :: string where "CodeNotFound = ''NOT_FOUND''"
definition CodeBadRequest :: string where "CodeBadRequest = ''BAD_REQUEST''"
definition CodeUnauthorized :: string where "CodeUnauthorized = ''UNAUTHORIZED''"
definition CodeForbidden :: string where "CodeForbidden = ''FORBIDDEN''"
definition CodeConflict :: string where "CodeConflict = ''CONFLICT''"
definition CodeInternalError :: string where "CodeInternalError = ''INTERNAL_ERROR''"
definition CodeValidationError :: string where "CodeValidationError = ''VALIDATION_ERROR''"
definition CodeServiceUnavailable :: string where "CodeServiceUnavailable = ''SERVICE_UNAVAILABLE''"

lemmas code_defs = CodeNotFound_def CodeBadRequest_def CodeUnauthorized_def CodeForbidden_def
  CodeConflict_def CodeInternalError_def CodeValidationError_def CodeServiceUnavailable_def

definition app_New :: "string \<Rightarrow> string \<Rightarrow> int \<Rightarrow> error" where
  "app_New code message status = AppError code message status None"

definition ErrNotFound :: error where
  "ErrNotFound = AppError CodeNotFound ''resource not found'' 404 None"
definition ErrBadRequest :: error where
  "ErrBadRequest = AppError CodeBadRequest ''bad request'' 400 None"
definition ErrUnauthorized :: error where
  "ErrUnauthorized = AppError CodeUnauthorized ''unauthorized'' 401 None"
definition ErrForbidden :: error where
  "ErrForbidden = AppError CodeForbidden ''forbidden'' 403 None"
definition ErrConflict :: error where
  "ErrConflict = AppError CodeConflict ''resource conflict'' 409 None"
definition ErrInternalError :: error where
  "ErrInternalError = AppError CodeInternalError ''internal server error'' 500 None"
definition ErrServiceUnavailable :: error where
  "ErrServiceUnavailable = AppError CodeServiceUnavailable ''service unavailable'' 503 None"

text \<open>The receivers and targets are \<^verbatim>\<open>*AppError\<close>; on another error the operations are not defined
  in the source, and these give it back unchanged.\<close>

fun Wrap :: "error option \<Rightarrow> error \<Rightarrow> error" where
  "Wrap e (AppError c m st _) = AppError c m st e"
| "Wrap e other = other"

fun WithMessage :: "error \<Rightarrow> string \<Rightarrow> error" where
  "WithMessage (AppError c _ st e) message = AppError c message st e"
| "WithMessage other message = other"

fun WithError :: "error \<Rightarrow> error option \<Rightarrow> error" where
  "WithError (AppError c m st _) e = AppError c m st e"
| "WithError other e = other"

fun as_app :: "error option \<Rightarrow> error option" where
  "as_app None = None"
| "as_app (Some (Opaque s)) = None"
| "as_app (Some (Wrapf s e)) = as_app (Some e)"
| "as_app (Some (AppError c m st e)) = Some (AppError c m st e)"

definition app_Is :: "error option \<Rightarrow> error \<Rightarrow> bool" where
  "app_Is e target = (case as_app e of Some a \<Rightarrow> Code a = Code target | None \<Rightarrow> False)"

definition GetStatus :: "error option \<Rightarrow> int" where
  "GetStatus e = (case as_app e of Some a \<Rightarrow> Status a | None \<Rightarrow> 500)"

fun is_app :: "error \<Rightarrow> bool" where
  "is_app (AppError _ _ _ _) = True"
| "is_app _ = False"

text \<open>The links of a chain, outermost first.\<close>

fun chain :: "error \<Rightarrow> error list" where
  "chain (Opaque s) = [Opaque s]"
| "chain (Wrapf s e) = Wrapf s e # chain e"
| "chain (AppError c m st None) = [AppError c m st None]"
| "chain (AppError c m st (Some e)) = AppError c m st (Some e) # chain e"

lemma as_app_first: "as_app (Some e) = List.find is_app (chain e)"
  by (induction e rule: chain.induct) auto

text \<open>
  The status and the code of an error are those of the outermost application error of its
  chain, whatever it wraps, and 500 when the chain has none; wrapping, rewording and
  replacing the cause change neither.
\<close>

theorem status_is_outermost:
  assumes "is_app a"
  shows "GetStatus (Some e) = (case List.find is_app (chain e) of Some b \<Rightarrow> Status b | None \<Rightarrow> 500)"
    and "GetStatus (Some (Wrap e1 a)) = Status a \<and> app_Is (Some (Wrap e1 a)) a"
    and "GetStatus (Some (WithMessage a m)) = Status a \<and> Err (WithMessage a m) = Err a"
    and "GetStatus (Some (WithError a e1)) = Status a \<and> Unwrap (WithError a e1) = e1"
    and "GetStatus (Some (Wrapf s e)) = GetStatus (Some e) \<and> app_Is (Some (Wrapf s e)) t = app_Is (Some e) t"
  using assms by (cases a; simp add: GetStatus_def as_app_first [symmetric] app_Is_def)+

end
