(* ===== verification/File_Path.thy ===== *)
theory File_Path
  imports Arcana_Prelude
begin

text \<open>
  What the plugin system uses of \<^verbatim>\<open>path/filepath\<close> and \<^verbatim>\<open>os\<close>: the lexical operations on Unix paths
  (\<^verbatim>\<open>Clean\<close>, \<^verbatim>\<open>Join\<close>, \<^verbatim>\<open>Ext\<close>), and a file system without links, in which a file is named by its clean
  path. Whether the system refuses an operation for a reason of its own (permissions, a full
  disk) is an argument of the operation.
\<close>

subsection \<open>Paths\<close>

fun split_path :: "string \<Rightarrow> string list" where
  "split_path [] = [[]]"
| "split_path (c # cs) =
     (if c = CHR ''/'' then [] # split_path cs
      else case split_path cs of p # ps \<Rightarrow> (c # p) # ps | [] \<Rightarrow> [[c]])"

fun join_path :: "string list \<Rightarrow> string" where
  "join_path [] = []"
| "join_path [p] = p"
| "join_path (p # ps) = p @ CHR ''/'' # join_path ps"

text \<open>The names kept so far, the last one first.\<close>

definition clean_step :: "bool \<Rightarrow> string \<Rightarrow> string list \<Rightarrow> string list" where
  "clean_step rooted p stk =
     (if p = [] \<or> p = ''.'' then stk
      else if p = ''..'' then
        (case stk of
           [] \<Rightarrow> if rooted then [] else [''..'']
         | q # r \<Rightarrow> if q = ''..'' then ''..'' # stk else r)
      else p # stk)"

definition path_rooted :: "string \<Rightarrow> bool" where
  "path_rooted p = (case p of c # _ \<Rightarrow> c = CHR ''/'' | [] \<Rightarrow> False)"

definition path_names :: "string \<Rightarrow> string list" where
  "path_names p = rev (fold (clean_step (path_rooted p)) (split_path p) [])"

definition render_path :: "bool \<Rightarrow> string list \<Rightarrow> string" where
  "render_path rooted names =
     (if rooted then CHR ''/'' # join_path names else if names = [] then ''.'' else join_path names)"

definition Clean :: "string \<Rightarrow> string" where
  "Clean p = render_path (path_rooted p) (path_names p)"

definition Join :: "string \<Rightarrow> string \<Rightarrow> string" where
  "Join a b = (if a = [] \<and> b = [] then []
               else if a = [] then Clean b else if b = [] then Clean a else Clean (a @ CHR ''/'' # b))"

text \<open>\<^verbatim>\<open>filepath.Ext\<close>: from the last dot of the last name on.\<close>

definition Ext :: "string \<Rightarrow> string" where
  "Ext p = (let r = rev (last (split_path p))
            in if CHR ''.'' \<in> set r then rev (takeWhile (\<lambda>c. c \<noteq> CHR ''.'') r @ ''.'') else [])"

definition Dir_names :: "string \<Rightarrow> string list" where
  "Dir_names p = butlast (path_names p)"

lemma split_path_nonempty [simp]: "split_path p \<noteq> []"
  by (cases p) (auto split: list.splits)

lemma split_path_plain: "CHR ''/'' \<notin> set p \<Longrightarrow> split_path p = [p]"
  by (induction p) auto

lemma split_path_append: "split_path (a @ CHR ''/'' # b) = split_path a @ split_path b"
proof (induction a)
  case (Cons c a)
  then show ?case by (cases "split_path a") auto
qed simp

lemma split_path_no_slash: "p \<in> set (split_path q) \<Longrightarrow> CHR ''/'' \<notin> set p"
proof (induction q arbitrary: p)
  case (Cons c q)
  then show ?case by (cases "split_path q") (auto split: if_splits)
qed simp

lemma join_path_Cons: "ps \<noteq> [] \<Longrightarrow> join_path (p # ps) = p @ CHR ''/'' # join_path ps"
  by (cases ps) auto

lemma join_path_snoc: "ps \<noteq> [] \<Longrightarrow> join_path (ps @ [p]) = join_path ps @ CHR ''/'' # p"
  by (induction ps rule: join_path.induct) (auto simp: join_path_Cons)

lemma split_join: "ps \<noteq> [] \<Longrightarrow> \<forall>p \<in> set ps. CHR ''/'' \<notin> set p \<Longrightarrow> split_path (join_path ps) = ps"
  by (induction ps rule: join_path.induct) (auto simp: split_path_plain split_path_append)

lemma join_path_rooted: "p \<noteq> [] \<Longrightarrow> CHR ''/'' \<notin> set p \<Longrightarrow> \<not> path_rooted (join_path (p # ps))"
  by (cases ps; cases p) (auto simp: path_rooted_def)

subsection \<open>Clean paths\<close>

text \<open>What is on the stack: names, and \<^verbatim>\<open>..\<close> only at the bottom, of a relative path.\<close>

fun clean_stack :: "bool \<Rightarrow> string list \<Rightarrow> bool" where
  "clean_stack rooted [] = True"
| "clean_stack rooted (p # stk) =
     (p \<noteq> [] \<and> p \<noteq> ''.'' \<and> CHR ''/'' \<notin> set p \<and> clean_stack rooted stk
      \<and> (p = ''..'' \<longrightarrow> \<not> rooted \<and> (stk = [] \<or> hd stk = ''..'')))"

lemma clean_step_stack:
  "CHR ''/'' \<notin> set p \<Longrightarrow> clean_stack rooted stk \<Longrightarrow> clean_stack rooted (clean_step rooted p stk)"
  by (cases stk) (auto simp: clean_step_def)

lemma clean_fold_stack:
  "\<forall>p \<in> set ps. CHR ''/'' \<notin> set p \<Longrightarrow> clean_stack rooted stk \<Longrightarrow>
     clean_stack rooted (fold (clean_step rooted) ps stk)"
  by (induction ps arbitrary: stk) (auto intro: clean_step_stack)

lemma clean_step_push: "clean_stack rooted (p # stk) \<Longrightarrow> clean_step rooted p stk = p # stk"
  by (cases stk) (auto simp: clean_step_def)

lemma clean_fold_id: "clean_stack rooted stk \<Longrightarrow> fold (clean_step rooted) (rev stk) [] = stk"
proof (induction stk)
  case (Cons p stk)
  then show ?case using clean_step_push [OF Cons.prems] by simp
qed simp

lemma clean_stack_members: "clean_stack rooted stk \<Longrightarrow> p \<in> set stk \<Longrightarrow> p \<noteq> [] \<and> p \<noteq> ''.'' \<and> CHR ''/'' \<notin> set p"
  by (induction stk) auto

lemma path_names_clean: "clean_stack (path_rooted p) (rev (path_names p))"
  using clean_fold_stack [of "split_path p" "path_rooted p" "[]"] split_path_no_slash
  by (auto simp: path_names_def)

text \<open>Rendering the names of a path and reading them again.\<close>

lemma render_path_names:
  assumes "clean_stack rooted (rev ns)"
  shows "path_rooted (render_path rooted ns) = rooted" "path_names (render_path rooted ns) = ns"
proof -
  note m = clean_stack_members [OF assms]
  show r: "path_rooted (render_path rooted ns) = rooted"
  proof (cases rooted)
    case False
    show ?thesis
    proof (cases ns)
      case Nil
      then show ?thesis using False by (simp add: render_path_def path_rooted_def)
    next
      case (Cons p ps)
      then show ?thesis using False join_path_rooted [of p ps] m [of p] by (simp add: render_path_def)
    qed
  qed (simp add: render_path_def path_rooted_def)
  have s: "split_path (join_path ns) = ns" if "ns \<noteq> []" using that m by (intro split_join) auto
  have "fold (clean_step rooted) (split_path (render_path rooted ns)) [] = fold (clean_step rooted) ns []"
    by (cases "ns = []") (auto simp: render_path_def s clean_step_def)
  then show "path_names (render_path rooted ns) = ns"
    using clean_fold_id [OF assms] by (simp add: path_names_def r)
qed

lemma Clean_idem: "Clean (Clean p) = Clean p"
  unfolding Clean_def by (simp add: render_path_names path_names_clean)

text \<open>A plain name joined to a directory is a file directly in it.\<close>

lemma Join_names:
  assumes "dir \<noteq> []" "CHR ''/'' \<notin> set f" "f \<noteq> []" "f \<noteq> ''.''" "f \<noteq> ''..''"
  shows "path_names (Join dir f) = path_names dir @ [f]" "path_rooted (Join dir f) = path_rooted dir"
    "Clean (Join dir f) = Join dir f"
proof -
  let ?p = "dir @ CHR ''/'' # f"
  have j: "Join dir f = Clean ?p" using assms by (simp add: Join_def)
  have r: "path_rooted ?p = path_rooted dir" using assms(1) by (cases dir) (auto simp: path_rooted_def)
  have n: "path_names ?p = path_names dir @ [f]"
    using assms by (simp add: path_names_def r split_path_append split_path_plain clean_step_def)
  note c = render_path_names [OF path_names_clean [of ?p]]
  show "path_names (Join dir f) = path_names dir @ [f]" using c(2) n by (simp add: j Clean_def)
  show "path_rooted (Join dir f) = path_rooted dir" using c(1) r by (simp add: j Clean_def)
  show "Clean (Join dir f) = Join dir f" by (simp add: j Clean_idem)
qed

text \<open>A path is inside a directory if its names extend those of the directory.\<close>

definition inside :: "string \<Rightarrow> string \<Rightarrow> bool" where
  "inside dir p \<longleftrightarrow> path_rooted p = path_rooted dir \<and> take (length (path_names dir)) (path_names p) = path_names dir
     \<and> ''..'' \<notin> set (drop (length (path_names dir)) (path_names p))"

subsection \<open>Files\<close>

record filesystem =
  fs_dirs :: "string set"
  fs_files :: "string \<rightharpoonup> string"

definition parent :: "string \<Rightarrow> string" where
  "parent p = render_path (path_rooted p) (Dir_names p)"

definition ancestors :: "string \<Rightarrow> string list" where
  "ancestors p = map (\<lambda>n. render_path (path_rooted p) (take n (path_names p))) [0..<Suc (length (path_names p))]"

definition os_MkdirAll :: "bool \<Rightarrow> string \<Rightarrow> filesystem \<Rightarrow> bool \<times> filesystem" where
  "os_MkdirAll refused p fs =
     (if refused \<or> list_ex (\<lambda>d. fs_files fs d \<noteq> None) (ancestors p) then (False, fs)
      else (True, fs\<lparr>fs_dirs := fs_dirs fs \<union> set (ancestors p)\<rparr>))"

text \<open>\<^verbatim>\<open>os.Create\<close> truncates a file that exists; \<^verbatim>\<open>os.Remove\<close> is only called on files.\<close>

definition os_Create :: "bool \<Rightarrow> string \<Rightarrow> filesystem \<Rightarrow> bool \<times> filesystem" where
  "os_Create refused p fs =
     (if refused \<or> Clean p \<in> fs_dirs fs \<or> parent p \<notin> fs_dirs fs then (False, fs)
      else (True, fs\<lparr>fs_files := (fs_files fs)(Clean p \<mapsto> [])\<rparr>))"

definition os_Write :: "string \<Rightarrow> string \<Rightarrow> filesystem \<Rightarrow> filesystem" where
  "os_Write p content fs = fs\<lparr>fs_files := (fs_files fs)(Clean p \<mapsto> content)\<rparr>"

definition os_Open :: "bool \<Rightarrow> string \<Rightarrow> filesystem \<Rightarrow> string option" where
  "os_Open refused p fs = (if refused then None else fs_files fs (Clean p))"

definition os_Remove :: "bool \<Rightarrow> string \<Rightarrow> filesystem \<Rightarrow> filesystem" where
  "os_Remove refused p fs = (if refused then fs else fs\<lparr>fs_files := (fs_files fs)(Clean p := None)\<rparr>)"

end
