(* ===== verification/Plugin_Manager.thy ===== *)
theory Plugin_Manager
  imports File_Path
begin

text \<open>
  The plugin manager, \<^verbatim>\<open>internal/plugin/manager/manager.go\<close>.

  Plugins are shared objects of third parties: opening one and calling it are operations of a
  \<open>plugin_code\<close>, an argument of the manager's operations, on an opaque state \<open>'w\<close> of everything
  outside. A managed plugin is reached by pointer, from the table and from calls that are
  still running, so the table holds addresses into a store. The keys a loop over the
  table visits, in their order, are an argument. \<open>StartPlugin\<close> and \<open>StopPlugin\<close> release the lock after the lookup: their two
  halves are definitions of their own.
\<close>

subsection \<open>Plugins\<close>

record PluginInfo =
  pf_Key :: string
  pf_Name :: string
  pf_Description :: string
  pf_Version :: string
  pf_Author :: string
  pf_Type :: string

record 'v Event =
  ev_Type :: string
  ev_Payload :: 'v

text \<open>What \<^verbatim>\<open>plugin.Open\<close>, the lookup of \<^verbatim>\<open>ArcanaPlugin\<close> and its type assertion give.\<close>

datatype 'p opened = OpenFailed | NoSymbol | NotAPlugin | Opened 'p

text \<open>\<open>pc_Routes\<close> and \<open>pc_Events\<close> are \<open>None\<close> for a plugin without that interface.\<close>

record ('p, 'c, 'v, 'rt, 'w) plugin_code =
  pc_Open :: "string \<Rightarrow> 'w \<Rightarrow> 'p opened \<times> 'w"
  pc_Info :: "'p \<Rightarrow> PluginInfo"
  pc_Init :: "'p \<Rightarrow> 'c option \<Rightarrow> 'w \<Rightarrow> string option \<times> 'w"
  pc_Start :: "'p \<Rightarrow> 'w \<Rightarrow> string option \<times> 'w"
  pc_Stop :: "'p \<Rightarrow> 'w \<Rightarrow> string option \<times> 'w"
  pc_Routes :: "'p \<Rightarrow> 'w \<Rightarrow> 'rt list option"
  pc_Middleware :: "'p \<Rightarrow> bool"
  pc_Events :: "'p \<Rightarrow> 'w \<Rightarrow> string list option"

datatype ManagedState = StateLoaded | StateStarted | StateStopped | StateError

record ('p, 'c) ManagedPlugin =
  mp_Info :: PluginInfo
  mp_Plugin :: 'p
  mp_State :: ManagedState
  mp_Path :: string
  mp_Error :: "string option"
  mp_Config :: "'c option"

record ('p, 'c) Manager =
  mg_plugins :: "string \<rightharpoonup> nat"
  mg_pluginsDir :: string
  mg_events_closed :: bool
  mg_heap :: "('p, 'c) ManagedPlugin list"

datatype mgr_error =
    ErrCreateDir | ErrReadDir | ErrOpen | ErrNoSymbol | ErrNotAPlugin | ErrAlreadyLoaded string
  | ErrNotFound string | ErrInit string | ErrStart string | ErrStop string

type_synonym ('p, 'c, 'w, 'a) mgr_call = "(('p, 'c) Manager \<times> 'w, mgr_error, 'a) call"

definition NewManager :: "string \<Rightarrow> ('p, 'c) Manager" where
  "NewManager dir =
     \<lparr>mg_plugins = Map.empty, mg_pluginsDir = dir, mg_events_closed = False, mg_heap = []\<rparr>"

subsection \<open>Loading\<close>

definition LoadPlugin :: "('p, 'c, 'v, 'rt, 'w) plugin_code \<Rightarrow> string \<Rightarrow> ('p, 'c, 'w, unit) mgr_call" where
  "LoadPlugin pc path = (\<lambda>(m, w).
     case pc_Open pc path w of
       (OpenFailed, w1) \<Rightarrow> (Inl ErrOpen, (m, w1))
     | (NoSymbol, w1) \<Rightarrow> (Inl ErrNoSymbol, (m, w1))
     | (NotAPlugin, w1) \<Rightarrow> (Inl ErrNotAPlugin, (m, w1))
     | (Opened p, w1) \<Rightarrow>
         let info = pc_Info pc p
         in if mg_plugins m (pf_Key info) \<noteq> None then (Inl (ErrAlreadyLoaded (pf_Key info)), (m, w1))
            else let managed = \<lparr>mp_Info = info, mp_Plugin = p, mp_State = StateLoaded, mp_Path = path,
                                mp_Error = None, mp_Config = None\<rparr>
                 in (Inr (), (m\<lparr>mg_heap := mg_heap m @ [managed],
                                mg_plugins := (mg_plugins m)(pf_Key info \<mapsto> length (mg_heap m))\<rparr>, w1)))"

record dir_entry =
  de_Name :: string
  de_IsDir :: bool

text \<open>A plugin that cannot be loaded is logged and passed over.\<close>

fun load_entries :: "('p, 'c, 'v, 'rt, 'w) plugin_code \<Rightarrow> dir_entry list \<Rightarrow> ('p, 'c) Manager \<times> 'w \<Rightarrow> ('p, 'c) Manager \<times> 'w" where
  "load_entries pc [] s = s"
| "load_entries pc (e # es) s =
     (if de_IsDir e then load_entries pc es s
      else if Ext (de_Name e) \<noteq> ''.so'' then load_entries pc es s
      else load_entries pc es (snd (LoadPlugin pc (Join (mg_pluginsDir (fst s)) (de_Name e)) s)))"

text \<open>The arguments are what \<^verbatim>\<open>os.MkdirAll\<close> and \<^verbatim>\<open>os.ReadDir\<close> return.\<close>

definition LoadAll ::
  "('p, 'c, 'v, 'rt, 'w) plugin_code \<Rightarrow> bool \<Rightarrow> dir_entry list option \<Rightarrow> ('p, 'c, 'w, unit) mgr_call" where
  "LoadAll pc made entries s =
     (if \<not> made then (Inl ErrCreateDir, s)
      else case entries of None \<Rightarrow> (Inl ErrReadDir, s) | Some es \<Rightarrow> (Inr (), load_entries pc es s))"

subsection \<open>Life cycle\<close>

definition set_managed ::
  "nat \<Rightarrow> (('p, 'c) ManagedPlugin \<Rightarrow> ('p, 'c) ManagedPlugin) \<Rightarrow> ('p, 'c) Manager \<Rightarrow> ('p, 'c) Manager" where
  "set_managed a f m = m\<lparr>mg_heap := (mg_heap m)[a := f (mg_heap m ! a)]\<rparr>"

definition set_error :: "nat \<Rightarrow> string \<Rightarrow> ('p, 'c) Manager \<Rightarrow> ('p, 'c) Manager" where
  "set_error a e = set_managed a (\<lambda>p. p\<lparr>mp_State := StateError, mp_Error := Some e\<rparr>)"

text \<open>Under the lock: find the managed plugin.\<close>

definition lookup_plugin :: "string \<Rightarrow> ('p, 'c, 'w, nat) mgr_call" where
  "lookup_plugin key s =
     (case mg_plugins (fst s) key of None \<Rightarrow> (Inl (ErrNotFound key), s) | Some a \<Rightarrow> (Inr a, s))"

text \<open>After the lock is released.\<close>

definition start_managed :: "('p, 'c, 'v, 'rt, 'w) plugin_code \<Rightarrow> 'c option \<Rightarrow> nat \<Rightarrow> ('p, 'c, 'w, unit) mgr_call" where
  "start_managed pc config a = (\<lambda>(m, w).
     let managed = mg_heap m ! a
     in if mp_State managed = StateStarted then (Inr (), (m, w))
        else case pc_Init pc (mp_Plugin managed) config w of
               (Some e, w1) \<Rightarrow> (Inl (ErrInit e), (set_error a e m, w1))
             | (None, w1) \<Rightarrow> (case pc_Start pc (mp_Plugin managed) w1 of
                 (Some e, w2) \<Rightarrow> (Inl (ErrStart e), (set_error a e m, w2))
               | (None, w2) \<Rightarrow>
                   (Inr (), (set_managed a (\<lambda>p. p\<lparr>mp_State := StateStarted, mp_Config := config\<rparr>) m, w2))))"

definition StartPlugin ::
  "('p, 'c, 'v, 'rt, 'w) plugin_code \<Rightarrow> string \<Rightarrow> 'c option \<Rightarrow> ('p, 'c, 'w, unit) mgr_call" where
  "StartPlugin pc key config = and_then (lookup_plugin key) (start_managed pc config)"

definition stop_managed :: "('p, 'c, 'v, 'rt, 'w) plugin_code \<Rightarrow> nat \<Rightarrow> ('p, 'c, 'w, unit) mgr_call" where
  "stop_managed pc a = (\<lambda>(m, w).
     if mp_State (mg_heap m ! a) \<noteq> StateStarted then (Inr (), (m, w))
     else case pc_Stop pc (mp_Plugin (mg_heap m ! a)) w of
            (Some e, w1) \<Rightarrow> (Inl (ErrStop e), (set_error a e m, w1))
          | (None, w1) \<Rightarrow> (Inr (), (set_managed a (\<lambda>p. p\<lparr>mp_State := StateStopped\<rparr>) m, w1)))"

definition StopPlugin :: "('p, 'c, 'v, 'rt, 'w) plugin_code \<Rightarrow> string \<Rightarrow> ('p, 'c, 'w, unit) mgr_call" where
  "StopPlugin pc key = and_then (lookup_plugin key) (stop_managed pc)"

text \<open>Unloading stops a started plugin, whatever it answers, and does not change its state.\<close>

definition quit_managed :: "('p, 'c, 'v, 'rt, 'w) plugin_code \<Rightarrow> ('p, 'c) ManagedPlugin \<Rightarrow> 'w \<Rightarrow> 'w" where
  "quit_managed pc managed w =
     (if mp_State managed = StateStarted then snd (pc_Stop pc (mp_Plugin managed) w) else w)"

definition UnloadPlugin :: "('p, 'c, 'v, 'rt, 'w) plugin_code \<Rightarrow> string \<Rightarrow> ('p, 'c, 'w, unit) mgr_call" where
  "UnloadPlugin pc key = (\<lambda>(m, w).
     case mg_plugins m key of
       None \<Rightarrow> (Inl (ErrNotFound key), (m, w))
     | Some a \<Rightarrow> (Inr (), (m\<lparr>mg_plugins := (mg_plugins m)(key := None)\<rparr>, quit_managed pc (mg_heap m ! a) w)))"

text \<open>What a loop over the table finds under a key.\<close>

definition managed_at :: "('p, 'c) Manager \<Rightarrow> string \<Rightarrow> ('p, 'c) ManagedPlugin" where
  "managed_at m k = mg_heap m ! the (mg_plugins m k)"

text \<open>Closing the events channel a second time is a panic.\<close>

definition Shutdown ::
  "('p, 'c, 'v, 'rt, 'w) plugin_code \<Rightarrow> string list \<Rightarrow> ('p, 'c) Manager \<times> 'w \<Rightarrow> (('p, 'c) Manager \<times> 'w) option" where
  "Shutdown pc ord = (\<lambda>(m, w).
     let w1 = fold (\<lambda>k. quit_managed pc (managed_at m k)) ord w
     in if mg_events_closed m then None
        else Some (m\<lparr>mg_plugins := Map.empty, mg_events_closed := True\<rparr>, w1))"

subsection \<open>Queries and events\<close>

definition GetPlugin :: "string \<Rightarrow> ('p, 'c) Manager \<Rightarrow> ('p, 'c) ManagedPlugin option" where
  "GetPlugin key m = map_option (nth (mg_heap m)) (mg_plugins m key)"

definition ListPlugins :: "string list \<Rightarrow> ('p, 'c) Manager \<Rightarrow> ('p, 'c) ManagedPlugin list" where
  "ListPlugins ord m = map (managed_at m) ord"

definition GetRESTRoutes :: "('p, 'c, 'v, 'rt, 'w) plugin_code \<Rightarrow> string list \<Rightarrow> ('p, 'c) Manager \<times> 'w \<Rightarrow> 'rt list" where
  "GetRESTRoutes pc ord = (\<lambda>(m, w).
     concat (map (\<lambda>k. if mp_State (managed_at m k) \<noteq> StateStarted then []
                      else case pc_Routes pc (mp_Plugin (managed_at m k)) w of None \<Rightarrow> [] | Some rs \<Rightarrow> rs) ord))"

definition GetMiddlewares :: "('p, 'c, 'v, 'rt, 'w) plugin_code \<Rightarrow> string list \<Rightarrow> ('p, 'c) Manager \<Rightarrow> 'p list" where
  "GetMiddlewares pc ord m =
     concat (map (\<lambda>k. if mp_State (managed_at m k) \<noteq> StateStarted then []
                      else if pc_Middleware pc (mp_Plugin (managed_at m k)) then [mp_Plugin (managed_at m k)] else []) ord)"

definition pluginListensToEvent :: "string list \<Rightarrow> string \<Rightarrow> bool" where
  "pluginListensToEvent events eventType = list_ex (\<lambda>e. e = eventType \<or> e = ''*'') events"

text \<open>The handlers that are started, each in a goroutine of its own.\<close>

definition EmitEvent ::
  "('p, 'c, 'v, 'rt, 'w) plugin_code \<Rightarrow> string list \<Rightarrow> 'v Event \<Rightarrow> ('p, 'c) Manager \<times> 'w \<Rightarrow> ('p \<times> 'v Event) list" where
  "EmitEvent pc ord event = (\<lambda>(m, w).
     concat (map (\<lambda>k. if mp_State (managed_at m k) \<noteq> StateStarted then []
                      else case pc_Events pc (mp_Plugin (managed_at m k)) w of
                             None \<Rightarrow> []
                           | Some evs \<Rightarrow> if pluginListensToEvent evs (ev_Type event)
                                         then [(mp_Plugin (managed_at m k), event)] else []) ord))"

subsection \<open>Operations in sequence\<close>

datatype 'c mgr_op =
    OpLoad string | OpLoadAll bool "dir_entry list option" | OpStart string "'c option" | OpStop string | OpUnload string

fun mgr_step ::
  "('p, 'c, 'v, 'rt, 'w) plugin_code \<Rightarrow> 'c mgr_op \<Rightarrow> ('p, 'c) Manager \<times> 'w \<Rightarrow> ('p, 'c) Manager \<times> 'w" where
  "mgr_step pc (OpLoad path) s = snd (LoadPlugin pc path s)"
| "mgr_step pc (OpLoadAll made es) s = snd (LoadAll pc made es s)"
| "mgr_step pc (OpStart key config) s = snd (StartPlugin pc key config s)"
| "mgr_step pc (OpStop key) s = snd (StopPlugin pc key s)"
| "mgr_step pc (OpUnload key) s = snd (UnloadPlugin pc key s)"

text \<open>The calls plugins receive, with whether they succeeded, recorded beside the world.\<close>

datatype 'p pcall = CallInit 'p bool | CallStart 'p bool | CallStop 'p bool

definition logged :: "(bool \<Rightarrow> 'p pcall) \<Rightarrow> ('w \<Rightarrow> string option \<times> 'w) \<Rightarrow> 'w \<times> 'p pcall list \<Rightarrow> string option \<times> 'w \<times> 'p pcall list" where
  "logged k f s = (case f (fst s) of (e, w1) \<Rightarrow> (e, (w1, snd s @ [k (e = None)])))"

definition traced :: "('p, 'c, 'v, 'rt, 'w) plugin_code \<Rightarrow> ('p, 'c, 'v, 'rt, 'w \<times> 'p pcall list) plugin_code" where
  "traced pc =
     \<lparr>pc_Open = (\<lambda>path s. case pc_Open pc path (fst s) of (r, w1) \<Rightarrow> (r, (w1, snd s))),
      pc_Info = pc_Info pc,
      pc_Init = (\<lambda>p config. logged (CallInit p) (pc_Init pc p config)),
      pc_Start = (\<lambda>p. logged (CallStart p) (pc_Start pc p)),
      pc_Stop = (\<lambda>p. logged (CallStop p) (pc_Stop pc p)),
      pc_Routes = (\<lambda>p s. pc_Routes pc p (fst s)),
      pc_Middleware = pc_Middleware pc,
      pc_Events = (\<lambda>p s. pc_Events pc p (fst s))\<rparr>"

text \<open>The protocol a plugin expects: it is started right after a successful initialisation, stopped
  only while it runs; after a call that failed, it starts over.\<close>

datatype phase = Idle | Ready | Running

fun on_call :: "'p pcall \<Rightarrow> phase \<Rightarrow> phase option" where
  "on_call (CallInit p ok) Idle = Some (if ok then Ready else Idle)"
| "on_call (CallStart p ok) Ready = Some (if ok then Running else Idle)"
| "on_call (CallStop p ok) Running = Some Idle"
| "on_call _ _ = None"

fun callee :: "'p pcall \<Rightarrow> 'p" where
  "callee (CallInit p ok) = p"
| "callee (CallStart p ok) = p"
| "callee (CallStop p ok) = p"

definition phase_of :: "'p \<Rightarrow> 'p pcall list \<Rightarrow> phase option" where
  "phase_of p calls = fold (\<lambda>k ph. Option.bind ph (on_call k)) (filter (\<lambda>k. callee k = p) calls) (Some Idle)"

lemma phase_of_snoc:
  "phase_of p (calls @ [k]) =
     (if callee k = p then Option.bind (phase_of p calls) (on_call k) else phase_of p calls)"
  by (simp add: phase_of_def)

lemma phase_of_snoc2:
  "phase_of p (calls @ [k, k']) =
     (let ph = phase_of p (calls @ [k]) in if callee k' = p then Option.bind ph (on_call k') else ph)"
  using phase_of_snoc [of p "calls @ [k]" k'] by simp

lemma phase_of_Nil [simp]: "phase_of p [] = Some Idle"
  by (simp add: phase_of_def)

text \<open>A plugin is running if the table has it in the state started.\<close>

definition managed_running :: "('p, 'c, 'v, 'rt, 'w) plugin_code \<Rightarrow> ('p, 'c) Manager \<Rightarrow> 'p \<Rightarrow> bool" where
  "managed_running pc m p =
     (case mg_plugins m (pf_Key (pc_Info pc p)) of
        None \<Rightarrow> False
      | Some a \<Rightarrow> mp_Plugin (mg_heap m ! a) = p \<and> mp_State (mg_heap m ! a) = StateStarted)"

text \<open>The table: addresses in the store, each under the key of its plugin.\<close>

definition table_ok :: "('p, 'c, 'v, 'rt, 'w) plugin_code \<Rightarrow> ('p, 'c) Manager \<Rightarrow> bool" where
  "table_ok pc m \<longleftrightarrow>
     (\<forall>k a. mg_plugins m k = Some a \<longrightarrow> a < length (mg_heap m) \<and> pf_Key (pc_Info pc (mp_Plugin (mg_heap m ! a))) = k)"

definition protocol_ok ::
  "('p, 'c, 'v, 'rt, 'w) plugin_code \<Rightarrow> ('p, 'c) Manager \<times> 'w \<times> 'p pcall list \<Rightarrow> bool" where
  "protocol_ok pc s \<longleftrightarrow> table_ok pc (fst s)
     \<and> (\<forall>p. phase_of p (snd (snd s)) = Some (if managed_running pc (fst s) p then Running else Idle))"

subsection \<open>The protocol is kept\<close>

lemma set_managed_fields [simp]:
  "mg_plugins (set_managed a f m) = mg_plugins m" "mg_events_closed (set_managed a f m) = mg_events_closed m"
  "mg_heap (set_managed a f m) = (mg_heap m)[a := f (mg_heap m ! a)]"
  by (simp_all add: set_managed_def)

lemma traced_simps [simp]:
  "pc_Info (traced pc) = pc_Info pc" "pc_Init (traced pc) p config = logged (CallInit p) (pc_Init pc p config)"
  "pc_Start (traced pc) p = logged (CallStart p) (pc_Start pc p)"
  "pc_Stop (traced pc) p = logged (CallStop p) (pc_Stop pc p)"
  by (simp_all add: traced_def)

text \<open>Changing one managed plugin concerns this plugin only.\<close>

lemma set_managed_running:
  assumes "table_ok pc m" "mg_plugins m k = Some a" "mp_Plugin (f (mg_heap m ! a)) = mp_Plugin (mg_heap m ! a)"
  shows "table_ok pc (set_managed a f m)"
    and "managed_running pc (set_managed a f m) q \<longleftrightarrow>
           (if q = mp_Plugin (mg_heap m ! a) then mp_State (f (mg_heap m ! a)) = StateStarted
            else managed_running pc m q)"
proof -
  have a: "a < length (mg_heap m)" "pf_Key (pc_Info pc (mp_Plugin (mg_heap m ! a))) = k"
    using assms(1, 2) by (auto simp: table_ok_def)
  show "table_ok pc (set_managed a f m)"
    using assms by (auto simp: table_ok_def nth_list_update)
  have "b \<noteq> a" if "mg_plugins m (pf_Key (pc_Info pc q)) = Some b" "pf_Key (pc_Info pc q) \<noteq> k" for b
    using that assms(1) a(2) by (auto simp: table_ok_def)
  then show "managed_running pc (set_managed a f m) q \<longleftrightarrow>
      (if q = mp_Plugin (mg_heap m ! a) then mp_State (f (mg_heap m ! a)) = StateStarted
       else managed_running pc m q)"
    using a assms(2, 3)
    by (cases "pf_Key (pc_Info pc q) = k") (auto simp: managed_running_def split: option.splits)
qed

lemma running_at:
  assumes "table_ok pc m" "mg_plugins m k = Some a"
  shows "managed_running pc m (mp_Plugin (mg_heap m ! a)) \<longleftrightarrow> mp_State (mg_heap m ! a) = StateStarted"
  using assms by (auto simp: managed_running_def table_ok_def split: option.splits)

lemma LoadPlugin_protocol:
  assumes "protocol_ok pc s"
  shows "protocol_ok pc (snd (LoadPlugin (traced pc) path s))"
proof -
  obtain m w t where s: "s = (m, (w, t))" by (cases s) auto
  obtain r w1 where o: "pc_Open pc path w = (r, w1)" by fastforce
  then have o': "pc_Open (traced pc) path (w, t) = (r, (w1, t))" by (simp add: traced_def)
  show ?thesis
  proof (cases r)
    case (Opened p)
    let ?k = "pf_Key (pc_Info pc p)"
    let ?h = "\<lparr>mp_Info = pc_Info pc p, mp_Plugin = p, mp_State = StateLoaded, mp_Path = path,
               mp_Error = None, mp_Config = None\<rparr>"
    let ?m = "m\<lparr>mg_heap := mg_heap m @ [?h], mg_plugins := (mg_plugins m)(?k \<mapsto> length (mg_heap m))\<rparr>"
    show ?thesis
    proof (cases "mg_plugins m ?k")
      case None
      have "managed_running pc ?m q = managed_running pc m q" for q
        using None assms by (auto simp: s managed_running_def protocol_ok_def table_ok_def nth_append split: option.splits)
      moreover have "table_ok pc ?m" using assms by (auto simp: s protocol_ok_def table_ok_def nth_append intro: less_SucI)
      ultimately show ?thesis using assms None Opened o' by (simp add: s LoadPlugin_def protocol_ok_def Let_def)
    qed (use assms Opened o' in \<open>simp add: s LoadPlugin_def protocol_ok_def Let_def\<close>)
  qed (use assms o' in \<open>simp_all add: s LoadPlugin_def protocol_ok_def\<close>)
qed

lemma load_entries_protocol: "protocol_ok pc s \<Longrightarrow> protocol_ok pc (load_entries (traced pc) es s)"
  by (induction es arbitrary: s) (simp_all add: LoadPlugin_protocol)

lemma StartPlugin_protocol:
  assumes "protocol_ok pc s"
  shows "protocol_ok pc (snd (StartPlugin (traced pc) key config s))"
proof -
  obtain m w t where s: "s = (m, (w, t))" by (cases s) auto
  show ?thesis
  proof (cases "mg_plugins m key")
    case (Some a)
    let ?p = "mp_Plugin (mg_heap m ! a)"
    have tab: "table_ok pc m" using assms by (simp add: s protocol_ok_def)
    have ph: "phase_of q t = Some (if managed_running pc m q then Running else Idle)" for q
      using assms by (simp add: s protocol_ok_def)
    note upd = set_managed_running [OF tab Some] and at = running_at [OF tab Some]
    show ?thesis
    proof (cases "mp_State (mg_heap m ! a) = StateStarted")
      case False
      then have idle: "phase_of ?p t = Some Idle" using ph at by simp
      show ?thesis
        using False idle at ph
        by (auto simp: s Some StartPlugin_def and_then_def lookup_plugin_def start_managed_def logged_def Let_def
              protocol_ok_def set_error_def phase_of_snoc phase_of_snoc2 upd split: prod.splits option.splits)
    qed (use assms in \<open>simp add: s Some StartPlugin_def and_then_def lookup_plugin_def start_managed_def\<close>)
  qed (use assms in \<open>simp add: s StartPlugin_def and_then_def lookup_plugin_def\<close>)
qed

lemma StopPlugin_protocol:
  assumes "protocol_ok pc s"
  shows "protocol_ok pc (snd (StopPlugin (traced pc) key s))"
proof -
  obtain m w t where s: "s = (m, (w, t))" by (cases s) auto
  show ?thesis
  proof (cases "mg_plugins m key")
    case (Some a)
    have tab: "table_ok pc m" using assms by (simp add: s protocol_ok_def)
    have ph: "phase_of q t = Some (if managed_running pc m q then Running else Idle)" for q
      using assms by (simp add: s protocol_ok_def)
    note upd = set_managed_running [OF tab Some] and at = running_at [OF tab Some]
    show ?thesis using ph at assms
      by (auto simp: s Some StopPlugin_def and_then_def lookup_plugin_def stop_managed_def logged_def
            protocol_ok_def set_error_def phase_of_snoc phase_of_snoc2 upd split: prod.splits option.splits)
  qed (use assms in \<open>simp add: s StopPlugin_def and_then_def lookup_plugin_def\<close>)
qed

text \<open>Taking a plugin off the table after it was told to stop.\<close>

lemma unload_protocol:
  assumes "protocol_ok pc (m, w, t)" "mg_plugins m key = Some a"
  shows "protocol_ok pc (m\<lparr>mg_plugins := (mg_plugins m)(key := None)\<rparr>, quit_managed (traced pc) (mg_heap m ! a) (w, t))"
proof -
  let ?m = "m\<lparr>mg_plugins := (mg_plugins m)(key := None)\<rparr>" and ?p = "mp_Plugin (mg_heap m ! a)"
  have tab: "table_ok pc m" using assms by (simp add: protocol_ok_def)
  then have k: "pf_Key (pc_Info pc ?p) = key" using assms(2) by (simp add: table_ok_def)
  have ph: "phase_of q t = Some (if managed_running pc m q then Running else Idle)" for q
    using assms by (simp add: protocol_ok_def)
  have run: "managed_running pc ?m q \<longleftrightarrow> q \<noteq> ?p \<and> managed_running pc m q" for q
  proof (cases "pf_Key (pc_Info pc q) = key")
    case True
    then show ?thesis using assms(2) by (auto simp: managed_running_def)
  next
    case False
    then show ?thesis using k
      by (cases "mg_plugins m (pf_Key (pc_Info pc q))") (auto simp: managed_running_def)
  qed
  have "table_ok pc ?m" using tab unfolding table_ok_def by (simp split: if_splits)
  moreover have "phase_of q (snd (quit_managed (traced pc) (mg_heap m ! a) (w, t))) =
      Some (if managed_running pc ?m q then Running else Idle)" for q
    using ph [of q] running_at [OF tab assms(2)] run [of q]
    by (auto simp: quit_managed_def logged_def phase_of_snoc split: prod.splits)
  ultimately show ?thesis by (simp add: protocol_ok_def)
qed

lemma mgr_step_protocol: "protocol_ok pc s \<Longrightarrow> protocol_ok pc (mgr_step (traced pc) op s)"
proof (cases op)
  case (OpLoadAll made es)
  then show "protocol_ok pc s \<Longrightarrow> ?thesis"
    by (auto simp: LoadAll_def split: option.splits intro: load_entries_protocol)
next
  case (OpUnload key)
  assume "protocol_ok pc s"
  then show ?thesis using OpUnload unload_protocol [of pc "fst s" "fst (snd s)" "snd (snd s)" key]
    by (cases s) (auto simp: UnloadPlugin_def split: option.splits)
qed (auto intro: LoadPlugin_protocol StartPlugin_protocol StopPlugin_protocol)

lemma mgr_run_protocol:
  "protocol_ok pc s \<Longrightarrow> protocol_ok pc (fold (mgr_step (traced pc)) ops s)"
  by (induction ops arbitrary: s) (simp_all add: mgr_step_protocol)

lemma NewManager_protocol: "protocol_ok pc (NewManager dir, w, [])"
  by (simp add: protocol_ok_def table_ok_def managed_running_def NewManager_def)

text \<open>\<open>Shutdown\<close> stops what is left in the table.\<close>

lemma quit_all_protocol:
  assumes "protocol_ok pc (m, wt)" "distinct ks" "set ks \<subseteq> dom (mg_plugins m)"
  shows "protocol_ok pc (m\<lparr>mg_plugins := mg_plugins m |` (- set ks)\<rparr>,
           fold (\<lambda>k. quit_managed (traced pc) (managed_at m k)) ks wt)"
  using assms
proof (induction ks arbitrary: m wt)
  case (Cons k ks)
  let ?m = "m\<lparr>mg_plugins := (mg_plugins m)(k := None)\<rparr>"
  obtain a where a: "mg_plugins m k = Some a" using Cons.prems(3) by auto
  let ?w = "quit_managed (traced pc) (managed_at m k) wt"
  have "protocol_ok pc (?m, ?w)"
    using unload_protocol [OF _ a, of pc "fst wt" "snd wt"] Cons.prems(1) a by (simp add: managed_at_def)
  then have "protocol_ok pc (?m\<lparr>mg_plugins := mg_plugins ?m |` (- set ks)\<rparr>,
      fold (\<lambda>k. quit_managed (traced pc) (managed_at ?m k)) ks ?w)"
    using Cons.prems(2, 3) by (intro Cons.IH) auto
  moreover have "managed_at ?m k' = managed_at m k'" if "k' \<in> set ks" for k'
    using that Cons.prems(2) by (auto simp: managed_at_def)
  then have "fold (\<lambda>k. quit_managed (traced pc) (managed_at ?m k)) ks ?w =
      fold (\<lambda>k. quit_managed (traced pc) (managed_at m k)) ks ?w"
    by (intro fold_cong) auto
  moreover have "mg_plugins ?m |` (- set ks) = mg_plugins m |` (- set (k # ks))"
    by (auto simp: restrict_map_def)
  ultimately show ?case by simp
qed (simp add: restrict_map_def)

text \<open>
  C15. Whatever plugins are loaded, started, stopped and unloaded, in any order and whatever they
  answer, each plugin is called in the order its interface asks for (started only after it was
  initialised, stopped only while it runs, never initialised while it runs), and it is running
  exactly if the manager has it as started. (A failed call counts as not running.)
\<close>

theorem plugin_calls_in_order:
  "phase_of p (snd (snd (fold (mgr_step (traced pc)) ops (NewManager dir, w, [])))) =
     Some (if managed_running pc (fst (fold (mgr_step (traced pc)) ops (NewManager dir, w, []))) p
           then Running else Idle)"
  using mgr_run_protocol [OF NewManager_protocol, of pc ops dir w] by (simp add: protocol_ok_def)

lemma load_entries_open: "mg_events_closed (fst (load_entries pc es s)) = mg_events_closed (fst s)"
proof (induction es arbitrary: s)
  case (Cons e es)
  have "mg_events_closed (fst (snd (LoadPlugin pc path s))) = mg_events_closed (fst s)" for path
    by (cases s) (auto simp: LoadPlugin_def Let_def split: prod.splits opened.splits)
  then show ?case using Cons by simp
qed simp

lemma mgr_step_open: "mg_events_closed (fst (mgr_step pc op s)) = mg_events_closed (fst s)"
proof (cases op)
  case (OpLoadAll made es)
  then show ?thesis by (auto simp: LoadAll_def load_entries_open split: option.splits)
qed (cases s; auto simp: LoadPlugin_def StartPlugin_def StopPlugin_def UnloadPlugin_def lookup_plugin_def
       start_managed_def stop_managed_def set_error_def and_then_def Let_def
       split: prod.splits opened.splits option.splits)+

lemma mgr_run_open: "mg_events_closed (fst (fold (mgr_step pc) ops s)) = mg_events_closed (fst s)"
  by (induction ops arbitrary: s) (simp_all add: mgr_step_open)

text \<open>A plugin that accepts every call, and one that refuses to stop.\<close>

definition demo_info :: PluginInfo where
  "demo_info = \<lparr>pf_Key = ''hello'', pf_Name = ''Hello'', pf_Description = [], pf_Version = ''1.0'',
                pf_Author = [], pf_Type = ''SERVICE''\<rparr>"

definition demo_code :: "string option \<Rightarrow> (unit, unit, unit, string, unit) plugin_code" where
  "demo_code stop_answer =
     \<lparr>pc_Open = (\<lambda>path w. (Opened (), w)), pc_Info = (\<lambda>p. demo_info), pc_Init = (\<lambda>p config w. (None, w)),
      pc_Start = (\<lambda>p w. (None, w)), pc_Stop = (\<lambda>p w. (stop_answer, w)), pc_Routes = (\<lambda>p w. Some [''/hello'']),
      pc_Middleware = (\<lambda>p. False), pc_Events = (\<lambda>p w. Some [''*''])\<rparr>"

lemma demo_code_simps [simp]:
  "pc_Open (demo_code a) path w = (Opened (), w)" "pc_Info (demo_code a) p = demo_info"
  "pc_Init (demo_code a) p config w = (None, w)" "pc_Start (demo_code a) p w = (None, w)"
  "pc_Stop (demo_code a) p w = (a, w)" "pf_Key demo_info = ''hello''"
  by (simp_all add: demo_code_def demo_info_def)

lemmas mgr_defs = LoadPlugin_def StartPlugin_def StopPlugin_def UnloadPlugin_def lookup_plugin_def start_managed_def
  stop_managed_def quit_managed_def set_error_def set_managed_def NewManager_def managed_at_def Let_def

text \<open>
  Shutting down after any such run succeeds, and leaves no plugin running and an empty table, in
  whichever order the table is visited.
\<close>

theorem shutdown_stops_all_plugins:
  assumes "s = fold (mgr_step (traced pc)) ops (NewManager dir, w, [])"
    "distinct ord" "set ord = dom (mg_plugins (fst s))"
  shows "\<exists>s'. Shutdown (traced pc) ord s = Some s' \<and> mg_plugins (fst s') = Map.empty
    \<and> (\<forall>p. phase_of p (snd (snd s')) = Some Idle)"
proof -
  obtain m wt where s: "s = (m, wt)" by (cases s)
  let ?wt = "fold (\<lambda>k. quit_managed (traced pc) (managed_at m k)) ord wt"
  have "protocol_ok pc s" using mgr_run_protocol [OF NewManager_protocol] assms(1) by simp
  then have "protocol_ok pc (m\<lparr>mg_plugins := mg_plugins m |` (- set ord)\<rparr>, ?wt)"
    using assms(2, 3) by (intro quit_all_protocol) (auto simp: s)
  moreover have "mg_plugins m |` (- set ord) = Map.empty"
    using assms(3) by (auto simp: s restrict_map_def)
  moreover have "\<not> mg_events_closed m"
    using mgr_run_open [of "traced pc" ops "(NewManager dir, w, [])"]
    unfolding assms(1) [symmetric] s by (simp add: NewManager_def)
  ultimately show ?thesis by (simp add: s Shutdown_def Let_def protocol_ok_def managed_running_def)
qed

theorem shutdown_stops_all_plugins_witness:
  "\<exists>s'. Shutdown (traced (demo_code None)) [''hello'']
      (fold (mgr_step (traced (demo_code None))) [OpLoad ''/p/hello.so'', OpStart ''hello'' None] (NewManager ''/p'', (), []))
        = Some s' \<and> mg_plugins (fst s') = Map.empty \<and> (\<forall>p. phase_of p (snd (snd s')) = Some Idle)"
  by (rule shutdown_stops_all_plugins [OF refl])
     (auto simp: mgr_defs traced_def logged_def and_then_def split: if_splits)

text \<open>
  A plugin whose \<^verbatim>\<open>Stop\<close> failed is never asked to stop again: another \<open>StopPlugin\<close> reports success
  without calling it, unloading and shutting down do not call it either, although nothing says it
  stopped.
\<close>

theorem failed_stop_is_forgotten:
  assumes "mg_plugins m key = Some a" "a < length (mg_heap m)" "mp_State (mg_heap m ! a) = StateStarted"
    and "StopPlugin pc key (m, w) = (Inl (ErrStop e), s1)"
  shows "StopPlugin pc key s1 = (Inr (), s1)
    \<and> snd (snd (UnloadPlugin pc key s1)) = snd s1
    \<and> (\<not> mg_events_closed m \<longrightarrow> map_option snd (Shutdown pc [key] s1) = Some (snd s1))"
proof -
  obtain w1 where "pc_Stop pc (mp_Plugin (mg_heap m ! a)) w = (Some e, w1)" and s1: "s1 = (set_error a e m, w1)"
    using assms by (auto simp: StopPlugin_def lookup_plugin_def stop_managed_def and_then_def
        split: prod.splits option.splits)
  then show ?thesis using assms(1, 2)
    by (auto simp: s1 mgr_defs and_then_def Shutdown_def)
qed

theorem failed_stop_is_forgotten_witness:
  "\<exists>s1. StopPlugin (demo_code (Some ''busy'')) ''hello'' s1 = (Inr (), s1)
    \<and> mp_State (managed_at (fst s1) ''hello'') = StateError"
proof -
  let ?c = "demo_code (Some ''busy'')"
  let ?s = "fold (mgr_step ?c) [OpLoad ''/p/hello.so'', OpStart ''hello'' None] (NewManager ''/p'', ())"
  let ?s1 = "snd (StopPlugin ?c ''hello'' ?s)"
  have "StopPlugin ?c ''hello'' (fst ?s, ()) = (Inl (ErrStop ''busy''), ?s1)"
    by (simp add: mgr_defs and_then_def)
  from failed_stop_is_forgotten [OF _ _ _ this, of 0]
  have "StopPlugin ?c ''hello'' ?s1 = (Inr (), ?s1)" by (simp add: mgr_defs and_then_def)
  then show ?thesis by (intro exI [of _ ?s1]) (simp add: mgr_defs and_then_def)
qed

text \<open>
  Unloading a plugin between the two halves of \<open>StartPlugin\<close>, which releases the lock in between,
  leaves a plugin that runs and is not in the table: no shutdown stops it.
\<close>

theorem unload_during_start_leaks:
  assumes "mg_plugins m key = Some a" "mp_State (mg_heap m ! a) = StateLoaded"
    "phase_of (mp_Plugin (mg_heap m ! a)) t = Some Idle" "\<not> mg_events_closed m"
    "pc_Init pc (mp_Plugin (mg_heap m ! a)) config w = (None, w1)"
    "pc_Start pc (mp_Plugin (mg_heap m ! a)) w1 = (None, w2)"
    "dom (mg_plugins m) = {key}"
  shows "\<exists>s1 s2 s3.
      lookup_plugin key (m, w, t) = (Inr a, (m, w, t))
    \<and> UnloadPlugin (traced pc) key (m, w, t) = (Inr (), s1)
    \<and> start_managed (traced pc) config a s1 = (Inr (), s2)
    \<and> Shutdown (traced pc) [] s2 = Some s3 \<and> dom (mg_plugins (fst s2)) = {}
    \<and> phase_of (mp_Plugin (mg_heap m ! a)) (snd (snd s3)) = Some Running"
proof -
  let ?p = "mp_Plugin (mg_heap m ! a)"
  let ?m1 = "m\<lparr>mg_plugins := (mg_plugins m)(key := None)\<rparr>"
  let ?m2 = "set_managed a (\<lambda>p. p\<lparr>mp_State := StateStarted, mp_Config := config\<rparr>) ?m1"
  let ?t = "t @ [CallInit ?p True, CallStart ?p True]"
  have "UnloadPlugin (traced pc) key (m, w, t) = (Inr (), (?m1, w, t))"
    using assms(1, 2) by (simp add: UnloadPlugin_def quit_managed_def)
  moreover have "start_managed (traced pc) config a (?m1, w, t) = (Inr (), (?m2, w2, ?t))"
    using assms(2, 5, 6) by (simp add: start_managed_def logged_def Let_def)
  moreover have "Shutdown (traced pc) [] (?m2, w2, ?t) =
      Some (?m2\<lparr>mg_plugins := Map.empty, mg_events_closed := True\<rparr>, w2, ?t)"
    using assms(4) by (simp add: Shutdown_def set_managed_def)
  moreover have "dom (mg_plugins (fst (?m2, w2, ?t))) = {}" using assms(7) by auto
  moreover have "phase_of ?p (snd (snd (?m2\<lparr>mg_plugins := Map.empty, mg_events_closed := True\<rparr>, w2, ?t))) = Some Running"
    using assms(3) by (simp add: phase_of_snoc phase_of_snoc2)
  moreover have "lookup_plugin key (m, w, t) = (Inr a, (m, w, t))" using assms(1) by (simp add: lookup_plugin_def)
  ultimately show ?thesis by blast
qed

theorem unload_during_start_leaks_witness:
  "\<exists>s1 s2 s3.
      UnloadPlugin (traced (demo_code None)) ''hello''
        (snd (LoadPlugin (traced (demo_code None)) ''/p/hello.so'' (NewManager ''/p'', (), []))) = (Inr (), s1)
    \<and> start_managed (traced (demo_code None)) None 0 s1 = (Inr (), s2)
    \<and> Shutdown (traced (demo_code None)) [] s2 = Some s3
    \<and> phase_of () (snd (snd s3)) = Some Running"
proof -
  let ?s = "snd (LoadPlugin (traced (demo_code None)) ''/p/hello.so'' (NewManager ''/p'', (), []))"
  have s: "?s = (fst ?s, (), [])" by (simp add: mgr_defs traced_def)
  show ?thesis
    using unload_during_start_leaks [of "fst ?s" "''hello''" 0 "[]" "demo_code None" None "()" "()" "()"] s
    by (auto simp: mgr_defs traced_def)
qed

end
