(* ===== verification/Sql_Client.thy ===== *)
theory Sql_Client
  imports Job_Model
begin

text \<open>
  The SQL databases and their object mapper GORM are not part of the repository. The data
  access objects take them as an argument: for each table a function that executes one
  statement at an instant on an opaque database state. What the code relies on, the
  documented effect of the statements it builds, is the locale \<open>sql_table\<close>, over a view of
  the table as the list of its rows in the order of their primary keys, soft-deleted rows
  included. How a Go entity is a table (primary key, columns, unique indexes, sizes,
  timestamps, default values) is a \<open>schema\<close>, which the theories of the entities read off
  the struct tags. Strings are compared byte by byte.

  An executable table in memory that satisfies the laws, for every schema, closes the theory.
\<close>

subsection \<open>Statements\<close>

datatype sqlval = VNull | VInt int | VStr string | VBool bool | VTime time

text \<open>The order of numbers and timestamps. That of strings depends on the collation of the
  database; nothing is said about it.\<close>

fun sql_rank :: "sqlval \<Rightarrow> int" where
  "sql_rank (VInt x) = x"
| "sql_rank (VTime t) = t"
| "sql_rank _ = 0"

fun sql_less :: "sqlval \<Rightarrow> sqlval \<Rightarrow> bool" where
  "sql_less (VInt x) (VInt y) = (x < y)"
| "sql_less (VTime x) (VTime y) = (x < y)"
| "sql_less _ _ = False"

datatype cond =
    CTrue | CEq string sqlval | CIn string "sqlval list" | CLt string sqlval | CAnd cond cond | COr cond cond

datatype ordering = Unordered | Asc string | Desc string

text \<open>\<open>FIRST\<close> is \<^verbatim>\<open>First\<close> (by primary key, one row); the last argument of \<open>FIND\<close> is the offset and
  the limit; \<open>UPDATE\<close> assigns columns; \<open>DELETE\<close> is a soft delete, as for every entity with a
  \<^verbatim>\<open>DeletedAt\<close> field.\<close>

datatype 'r stmt =
    CREATE 'r | FIRST cond | FIND cond ordering "(int \<times> int) option" | COUNT cond
  | SAVE 'r | UPDATE cond "(string \<times> sqlval) list" | DELETE cond

datatype 'r answer = ARow 'r | ARows "'r list" | ATotal int | ADone | ANotFound | AErr

type_synonym ('s, 'r) table = "time \<Rightarrow> 'r stmt \<Rightarrow> 's \<Rightarrow> 'r answer \<times> 's"

subsection \<open>Schemas\<close>

record 'r schema =
  sc_id :: "'r \<Rightarrow> int"
  sc_col :: "string \<Rightarrow> 'r \<Rightarrow> sqlval"
  sc_set :: "string \<Rightarrow> sqlval \<Rightarrow> 'r \<Rightarrow> 'r"
  sc_deleted :: "'r \<Rightarrow> time option"
  sc_delete :: "time \<Rightarrow> 'r \<Rightarrow> 'r"
  sc_create :: "time \<Rightarrow> int \<Rightarrow> 'r \<Rightarrow> 'r"
  sc_touch :: "time \<Rightarrow> 'r \<Rightarrow> 'r"
  sc_unique :: "string list"
  sc_fits :: "'r \<Rightarrow> bool"

fun holds :: "'r schema \<Rightarrow> cond \<Rightarrow> 'r \<Rightarrow> bool" where
  "holds sc CTrue r = True"
| "holds sc (CEq f v) r = (sc_col sc f r = v)"
| "holds sc (CIn f vs) r = (sc_col sc f r \<in> set vs)"
| "holds sc (CLt f v) r = sql_less (sc_col sc f r) v"
| "holds sc (CAnd c d) r = (holds sc c r \<and> holds sc d r)"
| "holds sc (COr c d) r = (holds sc c r \<or> holds sc d r)"

text \<open>The rows a statement with the condition \<open>c\<close> sees.\<close>

definition sees :: "'r schema \<Rightarrow> cond \<Rightarrow> 'r \<Rightarrow> bool" where
  "sees sc c r \<longleftrightarrow> sc_deleted sc r = None \<and> holds sc c r"

definition clash :: "'r schema \<Rightarrow> 'r list \<Rightarrow> 'r \<Rightarrow> bool" where
  "clash sc rows r = list_ex (\<lambda>r'. list_ex (\<lambda>f. sc_col sc f r' = sc_col sc f r) (sc_unique sc)) rows"

definition others :: "'r schema \<Rightarrow> int \<Rightarrow> 'r list \<Rightarrow> 'r list" where
  "others sc i rows = filter (\<lambda>r. sc_id sc r \<noteq> i) rows"

text \<open>A row before another in the order of a query.\<close>

fun precedes :: "'r schema \<Rightarrow> ordering \<Rightarrow> 'r \<Rightarrow> 'r \<Rightarrow> bool" where
  "precedes sc Unordered a b = True"
| "precedes sc (Asc f) a b = (sql_rank (sc_col sc f a) \<le> sql_rank (sc_col sc f b))"
| "precedes sc (Desc f) a b = (sql_rank (sc_col sc f b) \<le> sql_rank (sc_col sc f a))"

text \<open>An offset that is not positive is left out of the statement.\<close>

definition page_rows :: "(int \<times> int) option \<Rightarrow> 'r list \<Rightarrow> 'r list" where
  "page_rows p xs = (case p of None \<Rightarrow> xs | Some (off, n) \<Rightarrow> take (nat n) (drop (nat off) xs))"

definition page_ok :: "(int \<times> int) option \<Rightarrow> bool" where
  "page_ok p = (case p of None \<Rightarrow> True | Some (off, n) \<Rightarrow> 0 \<le> n)"

text \<open>The unique indexes, and the primary keys in increasing order.\<close>

definition indexed :: "'r schema \<Rightarrow> 'r list \<Rightarrow> bool" where
  "indexed sc rows \<longleftrightarrow>
     sorted_wrt (<) (map (sc_id sc) rows) \<and> list_all (\<lambda>r. 0 < sc_id sc r) rows
     \<and> list_all (\<lambda>f. distinct (map (sc_col sc f) rows)) (sc_unique sc)"

text \<open>A column that \<open>Update\<close> may set: not the key, not under a unique index.\<close>

definition plain_col :: "'r schema \<Rightarrow> string \<Rightarrow> bool" where
  "plain_col sc f \<longleftrightarrow> f \<noteq> ''id'' \<and> f \<notin> set (sc_unique sc)"

text \<open>The row after an \<open>UPDATE\<close>.\<close>

definition assign :: "'r schema \<Rightarrow> time \<Rightarrow> (string \<times> sqlval) list \<Rightarrow> 'r \<Rightarrow> 'r" where
  "assign sc now upd r = sc_touch sc now (fold (\<lambda>(f, v). sc_set sc f v) upd r)"

text \<open>What the tables need of a schema: the statements keep primary keys and the columns under a
  unique index, and a created row is not deleted.\<close>

locale sql_schema =
  fixes sc :: "'r schema"
  assumes id_col: "sc_col sc ''id'' r = VInt (sc_id sc r)"
    and id_create: "sc_id sc (sc_create sc now i r) = i"
    and id_set: "plain_col sc f \<Longrightarrow> sc_id sc (sc_set sc f v r) = sc_id sc r"
    and id_delete: "sc_id sc (sc_delete sc now r) = sc_id sc r"
    and id_touch: "sc_id sc (sc_touch sc now r) = sc_id sc r"
    and key_create: "g \<in> set (sc_unique sc) \<Longrightarrow> sc_col sc g (sc_create sc now i r) = sc_col sc g r"
    and key_set: "plain_col sc f \<Longrightarrow> g \<in> set (sc_unique sc) \<Longrightarrow> sc_col sc g (sc_set sc f v r) = sc_col sc g r"
    and key_delete: "g \<in> set (sc_unique sc) \<Longrightarrow> sc_col sc g (sc_delete sc now r) = sc_col sc g r"
    and key_touch: "g \<in> set (sc_unique sc) \<Longrightarrow> sc_col sc g (sc_touch sc now r) = sc_col sc g r"

subsection \<open>The laws\<close>

locale sql_table = sql_schema sc
  for sc :: "'r schema" +
  fixes db :: "('s, 'r) table" and view :: "'s \<Rightarrow> 'r list" and up :: "'s \<Rightarrow> bool"
    and refs :: "'s \<Rightarrow> 'r \<Rightarrow> bool"
  assumes stays_up: "up s \<Longrightarrow> up (snd (db now q s))"
    and view_indexed: "up s \<Longrightarrow> indexed sc (view s)"
    and FIRST_reply: "up s \<Longrightarrow>
      fst (db now (FIRST c) s) =
        (case filter (sees sc c) (view s) of [] \<Rightarrow> ANotFound | r # _ \<Rightarrow> ARow r)"
    and FIRST_view: "up s \<Longrightarrow> view (snd (db now (FIRST c) s)) = view s"
    and FIND_reply: "up s \<Longrightarrow> page_ok p \<Longrightarrow>
      \<exists>rows. fst (db now (FIND c ord p) s) = ARows (page_rows p rows)
        \<and> mset rows = mset (filter (sees sc c) (view s)) \<and> sorted_wrt (precedes sc ord) rows"
    and FIND_view: "up s \<Longrightarrow> view (snd (db now (FIND c ord p) s)) = view s"
    and COUNT_reply: "up s \<Longrightarrow>
      fst (db now (COUNT c) s) = ATotal (int (length (filter (sees sc c) (view s))))"
    and COUNT_view: "up s \<Longrightarrow> view (snd (db now (COUNT c) s)) = view s"
    and CREATE_ok: "up s \<Longrightarrow> sc_id sc r = 0 \<Longrightarrow> sc_deleted sc r = None \<Longrightarrow>
      sc_fits sc r \<Longrightarrow> refs s r \<Longrightarrow> \<not> clash sc (view s) r \<Longrightarrow>
      \<exists>i > 0. list_all (\<lambda>r'. sc_id sc r' < i) (view s)
        \<and> fst (db now (CREATE r) s) = ARow (sc_create sc now i r)
        \<and> view (snd (db now (CREATE r) s)) = view s @ [sc_create sc now i r]"
    and CREATE_err: "up s \<Longrightarrow> sc_id sc r = 0 \<Longrightarrow> sc_deleted sc r = None \<Longrightarrow>
      \<not> sc_fits sc r \<or> \<not> refs s r \<or> clash sc (view s) r \<Longrightarrow>
      fst (db now (CREATE r) s) = AErr \<and> view (snd (db now (CREATE r) s)) = view s"
    and SAVE_ok: "up s \<Longrightarrow> sees sc (CEq ''id'' (VInt (sc_id sc r))) r0 \<Longrightarrow> r0 \<in> set (view s) \<Longrightarrow>
      sc_fits sc r \<Longrightarrow> \<not> clash sc (others sc (sc_id sc r) (view s)) r \<Longrightarrow>
      fst (db now (SAVE r) s) = ADone
        \<and> view (snd (db now (SAVE r) s)) =
            map (\<lambda>r'. if sc_id sc r' = sc_id sc r then sc_touch sc now r else r') (view s)"
    and SAVE_err: "up s \<Longrightarrow> sees sc (CEq ''id'' (VInt (sc_id sc r))) r0 \<Longrightarrow> r0 \<in> set (view s) \<Longrightarrow>
      \<not> sc_fits sc r \<or> clash sc (others sc (sc_id sc r) (view s)) r \<Longrightarrow>
      fst (db now (SAVE r) s) = AErr \<and> view (snd (db now (SAVE r) s)) = view s"
    and UPDATE_law: "up s \<Longrightarrow> list_all (\<lambda>(f, v). plain_col sc f) upd \<Longrightarrow>
      fst (db now (UPDATE c upd) s) = ADone
        \<and> view (snd (db now (UPDATE c upd) s)) =
            map (\<lambda>r. if sees sc c r then assign sc now upd r else r) (view s)"
    and DELETE_law: "up s \<Longrightarrow>
      fst (db now (DELETE c) s) = ADone
        \<and> view (snd (db now (DELETE c) s)) =
            map (\<lambda>r. if sees sc c r then sc_delete sc now r else r) (view s)"

subsection \<open>A table in memory\<close>

text \<open>The table is a component of a larger state, read by \<open>get\<close> and written by \<open>put\<close>.\<close>

fun ins_row :: "('r \<Rightarrow> 'r \<Rightarrow> bool) \<Rightarrow> 'r \<Rightarrow> 'r list \<Rightarrow> 'r list" where
  "ins_row le x [] = [x]"
| "ins_row le x (y # ys) = (if le x y then x # y # ys else y # ins_row le x ys)"

definition next_id :: "'r schema \<Rightarrow> 'r list \<Rightarrow> int" where
  "next_id sc rows = fold max (map (sc_id sc) rows) 0 + 1"

fun mem_rows :: "'r schema \<Rightarrow> ('r \<Rightarrow> bool) \<Rightarrow> time \<Rightarrow> 'r stmt \<Rightarrow> 'r list \<Rightarrow> 'r answer \<times> 'r list" where
  "mem_rows sc ref now (CREATE r) rows =
     (if sc_id sc r = 0 \<and> sc_fits sc r \<and> ref r \<and> \<not> clash sc rows r
      then let r1 = sc_create sc now (next_id sc rows) r in (ARow r1, rows @ [r1])
      else (AErr, rows))"
| "mem_rows sc ref now (FIRST c) rows =
     ((case filter (sees sc c) rows of [] \<Rightarrow> ANotFound | r # _ \<Rightarrow> ARow r), rows)"
| "mem_rows sc ref now (FIND c ord p) rows =
     (ARows (page_rows p (foldr (ins_row (precedes sc ord)) (filter (sees sc c) rows) [])), rows)"
| "mem_rows sc ref now (COUNT c) rows = (ATotal (int (length (filter (sees sc c) rows))), rows)"
| "mem_rows sc ref now (SAVE r) rows =
     (if sc_fits sc r \<and> \<not> clash sc (others sc (sc_id sc r) rows) r
      then (ADone, map (\<lambda>r'. if sc_id sc r' = sc_id sc r then sc_touch sc now r else r') rows)
      else (AErr, rows))"
| "mem_rows sc ref now (UPDATE c upd) rows =
     (if list_all (\<lambda>(f, v). plain_col sc f) upd
      then (ADone, map (\<lambda>r. if sees sc c r then assign sc now upd r else r) rows) else (AErr, rows))"
| "mem_rows sc ref now (DELETE c) rows =
     (ADone, map (\<lambda>r. if sees sc c r then sc_delete sc now r else r) rows)"

definition mem_table ::
  "'r schema \<Rightarrow> ('s \<Rightarrow> 'r list) \<Rightarrow> ('r list \<Rightarrow> 's \<Rightarrow> 's) \<Rightarrow> ('s \<Rightarrow> 'r \<Rightarrow> bool) \<Rightarrow> ('s, 'r) table" where
  "mem_table sc get put ref now q s =
     (case mem_rows sc (ref s) now q (get s) of (a, rows) \<Rightarrow> (a, put rows s))"

lemma mset_ins_rows: "mset (foldr (ins_row le) xs ys) = mset xs + mset ys"
proof -
  have "mset (ins_row le x zs) = add_mset x (mset zs)" for x zs by (induction zs) auto
  then show ?thesis by (induction xs) auto
qed

lemma sorted_ins_rows:
  assumes "\<And>a b. le a b \<or> le b a" "\<And>a b c. le a b \<Longrightarrow> le b c \<Longrightarrow> le a c"
  shows "sorted_wrt le (foldr (ins_row le) xs [])"
proof -
  have s: "set (ins_row le x zs) = insert x (set zs)" for x zs by (induction zs) auto
  have i: "sorted_wrt le zs \<Longrightarrow> sorted_wrt le (ins_row le x zs)" for x zs
  proof (induction zs)
    case (Cons z zs)
    then show ?case using assms(1) [of x z] assms(2) [of x z] by (auto simp: s)
  qed simp
  show ?thesis by (induction xs) (auto intro: i)
qed

lemma next_id_above: "list_all (\<lambda>r. sc_id sc r < next_id sc rows) rows" "0 < next_id sc rows"
proof -
  have "a \<le> fold max xs a \<and> (\<forall>x \<in> set xs. x \<le> fold max xs a)" for xs :: "int list" and a
    by (induction xs arbitrary: a) (auto, (meson max.bounded_iff order_trans)+)
  from this [of 0 "map (sc_id sc) rows"]
  show "list_all (\<lambda>r. sc_id sc r < next_id sc rows) rows" "0 < next_id sc rows"
    by (auto simp: next_id_def list_all_iff)
qed

lemma clash_iff:
  "clash sc rows r \<longleftrightarrow> (\<exists>f \<in> set (sc_unique sc). sc_col sc f r \<in> sc_col sc f ` set rows)"
  unfolding clash_def list_ex_iff image_iff by (metis (no_types))

lemma indexed_map:
  assumes "indexed sc rows"
    "\<And>r. r \<in> set rows \<Longrightarrow> sc_id sc (g r) = sc_id sc r"
    "\<And>r f. r \<in> set rows \<Longrightarrow> f \<in> set (sc_unique sc) \<Longrightarrow> sc_col sc f (g r) = sc_col sc f r"
  shows "indexed sc (map g rows)"
proof -
  have "map (sc_id sc) (map g rows) = map (sc_id sc) rows" using assms(2) by simp
  moreover have "map (sc_col sc f) (map g rows) = map (sc_col sc f) rows" if "f \<in> set (sc_unique sc)" for f
    using assms(3) that by simp
  ultimately show ?thesis using assms(1, 2)
    unfolding indexed_def list_all_iff by (simp del: map_map)
qed

context sql_schema
begin

lemma assign_keeps:
  assumes "list_all (\<lambda>(f, v). plain_col sc f) upd"
  shows "sc_id sc (assign sc now upd r) = sc_id sc r"
    and "g \<in> set (sc_unique sc) \<Longrightarrow> sc_col sc g (assign sc now upd r) = sc_col sc g r"
proof -
  have "sc_id sc (fold (\<lambda>(f, v). sc_set sc f v) upd r) = sc_id sc r
      \<and> (g \<in> set (sc_unique sc) \<longrightarrow> sc_col sc g (fold (\<lambda>(f, v). sc_set sc f v) upd r) = sc_col sc g r)"
    using assms by (induction upd arbitrary: r) (auto simp: id_set key_set)
  then show "sc_id sc (assign sc now upd r) = sc_id sc r"
    and "g \<in> set (sc_unique sc) \<Longrightarrow> sc_col sc g (assign sc now upd r) = sc_col sc g r"
    by (auto simp: assign_def id_touch key_touch)
qed

lemma indexed_snoc:
  assumes "indexed sc rows" "\<not> clash sc rows r"
  shows "indexed sc (rows @ [sc_create sc now (next_id sc rows) r])"
proof -
  have "distinct (map (sc_col sc f) (rows @ [sc_create sc now (next_id sc rows) r]))"
    if "f \<in> set (sc_unique sc)" for f
    using that assms key_create [OF that] by (auto simp: indexed_def clash_iff list_all_iff)
  then show ?thesis using assms next_id_above [of sc rows]
    by (auto simp: indexed_def sorted_wrt_append id_create list_all_iff)
qed

lemma indexed_save:
  assumes "indexed sc rows" "\<not> clash sc (others sc (sc_id sc r) rows) r"
  shows "indexed sc (map (\<lambda>r'. if sc_id sc r' = sc_id sc r then sc_touch sc now r else r') rows)"
proof -
  let ?g = "\<lambda>r'. if sc_id sc r' = sc_id sc r then sc_touch sc now r else r'"
  have ids: "map (sc_id sc) (map ?g rows) = map (sc_id sc) rows" by (auto simp: id_touch)
  have "distinct (map (sc_col sc f) (map ?g rows))" if f: "f \<in> set (sc_unique sc)" for f
  proof -
    have d: "distinct (map (sc_col sc f) rows)" "distinct (map (sc_id sc) rows)"
      using assms(1) f by (auto simp: indexed_def list_all_iff strict_sorted_iff)
    have new: "sc_col sc f r \<noteq> sc_col sc f r'" if "r' \<in> set rows" "sc_id sc r' \<noteq> sc_id sc r" for r'
      using that f assms(2) by (auto simp: clash_iff others_def)
    have "inj_on (\<lambda>x. sc_col sc f (?g x)) (set rows)"
    proof (rule inj_onI)
      fix x y
      assume xy: "x \<in> set rows" "y \<in> set rows" "sc_col sc f (?g x) = sc_col sc f (?g y)"
      show "x = y"
      proof (cases "sc_id sc x = sc_id sc y")
        case True
        then show ?thesis using d(2) xy by (auto simp: distinct_map inj_on_def)
      next
        case False
        then show ?thesis using xy d(1) new [of x] new [of y]
          by (auto simp: key_touch [OF f] distinct_map inj_on_def split: if_splits)
      qed
    qed
    then show ?thesis using d by (simp add: distinct_map comp_def)
  qed
  then show ?thesis using assms(1) ids
    unfolding indexed_def list_all_iff by (auto simp: id_touch simp del: map_map)
qed

lemma mem_rows_indexed: "indexed sc rows \<Longrightarrow> indexed sc (snd (mem_rows sc ref now q rows))"
proof (cases q)
  case (CREATE r)
  then show "indexed sc rows \<Longrightarrow> ?thesis" by (auto simp: Let_def intro: indexed_snoc)
next
  case (SAVE r)
  then show "indexed sc rows \<Longrightarrow> ?thesis" using indexed_save [of rows r now] by simp
next
  case (UPDATE c upd)
  then show "indexed sc rows \<Longrightarrow> ?thesis" by (auto intro!: indexed_map simp: assign_keeps)
next
  case (DELETE c)
  then show "indexed sc rows \<Longrightarrow> ?thesis" by (auto intro!: indexed_map simp: id_delete key_delete)
qed simp_all

text \<open>For every schema the table in memory satisfies the laws.\<close>

lemma mem_table_laws:
  assumes "\<And>rows s. get (put rows s) = rows"
    and up: "\<And>s rows. up s \<Longrightarrow> indexed sc rows \<Longrightarrow> up (put rows s)" "\<And>s. up s \<Longrightarrow> indexed sc (get s)"
  shows "sql_table sc (mem_table sc get put ref) get up ref"
proof (unfold_locales, goal_cases)
  case (1 s now q)
  then show ?case using mem_rows_indexed [of "get s" "ref s" now q] up
    by (simp add: mem_table_def case_prod_beta)
next
  case (2 s)
  then show ?case by (rule up(2))
next
  case (5 s p now c ord)
  have "sorted_wrt (precedes sc ord) (foldr (ins_row (precedes sc ord)) (filter (sees sc c) (get s)) [])"
    by (rule sorted_ins_rows; cases ord) auto
  then show ?case
    by (intro exI [of _ "foldr (ins_row (precedes sc ord)) (filter (sees sc c) (get s)) []"])
       (simp add: mem_table_def mset_ins_rows)
next
  case (9 s r now)
  then show ?case using next_id_above [of sc "get s"] assms(1)
    by (auto simp: mem_table_def Let_def)
qed (auto simp: mem_table_def assms(1) split: list.splits)

end

end
