(* ===== verification/Gorm_Dao.thy ===== *)
theory Gorm_Dao
  imports Sql_Client
begin

text \<open>
  The generic data access object \<^verbatim>\<open>baseGormDAO\<close> of
  \<^verbatim>\<open>internal/domain/dao/impl/gorm/base_dao_impl.go\<close>, over any table, and what its operations
  return and change under the laws of \<open>sql_table\<close>; the page arithmetic of
  \<^verbatim>\<open>internal/domain/dao/base_dao.go\<close>; and the errors of the services above
  (\<^verbatim>\<open>internal/domain/service\<close>). A \<^verbatim>\<open>nil\<close> entity is \<open>None\<close>.
\<close>

datatype svc_error =
    DbError | HashError | SignError
  | ErrUserNotFound | ErrInvalidCredentials | ErrUserAlreadyExists | ErrInvalidToken | ErrUserInactive
  | ErrPluginNotFound | ErrPluginAlreadyExists | ErrPluginInvalidState | ErrPluginLoadFailed
  | ErrIO

type_synonym ('s, 'a) svc = "('s, svc_error, 'a) call"

subsection \<open>Operations\<close>

text \<open>\<^verbatim>\<open>Create\<close> fills in the entity behind its pointer: the result is the entity afterwards.\<close>

definition dao_Create :: "('s, 'r) table \<Rightarrow> time \<Rightarrow> 'r \<Rightarrow> ('s, 'r) svc" where
  "dao_Create db now r s =
     (case db now (CREATE r) s of (ARow r1, s1) \<Rightarrow> (Inr r1, s1) | (_, s1) \<Rightarrow> (Inl DbError, s1))"

definition first_by :: "('s, 'r) table \<Rightarrow> time \<Rightarrow> cond \<Rightarrow> ('s, 'r option) svc" where
  "first_by db now c s =
     (case db now (FIRST c) s of
        (ARow r, s1) \<Rightarrow> (Inr (Some r), s1)
      | (ANotFound, s1) \<Rightarrow> (Inr None, s1)
      | (_, s1) \<Rightarrow> (Inl DbError, s1))"

definition dao_FindByID :: "('s, 'r) table \<Rightarrow> time \<Rightarrow> int \<Rightarrow> ('s, 'r option) svc" where
  "dao_FindByID db now i = first_by db now (CEq ''id'' (VInt i))"

definition exec :: "('s, 'r) table \<Rightarrow> time \<Rightarrow> 'r stmt \<Rightarrow> ('s, unit) svc" where
  "exec db now q s = (case db now q s of (ADone, s1) \<Rightarrow> (Inr (), s1) | (_, s1) \<Rightarrow> (Inl DbError, s1))"

definition dao_Update :: "('s, 'r) table \<Rightarrow> time \<Rightarrow> 'r \<Rightarrow> ('s, unit) svc" where
  "dao_Update db now r = exec db now (SAVE r)"

definition dao_Delete :: "('s, 'r) table \<Rightarrow> time \<Rightarrow> int \<Rightarrow> ('s, unit) svc" where
  "dao_Delete db now i = exec db now (DELETE (CEq ''id'' (VInt i)))"

definition count_by :: "('s, 'r) table \<Rightarrow> time \<Rightarrow> cond \<Rightarrow> ('s, int) svc" where
  "count_by db now c s = (case db now (COUNT c) s of (ATotal n, s1) \<Rightarrow> (Inr n, s1) | (_, s1) \<Rightarrow> (Inl DbError, s1))"

definition find_rows ::
  "('s, 'r) table \<Rightarrow> time \<Rightarrow> cond \<Rightarrow> ordering \<Rightarrow> (int \<times> int) option \<Rightarrow> ('s, 'r list) svc" where
  "find_rows db now c ord p s =
     (case db now (FIND c ord p) s of (ARows rs, s1) \<Rightarrow> (Inr rs, s1) | (_, s1) \<Rightarrow> (Inl DbError, s1))"

text \<open>The offset of a page, in 64-bit arithmetic.\<close>

definition page_offset :: "int \<Rightarrow> int \<Rightarrow> int" where
  "page_offset page psize = wrap_int64 (wrap_int64 (page - 1) * psize)"

text \<open>\<^verbatim>\<open>FindAll\<close> of the generic object and of the entities differ in the order they ask for.\<close>

definition find_all :: "ordering \<Rightarrow> ('s, 'r) table \<Rightarrow> time \<Rightarrow> int \<Rightarrow> int \<Rightarrow> ('s, 'r list \<times> int) svc" where
  "find_all ord db now page psize =
     and_then (count_by db now CTrue) (\<lambda>total.
     and_then (find_rows db now CTrue ord (Some (page_offset page psize, psize))) (\<lambda>rows.
     ret (rows, total)))"

definition dao_FindAll :: "('s, 'r) table \<Rightarrow> time \<Rightarrow> int \<Rightarrow> int \<Rightarrow> ('s, 'r list \<times> int) svc" where
  "dao_FindAll = find_all Unordered"

definition dao_Count :: "('s, 'r) table \<Rightarrow> time \<Rightarrow> ('s, int) svc" where
  "dao_Count db now = count_by db now CTrue"

definition dao_ExistsBy :: "('s, 'r) table \<Rightarrow> time \<Rightarrow> string \<Rightarrow> sqlval \<Rightarrow> ('s, bool) svc" where
  "dao_ExistsBy db now f v = and_then (count_by db now (CEq f v)) (\<lambda>n. ret (n > 0))"

definition findByField :: "('s, 'r) table \<Rightarrow> time \<Rightarrow> string \<Rightarrow> sqlval \<Rightarrow> ('s, 'r option) svc" where
  "findByField db now f v = first_by db now (CEq f v)"

definition findAllByField :: "('s, 'r) table \<Rightarrow> time \<Rightarrow> string \<Rightarrow> sqlval \<Rightarrow> ('s, 'r list) svc" where
  "findAllByField db now f v = find_rows db now (CEq f v) Unordered None"

definition deleteByField :: "('s, 'r) table \<Rightarrow> time \<Rightarrow> string \<Rightarrow> sqlval \<Rightarrow> ('s, unit) svc" where
  "deleteByField db now f v = exec db now (DELETE (CEq f v))"

subsection \<open>What they do\<close>

text \<open>The first row a condition sees.\<close>

definition first_row :: "'r schema \<Rightarrow> cond \<Rightarrow> 'r list \<Rightarrow> 'r option" where
  "first_row sc c rows = List.find (sees sc c) rows"

lemma find_filter: "(case filter P xs of [] \<Rightarrow> None | x # _ \<Rightarrow> Some x) = List.find P xs"
  by (induction xs) auto

lemma find_append:
  "List.find P (xs @ ys) = (case List.find P xs of None \<Rightarrow> List.find P ys | Some x \<Rightarrow> Some x)"
  by (induction xs) auto

lemma find_unique:
  assumes "distinct (map f xs)" "x \<in> set xs" "P x" "\<And>y. y \<in> set xs \<Longrightarrow> P y \<Longrightarrow> f y = f x"
  shows "List.find P xs = Some x"
  using assms
proof (induction xs)
  case (Cons y ys)
  show ?case
  proof (cases "P y")
    case True
    then have "f y = f x" using Cons.prems(4) [of y] by simp
    then have "y = x" using Cons.prems(1, 2) by (metis distinct.simps(2) image_eqI list.set_map list.simps(9) set_ConsD)
    with True show ?thesis by simp
  next
    case False
    then have "x \<in> set ys" using Cons.prems(2, 3) by auto
    moreover have "distinct (map f ys)" using Cons.prems(1) by simp
    ultimately have "List.find P ys = Some x"
      using Cons.prems(3, 4) by (intro Cons.IH) (assumption | rule Cons.prems(4) | simp)+
    with False show ?thesis by simp
  qed
qed simp

text \<open>Each operation leaves the state its one statement leaves.\<close>

lemma snd_dao:
  "snd (first_by db now c s) = snd (db now (FIRST c) s)"
  "snd (count_by db now c s) = snd (db now (COUNT c) s)"
  "snd (find_rows db now c ord p s) = snd (db now (FIND c ord p) s)"
  "snd (exec db now q s) = snd (db now q s)"
  "snd (dao_Create db now r s) = snd (db now (CREATE r) s)"
  "snd (dao_ExistsBy db now f v s) = snd (db now (COUNT (CEq f v)) s)"
  by (auto simp: first_by_def count_by_def find_rows_def exec_def dao_Create_def dao_ExistsBy_def
        and_then_def ret_def split: prod.splits answer.splits sum.splits)

context sql_table
begin

lemma first_by_laws:
  "up s \<Longrightarrow> fst (first_by db now c s) = Inr (first_row sc c (view s))"
  "up s \<Longrightarrow> up (snd (first_by db now c s))"
  "up s \<Longrightarrow> view (snd (first_by db now c s)) = view s"
proof -
  assume a: "up s"
  show "fst (first_by db now c s) = Inr (first_row sc c (view s))"
    using FIRST_reply [OF a, of now c] find_filter [of "sees sc c" "view s"]
    by (cases "db now (FIRST c) s") (auto simp: first_by_def first_row_def split: list.splits answer.splits)
  show "up (snd (first_by db now c s))" "view (snd (first_by db now c s)) = view s"
    using stays_up [OF a, of now "FIRST c"] FIRST_view [OF a, of now c]
    by (auto simp: first_by_def split: prod.splits answer.splits)
qed

lemma count_by_laws:
  "up s \<Longrightarrow> fst (count_by db now c s) = Inr (int (length (filter (sees sc c) (view s))))"
  "up s \<Longrightarrow> up (snd (count_by db now c s))"
  "up s \<Longrightarrow> view (snd (count_by db now c s)) = view s"
proof -
  assume a: "up s"
  show "fst (count_by db now c s) = Inr (int (length (filter (sees sc c) (view s))))"
    using COUNT_reply [OF a, of now c] by (cases "db now (COUNT c) s") (auto simp: count_by_def)
  show "up (snd (count_by db now c s))" "view (snd (count_by db now c s)) = view s"
    using stays_up [OF a, of now "COUNT c"] COUNT_view [OF a, of now c]
    by (auto simp: count_by_def split: prod.splits answer.splits)
qed

lemma find_rows_laws:
  "up s \<Longrightarrow> page_ok p \<Longrightarrow>
     \<exists>rows. fst (find_rows db now c ord p s) = Inr (page_rows p rows)
       \<and> mset rows = mset (filter (sees sc c) (view s)) \<and> sorted_wrt (precedes sc ord) rows"
  "up s \<Longrightarrow> up (snd (find_rows db now c ord p s))"
  "up s \<Longrightarrow> view (snd (find_rows db now c ord p s)) = view s"
proof -
  assume a: "up s"
  show "page_ok p \<Longrightarrow> \<exists>rows. fst (find_rows db now c ord p s) = Inr (page_rows p rows)
       \<and> mset rows = mset (filter (sees sc c) (view s)) \<and> sorted_wrt (precedes sc ord) rows"
    using FIND_reply [OF a, of p now c ord]
    by (cases "db now (FIND c ord p) s") (auto simp: find_rows_def)
  show "up (snd (find_rows db now c ord p s))" "view (snd (find_rows db now c ord p s)) = view s"
    using stays_up [OF a, of now "FIND c ord p"] FIND_view [OF a, of now c ord p]
    by (auto simp: find_rows_def split: prod.splits answer.splits)
qed

lemma exec_up: "up s \<Longrightarrow> up (snd (exec db now q s))"
  using stays_up [of s now q] by (auto simp: exec_def split: prod.splits answer.splits)

lemma exec_view: "view (snd (exec db now q s)) = view (snd (db now q s))"
  by (auto simp: exec_def split: prod.splits answer.splits)

lemma exec_reply: "fst (exec db now q s) = (if fst (db now q s) = ADone then Inr () else Inl DbError)"
  by (auto simp: exec_def split: prod.splits answer.splits)

lemma delete_laws:
  "up s \<Longrightarrow> fst (exec db now (DELETE c) s) = Inr ()"
  "up s \<Longrightarrow> view (snd (exec db now (DELETE c) s)) =
     map (\<lambda>r. if sees sc c r then sc_delete sc now r else r) (view s)"
  using DELETE_law [of s now c] by (simp_all add: exec_reply exec_view)

lemma update_laws:
  "up s \<Longrightarrow> list_all (\<lambda>(f, v). plain_col sc f) upd \<Longrightarrow> fst (exec db now (UPDATE c upd) s) = Inr ()"
  "up s \<Longrightarrow> list_all (\<lambda>(f, v). plain_col sc f) upd \<Longrightarrow>
     view (snd (exec db now (UPDATE c upd) s)) =
       map (\<lambda>r. if sees sc c r then assign sc now upd r else r) (view s)"
  using UPDATE_law [of s upd now c] by (simp_all add: exec_reply exec_view)

lemma Create_up: "up s \<Longrightarrow> up (snd (dao_Create db now r s))"
  using stays_up [of s now "CREATE r"] by (auto simp: dao_Create_def split: prod.splits answer.splits)

lemma Create_ok:
  assumes "up s" "sc_id sc r = 0" "sc_deleted sc r = None" "sc_fits sc r" "refs s r" "\<not> clash sc (view s) r"
  shows "\<exists>i > 0. list_all (\<lambda>r'. sc_id sc r' < i) (view s)
    \<and> fst (dao_Create db now r s) = Inr (sc_create sc now i r)
    \<and> view (snd (dao_Create db now r s)) = view s @ [sc_create sc now i r]"
  using CREATE_ok [OF assms, of now]
  by (cases "db now (CREATE r) s") (auto simp: dao_Create_def split: answer.splits)

lemma Create_err:
  assumes "up s" "sc_id sc r = 0" "sc_deleted sc r = None"
    "\<not> sc_fits sc r \<or> \<not> refs s r \<or> clash sc (view s) r"
  shows "fst (dao_Create db now r s) = Inl DbError \<and> view (snd (dao_Create db now r s)) = view s"
  using CREATE_err [OF assms, of now]
  by (cases "db now (CREATE r) s") (auto simp: dao_Create_def split: answer.splits)

text \<open>Whatever happens, a created row is added at the end or nothing changes.\<close>

lemma Create_view:
  assumes "up s" "sc_id sc r = 0" "sc_deleted sc r = None"
  shows "(\<exists>i > 0. fst (dao_Create db now r s) = Inr (sc_create sc now i r)
              \<and> view (snd (dao_Create db now r s)) = view s @ [sc_create sc now i r])
       \<or> fst (dao_Create db now r s) = Inl DbError \<and> view (snd (dao_Create db now r s)) = view s"
  using Create_ok [OF assms, of now] Create_err [OF assms, of now] by blast

lemma Update_success:
  assumes "up s" "r0 \<in> set (view s)" "sc_id sc r0 = sc_id sc r" "sc_deleted sc r0 = None"
    "fst (dao_Update db now r s) = Inr ()"
  shows "view (snd (dao_Update db now r s)) =
    map (\<lambda>r'. if sc_id sc r' = sc_id sc r then sc_touch sc now r else r') (view s)"
proof -
  have v: "sees sc (CEq ''id'' (VInt (sc_id sc r))) r0" using assms(3, 4) by (simp add: sees_def id_col)
  have "fst (db now (SAVE r) s) = ADone" using assms(5) by (simp add: dao_Update_def exec_reply split: if_splits)
  then have "sc_fits sc r \<and> \<not> clash sc (others sc (sc_id sc r) (view s)) r"
    using SAVE_err [OF assms(1) v assms(2), of now] by auto
  then show ?thesis using SAVE_ok [OF assms(1) v assms(2), of now] by (simp add: dao_Update_def exec_view)
qed

lemma ExistsBy_laws:
  "up s \<Longrightarrow> fst (dao_ExistsBy db now f v s) = Inr (list_ex (sees sc (CEq f v)) (view s))"
  "up s \<Longrightarrow> up (snd (dao_ExistsBy db now f v s))"
  "up s \<Longrightarrow> view (snd (dao_ExistsBy db now f v s)) = view s"
proof -
  have e: "list_ex P xs = (0 < length (filter P xs))" for P and xs :: "'a list"
    by (induction xs) auto
  assume a: "up s"
  show "fst (dao_ExistsBy db now f v s) = Inr (list_ex (sees sc (CEq f v)) (view s))"
    "up (snd (dao_ExistsBy db now f v s))" "view (snd (dao_ExistsBy db now f v s)) = view s"
    by (simp_all add: dao_ExistsBy_def and_then_Inr count_by_laws a e)
qed

lemma row_by_id:
  assumes "up s"
  shows "first_row sc (CEq ''id'' (VInt i)) (view s) = Some r \<longleftrightarrow>
           r \<in> set (view s) \<and> sc_id sc r = i \<and> sc_deleted sc r = None"
proof
  assume "first_row sc (CEq ''id'' (VInt i)) (view s) = Some r"
  then show "r \<in> set (view s) \<and> sc_id sc r = i \<and> sc_deleted sc r = None"
    by (auto simp: first_row_def find_Some_iff sees_def id_col in_set_conv_nth)
next
  assume r: "r \<in> set (view s) \<and> sc_id sc r = i \<and> sc_deleted sc r = None"
  have "distinct (map (sc_id sc) (view s))"
    using view_indexed [OF assms] by (auto simp: indexed_def strict_sorted_iff)
  with r show "first_row sc (CEq ''id'' (VInt i)) (view s) = Some r"
    unfolding first_row_def by (intro find_unique [where f = "sc_id sc"]) (auto simp: sees_def id_col)
qed

lemmas dao_laws = first_by_laws count_by_laws find_rows_laws(2, 3) ExistsBy_laws exec_up
  update_laws delete_laws Create_up

text \<open>Ordered by descending primary key, the visible rows come in the reverse of their order in the
  table.\<close>

lemma find_desc_id:
  assumes "up s" "page_ok p"
  shows "fst (find_rows db now c (Desc ''id'') p s) = Inr (page_rows p (rev (filter (sees sc c) (view s))))"
proof -
  obtain rows where r: "fst (find_rows db now c (Desc ''id'') p s) = Inr (page_rows p rows)"
    "mset rows = mset (filter (sees sc c) (view s))" "sorted_wrt (precedes sc (Desc ''id'')) rows"
    using find_rows_laws(1) [OF assms] by blast
  let ?vis = "filter (sees sc c) (view s)"
  have "sorted_wrt (<) (map (sc_id sc) (view s))" using view_indexed [OF assms(1)] by (simp add: indexed_def)
  then have "sorted_wrt (\<lambda>a b. sc_id sc a < sc_id sc b) ?vis"
    by (simp add: sorted_wrt_map sorted_wrt_filter)
  then have "sorted_wrt (<) (map (sc_id sc) ?vis)" by (simp add: sorted_wrt_map)
  then have srt: "sorted (map (sc_id sc) ?vis)" and dis: "distinct (map (sc_id sc) ?vis)"
    unfolding strict_sorted_iff by auto
  have "sorted (map (sc_id sc) (rev rows))" using r(3)
    by (auto simp: id_col sorted_wrt_map sorted_wrt_rev elim!: sorted_wrt_mono_rel [rotated])
  moreover have "mset (rev rows) = mset ?vis" using r(2) by simp
  moreover from this have "distinct (map (sc_id sc) (rev rows))" "set (rev rows) = set ?vis"
    using dis by (metis mset_eq_imp_distinct_iff mset_map, metis mset_eq_setD)
  ultimately have "rev rows = ?vis"
    using map_sorted_distinct_set_unique [of "sc_id sc" "rev rows" ?vis] srt dis
    by (simp add: distinct_map)
  then have "rows = rev ?vis" by (metis rev_rev_ident)
  with r(1) show ?thesis by simp
qed

end

subsection \<open>Pages\<close>

text \<open>Go's division truncates towards zero; a zero divisor panics.\<close>

definition go_div :: "int \<Rightarrow> int \<Rightarrow> int" where
  "go_div a b = sgn a * sgn b * (\<bar>a\<bar> div \<bar>b\<bar>)"

definition go_mod :: "int \<Rightarrow> int \<Rightarrow> int" where
  "go_mod a b = a - go_div a b * b"

record 'r PageResult =
  pg_Items :: "'r list"
  pg_TotalCount :: int
  pg_Page :: int
  pg_Size :: int

definition NewPageResult :: "'r list \<Rightarrow> int \<Rightarrow> int \<Rightarrow> int \<Rightarrow> 'r PageResult" where
  "NewPageResult items cnt page psize =
     \<lparr>pg_Items = items, pg_TotalCount = cnt, pg_Page = page, pg_Size = psize\<rparr>"

definition TotalPages :: "'r PageResult \<Rightarrow> int" where
  "TotalPages p =
     (if pg_Size p \<le> 0 then 0
      else let pages = go_div (pg_TotalCount p) (pg_Size p)
           in if go_mod (pg_TotalCount p) (pg_Size p) > 0 then pages + 1 else pages)"

definition HasNext :: "'r PageResult \<Rightarrow> bool" where
  "HasNext p \<longleftrightarrow> pg_Page p < TotalPages p"

definition HasPrev :: "'r PageResult \<Rightarrow> bool" where
  "HasPrev p \<longleftrightarrow> pg_Page p > 1"

end
