(* ===== verification/User_Dao.thy ===== *)
theory User_Dao
  imports Gorm_Dao
begin

text \<open>
  Users and refresh tokens: the entities of \<^verbatim>\<open>internal/domain/entity/user.go\<close> with the schemas
  their struct tags describe, the data access objects of
  \<^verbatim>\<open>internal/domain/dao/impl/gorm/{user,refresh_token}_dao_impl.go\<close> and the repositories of
  \<^verbatim>\<open>internal/domain/repository/impl\<close>, which delegate to them. The locale \<open>auth_db\<close> puts the two
  tables side by side in one database, with the foreign key from tokens to users.

  A timestamp is stored as it is, to the nanosecond. A boolean or string field with a
  \<^verbatim>\<open>default\<close> tag that holds its zero value is created with the default.
\<close>

subsection \<open>Entities\<close>

type_synonym UserRole = string

definition RoleUser :: UserRole where "RoleUser = ''USER''"
definition RoleAdmin :: UserRole where "RoleAdmin = ''ADMIN''"

record User =
  u_ID :: int
  u_Username :: string
  u_Email :: string
  u_Password :: string
  u_FirstName :: string
  u_LastName :: string
  u_Role :: UserRole
  u_IsActive :: bool
  u_IsVerified :: bool
  u_CreatedAt :: time
  u_UpdatedAt :: time
  u_DeletedAt :: "time option"

definition zero_user :: User where
  "zero_user =
     \<lparr>u_ID = 0, u_Username = [], u_Email = [], u_Password = [], u_FirstName = [], u_LastName = [],
      u_Role = [], u_IsActive = False, u_IsVerified = False, u_CreatedAt = zero_time,
      u_UpdatedAt = zero_time, u_DeletedAt = None\<rparr>"

record RefreshToken =
  rt_ID :: int
  rt_UserID :: int
  rt_Token :: string
  rt_ExpiresAt :: time
  rt_Revoked :: bool
  rt_CreatedAt :: time
  rt_DeletedAt :: "time option"
  rt_User :: User

definition IsExpired :: "time \<Rightarrow> RefreshToken \<Rightarrow> bool" where
  "IsExpired now rt \<longleftrightarrow> now > rt_ExpiresAt rt"

definition IsValid :: "time \<Rightarrow> RefreshToken \<Rightarrow> bool" where
  "IsValid now rt \<longleftrightarrow> \<not> rt_Revoked rt \<and> \<not> IsExpired now rt"

subsection \<open>Schemas\<close>

definition user_col :: "string \<Rightarrow> User \<Rightarrow> sqlval" where
  "user_col f u =
     (if f = ''id'' then VInt (u_ID u) else if f = ''username'' then VStr (u_Username u)
      else if f = ''email'' then VStr (u_Email u) else if f = ''password'' then VStr (u_Password u)
      else if f = ''first_name'' then VStr (u_FirstName u) else if f = ''last_name'' then VStr (u_LastName u)
      else if f = ''role'' then VStr (u_Role u) else if f = ''is_active'' then VBool (u_IsActive u)
      else if f = ''is_verified'' then VBool (u_IsVerified u)
      else if f = ''created_at'' then VTime (u_CreatedAt u)
      else if f = ''updated_at'' then VTime (u_UpdatedAt u) else VNull)"

text \<open>No statement assigns single columns of a user.\<close>

definition user_set :: "string \<Rightarrow> sqlval \<Rightarrow> User \<Rightarrow> User" where
  "user_set f v u = u"

definition user_create :: "time \<Rightarrow> int \<Rightarrow> User \<Rightarrow> User" where
  "user_create now i u =
     u\<lparr>u_ID := i, u_Role := (if u_Role u = [] then ''USER'' else u_Role u), u_IsActive := True,
       u_CreatedAt := (if u_CreatedAt u = zero_time then now else u_CreatedAt u),
       u_UpdatedAt := (if u_UpdatedAt u = zero_time then now else u_UpdatedAt u)\<rparr>"

definition user_fits :: "User \<Rightarrow> bool" where
  "user_fits u \<longleftrightarrow> length (u_Username u) \<le> 50 \<and> length (u_Email u) \<le> 100
     \<and> length (u_FirstName u) \<le> 50 \<and> length (u_LastName u) \<le> 50 \<and> length (u_Role u) \<le> 20"

definition user_schema :: "User schema" where
  "user_schema =
     \<lparr>sc_id = u_ID, sc_col = user_col, sc_set = user_set, sc_deleted = u_DeletedAt,
      sc_delete = (\<lambda>now u. u\<lparr>u_DeletedAt := Some now\<rparr>), sc_create = user_create,
      sc_touch = (\<lambda>now u. u\<lparr>u_UpdatedAt := now\<rparr>), sc_unique = [''username'', ''email''],
      sc_fits = user_fits\<rparr>"

definition token_col :: "string \<Rightarrow> RefreshToken \<Rightarrow> sqlval" where
  "token_col f t =
     (if f = ''id'' then VInt (rt_ID t) else if f = ''user_id'' then VInt (rt_UserID t)
      else if f = ''token'' then VStr (rt_Token t) else if f = ''expires_at'' then VTime (rt_ExpiresAt t)
      else if f = ''revoked'' then VBool (rt_Revoked t)
      else if f = ''created_at'' then VTime (rt_CreatedAt t) else VNull)"

definition token_set :: "string \<Rightarrow> sqlval \<Rightarrow> RefreshToken \<Rightarrow> RefreshToken" where
  "token_set f v t =
     (case v of VBool b \<Rightarrow> if f = ''revoked'' then t\<lparr>rt_Revoked := b\<rparr> else t | _ \<Rightarrow> t)"

definition token_create :: "time \<Rightarrow> int \<Rightarrow> RefreshToken \<Rightarrow> RefreshToken" where
  "token_create now i t =
     t\<lparr>rt_ID := i, rt_CreatedAt := (if rt_CreatedAt t = zero_time then now else rt_CreatedAt t)\<rparr>"

definition token_schema :: "RefreshToken schema" where
  "token_schema =
     \<lparr>sc_id = rt_ID, sc_col = token_col, sc_set = token_set, sc_deleted = rt_DeletedAt,
      sc_delete = (\<lambda>now t. t\<lparr>rt_DeletedAt := Some now\<rparr>), sc_create = token_create,
      sc_touch = (\<lambda>now t. t), sc_unique = [''token''], sc_fits = (\<lambda>t. length (rt_Token t) \<le> 500)\<rparr>"

lemma user_schema_simps [simp]:
  "sc_id user_schema = u_ID" "sc_col user_schema = user_col" "sc_deleted user_schema = u_DeletedAt"
  "sc_create user_schema = user_create" "sc_unique user_schema = [''username'', ''email'']"
  "sc_fits user_schema = user_fits" "sc_touch user_schema now u = u\<lparr>u_UpdatedAt := now\<rparr>"
  "sc_delete user_schema now u = u\<lparr>u_DeletedAt := Some now\<rparr>"
  by (simp_all add: user_schema_def)

lemma token_schema_simps [simp]:
  "sc_id token_schema = rt_ID" "sc_col token_schema = token_col" "sc_deleted token_schema = rt_DeletedAt"
  "sc_create token_schema = token_create" "sc_unique token_schema = [''token'']"
  "sc_fits token_schema t \<longleftrightarrow> length (rt_Token t) \<le> 500" "sc_touch token_schema now t = t"
  "sc_delete token_schema now t = t\<lparr>rt_DeletedAt := Some now\<rparr>" "sc_set token_schema = token_set"
  by (simp_all add: token_schema_def)

lemma user_col_simps [simp]:
  "user_col ''id'' u = VInt (u_ID u)" "user_col ''username'' u = VStr (u_Username u)"
  "user_col ''email'' u = VStr (u_Email u)"
  by (simp_all add: user_col_def)

lemma token_col_simps [simp]:
  "token_col ''id'' t = VInt (rt_ID t)" "token_col ''user_id'' t = VInt (rt_UserID t)"
  "token_col ''token'' t = VStr (rt_Token t)" "token_col ''revoked'' t = VBool (rt_Revoked t)"
  "token_col ''expires_at'' t = VTime (rt_ExpiresAt t)"
  by (simp_all add: token_col_def)

interpretation us: sql_schema user_schema
  by unfold_locales (auto simp: user_schema_def user_create_def user_set_def)

interpretation ts: sql_schema token_schema
  by unfold_locales
     (auto simp: token_schema_def token_create_def token_set_def plain_col_def token_col_def split: sqlval.splits)

subsection \<open>Data access objects\<close>

definition FindByUsername :: "('s, User) table \<Rightarrow> time \<Rightarrow> string \<Rightarrow> ('s, User option) svc" where
  "FindByUsername db now username = first_by db now (CEq ''username'' (VStr username))"

definition FindByEmail :: "('s, User) table \<Rightarrow> time \<Rightarrow> string \<Rightarrow> ('s, User option) svc" where
  "FindByEmail db now email = first_by db now (CEq ''email'' (VStr email))"

definition FindByUsernameOrEmail :: "('s, User) table \<Rightarrow> time \<Rightarrow> string \<Rightarrow> ('s, User option) svc" where
  "FindByUsernameOrEmail db now x =
     first_by db now (COr (CEq ''username'' (VStr x)) (CEq ''email'' (VStr x)))"

definition dao_ExistsByUsername :: "('s, User) table \<Rightarrow> time \<Rightarrow> string \<Rightarrow> ('s, bool) svc" where
  "dao_ExistsByUsername db now username = dao_ExistsBy db now ''username'' (VStr username)"

definition dao_ExistsByEmail :: "('s, User) table \<Rightarrow> time \<Rightarrow> string \<Rightarrow> ('s, bool) svc" where
  "dao_ExistsByEmail db now email = dao_ExistsBy db now ''email'' (VStr email)"

definition user_FindAll :: "('s, User) table \<Rightarrow> time \<Rightarrow> int \<Rightarrow> int \<Rightarrow> ('s, User list \<times> int) svc" where
  "user_FindAll = find_all (Desc ''id'')"

text \<open>\<^verbatim>\<open>Preload("User")\<close>: one more query for the users of the tokens that were found.\<close>

definition preload_users :: "('s, User) table \<Rightarrow> time \<Rightarrow> RefreshToken list \<Rightarrow> ('s, RefreshToken list) svc" where
  "preload_users udb now ts =
     (if ts = [] then ret []
      else and_then (find_rows udb now (CIn ''id'' (map (VInt \<circ> rt_UserID) ts)) Unordered None) (\<lambda>us.
        ret (map (\<lambda>t. t\<lparr>rt_User := (case List.find (\<lambda>u. u_ID u = rt_UserID t) us of
                                       Some u \<Rightarrow> u | None \<Rightarrow> zero_user)\<rparr>) ts)))"

definition FindByToken ::
  "('s, User) table \<Rightarrow> ('s, RefreshToken) table \<Rightarrow> time \<Rightarrow> string \<Rightarrow> ('s, RefreshToken option) svc" where
  "FindByToken udb tdb now token =
     and_then (first_by tdb now (CAnd (CEq ''token'' (VStr token)) (CEq ''revoked'' (VBool False)))) (\<lambda>found.
       case found of
         None \<Rightarrow> ret None
       | Some t \<Rightarrow> and_then (preload_users udb now [t]) (\<lambda>ts. ret (Some (hd ts))))"

definition dao_RevokeByToken :: "('s, RefreshToken) table \<Rightarrow> time \<Rightarrow> string \<Rightarrow> ('s, unit) svc" where
  "dao_RevokeByToken tdb now token =
     exec tdb now (UPDATE (CEq ''token'' (VStr token)) [(''revoked'', VBool True)])"

definition dao_RevokeAllByUserID :: "('s, RefreshToken) table \<Rightarrow> time \<Rightarrow> int \<Rightarrow> ('s, unit) svc" where
  "dao_RevokeAllByUserID tdb now userID =
     exec tdb now (UPDATE (CEq ''user_id'' (VInt userID)) [(''revoked'', VBool True)])"

definition dao_DeleteExpired :: "('s, RefreshToken) table \<Rightarrow> time \<Rightarrow> ('s, unit) svc" where
  "dao_DeleteExpired tdb now = exec tdb now (DELETE (CLt ''expires_at'' (VTime now)))"

definition token_FindAll ::
  "('s, User) table \<Rightarrow> ('s, RefreshToken) table \<Rightarrow> time \<Rightarrow> int \<Rightarrow> int \<Rightarrow> ('s, RefreshToken list \<times> int) svc" where
  "token_FindAll udb tdb now page psize =
     and_then (count_by tdb now CTrue) (\<lambda>n.
     and_then (find_rows tdb now CTrue (Desc ''created_at'') (Some (page_offset page psize, psize))) (\<lambda>rows.
     and_then (preload_users udb now rows) (\<lambda>ts. ret (ts, n))))"

subsection \<open>Repositories\<close>

definition repo_CreateUser :: "('s, User) table \<Rightarrow> time \<Rightarrow> User \<Rightarrow> ('s, User) svc" where
  "repo_CreateUser = dao_Create"
definition GetByID :: "('s, User) table \<Rightarrow> time \<Rightarrow> int \<Rightarrow> ('s, User option) svc" where
  "GetByID = dao_FindByID"
definition GetByUsername :: "('s, User) table \<Rightarrow> time \<Rightarrow> string \<Rightarrow> ('s, User option) svc" where
  "GetByUsername = FindByUsername"
definition GetByEmail :: "('s, User) table \<Rightarrow> time \<Rightarrow> string \<Rightarrow> ('s, User option) svc" where
  "GetByEmail = FindByEmail"
definition GetByUsernameOrEmail :: "('s, User) table \<Rightarrow> time \<Rightarrow> string \<Rightarrow> ('s, User option) svc" where
  "GetByUsernameOrEmail = FindByUsernameOrEmail"
definition repo_UpdateUser :: "('s, User) table \<Rightarrow> time \<Rightarrow> User \<Rightarrow> ('s, unit) svc" where
  "repo_UpdateUser = dao_Update"
definition repo_DeleteUser :: "('s, User) table \<Rightarrow> time \<Rightarrow> int \<Rightarrow> ('s, unit) svc" where
  "repo_DeleteUser = dao_Delete"
definition repo_ListUsers :: "('s, User) table \<Rightarrow> time \<Rightarrow> int \<Rightarrow> int \<Rightarrow> ('s, User list \<times> int) svc" where
  "repo_ListUsers = user_FindAll"
definition repo_ExistsByUsername :: "('s, User) table \<Rightarrow> time \<Rightarrow> string \<Rightarrow> ('s, bool) svc" where
  "repo_ExistsByUsername = dao_ExistsByUsername"
definition repo_ExistsByEmail :: "('s, User) table \<Rightarrow> time \<Rightarrow> string \<Rightarrow> ('s, bool) svc" where
  "repo_ExistsByEmail = dao_ExistsByEmail"

definition repo_CreateToken :: "('s, RefreshToken) table \<Rightarrow> time \<Rightarrow> RefreshToken \<Rightarrow> ('s, RefreshToken) svc" where
  "repo_CreateToken = dao_Create"
definition GetByToken ::
  "('s, User) table \<Rightarrow> ('s, RefreshToken) table \<Rightarrow> time \<Rightarrow> string \<Rightarrow> ('s, RefreshToken option) svc" where
  "GetByToken = FindByToken"
definition RevokeByToken :: "('s, RefreshToken) table \<Rightarrow> time \<Rightarrow> string \<Rightarrow> ('s, unit) svc" where
  "RevokeByToken = dao_RevokeByToken"
definition RevokeAllByUserID :: "('s, RefreshToken) table \<Rightarrow> time \<Rightarrow> int \<Rightarrow> ('s, unit) svc" where
  "RevokeAllByUserID = dao_RevokeAllByUserID"
definition DeleteExpired :: "('s, RefreshToken) table \<Rightarrow> time \<Rightarrow> ('s, unit) svc" where
  "DeleteExpired = dao_DeleteExpired"

lemmas user_repo_defs = repo_CreateUser_def GetByID_def GetByUsername_def GetByEmail_def
  GetByUsernameOrEmail_def repo_UpdateUser_def repo_DeleteUser_def repo_ListUsers_def
  repo_ExistsByUsername_def repo_ExistsByEmail_def
  FindByUsername_def FindByEmail_def FindByUsernameOrEmail_def dao_ExistsByUsername_def
  dao_ExistsByEmail_def dao_FindByID_def dao_Update_def dao_Delete_def

lemmas token_repo_defs = repo_CreateToken_def GetByToken_def RevokeByToken_def RevokeAllByUserID_def
  DeleteExpired_def dao_RevokeByToken_def dao_RevokeAllByUserID_def dao_DeleteExpired_def

subsection \<open>The database of users and tokens\<close>

locale auth_db =
  users: sql_table user_schema udb uview up "\<lambda>_ _. True" +
  tokens: sql_table token_schema tdb tview up "\<lambda>s t. rt_UserID t \<in> u_ID ` set (uview s)"
  for udb :: "('s, User) table" and uview :: "'s \<Rightarrow> User list"
    and tdb :: "('s, RefreshToken) table" and tview :: "'s \<Rightarrow> RefreshToken list" and up :: "'s \<Rightarrow> bool" +
  assumes users_frame: "up s \<Longrightarrow> tview (snd (udb now q s)) = tview s"
    and tokens_frame: "up s \<Longrightarrow> uview (snd (tdb now p s)) = uview s"
begin

lemma frames:
  "up s \<Longrightarrow> tview (snd (first_by udb now c s)) = tview s"
  "up s \<Longrightarrow> tview (snd (count_by udb now c s)) = tview s"
  "up s \<Longrightarrow> tview (snd (find_rows udb now c ord p s)) = tview s"
  "up s \<Longrightarrow> tview (snd (exec udb now qu s)) = tview s"
  "up s \<Longrightarrow> tview (snd (dao_Create udb now u s)) = tview s"
  "up s \<Longrightarrow> tview (snd (dao_ExistsBy udb now f v s)) = tview s"
  "up s \<Longrightarrow> uview (snd (first_by tdb now c s)) = uview s"
  "up s \<Longrightarrow> uview (snd (exec tdb now qt s)) = uview s"
  "up s \<Longrightarrow> uview (snd (dao_Create tdb now t s)) = uview s"
  by (simp_all add: snd_dao users_frame tokens_frame)

lemmas db_laws = users.dao_laws tokens.dao_laws frames

lemma preload_laws:
  assumes "up s"
  shows "\<exists>f. fst (preload_users udb now ts s) = Inr (map (\<lambda>t. t\<lparr>rt_User := f t\<rparr>) ts)"
    and "up (snd (preload_users udb now ts s))"
    and "uview (snd (preload_users udb now ts s)) = uview s"
    and "tview (snd (preload_users udb now ts s)) = tview s"
proof -
  let ?c = "CIn ''id'' (map (VInt \<circ> rt_UserID) ts)"
  obtain rows where r: "fst (find_rows udb now ?c Unordered None s) = Inr rows"
    using users.find_rows_laws(1) [OF assms, of None now ?c Unordered] by (auto simp: page_ok_def page_rows_def)
  note e = and_then_Inr [where f = "find_rows udb now ?c Unordered None", OF r]
  show "\<exists>f. fst (preload_users udb now ts s) = Inr (map (\<lambda>t. t\<lparr>rt_User := f t\<rparr>) ts)"
    by (cases "ts = []") (auto simp: preload_users_def e)
  show "up (snd (preload_users udb now ts s))" "uview (snd (preload_users udb now ts s)) = uview s"
    "tview (snd (preload_users udb now ts s)) = tview s"
    by (auto simp: preload_users_def e db_laws assms)
qed

text \<open>The row \<open>GetByToken\<close> looks for.\<close>

lemma GetByToken_laws:
  assumes "up s"
  shows "(\<forall>t \<in> set (tview s). rt_Token t = tok \<longrightarrow> rt_Revoked t \<or> rt_DeletedAt t \<noteq> None) \<Longrightarrow>
           fst (GetByToken udb tdb now tok s) = Inr None"
    and "t \<in> set (tview s) \<Longrightarrow> rt_Token t = tok \<Longrightarrow> \<not> rt_Revoked t \<Longrightarrow> rt_DeletedAt t = None \<Longrightarrow>
           \<exists>u. fst (GetByToken udb tdb now tok s) = Inr (Some (t\<lparr>rt_User := u\<rparr>))"
    and "up (snd (GetByToken udb tdb now tok s))"
    and "uview (snd (GetByToken udb tdb now tok s)) = uview s"
    and "tview (snd (GetByToken udb tdb now tok s)) = tview s"
proof -
  let ?c = "CAnd (CEq ''token'' (VStr tok)) (CEq ''revoked'' (VBool False))"
  let ?s1 = "snd (first_by tdb now ?c s)"
  note fb = tokens.first_by_laws(1) [OF assms, of now ?c]
  note e = and_then_Inr [where f = "first_by tdb now ?c", OF fb]
  have s1: "up ?s1" "tview ?s1 = tview s" "uview ?s1 = uview s" by (simp_all add: db_laws assms)
  have row: "first_row token_schema ?c (tview s) = Some t \<Longrightarrow> t \<in> set (tview s) \<and> rt_Token t = tok
      \<and> \<not> rt_Revoked t \<and> rt_DeletedAt t = None" for t
    by (auto simp: first_row_def find_Some_iff sees_def)
  show "\<forall>t \<in> set (tview s). rt_Token t = tok \<longrightarrow> rt_Revoked t \<or> rt_DeletedAt t \<noteq> None \<Longrightarrow>
      fst (GetByToken udb tdb now tok s) = Inr None"
    using row by (cases "first_row token_schema ?c (tview s)") (auto simp: GetByToken_def FindByToken_def e)
  show "\<exists>u. fst (GetByToken udb tdb now tok s) = Inr (Some (t\<lparr>rt_User := u\<rparr>))"
    if t: "t \<in> set (tview s)" "rt_Token t = tok" "\<not> rt_Revoked t" "rt_DeletedAt t = None"
  proof -
    have "distinct (map rt_Token (tview s))"
      using tokens.view_indexed [OF assms] by (auto simp: indexed_def distinct_map inj_on_def)
    then have "first_row token_schema ?c (tview s) = Some t"
      unfolding first_row_def using t by (intro find_unique [where f = rt_Token]) (auto simp: sees_def)
    moreover obtain f where "fst (preload_users udb now [t] ?s1) = Inr [t\<lparr>rt_User := f t\<rparr>]"
      using preload_laws(1) [OF s1(1), of now "[t]"] by auto
    ultimately show ?thesis by (auto simp: GetByToken_def FindByToken_def e and_then_Inr)
  qed
  show "up (snd (GetByToken udb tdb now tok s))" "uview (snd (GetByToken udb tdb now tok s)) = uview s"
    "tview (snd (GetByToken udb tdb now tok s)) = tview s"
    using preload_laws [OF s1(1), of now] s1
    by (auto simp: GetByToken_def FindByToken_def e and_then_def split: option.splits prod.splits sum.splits)
      (metis snd_conv)+
qed

lemma revoke_laws:
  "up s \<Longrightarrow> fst (RevokeByToken tdb now tok s) = Inr ()"
  "up s \<Longrightarrow> tview (snd (RevokeByToken tdb now tok s)) =
     map (\<lambda>t. if rt_DeletedAt t = None \<and> rt_Token t = tok then t\<lparr>rt_Revoked := True\<rparr> else t) (tview s)"
  "up s \<Longrightarrow> up (snd (RevokeByToken tdb now tok s))"
  "up s \<Longrightarrow> uview (snd (RevokeByToken tdb now tok s)) = uview s"
  by (simp_all add: token_repo_defs db_laws plain_col_def sees_def assign_def token_set_def)

lemma revoke_all_laws:
  "up s \<Longrightarrow> fst (RevokeAllByUserID tdb now i s) = Inr ()"
  "up s \<Longrightarrow> tview (snd (RevokeAllByUserID tdb now i s)) =
     map (\<lambda>t. if rt_DeletedAt t = None \<and> rt_UserID t = i then t\<lparr>rt_Revoked := True\<rparr> else t) (tview s)"
  "up s \<Longrightarrow> up (snd (RevokeAllByUserID tdb now i s))"
  "up s \<Longrightarrow> uview (snd (RevokeAllByUserID tdb now i s)) = uview s"
  by (simp_all add: token_repo_defs db_laws plain_col_def sees_def assign_def token_set_def)

lemma delete_expired_laws:
  "up s \<Longrightarrow> fst (DeleteExpired tdb now s) = Inr ()"
  "up s \<Longrightarrow> tview (snd (DeleteExpired tdb now s)) =
     map (\<lambda>t. if rt_DeletedAt t = None \<and> rt_ExpiresAt t < now then t\<lparr>rt_DeletedAt := Some now\<rparr> else t) (tview s)"
  "up s \<Longrightarrow> up (snd (DeleteExpired tdb now s))"
  "up s \<Longrightarrow> uview (snd (DeleteExpired tdb now s)) = uview s"
  by (simp_all add: token_repo_defs db_laws sees_def)

end

subsection \<open>The database in memory\<close>

type_synonym mem_db = "User list \<times> RefreshToken list"

definition mem_users :: "(mem_db, User) table" where
  "mem_users = mem_table user_schema fst (\<lambda>us (_, ts). (us, ts)) (\<lambda>_ _. True)"

definition mem_tokens :: "(mem_db, RefreshToken) table" where
  "mem_tokens = mem_table token_schema snd (\<lambda>ts (us, _). (us, ts)) (\<lambda>s t. rt_UserID t \<in> u_ID ` set (fst s))"

definition mem_db_up :: "mem_db \<Rightarrow> bool" where
  "mem_db_up s \<longleftrightarrow> indexed user_schema (fst s) \<and> indexed token_schema (snd s)"

interpretation mem_auth: auth_db mem_users fst mem_tokens snd mem_db_up
proof (intro auth_db.intro auth_db_axioms.intro)
  show "sql_table user_schema mem_users fst mem_db_up (\<lambda>_ _. True)"
    unfolding mem_users_def by (rule us.mem_table_laws) (auto simp: mem_db_up_def)
  show "sql_table token_schema mem_tokens snd mem_db_up (\<lambda>s t. rt_UserID t \<in> u_ID ` set (fst s))"
    unfolding mem_tokens_def by (rule ts.mem_table_laws) (auto simp: mem_db_up_def)
qed (auto simp: mem_users_def mem_tokens_def mem_table_def split: prod.splits)

lemma mem_db_empty_up: "mem_db_up ([], [])"
  by (simp add: mem_db_up_def indexed_def)

end
