(* ===== verification/Plugin_Dao.thy ===== *)
theory Plugin_Dao
  imports User_Dao
begin

text \<open>
  Plugins and their extensions: the entities of \<^verbatim>\<open>internal/domain/entity/plugin.go\<close> with their schemas, the
  data access objects of \<^verbatim>\<open>internal/domain/dao/impl/gorm/plugin_{,extension_}dao_impl.go\<close> and the
  repositories of \<^verbatim>\<open>internal/domain/repository/impl\<close>. The locale \<open>plugin_db\<close> puts the two tables into
  one database, with the foreign key from extensions to plugins.
\<close>

subsection \<open>Entities\<close>

text \<open>The states and types are strings in the code; the column may hold any of them.\<close>

type_synonym PluginState = string

definition PluginStateInstalled :: PluginState where "PluginStateInstalled = ''INSTALLED''"
definition PluginStateEnabled :: PluginState where "PluginStateEnabled = ''ENABLED''"
definition PluginStateDisabled :: PluginState where "PluginStateDisabled = ''DISABLED''"
definition PluginStateUninstalled :: PluginState where "PluginStateUninstalled = ''UNINSTALLED''"
definition PluginStateError :: PluginState where "PluginStateError = ''ERROR''"

lemmas plugin_state_defs = PluginStateInstalled_def PluginStateEnabled_def PluginStateDisabled_def
  PluginStateUninstalled_def PluginStateError_def

record Plugin =
  pl_ID :: int
  pl_Key :: string
  pl_Name :: string
  pl_Description :: string
  pl_Version :: string
  pl_Author :: string
  pl_Type :: string
  pl_State :: PluginState
  pl_Config :: string
  pl_Checksum :: string
  pl_Path :: string
  pl_InstalledAt :: time
  pl_EnabledAt :: "time option"
  pl_CreatedAt :: time
  pl_UpdatedAt :: time
  pl_DeletedAt :: "time option"

definition zero_plugin :: Plugin where
  "zero_plugin =
     \<lparr>pl_ID = 0, pl_Key = [], pl_Name = [], pl_Description = [], pl_Version = [], pl_Author = [], pl_Type = [],
      pl_State = [], pl_Config = [], pl_Checksum = [], pl_Path = [], pl_InstalledAt = zero_time,
      pl_EnabledAt = None, pl_CreatedAt = zero_time, pl_UpdatedAt = zero_time, pl_DeletedAt = None\<rparr>"

definition IsEnabled :: "Plugin \<Rightarrow> bool" where
  "IsEnabled p \<longleftrightarrow> pl_State p = PluginStateEnabled"

record PluginExtension =
  px_ID :: int
  px_PluginID :: int
  px_Name :: string
  px_Type :: string
  px_Path :: string
  px_Handler :: string
  px_Config :: string
  px_CreatedAt :: time
  px_DeletedAt :: "time option"
  px_Plugin :: Plugin

subsection \<open>Schemas\<close>

definition plugin_col :: "string \<Rightarrow> Plugin \<Rightarrow> sqlval" where
  "plugin_col f p =
     (if f = ''id'' then VInt (pl_ID p) else if f = ''key'' then VStr (pl_Key p)
      else if f = ''name'' then VStr (pl_Name p) else if f = ''description'' then VStr (pl_Description p)
      else if f = ''version'' then VStr (pl_Version p) else if f = ''author'' then VStr (pl_Author p)
      else if f = ''type'' then VStr (pl_Type p) else if f = ''state'' then VStr (pl_State p)
      else if f = ''config'' then VStr (pl_Config p) else if f = ''checksum'' then VStr (pl_Checksum p)
      else if f = ''path'' then VStr (pl_Path p) else if f = ''installed_at'' then VTime (pl_InstalledAt p)
      else if f = ''enabled_at'' then (case pl_EnabledAt p of None \<Rightarrow> VNull | Some t \<Rightarrow> VTime t)
      else if f = ''created_at'' then VTime (pl_CreatedAt p)
      else if f = ''updated_at'' then VTime (pl_UpdatedAt p) else VNull)"

text \<open>The columns that \<open>UpdateState\<close> assigns.\<close>

definition plugin_set :: "string \<Rightarrow> sqlval \<Rightarrow> Plugin \<Rightarrow> Plugin" where
  "plugin_set f v p =
     (case v of
        VStr x \<Rightarrow> if f = ''state'' then p\<lparr>pl_State := x\<rparr> else p
      | VTime t \<Rightarrow> if f = ''enabled_at'' then p\<lparr>pl_EnabledAt := Some t\<rparr>
                   else if f = ''updated_at'' then p\<lparr>pl_UpdatedAt := t\<rparr> else p
      | _ \<Rightarrow> p)"

definition plugin_create :: "time \<Rightarrow> int \<Rightarrow> Plugin \<Rightarrow> Plugin" where
  "plugin_create now i p =
     p\<lparr>pl_ID := i, pl_State := (if pl_State p = [] then ''INSTALLED'' else pl_State p),
       pl_CreatedAt := (if pl_CreatedAt p = zero_time then now else pl_CreatedAt p),
       pl_UpdatedAt := (if pl_UpdatedAt p = zero_time then now else pl_UpdatedAt p)\<rparr>"

definition plugin_fits :: "Plugin \<Rightarrow> bool" where
  "plugin_fits p \<longleftrightarrow> length (pl_Key p) \<le> 100 \<and> length (pl_Name p) \<le> 200 \<and> length (pl_Description p) \<le> 1000
     \<and> length (pl_Version p) \<le> 50 \<and> length (pl_Author p) \<le> 200 \<and> length (pl_Type p) \<le> 50
     \<and> length (pl_State p) \<le> 20 \<and> length (pl_Checksum p) \<le> 128 \<and> length (pl_Path p) \<le> 500"

definition plugin_schema :: "Plugin schema" where
  "plugin_schema =
     \<lparr>sc_id = pl_ID, sc_col = plugin_col, sc_set = plugin_set, sc_deleted = pl_DeletedAt,
      sc_delete = (\<lambda>now p. p\<lparr>pl_DeletedAt := Some now\<rparr>), sc_create = plugin_create,
      sc_touch = (\<lambda>now p. p\<lparr>pl_UpdatedAt := now\<rparr>), sc_unique = [''key''], sc_fits = plugin_fits\<rparr>"

definition ext_col :: "string \<Rightarrow> PluginExtension \<Rightarrow> sqlval" where
  "ext_col f x =
     (if f = ''id'' then VInt (px_ID x) else if f = ''plugin_id'' then VInt (px_PluginID x)
      else if f = ''name'' then VStr (px_Name x) else if f = ''type'' then VStr (px_Type x)
      else if f = ''path'' then VStr (px_Path x) else if f = ''handler'' then VStr (px_Handler x)
      else if f = ''config'' then VStr (px_Config x)
      else if f = ''created_at'' then VTime (px_CreatedAt x) else VNull)"

text \<open>No statement assigns single columns of an extension.\<close>

definition ext_schema :: "PluginExtension schema" where
  "ext_schema =
     \<lparr>sc_id = px_ID, sc_col = ext_col, sc_set = (\<lambda>f v x. x), sc_deleted = px_DeletedAt,
      sc_delete = (\<lambda>now x. x\<lparr>px_DeletedAt := Some now\<rparr>),
      sc_create = (\<lambda>now i x. x\<lparr>px_ID := i, px_CreatedAt := (if px_CreatedAt x = zero_time then now else px_CreatedAt x)\<rparr>),
      sc_touch = (\<lambda>now x. x), sc_unique = [],
      sc_fits = (\<lambda>x. length (px_Name x) \<le> 200 \<and> length (px_Type x) \<le> 50 \<and> length (px_Path x) \<le> 500
                   \<and> length (px_Handler x) \<le> 500)\<rparr>"

lemma plugin_schema_simps [simp]:
  "sc_id plugin_schema = pl_ID" "sc_col plugin_schema = plugin_col" "sc_deleted plugin_schema = pl_DeletedAt"
  "sc_create plugin_schema = plugin_create" "sc_unique plugin_schema = [''key'']"
  "sc_fits plugin_schema = plugin_fits" "sc_touch plugin_schema now p = p\<lparr>pl_UpdatedAt := now\<rparr>"
  "sc_delete plugin_schema now p = p\<lparr>pl_DeletedAt := Some now\<rparr>" "sc_set plugin_schema = plugin_set"
  by (simp_all add: plugin_schema_def)

lemma ext_schema_simps [simp]:
  "sc_id ext_schema = px_ID" "sc_col ext_schema = ext_col" "sc_deleted ext_schema = px_DeletedAt"
  "sc_delete ext_schema now x = x\<lparr>px_DeletedAt := Some now\<rparr>" "sc_unique ext_schema = []"
  by (simp_all add: ext_schema_def)

lemma plugin_col_simps [simp]:
  "plugin_col ''id'' p = VInt (pl_ID p)" "plugin_col ''key'' p = VStr (pl_Key p)"
  "plugin_col ''state'' p = VStr (pl_State p)" "ext_col ''plugin_id'' x = VInt (px_PluginID x)"
  by (simp_all add: plugin_col_def ext_col_def)

interpretation pls: sql_schema plugin_schema
  by unfold_locales
     (auto simp: plugin_schema_def plugin_create_def plugin_set_def plain_col_def split: sqlval.splits)

interpretation pxs: sql_schema ext_schema
  by unfold_locales (auto simp: ext_schema_def ext_col_def)

subsection \<open>Data access objects\<close>

definition FindByKey :: "('s, Plugin) table \<Rightarrow> time \<Rightarrow> string \<Rightarrow> ('s, Plugin option) svc" where
  "FindByKey db now key = first_by db now (CEq ''key'' (VStr key))"

definition dao_DeleteByKey :: "('s, Plugin) table \<Rightarrow> time \<Rightarrow> string \<Rightarrow> ('s, unit) svc" where
  "dao_DeleteByKey db now key = exec db now (DELETE (CEq ''key'' (VStr key)))"

definition FindByState :: "('s, Plugin) table \<Rightarrow> time \<Rightarrow> PluginState \<Rightarrow> ('s, Plugin list) svc" where
  "FindByState db now state = find_rows db now (CEq ''state'' (VStr state)) (Asc ''name'') None"

definition FindEnabled :: "('s, Plugin) table \<Rightarrow> time \<Rightarrow> ('s, Plugin list) svc" where
  "FindEnabled db now = FindByState db now PluginStateEnabled"

definition dao_ExistsByKey :: "('s, Plugin) table \<Rightarrow> time \<Rightarrow> string \<Rightarrow> ('s, bool) svc" where
  "dao_ExistsByKey db now key = dao_ExistsBy db now ''key'' (VStr key)"

definition dao_UpdateState :: "('s, Plugin) table \<Rightarrow> time \<Rightarrow> int \<Rightarrow> PluginState \<Rightarrow> ('s, unit) svc" where
  "dao_UpdateState db now i state =
     (let updates = [(''state'', VStr state), (''updated_at'', VTime now)];
          updates = (if state = PluginStateEnabled then updates @ [(''enabled_at'', VTime now)] else updates)
      in exec db now (UPDATE (CEq ''id'' (VInt i)) updates))"

definition plugin_FindAll :: "('s, Plugin) table \<Rightarrow> time \<Rightarrow> int \<Rightarrow> int \<Rightarrow> ('s, Plugin list \<times> int) svc" where
  "plugin_FindAll = find_all (Desc ''installed_at'')"

definition FindByPluginID :: "('s, PluginExtension) table \<Rightarrow> time \<Rightarrow> int \<Rightarrow> ('s, PluginExtension list) svc" where
  "FindByPluginID db now i = find_rows db now (CEq ''plugin_id'' (VInt i)) Unordered None"

definition dao_DeleteByPluginID :: "('s, PluginExtension) table \<Rightarrow> time \<Rightarrow> int \<Rightarrow> ('s, unit) svc" where
  "dao_DeleteByPluginID db now i = exec db now (DELETE (CEq ''plugin_id'' (VInt i)))"

text \<open>\<^verbatim>\<open>Preload("Plugin")\<close>.\<close>

definition preload_plugins ::
  "('s, Plugin) table \<Rightarrow> time \<Rightarrow> PluginExtension list \<Rightarrow> ('s, PluginExtension list) svc" where
  "preload_plugins pdb now xs =
     (if xs = [] then ret []
      else and_then (find_rows pdb now (CIn ''id'' (map (VInt \<circ> px_PluginID) xs)) Unordered None) (\<lambda>ps.
        ret (map (\<lambda>x. x\<lparr>px_Plugin := (case List.find (\<lambda>p. pl_ID p = px_PluginID x) ps of
                                        Some p \<Rightarrow> p | None \<Rightarrow> zero_plugin)\<rparr>) xs)))"

definition ext_FindAll ::
  "('s, Plugin) table \<Rightarrow> ('s, PluginExtension) table \<Rightarrow> time \<Rightarrow> int \<Rightarrow> int \<Rightarrow> ('s, PluginExtension list \<times> int) svc" where
  "ext_FindAll pdb edb now page psize =
     and_then (count_by edb now CTrue) (\<lambda>n.
     and_then (find_rows edb now CTrue (Desc ''created_at'') (Some (page_offset page psize, psize))) (\<lambda>rows.
     and_then (preload_plugins pdb now rows) (\<lambda>xs. ret (xs, n))))"

subsection \<open>Repositories\<close>

definition plugin_Create :: "('s, Plugin) table \<Rightarrow> time \<Rightarrow> Plugin \<Rightarrow> ('s, Plugin) svc" where
  "plugin_Create = dao_Create"
definition plugin_GetByID :: "('s, Plugin) table \<Rightarrow> time \<Rightarrow> int \<Rightarrow> ('s, Plugin option) svc" where
  "plugin_GetByID = dao_FindByID"
definition plugin_GetByKey :: "('s, Plugin) table \<Rightarrow> time \<Rightarrow> string \<Rightarrow> ('s, Plugin option) svc" where
  "plugin_GetByKey = FindByKey"
definition plugin_Update :: "('s, Plugin) table \<Rightarrow> time \<Rightarrow> Plugin \<Rightarrow> ('s, unit) svc" where
  "plugin_Update = dao_Update"
definition plugin_Delete :: "('s, Plugin) table \<Rightarrow> time \<Rightarrow> int \<Rightarrow> ('s, unit) svc" where
  "plugin_Delete = dao_Delete"
definition DeleteByKey :: "('s, Plugin) table \<Rightarrow> time \<Rightarrow> string \<Rightarrow> ('s, unit) svc" where
  "DeleteByKey = dao_DeleteByKey"
definition plugin_List :: "('s, Plugin) table \<Rightarrow> time \<Rightarrow> int \<Rightarrow> int \<Rightarrow> ('s, Plugin list \<times> int) svc" where
  "plugin_List = plugin_FindAll"
definition ListByState :: "('s, Plugin) table \<Rightarrow> time \<Rightarrow> PluginState \<Rightarrow> ('s, Plugin list) svc" where
  "ListByState = FindByState"
definition ListEnabled :: "('s, Plugin) table \<Rightarrow> time \<Rightarrow> ('s, Plugin list) svc" where
  "ListEnabled = FindEnabled"
definition ExistsByKey :: "('s, Plugin) table \<Rightarrow> time \<Rightarrow> string \<Rightarrow> ('s, bool) svc" where
  "ExistsByKey = dao_ExistsByKey"
definition UpdateState :: "('s, Plugin) table \<Rightarrow> time \<Rightarrow> int \<Rightarrow> PluginState \<Rightarrow> ('s, unit) svc" where
  "UpdateState = dao_UpdateState"
definition ext_Create :: "('s, PluginExtension) table \<Rightarrow> time \<Rightarrow> PluginExtension \<Rightarrow> ('s, PluginExtension) svc" where
  "ext_Create = dao_Create"
definition GetByPluginID :: "('s, PluginExtension) table \<Rightarrow> time \<Rightarrow> int \<Rightarrow> ('s, PluginExtension list) svc" where
  "GetByPluginID = FindByPluginID"
definition DeleteByPluginID :: "('s, PluginExtension) table \<Rightarrow> time \<Rightarrow> int \<Rightarrow> ('s, unit) svc" where
  "DeleteByPluginID = dao_DeleteByPluginID"

lemmas plugin_repo_defs = plugin_Create_def plugin_GetByID_def plugin_GetByKey_def plugin_Update_def
  plugin_Delete_def DeleteByKey_def plugin_List_def ListByState_def ListEnabled_def ExistsByKey_def UpdateState_def
  GetByPluginID_def DeleteByPluginID_def FindByKey_def dao_DeleteByKey_def FindByState_def FindEnabled_def
  dao_ExistsByKey_def FindByPluginID_def dao_DeleteByPluginID_def

subsection \<open>The database of plugins\<close>

locale plugin_db =
  plugins: sql_table plugin_schema pdb pview up "\<lambda>_ _. True" +
  exts: sql_table ext_schema edb eview up "\<lambda>s x. px_PluginID x \<in> pl_ID ` set (pview s)"
  for pdb :: "('s, Plugin) table" and pview :: "'s \<Rightarrow> Plugin list"
    and edb :: "('s, PluginExtension) table" and eview :: "'s \<Rightarrow> PluginExtension list" and up :: "'s \<Rightarrow> bool" +
  assumes plugins_frame: "up s \<Longrightarrow> eview (snd (pdb now q s)) = eview s"
    and exts_frame: "up s \<Longrightarrow> pview (snd (edb now p s)) = pview s"
begin

lemma plugin_frames:
  "up s \<Longrightarrow> eview (snd (first_by pdb now c s)) = eview s"
  "up s \<Longrightarrow> eview (snd (exec pdb now qu s)) = eview s"
  "up s \<Longrightarrow> eview (snd (find_rows pdb now c ord p s)) = eview s"
  "up s \<Longrightarrow> eview (snd (dao_Create pdb now u s)) = eview s"
  "up s \<Longrightarrow> eview (snd (dao_ExistsBy pdb now f v s)) = eview s"
  "up s \<Longrightarrow> pview (snd (find_rows edb now c ord p s)) = pview s"
  "up s \<Longrightarrow> pview (snd (exec edb now qt s)) = pview s"
  by (simp_all add: snd_dao plugins_frame exts_frame)

lemmas pdb_laws = plugins.dao_laws exts.dao_laws plugin_frames

text \<open>The plugin with a key that is not deleted; at most one.\<close>

lemma GetByKey_laws:
  "up s \<Longrightarrow> fst (plugin_GetByKey pdb now key s) =
     Inr (List.find (\<lambda>p. pl_DeletedAt p = None \<and> pl_Key p = key) (pview s))"
  "up s \<Longrightarrow> up (snd (plugin_GetByKey pdb now key s))"
  "up s \<Longrightarrow> pview (snd (plugin_GetByKey pdb now key s)) = pview s"
  "up s \<Longrightarrow> eview (snd (plugin_GetByKey pdb now key s)) = eview s"
  by (simp_all add: plugin_repo_defs pdb_laws first_row_def sees_def [abs_def])

lemma keys_distinct: "up s \<Longrightarrow> distinct (map pl_Key (pview s))"
  using plugins.view_indexed [of s] by (simp add: indexed_def distinct_map inj_on_def)

lemma ids_distinct: "up s \<Longrightarrow> distinct (map pl_ID (pview s))"
  using plugins.view_indexed [of s] by (simp add: indexed_def strict_sorted_iff)

lemma UpdateState_laws:
  "up s \<Longrightarrow> fst (UpdateState pdb now i st s) = Inr ()"
  "up s \<Longrightarrow> up (snd (UpdateState pdb now i st s))"
  "up s \<Longrightarrow> eview (snd (UpdateState pdb now i st s)) = eview s"
  "up s \<Longrightarrow> pview (snd (UpdateState pdb now i st s)) =
     map (\<lambda>p. if pl_DeletedAt p = None \<and> pl_ID p = i
              then p\<lparr>pl_State := st, pl_UpdatedAt := now,
                     pl_EnabledAt := (if st = PluginStateEnabled then Some now else pl_EnabledAt p)\<rparr>
              else p) (pview s)"
  by (simp_all add: UpdateState_def dao_UpdateState_def Let_def pdb_laws plain_col_def sees_def assign_def
        plugin_set_def cong: if_cong)

lemma delete_plugin_laws:
  "up s \<Longrightarrow> fst (DeleteByKey pdb now key s) = Inr ()"
  "up s \<Longrightarrow> up (snd (DeleteByKey pdb now key s))"
  "up s \<Longrightarrow> eview (snd (DeleteByKey pdb now key s)) = eview s"
  "up s \<Longrightarrow> pview (snd (DeleteByKey pdb now key s)) =
     map (\<lambda>p. if pl_DeletedAt p = None \<and> pl_Key p = key then p\<lparr>pl_DeletedAt := Some now\<rparr> else p) (pview s)"
  by (simp_all add: plugin_repo_defs pdb_laws sees_def)

lemma delete_exts_laws:
  "up s \<Longrightarrow> fst (DeleteByPluginID edb now i s) = Inr ()"
  "up s \<Longrightarrow> up (snd (DeleteByPluginID edb now i s))"
  "up s \<Longrightarrow> pview (snd (DeleteByPluginID edb now i s)) = pview s"
  "up s \<Longrightarrow> eview (snd (DeleteByPluginID edb now i s)) =
     map (\<lambda>x. if px_DeletedAt x = None \<and> px_PluginID x = i then x\<lparr>px_DeletedAt := Some now\<rparr> else x) (eview s)"
  by (simp_all add: plugin_repo_defs pdb_laws sees_def)

lemma ListByState_laws:
  assumes "up s"
  shows "\<exists>ps. fst (ListByState pdb now st s) = Inr ps
    \<and> mset ps = mset (filter (\<lambda>p. pl_DeletedAt p = None \<and> pl_State p = st) (pview s))"
    and "up (snd (ListByState pdb now st s))"
    and "pview (snd (ListByState pdb now st s)) = pview s"
    and "eview (snd (ListByState pdb now st s)) = eview s"
proof -
  show "\<exists>ps. fst (ListByState pdb now st s) = Inr ps
      \<and> mset ps = mset (filter (\<lambda>p. pl_DeletedAt p = None \<and> pl_State p = st) (pview s))"
    using plugins.find_rows_laws(1) [OF assms, of None now "CEq ''state'' (VStr st)" "Asc ''name''"]
    by (auto simp: plugin_repo_defs page_ok_def page_rows_def sees_def [abs_def])
  show "up (snd (ListByState pdb now st s))" "pview (snd (ListByState pdb now st s)) = pview s"
    "eview (snd (ListByState pdb now st s)) = eview s"
    by (simp_all add: plugin_repo_defs pdb_laws assms)
qed

lemma GetByPluginID_laws:
  assumes "up s"
  shows "\<exists>xs. fst (GetByPluginID edb now i s) = Inr xs
    \<and> mset xs = mset (filter (\<lambda>x. px_DeletedAt x = None \<and> px_PluginID x = i) (eview s))"
    and "up (snd (GetByPluginID edb now i s))"
    and "pview (snd (GetByPluginID edb now i s)) = pview s"
    and "eview (snd (GetByPluginID edb now i s)) = eview s"
proof -
  show "\<exists>xs. fst (GetByPluginID edb now i s) = Inr xs
      \<and> mset xs = mset (filter (\<lambda>x. px_DeletedAt x = None \<and> px_PluginID x = i) (eview s))"
    using exts.find_rows_laws(1) [OF assms, of None now "CEq ''plugin_id'' (VInt i)" Unordered]
    by (auto simp: plugin_repo_defs page_ok_def page_rows_def sees_def [abs_def])
  show "up (snd (GetByPluginID edb now i s))" "pview (snd (GetByPluginID edb now i s)) = pview s"
    "eview (snd (GetByPluginID edb now i s)) = eview s"
    by (simp_all add: plugin_repo_defs pdb_laws assms)
qed

lemma ExistsByKey_laws:
  "up s \<Longrightarrow> fst (ExistsByKey pdb now key s) = Inr (\<exists>p \<in> set (pview s). pl_DeletedAt p = None \<and> pl_Key p = key)"
  "up s \<Longrightarrow> up (snd (ExistsByKey pdb now key s))"
  "up s \<Longrightarrow> pview (snd (ExistsByKey pdb now key s)) = pview s"
  "up s \<Longrightarrow> eview (snd (ExistsByKey pdb now key s)) = eview s"
  by (simp_all add: plugin_repo_defs pdb_laws sees_def list_ex_iff)

end

subsection \<open>The database in memory\<close>

type_synonym mem_plugin_db = "Plugin list \<times> PluginExtension list"

definition mem_plugins :: "(mem_plugin_db, Plugin) table" where
  "mem_plugins = mem_table plugin_schema fst (\<lambda>ps (_, xs). (ps, xs)) (\<lambda>_ _. True)"

definition mem_exts :: "(mem_plugin_db, PluginExtension) table" where
  "mem_exts = mem_table ext_schema snd (\<lambda>xs (ps, _). (ps, xs)) (\<lambda>s x. px_PluginID x \<in> pl_ID ` set (fst s))"

definition mem_plugin_up :: "mem_plugin_db \<Rightarrow> bool" where
  "mem_plugin_up s \<longleftrightarrow> indexed plugin_schema (fst s) \<and> indexed ext_schema (snd s)"

interpretation mem_plug: plugin_db mem_plugins fst mem_exts snd mem_plugin_up
proof (intro plugin_db.intro plugin_db_axioms.intro)
  show "sql_table plugin_schema mem_plugins fst mem_plugin_up (\<lambda>_ _. True)"
    unfolding mem_plugins_def by (rule pls.mem_table_laws) (auto simp: mem_plugin_up_def)
  show "sql_table ext_schema mem_exts snd mem_plugin_up (\<lambda>s x. px_PluginID x \<in> pl_ID ` set (fst s))"
    unfolding mem_exts_def by (rule pxs.mem_table_laws) (auto simp: mem_plugin_up_def)
qed (auto simp: mem_plugins_def mem_exts_def mem_table_def split: prod.splits)

end
