(* ===== verification/Redis_Client.thy ===== *)
theory Redis_Client
  imports Job_Model "HOL-Library.Sublist"
begin

text \<open>
  The Redis server and its Go client are not part of the repository. The operations of the
  job system therefore take them as an argument: a function that executes one command at an
  instant on an opaque server state and returns the reply. What the job system relies on,
  the documented effect of the commands it sends, is the locale \<open>redis_client\<close>: one law per
  command, over a view of the server state. An in-memory store that satisfies the laws
  (and is executable, for the concrete examples) closes the theory.

  A key is used with one type of value only, which its prefix determines (\<open>key_type\<close>); the
  laws speak about commands sent to keys of the right type. A string value carries the
  instant it expires at; from then on no command sees it.
\<close>

subsection \<open>Commands and replies\<close>

text \<open>A stored string is kept as what it was made from: a text or a JSON document.\<close>

datatype blob = Text string | Doc json

datatype cmd =
    GET string | SET string blob duration | SETNX string blob duration
  | DEL string | EXISTS string | EXPIRE string duration
  | LPUSH string string | RPOP string | LRANGE string int int | LREM string int string | LLEN string
  | HSET string string string | HDEL string string | HINCRBY string string int | HGETALL string
  | SADD string string | SREM string string | SMEMBERS string
  | ZADD string real string | ZREM string string | ZRANGEBYSCORE string real | ZCARD string

datatype reply =
    ROk | RNil | RInt int | RBulk blob | RStrings "string list" | RPairs "(string \<times> string) list" | RErr

type_synonym 's redis = "time \<Rightarrow> cmd \<Rightarrow> 's \<Rightarrow> reply \<times> 's"

datatype key_type = TStr | TList | TZset | THash | TSet

definition key_type :: "string \<Rightarrow> key_type" where
  "key_type k =
     (if prefix ''arcana:jobs:queue:'' k \<or> k = ''arcana:jobs:dlq'' then TList
      else if k = ''arcana:jobs:scheduled'' then TZset
      else if k = ''arcana:jobs:stats'' \<or> k = ''arcana:jobs:running'' then THash
      else if prefix ''arcana:jobs:worker:'' k then TSet
      else TStr)"

subsection \<open>What the server holds\<close>

record redis_view =
  rv_str :: "string \<Rightarrow> (blob \<times> time option) option"
  rv_list :: "string \<Rightarrow> string list"
  rv_zset :: "string \<Rightarrow> (string \<rightharpoonup> real)"
  rv_hash :: "string \<Rightarrow> (string \<rightharpoonup> string)"
  rv_set :: "string \<Rightarrow> string set"

text \<open>The client sends a positive expiry in whole milliseconds, at least one; a zero or
  negative one means none.\<close>

definition px :: "duration \<Rightarrow> duration" where
  "px ttl = (if ttl < millisecond then millisecond else ttl div millisecond * millisecond)"

text \<open>The \<^verbatim>\<open>Expire\<close> of the client sends whole seconds, at least one.\<close>

definition ex :: "duration \<Rightarrow> duration" where
  "ex ttl = (if 0 < ttl \<and> ttl < second then second else ttl div second * second)"

definition expiry :: "time \<Rightarrow> duration \<Rightarrow> time option" where
  "expiry now ttl = (if ttl > 0 then Some (now + px ttl) else None)"

definition live :: "time \<Rightarrow> time option \<Rightarrow> bool" where
  "live now e = (case e of None \<Rightarrow> True | Some t \<Rightarrow> now < t)"

definition look :: "redis_view \<Rightarrow> time \<Rightarrow> string \<Rightarrow> blob option" where
  "look v now k = (case rv_str v k of None \<Rightarrow> None | Some (b, e) \<Rightarrow> if live now e then Some b else None)"

text \<open>Decimal numbers as the hash commands and \<^verbatim>\<open>%d\<close> read them.\<close>

fun digits_val :: "int \<Rightarrow> string \<Rightarrow> int option" where
  "digits_val acc [] = Some acc"
| "digits_val acc (c # cs) =
     (if 48 \<le> (of_char c :: nat) \<and> (of_char c :: nat) \<le> 57
      then digits_val (10 * acc + (int (of_char c) - 48)) cs else None)"

definition atoi :: "string \<Rightarrow> int option" where
  "atoi s = (case s of [] \<Rightarrow> None
     | c # cs \<Rightarrow> if c = CHR ''-'' then (if cs = [] then None else map_option uminus (digits_val 0 cs))
               else digits_val 0 s)"

definition hash_incr :: "(string \<rightharpoonup> string) \<Rightarrow> string \<Rightarrow> int \<Rightarrow> (string \<rightharpoonup> string)" where
  "hash_incr h f n =
     (case h f of
        None \<Rightarrow> h(f \<mapsto> itoa n)
      | Some s \<Rightarrow> (case atoi s of
          None \<Rightarrow> h
        | Some m \<Rightarrow> if in_int64 (m + n) then h(f \<mapsto> itoa (m + n)) else h))"

text \<open>The elements of a list between two indices, negative ones counted from the end.\<close>

definition list_range :: "int \<Rightarrow> int \<Rightarrow> 'a list \<Rightarrow> 'a list" where
  "list_range i j xs =
     (let n = int (length xs);
          i1 = (if i < 0 then max 0 (n + i) else i);
          j1 = (if j < 0 then n + j else min j (n - 1))
      in if i1 > j1 then [] else take (nat (j1 - i1 + 1)) (drop (nat i1) xs))"

definition list_rem :: "int \<Rightarrow> 'a \<Rightarrow> 'a list \<Rightarrow> 'a list" where
  "list_rem n x xs =
     (if n = 0 then removeAll x xs
      else if n = 1 then remove1 x xs else xs)"

subsection \<open>The laws\<close>

locale redis_client =
  fixes redis :: "'s redis" and view :: "'s \<Rightarrow> redis_view" and up :: "'s \<Rightarrow> bool"
  assumes stays_up: "up s \<Longrightarrow> up (snd (redis now c s))"
    and GET_reply: "up s \<Longrightarrow> key_type k = TStr \<Longrightarrow>
      fst (redis now (GET k) s) = (case look (view s) now k of None \<Rightarrow> RNil | Some b \<Rightarrow> RBulk b)"
    and GET_view: "up s \<Longrightarrow> view (snd (redis now (GET k) s)) = view s"
    and SET_reply: "up s \<Longrightarrow> key_type k = TStr \<Longrightarrow> ttl \<noteq> - 1 \<Longrightarrow> fst (redis now (SET k b ttl) s) = ROk"
    and SET_view: "up s \<Longrightarrow> key_type k = TStr \<Longrightarrow> ttl \<noteq> - 1 \<Longrightarrow>
      view (snd (redis now (SET k b ttl) s)) = (view s)\<lparr>rv_str := (rv_str (view s))(k \<mapsto> (b, expiry now ttl))\<rparr>"
    and SETNX_reply: "up s \<Longrightarrow> key_type k = TStr \<Longrightarrow> 0 \<le> ttl \<Longrightarrow>
      fst (redis now (SETNX k b ttl) s) = (if look (view s) now k = None then RInt 1 else RInt 0)"
    and SETNX_view: "up s \<Longrightarrow> key_type k = TStr \<Longrightarrow> 0 \<le> ttl \<Longrightarrow>
      view (snd (redis now (SETNX k b ttl) s)) =
        (if look (view s) now k = None
         then (view s)\<lparr>rv_str := (rv_str (view s))(k \<mapsto> (b, expiry now ttl))\<rparr> else view s)"
    and DEL_reply: "up s \<Longrightarrow> key_type k = TStr \<Longrightarrow>
      fst (redis now (DEL k) s) = (if look (view s) now k = None then RInt 0 else RInt 1)"
    and DEL_view: "up s \<Longrightarrow> key_type k = TStr \<Longrightarrow>
      view (snd (redis now (DEL k) s)) = (view s)\<lparr>rv_str := (rv_str (view s))(k := None)\<rparr>"
    and DEL_set_view: "up s \<Longrightarrow> key_type k = TSet \<Longrightarrow>
      view (snd (redis now (DEL k) s)) = (view s)\<lparr>rv_set := (rv_set (view s))(k := {})\<rparr>"
    and EXISTS_reply: "up s \<Longrightarrow> key_type k = TStr \<Longrightarrow>
      fst (redis now (EXISTS k) s) = (if look (view s) now k = None then RInt 0 else RInt 1)"
    and EXISTS_view: "up s \<Longrightarrow> view (snd (redis now (EXISTS k) s)) = view s"
    and EXPIRE_reply: "up s \<Longrightarrow> key_type k = TStr \<Longrightarrow> 0 < ttl \<Longrightarrow>
      fst (redis now (EXPIRE k ttl) s) = (if look (view s) now k = None then RInt 0 else RInt 1)"
    and EXPIRE_view: "up s \<Longrightarrow> key_type k = TStr \<Longrightarrow> 0 < ttl \<Longrightarrow>
      view (snd (redis now (EXPIRE k ttl) s)) =
        (case look (view s) now k of None \<Rightarrow> view s
         | Some b \<Rightarrow> (view s)\<lparr>rv_str := (rv_str (view s))(k \<mapsto> (b, expiry now ttl))\<rparr>)"
    and LPUSH_reply: "up s \<Longrightarrow> key_type k = TList \<Longrightarrow>
      fst (redis now (LPUSH k x) s) = RInt (int (length (rv_list (view s) k)) + 1)"
    and LPUSH_view: "up s \<Longrightarrow> key_type k = TList \<Longrightarrow>
      view (snd (redis now (LPUSH k x) s)) = (view s)\<lparr>rv_list := (rv_list (view s))(k := x # rv_list (view s) k)\<rparr>"
    and RPOP_reply: "up s \<Longrightarrow> key_type k = TList \<Longrightarrow>
      fst (redis now (RPOP k) s) =
        (if rv_list (view s) k = [] then RNil else RBulk (Text (last (rv_list (view s) k))))"
    and RPOP_view: "up s \<Longrightarrow> key_type k = TList \<Longrightarrow>
      view (snd (redis now (RPOP k) s)) = (view s)\<lparr>rv_list := (rv_list (view s))(k := butlast (rv_list (view s) k))\<rparr>"
    and LRANGE_reply: "up s \<Longrightarrow> key_type k = TList \<Longrightarrow>
      fst (redis now (LRANGE k i j) s) = RStrings (list_range i j (rv_list (view s) k))"
    and LRANGE_view: "up s \<Longrightarrow> view (snd (redis now (LRANGE k i j) s)) = view s"
    and LREM_reply: "up s \<Longrightarrow> key_type k = TList \<Longrightarrow> n \<in> {0, 1} \<Longrightarrow>
      fst (redis now (LREM k n x) s) =
        RInt (int (length (rv_list (view s) k)) - int (length (list_rem n x (rv_list (view s) k))))"
    and LREM_view: "up s \<Longrightarrow> key_type k = TList \<Longrightarrow> n \<in> {0, 1} \<Longrightarrow>
      view (snd (redis now (LREM k n x) s)) =
        (view s)\<lparr>rv_list := (rv_list (view s))(k := list_rem n x (rv_list (view s) k))\<rparr>"
    and LLEN_reply: "up s \<Longrightarrow> key_type k = TList \<Longrightarrow>
      fst (redis now (LLEN k) s) = RInt (int (length (rv_list (view s) k)))"
    and LLEN_view: "up s \<Longrightarrow> view (snd (redis now (LLEN k) s)) = view s"
    and HSET_view: "up s \<Longrightarrow> key_type k = THash \<Longrightarrow>
      view (snd (redis now (HSET k f x) s)) = (view s)\<lparr>rv_hash := (rv_hash (view s))(k := (rv_hash (view s) k)(f \<mapsto> x))\<rparr>"
    and HDEL_view: "up s \<Longrightarrow> key_type k = THash \<Longrightarrow>
      view (snd (redis now (HDEL k f) s)) = (view s)\<lparr>rv_hash := (rv_hash (view s))(k := (rv_hash (view s) k)(f := None))\<rparr>"
    and HINCRBY_view: "up s \<Longrightarrow> key_type k = THash \<Longrightarrow>
      view (snd (redis now (HINCRBY k f n) s)) = (view s)\<lparr>rv_hash := (rv_hash (view s))(k := hash_incr (rv_hash (view s) k) f n)\<rparr>"
    and HGETALL_reply: "up s \<Longrightarrow> key_type k = THash \<Longrightarrow>
      \<exists>ps. fst (redis now (HGETALL k) s) = RPairs ps \<and> distinct (map fst ps) \<and> map_of ps = rv_hash (view s) k"
    and HGETALL_view: "up s \<Longrightarrow> view (snd (redis now (HGETALL k) s)) = view s"
    and SADD_view: "up s \<Longrightarrow> key_type k = TSet \<Longrightarrow>
      view (snd (redis now (SADD k x) s)) = (view s)\<lparr>rv_set := (rv_set (view s))(k := insert x (rv_set (view s) k))\<rparr>"
    and SREM_view: "up s \<Longrightarrow> key_type k = TSet \<Longrightarrow>
      view (snd (redis now (SREM k x) s)) = (view s)\<lparr>rv_set := (rv_set (view s))(k := rv_set (view s) k - {x})\<rparr>"
    and SMEMBERS_reply: "up s \<Longrightarrow> key_type k = TSet \<Longrightarrow>
      \<exists>xs. fst (redis now (SMEMBERS k) s) = RStrings xs \<and> distinct xs \<and> set xs = rv_set (view s) k"
    and SMEMBERS_view: "up s \<Longrightarrow> view (snd (redis now (SMEMBERS k) s)) = view s"
    and ZADD_reply: "up s \<Longrightarrow> key_type k = TZset \<Longrightarrow>
      fst (redis now (ZADD k sc m) s) = RInt (if rv_zset (view s) k m = None then 1 else 0)"
    and ZADD_view: "up s \<Longrightarrow> key_type k = TZset \<Longrightarrow>
      view (snd (redis now (ZADD k sc m) s)) = (view s)\<lparr>rv_zset := (rv_zset (view s))(k := (rv_zset (view s) k)(m \<mapsto> sc))\<rparr>"
    and ZREM_reply: "up s \<Longrightarrow> key_type k = TZset \<Longrightarrow>
      fst (redis now (ZREM k m) s) = RInt (if rv_zset (view s) k m = None then 0 else 1)"
    and ZREM_view: "up s \<Longrightarrow> key_type k = TZset \<Longrightarrow>
      view (snd (redis now (ZREM k m) s)) = (view s)\<lparr>rv_zset := (rv_zset (view s))(k := (rv_zset (view s) k)(m := None))\<rparr>"
    and ZRANGEBYSCORE_reply: "up s \<Longrightarrow> key_type k = TZset \<Longrightarrow>
      \<exists>ms. fst (redis now (ZRANGEBYSCORE k mx) s) = RStrings ms \<and> distinct ms
         \<and> set ms = {m. \<exists>sc. rv_zset (view s) k m = Some sc \<and> sc \<le> mx}
         \<and> sorted (map (\<lambda>m. the (rv_zset (view s) k m)) ms)"
    and ZRANGEBYSCORE_view: "up s \<Longrightarrow> view (snd (redis now (ZRANGEBYSCORE k mx) s)) = view s"
    and ZCARD_reply: "up s \<Longrightarrow> key_type k = TZset \<Longrightarrow>
      fst (redis now (ZCARD k) s) = RInt (int (card (dom (rv_zset (view s) k))))"
    and ZCARD_view: "up s \<Longrightarrow> view (snd (redis now (ZCARD k) s)) = view s"
begin

lemmas string_laws = GET_reply GET_view SET_reply SET_view SETNX_reply SETNX_view DEL_reply DEL_view
  EXISTS_reply EXISTS_view EXPIRE_reply EXPIRE_view

lemmas list_laws = LPUSH_reply LPUSH_view RPOP_reply RPOP_view LRANGE_reply LRANGE_view
  LREM_reply LREM_view LLEN_reply LLEN_view

lemmas other_laws = DEL_set_view HSET_view HDEL_view HINCRBY_view HGETALL_view SADD_view SREM_view
  SMEMBERS_view ZADD_reply ZADD_view ZREM_reply ZREM_view ZRANGEBYSCORE_view ZCARD_reply ZCARD_view

lemmas laws = stays_up string_laws list_laws other_laws

end

text \<open>A command that is sent to a key of its type, with arguments the laws speak about, does
  not touch the string under any other key.\<close>

fun cmd_key :: "cmd \<Rightarrow> string" where
  "cmd_key (GET k) = k" | "cmd_key (SET k _ _) = k" | "cmd_key (SETNX k _ _) = k" | "cmd_key (DEL k) = k"
| "cmd_key (EXISTS k) = k" | "cmd_key (EXPIRE k _) = k" | "cmd_key (LPUSH k _) = k" | "cmd_key (RPOP k) = k"
| "cmd_key (LRANGE k _ _) = k" | "cmd_key (LREM k _ _) = k" | "cmd_key (LLEN k) = k" | "cmd_key (HSET k _ _) = k"
| "cmd_key (HDEL k _) = k" | "cmd_key (HINCRBY k _ _) = k" | "cmd_key (HGETALL k) = k" | "cmd_key (SADD k _) = k"
| "cmd_key (SREM k _) = k" | "cmd_key (SMEMBERS k) = k" | "cmd_key (ZADD k _ _) = k" | "cmd_key (ZREM k _) = k"
| "cmd_key (ZRANGEBYSCORE k _) = k" | "cmd_key (ZCARD k) = k"

fun well_typed :: "cmd \<Rightarrow> bool" where
  "well_typed (GET k) = (key_type k = TStr)" | "well_typed (SET k _ ttl) = (key_type k = TStr \<and> ttl \<noteq> - 1)"
| "well_typed (SETNX k _ ttl) = (key_type k = TStr \<and> 0 \<le> ttl)" | "well_typed (DEL k) = (key_type k \<in> {TStr, TSet})"
| "well_typed (EXISTS k) = (key_type k = TStr)" | "well_typed (EXPIRE k ttl) = (key_type k = TStr \<and> 0 < ttl)"
| "well_typed (LPUSH k _) = (key_type k = TList)" | "well_typed (RPOP k) = (key_type k = TList)"
| "well_typed (LRANGE k _ _) = (key_type k = TList)" | "well_typed (LREM k n _) = (key_type k = TList \<and> n \<in> {0, 1})"
| "well_typed (LLEN k) = (key_type k = TList)" | "well_typed (HSET k _ _) = (key_type k = THash)"
| "well_typed (HDEL k _) = (key_type k = THash)" | "well_typed (HINCRBY k _ _) = (key_type k = THash)"
| "well_typed (HGETALL k) = (key_type k = THash)" | "well_typed (SADD k _) = (key_type k = TSet)"
| "well_typed (SREM k _) = (key_type k = TSet)" | "well_typed (SMEMBERS k) = (key_type k = TSet)"
| "well_typed (ZADD k _ _) = (key_type k = TZset)" | "well_typed (ZREM k _) = (key_type k = TZset)"
| "well_typed (ZRANGEBYSCORE k _) = (key_type k = TZset)" | "well_typed (ZCARD k) = (key_type k = TZset)"

context redis_client
begin

lemma other_key_untouched:
  "up s \<Longrightarrow> well_typed c \<Longrightarrow> cmd_key c \<noteq> k \<Longrightarrow> rv_str (view (snd (redis now c s))) k = rv_str (view s) k"
  by (cases c) (auto simp: laws split: option.splits)

end

subsection \<open>Helper facts\<close>

lemma px_pos: "0 < px ttl"
  by (auto simp: px_def pos_imp_zdiv_pos_iff)

lemma px_whole: "0 < ttl \<Longrightarrow> millisecond dvd ttl \<Longrightarrow> px ttl = ttl"
  by (auto simp: px_def dvd_def)

lemma digits_val_append: "digits_val a (xs @ ys) = (case digits_val a xs of None \<Rightarrow> None | Some b \<Rightarrow> digits_val b ys)"
  by (induction xs arbitrary: a) auto

lemma digits_val_nat: "digits_val 0 (nat_digits n) = Some (int n)"
proof (induction n rule: nat_digits.induct)
  case (1 n)
  have c: "(of_char (char_of (48 + m) :: char) :: nat) = 48 + m" if "m < 10" for m :: nat
    using that by (simp add: take_bit_eq_mod)
  show ?case
  proof (cases "n < 10")
    case True
    then show ?thesis using c [OF True] by (subst nat_digits.simps) simp
  next
    case False
    have m: "n mod 10 < 10" by simp
    have "int n = 10 * int (n div 10) + int (n mod 10)" by (metis mult_div_mod_eq of_nat_add of_nat_mult of_nat_numeral)
    then show ?thesis using False 1 c [OF m]
      by (subst nat_digits.simps) (simp add: digits_val_append)
  qed
qed

lemma nat_digits_hd: "nat_digits n \<noteq> [] \<and> hd (nat_digits n) \<noteq> CHR ''-''"
proof -
  have "nat_digits n \<noteq> []" by (subst nat_digits.simps) simp
  then have "48 \<le> (of_char (hd (nat_digits n)) :: nat)" using nat_digits_range [of "hd (nat_digits n)" n] by simp
  then have "hd (nat_digits n) \<noteq> CHR ''-''" by auto
  with \<open>nat_digits n \<noteq> []\<close> show ?thesis by simp
qed

lemma atoi_itoa [simp]: "atoi (itoa n) = Some n"
proof (cases "n < 0")
  case True
  then show ?thesis using nat_digits_hd by (simp add: itoa_def atoi_def digits_val_nat)
next
  case False
  obtain c cs where "nat_digits (nat n) = c # cs" "c \<noteq> CHR ''-''"
    using nat_digits_hd [of "nat n"] by (cases "nat_digits (nat n)") auto
  then show ?thesis using False digits_val_nat [of "nat n"] by (simp add: itoa_def atoi_def)
qed

subsection \<open>An in-memory store\<close>

text \<open>Strings and lists as functions; sorted sets, hashes and sets as lists without
  repeated members, so that the commands that enumerate them can be executed.\<close>

record mem =
  m_str :: "string \<Rightarrow> (blob \<times> time option) option"
  m_list :: "string \<Rightarrow> string list"
  m_zset :: "string \<Rightarrow> (string \<times> real) list"
  m_hash :: "string \<Rightarrow> (string \<times> string) list"
  m_set :: "string \<Rightarrow> string list"

definition mem_view :: "mem \<Rightarrow> redis_view" where
  "mem_view m = \<lparr>rv_str = m_str m, rv_list = m_list m, rv_zset = (\<lambda>k. map_of (m_zset m k)),
     rv_hash = (\<lambda>k. map_of (m_hash m k)), rv_set = (\<lambda>k. set (m_set m k))\<rparr>"

definition mem_up :: "mem \<Rightarrow> bool" where
  "mem_up m \<longleftrightarrow> (\<forall>k. distinct (map fst (m_zset m k)) \<and> sorted (map snd (m_zset m k))
     \<and> distinct (map fst (m_hash m k)) \<and> distinct (m_set m k))"

definition without :: "'a \<Rightarrow> ('a \<times> 'b) list \<Rightarrow> ('a \<times> 'b) list" where
  "without x ps = filter (\<lambda>p. fst p \<noteq> x) ps"

definition mem_incr :: "string \<Rightarrow> int \<Rightarrow> (string \<times> string) list \<Rightarrow> (string \<times> string) list" where
  "mem_incr f n ps =
     (case map_of ps f of
        None \<Rightarrow> (f, itoa n) # ps
      | Some s \<Rightarrow> (case atoi s of
          None \<Rightarrow> ps
        | Some m \<Rightarrow> if in_int64 (m + n) then (f, itoa (m + n)) # without f ps else ps))"

abbreviation mem_look :: "mem \<Rightarrow> time \<Rightarrow> string \<Rightarrow> blob option" where
  "mem_look m now k \<equiv> look (mem_view m) now k"

fun mem_redis :: "mem redis" where
  "mem_redis now (GET k) m = (case mem_look m now k of None \<Rightarrow> RNil | Some b \<Rightarrow> RBulk b, m)"
| "mem_redis now (SET k b ttl) m = (ROk, m\<lparr>m_str := (m_str m)(k \<mapsto> (b, expiry now ttl))\<rparr>)"
| "mem_redis now (SETNX k b ttl) m =
     (if mem_look m now k = None then (RInt 1, m\<lparr>m_str := (m_str m)(k \<mapsto> (b, expiry now ttl))\<rparr>) else (RInt 0, m))"
| "mem_redis now (DEL k) m =
     (if key_type k = TSet then (RInt 0, m\<lparr>m_set := (m_set m)(k := [])\<rparr>)
      else (if mem_look m now k = None then RInt 0 else RInt 1, m\<lparr>m_str := (m_str m)(k := None)\<rparr>))"
| "mem_redis now (EXISTS k) m = (if mem_look m now k = None then RInt 0 else RInt 1, m)"
| "mem_redis now (EXPIRE k ttl) m =
     (case mem_look m now k of None \<Rightarrow> (RInt 0, m)
      | Some b \<Rightarrow> (RInt 1, m\<lparr>m_str := (m_str m)(k \<mapsto> (b, expiry now ttl))\<rparr>))"
| "mem_redis now (LPUSH k x) m = (RInt (int (length (m_list m k)) + 1), m\<lparr>m_list := (m_list m)(k := x # m_list m k)\<rparr>)"
| "mem_redis now (RPOP k) m =
     (if m_list m k = [] then RNil else RBulk (Text (last (m_list m k))), m\<lparr>m_list := (m_list m)(k := butlast (m_list m k))\<rparr>)"
| "mem_redis now (LRANGE k i j) m = (RStrings (list_range i j (m_list m k)), m)"
| "mem_redis now (LREM k n x) m =
     (RInt (int (length (m_list m k)) - int (length (list_rem n x (m_list m k)))),
      m\<lparr>m_list := (m_list m)(k := list_rem n x (m_list m k))\<rparr>)"
| "mem_redis now (LLEN k) m = (RInt (int (length (m_list m k))), m)"
| "mem_redis now (HSET k f x) m = (RInt 1, m\<lparr>m_hash := (m_hash m)(k := (f, x) # without f (m_hash m k))\<rparr>)"
| "mem_redis now (HDEL k f) m = (RInt 1, m\<lparr>m_hash := (m_hash m)(k := without f (m_hash m k))\<rparr>)"
| "mem_redis now (HINCRBY k f n) m = (RInt n, m\<lparr>m_hash := (m_hash m)(k := mem_incr f n (m_hash m k))\<rparr>)"
| "mem_redis now (HGETALL k) m = (RPairs (m_hash m k), m)"
| "mem_redis now (SADD k x) m = (RInt 1, m\<lparr>m_set := (m_set m)(k := List.insert x (m_set m k))\<rparr>)"
| "mem_redis now (SREM k x) m = (RInt 1, m\<lparr>m_set := (m_set m)(k := removeAll x (m_set m k))\<rparr>)"
| "mem_redis now (SMEMBERS k) m = (RStrings (m_set m k), m)"
| "mem_redis now (ZADD k sc x) m =
     (RInt (if map_of (m_zset m k) x = None then 1 else 0),
      m\<lparr>m_zset := (m_zset m)(k := insort_key snd (x, sc) (without x (m_zset m k)))\<rparr>)"
| "mem_redis now (ZREM k x) m =
     (RInt (if map_of (m_zset m k) x = None then 0 else 1), m\<lparr>m_zset := (m_zset m)(k := without x (m_zset m k))\<rparr>)"
| "mem_redis now (ZRANGEBYSCORE k mx) m = (RStrings (map fst (filter (\<lambda>p. snd p \<le> mx) (m_zset m k))), m)"
| "mem_redis now (ZCARD k) m = (RInt (int (length (m_zset m k))), m)"

lemma map_of_without: "map_of (without x ps) = (map_of ps)(x := None)"
  by (induction ps) (auto simp: without_def fun_eq_iff)

lemma distinct_without: "distinct (map fst ps) \<Longrightarrow> distinct (map fst (without x ps)) \<and> x \<notin> fst ` set (without x ps)"
  by (auto simp: without_def distinct_map inj_on_def)

lemma sorted_without: "sorted (map snd ps) \<Longrightarrow> sorted (map snd (without x ps))"
  by (simp add: without_def sorted_filter)

lemma set_insort_pair: "set (insort_key snd p ps) = insert p (set ps)"
  by (simp add: set_insort_key)

lemma distinct_insort_pair:
  "distinct (map fst ps) \<Longrightarrow> x \<notin> fst ` set ps \<Longrightarrow> distinct (map fst (insort_key snd (x, sc) ps))"
  by (induction ps) (auto simp: set_insort_key)

lemma map_of_insort:
  "x \<notin> fst ` set ps \<Longrightarrow> map_of (insort_key snd (x, sc) ps) = (map_of ps)(x \<mapsto> sc)"
  by (induction ps) (auto simp: fun_eq_iff)

lemma mem_incr_view: "map_of (mem_incr f n ps) = hash_incr (map_of ps) f n"
  by (auto simp: mem_incr_def hash_incr_def map_of_without fun_eq_iff split: option.splits)

lemma mem_incr_distinct: "distinct (map fst ps) \<Longrightarrow> distinct (map fst (mem_incr f n ps))"
  using distinct_without [of ps f]
  by (auto simp: mem_incr_def map_of_eq_None_iff split: option.splits)

lemma mem_stays_up: "mem_up m \<Longrightarrow> mem_up (snd (mem_redis now c m))"
  by (cases c)
    (auto simp: mem_up_def distinct_without sorted_without sorted_insort_key distinct_insort_pair
      mem_incr_distinct distinct_removeAll split: option.splits)

lemma mem_zrange:
  assumes "distinct (map fst ps)" "sorted (map snd ps)"
  shows "distinct (map fst (filter (\<lambda>p. snd p \<le> mx) ps))
    \<and> set (map fst (filter (\<lambda>p. snd p \<le> mx) ps)) = {m. \<exists>sc. map_of ps m = Some sc \<and> sc \<le> (mx :: real)}
    \<and> sorted (map (\<lambda>m. the (map_of ps m)) (map fst (filter (\<lambda>p. snd p \<le> mx) ps)))"
proof -
  have "map (\<lambda>m. the (map_of ps m)) (map fst (filter (\<lambda>p. snd p \<le> mx) ps)) = map snd (filter (\<lambda>p. snd p \<le> mx) ps)"
    using assms(1) by (auto simp: map_of_is_SomeI)
  then have "sorted (map (\<lambda>m. the (map_of ps m)) (map fst (filter (\<lambda>p. snd p \<le> mx) ps)))"
    using assms(2) sorted_filter [of snd ps] by (simp only:)
  moreover have "distinct (map fst (filter (\<lambda>p. snd p \<le> mx) ps))"
    using assms(1) by (auto simp: distinct_map inj_on_def)
  moreover have "set (map fst (filter (\<lambda>p. snd p \<le> mx) ps)) = {m. \<exists>sc. map_of ps m = Some sc \<and> sc \<le> mx}"
    using assms(1) by (force simp: map_of_eq_Some_iff)
  ultimately show ?thesis by blast
qed

lemma mem_card: "distinct (map fst ps) \<Longrightarrow> card (dom (map_of ps)) = length ps"
  by (simp add: dom_map_of_conv_image_fst distinct_card flip: set_map)

lemma mem_zrange_reply:
  "mem_up m \<Longrightarrow> \<exists>ms. fst (mem_redis now (ZRANGEBYSCORE k mx) m) = RStrings ms \<and> distinct ms
     \<and> set ms = {x. \<exists>sc. rv_zset (mem_view m) k x = Some sc \<and> sc \<le> mx}
     \<and> sorted (map (\<lambda>x. the (rv_zset (mem_view m) k x)) ms)"
  using mem_zrange [of "m_zset m k" mx] by (simp add: mem_view_def mem_up_def)

interpretation mem: redis_client mem_redis mem_view mem_up
  by (unfold_locales; (rule mem_stays_up mem_zrange_reply)?)
    (auto simp: mem_view_def mem_up_def map_of_without mem_incr_view map_of_insort distinct_without
       mem_card fun_eq_iff look_def split: option.splits)

end
