(* ===== verification/Security.thy ===== *)
theory Security
  imports User_Dao Redis_Client
begin

text \<open>
  Tokens and passwords, \<^verbatim>\<open>internal/security/{jwt,password}.go\<close>. The JWT library and bcrypt are
  not part of the repository: signing, parsing, hashing and comparing are arguments, with what
  their documentation promises in the locales \<open>jwt_library\<close> and \<open>bcrypt_library\<close>. The claims are
  the JSON documents that \<^verbatim>\<open>encoding/json\<close> makes of the structs; reading a document into a struct
  ignores unknown fields and leaves absent ones at their zero value.

  Parsing takes, besides the clock, the documents that can be read into the struct the caller
  passes and the caller's key function, which sees the signing method of the token.
\<close>

subsection \<open>Claims\<close>

record RegisteredClaims =
  rc_Issuer :: string
  rc_Subject :: string
  rc_ExpiresAt :: "time option"
  rc_IssuedAt :: "time option"
  rc_ID :: string

record UserClaims =
  uc_UserID :: int
  uc_Username :: string
  uc_Email :: string
  uc_Role :: UserRole
  uc_Registered :: RegisteredClaims

text \<open>\<^verbatim>\<open>jwt.NewNumericDate\<close> keeps whole seconds.\<close>

definition NewNumericDate :: "time \<Rightarrow> time" where
  "NewNumericDate t = t div second * second"

definition date_doc :: "time \<Rightarrow> json" where
  "date_doc t = JNum (real_of_int (t div second))"

definition registered_fields :: "RegisteredClaims \<Rightarrow> (string \<times> json) list" where
  "registered_fields c =
     omit ''iss'' (nonempty (rc_Issuer c) (JStr (rc_Issuer c))) @
     omit ''sub'' (nonempty (rc_Subject c) (JStr (rc_Subject c))) @
     omit ''exp'' (map_option date_doc (rc_ExpiresAt c)) @
     omit ''iat'' (map_option date_doc (rc_IssuedAt c)) @
     omit ''jti'' (nonempty (rc_ID c) (JStr (rc_ID c)))"

definition registered_doc :: "RegisteredClaims \<Rightarrow> json" where
  "registered_doc c = JObj (registered_fields c)"

definition user_claims_doc :: "UserClaims \<Rightarrow> json" where
  "user_claims_doc c =
     JObj ([(''user_id'', JNum (real_of_int (uc_UserID c))), (''username'', JStr (uc_Username c)),
            (''email'', JStr (uc_Email c)), (''role'', JStr (uc_Role c))] @ registered_fields (uc_Registered c))"

fun as_date :: "json option \<Rightarrow> time option option" where
  "as_date None = Some None"
| "as_date (Some JNull) = Some None"
| "as_date (Some (JNum x)) = Some (Some (\<lfloor>x\<rfloor> * second))"
| "as_date (Some _) = None"

definition as_uint :: "json option \<Rightarrow> int option" where
  "as_uint d = do { n \<leftarrow> as_int d; if 0 \<le> n \<and> n < 2 ^ 64 then Some n else None }"

definition read_fields :: "(string \<times> json) list \<Rightarrow> RegisteredClaims option" where
  "read_fields fs = do {
     iss \<leftarrow> as_str (map_of fs ''iss'');
     sub \<leftarrow> as_str (map_of fs ''sub'');
     exp1 \<leftarrow> as_date (map_of fs ''exp'');
     iat \<leftarrow> as_date (map_of fs ''iat'');
     jti \<leftarrow> as_str (map_of fs ''jti'');
     Some \<lparr>rc_Issuer = iss, rc_Subject = sub, rc_ExpiresAt = exp1, rc_IssuedAt = iat, rc_ID = jti\<rparr> }"

definition read_registered :: "json \<Rightarrow> RegisteredClaims option" where
  "read_registered d = do { fs \<leftarrow> as_obj (Some d); read_fields fs }"

definition read_user_claims :: "json \<Rightarrow> UserClaims option" where
  "read_user_claims d = do {
     fs \<leftarrow> as_obj (Some d);
     uid \<leftarrow> as_uint (map_of fs ''user_id'');
     username \<leftarrow> as_str (map_of fs ''username'');
     email \<leftarrow> as_str (map_of fs ''email'');
     role \<leftarrow> as_str (map_of fs ''role'');
     reg \<leftarrow> read_fields fs;
     Some \<lparr>uc_UserID = uid, uc_Username = username, uc_Email = email, uc_Role = role, uc_Registered = reg\<rparr> }"

text \<open>A claim as the library looks at it to validate a token; the documents the code signs are flat.\<close>

definition claim :: "string \<Rightarrow> json \<Rightarrow> json option" where
  "claim k d = (case d of JObj fs \<Rightarrow> map_of fs k | _ \<Rightarrow> None)"

definition doc_expired :: "time \<Rightarrow> json \<Rightarrow> bool" where
  "doc_expired now d = (case as_date (claim ''exp'' d) of Some (Some t) \<Rightarrow> now \<ge> t | _ \<Rightarrow> False)"

fun flat_val :: "json \<Rightarrow> bool" where
  "flat_val (JStr _) = True"
| "flat_val (JNum x) = (x = real_of_int \<lfloor>x\<rfloor>)"
| "flat_val _ = False"

fun flat :: "json \<Rightarrow> bool" where
  "flat (JObj fs) = list_all (\<lambda>(k, v). flat_val v) fs"
| "flat _ = False"

subsection \<open>The libraries\<close>

datatype jwt_error = TokenMalformed | TokenUnverifiable | TokenSignatureInvalid | TokenExpired | TokenInvalidClaims

record jwt_lib =
  jl_sign :: "string \<Rightarrow> json \<Rightarrow> string \<Rightarrow> string option"
  jl_parse :: "time \<Rightarrow> (json \<Rightarrow> bool) \<Rightarrow> (string \<Rightarrow> string option) \<Rightarrow> string \<Rightarrow> jwt_error + json"

record bcrypt_lib =
  bc_generate :: "nat \<Rightarrow> string \<Rightarrow> int \<Rightarrow> string option"
  bc_compare :: "string \<Rightarrow> string \<Rightarrow> bool"

locale jwt_library =
  fixes jl :: jwt_lib
  assumes sign_ok: "flat d \<Longrightarrow> \<exists>tok. jl_sign jl ''HS256'' d key = Some tok"
    and parse_signed: "jl_sign jl ''HS256'' d key = Some tok \<Longrightarrow> flat d \<Longrightarrow> claim ''nbf'' d = None \<Longrightarrow>
      readable d \<Longrightarrow> keyfunc ''HS256'' = Some key \<Longrightarrow>
      jl_parse jl now readable keyfunc tok = (if doc_expired now d then Inl TokenExpired else Inr d)"
    and parse_checks: "jl_parse jl now readable keyfunc tok = Inr d \<Longrightarrow> readable d \<and> \<not> doc_expired now d"

text \<open>bcrypt takes at most 72 bytes; the first argument stands for the random salt.\<close>

locale bcrypt_library =
  fixes bl :: bcrypt_lib
  assumes generate_ok: "length pw \<le> 72 \<Longrightarrow> 4 \<le> cost \<Longrightarrow> cost \<le> 31 \<Longrightarrow> \<exists>h. bc_generate bl salt pw cost = Some h"
    and generate_long: "length pw > 72 \<Longrightarrow> bc_generate bl salt pw cost = None"
    and compare_generated: "bc_generate bl salt pw cost = Some h \<Longrightarrow> bc_compare bl h pw"

subsection \<open>Tokens\<close>

datatype token_error = TokErrInvalid | TokErrExpired

record JWTProvider =
  jw_secret :: string
  jw_accessTokenDuration :: duration
  jw_refreshTokenDuration :: duration
  jw_issuer :: string

record JWTConfig =
  jc_Secret :: string
  jc_AccessTokenDuration :: duration
  jc_RefreshTokenDuration :: duration
  jc_Issuer :: string

definition NewJWTProvider :: "JWTConfig \<Rightarrow> JWTProvider" where
  "NewJWTProvider cfg =
     \<lparr>jw_secret = jc_Secret cfg, jw_accessTokenDuration = jc_AccessTokenDuration cfg,
      jw_refreshTokenDuration = jc_RefreshTokenDuration cfg, jw_issuer = jc_Issuer cfg\<rparr>"

definition access_claims :: "JWTProvider \<Rightarrow> time \<Rightarrow> User \<Rightarrow> UserClaims" where
  "access_claims p now u =
     \<lparr>uc_UserID = u_ID u, uc_Username = u_Username u, uc_Email = u_Email u, uc_Role = u_Role u,
      uc_Registered = \<lparr>rc_Issuer = jw_issuer p, rc_Subject = u_Username u,
        rc_ExpiresAt = Some (NewNumericDate (now + jw_accessTokenDuration p)),
        rc_IssuedAt = Some (NewNumericDate now), rc_ID = []\<rparr>\<rparr>"

definition GenerateAccessToken :: "jwt_lib \<Rightarrow> JWTProvider \<Rightarrow> time \<Rightarrow> User \<Rightarrow> svc_error + string" where
  "GenerateAccessToken jl p now u =
     (case jl_sign jl ''HS256'' (user_claims_doc (access_claims p now u)) (jw_secret p) of
        None \<Rightarrow> Inl SignError | Some tok \<Rightarrow> Inr tok)"

definition refresh_claims :: "JWTProvider \<Rightarrow> time \<Rightarrow> string \<Rightarrow> User \<Rightarrow> RegisteredClaims" where
  "refresh_claims p now uuid u =
     \<lparr>rc_Issuer = jw_issuer p, rc_Subject = u_Username u,
      rc_ExpiresAt = Some (NewNumericDate (now + jw_refreshTokenDuration p)),
      rc_IssuedAt = Some (NewNumericDate now), rc_ID = uuid\<rparr>"

definition GenerateRefreshToken ::
  "jwt_lib \<Rightarrow> JWTProvider \<Rightarrow> time \<Rightarrow> string \<Rightarrow> User \<Rightarrow> svc_error + (string \<times> time)" where
  "GenerateRefreshToken jl p now uuid u =
     (case jl_sign jl ''HS256'' (registered_doc (refresh_claims p now uuid u)) (jw_secret p) of
        None \<Rightarrow> Inl SignError | Some tok \<Rightarrow> Inr (tok, now + jw_refreshTokenDuration p))"

text \<open>The key function of both validations: HMAC methods only.\<close>

definition hmac_key :: "JWTProvider \<Rightarrow> string \<Rightarrow> string option" where
  "hmac_key p method = (if method \<in> {''HS256'', ''HS384'', ''HS512''} then Some (jw_secret p) else None)"

definition ValidateAccessToken :: "jwt_lib \<Rightarrow> JWTProvider \<Rightarrow> time \<Rightarrow> string \<Rightarrow> token_error + UserClaims" where
  "ValidateAccessToken jl p now tok =
     (case jl_parse jl now (\<lambda>d. read_user_claims d \<noteq> None) (hmac_key p) tok of
        Inl TokenExpired \<Rightarrow> Inl TokErrExpired
      | Inl _ \<Rightarrow> Inl TokErrInvalid
      | Inr d \<Rightarrow> (case read_user_claims d of None \<Rightarrow> Inl TokErrInvalid | Some c \<Rightarrow> Inr c))"

definition ValidateRefreshToken :: "jwt_lib \<Rightarrow> JWTProvider \<Rightarrow> time \<Rightarrow> string \<Rightarrow> token_error + RegisteredClaims" where
  "ValidateRefreshToken jl p now tok =
     (case jl_parse jl now (\<lambda>d. read_registered d \<noteq> None) (hmac_key p) tok of
        Inl TokenExpired \<Rightarrow> Inl TokErrExpired
      | Inl _ \<Rightarrow> Inl TokErrInvalid
      | Inr d \<Rightarrow> (case read_registered d of None \<Rightarrow> Inl TokErrInvalid | Some c \<Rightarrow> Inr c))"

definition GetAccessTokenDuration :: "JWTProvider \<Rightarrow> int" where
  "GetAccessTokenDuration p = trunc (real_of_int (jw_accessTokenDuration p) / 1000000000)"

subsection \<open>Passwords\<close>

record PasswordHasher =
  ph_cost :: int

definition DefaultCost :: int where "DefaultCost = 12"

definition NewPasswordHasher :: PasswordHasher where
  "NewPasswordHasher = \<lparr>ph_cost = DefaultCost\<rparr>"

definition pw_Hash :: "bcrypt_lib \<Rightarrow> PasswordHasher \<Rightarrow> nat \<Rightarrow> string \<Rightarrow> svc_error + string" where
  "pw_Hash bl h salt password =
     (case bc_generate bl salt password (ph_cost h) of None \<Rightarrow> Inl HashError | Some b \<Rightarrow> Inr b)"

definition pw_Verify :: "bcrypt_lib \<Rightarrow> PasswordHasher \<Rightarrow> string \<Rightarrow> string \<Rightarrow> bool" where
  "pw_Verify bl h password hashed = bc_compare bl hashed password"

subsection \<open>Round trips\<close>

lemma map_of_registered [simp]:
  "map_of (registered_fields c) ''iss'' = nonempty (rc_Issuer c) (JStr (rc_Issuer c))"
  "map_of (registered_fields c) ''sub'' = nonempty (rc_Subject c) (JStr (rc_Subject c))"
  "map_of (registered_fields c) ''exp'' = map_option date_doc (rc_ExpiresAt c)"
  "map_of (registered_fields c) ''iat'' = map_option date_doc (rc_IssuedAt c)"
  "map_of (registered_fields c) ''jti'' = nonempty (rc_ID c) (JStr (rc_ID c))"
  "map_of (registered_fields c) ''nbf'' = None"
  "map_of (registered_fields c) ''user_id'' = None" "map_of (registered_fields c) ''username'' = None"
  "map_of (registered_fields c) ''email'' = None" "map_of (registered_fields c) ''role'' = None"
  by (simp_all add: registered_fields_def del: map_of_append)

text \<open>Dates in claims are whole seconds.\<close>

definition whole :: "time option \<Rightarrow> bool" where
  "whole t = (case t of None \<Rightarrow> True | Some x \<Rightarrow> x = NewNumericDate x)"

lemma as_date_doc [simp]: "whole t \<Longrightarrow> as_date (map_option date_doc t) = Some t"
  by (auto simp: whole_def date_doc_def NewNumericDate_def split: option.splits)

lemma whole_NumericDate [simp]: "whole (Some (NewNumericDate t))"
  by (simp add: whole_def NewNumericDate_def)

lemma flat_registered: "list_all (\<lambda>(k, v). flat_val v) (registered_fields c)"
  by (auto simp: registered_fields_def omit_def nonempty_def date_doc_def split: option.splits)

lemma read_registered_doc:
  "whole (rc_ExpiresAt c) \<Longrightarrow> whole (rc_IssuedAt c) \<Longrightarrow> read_registered (registered_doc c) = Some c"
  by (simp add: read_registered_def registered_doc_def read_fields_def)

lemma read_user_doc:
  "whole (rc_ExpiresAt (uc_Registered c)) \<Longrightarrow> whole (rc_IssuedAt (uc_Registered c)) \<Longrightarrow>
   0 \<le> uc_UserID c \<Longrightarrow> uc_UserID c < 2 ^ 64 \<Longrightarrow> read_user_claims (user_claims_doc c) = Some c"
  by (simp add: read_user_claims_def user_claims_doc_def read_fields_def as_uint_def)

text \<open>A refresh token read as an access token: the identity is empty.\<close>

definition anonymous_claims :: "RegisteredClaims \<Rightarrow> UserClaims" where
  "anonymous_claims c = \<lparr>uc_UserID = 0, uc_Username = [], uc_Email = [], uc_Role = [], uc_Registered = c\<rparr>"

lemma read_user_registered:
  "whole (rc_ExpiresAt c) \<Longrightarrow> whole (rc_IssuedAt c) \<Longrightarrow>
   read_user_claims (registered_doc c) = Some (anonymous_claims c)"
  by (simp add: read_user_claims_def registered_doc_def read_fields_def as_uint_def anonymous_claims_def)

lemma read_registered_user:
  "whole (rc_ExpiresAt (uc_Registered c)) \<Longrightarrow> whole (rc_IssuedAt (uc_Registered c)) \<Longrightarrow>
   read_registered (user_claims_doc c) = Some (uc_Registered c)"
  by (simp add: read_registered_def user_claims_doc_def read_fields_def)

lemma doc_expired_registered:
  "rc_ExpiresAt c = Some t \<Longrightarrow> whole (Some t) \<Longrightarrow> doc_expired now (registered_doc c) \<longleftrightarrow> t \<le> now"
  by (auto simp: doc_expired_def claim_def registered_doc_def date_doc_def whole_def NewNumericDate_def)

lemma doc_expired_user:
  "rc_ExpiresAt (uc_Registered c) = Some t \<Longrightarrow> whole (Some t) \<Longrightarrow>
   doc_expired now (user_claims_doc c) \<longleftrightarrow> t \<le> now"
  by (auto simp: doc_expired_def claim_def user_claims_doc_def date_doc_def whole_def NewNumericDate_def)

lemma claim_nbf [simp]: "claim ''nbf'' (registered_doc c) = None" "claim ''nbf'' (user_claims_doc uc) = None"
  by (simp_all add: claim_def registered_doc_def user_claims_doc_def)

lemma flat_docs [simp]: "flat (registered_doc c)" "flat (user_claims_doc uc)"
  by (simp_all add: registered_doc_def user_claims_doc_def flat_registered)

context jwt_library
begin

lemma access_token_valid:
  assumes "GenerateAccessToken jl p now u = Inr tok" "0 \<le> u_ID u" "u_ID u < 2 ^ 64"
  shows "ValidateAccessToken jl p t tok =
    (if NewNumericDate (now + jw_accessTokenDuration p) \<le> t then Inl TokErrExpired
     else Inr (access_claims p now u))"
proof -
  let ?c = "access_claims p now u"
  have sg: "jl_sign jl ''HS256'' (user_claims_doc ?c) (jw_secret p) = Some tok"
    using assms(1) by (auto simp: GenerateAccessToken_def split: option.splits)
  have rd: "read_user_claims (user_claims_doc ?c) = Some ?c"
    using assms(2, 3) by (intro read_user_doc) (auto simp: access_claims_def)
  have ex: "doc_expired t (user_claims_doc ?c) \<longleftrightarrow> NewNumericDate (now + jw_accessTokenDuration p) \<le> t"
    by (rule doc_expired_user) (auto simp: access_claims_def)
  show ?thesis
    using parse_signed [OF sg, of "\<lambda>d. read_user_claims d \<noteq> None" "hmac_key p" t] rd ex
    by (simp add: ValidateAccessToken_def hmac_key_def)
qed

lemma refresh_token_valid:
  assumes "GenerateRefreshToken jl p now uuid u = Inr (tok, e)"
  shows "ValidateRefreshToken jl p t tok =
    (if NewNumericDate (now + jw_refreshTokenDuration p) \<le> t then Inl TokErrExpired
     else Inr (refresh_claims p now uuid u))"
    and "ValidateAccessToken jl p t tok =
    (if NewNumericDate (now + jw_refreshTokenDuration p) \<le> t then Inl TokErrExpired
     else Inr (anonymous_claims (refresh_claims p now uuid u)))"
proof -
  let ?c = "refresh_claims p now uuid u"
  have sg: "jl_sign jl ''HS256'' (registered_doc ?c) (jw_secret p) = Some tok"
    using assms by (auto simp: GenerateRefreshToken_def split: option.splits)
  have rd: "read_registered (registered_doc ?c) = Some ?c"
    "read_user_claims (registered_doc ?c) = Some (anonymous_claims ?c)"
    by (auto intro!: read_registered_doc read_user_registered simp: refresh_claims_def)
  have ex: "doc_expired t (registered_doc ?c) \<longleftrightarrow> NewNumericDate (now + jw_refreshTokenDuration p) \<le> t"
    by (rule doc_expired_registered) (auto simp: refresh_claims_def)
  show "ValidateRefreshToken jl p t tok =
    (if NewNumericDate (now + jw_refreshTokenDuration p) \<le> t then Inl TokErrExpired
     else Inr (refresh_claims p now uuid u))"
    using parse_signed [OF sg, of "\<lambda>d. read_registered d \<noteq> None" "hmac_key p" t] rd ex
    by (simp add: ValidateRefreshToken_def hmac_key_def)
  show "ValidateAccessToken jl p t tok =
    (if NewNumericDate (now + jw_refreshTokenDuration p) \<le> t then Inl TokErrExpired
     else Inr (anonymous_claims (refresh_claims p now uuid u)))"
    using parse_signed [OF sg, of "\<lambda>d. read_user_claims d \<noteq> None" "hmac_key p" t] rd ex
    by (simp add: ValidateAccessToken_def hmac_key_def)
qed

lemma sign_total:
  "\<exists>tok. GenerateAccessToken jl p now u = Inr tok"
  "\<exists>tok. GenerateRefreshToken jl p now uuid u = Inr (tok, now + jw_refreshTokenDuration p)"
  using sign_ok [of "user_claims_doc (access_claims p now u)" "jw_secret p"]
    sign_ok [of "registered_doc (refresh_claims p now uuid u)" "jw_secret p"]
  by (auto simp: GenerateAccessToken_def GenerateRefreshToken_def)

end
subsection \<open>Libraries in memory\<close>

text \<open>Executable libraries that satisfy the laws: a token spells out its method, key and claims; a
  hash spells out the password.\<close>

fun enc_str :: "string \<Rightarrow> string" where
  "enc_str [] = ''.''"
| "enc_str (c # cs) = CHR ''x'' # c # enc_str cs"

fun dec_str :: "string \<Rightarrow> (string \<times> string) option" where
  "dec_str (m # c # cs) =
     (if m = CHR ''x'' then map_option (\<lambda>(v, rest). (c # v, rest)) (dec_str cs)
      else if m = CHR ''.'' then Some ([], c # cs) else None)"
| "dec_str [m] = (if m = CHR ''.'' then Some ([], []) else None)"
| "dec_str [] = None"

fun enc_val :: "json \<Rightarrow> string" where
  "enc_val (JStr s) = CHR ''s'' # enc_str s"
| "enc_val (JNum x) = CHR ''n'' # enc_str (itoa \<lfloor>x\<rfloor>)"
| "enc_val _ = []"

fun dec_val :: "string \<Rightarrow> (json \<times> string) option" where
  "dec_val (m # cs) =
     (case dec_str cs of
        None \<Rightarrow> None
      | Some (v, rest) \<Rightarrow>
          if m = CHR ''s'' then Some (JStr v, rest)
          else map_option (\<lambda>n. (JNum (real_of_int n), rest)) (atoi v))"
| "dec_val [] = None"

fun enc_fields :: "(string \<times> json) list \<Rightarrow> string" where
  "enc_fields [] = ''.''"
| "enc_fields ((k, v) # fs) = CHR ''f'' # enc_str k @ enc_val v @ enc_fields fs"

fun dec_fields :: "nat \<Rightarrow> string \<Rightarrow> (string \<times> json) list option" where
  "dec_fields 0 cs = None"
| "dec_fields (Suc n) [] = None"
| "dec_fields (Suc n) (m # cs) =
     (if m = CHR ''.'' then Some []
      else do { (k, r1) \<leftarrow> dec_str cs; (v, r2) \<leftarrow> dec_val r1; fs \<leftarrow> dec_fields n r2; Some ((k, v) # fs) })"

definition mem_sign :: "string \<Rightarrow> json \<Rightarrow> string \<Rightarrow> string option" where
  "mem_sign method d key =
     (case d of JObj fs \<Rightarrow> if flat d then Some (enc_str method @ enc_str key @ enc_fields fs) else None
      | _ \<Rightarrow> None)"

definition mem_parse ::
  "time \<Rightarrow> (json \<Rightarrow> bool) \<Rightarrow> (string \<Rightarrow> string option) \<Rightarrow> string \<Rightarrow> jwt_error + json" where
  "mem_parse now readable keyfunc tok =
     (case do { (method, r1) \<leftarrow> dec_str tok; (key, r2) \<leftarrow> dec_str r1;
                fs \<leftarrow> dec_fields (length r2) r2; Some (method, key, JObj fs) } of
        None \<Rightarrow> Inl TokenMalformed
      | Some (method, key, d) \<Rightarrow>
          if \<not> readable d then Inl TokenMalformed
          else (case keyfunc method of
                  None \<Rightarrow> Inl TokenUnverifiable
                | Some k \<Rightarrow> if k \<noteq> key then Inl TokenSignatureInvalid
                            else if doc_expired now d then Inl TokenExpired else Inr d))"

definition mem_jwt :: jwt_lib where
  "mem_jwt = \<lparr>jl_sign = mem_sign, jl_parse = mem_parse\<rparr>"

definition mem_bcrypt :: bcrypt_lib where
  "mem_bcrypt =
     \<lparr>bc_generate = (\<lambda>salt pw cost. if length pw \<le> 72 then Some (CHR ''$'' # pw) else None),
      bc_compare = (\<lambda>h pw. h = CHR ''$'' # pw)\<rparr>"

lemma dec_enc_str [simp]: "dec_str (enc_str s @ rest) = Some (s, rest)"
proof (induction s)
  case Nil
  show ?case by (cases rest) auto
next
  case (Cons c s)
  then show ?case by simp
qed

lemma dec_enc_val [simp]: "flat_val v \<Longrightarrow> dec_val (enc_val v @ rest) = Some (v, rest)"
  by (cases v) auto

lemma dec_enc_fields:
  "list_all (\<lambda>(k, v). flat_val v) fs \<Longrightarrow> length (enc_fields fs) \<le> n \<Longrightarrow> dec_fields n (enc_fields fs) = Some fs"
proof (induction fs arbitrary: n)
  case Nil
  then show ?case by (cases n) auto
next
  case (Cons kv fs)
  obtain k v where kv: "kv = (k, v)" by (cases kv)
  obtain m where n: "n = Suc m" using Cons.prems(2) kv by (cases n) auto
  have "length (enc_fields fs) \<le> m" using Cons.prems(2) kv n by simp
  then show ?case using Cons kv n by simp
qed

lemma mem_parse_signed:
  assumes "mem_sign method d key = Some tok"
  shows "mem_parse now readable keyfunc tok =
    (if \<not> readable d then Inl TokenMalformed
     else (case keyfunc method of
        None \<Rightarrow> Inl TokenUnverifiable
      | Some k \<Rightarrow> if k \<noteq> key then Inl TokenSignatureInvalid
                  else if doc_expired now d then Inl TokenExpired else Inr d))"
proof -
  obtain fs where fs: "d = JObj fs" "list_all (\<lambda>(k, v). flat_val v) fs"
    "tok = enc_str method @ enc_str key @ enc_fields fs"
    using assms by (cases d) (auto simp: mem_sign_def split: if_splits)
  show ?thesis unfolding fs(1, 3) using dec_enc_fields [OF fs(2) order_refl]
    by (simp add: mem_parse_def cong: if_cong option.case_cong)
qed

interpretation mem_jwt: jwt_library mem_jwt
proof (unfold_locales, goal_cases)
  case (1 d key)
  then show ?case by (cases d) (auto simp: mem_jwt_def mem_sign_def)
next
  case (2 d key tok readable keyfunc now)
  then show ?case by (auto simp: mem_jwt_def mem_parse_signed)
next
  case (3 now readable keyfunc tok d)
  then show ?case by (auto simp: mem_jwt_def mem_parse_def split: option.splits if_splits)
qed

interpretation mem_bcrypt: bcrypt_library mem_bcrypt
  by unfold_locales (auto simp: mem_bcrypt_def split: if_splits)

end
