(* ===== verification/Auth_Service.thy ===== *)
theory Auth_Service
  imports Security
begin

text \<open>
  The authentication service, \<^verbatim>\<open>internal/domain/service/impl/auth_service_impl.go\<close>, over the
  repositories of \<open>User_Dao\<close> and the tokens and passwords of \<open>Security\<close>. The record of the service
  carries the libraries it calls. The clock reads of one operation give one instant \<open>now\<close>;
  \<open>uuid\<close> is the random identifier of a new refresh token and \<open>salt\<close> the salt of a new hash.
\<close>

subsection \<open>Requests and responses\<close>

record RegisterRequest =
  rq_Username :: string
  rq_Email :: string
  rq_Password :: string
  rq_FirstName :: string
  rq_LastName :: string

record LoginRequest =
  lq_UsernameOrEmail :: string
  lq_Password :: string

record UserResponse =
  ur_ID :: int
  ur_Username :: string
  ur_Email :: string
  ur_FirstName :: string
  ur_LastName :: string
  ur_Role :: string
  ur_IsActive :: bool
  ur_IsVerified :: bool
  ur_CreatedAt :: time
  ur_UpdatedAt :: time

record AuthResponse =
  ar_AccessToken :: string
  ar_RefreshToken :: string
  ar_TokenType :: string
  ar_ExpiresIn :: int
  ar_User :: UserResponse

definition toUserResponse :: "User \<Rightarrow> UserResponse" where
  "toUserResponse u =
     \<lparr>ur_ID = u_ID u, ur_Username = u_Username u, ur_Email = u_Email u, ur_FirstName = u_FirstName u,
      ur_LastName = u_LastName u, ur_Role = u_Role u, ur_IsActive = u_IsActive u,
      ur_IsVerified = u_IsVerified u, ur_CreatedAt = u_CreatedAt u, ur_UpdatedAt = u_UpdatedAt u\<rparr>"

subsection \<open>Operations\<close>

record 's authService =
  as_userRepo :: "('s, User) table"
  as_refreshTokenRepo :: "('s, RefreshToken) table"
  as_jwtProvider :: JWTProvider
  as_passwordHasher :: PasswordHasher
  as_jwt :: jwt_lib
  as_bcrypt :: bcrypt_lib

definition new_token :: "User \<Rightarrow> string \<Rightarrow> time \<Rightarrow> RefreshToken" where
  "new_token u tok expiresAt =
     \<lparr>rt_ID = 0, rt_UserID = u_ID u, rt_Token = tok, rt_ExpiresAt = expiresAt, rt_Revoked = False,
      rt_CreatedAt = zero_time, rt_DeletedAt = None, rt_User = zero_user\<rparr>"

definition auth_response :: "JWTProvider \<Rightarrow> string \<Rightarrow> string \<Rightarrow> User \<Rightarrow> AuthResponse" where
  "auth_response p access refresh u =
     \<lparr>ar_AccessToken = access, ar_RefreshToken = refresh, ar_TokenType = ''Bearer'',
      ar_ExpiresIn = GetAccessTokenDuration p, ar_User = toUserResponse u\<rparr>"

definition generateAuthResponse :: "'s authService \<Rightarrow> time \<Rightarrow> string \<Rightarrow> User \<Rightarrow> ('s, AuthResponse) svc" where
  "generateAuthResponse a now uuid user =
     and_then (pure (GenerateAccessToken (as_jwt a) (as_jwtProvider a) now user)) (\<lambda>accessToken.
     and_then (pure (GenerateRefreshToken (as_jwt a) (as_jwtProvider a) now uuid user)) (\<lambda>(refreshToken, expiresAt).
     and_then (repo_CreateToken (as_refreshTokenRepo a) now (new_token user refreshToken expiresAt)) (\<lambda>_.
     ret (auth_response (as_jwtProvider a) accessToken refreshToken user))))"

definition new_user :: "RegisterRequest \<Rightarrow> string \<Rightarrow> User" where
  "new_user req hashed =
     zero_user\<lparr>u_Username := rq_Username req, u_Email := rq_Email req, u_Password := hashed,
       u_FirstName := rq_FirstName req, u_LastName := rq_LastName req, u_Role := RoleUser,
       u_IsActive := True\<rparr>"

definition auth_Register ::
  "'s authService \<Rightarrow> time \<Rightarrow> nat \<Rightarrow> string \<Rightarrow> RegisterRequest \<Rightarrow> ('s, AuthResponse) svc" where
  "auth_Register a now salt uuid req =
     and_then (repo_ExistsByUsername (as_userRepo a) now (rq_Username req)) (\<lambda>exists.
     if exists then fail ErrUserAlreadyExists
     else and_then (repo_ExistsByEmail (as_userRepo a) now (rq_Email req)) (\<lambda>exists.
     if exists then fail ErrUserAlreadyExists
     else and_then (pure (pw_Hash (as_bcrypt a) (as_passwordHasher a) salt (rq_Password req))) (\<lambda>hashedPassword.
     and_then (repo_CreateUser (as_userRepo a) now (new_user req hashedPassword)) (\<lambda>user.
     generateAuthResponse a now uuid user))))"

definition auth_Login :: "'s authService \<Rightarrow> time \<Rightarrow> string \<Rightarrow> LoginRequest \<Rightarrow> ('s, AuthResponse) svc" where
  "auth_Login a now uuid req =
     and_then (GetByUsernameOrEmail (as_userRepo a) now (lq_UsernameOrEmail req)) (\<lambda>found.
     case found of
       None \<Rightarrow> fail ErrInvalidCredentials
     | Some user \<Rightarrow>
         if \<not> u_IsActive user then fail ErrUserInactive
         else if \<not> pw_Verify (as_bcrypt a) (as_passwordHasher a) (lq_Password req) (u_Password user)
         then fail ErrInvalidCredentials
         else generateAuthResponse a now uuid user)"

text \<open>The two halves of a refresh: up to the check of the stored token, and from its revocation on.\<close>

definition refresh_check :: "'s authService \<Rightarrow> time \<Rightarrow> string \<Rightarrow> ('s, RefreshToken) svc" where
  "refresh_check a now tok =
     (case ValidateRefreshToken (as_jwt a) (as_jwtProvider a) now tok of
        Inl _ \<Rightarrow> fail ErrInvalidToken
      | Inr _ \<Rightarrow>
          and_then (GetByToken (as_userRepo a) (as_refreshTokenRepo a) now tok) (\<lambda>found.
          case found of
            None \<Rightarrow> fail ErrInvalidToken
          | Some rt \<Rightarrow> if \<not> IsValid now rt then fail ErrInvalidToken else ret rt))"

definition refresh_rotate ::
  "'s authService \<Rightarrow> time \<Rightarrow> string \<Rightarrow> string \<Rightarrow> RefreshToken \<Rightarrow> ('s, AuthResponse) svc" where
  "refresh_rotate a now uuid tok rt =
     and_then (RevokeByToken (as_refreshTokenRepo a) now tok) (\<lambda>_.
     and_then (GetByID (as_userRepo a) now (rt_UserID rt)) (\<lambda>found.
     case found of
       None \<Rightarrow> fail ErrUserNotFound
     | Some user \<Rightarrow> if \<not> u_IsActive user then fail ErrUserInactive
                    else generateAuthResponse a now uuid user))"

definition auth_RefreshToken :: "'s authService \<Rightarrow> time \<Rightarrow> string \<Rightarrow> string \<Rightarrow> ('s, AuthResponse) svc" where
  "auth_RefreshToken a now uuid tok =
     and_then (refresh_check a now tok) (\<lambda>rt. refresh_rotate a now uuid tok rt)"

definition auth_Logout :: "'s authService \<Rightarrow> time \<Rightarrow> string \<Rightarrow> ('s, unit) svc" where
  "auth_Logout a now tok = RevokeByToken (as_refreshTokenRepo a) now tok"

definition auth_LogoutAll :: "'s authService \<Rightarrow> time \<Rightarrow> int \<Rightarrow> ('s, unit) svc" where
  "auth_LogoutAll a now userID = RevokeAllByUserID (as_refreshTokenRepo a) now userID"

subsection \<open>The service and its database\<close>

locale auth_service =
  auth_db "as_userRepo a" uview "as_refreshTokenRepo a" tview up +
  jwt_library "as_jwt a" + bcrypt_library "as_bcrypt a"
  for a :: "'s authService" and uview tview up

text \<open>How a refresh token ages: it keeps its text, owner and expiry, and neither revocation nor
  deletion is undone. A table evolves when its rows age in place and new ones come at the end.\<close>

definition ages :: "RefreshToken \<Rightarrow> RefreshToken \<Rightarrow> bool" where
  "ages t t' \<longleftrightarrow> rt_Token t' = rt_Token t \<and> rt_UserID t' = rt_UserID t \<and> rt_ExpiresAt t' = rt_ExpiresAt t
     \<and> (rt_Revoked t \<longrightarrow> rt_Revoked t') \<and> (rt_DeletedAt t \<noteq> None \<longrightarrow> rt_DeletedAt t' \<noteq> None)"

definition evolves :: "RefreshToken list \<Rightarrow> RefreshToken list \<Rightarrow> bool" where
  "evolves ts ts' \<longleftrightarrow> length ts \<le> length ts' \<and> (\<forall>i < length ts. ages (ts ! i) (ts' ! i))"

definition spent :: "string \<Rightarrow> RefreshToken list \<Rightarrow> bool" where
  "spent tok ts \<longleftrightarrow> (\<exists>t \<in> set ts. rt_Token t = tok)
     \<and> (\<forall>t \<in> set ts. rt_Token t = tok \<longrightarrow> rt_Revoked t \<or> rt_DeletedAt t \<noteq> None)"

lemma evolves_refl [simp]: "evolves ts ts"
  by (simp add: evolves_def ages_def)

lemma evolves_trans: "evolves ts ts1 \<Longrightarrow> evolves ts1 ts2 \<Longrightarrow> evolves ts ts2"
  by (auto simp: evolves_def ages_def)

lemma evolves_append: "evolves ts (ts @ us)"
  by (simp add: evolves_def ages_def nth_append)

lemma evolves_map: "(\<And>t. t \<in> set ts \<Longrightarrow> ages t (f t)) \<Longrightarrow> evolves ts (map f ts)"
  by (simp add: evolves_def)

lemma evolves_spent:
  assumes "evolves ts ts'" "spent tok ts" "distinct (map rt_Token ts')"
  shows "spent tok ts'"
proof -
  obtain i where i: "i < length ts" "rt_Token (ts ! i) = tok"
    using assms(2) by (auto simp: spent_def in_set_conv_nth)
  then have i': "i < length ts'" "ages (ts ! i) (ts' ! i)" using assms(1) by (auto simp: evolves_def)
  then have tok: "rt_Token (ts' ! i) = tok" using i by (simp add: ages_def)
  have "rt_Revoked (ts ! i) \<or> rt_DeletedAt (ts ! i) \<noteq> None"
    using assms(2) i by (auto simp: spent_def)
  then have gone: "rt_Revoked (ts' ! i) \<or> rt_DeletedAt (ts' ! i) \<noteq> None"
    using i' by (auto simp: ages_def)
  have "t = ts' ! i" if "t \<in> set ts'" "rt_Token t = tok" for t
    using that assms(3) tok i'(1) by (auto simp: distinct_map dest: inj_onD)
  then show ?thesis using tok gone i'(1) by (auto simp: spent_def)
qed

context auth_service
begin

abbreviation "udb \<equiv> as_userRepo a"
abbreviation "tdb \<equiv> as_refreshTokenRepo a"

lemma tokens_distinct: "up s \<Longrightarrow> distinct (map rt_Token (tview s))"
  using tokens.view_indexed [of s] by (auto simp: indexed_def distinct_map inj_on_def)

text \<open>Issuing tokens: one new row, or an error of the database and no change.\<close>

lemma generate_cases:
  assumes "up s" "0 \<le> u_ID u"
  obtains access tok e where
    "GenerateAccessToken (as_jwt a) (as_jwtProvider a) now u = Inr access"
    "GenerateRefreshToken (as_jwt a) (as_jwtProvider a) now uuid u = Inr (tok, e)"
    "e = now + jw_refreshTokenDuration (as_jwtProvider a)"
    "generateAuthResponse a now uuid u s =
       and_then (dao_Create tdb now (new_token u tok e)) (\<lambda>_.
         ret (auth_response (as_jwtProvider a) access tok u)) s"
proof -
  obtain access where 1: "GenerateAccessToken (as_jwt a) (as_jwtProvider a) now u = Inr access"
    using sign_total(1) by blast
  obtain tok where 2: "GenerateRefreshToken (as_jwt a) (as_jwtProvider a) now uuid u =
      Inr (tok, now + jw_refreshTokenDuration (as_jwtProvider a))"
    using sign_total(2) by blast
  show ?thesis using that [OF 1 2 refl] 1 2 by (simp add: generateAuthResponse_def repo_CreateToken_def)
qed

lemma generate_frame:
  assumes "up s" "0 \<le> u_ID u"
  shows "up (snd (generateAuthResponse a now uuid u s))"
    and "uview (snd (generateAuthResponse a now uuid u s)) = uview s"
    and "evolves (tview s) (tview (snd (generateAuthResponse a now uuid u s)))"
proof -
  from assms obtain access tok e where g: "generateAuthResponse a now uuid u s =
       and_then (dao_Create tdb now (new_token u tok e)) (\<lambda>_.
         ret (auth_response (as_jwtProvider a) access tok u)) s"
    by (rule generate_cases)
  have snd: "snd (generateAuthResponse a now uuid u s) = snd (dao_Create tdb now (new_token u tok e) s)"
    unfolding g by (auto simp: and_then_def ret_def split: prod.splits sum.splits)
  show "up (snd (generateAuthResponse a now uuid u s))" "uview (snd (generateAuthResponse a now uuid u s)) = uview s"
    unfolding snd by (simp_all add: db_laws assms)
  show "evolves (tview s) (tview (snd (generateAuthResponse a now uuid u s)))"
    unfolding snd using tokens.Create_view [OF assms(1), of "new_token u tok e" now]
    by (auto simp: new_token_def evolves_append)
qed

lemma user_ids: "up s \<Longrightarrow> u \<in> set (uview s) \<Longrightarrow> 0 < u_ID u"
  using users.view_indexed [of s] by (auto simp: indexed_def list_all_iff)

lemma refresh_check_frame:
  assumes "up s"
  shows "up (snd (refresh_check a now tok s))" "uview (snd (refresh_check a now tok s)) = uview s"
    "tview (snd (refresh_check a now tok s)) = tview s"
proof -
  note g = GetByToken_laws(3-5) [OF assms, of now tok]
  show "up (snd (refresh_check a now tok s))" "uview (snd (refresh_check a now tok s)) = uview s"
    "tview (snd (refresh_check a now tok s)) = tview s"
    using g assms by (auto simp: refresh_check_def and_then_def split: sum.splits prod.splits option.splits)
qed

lemma refresh_check_spent:
  assumes "up s" "spent tok (tview s)"
  shows "fst (refresh_check a now tok s) = Inl ErrInvalidToken"
proof -
  have "fst (GetByToken udb tdb now tok s) = Inr None"
    using assms by (intro GetByToken_laws(1)) (auto simp: spent_def)
  then show ?thesis by (auto simp: refresh_check_def and_then_Inr split: sum.splits)
qed
lemma revoke_evolves:
  assumes "up s"
  shows "evolves (tview s) (tview (snd (RevokeByToken tdb now tok s)))"
    and "evolves (tview s) (tview (snd (RevokeAllByUserID tdb now i s)))"
    and "evolves (tview s) (tview (snd (DeleteExpired tdb now s)))"
  by (simp_all add: revoke_laws revoke_all_laws delete_expired_laws assms) (auto intro!: evolves_map simp: ages_def)

lemma revoke_spends:
  assumes "up s" "t \<in> set (tview s)" "rt_Token t = tok"
  shows "spent tok (tview (snd (RevokeByToken tdb now tok s)))"
proof -
  let ?f = "\<lambda>t. if rt_DeletedAt t = None \<and> rt_Token t = tok then t\<lparr>rt_Revoked := True\<rparr> else t"
  have 1: "?f t \<in> set (map ?f (tview s))" unfolding set_map by (rule imageI [OF assms(2)])
  have 3: "rt_Token (?f t) = tok" using assms(3) by simp
  have g: "rt_Token (?f u) = tok \<longrightarrow> rt_Revoked (?f u) \<or> rt_DeletedAt (?f u) \<noteq> None" for u
    by (cases "rt_DeletedAt u = None \<and> rt_Token u = tok") auto
  have 2: "\<forall>t \<in> set (map ?f (tview s)). rt_Token t = tok \<longrightarrow> rt_Revoked t \<or> rt_DeletedAt t \<noteq> None"
    unfolding set_map by (rule ballI, erule imageE, hypsubst, rule g)
  show ?thesis unfolding revoke_laws(2) [OF assms(1)] spent_def using 1 2 3
    by (intro conjI) (rule bexI [of _ "?f t"], assumption+)
qed

lemma GetByID_frame:
  assumes "up s"
  shows "fst (GetByID udb now i s) = Inr (first_row user_schema (CEq ''id'' (VInt i)) (uview s))"
    and "up (snd (GetByID udb now i s))" "uview (snd (GetByID udb now i s)) = uview s"
    and "tview (snd (GetByID udb now i s)) = tview s"
  by (simp_all add: GetByID_def dao_FindByID_def db_laws assms)

lemma refresh_rotate_frame:
  assumes "up s"
  shows "up (snd (refresh_rotate a now uuid tok rt s))"
    and "uview (snd (refresh_rotate a now uuid tok rt s)) = uview s"
    and "evolves (tview (snd (RevokeByToken tdb now tok s))) (tview (snd (refresh_rotate a now uuid tok rt s)))"
proof -
  let ?s1 = "snd (RevokeByToken tdb now tok s)"
  let ?s2 = "snd (GetByID udb now (rt_UserID rt) ?s1)"
  have s1: "up ?s1" "uview ?s1 = uview s" "fst (RevokeByToken tdb now tok s) = Inr ()"
    by (simp_all add: revoke_laws assms)
  have s2: "up ?s2" "uview ?s2 = uview s" "tview ?s2 = tview ?s1"
    "fst (GetByID udb now (rt_UserID rt) ?s1) = Inr (first_row user_schema (CEq ''id'' (VInt (rt_UserID rt))) (uview s))"
    by (simp_all add: GetByID_frame s1)
  have u: "0 \<le> u_ID u" if "first_row user_schema (CEq ''id'' (VInt (rt_UserID rt))) (uview s) = Some u" for u
    using that users.row_by_id [OF assms] user_ids [OF assms, of u] by simp
  have e: "refresh_rotate a now uuid tok rt s =
     (case first_row user_schema (CEq ''id'' (VInt (rt_UserID rt))) (uview s) of
        None \<Rightarrow> fail ErrUserNotFound
      | Some user \<Rightarrow> if \<not> u_IsActive user then fail ErrUserInactive else generateAuthResponse a now uuid user) ?s2"
    by (simp add: refresh_rotate_def and_then_Inr s1 s2)
  show "up (snd (refresh_rotate a now uuid tok rt s))" "uview (snd (refresh_rotate a now uuid tok rt s)) = uview s"
    "evolves (tview ?s1) (tview (snd (refresh_rotate a now uuid tok rt s)))"
    unfolding e using generate_frame [OF s2(1) u, of _ now uuid] s2
    by (auto split: option.splits)
qed

lemma refresh_frame:
  assumes "up s"
  shows "up (snd (auth_RefreshToken a now uuid tok s))"
    and "uview (snd (auth_RefreshToken a now uuid tok s)) = uview s"
    and "evolves (tview s) (tview (snd (auth_RefreshToken a now uuid tok s)))"
proof -
  note c = refresh_check_frame [OF assms, of now tok]
  note r = refresh_rotate_frame [OF c(1), where now = now and uuid = uuid and tok = tok] revoke_evolves(1) [OF c(1), of now tok]
  have ev: "evolves (tview s) (tview (snd (refresh_rotate a now uuid tok rt (snd (refresh_check a now tok s)))))" for rt
    using evolves_trans [OF r(4) r(3)] c(3) by simp
  show "up (snd (auth_RefreshToken a now uuid tok s))"
    "uview (snd (auth_RefreshToken a now uuid tok s)) = uview s"
    "evolves (tview s) (tview (snd (auth_RefreshToken a now uuid tok s)))"
    unfolding auth_RefreshToken_def using c r(1, 2) ev
    by (cases "fst (refresh_check a now tok s)"; simp add: and_then_Inl and_then_Inr)+
qed

lemma login_frame:
  assumes "up s"
  shows "up (snd (auth_Login a now uuid req s))"
    and "uview (snd (auth_Login a now uuid req s)) = uview s"
    and "evolves (tview s) (tview (snd (auth_Login a now uuid req s)))"
proof -
  let ?x = "lq_UsernameOrEmail req"
  let ?c = "COr (CEq ''username'' (VStr ?x)) (CEq ''email'' (VStr ?x))"
  let ?s1 = "snd (first_by udb now ?c s)"
  have s1: "up ?s1" "uview ?s1 = uview s" "tview ?s1 = tview s"
    "fst (first_by udb now ?c s) = Inr (first_row user_schema ?c (uview s))"
    by (simp_all add: db_laws assms)
  have u: "0 \<le> u_ID u" if "first_row user_schema ?c (uview s) = Some u" for u
  proof -
    have "u \<in> set (uview s)" using that by (auto simp: first_row_def find_Some_iff)
    then show ?thesis using user_ids [OF assms, of u] by simp
  qed
  have e: "auth_Login a now uuid req s =
     (case first_row user_schema ?c (uview s) of
       None \<Rightarrow> fail ErrInvalidCredentials
     | Some user \<Rightarrow>
         if \<not> u_IsActive user then fail ErrUserInactive
         else if \<not> pw_Verify (as_bcrypt a) (as_passwordHasher a) (lq_Password req) (u_Password user)
         then fail ErrInvalidCredentials else generateAuthResponse a now uuid user) ?s1"
    by (simp add: auth_Login_def GetByUsernameOrEmail_def FindByUsernameOrEmail_def and_then_Inr s1)
  show "up (snd (auth_Login a now uuid req s))" "uview (snd (auth_Login a now uuid req s)) = uview s"
    "evolves (tview s) (tview (snd (auth_Login a now uuid req s)))"
    unfolding e using generate_frame [OF s1(1) u, of _ now uuid] s1
    by (auto split: option.splits)
qed

text \<open>Registration after its two checks.\<close>

lemma register_cases:
  assumes "up s"
  shows "auth_Register a now salt uuid req s =
    (let s2 = snd (dao_ExistsBy udb now ''email'' (VStr (rq_Email req))
                     (snd (dao_ExistsBy udb now ''username'' (VStr (rq_Username req)) s)))
     in if list_ex (sees user_schema (CEq ''username'' (VStr (rq_Username req)))) (uview s)
        then (Inl ErrUserAlreadyExists, snd (dao_ExistsBy udb now ''username'' (VStr (rq_Username req)) s))
        else if list_ex (sees user_schema (CEq ''email'' (VStr (rq_Email req)))) (uview s)
        then (Inl ErrUserAlreadyExists, s2)
        else (case pw_Hash (as_bcrypt a) (as_passwordHasher a) salt (rq_Password req) of
                Inl e \<Rightarrow> (Inl e, s2)
              | Inr h \<Rightarrow> and_then (dao_Create udb now (new_user req h)) (\<lambda>user.
                  generateAuthResponse a now uuid user) s2))"
proof -
  note 1 = users.ExistsBy_laws [OF assms, of now "''username''" "VStr (rq_Username req)"]
  note 2 = users.ExistsBy_laws [OF 1(2), of now "''email''" "VStr (rq_Email req)"]
  show ?thesis
    by (simp add: auth_Register_def repo_ExistsByUsername_def dao_ExistsByUsername_def repo_ExistsByEmail_def
        dao_ExistsByEmail_def repo_CreateUser_def and_then_Inr 1 2 Let_def split: sum.splits)
qed

lemma new_user_fields [simp]:
  "u_ID (new_user req h) = 0" "u_DeletedAt (new_user req h) = None"
  "u_Username (new_user req h) = rq_Username req" "u_Email (new_user req h) = rq_Email req"
  "u_IsActive (new_user req h)" "u_Role (new_user req h) = RoleUser" "u_Password (new_user req h) = h"
  by (simp_all add: new_user_def zero_user_def)

lemma register_frame:
  assumes "up s"
  shows "up (snd (auth_Register a now salt uuid req s))"
    and "evolves (tview s) (tview (snd (auth_Register a now salt uuid req s)))"
    and "uview (snd (auth_Register a now salt uuid req s)) = uview s
       \<or> (\<exists>i h. uview (snd (auth_Register a now salt uuid req s)) = uview s @ [user_create now i (new_user req h)])"
proof -
  let ?s1 = "snd (dao_ExistsBy udb now ''username'' (VStr (rq_Username req)) s)"
  let ?s2 = "snd (dao_ExistsBy udb now ''email'' (VStr (rq_Email req)) ?s1)"
  have s1: "up ?s1" "uview ?s1 = uview s" "tview ?s1 = tview s" by (simp_all add: db_laws assms)
  then have s2: "up ?s2" "uview ?s2 = uview s" "tview ?s2 = tview s" by (simp_all add: db_laws)
  have "up (snd (and_then (dao_Create udb now (new_user req h)) (\<lambda>user. generateAuthResponse a now uuid user) ?s2))
    \<and> evolves (tview s) (tview (snd (and_then (dao_Create udb now (new_user req h)) (\<lambda>user. generateAuthResponse a now uuid user) ?s2)))
    \<and> (uview (snd (and_then (dao_Create udb now (new_user req h)) (\<lambda>user. generateAuthResponse a now uuid user) ?s2)) = uview s
       \<or> (\<exists>i. uview (snd (and_then (dao_Create udb now (new_user req h)) (\<lambda>user. generateAuthResponse a now uuid user) ?s2))
            = uview s @ [user_create now i (new_user req h)]))" for h
  proof -
    let ?s3 = "snd (dao_Create udb now (new_user req h) ?s2)"
    have s3: "up ?s3" "tview ?s3 = tview s" by (simp_all add: db_laws s2)
    consider (ok) i where "fst (dao_Create udb now (new_user req h) ?s2) = Inr (user_create now i (new_user req h))"
        "uview ?s3 = uview s @ [user_create now i (new_user req h)]" "0 < i"
      | (err) "fst (dao_Create udb now (new_user req h) ?s2) = Inl DbError" "uview ?s3 = uview s"
      using users.Create_ok [OF s2(1), of "new_user req h" now] users.Create_err [OF s2(1), of "new_user req h" now] s2
      by auto
    then show ?thesis
    proof cases
      case ok
      have "0 \<le> u_ID (user_create now i (new_user req h))" using ok by (simp add: user_create_def)
      from generate_frame [OF s3(1) this, of now uuid] show ?thesis
        using ok s3 by (auto simp: and_then_Inr)
    next
      case err
      then show ?thesis using s3 by (simp add: and_then_Inl)
    qed
  qed
  then show "up (snd (auth_Register a now salt uuid req s))"
    "evolves (tview s) (tview (snd (auth_Register a now salt uuid req s)))"
    "uview (snd (auth_Register a now salt uuid req s)) = uview s
       \<or> (\<exists>i h. uview (snd (auth_Register a now salt uuid req s)) = uview s @ [user_create now i (new_user req h)])"
    using s1 s2 by (auto simp: register_cases [OF assms] Let_def split: sum.splits)
qed

end

end
