(* ===== verification/User_Service.thy ===== *)
theory User_Service
  imports Auth_Service
begin

text \<open>
  The user service, \<^verbatim>\<open>internal/domain/service/impl/user_service_impl.go\<close>, and the paged responses of
  \<^verbatim>\<open>internal/dto/response/api.go\<close>.
\<close>

subsection \<open>Pages\<close>

record PageInfo =
  pi_Page :: int
  pi_Size :: int
  pi_TotalItems :: int
  pi_TotalPages :: int
  pi_HasNext :: bool
  pi_HasPrev :: bool

record 'a PagedResponse =
  pr_Items :: "'a list"
  pr_PageInfo :: PageInfo

text \<open>A page size of zero divides by zero: a panic.\<close>

definition NewPagedResponse :: "'a list \<Rightarrow> int \<Rightarrow> int \<Rightarrow> int \<Rightarrow> 'a PagedResponse option" where
  "NewPagedResponse items page psize cnt =
     (if psize = 0 then None
      else let pages = go_div cnt psize;
               totalPages = (if go_mod cnt psize > 0 then pages + 1 else pages)
           in Some \<lparr>pr_Items = items, pr_PageInfo = \<lparr>pi_Page = page, pi_Size = psize, pi_TotalItems = cnt,
                pi_TotalPages = totalPages, pi_HasNext = page < totalPages, pi_HasPrev = page > 1\<rparr>\<rparr>)"

subsection \<open>Operations\<close>

record 's userService =
  us_userRepo :: "('s, User) table"
  us_passwordHasher :: PasswordHasher
  us_bcrypt :: bcrypt_lib

record UpdateProfileRequest =
  up_FirstName :: string
  up_LastName :: string
  up_Email :: string

record ChangePasswordRequest =
  cp_OldPassword :: string
  cp_NewPassword :: string

definition respond :: "User option \<Rightarrow> ('s, UserResponse) svc" where
  "respond found = (case found of None \<Rightarrow> fail ErrUserNotFound | Some u \<Rightarrow> ret (toUserResponse u))"

definition user_GetByID :: "'s userService \<Rightarrow> time \<Rightarrow> int \<Rightarrow> ('s, UserResponse) svc" where
  "user_GetByID us now i = and_then (GetByID (us_userRepo us) now i) respond"

definition user_GetByUsername :: "'s userService \<Rightarrow> time \<Rightarrow> string \<Rightarrow> ('s, UserResponse) svc" where
  "user_GetByUsername us now x = and_then (GetByUsername (us_userRepo us) now x) respond"

definition user_GetByEmail :: "'s userService \<Rightarrow> time \<Rightarrow> string \<Rightarrow> ('s, UserResponse) svc" where
  "user_GetByEmail us now x = and_then (GetByEmail (us_userRepo us) now x) respond"

definition clamp_page :: "int \<Rightarrow> int" where
  "clamp_page page = (if page < 1 then 1 else page)"

definition clamp_size :: "int \<Rightarrow> int" where
  "clamp_size psize = (if psize < 1 \<or> psize > 100 then 10 else psize)"

text \<open>The size is never zero here, so the response is there.\<close>

definition user_List :: "'s userService \<Rightarrow> time \<Rightarrow> int \<Rightarrow> int \<Rightarrow> ('s, UserResponse PagedResponse option) svc" where
  "user_List us now page psize =
     and_then (repo_ListUsers (us_userRepo us) now (clamp_page page) (clamp_size psize)) (\<lambda>(users, cnt).
     ret (NewPagedResponse (map toUserResponse users) (clamp_page page) (clamp_size psize) cnt))"

definition user_Update :: "'s userService \<Rightarrow> time \<Rightarrow> int \<Rightarrow> UpdateProfileRequest \<Rightarrow> ('s, UserResponse) svc" where
  "user_Update us now i req =
     and_then (GetByID (us_userRepo us) now i) (\<lambda>found.
     case found of
       None \<Rightarrow> fail ErrUserNotFound
     | Some user \<Rightarrow>
         let user1 = (if up_FirstName req \<noteq> [] then user\<lparr>u_FirstName := up_FirstName req\<rparr> else user);
             user2 = (if up_LastName req \<noteq> [] then user1\<lparr>u_LastName := up_LastName req\<rparr> else user1)
         in and_then
              (if up_Email req \<noteq> [] \<and> up_Email req \<noteq> u_Email user2
               then and_then (repo_ExistsByEmail (us_userRepo us) now (up_Email req)) (\<lambda>exists.
                      if exists then fail ErrUserAlreadyExists else ret (user2\<lparr>u_Email := up_Email req\<rparr>))
               else ret user2) (\<lambda>user3.
            and_then (repo_UpdateUser (us_userRepo us) now user3) (\<lambda>_.
            ret (toUserResponse (user3\<lparr>u_UpdatedAt := now\<rparr>)))))"

definition user_ChangePassword ::
  "'s userService \<Rightarrow> time \<Rightarrow> nat \<Rightarrow> int \<Rightarrow> ChangePasswordRequest \<Rightarrow> ('s, unit) svc" where
  "user_ChangePassword us now salt i req =
     and_then (GetByID (us_userRepo us) now i) (\<lambda>found.
     case found of
       None \<Rightarrow> fail ErrUserNotFound
     | Some user \<Rightarrow>
         if \<not> pw_Verify (us_bcrypt us) (us_passwordHasher us) (cp_OldPassword req) (u_Password user)
         then fail ErrInvalidCredentials
         else and_then (pure (pw_Hash (us_bcrypt us) (us_passwordHasher us) salt (cp_NewPassword req))) (\<lambda>hashed.
              repo_UpdateUser (us_userRepo us) now (user\<lparr>u_Password := hashed\<rparr>)))"

definition user_Delete :: "'s userService \<Rightarrow> time \<Rightarrow> int \<Rightarrow> ('s, unit) svc" where
  "user_Delete us now i = repo_DeleteUser (us_userRepo us) now i"

definition user_ExistsByUsername :: "'s userService \<Rightarrow> time \<Rightarrow> string \<Rightarrow> ('s, bool) svc" where
  "user_ExistsByUsername us now x = repo_ExistsByUsername (us_userRepo us) now x"

definition user_ExistsByEmail :: "'s userService \<Rightarrow> time \<Rightarrow> string \<Rightarrow> ('s, bool) svc" where
  "user_ExistsByEmail us now x = repo_ExistsByEmail (us_userRepo us) now x"

subsection \<open>Page arithmetic\<close>

lemma go_div_pos: "0 \<le> a \<Longrightarrow> 0 < b \<Longrightarrow> go_div a b = a div b"
  by (cases "a = 0") (simp_all add: go_div_def sgn_if)

lemma go_mod_pos: "0 \<le> a \<Longrightarrow> 0 < b \<Longrightarrow> go_mod a b = a mod b"
  by (simp add: go_mod_def go_div_pos minus_div_mult_eq_mod)

text \<open>The number of pages: the least that hold all items.\<close>

definition pages_needed :: "int \<Rightarrow> int \<Rightarrow> int" where
  "pages_needed cnt psize = (cnt + psize - 1) div psize"

lemma pages_needed_eq:
  assumes "0 \<le> cnt" "0 < psize"
  shows "(if go_mod cnt psize > 0 then go_div cnt psize + 1 else go_div cnt psize) = pages_needed cnt psize"
proof -
  have q: "cnt = psize * (cnt div psize) + cnt mod psize" by simp
  have m: "0 \<le> cnt mod psize" "cnt mod psize < psize" using assms(2) by simp_all
  have "(cnt + psize - 1) div psize = cnt div psize + (if cnt mod psize > 0 then 1 else 0)"
  proof (cases "cnt mod psize > 0")
    case True
    then have "(cnt + psize - 1) div psize = (psize * (cnt div psize + 1) + (cnt mod psize - 1)) div psize"
      using q by (simp add: algebra_simps)
    also have "\<dots> = cnt div psize + 1" using True m by (subst div_mult_self4) (auto simp: div_pos_pos_trivial)
    finally show ?thesis using True by simp
  next
    case False
    then have "cnt mod psize = 0" using m by linarith
    then have "(cnt + psize - 1) div psize = (psize * (cnt div psize) + (psize - 1)) div psize"
      using q by (simp add: algebra_simps)
    also have "\<dots> = cnt div psize" using assms by (subst div_mult_self4) (auto simp: div_pos_pos_trivial)
    finally show ?thesis using False by simp
  qed
  then show ?thesis using assms by (simp add: go_div_pos go_mod_pos pages_needed_def)
qed

lemma pages_needed_bounds:
  assumes "0 \<le> cnt" "0 < psize"
  shows "pages_needed cnt psize * psize < cnt + psize" "cnt \<le> pages_needed cnt psize * psize" "0 \<le> pages_needed cnt psize"
proof -
  have q: "cnt + psize - 1 = pages_needed cnt psize * psize + (cnt + psize - 1) mod psize"
    unfolding pages_needed_def by (rule div_mult_mod_eq [symmetric])
  have "0 \<le> (cnt + psize - 1) mod psize" "(cnt + psize - 1) mod psize < psize" using assms by simp_all
  then show "pages_needed cnt psize * psize < cnt + psize" "cnt \<le> pages_needed cnt psize * psize"
    using q by linarith+
  show "0 \<le> pages_needed cnt psize" using assms by (simp add: pages_needed_def pos_imp_zdiv_nonneg_iff)
qed

lemma clamped: "1 \<le> clamp_page page" "1 \<le> clamp_size psize" "clamp_size psize \<le> 100"
  by (auto simp: clamp_page_def clamp_size_def)

text \<open>Cutting a list into consecutive pages loses and repeats nothing.\<close>

lemma concat_pages:
  assumes "0 < k" "length xs \<le> n * k"
  shows "concat (map (\<lambda>i. take k (drop (i * k) xs)) [0..<n]) = xs"
  using assms
proof -
  have "concat (map (\<lambda>i. take k (drop (i * k) xs)) [0..<n]) = take (n * k) xs" for n
  proof (induction n)
    case (Suc n)
    then show ?case by (simp add: take_add [symmetric] add.commute)
  qed simp
  then show ?thesis using assms(2) by simp
qed

lemma in_int64_mono: "in_int64 y \<Longrightarrow> 0 \<le> x \<Longrightarrow> x \<le> y \<Longrightarrow> in_int64 x"
  by (simp add: in_int64_def)

lemma page_offset_id:
  assumes "1 \<le> page" "1 \<le> psize" "in_int64 ((page - 1) * psize)"
  shows "page_offset page psize = (page - 1) * psize"
proof -
  have "(page - 1) * 1 \<le> (page - 1) * psize" using assms(1, 2) by (intro mult_left_mono) auto
  then have "in_int64 (page - 1)" using in_int64_mono [OF assms(3), of "page - 1"] assms(1) by simp
  then show ?thesis using assms(3) by (simp add: page_offset_def wrap_int64_id)
qed

lemma upto_pages: "[1..int m] = map (\<lambda>i. int i + 1) [0..<m]"
  by (rule nth_equalityI) (auto simp: nth_upto)

definition live_users :: "User list \<Rightarrow> User list" where
  "live_users us = filter (\<lambda>u. u_DeletedAt u = None) us"

text \<open>The items of one page, as a client gets them.\<close>

definition page_items :: "'s userService \<Rightarrow> time \<Rightarrow> int \<Rightarrow> 's \<Rightarrow> int \<Rightarrow> UserResponse list" where
  "page_items us now psize s page =
     (case fst (user_List us now page psize s) of Inr (Some r) \<Rightarrow> pr_Items r | _ \<Rightarrow> [])"

lemma user_List_eq:
  assumes "sql_table user_schema (us_userRepo us) uview up refs" "up s"
    "in_int64 ((clamp_page page - 1) * clamp_size psize)"
  shows "fst (user_List us now page psize s) =
    Inr (NewPagedResponse
      (map toUserResponse (take (nat (clamp_size psize))
         (drop (nat ((clamp_page page - 1) * clamp_size psize)) (rev (live_users (uview s))))))
      (clamp_page page) (clamp_size psize) (int (length (live_users (uview s)))))"
proof -
  let ?k = "clamp_size psize" and ?p = "clamp_page page"
  let ?s1 = "snd (count_by (us_userRepo us) now CTrue s)"
  note c = sql_table.count_by_laws [OF assms(1, 2), of now CTrue]
  have vis: "filter (sees user_schema CTrue) (uview s) = live_users (uview s)"
    by (simp add: live_users_def sees_def [abs_def])
  have ok: "page_ok (Some (page_offset ?p ?k, ?k))" using clamped(2) [of psize] by (simp add: page_ok_def)
  have "fst (find_rows (us_userRepo us) now CTrue (Desc ''id'') (Some (page_offset ?p ?k, ?k)) ?s1) =
      Inr (page_rows (Some (page_offset ?p ?k, ?k)) (rev (live_users (uview s))))"
    using sql_table.find_desc_id [OF assms(1) c(2) ok, of now CTrue] by (simp add: c(3) vis)
  then show ?thesis
    using c(1) assms(3) by (simp add: user_List_def repo_ListUsers_def user_FindAll_def find_all_def and_then_Inr
        page_rows_def page_offset_id clamped vis)
qed

text \<open>
  The two page counts of the code agree: \<^verbatim>\<open>PageResult.TotalPages\<close> of the data access layer and
  \<^verbatim>\<open>NewPagedResponse\<close> of the response layer both give the least number of pages of the given size
  that hold all items, and agree on whether there is a next and a previous page.
\<close>

theorem page_counts_agree:
  assumes "0 \<le> cnt" "0 < psize"
  shows "\<exists>r. NewPagedResponse items page psize cnt = Some r
     \<and> pi_TotalPages (pr_PageInfo r) = TotalPages (NewPageResult rows cnt page psize)
     \<and> pi_TotalPages (pr_PageInfo r) = pages_needed cnt psize
     \<and> (pi_HasNext (pr_PageInfo r) \<longleftrightarrow> HasNext (NewPageResult rows cnt page psize))
     \<and> (pi_HasPrev (pr_PageInfo r) \<longleftrightarrow> HasPrev (NewPageResult rows cnt page psize))"
  using assms pages_needed_eq [OF assms]
  by (simp add: NewPagedResponse_def NewPageResult_def TotalPages_def HasNext_def HasPrev_def Let_def)

theorem page_counts_agree_witness:
  "\<exists>r. NewPagedResponse [''a'', ''b'', ''c''] 2 10 23 = Some r
     \<and> pi_TotalPages (pr_PageInfo r) = TotalPages (NewPageResult [()] 23 2 10)
     \<and> pi_TotalPages (pr_PageInfo r) = 3"
  using page_counts_agree [of 23 10 "[''a'', ''b'', ''c'']" 2 "[()]"] by (auto simp: pages_needed_def)

text \<open>
  Paging through the users loses and repeats nobody: at any one state the pages 1 to the last,
  asked for with one size, put together are exactly the accounts that are not deleted, newest
  first, whatever size was asked for (sizes outside 1 to 100 count as 10), as long as the
  number of accounts is below 2^62.
\<close>

theorem user_pages_partition:
  assumes "sql_table user_schema (us_userRepo us) uview up refs" "up s"
    "int (length (live_users (uview s))) < 2 ^ 62"
  shows "concat (map (page_items us now psize s)
             [1..pages_needed (int (length (live_users (uview s)))) (clamp_size psize)]) =
         map toUserResponse (rev (live_users (uview s)))"
proof -
  let ?live = "rev (live_users (uview s))" and ?k = "nat (clamp_size psize)"
  let ?n = "nat (pages_needed (int (length ?live)) (clamp_size psize))"
  have k: "0 < ?k" "int ?k = clamp_size psize" "clamp_size psize \<le> 100" using clamped(2, 3) [of psize] by auto
  have n: "int ?n * int ?k < int (length ?live) + int ?k" "int (length ?live) \<le> int ?n * int ?k"
    "int ?n = pages_needed (int (length ?live)) (clamp_size psize)"
    using pages_needed_bounds [of "int (length ?live)" "clamp_size psize"] clamped(2) [of psize] k(2) by simp_all
  have one: "page_items us now psize s (int i + 1) = map toUserResponse (take ?k (drop (i * ?k) ?live))" if i: "i < ?n" for i
  proof -
    have c: "clamp_page (int i + 1) = int i + 1" by (simp add: clamp_page_def)
    have "int i * int ?k \<le> int ?n * int ?k" using i by (intro mult_right_mono) auto
    then have "int i * clamp_size psize < 2 ^ 62 + 100" using n(1) k(2, 3) assms(3) by simp
    moreover have "0 \<le> int i * clamp_size psize" using clamped(2) [of psize] by simp
    ultimately have "in_int64 (int i * clamp_size psize)" unfolding in_int64_def by simp
    then have "fst (user_List us now (int i + 1) psize s) = Inr (NewPagedResponse
        (map toUserResponse (take ?k (drop (nat (int i * clamp_size psize)) ?live)))
        (int i + 1) (clamp_size psize) (int (length ?live)))"
      using user_List_eq [OF assms(1, 2), of "int i + 1" psize now] by (simp add: c)
    moreover have "nat (int i * clamp_size psize) = i * ?k" using k(1) by (simp add: nat_mult_distrib)
    ultimately show ?thesis using k(1) by (simp add: page_items_def NewPagedResponse_def Let_def)
  qed
  have "concat (map (page_items us now psize s) [1..int ?n]) =
      concat (map (\<lambda>i. map toUserResponse (take ?k (drop (i * ?k) ?live))) [0..<?n])"
    unfolding upto_pages map_map comp_def by (intro arg_cong [of _ _ concat] map_cong refl) (simp add: one)
  also have "\<dots> = map toUserResponse (concat (map (\<lambda>i. take ?k (drop (i * ?k) ?live)) [0..<?n]))"
    unfolding map_concat map_map comp_def by (rule refl)
  also have "concat (map (\<lambda>i. take ?k (drop (i * ?k) ?live)) [0..<?n]) = ?live"
    by (rule concat_pages [OF k(1)]) (use n(2) in \<open>simp only: of_nat_mult [symmetric] of_nat_le_iff\<close>)
  finally show ?thesis using n(3) by simp
qed

lemma mem_users_table: "sql_table user_schema mem_users fst mem_db_up (\<lambda>_ _. True)"
  by (rule mem_auth.users.sql_table_axioms)

theorem user_pages_partition_witness:
  "concat (map (page_items \<lparr>us_userRepo = mem_users, us_passwordHasher = NewPasswordHasher, us_bcrypt = mem_bcrypt\<rparr> 0 1
        ([zero_user\<lparr>u_ID := 1, u_Username := ''a''\<rparr>, zero_user\<lparr>u_ID := 2, u_Username := ''b'', u_Email := ''b''\<rparr>], [])) [1..2])
   = map toUserResponse [zero_user\<lparr>u_ID := 2, u_Username := ''b'', u_Email := ''b''\<rparr>, zero_user\<lparr>u_ID := 1, u_Username := ''a''\<rparr>]"
proof -
  let ?us = "\<lparr>us_userRepo = mem_users, us_passwordHasher = NewPasswordHasher, us_bcrypt = mem_bcrypt\<rparr>"
  let ?a = "zero_user\<lparr>u_ID := 1, u_Username := ''a''\<rparr>" and ?b = "zero_user\<lparr>u_ID := 2, u_Username := ''b'', u_Email := ''b''\<rparr>"
  have up: "mem_db_up ([?a, ?b], [])" by (simp add: mem_db_up_def indexed_def zero_user_def)
  have live: "live_users (fst ([?a, ?b], [] :: RefreshToken list)) = [?a, ?b]" by (simp add: live_users_def zero_user_def)
  have pages: "pages_needed (int (length [?a, ?b])) (clamp_size 1) = 2" by (simp add: pages_needed_def clamp_size_def)
  show ?thesis
    using user_pages_partition [of ?us fst mem_db_up "\<lambda>_ _. True" "([?a, ?b], [])" 0 1]
    by (simp add: mem_users_table up live [simplified] pages [simplified])
qed

end
