(* ===== verification/Plugin_Service.thy ===== *)
theory Plugin_Service
  imports Plugin_Dao User_Service File_Path
begin

text \<open>
  The plugin service, \<^verbatim>\<open>internal/domain/service/impl/plugin_service_impl.go\<close>. Its state is the database and
  the file system it stores plugin files in. What the system refuses during a call (\<open>io_faults\<close>), the
  content of the uploaded file and the random suffix of the key are arguments; SHA-256 and the
  JSON encoding of a configuration are functions of the service record.
\<close>

type_synonym 's penv = "'s \<times> filesystem"

definition on_db :: "('s, 'a) svc \<Rightarrow> ('s penv, 'a) svc" where
  "on_db f s = (case f (fst s) of (r, d) \<Rightarrow> (r, (d, snd s)))"

text \<open>\<open>copy_fault\<close> is the part that was written before the copy failed.\<close>

record io_faults =
  mkdir_refused :: bool
  create_refused :: bool
  copy_fault :: "string option"
  remove_refused :: bool
  open_refused :: bool

record ('s, 'c) pluginService =
  ps_pluginRepo :: "('s, Plugin) table"
  ps_extensionRepo :: "('s, PluginExtension) table"
  ps_pluginsDir :: string
  ps_sha256 :: "string \<Rightarrow> string"
  ps_marshal :: "'c \<Rightarrow> string option"
  ps_unmarshal :: "string \<Rightarrow> 'c option"

record 'c InstallPluginRequest =
  ip_Name :: string
  ip_Description :: string
  ip_Version :: string
  ip_Author :: string
  ip_Type :: string
  ip_Config :: "'c option"

record PluginResponse =
  pp_ID :: int
  pp_Key :: string
  pp_Name :: string
  pp_Description :: string
  pp_Version :: string
  pp_Author :: string
  pp_Type :: string
  pp_State :: string
  pp_InstalledAt :: time
  pp_EnabledAt :: "time option"

record PluginExtensionResponse =
  pxr_ID :: int
  pxr_Name :: string
  pxr_Type :: string
  pxr_Path :: string
  pxr_Handler :: string

record 'c PluginDetailResponse =
  pd_Plugin :: PluginResponse
  pd_Extensions :: "PluginExtensionResponse list"
  pd_Config :: "'c option"

record PluginHealthResponse =
  ph_Status :: string
  ph_TotalPlugins :: int
  ph_EnabledPlugins :: int
  ph_DisabledPlugins :: int
  ph_ErrorPlugins :: int

definition toPluginResponse :: "Plugin \<Rightarrow> PluginResponse" where
  "toPluginResponse p =
     \<lparr>pp_ID = pl_ID p, pp_Key = pl_Key p, pp_Name = pl_Name p, pp_Description = pl_Description p,
      pp_Version = pl_Version p, pp_Author = pl_Author p, pp_Type = pl_Type p, pp_State = pl_State p,
      pp_InstalledAt = pl_InstalledAt p, pp_EnabledAt = pl_EnabledAt p\<rparr>"

definition generatePluginKey :: "string \<Rightarrow> string \<Rightarrow> string" where
  "generatePluginKey uuid name =
     (let sanitized = map to_lower (map (\<lambda>c. if c = CHR '' '' then CHR ''-'' else c) name);
          suffix = take 8 uuid
      in sanitized @ ''-'' @ suffix)"

subsection \<open>Installing\<close>

definition plugin_Install ::
  "('s, 'c) pluginService \<Rightarrow> time \<Rightarrow> string \<Rightarrow> io_faults \<Rightarrow> 'c InstallPluginRequest \<Rightarrow> string \<Rightarrow> ('s penv, PluginResponse) svc" where
  "plugin_Install ps now uuid flt req file =
     (let key = generatePluginKey uuid (ip_Name req)
      in and_then (on_db (ExistsByKey (ps_pluginRepo ps) now key)) (\<lambda>exists.
         if exists then fail ErrPluginAlreadyExists
         else (\<lambda>(d, fs).
           case os_MkdirAll (mkdir_refused flt) (ps_pluginsDir ps) fs of
             (False, fs1) \<Rightarrow> (Inl ErrIO, (d, fs1))
           | (True, fs1) \<Rightarrow>
               let pluginPath = Join (ps_pluginsDir ps) (key @ ''.so'')
               in case os_Create (create_refused flt) pluginPath fs1 of
                    (False, fs2) \<Rightarrow> (Inl ErrIO, (d, fs2))
                  | (True, fs2) \<Rightarrow>
                      (case copy_fault flt of
                         Some part \<Rightarrow>
                           (Inl ErrIO, (d, os_Remove (remove_refused flt) pluginPath (os_Write pluginPath part fs2)))
                       | None \<Rightarrow>
                           let fs3 = os_Write pluginPath file fs2;
                               checksum = ps_sha256 ps file;
                               configJSON = (case ip_Config req of None \<Rightarrow> Some [] | Some cfg \<Rightarrow> ps_marshal ps cfg)
                           in case configJSON of
                                None \<Rightarrow> (Inl ErrIO, (d, os_Remove (remove_refused flt) pluginPath fs3))
                              | Some config \<Rightarrow>
                                  let plugin = zero_plugin\<lparr>pl_Key := key, pl_Name := ip_Name req,
                                        pl_Description := ip_Description req, pl_Version := ip_Version req,
                                        pl_Author := ip_Author req, pl_Type := ip_Type req,
                                        pl_State := PluginStateInstalled, pl_Config := config,
                                        pl_Checksum := checksum, pl_Path := pluginPath, pl_InstalledAt := now\<rparr>
                                  in (case plugin_Create (ps_pluginRepo ps) now plugin d of
                                        (Inl e, d1) \<Rightarrow> (Inl e, (d1, os_Remove (remove_refused flt) pluginPath fs3))
                                      | (Inr p, d1) \<Rightarrow> (Inr (toPluginResponse p), (d1, fs3)))))))"

definition plugin_InstallFromPath ::
  "('s, 'c) pluginService \<Rightarrow> time \<Rightarrow> string \<Rightarrow> io_faults \<Rightarrow> 'c InstallPluginRequest \<Rightarrow> string \<Rightarrow> ('s penv, PluginResponse) svc" where
  "plugin_InstallFromPath ps now uuid flt req filePath s =
     (case os_Open (open_refused flt) filePath (snd s) of
        None \<Rightarrow> (Inl ErrIO, s)
      | Some file \<Rightarrow> plugin_Install ps now uuid flt req file s)"

subsection \<open>Reading\<close>

definition ps_GetByKey :: "('s, 'c) pluginService \<Rightarrow> time \<Rightarrow> string \<Rightarrow> ('s penv, 'c PluginDetailResponse) svc" where
  "ps_GetByKey ps now key =
     and_then (on_db (plugin_GetByKey (ps_pluginRepo ps) now key)) (\<lambda>found.
     case found of
       None \<Rightarrow> fail ErrPluginNotFound
     | Some plugin \<Rightarrow>
         and_then (on_db (GetByPluginID (ps_extensionRepo ps) now (pl_ID plugin))) (\<lambda>extensions.
         let config = (if pl_Config plugin \<noteq> [] then ps_unmarshal ps (pl_Config plugin) else None)
         in ret \<lparr>pd_Plugin = toPluginResponse plugin,
                 pd_Extensions = map (\<lambda>x. \<lparr>pxr_ID = px_ID x, pxr_Name = px_Name x, pxr_Type = px_Type x,
                                           pxr_Path = px_Path x, pxr_Handler = px_Handler x\<rparr>) extensions,
                 pd_Config = config\<rparr>))"

text \<open>The size is never zero here, so the response is there.\<close>

definition ps_List ::
  "('s, 'c) pluginService \<Rightarrow> time \<Rightarrow> int \<Rightarrow> int \<Rightarrow> ('s penv, PluginResponse PagedResponse option) svc" where
  "ps_List ps now page psize =
     and_then (on_db (plugin_List (ps_pluginRepo ps) now (clamp_page page) (clamp_size psize))) (\<lambda>(plugins, cnt).
     ret (NewPagedResponse (map toPluginResponse plugins) (clamp_page page) (clamp_size psize) cnt))"

definition ps_GetHealth :: "('s, 'c) pluginService \<Rightarrow> time \<Rightarrow> ('s penv, PluginHealthResponse) svc" where
  "ps_GetHealth ps now =
     and_then (on_db (ListByState (ps_pluginRepo ps) now PluginStateEnabled)) (\<lambda>enabled.
     and_then (on_db (ListByState (ps_pluginRepo ps) now PluginStateDisabled)) (\<lambda>disabled.
     and_then (on_db (ListByState (ps_pluginRepo ps) now PluginStateError)) (\<lambda>errPlugins.
     and_then (on_db (ListByState (ps_pluginRepo ps) now PluginStateInstalled)) (\<lambda>installed.
     ret \<lparr>ph_Status = (if length errPlugins > 0 then ''degraded'' else ''healthy''),
          ph_TotalPlugins = int (length enabled + length disabled + length errPlugins + length installed),
          ph_EnabledPlugins = int (length enabled),
          ph_DisabledPlugins = int (length disabled + length installed),
          ph_ErrorPlugins = int (length errPlugins)\<rparr>))))"

subsection \<open>Changing the state\<close>

definition ps_Enable :: "('s, 'c) pluginService \<Rightarrow> time \<Rightarrow> string \<Rightarrow> ('s penv, PluginResponse) svc" where
  "ps_Enable ps now key =
     and_then (on_db (plugin_GetByKey (ps_pluginRepo ps) now key)) (\<lambda>found.
     case found of
       None \<Rightarrow> fail ErrPluginNotFound
     | Some plugin \<Rightarrow>
         if pl_State plugin = PluginStateEnabled then ret (toPluginResponse plugin)
         else if pl_State plugin \<noteq> PluginStateInstalled \<and> pl_State plugin \<noteq> PluginStateDisabled
         then fail ErrPluginInvalidState
         else and_then (on_db (UpdateState (ps_pluginRepo ps) now (pl_ID plugin) PluginStateEnabled)) (\<lambda>_.
              ret (toPluginResponse (plugin\<lparr>pl_State := PluginStateEnabled, pl_EnabledAt := Some now\<rparr>))))"

definition ps_Disable :: "('s, 'c) pluginService \<Rightarrow> time \<Rightarrow> string \<Rightarrow> ('s penv, PluginResponse) svc" where
  "ps_Disable ps now key =
     and_then (on_db (plugin_GetByKey (ps_pluginRepo ps) now key)) (\<lambda>found.
     case found of
       None \<Rightarrow> fail ErrPluginNotFound
     | Some plugin \<Rightarrow>
         if pl_State plugin = PluginStateDisabled then ret (toPluginResponse plugin)
         else if pl_State plugin \<noteq> PluginStateEnabled then fail ErrPluginInvalidState
         else and_then (on_db (UpdateState (ps_pluginRepo ps) now (pl_ID plugin) PluginStateDisabled)) (\<lambda>_.
              ret (toPluginResponse (plugin\<lparr>pl_State := PluginStateDisabled\<rparr>))))"

text \<open>An error of removing the file is ignored.\<close>

definition ps_Uninstall :: "('s, 'c) pluginService \<Rightarrow> time \<Rightarrow> io_faults \<Rightarrow> string \<Rightarrow> ('s penv, unit) svc" where
  "ps_Uninstall ps now flt key =
     and_then (on_db (plugin_GetByKey (ps_pluginRepo ps) now key)) (\<lambda>found.
     case found of
       None \<Rightarrow> fail ErrPluginNotFound
     | Some plugin \<Rightarrow>
         and_then (on_db (DeleteByPluginID (ps_extensionRepo ps) now (pl_ID plugin))) (\<lambda>_.
         and_then (\<lambda>(d, fs). (Inr (), (d, if pl_Path plugin \<noteq> [] then os_Remove (remove_refused flt) (pl_Path plugin) fs else fs))) (\<lambda>_.
         on_db (DeleteByKey (ps_pluginRepo ps) now key))))"

end
