(* ===== verification/Plugin_Properties.thy ===== *)
theory Plugin_Properties
  imports Plugin_Service
begin

text \<open>
  What the plugin service guarantees: the life cycle of the stored states as the refinement of a
  small state machine, an invariant of rows and files under every sequence of operations, the
  health report, and what was installed can be read back.
\<close>

lemma on_db_simps [simp]:
  "fst (on_db f s) = fst (f (fst s))" "fst (snd (on_db f s)) = snd (f (fst s))" "snd (snd (on_db f s)) = snd s"
  by (simp_all add: on_db_def split: prod.splits)

lemma on_db_Inr: "fst (f (fst s)) = Inr x \<Longrightarrow> and_then (on_db f) k s = k x (snd (f (fst s)), snd s)"
  by (cases "f (fst s)") (simp add: and_then_def on_db_def)

lemma on_files: "and_then (\<lambda>(d, fs). (Inr (), (d, F fs))) k s = k () (fst s, F (snd s))"
  by (simp add: and_then_def split: prod.splits)

lemma and_then_drop: "and_then f (\<lambda>_. ret ()) s = (map_sum id (\<lambda>_. ()) (fst (f s)), snd (f s))"
  by (auto simp: and_then_def split: prod.splits sum.splits)

lemma find_map: "List.find P (map g xs) = map_option g (List.find (\<lambda>x. P (g x)) xs)"
  by (induction xs) auto

lemma Clean_Join: "b \<noteq> [] \<Longrightarrow> Clean (Join a b) = Join a b"
  by (simp add: Join_def Clean_idem)

subsection \<open>The state machine\<close>

definition live_plugin :: "string \<Rightarrow> Plugin list \<Rightarrow> Plugin option" where
  "live_plugin key rows = List.find (\<lambda>p. pl_DeletedAt p = None \<and> pl_Key p = key) rows"

text \<open>The abstract state: the state of each installed plugin, by key.\<close>

definition plugin_states :: "Plugin list \<Rightarrow> string \<rightharpoonup> PluginState" where
  "plugin_states rows key = map_option pl_State (live_plugin key rows)"

datatype plugin_cmd = CmdEnable string | CmdDisable string | CmdUninstall string

fun plugin_spec :: "plugin_cmd \<Rightarrow> (string \<rightharpoonup> PluginState) \<Rightarrow> (svc_error + unit) \<times> (string \<rightharpoonup> PluginState)" where
  "plugin_spec (CmdEnable k) m =
     (case m k of
        None \<Rightarrow> (Inl ErrPluginNotFound, m)
      | Some st \<Rightarrow> if st = ''ENABLED'' then (Inr (), m)
                   else if st = ''INSTALLED'' \<or> st = ''DISABLED'' then (Inr (), m(k \<mapsto> ''ENABLED''))
                   else (Inl ErrPluginInvalidState, m))"
| "plugin_spec (CmdDisable k) m =
     (case m k of
        None \<Rightarrow> (Inl ErrPluginNotFound, m)
      | Some st \<Rightarrow> if st = ''DISABLED'' then (Inr (), m)
                   else if st = ''ENABLED'' then (Inr (), m(k \<mapsto> ''DISABLED''))
                   else (Inl ErrPluginInvalidState, m))"
| "plugin_spec (CmdUninstall k) m = (if m k = None then (Inl ErrPluginNotFound, m) else (Inr (), m(k := None)))"

text \<open>The same commands given to the service.\<close>

fun plugin_exec :: "('s, 'c) pluginService \<Rightarrow> time \<Rightarrow> io_faults \<Rightarrow> plugin_cmd \<Rightarrow> ('s penv, unit) svc" where
  "plugin_exec ps now flt (CmdEnable k) = and_then (ps_Enable ps now k) (\<lambda>_. ret ())"
| "plugin_exec ps now flt (CmdDisable k) = and_then (ps_Disable ps now k) (\<lambda>_. ret ())"
| "plugin_exec ps now flt (CmdUninstall k) = ps_Uninstall ps now flt k"

lemma live_plugin_Some:
  "live_plugin key rows = Some p \<Longrightarrow> p \<in> set rows \<and> pl_DeletedAt p = None \<and> pl_Key p = key"
  by (auto simp: live_plugin_def find_Some_iff)

lemma live_plugin_None:
  "live_plugin key rows = None \<longleftrightarrow> (\<forall>p \<in> set rows. pl_DeletedAt p = None \<longrightarrow> pl_Key p \<noteq> key)"
  by (auto simp: live_plugin_def find_None_iff)

text \<open>Changing one plugin by its primary key.\<close>

lemma live_plugin_update:
  assumes "distinct (map pl_ID rows)" "live_plugin key rows = Some p"
    "\<And>q. pl_Key (f q) = pl_Key q \<and> pl_DeletedAt (f q) = pl_DeletedAt q"
  shows "live_plugin k (map (\<lambda>q. if pl_DeletedAt q = None \<and> pl_ID q = pl_ID p then f q else q) rows) =
    (if k = key then Some (f p) else live_plugin k rows)"
proof -
  let ?g = "\<lambda>q. if pl_DeletedAt q = None \<and> pl_ID q = pl_ID p then f q else q"
  have p: "p \<in> set rows" "pl_DeletedAt p = None" "pl_Key p = key" using live_plugin_Some [OF assms(2)] by auto
  have same: "q = p" if "q \<in> set rows" "pl_ID q = pl_ID p" for q
    using assms(1) p(1) that by (auto simp: distinct_map inj_on_def)
  have "pl_DeletedAt (?g q) = pl_DeletedAt q" "pl_Key (?g q) = pl_Key q" for q
    using assms(3) [of q] by simp_all
  then have m: "live_plugin k (map ?g rows) = map_option ?g (live_plugin k rows)"
    by (simp only: live_plugin_def find_map)
  show ?thesis
  proof (cases "live_plugin k rows")
    case None
    then have "k \<noteq> key" using assms(2) by auto
    then show ?thesis unfolding m None by simp
  next
    case (Some q)
    note q = live_plugin_Some [OF Some]
    show ?thesis
    proof (cases "k = key")
      case True
      then have "q = p" using Some assms(2) by simp
      then show ?thesis unfolding m Some using True p(2) by simp
    next
      case False
      then have "pl_ID q \<noteq> pl_ID p" using q p(3) same [of q] by auto
      then show ?thesis unfolding m Some using False by simp
    qed
  qed
qed

lemma live_plugin_delete:
  "live_plugin k (map (\<lambda>p. if pl_DeletedAt p = None \<and> pl_Key p = key then p\<lparr>pl_DeletedAt := Some now\<rparr> else p) rows) =
     (if k = key then None else live_plugin k rows)"
proof -
  let ?g = "\<lambda>p. if pl_DeletedAt p = None \<and> pl_Key p = key then p\<lparr>pl_DeletedAt := Some now\<rparr> else p"
  have e: "(\<lambda>q. pl_DeletedAt (?g q) = None \<and> pl_Key (?g q) = k) =
      (\<lambda>q. k \<noteq> key \<and> pl_DeletedAt q = None \<and> pl_Key q = k)" by auto
  have "live_plugin k (map ?g rows) =
      map_option ?g (List.find (\<lambda>q. k \<noteq> key \<and> pl_DeletedAt q = None \<and> pl_Key q = k) rows)"
    unfolding live_plugin_def find_map e by (rule refl)
  moreover have "map_option ?g (live_plugin k rows) = live_plugin k rows" if "k \<noteq> key"
    using that live_plugin_Some [of k rows] by (cases "live_plugin k rows") auto
  ultimately show ?thesis by (cases "k = key") (simp_all add: live_plugin_def find_None_iff)
qed

text \<open>What the two state changes do to the rows.\<close>

definition enabled_rows :: "time \<Rightarrow> Plugin \<Rightarrow> Plugin list \<Rightarrow> Plugin list" where
  "enabled_rows now p rows = map (\<lambda>q. if pl_DeletedAt q = None \<and> pl_ID q = pl_ID p
     then q\<lparr>pl_State := PluginStateEnabled, pl_UpdatedAt := now, pl_EnabledAt := Some now\<rparr> else q) rows"

definition disabled_rows :: "time \<Rightarrow> Plugin \<Rightarrow> Plugin list \<Rightarrow> Plugin list" where
  "disabled_rows now p rows = map (\<lambda>q. if pl_DeletedAt q = None \<and> pl_ID q = pl_ID p
     then q\<lparr>pl_State := PluginStateDisabled, pl_UpdatedAt := now\<rparr> else q) rows"

text \<open>Where a plugin is stored, and the row that is created for it.\<close>

definition plugin_path :: "('s, 'c) pluginService \<Rightarrow> string \<Rightarrow> string" where
  "plugin_path ps key = Join (ps_pluginsDir ps) (key @ ''.so'')"

definition config_json :: "('s, 'c) pluginService \<Rightarrow> 'c InstallPluginRequest \<Rightarrow> string option" where
  "config_json ps req = (case ip_Config req of None \<Rightarrow> Some [] | Some cfg \<Rightarrow> ps_marshal ps cfg)"

definition new_row :: "('s, 'c) pluginService \<Rightarrow> time \<Rightarrow> string \<Rightarrow> 'c InstallPluginRequest \<Rightarrow> string \<Rightarrow> string \<Rightarrow> int \<Rightarrow> Plugin" where
  "new_row ps now key req config file i =
     \<lparr>pl_ID = i, pl_Key = key, pl_Name = ip_Name req, pl_Description = ip_Description req,
      pl_Version = ip_Version req, pl_Author = ip_Author req, pl_Type = ip_Type req,
      pl_State = PluginStateInstalled, pl_Config = config, pl_Checksum = ps_sha256 ps file,
      pl_Path = plugin_path ps key, pl_InstalledAt = now, pl_EnabledAt = None, pl_CreatedAt = now,
      pl_UpdatedAt = now, pl_DeletedAt = None\<rparr>"

text \<open>The files after a call that failed: nothing but the plugin's own file may have changed, and
  that one is gone, as it was, or left behind where the system refused to remove it.\<close>

definition rest_kept :: "string \<Rightarrow> filesystem \<Rightarrow> filesystem \<Rightarrow> bool" where
  "rest_kept path fs fs' \<longleftrightarrow> (\<forall>f. f \<noteq> path \<longrightarrow> fs_files fs' f = fs_files fs f)"

subsection \<open>Runs and their invariant\<close>

datatype 'c plugin_op =
    PInstall time string io_faults "'c InstallPluginRequest" string
  | PCommand time io_faults plugin_cmd
  | PGet time string | PList time int int | PHealth time

fun plugin_step :: "('s, 'c) pluginService \<Rightarrow> 'c plugin_op \<Rightarrow> 's penv \<Rightarrow> 's penv" where
  "plugin_step ps (PInstall now uuid flt req file) s = snd (plugin_Install ps now uuid flt req file s)"
| "plugin_step ps (PCommand now flt cmd) s = snd (plugin_exec ps now flt cmd s)"
| "plugin_step ps (PGet now key) s = snd (ps_GetByKey ps now key s)"
| "plugin_step ps (PList now page psize) s = snd (ps_List ps now page psize s)"
| "plugin_step ps (PHealth now) s = snd (ps_GetHealth ps now s)"

text \<open>Names without a slash.\<close>

fun plain_op :: "'c plugin_op \<Rightarrow> bool" where
  "plain_op (PInstall now uuid flt req file) \<longleftrightarrow> CHR ''/'' \<notin> set (ip_Name req) \<and> CHR ''/'' \<notin> set uuid"
| "plain_op _ = True"

definition row_ok :: "Plugin \<Rightarrow> bool" where
  "row_ok p \<longleftrightarrow> pl_State p \<in> {PluginStateInstalled, PluginStateEnabled, PluginStateDisabled}
     \<and> (IsEnabled p \<longrightarrow> pl_EnabledAt p \<noteq> None)"

definition stored_ok :: "('s, 'c) pluginService \<Rightarrow> filesystem \<Rightarrow> Plugin \<Rightarrow> bool" where
  "stored_ok ps fs p \<longleftrightarrow> (pl_DeletedAt p = None \<longrightarrow>
     CHR ''/'' \<notin> set (pl_Key p) \<and> pl_Path p = plugin_path ps (pl_Key p)
     \<and> (\<exists>content. fs_files fs (pl_Path p) = Some content \<and> ps_sha256 ps content = pl_Checksum p))"

definition store_inv :: "('s, 'c) pluginService \<Rightarrow> Plugin list \<Rightarrow> filesystem \<Rightarrow> bool" where
  "store_inv ps rows fs \<longleftrightarrow> list_all row_ok rows \<and> list_all (stored_ok ps fs) rows"

lemma to_lower_slash: "CHR ''/'' = to_lower c \<longleftrightarrow> CHR ''/'' = c"
proof (cases "65 \<le> (of_char c :: nat) \<and> (of_char c :: nat) \<le> 90")
  case True
  then have "(of_char (to_lower c) :: nat) = of_char c + 32" by (simp add: to_lower_def take_bit_eq_mod)
  moreover have slash: "(of_char (CHR ''/'') :: nat) = 47" by simp
  ultimately have "(of_char (to_lower c) :: nat) \<noteq> of_char (CHR ''/'')" "(of_char c :: nat) \<noteq> of_char (CHR ''/'')"
    using True by linarith+
  then have "CHR ''/'' \<noteq> to_lower c" "CHR ''/'' \<noteq> c" by (metis, metis)
  then show ?thesis by simp
qed (auto simp: to_lower_def)

lemma key_plain:
  assumes "CHR ''/'' \<notin> set name" "CHR ''/'' \<notin> set uuid"
  shows "CHR ''/'' \<notin> set (generatePluginKey uuid name)"
proof -
  have "CHR ''/'' \<noteq> to_lower (if c = CHR '' '' then CHR ''-'' else c)" if "c \<in> set name" for c
    unfolding to_lower_slash using that assms(1) by auto
  moreover have "CHR ''/'' \<notin> set (take 8 uuid)" using assms(2) in_set_takeD by metis
  ultimately show ?thesis unfolding generatePluginKey_def Let_def by auto
qed

lemma so_name: "k @ ''.so'' \<noteq> []" "k @ ''.so'' \<noteq> ''.''" "k @ ''.so'' \<noteq> ''..''"
  by (rule notI, drule arg_cong [where f = length], simp)+

lemma plugin_path_names:
  assumes "ps_pluginsDir ps \<noteq> []" "CHR ''/'' \<notin> set x"
  shows "path_names (plugin_path ps x) = path_names (ps_pluginsDir ps) @ [x @ ''.so'']"
proof -
  have "CHR ''/'' \<notin> set (x @ ''.so'')" using assms(2) by simp
  from Join_names(1) [OF assms(1) this so_name] show ?thesis unfolding plugin_path_def .
qed

lemma plugin_path_inj:
  assumes "ps_pluginsDir ps \<noteq> []" "CHR ''/'' \<notin> set k" "CHR ''/'' \<notin> set k'" "plugin_path ps k = plugin_path ps k'"
  shows "k = k'"
proof -
  have "path_names (ps_pluginsDir ps) @ [k @ ''.so''] = path_names (ps_pluginsDir ps) @ [k' @ ''.so'']"
    using plugin_path_names [OF assms(1, 2)] plugin_path_names [OF assms(1, 3)] assms(4) by metis
  then show ?thesis by blast
qed

locale plugin_service =
  plugin_db "ps_pluginRepo ps" pview "ps_extensionRepo ps" eview up
  for ps :: "('s, 'c) pluginService" and pview :: "'s \<Rightarrow> Plugin list"
    and eview :: "'s \<Rightarrow> PluginExtension list" and up :: "'s \<Rightarrow> bool"
begin

lemma lookup_then:
  assumes "up (fst s)"
  shows "and_then (on_db (plugin_GetByKey (ps_pluginRepo ps) now key)) k s =
    k (live_plugin key (pview (fst s))) (snd (plugin_GetByKey (ps_pluginRepo ps) now key (fst s)), snd s)"
  using GetByKey_laws(1) [OF assms, of now key] by (simp add: on_db_Inr live_plugin_def)

lemma Enable_laws:
  assumes "up (fst s)"
  shows "fst (ps_Enable ps now key s) =
      (case live_plugin key (pview (fst s)) of
         None \<Rightarrow> Inl ErrPluginNotFound
       | Some p \<Rightarrow> if pl_State p = PluginStateEnabled then Inr (toPluginResponse p)
                   else if pl_State p = PluginStateInstalled \<or> pl_State p = PluginStateDisabled
                   then Inr (toPluginResponse (p\<lparr>pl_State := PluginStateEnabled, pl_EnabledAt := Some now\<rparr>))
                   else Inl ErrPluginInvalidState)"
    and "pview (fst (snd (ps_Enable ps now key s))) =
      (case live_plugin key (pview (fst s)) of
         None \<Rightarrow> pview (fst s)
       | Some p \<Rightarrow> if pl_State p = PluginStateInstalled \<or> pl_State p = PluginStateDisabled
                   then enabled_rows now p (pview (fst s)) else pview (fst s))"
    and "up (fst (snd (ps_Enable ps now key s)))" "snd (snd (ps_Enable ps now key s)) = snd s"
  using GetByKey_laws [OF assms, of now key]
  by (auto simp: ps_Enable_def lookup_then [OF assms] on_db_Inr UpdateState_laws enabled_rows_def plugin_state_defs
      split: option.splits)

lemma Disable_laws:
  assumes "up (fst s)"
  shows "fst (ps_Disable ps now key s) =
      (case live_plugin key (pview (fst s)) of
         None \<Rightarrow> Inl ErrPluginNotFound
       | Some p \<Rightarrow> if pl_State p = PluginStateDisabled then Inr (toPluginResponse p)
                   else if pl_State p = PluginStateEnabled
                   then Inr (toPluginResponse (p\<lparr>pl_State := PluginStateDisabled\<rparr>))
                   else Inl ErrPluginInvalidState)"
    and "pview (fst (snd (ps_Disable ps now key s))) =
      (case live_plugin key (pview (fst s)) of
         None \<Rightarrow> pview (fst s)
       | Some p \<Rightarrow> if pl_State p = PluginStateEnabled
                   then disabled_rows now p (pview (fst s)) else pview (fst s))"
    and "up (fst (snd (ps_Disable ps now key s)))" "snd (snd (ps_Disable ps now key s)) = snd s"
  using GetByKey_laws [OF assms, of now key]
  by (auto simp: ps_Disable_def lookup_then [OF assms] on_db_Inr UpdateState_laws disabled_rows_def plugin_state_defs
      split: option.splits)

lemma Uninstall_laws:
  assumes "up (fst s)"
  shows "fst (ps_Uninstall ps now flt key s) =
      (if live_plugin key (pview (fst s)) = None then Inl ErrPluginNotFound else Inr ())"
    and "pview (fst (snd (ps_Uninstall ps now flt key s))) =
      map (\<lambda>p. if pl_DeletedAt p = None \<and> pl_Key p = key then p\<lparr>pl_DeletedAt := Some now\<rparr> else p) (pview (fst s))"
    and "up (fst (snd (ps_Uninstall ps now flt key s)))"
    and "snd (snd (ps_Uninstall ps now flt key s)) =
      (case live_plugin key (pview (fst s)) of
         None \<Rightarrow> snd s
       | Some p \<Rightarrow> if pl_Path p \<noteq> [] then os_Remove (remove_refused flt) (pl_Path p) (snd s) else snd s)"
proof -
  note g = GetByKey_laws [OF assms, of now key]
  note def = ps_Uninstall_def lookup_then [OF assms] on_db_Inr on_files delete_exts_laws g
  have "live_plugin key (pview (fst s)) = None \<Longrightarrow>
      map (\<lambda>p. if pl_DeletedAt p = None \<and> pl_Key p = key then p\<lparr>pl_DeletedAt := Some now\<rparr> else p) (pview (fst s)) = pview (fst s)"
    by (rule map_idI) (auto simp: live_plugin_None)
  then show "fst (ps_Uninstall ps now flt key s) =
      (if live_plugin key (pview (fst s)) = None then Inl ErrPluginNotFound else Inr ())"
    "pview (fst (snd (ps_Uninstall ps now flt key s))) =
      map (\<lambda>p. if pl_DeletedAt p = None \<and> pl_Key p = key then p\<lparr>pl_DeletedAt := Some now\<rparr> else p) (pview (fst s))"
    "up (fst (snd (ps_Uninstall ps now flt key s)))"
    "snd (snd (ps_Uninstall ps now flt key s)) =
      (case live_plugin key (pview (fst s)) of
         None \<Rightarrow> snd s
       | Some p \<Rightarrow> if pl_Path p \<noteq> [] then os_Remove (remove_refused flt) (pl_Path p) (snd s) else snd s)"
    by (auto simp: def delete_plugin_laws split: option.splits)
qed

lemma path_clean: "Clean (plugin_path ps key) = plugin_path ps key"
  by (simp add: plugin_path_def Clean_Join)

lemma Install_cases:
  assumes "up (fst s)" and key: "key = generatePluginKey uuid (ip_Name req)"
  obtains
    (err) e where "fst (plugin_Install ps now uuid flt req file s) = Inl e"
      "pview (fst (snd (plugin_Install ps now uuid flt req file s))) = pview (fst s)"
      "rest_kept (plugin_path ps key) (snd s) (snd (snd (plugin_Install ps now uuid flt req file s)))"
      "live_plugin key (pview (fst s)) \<noteq> None \<Longrightarrow> snd (snd (plugin_Install ps now uuid flt req file s)) = snd s"
      "up (fst (snd (plugin_Install ps now uuid flt req file s)))"
  | (ok) i config where "i > 0" "live_plugin key (pview (fst s)) = None" "config_json ps req = Some config"
      "fst (plugin_Install ps now uuid flt req file s) = Inr (toPluginResponse (new_row ps now key req config file i))"
      "pview (fst (snd (plugin_Install ps now uuid flt req file s))) = pview (fst s) @ [new_row ps now key req config file i]"
      "fs_files (snd (snd (plugin_Install ps now uuid flt req file s))) = (fs_files (snd s))(plugin_path ps key \<mapsto> file)"
      "up (fst (snd (plugin_Install ps now uuid flt req file s)))"
proof -
  let ?I = "plugin_Install ps now uuid flt req file s"
  let ?d = "snd (ExistsByKey (ps_pluginRepo ps) now key (fst s))" and ?path = "plugin_path ps key"
  note ex = ExistsByKey_laws [OF assms(1), of now key]
  note ex_then = on_db_Inr [where f = "ExistsByKey (ps_pluginRepo ps) now key", OF ex(1)]
  obtain mk fs1 where mk: "os_MkdirAll (mkdir_refused flt) (ps_pluginsDir ps) (snd s) = (mk, fs1)" by fastforce
  obtain cr fs2 where cr: "os_Create (create_refused flt) ?path fs1 = (cr, fs2)" by fastforce
  have f1: "fs_files fs1 = fs_files (snd s)" using mk by (auto simp: os_MkdirAll_def split: if_splits)
  have f2: "fs_files fs2 = (if cr then (fs_files (snd s))(?path \<mapsto> []) else fs_files (snd s))"
    using cr f1 by (auto simp: os_Create_def path_clean split: if_splits)
  note steps = plugin_Install_def Let_def key [symmetric] ex_then mk plugin_path_def [symmetric] cr
    config_json_def [symmetric] rest_kept_def os_Remove_def os_Write_def path_clean f1 f2 ex
  show ?thesis
  proof (cases "live_plugin key (pview (fst s))")
    case (Some p)
    then have "\<exists>p \<in> set (pview (fst s)). pl_DeletedAt p = None \<and> pl_Key p = key" using live_plugin_Some by blast
    then show ?thesis by (intro err) (simp_all add: steps)
  next
    case None
    then have ne: "(\<exists>p \<in> set (pview (fst s)). pl_DeletedAt p = None \<and> pl_Key p = key) = False"
      by (auto simp: live_plugin_None)
    show ?thesis
    proof (cases "mk \<and> cr \<and> copy_fault flt = None \<and> config_json ps req \<noteq> None")
      case False
      then consider "\<not> mk" | "mk" "\<not> cr" | part where "mk" "cr" "copy_fault flt = Some part"
        | "mk" "cr" "copy_fault flt = None" "config_json ps req = None" by fastforce
      then have "\<exists>fs'. ?I = (Inl ErrIO, (?d, fs')) \<and> rest_kept ?path (snd s) fs'"
        by cases (simp_all add: steps ne)
      then show ?thesis using None by (intro err) (auto simp: ex)
    next
      case True
      then obtain config where c: "config_json ps req = Some config" by auto
      let ?r = "zero_plugin\<lparr>pl_Key := key, pl_Name := ip_Name req, pl_Description := ip_Description req,
        pl_Version := ip_Version req, pl_Author := ip_Author req, pl_Type := ip_Type req,
        pl_State := PluginStateInstalled, pl_Config := config, pl_Checksum := ps_sha256 ps file,
        pl_Path := ?path, pl_InstalledAt := now\<rparr>"
      let ?C = "plugin_Create (ps_pluginRepo ps) now ?r ?d"
      have row: "plugin_create now i ?r = new_row ps now key req config file i" for i
        by (simp add: plugin_create_def new_row_def zero_plugin_def PluginStateInstalled_def)
      have z: "pl_ID ?r = 0" "pl_DeletedAt ?r = None" by (simp_all add: zero_plugin_def)
      have I: "?I = (case ?C of (Inl e, d1) \<Rightarrow> (Inl e, (d1, os_Remove (remove_refused flt) ?path (os_Write ?path file fs2)))
          | (Inr p, d1) \<Rightarrow> (Inr (toPluginResponse p), (d1, os_Write ?path file fs2)))"
        using True c by (simp add: plugin_Install_def Let_def key [symmetric] ex_then ne mk
            plugin_path_def [symmetric] cr config_json_def [symmetric])
      consider i where "i > 0" "fst ?C = Inr (new_row ps now key req config file i)"
          "pview (snd ?C) = pview (fst s) @ [new_row ps now key req config file i]"
        | "fst ?C = Inl DbError" "pview (snd ?C) = pview (fst s)"
        using plugins.Create_view [of ?d ?r now, unfolded plugin_schema_simps row] ex z
        unfolding plugin_Create_def by auto
      moreover have "up (snd ?C)" unfolding plugin_Create_def by (rule plugins.Create_up [OF ex(2)])
      ultimately show ?thesis
      proof cases
        case (1 i)
        then show ?thesis using None c True \<open>up (snd ?C)\<close>
          by (intro ok [of i config]) (auto simp: I os_Write_def path_clean f2 split: prod.splits sum.splits)
      next
        case 2
        then show ?thesis using None \<open>up (snd ?C)\<close>
          by (intro err [of DbError])
             (auto simp: I os_Write_def os_Remove_def path_clean f2 rest_kept_def split: prod.splits sum.splits)
      qed
    qed
  qed
qed

lemma Install_ok:
  assumes "up (fst s)" "key = generatePluginKey uuid (ip_Name req)"
    "plugin_Install ps now uuid flt req file s = (Inr r, s1)"
  obtains i config where "live_plugin key (pview (fst s)) = None" "config_json ps req = Some config"
    "r = toPluginResponse (new_row ps now key req config file i)"
    "pview (fst s1) = pview (fst s) @ [new_row ps now key req config file i]"
    "fs_files (snd s1) = (fs_files (snd s))(plugin_path ps key \<mapsto> file)" "up (fst s1)"
  by (rule Install_cases [OF assms(1, 2), of now flt "file"]) (use assms(3) in auto)

text \<open>The commands refine the state machine.\<close>

lemma exec_refines:
  assumes "up (fst s)"
  shows "(fst (plugin_exec ps now flt cmd s), plugin_states (pview (fst (snd (plugin_exec ps now flt cmd s))))) =
    plugin_spec cmd (plugin_states (pview (fst s)))"
proof (cases cmd)
  case (CmdEnable k)
  have "plugin_states (enabled_rows now p (pview (fst s))) = (plugin_states (pview (fst s)))(k \<mapsto> ''ENABLED'')"
    if "live_plugin k (pview (fst s)) = Some p" for p
    unfolding plugin_states_def [abs_def] enabled_rows_def live_plugin_update [OF ids_distinct [OF assms] that,
        of "\<lambda>q. q\<lparr>pl_State := PluginStateEnabled, pl_UpdatedAt := now, pl_EnabledAt := Some now\<rparr>", simplified]
    by (auto simp: PluginStateEnabled_def)
  then show ?thesis using Enable_laws [OF assms, of now k]
    by (cases "live_plugin k (pview (fst s))")
       (auto simp: CmdEnable and_then_drop plugin_state_defs plugin_states_def [of _ k])
next
  case (CmdDisable k)
  have "plugin_states (disabled_rows now p (pview (fst s))) = (plugin_states (pview (fst s)))(k \<mapsto> ''DISABLED'')"
    if "live_plugin k (pview (fst s)) = Some p" for p
    unfolding plugin_states_def [abs_def] disabled_rows_def live_plugin_update [OF ids_distinct [OF assms] that,
        of "\<lambda>q. q\<lparr>pl_State := PluginStateDisabled, pl_UpdatedAt := now\<rparr>", simplified]
    by (auto simp: PluginStateDisabled_def)
  then show ?thesis using Disable_laws [OF assms, of now k]
    by (cases "live_plugin k (pview (fst s))")
       (auto simp: CmdDisable and_then_drop plugin_state_defs plugin_states_def [of _ k])
next
  case (CmdUninstall k)
  have "plugin_states (map (\<lambda>p. if pl_DeletedAt p = None \<and> pl_Key p = k then p\<lparr>pl_DeletedAt := Some now\<rparr> else p)
      (pview (fst s))) = (plugin_states (pview (fst s)))(k := None)"
    unfolding plugin_states_def [abs_def] live_plugin_delete by auto
  then show ?thesis using Uninstall_laws [OF assms, of now flt k]
    by (auto simp: CmdUninstall plugin_states_def [of _ k])
qed

lemma cmd_up: "up (fst s) \<Longrightarrow> up (fst (snd (plugin_exec ps now flt cmd s)))"
  by (cases cmd) (simp_all add: and_then_drop Enable_laws Disable_laws Uninstall_laws)

text \<open>Reading changes neither rows nor files.\<close>

lemma health_state:
  assumes "up (fst s)"
  shows "\<exists>h. fst (ps_GetHealth ps now s) = Inr h
    \<and> (let c = (\<lambda>st. int (length (filter (\<lambda>p. pl_DeletedAt p = None \<and> pl_State p = st) (pview (fst s)))))
       in h = \<lparr>ph_Status = (if c PluginStateError > 0 then ''degraded'' else ''healthy''),
               ph_TotalPlugins = c PluginStateEnabled + c PluginStateDisabled + c PluginStateError + c PluginStateInstalled,
               ph_EnabledPlugins = c PluginStateEnabled,
               ph_DisabledPlugins = c PluginStateDisabled + c PluginStateInstalled, ph_ErrorPlugins = c PluginStateError\<rparr>)"
    and "up (fst (snd (ps_GetHealth ps now s)))" "pview (fst (snd (ps_GetHealth ps now s))) = pview (fst s)"
    and "snd (snd (ps_GetHealth ps now s)) = snd s"
proof -
  let ?L = "ListByState (ps_pluginRepo ps) now"
  let ?d1 = "snd (?L PluginStateEnabled (fst s))" let ?d2 = "snd (?L PluginStateDisabled ?d1)"
  let ?d3 = "snd (?L PluginStateError ?d2)" let ?d4 = "snd (?L PluginStateInstalled ?d3)"
  have u: "up ?d1" "up ?d2" "up ?d3" "up ?d4" "pview ?d1 = pview (fst s)" "pview ?d2 = pview (fst s)"
    "pview ?d3 = pview (fst s)" "pview ?d4 = pview (fst s)" by (simp_all add: ListByState_laws assms)
  have q: "\<exists>ps. fst (?L st d) = Inr ps
      \<and> length ps = length (filter (\<lambda>p. pl_DeletedAt p = None \<and> pl_State p = st) (pview (fst s)))"
    if "up d" "pview d = pview (fst s)" for st d
    using ListByState_laws(1) [OF that(1), of now st] that(2) by (metis size_mset)
  obtain a b c d where r: "fst (?L PluginStateEnabled (fst s)) = Inr a" "fst (?L PluginStateDisabled ?d1) = Inr b"
    "fst (?L PluginStateError ?d2) = Inr c" "fst (?L PluginStateInstalled ?d3) = Inr d"
    "length a = length (filter (\<lambda>p. pl_DeletedAt p = None \<and> pl_State p = PluginStateEnabled) (pview (fst s)))"
    "length b = length (filter (\<lambda>p. pl_DeletedAt p = None \<and> pl_State p = PluginStateDisabled) (pview (fst s)))"
    "length c = length (filter (\<lambda>p. pl_DeletedAt p = None \<and> pl_State p = PluginStateError) (pview (fst s)))"
    "length d = length (filter (\<lambda>p. pl_DeletedAt p = None \<and> pl_State p = PluginStateInstalled) (pview (fst s)))"
    using q [OF assms refl, of PluginStateEnabled] q [OF u(1) u(5), of PluginStateDisabled]
      q [OF u(2) u(6), of PluginStateError] q [OF u(3) u(7), of PluginStateInstalled] by blast
  have e: "ps_GetHealth ps now s =
      (Inr \<lparr>ph_Status = (if length c > 0 then ''degraded'' else ''healthy''),
            ph_TotalPlugins = int (length a + length b + length c + length d), ph_EnabledPlugins = int (length a),
            ph_DisabledPlugins = int (length b + length d), ph_ErrorPlugins = int (length c)\<rparr>, (?d4, snd s))"
    by (simp add: ps_GetHealth_def on_db_Inr r(1-4))
  show "\<exists>h. fst (ps_GetHealth ps now s) = Inr h
    \<and> (let c = (\<lambda>st. int (length (filter (\<lambda>p. pl_DeletedAt p = None \<and> pl_State p = st) (pview (fst s)))))
       in h = \<lparr>ph_Status = (if c PluginStateError > 0 then ''degraded'' else ''healthy''),
               ph_TotalPlugins = c PluginStateEnabled + c PluginStateDisabled + c PluginStateError + c PluginStateInstalled,
               ph_EnabledPlugins = c PluginStateEnabled,
               ph_DisabledPlugins = c PluginStateDisabled + c PluginStateInstalled, ph_ErrorPlugins = c PluginStateError\<rparr>)"
    unfolding e Let_def r(5-8) [symmetric] by simp
  show "up (fst (snd (ps_GetHealth ps now s)))" "pview (fst (snd (ps_GetHealth ps now s))) = pview (fst s)"
    "snd (snd (ps_GetHealth ps now s)) = snd s"
    unfolding e using u by simp_all
qed

lemma get_state:
  assumes "up (fst s)"
  shows "live_plugin key (pview (fst s)) = Some p \<Longrightarrow> \<exists>xs. fst (ps_GetByKey ps now key s) = Inr
      \<lparr>pd_Plugin = toPluginResponse p, pd_Extensions = xs,
       pd_Config = (if pl_Config p \<noteq> [] then ps_unmarshal ps (pl_Config p) else None)\<rparr>"
    and "live_plugin key (pview (fst s)) = None \<Longrightarrow> fst (ps_GetByKey ps now key s) = Inl ErrPluginNotFound"
    and "up (fst (snd (ps_GetByKey ps now key s)))" "pview (fst (snd (ps_GetByKey ps now key s))) = pview (fst s)"
    and "snd (snd (ps_GetByKey ps now key s)) = snd s"
proof -
  note g = GetByKey_laws [OF assms, of now key]
  let ?d = "snd (plugin_GetByKey (ps_pluginRepo ps) now key (fst s))"
  note x = GetByPluginID_laws [OF g(2), of now]
  have r: "\<exists>xs. fst (GetByPluginID (ps_extensionRepo ps) now i ?d) = Inr xs" for i using x(1) [of i] by blast
  show "live_plugin key (pview (fst s)) = Some p \<Longrightarrow> \<exists>xs. fst (ps_GetByKey ps now key s) = Inr
      \<lparr>pd_Plugin = toPluginResponse p, pd_Extensions = xs,
       pd_Config = (if pl_Config p \<noteq> [] then ps_unmarshal ps (pl_Config p) else None)\<rparr>"
    using r [of "pl_ID p"] by (auto simp: ps_GetByKey_def lookup_then [OF assms] on_db_Inr Let_def)
  show "live_plugin key (pview (fst s)) = None \<Longrightarrow> fst (ps_GetByKey ps now key s) = Inl ErrPluginNotFound"
    by (simp add: ps_GetByKey_def lookup_then [OF assms])
  have "snd (ps_GetByKey ps now key s) = (?d, snd s)
      \<or> (\<exists>i. snd (ps_GetByKey ps now key s) = (snd (GetByPluginID (ps_extensionRepo ps) now i ?d), snd s))"
  proof (cases "live_plugin key (pview (fst s))")
    case (Some p)
    then show ?thesis using r [of "pl_ID p"] by (auto simp: ps_GetByKey_def lookup_then [OF assms] on_db_Inr Let_def)
  qed (simp add: ps_GetByKey_def lookup_then [OF assms])
  then show "up (fst (snd (ps_GetByKey ps now key s)))" "pview (fst (snd (ps_GetByKey ps now key s))) = pview (fst s)"
    "snd (snd (ps_GetByKey ps now key s)) = snd s"
    using g x by auto
qed

lemma list_state:
  assumes "up (fst s)"
  shows "up (fst (snd (ps_List ps now page psize s)))"
    "pview (fst (snd (ps_List ps now page psize s))) = pview (fst s)" "snd (snd (ps_List ps now page psize s)) = snd s"
proof -
  let ?r = "ps_pluginRepo ps" and ?p = "Some (page_offset (clamp_page page) (clamp_size psize), clamp_size psize)"
  let ?d = "snd (count_by ?r now CTrue (fst s))"
  have "page_ok ?p" using clamped(2) [of psize] by (simp add: page_ok_def)
  then obtain rows where "fst (find_rows ?r now CTrue (Desc ''installed_at'') ?p ?d) = Inr rows"
    using plugins.find_rows_laws(1) [of ?d ?p now CTrue "Desc ''installed_at''"] by (auto simp: pdb_laws assms)
  moreover obtain n where "fst (count_by ?r now CTrue (fst s)) = Inr n" by (simp add: pdb_laws assms)
  ultimately have "plugin_List ?r now (clamp_page page) (clamp_size psize) (fst s) =
      (Inr (rows, n), snd (find_rows ?r now CTrue (Desc ''installed_at'') ?p ?d))"
    by (simp add: plugin_List_def plugin_FindAll_def find_all_def and_then_Inr)
  then have "snd (ps_List ps now page psize s) = (snd (find_rows ?r now CTrue (Desc ''installed_at'') ?p ?d), snd s)"
    by (simp add: ps_List_def on_db_Inr)
  then show "up (fst (snd (ps_List ps now page psize s)))"
    "pview (fst (snd (ps_List ps now page psize s))) = pview (fst s)" "snd (snd (ps_List ps now page psize s)) = snd s"
    by (simp_all add: pdb_laws assms)
qed

text \<open>The rows of the other operations.\<close>

lemma cmd_effect:
  assumes "up (fst s)"
  obtains
    (same) "pview (fst (snd (plugin_exec ps now flt cmd s))) = pview (fst s)"
      "snd (snd (plugin_exec ps now flt cmd s)) = snd s"
  | (enabled) p where "pview (fst (snd (plugin_exec ps now flt cmd s))) = enabled_rows now p (pview (fst s))"
      "snd (snd (plugin_exec ps now flt cmd s)) = snd s"
  | (disabled) p where "pview (fst (snd (plugin_exec ps now flt cmd s))) = disabled_rows now p (pview (fst s))"
      "snd (snd (plugin_exec ps now flt cmd s)) = snd s"
  | (removed) key p where "live_plugin key (pview (fst s)) = Some p"
      "pview (fst (snd (plugin_exec ps now flt cmd s))) =
        map (\<lambda>p. if pl_DeletedAt p = None \<and> pl_Key p = key then p\<lparr>pl_DeletedAt := Some now\<rparr> else p) (pview (fst s))"
      "snd (snd (plugin_exec ps now flt cmd s)) = snd s
       \<or> snd (snd (plugin_exec ps now flt cmd s)) = os_Remove (remove_refused flt) (pl_Path p) (snd s)"
proof (cases cmd)
  case (CmdEnable k)
  then show ?thesis using Enable_laws(2, 4) [OF assms, of now k] same enabled
    by (auto simp: and_then_drop split: option.splits if_splits)
next
  case (CmdDisable k)
  then show ?thesis using Disable_laws(2, 4) [OF assms, of now k] same disabled
    by (auto simp: and_then_drop split: option.splits if_splits)
next
  case (CmdUninstall k)
  note u = Uninstall_laws(2, 4) [OF assms, of now flt k]
  show ?thesis
  proof (cases "live_plugin k (pview (fst s))")
    case None
    then have "map (\<lambda>p. if pl_DeletedAt p = None \<and> pl_Key p = k then p\<lparr>pl_DeletedAt := Some now\<rparr> else p) (pview (fst s)) = pview (fst s)"
      by (intro map_idI) (auto simp: live_plugin_None)
    with None u CmdUninstall show ?thesis by (intro same) simp_all
  next
    case (Some p)
    with u CmdUninstall show ?thesis by (intro removed [of k p]) simp_all
  qed
qed

lemma store_inv_cmd:
  assumes "up (fst s)" "store_inv ps (pview (fst s)) (snd s)" "ps_pluginsDir ps \<noteq> []"
  shows "store_inv ps (pview (fst (snd (plugin_exec ps now flt cmd s)))) (snd (snd (plugin_exec ps now flt cmd s)))"
proof (cases rule: cmd_effect [OF assms(1), of now flt cmd, case_names same enabled disabled removed])
  case same
  then show ?thesis using assms(2) by simp
next
  case (enabled p)
  then show ?thesis using assms(2)
    by (auto simp: store_inv_def enabled_rows_def list_all_iff row_ok_def stored_ok_def IsEnabled_def)
next
  case (disabled p)
  then show ?thesis using assms(2)
    by (auto simp: store_inv_def disabled_rows_def list_all_iff row_ok_def stored_ok_def IsEnabled_def plugin_state_defs)
next
  case (removed key p)
  note p = live_plugin_Some [OF removed(1)]
  let ?g = "\<lambda>q. if pl_DeletedAt q = None \<and> pl_Key q = key then q\<lparr>pl_DeletedAt := Some now\<rparr> else q"
  have st: "stored_ok ps (snd s) p" and all: "\<And>q. q \<in> set (pview (fst s)) \<Longrightarrow> row_ok q \<and> stored_ok ps (snd s) q"
    using assms(2) p by (auto simp: store_inv_def list_all_iff)
  have "stored_ok ps (snd (snd (plugin_exec ps now flt cmd s))) (?g q)" if q: "q \<in> set (pview (fst s))" for q
  proof (cases "pl_DeletedAt q = None \<and> pl_Key q \<noteq> key")
    case True
    then have "pl_Path q \<noteq> Clean (pl_Path p)"
      using all [OF q] st p plugin_path_inj [OF assms(3), of "pl_Key q" key] by (auto simp: stored_ok_def path_clean)
    then have "fs_files (snd (snd (plugin_exec ps now flt cmd s))) (pl_Path q) = fs_files (snd s) (pl_Path q)"
      using removed(3) by (auto simp: os_Remove_def)
    then show ?thesis using True all [OF q] by (auto simp: stored_ok_def)
  qed (auto simp: stored_ok_def)
  moreover have "row_ok (?g q)" if "q \<in> set (pview (fst s))" for q
    using all [OF that] by (simp add: row_ok_def IsEnabled_def)
  ultimately show ?thesis unfolding removed(2) store_inv_def list_all_iff set_map by blast
qed

lemma store_inv_install:
  assumes "up (fst s)" "store_inv ps (pview (fst s)) (snd s)" "ps_pluginsDir ps \<noteq> []"
    "CHR ''/'' \<notin> set (ip_Name req)" "CHR ''/'' \<notin> set uuid"
  shows "store_inv ps (pview (fst (snd (plugin_Install ps now uuid flt req file s)))) (snd (snd (plugin_Install ps now uuid flt req file s)))"
proof -
  let ?I = "plugin_Install ps now uuid flt req file s"
  define key where "key = generatePluginKey uuid (ip_Name req)"
  have k: "CHR ''/'' \<notin> set key" unfolding key_def using assms(4, 5) by (rule key_plain)
  have all: "row_ok q" "stored_ok ps (snd s) q" if "q \<in> set (pview (fst s))" for q
    using assms(2) that by (auto simp: store_inv_def list_all_iff)
  have other: "stored_ok ps fs' q"
    if "live_plugin key (pview (fst s)) = None" "rest_kept (plugin_path ps key) (snd s) fs'" "q \<in> set (pview (fst s))" for fs' q
  proof (cases "pl_DeletedAt q = None")
    case True
    then have "pl_Key q \<noteq> key" using that(1, 3) by (auto simp: live_plugin_None)
    then have "pl_Path q \<noteq> plugin_path ps key"
      using all(2) [OF that(3)] True plugin_path_inj [OF assms(3) _ k] by (auto simp: stored_ok_def)
    then show ?thesis using all(2) [OF that(3)] that(2) True by (auto simp: stored_ok_def rest_kept_def)
  qed (auto simp: stored_ok_def)
  show ?thesis
  proof (cases rule: Install_cases [OF assms(1) key_def, of now flt "file", case_names err ok])
    case (err e)
    show ?thesis
    proof (cases "live_plugin key (pview (fst s))")
      case None
      then show ?thesis using err(2, 3) other all by (simp add: store_inv_def list_all_iff)
    qed (use err(2, 4) assms(2) in simp)
  next
    case (ok i config)
    have "rest_kept (plugin_path ps key) (snd s) (snd (snd ?I))" using ok(6) by (simp add: rest_kept_def)
    then have "stored_ok ps (snd (snd ?I)) q" if "q \<in> set (pview (fst s))" for q using other [OF ok(2)] that by blast
    moreover have "row_ok (new_row ps now key req config file i)"
      "stored_ok ps (snd (snd ?I)) (new_row ps now key req config file i)"
      using k ok(6) by (simp_all add: row_ok_def stored_ok_def new_row_def IsEnabled_def plugin_state_defs)
    ultimately show ?thesis using ok(5) all by (auto simp: store_inv_def list_all_iff)
  qed
qed

lemma install_up: "up (fst s) \<Longrightarrow> up (fst (snd (plugin_Install ps now uuid flt req file s)))"
  by (erule Install_cases [OF _ refl]) auto

lemma plugin_step_inv:
  assumes "up (fst s)" "store_inv ps (pview (fst s)) (snd s)" "ps_pluginsDir ps \<noteq> []" "plain_op op"
  shows "up (fst (plugin_step ps op s)) \<and> store_inv ps (pview (fst (plugin_step ps op s))) (snd (plugin_step ps op s))"
proof (cases op)
  case (PInstall now uuid flt req content)
  then show ?thesis using assms store_inv_install [OF assms(1-3)] install_up [OF assms(1)] by simp
next
  case (PCommand now flt cmd)
  then show ?thesis using store_inv_cmd [OF assms(1-3)] cmd_up [OF assms(1)] by simp
next
  case (PGet now key)
  then show ?thesis using assms get_state(3-5) [OF assms(1), of now key] by simp
next
  case (PList now page psize)
  then show ?thesis using assms list_state [OF assms(1), of now page psize] by simp
next
  case (PHealth now)
  then show ?thesis using assms health_state(2-4) [OF assms(1), of now] by simp
qed

lemma plugin_run_inv:
  assumes "up (fst s)" "store_inv ps (pview (fst s)) (snd s)" "ps_pluginsDir ps \<noteq> []" "list_all plain_op ops"
  shows "up (fst (fold (plugin_step ps) ops s))
    \<and> store_inv ps (pview (fst (fold (plugin_step ps) ops s))) (snd (fold (plugin_step ps) ops s))"
  using assms
proof (induction ops arbitrary: s)
  case (Cons op ops)
  have "up (fst (plugin_step ps op s)) \<and> store_inv ps (pview (fst (plugin_step ps op s))) (snd (plugin_step ps op s))"
    using Cons.prems by (intro plugin_step_inv) auto
  then show ?case using Cons.prems by (simp add: Cons.IH)
qed simp

lemma health_of_inv:
  assumes "up (fst s)" "list_all row_ok (pview (fst s))"
  shows "\<exists>h. fst (ps_GetHealth ps now s) = Inr h \<and> ph_Status h = ''healthy''
    \<and> ph_TotalPlugins h = int (length (filter (\<lambda>p. pl_DeletedAt p = None) (pview (fst s))))
    \<and> ph_EnabledPlugins h = int (length (filter (\<lambda>p. pl_DeletedAt p = None \<and> IsEnabled p) (pview (fst s))))
    \<and> ph_DisabledPlugins h = int (length (filter (\<lambda>p. pl_DeletedAt p = None \<and> \<not> IsEnabled p) (pview (fst s))))
    \<and> ph_ErrorPlugins h = 0"
proof -
  let ?c = "\<lambda>st xs. length (filter (\<lambda>p. pl_DeletedAt p = None \<and> pl_State p = st) xs)"
  have counts: "?c PluginStateError xs = 0
      \<and> ?c PluginStateEnabled xs + ?c PluginStateDisabled xs + ?c PluginStateInstalled xs =
          length (filter (\<lambda>p. pl_DeletedAt p = None) xs)
      \<and> ?c PluginStateEnabled xs = length (filter (\<lambda>p. pl_DeletedAt p = None \<and> IsEnabled p) xs)
      \<and> ?c PluginStateDisabled xs + ?c PluginStateInstalled xs = length (filter (\<lambda>p. pl_DeletedAt p = None \<and> \<not> IsEnabled p) xs)"
    if "list_all row_ok xs" for xs
    using that
  proof (induction xs)
    case (Cons x xs)
    then have "row_ok x" by simp
    then consider "pl_State x = PluginStateInstalled" | "pl_State x = PluginStateEnabled" | "pl_State x = PluginStateDisabled"
      by (auto simp: row_ok_def)
    then show ?case using Cons by cases (auto simp: IsEnabled_def plugin_state_defs)
  qed simp
  show ?thesis using health_state(1) [OF assms(1), of now] counts [OF assms(2)] by (auto simp: Let_def)
qed

end

subsection \<open>A service in memory\<close>

definition demo_plugins :: "(mem_plugin_db, unit) pluginService" where
  "demo_plugins = \<lparr>ps_pluginRepo = mem_plugins, ps_extensionRepo = mem_exts, ps_pluginsDir = ''/srv/plugins'',
     ps_sha256 = (\<lambda>x. ''sum-'' @ take 4 x), ps_marshal = (\<lambda>_. Some ''{}''), ps_unmarshal = (\<lambda>_. Some ())\<rparr>"

interpretation plug: plugin_service demo_plugins fst snd mem_plugin_up
  unfolding plugin_service_def demo_plugins_def using mem_plug.plugin_db_axioms by simp

definition no_faults :: io_faults where
  "no_faults = \<lparr>mkdir_refused = False, create_refused = False, copy_fault = None, remove_refused = False,
     open_refused = False\<rparr>"

definition demo_request :: "string \<Rightarrow> unit InstallPluginRequest" where
  "demo_request name = \<lparr>ip_Name = name, ip_Description = [], ip_Version = ''1'', ip_Author = [], ip_Type = ''SERVICE'',
     ip_Config = None\<rparr>"

definition demo_fs :: filesystem where
  "demo_fs = \<lparr>fs_dirs = {''/'', ''/srv'', ''/srv/plugins'', ''/tmp''}, fs_files = Map.empty\<rparr>"

definition demo_plugin_row :: Plugin where
  "demo_plugin_row = zero_plugin\<lparr>pl_ID := 1, pl_Key := ''hello'', pl_State := PluginStateInstalled\<rparr>"

lemma demo_plugin_up: "mem_plugin_up ([], [])" "mem_plugin_up ([demo_plugin_row], [])"
  by (simp_all add: mem_plugin_up_def indexed_def demo_plugin_row_def zero_plugin_def)

lemmas demo_run_defs = demo_plugins_def no_faults_def demo_request_def demo_fs_def plugin_Install_def Let_def and_then_def
  on_db_def ExistsByKey_def dao_ExistsByKey_def dao_ExistsBy_def count_by_def mem_plugins_def mem_table_def
  generatePluginKey_def to_lower_def os_MkdirAll_def os_Create_def ancestors_def path_names_def path_rooted_def
  render_path_def clean_step_def Join_def Clean_def parent_def Dir_names_def plugin_Create_def dao_Create_def
  plugin_fits_def zero_plugin_def clash_def PluginStateInstalled_def

lemma demo_install:
  "\<exists>r s1. plugin_Install demo_plugins 1 ''0123456789'' no_faults (demo_request ''hello'') ''code'' (([], []), demo_fs) = (Inr r, s1)"
  "\<exists>r s1. plugin_Install demo_plugins 1 ''0123456789'' no_faults (demo_request ''../../tmp/evil'') ''code'' (([], []), demo_fs) = (Inr r, s1)"
  by (simp_all add: demo_run_defs)

subsection \<open>Theorems\<close>

text \<open>
  C16. Enabling, disabling and uninstalling implement the state machine of \<open>plugin_spec\<close> exactly, on
  any database that satisfies the laws: which state changes to which, the errors (not found, invalid
  state) with nothing changed, and no effect on any other plugin.
\<close>

theorem plugin_commands_refine:
  assumes "plugin_service ps pview eview up" "up (fst s)"
  shows "(fst (plugin_exec ps now flt cmd s), plugin_states (pview (fst (snd (plugin_exec ps now flt cmd s))))) =
    plugin_spec cmd (plugin_states (pview (fst s)))"
  using assms by (rule plugin_service.exec_refines)

theorem plugin_commands_refine_witness:
  "(fst (plugin_exec demo_plugins 5 no_faults (CmdEnable ''hello'') (([demo_plugin_row], []), demo_fs)),
    plugin_states (fst (fst (snd (plugin_exec demo_plugins 5 no_faults (CmdEnable ''hello'') (([demo_plugin_row], []), demo_fs)))))) =
   (Inr (), (plugin_states [demo_plugin_row])(''hello'' \<mapsto> ''ENABLED''))"
proof -
  have "plugin_states [demo_plugin_row] ''hello'' = Some ''INSTALLED''"
    by (simp add: plugin_states_def live_plugin_def demo_plugin_row_def zero_plugin_def PluginStateInstalled_def)
  then show ?thesis
    using plugin_commands_refine [OF plug.plugin_service_axioms, of "(([demo_plugin_row], []), demo_fs)" 5 no_faults "CmdEnable ''hello''"]
    by (simp add: demo_plugin_up)
qed

text \<open>
  C17. Starting from a database without plugins, after any sequence of operations of the service,
  whatever the system refuses in between, every plugin that is installed is in one of the states
  installed, enabled and disabled, an enabled one has the time it was enabled, and its file is in
  place with the recorded checksum, provided no plugin name contains a slash.
\<close>

theorem stored_plugins_intact:
  assumes "plugin_service ps pview eview up" "up (fst s)" "pview (fst s) = []" "ps_pluginsDir ps \<noteq> []"
    "list_all plain_op ops" "s' = fold (plugin_step ps) ops s" "p \<in> set (pview (fst s'))" "pl_DeletedAt p = None"
  shows "pl_State p \<in> {PluginStateInstalled, PluginStateEnabled, PluginStateDisabled}
    \<and> (IsEnabled p \<longrightarrow> pl_EnabledAt p \<noteq> None)
    \<and> (\<exists>content. fs_files (snd s') (pl_Path p) = Some content \<and> ps_sha256 ps content = pl_Checksum p)"
proof -
  have "store_inv ps (pview (fst s)) (snd s)" using assms(3) by (simp add: store_inv_def)
  then have "store_inv ps (pview (fst s')) (snd s')"
    using plugin_service.plugin_run_inv [OF assms(1, 2) _ assms(4, 5)] assms(6) by blast
  then show ?thesis using assms(7, 8) by (auto simp: store_inv_def list_all_iff row_ok_def stored_ok_def)
qed

theorem stored_plugins_intact_witness:
  "\<exists>p. p \<in> set (fst (fst (plugin_step demo_plugins
            (PInstall 1 ''0123456789'' no_faults (demo_request ''hello'') ''code'') (([], []), demo_fs))))
     \<and> (\<exists>content. fs_files (snd (plugin_step demo_plugins
            (PInstall 1 ''0123456789'' no_faults (demo_request ''hello'') ''code'') (([], []), demo_fs))) (pl_Path p) = Some content
          \<and> ps_sha256 demo_plugins content = pl_Checksum p)"
proof -
  let ?op = "PInstall 1 ''0123456789'' no_faults (demo_request ''hello'') ''code''" and ?s = "(([], []), demo_fs) :: mem_plugin_db penv"
  obtain r s1 where i: "plugin_Install demo_plugins 1 ''0123456789'' no_faults (demo_request ''hello'') ''code'' ?s = (Inr r, s1)"
    using demo_install(1) by blast
  obtain p where p: "fst (fst s1) = [p]" "pl_DeletedAt p = None"
    by (rule plug.Install_ok [OF _ refl i]) (auto simp: demo_plugin_up new_row_def)
  have "list_all plain_op [?op]" "ps_pluginsDir demo_plugins \<noteq> []" by (simp_all add: demo_request_def demo_plugins_def)
  with stored_plugins_intact [OF plug.plugin_service_axioms, of ?s "[?op]" s1 p] i p
  show ?thesis by (auto simp: demo_plugin_up)
qed

text \<open>
  The health report never says anything but healthy: after any sequence of operations of the
  service from a database without plugins, the report counts the installed plugins exactly, the
  enabled ones and the rest, and no plugin is ever in error, because nothing writes that state.
\<close>

theorem plugin_health_report:
  assumes "plugin_service ps pview eview up" "up (fst s)" "pview (fst s) = []" "ps_pluginsDir ps \<noteq> []"
    "list_all plain_op ops" "s' = fold (plugin_step ps) ops s"
  shows "\<exists>h. fst (ps_GetHealth ps now s') = Inr h \<and> ph_Status h = ''healthy''
    \<and> ph_TotalPlugins h = int (length (filter (\<lambda>p. pl_DeletedAt p = None) (pview (fst s'))))
    \<and> ph_EnabledPlugins h = int (length (filter (\<lambda>p. pl_DeletedAt p = None \<and> IsEnabled p) (pview (fst s'))))
    \<and> ph_DisabledPlugins h = int (length (filter (\<lambda>p. pl_DeletedAt p = None \<and> \<not> IsEnabled p) (pview (fst s'))))
    \<and> ph_ErrorPlugins h = 0"
proof -
  have "store_inv ps (pview (fst s)) (snd s)" using assms(3) by (simp add: store_inv_def)
  then have "up (fst s')" "list_all row_ok (pview (fst s'))"
    using plugin_service.plugin_run_inv [OF assms(1, 2) _ assms(4, 5)] assms(6) by (auto simp: store_inv_def)
  then show ?thesis by (rule plugin_service.health_of_inv [OF assms(1)])
qed

theorem plugin_health_report_witness:
  "\<exists>h. fst (ps_GetHealth demo_plugins 9 (fold (plugin_step demo_plugins)
        [PInstall 1 ''0123456789'' no_faults (demo_request ''hello'') ''code'', PCommand 2 no_faults (CmdEnable ''hello-01234567'')]
        (([], []), demo_fs))) = Inr h \<and> ph_Status h = ''healthy''"
  using plugin_health_report [OF plug.plugin_service_axioms, of "(([], []), demo_fs)"
      "[PInstall 1 ''0123456789'' no_faults (demo_request ''hello'') ''code'', PCommand 2 no_faults (CmdEnable ''hello-01234567'')]" _ 9]
  by (auto simp: demo_plugin_up demo_plugins_def demo_request_def)

text \<open>
  What was installed can be read back: after an installation that succeeded, the plugin is found
  under its key with the metadata of the request and its configuration, and its file holds what
  was uploaded. (The JSON library decodes what it encodes.)
\<close>

theorem install_reads_back:
  assumes "plugin_service ps pview eview up" "up (fst s)"
    "\<And>cfg j. ps_marshal ps cfg = Some j \<Longrightarrow> j \<noteq> [] \<and> ps_unmarshal ps j = Some cfg"
    "plugin_Install ps now uuid flt req file s = (Inr r, s1)"
  shows "\<exists>d. fst (ps_GetByKey ps now' (pp_Key r) s1) = Inr d \<and> pd_Plugin d = r \<and> pd_Config d = ip_Config req
    \<and> pp_Name r = ip_Name req \<and> pp_Version r = ip_Version req \<and> pp_State r = ''INSTALLED''
    \<and> fs_files (snd s1) (Join (ps_pluginsDir ps) (pp_Key r @ ''.so'')) = Some file"
proof -
  define key where "key = generatePluginKey uuid (ip_Name req)"
  from plugin_service.Install_ok [OF assms(1, 2) key_def assms(4)] obtain i config where
    i: "live_plugin key (pview (fst s)) = None" "config_json ps req = Some config"
      "r = toPluginResponse (new_row ps now key req config file i)"
      "pview (fst s1) = pview (fst s) @ [new_row ps now key req config file i]"
      "fs_files (snd s1) = (fs_files (snd s))(plugin_path ps key \<mapsto> file)" "up (fst s1)"
    by blast
  let ?row = "new_row ps now key req config file i"
  have k: "pp_Key r = key" by (simp add: i(3) toPluginResponse_def new_row_def)
  have "live_plugin key (pview (fst s1)) = Some ?row"
    using i(1) by (simp add: i(4) live_plugin_def find_append new_row_def)
  from plugin_service.get_state(1) [OF assms(1) i(6) this, of now'] obtain xs where
    g: "fst (ps_GetByKey ps now' key s1) = Inr \<lparr>pd_Plugin = r, pd_Extensions = xs,
      pd_Config = (if config \<noteq> [] then ps_unmarshal ps config else None)\<rparr>"
    by (auto simp: i(3) new_row_def)
  moreover have "(if config \<noteq> [] then ps_unmarshal ps config else None) = ip_Config req"
    using i(2) assms(3) by (auto simp: config_json_def split: option.splits)
  ultimately show ?thesis
    by (simp add: k i(5) plugin_path_def) (simp add: i(3) toPluginResponse_def new_row_def PluginStateInstalled_def)
qed

theorem install_reads_back_witness:
  "\<exists>r s1. plugin_Install demo_plugins 1 ''0123456789'' no_faults (demo_request ''hello'') ''code'' (([], []), demo_fs) = (Inr r, s1)
    \<and> (\<exists>d. fst (ps_GetByKey demo_plugins 7 (pp_Key r) s1) = Inr d \<and> pd_Plugin d = r)"
proof -
  obtain r s1 where i: "plugin_Install demo_plugins 1 ''0123456789'' no_faults (demo_request ''hello'') ''code'' (([], []), demo_fs) = (Inr r, s1)"
    using demo_install(1) by blast
  have "ps_marshal demo_plugins cfg = Some j \<Longrightarrow> j \<noteq> [] \<and> ps_unmarshal demo_plugins j = Some cfg" for cfg j
    by (auto simp: demo_plugins_def)
  from install_reads_back [OF plug.plugin_service_axioms _ this i, of 7]
  show ?thesis using i by (auto simp: demo_plugin_up)
qed

text \<open>
  A plugin name decides where the file goes: with \<^verbatim>\<open>..\<close> in the name an installation that succeeds
  writes the upload outside the directory of the plugins.
\<close>

theorem plugin_name_escapes_directory:
  assumes "plugin_service ps pview eview up" "up (fst s)" "ps_pluginsDir ps = ''/srv/plugins''"
    "ip_Name req = ''../../tmp/evil''" "take 8 uuid = ''01234567''"
    "plugin_Install ps now uuid flt req file s = (Inr r, s1)"
  shows "fs_files (snd s1) ''/tmp/evil-01234567.so'' = Some file
    \<and> \<not> inside (ps_pluginsDir ps) ''/tmp/evil-01234567.so''"
proof -
  have "generatePluginKey uuid (ip_Name req) = ''../../tmp/evil-01234567''"
    using assms(4, 5) by (simp add: generatePluginKey_def Let_def to_lower_def)
  then have path: "plugin_path ps (generatePluginKey uuid (ip_Name req)) = ''/tmp/evil-01234567.so''"
    by (simp add: plugin_path_def assms(3) Join_def Clean_def path_names_def path_rooted_def render_path_def clean_step_def)
  have "fs_files (snd s1) ''/tmp/evil-01234567.so'' = Some file"
    by (rule plugin_service.Install_ok [OF assms(1, 2) refl assms(6)]) (simp add: path)
  moreover have "\<not> inside ''/srv/plugins'' ''/tmp/evil-01234567.so''"
    by (simp add: inside_def path_names_def path_rooted_def clean_step_def)
  ultimately show ?thesis by (simp add: assms(3))
qed

theorem plugin_name_escapes_directory_witness:
  "\<exists>r s1. plugin_Install demo_plugins 1 ''0123456789'' no_faults (demo_request ''../../tmp/evil'') ''code'' (([], []), demo_fs) = (Inr r, s1)
    \<and> fs_files (snd s1) ''/tmp/evil-01234567.so'' = Some ''code''"
proof -
  obtain r s1 where i: "plugin_Install demo_plugins 1 ''0123456789'' no_faults (demo_request ''../../tmp/evil'') ''code'' (([], []), demo_fs) = (Inr r, s1)"
    using demo_install(2) by blast
  from plugin_name_escapes_directory [OF plug.plugin_service_axioms _ _ _ _ i]
  show ?thesis using i by (simp add: demo_plugin_up demo_plugins_def demo_request_def)
qed

end
