(* ===== verification/Auth_Properties.thy ===== *)
theory Auth_Properties
  imports User_Service
begin

text \<open>
  What the authentication and user services guarantee together: over any sequence of their
  operations a refresh token is accepted at most once, a logout is final, logging in takes a live,
  active account and its password, and issued tokens work until they expire. The theory also
  records where the services fall short: interleaved refreshes, user names that shadow e-mail
  addresses, names of deleted accounts and sessions that outlive a change of password.
\<close>

subsection \<open>Sequences of operations\<close>

datatype auth_op =
    OpRegister nat string RegisterRequest | OpLogin string LoginRequest | OpRefresh string string
  | OpLogout string | OpLogoutAll int | OpDeleteExpired
  | OpUpdate int UpdateProfileRequest | OpChangePassword nat int ChangePasswordRequest | OpDelete int
  | OpGet int | OpList int int

text \<open>Both services work on one database.\<close>

definition user_service_of :: "'s authService \<Rightarrow> 's userService" where
  "user_service_of a =
     \<lparr>us_userRepo = as_userRepo a, us_passwordHasher = as_passwordHasher a, us_bcrypt = as_bcrypt a\<rparr>"

fun apply_op :: "'s authService \<Rightarrow> time \<Rightarrow> auth_op \<Rightarrow> 's \<Rightarrow> 's" where
  "apply_op a now (OpRegister salt uuid req) s = snd (auth_Register a now salt uuid req s)"
| "apply_op a now (OpLogin uuid req) s = snd (auth_Login a now uuid req s)"
| "apply_op a now (OpRefresh uuid tok) s = snd (auth_RefreshToken a now uuid tok s)"
| "apply_op a now (OpLogout tok) s = snd (auth_Logout a now tok s)"
| "apply_op a now (OpLogoutAll i) s = snd (auth_LogoutAll a now i s)"
| "apply_op a now OpDeleteExpired s = snd (DeleteExpired (as_refreshTokenRepo a) now s)"
| "apply_op a now (OpUpdate i req) s = snd (user_Update (user_service_of a) now i req s)"
| "apply_op a now (OpChangePassword salt i req) s = snd (user_ChangePassword (user_service_of a) now salt i req s)"
| "apply_op a now (OpDelete i) s = snd (user_Delete (user_service_of a) now i s)"
| "apply_op a now (OpGet i) s = snd (user_GetByID (user_service_of a) now i s)"
| "apply_op a now (OpList page psize) s = snd (user_List (user_service_of a) now page psize s)"

definition run_ops :: "'s authService \<Rightarrow> (time \<times> auth_op) list \<Rightarrow> 's \<Rightarrow> 's" where
  "run_ops a ops s = fold (\<lambda>(now, op). apply_op a now op) ops s"

text \<open>Calls that leave the tokens alone.\<close>

definition quiet :: "('s \<Rightarrow> bool) \<Rightarrow> ('s \<Rightarrow> 'v) \<Rightarrow> ('s, 'e, 'b) call \<Rightarrow> bool" where
  "quiet up view f \<longleftrightarrow> (\<forall>s. up s \<longrightarrow> up (snd (f s)) \<and> view (snd (f s)) = view s)"

lemma quiet_basic: "quiet up view (ret x)" "quiet up view (fail e)" "quiet up view (pure r)"
  by (simp_all add: quiet_def)

lemma quiet_and_then:
  "quiet up view f \<Longrightarrow> (\<And>x. quiet up view (k x)) \<Longrightarrow> quiet up view (and_then f k)"
  unfolding quiet_def and_then_def by (auto split: prod.splits sum.splits)

context auth_service
begin

lemma quiet_dao:
  "quiet up tview (first_by udb now c)" "quiet up tview (count_by udb now c)" "quiet up tview (find_rows udb now c ord p)"
  "quiet up tview (exec udb now q)" "quiet up tview (dao_ExistsBy udb now f v)"
  by (simp_all add: quiet_def db_laws)

lemma quiet_user_ops:
  "quiet up tview (user_Update (user_service_of a) now i req)"
  "quiet up tview (user_ChangePassword (user_service_of a) now salt i creq)"
  "quiet up tview (user_Delete (user_service_of a) now i)"
  "quiet up tview (user_GetByID (user_service_of a) now i)"
  "quiet up tview (user_List (user_service_of a) now page psize)"
  by (auto simp: user_service_of_def user_Update_def user_ChangePassword_def user_Delete_def user_GetByID_def
      user_List_def user_FindAll_def find_all_def respond_def Let_def user_repo_defs
      intro!: quiet_and_then quiet_basic quiet_dao split: option.splits)

lemma apply_op_evolves:
  assumes "up s"
  shows "up (apply_op a now op s) \<and> evolves (tview s) (tview (apply_op a now op s))"
  using assms quiet_user_ops
  by (cases op)
     (simp_all add: register_frame login_frame refresh_frame auth_Logout_def auth_LogoutAll_def revoke_laws(3)
        revoke_all_laws(3) delete_expired_laws(3) revoke_evolves quiet_def)

lemma run_ops_evolves:
  "up s \<Longrightarrow> up (run_ops a ops s) \<and> evolves (tview s) (tview (run_ops a ops s))"
proof (induction ops arbitrary: s)
  case Nil
  then show ?case by (simp add: run_ops_def)
next
  case (Cons p ops)
  obtain now op where p: "p = (now, op)" by (cases p)
  note 1 = apply_op_evolves [OF Cons.prems, of now op]
  then show ?case using Cons.IH [of "apply_op a now op s"] p
    by (auto simp: run_ops_def intro: evolves_trans)
qed

lemma spent_for_good:
  assumes "up s" "spent tok (tview s)"
  shows "fst (auth_RefreshToken a now uuid tok (run_ops a ops s)) = Inl ErrInvalidToken"
proof -
  have e: "up (run_ops a ops s)" "evolves (tview s) (tview (run_ops a ops s))"
    using run_ops_evolves [OF assms(1)] by auto
  then have "spent tok (tview (run_ops a ops s))"
    using evolves_spent [OF e(2) assms(2)] tokens_distinct by simp
  from refresh_check_spent [OF e(1) this] show ?thesis
    by (simp add: auth_RefreshToken_def and_then_Inl)
qed

text \<open>An accepted token has a live, unrevoked row.\<close>

lemma refresh_check_ok:
  assumes "up s" "fst (refresh_check a now tok s) = Inr rt"
  obtains t where "t \<in> set (tview s)" "rt_Token t = tok" "\<not> rt_Revoked t" "rt_DeletedAt t = None"
    "now \<le> rt_ExpiresAt t" "rt_UserID rt = rt_UserID t"
proof -
  have "\<exists>t \<in> set (tview s). rt_Token t = tok \<and> \<not> rt_Revoked t \<and> rt_DeletedAt t = None"
  proof (rule ccontr)
    assume "\<not> ?thesis"
    then have "fst (GetByToken udb tdb now tok s) = Inr None"
      by (intro GetByToken_laws(1) [OF assms(1)]) auto
    with assms(2) show False by (auto simp: refresh_check_def and_then_Inr split: sum.splits)
  qed
  then obtain t where t: "t \<in> set (tview s)" "rt_Token t = tok" "\<not> rt_Revoked t" "rt_DeletedAt t = None"
    by blast
  from GetByToken_laws(2) [OF assms(1) t, of now] obtain u
    where "fst (GetByToken udb tdb now tok s) = Inr (Some (t\<lparr>rt_User := u\<rparr>))" by blast
  then have "now \<le> rt_ExpiresAt t \<and> rt_UserID rt = rt_UserID t"
    using assms(2) by (auto simp: refresh_check_def and_then_Inr IsValid_def IsExpired_def split: sum.splits if_splits)
  with t that show ?thesis by blast
qed

lemma refresh_spends:
  assumes "up s" "fst (auth_RefreshToken a now uuid tok s) = Inr resp"
  shows "spent tok (tview (snd (auth_RefreshToken a now uuid tok s)))"
proof -
  obtain rt where rt: "fst (refresh_check a now tok s) = Inr rt"
    using assms(2) by (cases "fst (refresh_check a now tok s)") (simp_all add: auth_RefreshToken_def and_then_Inl)
  let ?s1 = "snd (refresh_check a now tok s)"
  note s1 = refresh_check_frame [OF assms(1), of now tok]
  from assms(1) rt obtain t where "t \<in> set (tview s)" "rt_Token t = tok" by (rule refresh_check_ok)
  then have "spent tok (tview (snd (RevokeByToken tdb now tok ?s1)))"
    using revoke_spends [OF s1(1), of t tok now] s1 by simp
  with refresh_rotate_frame(1, 3) [OF s1(1)] have "spent tok (tview (snd (refresh_rotate a now uuid tok rt ?s1)))"
    using evolves_spent tokens_distinct by blast
  then show ?thesis by (simp add: auth_RefreshToken_def and_then_Inr rt)
qed

lemma logout_spends:
  assumes "up s" "t \<in> set (tview s)"
  shows "spent (rt_Token t) (tview (snd (auth_Logout a now (rt_Token t) s)))"
    and "spent (rt_Token t) (tview (snd (auth_LogoutAll a now (rt_UserID t) s)))"
proof -
  show "spent (rt_Token t) (tview (snd (auth_Logout a now (rt_Token t) s)))"
    using revoke_spends [OF assms refl, of now] by (simp add: auth_Logout_def)
  let ?f = "\<lambda>u. if rt_DeletedAt u = None \<and> rt_UserID u = rt_UserID t then u\<lparr>rt_Revoked := True\<rparr> else u"
  have e: "tview (snd (auth_LogoutAll a now (rt_UserID t) s)) = map ?f (tview s)"
    by (simp add: auth_LogoutAll_def revoke_all_laws assms(1))
  have uniq: "u = t" if "u \<in> set (tview s)" "rt_Token u = rt_Token t" for u
    using tokens_distinct [OF assms(1)] that assms(2) unfolding distinct_map by (blast dest: inj_onD)
  have 1: "?f t \<in> set (map ?f (tview s))" unfolding set_map by (rule imageI [OF assms(2)])
  have 2: "rt_Token (?f t) = rt_Token t" "rt_Revoked (?f t) \<or> rt_DeletedAt (?f t) \<noteq> None" by simp_all
  have 3: "x = ?f t" if x: "x \<in> set (map ?f (tview s))" and tx: "rt_Token x = rt_Token t" for x
  proof -
    obtain u where u: "u \<in> set (tview s)" "x = ?f u" using x unfolding set_map by (elim imageE)
    then have "rt_Token u = rt_Token t" using tx by (simp split: if_splits)
    with u(1) have "u = t" by (rule uniq)
    with u(2) show ?thesis by simp
  qed
  show "spent (rt_Token t) (tview (snd (auth_LogoutAll a now (rt_UserID t) s)))"
    unfolding e spent_def
  proof (intro conjI ballI impI)
    show "\<exists>x \<in> set (map ?f (tview s)). rt_Token x = rt_Token t" using 1 2(1) by (rule bexI [rotated])
    show "rt_Revoked x \<or> rt_DeletedAt x \<noteq> None"
      if "x \<in> set (map ?f (tview s))" "rt_Token x = rt_Token t" for x
      using 3 [OF that] 2(2) by simp
  qed
qed
text \<open>When tokens are issued.\<close>

lemma issue_ok:
  assumes "up s" "u \<in> set (uview s)"
    "GenerateAccessToken (as_jwt a) (as_jwtProvider a) now u = Inr access"
    "GenerateRefreshToken (as_jwt a) (as_jwtProvider a) now uuid u = Inr (tok, e)"
    "length tok \<le> 500" "tok \<notin> rt_Token ` set (tview s)"
  shows "fst (generateAuthResponse a now uuid u s) = Inr (auth_response (as_jwtProvider a) access tok u)"
    and "\<exists>i. tview (snd (generateAuthResponse a now uuid u s)) = tview s @ [token_create now i (new_token u tok e)]"
proof -
  have "\<not> clash token_schema (tview s) (new_token u tok e)"
    using assms(6) by (auto simp: clash_iff new_token_def)
  then obtain i where i: "fst (dao_Create tdb now (new_token u tok e) s) = Inr (token_create now i (new_token u tok e))"
    "tview (snd (dao_Create tdb now (new_token u tok e) s)) = tview s @ [token_create now i (new_token u tok e)]"
    using tokens.Create_ok [OF assms(1), of "new_token u tok e" now] assms(2, 5) by (auto simp: new_token_def)
  show "fst (generateAuthResponse a now uuid u s) = Inr (auth_response (as_jwtProvider a) access tok u)"
    "\<exists>i. tview (snd (generateAuthResponse a now uuid u s)) = tview s @ [token_create now i (new_token u tok e)]"
    using i by (auto simp: generateAuthResponse_def repo_CreateToken_def assms(3, 4) and_then_Inr)
qed

lemma issue_success:
  assumes "up s" "0 \<le> u_ID u" "fst (generateAuthResponse a now uuid u s) = Inr resp"
  obtains access tok e i where
    "GenerateAccessToken (as_jwt a) (as_jwtProvider a) now u = Inr access"
    "GenerateRefreshToken (as_jwt a) (as_jwtProvider a) now uuid u = Inr (tok, e)"
    "e = now + jw_refreshTokenDuration (as_jwtProvider a)"
    "resp = auth_response (as_jwtProvider a) access tok u"
    "tview (snd (generateAuthResponse a now uuid u s)) = tview s @ [token_create now i (new_token u tok e)]"
proof -
  from assms(1, 2) obtain access tok e where g:
    "GenerateAccessToken (as_jwt a) (as_jwtProvider a) now u = Inr access"
    "GenerateRefreshToken (as_jwt a) (as_jwtProvider a) now uuid u = Inr (tok, e)"
    "e = now + jw_refreshTokenDuration (as_jwtProvider a)"
    "generateAuthResponse a now uuid u s =
       and_then (dao_Create tdb now (new_token u tok e)) (\<lambda>_. ret (auth_response (as_jwtProvider a) access tok u)) s"
    by (rule generate_cases)
  from tokens.Create_view [OF assms(1), of "new_token u tok e" now]
  consider i where "fst (dao_Create tdb now (new_token u tok e) s) = Inr (token_create now i (new_token u tok e))"
      "tview (snd (dao_Create tdb now (new_token u tok e) s)) = tview s @ [token_create now i (new_token u tok e)]"
    | "fst (dao_Create tdb now (new_token u tok e) s) = Inl DbError"
    by (auto simp: new_token_def)
  then show ?thesis
  proof cases
    case 1
    then show ?thesis using that [OF g(1-3)] assms(3) g(4) by (auto simp: and_then_Inr)
  next
    case 2
    then show ?thesis using assms(3) g(4) by (simp add: and_then_Inl)
  qed
qed

lemma issue_failure:
  assumes "up s" "0 \<le> u_ID u" "fst (generateAuthResponse a now uuid u s) = Inl e"
  shows "tview (snd (generateAuthResponse a now uuid u s)) = tview s"
proof -
  from assms(1, 2) obtain access tok x where g: "generateAuthResponse a now uuid u s =
       and_then (dao_Create tdb now (new_token u tok x)) (\<lambda>_. ret (auth_response (as_jwtProvider a) access tok u)) s"
    by (rule generate_cases)
  show ?thesis using tokens.Create_view [OF assms(1), of "new_token u tok x" now] assms(3)
    by (auto simp: g new_token_def and_then_Inr and_then_Inl)
qed

lemma check_ok:
  assumes "up s" "t \<in> set (tview s)" "\<not> rt_Revoked t" "rt_DeletedAt t = None" "now \<le> rt_ExpiresAt t"
    "ValidateRefreshToken (as_jwt a) (as_jwtProvider a) now (rt_Token t) = Inr c"
  shows "\<exists>x. fst (refresh_check a now (rt_Token t) s) = Inr (t\<lparr>rt_User := x\<rparr>)"
proof -
  obtain x where "fst (GetByToken udb tdb now (rt_Token t) s) = Inr (Some (t\<lparr>rt_User := x\<rparr>))"
    using GetByToken_laws(2) [OF assms(1, 2) refl assms(3, 4)] by blast
  then show ?thesis
    using assms(3, 5, 6) by (intro exI [of _ x]) (simp add: refresh_check_def and_then_Inr IsValid_def IsExpired_def)
qed

lemma rotate_ok:
  assumes "up s" "u \<in> set (uview s)" "u_DeletedAt u = None" "u_IsActive u" "u_ID u = rt_UserID rt"
    "GenerateAccessToken (as_jwt a) (as_jwtProvider a) now u = Inr access"
    "GenerateRefreshToken (as_jwt a) (as_jwtProvider a) now uuid u = Inr (new, e)"
    "length new \<le> 500" "new \<notin> rt_Token ` set (tview s)"
  shows "fst (refresh_rotate a now uuid tok rt s) = Inr (auth_response (as_jwtProvider a) access new u)"
    and "rt_Token ` set (tview (snd (refresh_rotate a now uuid tok rt s))) = insert new (rt_Token ` set (tview s))"
proof -
  let ?s2 = "snd (RevokeByToken tdb now tok s)"
  let ?s3 = "snd (GetByID udb now (rt_UserID rt) ?s2)"
  have s2: "up ?s2" "uview ?s2 = uview s" "fst (RevokeByToken tdb now tok s) = Inr ()"
    by (simp_all add: revoke_laws assms(1))
  have "map rt_Token (tview ?s2) = map rt_Token (tview s)" by (simp add: revoke_laws assms(1))
  then have tk: "rt_Token ` set (tview ?s2) = rt_Token ` set (tview s)" by (metis set_map)
  have s3: "up ?s3" "uview ?s3 = uview s" "tview ?s3 = tview ?s2" by (simp_all add: GetByID_frame s2)
  have row: "fst (GetByID udb now (rt_UserID rt) ?s2) = Inr (Some u)"
    using users.row_by_id [OF assms(1), of "rt_UserID rt" u] assms(2, 3, 5) by (simp add: GetByID_frame s2)
  have u: "u \<in> set (uview ?s3)" "new \<notin> rt_Token ` set (tview ?s3)" using assms(2, 9) s3 tk by auto
  note i = issue_ok [OF s3(1) u(1) assms(6-8) u(2)]
  have e: "refresh_rotate a now uuid tok rt s = generateAuthResponse a now uuid u ?s3"
    by (simp add: refresh_rotate_def and_then_Inr s2(3) row assms(4))
  show "fst (refresh_rotate a now uuid tok rt s) = Inr (auth_response (as_jwtProvider a) access new u)"
    unfolding e by (rule i)
  show "rt_Token ` set (tview (snd (refresh_rotate a now uuid tok rt s))) = insert new (rt_Token ` set (tview s))"
    unfolding e using i(2) s3(3) by (auto simp: token_create_def new_token_def tk [symmetric])
qed

lemma refresh_ok:
  assumes "up s" "t \<in> set (tview s)" "\<not> rt_Revoked t" "rt_DeletedAt t = None" "now \<le> rt_ExpiresAt t"
    "ValidateRefreshToken (as_jwt a) (as_jwtProvider a) now (rt_Token t) = Inr c"
    "u \<in> set (uview s)" "u_DeletedAt u = None" "u_IsActive u" "u_ID u = rt_UserID t"
    "GenerateAccessToken (as_jwt a) (as_jwtProvider a) now u = Inr access"
    "GenerateRefreshToken (as_jwt a) (as_jwtProvider a) now uuid u = Inr (tok, e)"
    "length tok \<le> 500" "tok \<notin> rt_Token ` set (tview s)"
  shows "fst (auth_RefreshToken a now uuid (rt_Token t) s) = Inr (auth_response (as_jwtProvider a) access tok u)"
proof -
  let ?s1 = "snd (refresh_check a now (rt_Token t) s)"
  obtain x where chk: "fst (refresh_check a now (rt_Token t) s) = Inr (t\<lparr>rt_User := x\<rparr>)"
    using check_ok [OF assms(1-6)] by blast
  have s1: "up ?s1" "uview ?s1 = uview s" "tview ?s1 = tview s" using refresh_check_frame [OF assms(1)] by auto
  have "fst (refresh_rotate a now uuid (rt_Token t) (t\<lparr>rt_User := x\<rparr>) ?s1) =
      Inr (auth_response (as_jwtProvider a) access tok u)"
    using assms(7-14) s1 by (intro rotate_ok(1)) auto
  then show ?thesis by (simp add: auth_RefreshToken_def and_then_Inr chk)
qed

text \<open>Two clients that both check before either revokes are both served.\<close>

lemma refresh_race:
  assumes "up s" "t \<in> set (tview s)" "\<not> rt_Revoked t" "rt_DeletedAt t = None" "now \<le> rt_ExpiresAt t"
    "ValidateRefreshToken (as_jwt a) (as_jwtProvider a) now (rt_Token t) = Inr c"
    "u \<in> set (uview s)" "u_DeletedAt u = None" "u_IsActive u" "u_ID u = rt_UserID t"
    "GenerateAccessToken (as_jwt a) (as_jwtProvider a) now u = Inr access"
    "GenerateRefreshToken (as_jwt a) (as_jwtProvider a) now uuid1 u = Inr (tok1, e)"
    "GenerateRefreshToken (as_jwt a) (as_jwtProvider a) now uuid2 u = Inr (tok2, e)"
    "length tok1 \<le> 500" "length tok2 \<le> 500" "tok1 \<noteq> tok2"
    "tok1 \<notin> rt_Token ` set (tview s)" "tok2 \<notin> rt_Token ` set (tview s)"
    and s12: "s1 = snd (refresh_check a now (rt_Token t) s)" "s2 = snd (refresh_check a now (rt_Token t) s1)"
  shows "\<exists>rt1 rt2. fst (refresh_check a now (rt_Token t) s) = Inr rt1 \<and> fst (refresh_check a now (rt_Token t) s1) = Inr rt2
    \<and> fst (refresh_rotate a now uuid1 (rt_Token t) rt1 s2) = Inr (auth_response (as_jwtProvider a) access tok1 u)
    \<and> fst (refresh_rotate a now uuid2 (rt_Token t) rt2 (snd (refresh_rotate a now uuid1 (rt_Token t) rt1 s2)))
      = Inr (auth_response (as_jwtProvider a) access tok2 u)"
proof -
  have f1: "up s1" "uview s1 = uview s" "tview s1 = tview s"
    using refresh_check_frame [OF assms(1)] s12 by auto
  have f2: "up s2" "uview s2 = uview s" "tview s2 = tview s"
    using refresh_check_frame [OF f1(1)] s12 f1 by auto
  obtain x1 where c1: "fst (refresh_check a now (rt_Token t) s) = Inr (t\<lparr>rt_User := x1\<rparr>)"
    using check_ok [OF assms(1-6)] by blast
  obtain x2 where c2: "fst (refresh_check a now (rt_Token t) s1) = Inr (t\<lparr>rt_User := x2\<rparr>)"
    using check_ok [OF f1(1) _ assms(3-6)] f1(3) assms(2) by auto
  let ?r1 = "refresh_rotate a now uuid1 (rt_Token t) (t\<lparr>rt_User := x1\<rparr>) s2"
  have r1: "fst ?r1 = Inr (auth_response (as_jwtProvider a) access tok1 u)"
    "rt_Token ` set (tview (snd ?r1)) = insert tok1 (rt_Token ` set (tview s2))"
    using assms(7-18) f2 by (intro rotate_ok; auto)+
  have f3: "up (snd ?r1)" "uview (snd ?r1) = uview s"
    using refresh_rotate_frame(1, 2) [OF f2(1)] f2(2) by auto
  have "fst (refresh_rotate a now uuid2 (rt_Token t) (t\<lparr>rt_User := x2\<rparr>) (snd ?r1)) =
      Inr (auth_response (as_jwtProvider a) access tok2 u)"
    using assms(7-18) f2 f3 r1(2) by (intro rotate_ok(1)) auto
  with c1 c2 r1(1) show ?thesis by blast
qed

end
subsection \<open>What the operations promise\<close>

text \<open>
  The services as functions of the rows of the two tables: the answer, and the row that is
  added. Tokens are issued when the new refresh token fits its column and is new.
\<close>

definition issue_spec ::
  "'s authService \<Rightarrow> time \<Rightarrow> string \<Rightarrow> User \<Rightarrow> RefreshToken list \<Rightarrow> svc_error + (AuthResponse \<times> RefreshToken)" where
  "issue_spec a now uuid u ts =
     (case (GenerateAccessToken (as_jwt a) (as_jwtProvider a) now u,
            GenerateRefreshToken (as_jwt a) (as_jwtProvider a) now uuid u) of
        (Inr access, Inr (tok, e)) \<Rightarrow>
          if length tok \<le> 500 \<and> tok \<notin> rt_Token ` set ts
          then Inr (auth_response (as_jwtProvider a) access tok u, new_token u tok e) else Inl DbError
      | _ \<Rightarrow> Inl SignError)"

definition account_of :: "string \<Rightarrow> User list \<Rightarrow> User option" where
  "account_of x us = List.find (\<lambda>u. u_DeletedAt u = None \<and> (u_Username u = x \<or> u_Email u = x)) us"

definition login_spec ::
  "'s authService \<Rightarrow> time \<Rightarrow> string \<Rightarrow> LoginRequest \<Rightarrow> User list \<Rightarrow> RefreshToken list \<Rightarrow>
   svc_error + (AuthResponse \<times> RefreshToken)" where
  "login_spec a now uuid req us ts =
     (case account_of (lq_UsernameOrEmail req) us of
        None \<Rightarrow> Inl ErrInvalidCredentials
      | Some u \<Rightarrow> if \<not> u_IsActive u then Inl ErrUserInactive
                  else if \<not> bc_compare (as_bcrypt a) (u_Password u) (lq_Password req) then Inl ErrInvalidCredentials
                  else issue_spec a now uuid u ts)"

text \<open>The rows after an operation that may have added one.\<close>

definition added :: "time \<Rightarrow> int \<Rightarrow> svc_error + (AuthResponse \<times> RefreshToken) \<Rightarrow> RefreshToken list \<Rightarrow> RefreshToken list" where
  "added now i r ts = (case r of Inl _ \<Rightarrow> ts | Inr (_, t) \<Rightarrow> ts @ [token_create now i t])"

context auth_service
begin

lemma issue_refines:
  assumes "up s" "u \<in> set (uview s)"
  shows "\<exists>i. fst (generateAuthResponse a now uuid u s) = map_sum id fst (issue_spec a now uuid u (tview s))
    \<and> tview (snd (generateAuthResponse a now uuid u s)) = added now i (issue_spec a now uuid u (tview s)) (tview s)"
proof -
  have pos: "0 \<le> u_ID u" using user_ids [OF assms] by simp
  from assms(1) pos obtain access tok e where g:
    "GenerateAccessToken (as_jwt a) (as_jwtProvider a) now u = Inr access"
    "GenerateRefreshToken (as_jwt a) (as_jwtProvider a) now uuid u = Inr (tok, e)"
    "generateAuthResponse a now uuid u s =
       and_then (dao_Create tdb now (new_token u tok e)) (\<lambda>_. ret (auth_response (as_jwtProvider a) access tok u)) s"
    by (rule generate_cases)
  show ?thesis
  proof (cases "length tok \<le> 500 \<and> tok \<notin> rt_Token ` set (tview s)")
    case True
    then have "\<exists>i. fst (generateAuthResponse a now uuid u s) = Inr (auth_response (as_jwtProvider a) access tok u)
        \<and> tview (snd (generateAuthResponse a now uuid u s)) = tview s @ [token_create now i (new_token u tok e)]"
      using issue_ok [OF assms g(1, 2)] by blast
    then show ?thesis using True g(1, 2) by (simp add: issue_spec_def added_def)
  next
    case False
    then have "\<not> sc_fits token_schema (new_token u tok e) \<or> clash token_schema (tview s) (new_token u tok e)"
      by (auto simp: new_token_def clash_iff)
    then have "fst (dao_Create tdb now (new_token u tok e) s) = Inl DbError
        \<and> tview (snd (dao_Create tdb now (new_token u tok e) s)) = tview s"
      by (intro tokens.Create_err [OF assms(1)]) (auto simp: new_token_def)
    then show ?thesis using False g by (simp add: issue_spec_def added_def and_then_Inl)
  qed
qed

text \<open>A registration that went through: the new account, and that its names were free.\<close>

lemma register_success:
  assumes "up s" "fst (auth_Register a now salt uuid req s) = Inr resp"
  obtains h i where "pw_Hash (as_bcrypt a) (as_passwordHasher a) salt (rq_Password req) = Inr h"
    "uview (snd (auth_Register a now salt uuid req s)) = uview s @ [user_create now i (new_user req h)]"
    "\<And>u. u \<in> set (uview s) \<Longrightarrow> u_DeletedAt u = None \<Longrightarrow> u_Username u \<noteq> rq_Username req \<and> u_Email u \<noteq> rq_Email req"
    "ar_User resp = toUserResponse (user_create now i (new_user req h))"
proof -
  let ?s2 = "snd (dao_ExistsBy udb now ''email'' (VStr (rq_Email req))
                (snd (dao_ExistsBy udb now ''username'' (VStr (rq_Username req)) s)))"
  note c = register_cases [OF assms(1), of now salt uuid req, unfolded Let_def]
  obtain h where h: "pw_Hash (as_bcrypt a) (as_passwordHasher a) salt (rq_Password req) = Inr h"
    and free: "\<not> list_ex (sees user_schema (CEq ''username'' (VStr (rq_Username req)))) (uview s)"
      "\<not> list_ex (sees user_schema (CEq ''email'' (VStr (rq_Email req)))) (uview s)"
    and r: "auth_Register a now salt uuid req s =
      and_then (dao_Create udb now (new_user req h)) (\<lambda>user. generateAuthResponse a now uuid user) ?s2"
    using assms(2) c by (cases "pw_Hash (as_bcrypt a) (as_passwordHasher a) salt (rq_Password req)")
      (auto split: if_splits)
  have s2: "up ?s2" "uview ?s2 = uview s" by (simp_all add: db_laws assms(1))
  let ?c = "dao_Create udb now (new_user req h) ?s2"
  obtain i where i: "fst ?c = Inr (user_create now i (new_user req h))"
    "uview (snd ?c) = uview s @ [user_create now i (new_user req h)]" "0 < i"
    using users.Create_view [OF s2(1), of "new_user req h" now] s2(2) assms(2) r by (auto simp: and_then_Inl)
  let ?u = "user_create now i (new_user req h)"
  have g: "auth_Register a now salt uuid req s = generateAuthResponse a now uuid ?u (snd ?c)"
    using r i(1) by (simp add: and_then_Inr)
  have up3: "up (snd ?c)" and pos: "0 \<le> u_ID ?u" using i(3) by (simp_all add: db_laws s2 user_create_def)
  have "ar_User resp = toUserResponse ?u"
    by (rule issue_success [OF up3 pos assms(2) [unfolded g]]) (simp add: auth_response_def)
  moreover have "uview (snd (auth_Register a now salt uuid req s)) = uview s @ [?u]"
    unfolding g using generate_frame(2) [OF up3 pos] i(2) by simp
  moreover have "u_Username u \<noteq> rq_Username req \<and> u_Email u \<noteq> rq_Email req"
    if "u \<in> set (uview s)" "u_DeletedAt u = None" for u
    using free that by (auto simp: list_ex_iff sees_def)
  ultimately show ?thesis by (intro that [OF h])
qed

lemma register_ok:
  assumes "up s" "\<And>u. u \<in> set (uview s) \<Longrightarrow> u_Username u \<noteq> rq_Username req \<and> u_Email u \<noteq> rq_Email req"
    "pw_Hash (as_bcrypt a) (as_passwordHasher a) salt (rq_Password req) = Inr h" "user_fits (new_user req h)"
    "\<And>i. GenerateRefreshToken (as_jwt a) (as_jwtProvider a) now uuid (user_create now i (new_user req h)) = Inr (tok, e)"
    "length tok \<le> 500" "tok \<notin> rt_Token ` set (tview s)"
  shows "\<exists>resp. fst (auth_Register a now salt uuid req s) = Inr resp"
proof -
  let ?s2 = "snd (dao_ExistsBy udb now ''email'' (VStr (rq_Email req))
                (snd (dao_ExistsBy udb now ''username'' (VStr (rq_Username req)) s)))"
  have s2: "up ?s2" "uview ?s2 = uview s" "tview ?s2 = tview s" by (simp_all add: db_laws assms(1))
  have free: "\<not> list_ex (sees user_schema (CEq ''username'' (VStr (rq_Username req)))) (uview s)"
      "\<not> list_ex (sees user_schema (CEq ''email'' (VStr (rq_Email req)))) (uview s)"
    by (auto simp: list_ex_iff sees_def dest: assms(2))
  have "\<not> clash user_schema (uview s) (new_user req h)" by (auto simp: clash_iff dest: assms(2))
  then obtain i where i: "fst (dao_Create udb now (new_user req h) ?s2) = Inr (user_create now i (new_user req h))"
    "uview (snd (dao_Create udb now (new_user req h) ?s2)) = uview s @ [user_create now i (new_user req h)]"
    using users.Create_ok [OF s2(1), of "new_user req h" now] s2(2) assms(4) by auto
  have s3: "up (snd (dao_Create udb now (new_user req h) ?s2))"
    "tview (snd (dao_Create udb now (new_user req h) ?s2)) = tview s" by (simp_all add: db_laws s2)
  obtain access where "GenerateAccessToken (as_jwt a) (as_jwtProvider a) now (user_create now i (new_user req h)) = Inr access"
    using sign_total(1) by blast
  from issue_ok(1) [OF s3(1) _ this assms(5, 6)] show ?thesis
    using i s3 assms(3, 7) free by (simp add: register_cases [OF assms(1)] and_then_Inr)
qed

lemma register_deleted_name:
  assumes "up s" "d \<in> set (uview s)" "u_DeletedAt d \<noteq> None" "u_Username d = rq_Username req"
    "\<And>u. u \<in> set (uview s) \<Longrightarrow> u_DeletedAt u = None \<Longrightarrow> u_Email u \<noteq> rq_Email req"
    "pw_Hash (as_bcrypt a) (as_passwordHasher a) salt (rq_Password req) = Inr h"
  shows "fst (auth_Register a now salt uuid req s) = Inl DbError"
proof -
  let ?s2 = "snd (dao_ExistsBy udb now ''email'' (VStr (rq_Email req))
                (snd (dao_ExistsBy udb now ''username'' (VStr (rq_Username req)) s)))"
  have s2: "up ?s2" "uview ?s2 = uview s" by (simp_all add: db_laws assms(1))
  have "distinct (map u_Username (uview s))"
    using users.view_indexed [OF assms(1)] by (auto simp: indexed_def distinct_map inj_on_def)
  then have "u_Username u \<noteq> rq_Username req" if "u \<in> set (uview s)" "u_DeletedAt u = None" for u
    using that assms(2-4) unfolding distinct_map by (metis inj_onD)
  then have free: "\<not> list_ex (sees user_schema (CEq ''username'' (VStr (rq_Username req)))) (uview s)"
      "\<not> list_ex (sees user_schema (CEq ''email'' (VStr (rq_Email req)))) (uview s)"
    using assms(5) by (auto simp: list_ex_iff sees_def)
  have "clash user_schema (uview s) (new_user req h)" using assms(2, 4) by (force simp: clash_iff)
  then have "fst (dao_Create udb now (new_user req h) ?s2) = Inl DbError"
    using users.Create_err [OF s2(1), of "new_user req h" now] s2(2) by simp
  then show ?thesis using free assms(6) by (simp add: register_cases [OF assms(1)] and_then_Inl)
qed

text \<open>A change of password that went through.\<close>

lemma change_password_success:
  assumes "up s" "fst (user_ChangePassword (user_service_of a) now salt i req s) = Inr ()"
  obtains u h where "u \<in> set (uview s)" "u_ID u = i" "u_DeletedAt u = None"
    "bc_compare (as_bcrypt a) (u_Password u) (cp_OldPassword req)"
    "pw_Hash (as_bcrypt a) (as_passwordHasher a) salt (cp_NewPassword req) = Inr h"
    "uview (snd (user_ChangePassword (user_service_of a) now salt i req s)) =
       map (\<lambda>v. if u_ID v = i then u\<lparr>u_Password := h, u_UpdatedAt := now\<rparr> else v) (uview s)"
proof -
  let ?s1 = "snd (GetByID udb now i s)"
  note s1 = GetByID_frame [OF assms(1), of now i]
  obtain u h where u: "first_row user_schema (CEq ''id'' (VInt i)) (uview s) = Some u"
    "bc_compare (as_bcrypt a) (u_Password u) (cp_OldPassword req)"
    "pw_Hash (as_bcrypt a) (as_passwordHasher a) salt (cp_NewPassword req) = Inr h"
    and c: "user_ChangePassword (user_service_of a) now salt i req s = dao_Update udb now (u\<lparr>u_Password := h\<rparr>) ?s1"
    using assms(2) by (auto simp: user_ChangePassword_def user_service_of_def and_then_Inr s1 pw_Verify_def
        repo_UpdateUser_def split: option.splits if_splits sum.splits)
       (metis and_then_simps(3, 4) fst_conv sum.distinct(1) sum.exhaust)
  have row: "u \<in> set (uview s)" "u_ID u = i" "u_DeletedAt u = None"
    using users.row_by_id [OF assms(1)] u(1) by auto
  have "uview (snd (dao_Update udb now (u\<lparr>u_Password := h\<rparr>) ?s1)) =
       map (\<lambda>v. if u_ID v = i then u\<lparr>u_Password := h, u_UpdatedAt := now\<rparr> else v) (uview s)"
    using users.Update_success [OF s1(2), of u "u\<lparr>u_Password := h\<rparr>" now] assms(2) row s1(3) by (simp add: c)
  with that [OF row u(2, 3)] show ?thesis by (simp add: c)
qed

lemma account_row:
  "first_row user_schema (COr (CEq ''username'' (VStr x)) (CEq ''email'' (VStr x))) us = account_of x us"
  by (simp add: first_row_def account_of_def sees_def [abs_def])

lemma login_step:
  assumes "up s"
  shows "\<exists>s1. up s1 \<and> uview s1 = uview s \<and> tview s1 = tview s \<and> auth_Login a now uuid req s =
     (case account_of (lq_UsernameOrEmail req) (uview s) of
        None \<Rightarrow> (Inl ErrInvalidCredentials, s1)
      | Some u \<Rightarrow> if \<not> u_IsActive u then (Inl ErrUserInactive, s1)
                  else if \<not> bc_compare (as_bcrypt a) (u_Password u) (lq_Password req)
                  then (Inl ErrInvalidCredentials, s1) else generateAuthResponse a now uuid u s1)"
proof -
  let ?x = "lq_UsernameOrEmail req"
  let ?c = "COr (CEq ''username'' (VStr ?x)) (CEq ''email'' (VStr ?x))"
  let ?s1 = "snd (first_by udb now ?c s)"
  have s1: "up ?s1" "uview ?s1 = uview s" "tview ?s1 = tview s"
    "fst (first_by udb now ?c s) = Inr (account_of ?x (uview s))"
    by (simp_all add: db_laws assms account_row)
  show ?thesis
    by (intro exI [of _ ?s1])
      (simp add: auth_Login_def GetByUsernameOrEmail_def FindByUsernameOrEmail_def and_then_Inr s1 pw_Verify_def
        split: option.splits)
qed

lemma login_refines:
  assumes "up s"
  shows "\<exists>i. fst (auth_Login a now uuid req s) = map_sum id fst (login_spec a now uuid req (uview s) (tview s))
    \<and> tview (snd (auth_Login a now uuid req s)) = added now i (login_spec a now uuid req (uview s) (tview s)) (tview s)"
proof -
  obtain s1 where s1: "up s1" "uview s1 = uview s" "tview s1 = tview s" and l: "auth_Login a now uuid req s =
     (case account_of (lq_UsernameOrEmail req) (uview s) of
        None \<Rightarrow> (Inl ErrInvalidCredentials, s1)
      | Some u \<Rightarrow> if \<not> u_IsActive u then (Inl ErrUserInactive, s1)
                  else if \<not> bc_compare (as_bcrypt a) (u_Password u) (lq_Password req)
                  then (Inl ErrInvalidCredentials, s1) else generateAuthResponse a now uuid u s1)"
    using login_step [OF assms] by blast
  show ?thesis
  proof (cases "account_of (lq_UsernameOrEmail req) (uview s)")
    case None
    then show ?thesis using l s1 by (simp add: login_spec_def added_def)
  next
    case (Some u)
    then have "u \<in> set (uview s1)" using s1(2) by (auto simp: account_of_def find_Some_iff)
    from issue_refines [OF s1(1) this, of now uuid] show ?thesis
      using l Some s1 by (simp add: login_spec_def added_def)
  qed
qed

end

subsection \<open>A running example\<close>

definition demo_provider :: JWTProvider where
  "demo_provider = \<lparr>jw_secret = ''key'', jw_accessTokenDuration = 15 * minute,
     jw_refreshTokenDuration = 7 * day, jw_issuer = ''arcana''\<rparr>"

definition demo_auth :: "mem_db authService" where
  "demo_auth = \<lparr>as_userRepo = mem_users, as_refreshTokenRepo = mem_tokens, as_jwtProvider = demo_provider,
     as_passwordHasher = NewPasswordHasher, as_jwt = mem_jwt, as_bcrypt = mem_bcrypt\<rparr>"

definition demo_user :: User where
  "demo_user = zero_user\<lparr>u_ID := 1, u_Username := ''ann'', u_Email := ''ann@x.org'',
     u_Password := ''$secret'', u_Role := RoleUser, u_IsActive := True\<rparr>"

definition demo_tok :: "string \<Rightarrow> string" where
  "demo_tok uuid = (case GenerateRefreshToken mem_jwt demo_provider 0 uuid demo_user of Inr (t, _) \<Rightarrow> t | Inl _ \<Rightarrow> [])"

definition demo_access :: string where
  "demo_access = (case GenerateAccessToken mem_jwt demo_provider 0 demo_user of Inr t \<Rightarrow> t | Inl _ \<Rightarrow> [])"

definition demo_row :: "int \<Rightarrow> string \<Rightarrow> RefreshToken" where
  "demo_row i uuid = token_create 0 i (new_token demo_user (demo_tok uuid) (7 * day))"

definition demo_db :: mem_db where
  "demo_db = ([demo_user], [demo_row 1 ''1''])"

interpretation demo: auth_service demo_auth fst snd mem_db_up
proof (rule auth_service.intro)
  show "auth_db (as_userRepo demo_auth) fst (as_refreshTokenRepo demo_auth) snd mem_db_up"
    by (simp add: demo_auth_def mem_auth.auth_db_axioms)
  show "jwt_library (as_jwt demo_auth)" by (simp add: demo_auth_def mem_jwt.jwt_library_axioms)
  show "bcrypt_library (as_bcrypt demo_auth)" by (simp add: demo_auth_def mem_bcrypt.bcrypt_library_axioms)
qed

lemma demo_fields [simp]:
  "as_jwt demo_auth = mem_jwt" "as_jwtProvider demo_auth = demo_provider" "as_bcrypt demo_auth = mem_bcrypt"
  "jw_refreshTokenDuration demo_provider = 7 * day" "jw_accessTokenDuration demo_provider = 15 * minute"
  "u_ID demo_user = 1" "u_DeletedAt demo_user = None" "u_IsActive demo_user" "u_Username demo_user = ''ann''"
  "u_Password demo_user = ''$secret''" "u_Email demo_user = ''ann@x.org''" "u_Role demo_user = ''USER''"
  "rt_Token (demo_row i uuid) = demo_tok uuid" "rt_UserID (demo_row i uuid) = 1" "rt_ID (demo_row i uuid) = i"
  "rt_Revoked (demo_row i uuid) = False" "rt_DeletedAt (demo_row i uuid) = None"
  "rt_ExpiresAt (demo_row i uuid) = 7 * day"
  by (simp_all add: demo_auth_def demo_provider_def demo_user_def zero_user_def demo_row_def token_create_def
      new_token_def RoleUser_def)

lemma demo_db_up: "mem_db_up demo_db"
  by (simp add: demo_db_def mem_db_up_def indexed_def)

lemma demo_generated:
  "GenerateRefreshToken mem_jwt demo_provider 0 uuid demo_user = Inr (demo_tok uuid, 7 * day)"
  "GenerateAccessToken mem_jwt demo_provider 0 demo_user = Inr demo_access"
  using mem_jwt.sign_total(2) [of demo_provider 0 uuid demo_user] mem_jwt.sign_total(1) [of demo_provider 0 demo_user]
  by (auto simp: demo_tok_def demo_access_def)

lemma demo_valid: "t < 7 * day \<Longrightarrow>
  ValidateRefreshToken mem_jwt demo_provider t (demo_tok uuid) = Inr (refresh_claims demo_provider 0 uuid demo_user)"
  using mem_jwt.refresh_token_valid(1) [OF demo_generated(1), of t] by (simp add: NewNumericDate_def)

lemma demo_tok_inject: "demo_tok uuid = demo_tok uuid' \<longleftrightarrow> uuid = uuid'"
proof
  assume "demo_tok uuid = demo_tok uuid'"
  then have "refresh_claims demo_provider 0 uuid demo_user = refresh_claims demo_provider 0 uuid' demo_user"
    using demo_valid [of 0 uuid] demo_valid [of 0 uuid'] by simp
  then show "uuid = uuid'" by (simp add: refresh_claims_def)
qed simp

lemma length_enc_str [simp]: "length (enc_str s) = 2 * length s + 1"
  by (induction s) auto

lemma demo_tok_length: "length uuid \<le> 10 \<Longrightarrow> length (demo_tok uuid) \<le> 500"
  by (auto simp: demo_tok_def GenerateRefreshToken_def mem_jwt_def mem_sign_def registered_doc_def
      registered_fields_def refresh_claims_def omit_def nonempty_def date_doc_def demo_provider_def demo_user_def
      zero_user_def NewNumericDate_def itoa_def nat_digits.simps split: option.splits)

lemma demo_refresh:
  assumes "uuid \<noteq> ''1''" "length uuid \<le> 10"
  shows "fst (auth_RefreshToken demo_auth 0 uuid (demo_tok ''1'') demo_db) =
    Inr (auth_response demo_provider demo_access (demo_tok uuid) demo_user)"
  using demo.refresh_ok [of demo_db "demo_row 1 ''1''" 0 _ demo_user demo_access uuid "demo_tok uuid" "7 * day"]
    demo_valid [of 0 "''1''"] demo_generated assms demo_tok_length [OF assms(2)]
  by (simp add: demo_db_up demo_tok_inject) (simp add: demo_db_def demo_tok_inject)

lemma demo_service: "auth_service demo_auth fst snd mem_db_up"
  by (rule demo.auth_service_axioms)

subsection \<open>Properties\<close>

text \<open>
  C22. A refresh token works once. After \<^verbatim>\<open>RefreshToken\<close> has exchanged a token for new ones,
  that token is refused as invalid at every later time, whatever operations of the
  authentication and user services (registrations, logins, refreshes, logouts, profile changes,
  deletions, sweeps of expired tokens) happen in between.
\<close>

theorem refresh_token_single_use:
  assumes "auth_service a uview tview up" "up s" "fst (auth_RefreshToken a now uuid tok s) = Inr resp"
  shows "fst (auth_RefreshToken a later uuid' tok (run_ops a ops (snd (auth_RefreshToken a now uuid tok s)))) =
    Inl ErrInvalidToken"
  by (rule auth_service.spent_for_good [OF assms(1)
        auth_service.refresh_frame(1) [OF assms(1, 2)] auth_service.refresh_spends [OF assms]])

theorem refresh_token_single_use_witness:
  "fst (auth_RefreshToken demo_auth 0 ''2'' (demo_tok ''1'') demo_db) =
     Inr (auth_response demo_provider demo_access (demo_tok ''2'') demo_user)
   \<and> fst (auth_RefreshToken demo_auth 5 ''3'' (demo_tok ''1'')
       (run_ops demo_auth [(1, OpDeleteExpired), (2, OpLogin ''4'' \<lparr>lq_UsernameOrEmail = ''ann'', lq_Password = ''secret''\<rparr>)]
         (snd (auth_RefreshToken demo_auth 0 ''2'' (demo_tok ''1'') demo_db)))) = Inl ErrInvalidToken"
  using demo_refresh [of "''2''"] refresh_token_single_use [OF demo_service demo_db_up demo_refresh [of "''2''"]]
  by simp

text \<open>
  C23. Logging out is final. After \<^verbatim>\<open>LogoutAll\<close> of a user (or \<^verbatim>\<open>Logout\<close> of one token) every
  refresh token that was stored for the user is refused from then on, whatever happens in
  between.
\<close>

theorem logout_is_final:
  assumes "auth_service a uview tview up" "up s" "t \<in> set (tview s)"
  shows "fst (auth_RefreshToken a later uuid (rt_Token t)
             (run_ops a ops (snd (auth_LogoutAll a now (rt_UserID t) s)))) = Inl ErrInvalidToken
       \<and> fst (auth_RefreshToken a later uuid (rt_Token t)
             (run_ops a ops (snd (auth_Logout a now (rt_Token t) s)))) = Inl ErrInvalidToken"
proof -
  have "up (snd (auth_LogoutAll a now (rt_UserID t) s))" "up (snd (auth_Logout a now (rt_Token t) s))"
    using auth_service.apply_op_evolves [OF assms(1, 2), of now "OpLogoutAll (rt_UserID t)"]
      auth_service.apply_op_evolves [OF assms(1, 2), of now "OpLogout (rt_Token t)"] by auto
  then show ?thesis
    using auth_service.spent_for_good [OF assms(1)] auth_service.logout_spends [OF assms, of now] by blast
qed

theorem logout_is_final_witness:
  "fst (auth_RefreshToken demo_auth 2 ''2'' (demo_tok ''1'')
      (run_ops demo_auth [(1, OpList 1 10)] (snd (auth_LogoutAll demo_auth 0 1 demo_db)))) = Inl ErrInvalidToken"
proof -
  have "demo_row 1 ''1'' \<in> set (snd demo_db)" by (simp add: demo_db_def)
  from logout_is_final [OF demo_service demo_db_up this, of 2 "''2''" "[(1, OpList 1 10)]" 0] show ?thesis by simp
qed

text \<open>
  C24. \<^verbatim>\<open>Login\<close> refines its specification: it looks for the first account (by id) that is not
  deleted and whose user name or e-mail is the given text, refuses an unknown or inactive
  account and a password that does not verify against the stored hash, and otherwise answers with
  the tokens of that account and stores exactly one new refresh token for it, unless that token
  does not fit or is taken. A refused login changes no row, and no login changes an account.
\<close>

theorem login_refines_spec:
  assumes "auth_service a uview tview up" "up s"
  shows "\<exists>i. fst (auth_Login a now uuid req s) = map_sum id fst (login_spec a now uuid req (uview s) (tview s))
    \<and> tview (snd (auth_Login a now uuid req s)) = added now i (login_spec a now uuid req (uview s) (tview s)) (tview s)
    \<and> uview (snd (auth_Login a now uuid req s)) = uview s"
  using auth_service.login_refines [OF assms] auth_service.login_frame(2) [OF assms] by blast

lemma demo_account: "account_of ''ann'' (fst demo_db) = Some demo_user"
  by (simp add: account_of_def demo_db_def)

theorem login_refines_spec_witness:
  "fst (auth_Login demo_auth 0 ''2'' \<lparr>lq_UsernameOrEmail = ''ann'', lq_Password = ''secret''\<rparr> demo_db) =
     Inr (auth_response demo_provider demo_access (demo_tok ''2'') demo_user)
   \<and> fst (auth_Login demo_auth 0 ''2'' \<lparr>lq_UsernameOrEmail = ''ann'', lq_Password = ''guess''\<rparr> demo_db) =
     Inl ErrInvalidCredentials"
proof -
  have "login_spec demo_auth 0 ''2'' \<lparr>lq_UsernameOrEmail = ''ann'', lq_Password = ''secret''\<rparr> (fst demo_db) (snd demo_db) =
      Inr (auth_response demo_provider demo_access (demo_tok ''2'') demo_user, new_token demo_user (demo_tok ''2'') (7 * day))"
    using demo_tok_length [of "''2''"]
    by (simp add: login_spec_def demo_account issue_spec_def demo_generated mem_bcrypt_def)
       (simp add: demo_db_def demo_tok_inject)
  moreover have "login_spec demo_auth 0 ''2'' \<lparr>lq_UsernameOrEmail = ''ann'', lq_Password = ''guess''\<rparr> (fst demo_db) (snd demo_db) =
      Inl ErrInvalidCredentials"
    by (simp add: login_spec_def demo_account mem_bcrypt_def)
  ultimately show ?thesis
    using login_refines_spec [OF demo_service demo_db_up, of 0 "''2''" "\<lparr>lq_UsernameOrEmail = ''ann'', lq_Password = ''secret''\<rparr>"]
      login_refines_spec [OF demo_service demo_db_up, of 0 "''2''" "\<lparr>lq_UsernameOrEmail = ''ann'', lq_Password = ''guess''\<rparr>"]
    by auto
qed


definition demo_register :: RegisterRequest where
  "demo_register = \<lparr>rq_Username = ''bob'', rq_Email = ''bob@x.org'', rq_Password = ''hunter22'', rq_FirstName = [], rq_LastName = []\<rparr>"

lemma length_enc_fields_refresh:
  "length (rc_ID c) \<le> 10 \<Longrightarrow> rc_Issuer c = ''arcana'' \<Longrightarrow> length (rc_Subject c) \<le> 20 \<Longrightarrow>
   rc_ExpiresAt c = Some (7 * day) \<Longrightarrow> rc_IssuedAt c = Some 0 \<Longrightarrow> length (enc_fields (registered_fields c)) \<le> 300"
  by (auto simp: registered_fields_def omit_def nonempty_def date_doc_def itoa_def nat_digits.simps)

lemma demo_new_token:
  assumes "length (u_Username u) \<le> 20" "length uuid \<le> 10"
  shows "\<exists>tok. GenerateRefreshToken mem_jwt demo_provider 0 uuid u = Inr (tok, 7 * day) \<and> length tok \<le> 500
    \<and> ValidateRefreshToken mem_jwt demo_provider 0 tok = Inr (refresh_claims demo_provider 0 uuid u)"
proof -
  obtain tok where t: "GenerateRefreshToken mem_jwt demo_provider 0 uuid u = Inr (tok, 7 * day)"
    using mem_jwt.sign_total(2) [of demo_provider 0 uuid u] by auto
  have "length (enc_fields (registered_fields (refresh_claims demo_provider 0 uuid u))) \<le> 300"
    using assms by (intro length_enc_fields_refresh) (auto simp: refresh_claims_def demo_provider_def NewNumericDate_def)
  then have "length tok \<le> 500" using t
    by (auto simp: GenerateRefreshToken_def mem_jwt_def mem_sign_def registered_doc_def demo_provider_def split: option.splits if_splits)
  then show ?thesis using t mem_jwt.refresh_token_valid(1) [OF t, of 0] by (auto simp: NewNumericDate_def)
qed

text \<open>Registering in a database whose tokens belong to others.\<close>

lemma demo_register_ok:
  assumes "mem_db_up s" "\<And>u. u \<in> set (fst s) \<Longrightarrow> u_Username u \<noteq> rq_Username req \<and> u_Email u \<noteq> rq_Email req"
    "snd s = []" "user_fits (new_user req (CHR ''$'' # rq_Password req))" "length (rq_Username req) \<le> 20"
    "length (rq_Password req) \<le> 72"
  shows "\<exists>resp. fst (auth_Register demo_auth 0 0 ''9'' req s) = Inr resp"
proof -
  have h: "pw_Hash (as_bcrypt demo_auth) (as_passwordHasher demo_auth) 0 (rq_Password req) = Inr (CHR ''$'' # rq_Password req)"
    using assms(6) by (simp add: pw_Hash_def mem_bcrypt_def)
  obtain tok where t: "GenerateRefreshToken mem_jwt demo_provider 0 ''9'' (new_user req (CHR ''$'' # rq_Password req)) = Inr (tok, 7 * day)"
    "length tok \<le> 500"
    using demo_new_token [of "new_user req (CHR ''$'' # rq_Password req)" "''9''"] assms(5)
    by (auto simp: new_user_def)
  have t': "GenerateRefreshToken (as_jwt demo_auth) (as_jwtProvider demo_auth) 0 ''9''
      (user_create 0 i (new_user req (CHR ''$'' # rq_Password req))) = Inr (tok, 7 * day)" for i
    using t(1) by (simp add: GenerateRefreshToken_def refresh_claims_def user_create_def)
  show ?thesis using demo.register_ok [OF assms(1) assms(2) h assms(4) t' t(2)] assms(3) by simp
qed


text \<open>
  A user name can shadow an e-mail address. Nothing keeps a user name from being the address
  of someone else, and \<^verbatim>\<open>Register\<close> compares user names with user names and addresses with
  addresses only. Once an active account has the address as its user name, whoever registers
  that address later cannot log in with it: \<^verbatim>\<open>Login\<close> finds the other account and refuses the
  password.
\<close>

theorem username_shadows_email:
  assumes "auth_service a uview tview up" "up s"
    "m \<in> set (uview s)" "u_DeletedAt m = None" "u_IsActive m" "u_Username m = rq_Email req"
    "\<not> bc_compare (as_bcrypt a) (u_Password m) (rq_Password req)"
    "fst (auth_Register a now salt uuid req s) = Inr resp"
  shows "fst (auth_Login a later uuid' \<lparr>lq_UsernameOrEmail = rq_Email req, lq_Password = rq_Password req\<rparr>
             (snd (auth_Register a now salt uuid req s))) = Inl ErrInvalidCredentials"
proof -
  let ?s1 = "snd (auth_Register a now salt uuid req s)"
  let ?login = "\<lparr>lq_UsernameOrEmail = rq_Email req, lq_Password = rq_Password req\<rparr>"
  obtain h i where v: "uview ?s1 = uview s @ [user_create now i (new_user req h)]"
    and free: "\<And>u. u \<in> set (uview s) \<Longrightarrow> u_DeletedAt u = None \<Longrightarrow> u_Username u \<noteq> rq_Username req \<and> u_Email u \<noteq> rq_Email req"
    using auth_service.register_success [OF assms(1, 2, 8)] by blast
  have up1: "up ?s1" by (rule auth_service.register_frame(1) [OF assms(1, 2)])
  have "distinct (map u_Username (uview s))"
    using sql_table.view_indexed [OF auth_db.axioms(1) [OF auth_service.axioms(1) [OF assms(1)]] assms(2)]
    by (auto simp: indexed_def distinct_map inj_on_def)
  then have "List.find (\<lambda>u. u_DeletedAt u = None \<and> (u_Username u = rq_Email req \<or> u_Email u = rq_Email req)) (uview s) = Some m"
    using assms(3, 4, 6) free by (intro find_unique [where f = u_Username]) auto
  then have "account_of (rq_Email req) (uview ?s1) = Some m" by (simp add: account_of_def v find_append)
  then have "login_spec a later uuid' ?login (uview ?s1) (tview ?s1) = Inl ErrInvalidCredentials"
    using assms(5, 7) by (simp add: login_spec_def)
  then show ?thesis using auth_service.login_refines [OF assms(1) up1, of later uuid' ?login] by auto
qed

definition demo_shadow :: User where
  "demo_shadow = demo_user\<lparr>u_Username := ''bob@x.org''\<rparr>"

theorem username_shadows_email_witness:
  "\<exists>resp. fst (auth_Register demo_auth 0 0 ''9'' demo_register ([demo_shadow], [])) = Inr resp
   \<and> fst (auth_Login demo_auth 1 ''2'' \<lparr>lq_UsernameOrEmail = ''bob@x.org'', lq_Password = ''hunter22''\<rparr>
        (snd (auth_Register demo_auth 0 0 ''9'' demo_register ([demo_shadow], [])))) = Inl ErrInvalidCredentials"
proof -
  have up: "mem_db_up ([demo_shadow], [])" by (simp add: mem_db_up_def indexed_def demo_shadow_def)
  obtain resp where r: "fst (auth_Register demo_auth 0 0 ''9'' demo_register ([demo_shadow], [])) = Inr resp"
    using demo_register_ok [OF up, of demo_register]
    by (auto simp: demo_register_def demo_shadow_def demo_user_def user_fits_def new_user_def zero_user_def RoleUser_def)
  from username_shadows_email [OF demo_service up _ _ _ _ _ r, of demo_shadow 1 "''2''"] r show ?thesis
    by (simp add: demo_register_def demo_shadow_def mem_bcrypt_def)
qed

text \<open>
  A deleted account blocks its user name. \<^verbatim>\<open>Delete\<close> is a soft delete, which the existence
  checks of \<^verbatim>\<open>Register\<close> do not see but the unique index does: registering the name of a deleted
  account fails with the raw error of the database, not with \<^verbatim>\<open>ErrUserAlreadyExists\<close>.
\<close>

theorem deleted_account_blocks_name:
  assumes "auth_service a uview tview up" "up s"
    "d \<in> set (uview s)" "u_DeletedAt d \<noteq> None" "u_Username d = rq_Username req"
    "\<forall>u \<in> set (uview s). u_DeletedAt u = None \<longrightarrow> u_Email u \<noteq> rq_Email req"
    "length (rq_Password req) \<le> 72" "ph_cost (as_passwordHasher a) = DefaultCost"
  shows "fst (auth_Register a now salt uuid req s) = Inl DbError"
proof -
  have "\<exists>h. pw_Hash (as_bcrypt a) (as_passwordHasher a) salt (rq_Password req) = Inr h"
    using bcrypt_library.generate_ok [OF auth_service.axioms(3) [OF assms(1)] assms(7), of 12 salt] assms(8)
    by (auto simp: pw_Hash_def DefaultCost_def)
  then obtain h where "pw_Hash (as_bcrypt a) (as_passwordHasher a) salt (rq_Password req) = Inr h" by blast
  then show ?thesis using auth_service.register_deleted_name [OF assms(1-5)] assms(6) by blast
qed

theorem deleted_account_blocks_name_witness:
  "fst (auth_Register demo_auth 0 0 ''9'' (demo_register\<lparr>rq_Username := ''ann''\<rparr>)
      ([demo_user\<lparr>u_DeletedAt := Some 0\<rparr>], [])) = Inl DbError"
proof -
  have "mem_db_up ([demo_user\<lparr>u_DeletedAt := Some 0\<rparr>], [])" by (simp add: mem_db_up_def indexed_def)
  from deleted_account_blocks_name [OF demo_service this, of "demo_user\<lparr>u_DeletedAt := Some 0\<rparr>"
      "demo_register\<lparr>rq_Username := ''ann''\<rparr>" 0 0 "''9''"]
  show ?thesis by (simp add: demo_register_def demo_auth_def NewPasswordHasher_def)
qed

text \<open>
  Two simultaneous refreshes are both served. \<^verbatim>\<open>RefreshToken\<close> looks the token up and revokes
  it with separate statements: when two clients that present one valid token both pass the
  check before either revokes it, both get new tokens, so one stolen copy used at the same moment
  as the original yields two sessions.
\<close>

theorem concurrent_refresh_races:
  assumes "auth_service a uview tview up" "up s"
    "t \<in> set (tview s)" "\<not> rt_Revoked t" "rt_DeletedAt t = None" "now \<le> rt_ExpiresAt t"
    "ValidateRefreshToken (as_jwt a) (as_jwtProvider a) now (rt_Token t) = Inr c"
    "u \<in> set (uview s)" "u_DeletedAt u = None" "u_IsActive u" "u_ID u = rt_UserID t"
    "GenerateAccessToken (as_jwt a) (as_jwtProvider a) now u = Inr access"
    "GenerateRefreshToken (as_jwt a) (as_jwtProvider a) now uuid1 u = Inr (tok1, e)"
    "GenerateRefreshToken (as_jwt a) (as_jwtProvider a) now uuid2 u = Inr (tok2, e)"
    "length tok1 \<le> 500" "length tok2 \<le> 500" "tok1 \<noteq> tok2"
    "tok1 \<notin> rt_Token ` set (tview s)" "tok2 \<notin> rt_Token ` set (tview s)"
    "s1 = snd (refresh_check a now (rt_Token t) s)" "s2 = snd (refresh_check a now (rt_Token t) s1)"
  shows "\<exists>rt1 rt2. fst (refresh_check a now (rt_Token t) s) = Inr rt1 \<and> fst (refresh_check a now (rt_Token t) s1) = Inr rt2
    \<and> fst (refresh_rotate a now uuid1 (rt_Token t) rt1 s2) = Inr (auth_response (as_jwtProvider a) access tok1 u)
    \<and> fst (refresh_rotate a now uuid2 (rt_Token t) rt2 (snd (refresh_rotate a now uuid1 (rt_Token t) rt1 s2)))
      = Inr (auth_response (as_jwtProvider a) access tok2 u)"
  by (rule auth_service.refresh_race [OF assms])

theorem concurrent_refresh_races_witness:
  "\<exists>rt1 rt2 s1 s2. refresh_check demo_auth 0 (demo_tok ''1'') demo_db = (Inr rt1, s1)
    \<and> refresh_check demo_auth 0 (demo_tok ''1'') s1 = (Inr rt2, s2)
    \<and> fst (refresh_rotate demo_auth 0 ''2'' (demo_tok ''1'') rt1 s2) = Inr (auth_response demo_provider demo_access (demo_tok ''2'') demo_user)
    \<and> fst (refresh_rotate demo_auth 0 ''3'' (demo_tok ''1'') rt2 (snd (refresh_rotate demo_auth 0 ''2'' (demo_tok ''1'') rt1 s2)))
      = Inr (auth_response demo_provider demo_access (demo_tok ''3'') demo_user)"
proof -
  have m: "demo_row 1 ''1'' \<in> set (snd demo_db)" "demo_user \<in> set (fst demo_db)"
    "demo_tok ''2'' \<notin> rt_Token ` set (snd demo_db)" "demo_tok ''3'' \<notin> rt_Token ` set (snd demo_db)"
    by (auto simp: demo_db_def demo_tok_inject)
  from concurrent_refresh_races [OF demo_service demo_db_up m(1), of 0 "refresh_claims demo_provider 0 ''1'' demo_user"
      demo_user demo_access "''2''" "demo_tok ''2''" "7 * day" "''3''" "demo_tok ''3''"]
  have "\<exists>rt1 rt2. fst (refresh_check demo_auth 0 (demo_tok ''1'') demo_db) = Inr rt1
    \<and> fst (refresh_check demo_auth 0 (demo_tok ''1'') (snd (refresh_check demo_auth 0 (demo_tok ''1'') demo_db))) = Inr rt2
    \<and> fst (refresh_rotate demo_auth 0 ''2'' (demo_tok ''1'') rt1 (snd (refresh_check demo_auth 0 (demo_tok ''1'')
        (snd (refresh_check demo_auth 0 (demo_tok ''1'') demo_db))))) = Inr (auth_response demo_provider demo_access (demo_tok ''2'') demo_user)
    \<and> fst (refresh_rotate demo_auth 0 ''3'' (demo_tok ''1'') rt2 (snd (refresh_rotate demo_auth 0 ''2'' (demo_tok ''1'') rt1
        (snd (refresh_check demo_auth 0 (demo_tok ''1'') (snd (refresh_check demo_auth 0 (demo_tok ''1'') demo_db)))))))
      = Inr (auth_response demo_provider demo_access (demo_tok ''3'') demo_user)"
    using m demo_valid [of 0 "''1''"] demo_generated demo_tok_length [of "''2''"] demo_tok_length [of "''3''"]
    by (simp add: demo_tok_inject)
  then show ?thesis by (metis prod.collapse)
qed

text \<open>
  A change of password leaves the sessions alone: after a successful \<^verbatim>\<open>ChangePassword\<close> a
  refresh token issued before still buys new tokens, so whoever stole it stays logged in.
\<close>

theorem password_change_keeps_sessions:
  assumes "auth_service a uview tview up" "up s"
    "fst (user_ChangePassword (user_service_of a) now salt i req s) = Inr ()"
    "t \<in> set (tview s)" "\<not> rt_Revoked t" "rt_DeletedAt t = None" "later \<le> rt_ExpiresAt t" "rt_UserID t = i"
    "ValidateRefreshToken (as_jwt a) (as_jwtProvider a) later (rt_Token t) = Inr c"
    "\<forall>u \<in> set (uview s). u_ID u = i \<longrightarrow> u_IsActive u \<and>
       (\<forall>tok e. GenerateRefreshToken (as_jwt a) (as_jwtProvider a) later uuid u = Inr (tok, e) \<longrightarrow>
          length tok \<le> 500 \<and> tok \<notin> rt_Token ` set (tview s))"
  shows "\<exists>resp. fst (auth_RefreshToken a later uuid (rt_Token t)
      (snd (user_ChangePassword (user_service_of a) now salt i req s))) = Inr resp"
proof -
  let ?s1 = "snd (user_ChangePassword (user_service_of a) now salt i req s)"
  obtain u h where u: "u \<in> set (uview s)" "u_ID u = i" "u_DeletedAt u = None"
    and v: "uview ?s1 = map (\<lambda>v. if u_ID v = i then u\<lparr>u_Password := h, u_UpdatedAt := now\<rparr> else v) (uview s)"
    by (rule auth_service.change_password_success [OF assms(1-3)])
  let ?u = "u\<lparr>u_Password := h, u_UpdatedAt := now\<rparr>"
  have s1: "up ?s1" "tview ?s1 = tview s"
    using auth_service.quiet_user_ops(2) [OF assms(1), of now salt i req] assms(2) by (simp_all add: quiet_def)
  have u1: "?u \<in> set (uview ?s1)" unfolding v using u(1, 2) by (auto simp: image_iff intro!: bexI [of _ u])
  obtain access where ga: "GenerateAccessToken (as_jwt a) (as_jwtProvider a) later ?u = Inr access"
    using jwt_library.sign_total(1) [OF auth_service.axioms(2) [OF assms(1)]] by blast
  obtain tok e where g: "GenerateRefreshToken (as_jwt a) (as_jwtProvider a) later uuid u = Inr (tok, e)"
    using jwt_library.sign_total(2) [OF auth_service.axioms(2) [OF assms(1)]] by blast
  then have g': "GenerateRefreshToken (as_jwt a) (as_jwtProvider a) later uuid ?u = Inr (tok, e)"
    by (simp add: GenerateRefreshToken_def refresh_claims_def)
  have "u_IsActive u" "length tok \<le> 500" "tok \<notin> rt_Token ` set (tview s)" using assms(10) u(1, 2) g by auto
  then show ?thesis
    using auth_service.refresh_ok [OF assms(1) s1(1) _ assms(5-7, 9) u1 _ _ _ ga g'] assms(4, 8) u(2, 3) s1(2) by auto
qed

lemma demo_change:
  "fst (user_ChangePassword (user_service_of demo_auth) 0 0 1 \<lparr>cp_OldPassword = ''secret'', cp_NewPassword = ''better''\<rparr> demo_db) = Inr ()"
  by (simp add: user_ChangePassword_def user_service_of_def GetByID_def dao_FindByID_def first_by_def demo_auth_def
      mem_users_def mem_table_def demo_db_def sees_def and_then_def pw_Verify_def mem_bcrypt_def pw_Hash_def pure_def
      repo_UpdateUser_def dao_Update_def exec_def clash_def others_def user_fits_def demo_user_def zero_user_def RoleUser_def)

theorem password_change_keeps_sessions_witness:
  "fst (user_ChangePassword (user_service_of demo_auth) 0 0 1 \<lparr>cp_OldPassword = ''secret'', cp_NewPassword = ''better''\<rparr> demo_db) = Inr ()
   \<and> (\<exists>resp. fst (auth_RefreshToken demo_auth 0 ''2'' (demo_tok ''1'')
      (snd (user_ChangePassword (user_service_of demo_auth) 0 0 1 \<lparr>cp_OldPassword = ''secret'', cp_NewPassword = ''better''\<rparr> demo_db))) = Inr resp)"
proof -
  have m: "demo_row 1 ''1'' \<in> set (snd demo_db)" by (simp add: demo_db_def)
  have u: "\<forall>u \<in> set (fst demo_db). u_ID u = 1 \<longrightarrow> u_IsActive u \<and>
       (\<forall>tok e. GenerateRefreshToken (as_jwt demo_auth) (as_jwtProvider demo_auth) 0 ''2'' u = Inr (tok, e) \<longrightarrow>
          length tok \<le> 500 \<and> tok \<notin> rt_Token ` set (snd demo_db))"
    using demo_tok_length [of "''2''"] by (simp add: demo_db_def demo_generated demo_tok_inject)
  from password_change_keeps_sessions [OF demo_service demo_db_up demo_change m _ _ _ _ _ u] demo_change demo_valid [of 0 "''1''"]
  show ?thesis by simp
qed

text \<open>
  Issued tokens work. The refresh token of a successful \<^verbatim>\<open>Login\<close> is accepted at any time up to
  (the whole second of) its expiry, and buys new tokens for the same account, as long as the
  new refresh token fits its column and is not taken.
\<close>

theorem issued_token_refreshes:
  assumes "auth_service a uview tview up" "up s" "fst (auth_Login a now uuid req s) = Inr resp"
    "account_of (lq_UsernameOrEmail req) (uview s) = Some u"
    "later < NewNumericDate (now + jw_refreshTokenDuration (as_jwtProvider a))"
    "GenerateAccessToken (as_jwt a) (as_jwtProvider a) later u = Inr access"
    "GenerateRefreshToken (as_jwt a) (as_jwtProvider a) later uuid' u = Inr (tok, e)"
    "length tok \<le> 500" "tok \<notin> rt_Token ` set (tview (snd (auth_Login a now uuid req s)))"
  shows "fst (auth_RefreshToken a later uuid' (ar_RefreshToken resp) (snd (auth_Login a now uuid req s))) =
    Inr (auth_response (as_jwtProvider a) access tok u)"
proof -
  let ?s1 = "snd (auth_Login a now uuid req s)" and ?p = "as_jwtProvider a"
  note jl = auth_service.axioms(2) [OF assms(1)]
  obtain i where l: "Inr resp = map_sum id fst (login_spec a now uuid req (uview s) (tview s))"
    "tview ?s1 = added now i (login_spec a now uuid req (uview s) (tview s)) (tview s)"
    using auth_service.login_refines [OF assms(1, 2), of now uuid req] assms(3) by metis
  have act: "u_IsActive u" and iss: "login_spec a now uuid req (uview s) (tview s) = issue_spec a now uuid u (tview s)"
    using l(1) assms(4) by (auto simp: login_spec_def split: if_splits)
  obtain tok0 e0 where g0: "GenerateRefreshToken (as_jwt a) ?p now uuid u = Inr (tok0, e0)"
    "e0 = now + jw_refreshTokenDuration ?p" using jwt_library.sign_total(2) [OF jl] by blast
  have resp: "ar_RefreshToken resp = tok0" and new: "tview ?s1 = tview s @ [token_create now i (new_token u tok0 e0)]"
    using l iss g0(1) by (auto simp: issue_spec_def added_def auth_response_def split: sum.splits if_splits)
  let ?t = "token_create now i (new_token u tok0 e0)"
  have t: "rt_Token ?t = tok0" "\<not> rt_Revoked ?t" "rt_DeletedAt ?t = None" "rt_ExpiresAt ?t = e0" "rt_UserID ?t = u_ID u"
    by (simp_all add: token_create_def new_token_def)
  have u: "u \<in> set (uview s)" "u_DeletedAt u = None" using assms(4) by (auto simp: account_of_def find_Some_iff)
  have "NewNumericDate (now + jw_refreshTokenDuration ?p) \<le> now + jw_refreshTokenDuration ?p"
    unfolding NewNumericDate_def by (simp add: minus_mod_eq_div_mult [symmetric])
  then have ex: "later \<le> rt_ExpiresAt ?t" using assms(5) g0(2) t(4) by linarith
  have v: "ValidateRefreshToken (as_jwt a) ?p later (rt_Token ?t) = Inr (refresh_claims ?p now uuid u)"
    using jwt_library.refresh_token_valid(1) [OF jl g0(1), of later] assms(5) t(1) by simp
  have m: "?t \<in> set (tview ?s1)" "u \<in> set (uview ?s1)"
    using new u(1) auth_service.login_frame(2) [OF assms(1, 2)] by auto
  show ?thesis
    using auth_service.refresh_ok [OF assms(1) auth_service.login_frame(1) [OF assms(1, 2)] m(1) t(2, 3) ex v m(2) u(2) act
        t(5) [symmetric] assms(6-9)] resp t(1) by simp
qed

theorem issued_token_refreshes_witness:
  "\<exists>resp s1. auth_Login demo_auth 0 ''2'' \<lparr>lq_UsernameOrEmail = ''ann'', lq_Password = ''secret''\<rparr> demo_db = (Inr resp, s1)
    \<and> fst (auth_RefreshToken demo_auth 0 ''3'' (ar_RefreshToken resp) s1) =
        Inr (auth_response demo_provider demo_access (demo_tok ''3'') demo_user)"
proof -
  let ?req = "\<lparr>lq_UsernameOrEmail = ''ann'', lq_Password = ''secret''\<rparr>"
  have spec: "login_spec demo_auth 0 ''2'' ?req (fst demo_db) (snd demo_db) =
      Inr (auth_response demo_provider demo_access (demo_tok ''2'') demo_user, new_token demo_user (demo_tok ''2'') (7 * day))"
    using demo_tok_length [of "''2''"]
    by (simp add: login_spec_def demo_account issue_spec_def demo_generated mem_bcrypt_def)
       (simp add: demo_db_def demo_tok_inject)
  obtain i where l: "fst (auth_Login demo_auth 0 ''2'' ?req demo_db) = Inr (auth_response demo_provider demo_access (demo_tok ''2'') demo_user)"
    "snd (snd (auth_Login demo_auth 0 ''2'' ?req demo_db)) = snd demo_db @ [token_create 0 i (new_token demo_user (demo_tok ''2'') (7 * day))]"
    using demo.login_refines [OF demo_db_up, of 0 "''2''" ?req] by (auto simp: spec added_def)
  have "fst (auth_RefreshToken demo_auth 0 ''3'' (ar_RefreshToken (auth_response demo_provider demo_access (demo_tok ''2'') demo_user))
      (snd (auth_Login demo_auth 0 ''2'' ?req demo_db))) = Inr (auth_response demo_provider demo_access (demo_tok ''3'') demo_user)"
    using issued_token_refreshes [OF demo_service demo_db_up l(1), of demo_user 0 demo_access "''3''" "demo_tok ''3''" "7 * day"]
      demo_tok_length [of "''3''"] l(2)
    by (simp add: demo_account demo_generated NewNumericDate_def)
       (simp add: demo_db_def demo_tok_inject token_create_def new_token_def)
  with l(1) show ?thesis by (metis prod.collapse)
qed

end
