(* ===== verification/Http_Middleware.thy ===== *)
theory Http_Middleware
  imports Security
begin

text \<open>
  The HTTP layer below the controllers: the response envelope of \<^verbatim>\<open>internal/dto/response/api.go\<close>, the
  security service of \<^verbatim>\<open>internal/security/security_service.go\<close> and the middleware of
  \<^verbatim>\<open>internal/middleware\<close>.

  A gin context is a record: the request, the keys handlers pass on to each other, and what was
  written so far. A handler takes the context and the state of the application to both
  afterwards; a handler that panics says so, with what it left behind. A middleware takes the
  rest of its chain, which \<^verbatim>\<open>c.Next()\<close> runs, as an argument: each one here either runs it or
  aborts. Log entries are not part of the model.
\<close>

subsection \<open>Contexts and responses\<close>

datatype ctx_val = CtxUser User | CtxClaims UserClaims | CtxStr string

record 'd ApiResponse =
  api_Success :: bool
  api_Message :: string
  api_Data :: "'d option"
  api_Errors :: "string option"
  api_Timestamp :: time

record 'd Context =
  gc_Method :: string
  gc_ReqHeader :: "string \<Rightarrow> string"
  gc_Param :: "string \<Rightarrow> string"
  gc_Query :: "string \<Rightarrow> string option"
  gc_Keys :: "string \<rightharpoonup> ctx_val"
  gc_Header :: "string \<rightharpoonup> string"
  gc_Status :: int
  gc_Bodies :: "'d ApiResponse list"
  gc_Aborted :: bool

datatype 'a outcome = Done 'a | Panicked 'a

type_synonym ('d, 's) handler = "'d Context \<Rightarrow> 's \<Rightarrow> ('d Context \<times> 's) outcome"

definition NewSuccess :: "time \<Rightarrow> 'd option \<Rightarrow> string \<Rightarrow> 'd ApiResponse" where
  "NewSuccess now data message =
     \<lparr>api_Success = True, api_Message = message, api_Data = data, api_Errors = None, api_Timestamp = now\<rparr>"

definition NewSuccessWithData :: "time \<Rightarrow> 'd \<Rightarrow> 'd ApiResponse" where
  "NewSuccessWithData now data =
     \<lparr>api_Success = True, api_Message = [], api_Data = Some data, api_Errors = None, api_Timestamp = now\<rparr>"

definition NewError :: "time \<Rightarrow> string \<Rightarrow> 'd ApiResponse" where
  "NewError now message =
     \<lparr>api_Success = False, api_Message = message, api_Data = None, api_Errors = None, api_Timestamp = now\<rparr>"

definition NewErrorWithDetails :: "time \<Rightarrow> string \<Rightarrow> string \<Rightarrow> 'd ApiResponse" where
  "NewErrorWithDetails now message errors =
     \<lparr>api_Success = False, api_Message = message, api_Data = None, api_Errors = Some errors, api_Timestamp = now\<rparr>"

text \<open>\<^verbatim>\<open>c.JSON\<close>: the status of the first body stands.\<close>

definition send_JSON :: "int \<Rightarrow> 'd ApiResponse \<Rightarrow> 'd Context \<Rightarrow> 'd Context" where
  "send_JSON st body c =
     c\<lparr>gc_Status := (if gc_Bodies c = [] then st else gc_Status c), gc_Bodies := gc_Bodies c @ [body]\<rparr>"

definition Abort :: "'d Context \<Rightarrow> 'd Context" where
  "Abort c = c\<lparr>gc_Aborted := True\<rparr>"

definition refuse :: "time \<Rightarrow> int \<Rightarrow> string \<Rightarrow> 'd Context \<Rightarrow> 'd Context" where
  "refuse now st message c = Abort (send_JSON st (NewError now message) c)"

subsection \<open>Security service\<close>

definition ContextKeyUser :: string where "ContextKeyUser = ''current_user''"
definition ContextKeyClaims :: string where "ContextKeyClaims = ''current_claims''"

definition GetCurrentUser :: "'d Context \<Rightarrow> User option" where
  "GetCurrentUser c = (case gc_Keys c ContextKeyUser of Some (CtxUser u) \<Rightarrow> Some u | _ \<Rightarrow> None)"

definition GetCurrentClaims :: "'d Context \<Rightarrow> UserClaims option" where
  "GetCurrentClaims c = (case gc_Keys c ContextKeyClaims of Some (CtxClaims cl) \<Rightarrow> Some cl | _ \<Rightarrow> None)"

definition GetCurrentUserID :: "'d Context \<Rightarrow> int" where
  "GetCurrentUserID c = (case GetCurrentClaims c of Some cl \<Rightarrow> uc_UserID cl | None \<Rightarrow> 0)"

definition SetCurrentUser :: "User \<Rightarrow> 'd Context \<Rightarrow> 'd Context" where
  "SetCurrentUser u c = c\<lparr>gc_Keys := (gc_Keys c)(ContextKeyUser \<mapsto> CtxUser u)\<rparr>"

definition SetCurrentClaims :: "UserClaims \<Rightarrow> 'd Context \<Rightarrow> 'd Context" where
  "SetCurrentClaims cl c = c\<lparr>gc_Keys := (gc_Keys c)(ContextKeyClaims \<mapsto> CtxClaims cl)\<rparr>"

definition IsAuthenticated :: "'d Context \<Rightarrow> bool" where
  "IsAuthenticated c \<longleftrightarrow> GetCurrentClaims c \<noteq> None"

definition HasRole :: "UserRole \<Rightarrow> 'd Context \<Rightarrow> bool" where
  "HasRole role c = (case GetCurrentClaims c of None \<Rightarrow> False | Some cl \<Rightarrow> uc_Role cl = role)"

definition IsAdmin :: "'d Context \<Rightarrow> bool" where
  "IsAdmin c = HasRole RoleAdmin c"

lemma claims_set [simp]: "GetCurrentClaims (SetCurrentClaims cl c) = Some cl"
  by (simp add: GetCurrentClaims_def SetCurrentClaims_def)

subsection \<open>Authentication\<close>

definition bearer :: "string \<Rightarrow> string option" where
  "bearer authHeader =
     (case split_two authHeader of
        [scheme, tok] \<Rightarrow> if map to_lower scheme = ''bearer'' then Some tok else None
      | _ \<Rightarrow> None)"

definition Authenticate :: "jwt_lib \<Rightarrow> JWTProvider \<Rightarrow> time \<Rightarrow> ('d, 's) handler \<Rightarrow> ('d, 's) handler" where
  "Authenticate jl p now next c s =
     (let authHeader = gc_ReqHeader c ''Authorization''
      in if authHeader = [] then Done (refuse now 401 ''authorization header required'' c, s)
         else case bearer authHeader of
                None \<Rightarrow> Done (refuse now 401 ''invalid authorization header format'' c, s)
              | Some tok \<Rightarrow> (case ValidateAccessToken jl p now tok of
                    Inl TokErrExpired \<Rightarrow> Done (refuse now 401 ''token has expired'' c, s)
                  | Inl TokErrInvalid \<Rightarrow> Done (refuse now 401 ''invalid token'' c, s)
                  | Inr claims \<Rightarrow> next (SetCurrentClaims claims c) s))"

definition OptionalAuth :: "jwt_lib \<Rightarrow> JWTProvider \<Rightarrow> time \<Rightarrow> ('d, 's) handler \<Rightarrow> ('d, 's) handler" where
  "OptionalAuth jl p now next c s =
     (let authHeader = gc_ReqHeader c ''Authorization''
      in if authHeader = [] then next c s
         else case bearer authHeader of
                None \<Rightarrow> next c s
              | Some tok \<Rightarrow> (case ValidateAccessToken jl p now tok of
                    Inl _ \<Rightarrow> next c s
                  | Inr claims \<Rightarrow> next (SetCurrentClaims claims c) s))"

definition RequireRole :: "UserRole list \<Rightarrow> time \<Rightarrow> ('d, 's) handler \<Rightarrow> ('d, 's) handler" where
  "RequireRole roles now next c s =
     (case GetCurrentClaims c of
        None \<Rightarrow> Done (refuse now 401 ''authentication required'' c, s)
      | Some claims \<Rightarrow> if list_ex (\<lambda>role. uc_Role claims = role) roles then next c s
                      else Done (refuse now 403 ''insufficient permissions'' c, s))"

definition RequireAdmin :: "time \<Rightarrow> ('d, 's) handler \<Rightarrow> ('d, 's) handler" where
  "RequireAdmin = RequireRole [RoleAdmin]"

subsection \<open>Request identifiers and panics\<close>

definition RequestIDHeader :: string where "RequestIDHeader = ''X-Request-ID''"
definition RequestIDKey :: string where "RequestIDKey = ''request_id''"

definition RequestID :: "string \<Rightarrow> ('d, 's) handler \<Rightarrow> ('d, 's) handler" where
  "RequestID uuid next c s =
     (let requestID = (if gc_ReqHeader c RequestIDHeader = [] then uuid else gc_ReqHeader c RequestIDHeader)
      in next (c\<lparr>gc_Keys := (gc_Keys c)(RequestIDKey \<mapsto> CtxStr requestID),
                gc_Header := (gc_Header c)(RequestIDHeader \<mapsto> requestID)\<rparr>) s)"

definition GetRequestID :: "'d Context \<Rightarrow> string" where
  "GetRequestID c = (case gc_Keys c RequestIDKey of Some (CtxStr x) \<Rightarrow> x | _ \<Rightarrow> [])"

definition Recovery :: "time \<Rightarrow> ('d, 's) handler \<Rightarrow> ('d, 's) handler" where
  "Recovery now next c s =
     (case next c s of
        Done r \<Rightarrow> Done r
      | Panicked (c1, s1) \<Rightarrow> Done (Abort (send_JSON 500 (NewError now ''internal server error'') c1), s1))"

datatype log_level = LogError | LogWarn | LogInfo

text \<open>\<^verbatim>\<open>Logger\<close> runs the rest and writes one entry, at a level that the status gives.\<close>

definition Logger_level :: "int \<Rightarrow> log_level" where
  "Logger_level status = (if status \<ge> 500 then LogError else if status \<ge> 400 then LogWarn else LogInfo)"

definition Logger :: "('d, 's) handler \<Rightarrow> ('d, 's) handler" where
  "Logger next c s = next c s"

subsection \<open>Cross-origin requests\<close>

record CORSConfig =
  co_AllowOrigins :: "string list"
  co_AllowMethods :: "string list"
  co_AllowHeaders :: "string list"
  co_ExposeHeaders :: "string list"
  co_AllowCredentials :: bool
  co_MaxAge :: duration

definition DefaultCORSConfig :: CORSConfig where
  "DefaultCORSConfig =
     \<lparr>co_AllowOrigins = [''*''],
      co_AllowMethods = [''GET'', ''POST'', ''PUT'', ''PATCH'', ''DELETE'', ''OPTIONS'', ''HEAD''],
      co_AllowHeaders = [''Origin'', ''Content-Type'', ''Accept'', ''Authorization'', ''X-Requested-With'', ''X-Request-ID''],
      co_ExposeHeaders = [''Content-Length'', ''X-Request-ID''],
      co_AllowCredentials = True, co_MaxAge = 12 * hour\<rparr>"

fun allowed_origin :: "string \<Rightarrow> string list \<Rightarrow> string option" where
  "allowed_origin origin [] = None"
| "allowed_origin origin (o1 # os) = (if o1 = ''*'' \<or> o1 = origin then Some origin else allowed_origin origin os)"

definition resolveAllowedOrigin :: "string \<Rightarrow> string list \<Rightarrow> string" where
  "resolveAllowedOrigin origin allowOrigins =
     (case allowed_origin origin allowOrigins of
        Some x \<Rightarrow> x
      | None \<Rightarrow> (case allowOrigins of o1 # _ \<Rightarrow> if o1 = ''*'' then ''*'' else [] | [] \<Rightarrow> []))"

fun join_rest :: "string \<Rightarrow> string list \<Rightarrow> string" where
  "join_rest result [] = result"
| "join_rest result (x # xs) = join_rest (result @ '', '' @ x) xs"

definition joinStrings :: "string list \<Rightarrow> string" where
  "joinStrings strs = (case strs of [] \<Rightarrow> [] | x # xs \<Rightarrow> join_rest x xs)"

definition formatMaxAge :: "duration \<Rightarrow> string" where
  "formatMaxAge d = itoa (trunc (real_of_int d / 1000000000))"

definition set_header :: "string \<Rightarrow> string \<Rightarrow> 'd Context \<Rightarrow> 'd Context" where
  "set_header k v c = c\<lparr>gc_Header := (gc_Header c)(k \<mapsto> v)\<rparr>"

definition applyPreflightHeaders :: "CORSConfig \<Rightarrow> 'd Context \<Rightarrow> 'd Context" where
  "applyPreflightHeaders cfg c =
     Abort ((set_header ''Access-Control-Max-Age'' (formatMaxAge (co_MaxAge cfg))
       (set_header ''Access-Control-Allow-Headers'' (joinStrings (co_AllowHeaders cfg))
       (set_header ''Access-Control-Allow-Methods'' (joinStrings (co_AllowMethods cfg)) c)))\<lparr>gc_Status := 204\<rparr>)"

definition CORS :: "CORSConfig \<Rightarrow> ('d, 's) handler \<Rightarrow> ('d, 's) handler" where
  "CORS config next c s =
     (let allowOrigin = resolveAllowedOrigin (gc_ReqHeader c ''Origin'') (co_AllowOrigins config);
          c1 = (if allowOrigin \<noteq> [] then set_header ''Access-Control-Allow-Origin'' allowOrigin c else c);
          c2 = (if co_AllowCredentials config then set_header ''Access-Control-Allow-Credentials'' ''true'' c1 else c1)
      in if gc_Method c = ''OPTIONS'' then Done (applyPreflightHeaders config c2, s)
         else next (if co_ExposeHeaders config \<noteq> []
                    then set_header ''Access-Control-Expose-Headers'' (joinStrings (co_ExposeHeaders config)) c2 else c2) s)"

subsection \<open>Who gets through\<close>

text \<open>A protected handler behind \<^verbatim>\<open>Authenticate\<close> and \<^verbatim>\<open>RequireRole\<close>.\<close>

definition guarded :: "jwt_lib \<Rightarrow> JWTProvider \<Rightarrow> UserRole list \<Rightarrow> time \<Rightarrow> ('d, 's) handler \<Rightarrow> ('d, 's) handler" where
  "guarded jl p roles now h = Authenticate jl p now (RequireRole roles now h)"

text \<open>The bearer token of a request that is valid now.\<close>

definition caller :: "jwt_lib \<Rightarrow> JWTProvider \<Rightarrow> time \<Rightarrow> 'd Context \<Rightarrow> UserClaims option" where
  "caller jl p now c =
     (case bearer (gc_ReqHeader c ''Authorization'') of
        None \<Rightarrow> None
      | Some tok \<Rightarrow> (case ValidateAccessToken jl p now tok of Inl _ \<Rightarrow> None | Inr cl \<Rightarrow> Some cl))"

lemma bearer_empty [simp]: "bearer [] = None"
  by (simp add: bearer_def split_two_def)

lemma Authenticate_caller:
  "Authenticate jl p now next c s =
     (case caller jl p now c of
        Some cl \<Rightarrow> next (SetCurrentClaims cl c) s
      | None \<Rightarrow> Done (refuse now 401
          (if gc_ReqHeader c ''Authorization'' = [] then ''authorization header required''
           else case bearer (gc_ReqHeader c ''Authorization'') of
             None \<Rightarrow> ''invalid authorization header format''
           | Some tok \<Rightarrow> if ValidateAccessToken jl p now tok = Inl TokErrExpired then ''token has expired''
                         else ''invalid token'') c, s))"
  by (auto simp: Authenticate_def caller_def Let_def split: option.splits sum.splits token_error.splits)

lemma bearer_token: "bearer (''Bearer '' @ tok) = Some tok"
  by (simp add: bearer_def split_two_def to_lower_def, code_simp)

text \<open>The middleware every route runs behind (\<^verbatim>\<open>provideGinEngine\<close>).\<close>

definition global_chain :: "time \<Rightarrow> string \<Rightarrow> ('d, 's) handler \<Rightarrow> ('d, 's) handler" where
  "global_chain now reqid h = Recovery now (RequestID reqid (Logger (CORS DefaultCORSConfig h)))"

text \<open>A request as it arrives: nothing set, nothing written.\<close>

definition arrived :: "'d Context \<Rightarrow> bool" where
  "arrived c \<longleftrightarrow> gc_Keys c = Map.empty \<and> gc_Header c = Map.empty \<and> gc_Bodies c = [] \<and> \<not> gc_Aborted c"

text \<open>What a handler behind the global chain is called with.\<close>

definition prepared :: "string \<Rightarrow> 'd Context \<Rightarrow> 'd Context" where
  "prepared reqid c =
     (let rid = (if gc_ReqHeader c RequestIDHeader = [] then reqid else gc_ReqHeader c RequestIDHeader);
          origin = gc_ReqHeader c ''Origin'';
          h1 = (gc_Header c)(RequestIDHeader \<mapsto> rid);
          h2 = (if origin = [] then h1 else h1(''Access-Control-Allow-Origin'' \<mapsto> origin))
      in c\<lparr>gc_Keys := (gc_Keys c)(RequestIDKey \<mapsto> CtxStr rid),
           gc_Header := h2(''Access-Control-Allow-Credentials'' \<mapsto> ''true'',
             ''Access-Control-Expose-Headers'' \<mapsto> ''Content-Length, X-Request-ID'')\<rparr>)"

lemma default_origin: "resolveAllowedOrigin origin [''*''] = origin"
  by (simp add: resolveAllowedOrigin_def)

lemma global_chain_eq:
  assumes "gc_Method c \<noteq> ''OPTIONS''"
  shows "global_chain now reqid h c s = Recovery now (\<lambda>c s. h (prepared reqid c) s) c s"
proof -
  have "RequestID reqid (Logger (CORS DefaultCORSConfig h)) c s = h (prepared reqid c) s"
    using assms
    by (auto simp: RequestID_def Logger_def CORS_def Let_def default_origin prepared_def set_header_def
        DefaultCORSConfig_def joinStrings_def)
  then show ?thesis by (simp add: global_chain_def Recovery_def)
qed

lemma prepared_simps [simp]:
  "gc_ReqHeader (prepared reqid c) = gc_ReqHeader c" "gc_Param (prepared reqid c) = gc_Param c"
  "gc_Query (prepared reqid c) = gc_Query c" "gc_Bodies (prepared reqid c) = gc_Bodies c"
  "gc_Status (prepared reqid c) = gc_Status c" "gc_Aborted (prepared reqid c) = gc_Aborted c"
  "GetCurrentClaims (prepared reqid c) = GetCurrentClaims c"
  "caller jl p now (prepared reqid c) = caller jl p now c"
  by (simp_all add: prepared_def Let_def GetCurrentClaims_def RequestIDKey_def ContextKeyClaims_def caller_def)

lemma arrived_claims: "arrived c \<Longrightarrow> GetCurrentClaims c = None"
  by (simp add: arrived_def GetCurrentClaims_def)

subsection \<open>Properties\<close>


text \<open>
  An access token identifies its user until it expires. Sent as a bearer token before the whole
  second of its expiry, the token issued to a user admits the request with the id, name, e-mail
  and role the user had when it was issued; from that second on it is refused as expired.
\<close>

theorem access_token_identifies_user:
  assumes "jwt_library jl" "GenerateAccessToken jl p issued u = Inr tok" "0 \<le> u_ID u" "u_ID u < 2 ^ 64"
    "gc_ReqHeader c ''Authorization'' = ''Bearer '' @ tok"
  shows "Authenticate jl p now next c s =
    (if now < NewNumericDate (issued + jw_accessTokenDuration p)
     then next (SetCurrentClaims (access_claims p issued u) c) s
     else Done (refuse now 401 ''token has expired'' c, s))"
proof -
  have b: "bearer (CHR ''B'' # CHR ''e'' # CHR ''a'' # CHR ''r'' # CHR ''e'' # CHR ''r'' # CHR '' '' # tok) = Some tok"
    using bearer_token [of tok] by simp
  show ?thesis using jwt_library.access_token_valid [OF assms(1-4), of now] assms(5)
    by (simp add: Authenticate_def b)
qed

theorem access_token_identifies_user_witness:
  "\<exists>tok. GenerateAccessToken mem_jwt (NewJWTProvider \<lparr>jc_Secret = ''k'', jc_AccessTokenDuration = minute,
       jc_RefreshTokenDuration = day, jc_Issuer = []\<rparr>) 0 (zero_user\<lparr>u_ID := 7, u_Role := ''USER''\<rparr>) = Inr tok
    \<and> Authenticate mem_jwt (NewJWTProvider \<lparr>jc_Secret = ''k'', jc_AccessTokenDuration = minute,
       jc_RefreshTokenDuration = day, jc_Issuer = []\<rparr>) (2 * minute) (\<lambda>c s. Done (c, s))
       \<lparr>gc_Method = ''GET'', gc_ReqHeader = (\<lambda>_. ''Bearer '' @ tok), gc_Param = (\<lambda>_. []), gc_Query = (\<lambda>_. None),
        gc_Keys = Map.empty, gc_Header = Map.empty, gc_Status = 200, gc_Bodies = [] :: unit ApiResponse list, gc_Aborted = False\<rparr> () =
       Done (refuse (2 * minute) 401 ''token has expired''
       \<lparr>gc_Method = ''GET'', gc_ReqHeader = (\<lambda>_. ''Bearer '' @ tok), gc_Param = (\<lambda>_. []), gc_Query = (\<lambda>_. None),
        gc_Keys = Map.empty, gc_Header = Map.empty, gc_Status = 200, gc_Bodies = [], gc_Aborted = False\<rparr>, ())"
proof -
  let ?p = "NewJWTProvider \<lparr>jc_Secret = ''k'', jc_AccessTokenDuration = minute, jc_RefreshTokenDuration = day, jc_Issuer = []\<rparr>"
  let ?u = "zero_user\<lparr>u_ID := 7, u_Role := ''USER''\<rparr>"
  obtain tok where t: "GenerateAccessToken mem_jwt ?p 0 ?u = Inr tok" using mem_jwt.sign_total(1) by blast
  let ?c = "\<lparr>gc_Method = ''GET'', gc_ReqHeader = (\<lambda>_. ''Bearer '' @ tok), gc_Param = (\<lambda>_. []), gc_Query = (\<lambda>_. None),
        gc_Keys = Map.empty, gc_Header = Map.empty, gc_Status = 200, gc_Bodies = [] :: unit ApiResponse list, gc_Aborted = False\<rparr>"
  have "Authenticate mem_jwt ?p (2 * minute) (\<lambda>c s. Done (c, s)) ?c () =
      Done (refuse (2 * minute) 401 ''token has expired'' ?c, ())"
    by (subst access_token_identifies_user [OF mem_jwt.jwt_library_axioms t])
       (simp_all add: zero_user_def NewJWTProvider_def NewNumericDate_def)
  with t show ?thesis by blast
qed

text \<open>
  A refresh token passes as an access token. Both kinds are signed with one secret and neither
  says what it is for, so \<^verbatim>\<open>Authenticate\<close> admits a refresh token sent as a bearer token until it
  expires, days after the access token did, as a user with id 0 and no role.
\<close>

theorem refresh_token_authenticates:
  assumes "jwt_library jl" "GenerateRefreshToken jl p issued uuid u = Inr (tok, e)"
    "gc_ReqHeader c ''Authorization'' = ''Bearer '' @ tok"
    "now < NewNumericDate (issued + jw_refreshTokenDuration p)"
  shows "Authenticate jl p now next c s =
           next (SetCurrentClaims (anonymous_claims (refresh_claims p issued uuid u)) c) s
       \<and> GetCurrentUserID (SetCurrentClaims (anonymous_claims (refresh_claims p issued uuid u)) c) = 0
       \<and> IsAuthenticated (SetCurrentClaims (anonymous_claims (refresh_claims p issued uuid u)) c)"
proof -
  have b: "bearer (CHR ''B'' # CHR ''e'' # CHR ''a'' # CHR ''r'' # CHR ''e'' # CHR ''r'' # CHR '' '' # tok) = Some tok"
    using bearer_token [of tok] by simp
  show ?thesis using jwt_library.refresh_token_valid(2) [OF assms(1, 2), of now] assms(3, 4)
    by (simp add: Authenticate_def b GetCurrentUserID_def IsAuthenticated_def anonymous_claims_def)
qed

theorem refresh_token_authenticates_witness:
  "\<exists>tok e. GenerateRefreshToken mem_jwt (NewJWTProvider \<lparr>jc_Secret = ''k'', jc_AccessTokenDuration = minute,
       jc_RefreshTokenDuration = day, jc_Issuer = []\<rparr>) 0 ''id'' zero_user = Inr (tok, e)
    \<and> Authenticate mem_jwt (NewJWTProvider \<lparr>jc_Secret = ''k'', jc_AccessTokenDuration = minute,
       jc_RefreshTokenDuration = day, jc_Issuer = []\<rparr>) (2 * hour) (\<lambda>c s. Done (c, GetCurrentUserID c))
       \<lparr>gc_Method = ''GET'', gc_ReqHeader = (\<lambda>_. ''Bearer '' @ tok), gc_Param = (\<lambda>_. []), gc_Query = (\<lambda>_. None),
        gc_Keys = Map.empty, gc_Header = Map.empty, gc_Status = 200, gc_Bodies = [] :: unit ApiResponse list, gc_Aborted = False\<rparr> 1
      = Done (SetCurrentClaims (anonymous_claims (refresh_claims (NewJWTProvider \<lparr>jc_Secret = ''k'', jc_AccessTokenDuration = minute,
       jc_RefreshTokenDuration = day, jc_Issuer = []\<rparr>) 0 ''id'' zero_user)) \<lparr>gc_Method = ''GET'', gc_ReqHeader = (\<lambda>_. ''Bearer '' @ tok),
        gc_Param = (\<lambda>_. []), gc_Query = (\<lambda>_. None), gc_Keys = Map.empty, gc_Header = Map.empty, gc_Status = 200, gc_Bodies = [], gc_Aborted = False\<rparr>, 0)"
proof -
  let ?p = "NewJWTProvider \<lparr>jc_Secret = ''k'', jc_AccessTokenDuration = minute, jc_RefreshTokenDuration = day, jc_Issuer = []\<rparr>"
  obtain tok where t: "GenerateRefreshToken mem_jwt ?p 0 ''id'' zero_user = Inr (tok, 0 + jw_refreshTokenDuration ?p)"
    using mem_jwt.sign_total(2) by blast
  let ?c = "\<lparr>gc_Method = ''GET'', gc_ReqHeader = (\<lambda>_. ''Bearer '' @ tok), gc_Param = (\<lambda>_. []), gc_Query = (\<lambda>_. None),
        gc_Keys = Map.empty, gc_Header = Map.empty, gc_Status = 200, gc_Bodies = [] :: unit ApiResponse list, gc_Aborted = False\<rparr>"
  have "2 * hour < NewNumericDate (0 + jw_refreshTokenDuration ?p)" by (simp add: NewJWTProvider_def NewNumericDate_def)
  from refresh_token_authenticates [OF mem_jwt.jwt_library_axioms t, of ?c "2 * hour" "\<lambda>c s. Done (c, GetCurrentUserID c)" 1, OF _ this] t
  show ?thesis by auto
qed

text \<open>
  Any site may read authenticated answers. Behind the global chain every response to a
  request with an \<^verbatim>\<open>Origin\<close> header that is not a preflight names that origin as allowed, together with
  \<^verbatim>\<open>Access-Control-Allow-Credentials: true\<close>, whatever the origin is: the handler is called with
  these headers set.
\<close>

theorem any_origin_is_reflected:
  assumes "gc_Method c \<noteq> ''OPTIONS''" "gc_ReqHeader c ''Origin'' = origin" "origin \<noteq> []"
  shows "\<exists>c1. global_chain now reqid h c s = Recovery now (\<lambda>_ s. h c1 s) c s
     \<and> gc_Header c1 ''Access-Control-Allow-Origin'' = Some origin
     \<and> gc_Header c1 ''Access-Control-Allow-Credentials'' = Some ''true''"
  using assms
  by (intro exI [of _ "prepared reqid c"])
     (simp add: global_chain_eq Recovery_def prepared_def Let_def RequestIDHeader_def)

theorem any_origin_is_reflected_witness:
  "\<exists>c1 :: unit Context. global_chain 0 ''r'' (\<lambda>c s. Done (c, s)) \<lparr>gc_Method = ''GET'', gc_ReqHeader = (\<lambda>h. if h = ''Origin'' then ''https://evil.example'' else []),
      gc_Param = (\<lambda>_. []), gc_Query = (\<lambda>_. None), gc_Keys = Map.empty, gc_Header = Map.empty, gc_Status = 200, gc_Bodies = [], gc_Aborted = False\<rparr> () =
      Done (c1, ())
    \<and> gc_Header c1 ''Access-Control-Allow-Origin'' = Some ''https://evil.example''"
  using any_origin_is_reflected [of "\<lparr>gc_Method = ''GET'', gc_ReqHeader = (\<lambda>h. if h = ''Origin'' then ''https://evil.example'' else []),
      gc_Param = (\<lambda>_. []), gc_Query = (\<lambda>_. None), gc_Keys = Map.empty, gc_Header = Map.empty, gc_Status = 200, gc_Bodies = [] :: unit ApiResponse list, gc_Aborted = False\<rparr>"
      "''https://evil.example''" 0 "''r''" "\<lambda>c s. Done (c, s)" "()"]
  by (auto simp: Recovery_def)

end
