(* ===== verification/Account_Controller.thy ===== *)
theory Account_Controller
  imports Auth_Properties Http_Middleware
begin

text \<open>
  The HTTP controllers of authentication and users,
  \<^verbatim>\<open>internal/controller/http/{auth,user}_controller.go\<close>, with their routes. Binding a request body
  (\<^verbatim>\<open>ShouldBindJSON\<close> with its validator) is done by gin: the result, a request or a message, is an
  argument of the handler.
\<close>

datatype account_data =
    DAuth AuthResponse | DUser UserResponse | DUsers "UserResponse PagedResponse option"

type_synonym 's acc_handler = "(account_data, 's) handler"

definition msgValidationFailed :: string where "msgValidationFailed = ''validation failed''"
definition msgNotAuthenticated :: string where "msgNotAuthenticated = ''not authenticated''"
definition msgUserNotFound :: string where "msgUserNotFound = ''user not found''"
definition msgFailedFetchUser :: string where "msgFailedFetchUser = ''failed to fetch user''"

text \<open>The reply to a call of a service: the status and message of an error depend on it.\<close>

definition reply_with ::
  "time \<Rightarrow> (svc_error \<Rightarrow> int \<times> string) \<Rightarrow> int \<Rightarrow> string \<Rightarrow> ('a \<Rightarrow> 'd option) \<Rightarrow> ('s, 'a) svc \<Rightarrow> ('d, 's) handler" where
  "reply_with now err st message data call c s =
     (case call s of
        (Inl e, s1) \<Rightarrow> Done (send_JSON (fst (err e)) (NewError now (snd (err e))) c, s1)
      | (Inr x, s1) \<Rightarrow> Done (send_JSON st (NewSuccess now (data x) message) c, s1))"

definition bad_request :: "time \<Rightarrow> string \<Rightarrow> ('d, 's) handler" where
  "bad_request now details c s =
     Done (send_JSON 400 (NewErrorWithDetails now msgValidationFailed details) c, s)"

subsection \<open>Authentication\<close>

definition register_errors :: "svc_error \<Rightarrow> int \<times> string" where
  "register_errors e = (if e = ErrUserAlreadyExists then (409, ''user already exists'') else (500, ''registration failed''))"

definition ctl_Register ::
  "'s authService \<Rightarrow> time \<Rightarrow> nat \<Rightarrow> string \<Rightarrow> string + RegisterRequest \<Rightarrow> 's acc_handler" where
  "ctl_Register a now salt uuid bound =
     (case bound of
        Inl details \<Rightarrow> bad_request now details
      | Inr req \<Rightarrow> reply_with now register_errors 201 ''User registered successfully'' (Some \<circ> DAuth)
                     (auth_Register a now salt uuid req))"

definition login_errors :: "svc_error \<Rightarrow> int \<times> string" where
  "login_errors e = (if e = ErrInvalidCredentials then (401, ''invalid credentials'')
                     else if e = ErrUserInactive then (401, ''account is inactive'') else (500, ''login failed''))"

definition ctl_Login :: "'s authService \<Rightarrow> time \<Rightarrow> string \<Rightarrow> string + LoginRequest \<Rightarrow> 's acc_handler" where
  "ctl_Login a now uuid bound =
     (case bound of
        Inl details \<Rightarrow> bad_request now details
      | Inr req \<Rightarrow> reply_with now login_errors 200 ''Login successful'' (Some \<circ> DAuth) (auth_Login a now uuid req))"

definition refresh_errors :: "svc_error \<Rightarrow> int \<times> string" where
  "refresh_errors e = (if e = ErrInvalidToken then (401, ''invalid or expired refresh token'') else (500, ''token refresh failed''))"

definition ctl_RefreshToken :: "'s authService \<Rightarrow> time \<Rightarrow> string \<Rightarrow> string + string \<Rightarrow> 's acc_handler" where
  "ctl_RefreshToken a now uuid bound =
     (case bound of
        Inl details \<Rightarrow> bad_request now details
      | Inr tok \<Rightarrow> reply_with now refresh_errors 200 ''Token refreshed successfully'' (Some \<circ> DAuth)
                     (auth_RefreshToken a now uuid tok))"

text \<open>The errors of the two logouts are ignored.\<close>

definition ctl_Logout :: "'s authService \<Rightarrow> time \<Rightarrow> 's acc_handler" where
  "ctl_Logout a now c s =
     (let bearerToken = gc_ReqHeader c ''Authorization'';
          s1 = (if bearerToken \<noteq> [] \<and> prefix ''Bearer '' bearerToken
                then snd (auth_Logout a now (drop 7 bearerToken) s) else s)
      in Done (send_JSON 200 (NewSuccess now None ''Logged out successfully'') c, s1))"

definition ctl_LogoutAll :: "'s authService \<Rightarrow> time \<Rightarrow> 's acc_handler" where
  "ctl_LogoutAll a now c s =
     (let userID = GetCurrentUserID c;
          s1 = (if userID > 0 then snd (auth_LogoutAll a now userID s) else s)
      in Done (send_JSON 200 (NewSuccess now None ''All sessions logged out successfully'') c, s1))"

datatype auth_route =
    RouteRegister "string + RegisterRequest" | RouteLogin "string + LoginRequest" | RouteRefresh "string + string"
  | RouteLogout | RouteLogoutAll

text \<open>The routes below \<^verbatim>\<open>/auth\<close>: none of them is behind \<^verbatim>\<open>Authenticate\<close>.\<close>

fun auth_RegisterRoutes :: "'s authService \<Rightarrow> time \<Rightarrow> nat \<Rightarrow> string \<Rightarrow> auth_route \<Rightarrow> 's acc_handler" where
  "auth_RegisterRoutes a now salt uuid (RouteRegister b) = ctl_Register a now salt uuid b"
| "auth_RegisterRoutes a now salt uuid (RouteLogin b) = ctl_Login a now uuid b"
| "auth_RegisterRoutes a now salt uuid (RouteRefresh b) = ctl_RefreshToken a now uuid b"
| "auth_RegisterRoutes a now salt uuid RouteLogout = ctl_Logout a now"
| "auth_RegisterRoutes a now salt uuid RouteLogoutAll = ctl_LogoutAll a now"

subsection \<open>Users\<close>

text \<open>\<^verbatim>\<open>strconv.Atoi\<close> with its error ignored: zero for text that is no number, the nearest bound for a
  number that does not fit; \<^verbatim>\<open>strconv.ParseUint(s, 10, 32)\<close>.\<close>

definition go_Atoi :: "string \<Rightarrow> int" where
  "go_Atoi s =
     (let neg = (case s of ch # _ \<Rightarrow> ch = CHR ''-'' | [] \<Rightarrow> False);
          ds = (case s of ch # r \<Rightarrow> if ch = CHR ''-'' \<or> ch = CHR ''+'' then r else s | [] \<Rightarrow> []);
          v = (if ds = [] then 0 else case digits_val 0 ds of None \<Rightarrow> 0 | Some n \<Rightarrow> if neg then - n else n)
      in max (- (2 ^ 63)) (min (2 ^ 63 - 1) v))"

definition ParseUint32 :: "string \<Rightarrow> int option" where
  "ParseUint32 s = (if s = [] then None else case digits_val 0 s of
     None \<Rightarrow> None | Some n \<Rightarrow> if n < 2 ^ 32 then Some n else None)"

definition query_int :: "string \<Rightarrow> string \<Rightarrow> 'd Context \<Rightarrow> int" where
  "query_int k dflt c = go_Atoi (case gc_Query c k of None \<Rightarrow> dflt | Some v \<Rightarrow> v)"

definition ctl_List :: "'s userService \<Rightarrow> time \<Rightarrow> 's acc_handler" where
  "ctl_List us now c =
     reply_with now (\<lambda>_. (500, ''failed to fetch users'')) 200 [] (Some \<circ> DUsers)
       (user_List us now (query_int ''page'' ''1'' c) (query_int ''size'' ''10'' c)) c"

definition fetch_errors :: "svc_error \<Rightarrow> int \<times> string" where
  "fetch_errors e = (if e = ErrUserNotFound then (404, msgUserNotFound) else (500, msgFailedFetchUser))"

definition unauthenticated :: "time \<Rightarrow> ('d, 's) handler" where
  "unauthenticated now c s = Done (send_JSON 401 (NewError now msgNotAuthenticated) c, s)"

definition ctl_GetCurrentUser :: "'s userService \<Rightarrow> time \<Rightarrow> 's acc_handler" where
  "ctl_GetCurrentUser us now c s =
     (let userID = GetCurrentUserID c
      in if userID = 0 then unauthenticated now c s
         else reply_with now fetch_errors 200 [] (Some \<circ> DUser) (user_GetByID us now userID) c s)"

definition update_errors :: "svc_error \<Rightarrow> int \<times> string" where
  "update_errors e = (if e = ErrUserNotFound then (404, msgUserNotFound)
     else if e = ErrUserAlreadyExists then (409, ''email already in use'') else (500, ''failed to update user''))"

definition ctl_UpdateCurrentUser ::
  "'s userService \<Rightarrow> time \<Rightarrow> string + UpdateProfileRequest \<Rightarrow> 's acc_handler" where
  "ctl_UpdateCurrentUser us now bound c s =
     (let userID = GetCurrentUserID c
      in if userID = 0 then unauthenticated now c s
         else case bound of
                Inl details \<Rightarrow> bad_request now details c s
              | Inr req \<Rightarrow> reply_with now update_errors 200 ''Profile updated successfully'' (Some \<circ> DUser)
                             (user_Update us now userID req) c s)"

definition password_errors :: "svc_error \<Rightarrow> int \<times> string" where
  "password_errors e = (if e = ErrUserNotFound then (404, msgUserNotFound)
     else if e = ErrInvalidCredentials then (400, ''current password is incorrect'')
     else (500, ''failed to change password''))"

definition ctl_ChangePassword ::
  "'s userService \<Rightarrow> time \<Rightarrow> nat \<Rightarrow> string + ChangePasswordRequest \<Rightarrow> 's acc_handler" where
  "ctl_ChangePassword us now salt bound c s =
     (let userID = GetCurrentUserID c
      in if userID = 0 then unauthenticated now c s
         else case bound of
                Inl details \<Rightarrow> bad_request now details c s
              | Inr req \<Rightarrow> reply_with now password_errors 200 ''Password changed successfully'' (\<lambda>_. None)
                             (user_ChangePassword us now salt userID req) c s)"

definition ctl_GetByID :: "'s userService \<Rightarrow> time \<Rightarrow> 's acc_handler" where
  "ctl_GetByID us now c s =
     (case ParseUint32 (gc_Param c ''id'') of
        None \<Rightarrow> Done (send_JSON 400 (NewError now ''invalid user ID'') c, s)
      | Some i \<Rightarrow> reply_with now fetch_errors 200 [] (Some \<circ> DUser) (user_GetByID us now i) c s)"

definition ctl_GetByUsername :: "'s userService \<Rightarrow> time \<Rightarrow> 's acc_handler" where
  "ctl_GetByUsername us now c s =
     (if gc_Param c ''username'' = [] then Done (send_JSON 400 (NewError now ''username is required'') c, s)
      else reply_with now fetch_errors 200 [] (Some \<circ> DUser) (user_GetByUsername us now (gc_Param c ''username'')) c s)"

definition ctl_DeleteUser :: "'s userService \<Rightarrow> time \<Rightarrow> 's acc_handler" where
  "ctl_DeleteUser us now c s =
     (case ParseUint32 (gc_Param c ''id'') of
        None \<Rightarrow> Done (send_JSON 400 (NewError now ''invalid user ID'') c, s)
      | Some i \<Rightarrow> reply_with now (\<lambda>_. (500, ''failed to delete user'')) 200 ''User deleted successfully'' (\<lambda>_. None)
                    (user_Delete us now i) c s)"

datatype user_route =
    RouteList | RouteMe | RouteUpdateMe "string + UpdateProfileRequest"
  | RoutePassword "string + ChangePasswordRequest" | RouteById | RouteByName | RouteDelete

definition user_handler :: "'s userService \<Rightarrow> time \<Rightarrow> nat \<Rightarrow> user_route \<Rightarrow> 's acc_handler" where
  "user_handler us now salt rt =
     (case rt of
        RouteList \<Rightarrow> RequireAdmin now (ctl_List us now)
      | RouteMe \<Rightarrow> ctl_GetCurrentUser us now
      | RouteUpdateMe b \<Rightarrow> ctl_UpdateCurrentUser us now b
      | RoutePassword b \<Rightarrow> ctl_ChangePassword us now salt b
      | RouteById \<Rightarrow> ctl_GetByID us now
      | RouteByName \<Rightarrow> ctl_GetByUsername us now
      | RouteDelete \<Rightarrow> RequireAdmin now (ctl_DeleteUser us now))"

definition user_RegisterRoutes ::
  "jwt_lib \<Rightarrow> JWTProvider \<Rightarrow> 's userService \<Rightarrow> time \<Rightarrow> nat \<Rightarrow> user_route \<Rightarrow> 's acc_handler" where
  "user_RegisterRoutes jl p us now salt rt = Authenticate jl p now (user_handler us now salt rt)"

subsection \<open>Frames\<close>

lemma reply_with_eq:
  "reply_with now err st message data call c s =
     Done (case fst (call s) of
        Inl e \<Rightarrow> send_JSON (fst (err e)) (NewError now (snd (err e))) c
      | Inr x \<Rightarrow> send_JSON st (NewSuccess now (data x) message) c, snd (call s))"
  by (auto simp: reply_with_def split: prod.splits sum.splits)

text \<open>The rows of everybody else.\<close>

definition elsewhere :: "int \<Rightarrow> User list \<Rightarrow> User list" where
  "elsewhere i us = filter (\<lambda>u. u_ID u \<noteq> i) us"

lemma elsewhere_replace: "u_ID w = i \<Longrightarrow> elsewhere i (map (\<lambda>r. if u_ID r = i then w else r) us) = elsewhere i us"
  by (induction us) (auto simp: elsewhere_def)

text \<open>Calls that may change the row of one account only.\<close>

definition own_row :: "('s \<Rightarrow> bool) \<Rightarrow> ('s \<Rightarrow> User list) \<Rightarrow> int \<Rightarrow> ('s, 'e, 'a) call \<Rightarrow> bool" where
  "own_row up uview i f \<longleftrightarrow>
     (\<forall>s. up s \<longrightarrow> up (snd (f s)) \<and> elsewhere i (uview (snd (f s))) = elsewhere i (uview s))"

context auth_service
begin

lemma save_own_row:
  assumes "up s" "u \<in> set (uview s)" "u_ID u = i" "u_DeletedAt u = None" "u_ID v = i"
  shows "elsewhere i (uview (snd (dao_Update udb now v s))) = elsewhere i (uview s)"
proof -
  have v: "sees user_schema (CEq ''id'' (VInt (sc_id user_schema v))) u" using assms by (simp add: sees_def)
  have e: "uview (snd (dao_Update udb now v s)) = uview (snd (udb now (SAVE v) s))"
    by (simp add: dao_Update_def users.exec_view)
  show ?thesis
  proof (cases "sc_fits user_schema v \<and> \<not> clash user_schema (others user_schema (sc_id user_schema v) (uview s)) v")
    case True
    then have "uview (snd (udb now (SAVE v) s)) = map (\<lambda>r. if u_ID r = i then v\<lparr>u_UpdatedAt := now\<rparr> else r) (uview s)"
      using users.SAVE_ok [OF assms(1) v assms(2), of now] assms(5) by simp
    then show ?thesis using assms(5) by (simp add: e elsewhere_replace)
  next
    case False
    then have "uview (snd (udb now (SAVE v) s)) = uview s"
      using users.SAVE_err [OF assms(1) v assms(2), of now] by auto
    then show ?thesis by (simp add: e)
  qed
qed

lemma change_password_own_row: "own_row up uview i (user_ChangePassword (user_service_of a) now salt i req)"
  unfolding own_row_def
proof (intro allI impI)
  fix s
  assume up: "up s"
  note g = GetByID_frame [OF up, of now i]
  show "up (snd (user_ChangePassword (user_service_of a) now salt i req s))
    \<and> elsewhere i (uview (snd (user_ChangePassword (user_service_of a) now salt i req s))) = elsewhere i (uview s)"
  proof (cases "first_row user_schema (CEq ''id'' (VInt i)) (uview s)")
    case None
    then show ?thesis using g by (simp add: user_ChangePassword_def user_service_of_def and_then_Inr)
  next
    case (Some u)
    then have u: "u \<in> set (uview s)" "u_ID u = i" "u_DeletedAt u = None" using users.row_by_id [OF up] by auto
    then have w: "elsewhere i (uview (snd (dao_Update udb now (u\<lparr>u_Password := h\<rparr>) (snd (GetByID udb now i s))))) = elsewhere i (uview s)" for h
      using save_own_row [OF g(2), of u i "u\<lparr>u_Password := h\<rparr>" now] g(3) by simp
    have x: "up (snd (dao_Update udb now v (snd (GetByID udb now i s))))" for v
      using g(2) by (simp add: dao_Update_def db_laws)
    show ?thesis
      using g Some w x by (cases "pw_Hash (as_bcrypt a) (as_passwordHasher a) salt (cp_NewPassword req)")
        (auto simp: user_ChangePassword_def user_service_of_def and_then_Inr repo_UpdateUser_def)
  qed
qed

lemma update_own_row: "own_row up uview i (user_Update (user_service_of a) now i req)"
  unfolding own_row_def
proof (intro allI impI)
  fix s
  assume up: "up s"
  let ?s1 = "snd (GetByID udb now i s)"
  note g = GetByID_frame [OF up, of now i]
  note q = users.ExistsBy_laws [OF g(2), of now "''email''" "VStr (up_Email req)"]
  show "up (snd (user_Update (user_service_of a) now i req s))
    \<and> elsewhere i (uview (snd (user_Update (user_service_of a) now i req s))) = elsewhere i (uview s)"
  proof (cases "first_row user_schema (CEq ''id'' (VInt i)) (uview s)")
    case None
    then show ?thesis using g by (simp add: user_Update_def user_service_of_def and_then_Inr)
  next
    case (Some u)
    then have u: "u \<in> set (uview s)" "u_ID u = i" "u_DeletedAt u = None" using users.row_by_id [OF up] by auto
    have w: "up (snd (and_then (dao_Update udb now v) k s2))
        \<and> elsewhere i (uview (snd (and_then (dao_Update udb now v) k s2))) = elsewhere i (uview s)"
      if "up s2" "uview s2 = uview s" "u_ID v = i" "\<And>x s'. snd (k x s') = s'" for s2 v k
      using save_own_row [OF that(1), of u i v now] that u
      by (auto simp: and_then_def dao_Update_def users.exec_up split: prod.splits sum.splits)
        (metis users.exec_up snd_conv)+
    show ?thesis
      by (simp add: user_Update_def user_service_of_def and_then_Inr repo_UpdateUser_def repo_ExistsByEmail_def
          dao_ExistsByEmail_def Let_def and_then_assoc g q Some w u)
  qed
qed

end

subsection \<open>Properties\<close>

definition demo_request :: "string \<Rightarrow> account_data Context" where
  "demo_request header =
     \<lparr>gc_Method = ''POST'', gc_ReqHeader = (\<lambda>h. if h = ''Authorization'' then header else []), gc_Param = (\<lambda>_. []),
      gc_Query = (\<lambda>_. None), gc_Keys = Map.empty, gc_Header = Map.empty, gc_Status = 200, gc_Bodies = [], gc_Aborted = False\<rparr>"

text \<open>
  C28. What a client of \<^verbatim>\<open>POST /auth/login\<close> is told. The reply follows the specification of
  \<^verbatim>\<open>Login\<close>: an unknown name and a wrong password get the same answer, 401 \<open>invalid credentials\<close>,
  so the endpoint does not tell them apart; an inactive account gets its own 401; when the tokens
  cannot be stored the answer is 500; otherwise 200 with the tokens. Refused requests change no row.
\<close>

theorem login_replies:
  assumes "auth_service a uview tview up" "up s"
  shows "\<exists>s1 i. ctl_Login a now uuid (Inr req) c s =
     Done (case login_spec a now uuid req (uview s) (tview s) of
        Inr (resp, _) \<Rightarrow> send_JSON 200 (NewSuccess now (Some (DAuth resp)) ''Login successful'') c
      | Inl ErrInvalidCredentials \<Rightarrow> send_JSON 401 (NewError now ''invalid credentials'') c
      | Inl ErrUserInactive \<Rightarrow> send_JSON 401 (NewError now ''account is inactive'') c
      | Inl _ \<Rightarrow> send_JSON 500 (NewError now ''login failed'') c, s1)
   \<and> uview s1 = uview s \<and> tview s1 = added now i (login_spec a now uuid req (uview s) (tview s)) (tview s)"
proof -
  obtain i where l: "fst (auth_Login a now uuid req s) = map_sum id fst (login_spec a now uuid req (uview s) (tview s))"
    "tview (snd (auth_Login a now uuid req s)) = added now i (login_spec a now uuid req (uview s) (tview s)) (tview s)"
    using auth_service.login_refines [OF assms] by blast
  have v: "uview (snd (auth_Login a now uuid req s)) = uview s" by (rule auth_service.login_frame(2) [OF assms])
  show ?thesis
    using l v
    by (intro exI [of _ "snd (auth_Login a now uuid req s)"] exI [of _ i], cases "auth_Login a now uuid req s")
       (auto simp: ctl_Login_def reply_with_def login_errors_def split: sum.splits svc_error.splits)
qed

theorem login_replies_witness:
  "\<exists>s1. ctl_Login demo_auth 0 ''2'' (Inr \<lparr>lq_UsernameOrEmail = ''ann'', lq_Password = ''guess''\<rparr>) (demo_request []) demo_db =
     Done (send_JSON 401 (NewError 0 ''invalid credentials'') (demo_request []), s1)
   \<and> (\<exists>s2. ctl_Login demo_auth 0 ''2'' (Inr \<lparr>lq_UsernameOrEmail = ''eve'', lq_Password = ''guess''\<rparr>) (demo_request []) demo_db =
     Done (send_JSON 401 (NewError 0 ''invalid credentials'') (demo_request []), s2))"
proof -
  have "login_spec demo_auth 0 ''2'' \<lparr>lq_UsernameOrEmail = ''ann'', lq_Password = ''guess''\<rparr> (fst demo_db) (snd demo_db) = Inl ErrInvalidCredentials"
    by (simp add: login_spec_def demo_account mem_bcrypt_def)
  moreover have "login_spec demo_auth 0 ''2'' \<lparr>lq_UsernameOrEmail = ''eve'', lq_Password = ''guess''\<rparr> (fst demo_db) (snd demo_db) = Inl ErrInvalidCredentials"
    by (simp add: login_spec_def account_of_def demo_db_def)
  ultimately show ?thesis
    using login_replies [OF demo_service demo_db_up, of 0 "''2''" "\<lparr>lq_UsernameOrEmail = ''ann'', lq_Password = ''guess''\<rparr>" "demo_request []"]
      login_replies [OF demo_service demo_db_up, of 0 "''2''" "\<lparr>lq_UsernameOrEmail = ''eve'', lq_Password = ''guess''\<rparr>" "demo_request []"]
    by auto
qed

text \<open>
  Logging out everywhere does nothing. The routes below \<^verbatim>\<open>/auth\<close> are not behind
  \<^verbatim>\<open>Authenticate\<close>, so \<^verbatim>\<open>POST /auth/logout-all\<close> never knows a user: whatever token the request
  carries, it answers 200 \<open>All sessions logged out successfully\<close> and leaves the database as it is.
\<close>

theorem logout_all_route_does_nothing:
  assumes "arrived c" "gc_Method c = ''POST''"
  shows "global_chain now reqid (auth_RegisterRoutes a now salt uuid RouteLogoutAll) c s =
    Done (send_JSON 200 (NewSuccess now None ''All sessions logged out successfully'') (prepared reqid c), s)"
  using assms
  by (simp add: global_chain_eq Recovery_def ctl_LogoutAll_def GetCurrentUserID_def arrived_claims)

theorem logout_all_route_does_nothing_witness:
  "global_chain 5 ''r'' (auth_RegisterRoutes demo_auth 5 0 ''2'' RouteLogoutAll) (demo_request (''Bearer '' @ demo_access)) demo_db =
    Done (send_JSON 200 (NewSuccess 5 None ''All sessions logged out successfully'')
      (prepared ''r'' (demo_request (''Bearer '' @ demo_access))), demo_db)"
  by (rule logout_all_route_does_nothing) (simp_all add: demo_request_def arrived_def)

text \<open>
  Logging out with an access token ends no session. \<^verbatim>\<open>POST /auth/logout\<close> revokes the refresh
  token that equals the bearer token, which is the access token: the reply is 200, but no stored
  token and no account changes, so every refresh token stays usable.
\<close>

theorem logout_keeps_session:
  assumes "auth_service a uview tview up" "up s"
    "gc_ReqHeader c ''Authorization'' = ''Bearer '' @ access" "\<forall>t \<in> set (tview s). rt_Token t \<noteq> access"
  shows "\<exists>s1. ctl_Logout a now c s = Done (send_JSON 200 (NewSuccess now None ''Logged out successfully'') c, s1)
     \<and> up s1 \<and> tview s1 = tview s \<and> uview s1 = uview s"
proof -
  note r = auth_db.revoke_laws [OF auth_service.axioms(1) [OF assms(1)] assms(2), of now access]
  have "map (\<lambda>t. if rt_DeletedAt t = None \<and> rt_Token t = access then t\<lparr>rt_Revoked := True\<rparr> else t) (tview s) = tview s"
    using assms(4) by (intro map_idI) auto
  then have "tview (snd (auth_Logout a now access s)) = tview s" "up (snd (auth_Logout a now access s))"
    "uview (snd (auth_Logout a now access s)) = uview s"
    using r by (simp_all add: auth_Logout_def)
  then show ?thesis using assms(3) by (simp add: ctl_Logout_def)
qed

lemma demo_access_not_stored: "\<forall>t \<in> set (snd demo_db). rt_Token t \<noteq> demo_access"
proof -
  have "ValidateAccessToken mem_jwt demo_provider 0 demo_access = Inr (access_claims demo_provider 0 demo_user)"
    using mem_jwt.access_token_valid [OF demo_generated(2), of 0] by (simp add: NewNumericDate_def)
  moreover have "ValidateAccessToken mem_jwt demo_provider 0 (demo_tok ''1'') = Inr (anonymous_claims (refresh_claims demo_provider 0 ''1'' demo_user))"
    using mem_jwt.refresh_token_valid(2) [OF demo_generated(1), of 0] by (simp add: NewNumericDate_def)
  ultimately have "demo_tok ''1'' \<noteq> demo_access" by (auto simp: access_claims_def anonymous_claims_def)
  then show ?thesis by (simp add: demo_db_def)
qed

theorem logout_keeps_session_witness:
  "\<exists>s1. ctl_Logout demo_auth 5 (demo_request (''Bearer '' @ demo_access)) demo_db =
     Done (send_JSON 200 (NewSuccess 5 None ''Logged out successfully'') (demo_request (''Bearer '' @ demo_access)), s1)
     \<and> snd s1 = [demo_row 1 ''1'']"
  using logout_keeps_session [OF demo_service demo_db_up _ demo_access_not_stored, of "demo_request (''Bearer '' @ demo_access)" 5]
  by (auto simp: demo_request_def demo_db_def)

text \<open>
  C27. Nobody changes another account. Without a valid token every route below \<^verbatim>\<open>/users\<close> answers
  401 and leaves the database alone; with the token of a caller who is not an administrator every
  route leaves the rows of all other accounts and all refresh tokens as they are.
\<close>

theorem users_change_own_row_only:
  assumes "auth_service a uview tview up" "up s" "\<forall>cl. caller (as_jwt a) (as_jwtProvider a) now c = Some cl \<longrightarrow> uc_Role cl \<noteq> RoleAdmin"
  shows "\<exists>c1 s1. user_RegisterRoutes (as_jwt a) (as_jwtProvider a) (user_service_of a) now salt rt c s = Done (c1, s1)
     \<and> (case caller (as_jwt a) (as_jwtProvider a) now c of
           None \<Rightarrow> s1 = s \<and> gc_Aborted c1
         | Some cl \<Rightarrow> tview s1 = tview s \<and> elsewhere (uc_UserID cl) (uview s1) = elsewhere (uc_UserID cl) (uview s))"
proof (cases "caller (as_jwt a) (as_jwtProvider a) now c")
  case None
  then show ?thesis by (simp add: user_RegisterRoutes_def Authenticate_caller refuse_def Abort_def)
next
  case (Some cl)
  let ?us = "user_service_of a" and ?c = "SetCurrentClaims cl c" and ?i = "uc_UserID cl"
  have id: "GetCurrentUserID ?c = ?i" by (simp add: GetCurrentUserID_def)
  have role: "uc_Role cl \<noteq> RoleAdmin" using assms(3) Some by blast
  note q = auth_service.quiet_user_ops [OF assms(1)]
  note qb = auth_service.quiet_dao [OF assms(1)]
  have reads: "uview (snd (user_GetByID ?us now j s)) = uview s \<and> tview (snd (user_GetByID ?us now j s)) = tview s" for j
    using auth_service.GetByID_frame [OF assms(1, 2), of now j]
    by (simp add: user_GetByID_def user_service_of_def and_then_Inr respond_def split: option.splits)
  have byname: "uview (snd (user_GetByUsername ?us now x s)) = uview s \<and> tview (snd (user_GetByUsername ?us now x s)) = tview s" for x
    using sql_table.first_by_laws [OF auth_db.axioms(1) [OF auth_service.axioms(1) [OF assms(1)]] assms(2), of now]
      auth_db.frames(1) [OF auth_service.axioms(1) [OF assms(1)] assms(2)]
    by (simp add: user_GetByUsername_def user_service_of_def GetByUsername_def FindByUsername_def and_then_Inr
        respond_def split: option.splits)
  have own: "elsewhere ?i (uview (snd (user_Update ?us now ?i ureq s))) = elsewhere ?i (uview s)"
    "tview (snd (user_Update ?us now ?i ureq s)) = tview s"
    "elsewhere ?i (uview (snd (user_ChangePassword ?us now salt ?i creq s))) = elsewhere ?i (uview s)"
    "tview (snd (user_ChangePassword ?us now salt ?i creq s)) = tview s" for ureq creq
    using auth_service.update_own_row [OF assms(1), of ?i now ureq]
      auth_service.change_password_own_row [OF assms(1), of ?i now salt creq] q(1) [of now ?i ureq]
      q(2) [of now salt ?i creq] assms(2) by (auto simp: own_row_def quiet_def)
  show ?thesis
    using Some id role reads byname own
    by (cases rt) (auto simp: user_RegisterRoutes_def Authenticate_caller user_handler_def RequireAdmin_def RequireRole_def
        ctl_GetCurrentUser_def ctl_UpdateCurrentUser_def ctl_ChangePassword_def ctl_GetByID_def ctl_GetByUsername_def
        bad_request_def unauthenticated_def reply_with_eq Let_def split: option.splits sum.splits)
qed

lemma demo_caller:
  "caller (as_jwt demo_auth) (as_jwtProvider demo_auth) 0 (demo_request (''Bearer '' @ demo_access)) =
     Some (access_claims demo_provider 0 demo_user)"
proof -
  have "ValidateAccessToken mem_jwt demo_provider 0 demo_access = Inr (access_claims demo_provider 0 demo_user)"
    using mem_jwt.access_token_valid [OF demo_generated(2), of 0] by (simp add: NewNumericDate_def)
  then show ?thesis using bearer_token [of demo_access] by (simp add: caller_def demo_request_def)
qed

theorem users_change_own_row_only_witness:
  "\<exists>c1 s1. user_RegisterRoutes mem_jwt demo_provider (user_service_of demo_auth) 0 0 RouteDelete
       (demo_request (''Bearer '' @ demo_access)) demo_db = Done (c1, s1)
     \<and> snd s1 = snd demo_db \<and> elsewhere 1 (fst s1) = elsewhere 1 (fst demo_db)"
proof -
  have "\<forall>cl. caller (as_jwt demo_auth) (as_jwtProvider demo_auth) 0 (demo_request (''Bearer '' @ demo_access)) = Some cl
      \<longrightarrow> uc_Role cl \<noteq> RoleAdmin"
    unfolding demo_caller by (simp add: access_claims_def RoleAdmin_def)
  from users_change_own_row_only [OF demo_service demo_db_up this, of 0 RouteDelete] show ?thesis
    unfolding demo_caller by (auto simp: access_claims_def)
qed

end
