(* ===== verification/Plugin_Controller.thy ===== *)
theory Plugin_Controller
  imports Plugin_Properties Account_Controller
begin

text \<open>
  The HTTP controller of plugins, \<^verbatim>\<open>internal/controller/http/plugin_controller.go\<close>. The uploaded file (\<open>None\<close> if
  the form has none) and the form fields are arguments. The two probes answer with a body of
  their own instead of the response envelope.
\<close>

definition msgPluginKeyRequired :: string where "msgPluginKeyRequired = ''plugin key is required''"
definition msgPluginNotFound :: string where "msgPluginNotFound = ''plugin not found''"

datatype 'c plugin_data =
    DPlugin PluginResponse | DPluginDetail "'c PluginDetailResponse" | DPlugins "PluginResponse PagedResponse option"
  | DHealth PluginHealthResponse

type_synonym ('s, 'c) plugin_handler = "('c plugin_data, 's penv) handler"

definition pctl_List :: "('s, 'c) pluginService \<Rightarrow> time \<Rightarrow> ('s, 'c) plugin_handler" where
  "pctl_List ps now c =
     reply_with now (\<lambda>_. (500, ''failed to fetch plugins'')) 200 [] (Some \<circ> DPlugins)
       (ps_List ps now (query_int ''page'' ''1'' c) (query_int ''size'' ''10'' c)) c"

text \<open>A handler that needs the key of the path.\<close>

definition with_key :: "time \<Rightarrow> (string \<Rightarrow> ('s, 'c) plugin_handler) \<Rightarrow> ('s, 'c) plugin_handler" where
  "with_key now h c s =
     (let key = gc_Param c ''key''
      in if key = [] then Done (send_JSON 400 (NewError now msgPluginKeyRequired) c, s) else h key c s)"

definition get_plugin_errors :: "svc_error \<Rightarrow> int \<times> string" where
  "get_plugin_errors e = (if e = ErrPluginNotFound then (404, msgPluginNotFound) else (500, ''failed to fetch plugin''))"

definition pctl_GetByKey :: "('s, 'c) pluginService \<Rightarrow> time \<Rightarrow> ('s, 'c) plugin_handler" where
  "pctl_GetByKey ps now =
     with_key now (\<lambda>key. reply_with now get_plugin_errors 200 [] (Some \<circ> DPluginDetail) (ps_GetByKey ps now key))"

definition install_errors :: "svc_error \<Rightarrow> int \<times> string" where
  "install_errors e = (if e = ErrPluginAlreadyExists then (409, ''plugin already exists'') else (500, ''failed to install plugin''))"

definition pctl_Install ::
  "('s, 'c) pluginService \<Rightarrow> time \<Rightarrow> string \<Rightarrow> io_faults \<Rightarrow> string option \<Rightarrow> (string \<Rightarrow> string) \<Rightarrow> ('s, 'c) plugin_handler" where
  "pctl_Install ps now uuid flt upload form c s =
     (case upload of
        None \<Rightarrow> Done (send_JSON 400 (NewError now ''plugin file is required'') c, s)
      | Some file \<Rightarrow>
          (let req = \<lparr>ip_Name = form ''name'', ip_Description = form ''description'', ip_Version = form ''version'',
                      ip_Author = form ''author'', ip_Type = form ''type'', ip_Config = None\<rparr>
           in if ip_Name req = [] \<or> ip_Version req = [] \<or> ip_Type req = []
              then Done (send_JSON 400 (NewError now ''name, version, and type are required'') c, s)
              else reply_with now install_errors 201 ''Plugin installed successfully'' (Some \<circ> DPlugin)
                     (plugin_Install ps now uuid flt req file) c s))"

definition enable_errors :: "svc_error \<Rightarrow> int \<times> string" where
  "enable_errors e = (if e = ErrPluginNotFound then (404, msgPluginNotFound)
     else if e = ErrPluginInvalidState then (400, ''plugin cannot be enabled in current state'')
     else (500, ''failed to enable plugin''))"

definition pctl_Enable :: "('s, 'c) pluginService \<Rightarrow> time \<Rightarrow> ('s, 'c) plugin_handler" where
  "pctl_Enable ps now =
     with_key now (\<lambda>key. reply_with now enable_errors 200 ''Plugin enabled successfully'' (Some \<circ> DPlugin) (ps_Enable ps now key))"

definition disable_errors :: "svc_error \<Rightarrow> int \<times> string" where
  "disable_errors e = (if e = ErrPluginNotFound then (404, msgPluginNotFound)
     else if e = ErrPluginInvalidState then (400, ''plugin cannot be disabled in current state'')
     else (500, ''failed to disable plugin''))"

definition pctl_Disable :: "('s, 'c) pluginService \<Rightarrow> time \<Rightarrow> ('s, 'c) plugin_handler" where
  "pctl_Disable ps now =
     with_key now (\<lambda>key. reply_with now disable_errors 200 ''Plugin disabled successfully'' (Some \<circ> DPlugin) (ps_Disable ps now key))"

definition uninstall_errors :: "svc_error \<Rightarrow> int \<times> string" where
  "uninstall_errors e = (if e = ErrPluginNotFound then (404, msgPluginNotFound) else (500, ''failed to uninstall plugin''))"

definition pctl_Uninstall :: "('s, 'c) pluginService \<Rightarrow> time \<Rightarrow> io_faults \<Rightarrow> ('s, 'c) plugin_handler" where
  "pctl_Uninstall ps now flt =
     with_key now (\<lambda>key. reply_with now uninstall_errors 200 ''Plugin uninstalled successfully'' (\<lambda>_. None)
       (ps_Uninstall ps now flt key))"

definition pctl_GetHealth :: "('s, 'c) pluginService \<Rightarrow> time \<Rightarrow> ('s, 'c) plugin_handler" where
  "pctl_GetHealth ps now =
     reply_with now (\<lambda>_. (500, ''failed to get health status'')) 200 [] (Some \<circ> DHealth) (ps_GetHealth ps now)"

definition GetReadiness :: "int \<times> (string \<times> string) list" where
  "GetReadiness = (200, [(''status'', ''ready'')])"

definition GetLiveness :: "int \<times> (string \<times> string) list" where
  "GetLiveness = (200, [(''status'', ''alive'')])"

datatype plugin_route =
    RoutePluginHealth | RoutePlugins | RoutePlugin | RouteInstall "string option" "string \<Rightarrow> string"
  | RouteEnable | RouteDisable | RouteUninstall

definition plugin_protected ::
  "('s, 'c) pluginService \<Rightarrow> time \<Rightarrow> string \<Rightarrow> io_faults \<Rightarrow> plugin_route \<Rightarrow> ('s, 'c) plugin_handler" where
  "plugin_protected ps now uuid flt rt =
     (case rt of
        RoutePlugin \<Rightarrow> pctl_GetByKey ps now
      | RouteInstall upload form \<Rightarrow> RequireAdmin now (pctl_Install ps now uuid flt upload form)
      | RouteEnable \<Rightarrow> RequireAdmin now (pctl_Enable ps now)
      | RouteDisable \<Rightarrow> RequireAdmin now (pctl_Disable ps now)
      | RouteUninstall \<Rightarrow> RequireAdmin now (pctl_Uninstall ps now flt)
      | _ \<Rightarrow> pctl_List ps now)"

definition plugin_RegisterRoutes ::
  "jwt_lib \<Rightarrow> JWTProvider \<Rightarrow> ('s, 'c) pluginService \<Rightarrow> time \<Rightarrow> string \<Rightarrow> io_faults \<Rightarrow> plugin_route \<Rightarrow> ('s, 'c) plugin_handler" where
  "plugin_RegisterRoutes jl p ps now uuid flt rt =
     (case rt of
        RoutePluginHealth \<Rightarrow> pctl_GetHealth ps now
      | _ \<Rightarrow> Authenticate jl p now (plugin_protected ps now uuid flt rt))"

end
