(* ===== verification/Redis_Queue.thy ===== *)
theory Redis_Queue
  imports Redis_Client
begin

text \<open>
  \<^verbatim>\<open>internal/jobs/queue/redis_queue.go\<close>: the job queue on top of Redis. A job is a document
  under its own key; its identifier travels through the lists of the four priorities, the
  sorted set of scheduled jobs and the dead letter list. Every operation takes the Redis
  client, the instant it runs at and the server state, and returns its result with the new
  server state.
\<close>

subsection \<open>Keys\<close>

definition keyPrefixJob :: string where "keyPrefixJob = ''arcana:jobs:job:''"
definition keyPrefixScheduled :: string where "keyPrefixScheduled = ''arcana:jobs:scheduled''"
definition keyPrefixUnique :: string where "keyPrefixUnique = ''arcana:jobs:unique:''"
definition keyPrefixDLQ :: string where "keyPrefixDLQ = ''arcana:jobs:dlq''"
definition keyPrefixStats :: string where "keyPrefixStats = ''arcana:jobs:stats''"

lemmas queue_key_defs = keyPrefixJob_def keyPrefixScheduled_def keyPrefixUnique_def keyPrefixDLQ_def
  keyPrefixStats_def

lemma queue_key_types [simp, redis_keys]:
  "key_type (keyPrefixJob @ i) = TStr" "key_type (keyPrefixUnique @ i) = TStr"
  "key_type keyPrefixScheduled = TZset" "key_type keyPrefixDLQ = TList" "key_type keyPrefixStats = THash"
  "key_type (QueueName p) = TList"
  by (simp_all add: key_type_def queue_key_defs QueueName_def)

lemma queue_keys_distinct [simp, redis_keys]:
  "keyPrefixJob @ i = keyPrefixJob @ j \<longleftrightarrow> i = j"
  "keyPrefixUnique @ i = keyPrefixUnique @ j \<longleftrightarrow> i = j"
  "keyPrefixJob @ i \<noteq> keyPrefixUnique @ j" "keyPrefixUnique @ j \<noteq> keyPrefixJob @ i"
  "QueueName p \<noteq> keyPrefixDLQ" "keyPrefixDLQ \<noteq> QueueName p"
  by (simp_all add: queue_key_defs QueueName_def)

subsection \<open>Operations\<close>

definition checkDuplicate :: "'s redis \<Rightarrow> time \<Rightarrow> string \<Rightarrow> 's \<Rightarrow> job_error option \<times> 's" where
  "checkDuplicate redis now uniqueKey s =
     (case redis now (EXISTS (keyPrefixUnique @ uniqueKey)) s of
        (RInt exists, s1) \<Rightarrow> (if exists > 0 then Some ErrDuplicateJob else None, s1)
      | (_, s1) \<Rightarrow> (Some (Errorf ''failed to check unique key''), s1))"

definition scheduleOrEnqueue :: "'s redis \<Rightarrow> time \<Rightarrow> JobPayload \<Rightarrow> 's \<Rightarrow> job_error option \<times> 's" where
  "scheduleOrEnqueue redis now job s =
     (case (case jp_ScheduledAt job of
              Some t \<Rightarrow> if t > now then redis now (ZADD keyPrefixScheduled (real_of_int (unix_seconds t)) (jp_ID job)) s
                        else redis now (LPUSH (QueueName (jp_Priority job)) (jp_ID job)) s
            | None \<Rightarrow> redis now (LPUSH (QueueName (jp_Priority job)) (jp_ID job)) s) of
        (r, s1) \<Rightarrow> (if r = RErr then Some ClientErr else None, s1))"

definition unique_ttl :: "time \<Rightarrow> JobPayload \<Rightarrow> duration" where
  "unique_ttl now job =
     (case jp_ScheduledAt job of None \<Rightarrow> day | Some t \<Rightarrow> (t - now) + day)"

definition setUniqueKey :: "'s redis \<Rightarrow> time \<Rightarrow> JobPayload \<Rightarrow> 's \<Rightarrow> job_error option \<times> 's" where
  "setUniqueKey redis now job s =
     (case redis now (SET (keyPrefixUnique @ jp_UniqueKey job) (Text (jp_ID job)) (unique_ttl now job)) s of
        (r, s1) \<Rightarrow> (if r = RErr then Some ClientErr else None, s1))"

text \<open>\<^verbatim>\<open>Enqueue\<close> after its duplicate check.\<close>

definition storeAndQueue :: "'s redis \<Rightarrow> time \<Rightarrow> JobPayload \<Rightarrow> 's \<Rightarrow> job_error option \<times> 's" where
  "storeAndQueue redis now job s =
     (case marshal_job job of
        None \<Rightarrow> (Some (Errorf ''failed to serialize job''), s)
      | Some data \<Rightarrow>
          (case redis now (SET (keyPrefixJob @ jp_ID job) (Doc data) day) s of
             (r1, s1) \<Rightarrow>
               if r1 = RErr then (Some (Errorf ''failed to store job''), s1)
               else (case scheduleOrEnqueue redis now job s1 of
                       (Some _, s2) \<Rightarrow> (Some (Errorf ''failed to queue job''), s2)
                     | (None, s2) \<Rightarrow>
                         (case (if jp_UniqueKey job \<noteq> [] then setUniqueKey redis now job s2 else (None, s2)) of
                            (Some _, s3) \<Rightarrow> (Some (Errorf ''failed to set unique key''), s3)
                          | (None, s3) \<Rightarrow>
                              (case redis now (HINCRBY keyPrefixStats ''enqueued_total'' 1) s3 of
                                 (_, s4) \<Rightarrow> (None, snd (redis now (HINCRBY keyPrefixStats ''pending'' 1) s4)))))))"

definition Enqueue :: "'s redis \<Rightarrow> time \<Rightarrow> JobPayload \<Rightarrow> 's \<Rightarrow> job_error option \<times> 's" where
  "Enqueue redis now job s =
     (case (if jp_UniqueKey job \<noteq> [] then checkDuplicate redis now (jp_UniqueKey job) s else (None, s)) of
        (Some err, s1) \<Rightarrow> (Some err, s1)
      | (None, s1) \<Rightarrow> storeAndQueue redis now job s1)"

definition GetJob :: "'s redis \<Rightarrow> time \<Rightarrow> string \<Rightarrow> 's \<Rightarrow> (job_error + JobPayload) \<times> 's" where
  "GetJob redis now jobID s =
     (case redis now (GET (keyPrefixJob @ jobID)) s of
        (RNil, s1) \<Rightarrow> (Inl ErrJobNotFound, s1)
      | (RBulk (Doc data), s1) \<Rightarrow>
          (case unmarshal_job data of
             None \<Rightarrow> (Inl (Errorf ''failed to deserialize job''), s1)
           | Some job \<Rightarrow> (Inr job, s1))
      | (RBulk (Text _), s1) \<Rightarrow> (Inl (Errorf ''failed to deserialize job''), s1)
      | (_, s1) \<Rightarrow> (Inl (Errorf ''failed to get job''), s1))"

definition UpdateJob :: "'s redis \<Rightarrow> time \<Rightarrow> JobPayload \<Rightarrow> 's \<Rightarrow> job_error option \<times> 's" where
  "UpdateJob redis now job s =
     (case marshal_job job of
        None \<Rightarrow> (Some (Errorf ''failed to serialize job''), s)
      | Some data \<Rightarrow>
          (case redis now (SET (keyPrefixJob @ jp_ID job) (Doc data) day) s of
             (r, s1) \<Rightarrow> (if r = RErr then Some (Errorf ''failed to update job'') else None, s1)))"

definition start_job :: "time \<Rightarrow> JobPayload \<Rightarrow> JobPayload" where
  "start_job now job =
     job\<lparr>jp_Status := JobStatusRunning, jp_StartedAt := Some now, jp_Attempts := jp_Attempts job + 1\<rparr>"

fun dequeue_loop :: "'s redis \<Rightarrow> time \<Rightarrow> Priority list \<Rightarrow> 's \<Rightarrow> (job_error + JobPayload) \<times> 's" where
  "dequeue_loop redis now [] s = (Inl ErrQueueEmpty, s)"
| "dequeue_loop redis now (priority # ps) s =
     (case redis now (RPOP (QueueName priority)) s of
        (RNil, s1) \<Rightarrow> dequeue_loop redis now ps s1
      | (RBulk (Text jobID), s1) \<Rightarrow>
          (case GetJob redis now jobID s1 of
             (Inl _, s2) \<Rightarrow> dequeue_loop redis now ps s2
           | (Inr job, s2) \<Rightarrow>
               (case UpdateJob redis now (start_job now job) s2 of
                  (Some _, s3) \<Rightarrow> (Inl (Errorf ''failed to update job status''), s3)
                | (None, s3) \<Rightarrow>
                    (Inr (start_job now job), snd (redis now (HINCRBY keyPrefixStats ''pending'' (- 1)) s3))))
      | (_, s1) \<Rightarrow> (Inl (Errorf ''failed to dequeue''), s1))"

definition default_priorities :: "Priority list" where
  "default_priorities = [PriorityCritical, PriorityHigh, PriorityNormal, PriorityLow]"

definition Dequeue :: "'s redis \<Rightarrow> time \<Rightarrow> Priority list \<Rightarrow> 's \<Rightarrow> (job_error + JobPayload) \<times> 's" where
  "Dequeue redis now priorities s =
     dequeue_loop redis now (if priorities = [] then default_priorities else priorities) s"

definition Complete :: "'s redis \<Rightarrow> time \<Rightarrow> string \<Rightarrow> 's \<Rightarrow> job_error option \<times> 's" where
  "Complete redis now jobID s =
     (case GetJob redis now jobID s of
        (Inl err, s1) \<Rightarrow> (Some err, s1)
      | (Inr job, s1) \<Rightarrow>
          (case UpdateJob redis now (job\<lparr>jp_Status := JobStatusCompleted, jp_CompletedAt := Some now\<rparr>) s1 of
             (Some err, s2) \<Rightarrow> (Some err, s2)
           | (None, s2) \<Rightarrow>
               (let s3 = (if jp_UniqueKey job \<noteq> [] then snd (redis now (DEL (keyPrefixUnique @ jp_UniqueKey job)) s2) else s2)
                in (None, snd (redis now (HINCRBY keyPrefixStats ''completed_total'' 1) s3)))))"

definition Fail :: "(real \<Rightarrow> int) \<Rightarrow> 's redis \<Rightarrow> time \<Rightarrow> string \<Rightarrow> string \<Rightarrow> 's \<Rightarrow> job_error option \<times> 's" where
  "Fail oor redis now jobID jobErr s =
     (case GetJob redis now jobID s of
        (Inl err, s1) \<Rightarrow> (Some err, s1)
      | (Inr job0, s1) \<Rightarrow>
          (let job = job0\<lparr>jp_LastError := jobErr\<rparr>
           in if jp_Attempts job < jp_MaxRetries job
              then let delay = CalculateDelay oor (jp_RetryPolicy job) (jp_Attempts job);
                       scheduledAt = now + delay;
                       job1 = job\<lparr>jp_Status := JobStatusRetrying, jp_ScheduledAt := Some scheduledAt\<rparr>
                   in (case UpdateJob redis now job1 s1 of
                         (Some err, s2) \<Rightarrow> (Some err, s2)
                       | (None, s2) \<Rightarrow>
                           (case redis now (ZADD keyPrefixScheduled (real_of_int (unix_seconds scheduledAt)) (jp_ID job1)) s2 of
                              (r, s3) \<Rightarrow>
                                if r = RErr then (Some (Errorf ''failed to schedule retry''), s3)
                                else let s4 = snd (redis now (HINCRBY keyPrefixStats ''retries_total'' 1) s3)
                                     in (None, snd (redis now (HINCRBY keyPrefixStats ''failed_total'' 1) s4))))
              else let job1 = job\<lparr>jp_Status := JobStatusDead\<rparr>
                   in (case UpdateJob redis now job1 s1 of
                         (Some err, s2) \<Rightarrow> (Some err, s2)
                       | (None, s2) \<Rightarrow>
                           (case redis now (LPUSH keyPrefixDLQ (jp_ID job1)) s2 of
                              (r, s3) \<Rightarrow>
                                if r = RErr then (Some (Errorf ''failed to move to DLQ''), s3)
                                else let s4 = (if jp_UniqueKey job1 \<noteq> []
                                               then snd (redis now (DEL (keyPrefixUnique @ jp_UniqueKey job1)) s3) else s3);
                                         s5 = snd (redis now (HINCRBY keyPrefixStats ''dead_total'' 1) s4)
                                     in (None, snd (redis now (HINCRBY keyPrefixStats ''failed_total'' 1) s5))))))"

fun process_loop :: "'s redis \<Rightarrow> time \<Rightarrow> string list \<Rightarrow> int \<Rightarrow> 's \<Rightarrow> int \<times> 's" where
  "process_loop redis now [] processed s = (processed, s)"
| "process_loop redis now (jobID # ids) processed s =
     (case GetJob redis now jobID s of
        (Inl _, s1) \<Rightarrow> process_loop redis now ids processed s1
      | (Inr job, s1) \<Rightarrow>
          (case redis now (ZREM keyPrefixScheduled jobID) s1 of
             (r, s2) \<Rightarrow>
               if r = RErr then process_loop redis now ids processed s2
               else let job1 = job\<lparr>jp_ScheduledAt := None, jp_Status := JobStatusPending\<rparr>
                    in (case UpdateJob redis now job1 s2 of
                          (Some _, s3) \<Rightarrow> process_loop redis now ids processed s3
                        | (None, s3) \<Rightarrow>
                            (case redis now (LPUSH (QueueName (jp_Priority job1)) (jp_ID job1)) s3 of
                               (r, s4) \<Rightarrow>
                                 if r = RErr then process_loop redis now ids processed s4
                                 else process_loop redis now ids (processed + 1) s4))))"

definition ProcessScheduled :: "'s redis \<Rightarrow> time \<Rightarrow> 's \<Rightarrow> (job_error + int) \<times> 's" where
  "ProcessScheduled redis now s =
     (case redis now (ZRANGEBYSCORE keyPrefixScheduled (real_of_int (unix_seconds now))) s of
        (RStrings jobIDs, s1) \<Rightarrow> (case process_loop redis now jobIDs 0 s1 of (n, s2) \<Rightarrow> (Inr n, s2))
      | (_, s1) \<Rightarrow> (Inl (Errorf ''failed to get scheduled jobs''), s1))"

fun collect_jobs :: "'s redis \<Rightarrow> time \<Rightarrow> string list \<Rightarrow> 's \<Rightarrow> JobPayload list \<times> 's" where
  "collect_jobs redis now [] s = ([], s)"
| "collect_jobs redis now (jobID # ids) s =
     (case GetJob redis now jobID s of
        (Inl _, s1) \<Rightarrow> collect_jobs redis now ids s1
      | (Inr job, s1) \<Rightarrow> (case collect_jobs redis now ids s1 of (js, s2) \<Rightarrow> (job # js, s2)))"

definition GetDLQJobs :: "'s redis \<Rightarrow> time \<Rightarrow> int \<Rightarrow> 's \<Rightarrow> (job_error + JobPayload list) \<times> 's" where
  "GetDLQJobs redis now limit s =
     (case redis now (LRANGE keyPrefixDLQ 0 (limit - 1)) s of
        (RStrings jobIDs, s1) \<Rightarrow> (case collect_jobs redis now jobIDs s1 of (js, s2) \<Rightarrow> (Inr js, s2))
      | (_, s1) \<Rightarrow> (Inl (Errorf ''failed to get DLQ jobs''), s1))"

definition RetryDLQJob :: "'s redis \<Rightarrow> time \<Rightarrow> string \<Rightarrow> string \<Rightarrow> 's \<Rightarrow> job_error option \<times> 's" where
  "RetryDLQJob redis now uuid jobID s =
     (case GetJob redis now jobID s of
        (Inl err, s1) \<Rightarrow> (Some err, s1)
      | (Inr job, s1) \<Rightarrow>
          (case redis now (LREM keyPrefixDLQ 1 jobID) s1 of
             (r, s2) \<Rightarrow>
               if r = RErr then (Some (Errorf ''failed to remove from DLQ''), s2)
               else Enqueue redis now (job\<lparr>jp_Status := JobStatusPending, jp_Attempts := 0,
                                          jp_LastError := [], jp_ID := uuid\<rparr>) s2))"

definition DeleteJob :: "'s redis \<Rightarrow> time \<Rightarrow> string \<Rightarrow> 's \<Rightarrow> job_error option \<times> 's" where
  "DeleteJob redis now jobID s =
     (case GetJob redis now jobID s of
        (Inl err, s1) \<Rightarrow> (Some err, s1)
      | (Inr job, s1) \<Rightarrow>
          (let s2 = snd (redis now (DEL (keyPrefixJob @ jobID)) s1);
               s3 = snd (redis now (LREM (QueueName (jp_Priority job)) 0 jobID) s2);
               s4 = snd (redis now (ZREM keyPrefixScheduled jobID) s3);
               s5 = snd (redis now (LREM keyPrefixDLQ 0 jobID) s4)
           in (None, if jp_UniqueKey job \<noteq> []
                     then snd (redis now (DEL (keyPrefixUnique @ jp_UniqueKey job)) s5) else s5)))"

definition RequeueJob :: "'s redis \<Rightarrow> time \<Rightarrow> string \<Rightarrow> string \<Rightarrow> 's \<Rightarrow> job_error option \<times> 's" where
  "RequeueJob redis now jobID queueKey s =
     (case redis now (LPUSH queueKey jobID) s of (r, s1) \<Rightarrow> (if r = RErr then Some ClientErr else None, s1))"

text \<open>\<^verbatim>\<open>fmt.Sscanf(v, "%d", &val)\<close> reads an optional sign and digits, and leaves 0 where there
  are none; a length that cannot be read is 0 as well.\<close>

definition is_digit :: "char \<Rightarrow> bool" where
  "is_digit c \<longleftrightarrow> 48 \<le> (of_char c :: nat) \<and> (of_char c :: nat) \<le> 57"

definition scan_digits :: "string \<Rightarrow> int" where
  "scan_digits v =
     (let ds = takeWhile is_digit v in if ds = [] then 0 else (case digits_val 0 ds of None \<Rightarrow> 0 | Some n \<Rightarrow> n))"

definition scan_d :: "string \<Rightarrow> int" where
  "scan_d v = (case v of [] \<Rightarrow> 0
     | c # cs \<Rightarrow> if c = CHR ''-'' then - scan_digits cs else if c = CHR ''+'' then scan_digits cs else scan_digits v)"

definition int_reply :: "reply \<Rightarrow> int" where
  "int_reply r = (case r of RInt n \<Rightarrow> n | _ \<Rightarrow> 0)"

fun queue_sizes :: "'s redis \<Rightarrow> time \<Rightarrow> Priority list \<Rightarrow> (string \<rightharpoonup> int) \<Rightarrow> 's \<Rightarrow> (string \<rightharpoonup> int) \<times> 's" where
  "queue_sizes redis now [] result s = (result, s)"
| "queue_sizes redis now (p # ps) result s =
     (case redis now (LLEN (QueueName p)) s of
        (r, s1) \<Rightarrow> queue_sizes redis now ps (result(''queue_'' @ Priority_String p \<mapsto> int_reply r)) s1)"

definition GetStats :: "'s redis \<Rightarrow> time \<Rightarrow> 's \<Rightarrow> (job_error + (string \<rightharpoonup> int)) \<times> 's" where
  "GetStats redis now s =
     (case redis now (HGETALL keyPrefixStats) s of
        (RPairs stats, s1) \<Rightarrow>
          (case queue_sizes redis now default_priorities (\<lambda>k. map_option scan_d (map_of stats k)) s1 of
             (result, s2) \<Rightarrow>
               (case redis now (ZCARD keyPrefixScheduled) s2 of
                  (r1, s3) \<Rightarrow>
                    (case redis now (LLEN keyPrefixDLQ) s3 of
                       (r2, s4) \<Rightarrow>
                         (Inr (result(''scheduled'' \<mapsto> int_reply r1, ''dlq'' \<mapsto> int_reply r2)), s4))))
      | (_, s1) \<Rightarrow> (Inl (Errorf ''failed to get stats''), s1))"

lemma scan_digits_nat: "scan_digits (nat_digits n) = int n"
proof -
  have tw: "takeWhile is_digit (nat_digits n) = nat_digits n"
    using nat_digits_range [of _ n] by (simp add: takeWhile_eq_all_conv is_digit_def)
  show ?thesis unfolding scan_digits_def tw using nat_digits_hd [of n] digits_val_nat [of n] by simp
qed

lemma scan_d_itoa [simp]: "scan_d (itoa n) = n"
proof (cases "n < 0")
  case True
  then show ?thesis by (simp add: scan_d_def itoa_def scan_digits_nat)
next
  case False
  obtain c cs where c: "nat_digits (nat n) = c # cs" "c \<noteq> CHR ''-''"
    using nat_digits_hd [of "nat n"] by (cases "nat_digits (nat n)") auto
  have "48 \<le> (of_char c :: nat)" using nat_digits_range [of c "nat n"] c(1) by simp
  then have "c \<noteq> CHR ''+''" by auto
  then show ?thesis using False c scan_digits_nat [of "nat n"] by (simp add: scan_d_def itoa_def)
qed

subsection \<open>What the operations do to the store\<close>

text \<open>The abstract effect of each operation on the view of the store.\<close>

definition stored :: "time \<Rightarrow> redis_view \<Rightarrow> string \<Rightarrow> JobPayload option" where
  "stored now v i =
     (case look v now (keyPrefixJob @ i) of Some (Doc d) \<Rightarrow> unmarshal_job d | _ \<Rightarrow> None)"

definition put_job :: "time \<Rightarrow> JobPayload \<Rightarrow> redis_view \<Rightarrow> redis_view" where
  "put_job now j v =
     v\<lparr>rv_str := (rv_str v)(keyPrefixJob @ jp_ID j \<mapsto> (Doc (job_doc j), Some (now + day)))\<rparr>"

definition push_list :: "string \<Rightarrow> string \<Rightarrow> redis_view \<Rightarrow> redis_view" where
  "push_list k i v = v\<lparr>rv_list := (rv_list v)(k := i # rv_list v k)\<rparr>"

definition schedule :: "time \<Rightarrow> string \<Rightarrow> redis_view \<Rightarrow> redis_view" where
  "schedule t i v = v\<lparr>rv_zset := (rv_zset v)(keyPrefixScheduled :=
     (rv_zset v keyPrefixScheduled)(i \<mapsto> real_of_int (unix_seconds t)))\<rparr>"

definition unschedule :: "string \<Rightarrow> redis_view \<Rightarrow> redis_view" where
  "unschedule i v = v\<lparr>rv_zset := (rv_zset v)(keyPrefixScheduled := (rv_zset v keyPrefixScheduled)(i := None))\<rparr>"

definition bump :: "string \<Rightarrow> int \<Rightarrow> redis_view \<Rightarrow> redis_view" where
  "bump f n v = v\<lparr>rv_hash := (rv_hash v)(keyPrefixStats := hash_incr (rv_hash v keyPrefixStats) f n)\<rparr>"

definition drop_unique :: "JobPayload \<Rightarrow> redis_view \<Rightarrow> redis_view" where
  "drop_unique j v = (if jp_UniqueKey j = [] then v
     else v\<lparr>rv_str := (rv_str v)(keyPrefixUnique @ jp_UniqueKey j := None)\<rparr>)"

definition hold_unique :: "time \<Rightarrow> JobPayload \<Rightarrow> redis_view \<Rightarrow> redis_view" where
  "hold_unique now j v = (if jp_UniqueKey j = [] then v
     else v\<lparr>rv_str := (rv_str v)(keyPrefixUnique @ jp_UniqueKey j \<mapsto> (Text (jp_ID j), expiry now (unique_ttl now j)))\<rparr>)"

definition due_later :: "time \<Rightarrow> JobPayload \<Rightarrow> bool" where
  "due_later now j = (case jp_ScheduledAt j of None \<Rightarrow> False | Some t \<Rightarrow> t > now)"

definition place :: "time \<Rightarrow> JobPayload \<Rightarrow> redis_view \<Rightarrow> redis_view" where
  "place now j v = (if due_later now j then schedule (the (jp_ScheduledAt j)) (jp_ID j) v
     else push_list (QueueName (jp_Priority j)) (jp_ID j) v)"

definition enqueue_view :: "time \<Rightarrow> JobPayload \<Rightarrow> redis_view \<Rightarrow> redis_view" where
  "enqueue_view now j v =
     bump ''pending'' 1 (bump ''enqueued_total'' 1 (hold_unique now j (place now j (put_job now j v))))"

lemmas view_defs = put_job_def push_list_def schedule_def unschedule_def bump_def drop_unique_def
  hold_unique_def place_def

context redis_client
begin

lemma GetJob_frame: "up s \<Longrightarrow> view (snd (GetJob redis now i s)) = view s \<and> up (snd (GetJob redis now i s))"
  by (auto simp: GetJob_def case_prod_unfold laws split: reply.splits blob.splits option.splits)

lemma GetJob_stored: "up s \<Longrightarrow> stored now (view s) i = Some j \<Longrightarrow> fst (GetJob redis now i s) = Inr j"
  by (auto simp: GetJob_def stored_def case_prod_unfold laws split: blob.splits option.splits)

lemma GetJob_missing: "up s \<Longrightarrow> stored now (view s) i = None \<Longrightarrow> \<exists>e. fst (GetJob redis now i s) = Inl e"
  by (auto simp: GetJob_def stored_def case_prod_unfold laws split: blob.splits option.splits)

lemma UpdateJob_ok:
  "up s \<Longrightarrow> times_ok j \<Longrightarrow> fst (UpdateJob redis now j s) = None
     \<and> view (snd (UpdateJob redis now j s)) = put_job now j (view s) \<and> up (snd (UpdateJob redis now j s))"
  by (simp add: UpdateJob_def case_prod_unfold laws marshal_job_def put_job_def expiry_def px_def)

lemma UpdateJob_fails:
  "\<not> times_ok j \<Longrightarrow> UpdateJob redis now j s = (Some (Errorf ''failed to serialize job''), s)"
  by (simp add: UpdateJob_def marshal_job_def)

lemma scheduleOrEnqueue_ok:
  "up s \<Longrightarrow> fst (scheduleOrEnqueue redis now j s) = None
     \<and> view (snd (scheduleOrEnqueue redis now j s)) = place now j (view s) \<and> up (snd (scheduleOrEnqueue redis now j s))"
  by (auto simp: scheduleOrEnqueue_def case_prod_unfold laws place_def due_later_def schedule_def push_list_def
      split: option.splits)

lemma setUniqueKey_ok:
  "up s \<Longrightarrow> unique_ttl now j \<noteq> - 1 \<Longrightarrow> jp_UniqueKey j \<noteq> [] \<Longrightarrow> fst (setUniqueKey redis now j s) = None
     \<and> view (snd (setUniqueKey redis now j s)) = hold_unique now j (view s) \<and> up (snd (setUniqueKey redis now j s))"
  by (simp add: setUniqueKey_def case_prod_unfold laws hold_unique_def)

lemma checkDuplicate_spec:
  "up s \<Longrightarrow> fst (checkDuplicate redis now u s) =
       (if look (view s) now (keyPrefixUnique @ u) = None then None else Some ErrDuplicateJob)
     \<and> view (snd (checkDuplicate redis now u s)) = view s \<and> up (snd (checkDuplicate redis now u s))"
  by (simp add: checkDuplicate_def case_prod_unfold laws)

lemma bump_law: "up s \<Longrightarrow> view (snd (redis now (HINCRBY keyPrefixStats f n) s)) = bump f n (view s)"
  by (simp add: bump_def laws)

lemma storeAndQueue_ok:
  assumes "up s" "times_ok j" "jp_UniqueKey j = [] \<or> unique_ttl now j \<noteq> - 1"
  shows "fst (storeAndQueue redis now j s) = None
     \<and> view (snd (storeAndQueue redis now j s)) = enqueue_view now j (view s)
     \<and> up (snd (storeAndQueue redis now j s))"
proof -
  let ?s1 = "snd (redis now (SET (keyPrefixJob @ jp_ID j) (Doc (job_doc j)) day) s)"
  let ?s2 = "snd (scheduleOrEnqueue redis now j ?s1)"
  let ?s3 = "snd (if jp_UniqueKey j \<noteq> [] then setUniqueKey redis now j ?s2 else (None, ?s2))"
  have 1: "fst (redis now (SET (keyPrefixJob @ jp_ID j) (Doc (job_doc j)) day) s) = ROk"
    "view ?s1 = put_job now j (view s)" "up ?s1"
    using assms(1) by (simp_all add: laws put_job_def expiry_def px_def)
  have 2: "fst (scheduleOrEnqueue redis now j ?s1) = None" "view ?s2 = place now j (put_job now j (view s))" "up ?s2"
    using scheduleOrEnqueue_ok [OF 1(3), of now j] 1(2) by simp_all
  have 3: "fst (if jp_UniqueKey j \<noteq> [] then setUniqueKey redis now j ?s2 else (None, ?s2)) = None"
    "view ?s3 = hold_unique now j (place now j (put_job now j (view s)))" "up ?s3"
    using setUniqueKey_ok [OF 2(3), of now j] 2 assms(3) by (auto simp: hold_unique_def)
  have "storeAndQueue redis now j s = (None, snd (redis now (HINCRBY keyPrefixStats ''pending'' 1)
      (snd (redis now (HINCRBY keyPrefixStats ''enqueued_total'' 1) ?s3))))"
    using assms(2) 1(1) 2(1) 3(1)
    by (cases "jp_UniqueKey j = []") (simp_all add: storeAndQueue_def marshal_job_def case_prod_unfold)
  then show ?thesis using 3(2,3) by (simp add: bump_law stays_up enqueue_view_def)
qed

lemma Enqueue_fresh:
  assumes "up s" "times_ok j" "jp_UniqueKey j = [] \<or> unique_ttl now j \<noteq> - 1"
    and "jp_UniqueKey j = [] \<or> look (view s) now (keyPrefixUnique @ jp_UniqueKey j) = None"
  shows "fst (Enqueue redis now j s) = None
     \<and> view (snd (Enqueue redis now j s)) = enqueue_view now j (view s) \<and> up (snd (Enqueue redis now j s))"
proof (cases "jp_UniqueKey j = []")
  case True
  then show ?thesis using storeAndQueue_ok [OF assms(1-3)] by (simp add: Enqueue_def)
next
  case False
  let ?s1 = "snd (checkDuplicate redis now (jp_UniqueKey j) s)"
  have "fst (checkDuplicate redis now (jp_UniqueKey j) s) = None" "view ?s1 = view s" "up ?s1"
    using checkDuplicate_spec [OF assms(1)] assms(4) False by auto
  then show ?thesis using storeAndQueue_ok [of ?s1 j now] assms(2,3) False
    by (simp add: Enqueue_def case_prod_unfold)
qed

lemma Enqueue_duplicate:
  assumes "up s" "jp_UniqueKey j \<noteq> []" "look (view s) now (keyPrefixUnique @ jp_UniqueKey j) \<noteq> None"
  shows "fst (Enqueue redis now j s) = Some ErrDuplicateJob \<and> view (snd (Enqueue redis now j s)) = view s
     \<and> up (snd (Enqueue redis now j s))"
  using checkDuplicate_spec [OF assms(1), of now "jp_UniqueKey j"] assms(2,3)
  by (auto simp: Enqueue_def case_prod_unfold)

end

subsection \<open>The queue as a priority queue\<close>

text \<open>
  The contract of the queue for jobs that are due: it holds a list of jobs in the order they
  arrived, and serves the oldest one of the highest priority. \<open>rep T js s\<close> says that the
  state \<open>s\<close> holds the jobs \<open>js\<close> and keeps their records until the instant \<open>T\<close>.
\<close>

definition known_priority :: "JobPayload \<Rightarrow> bool" where
  "known_priority j \<longleftrightarrow> jp_Priority j \<in> set default_priorities"

definition by_priority :: "Priority \<Rightarrow> JobPayload list \<Rightarrow> JobPayload list" where
  "by_priority p js = filter (\<lambda>j. jp_Priority j = p) js"

definition service_order :: "JobPayload list \<Rightarrow> JobPayload list" where
  "service_order js = by_priority PriorityCritical js @ by_priority PriorityHigh js
     @ by_priority PriorityNormal js @ by_priority PriorityLow js"

lemma service_order_queues: "service_order js = concat (map (\<lambda>p. by_priority p js) default_priorities)"
  by (simp add: service_order_def default_priorities_def)

text \<open>Enqueue a list of jobs, and take a number of jobs.\<close>

fun enq_all :: "(time \<Rightarrow> JobPayload \<Rightarrow> 's \<Rightarrow> job_error option \<times> 's) \<Rightarrow> time \<Rightarrow> JobPayload list \<Rightarrow> 's \<Rightarrow> 's" where
  "enq_all enq now [] s = s"
| "enq_all enq now (j # js) s = enq_all enq now js (snd (enq now j s))"

fun deq_many :: "(time \<Rightarrow> 's \<Rightarrow> (job_error + JobPayload) \<times> 's) \<Rightarrow> time \<Rightarrow> nat \<Rightarrow> 's \<Rightarrow> (job_error + JobPayload) list" where
  "deq_many deq now 0 s = []"
| "deq_many deq now (Suc n) s = fst (deq now s) # deq_many deq now n (snd (deq now s))"

locale priority_queue =
  fixes enq :: "time \<Rightarrow> JobPayload \<Rightarrow> 's \<Rightarrow> job_error option \<times> 's"
    and deq :: "time \<Rightarrow> 's \<Rightarrow> (job_error + JobPayload) \<times> 's"
    and rep :: "time \<Rightarrow> JobPayload list \<Rightarrow> 's \<Rightarrow> bool"
  assumes enq_rep: "rep T js s \<Longrightarrow> T \<le> now + day \<Longrightarrow> times_ok j \<Longrightarrow> known_priority j \<Longrightarrow> jp_UniqueKey j = []
      \<Longrightarrow> \<not> due_later now j \<Longrightarrow> jp_ID j \<notin> jp_ID ` set js
      \<Longrightarrow> fst (enq now j s) = None \<and> rep T (js @ [j]) (snd (enq now j s))"
    and deq_empty: "rep T [] s \<Longrightarrow> fst (deq now s) = Inl ErrQueueEmpty \<and> rep T [] (snd (deq now s))"
    and deq_rep: "rep T js s \<Longrightarrow> js \<noteq> [] \<Longrightarrow> now < T \<Longrightarrow> time_ok now
      \<Longrightarrow> fst (deq now s) = Inr (start_job now (hd (service_order js)))
        \<and> rep T (remove1 (hd (service_order js)) js) (snd (deq now s))"
    and rep_known: "rep T js s \<Longrightarrow> list_all known_priority js"
begin

lemma enq_all_rep:
  assumes "rep T js0 s" "T \<le> now + day" "distinct (map jp_ID (js0 @ js))"
    and "list_all (\<lambda>j. times_ok j \<and> known_priority j \<and> jp_UniqueKey j = [] \<and> \<not> due_later now j) js"
  shows "rep T (js0 @ js) (enq_all enq now js s)"
  using assms(1,3,4)
proof (induction js arbitrary: js0 s)
  case Nil
  then show ?case by simp
next
  case (Cons j js)
  have "rep T (js0 @ [j]) (snd (enq now j s))"
    using enq_rep [OF Cons.prems(1) assms(2), of j] Cons.prems(2,3) by auto
  then show ?case using Cons.IH [of "js0 @ [j]"] Cons.prems(2,3) by simp
qed

end

lemma service_order_Nil: "list_all known_priority js \<Longrightarrow> service_order js = [] \<longleftrightarrow> js = []"
  by (cases js) (auto simp: service_order_queues by_priority_def known_priority_def list_all_iff)

lemma mset_by_priority:
  "list_all known_priority js \<Longrightarrow> mset (service_order js) = mset js"
  by (induction js)
    (auto simp: service_order_queues by_priority_def known_priority_def default_priorities_def priority_defs)

lemma by_priority_remove1:
  "by_priority p (remove1 j js) = (if jp_Priority j = p then remove1 j (by_priority p js) else by_priority p js)"
  by (induction js) (auto simp: by_priority_def)

lemma concat_remove_first:
  assumes "concat (map f ps) = x # xs" "distinct ps" "\<And>q. q \<in> set ps \<Longrightarrow> q \<noteq> p \<Longrightarrow> x \<notin> set (f q)"
  shows "concat (map (\<lambda>q. if q = p then remove1 x (f q) else f q) ps) = xs"
  using assms
proof (induction ps)
  case Nil
  then show ?case by simp
next
  case (Cons r ps)
  show ?case
  proof (cases "f r = []")
    case True
    then show ?thesis using Cons by auto
  next
    case False
    then obtain ys where r: "f r = x # ys" using Cons.prems(1) by (cases "f r") auto
    then have rp: "r = p" using Cons.prems(3) [of r] by auto
    have "concat (map (\<lambda>q. if q = p then remove1 x (f q) else f q) ps) = concat (map f ps)"
      using Cons.prems(2) rp by (intro arg_cong [where f = concat] map_cong) auto
    then show ?thesis using r rp Cons.prems(1) by simp
  qed
qed

lemma hd_service_order:
  assumes "list_all known_priority js" "js \<noteq> []"
  shows "hd (service_order js) \<in> set js"
proof -
  have "hd (service_order js) \<in> set (service_order js)"
    using service_order_Nil [OF assms(1)] assms(2) by simp
  then show ?thesis by (auto simp: service_order_queues by_priority_def)
qed

lemma service_order_next:
  assumes "list_all known_priority js" "js \<noteq> []"
  shows "service_order (remove1 (hd (service_order js)) js) = tl (service_order js)"
proof -
  let ?x = "hd (service_order js)" and ?p = "jp_Priority (hd (service_order js))"
  have c: "concat (map (\<lambda>p. by_priority p js) default_priorities) = ?x # tl (service_order js)"
    using service_order_Nil [OF assms(1)] assms(2) by (simp add: service_order_queues)
  have "concat (map (\<lambda>q. if q = ?p then remove1 ?x (by_priority q js) else by_priority q js) default_priorities)
      = tl (service_order js)"
    by (rule concat_remove_first [OF c]) (auto simp: default_priorities_def priority_defs by_priority_def)
  moreover have "by_priority q (remove1 ?x js) = (if q = ?p then remove1 ?x (by_priority q js) else by_priority q js)" for q
    by (auto simp: by_priority_remove1)
  ultimately show ?thesis by (simp only: service_order_queues)
qed

context priority_queue
begin

lemma deq_many_order:
  assumes "rep T js s" "now < T" "time_ok now"
  shows "deq_many deq now (Suc (length js)) s = map (\<lambda>j. Inr (start_job now j)) (service_order js) @ [Inl ErrQueueEmpty]"
  using assms(1)
proof (induction "length js" arbitrary: js s)
  case 0
  then show ?case using deq_empty [of T s now] by (simp add: service_order_queues by_priority_def)
next
  case (Suc n)
  let ?x = "hd (service_order js)"
  have ne: "js \<noteq> []" using Suc.hyps(2) by auto
  have known: "list_all known_priority js" by (rule rep_known [OF Suc.prems])
  have d: "fst (deq now s) = Inr (start_job now ?x)" "rep T (remove1 ?x js) (snd (deq now s))"
    using deq_rep [OF Suc.prems ne assms(2,3)] by simp_all
  have len: "n = length (remove1 ?x js)"
    using Suc.hyps(2) hd_service_order [OF known ne] by (simp add: length_remove1)
  have "deq_many deq now (Suc n) (snd (deq now s))
      = map (\<lambda>j. Inr (start_job now j)) (service_order (remove1 ?x js)) @ [Inl ErrQueueEmpty]"
    using Suc.hyps(1) [OF len d(2)] len by simp
  moreover have "service_order js = ?x # tl (service_order js)"
    using service_order_Nil [OF known] ne by simp
  then have "map (\<lambda>j. Inr (start_job now j) :: job_error + JobPayload) (service_order js)
      = Inr (start_job now ?x) # map (\<lambda>j. Inr (start_job now j)) (tl (service_order js))"
    by (metis list.simps(9))
  ultimately show ?case
    unfolding Suc.hyps(2) [symmetric] deq_many.simps(2) [of deq now "Suc n"]
    by (simp only: d(1) service_order_next [OF known ne] append_Cons)
qed

lemma fifo_by_priority:
  assumes "rep T [] s" "T \<le> now + day" "now' < T" "time_ok now'" "distinct (map jp_ID js)"
    and "list_all (\<lambda>j. times_ok j \<and> known_priority j \<and> jp_UniqueKey j = [] \<and> \<not> due_later now j) js"
  shows "deq_many deq now' (Suc (length js)) (enq_all enq now js s)
    = map (\<lambda>j. Inr (start_job now' j)) (service_order js) @ [Inl ErrQueueEmpty]"
  using deq_many_order [OF _ assms(3,4)] enq_all_rep [OF assms(1,2), of js] assms(5,6) by simp

end

subsection \<open>The Redis queue is a priority queue\<close>

definition pop_list :: "string \<Rightarrow> redis_view \<Rightarrow> redis_view" where
  "pop_list k v = v\<lparr>rv_list := (rv_list v)(k := butlast (rv_list v k))\<rparr>"

lemma view_lists [simp]:
  "rv_list (put_job now j v) = rv_list v" "rv_list (bump f n v) = rv_list v"
  "rv_list (push_list k i v) = (rv_list v)(k := i # rv_list v k)"
  "rv_list (pop_list k v) = (rv_list v)(k := butlast (rv_list v k))"
  "rv_list (schedule t i v) = rv_list v" "rv_list (unschedule i v) = rv_list v"
  "rv_list (hold_unique now j v) = rv_list v" "rv_list (drop_unique j v) = rv_list v"
  by (simp_all add: view_defs pop_list_def)

lemma view_zsets [simp]:
  "rv_zset (put_job now j v) = rv_zset v" "rv_zset (bump f n v) = rv_zset v"
  "rv_zset (push_list k i v) = rv_zset v" "rv_zset (pop_list k v) = rv_zset v"
  "rv_zset (hold_unique now j v) = rv_zset v" "rv_zset (drop_unique j v) = rv_zset v"
  by (simp_all add: view_defs pop_list_def)

lemma view_looks [simp]:
  "look (bump f n v) t k = look v t k" "look (push_list q i v) t k = look v t k"
  "look (pop_list q v) t k = look v t k" "look (schedule u i v) t k = look v t k"
  "look (unschedule i v) t k = look v t k"
  by (simp_all add: view_defs pop_list_def look_def)

lemma look_put_job [simp]:
  "look (put_job now j v) t k =
     (if k = keyPrefixJob @ jp_ID j then (if t < now + day then Some (Doc (job_doc j)) else None) else look v t k)"
  by (simp add: put_job_def look_def live_def)

lemma look_unique [simp]:
  "look (hold_unique now j v) t k =
     (if jp_UniqueKey j \<noteq> [] \<and> k = keyPrefixUnique @ jp_UniqueKey j
      then (if live t (expiry now (unique_ttl now j)) then Some (Text (jp_ID j)) else None) else look v t k)"
  "look (drop_unique j v) t k =
     (if jp_UniqueKey j \<noteq> [] \<and> k = keyPrefixUnique @ jp_UniqueKey j then None else look v t k)"
  by (simp_all add: hold_unique_def drop_unique_def look_def)

lemma view_stored [simp]:
  "stored t (bump f n v) i = stored t v i" "stored t (push_list k x v) i = stored t v i"
  "stored t (pop_list k v) i = stored t v i" "stored t (schedule u x v) i = stored t v i"
  "stored t (unschedule x v) i = stored t v i"
  "stored t (hold_unique now j v) i = stored t v i" "stored t (drop_unique j v) i = stored t v i"
  "stored t (put_job now j v) i =
     (if i = jp_ID j then (if t < now + day then Some j else None) else stored t v i)"
  by (simp_all add: stored_def)

context redis_client
begin

lemma RPOP_pop: "up s \<Longrightarrow> view (snd (redis now (RPOP (QueueName p)) s)) = pop_list (QueueName p) (view s)"
  by (simp add: pop_list_def laws)

lemma dequeue_skip_empty:
  assumes "up s" "\<forall>q\<in>set qs. rv_list (view s) (QueueName q) = []"
  shows "\<exists>s1. up s1 \<and> view s1 = view s \<and> dequeue_loop redis now (qs @ rs) s = dequeue_loop redis now rs s1"
  using assms
proof (induction qs arbitrary: s)
  case Nil
  then show ?case by auto
next
  case (Cons q qs)
  let ?s1 = "snd (redis now (RPOP (QueueName q)) s)"
  have e: "rv_list (view s) (QueueName q) = []" using Cons.prems by simp
  have v: "view ?s1 = view s" "up ?s1" using Cons.prems(1) e by (simp_all add: laws fun_upd_idem)
  have "dequeue_loop redis now ((q # qs) @ rs) s = dequeue_loop redis now (qs @ rs) ?s1"
    using Cons.prems(1) e by (simp add: case_prod_unfold laws)
  then show ?case using Cons.IH [OF v(2)] Cons.prems(2) v(1) by simp
qed

lemma dequeue_hit:
  assumes "up s" "rv_list (view s) (QueueName p) = xs @ [i]" "stored now (view s) i = Some j" "times_ok (start_job now j)"
  shows "fst (dequeue_loop redis now (p # ps) s) = Inr (start_job now j)
    \<and> view (snd (dequeue_loop redis now (p # ps) s)) =
        bump ''pending'' (- 1) (put_job now (start_job now j) (pop_list (QueueName p) (view s)))
    \<and> up (snd (dequeue_loop redis now (p # ps) s))"
proof -
  let ?s1 = "snd (redis now (RPOP (QueueName p)) s)"
  let ?s2 = "snd (GetJob redis now i ?s1)"
  let ?s3 = "snd (UpdateJob redis now (start_job now j) ?s2)"
  have 1: "fst (redis now (RPOP (QueueName p)) s) = RBulk (Text i)" "view ?s1 = pop_list (QueueName p) (view s)" "up ?s1"
    using assms(1,2) by (simp_all add: laws pop_list_def)
  have 2: "fst (GetJob redis now i ?s1) = Inr j" "view ?s2 = pop_list (QueueName p) (view s)" "up ?s2"
    using GetJob_stored [OF 1(3), of now i j] GetJob_frame [OF 1(3), of now i] 1(2) assms(3) by simp_all
  have 3: "fst (UpdateJob redis now (start_job now j) ?s2) = None"
    "view ?s3 = put_job now (start_job now j) (pop_list (QueueName p) (view s))" "up ?s3"
    using UpdateJob_ok [OF 2(3) assms(4)] 2(2) by simp_all
  have "dequeue_loop redis now (p # ps) s
      = (Inr (start_job now j), snd (redis now (HINCRBY keyPrefixStats ''pending'' (- 1)) ?s3))"
    using 1(1) 2(1) 3(1) by (simp add: case_prod_unfold)
  then show ?thesis using 3(2,3) by (simp add: bump_law stays_up)
qed

lemma dequeue_dangling:
  assumes "up s" "rv_list (view s) (QueueName p) = xs @ [i]" "stored now (view s) i = None"
  shows "\<exists>s1. up s1 \<and> view s1 = pop_list (QueueName p) (view s)
    \<and> dequeue_loop redis now (p # ps) s = dequeue_loop redis now ps s1"
proof -
  let ?s1 = "snd (redis now (RPOP (QueueName p)) s)"
  have 1: "fst (redis now (RPOP (QueueName p)) s) = RBulk (Text i)" "view ?s1 = pop_list (QueueName p) (view s)" "up ?s1"
    using assms(1,2) by (simp_all add: laws pop_list_def)
  obtain e where "fst (GetJob redis now i ?s1) = Inl e"
    using GetJob_missing [OF 1(3), of now i] 1(2) assms(3) by auto
  then have "dequeue_loop redis now (p # ps) s = dequeue_loop redis now ps (snd (GetJob redis now i ?s1))"
    using 1(1) by (simp add: case_prod_unfold)
  then show ?thesis using GetJob_frame [OF 1(3), of now i] 1(2) by auto
qed

end

text \<open>The state holds the jobs \<open>js\<close>, oldest first, and their records live until \<open>T\<close>.\<close>

definition queue_rep :: "('s \<Rightarrow> redis_view) \<Rightarrow> ('s \<Rightarrow> bool) \<Rightarrow> time \<Rightarrow> JobPayload list \<Rightarrow> 's \<Rightarrow> bool" where
  "queue_rep view up T js s \<longleftrightarrow> up s \<and> distinct (map jp_ID js) \<and> list_all (\<lambda>j. known_priority j \<and> times_ok j) js
     \<and> (\<forall>p \<in> set default_priorities. rv_list (view s) (QueueName p) = rev (map jp_ID (by_priority p js)))
     \<and> (\<forall>j \<in> set js. \<forall>t < T. stored t (view s) (jp_ID j) = Some j)"

lemma by_priority_snoc: "by_priority p (js @ [j]) = by_priority p js @ (if jp_Priority j = p then [j] else [])"
  by (simp add: by_priority_def)

lemma QueueName_eq_known:
  "p \<in> set default_priorities \<Longrightarrow> q \<in> set default_priorities \<Longrightarrow> QueueName p = QueueName q \<longleftrightarrow> p = q"
  by (auto simp: QueueName_inj default_priorities_def priority_defs)

lemma start_job_times: "times_ok j \<Longrightarrow> time_ok now \<Longrightarrow> times_ok (start_job now j)"
  by (simp add: times_ok_def start_job_def)

lemma start_job_id [simp]: "jp_ID (start_job now j) = jp_ID j"
  by (simp add: start_job_def)

text \<open>The first priority that has a job, and its oldest job.\<close>

lemma first_priority:
  assumes "concat (map f ps) = x # xs"
  shows "\<exists>qs p rs. ps = qs @ p # rs \<and> (\<forall>q\<in>set qs. f q = []) \<and> f p \<noteq> [] \<and> hd (f p) = x"
  using assms
proof (induction ps)
  case Nil
  then show ?case by simp
next
  case (Cons r ps)
  show ?case
  proof (cases "f r = []")
    case True
    then obtain qs p rs where "ps = qs @ p # rs" "\<forall>q\<in>set qs. f q = []" "f p \<noteq> []" "hd (f p) = x"
      using Cons by auto
    then show ?thesis using True by (intro exI [of _ "r # qs"] exI [of _ p] exI [of _ rs]) auto
  next
    case False
    then have "hd (f r) = x" using Cons.prems by (cases "f r") auto
    then show ?thesis using False by (intro exI [of _ "[]"] exI [of _ r] exI [of _ ps]) auto
  qed
qed

context redis_client
begin

lemma enqueue_rep:
  assumes "queue_rep view up T js s" "T \<le> now + day" "times_ok j" "known_priority j" "jp_UniqueKey j = []"
    and "\<not> due_later now j" "jp_ID j \<notin> jp_ID ` set js"
  shows "fst (Enqueue redis now j s) = None \<and> queue_rep view up T (js @ [j]) (snd (Enqueue redis now j s))"
proof -
  have u: "up s" using assms(1) by (simp add: queue_rep_def)
  have e: "fst (Enqueue redis now j s) = None" "view (snd (Enqueue redis now j s)) = enqueue_view now j (view s)"
      "up (snd (Enqueue redis now j s))"
    using Enqueue_fresh [OF u assms(3)] assms(5) by auto
  have v: "enqueue_view now j (view s) = bump ''pending'' 1 (bump ''enqueued_total'' 1
      (push_list (QueueName (jp_Priority j)) (jp_ID j) (put_job now j (view s))))"
    using assms(5,6) by (simp add: enqueue_view_def hold_unique_def place_def)
  have "\<forall>k\<in>set js. jp_ID k \<noteq> jp_ID j" using assms(7) by (metis image_eqI)
  then show ?thesis using assms(1-6) e
    by (auto simp: queue_rep_def v by_priority_snoc QueueName_eq_known known_priority_def)
qed

lemma dequeue_rep_empty:
  assumes "queue_rep view up T [] s"
  shows "fst (Dequeue redis now [] s) = Inl ErrQueueEmpty \<and> queue_rep view up T [] (snd (Dequeue redis now [] s))"
proof -
  have u: "up s" and e: "\<forall>q\<in>set default_priorities. rv_list (view s) (QueueName q) = []"
    using assms by (auto simp: queue_rep_def by_priority_def)
  obtain s1 where "up s1" "view s1 = view s" "dequeue_loop redis now (default_priorities @ []) s = (Inl ErrQueueEmpty, s1)"
    using dequeue_skip_empty [OF u e, of now "[]"] by auto
  then show ?thesis using assms by (simp add: Dequeue_def queue_rep_def)
qed

lemma dequeue_effect:
  assumes "queue_rep view up T js s" "js \<noteq> []" "now < T" "time_ok now" "x = hd (service_order js)"
  shows "fst (Dequeue redis now [] s) = Inr (start_job now x)
    \<and> view (snd (Dequeue redis now [] s)) =
        bump ''pending'' (- 1) (put_job now (start_job now x) (pop_list (QueueName (jp_Priority x)) (view s)))
    \<and> up (snd (Dequeue redis now [] s))
    \<and> (\<exists>ys. by_priority (jp_Priority x) js = x # ys) \<and> x \<in> set js"
proof -
  have q: "up s" "list_all (\<lambda>j. known_priority j \<and> times_ok j) js"
    "\<And>p. p \<in> set default_priorities \<Longrightarrow> rv_list (view s) (QueueName p) = rev (map jp_ID (by_priority p js))"
    "\<And>j t. j \<in> set js \<Longrightarrow> t < T \<Longrightarrow> stored t (view s) (jp_ID j) = Some j"
    using assms(1) by (auto simp: queue_rep_def)
  have known: "list_all known_priority js" using q(2) by (auto simp: list_all_iff)
  have x: "x \<in> set js" unfolding assms(5) by (rule hd_service_order [OF known assms(2)])
  have "concat (map (\<lambda>p. by_priority p js) default_priorities) = x # tl (service_order js)"
    using service_order_Nil [OF known] assms(2,5) by (simp add: service_order_queues)
  then obtain qs p rs where p: "default_priorities = qs @ p # rs" "\<forall>q\<in>set qs. by_priority q js = []"
      "by_priority p js \<noteq> []" "hd (by_priority p js) = x"
    using first_priority [of "\<lambda>p. by_priority p js"] by blast
  obtain ys where ys: "by_priority p js = x # ys" using p(3,4) by (cases "by_priority p js") auto
  have "x \<in> set (by_priority p js)" unfolding ys by simp
  then have xp: "jp_Priority x = p" by (simp add: by_priority_def)
  have mem: "p \<in> set default_priorities" "set qs \<subseteq> set default_priorities" unfolding p(1) by auto
  have l: "rv_list (view s) (QueueName p) = rev (map jp_ID ys) @ [jp_ID x]" using q(3) [OF mem(1)] ys by simp
  obtain s1 where s1: "up s1" "view s1 = view s" "Dequeue redis now [] s = dequeue_loop redis now (p # rs) s1"
    using dequeue_skip_empty [OF q(1), of qs now "p # rs"] q(3) mem(2) p(1,2) by (auto simp: Dequeue_def subset_iff)
  have t: "times_ok (start_job now x)" using start_job_times q(2) x assms(4) by (auto simp: list_all_iff)
  have st: "stored now (view s1) (jp_ID x) = Some x" using q(4) [OF x assms(3)] s1(2) by simp
  show ?thesis using dequeue_hit [OF s1(1) l [folded s1(2)] st t, of rs] s1(2,3) xp ys x by simp
qed

lemma dequeue_rep:
  assumes "queue_rep view up T js s" "js \<noteq> []" "now < T" "time_ok now"
  shows "fst (Dequeue redis now [] s) = Inr (start_job now (hd (service_order js)))
    \<and> queue_rep view up T (remove1 (hd (service_order js)) js) (snd (Dequeue redis now [] s))"
proof -
  let ?x = "hd (service_order js)"
  let ?js = "remove1 ?x js"
  have q: "distinct (map jp_ID js)" "list_all (\<lambda>j. known_priority j \<and> times_ok j) js"
    "\<And>p. p \<in> set default_priorities \<Longrightarrow> rv_list (view s) (QueueName p) = rev (map jp_ID (by_priority p js))"
    "\<And>j t. j \<in> set js \<Longrightarrow> t < T \<Longrightarrow> stored t (view s) (jp_ID j) = Some j"
    using assms(1) by (auto simp: queue_rep_def)
  note eff = dequeue_effect [OF assms refl]
  have x: "?x \<in> set js" and p: "jp_Priority ?x \<in> set default_priorities"
    using eff q(2) by (auto simp: list_all_iff known_priority_def)
  have d: "distinct js" using q(1) by (simp add: distinct_map)
  have ids: "jp_ID j \<noteq> jp_ID ?x" if "j \<in> set ?js" for j
    using that q(1) x d by (auto simp: distinct_map inj_on_def)
  have "rv_list (view (snd (Dequeue redis now [] s))) (QueueName r) = rev (map jp_ID (by_priority r ?js))"
    if "r \<in> set default_priorities" for r
    using eff that q(3) p by (auto simp: by_priority_remove1 QueueName_eq_known)
  moreover have "stored u (view (snd (Dequeue redis now [] s))) (jp_ID j) = Some j" if "j \<in> set ?js" "u < T" for j u
    using eff that q(4) ids [OF that(1)] d by auto
  ultimately show ?thesis
    using eff q(1,2) d by (auto simp: queue_rep_def list_all_iff distinct_map inj_on_def)
qed

end

sublocale redis_client \<subseteq> pq: priority_queue "Enqueue redis" "\<lambda>now. Dequeue redis now []" "queue_rep view up"
proof (unfold_locales, goal_cases)
  case 1
  then show ?case by (rule enqueue_rep)
next
  case 2
  then show ?case by (rule dequeue_rep_empty)
next
  case 3
  then show ?case by (rule dequeue_rep)
next
  case 4
  then show ?case by (simp add: queue_rep_def list_all_iff)
qed

subsection \<open>Outcomes of a job\<close>

definition completed :: "time \<Rightarrow> JobPayload \<Rightarrow> JobPayload" where
  "completed now j = j\<lparr>jp_Status := JobStatusCompleted, jp_CompletedAt := Some now\<rparr>"

definition retry_at :: "(real \<Rightarrow> int) \<Rightarrow> time \<Rightarrow> JobPayload \<Rightarrow> time" where
  "retry_at oor now j = now + CalculateDelay oor (jp_RetryPolicy j) (jp_Attempts j)"

definition retrying :: "(real \<Rightarrow> int) \<Rightarrow> time \<Rightarrow> string \<Rightarrow> JobPayload \<Rightarrow> JobPayload" where
  "retrying oor now err j =
     j\<lparr>jp_LastError := err, jp_Status := JobStatusRetrying, jp_ScheduledAt := Some (retry_at oor now j)\<rparr>"

definition dead :: "string \<Rightarrow> JobPayload \<Rightarrow> JobPayload" where
  "dead err j = j\<lparr>jp_LastError := err, jp_Status := JobStatusDead\<rparr>"

definition complete_view :: "time \<Rightarrow> JobPayload \<Rightarrow> redis_view \<Rightarrow> redis_view" where
  "complete_view now j v = bump ''completed_total'' 1 (drop_unique j (put_job now (completed now j) v))"

definition retry_view :: "(real \<Rightarrow> int) \<Rightarrow> time \<Rightarrow> string \<Rightarrow> JobPayload \<Rightarrow> redis_view \<Rightarrow> redis_view" where
  "retry_view oor now err j v = bump ''failed_total'' 1 (bump ''retries_total'' 1
     (schedule (retry_at oor now j) (jp_ID j) (put_job now (retrying oor now err j) v)))"

definition dead_view :: "time \<Rightarrow> string \<Rightarrow> JobPayload \<Rightarrow> redis_view \<Rightarrow> redis_view" where
  "dead_view now err j v = bump ''failed_total'' 1 (bump ''dead_total'' 1
     (drop_unique j (push_list keyPrefixDLQ (jp_ID j) (put_job now (dead err j) v))))"

definition released :: "JobPayload \<Rightarrow> JobPayload" where
  "released j = j\<lparr>jp_ScheduledAt := None, jp_Status := JobStatusPending\<rparr>"

definition release_view :: "time \<Rightarrow> string \<Rightarrow> redis_view \<Rightarrow> redis_view" where
  "release_view now i v =
     (case stored now v i of None \<Rightarrow> v
      | Some j \<Rightarrow> push_list (QueueName (jp_Priority j)) (jp_ID j) (put_job now (released j) (unschedule i v)))"

lemma job_ids [simp]:
  "jp_ID (completed now j) = jp_ID j" "jp_ID (retrying oor now err j) = jp_ID j" "jp_ID (dead err j) = jp_ID j"
  "jp_ID (released j) = jp_ID j" "jp_Priority (released j) = jp_Priority j"
  by (simp_all add: completed_def retrying_def dead_def released_def)

lemma outcome_times:
  "times_ok j \<Longrightarrow> time_ok now \<Longrightarrow> times_ok (completed now j)"
  "times_ok j \<Longrightarrow> time_ok (retry_at oor now j) \<Longrightarrow> times_ok (retrying oor now err j)"
  "times_ok j \<Longrightarrow> times_ok (dead err j)" "times_ok j \<Longrightarrow> times_ok (released j)"
  by (simp_all add: times_ok_def completed_def retrying_def dead_def released_def)

context redis_client
begin

lemma drop_unique_law:
  "up s \<Longrightarrow> view (if jp_UniqueKey j \<noteq> [] then snd (redis now (DEL (keyPrefixUnique @ jp_UniqueKey j)) s) else s)
     = drop_unique j (view s)
   \<and> up (if jp_UniqueKey j \<noteq> [] then snd (redis now (DEL (keyPrefixUnique @ jp_UniqueKey j)) s) else s)"
  by (simp add: drop_unique_def laws)

lemma Complete_ok:
  assumes "up s" "stored now (view s) i = Some j" "times_ok j" "time_ok now"
  shows "fst (Complete redis now i s) = None \<and> view (snd (Complete redis now i s)) = complete_view now j (view s)
    \<and> up (snd (Complete redis now i s))"
proof -
  let ?s1 = "snd (GetJob redis now i s)" and ?j = "completed now j"
  let ?s2 = "snd (UpdateJob redis now ?j ?s1)"
  have 1: "fst (GetJob redis now i s) = Inr j" "view ?s1 = view s" "up ?s1"
    using GetJob_stored GetJob_frame assms(1,2) by auto
  have 2: "fst (UpdateJob redis now ?j ?s1) = None" "view ?s2 = put_job now ?j (view s)" "up ?s2"
    using UpdateJob_ok [OF 1(3) outcome_times(1) [OF assms(3,4)]] 1(2) by simp_all
  have "Complete redis now i s = (None, snd (redis now (HINCRBY keyPrefixStats ''completed_total'' 1)
      (if jp_UniqueKey j \<noteq> [] then snd (redis now (DEL (keyPrefixUnique @ jp_UniqueKey j)) ?s2) else ?s2)))"
    using 1(1) 2(1) by (simp add: Complete_def case_prod_unfold completed_def Let_def)
  then show ?thesis
    using drop_unique_law [OF 2(3), of j now] by (simp add: bump_law stays_up complete_view_def 2(2))
qed

lemma Fail_retry:
  assumes "up s" "stored now (view s) i = Some j" "jp_Attempts j < jp_MaxRetries j"
    and "times_ok j" "time_ok (retry_at oor now j)"
  shows "fst (Fail oor redis now i err s) = None
    \<and> view (snd (Fail oor redis now i err s)) = retry_view oor now err j (view s)
    \<and> up (snd (Fail oor redis now i err s))"
proof -
  let ?s1 = "snd (GetJob redis now i s)" and ?j = "retrying oor now err j"
  let ?s2 = "snd (UpdateJob redis now ?j ?s1)"
  let ?z = "ZADD keyPrefixScheduled (real_of_int (unix_seconds (retry_at oor now j))) (jp_ID j)"
  have 1: "fst (GetJob redis now i s) = Inr j" "view ?s1 = view s" "up ?s1"
    using GetJob_stored GetJob_frame assms(1,2) by auto
  have 2: "fst (UpdateJob redis now ?j ?s1) = None" "view ?s2 = put_job now ?j (view s)" "up ?s2"
    using UpdateJob_ok [OF 1(3) outcome_times(2) [OF assms(4,5)]] 1(2) by simp_all
  have 3: "view (snd (redis now ?z ?s2)) = schedule (retry_at oor now j) (jp_ID j) (put_job now ?j (view s))"
    "fst (redis now ?z ?s2) \<noteq> RErr" "up (snd (redis now ?z ?s2))"
    using 2 by (simp_all add: laws schedule_def)
  have "Fail oor redis now i err s = (None, snd (redis now (HINCRBY keyPrefixStats ''failed_total'' 1)
      (snd (redis now (HINCRBY keyPrefixStats ''retries_total'' 1) (snd (redis now ?z ?s2))))))"
    using 1(1) 2(1) 3(2) assms(3)
    by (simp add: Fail_def case_prod_unfold retrying_def retry_at_def Let_def)
  then show ?thesis using 3 by (simp add: bump_law stays_up retry_view_def)
qed

lemma Fail_dead:
  assumes "up s" "stored now (view s) i = Some j" "\<not> jp_Attempts j < jp_MaxRetries j" "times_ok j"
  shows "fst (Fail oor redis now i err s) = None
    \<and> view (snd (Fail oor redis now i err s)) = dead_view now err j (view s)
    \<and> up (snd (Fail oor redis now i err s))"
proof -
  let ?s1 = "snd (GetJob redis now i s)" and ?j = "dead err j"
  let ?s2 = "snd (UpdateJob redis now ?j ?s1)"
  let ?s3 = "snd (redis now (LPUSH keyPrefixDLQ (jp_ID j)) ?s2)"
  have 1: "fst (GetJob redis now i s) = Inr j" "view ?s1 = view s" "up ?s1"
    using GetJob_stored GetJob_frame assms(1,2) by auto
  have 2: "fst (UpdateJob redis now ?j ?s1) = None" "view ?s2 = put_job now ?j (view s)" "up ?s2"
    using UpdateJob_ok [OF 1(3) outcome_times(3) [OF assms(4)]] 1(2) by simp_all
  have 3: "view ?s3 = push_list keyPrefixDLQ (jp_ID j) (put_job now ?j (view s))"
    "fst (redis now (LPUSH keyPrefixDLQ (jp_ID j)) ?s2) \<noteq> RErr" "up ?s3"
    using 2 by (simp_all add: laws push_list_def)
  have "Fail oor redis now i err s = (None, snd (redis now (HINCRBY keyPrefixStats ''failed_total'' 1)
      (snd (redis now (HINCRBY keyPrefixStats ''dead_total'' 1)
        (if jp_UniqueKey j \<noteq> [] then snd (redis now (DEL (keyPrefixUnique @ jp_UniqueKey j)) ?s3) else ?s3)))))"
    using 1(1) 2(1) 3(2) assms(3) by (simp add: Fail_def case_prod_unfold dead_def Let_def)
  then show ?thesis
    using drop_unique_law [OF 3(3), of j now] by (simp add: bump_law stays_up dead_view_def 3(1))
qed

lemma unknown_job:
  assumes "up s" "look (view s) now (keyPrefixJob @ i) = None"
  shows "fst (GetJob redis now i s) = Inl ErrJobNotFound" "fst (Complete redis now i s) = Some ErrJobNotFound"
    "fst (Fail oor redis now i err s) = Some ErrJobNotFound" "fst (DeleteJob redis now i s) = Some ErrJobNotFound"
proof -
  show g: "fst (GetJob redis now i s) = Inl ErrJobNotFound"
    using assms by (simp add: GetJob_def case_prod_unfold laws)
  show "fst (Complete redis now i s) = Some ErrJobNotFound"
    "fst (Fail oor redis now i err s) = Some ErrJobNotFound" "fst (DeleteJob redis now i s) = Some ErrJobNotFound"
    using g by (simp_all add: Complete_def Fail_def DeleteJob_def case_prod_unfold)
qed

lemma process_step:
  assumes "up s" "\<And>j. stored now (view s) i = Some j \<Longrightarrow> times_ok j"
  shows "\<exists>s1. up s1 \<and> view s1 = release_view now i (view s)
    \<and> process_loop redis now (i # ids) n s
        = process_loop redis now ids (if stored now (view s) i = None then n else n + 1) s1"
proof (cases "stored now (view s) i")
  case None
  then obtain e where "fst (GetJob redis now i s) = Inl e" using GetJob_missing [OF assms(1)] by blast
  then show ?thesis using None GetJob_frame [OF assms(1), of now i]
    by (intro exI [of _ "snd (GetJob redis now i s)"]) (simp add: case_prod_unfold release_view_def)
next
  case (Some j)
  let ?s1 = "snd (GetJob redis now i s)"
  let ?s2 = "snd (redis now (ZREM keyPrefixScheduled i) ?s1)"
  let ?s3 = "snd (UpdateJob redis now (released j) ?s2)"
  let ?s4 = "snd (redis now (LPUSH (QueueName (jp_Priority j)) (jp_ID j)) ?s3)"
  have 1: "fst (GetJob redis now i s) = Inr j" "view ?s1 = view s" "up ?s1"
    using GetJob_stored GetJob_frame assms(1) Some by auto
  have 2: "fst (redis now (ZREM keyPrefixScheduled i) ?s1) \<noteq> RErr" "view ?s2 = unschedule i (view s)" "up ?s2"
    using 1 by (simp_all add: laws unschedule_def)
  have 3: "fst (UpdateJob redis now (released j) ?s2) = None" "view ?s3 = put_job now (released j) (unschedule i (view s))" "up ?s3"
    using UpdateJob_ok [OF 2(3) outcome_times(4) [OF assms(2) [OF Some]]] 2(2) by simp_all
  have 4: "fst (redis now (LPUSH (QueueName (jp_Priority j)) (jp_ID j)) ?s3) \<noteq> RErr"
    "view ?s4 = release_view now i (view s)" "up ?s4"
    using 3 Some by (simp_all add: laws push_list_def release_view_def)
  have "process_loop redis now (i # ids) n s = process_loop redis now ids (n + 1) ?s4"
    using 1(1) 2(1) 3(1) 4(1) by (simp add: case_prod_unfold released_def Let_def)
  then show ?thesis using 4 Some by auto
qed

end

end
