(* ===== verification/Queue_Properties.thy ===== *)
theory Queue_Properties
  imports Redis_Queue
begin

text \<open>
  What the Redis queue promises to its clients: order of service, deduplication, retries and
  the dead letter list, the release of scheduled jobs, and the cases where jobs are passed
  over or lost. Every statement holds for any client that satisfies the laws of
  \<open>redis_client\<close>; the in-memory store is the concrete instance of the witnesses.
\<close>

subsection \<open>An empty in-memory store\<close>

definition mem_empty :: mem where
  "mem_empty = \<lparr>m_str = (\<lambda>_. None), m_list = (\<lambda>_. []), m_zset = (\<lambda>_. []), m_hash = (\<lambda>_. []), m_set = (\<lambda>_. [])\<rparr>"

lemma mem_empty_up: "mem_up mem_empty"
  by (simp add: mem_up_def mem_empty_def)

lemma mem_empty_view [simp]:
  "rv_list (mem_view mem_empty) k = []" "rv_zset (mem_view mem_empty) k = (\<lambda>_. None)" "look (mem_view mem_empty) t k = None"
  by (simp_all add: mem_view_def mem_empty_def look_def)

definition demo_job :: "string \<Rightarrow> Priority \<Rightarrow> JobPayload" where
  "demo_job i p = \<lparr>jp_ID = i, jp_Type = ''email'', jp_Payload = JNull, jp_Priority = p,
     jp_Status = JobStatusPending, jp_Attempts = 0, jp_MaxRetries = 3, jp_RetryPolicy = DefaultRetryPolicy,
     jp_Timeout = 5 * minute, jp_ScheduledAt = None, jp_CreatedAt = 0, jp_StartedAt = None,
     jp_CompletedAt = None, jp_LastError = [], jp_CorrelationID = [], jp_UniqueKey = [], jp_Tags = []\<rparr>"

lemma demo_job_simps [simp]:
  "jp_ID (demo_job i p) = i" "jp_Priority (demo_job i p) = p" "times_ok (demo_job i p)" "jp_UniqueKey (demo_job i p) = []"
  "due_later now (demo_job i p) = False" "jp_Attempts (demo_job i p) = 0" "jp_MaxRetries (demo_job i p) = 3"
  "jp_ScheduledAt (demo_job i p) = None" "jp_RetryPolicy (demo_job i p) = DefaultRetryPolicy"
  by (simp_all add: demo_job_def times_ok_def time_ok_def due_later_def)

subsection \<open>Order of service\<close>

context redis_client
begin

lemma empty_queue_rep:
  "up s \<Longrightarrow> \<forall>p\<in>set default_priorities. rv_list (view s) (QueueName p) = [] \<Longrightarrow> queue_rep view up T [] s"
  by (simp add: queue_rep_def by_priority_def)

lemmas queue_fifo = pq.fifo_by_priority [OF empty_queue_rep]

end

text \<open>
  C1. The queue serves jobs by priority and, within a priority, first come first served:
  enqueuing any list of due jobs without unique keys into an empty queue and dequeuing as
  long as records live returns them critical first, then high, normal and low, each in the
  order they were enqueued, marked running with one more attempt; after the last one the
  queue is empty. No job is lost, repeated or overtaken.
\<close>

theorem queue_serves_fifo_by_priority:
  assumes "redis_client redis view up" "up s"
    and "\<forall>p\<in>set default_priorities. rv_list (view s) (QueueName p) = []"
    and "now' < now + day" "time_ok now'" "distinct (map jp_ID js)"
    and "list_all (\<lambda>j. times_ok j \<and> known_priority j \<and> jp_UniqueKey j = [] \<and> \<not> due_later now j) js"
  shows "deq_many (\<lambda>t. Dequeue redis t []) now' (Suc (length js)) (enq_all (Enqueue redis) now js s)
    = map (\<lambda>j. Inr (start_job now' j)) (service_order js) @ [Inl ErrQueueEmpty]"
  by (rule redis_client.queue_fifo [OF assms(1-3) order_refl assms(4-7)])

theorem queue_serves_fifo_by_priority_witness:
  "deq_many (\<lambda>t. Dequeue mem_redis t []) 7 (Suc (length [demo_job ''a'' 1, demo_job ''b'' 3, demo_job ''c'' 1]))
       (enq_all (Enqueue mem_redis) 5 [demo_job ''a'' 1, demo_job ''b'' 3, demo_job ''c'' 1] mem_empty)
     = map (\<lambda>j. Inr (start_job 7 j)) [demo_job ''b'' 3, demo_job ''a'' 1, demo_job ''c'' 1] @ [Inl ErrQueueEmpty]"
proof -
  have o: "service_order [demo_job ''a'' 1, demo_job ''b'' 3, demo_job ''c'' 1]
      = [demo_job ''b'' 3, demo_job ''a'' 1, demo_job ''c'' 1]"
    by (simp add: service_order_def by_priority_def default_priorities_def priority_defs)
  show ?thesis
    unfolding o [symmetric]
    by (rule queue_serves_fifo_by_priority [OF mem.redis_client_axioms mem_empty_up])
      (simp_all add: time_ok_def known_priority_def default_priorities_def priority_defs)
qed

subsection \<open>Deduplication\<close>

text \<open>
  C8. Deduplication. Enqueuing a due job with a unique key that is not held succeeds and
  holds the key for 24 hours: every further \<^verbatim>\<open>Enqueue\<close> with that key during that time is
  refused with \<^verbatim>\<open>ErrDuplicateJob\<close> and leaves the store as it was. Completing the job gives
  the key back at once.
\<close>

theorem unique_key_deduplicates:
  assumes "redis_client redis view up" "up s" "times_ok j" "jp_UniqueKey j \<noteq> []" "jp_ScheduledAt j = None"
    and "look (view s) now (keyPrefixUnique @ jp_UniqueKey j) = None"
    and "jp_UniqueKey k = jp_UniqueKey j" "now \<le> t" "t < now + day" "time_ok t"
    and "s1 = snd (Enqueue redis now j s)"
  shows "fst (Enqueue redis now j s) = None
    \<and> fst (Enqueue redis t k s1) = Some ErrDuplicateJob \<and> view (snd (Enqueue redis t k s1)) = view s1
    \<and> fst (Complete redis t (jp_ID j) s1) = None
    \<and> look (view (snd (Complete redis t (jp_ID j) s1))) t (keyPrefixUnique @ jp_UniqueKey j) = None"
proof -
  have e: "fst (Enqueue redis now j s) = None" "view s1 = enqueue_view now j (view s)" "up s1"
    using redis_client.Enqueue_fresh [OF assms(1-3)] assms(5,6,11) by (auto simp: unique_ttl_def)
  have v: "view s1 = bump ''pending'' 1 (bump ''enqueued_total'' 1 (hold_unique now j
      (push_list (QueueName (jp_Priority j)) (jp_ID j) (put_job now j (view s)))))"
    using assms(5) by (simp add: e(2) enqueue_view_def place_def due_later_def)
  have held: "look (view s1) t (keyPrefixUnique @ jp_UniqueKey j) \<noteq> None"
    using assms(4,5,9) by (simp add: v unique_ttl_def expiry_def px_def live_def)
  have st: "stored t (view s1) (jp_ID j) = Some j"
    using assms(9) by (simp add: v)
  have c: "fst (Complete redis t (jp_ID j) s1) = None"
      "view (snd (Complete redis t (jp_ID j) s1)) = complete_view t j (view s1)"
    using redis_client.Complete_ok [OF assms(1) e(3) st assms(3,10)] by simp_all
  have "look (complete_view t j (view s1)) t (keyPrefixUnique @ jp_UniqueKey j) = None"
    using assms(4) by (simp add: complete_view_def)
  then show ?thesis
    using e(1) c redis_client.Enqueue_duplicate [OF assms(1) e(3), of k t] held assms(4,7) by simp
qed

definition keyed_job :: JobPayload where
  "keyed_job = (demo_job ''a'' 1)\<lparr>jp_UniqueKey := ''report''\<rparr>"

lemma keyed_job_simps [simp]:
  "jp_ID keyed_job = ''a''" "jp_UniqueKey keyed_job = ''report''" "jp_ScheduledAt keyed_job = None" "times_ok keyed_job"
  by (simp_all add: keyed_job_def times_ok_def time_ok_def demo_job_def)

theorem unique_key_deduplicates_witness:
  "fst (Enqueue mem_redis 9 (keyed_job\<lparr>jp_ID := ''b''\<rparr>) (snd (Enqueue mem_redis 5 keyed_job mem_empty))) = Some ErrDuplicateJob"
  using unique_key_deduplicates [OF mem.redis_client_axioms mem_empty_up, of keyed_job 5 "keyed_job\<lparr>jp_ID := ''b''\<rparr>" 9]
  by (simp add: time_ok_def)

text \<open>
  The duplicate check and the reservation of the key are separate commands. Two clients
  that both pass the check before either stores its job are both told success, and both
  jobs are queued, under the same unique key.
\<close>

theorem duplicate_check_races:
  assumes "redis_client redis view up" "up s" "times_ok j" "times_ok k" "jp_UniqueKey j \<noteq> []"
    and "jp_UniqueKey k = jp_UniqueKey j" "jp_ScheduledAt j = None" "jp_ScheduledAt k = None"
    and "look (view s) now (keyPrefixUnique @ jp_UniqueKey j) = None" "jp_Priority k = jp_Priority j"
    and "s1 = snd (checkDuplicate redis now (jp_UniqueKey j) s)"
    and "s2 = snd (checkDuplicate redis now (jp_UniqueKey k) s1)"
    and "s3 = snd (storeAndQueue redis now j s2)"
  shows "fst (checkDuplicate redis now (jp_UniqueKey j) s) = None
    \<and> fst (checkDuplicate redis now (jp_UniqueKey k) s1) = None
    \<and> fst (storeAndQueue redis now j s2) = None \<and> fst (storeAndQueue redis now k s3) = None
    \<and> rv_list (view (snd (storeAndQueue redis now k s3))) (QueueName (jp_Priority j))
        = jp_ID k # jp_ID j # rv_list (view s) (QueueName (jp_Priority j))"
proof -
  have 1: "fst (checkDuplicate redis now (jp_UniqueKey j) s) = None" "view s1 = view s" "up s1"
    using redis_client.checkDuplicate_spec [OF assms(1,2)] assms(9,11) by auto
  have 2: "fst (checkDuplicate redis now (jp_UniqueKey k) s1) = None" "view s2 = view s" "up s2"
    using redis_client.checkDuplicate_spec [OF assms(1) 1(3)] assms(6,9,12) 1(2) by auto
  have 3: "fst (storeAndQueue redis now j s2) = None" "view s3 = enqueue_view now j (view s)" "up s3"
    using redis_client.storeAndQueue_ok [OF assms(1) 2(3) assms(3)] assms(7,13) 2(2) by (auto simp: unique_ttl_def)
  have 4: "fst (storeAndQueue redis now k s3) = None"
      "view (snd (storeAndQueue redis now k s3)) = enqueue_view now k (enqueue_view now j (view s))"
    using redis_client.storeAndQueue_ok [OF assms(1) 3(3) assms(4)] assms(8) 3(2) by (auto simp: unique_ttl_def)
  show ?thesis using 1 2 3 4 assms(7,8,10)
    by (simp add: enqueue_view_def place_def due_later_def)
qed

theorem duplicate_check_races_witness:
  "fst (storeAndQueue mem_redis 5 (keyed_job\<lparr>jp_ID := ''b''\<rparr>)
      (snd (storeAndQueue mem_redis 5 keyed_job
        (snd (checkDuplicate mem_redis 5 ''report'' (snd (checkDuplicate mem_redis 5 ''report'' mem_empty))))))) = None"
  using duplicate_check_races [OF mem.redis_client_axioms mem_empty_up, of keyed_job "keyed_job\<lparr>jp_ID := ''b''\<rparr>" 5]
  by (simp add: times_ok_def) (simp add: keyed_job_def demo_job_def time_ok_def)

subsection \<open>Failed jobs\<close>

text \<open>
  C2. A failed attempt is either retried or buried, never both and never neither. While the
  attempts made are fewer than \<^verbatim>\<open>MaxRetries\<close>, \<^verbatim>\<open>Fail\<close> records the error, marks the job
  retrying and schedules it at now plus the policy's delay, leaving every list as it was;
  otherwise it marks the job dead, puts it at the head of the dead letter list, leaves the
  schedule as it was and gives its unique key back.
\<close>

theorem failed_job_retried_or_buried:
  assumes "redis_client redis view up" "up s" "stored now (view s) i = Some j" "jp_ID j = i" "times_ok j"
    and "time_ok (retry_at oor now j)" "t < now + day"
    and "s1 = snd (Fail oor redis now i err s)"
  shows "fst (Fail oor redis now i err s) = None
    \<and> (if jp_Attempts j < jp_MaxRetries j
       then stored t (view s1) i = Some (retrying oor now err j)
         \<and> rv_zset (view s1) keyPrefixScheduled i = Some (real_of_int (unix_seconds (retry_at oor now j)))
         \<and> rv_list (view s1) = rv_list (view s)
       else stored t (view s1) i = Some (dead err j)
         \<and> rv_zset (view s1) = rv_zset (view s)
         \<and> rv_list (view s1) = (rv_list (view s))(keyPrefixDLQ := i # rv_list (view s) keyPrefixDLQ)
         \<and> (jp_UniqueKey j \<noteq> [] \<longrightarrow> look (view s1) t (keyPrefixUnique @ jp_UniqueKey j) = None))"
proof (cases "jp_Attempts j < jp_MaxRetries j")
  case True
  then show ?thesis
    using redis_client.Fail_retry [OF assms(1-3) True assms(5,6), of err] assms(4,7,8)
    by (simp add: retry_view_def) (simp add: schedule_def)
next
  case False
  then show ?thesis
    using redis_client.Fail_dead [OF assms(1-3) False assms(5), of oor err] assms(4,7,8)
    by (simp add: dead_view_def)
qed

definition running_store :: "JobPayload \<Rightarrow> mem" where
  "running_store j = snd (Dequeue mem_redis 6 [] (snd (Enqueue mem_redis 5 j mem_empty)))"

lemma service_order_single: "known_priority j \<Longrightarrow> hd (service_order [j]) = j"
  using hd_service_order [of "[j]"] by simp

lemma running_store_stored:
  assumes "times_ok j" "jp_UniqueKey j = []" "jp_ScheduledAt j = None" "known_priority j"
  shows "mem_up (running_store j)" "t < 6 + day \<Longrightarrow> stored t (mem_view (running_store j)) (jp_ID j) = Some (start_job 6 j)"
proof -
  have r: "queue_rep mem_view mem_up (5 + day) [j] (snd (Enqueue mem_redis 5 j mem_empty))"
    using mem.enqueue_rep [OF mem.empty_queue_rep [OF mem_empty_up], of "5 + day" 5 j] assms
    by (simp add: due_later_def)
  have e: "j = hd (service_order [j])" using service_order_single [OF assms(4)] by simp
  have d: "mem_up (running_store j)" "mem_view (running_store j) = bump ''pending'' (- 1) (put_job 6 (start_job 6 j)
      (pop_list (QueueName (jp_Priority j)) (mem_view (snd (Enqueue mem_redis 5 j mem_empty)))))"
    using mem.dequeue_effect [OF r _ _ _ e, of 6] by (simp_all add: running_store_def time_ok_def)
  show "mem_up (running_store j)" by (rule d(1))
  show "t < 6 + day \<Longrightarrow> stored t (mem_view (running_store j)) (jp_ID j) = Some (start_job 6 j)"
    by (simp add: d(2))
qed

theorem failed_job_retried_or_buried_witness:
  "fst (Fail (\<lambda>_. 0) mem_redis 8 ''a'' ''boom'' (running_store (demo_job ''a'' 1))) = None
   \<and> stored 8 (mem_view (snd (Fail (\<lambda>_. 0) mem_redis 8 ''a'' ''boom'' (running_store (demo_job ''a'' 1))))) ''a''
       = Some (retrying (\<lambda>_. 0) 8 ''boom'' (start_job 6 (demo_job ''a'' 1)))"
proof -
  let ?j = "demo_job ''a'' 1" and ?oor = "\<lambda>_::real. 0::int"
  have k: "known_priority ?j" by (simp add: known_priority_def default_priorities_def priority_defs)
  have up: "mem_up (running_store ?j)" by (rule running_store_stored(1)) (use k in simp_all)
  have "stored 8 (mem_view (running_store ?j)) (jp_ID ?j) = Some (start_job 6 ?j)"
    by (rule running_store_stored(2)) (use k in simp_all)
  then have st: "stored 8 (mem_view (running_store ?j)) ''a'' = Some (start_job 6 ?j)" by simp
  have "CalculateDelay ?oor DefaultRetryPolicy 1 = second"
    by (simp add: CalculateDelay_def DefaultRetryPolicy_def pow_def int64_of_float_def trunc_def in_int64_def)
  then have "time_ok (retry_at ?oor 8 (start_job 6 ?j))" by (simp add: retry_at_def start_job_def time_ok_def)
  then show ?thesis
    using failed_job_retried_or_buried [OF mem.redis_client_axioms up st, of ?oor 8 _ "''boom''", OF _ _ _ _ refl]
    by (simp add: start_job_times time_ok_def) (simp add: start_job_def)
qed

subsection \<open>Scheduled jobs\<close>

text \<open>Every readable record sits under its own identifier and can be written back.\<close>

definition records_ok :: "redis_view \<Rightarrow> bool" where
  "records_ok v \<longleftrightarrow> (\<forall>t i j. stored t v i = Some j \<longrightarrow> jp_ID j = i \<and> times_ok j)"

lemma records_ok_simps [simp]:
  "records_ok (bump f n v) = records_ok v" "records_ok (push_list k x v) = records_ok v"
  "records_ok (pop_list k v) = records_ok v" "records_ok (schedule u x v) = records_ok v"
  "records_ok (unschedule x v) = records_ok v"
  "records_ok (hold_unique now j v) = records_ok v" "records_ok (drop_unique j v) = records_ok v"
  by (simp_all add: records_ok_def)

lemma records_ok_put: "records_ok v \<Longrightarrow> times_ok j \<Longrightarrow> records_ok (put_job now j v)"
  by (auto simp: records_ok_def split: if_splits)

lemma release_stored:
  assumes "records_ok v" "t < now + day"
  shows "stored t (release_view now i v) k =
    (if k = i \<and> stored now v i \<noteq> None then Some (released (the (stored now v i))) else stored t v k)"
  using assms by (auto simp: release_view_def records_ok_def split: option.splits)

lemma release_zset:
  "rv_zset (release_view now i v) keyPrefixScheduled =
     (if stored now v i = None then rv_zset v keyPrefixScheduled else (rv_zset v keyPrefixScheduled)(i := None))"
  by (auto simp: release_view_def unschedule_def split: option.splits)

lemma release_lists:
  assumes "records_ok v"
  shows "rv_list (release_view now i v) k =
    (if \<exists>j. stored now v i = Some j \<and> QueueName (jp_Priority j) = k then i # rv_list v k else rv_list v k)"
  using assms by (auto simp: release_view_def records_ok_def split: option.splits)

lemma release_records:
  assumes "records_ok v"
  shows "records_ok (release_view now i v)"
proof (cases "stored now v i")
  case None
  then show ?thesis using assms by (simp add: release_view_def)
next
  case (Some j)
  then have "times_ok (released j)" using assms by (auto simp: records_ok_def intro: outcome_times)
  then show ?thesis using Some assms by (simp add: release_view_def records_ok_put)
qed

definition goes_to :: "time \<Rightarrow> redis_view \<Rightarrow> string \<Rightarrow> string \<Rightarrow> bool" where
  "goes_to now v k i \<longleftrightarrow> (case stored now v i of None \<Rightarrow> False | Some j \<Rightarrow> QueueName (jp_Priority j) = k)"

lemma release_all:
  assumes "records_ok v" "distinct ids"
  shows "(\<forall>t < now + day. \<forall>i. stored t (foldl (\<lambda>v i. release_view now i v) v ids) i =
            (if i \<in> set ids \<and> stored now v i \<noteq> None then Some (released (the (stored now v i))) else stored t v i))
    \<and> (\<forall>i. rv_zset (foldl (\<lambda>v i. release_view now i v) v ids) keyPrefixScheduled i =
            (if i \<in> set ids \<and> stored now v i \<noteq> None then None else rv_zset v keyPrefixScheduled i))
    \<and> (\<forall>k. rv_list (foldl (\<lambda>v i. release_view now i v) v ids) k = rev (filter (goes_to now v k) ids) @ rv_list v k)"
  using assms
proof (induction ids arbitrary: v)
  case Nil
  then show ?case by simp
next
  case (Cons i ids)
  let ?v = "release_view now i v"
  have notin: "i \<notin> set ids" using Cons.prems(2) by simp
  have st: "\<And>k. k \<noteq> i \<Longrightarrow> stored now ?v k = stored now v k"
    using release_stored [OF Cons.prems(1), of now now i] by simp
  have gt: "\<And>k x. x \<in> set ids \<Longrightarrow> goes_to now ?v k x = goes_to now v k x"
    using st notin by (metis goes_to_def)
  have f: "filter (goes_to now ?v k) ids = filter (goes_to now v k) ids" for k
    using gt by (intro filter_cong) auto
  have l: "rv_list ?v k = (if goes_to now v k i then i # rv_list v k else rv_list v k)" for k
    by (auto simp: release_lists [OF Cons.prems(1)] goes_to_def split: option.splits)
  note ih = Cons.IH [OF release_records [OF Cons.prems(1)], of now i, OF distinct.simps(2) [THEN iffD1, OF Cons.prems(2), THEN conjunct2]]
  show ?case
    using ih notin release_stored [OF Cons.prems(1)] release_zset [of now i v]
    by (auto simp: f l st)
qed

context redis_client
begin

lemma process_loop_ok:
  assumes "up s" "records_ok (view s)" "distinct ids"
  shows "view (snd (process_loop redis now ids n s)) = foldl (\<lambda>v i. release_view now i v) (view s) ids
    \<and> fst (process_loop redis now ids n s) = n + int (length (filter (\<lambda>i. stored now (view s) i \<noteq> None) ids))
    \<and> up (snd (process_loop redis now ids n s))"
  using assms
proof (induction ids arbitrary: s n)
  case Nil
  then show ?case by simp
next
  case (Cons i ids)
  have "\<And>j. stored now (view s) i = Some j \<Longrightarrow> times_ok j" using Cons.prems(2) by (auto simp: records_ok_def)
  then obtain s1 where s1: "up s1" "view s1 = release_view now i (view s)"
      "process_loop redis now (i # ids) n s = process_loop redis now ids (if stored now (view s) i = None then n else n + 1) s1"
    using process_step [OF Cons.prems(1)] by blast
  have "stored now (view s1) k = stored now (view s) k" if "k \<in> set ids" for k
    using release_stored [OF Cons.prems(2), of now now i k] s1(2) that Cons.prems(3) by auto
  then have "filter (\<lambda>k. stored now (view s1) k \<noteq> None) ids = filter (\<lambda>k. stored now (view s) k \<noteq> None) ids"
    by (intro filter_cong) auto
  moreover have "records_ok (view s1)" using release_records [OF Cons.prems(2)] s1(2) by simp
  ultimately show ?case using Cons.IH [OF s1(1), of "if stored now (view s) i = None then n else n + 1"] Cons.prems(3) s1(2,3)
    by (simp del: process_loop.simps)
qed

lemma ProcessScheduled_ok:
  assumes "up s" "records_ok (view s)"
  obtains ids where "distinct ids"
    "set ids = {i. \<exists>sc. rv_zset (view s) keyPrefixScheduled i = Some sc \<and> sc \<le> real_of_int (unix_seconds now)}"
    "sorted (map (\<lambda>i. the (rv_zset (view s) keyPrefixScheduled i)) ids)"
    "fst (ProcessScheduled redis now s) = Inr (int (length (filter (\<lambda>i. stored now (view s) i \<noteq> None) ids)))"
    "view (snd (ProcessScheduled redis now s)) = foldl (\<lambda>v i. release_view now i v) (view s) ids"
    "up (snd (ProcessScheduled redis now s))"
proof -
  let ?c = "ZRANGEBYSCORE keyPrefixScheduled (real_of_int (unix_seconds now))"
  obtain ids where ids: "fst (redis now ?c s) = RStrings ids" "distinct ids"
    "set ids = {i. \<exists>sc. rv_zset (view s) keyPrefixScheduled i = Some sc \<and> sc \<le> real_of_int (unix_seconds now)}"
    "sorted (map (\<lambda>i. the (rv_zset (view s) keyPrefixScheduled i)) ids)"
    using ZRANGEBYSCORE_reply [OF assms(1) queue_key_types(3)] by blast
  let ?s1 = "snd (redis now ?c s)"
  have 1: "view ?s1 = view s" "up ?s1" using assms(1) by (simp_all add: laws)
  have "ProcessScheduled redis now s = (Inr (fst (process_loop redis now ids 0 ?s1)), snd (process_loop redis now ids 0 ?s1))"
    using ids(1) by (simp add: ProcessScheduled_def case_prod_unfold)
  then show ?thesis
    using that [OF ids(2-4)] process_loop_ok [OF 1(2), of ids now 0] assms(2) ids(2) 1(1) by simp
qed

end

text \<open>
  Releasing scheduled jobs. \<^verbatim>\<open>ProcessScheduled\<close> takes exactly the jobs whose second has
  come, in the order of their due times. Each of them that still has a record leaves the
  schedule, becomes pending without a scheduled time and enters the list of its priority, in
  that order; the number of them is returned. No job is released early, and the entries and
  records of all others stay as they were (in particular a due entry whose record has
  expired stays in the schedule for good).
\<close>

theorem scheduled_jobs_released:
  assumes "redis_client redis view up" "up s" "records_ok (view s)" "s1 = snd (ProcessScheduled redis now s)"
  shows "\<exists>ids. distinct ids
    \<and> set ids = {i. \<exists>sc. rv_zset (view s) keyPrefixScheduled i = Some sc \<and> sc \<le> real_of_int (unix_seconds now)}
    \<and> sorted (map (\<lambda>i. the (rv_zset (view s) keyPrefixScheduled i)) ids)
    \<and> fst (ProcessScheduled redis now s) = Inr (int (length (filter (\<lambda>i. stored now (view s) i \<noteq> None) ids)))
    \<and> (\<forall>i. stored now (view s1) i = (if i \<in> set ids then map_option released (stored now (view s) i) else stored now (view s) i))
    \<and> (\<forall>i. rv_zset (view s1) keyPrefixScheduled i =
          (if i \<in> set ids \<and> stored now (view s) i \<noteq> None then None else rv_zset (view s) keyPrefixScheduled i))
    \<and> (\<forall>k. rv_list (view s1) k = rev (filter (goes_to now (view s) k) ids) @ rv_list (view s) k)"
proof -
  obtain ids where ids: "distinct ids"
    "set ids = {i. \<exists>sc. rv_zset (view s) keyPrefixScheduled i = Some sc \<and> sc \<le> real_of_int (unix_seconds now)}"
    "sorted (map (\<lambda>i. the (rv_zset (view s) keyPrefixScheduled i)) ids)"
    "fst (ProcessScheduled redis now s) = Inr (int (length (filter (\<lambda>i. stored now (view s) i \<noteq> None) ids)))"
    "view s1 = foldl (\<lambda>v i. release_view now i v) (view s) ids"
    unfolding assms(4) by (rule redis_client.ProcessScheduled_ok [OF assms(1-3)])
  have "\<forall>i. stored now (view s1) i = (if i \<in> set ids then map_option released (stored now (view s) i) else stored now (view s) i)"
    using release_all [OF assms(3) ids(1), of now] ids(5) by (auto split: option.splits)
  then show ?thesis using release_all [OF assms(3) ids(1), of now] ids by (intro exI [of _ ids]) simp
qed

lemma mem_empty_records: "records_ok (mem_view mem_empty)"
  by (simp add: records_ok_def stored_def)

definition later_job :: JobPayload where
  "later_job = (demo_job ''a'' 1)\<lparr>jp_ScheduledAt := Some (3 * second)\<rparr>"

lemma later_job_enqueued:
  "mem_up (snd (Enqueue mem_redis 5 later_job mem_empty))"
  "mem_view (snd (Enqueue mem_redis 5 later_job mem_empty)) = bump ''pending'' 1 (bump ''enqueued_total'' 1
     (schedule (3 * second) ''a'' (put_job 5 later_job (mem_view mem_empty))))"
proof -
  have j: "times_ok later_job" "jp_UniqueKey later_job = []" "jp_ScheduledAt later_job = Some (3 * second)" "jp_ID later_job = ''a''"
    by (simp_all add: later_job_def demo_job_def times_ok_def time_ok_def)
  show "mem_up (snd (Enqueue mem_redis 5 later_job mem_empty))"
    "mem_view (snd (Enqueue mem_redis 5 later_job mem_empty)) = bump ''pending'' 1 (bump ''enqueued_total'' 1
     (schedule (3 * second) ''a'' (put_job 5 later_job (mem_view mem_empty))))"
    using mem.Enqueue_fresh [OF mem_empty_up j(1), of 5] j(2-4)
    by (auto simp: enqueue_view_def place_def due_later_def hold_unique_def)
qed

theorem scheduled_jobs_released_witness:
  "fst (ProcessScheduled mem_redis (4 * second) (snd (Enqueue mem_redis 5 later_job mem_empty))) = Inr 1
   \<and> fst (ProcessScheduled mem_redis (2 * second) (snd (Enqueue mem_redis 5 later_job mem_empty))) = Inr 0"
proof -
  let ?s = "snd (Enqueue mem_redis 5 later_job mem_empty)"
  have z: "rv_zset (mem_view ?s) keyPrefixScheduled = [''a'' \<mapsto> 3]"
    by (simp add: later_job_enqueued(2)) (simp add: schedule_def unix_seconds_def)
  have st: "stored (4 * second) (mem_view ?s) ''a'' = Some later_job"
    by (simp add: later_job_enqueued(2)) (simp add: later_job_def demo_job_def)
  have "records_ok (mem_view ?s)"
    by (simp add: later_job_enqueued(2) records_ok_put mem_empty_records)
      (simp add: later_job_def demo_job_def records_ok_put mem_empty_records times_ok_def time_ok_def)
  note rel = scheduled_jobs_released [OF mem.redis_client_axioms later_job_enqueued(1) this refl]
  have z4: "{i. \<exists>sc. rv_zset (mem_view ?s) keyPrefixScheduled i = Some sc \<and> sc \<le> real_of_int (unix_seconds (4 * second))} = {''a''}"
    and z2: "{i. \<exists>sc. rv_zset (mem_view ?s) keyPrefixScheduled i = Some sc \<and> sc \<le> real_of_int (unix_seconds (2 * second))} = {}"
    by (auto simp: z unix_seconds_def split: if_splits)
  obtain ids where ids: "distinct ids" "set ids = {''a''}"
      "fst (ProcessScheduled mem_redis (4 * second) ?s)
         = Inr (int (length (filter (\<lambda>i. stored (4 * second) (mem_view ?s) i \<noteq> None) ids)))"
    using rel [of "4 * second", unfolded z4] by blast
  have "fst (ProcessScheduled mem_redis (4 * second) ?s) = Inr 1"
    using ids(3) st unfolding distinct_set_single [OF ids(1,2)] by simp
  moreover obtain ks where "set ks = {}"
      "fst (ProcessScheduled mem_redis (2 * second) ?s)
         = Inr (int (length (filter (\<lambda>i. stored (2 * second) (mem_view ?s) i \<noteq> None) ks)))"
    using rel [of "2 * second", unfolded z2] by blast
  ultimately show ?thesis by simp
qed

subsection \<open>The retry budget\<close>

text \<open>One round of a job that keeps failing: it is taken at \<open>t1\<close>, fails at \<open>t2\<close>, and the
  schedule is processed at \<open>t3\<close>.\<close>

definition fail_round ::
  "(real \<Rightarrow> int) \<Rightarrow> 's redis \<Rightarrow> string \<Rightarrow> string \<Rightarrow> time \<times> time \<times> time \<Rightarrow> 's \<Rightarrow> 's" where
  "fail_round oor redis i err c s = (case c of (t1, t2, t3) \<Rightarrow>
     snd (ProcessScheduled redis t3 (snd (Fail oor redis t2 i err (snd (Dequeue redis t1 [] s))))))"

fun fail_rounds :: "(real \<Rightarrow> int) \<Rightarrow> 's redis \<Rightarrow> string \<Rightarrow> string \<Rightarrow> (time \<times> time \<times> time) list \<Rightarrow> 's \<Rightarrow> 's" where
  "fail_rounds oor redis i err [] s = s"
| "fail_rounds oor redis i err (c # cs) s = fail_rounds oor redis i err cs (fail_round oor redis i err c s)"

text \<open>Rounds that leave the retry delay its time and never leave a record alone for a day.\<close>

fun paced :: "duration \<Rightarrow> time \<Rightarrow> (time \<times> time \<times> time) list \<Rightarrow> bool" where
  "paced d T [] = True"
| "paced d T ((t1, t2, t3) # cs) =
     (t1 < T \<and> time_ok t1 \<and> t1 \<le> t2 \<and> t2 < t1 + day \<and> t2 \<le> t3 \<and> t2 + d \<le> t3 \<and> t3 < t2 + day \<and> time_ok t3 \<and> paced d (t3 + day) cs)"

definition lone_job :: "('s \<Rightarrow> redis_view) \<Rightarrow> ('s \<Rightarrow> bool) \<Rightarrow> time \<Rightarrow> JobPayload \<Rightarrow> 's \<Rightarrow> bool" where
  "lone_job view up T j s \<longleftrightarrow> queue_rep view up T [j] s \<and> rv_zset (view s) keyPrefixScheduled = Map.empty \<and> records_ok (view s)"

definition next_try :: "(real \<Rightarrow> int) \<Rightarrow> time \<Rightarrow> time \<Rightarrow> string \<Rightarrow> JobPayload \<Rightarrow> JobPayload" where
  "next_try oor t1 t2 err j = released (retrying oor t2 err (start_job t1 j))"

lemma next_try_simps [simp]:
  "jp_ID (next_try oor t1 t2 err j) = jp_ID j" "jp_Priority (next_try oor t1 t2 err j) = jp_Priority j"
  "jp_Attempts (next_try oor t1 t2 err j) = jp_Attempts j + 1" "jp_MaxRetries (next_try oor t1 t2 err j) = jp_MaxRetries j"
  "jp_RetryPolicy (next_try oor t1 t2 err j) = jp_RetryPolicy j"
  by (simp_all add: next_try_def released_def retrying_def start_job_def)

lemma next_try_ok: "times_ok j \<Longrightarrow> time_ok t1 \<Longrightarrow> times_ok (next_try oor t1 t2 err j)"
  by (simp add: next_try_def times_ok_def released_def retrying_def start_job_def)

lemma start_job_fields [simp]:
  "jp_Priority (start_job now j) = jp_Priority j" "jp_Attempts (start_job now j) = jp_Attempts j + 1"
  "jp_MaxRetries (start_job now j) = jp_MaxRetries j" "jp_RetryPolicy (start_job now j) = jp_RetryPolicy j"
  by (simp_all add: start_job_def)

lemma time_ok_between: "time_ok a \<Longrightarrow> time_ok c \<Longrightarrow> a \<le> b \<Longrightarrow> b \<le> c \<Longrightarrow> time_ok b"
  by (auto simp: time_ok_def)

lemma single_lists:
  "p \<in> set default_priorities \<Longrightarrow> known_priority j \<Longrightarrow>
     rev (map jp_ID (by_priority p [j])) = (if p = jp_Priority j then [jp_ID j] else [])"
  by (auto simp: by_priority_def)

context redis_client
begin

lemma round_taken:
  assumes "lone_job view up T j s" "t1 < T" "time_ok t1" "s1 = snd (Dequeue redis t1 [] s)"
  shows "up s1" "records_ok (view s1)" "rv_zset (view s1) keyPrefixScheduled = Map.empty"
    "t < t1 + day \<Longrightarrow> stored t (view s1) (jp_ID j) = Some (start_job t1 j)"
    "p \<in> set default_priorities \<Longrightarrow> rv_list (view s1) (QueueName p) = []"
    "rv_list (view s1) keyPrefixDLQ = rv_list (view s) keyPrefixDLQ"
    "times_ok (start_job t1 j)" "known_priority j"
proof -
  have q: "queue_rep view up T [j] s" "rv_zset (view s) keyPrefixScheduled = Map.empty" "records_ok (view s)"
    using assms(1) by (simp_all add: lone_job_def)
  show k: "known_priority j" and t: "times_ok (start_job t1 j)"
    using q(1) assms(3) start_job_times by (auto simp: queue_rep_def)
  have e: "j = hd (service_order [j])" using service_order_single [OF k] by simp
  have v: "view s1 = bump ''pending'' (- 1) (put_job t1 (start_job t1 j) (pop_list (QueueName (jp_Priority j)) (view s)))"
    "up s1" using dequeue_effect [OF q(1) _ assms(2,3) e] assms(4) by simp_all
  show "up s1" by (rule v(2))
  show "records_ok (view s1)" using q(3) t by (simp add: v(1) records_ok_put)
  show "rv_zset (view s1) keyPrefixScheduled = Map.empty" using q(2) by (simp add: v(1))
  show "t < t1 + day \<Longrightarrow> stored t (view s1) (jp_ID j) = Some (start_job t1 j)" by (simp add: v(1))
  show "rv_list (view s1) keyPrefixDLQ = rv_list (view s) keyPrefixDLQ" by (simp add: v(1))
  show "p \<in> set default_priorities \<Longrightarrow> rv_list (view s1) (QueueName p) = []"
    using q(1) k by (auto simp: v(1) queue_rep_def single_lists QueueName_eq_known known_priority_def)
qed

lemma round_retries:
  assumes "lone_job view up T j s" "paced d T [(t1, t2, t3)]" "jp_Attempts j + 1 < jp_MaxRetries j"
    and "0 \<le> CalculateDelay oor (jp_RetryPolicy j) (jp_Attempts j + 1)"
    and "CalculateDelay oor (jp_RetryPolicy j) (jp_Attempts j + 1) \<le> d"
    and "s3 = fail_round oor redis (jp_ID j) err (t1, t2, t3) s"
  shows "lone_job view up (t3 + day) (next_try oor t1 t2 err j) s3
    \<and> rv_list (view s3) keyPrefixDLQ = rv_list (view s) keyPrefixDLQ"
proof -
  let ?s1 = "snd (Dequeue redis t1 [] s)" and ?j1 = "start_job t1 j"
  let ?s2 = "snd (Fail oor redis t2 (jp_ID j) err ?s1)" and ?j2 = "retrying oor t2 err (start_job t1 j)"
  let ?t = "retry_at oor t2 ?j1" and ?n = "next_try oor t1 t2 err j"
  have c: "t1 < T" "time_ok t1" "t1 \<le> t2" "t2 < t1 + day" "t3 < t2 + day" "time_ok t3" "t2 \<le> t3" "t2 + d \<le> t3"
    using assms(2) by auto
  have t: "t2 \<le> ?t" "?t \<le> t3" using assms(4,5) c(8) by (simp_all add: retry_at_def)
  have tok: "time_ok ?t" by (rule time_ok_between [OF c(2,6)]) (use t c(3) in linarith)+
  note r = round_taken [OF assms(1) c(1,2) refl]
  have 2: "view ?s2 = retry_view oor t2 err ?j1 (view ?s1)" "up ?s2"
    using Fail_retry [OF r(1) r(4) [OF c(4)] _ r(7) tok, of err] assms(3) by simp_all
  have st2: "stored t3 (view ?s2) (jp_ID j) = Some ?j2" using c(5) by (simp add: 2(1) retry_view_def)
  have z2: "rv_zset (view ?s2) keyPrefixScheduled = [jp_ID j \<mapsto> real_of_int (unix_seconds ?t)]"
    using r(3) by (simp add: 2(1) retry_view_def) (simp add: schedule_def)
  have ok2: "records_ok (view ?s2)"
    using r(2) outcome_times(2) [OF r(7) tok] by (simp add: 2(1) retry_view_def records_ok_put)
  have "unix_seconds ?t \<le> unix_seconds t3" using t(2) by (simp add: unix_seconds_def zdiv_mono1)
  then have due: "{i. \<exists>sc. rv_zset (view ?s2) keyPrefixScheduled i = Some sc \<and> sc \<le> real_of_int (unix_seconds t3)} = {jp_ID j}"
    by (auto simp: z2 split: if_splits)
  obtain ids where ids: "distinct ids" "set ids = {jp_ID j}"
      "view s3 = foldl (\<lambda>v i. release_view t3 i v) (view ?s2) ids" "up s3"
    using ProcessScheduled_ok [OF 2(2) ok2, of t3] unfolding due assms(6) fail_round_def
    by (metis (no_types, lifting) case_prod_conv)
  have v3: "view s3 = push_list (QueueName (jp_Priority j)) (jp_ID j) (put_job t3 ?n (unschedule (jp_ID j) (view ?s2)))"
    unfolding ids(3) distinct_set_single [OF ids(1,2)]
    by (simp add: release_view_def st2 next_try_def) (simp add: retrying_def)
  have z3: "rv_zset (view s3) keyPrefixScheduled = Map.empty" by (simp add: v3) (simp add: unschedule_def z2)
  have ok3: "records_ok (view s3)" "times_ok ?n"
    using ok2 next_try_ok r(7) c(2) assms(1) by (auto simp: v3 records_ok_put lone_job_def queue_rep_def)
  have "rv_list (view ?s2) = rv_list (view ?s1)" by (simp add: 2(1) retry_view_def)
  then show ?thesis using z3 ok3 ids(4) r(5,6,8)
    by (auto simp: lone_job_def queue_rep_def v3 single_lists QueueName_eq_known known_priority_def)
qed

lemma round_buries:
  assumes "lone_job view up T j s" "paced d T [(t1, t2, t3)]" "\<not> jp_Attempts j + 1 < jp_MaxRetries j"
    and "s3 = fail_round oor redis (jp_ID j) err (t1, t2, t3) s"
  shows "rv_list (view s3) keyPrefixDLQ = jp_ID j # rv_list (view s) keyPrefixDLQ
    \<and> (\<forall>p \<in> set default_priorities. rv_list (view s3) (QueueName p) = [])
    \<and> rv_zset (view s3) keyPrefixScheduled = Map.empty
    \<and> stored t3 (view s3) (jp_ID j) = Some (dead err (start_job t1 j)) \<and> up s3"
proof -
  let ?s1 = "snd (Dequeue redis t1 [] s)" and ?j1 = "start_job t1 j"
  let ?s2 = "snd (Fail oor redis t2 (jp_ID j) err ?s1)"
  have c: "t1 < T" "time_ok t1" "t2 < t1 + day" "t3 < t2 + day" using assms(2) by auto
  note r = round_taken [OF assms(1) c(1,2) refl]
  have 2: "view ?s2 = dead_view t2 err ?j1 (view ?s1)" "up ?s2"
    using Fail_dead [OF r(1) r(4) [OF c(3)] _ r(7), of oor err] assms(3) by simp_all
  have z2: "rv_zset (view ?s2) keyPrefixScheduled = Map.empty" using r(3) by (simp add: 2(1) dead_view_def)
  have ok2: "records_ok (view ?s2)" using r(2) outcome_times(3) [OF r(7)] by (simp add: 2(1) dead_view_def records_ok_put)
  obtain ids where "set ids = {}" "view s3 = foldl (\<lambda>v i. release_view t3 i v) (view ?s2) ids" "up s3"
    using ProcessScheduled_ok [OF 2(2) ok2, of t3] unfolding z2 assms(4) fail_round_def
    by (auto simp: case_prod_conv)
  then have "view s3 = view ?s2" "up s3" by simp_all
  then show ?thesis using z2 r(5,6) c(4) by (simp add: 2(1) dead_view_def)
qed

end

context redis_client
begin

lemma rounds_bury:
  assumes "lone_job view up T j s" "paced (rp_MaxDelay (jp_RetryPolicy j)) T cs" "cs \<noteq> []"
    and "jp_Attempts j + int (length cs) = jp_MaxRetries j"
    and "\<forall>n. 0 \<le> CalculateDelay oor (jp_RetryPolicy j) n" "s' = fail_rounds oor redis (jp_ID j) err cs s"
  shows "rv_list (view s') keyPrefixDLQ = jp_ID j # rv_list (view s) keyPrefixDLQ
    \<and> (\<forall>p \<in> set default_priorities. rv_list (view s') (QueueName p) = [])
    \<and> rv_zset (view s') keyPrefixScheduled = Map.empty
    \<and> (\<exists>d. stored (snd (snd (last cs))) (view s') (jp_ID j) = Some d
           \<and> jp_Status d = JobStatusDead \<and> jp_Attempts d = jp_MaxRetries j)"
  using assms
proof (induction cs arbitrary: T j s)
  case Nil
  then show ?case by simp
next
  case (Cons c cs)
  obtain t1 t2 t3 where c: "c = (t1, t2, t3)" by (cases c)
  let ?s3 = "fail_round oor redis (jp_ID j) err c s" and ?n = "next_try oor t1 t2 err j"
  have p1: "paced (rp_MaxDelay (jp_RetryPolicy j)) T [(t1, t2, t3)]" using Cons.prems(2) c by simp
  show ?case
  proof (cases "cs = []")
    case True
    have "\<not> jp_Attempts j + 1 < jp_MaxRetries j" using Cons.prems(4) True by simp
    from round_buries [OF Cons.prems(1) p1 this, of ?s3 oor err] show ?thesis
      using Cons.prems(4,6) True c by (simp add: dead_def)
  next
    case False
    then have lt: "jp_Attempts j + 1 < jp_MaxRetries j" using Cons.prems(4) by (cases cs) auto
    have l: "lone_job view up (t3 + day) ?n ?s3" "rv_list (view ?s3) keyPrefixDLQ = rv_list (view s) keyPrefixDLQ"
      using round_retries [OF Cons.prems(1) p1 lt _ CalculateDelay_le_max, of oor ?s3 err] Cons.prems(5) c by simp_all
    have "paced (rp_MaxDelay (jp_RetryPolicy ?n)) (t3 + day) cs" using Cons.prems(2) c by simp
    from Cons.IH [OF l(1) this False] show ?thesis
      using Cons.prems(4-6) l(2) False by simp
  qed
qed

end


definition fixed_job :: JobPayload where
  "fixed_job = (demo_job ''a'' 1)\<lparr>jp_RetryPolicy := DefaultRetryPolicy\<lparr>rp_Strategy := RetryStrategyFixed\<rparr>\<rparr>"

lemma fixed_job_simps [simp]:
  "jp_ID fixed_job = ''a''" "jp_Priority fixed_job = 1" "jp_UniqueKey fixed_job = []" "jp_ScheduledAt fixed_job = None"
  "times_ok fixed_job" "jp_Attempts fixed_job = 0" "jp_MaxRetries fixed_job = 3"
  "jp_RetryPolicy fixed_job = DefaultRetryPolicy\<lparr>rp_Strategy := RetryStrategyFixed\<rparr>"
  by (simp_all add: fixed_job_def demo_job_def times_ok_def time_ok_def)

lemma fixed_job_alone: "lone_job mem_view mem_up (5 + day) fixed_job (snd (Enqueue mem_redis 5 fixed_job mem_empty))"
proof -
  have k: "known_priority fixed_job" by (simp add: known_priority_def default_priorities_def priority_defs)
  have d: "\<not> due_later 5 fixed_job" by (simp add: due_later_def)
  have r: "queue_rep mem_view mem_up (5 + day) [fixed_job] (snd (Enqueue mem_redis 5 fixed_job mem_empty))"
    using mem.enqueue_rep [OF mem.empty_queue_rep [OF mem_empty_up], of "5 + day" 5 fixed_job] k d by simp
  have v: "mem_view (snd (Enqueue mem_redis 5 fixed_job mem_empty)) = enqueue_view 5 fixed_job (mem_view mem_empty)"
    using mem.Enqueue_fresh [OF mem_empty_up, of fixed_job 5] by simp
  have "records_ok (enqueue_view 5 fixed_job (mem_view mem_empty))"
    using d by (simp add: enqueue_view_def place_def hold_unique_def records_ok_put mem_empty_records)
  then show ?thesis using r d by (simp add: lone_job_def v) (simp add: enqueue_view_def place_def hold_unique_def)
qed


subsection \<open>Jobs that are passed over or lost\<close>

text \<open>
  An identifier without a record hides the jobs behind it. If the oldest identifier of
  a priority has lost its record (expired or deleted while running), \<^verbatim>\<open>Dequeue\<close> drops it but
  then moves on to the lower priorities: with no other jobs it reports an empty queue
  although the list still holds the job behind it.
\<close>

theorem dangling_id_hides_jobs:
  assumes "redis_client redis view up" "up s" "p \<in> set default_priorities"
    and "rv_list (view s) (QueueName p) = xs @ [k, i]" "stored now (view s) i = None" "stored now (view s) k = Some j"
    and "\<forall>q \<in> set default_priorities. q \<noteq> p \<longrightarrow> rv_list (view s) (QueueName q) = []"
  shows "fst (Dequeue redis now [] s) = Inl ErrQueueEmpty
    \<and> rv_list (view (snd (Dequeue redis now [] s))) (QueueName p) = xs @ [k]"
proof -
  obtain qs rs where q: "default_priorities = qs @ p # rs" "p \<notin> set qs" using assms(3) split_list_first by metis
  have "distinct default_priorities" by (simp add: default_priorities_def priority_defs)
  then have nr: "p \<notin> set rs" unfolding q(1) by simp
  have sub: "set qs \<subseteq> set default_priorities" "set rs \<subseteq> set default_priorities" unfolding q(1) by auto
  have "\<forall>q\<in>set qs. rv_list (view s) (QueueName q) = []" using assms(7) q(2) sub(1) by auto
  then obtain s1 where s1: "up s1" "view s1 = view s" "Dequeue redis now [] s = dequeue_loop redis now (p # rs) s1"
    using redis_client.dequeue_skip_empty [OF assms(1,2), of qs now "p # rs"] q(1) by (auto simp: Dequeue_def)
  have l: "rv_list (view s1) (QueueName p) = (xs @ [k]) @ [i]" using assms(4) s1(2) by simp
  obtain s2 where s2: "up s2" "view s2 = pop_list (QueueName p) (view s)"
      "Dequeue redis now [] s = dequeue_loop redis now rs s2"
    using redis_client.dequeue_dangling [OF assms(1) s1(1) l, of now rs] assms(5) s1(2,3) by auto
  have "\<forall>r\<in>set rs. rv_list (view s2) (QueueName r) = []"
    using assms(3,7) sub(2) nr by (auto simp: s2(2) QueueName_eq_known subset_iff)
  then obtain s3 where "view s3 = view s2" "Dequeue redis now [] s = (Inl ErrQueueEmpty, s3)"
    using redis_client.dequeue_skip_empty [OF assms(1) s2(1), of rs now "[]"] s2(3) by auto
  then show ?thesis using assms(4) by (simp add: s2(2) butlast_append)
qed

definition dangling_store :: mem where
  "dangling_store = mem_empty\<lparr>m_list := (m_list mem_empty)(QueueName 1 := [''b'', ''a'']),
     m_str := (m_str mem_empty)(keyPrefixJob @ ''b'' \<mapsto> (Doc (job_doc (demo_job ''b'' 1)), None))\<rparr>"

theorem dangling_id_hides_jobs_witness:
  "fst (Dequeue mem_redis 5 [] dangling_store) = Inl ErrQueueEmpty
   \<and> stored 5 (mem_view dangling_store) ''b'' = Some (demo_job ''b'' 1)"
proof -
  have st: "stored 5 (mem_view dangling_store) ''b'' = Some (demo_job ''b'' 1)"
    "stored 5 (mem_view dangling_store) ''a'' = None"
    by (simp_all add: stored_def look_def dangling_store_def mem_view_def mem_empty_def live_def)
  have l: "rv_list (mem_view dangling_store) (QueueName 1) = [] @ [''b'', ''a'']"
    "\<forall>q \<in> {0, 2, 3}. rv_list (mem_view dangling_store) (QueueName q) = []"
    by (auto simp: dangling_store_def mem_view_def mem_empty_def QueueName_inj)
  have "mem_up dangling_store" by (simp add: mem_up_def dangling_store_def mem_empty_def)
  then show ?thesis
    using dangling_id_hides_jobs [OF mem.redis_client_axioms _ _ l(1) st(2,1)] l(2) st(1)
    by (simp add: default_priorities_def priority_defs)
qed

text \<open>
  Retrying a dead job can lose it. \<^verbatim>\<open>RetryDLQJob\<close> takes the job out of the dead letter
  list before it enqueues the copy; if another job meanwhile holds the unique key (burying
  a job gives its key back), the enqueue is refused as a duplicate and the job is then in
  no list and no schedule.
\<close>

theorem dlq_retry_loses_job:
  assumes "redis_client redis view up" "up s" "stored now (view s) i = Some j" "jp_UniqueKey j \<noteq> []"
    and "look (view s) now (keyPrefixUnique @ jp_UniqueKey j) \<noteq> None"
    and "rv_list (view s) keyPrefixDLQ = xs @ i # ys" "i \<notin> set xs"
    and "s1 = snd (RetryDLQJob redis now uuid i s)"
  shows "fst (RetryDLQJob redis now uuid i s) = Some ErrDuplicateJob
    \<and> rv_list (view s1) = (rv_list (view s))(keyPrefixDLQ := xs @ ys) \<and> rv_zset (view s1) = rv_zset (view s)"
proof -
  let ?s1 = "snd (GetJob redis now i s)"
  let ?s2 = "snd (redis now (LREM keyPrefixDLQ 1 i) ?s1)"
  let ?j = "j\<lparr>jp_Status := JobStatusPending, jp_Attempts := 0, jp_LastError := [], jp_ID := uuid\<rparr>"
  have 1: "fst (GetJob redis now i s) = Inr j" "view ?s1 = view s" "up ?s1"
    using redis_client.GetJob_stored [OF assms(1)] redis_client.GetJob_frame [OF assms(1)] assms(2,3) by auto
  have r: "list_rem 1 i (xs @ i # ys) = xs @ ys" using assms(7) by (simp add: list_rem_def remove1_append)
  have 2: "fst (redis now (LREM keyPrefixDLQ 1 i) ?s1) \<noteq> RErr" "up ?s2"
    "view ?s2 = (view s)\<lparr>rv_list := (rv_list (view s))(keyPrefixDLQ := xs @ ys)\<rparr>"
    using 1(2,3) assms(6) r
    by (simp_all add: redis_client.LREM_reply [OF assms(1)] redis_client.LREM_view [OF assms(1)] redis_client.stays_up [OF assms(1)])
  have "look (view ?s2) now (keyPrefixUnique @ jp_UniqueKey ?j) \<noteq> None" using assms(5) by (simp add: 2(3) look_def)
  then have 3: "fst (Enqueue redis now ?j ?s2) = Some ErrDuplicateJob" "view (snd (Enqueue redis now ?j ?s2)) = view ?s2"
    using redis_client.Enqueue_duplicate [OF assms(1) 2(2), of ?j now] assms(4) by auto
  have "RetryDLQJob redis now uuid i s = Enqueue redis now ?j ?s2"
    using 1(1) 2(1) by (simp add: RetryDLQJob_def case_prod_unfold)
  then show ?thesis using 3 assms(8) by (simp add: 2(3))
qed

definition lost_store :: mem where
  "lost_store = mem_empty\<lparr>m_list := (m_list mem_empty)(keyPrefixDLQ := [''a'']),
     m_str := (m_str mem_empty)(keyPrefixJob @ ''a'' \<mapsto> (Doc (job_doc keyed_job), None),
                                keyPrefixUnique @ ''report'' \<mapsto> (Text ''b'', None))\<rparr>"

theorem dlq_retry_loses_job_witness:
  "fst (RetryDLQJob mem_redis 5 ''fresh'' ''a'' lost_store) = Some ErrDuplicateJob
   \<and> rv_list (mem_view (snd (RetryDLQJob mem_redis 5 ''fresh'' ''a'' lost_store))) keyPrefixDLQ = []"
proof -
  have "mem_up lost_store" by (simp add: mem_up_def lost_store_def mem_empty_def)
  moreover have "stored 5 (mem_view lost_store) ''a'' = Some keyed_job"
    by (simp add: stored_def look_def lost_store_def mem_view_def mem_empty_def live_def)
  moreover have "look (mem_view lost_store) 5 (keyPrefixUnique @ jp_UniqueKey keyed_job) \<noteq> None"
    "rv_list (mem_view lost_store) keyPrefixDLQ = [] @ ''a'' # []"
    by (simp_all add: look_def lost_store_def mem_view_def mem_empty_def live_def)
  ultimately show ?thesis
    using dlq_retry_loses_job [OF mem.redis_client_axioms, of lost_store 5 "''a''" keyed_job "[]" "[]" _ "''fresh''", OF _ _ _ _ _ _ refl]
    by simp
qed

text \<open>
  Deleting a job removes every trace of it: afterwards it has no record, its identifier
  is in neither its priority's list nor the schedule nor the dead letter list, its unique
  key is free, and further operations report \<^verbatim>\<open>ErrJobNotFound\<close>.
\<close>

theorem delete_removes_job:
  assumes "redis_client redis view up" "up s" "stored now (view s) i = Some j" "s1 = snd (DeleteJob redis now i s)"
  shows "fst (DeleteJob redis now i s) = None
    \<and> look (view s1) t (keyPrefixJob @ i) = None
    \<and> i \<notin> set (rv_list (view s1) (QueueName (jp_Priority j))) \<and> i \<notin> set (rv_list (view s1) keyPrefixDLQ)
    \<and> rv_zset (view s1) keyPrefixScheduled i = None
    \<and> (jp_UniqueKey j \<noteq> [] \<longrightarrow> look (view s1) t (keyPrefixUnique @ jp_UniqueKey j) = None)
    \<and> fst (GetJob redis t i s1) = Inl ErrJobNotFound \<and> fst (Complete redis t i s1) = Some ErrJobNotFound
    \<and> fst (Fail oor redis t i err s1) = Some ErrJobNotFound"
proof -
  have 1: "fst (GetJob redis now i s) = Inr j" "view (snd (GetJob redis now i s)) = view s" "up (snd (GetJob redis now i s))"
    using redis_client.GetJob_stored [OF assms(1)] redis_client.GetJob_frame [OF assms(1)] assms(2,3) by auto
  note laws = redis_client.DEL_view [OF assms(1)] redis_client.LREM_view [OF assms(1)]
    redis_client.ZREM_view [OF assms(1)] redis_client.stays_up [OF assms(1)]
  have d: "fst (DeleteJob redis now i s) = None" "up s1"
    "look (view s1) u (keyPrefixJob @ i) = None"
    "rv_list (view s1) (QueueName (jp_Priority j)) = removeAll i (rv_list (view s) (QueueName (jp_Priority j)))"
    "rv_list (view s1) keyPrefixDLQ = removeAll i (rv_list (view s) keyPrefixDLQ)"
    "rv_zset (view s1) keyPrefixScheduled i = None"
    "jp_UniqueKey j \<noteq> [] \<Longrightarrow> look (view s1) u (keyPrefixUnique @ jp_UniqueKey j) = None" for u
    using 1 by (simp_all add: assms(4) DeleteJob_def case_prod_unfold Let_def laws look_def list_rem_def)
  show ?thesis
    using d redis_client.unknown_job [OF assms(1) d(2) d(3)] by simp
qed

theorem delete_removes_job_witness:
  "fst (DeleteJob mem_redis 5 ''a'' lost_store) = None
   \<and> fst (GetJob mem_redis 6 ''a'' (snd (DeleteJob mem_redis 5 ''a'' lost_store))) = Inl ErrJobNotFound"
proof -
  have "mem_up lost_store" by (simp add: mem_up_def lost_store_def mem_empty_def)
  moreover have "stored 5 (mem_view lost_store) ''a'' = Some keyed_job"
    by (simp add: stored_def look_def lost_store_def mem_view_def mem_empty_def live_def)
  ultimately show ?thesis
    using delete_removes_job [OF mem.redis_client_axioms, of lost_store 5 "''a''" keyed_job _ 6, OF _ _ refl] by blast
qed

end
