(* ===== verification/Job_Scheduler.thy ===== *)
theory Job_Scheduler
  imports Queue_Properties
begin

text \<open>
  \<^verbatim>\<open>internal/jobs/scheduler/scheduler.go\<close>: recurring jobs. Several instances of the service run
  a scheduler; they elect a leader through a lease in Redis, and the leader turns the firing
  of a cron entry into an enqueued job, at most once for each execution window.

  The cron library is an argument: \<open>parse5\<close> is its parser for five fields, \<open>parse6\<close> the parser of
  a \<^verbatim>\<open>cron.New(cron.WithSeconds())\<close>, \<open>next\<close> the \<^verbatim>\<open>Next\<close> of a parsed schedule. So are
  \<^verbatim>\<open>sha256.Sum256\<close> (\<open>sum256\<close>), and the rendering of the payload of a job, a value of any type,
  by \<^verbatim>\<open>%v\<close> and by \<^verbatim>\<open>json.Marshal\<close>. Where several commands to Redis are not atomic and it matters,
  an operation is split between them into a \<open>_begin\<close> and an \<open>_end\<close>.
\<close>

subsection \<open>Calendar\<close>

text \<open>Days since the epoch and the dates of the Gregorian calendar; a year is counted from
  March on, so that the leap day is its last.\<close>

definition days_before_year :: "int \<Rightarrow> int" where
  "days_before_year y = 365 * y + y div 4 - y div 100 + y div 400"

definition days_from_civil :: "int \<Rightarrow> int \<Rightarrow> int \<Rightarrow> int" where
  "days_from_civil y m d =
     (let y1 = (if m \<le> 2 then y - 1 else y);
          mp = (if m > 2 then m - 3 else m + 9)
      in days_before_year y1 + (153 * mp + 2) div 5 + (d - 1) - 719468)"

definition civil_from_days :: "int \<Rightarrow> int \<times> int \<times> int" where
  "civil_from_days days =
     (let z = days + 719468;
          era = z div 146097;
          doe = z mod 146097;
          yoe = (doe - doe div 1460 + doe div 36524 - doe div 146096) div 365;
          doy = doe - (365 * yoe + yoe div 4 - yoe div 100);
          mp = (5 * doy + 2) div 153;
          d = doy - (153 * mp + 2) div 5 + 1;
          m = (if mp < 10 then mp + 3 else mp - 9)
      in (yoe + era * 400 + (if m \<le> 2 then 1 else 0), m, d))"

definition pad :: "nat \<Rightarrow> int \<Rightarrow> string" where
  "pad w n = (let ds = nat_digits (nat \<bar>n\<bar>)
     in (if n < 0 then ''-'' else []) @ replicate (w - length ds) (CHR ''0'') @ ds)"

definition fmt_month :: "time \<Rightarrow> string" where
  "fmt_month t = (case civil_from_days (t div day) of (y, m, d) \<Rightarrow> pad 4 y @ ''-'' @ pad 2 m)"

definition fmt_date :: "time \<Rightarrow> string" where
  "fmt_date t = (case civil_from_days (t div day) of (y, m, d) \<Rightarrow> fmt_month t @ ''-'' @ pad 2 d)"

definition fmt_hour :: "time \<Rightarrow> string" where
  "fmt_hour t = fmt_date t @ ''T'' @ pad 2 (t mod day div hour)"

definition minute_of :: "time \<Rightarrow> int" where
  "minute_of t = t mod hour div minute"

definition fmt_minute :: "time \<Rightarrow> string" where
  "fmt_minute t = fmt_hour t @ '':'' @ pad 2 (minute_of t)"

text \<open>\<^verbatim>\<open>ISOWeek\<close>: the year of the Thursday of the week, and the week of that day in its year.\<close>

definition iso_week :: "time \<Rightarrow> int \<times> int" where
  "iso_week t =
     (let days = t div day;
          thursday = days - (days + 3) mod 7 + 3;
          year = fst (civil_from_days thursday)
      in (year, (thursday - days_from_civil year 1 1) div 7 + 1))"

subsection \<open>Data\<close>

definition EveryMinute :: string where "EveryMinute = ''* * * * *''"
definition EveryFiveMinutes :: string where "EveryFiveMinutes = ''*/5 * * * *''"
definition EveryHour :: string where "EveryHour = ''0 * * * *''"
definition DailyMidnight :: string where "DailyMidnight = ''0 0 * * *''"
definition WeeklyMonday :: string where "WeeklyMonday = ''0 0 * * 1''"
definition MonthlyFirst :: string where "MonthlyFirst = ''0 0 1 * *''"
definition leaderKey :: string where "leaderKey = ''arcana:jobs:scheduler:leader''"
definition cronExecutionPrefix :: string where "cronExecutionPrefix = ''arcana:jobs:cron:execution:''"
definition cronLockPrefix :: string where "cronLockPrefix = ''arcana:jobs:cron:lock:''"

lemmas schedule_defs = EveryMinute_def EveryFiveMinutes_def EveryHour_def DailyMidnight_def WeeklyMonday_def MonthlyFirst_def

record SchedulerConfig =
  so_LeaderLockTTL :: duration
  so_CronExecutionLockTTL :: duration
  so_CronDeduplicationTTL :: duration

definition DefaultSchedulerConfig :: SchedulerConfig where
  "DefaultSchedulerConfig = \<lparr>so_LeaderLockTTL = 30 * second, so_CronExecutionLockTTL = 60 * second,
     so_CronDeduplicationTTL = 24 * hour\<rparr>"

record 'p ScheduledJob =
  sj_Name :: string
  sj_Schedule :: string
  sj_JobType :: string
  sj_Payload :: 'p
  sj_Priority :: Priority
  sj_UniqueKey :: string
  sj_Tags :: "string list"
  sj_Singleton :: bool

text \<open>The entries of the cron object are the jobs that were added to it, the job table a map.
  \<open>sc_stopClosed\<close> is the state of the stop channel, \<open>sc_elections\<close> the number of election loops
  that were started.\<close>

record 'p Scheduler =
  sc_config :: SchedulerConfig
  sc_entries :: "'p ScheduledJob list"
  sc_jobs :: "string \<rightharpoonup> 'p ScheduledJob"
  sc_instanceID :: string
  sc_isLeader :: bool
  sc_running :: bool
  sc_stopClosed :: bool
  sc_elections :: nat

definition NewSchedulerWithConfig :: "string \<Rightarrow> SchedulerConfig \<Rightarrow> 'p Scheduler" where
  "NewSchedulerWithConfig uuid config = \<lparr>sc_config = config, sc_entries = [], sc_jobs = Map.empty,
     sc_instanceID = uuid, sc_isLeader = False, sc_running = False, sc_stopClosed = False, sc_elections = 0\<rparr>"

definition NewScheduler :: "string \<Rightarrow> 'p Scheduler" where
  "NewScheduler uuid = NewSchedulerWithConfig uuid DefaultSchedulerConfig"

subsection \<open>Registration and life cycle\<close>

datatype sched_error = AlreadyRegistered string | InvalidCron | AlreadyRunning | NotFound string | SchedRedis

definition RegisterJob :: "(string \<Rightarrow> 'c option) \<Rightarrow> 'p ScheduledJob \<Rightarrow> 'p Scheduler \<Rightarrow> sched_error option \<times> 'p Scheduler" where
  "RegisterJob parse5 job sc =
     (if sc_jobs sc (sj_Name job) \<noteq> None then (Some (AlreadyRegistered (sj_Name job)), sc)
      else case parse5 (sj_Schedule job) of
             None \<Rightarrow> (Some InvalidCron, sc)
           | Some _ \<Rightarrow> (None, sc\<lparr>sc_jobs := (sc_jobs sc)(sj_Name job \<mapsto> job)\<rparr>))"

text \<open>\<open>names\<close> lists the keys of the job table in the order the loop happens to visit them. A
  schedule the cron object cannot parse is logged and left out.\<close>

fun setupCronJobs :: "(string \<Rightarrow> 'c option) \<Rightarrow> string list \<Rightarrow> 'p Scheduler \<Rightarrow> 'p Scheduler" where
  "setupCronJobs parse6 [] sc = sc"
| "setupCronJobs parse6 (n # ns) sc =
     (case sc_jobs sc n of
        None \<Rightarrow> setupCronJobs parse6 ns sc
      | Some j \<Rightarrow>
          (case parse6 (sj_Schedule j) of
             None \<Rightarrow> setupCronJobs parse6 ns sc
           | Some _ \<Rightarrow> setupCronJobs parse6 ns (sc\<lparr>sc_entries := sc_entries sc @ [j]\<rparr>)))"

definition sched_Start :: "(string \<Rightarrow> 'c option) \<Rightarrow> string list \<Rightarrow> 'p Scheduler \<Rightarrow> sched_error option \<times> 'p Scheduler" where
  "sched_Start parse6 names sc =
     (if sc_running sc then (Some AlreadyRunning, sc)
      else (None, setupCronJobs parse6 names (sc\<lparr>sc_running := True, sc_elections := Suc (sc_elections sc)\<rparr>)))"

subsection \<open>Leader election\<close>

datatype renewal = Settled | Renewing

text \<open>\<^verbatim>\<open>tryAcquireLeadership\<close> up to the comparison of the current leader, and from the renewal on.
  \<^verbatim>\<open>Expire\<close> counts in whole seconds.\<close>

definition tryAcquire_begin :: "'s redis \<Rightarrow> time \<Rightarrow> 'p Scheduler \<times> 's \<Rightarrow> renewal \<times> 'p Scheduler \<times> 's" where
  "tryAcquire_begin redis now = (\<lambda>(sc, s).
     (case redis now (SETNX leaderKey (Text (sc_instanceID sc)) (so_LeaderLockTTL (sc_config sc))) s of
        (RInt n, s1) \<Rightarrow>
          if n \<noteq> 0 then (Settled, sc\<lparr>sc_isLeader := True\<rparr>, s1)
          else (case redis now (GET leaderKey) s1 of
                  (RBulk (Text currentLeader), s2) \<Rightarrow>
                    if currentLeader = sc_instanceID sc then (Renewing, sc, s2)
                    else (Settled, sc\<lparr>sc_isLeader := False\<rparr>, s2)
                | (_, s2) \<Rightarrow> (Settled, sc\<lparr>sc_isLeader := False\<rparr>, s2))
      | (_, s1) \<Rightarrow> (Settled, sc\<lparr>sc_isLeader := False\<rparr>, s1)))"

definition tryAcquire_end :: "'s redis \<Rightarrow> time \<Rightarrow> 'p Scheduler \<times> 's \<Rightarrow> 'p Scheduler \<times> 's" where
  "tryAcquire_end redis now = (\<lambda>(sc, s).
     (sc\<lparr>sc_isLeader := True\<rparr>, snd (redis now (EXPIRE leaderKey (ex (so_LeaderLockTTL (sc_config sc)))) s)))"

definition tryAcquireLeadership :: "'s redis \<Rightarrow> time \<Rightarrow> 'p Scheduler \<times> 's \<Rightarrow> 'p Scheduler \<times> 's" where
  "tryAcquireLeadership redis now c =
     (case tryAcquire_begin redis now c of
        (Settled, c1) \<Rightarrow> c1
      | (Renewing, c1) \<Rightarrow> tryAcquire_end redis now c1)"

text \<open>\<^verbatim>\<open>leaderElectionLoop\<close> tries once and then at every tick, until the stop channel or the
  context is closed. When several branches of its \<^verbatim>\<open>select\<close> are ready, Go takes any.\<close>

datatype election_action = ElectionExit | ElectionTry

definition leaderElectionLoop_ready :: "'p Scheduler \<Rightarrow> bool \<Rightarrow> bool \<Rightarrow> election_action set" where
  "leaderElectionLoop_ready sc ctxDone ticked =
     (if sc_stopClosed sc \<or> ctxDone then {ElectionExit} else {}) \<union> (if ticked then {ElectionTry} else {})"

definition releaseLeadership_begin :: "'s redis \<Rightarrow> time \<Rightarrow> 'p Scheduler \<times> 's \<Rightarrow> bool \<times> 's" where
  "releaseLeadership_begin redis now = (\<lambda>(sc, s).
     (case redis now (GET leaderKey) s of
        (RBulk (Text currentLeader), s1) \<Rightarrow> (currentLeader = sc_instanceID sc, s1)
      | (_, s1) \<Rightarrow> (False, s1)))"

definition releaseLeadership_end :: "'s redis \<Rightarrow> time \<Rightarrow> bool \<Rightarrow> 'p Scheduler \<times> 's \<Rightarrow> 'p Scheduler \<times> 's" where
  "releaseLeadership_end redis now ours = (\<lambda>(sc, s).
     (sc\<lparr>sc_isLeader := False\<rparr>, if ours then snd (redis now (DEL leaderKey) s) else s))"

definition releaseLeadership :: "'s redis \<Rightarrow> time \<Rightarrow> 'p Scheduler \<times> 's \<Rightarrow> 'p Scheduler \<times> 's" where
  "releaseLeadership redis now = (\<lambda>(sc, s).
     (if \<not> sc_isLeader sc then (sc, s)
      else case releaseLeadership_begin redis now (sc, s) of
             (ours, s1) \<Rightarrow> releaseLeadership_end redis now ours (sc, s1)))"

definition IsLeader :: "'p Scheduler \<Rightarrow> bool" where
  "IsLeader sc = sc_isLeader sc"

text \<open>Closing the stop channel a second time panics, the result \<open>None\<close>.\<close>

definition sched_Stop :: "'s redis \<Rightarrow> time \<Rightarrow> 'p Scheduler \<times> 's \<Rightarrow> ('p Scheduler \<times> 's) option" where
  "sched_Stop redis now = (\<lambda>(sc, s).
     (if \<not> sc_running sc then Some (sc, s)
      else if sc_stopClosed sc then None
      else Some (releaseLeadership redis now (sc\<lparr>sc_running := False, sc_stopClosed := True\<rparr>, s))))"

subsection \<open>Execution\<close>

definition getExecutionWindow :: "time \<Rightarrow> string \<Rightarrow> string" where
  "getExecutionWindow now sched =
     (if sched = EveryMinute then fmt_minute now
      else if sched = EveryFiveMinutes then fmt_hour now @ '':'' @ pad 2 (minute_of now div 5 * 5)
      else if sched = EveryHour then fmt_hour now
      else if sched = DailyMidnight then fmt_date now
      else if sched = WeeklyMonday then (case iso_week now of (year, week) \<Rightarrow> itoa year @ ''-W'' @ pad 2 week)
      else if sched = MonthlyFirst then fmt_month now
      else fmt_minute now)"

definition generateExecutionKey :: "string \<Rightarrow> string \<Rightarrow> string" where
  "generateExecutionKey jobName window = jobName @ '':'' @ window"

definition hex_digit :: "nat \<Rightarrow> char" where
  "hex_digit n = (if n < 10 then char_of (48 + n) else char_of (87 + n))"

definition hex_encode :: "string \<Rightarrow> string" where
  "hex_encode bs = concat (map (\<lambda>c. [hex_digit (of_char c div 16), hex_digit (of_char c mod 16)]) bs)"

definition generateJobUniqueKey ::
  "(string \<Rightarrow> string) \<Rightarrow> ('p \<Rightarrow> string) \<Rightarrow> 'p ScheduledJob \<Rightarrow> string \<Rightarrow> string" where
  "generateJobUniqueKey sum256 fmt_v job window =
     (let baseKey = (if sj_UniqueKey job = [] then sj_Name job else sj_UniqueKey job);
          data = baseKey @ '':'' @ sj_JobType job @ '':'' @ window @ '':'' @ fmt_v (sj_Payload job)
      in ''cron:'' @ sj_Name job @ '':'' @ hex_encode (take 8 (sum256 data)))"

definition acquireCronExecutionLock :: "'s redis \<Rightarrow> time \<Rightarrow> string \<Rightarrow> 'p Scheduler \<Rightarrow> 's \<Rightarrow> (sched_error + bool) \<times> 's" where
  "acquireCronExecutionLock redis now executionKey sc s =
     (case redis now (SETNX (cronExecutionPrefix @ executionKey) (Text (sc_instanceID sc))
                        (so_CronDeduplicationTTL (sc_config sc))) s of
        (RInt acquired, s1) \<Rightarrow> (Inr (acquired \<noteq> 0), s1)
      | (_, s1) \<Rightarrow> (Inl SchedRedis, s1))"

definition isSingletonJobRunning :: "'s redis \<Rightarrow> time \<Rightarrow> string \<Rightarrow> 's \<Rightarrow> (sched_error + bool) \<times> 's" where
  "isSingletonJobRunning redis now jobName s =
     (case redis now (EXISTS (cronLockPrefix @ ''singleton:'' @ jobName)) s of
        (RInt exists, s1) \<Rightarrow> (Inr (exists > 0), s1)
      | (_, s1) \<Rightarrow> (Inl SchedRedis, s1))"

definition AcquireSingletonLock :: "'s redis \<Rightarrow> time \<Rightarrow> string \<Rightarrow> duration \<Rightarrow> 'p Scheduler \<Rightarrow> 's \<Rightarrow> (sched_error + bool) \<times> 's" where
  "AcquireSingletonLock redis now jobName ttl sc s =
     (case redis now (SETNX (cronLockPrefix @ ''singleton:'' @ jobName) (Text (sc_instanceID sc)) ttl) s of
        (RInt acquired, s1) \<Rightarrow> (Inr (acquired \<noteq> 0), s1)
      | (_, s1) \<Rightarrow> (Inl SchedRedis, s1))"

definition ReleaseSingletonLock :: "'s redis \<Rightarrow> time \<Rightarrow> string \<Rightarrow> 'p Scheduler \<Rightarrow> 's \<Rightarrow> sched_error option \<times> 's" where
  "ReleaseSingletonLock redis now jobName sc s =
     (let lockKey = cronLockPrefix @ ''singleton:'' @ jobName
      in case redis now (GET lockKey) s of
           (RErr, s1) \<Rightarrow> (Some SchedRedis, s1)
         | (RBulk (Text val), s1) \<Rightarrow>
             if val = sc_instanceID sc
             then (case redis now (DEL lockKey) s1 of (r, s2) \<Rightarrow> (if r = RErr then Some SchedRedis else None, s2))
             else (None, s1)
         | (_, s1) \<Rightarrow> (None, s1))"

text \<open>The job a firing makes. \<open>marshal\<close> is \<^verbatim>\<open>json.Marshal\<close>.\<close>

definition cron_payload ::
  "(string \<Rightarrow> string) \<Rightarrow> ('p \<Rightarrow> string) \<Rightarrow> ('p \<Rightarrow> json option) \<Rightarrow> string \<Rightarrow> time \<Rightarrow> 'p ScheduledJob
     \<Rightarrow> job_error + JobPayload" where
  "cron_payload sum256 fmt_v marshal uuid now job =
     NewJobPayload uuid now (sj_JobType job) (marshal (sj_Payload job))
       [WithPriority (sj_Priority job),
        WithTags (sj_Tags job @ [''scheduled'', ''cron:'' @ sj_Name job]),
        WithUniqueKey (generateJobUniqueKey sum256 fmt_v job (getExecutionWindow now (sj_Schedule job)))]"

definition executeScheduledJob ::
  "(string \<Rightarrow> string) \<Rightarrow> ('p \<Rightarrow> string) \<Rightarrow> ('p \<Rightarrow> json option) \<Rightarrow> 's redis \<Rightarrow> string \<Rightarrow> time \<Rightarrow> 'p ScheduledJob
     \<Rightarrow> 'p Scheduler \<Rightarrow> 's \<Rightarrow> 's" where
  "executeScheduledJob sum256 fmt_v marshal redis uuid now job sc s =
     (if \<not> sc_isLeader sc then s
      else let executionKey = generateExecutionKey (sj_Name job) (getExecutionWindow now (sj_Schedule job))
           in case acquireCronExecutionLock redis now executionKey sc s of
                (Inl _, s1) \<Rightarrow> s1
              | (Inr False, s1) \<Rightarrow> s1
              | (Inr True, s1) \<Rightarrow>
                  (case (if sj_Singleton job then isSingletonJobRunning redis now (sj_Name job) s1 else (Inr False, s1)) of
                     (Inr True, s2) \<Rightarrow> s2
                   | (_, s2) \<Rightarrow>
                       (case cron_payload sum256 fmt_v marshal uuid now job of
                          Inl _ \<Rightarrow> s2
                        | Inr payload \<Rightarrow> snd (Enqueue redis now payload s2))))"

subsection \<open>Queries\<close>

record ScheduledJobInfo =
  si_Name :: string
  si_Schedule :: string
  si_JobType :: string
  si_NextRun :: time
  si_Priority :: string
  si_Singleton :: bool

definition ListScheduledJobs :: "string list \<Rightarrow> 'p Scheduler \<Rightarrow> 'p ScheduledJob list" where
  "ListScheduledJobs names sc = map (\<lambda>n. the (sc_jobs sc n)) names"

definition ListJobs :: "string list \<Rightarrow> 'p Scheduler \<Rightarrow> ScheduledJobInfo list" where
  "ListJobs names sc =
     map (\<lambda>job. \<lparr>si_Name = sj_Name job, si_Schedule = sj_Schedule job, si_JobType = sj_JobType job,
                 si_NextRun = zero_time, si_Priority = Priority_String (sj_Priority job), si_Singleton = sj_Singleton job\<rparr>)
       (ListScheduledJobs names sc)"

definition GetNextRun :: "(string \<Rightarrow> 'c option) \<Rightarrow> ('c \<Rightarrow> time \<Rightarrow> time) \<Rightarrow> time \<Rightarrow> string \<Rightarrow> 'p Scheduler \<Rightarrow> sched_error + time" where
  "GetNextRun parse5 next now jobName sc =
     (case sc_jobs sc jobName of
        None \<Rightarrow> Inl (NotFound jobName)
      | Some job \<Rightarrow> (case parse5 (sj_Schedule job) of None \<Rightarrow> Inl InvalidCron | Some sched \<Rightarrow> Inr (next sched now)))"

text \<open>\<open>scan\<close> is one \<^verbatim>\<open>SCAN\<close> for keys that match a pattern: the cursor, the pattern and the count
  give keys and the next cursor, or an error. Whether the loop ends is up to the server; a
  negative limit makes the slice expression panic, the inner \<open>None\<close>.\<close>

definition recent_windows :: "string \<Rightarrow> string list \<Rightarrow> string list" where
  "recent_windows jobName keys =
     (let n = length (cronExecutionPrefix @ jobName @ '':'')
      in map (drop n) (filter (\<lambda>key. length key > n) keys))"

partial_function (option) recent_loop ::
  "(nat \<Rightarrow> string \<Rightarrow> nat \<Rightarrow> 's \<Rightarrow> (string list \<times> nat) option \<times> 's) \<Rightarrow> string \<Rightarrow> int \<Rightarrow> nat \<Rightarrow> string list \<Rightarrow> 's
     \<Rightarrow> ((sched_error + string list) \<times> 's) option" where
  "recent_loop scan jobName limit cursor executions s =
     (case scan cursor (cronExecutionPrefix @ jobName @ '':*'') 100 s of
        (None, s1) \<Rightarrow> Some (Inl SchedRedis, s1)
      | (Some (keys, nextCursor), s1) \<Rightarrow>
          (if nextCursor = 0 \<or> int (length (executions @ recent_windows jobName keys)) \<ge> limit
           then Some (Inr (executions @ recent_windows jobName keys), s1)
           else recent_loop scan jobName limit nextCursor (executions @ recent_windows jobName keys) s1))"

definition GetRecentExecutions ::
  "(nat \<Rightarrow> string \<Rightarrow> nat \<Rightarrow> 's \<Rightarrow> (string list \<times> nat) option \<times> 's) \<Rightarrow> string \<Rightarrow> int \<Rightarrow> 's
     \<Rightarrow> ((sched_error + string list) option \<times> 's) option" where
  "GetRecentExecutions scan jobName limit s =
     (case recent_loop scan jobName limit 0 [] s of
        None \<Rightarrow> None
      | Some (Inl e, s1) \<Rightarrow> Some (Some (Inl e), s1)
      | Some (Inr executions, s1) \<Rightarrow>
          (if int (length executions) > limit
           then if limit < 0 then Some (None, s1) else Some (Some (Inr (take (nat limit) executions)), s1)
           else Some (Some (Inr executions), s1)))"

subsection \<open>Keys\<close>

lemma sched_key_types [simp, redis_keys]:
  "key_type leaderKey = TStr" "key_type (cronExecutionPrefix @ k) = TStr" "key_type (cronLockPrefix @ k) = TStr"
  by (simp_all add: key_type_def leaderKey_def cronExecutionPrefix_def cronLockPrefix_def)

lemma sched_keys_distinct [simp, redis_keys]:
  "cronExecutionPrefix @ k \<noteq> keyPrefixJob @ i" "keyPrefixJob @ i \<noteq> cronExecutionPrefix @ k"
  "cronExecutionPrefix @ k \<noteq> keyPrefixUnique @ i" "keyPrefixUnique @ i \<noteq> cronExecutionPrefix @ k"
  "cronExecutionPrefix @ k \<noteq> cronLockPrefix @ i" "cronLockPrefix @ i \<noteq> cronExecutionPrefix @ k"
  by (simp_all add: cronExecutionPrefix_def cronLockPrefix_def queue_key_defs)

lemma look_other_key:
  "look (v\<lparr>rv_str := (rv_str v)(k \<mapsto> x)\<rparr>) t k' = (if k' = k then look (v\<lparr>rv_str := (rv_str v)(k \<mapsto> x)\<rparr>) t k' else look v t k')"
  by (simp add: look_def)

subsection \<open>A firing\<close>

lemma cron_payload_fields:
  assumes "cron_payload sum256 fmt_v marshal uuid now job = Inr j" "time_ok now"
  shows "times_ok j" "jp_ScheduledAt j = None" "jp_ID j = uuid" "jp_Priority j = sj_Priority job"
    "jp_UniqueKey j = generateJobUniqueKey sum256 fmt_v job (getExecutionWindow now (sj_Schedule job))" "jp_UniqueKey j \<noteq> []"
  using assms by (auto simp: cron_payload_def NewJobPayload_def option_defs times_ok_def generateJobUniqueKey_def Let_def
      split: option.splits)

lemma cron_payload_unscheduled:
  "cron_payload sum256 fmt_v marshal uuid now job = Inr j \<Longrightarrow> jp_ScheduledAt j = None"
  by (auto simp: cron_payload_def NewJobPayload_def option_defs split: option.splits)

lemma enqueue_view_str:
  "k \<noteq> keyPrefixJob @ jp_ID j \<Longrightarrow> k \<noteq> keyPrefixUnique @ jp_UniqueKey j \<Longrightarrow>
     rv_str (enqueue_view now j v) k = rv_str v k"
  by (auto simp: enqueue_view_def view_defs)

context redis_client
begin

lemma Enqueue_other_key:
  assumes "up s" "jp_ScheduledAt j = None" "k \<noteq> keyPrefixJob @ jp_ID j" "k \<noteq> keyPrefixUnique @ jp_UniqueKey j"
  shows "up (snd (Enqueue redis now j s)) \<and> rv_str (view (snd (Enqueue redis now j s))) k = rv_str (view s) k"
proof (cases "jp_UniqueKey j = [] \<or> look (view s) now (keyPrefixUnique @ jp_UniqueKey j) = None")
  case True
  show ?thesis
  proof (cases "times_ok j")
    case t: True
    show ?thesis using Enqueue_fresh [OF assms(1) t _ True] assms(2-4)
      by (auto simp: unique_ttl_def enqueue_view_str)
  next
    case False
    then show ?thesis using assms(1) checkDuplicate_spec [OF assms(1), of now "jp_UniqueKey j"] True
      by (auto simp: Enqueue_def storeAndQueue_def marshal_job_def case_prod_unfold)
  qed
next
  case False
  then show ?thesis using Enqueue_duplicate [OF assms(1), of j now] by auto
qed

lemma lock_cron:
  assumes "up s" "0 \<le> so_CronDeduplicationTTL (sc_config sc)"
  shows "fst (acquireCronExecutionLock redis now k sc s) = Inr (look (view s) now (cronExecutionPrefix @ k) = None)"
    "view (snd (acquireCronExecutionLock redis now k sc s)) =
       (if look (view s) now (cronExecutionPrefix @ k) = None
        then (view s)\<lparr>rv_str := (rv_str (view s))(cronExecutionPrefix @ k \<mapsto>
               (Text (sc_instanceID sc), expiry now (so_CronDeduplicationTTL (sc_config sc))))\<rparr>
        else view s)"
    "up (snd (acquireCronExecutionLock redis now k sc s))"
  using assms by (auto simp: acquireCronExecutionLock_def case_prod_unfold laws)

lemma singleton_check:
  assumes "up s"
  shows "fst (isSingletonJobRunning redis now n s) = Inr (look (view s) now (cronLockPrefix @ ''singleton:'' @ n) \<noteq> None)"
    "view (snd (isSingletonJobRunning redis now n s)) = view s" "up (snd (isSingletonJobRunning redis now n s))"
  using assms by (auto simp: isSingletonJobRunning_def case_prod_unfold laws)

text \<open>A firing in a window that is taken has no effect, and no firing touches another window.\<close>

lemma fire_taken:
  assumes "up s" "0 \<le> so_CronDeduplicationTTL (sc_config sc)"
    and "look (view s) now (cronExecutionPrefix @ generateExecutionKey (sj_Name job) (getExecutionWindow now (sj_Schedule job))) \<noteq> None"
  shows "view (executeScheduledJob sum256 fmt_v marshal redis uuid now job sc s) = view s
    \<and> up (executeScheduledJob sum256 fmt_v marshal redis uuid now job sc s)"
  using lock_cron [OF assms(1,2), of now "generateExecutionKey (sj_Name job) (getExecutionWindow now (sj_Schedule job))"] assms(1,3)
  by (auto simp: executeScheduledJob_def Let_def case_prod_unfold)

lemma fire_free:
  assumes "up s" "sc_isLeader sc" "0 < so_CronDeduplicationTTL (sc_config sc)" "time_ok now"
    and "K = cronExecutionPrefix @ generateExecutionKey (sj_Name job) (getExecutionWindow now (sj_Schedule job))"
    and "look (view s) now K = None"
    and "sj_Singleton job \<Longrightarrow> look (view s) now (cronLockPrefix @ ''singleton:'' @ sj_Name job) = None"
    and "cron_payload sum256 fmt_v marshal uuid now job = Inr j"
    and "look (view s) now (keyPrefixUnique @ jp_UniqueKey j) = None"
  shows "view (executeScheduledJob sum256 fmt_v marshal redis uuid now job sc s)
      = enqueue_view now j ((view s)\<lparr>rv_str := (rv_str (view s))(K \<mapsto> (Text (sc_instanceID sc),
          Some (now + px (so_CronDeduplicationTTL (sc_config sc)))))\<rparr>)
    \<and> up (executeScheduledJob sum256 fmt_v marshal redis uuid now job sc s)"
proof -
  let ?k = "generateExecutionKey (sj_Name job) (getExecutionWindow now (sj_Schedule job))"
  let ?s1 = "snd (acquireCronExecutionLock redis now ?k sc s)"
  let ?s2 = "snd (if sj_Singleton job then isSingletonJobRunning redis now (sj_Name job) ?s1 else (Inr False, ?s1))"
  have 1: "fst (acquireCronExecutionLock redis now ?k sc s) = Inr True" "up ?s1"
    "view ?s1 = (view s)\<lparr>rv_str := (rv_str (view s))(K \<mapsto> (Text (sc_instanceID sc),
          Some (now + px (so_CronDeduplicationTTL (sc_config sc)))))\<rparr>"
    using lock_cron [OF assms(1), of sc now ?k] assms(3,5,6) by (simp_all add: expiry_def)
  have 2: "fst (if sj_Singleton job then isSingletonJobRunning redis now (sj_Name job) ?s1 else (Inr False, ?s1)) = Inr False"
    "view ?s2 = view ?s1" "up ?s2"
    using singleton_check [OF 1(2), of now "sj_Name job"] assms(5,7) 1(2) by (auto simp: 1(3) look_def)
  have "look (view ?s2) now (keyPrefixUnique @ jp_UniqueKey j) = None"
    using assms(5,9) by (simp add: 2(2) 1(3) look_def)
  note e = Enqueue_fresh [OF 2(3) cron_payload_fields(1) [OF assms(8,4)] _ disjI2 [OF this]]
  have "executeScheduledJob sum256 fmt_v marshal redis uuid now job sc s = snd (Enqueue redis now j ?s2)"
    using assms(2,8) 1(1) 2(1) by (auto simp: executeScheduledJob_def Let_def case_prod_unfold)
  then show ?thesis
    using e cron_payload_fields(2) [OF assms(8,4)] by (simp add: unique_ttl_def 2(2) 1(3))
qed

lemma fire_frame:
  assumes "up s" "0 \<le> so_CronDeduplicationTTL (sc_config sc)"
    and "look (view s) now (cronExecutionPrefix @ k) \<noteq> None"
  shows "up (executeScheduledJob sum256 fmt_v marshal redis uuid now job sc s)
    \<and> rv_str (view (executeScheduledJob sum256 fmt_v marshal redis uuid now job sc s)) (cronExecutionPrefix @ k)
      = rv_str (view s) (cronExecutionPrefix @ k)"
proof -
  let ?e = "generateExecutionKey (sj_Name job) (getExecutionWindow now (sj_Schedule job))"
  let ?s1 = "snd (acquireCronExecutionLock redis now ?e sc s)"
  let ?s2 = "snd (if sj_Singleton job then isSingletonJobRunning redis now (sj_Name job) ?s1 else (Inr False, ?s1))"
  have 1: "up ?s1" "rv_str (view ?s1) (cronExecutionPrefix @ k) = rv_str (view s) (cronExecutionPrefix @ k)"
    using lock_cron [OF assms(1,2), of now ?e] assms(3) by auto
  have 2: "up ?s2" "view ?s2 = view ?s1"
    using singleton_check [OF 1(1)] 1(1) by auto
  have "executeScheduledJob sum256 fmt_v marshal redis uuid now job sc s \<in> {s, ?s1, ?s2}
    \<or> (\<exists>j. cron_payload sum256 fmt_v marshal uuid now job = Inr j
         \<and> executeScheduledJob sum256 fmt_v marshal redis uuid now job sc s = snd (Enqueue redis now j ?s2))"
    by (auto simp: executeScheduledJob_def Let_def case_prod_unfold split: sum.splits bool.splits)
  then show ?thesis
    using assms(1) 1 2 Enqueue_other_key [OF 2(1) cron_payload_unscheduled, of sum256 fmt_v marshal uuid now job _ "cronExecutionPrefix @ k" now]
    by auto
qed

end

text \<open>
  What may happen while the window \<open>k\<close> is taken, until \<open>T\<close>: any instance fires any job, and anyone
  sends commands to other keys.
\<close>

inductive cron_step ::
  "(string \<Rightarrow> string) \<Rightarrow> ('p \<Rightarrow> string) \<Rightarrow> ('p \<Rightarrow> json option) \<Rightarrow> 's redis \<Rightarrow> string \<Rightarrow> time \<Rightarrow> 's \<Rightarrow> 's \<Rightarrow> bool"
  for sum256 fmt_v marshal redis k T where
  cron_fire: "now < T \<Longrightarrow> 0 \<le> so_CronDeduplicationTTL (sc_config sc) \<Longrightarrow>
     cron_step sum256 fmt_v marshal redis k T s (executeScheduledJob sum256 fmt_v marshal redis uuid now job sc s)"
| cron_other: "well_typed c \<Longrightarrow> cmd_key c \<noteq> cronExecutionPrefix @ k \<Longrightarrow>
     cron_step sum256 fmt_v marshal redis k T s (snd (redis now c s))"

context redis_client
begin

lemma cron_steps_keep:
  assumes "(cron_step sum256 fmt_v marshal redis k T)\<^sup>*\<^sup>* s s'" "up s"
    and "rv_str (view s) (cronExecutionPrefix @ k) = Some (b, Some T)"
  shows "up s' \<and> rv_str (view s') (cronExecutionPrefix @ k) = Some (b, Some T)"
  using assms
proof (induction rule: rtranclp_induct)
  case (step y z)
  then have y: "up y" "rv_str (view y) (cronExecutionPrefix @ k) = Some (b, Some T)" by auto
  from step(2) show ?case
  proof cases
    case (cron_fire now sc uuid job)
    then have "look (view y) now (cronExecutionPrefix @ k) \<noteq> None" using y(2) by (simp add: look_def live_def)
    then show ?thesis using fire_frame [OF y(1) cron_fire(3)] y(2) cron_fire(1) by simp
  next
    case (cron_other c now)
    then show ?thesis using other_key_untouched [OF y(1)] y by (simp add: stays_up)
  qed
qed simp

end

text \<open>
  C9. One job per execution window. When a leader fires a cron job in a window that is still
  free (and no singleton of it is marked as running, and its unique key is free), exactly one
  job is enqueued: a due job with the priority, tags and window-specific unique key of the
  entry. From then on, until the deduplication time has passed, every firing of that entry in
  the same window by any instance, leader or not, changes nothing, whatever firings of other
  jobs and whatever commands to other keys come in between.
\<close>

theorem cron_window_enqueues_once:
  assumes "redis_client redis view up" "up s" "sc_isLeader a" "0 < so_CronDeduplicationTTL (sc_config a)" "time_ok now"
    and "k = generateExecutionKey (sj_Name job) (getExecutionWindow now (sj_Schedule job))"
    and "look (view s) now (cronExecutionPrefix @ k) = None"
    and "sj_Singleton job \<longrightarrow> look (view s) now (cronLockPrefix @ ''singleton:'' @ sj_Name job) = None"
    and "cron_payload sum256 fmt_v marshal uuid now job = Inr j"
    and "look (view s) now (keyPrefixUnique @ jp_UniqueKey j) = None"
    and "s1 = executeScheduledJob sum256 fmt_v marshal redis uuid now job a s"
    and "T = now + px (so_CronDeduplicationTTL (sc_config a))"
    and "(cron_step sum256 fmt_v marshal redis k T)\<^sup>*\<^sup>* s1 s2"
    and "t < T" "getExecutionWindow t (sj_Schedule job) = getExecutionWindow now (sj_Schedule job)"
    and "0 \<le> so_CronDeduplicationTTL (sc_config b)"
  shows "view s1 = enqueue_view now j
      ((view s)\<lparr>rv_str := (rv_str (view s))(cronExecutionPrefix @ k \<mapsto> (Text (sc_instanceID a), Some T))\<rparr>)
    \<and> jp_ScheduledAt j = None \<and> jp_Priority j = sj_Priority job
    \<and> jp_UniqueKey j = generateJobUniqueKey sum256 fmt_v job (getExecutionWindow now (sj_Schedule job))
    \<and> view (executeScheduledJob sum256 fmt_v marshal redis uuid' t job b s2) = view s2"
proof -
  have 1: "view s1 = enqueue_view now j
      ((view s)\<lparr>rv_str := (rv_str (view s))(cronExecutionPrefix @ k \<mapsto> (Text (sc_instanceID a), Some T))\<rparr>)" "up s1"
    using redis_client.fire_free [OF assms(1-5) _ _ _ assms(9,10)] assms(6-8,11,12) by auto
  have "rv_str (view s1) (cronExecutionPrefix @ k) = Some (Text (sc_instanceID a), Some T)"
    by (simp add: 1(1) enqueue_view_str)
  note 2 = redis_client.cron_steps_keep [OF assms(1,13) 1(2) this]
  then have "look (view s2) t (cronExecutionPrefix @ k) \<noteq> None"
    using assms(14) by (simp add: look_def live_def)
  then show ?thesis
    using 1(1) redis_client.fire_taken [OF assms(1) conjunct1 [OF 2] assms(16), of t job] assms(6,15)
      cron_payload_fields [OF assms(9,5)] by simp
qed

definition report_entry :: "unit ScheduledJob" where
  "report_entry = \<lparr>sj_Name = ''report'', sj_Schedule = EveryHour, sj_JobType = ''report'', sj_Payload = (),
     sj_Priority = PriorityNormal, sj_UniqueKey = [], sj_Tags = [], sj_Singleton = True\<rparr>"

definition leader_a :: "unit Scheduler" where
  "leader_a = (NewScheduler ''instance-a'')\<lparr>sc_isLeader := True\<rparr>"

definition leader_b :: "unit Scheduler" where
  "leader_b = (NewScheduler ''instance-b'')\<lparr>sc_isLeader := True\<rparr>"

lemmas scheduler_defs = leader_a_def leader_b_def NewScheduler_def NewSchedulerWithConfig_def DefaultSchedulerConfig_def

theorem cron_window_enqueues_once_witness:
  "mem_view (executeScheduledJob id (\<lambda>_. []) (\<lambda>_. Some JNull) mem_redis ''job2'' 9 report_entry leader_b
       (executeScheduledJob id (\<lambda>_. []) (\<lambda>_. Some JNull) mem_redis ''job1'' 5 report_entry leader_a mem_empty))
     = mem_view (executeScheduledJob id (\<lambda>_. []) (\<lambda>_. Some JNull) mem_redis ''job1'' 5 report_entry leader_a mem_empty)"
proof -
  obtain j where j: "cron_payload id (\<lambda>_. []) (\<lambda>_. Some JNull) ''job1'' 5 report_entry = Inr j"
    by (simp add: cron_payload_def NewJobPayload_def)
  have w: "getExecutionWindow 9 (sj_Schedule report_entry) = getExecutionWindow 5 (sj_Schedule report_entry)"
    by (simp add: report_entry_def getExecutionWindow_def schedule_defs fmt_hour_def fmt_date_def fmt_month_def)
  show ?thesis
    using cron_window_enqueues_once [OF mem.redis_client_axioms mem_empty_up _ _ _ refl _ _ j _ refl refl rtranclp.rtrancl_refl _ w,
        of leader_a leader_b "''job2''"]
    by (simp add: time_ok_def scheduler_defs px_def)
qed

subsection \<open>The lease of the leader\<close>

text \<open>What the other instances may do while instance \<open>a\<close> holds the lease, until \<open>T\<close>: try to become
  leader, step down, and send commands to other keys.\<close>

inductive lease_step :: "'s redis \<Rightarrow> 'p Scheduler \<Rightarrow> time \<Rightarrow> 's \<Rightarrow> 's \<Rightarrow> bool" for redis and a :: "'p Scheduler" and T where
  lease_try: "sc_instanceID (b :: 'p Scheduler) \<noteq> sc_instanceID a \<Longrightarrow> now < T \<Longrightarrow> 0 \<le> so_LeaderLockTTL (sc_config b) \<Longrightarrow>
     lease_step redis a T s (snd (tryAcquireLeadership redis now (b, s)))"
| lease_release: "sc_instanceID (b :: 'p Scheduler) \<noteq> sc_instanceID a \<Longrightarrow> now < T \<Longrightarrow>
     lease_step redis a T s (snd (releaseLeadership redis now (b, s)))"
| lease_other: "well_typed c \<Longrightarrow> cmd_key c \<noteq> leaderKey \<Longrightarrow> lease_step redis a T s (snd (redis now c s))"

lemma ex_pos: "0 < ttl \<Longrightarrow> 0 < ex ttl"
  by (auto simp: ex_def pos_imp_zdiv_pos_iff)

lemma px_ex: "0 < ttl \<Longrightarrow> px (ex ttl) = ex ttl"
proof (rule px_whole)
  show "millisecond dvd ex ttl" if "0 < ttl" by (auto simp: ex_def)
qed (rule ex_pos)

context redis_client
begin

lemma try_free:
  assumes "up s" "look (view s) now leaderKey = None" "0 \<le> so_LeaderLockTTL (sc_config a)"
  shows "fst (tryAcquireLeadership redis now (a, s)) = a\<lparr>sc_isLeader := True\<rparr>"
    "view (snd (tryAcquireLeadership redis now (a, s))) = (view s)\<lparr>rv_str := (rv_str (view s))(leaderKey \<mapsto>
       (Text (sc_instanceID a), expiry now (so_LeaderLockTTL (sc_config a))))\<rparr>"
    "up (snd (tryAcquireLeadership redis now (a, s)))"
  using assms by (simp_all add: tryAcquireLeadership_def tryAcquire_begin_def case_prod_unfold laws)

lemma try_other:
  assumes "up s" "look (view s) now leaderKey = Some (Text w)" "0 \<le> so_LeaderLockTTL (sc_config b)" "sc_instanceID b \<noteq> w"
  shows "fst (tryAcquireLeadership redis now (b, s)) = b\<lparr>sc_isLeader := False\<rparr>"
    "view (snd (tryAcquireLeadership redis now (b, s))) = view s" "up (snd (tryAcquireLeadership redis now (b, s)))"
  using assms by (auto simp: tryAcquireLeadership_def tryAcquire_begin_def case_prod_unfold laws)

lemma try_renew:
  assumes "up s" "look (view s) now leaderKey = Some (Text (sc_instanceID a))" "0 < so_LeaderLockTTL (sc_config a)"
  shows "fst (tryAcquireLeadership redis now (a, s)) = a\<lparr>sc_isLeader := True\<rparr>"
    "view (snd (tryAcquireLeadership redis now (a, s))) = (view s)\<lparr>rv_str := (rv_str (view s))(leaderKey \<mapsto>
       (Text (sc_instanceID a), Some (now + ex (so_LeaderLockTTL (sc_config a)))))\<rparr>"
  using assms by (simp_all add: tryAcquireLeadership_def tryAcquire_begin_def tryAcquire_end_def case_prod_unfold laws ex_pos
      expiry_def px_ex)

lemma release_other:
  assumes "up s" "look (view s) now leaderKey = Some (Text w)" "sc_instanceID b \<noteq> w"
  shows "view (snd (releaseLeadership redis now (b, s))) = view s \<and> up (snd (releaseLeadership redis now (b, s)))"
  using assms by (auto simp: releaseLeadership_def releaseLeadership_begin_def releaseLeadership_end_def case_prod_unfold laws)

lemma lease_steps_keep:
  assumes "(lease_step redis a T)\<^sup>*\<^sup>* s s'" "up s" "rv_str (view s) leaderKey = Some (Text (sc_instanceID a), Some T)"
  shows "up s' \<and> rv_str (view s') leaderKey = Some (Text (sc_instanceID a), Some T)"
  using assms
proof (induction rule: rtranclp_induct)
  case (step y z)
  then have y: "up y" "rv_str (view y) leaderKey = Some (Text (sc_instanceID a), Some T)" by auto
  have l: "look (view y) now leaderKey = Some (Text (sc_instanceID a))" if "now < T" for now
    using y(2) that by (simp add: look_def live_def)
  from step(2) show ?case
  proof cases
    case (lease_try b now)
    then show ?thesis using try_other(2,3) [OF y(1) l] y by auto
  next
    case (lease_release b now)
    then show ?thesis using release_other [OF y(1) l] y by auto
  next
    case (lease_other c now)
    then show ?thesis using other_key_untouched [OF y(1)] y by (simp add: stays_up)
  qed
qed simp

end



text \<open>
  Renewal races with expiry. The leader's renewal first reads the leader key and then, in a
  separate command, extends whatever is there. If its lease runs out between the two and
  another instance takes over, the old leader extends the lease of the new one and goes on
  believing that it leads: both are leaders, and the key names only the new one.
\<close>

theorem leadership_renewal_races:
  assumes "redis_client redis view up" "up s" "rv_str (view s) leaderKey = Some (Text (sc_instanceID a), Some T)" "t0 < T"
    and "0 < so_LeaderLockTTL (sc_config a)" "0 < so_LeaderLockTTL (sc_config b)"
    and "tryAcquire_begin redis t0 (a, s) = (r, a1, s1)" "tryAcquireLeadership redis t1 (b, s1) = (b', s2)"
    and "T \<le> t1" "t2 < t1 + px (so_LeaderLockTTL (sc_config b))" "tryAcquire_end redis t2 (a1, s2) = (a', s3)"
  shows "r = Renewing \<and> IsLeader a' \<and> IsLeader b'
    \<and> rv_str (view s3) leaderKey = Some (Text (sc_instanceID b), Some (t2 + ex (so_LeaderLockTTL (sc_config a))))"
proof -
  have l: "look (view s) t0 leaderKey = Some (Text (sc_instanceID a))" "look (view s) t1 leaderKey = None"
    using assms(3,4,9) by (auto simp: look_def live_def)
  have 1: "r = Renewing" "a1 = a" "view s1 = view s" "up s1"
    using assms(2,5,7) l(1)
    by (auto simp: tryAcquire_begin_def case_prod_unfold redis_client.laws [OF assms(1)])
  have 2: "b' = b\<lparr>sc_isLeader := True\<rparr>" "up s2"
      "rv_str (view s2) leaderKey = Some (Text (sc_instanceID b), Some (t1 + px (so_LeaderLockTTL (sc_config b))))"
    using redis_client.try_free [OF assms(1) 1(4), of t1 b] l(2) assms(6,8) 1(3) by (auto simp: expiry_def)
  have "look (view s2) t2 leaderKey = Some (Text (sc_instanceID b))"
    using 2(3) assms(10) by (simp add: look_def live_def)
  then have "a' = a\<lparr>sc_isLeader := True\<rparr>"
      "rv_str (view s3) leaderKey = Some (Text (sc_instanceID b), Some (t2 + ex (so_LeaderLockTTL (sc_config a))))"
    using assms(11,5) 2(2) 1(2)
    by (auto simp: tryAcquire_end_def redis_client.laws [OF assms(1)] ex_pos expiry_def px_ex)
  then show ?thesis using 1(1) 2(1) by (simp add: IsLeader_def)
qed

definition lease_store :: mem where
  "lease_store = mem_empty\<lparr>m_str := (m_str mem_empty)(leaderKey \<mapsto> (Text ''instance-a'', Some 10))\<rparr>"

lemma lease_store_up: "mem_up lease_store"
  using mem_empty_up by (simp add: mem_up_def lease_store_def)

theorem leadership_renewal_races_witness:
  "IsLeader (fst (tryAcquire_end mem_redis 30 (leader_a, snd (tryAcquireLeadership mem_redis 20 (leader_b, lease_store)))))
   \<and> IsLeader (fst (tryAcquireLeadership mem_redis 20 (leader_b, lease_store)))"
proof -
  have v: "rv_str (mem_view lease_store) leaderKey = Some (Text (sc_instanceID leader_a), Some 10)"
    by (simp add: lease_store_def mem_view_def scheduler_defs)
  have b: "tryAcquire_begin mem_redis 9 (leader_a, lease_store) = (Renewing, leader_a, lease_store)"
    using v by (simp add: tryAcquire_begin_def look_def live_def)
  show ?thesis
    using leadership_renewal_races [OF mem.redis_client_axioms lease_store_up v, of 9 leader_b _ _ _ 20 _ _ 30, OF _ _ _ b surjective_pairing _ _ surjective_pairing]
    by (simp add: scheduler_defs px_def)
qed

subsection \<open>Cron entries\<close>

text \<open>
  A cron specification: after an optional time zone, a descriptor that starts with an at sign
  or fields separated by white space.
\<close>

definition cron_body :: "string \<Rightarrow> string" where
  "cron_body sp = (if prefix ''TZ='' sp \<or> prefix ''CRON_TZ='' sp
     then dropWhile is_space (dropWhile (\<lambda>c. c \<noteq> CHR '' '') sp) else sp)"

definition register_all :: "(string \<Rightarrow> 'c option) \<Rightarrow> 'p ScheduledJob list \<Rightarrow> 'p Scheduler \<Rightarrow> 'p Scheduler" where
  "register_all parse5 js sc = fold (\<lambda>j sc. snd (RegisterJob parse5 j sc)) js sc"

lemma register_all_table:
  assumes "\<forall>n j. sc_jobs sc n = Some j \<longrightarrow> parse5 (sj_Schedule j) \<noteq> None"
  shows "(\<forall>n j. sc_jobs (register_all parse5 js sc) n = Some j \<longrightarrow> parse5 (sj_Schedule j) \<noteq> None)
    \<and> sc_entries (register_all parse5 js sc) = sc_entries sc \<and> sc_running (register_all parse5 js sc) = sc_running sc"
  using assms
proof (induction js arbitrary: sc)
  case (Cons j js)
  have "\<forall>n i. sc_jobs (snd (RegisterJob parse5 j sc)) n = Some i \<longrightarrow> parse5 (sj_Schedule i) \<noteq> None"
    "sc_entries (snd (RegisterJob parse5 j sc)) = sc_entries sc" "sc_running (snd (RegisterJob parse5 j sc)) = sc_running sc"
    using Cons(2) by (auto simp: RegisterJob_def split: option.splits)
  then show ?case using Cons(1) [of "snd (RegisterJob parse5 j sc)"] by (simp add: register_all_def)
qed (simp add: register_all_def)

lemma setup_none:
  "\<forall>n j. sc_jobs sc n = Some j \<longrightarrow> parse6 (sj_Schedule j) = None \<Longrightarrow> setupCronJobs parse6 names sc = sc"
  by (induction names) (auto split: option.splits)

text \<open>
  No registered job ever gets a cron entry. \<^verbatim>\<open>RegisterJob\<close> checks the schedule with a parser
  for exactly five fields and no descriptors, but the cron object was made
  \<^verbatim>\<open>WithSeconds\<close>, whose parser takes exactly six fields or a descriptor. Hence, whatever jobs
  are registered, \<^verbatim>\<open>Start\<close> reports success and leaves the cron object empty.
\<close>

theorem scheduler_never_fires:
  assumes std: "\<forall>sp c. parse5 sp = Some c \<longrightarrow> \<not> prefix ''@'' (cron_body sp) \<and> length (str_fields (cron_body sp)) = 5"
    and secs: "\<forall>sp c. parse6 sp = Some c \<longrightarrow> prefix ''@'' (cron_body sp) \<or> length (str_fields (cron_body sp)) = 6"
  shows "fst (sched_Start parse6 names (register_all parse5 js (NewSchedulerWithConfig uuid config))) = None
    \<and> sc_entries (snd (sched_Start parse6 names (register_all parse5 js (NewSchedulerWithConfig uuid config)))) = []
    \<and> sc_jobs (snd (sched_Start parse6 names (register_all parse5 js (NewSchedulerWithConfig uuid config))))
      = sc_jobs (register_all parse5 js (NewSchedulerWithConfig uuid config))"
proof -
  let ?sc = "register_all parse5 js (NewSchedulerWithConfig uuid config)"
  have r: "\<forall>n j. sc_jobs ?sc n = Some j \<longrightarrow> parse5 (sj_Schedule j) \<noteq> None" "sc_entries ?sc = []" "\<not> sc_running ?sc"
    using register_all_table [of "NewSchedulerWithConfig uuid config" parse5 js] by (auto simp: NewSchedulerWithConfig_def)
  have "\<forall>n j. sc_jobs ?sc n = Some j \<longrightarrow> parse6 (sj_Schedule j) = None"
  proof (intro allI impI)
    fix n j assume "sc_jobs ?sc n = Some j"
    then have "parse5 (sj_Schedule j) \<noteq> None" using r(1) by blast
    then have "\<not> prefix ''@'' (cron_body (sj_Schedule j))" "length (str_fields (cron_body (sj_Schedule j))) = 5" using std by blast+
    then show "parse6 (sj_Schedule j) = None" using secs by (cases "parse6 (sj_Schedule j)") auto
  qed
  then show ?thesis using r(2,3) by (simp add: sched_Start_def setup_none)
qed

definition counting_parser :: "nat \<Rightarrow> string \<Rightarrow> unit option" where
  "counting_parser n sp = (if \<not> prefix ''@'' (cron_body sp) \<and> length (str_fields (cron_body sp)) = n then Some () else None)"

theorem scheduler_never_fires_witness:
  "sc_jobs (register_all (counting_parser 5) [report_entry] (NewSchedulerWithConfig ''a'' DefaultSchedulerConfig)) ''report'' = Some report_entry
   \<and> sc_entries (snd (sched_Start (counting_parser 6) [''report'']
       (register_all (counting_parser 5) [report_entry] (NewSchedulerWithConfig ''a'' DefaultSchedulerConfig)))) = []"
proof -
  have "counting_parser 5 EveryHour = Some ()"
    by (simp add: counting_parser_def cron_body_def str_fields_def EveryHour_def is_space_def)
  then have "sc_jobs (register_all (counting_parser 5) [report_entry] (NewSchedulerWithConfig ''a'' DefaultSchedulerConfig)) ''report'' = Some report_entry"
    by (simp add: register_all_def RegisterJob_def report_entry_def NewSchedulerWithConfig_def)
  then show ?thesis
    using scheduler_never_fires [of "counting_parser 5" "counting_parser 6" "[''report'']" "[report_entry]" "''a''" DefaultSchedulerConfig]
    by (simp add: counting_parser_def split: if_splits)
qed

text \<open>Like the worker pool, a stopped scheduler cannot be started again: its election loop ends
  at once, and the next \<^verbatim>\<open>Stop\<close> panics.\<close>

lemma setup_frame:
  "sc_running (setupCronJobs parse6 names sc) = sc_running sc \<and> sc_stopClosed (setupCronJobs parse6 names sc) = sc_stopClosed sc"
  by (induction names arbitrary: sc) (auto split: option.splits)

lemma release_frame:
  "sc_running (fst (releaseLeadership redis now (sc, s))) = sc_running sc
   \<and> sc_stopClosed (fst (releaseLeadership redis now (sc, s))) = sc_stopClosed sc"
  by (simp add: releaseLeadership_def releaseLeadership_end_def case_prod_unfold)

lemma restarted_scheduler_panics:
  assumes "sched_Stop redis now (sc, s) = Some (sc1, s1)" "sc_running sc" "sched_Start parse6 names sc1 = (e, sc2)"
  shows "e = None \<and> sched_Stop redis t (sc2, s2) = None \<and> ElectionExit \<in> leaderElectionLoop_ready sc2 False ticked"
proof -
  have "sc1 = fst (releaseLeadership redis now (sc\<lparr>sc_running := False, sc_stopClosed := True\<rparr>, s))"
    using assms(1,2) by (cases "sc_stopClosed sc") (simp_all add: sched_Stop_def)
  then have "\<not> sc_running sc1" "sc_stopClosed sc1" by (simp_all add: release_frame)
  moreover from this have "sc2 = setupCronJobs parse6 names (sc1\<lparr>sc_running := True, sc_elections := Suc (sc_elections sc1)\<rparr>)" "e = None"
    using assms(3) by (simp_all add: sched_Start_def)
  ultimately show ?thesis by (simp add: sched_Stop_def leaderElectionLoop_ready_def setup_frame)
qed

end
