(* ===== verification/Job_Lock.thy ===== *)
theory Job_Lock
  imports Redis_Client
begin

text \<open>
  \<^verbatim>\<open>internal/jobs/lock/distributed_lock.go\<close>: per-job locks with a time to live, the registry
  of running jobs and the idempotency records. A lock object is shared between its holder,
  its heartbeat and the manager's table of active locks, so the manager keeps the objects in
  a heap and the others refer to them by index. The two Lua scripts are translated as the
  commands they run, one after the other, which is how Redis executes a script.
\<close>

subsection \<open>Keys, values and state\<close>

definition keyPrefixJobLock :: string where "keyPrefixJobLock = ''arcana:jobs:lock:''"
definition keyPrefixRunningJobs :: string where "keyPrefixRunningJobs = ''arcana:jobs:running''"
definition keyPrefixIdempotency :: string where "keyPrefixIdempotency = ''arcana:jobs:idempotency:''"
definition keyPrefixWorkerJobs :: string where "keyPrefixWorkerJobs = ''arcana:jobs:worker:''"

lemmas lock_key_defs = keyPrefixJobLock_def keyPrefixRunningJobs_def keyPrefixIdempotency_def keyPrefixWorkerJobs_def

lemma lock_key_types [simp, redis_keys]:
  "key_type (keyPrefixJobLock @ i) = TStr" "key_type (keyPrefixIdempotency @ i) = TStr"
  "key_type keyPrefixRunningJobs = THash" "key_type (keyPrefixWorkerJobs @ i) = TSet"
  by (simp_all add: key_type_def lock_key_defs)

lemma lock_keys_distinct [simp, redis_keys]:
  "keyPrefixJobLock @ i = keyPrefixJobLock @ j \<longleftrightarrow> i = j" "keyPrefixIdempotency @ i = keyPrefixIdempotency @ j \<longleftrightarrow> i = j"
  "keyPrefixJobLock @ i \<noteq> keyPrefixIdempotency @ j" "keyPrefixIdempotency @ j \<noteq> keyPrefixJobLock @ i"
  by (simp_all add: lock_key_defs)

datatype lock_error = ErrLockNotAcquired | ErrLockNotHeld | ErrJobAlreadyDone | LockErrorf string

record JobLock =
  jl_jobID :: string
  jl_workerID :: string
  jl_lockKey :: string
  jl_ttl :: duration
  jl_held :: bool

record LockManagerConfig =
  lc_LockTTL :: duration
  lc_HeartbeatRate :: duration
  lc_IdempotencyTTL :: duration

definition DefaultLockManagerConfig :: LockManagerConfig where
  "DefaultLockManagerConfig = \<lparr>lc_LockTTL = 5 * minute, lc_HeartbeatRate = 30 * second, lc_IdempotencyTTL = day\<rparr>"

record LockManager =
  lm_workerID :: string
  lm_lockTTL :: duration
  lm_heartbeatRate :: duration
  lm_idempotencyTTL :: duration
  lm_locks :: "JobLock list"
  lm_activeLocks :: "string \<rightharpoonup> nat"

definition NewLockManager :: "string \<Rightarrow> LockManagerConfig \<Rightarrow> LockManager" where
  "NewLockManager uuid config = \<lparr>lm_workerID = uuid, lm_lockTTL = lc_LockTTL config,
     lm_heartbeatRate = lc_HeartbeatRate config, lm_idempotencyTTL = lc_IdempotencyTTL config,
     lm_locks = [], lm_activeLocks = Map.empty\<rparr>"

definition GetWorkerID :: "LockManager \<Rightarrow> string" where
  "GetWorkerID lm = lm_workerID lm"

definition IsHeld :: "LockManager \<Rightarrow> nat \<Rightarrow> bool" where
  "IsHeld lm lock = (lock < length (lm_locks lm) \<and> jl_held (lm_locks lm ! lock))"

definition lock_value :: "string \<Rightarrow> time \<Rightarrow> string" where
  "lock_value w now = w @ '':'' @ itoa now"

definition running_value :: "string \<Rightarrow> time \<Rightarrow> string" where
  "running_value w now = w @ '':'' @ itoa (unix_seconds now)"

subsection \<open>Operations\<close>

definition trackRunningJob :: "'s redis \<Rightarrow> time \<Rightarrow> LockManager \<Rightarrow> string \<Rightarrow> 's \<Rightarrow> 's" where
  "trackRunningJob redis now lm jobID s =
     (let s1 = snd (redis now (HSET keyPrefixRunningJobs jobID (running_value (lm_workerID lm) now)) s)
      in snd (redis now (SADD (keyPrefixWorkerJobs @ lm_workerID lm) jobID) s1))"

definition untrackRunningJob :: "'s redis \<Rightarrow> time \<Rightarrow> LockManager \<Rightarrow> string \<Rightarrow> 's \<Rightarrow> 's" where
  "untrackRunningJob redis now lm jobID s =
     (let s1 = snd (redis now (HDEL keyPrefixRunningJobs jobID) s)
      in snd (redis now (SREM (keyPrefixWorkerJobs @ lm_workerID lm) jobID) s1))"

definition AcquireLock ::
  "'s redis \<Rightarrow> time \<Rightarrow> string \<Rightarrow> LockManager \<times> 's \<Rightarrow> (lock_error + nat) \<times> LockManager \<times> 's" where
  "AcquireLock redis now jobID = (\<lambda>(lm, s).
     (let lockKey = keyPrefixJobLock @ jobID
      in case redis now (SETNX lockKey (Text (lock_value (lm_workerID lm) now)) (lm_lockTTL lm)) s of
           (RInt acquired, s1) \<Rightarrow>
             if acquired = 0
             then (case redis now (GET lockKey) s1 of
                     (RErr, s2) \<Rightarrow> (Inl (LockErrorf ''failed to check existing lock''), lm, s2)
                   | (_, s2) \<Rightarrow> (Inl ErrLockNotAcquired, lm, s2))
             else let lock = \<lparr>jl_jobID = jobID, jl_workerID = lm_workerID lm, jl_lockKey = lockKey,
                              jl_ttl = lm_lockTTL lm, jl_held = True\<rparr>;
                      s2 = trackRunningJob redis now lm jobID s1;
                      p = length (lm_locks lm)
                  in (Inr p, lm\<lparr>lm_locks := lm_locks lm @ [lock], lm_activeLocks := (lm_activeLocks lm)(jobID \<mapsto> p)\<rparr>, s2)
         | (_, s1) \<Rightarrow> (Inl (LockErrorf ''failed to acquire lock''), lm, s1)))"

text \<open>The scripts: \<^verbatim>\<open>string.find(val, ARGV[1], 1, true)\<close> looks for a plain substring.\<close>

definition release_script :: "'s redis \<Rightarrow> time \<Rightarrow> string \<Rightarrow> string \<Rightarrow> 's \<Rightarrow> reply \<times> 's" where
  "release_script redis now key arg s =
     (case redis now (GET key) s of
        (RBulk (Text val), s1) \<Rightarrow> if sublist arg val then redis now (DEL key) s1 else (RInt 0, s1)
      | (RErr, s1) \<Rightarrow> (RErr, s1)
      | (_, s1) \<Rightarrow> (RInt 0, s1))"

definition extend_script :: "'s redis \<Rightarrow> time \<Rightarrow> string \<Rightarrow> string \<Rightarrow> duration \<Rightarrow> 's \<Rightarrow> reply \<times> 's" where
  "extend_script redis now key arg ttl s =
     (case redis now (GET key) s of
        (RBulk (Text val), s1) \<Rightarrow> if sublist arg val then redis now (EXPIRE key ttl) s1 else (RInt 0, s1)
      | (RErr, s1) \<Rightarrow> (RErr, s1)
      | (_, s1) \<Rightarrow> (RInt 0, s1))"

definition ReleaseLock ::
  "'s redis \<Rightarrow> time \<Rightarrow> nat option \<Rightarrow> LockManager \<times> 's \<Rightarrow> lock_error option \<times> LockManager \<times> 's" where
  "ReleaseLock redis now lock = (\<lambda>(lm, s).
     (case lock of
        None \<Rightarrow> (None, lm, s)
      | Some p \<Rightarrow>
          (let l = lm_locks lm ! p
           in if \<not> jl_held l then (None, lm, s)
              else let lm1 = lm\<lparr>lm_locks := (lm_locks lm)[p := l\<lparr>jl_held := False\<rparr>]\<rparr>
                   in case release_script redis now (jl_lockKey l) (lm_workerID lm @ '':'') s of
                        (RErr, s1) \<Rightarrow> (Some (LockErrorf ''failed to release lock''), lm1, s1)
                      | (_, s1) \<Rightarrow>
                          (None, lm1\<lparr>lm_activeLocks := (lm_activeLocks lm1)(jl_jobID l := None)\<rparr>,
                           untrackRunningJob redis now lm1 (jl_jobID l) s1))))"

text \<open>One tick of the heartbeat of a lock; the result says whether the heartbeat goes on.\<close>

definition heartbeat_tick ::
  "'s redis \<Rightarrow> time \<Rightarrow> nat \<Rightarrow> LockManager \<times> 's \<Rightarrow> bool \<times> LockManager \<times> 's" where
  "heartbeat_tick redis now p = (\<lambda>(lm, s).
     (let l = lm_locks lm ! p
      in if \<not> jl_held l then (False, lm, s)
         else case extend_script redis now (jl_lockKey l) (jl_workerID l @ '':'')
                     (jl_ttl l div millisecond * millisecond) s of
                (RInt r, s1) \<Rightarrow>
                  if r = 0 then (False, lm\<lparr>lm_locks := (lm_locks lm)[p := l\<lparr>jl_held := False\<rparr>]\<rparr>, s1)
                  else (True, lm, s1)
              | (_, s1) \<Rightarrow> (False, lm\<lparr>lm_locks := (lm_locks lm)[p := l\<lparr>jl_held := False\<rparr>]\<rparr>, s1)))"

definition CheckIdempotency :: "'s redis \<Rightarrow> time \<Rightarrow> string \<Rightarrow> 's \<Rightarrow> (lock_error + bool) \<times> 's" where
  "CheckIdempotency redis now uniqueKey s =
     (if uniqueKey = [] then (Inr False, s)
      else case redis now (EXISTS (keyPrefixIdempotency @ uniqueKey)) s of
             (RInt exists, s1) \<Rightarrow> (Inr (exists > 0), s1)
           | (_, s1) \<Rightarrow> (Inl (LockErrorf ''failed to check idempotency''), s1))"

definition MarkCompleted ::
  "'s redis \<Rightarrow> time \<Rightarrow> LockManager \<Rightarrow> string \<Rightarrow> string \<Rightarrow> 's \<Rightarrow> lock_error option \<times> 's" where
  "MarkCompleted redis now lm uniqueKey jobID s =
     (if uniqueKey = [] then (None, s)
      else case redis now (SET (keyPrefixIdempotency @ uniqueKey) (Text (running_value jobID now)) (lm_idempotencyTTL lm)) s of
             (r, s1) \<Rightarrow> (if r = RErr then Some (LockErrorf ''failed to mark job as completed'') else None, s1))"

definition GetRunningJobs :: "'s redis \<Rightarrow> time \<Rightarrow> 's \<Rightarrow> (lock_error + (string \<times> string) list) \<times> 's" where
  "GetRunningJobs redis now s =
     (case redis now (HGETALL keyPrefixRunningJobs) s of
        (RPairs ps, s1) \<Rightarrow> (Inr ps, s1)
      | (_, s1) \<Rightarrow> (Inl (LockErrorf ''redis''), s1))"

definition GetWorkerJobs :: "'s redis \<Rightarrow> time \<Rightarrow> string \<Rightarrow> 's \<Rightarrow> (lock_error + string list) \<times> 's" where
  "GetWorkerJobs redis now workerID s =
     (case redis now (SMEMBERS (keyPrefixWorkerJobs @ workerID)) s of
        (RStrings xs, s1) \<Rightarrow> (Inr xs, s1)
      | (_, s1) \<Rightarrow> (Inl (LockErrorf ''redis''), s1))"

text \<open>
  \<^verbatim>\<open>fmt.Sscanf(value, "%s:%d", &workerID, &timestamp)\<close>: the verb \<^verbatim>\<open>%s\<close> takes everything up to
  white space; the colon of the format must come next in the input, or scanning stops and
  \<^verbatim>\<open>timestamp\<close> keeps its zero.
\<close>

definition scan_digits_int :: "string \<Rightarrow> int" where
  "scan_digits_int v = (case digits_val 0 (takeWhile (\<lambda>c. 48 \<le> (of_char c :: nat) \<and> (of_char c :: nat) \<le> 57) v) of
     None \<Rightarrow> 0 | Some n \<Rightarrow> n)"

definition scan_worker :: "string \<Rightarrow> string \<times> int" where
  "scan_worker value =
     (let v = dropWhile is_space value;
          workerID = takeWhile (\<lambda>c. \<not> is_space c) v
      in case dropWhile (\<lambda>c. \<not> is_space c) v of
           c # rest \<Rightarrow> if c = CHR '':'' then (workerID, scan_digits_int rest) else (workerID, 0)
         | [] \<Rightarrow> (workerID, 0))"

fun cleanup_loop :: "'s redis \<Rightarrow> time \<Rightarrow> duration \<Rightarrow> (string \<times> string) list \<Rightarrow> 's \<Rightarrow> string list \<times> 's" where
  "cleanup_loop redis now stale [] s = ([], s)"
| "cleanup_loop redis now stale ((jobID, value) # ps) s =
     (let timestamp = snd (scan_worker value)
      in if unix_seconds now - timestamp > trunc (real_of_int stale / real_of_int second)
         then let s1 = snd (redis now (DEL (keyPrefixJobLock @ jobID)) s);
                  s2 = snd (redis now (HDEL keyPrefixRunningJobs jobID) s1)
              in (case cleanup_loop redis now stale ps s2 of (cleaned, s3) \<Rightarrow> (jobID # cleaned, s3))
         else cleanup_loop redis now stale ps s)"

definition CleanupStaleJobs :: "'s redis \<Rightarrow> time \<Rightarrow> duration \<Rightarrow> 's \<Rightarrow> (lock_error + string list) \<times> 's" where
  "CleanupStaleJobs redis now staleDuration s =
     (case redis now (HGETALL keyPrefixRunningJobs) s of
        (RPairs runningJobs, s1) \<Rightarrow>
          (case cleanup_loop redis now staleDuration runningJobs s1 of (cleaned, s2) \<Rightarrow> (Inr cleaned, s2))
      | (_, s1) \<Rightarrow> (Inl (LockErrorf ''failed to get running jobs''), s1))"

text \<open>\<open>locks\<close> is the order in which the map of active locks happens to be listed.\<close>

fun release_loop :: "'s redis \<Rightarrow> time \<Rightarrow> nat list \<Rightarrow> LockManager \<times> 's \<Rightarrow> LockManager \<times> 's" where
  "release_loop redis now [] c = c"
| "release_loop redis now (p # ps) c = release_loop redis now ps (snd (ReleaseLock redis now (Some p) c))"

definition ReleaseAllLocks :: "'s redis \<Rightarrow> time \<Rightarrow> nat list \<Rightarrow> LockManager \<times> 's \<Rightarrow> LockManager \<times> 's" where
  "ReleaseAllLocks redis now locks c =
     (case release_loop redis now locks c of
        (lm, s) \<Rightarrow> (lm, snd (redis now (DEL (keyPrefixWorkerJobs @ lm_workerID lm)) s)))"

subsection \<open>Owners\<close>

text \<open>What is used of worker identifiers (UUIDs in text form): one length, no colon.\<close>

definition uuid_like :: "string \<Rightarrow> bool" where
  "uuid_like w \<longleftrightarrow> length w = 36 \<and> CHR '':'' \<notin> set w"

lemma owner_sublist:
  assumes "uuid_like w" "uuid_like w'"
  shows "sublist (w' @ '':'') (lock_value w n) \<longleftrightarrow> w' = w"
proof
  assume "sublist (w' @ '':'') (lock_value w n)"
  then obtain ps ss where "w @ CHR '':'' # itoa n = (ps @ w') @ CHR '':'' # ss"
    by (auto simp: sublist_def lock_value_def)
  moreover have "CHR '':'' \<notin> set w" "CHR '':'' \<notin> set (itoa n)" using assms(1) itoa_no_colon by (auto simp: uuid_like_def)
  ultimately have "w = ps @ w'" by (metis append_Cons_eq_iff)
  then show "w' = w" using assms by (auto simp: uuid_like_def)
next
  assume "w' = w"
  moreover have "sublist (w @ '':'') ([] @ (w @ '':'') @ itoa n)" by (rule sublist_appendI)
  ultimately show "sublist (w' @ '':'') (lock_value w n)" by (simp add: lock_value_def)
qed

definition locks_ok :: "LockManager \<Rightarrow> bool" where
  "locks_ok lm \<longleftrightarrow> uuid_like (lm_workerID lm) \<and> millisecond \<le> lm_lockTTL lm
     \<and> (\<forall>l \<in> set (lm_locks lm). jl_lockKey l = keyPrefixJobLock @ jl_jobID l \<and> jl_workerID l = lm_workerID lm
          \<and> jl_ttl l = lm_lockTTL lm)"

text \<open>The lock of job \<open>i\<close> is held by worker \<open>w\<close> until \<open>T\<close>.\<close>

definition locked :: "redis_view \<Rightarrow> string \<Rightarrow> string \<Rightarrow> time \<Rightarrow> bool" where
  "locked v i w T \<longleftrightarrow> (\<exists>n. rv_str v (keyPrefixJobLock @ i) = Some (Text (lock_value w n), Some T))"

lemma locked_look: "locked v i w T \<Longrightarrow> t < T \<Longrightarrow> \<exists>n. look v t (keyPrefixJobLock @ i) = Some (Text (lock_value w n))"
  by (auto simp: locked_def look_def live_def)

context redis_client
begin

lemma track_frame:
  assumes "up s"
  shows "rv_str (view (trackRunningJob redis now lm i s)) = rv_str (view s) \<and> up (trackRunningJob redis now lm i s)
    \<and> rv_hash (view (trackRunningJob redis now lm i s)) = (rv_hash (view s))
        (keyPrefixRunningJobs := (rv_hash (view s) keyPrefixRunningJobs)(i \<mapsto> running_value (lm_workerID lm) now))"
  using assms by (simp add: trackRunningJob_def Let_def laws)

lemma untrack_frame:
  assumes "up s"
  shows "rv_str (view (untrackRunningJob redis now lm i s)) = rv_str (view s) \<and> up (untrackRunningJob redis now lm i s)"
  using assms by (simp add: untrackRunningJob_def Let_def laws)

lemma AcquireLock_free:
  assumes "up s" "0 \<le> lm_lockTTL lm" "look (view s) now (keyPrefixJobLock @ i) = None"
    and "AcquireLock redis now i (lm, s) = (r, lm', s')"
  shows "r = Inr (length (lm_locks lm))"
    "lm_locks lm' = lm_locks lm @ [\<lparr>jl_jobID = i, jl_workerID = lm_workerID lm, jl_lockKey = keyPrefixJobLock @ i,
       jl_ttl = lm_lockTTL lm, jl_held = True\<rparr>]"
    "lm_workerID lm' = lm_workerID lm" "lm_lockTTL lm' = lm_lockTTL lm" "up s'"
    "rv_str (view s') = (rv_str (view s))(keyPrefixJobLock @ i \<mapsto> (Text (lock_value (lm_workerID lm) now), expiry now (lm_lockTTL lm)))"
    "rv_hash (view s') = (rv_hash (view s))
        (keyPrefixRunningJobs := (rv_hash (view s) keyPrefixRunningJobs)(i \<mapsto> running_value (lm_workerID lm) now))"
  using assms(4) track_frame [of "snd (redis now (SETNX (keyPrefixJobLock @ i) (Text (lock_value (lm_workerID lm) now)) (lm_lockTTL lm)) s)" now lm i]
  by (auto simp: AcquireLock_def case_prod_unfold laws assms(1-3) Let_def)

lemma AcquireLock_busy:
  assumes "up s" "0 \<le> lm_lockTTL lm" "look (view s) now (keyPrefixJobLock @ i) \<noteq> None"
  shows "fst (AcquireLock redis now i (lm, s)) = Inl ErrLockNotAcquired"
    "fst (snd (AcquireLock redis now i (lm, s))) = lm"
    "view (snd (snd (AcquireLock redis now i (lm, s)))) = view s" "up (snd (snd (AcquireLock redis now i (lm, s))))"
  using assms by (auto simp: AcquireLock_def case_prod_unfold laws Let_def split: blob.splits)

lemma acquire_keeps_lock:
  assumes "up s" "0 \<le> lm_lockTTL lm" "locked (view s) i w T" "now < T"
  shows "up (snd (snd (AcquireLock redis now j (lm, s)))) \<and> locked (view (snd (snd (AcquireLock redis now j (lm, s))))) i w T"
proof (cases "look (view s) now (keyPrefixJobLock @ j) = None")
  case True
  then have "j \<noteq> i" using locked_look [OF assms(3,4)] by auto
  obtain r lm' s' where e: "AcquireLock redis now j (lm, s) = (r, lm', s')" by (metis prod_cases3)
  show ?thesis using AcquireLock_free(5,6) [OF assms(1,2) True e] assms(3) \<open>j \<noteq> i\<close> by (simp add: e locked_def)
next
  case False
  then show ?thesis using AcquireLock_busy(3,4) [OF assms(1,2) False] assms(3) by simp
qed

lemma release_script_other:
  assumes "up s" "locked (view s) i w T" "now < T" "uuid_like w" "uuid_like w'" "w' \<noteq> w"
  shows "up (snd (release_script redis now (keyPrefixJobLock @ j) (w' @ '':'') s))
    \<and> locked (view (snd (release_script redis now (keyPrefixJobLock @ j) (w' @ '':'') s))) i w T"
proof (cases "j = i")
  case True
  obtain n where "look (view s) now (keyPrefixJobLock @ i) = Some (Text (lock_value w n))"
    using locked_look [OF assms(2,3)] by blast
  then show ?thesis using assms(1,2,6) True owner_sublist [OF assms(4,5)]
    by (simp add: release_script_def case_prod_unfold laws)
next
  case False
  then show ?thesis using assms(1,2)
    by (auto simp: release_script_def case_prod_unfold laws locked_def split: option.splits blob.splits)
qed

lemma extend_script_other:
  assumes "up s" "locked (view s) i w T" "now < T" "uuid_like w" "uuid_like w'" "w' \<noteq> w" "0 < ttl"
  shows "up (snd (extend_script redis now (keyPrefixJobLock @ j) (w' @ '':'') ttl s))
    \<and> locked (view (snd (extend_script redis now (keyPrefixJobLock @ j) (w' @ '':'') ttl s))) i w T"
proof (cases "j = i")
  case True
  obtain n where "look (view s) now (keyPrefixJobLock @ i) = Some (Text (lock_value w n))"
    using locked_look [OF assms(2,3)] by blast
  then show ?thesis using assms(1,2,6) True owner_sublist [OF assms(4,5)]
    by (simp add: extend_script_def case_prod_unfold laws)
next
  case False
  then show ?thesis using assms(1,2,7)
    by (auto simp: extend_script_def case_prod_unfold laws locked_def split: option.splits blob.splits)
qed

end

subsection \<open>Exclusion\<close>

text \<open>What the managers of other workers may do before the instant \<open>T\<close>.\<close>

inductive rival_step :: "'s redis \<Rightarrow> string \<Rightarrow> time \<Rightarrow> 's \<Rightarrow> 's \<Rightarrow> bool" for redis w T where
  rival_acquire: "locks_ok lm \<Longrightarrow> lm_workerID lm \<noteq> w \<Longrightarrow> now < T \<Longrightarrow>
     rival_step redis w T s (snd (snd (AcquireLock redis now j (lm, s))))"
| rival_release: "locks_ok lm \<Longrightarrow> lm_workerID lm \<noteq> w \<Longrightarrow> now < T \<Longrightarrow> p < length (lm_locks lm) \<Longrightarrow>
     rival_step redis w T s (snd (snd (ReleaseLock redis now (Some p) (lm, s))))"
| rival_beat: "locks_ok lm \<Longrightarrow> lm_workerID lm \<noteq> w \<Longrightarrow> now < T \<Longrightarrow> p < length (lm_locks lm) \<Longrightarrow>
     rival_step redis w T s (snd (snd (heartbeat_tick redis now p (lm, s))))"

lemma locks_ok_nth:
  assumes "locks_ok lm" "p < length (lm_locks lm)"
  shows "jl_lockKey (lm_locks lm ! p) = keyPrefixJobLock @ jl_jobID (lm_locks lm ! p)"
    "jl_workerID (lm_locks lm ! p) = lm_workerID lm" "0 < jl_ttl (lm_locks lm ! p) div millisecond * millisecond"
  using assms nth_mem [OF assms(2)] by (auto simp: locks_ok_def pos_imp_zdiv_pos_iff)

context redis_client
begin

lemma rival_step_keeps:
  assumes "rival_step redis w T s s'" "up s" "locked (view s) i w T" "uuid_like w"
  shows "up s' \<and> locked (view s') i w T"
  using assms(1)
proof cases
  case (rival_acquire lm now j)
  then show ?thesis using acquire_keeps_lock [OF assms(2) _ assms(3)] by (simp add: locks_ok_def)
next
  case (rival_release lm now p)
  let ?l = "lm_locks lm ! p"
  have u: "uuid_like (lm_workerID lm)" using rival_release(2) by (simp add: locks_ok_def)
  note r = release_script_other [OF assms(2,3) rival_release(4) assms(4) u rival_release(3), of "jl_jobID ?l"]
  show ?thesis using r assms(2,3) rival_release(1)
      untrack_frame [of "snd (release_script redis now (keyPrefixJobLock @ jl_jobID ?l) (lm_workerID lm @ '':'') s)"]
    by (auto simp: ReleaseLock_def Let_def locks_ok_nth(1) [OF rival_release(2,5)] case_prod_unfold locked_def
        split: reply.splits)
next
  case (rival_beat lm now p)
  let ?l = "lm_locks lm ! p"
  have u: "uuid_like (lm_workerID lm)" using rival_beat(2) by (simp add: locks_ok_def)
  note k = locks_ok_nth [OF rival_beat(2,5)]
  note r = extend_script_other [OF assms(2,3) rival_beat(4) assms(4) u rival_beat(3) k(3), of "jl_jobID ?l"]
  show ?thesis using r assms(2,3) rival_beat(1)
    by (auto simp: heartbeat_tick_def Let_def k(1,2) case_prod_unfold split: reply.splits)
qed

lemma rival_steps_keep:
  assumes "(rival_step redis w T)\<^sup>*\<^sup>* s s'" "up s" "locked (view s) i w T" "uuid_like w"
  shows "up s' \<and> locked (view s') i w T"
  using assms(1)
proof induction
  case base
  then show ?case using assms by simp
next
  case (step y z)
  then show ?case using rival_step_keeps assms(4) by blast
qed

lemma own_heartbeat:
  assumes "up s" "locked (view s) (jl_jobID (lm_locks lm ! p)) (lm_workerID lm) T" "now < T" "locks_ok lm"
    and "p < length (lm_locks lm)" "jl_held (lm_locks lm ! p)"
  shows "fst (heartbeat_tick redis now p (lm, s)) \<and> fst (snd (heartbeat_tick redis now p (lm, s))) = lm
    \<and> locked (view (snd (snd (heartbeat_tick redis now p (lm, s))))) (jl_jobID (lm_locks lm ! p)) (lm_workerID lm)
        (now + lm_lockTTL lm div millisecond * millisecond)"
proof -
  let ?l = "lm_locks lm ! p"
  obtain n where n: "look (view s) now (keyPrefixJobLock @ jl_jobID ?l) = Some (Text (lock_value (lm_workerID lm) n))"
    using locked_look [OF assms(2,3)] by blast
  have u: "uuid_like (lm_workerID lm)" "jl_ttl ?l = lm_lockTTL lm" "millisecond \<le> lm_lockTTL lm"
    using assms(4,5) nth_mem [OF assms(5)] by (auto simp: locks_ok_def)
  note k = locks_ok_nth [OF assms(4,5)]
  have "millisecond \<le> lm_lockTTL lm div millisecond * millisecond"
    using u(3) pos_imp_zdiv_pos_iff [of millisecond "lm_lockTTL lm"] by auto
  then have px: "px (lm_lockTTL lm div millisecond * millisecond) = lm_lockTTL lm div millisecond * millisecond"
    by (intro px_whole) auto
  show ?thesis using assms(1,6) n k(3)
    by (auto simp: heartbeat_tick_def extend_script_def Let_def k(1,2) u(2) case_prod_unfold laws
        owner_sublist [OF u(1) u(1)] locked_def expiry_def px)
qed

end

lemma acquired_locks_ok:
  assumes "locks_ok lm" "lm_locks lm' = lm_locks lm @ [\<lparr>jl_jobID = i, jl_workerID = lm_workerID lm, jl_lockKey = keyPrefixJobLock @ i,
       jl_ttl = lm_lockTTL lm, jl_held = True\<rparr>]" "lm_workerID lm' = lm_workerID lm" "lm_lockTTL lm' = lm_lockTTL lm"
  shows "locks_ok lm'" "jl_jobID (lm_locks lm' ! length (lm_locks lm)) = i" "jl_held (lm_locks lm' ! length (lm_locks lm))"
  using assms by (auto simp: locks_ok_def)


definition worker_a :: string where "worker_a = replicate 36 (CHR ''a'')"
definition worker_b :: string where "worker_b = replicate 36 (CHR ''b'')"

lemma workers_ok [simp]:
  "locks_ok (NewLockManager worker_a DefaultLockManagerConfig)" "locks_ok (NewLockManager worker_b DefaultLockManagerConfig)"
  "lm_locks (NewLockManager w c) = []" "lm_workerID (NewLockManager w c) = w" "lm_lockTTL (NewLockManager w c) = lc_LockTTL c"
  by (auto simp: locks_ok_def NewLockManager_def DefaultLockManagerConfig_def uuid_like_def worker_a_def worker_b_def)

definition lock_store :: mem where
  "lock_store = \<lparr>m_str = (\<lambda>_. None), m_list = (\<lambda>_. []), m_zset = (\<lambda>_. []), m_hash = (\<lambda>_. []), m_set = (\<lambda>_. [])\<rparr>"

lemma lock_store_ok [simp]: "mem_up lock_store" "look (mem_view lock_store) t k = None"
  by (simp_all add: mem_up_def lock_store_def look_def mem_view_def)


subsection \<open>Stale locks\<close>

text \<open>The scan format never yields a timestamp: \<^verbatim>\<open>%s\<close> has already taken the colon.\<close>

lemma scan_worker_no_timestamp: "snd (scan_worker value) = 0"
proof (cases "dropWhile (\<lambda>c. \<not> is_space c) (dropWhile is_space value)")
  case Nil
  show ?thesis unfolding scan_worker_def Let_def Nil by simp
next
  case (Cons c rest)
  have "dropWhile (\<lambda>c. \<not> is_space c) (dropWhile is_space value) \<noteq> []" using Cons by simp
  from hd_dropWhile [OF this] have "is_space c" using Cons by simp
  then have "c \<noteq> CHR '':''" by (auto simp: is_space_def)
  then show ?thesis unfolding scan_worker_def Let_def Cons by simp
qed

context redis_client
begin

lemma cleanup_removes_all:
  assumes "up s" "unix_seconds now > trunc (real_of_int stale / real_of_int second)"
  shows "fst (cleanup_loop redis now stale ps s) = map fst ps \<and> up (snd (cleanup_loop redis now stale ps s))
    \<and> (\<forall>k. rv_str (view (snd (cleanup_loop redis now stale ps s))) k =
          (if \<exists>i \<in> set (map fst ps). k = keyPrefixJobLock @ i then None else rv_str (view s) k))"
  using assms(1)
proof (induction ps arbitrary: s)
  case Nil
  then show ?case by simp
next
  case (Cons pr ps)
  obtain i val where pr: "pr = (i, val)" by (cases pr)
  let ?s1 = "snd (redis now (DEL (keyPrefixJobLock @ i)) s)"
  let ?s2 = "snd (redis now (HDEL keyPrefixRunningJobs i) ?s1)"
  have s2: "up ?s2" "rv_str (view ?s2) = (rv_str (view s))(keyPrefixJobLock @ i := None)"
    using Cons.prems by (simp_all add: laws)
  have "cleanup_loop redis now stale (pr # ps) s
      = (i # fst (cleanup_loop redis now stale ps ?s2), snd (cleanup_loop redis now stale ps ?s2))"
    using assms(2) by (simp add: pr scan_worker_no_timestamp Let_def case_prod_unfold)
  then show ?case using Cons.IH [OF s2(1)] s2(2) pr by auto
qed

end

text \<open>
  The stale-lock sweep steals live locks. \<^verbatim>\<open>CleanupStaleJobs\<close> cannot read the start time
  of a running job, takes it to be 0, and so treats every running job as started in 1970:
  even at the very instant a worker has acquired a lock the sweep of any worker reports the
  job as stale and deletes its lock, and another worker's attempt then succeeds.
\<close>

theorem cleanup_steals_live_locks:
  assumes "redis_client redis view up" "up s" "locks_ok lm" "look (view s) now (keyPrefixJobLock @ i) = None"
    and "AcquireLock redis now i (lm, s) = (r, lm', s')" "unix_seconds now > trunc (real_of_int stale / real_of_int second)"
    and "CleanupStaleJobs redis now stale s' = (r2, s'')" "locks_ok b"
  shows "r = Inr (length (lm_locks lm)) \<and> (\<exists>cleaned. r2 = Inr cleaned \<and> i \<in> set cleaned)
    \<and> fst (AcquireLock redis now i (b, s'')) = Inr (length (lm_locks b))"
proof -
  have pos: "0 < lm_lockTTL lm" "0 \<le> lm_lockTTL b" using assms(3,8) by (auto simp: locks_ok_def)
  note a = redis_client.AcquireLock_free [OF assms(1,2) _ assms(4,5)]
  have up': "up s'" using a(5) pos by simp
  let ?s1 = "snd (redis now (HGETALL keyPrefixRunningJobs) s')"
  obtain ps where ps: "fst (redis now (HGETALL keyPrefixRunningJobs) s') = RPairs ps"
      "map_of ps = rv_hash (view s') keyPrefixRunningJobs"
    using redis_client.HGETALL_reply [OF assms(1) up' lock_key_types(3)] by blast
  have s1: "up ?s1" using redis_client.stays_up [OF assms(1) up'] .
  have "map_of ps i \<noteq> None" using ps(2) a(7) pos by simp
  then have i: "i \<in> set (map fst ps)" by (simp add: map_of_eq_None_iff)
  have c: "r2 = Inr (map fst ps)" "s'' = snd (cleanup_loop redis now stale ps ?s1)"
    using assms(7) ps(1) redis_client.cleanup_removes_all [OF assms(1) s1 assms(6), of ps]
    by (auto simp: CleanupStaleJobs_def case_prod_unfold)
  have up2: "up s''" "rv_str (view s'') (keyPrefixJobLock @ i) = None"
    using redis_client.cleanup_removes_all [OF assms(1) s1 assms(6), of ps] i unfolding c(2) by auto
  obtain q lm3 s3 where e: "AcquireLock redis now i (b, s'') = (q, lm3, s3)" by (metis prod_cases3)
  have "look (view s'') now (keyPrefixJobLock @ i) = None" using up2(2) by (simp add: look_def)
  from redis_client.AcquireLock_free(1) [OF assms(1) up2(1) pos(2) this e] show ?thesis
    using a(1) pos c(1) i e by simp
qed

theorem cleanup_steals_live_locks_witness:
  "\<exists>s''. CleanupStaleJobs mem_redis (hour) (10 * minute)
       (snd (snd (AcquireLock mem_redis hour ''j'' (NewLockManager worker_a DefaultLockManagerConfig, lock_store))))
         = (Inr [''j''], s'')
     \<and> fst (AcquireLock mem_redis hour ''j'' (NewLockManager worker_b DefaultLockManagerConfig, s'')) = Inr 0"
proof -
  let ?a = "NewLockManager worker_a DefaultLockManagerConfig" and ?b = "NewLockManager worker_b DefaultLockManagerConfig"
  obtain r lm' s' where e: "AcquireLock mem_redis hour ''j'' (?a, lock_store) = (r, lm', s')" by (metis prod_cases3)
  obtain r2 s'' where c: "CleanupStaleJobs mem_redis hour (10 * minute) s' = (r2, s'')" by (cases "CleanupStaleJobs mem_redis hour (10 * minute) s'")
  have g: "unix_seconds hour > trunc (real_of_int (10 * minute) / real_of_int second)"
    by (simp add: unix_seconds_def trunc_def)
  note st = cleanup_steals_live_locks [OF mem.redis_client_axioms lock_store_ok(1) workers_ok(1) lock_store_ok(2) e g c workers_ok(2)]
  have "m_hash s' keyPrefixRunningJobs = [(''j'', running_value worker_a hour)]"
    using e by (auto simp: AcquireLock_def trackRunningJob_def Let_def lock_store_def without_def look_def mem_view_def)
  then have "fst (CleanupStaleJobs mem_redis hour (10 * minute) s') = Inr [''j'']"
    using mem.cleanup_removes_all [where s = s' and now = hour and stale = "10 * minute" and ps = "[(''j'', running_value worker_a hour)]"] g
      mem.AcquireLock_free(5) [OF lock_store_ok(1) _ lock_store_ok(2) e]
    by (auto simp: CleanupStaleJobs_def case_prod_unfold DefaultLockManagerConfig_def simp del: cleanup_loop.simps)
  then show ?thesis using st c e by simp
qed

text \<open>
  Idempotency records. \<^verbatim>\<open>MarkCompleted\<close> under a non-empty key makes every
  \<^verbatim>\<open>CheckIdempotency\<close> of that key answer yes for the configured time, whatever else is
  marked or locked; before the mark, and after the time, it answers no; an empty key is
  never remembered.
\<close>

theorem idempotency_window:
  assumes "redis_client redis view up" "up s" "0 < lm_idempotencyTTL lm" "key \<noteq> []"
    and "s1 = snd (MarkCompleted redis now lm key jobID s)"
  shows "fst (MarkCompleted redis now lm key jobID s) = None
    \<and> (fst (CheckIdempotency redis t key s1) = Inr (t < now + px (lm_idempotencyTTL lm)))
    \<and> (other \<noteq> key \<longrightarrow> fst (CheckIdempotency redis t other s1) = fst (CheckIdempotency redis t other s))
    \<and> MarkCompleted redis now lm [] jobID s = (None, s) \<and> CheckIdempotency redis t [] s1 = (Inr False, s1)"
proof -
  have m: "fst (MarkCompleted redis now lm key jobID s) = None" "up s1"
    "rv_str (view s1) = (rv_str (view s))(keyPrefixIdempotency @ key \<mapsto> (Text (running_value jobID now), Some (now + px (lm_idempotencyTTL lm))))"
    using assms(2-5)
    by (auto simp: MarkCompleted_def case_prod_unfold expiry_def redis_client.SET_reply [OF assms(1)]
        redis_client.SET_view [OF assms(1)] redis_client.stays_up [OF assms(1)])
  have ck: "fst (CheckIdempotency redis t k u) = Inr (k \<noteq> [] \<and> look (view u) t (keyPrefixIdempotency @ k) \<noteq> None)" if "up u" for k u
    using that by (simp add: CheckIdempotency_def case_prod_unfold redis_client.EXISTS_reply [OF assms(1)])
  have "MarkCompleted redis now lm [] jobID s = (None, s)" "CheckIdempotency redis t [] s1 = (Inr False, s1)"
    by (simp_all add: MarkCompleted_def CheckIdempotency_def)
  then show ?thesis using m(1) ck [OF m(2)] ck [OF assms(2)] assms(4) by (auto simp: look_def live_def m(3))
qed

theorem idempotency_window_witness:
  "fst (CheckIdempotency mem_redis 9 ''k'' (snd (MarkCompleted mem_redis 5 (NewLockManager worker_a DefaultLockManagerConfig) ''k'' ''j'' lock_store)))
     = Inr True"
  using idempotency_window [OF mem.redis_client_axioms lock_store_ok(1), of "NewLockManager worker_a DefaultLockManagerConfig" "''k''" _ 5 "''j''" 9, OF _ _ refl]
  by (simp add: NewLockManager_def DefaultLockManagerConfig_def px_def)

end
