(* ===== verification/Worker_Pool.thy ===== *)
theory Worker_Pool
  imports Queue_Properties Job_Lock
begin

text \<open>
  The worker side of the job system: \<^verbatim>\<open>internal/jobs/worker/pool.go\<close>, the metrics it feeds
  (\<^verbatim>\<open>internal/jobs/metrics.go\<close>) and the typed handler registry
  (\<^verbatim>\<open>internal/jobs/handler/registry.go\<close>). A handler acts on a world of its own and succeeds,
  fails with an error text or panics. One call of \<^verbatim>\<open>processNextJob\<close> takes its job at \<open>t0\<close>
  and is done with it at \<open>t1\<close>; a panic of the handler is not recovered and ends the process,
  after the deferred calls.
\<close>

subsection \<open>Metrics\<close>

record Metrics =
  jm_JobsEnqueued :: int
  jm_JobsCompleted :: int
  jm_JobsFailed :: int
  jm_JobsRetried :: int
  jm_JobsDead :: int
  jm_JobsPending :: int
  jm_JobsRunning :: int
  jm_WorkersActive :: int
  jm_JobDurations :: "duration list"

definition NewMetrics :: Metrics where
  "NewMetrics = \<lparr>jm_JobsEnqueued = 0, jm_JobsCompleted = 0, jm_JobsFailed = 0, jm_JobsRetried = 0,
     jm_JobsDead = 0, jm_JobsPending = 0, jm_JobsRunning = 0, jm_WorkersActive = 0, jm_JobDurations = []\<rparr>"

definition RecordJobEnqueued :: "Metrics \<Rightarrow> Metrics" where
  "RecordJobEnqueued m = m\<lparr>jm_JobsEnqueued := jm_JobsEnqueued m + 1, jm_JobsPending := jm_JobsPending m + 1\<rparr>"

definition RecordJobStarted :: "Metrics \<Rightarrow> Metrics" where
  "RecordJobStarted m = m\<lparr>jm_JobsPending := jm_JobsPending m - 1, jm_JobsRunning := jm_JobsRunning m + 1,
     jm_WorkersActive := jm_WorkersActive m + 1\<rparr>"

definition RecordJobCompleted :: "duration \<Rightarrow> Metrics \<Rightarrow> Metrics" where
  "RecordJobCompleted d m = m\<lparr>jm_JobsCompleted := jm_JobsCompleted m + 1, jm_JobsRunning := jm_JobsRunning m - 1,
     jm_WorkersActive := jm_WorkersActive m - 1, jm_JobDurations := jm_JobDurations m @ [d]\<rparr>"

definition RecordJobFailed :: "bool \<Rightarrow> Metrics \<Rightarrow> Metrics" where
  "RecordJobFailed willRetry m = m\<lparr>jm_JobsFailed := jm_JobsFailed m + 1, jm_JobsRunning := jm_JobsRunning m - 1,
     jm_WorkersActive := jm_WorkersActive m - 1,
     jm_JobsRetried := jm_JobsRetried m + (if willRetry then 1 else 0)\<rparr>"

definition RecordJobDead :: "Metrics \<Rightarrow> Metrics" where
  "RecordJobDead m = m\<lparr>jm_JobsDead := jm_JobsDead m + 1\<rparr>"

record HealthCheck =
  hc_Status :: string
  hc_WorkersActive :: int
  hc_JobsPending :: int
  hc_IsLeader :: bool

definition GetHealthCheck :: "bool \<Rightarrow> Metrics \<Rightarrow> HealthCheck" where
  "GetHealthCheck isLeader m =
     \<lparr>hc_Status = (if jm_JobsPending m > 1000 then ''degraded'' else ''healthy''),
      hc_WorkersActive = jm_WorkersActive m, hc_JobsPending = jm_JobsPending m, hc_IsLeader = isLeader\<rparr>"

text \<open>The metric lines of \<^verbatim>\<open>PrometheusHandler\<close>; \<open>float_text\<close> renders the average.\<close>

definition writeMetric :: "string \<Rightarrow> string \<Rightarrow> string \<Rightarrow> string \<Rightarrow> string" where
  "writeMetric name metricType help val =
     ''# HELP '' @ name @ '' '' @ help @ [CHR 0x0A] @ ''# TYPE '' @ name @ '' '' @ metricType @ [CHR 0x0A]
     @ name @ '' '' @ val @ [CHR 0x0A]"

definition average_ms :: "duration list \<Rightarrow> real" where
  "average_ms ds = real_of_int (sum_list ds div millisecond) / real (length ds)"

definition PrometheusHandler :: "(real \<Rightarrow> string) \<Rightarrow> Metrics \<Rightarrow> string" where
  "PrometheusHandler float_text m =
     writeMetric ''arcana_jobs_enqueued_total'' ''counter'' ''Total jobs enqueued'' (itoa (jm_JobsEnqueued m))
     @ writeMetric ''arcana_jobs_completed_total'' ''counter'' ''Total jobs completed'' (itoa (jm_JobsCompleted m))
     @ writeMetric ''arcana_jobs_failed_total'' ''counter'' ''Total jobs failed'' (itoa (jm_JobsFailed m))
     @ writeMetric ''arcana_jobs_retried_total'' ''counter'' ''Total jobs retried'' (itoa (jm_JobsRetried m))
     @ writeMetric ''arcana_jobs_dead_total'' ''counter'' ''Total jobs moved to DLQ'' (itoa (jm_JobsDead m))
     @ writeMetric ''arcana_jobs_pending'' ''gauge'' ''Current pending jobs'' (itoa (jm_JobsPending m))
     @ writeMetric ''arcana_jobs_running'' ''gauge'' ''Current running jobs'' (itoa (jm_JobsRunning m))
     @ writeMetric ''arcana_workers_active'' ''gauge'' ''Active worker count'' (itoa (jm_WorkersActive m))
     @ (if jm_JobDurations m = [] then []
        else writeMetric ''arcana_job_duration_avg_ms'' ''gauge'' ''Average job duration in ms''
               (float_text (average_ms (jm_JobDurations m))))"

subsection \<open>The pool\<close>

datatype handler_result = HOk | HErr string | HPanic

type_synonym 'w handler = "json \<Rightarrow> 'w \<Rightarrow> handler_result \<times> 'w"

record WorkerPoolConfig =
  wc_Concurrency :: int
  wc_PollInterval :: duration
  wc_ShutdownTimeout :: duration
  wc_EnableLocking :: bool
  wc_EnableIdempotency :: bool
  wc_StaleJobCleanup :: duration
  wc_StaleJobThreshold :: duration

definition DefaultWorkerPoolConfig :: WorkerPoolConfig where
  "DefaultWorkerPoolConfig = \<lparr>wc_Concurrency = 8, wc_PollInterval = 100 * millisecond,
     wc_ShutdownTimeout = 30 * second, wc_EnableLocking = True, wc_EnableIdempotency = True,
     wc_StaleJobCleanup = minute, wc_StaleJobThreshold = 10 * minute\<rparr>"

record 'w WorkerPool =
  wp_config :: WorkerPoolConfig
  wp_lockManager :: "LockManager option"
  wp_handlers :: "string \<rightharpoonup> 'w handler"
  wp_running :: bool
  wp_stopClosed :: bool
  wp_goroutines :: int
  wp_activeWorkers :: int
  wp_processedJobs :: int
  wp_failedJobs :: int
  wp_skippedJobs :: int
  wp_metrics :: Metrics

definition NewWorkerPool :: "WorkerPoolConfig \<Rightarrow> Metrics \<Rightarrow> 'w WorkerPool" where
  "NewWorkerPool config globalMetrics = \<lparr>wp_config = config, wp_lockManager = None, wp_handlers = Map.empty,
     wp_running = False, wp_stopClosed = False, wp_goroutines = 0, wp_activeWorkers = 0, wp_processedJobs = 0,
     wp_failedJobs = 0, wp_skippedJobs = 0, wp_metrics = globalMetrics\<rparr>"

definition SetLockManager :: "LockManager \<Rightarrow> 'w WorkerPool \<Rightarrow> 'w WorkerPool" where
  "SetLockManager lm p = p\<lparr>wp_lockManager := Some lm\<rparr>"

definition RegisterHandler :: "string \<Rightarrow> 'w handler \<Rightarrow> 'w WorkerPool \<Rightarrow> 'w WorkerPool" where
  "RegisterHandler jobType h p = p\<lparr>wp_handlers := (wp_handlers p)(jobType \<mapsto> h)\<rparr>"

text \<open>The typed registration of \<^verbatim>\<open>handler.Register\<close>: \<open>decode\<close> is \<^verbatim>\<open>json.Unmarshal\<close> into the
  payload type, whose name is \<open>typeName\<close>.\<close>

record Registry =
  hr_types :: "string \<rightharpoonup> string"

definition wrapHandler :: "(json \<Rightarrow> 'p option) \<Rightarrow> ('p \<Rightarrow> 'w \<Rightarrow> handler_result \<times> 'w) \<Rightarrow> 'w handler" where
  "wrapHandler decode h data w =
     (case decode data of None \<Rightarrow> (HErr ''failed to unmarshal payload'', w) | Some payload \<Rightarrow> h payload w)"

definition Register ::
  "(json \<Rightarrow> 'p option) \<Rightarrow> string \<Rightarrow> string \<Rightarrow> ('p \<Rightarrow> 'w \<Rightarrow> handler_result \<times> 'w)
     \<Rightarrow> Registry \<times> 'w WorkerPool \<Rightarrow> Registry \<times> 'w WorkerPool" where
  "Register decode typeName jobType h = (\<lambda>(r, p).
     (r\<lparr>hr_types := (hr_types r)(jobType \<mapsto> typeName)\<rparr>, RegisterHandler jobType (wrapHandler decode h) p))"

subsection \<open>One job\<close>

definition checkIdempotency ::
  "'s redis \<Rightarrow> time \<Rightarrow> JobPayload \<Rightarrow> 'w WorkerPool \<times> 's \<Rightarrow> bool \<times> 'w WorkerPool \<times> 's" where
  "checkIdempotency redis now job = (\<lambda>(p, s).
     (if \<not> wc_EnableIdempotency (wp_config p) \<or> wp_lockManager p = None \<or> jp_UniqueKey job = [] then (False, p, s)
      else case CheckIdempotency redis now (jp_UniqueKey job) s of
             (Inl _, s1) \<Rightarrow> (False, p, s1)
           | (Inr finished, s1) \<Rightarrow>
               if finished
               then (True, p\<lparr>wp_skippedJobs := wp_skippedJobs p + 1\<rparr>, snd (Complete redis now (jp_ID job) s1))
               else (False, p, s1)))"

definition unstarted :: "JobPayload \<Rightarrow> JobPayload" where
  "unstarted job = job\<lparr>jp_Status := JobStatusPending, jp_StartedAt := None, jp_Attempts := jp_Attempts job - 1\<rparr>"

definition requeueJob :: "'s redis \<Rightarrow> time \<Rightarrow> JobPayload \<Rightarrow> 's \<Rightarrow> 's" where
  "requeueJob redis now job s =
     (case UpdateJob redis now (unstarted job) s of
        (Some _, s1) \<Rightarrow> s1
      | (None, s1) \<Rightarrow> snd (RequeueJob redis now (jp_ID job) (QueueName (jp_Priority job)) s1))"

definition acquireLock ::
  "'s redis \<Rightarrow> time \<Rightarrow> JobPayload \<Rightarrow> 'w WorkerPool \<times> 's \<Rightarrow> (nat option \<times> bool) \<times> 'w WorkerPool \<times> 's" where
  "acquireLock redis now job = (\<lambda>(p, s).
     (case wp_lockManager p of
        None \<Rightarrow> ((None, True), p, s)
      | Some lm \<Rightarrow>
          if \<not> wc_EnableLocking (wp_config p) then ((None, True), p, s)
          else case AcquireLock redis now (jp_ID job) (lm, s) of
                 (Inr lock, lm1, s1) \<Rightarrow> ((Some lock, True), p\<lparr>wp_lockManager := Some lm1\<rparr>, s1)
               | (Inl err, lm1, s1) \<Rightarrow>
                   (let s2 = (if err = ErrLockNotAcquired then requeueJob redis now job s1 else s1)
                    in ((None, False), p\<lparr>wp_lockManager := Some lm1, wp_skippedJobs := wp_skippedJobs p + 1\<rparr>, s2))))"

definition executeJob ::
  "(real \<Rightarrow> int) \<Rightarrow> 's redis \<Rightarrow> time \<Rightarrow> time \<Rightarrow> JobPayload \<Rightarrow> 'w handler
     \<Rightarrow> 'w WorkerPool \<times> 'w \<times> 's \<Rightarrow> bool \<times> 'w WorkerPool \<times> 'w \<times> 's" where
  "executeJob oor redis t0 t1 job h = (\<lambda>(p, w, s).
     (case h (jp_Payload job) w of
        (HPanic, w1) \<Rightarrow> (True, p, w1, s)
      | (HErr err, w1) \<Rightarrow>
          (let s1 = snd (Fail oor redis t1 (jp_ID job) err s)
           in (False, p\<lparr>wp_failedJobs := wp_failedJobs p + 1,
                        wp_metrics := RecordJobFailed (jp_Attempts job < jp_MaxRetries job) (wp_metrics p)\<rparr>, w1, s1))
      | (HOk, w1) \<Rightarrow>
          (let s1 = snd (Complete redis t1 (jp_ID job) s);
               p1 = p\<lparr>wp_processedJobs := wp_processedJobs p + 1,
                      wp_metrics := RecordJobCompleted (t1 - t0) (wp_metrics p)\<rparr>;
               s2 = (case wp_lockManager p of
                       None \<Rightarrow> s1
                     | Some lm \<Rightarrow> if wc_EnableIdempotency (wp_config p) \<and> jp_UniqueKey job \<noteq> []
                                  then snd (MarkCompleted redis t1 lm (jp_UniqueKey job) (jp_ID job) s1) else s1)
           in (False, p1, w1, s2))))"

text \<open>The deferred calls of \<^verbatim>\<open>processNextJob\<close>: the gauge first, then the release of the lock.\<close>

definition finishJob :: "'s redis \<Rightarrow> time \<Rightarrow> nat option \<Rightarrow> 'w WorkerPool \<times> 's \<Rightarrow> 'w WorkerPool \<times> 's" where
  "finishJob redis now lock = (\<lambda>(p, s).
     (let p1 = p\<lparr>wp_activeWorkers := wp_activeWorkers p - 1\<rparr>
      in case wp_lockManager p1 of
           None \<Rightarrow> (p1, s)
         | Some lm \<Rightarrow> (case ReleaseLock redis now lock (lm, s) of
                         (_, lm1, s1) \<Rightarrow> (p1\<lparr>wp_lockManager := Some lm1\<rparr>, s1))))"

definition processNextJob ::
  "(real \<Rightarrow> int) \<Rightarrow> 's redis \<Rightarrow> time \<Rightarrow> time \<Rightarrow> 'w WorkerPool \<times> 'w \<times> 's \<Rightarrow> bool \<times> 'w WorkerPool \<times> 'w \<times> 's" where
  "processNextJob oor redis t0 t1 = (\<lambda>(p, w, s).
     (case Dequeue redis t0 [] s of
        (Inl _, s1) \<Rightarrow> (False, p, w, s1)
      | (Inr job, s1) \<Rightarrow>
          (case checkIdempotency redis t0 job (p, s1) of
             (True, p2, s2) \<Rightarrow> (False, p2, w, s2)
           | (False, p2, s2) \<Rightarrow>
               (case acquireLock redis t0 job (p2, s2) of
                  ((_, False), p3, s3) \<Rightarrow> (False, p3, w, s3)
                | ((lock, True), p3, s3) \<Rightarrow>
                    (let p4 = p3\<lparr>wp_activeWorkers := wp_activeWorkers p3 + 1,
                                 wp_metrics := RecordJobStarted (wp_metrics p3)\<rparr>
                     in case (case wp_handlers p4 (jp_Type job) of
                                None \<Rightarrow> (False,
                                  p4\<lparr>wp_failedJobs := wp_failedJobs p4 + 1,
                                     wp_metrics := RecordJobFailed False (wp_metrics p4)\<rparr>, w,
                                  snd (Fail oor redis t1 (jp_ID job) (''no handler for job type: '' @ jp_Type job) s3))
                              | Some h \<Rightarrow> executeJob oor redis t0 t1 job h (p4, w, s3)) of
                          (crashed, p5, w5, s5) \<Rightarrow>
                            (case finishJob redis t1 lock (p5, s5) of (p6, s6) \<Rightarrow> (crashed, p6, w5, s6)))))))"

subsection \<open>Life cycle\<close>

definition locking_on :: "'w WorkerPool \<Rightarrow> bool" where
  "locking_on p \<longleftrightarrow> wc_EnableLocking (wp_config p) \<and> wp_lockManager p \<noteq> None"

definition pool_Start :: "'w WorkerPool \<Rightarrow> string option \<times> 'w WorkerPool" where
  "pool_Start p =
     (if wp_running p then (Some ''worker pool already running'', p)
      else (None, p\<lparr>wp_running := True,
              wp_goroutines := wp_goroutines p + max 0 (wc_Concurrency (wp_config p)) + 1
                + (if locking_on p then 1 else 0)\<rparr>))"

text \<open>\<^verbatim>\<open>Stop\<close>: closing a channel twice panics, the result \<open>None\<close>.\<close>

definition pool_Stop :: "'s redis \<Rightarrow> time \<Rightarrow> nat list \<Rightarrow> 'w WorkerPool \<times> 's \<Rightarrow> ('w WorkerPool \<times> 's) option" where
  "pool_Stop redis now locks = (\<lambda>(p, s).
     (if \<not> wp_running p then Some (p, s)
      else if wp_stopClosed p then None
      else let p1 = p\<lparr>wp_running := False, wp_stopClosed := True\<rparr>
           in Some (case wp_lockManager p1 of
                      None \<Rightarrow> (p1, s)
                    | Some lm \<Rightarrow> (case ReleaseAllLocks redis now locks (lm, s) of
                                    (lm1, s1) \<Rightarrow> (p1\<lparr>wp_lockManager := Some lm1\<rparr>, s1)))))"

text \<open>
  One turn of the \<^verbatim>\<open>select\<close> in the loops of \<^verbatim>\<open>worker\<close>, \<^verbatim>\<open>scheduledProcessor\<close> and
  \<^verbatim>\<open>staleJobCleaner\<close>: the branches that are ready, of which Go takes any; none ready means it
  waits.
\<close>

datatype loop_action = LoopExit | LoopWork

definition loop_ready :: "'w WorkerPool \<Rightarrow> bool \<Rightarrow> bool \<Rightarrow> loop_action set" where
  "loop_ready p ctxDone ticked =
     (if wp_stopClosed p \<or> ctxDone then {LoopExit} else {}) \<union> (if ticked then {LoopWork} else {})"

definition scheduledProcessor_work :: "'s redis \<Rightarrow> time \<Rightarrow> 's \<Rightarrow> 's" where
  "scheduledProcessor_work redis now s = snd (ProcessScheduled redis now s)"

definition staleJobCleaner_work :: "'s redis \<Rightarrow> time \<Rightarrow> 'w WorkerPool \<Rightarrow> 's \<Rightarrow> 's" where
  "staleJobCleaner_work redis now p s = snd (CleanupStaleJobs redis now (wc_StaleJobThreshold (wp_config p)) s)"

record WorkerPoolStats =
  ws_Running :: bool
  ws_WorkerID :: string
  ws_ActiveWorkers :: int
  ws_ProcessedJobs :: int
  ws_FailedJobs :: int
  ws_SkippedJobs :: int
  ws_Concurrency :: int

definition pool_Stats :: "'w WorkerPool \<Rightarrow> WorkerPoolStats" where
  "pool_Stats p = \<lparr>ws_Running = wp_running p,
     ws_WorkerID = (case wp_lockManager p of None \<Rightarrow> [] | Some lm \<Rightarrow> GetWorkerID lm),
     ws_ActiveWorkers = wp_activeWorkers p, ws_ProcessedJobs = wp_processedJobs p, ws_FailedJobs = wp_failedJobs p,
     ws_SkippedJobs = wp_skippedJobs p, ws_Concurrency = wc_Concurrency (wp_config p)\<rparr>"

definition pool_GetRunningJobs :: "'s redis \<Rightarrow> time \<Rightarrow> 'w WorkerPool \<Rightarrow> 's \<Rightarrow> (lock_error + (string \<times> string) list) \<times> 's" where
  "pool_GetRunningJobs redis now p s =
     (if wp_lockManager p = None then (Inl (LockErrorf ''lock manager not configured''), s)
      else GetRunningJobs redis now s)"

subsection \<open>The keys of the queue and of the locks do not meet\<close>

lemma cross_keys [simp, redis_keys]:
  "keyPrefixJob @ i \<noteq> keyPrefixJobLock @ j" "keyPrefixJobLock @ j \<noteq> keyPrefixJob @ i"
  "keyPrefixJob @ i \<noteq> keyPrefixIdempotency @ j" "keyPrefixIdempotency @ j \<noteq> keyPrefixJob @ i"
  "keyPrefixUnique @ i \<noteq> keyPrefixJobLock @ j" "keyPrefixJobLock @ j \<noteq> keyPrefixUnique @ i"
  "keyPrefixUnique @ i \<noteq> keyPrefixIdempotency @ j" "keyPrefixIdempotency @ j \<noteq> keyPrefixUnique @ i"
  "keyPrefixJob \<noteq> keyPrefixJobLock" "keyPrefixJobLock \<noteq> keyPrefixJob"
  "keyPrefixJob \<noteq> keyPrefixIdempotency" "keyPrefixIdempotency \<noteq> keyPrefixJob"
  by (simp_all add: queue_key_defs lock_key_defs)

lemma stored_cong: "rv_str v' (keyPrefixJob @ i) = rv_str v (keyPrefixJob @ i) \<Longrightarrow> stored t v' i = stored t v i"
  by (simp add: stored_def look_def)

lemma look_cong: "rv_str v' k = rv_str v k \<Longrightarrow> look v' t k = look v t k"
  by (simp add: look_def)

text \<open>The operations of the queue leave the keys of the locks alone.\<close>

lemma queue_ops_str:
  assumes "k \<noteq> keyPrefixJob @ jp_ID j" "jp_UniqueKey j = [] \<or> k \<noteq> keyPrefixUnique @ jp_UniqueKey j"
  shows "rv_str (put_job now j v) k = rv_str v k" "rv_str (bump f n v) k = rv_str v k" "rv_str (pop_list q v) k = rv_str v k"
    "rv_str (push_list q x v) k = rv_str v k" "rv_str (drop_unique j v) k = rv_str v k"
  using assms by (auto simp: view_defs pop_list_def)

lemma rv_str_frames [simp]:
  "rv_str (bump f n v) = rv_str v" "rv_str (pop_list q v) = rv_str v" "rv_str (push_list q x v) = rv_str v"
  "rv_str (schedule t i v) = rv_str v" "rv_str (unschedule i v) = rv_str v"
  by (simp_all add: view_defs pop_list_def)

lemma rv_str_put [simp]:
  "rv_str (put_job now j v) = (rv_str v)(keyPrefixJob @ jp_ID j \<mapsto> (Doc (job_doc j), Some (now + day)))"
  by (simp add: put_job_def)

lemma drop_unique_str [simp]:
  "rv_str (drop_unique j v) (keyPrefixJobLock @ i) = rv_str v (keyPrefixJobLock @ i)"
  "rv_str (drop_unique j v) (keyPrefixJob @ i) = rv_str v (keyPrefixJob @ i)"
  "rv_str (drop_unique j v) (keyPrefixIdempotency @ i) = rv_str v (keyPrefixIdempotency @ i)"
  by (simp_all add: drop_unique_def)

context redis_client
begin

lemma release_own:
  assumes "up s" "rv_str (view s) (keyPrefixJobLock @ i) = Some (Text (lock_value (lm_workerID lm) n), e)" "locks_ok lm"
    and "q < length (lm_locks lm)" "jl_held (lm_locks lm ! q)" "jl_jobID (lm_locks lm ! q) = i"
    and "ReleaseLock redis now (Some q) (lm, s) = (r, lm', s')"
  shows "r = None" "up s'" "look (view s') now (keyPrefixJobLock @ i) = None"
    "k \<noteq> keyPrefixJobLock @ i \<Longrightarrow> rv_str (view s') k = rv_str (view s) k"
    "\<not> jl_held (lm_locks lm' ! q)" "lm_activeLocks lm' i = None"
proof -
  let ?K = "keyPrefixJobLock @ i"
  let ?r = "release_script redis now ?K (lm_workerID lm @ '':'') s"
  have u: "uuid_like (lm_workerID lm)" using assms(3) by (simp add: locks_ok_def)
  have key: "jl_lockKey (lm_locks lm ! q) = ?K" using locks_ok_nth(1) [OF assms(3,4)] assms(6) by simp
  have sc: "fst ?r \<noteq> RErr" "up (snd ?r)" "look (view (snd ?r)) now ?K = None"
    "k \<noteq> ?K \<Longrightarrow> rv_str (view (snd ?r)) k = rv_str (view s) k" for k
    using assms(1,2) owner_sublist [OF u u]
    by (auto simp: release_script_def case_prod_unfold laws look_def split: if_splits)
  have R: "ReleaseLock redis now (Some q) (lm, s) = (None,
      lm\<lparr>lm_locks := (lm_locks lm)[q := (lm_locks lm ! q)\<lparr>jl_held := False\<rparr>], lm_activeLocks := (lm_activeLocks lm)(i := None)\<rparr>,
      untrackRunningJob redis now (lm\<lparr>lm_locks := (lm_locks lm)[q := (lm_locks lm ! q)\<lparr>jl_held := False\<rparr>]\<rparr>) i (snd ?r))"
    using sc(1) assms(5,6) by (cases "fst ?r") (simp_all add: ReleaseLock_def key Let_def case_prod_unfold)
  note ut = untrack_frame [OF sc(2)]
  have eq: "r = None" "s' = untrackRunningJob redis now (lm\<lparr>lm_locks := (lm_locks lm)[q := (lm_locks lm ! q)\<lparr>jl_held := False\<rparr>]\<rparr>) i (snd ?r)"
    "lm' = lm\<lparr>lm_locks := (lm_locks lm)[q := (lm_locks lm ! q)\<lparr>jl_held := False\<rparr>], lm_activeLocks := (lm_activeLocks lm)(i := None)\<rparr>"
    using assms(7) unfolding R by simp_all
  show "r = None" by (rule eq(1))
  show "up s'" using ut eq(2) by simp
  show "look (view s') now ?K = None" using ut sc(3) look_cong [of "view s'" ?K "view (snd ?r)"] eq(2) by simp
  show "k \<noteq> ?K \<Longrightarrow> rv_str (view s') k = rv_str (view s) k" using ut sc(4) eq(2) by simp
  show "\<not> jl_held (lm_locks lm' ! q)" "lm_activeLocks lm' i = None" using assms(4) eq(3) by simp_all
qed

lemma taken_record:
  assumes "queue_rep view up T js s" "js \<noteq> []" "x = hd (service_order js)" "t0 < T" "time_ok t0"
    and "s1 = snd (Dequeue redis t0 [] s)"
  shows "Dequeue redis t0 [] s = (Inr (start_job t0 x), s1)" "up s1"
    "t < t0 + day \<Longrightarrow> stored t (view s1) (jp_ID x) = Some (start_job t0 x)"
    "k \<noteq> keyPrefixJob @ jp_ID x \<Longrightarrow> rv_str (view s1) k = rv_str (view s) k"
    "times_ok (start_job t0 x)"
    "rv_list (view s1) = rv_list (pop_list (QueueName (jp_Priority x)) (view s))"
proof -
  note d = dequeue_effect [OF assms(1,2,4,5,3)]
  show "Dequeue redis t0 [] s = (Inr (start_job t0 x), s1)" "up s1"
    using d assms(6) by (simp_all add: prod_eq_iff)
  show "t < t0 + day \<Longrightarrow> stored t (view s1) (jp_ID x) = Some (start_job t0 x)"
    "k \<noteq> keyPrefixJob @ jp_ID x \<Longrightarrow> rv_str (view s1) k = rv_str (view s) k"
    "rv_list (view s1) = rv_list (pop_list (QueueName (jp_Priority x)) (view s))"
    using d assms(6) by simp_all
  show "times_ok (start_job t0 x)"
    using d assms(1,5) start_job_times by (auto simp: queue_rep_def list_all_iff)
qed

lemma CheckIdempotency_spec:
  assumes "up s" "u \<noteq> []"
  shows "fst (CheckIdempotency redis now u s) = Inr (look (view s) now (keyPrefixIdempotency @ u) \<noteq> None)"
    "view (snd (CheckIdempotency redis now u s)) = view s" "up (snd (CheckIdempotency redis now u s))"
  using assms by (simp_all add: CheckIdempotency_def case_prod_unfold laws)

lemma not_yet_done:
  assumes "up s" "jp_UniqueKey job = [] \<or> look (view s) now (keyPrefixIdempotency @ jp_UniqueKey job) = None"
  shows "\<exists>s1. checkIdempotency redis now job (p, s) = (False, p, s1) \<and> view s1 = view s \<and> up s1"
proof (cases "\<not> wc_EnableIdempotency (wp_config p) \<or> wp_lockManager p = None \<or> jp_UniqueKey job = []")
  case True
  then show ?thesis using assms(1) by (auto simp: checkIdempotency_def)
next
  case False
  then show ?thesis using CheckIdempotency_spec [OF assms(1), of "jp_UniqueKey job" now] assms(2)
    by (intro exI [of _ "snd (CheckIdempotency redis now (jp_UniqueKey job) s)"])
      (auto simp: checkIdempotency_def case_prod_unfold)
qed

end

context redis_client
begin

lemma acquire_for_job:
  assumes "up s" "wp_lockManager p = Some lm" "wc_EnableLocking (wp_config p)" "locks_ok lm"
    and "look (view s) now (keyPrefixJobLock @ jp_ID job) = None"
  shows "\<exists>lm1 s1. acquireLock redis now job (p, s) = ((Some (length (lm_locks lm)), True), p\<lparr>wp_lockManager := Some lm1\<rparr>, s1)
    \<and> up s1 \<and> locks_ok lm1 \<and> lm_workerID lm1 = lm_workerID lm \<and> lm_idempotencyTTL lm1 = lm_idempotencyTTL lm
    \<and> length (lm_locks lm) < length (lm_locks lm1)
    \<and> jl_held (lm_locks lm1 ! length (lm_locks lm)) \<and> jl_jobID (lm_locks lm1 ! length (lm_locks lm)) = jp_ID job
    \<and> rv_str (view s1) = (rv_str (view s))
        (keyPrefixJobLock @ jp_ID job \<mapsto> (Text (lock_value (lm_workerID lm) now), expiry now (lm_lockTTL lm)))"
proof -
  obtain r lm1 s1 where e: "AcquireLock redis now (jp_ID job) (lm, s) = (r, lm1, s1)" by (metis prod_cases3)
  have pos: "0 \<le> lm_lockTTL lm" using assms(4) by (auto simp: locks_ok_def)
  note a = AcquireLock_free [OF assms(1) pos assms(5) e]
  have "lm_idempotencyTTL lm1 = lm_idempotencyTTL lm"
    using e a(1) by (auto simp: AcquireLock_def Let_def case_prod_unfold split: reply.splits if_splits)
  then show ?thesis
    using a acquired_locks_ok [OF assms(4) a(2-4)] assms(2,3)
    by (intro exI [of _ lm1] exI [of _ s1]) (simp add: acquireLock_def e)
qed

lemma Complete_str:
  assumes "up s" "stored now (view s) i = Some j" "times_ok j" "time_ok now" "jp_ID j = i" "s1 = snd (Complete redis now i s)"
  shows "up s1" "stored now (view s1) i = Some (completed now j)"
    "rv_str (view s1) (keyPrefixJobLock @ l) = rv_str (view s) (keyPrefixJobLock @ l)"
    "rv_str (view s1) (keyPrefixIdempotency @ l) = rv_str (view s) (keyPrefixIdempotency @ l)"
  using Complete_ok [OF assms(1-4)] assms(5,6) by (simp_all add: complete_view_def)

lemma MarkCompleted_str:
  assumes "up s" "0 < lm_idempotencyTTL lm"
    "s1 = (if u \<noteq> [] then snd (MarkCompleted redis now lm u i s) else s)"
  shows "up s1" "k \<noteq> keyPrefixIdempotency @ u \<Longrightarrow> rv_str (view s1) k = rv_str (view s) k"
    "u \<noteq> [] \<Longrightarrow> look (view s1) now (keyPrefixIdempotency @ u) \<noteq> None"
  using assms px_pos by (auto simp: MarkCompleted_def case_prod_unfold laws expiry_def look_def live_def)

lemma process_success:
  assumes "queue_rep view up T js s" "js \<noteq> []" "x = hd (service_order js)" "t0 < T"
    and "t1 < t0 + day" "time_ok t0" "time_ok t1"
    and "wp_lockManager p = Some lm" "locks_ok lm" "0 < lm_idempotencyTTL lm"
    and "wc_EnableLocking (wp_config p)" "wc_EnableIdempotency (wp_config p)"
    and "look (view s) t0 (keyPrefixJobLock @ jp_ID x) = None"
    and "jp_UniqueKey x = [] \<or> look (view s) t0 (keyPrefixIdempotency @ jp_UniqueKey x) = None"
    and "wp_handlers p (jp_Type x) = Some h" "h (jp_Payload x) w = (HOk, w1)"
  shows "\<exists>p' s'. processNextJob oor redis t0 t1 (p, w, s) = (False, p', w1, s')
    \<and> wp_processedJobs p' = wp_processedJobs p + 1 \<and> wp_failedJobs p' = wp_failedJobs p
    \<and> wp_skippedJobs p' = wp_skippedJobs p \<and> wp_activeWorkers p' = wp_activeWorkers p
    \<and> wp_metrics p' = RecordJobCompleted (t1 - t0) (RecordJobStarted (wp_metrics p))
    \<and> stored t1 (view s') (jp_ID x) = Some (completed t1 (start_job t0 x))
    \<and> look (view s') t1 (keyPrefixJobLock @ jp_ID x) = None
    \<and> (jp_UniqueKey x \<noteq> [] \<longrightarrow> look (view s') t1 (keyPrefixIdempotency @ jp_UniqueKey x) \<noteq> None)"
proof -
  let ?job = "start_job t0 x" and ?i = "jp_ID x" and ?q = "length (lm_locks lm)" and ?u = "jp_UniqueKey x"
  have job: "jp_ID ?job = ?i" "jp_UniqueKey ?job = ?u" "jp_Type ?job = jp_Type x" "jp_Payload ?job = jp_Payload x"
    by (simp_all add: start_job_def)
  define s1 where "s1 = snd (Dequeue redis t0 [] s)"
  note d = taken_record [OF assms(1-4,6) s1_def]
  have same: "look (view s1) t0 (keyPrefixIdempotency @ ?u) = look (view s) t0 (keyPrefixIdempotency @ ?u)"
    "look (view s1) t0 (keyPrefixJobLock @ ?i) = look (view s) t0 (keyPrefixJobLock @ ?i)"
    by (rule look_cong, rule d(4), simp)+
  have "?u = [] \<or> look (view s1) t0 (keyPrefixIdempotency @ ?u) = None"
    using assms(14) unfolding same .
  then obtain s2 where s2: "checkIdempotency redis t0 ?job (p, s1) = (False, p, s2)" "view s2 = view s1" "up s2"
    using not_yet_done [OF d(2), of ?job t0 p] job(2) by auto
  have "look (view s2) t0 (keyPrefixJobLock @ ?i) = None"
    using assms(13) unfolding s2(2) same .
  then obtain lm3 s3 where s3: "acquireLock redis t0 ?job (p, s2) = ((Some ?q, True), p\<lparr>wp_lockManager := Some lm3\<rparr>, s3)"
      "up s3" "locks_ok lm3" "lm_workerID lm3 = lm_workerID lm" "lm_idempotencyTTL lm3 = lm_idempotencyTTL lm"
      "?q < length (lm_locks lm3)" "jl_held (lm_locks lm3 ! ?q)" "jl_jobID (lm_locks lm3 ! ?q) = ?i"
      "rv_str (view s3) = (rv_str (view s2))(keyPrefixJobLock @ ?i \<mapsto> (Text (lock_value (lm_workerID lm) t0), expiry t0 (lm_lockTTL lm)))"
    using acquire_for_job [OF s2(3) assms(8,11,9), of t0 ?job] job(1) by auto
  have st3: "stored t1 (view s3) ?i = Some ?job"
    using d(3) [OF assms(5)] stored_cong [of "view s3" ?i "view s1"] s3(9) s2(2) by simp
  define s4 where "s4 = snd (Complete redis t1 ?i s3)"
  note c = Complete_str [OF s3(2) st3 d(5) assms(7) job(1) s4_def]
  define s5 where "s5 = (if ?u \<noteq> [] then snd (MarkCompleted redis t1 lm3 ?u ?i s4) else s4)"
  have idem: "0 < lm_idempotencyTTL lm3" using s3(5) assms(10) by simp
  note m = MarkCompleted_str [OF c(1) idem s5_def]
  have k5: "rv_str (view s5) (keyPrefixJobLock @ ?i) = Some (Text (lock_value (lm_workerID lm3) t0), expiry t0 (lm_lockTTL lm))"
    using m(2) [of "keyPrefixJobLock @ ?i"] c(3) s3(4,9) by simp
  obtain r lm6 s6 where e: "ReleaseLock redis t1 (Some ?q) (lm3, s5) = (r, lm6, s6)" by (metis prod_cases3)
  note rel = release_own [OF m(1) k5 s3(3,6,7,8) e]
  let ?p6 = "p\<lparr>wp_processedJobs := wp_processedJobs p + 1, wp_activeWorkers := wp_activeWorkers p + 1 - 1,
      wp_metrics := RecordJobCompleted (t1 - t0) (RecordJobStarted (wp_metrics p)), wp_lockManager := Some lm6\<rparr>"
  have P: "processNextJob oor redis t0 t1 (p, w, s) = (False, ?p6, w1, s6)"
    using d(1) s2(1) s3(1) assms(12,15,16) e
    by (cases "?u = []") (simp_all add: processNextJob_def executeJob_def finishJob_def job Let_def s4_def s5_def)
  have "stored t1 (view s6) ?i = Some (completed t1 ?job)"
    using c(2) rel(4) [of "keyPrefixJob @ ?i"] m(2) [of "keyPrefixJob @ ?i"]
      stored_cong [of "view s6" ?i "view s4"] by simp
  moreover have "?u \<noteq> [] \<longrightarrow> look (view s6) t1 (keyPrefixIdempotency @ ?u) \<noteq> None"
    using m(3) rel(4) [of "keyPrefixIdempotency @ ?u"] look_cong [of "view s6" "keyPrefixIdempotency @ ?u" "view s5"] by simp
  ultimately show ?thesis using P rel(3) by (intro exI [of _ ?p6] exI [of _ s6]) simp
qed

end

text \<open>A counter of the statistics as \<^verbatim>\<open>GetStats\<close> reports it.\<close>

definition stat :: "redis_view \<Rightarrow> string \<Rightarrow> int" where
  "stat v f = (case rv_hash v keyPrefixStats f of None \<Rightarrow> 0 | Some x \<Rightarrow> scan_d x)"

lemma stat_bump:
  assumes "rv_hash v keyPrefixStats f = None \<and> n = 0 \<or> rv_hash v keyPrefixStats f = Some (itoa n)" "in_int64 (n + d)"
  shows "stat (bump f d v) f = n + d"
  using assms by (auto simp: stat_def bump_def hash_incr_def)

lemma unstarted_simps [simp]: "jp_ID (unstarted j) = jp_ID j" "jp_Priority (unstarted j) = jp_Priority j"
  by (simp_all add: unstarted_def)

lemma unstarted_ok: "times_ok j \<Longrightarrow> times_ok (unstarted j)"
  by (simp add: unstarted_def times_ok_def)

lemma unstarted_start: "unstarted (start_job t j) = j\<lparr>jp_Status := JobStatusPending, jp_StartedAt := None\<rparr>"
  by (simp add: unstarted_def start_job_def)

context redis_client
begin

lemma process_skips_done:
  assumes "queue_rep view up T js s" "js \<noteq> []" "x = hd (service_order js)" "t0 < T" "time_ok t0"
    and "wp_lockManager p = Some lm" "wc_EnableIdempotency (wp_config p)"
    and "jp_UniqueKey x \<noteq> []" "look (view s) t0 (keyPrefixIdempotency @ jp_UniqueKey x) \<noteq> None"
  shows "\<exists>s'. processNextJob oor redis t0 t1 (p, w, s) = (False, p\<lparr>wp_skippedJobs := wp_skippedJobs p + 1\<rparr>, w, s')
    \<and> stored t0 (view s') (jp_ID x) = Some (completed t0 (start_job t0 x))"
proof -
  let ?job = "start_job t0 x" and ?i = "jp_ID x" and ?u = "jp_UniqueKey x"
  have job: "jp_ID ?job = ?i" "jp_UniqueKey ?job = ?u" by (simp_all add: start_job_def)
  define s1 where "s1 = snd (Dequeue redis t0 [] s)"
  note d = taken_record [OF assms(1-5) s1_def]
  have same: "look (view s1) t0 (keyPrefixIdempotency @ ?u) = look (view s) t0 (keyPrefixIdempotency @ ?u)"
    by (rule look_cong, rule d(4), simp)
  define s2 where "s2 = snd (CheckIdempotency redis t0 ?u s1)"
  have ck: "CheckIdempotency redis t0 ?u s1 = (Inr True, s2)" "view s2 = view s1" "up s2"
    using CheckIdempotency_spec [OF d(2) assms(8), of t0] assms(9) same by (auto simp: s2_def prod_eq_iff)
  have st: "stored t0 (view s2) ?i = Some ?job" using d(3) [of t0] ck(2) by simp
  note c = Complete_str [OF ck(3) st d(5) assms(5) job(1) refl]
  have "processNextJob oor redis t0 t1 (p, w, s)
      = (False, p\<lparr>wp_skippedJobs := wp_skippedJobs p + 1\<rparr>, w, snd (Complete redis t0 ?i s2))"
    using d(1) ck(1) assms(6-8) job by (simp add: processNextJob_def checkIdempotency_def)
  then show ?thesis using c(2) by blast
qed

lemma process_requeues_locked:
  assumes "queue_rep view up T js s" "js \<noteq> []" "x = hd (service_order js)" "t0 < T" "time_ok t0"
    and "wp_lockManager p = Some lm" "wc_EnableLocking (wp_config p)" "locks_ok lm"
    and "look (view s) t0 (keyPrefixJobLock @ jp_ID x) \<noteq> None"
    and "jp_UniqueKey x = [] \<or> look (view s) t0 (keyPrefixIdempotency @ jp_UniqueKey x) = None"
  shows "\<exists>s'. processNextJob oor redis t0 t1 (p, w, s) = (False, p\<lparr>wp_skippedJobs := wp_skippedJobs p + 1\<rparr>, w, s')
    \<and> view s' = push_list (QueueName (jp_Priority x)) (jp_ID x) (put_job t0 (unstarted (start_job t0 x)) (view (snd (Dequeue redis t0 [] s))))"
proof -
  let ?job = "start_job t0 x" and ?i = "jp_ID x" and ?u = "jp_UniqueKey x"
  have job: "jp_ID ?job = ?i" "jp_UniqueKey ?job = ?u" "jp_Priority ?job = jp_Priority x" by (simp_all add: start_job_def)
  define s1 where "s1 = snd (Dequeue redis t0 [] s)"
  note d = taken_record [OF assms(1-5) s1_def]
  have same: "look (view s1) t0 (keyPrefixIdempotency @ ?u) = look (view s) t0 (keyPrefixIdempotency @ ?u)"
    "look (view s1) t0 (keyPrefixJobLock @ ?i) = look (view s) t0 (keyPrefixJobLock @ ?i)"
    by (rule look_cong, rule d(4), simp)+
  have "?u = [] \<or> look (view s1) t0 (keyPrefixIdempotency @ ?u) = None" using assms(10) unfolding same .
  then obtain s2 where s2: "checkIdempotency redis t0 ?job (p, s1) = (False, p, s2)" "view s2 = view s1" "up s2"
    using not_yet_done [OF d(2), of ?job t0 p] job(2) by auto
  have busy: "look (view s2) t0 (keyPrefixJobLock @ ?i) \<noteq> None" using assms(9) unfolding s2(2) same .
  have pos: "0 \<le> lm_lockTTL lm" using assms(8) by (auto simp: locks_ok_def)
  define s3 where "s3 = snd (snd (AcquireLock redis t0 ?i (lm, s2)))"
  have a: "AcquireLock redis t0 ?i (lm, s2) = (Inl ErrLockNotAcquired, lm, s3)" "view s3 = view s1" "up s3"
    using AcquireLock_busy [OF s2(3) pos busy] s2(2) by (auto simp: s3_def prod_eq_iff)
  define s4 where "s4 = snd (UpdateJob redis t0 (unstarted ?job) s3)"
  have u: "UpdateJob redis t0 (unstarted ?job) s3 = (None, s4)" "view s4 = put_job t0 (unstarted ?job) (view s1)" "up s4"
    using UpdateJob_ok [OF a(3) unstarted_ok [OF d(5)], of t0] a(2) by (auto simp: s4_def prod_eq_iff)
  define s5 where "s5 = snd (RequeueJob redis t0 ?i (QueueName (jp_Priority x)) s4)"
  have r: "view s5 = push_list (QueueName (jp_Priority x)) ?i (put_job t0 (unstarted ?job) (view s1))"
    using u(2,3) by (simp add: s5_def RequeueJob_def case_prod_unfold laws push_list_def)
  have "processNextJob oor redis t0 t1 (p, w, s) = (False, p\<lparr>wp_skippedJobs := wp_skippedJobs p + 1\<rparr>, w, s5)"
    using d(1) s2(1) a(1) u(1) assms(6,7) job
    by (simp add: processNextJob_def acquireLock_def requeueJob_def s5_def)
  then show ?thesis using r s1_def by blast
qed

end


definition demo_pool :: "nat WorkerPool" where
  "demo_pool = RegisterHandler ''email'' (\<lambda>_ n. (HOk, n + 1))
     (SetLockManager (NewLockManager worker_a DefaultLockManagerConfig) (NewWorkerPool DefaultWorkerPoolConfig NewMetrics))"

definition one_job_store :: mem where
  "one_job_store = snd (Enqueue mem_redis 5 (demo_job ''a'' 1) mem_empty)"

lemma one_job_store_rep:
  "queue_rep mem_view mem_up (5 + day) [demo_job ''a'' 1] one_job_store"
  "look (mem_view one_job_store) t (keyPrefixJobLock @ i) = None"
proof -
  let ?j = "demo_job ''a'' 1"
  have k: "known_priority ?j" by (simp add: known_priority_def default_priorities_def priority_defs)
  show "queue_rep mem_view mem_up (5 + day) [?j] one_job_store"
    using mem.enqueue_rep [OF mem.empty_queue_rep [OF mem_empty_up], of "5 + day" 5 ?j] k
    by (simp add: one_job_store_def)
  have "mem_view one_job_store = enqueue_view 5 ?j (mem_view mem_empty)"
    using mem.Enqueue_fresh [OF mem_empty_up, of ?j 5] by (simp add: one_job_store_def)
  then show "look (mem_view one_job_store) t (keyPrefixJobLock @ i) = None"
    by (simp add: enqueue_view_def place_def)
qed

lemma demo_pool_simps [simp]:
  "wp_lockManager demo_pool = Some (NewLockManager worker_a DefaultLockManagerConfig)"
  "wp_handlers demo_pool ''email'' = Some (\<lambda>_ n. (HOk, n + 1))"
  "wc_EnableLocking (wp_config demo_pool)" "wc_EnableIdempotency (wp_config demo_pool)" "wp_processedJobs demo_pool = 0"
  by (simp_all add: demo_pool_def RegisterHandler_def SetLockManager_def NewWorkerPool_def DefaultWorkerPoolConfig_def)

lemma demo_job_order: "demo_job ''a'' 1 = hd (service_order [demo_job ''a'' 1])"
  by (simp add: service_order_single known_priority_def default_priorities_def priority_defs)


text \<open>
  Completed work is not repeated. When the idempotency record of the next job's unique
  key is present, \<^verbatim>\<open>processNextJob\<close> completes the job without running its handler: the
  handler's world is untouched and only the counter of skipped jobs moves.
\<close>

theorem worker_skips_completed_work:
  assumes "redis_client redis view up"
    and "queue_rep view up T js s" "js \<noteq> []" "x = hd (service_order js)" "t0 < T" "time_ok t0"
    and "wp_lockManager p = Some lm" "wc_EnableIdempotency (wp_config p)"
    and "jp_UniqueKey x \<noteq> []" "look (view s) t0 (keyPrefixIdempotency @ jp_UniqueKey x) \<noteq> None"
  shows "\<exists>s'. processNextJob oor redis t0 t1 (p, w, s) = (False, p\<lparr>wp_skippedJobs := wp_skippedJobs p + 1\<rparr>, w, s')
    \<and> stored t0 (view s') (jp_ID x) = Some (completed t0 (start_job t0 x))"
  by (rule redis_client.process_skips_done [OF assms])

definition done_store :: mem where
  "done_store = \<lparr>m_str = (\<lambda>_. None)
       (keyPrefixJob @ ''a'' \<mapsto> (Doc (job_doc keyed_job), None),
        keyPrefixIdempotency @ ''report'' \<mapsto> (Text ''z:1'', None)),
     m_list = (\<lambda>_. [])(QueueName 1 := [''a'']), m_zset = (\<lambda>_. []), m_hash = (\<lambda>_. []), m_set = (\<lambda>_. [])\<rparr>"

lemma done_store_rep: "queue_rep mem_view mem_up T [keyed_job] done_store"
proof -
  have k: "jp_Priority keyed_job = 1" by (simp add: keyed_job_def)
  then have kp: "known_priority keyed_job" by (simp add: known_priority_def default_priorities_def priority_defs)
  have "rv_list (mem_view done_store) (QueueName p) = rev (map jp_ID (by_priority p [keyed_job]))" if "p \<in> set default_priorities" for p
    using that k by (auto simp: mem_view_def done_store_def by_priority_def QueueName_inj default_priorities_def priority_defs)
  moreover have "stored t (mem_view done_store) ''a'' = Some keyed_job" for t
    by (simp add: stored_def look_def done_store_def mem_view_def live_def)
  moreover have "mem_up done_store" by (simp add: mem_up_def done_store_def)
  ultimately show ?thesis using kp by (simp add: queue_rep_def)
qed

theorem worker_skips_completed_work_witness:
  "\<exists>s'. processNextJob (\<lambda>_. 0) mem_redis 6 7 (demo_pool, 0, done_store)
      = (False, demo_pool\<lparr>wp_skippedJobs := wp_skippedJobs demo_pool + 1\<rparr>, 0, s')"
proof -
  have k: "keyed_job = hd (service_order [keyed_job])"
    by (simp add: service_order_single known_priority_def default_priorities_def priority_defs keyed_job_def)
  have "look (mem_view done_store) 6 (keyPrefixIdempotency @ jp_UniqueKey keyed_job) \<noteq> None"
    by (simp add: look_def mem_view_def done_store_def live_def)
  then show ?thesis
    using worker_skips_completed_work [OF mem.redis_client_axioms done_store_rep [of 9] _ k, of 6 demo_pool _ "\<lambda>_. 0" 7 0]
    by (auto simp: time_ok_def)
qed

text \<open>
  A locked job goes back, but the books do not. When another worker holds the next
  job's lock, \<^verbatim>\<open>processNextJob\<close> does not run it: it puts the job back at the end of its
  queue with the attempt uncounted. The statistic \<^verbatim>\<open>pending\<close>, which \<^verbatim>\<open>Dequeue\<close> lowered, is not
  raised again, although as many jobs wait as before, so it drifts by one with every such
  round (and below zero).
\<close>

theorem locked_job_requeued_pending_drifts:
  assumes "redis_client redis view up"
    and "queue_rep view up T js s" "js \<noteq> []" "x = hd (service_order js)" "t0 < T" "time_ok t0"
    and "wp_lockManager p = Some lm" "wc_EnableLocking (wp_config p)" "locks_ok lm"
    and "look (view s) t0 (keyPrefixJobLock @ jp_ID x) \<noteq> None"
    and "jp_UniqueKey x = [] \<or> look (view s) t0 (keyPrefixIdempotency @ jp_UniqueKey x) = None"
    and "rv_hash (view s) keyPrefixStats ''pending'' = Some (itoa n)" "in_int64 (n - 1)"
  shows "\<exists>s'. processNextJob oor redis t0 t1 (p, w, s) = (False, p\<lparr>wp_skippedJobs := wp_skippedJobs p + 1\<rparr>, w, s')
    \<and> stored t0 (view s') (jp_ID x) = Some (x\<lparr>jp_Status := JobStatusPending, jp_StartedAt := None\<rparr>)
    \<and> rv_list (view s') (QueueName (jp_Priority x)) = jp_ID x # butlast (rv_list (view s) (QueueName (jp_Priority x)))
    \<and> stat (view s') ''pending'' = n - 1"
proof -
  obtain s' where s': "processNextJob oor redis t0 t1 (p, w, s) = (False, p\<lparr>wp_skippedJobs := wp_skippedJobs p + 1\<rparr>, w, s')"
    "view s' = push_list (QueueName (jp_Priority x)) (jp_ID x) (put_job t0 (unstarted (start_job t0 x)) (view (snd (Dequeue redis t0 [] s))))"
    using redis_client.process_requeues_locked [OF assms(1-11)] by blast
  have d: "view (snd (Dequeue redis t0 [] s)) =
      bump ''pending'' (- 1) (put_job t0 (start_job t0 x) (pop_list (QueueName (jp_Priority x)) (view s)))"
    using redis_client.dequeue_effect [OF assms(1-3,5,6,4)] by simp
  have "stat (view s') ''pending'' = stat (bump ''pending'' (- 1) (view s)) ''pending''"
    unfolding s'(2) d by (simp add: stat_def bump_def push_list_def put_job_def pop_list_def)
  also have "\<dots> = n + - 1" by (rule stat_bump) (use assms(12,13) in auto)
  finally show ?thesis using s'(1) by (simp add: s'(2) d unstarted_start)
qed

definition busy_store :: mem where
  "busy_store = done_store\<lparr>m_str := (m_str done_store)(keyPrefixIdempotency @ ''report'' := None,
       keyPrefixJobLock @ ''a'' \<mapsto> (Text (lock_value worker_b 3), None)),
     m_hash := (\<lambda>_. [])(keyPrefixStats := [(''pending'', itoa 0)])\<rparr>"

theorem locked_job_requeued_pending_drifts_witness:
  "\<exists>s'. snd (processNextJob (\<lambda>_. 0) mem_redis 6 7 (demo_pool, 0, busy_store))
        = (demo_pool\<lparr>wp_skippedJobs := wp_skippedJobs demo_pool + 1\<rparr>, 0, s')
      \<and> stat (mem_view s') ''pending'' = - 1"
proof -
  have k: "keyed_job = hd (service_order [keyed_job])"
    by (simp add: service_order_single known_priority_def default_priorities_def priority_defs keyed_job_def)
  have same: "rv_list (mem_view busy_store) = rv_list (mem_view done_store)"
    "stored t (mem_view busy_store) ''a'' = stored t (mem_view done_store) ''a''" for t
    by (simp_all add: busy_store_def mem_view_def stored_def look_def)
  have rep: "queue_rep mem_view mem_up 9 [keyed_job] busy_store"
    using done_store_rep [of 9] by (simp add: queue_rep_def same) (simp add: mem_up_def busy_store_def done_store_def)
  have l: "look (mem_view busy_store) 6 (keyPrefixJobLock @ jp_ID keyed_job) \<noteq> None"
    "look (mem_view busy_store) 6 (keyPrefixIdempotency @ jp_UniqueKey keyed_job) = None"
    "rv_hash (mem_view busy_store) keyPrefixStats ''pending'' = Some (itoa 0)"
    by (simp_all add: look_def mem_view_def busy_store_def live_def)
  show ?thesis
    using locked_job_requeued_pending_drifts [OF mem.redis_client_axioms rep _ k, of 6 demo_pool _ 0 "\<lambda>_. 0" 7 0] l
    by (auto simp: time_ok_def in_int64_def)
qed

subsection \<open>Restarting a pool\<close>

text \<open>
  A stopped pool cannot be restarted. \<^verbatim>\<open>Start\<close> after \<^verbatim>\<open>Stop\<close> reports success and says
  the pool is running, but the stop channel is still closed: the only branch a new worker
  finds ready is to exit, before its first tick. The next \<^verbatim>\<open>Stop\<close> closes the channel a second
  time and panics.
\<close>

theorem restarted_pool_is_dead:
  assumes "\<not> wp_running p" "\<not> wp_stopClosed p"
    and "p1 = snd (pool_Start p)" "pool_Stop redis now locks (p1, s) = Some (p2, s2)" "p3 = snd (pool_Start p2)"
  shows "fst (pool_Start p) = None \<and> fst (pool_Start p2) = None \<and> ws_Running (pool_Stats p3)
    \<and> loop_ready p3 ctxDone False = {LoopExit} \<and> pool_Stop redis now' locks' (p3, s3) = None"
proof -
  have p1: "wp_running p1" "\<not> wp_stopClosed p1" using assms(1-3) by (simp_all add: pool_Start_def)
  have "\<not> wp_running p2" "wp_stopClosed p2"
    using assms(4) p1 by (auto simp: pool_Stop_def Let_def split: option.splits prod.splits)
  then show ?thesis using assms(1,5)
    by (simp add: pool_Start_def pool_Stats_def loop_ready_def pool_Stop_def)
qed

theorem restarted_pool_is_dead_witness:
  "\<exists>p2 s2. pool_Stop mem_redis 5 [] (snd (pool_Start demo_pool), mem_empty) = Some (p2, s2)
     \<and> pool_Stop mem_redis 9 [] (snd (pool_Start p2), s2) = None"
proof -
  have d: "\<not> wp_running demo_pool" "\<not> wp_stopClosed demo_pool"
    by (simp_all add: demo_pool_def RegisterHandler_def SetLockManager_def NewWorkerPool_def)
  then obtain p2 s2 where e: "pool_Stop mem_redis 5 [] (snd (pool_Start demo_pool), mem_empty) = Some (p2, s2)"
    by (cases "ReleaseAllLocks mem_redis 5 [] (NewLockManager worker_a DefaultLockManagerConfig, mem_empty)")
      (auto simp: pool_Stop_def pool_Start_def Let_def)
  show ?thesis using restarted_pool_is_dead [OF d refl e refl] e by blast
qed

subsection \<open>The pending gauge\<close>

text \<open>A run of the pool: any number of jobs at any instants.\<close>

fun run_pool :: "(real \<Rightarrow> int) \<Rightarrow> 's redis \<Rightarrow> (time \<times> time) list \<Rightarrow> 'w WorkerPool \<times> 'w \<times> 's \<Rightarrow> 'w WorkerPool \<times> 'w \<times> 's" where
  "run_pool oor redis [] c = c"
| "run_pool oor redis ((t0, t1) # ts) c = run_pool oor redis ts (snd (processNextJob oor redis t0 t1 c))"

lemma pending_gauge_step:
  "jm_JobsPending (wp_metrics (fst (snd (processNextJob oor redis t0 t1 (p, w, s))))) \<le> jm_JobsPending (wp_metrics p)"
proof -
  have chk: "wp_metrics (fst (snd (checkIdempotency redis t0 job (p, s)))) = wp_metrics p" for job s
    by (auto simp: checkIdempotency_def split: prod.splits sum.splits)
  have acq: "wp_metrics (fst (snd (acquireLock redis t0 job (p, s)))) = wp_metrics p" for job p s
    by (auto simp: acquireLock_def Let_def split: option.splits prod.splits sum.splits)
  have exe: "jm_JobsPending (wp_metrics (fst (snd (executeJob oor redis t0 t1 job h (p, w, s))))) = jm_JobsPending (wp_metrics p)" for job h p w s
    by (auto simp: executeJob_def Let_def RecordJobFailed_def RecordJobCompleted_def split: prod.splits handler_result.splits)
  have fin: "wp_metrics (fst (finishJob redis t1 lock (p, s))) = wp_metrics p" for lock p s
    by (auto simp: finishJob_def Let_def split: option.splits prod.splits)
  obtain r1 s1 where 1: "Dequeue redis t0 [] s = (r1, s1)" by (cases "Dequeue redis t0 [] s")
  show ?thesis
  proof (cases r1)
    case (Inl e)
    then show ?thesis using 1 by (simp add: processNextJob_def)
  next
    case (Inr job)
    obtain c p2 s2 where 2: "checkIdempotency redis t0 job (p, s1) = (c, p2, s2)" by (metis prod_cases3)
    have m2: "wp_metrics p2 = wp_metrics p" using chk [of job s1] 2 by simp
    obtain l a p3 s3 where 3: "acquireLock redis t0 job (p2, s2) = ((l, a), p3, s3)" by (metis prod.exhaust)
    have m3: "wp_metrics p3 = wp_metrics p" using acq [of job p2 s2] 3 m2 by simp
    let ?p4 = "p3\<lparr>wp_activeWorkers := wp_activeWorkers p3 + 1, wp_metrics := RecordJobStarted (wp_metrics p3)\<rparr>"
    obtain cr p5 w5 s5 where 5: "(case wp_handlers ?p4 (jp_Type job) of
         None \<Rightarrow> (False, ?p4\<lparr>wp_failedJobs := wp_failedJobs ?p4 + 1, wp_metrics := RecordJobFailed False (wp_metrics ?p4)\<rparr>, w,
                  snd (Fail oor redis t1 (jp_ID job) (''no handler for job type: '' @ jp_Type job) s3))
       | Some h \<Rightarrow> executeJob oor redis t0 t1 job h (?p4, w, s3)) = (cr, p5, w5, s5)" by (metis prod_cases4)
    have m5: "jm_JobsPending (wp_metrics p5) \<le> jm_JobsPending (wp_metrics p)"
    proof (cases "wp_handlers ?p4 (jp_Type job)")
      case None
      then show ?thesis using 5 m3 by (auto simp: RecordJobFailed_def RecordJobStarted_def)
    next
      case (Some h)
      then have "executeJob oor redis t0 t1 job h (?p4, w, s3) = (cr, p5, w5, s5)" using 5 by simp
      then show ?thesis using exe [of job h ?p4 w s3] m3 by (simp add: RecordJobStarted_def)
    qed
    obtain p6 s6 where 6: "finishJob redis t1 l (p5, s5) = (p6, s6)" by (cases "finishJob redis t1 l (p5, s5)")
    have "wp_metrics p6 = wp_metrics p5" using fin [of l p5 s5] 6 by simp
    then show ?thesis using 1 2 3 5 6 Inr m2 m3 m5
      by (cases c; cases a) (simp_all add: processNextJob_def Let_def)
  qed
qed

text \<open>
  The health check cannot see a backlog. Nothing in the program records an enqueued job
  in the metrics, so over any run of the pool, with any Redis and any number of waiting
  jobs, the gauge of pending jobs never rises above 0 and \<^verbatim>\<open>GetHealthCheck\<close> always reports
  \<^verbatim>\<open>healthy\<close>; the state \<^verbatim>\<open>degraded\<close> for more than 1000 pending jobs is unreachable.
\<close>

theorem health_check_never_degraded:
  assumes "wp_metrics p = NewMetrics" "run_pool oor redis ts (p, w, s) = (p', w', s')"
  shows "jm_JobsPending (wp_metrics p') \<le> 0 \<and> hc_Status (GetHealthCheck isLeader (wp_metrics p')) = ''healthy''"
proof -
  have "jm_JobsPending (wp_metrics (fst (run_pool oor redis ts (p, w, s)))) \<le> jm_JobsPending (wp_metrics p)" for p w s
  proof (induction ts arbitrary: p w s)
    case Nil
    then show ?case by simp
  next
    case (Cons t ts)
    obtain t0 t1 where t: "t = (t0, t1)" by (cases t)
    obtain b p1 w1 s1 where e: "processNextJob oor redis t0 t1 (p, w, s) = (b, p1, w1, s1)" by (metis prod_cases4)
    show ?case using Cons [of p1 w1 s1] pending_gauge_step [of oor redis t0 t1 p w s] by (simp add: t e)
  qed
  from this [of p w s] have "jm_JobsPending (wp_metrics p') \<le> 0" using assms by (simp add: NewMetrics_def)
  then show ?thesis by (simp add: GetHealthCheck_def)
qed

theorem health_check_never_degraded_witness:
  "hc_Status (GetHealthCheck True (wp_metrics (fst (run_pool (\<lambda>_. 0) mem_redis [(6, 7), (8, 9)] (demo_pool, 0, one_job_store))))) = ''healthy''"
proof -
  obtain p' w' s' where "run_pool (\<lambda>_. 0) mem_redis [(6, 7), (8, 9)] (demo_pool, 0, one_job_store) = (p', w', s')" by (metis prod_cases3)
  moreover have "wp_metrics demo_pool = NewMetrics"
    by (simp add: demo_pool_def RegisterHandler_def SetLockManager_def NewWorkerPool_def)
  ultimately show ?thesis using health_check_never_degraded [of demo_pool "\<lambda>_. 0" mem_redis] by (metis fst_conv)
qed

end
