(* ===== verification/Queue_Invariant.thy ===== *)
theory Queue_Invariant
  imports Queue_Properties
begin

text \<open>
  Where a job is. Clients and workers call the operations of the queue in any order; the
  state of the system is the server state together with the identifiers of the jobs that
  workers hold at the moment. The invariant is that an identifier is never in two places at
  once, so no two workers are ever handed the same job.
\<close>

definition queue_keys :: "string list" where
  "queue_keys = map QueueName [3, 2, 1, 0, - 1]"

text \<open>In how many lists, schedule entries and dead letter entries an identifier is.\<close>

definition occurrences :: "redis_view \<Rightarrow> string \<Rightarrow> nat" where
  "occurrences v i = sum_list (map (\<lambda>k. count_list (rv_list v k) i) (keyPrefixDLQ # queue_keys))
     + (if rv_zset v keyPrefixScheduled i = None then 0 else 1)"

lemma QueueName_in_keys: "QueueName p \<in> set queue_keys"
  by (auto simp: queue_keys_def QueueName_def Priority_String_def priority_defs)

lemma queue_keys_dlq: "distinct (keyPrefixDLQ # queue_keys)"
  by (simp add: queue_keys_def QueueName_inj)

lemma sum_list_upd:
  assumes "distinct ks" "k \<in> set ks"
  shows "sum_list (map (\<lambda>x. f (if x = k then g else l x)) ks) + f (l k) = sum_list (map (\<lambda>x. f (l x)) ks) + (f g :: nat)"
  using assms
proof (induction ks)
  case Nil
  then show ?case by simp
next
  case (Cons x ks)
  show ?case
  proof (cases "x = k")
    case True
    then have "map (\<lambda>x. f (if x = k then g else l x)) ks = map (\<lambda>x. f (l x)) ks" using Cons.prems(1) by auto
    from arg_cong [OF this, of sum_list] show ?thesis using True by (simp add: add.commute)
  next
    case False
    then show ?thesis using Cons by simp
  qed
qed

lemma occurrences_list:
  assumes "k \<in> set (keyPrefixDLQ # queue_keys)"
  shows "occurrences (v\<lparr>rv_list := (rv_list v)(k := xs)\<rparr>) i + count_list (rv_list v k) i
    = occurrences v i + count_list xs i"
  using sum_list_upd [OF queue_keys_dlq assms, of "\<lambda>ys. count_list ys i" xs "rv_list v"]
  by (simp add: occurrences_def fun_upd_def del: list.map)

lemma occurrences_push:
  "k \<in> set (keyPrefixDLQ # queue_keys) \<Longrightarrow>
     occurrences (push_list k x v) i = occurrences v i + (if x = i then 1 else 0)"
  using occurrences_list [of k v "x # rv_list v k" i] by (auto simp: push_list_def split: if_splits)

lemma count_butlast: "xs \<noteq> [] \<Longrightarrow> count_list (butlast xs) i + (if last xs = i then 1 else 0) = count_list xs i"
  by (induction xs) auto

lemma occurrences_pop:
  "k \<in> set (keyPrefixDLQ # queue_keys) \<Longrightarrow> rv_list v k \<noteq> [] \<Longrightarrow>
     occurrences (pop_list k v) i + (if last (rv_list v k) = i then 1 else 0) = occurrences v i"
  using occurrences_list [of k v "butlast (rv_list v k)" i] count_butlast [of "rv_list v k" i]
  by (simp add: pop_list_def)

lemma occurrences_frame [simp]:
  "occurrences (put_job now j v) i = occurrences v i" "occurrences (bump f n v) i = occurrences v i"
  "occurrences (hold_unique now j v) i = occurrences v i" "occurrences (drop_unique j v) i = occurrences v i"
  by (simp_all add: occurrences_def)

lemma occurrences_schedule: "occurrences (schedule t x v) i \<le> occurrences v i + (if x = i then 1 else 0)"
  by (simp add: occurrences_def schedule_def)

lemma occurrences_unschedule:
  "occurrences (unschedule x v) i + (if x = i \<and> rv_zset v keyPrefixScheduled i \<noteq> None then 1 else 0) = occurrences v i"
  by (simp add: occurrences_def unschedule_def)

lemma occurrences_release:
  assumes "records_ok v" "rv_zset v keyPrefixScheduled x \<noteq> None"
  shows "occurrences (release_view now x v) i \<le> occurrences v i"
proof (cases "stored now v x")
  case None
  then show ?thesis by (simp add: release_view_def)
next
  case (Some j)
  then have "jp_ID j = x" using assms(1) by (simp add: records_ok_def)
  moreover have "QueueName (jp_Priority j) \<in> set (keyPrefixDLQ # queue_keys)" using QueueName_in_keys by simp
  ultimately show ?thesis using Some occurrences_unschedule [of x v i] assms(2)
    by (auto simp: release_view_def occurrences_push)
qed

lemma occurrences_release_all:
  assumes "records_ok v" "distinct ids" "\<forall>x\<in>set ids. rv_zset v keyPrefixScheduled x \<noteq> None"
  shows "occurrences (foldl (\<lambda>v i. release_view now i v) v ids) i \<le> occurrences v i
    \<and> records_ok (foldl (\<lambda>v i. release_view now i v) v ids)"
  using assms
proof (induction ids arbitrary: v)
  case Nil
  then show ?case by simp
next
  case (Cons x ids)
  have "\<forall>y\<in>set ids. rv_zset (release_view now x v) keyPrefixScheduled y \<noteq> None"
    using Cons.prems(2,3) by (auto simp: release_zset)
  then show ?case
    using Cons.IH [OF release_records [OF Cons.prems(1)]] Cons.prems(2,3) occurrences_release [OF Cons.prems(1), of x now i]
    by fastforce
qed

subsection \<open>The steps of the system\<close>

type_synonym 's queue_sys = "'s \<times> string multiset"

inductive queue_step :: "'s redis \<Rightarrow> ('s \<Rightarrow> redis_view) \<Rightarrow> 's queue_sys \<Rightarrow> 's queue_sys \<Rightarrow> bool"
  for redis view where
  enqueue: "occurrences (view s) (jp_ID j) = 0 \<Longrightarrow> jp_ID j \<notin># R \<Longrightarrow> unique_ttl now j \<noteq> - 1 \<Longrightarrow>
     queue_step redis view (s, R) (snd (Enqueue redis now j s), R)"
| taken: "Dequeue redis now ps s = (Inr j, s') \<Longrightarrow> queue_step redis view (s, R) (s', add_mset (jp_ID j) R)"
| idle: "Dequeue redis now ps s = (Inl e, s') \<Longrightarrow> queue_step redis view (s, R) (s', R)"
| complete: "i \<in># R \<Longrightarrow> queue_step redis view (s, R) (snd (Complete redis now i s), R - {#i#})"
| fail: "i \<in># R \<Longrightarrow> queue_step redis view (s, R) (snd (Fail oor redis now i err s), R - {#i#})"
| requeue: "i \<in># R \<Longrightarrow> queue_step redis view (s, R) (snd (RequeueJob redis now i (QueueName p) s), R - {#i#})"
| process: "queue_step redis view (s, R) (snd (ProcessScheduled redis now s), R)"
| delete: "queue_step redis view (s, R) (snd (DeleteJob redis now i s), R)"
| retry: "occurrences (view s) uuid = 0 \<Longrightarrow> uuid \<notin># R \<Longrightarrow> uuid \<noteq> i \<Longrightarrow>
     (\<And>j. stored now (view s) i = Some j \<Longrightarrow> unique_ttl now j \<noteq> - 1) \<Longrightarrow>
     queue_step redis view (s, R) (snd (RetryDLQJob redis now uuid i s), R)"

inductive queue_reach :: "'s redis \<Rightarrow> ('s \<Rightarrow> redis_view) \<Rightarrow> 's queue_sys \<Rightarrow> 's queue_sys \<Rightarrow> bool"
  for redis view c0 where
  start: "queue_reach redis view c0 c0"
| step: "queue_reach redis view c0 c \<Longrightarrow> queue_step redis view c c' \<Longrightarrow> queue_reach redis view c0 c'"

definition queue_inv :: "('s \<Rightarrow> redis_view) \<Rightarrow> ('s \<Rightarrow> bool) \<Rightarrow> 's queue_sys \<Rightarrow> bool" where
  "queue_inv view up c \<longleftrightarrow> up (fst c) \<and> records_ok (view (fst c))
     \<and> (\<forall>i. occurrences (view (fst c)) i + count (snd c) i \<le> 1)"

context redis_client
begin

lemma UpdateJob_effect:
  assumes "up s" "records_ok (view s)"
  shows "up (snd (UpdateJob redis now j s)) \<and> records_ok (view (snd (UpdateJob redis now j s)))
    \<and> occurrences (view (snd (UpdateJob redis now j s))) i = occurrences (view s) i
    \<and> rv_zset (view (snd (UpdateJob redis now j s))) = rv_zset (view s)"
proof (cases "times_ok j")
  case True
  then show ?thesis using UpdateJob_ok [OF assms(1) True, of now] assms(2) by (simp add: records_ok_put)
next
  case False
  then show ?thesis using UpdateJob_fails [OF False, of now s] assms by simp
qed

lemma dequeue_places:
  assumes "up s" "records_ok (view s)"
  shows "up (snd (dequeue_loop redis now ps s)) \<and> records_ok (view (snd (dequeue_loop redis now ps s)))
    \<and> occurrences (view (snd (dequeue_loop redis now ps s))) i
        + (case fst (dequeue_loop redis now ps s) of Inr j \<Rightarrow> if jp_ID j = i then 1 else 0 | Inl _ \<Rightarrow> 0)
      \<le> occurrences (view s) i"
  using assms
proof (induction ps arbitrary: s)
  case Nil
  then show ?case by simp
next
  case (Cons p ps)
  have k: "QueueName p \<in> set (keyPrefixDLQ # queue_keys)" using QueueName_in_keys by simp
  show ?case
  proof (cases "rv_list (view s) (QueueName p) = []")
    case True
    then obtain s1 where "up s1" "view s1 = view s" "dequeue_loop redis now ([p] @ ps) s = dequeue_loop redis now ps s1"
      using dequeue_skip_empty [OF Cons.prems(1), of "[p]" now ps] by auto
    then show ?thesis using Cons.IH [of s1] Cons.prems(2) by (simp del: dequeue_loop.simps)
  next
    case False
    then obtain xs x where xs: "rv_list (view s) (QueueName p) = xs @ [x]" by (metis rev_exhaust)
    note pop = occurrences_pop [OF k False, of i]
    show ?thesis
    proof (cases "stored now (view s) x")
      case None
      then obtain s1 where s1: "up s1" "view s1 = pop_list (QueueName p) (view s)"
          "dequeue_loop redis now (p # ps) s = dequeue_loop redis now ps s1"
        using dequeue_dangling [OF Cons.prems(1) xs] by blast
      show ?thesis using Cons.IH [OF s1(1)] Cons.prems(2) s1(2,3) pop by (simp del: dequeue_loop.simps)
    next
      case (Some j)
      then have j: "jp_ID j = x" using Cons.prems(2) by (simp add: records_ok_def)
      show ?thesis
      proof (cases "times_ok (start_job now j)")
        case True
        then show ?thesis using dequeue_hit [OF Cons.prems(1) xs Some True, of ps] Cons.prems(2) pop j xs
          by (simp add: records_ok_put del: dequeue_loop.simps)
      next
        case False
        let ?s1 = "snd (redis now (RPOP (QueueName p)) s)"
        have 1: "fst (redis now (RPOP (QueueName p)) s) = RBulk (Text x)" "view ?s1 = pop_list (QueueName p) (view s)" "up ?s1"
          using Cons.prems(1) xs by (simp_all add: laws pop_list_def)
        have 2: "fst (GetJob redis now x ?s1) = Inr j" "view (snd (GetJob redis now x ?s1)) = pop_list (QueueName p) (view s)"
            "up (snd (GetJob redis now x ?s1))"
          using GetJob_stored [OF 1(3), of now x j] GetJob_frame [OF 1(3), of now x] 1(2) Some by simp_all
        have "dequeue_loop redis now (p # ps) s = (Inl (Errorf ''failed to update job status''), snd (GetJob redis now x ?s1))"
          using 1(1) 2(1) UpdateJob_fails [OF False] by (simp add: case_prod_unfold)
        then show ?thesis using 2 pop Cons.prems(2) by simp
      qed
    qed
  qed
qed

end

text \<open>An operation keeps the store sound and adds to the places of an identifier at most \<open>d\<close>.\<close>

definition adds :: "('s \<Rightarrow> redis_view) \<Rightarrow> ('s \<Rightarrow> bool) \<Rightarrow> 's \<Rightarrow> 's \<Rightarrow> (string \<Rightarrow> nat) \<Rightarrow> bool" where
  "adds view up s s' d \<longleftrightarrow> up s' \<and> records_ok (view s') \<and> (\<forall>i. occurrences (view s') i \<le> occurrences (view s) i + d i)"

abbreviation only :: "string \<Rightarrow> string \<Rightarrow> nat" where
  "only x \<equiv> (\<lambda>i. if i = x then 1 else 0)"

lemma only_id: "(\<lambda>i. if x = i then Suc 0 else 0) = only x"
  by auto

lemma records_ok_del: "records_ok v \<Longrightarrow> records_ok (v\<lparr>rv_str := (rv_str v)(k := None)\<rparr>)"
  by (auto simp: records_ok_def stored_def look_def split: if_splits)

lemma records_ok_lists [simp]:
  "records_ok (v\<lparr>rv_list := f\<rparr>) = records_ok v" "records_ok (v\<lparr>rv_zset := z\<rparr>) = records_ok v"
  by (simp_all add: records_ok_def stored_def look_def)

lemma occurrences_str [simp]: "occurrences (v\<lparr>rv_str := f\<rparr>) i = occurrences v i"
  by (simp add: occurrences_def)

lemma count_list_rem: "count_list (list_rem n x xs) i \<le> count_list xs i"
proof -
  have "count_list (removeAll x xs) i \<le> count_list xs i" "count_list (remove1 x xs) i \<le> count_list xs i"
    by (induction xs) auto
  then show ?thesis by (simp add: list_rem_def)
qed

lemma occurrences_rem:
  assumes "k \<in> set (keyPrefixDLQ # queue_keys)"
  shows "occurrences (v\<lparr>rv_list := (rv_list v)(k := list_rem n x (rv_list v k))\<rparr>) i \<le> occurrences v i"
  using occurrences_list [OF assms, of v "list_rem n x (rv_list v k)" i] count_list_rem [of n x "rv_list v k" i] by linarith

lemma occurrences_zrem:
  "occurrences (v\<lparr>rv_zset := (rv_zset v)(keyPrefixScheduled := (rv_zset v keyPrefixScheduled)(x := None))\<rparr>) i \<le> occurrences v i"
  by (simp add: occurrences_def)

lemma keys_in: "keyPrefixDLQ \<in> set (keyPrefixDLQ # queue_keys)" "QueueName p \<in> set (keyPrefixDLQ # queue_keys)"
  using QueueName_in_keys by simp_all

context redis_client
begin

lemma Enqueue_adds:
  assumes "up s" "records_ok (view s)" "unique_ttl now j \<noteq> - 1"
  shows "adds view up s (snd (Enqueue redis now j s)) (only (jp_ID j))"
proof (cases "jp_UniqueKey j \<noteq> [] \<and> look (view s) now (keyPrefixUnique @ jp_UniqueKey j) \<noteq> None")
  case True
  then show ?thesis using Enqueue_duplicate [OF assms(1), of j now] assms(2) by (simp add: adds_def)
next
  case free: False
  show ?thesis
  proof (cases "times_ok j")
    case True
    have "occurrences (place now j v) i \<le> occurrences v i + only (jp_ID j) i" for v i
      using occurrences_schedule [of _ "jp_ID j" v i] occurrences_push [OF keys_in(2), of _ "jp_ID j" v i]
      by (auto simp: place_def)
    from this [of "put_job now j (view s)"]
    have "occurrences (enqueue_view now j (view s)) i \<le> occurrences (view s) i + only (jp_ID j) i" for i
      by (simp add: enqueue_view_def)
    moreover have "records_ok (enqueue_view now j (view s))"
      using assms(2) True by (simp add: enqueue_view_def place_def records_ok_put)
    moreover have "view (snd (Enqueue redis now j s)) = enqueue_view now j (view s)" "up (snd (Enqueue redis now j s))"
      using Enqueue_fresh [OF assms(1) True, of now] free assms(3) by auto
    ultimately show ?thesis by (simp add: adds_def)
  next
    case False
    have "view (snd (Enqueue redis now j s)) = view s \<and> up (snd (Enqueue redis now j s))"
      using False free checkDuplicate_spec [OF assms(1), of now "jp_UniqueKey j"] assms(1)
      by (auto simp: Enqueue_def storeAndQueue_def marshal_job_def case_prod_unfold)
    then show ?thesis using assms(2) by (simp add: adds_def)
  qed
qed

lemma missing_job_adds:
  assumes "up s" "records_ok (view s)" "stored now (view s) i = None"
  shows "adds view up s (snd (Complete redis now i s)) d" "adds view up s (snd (Fail oor redis now i err s)) d"
    "adds view up s (snd (DeleteJob redis now i s)) d" "adds view up s (snd (RetryDLQJob redis now u i s)) d"
proof -
  obtain e where "fst (GetJob redis now i s) = Inl e" using GetJob_missing [OF assms(1,3)] by blast
  then show "adds view up s (snd (Complete redis now i s)) d" "adds view up s (snd (Fail oor redis now i err s)) d"
    "adds view up s (snd (DeleteJob redis now i s)) d" "adds view up s (snd (RetryDLQJob redis now u i s)) d"
    using GetJob_frame [OF assms(1), of now i] assms(2)
    by (simp_all add: Complete_def Fail_def DeleteJob_def RetryDLQJob_def case_prod_unfold adds_def)
qed

lemma unwritable_adds:
  assumes "up s" "records_ok (view s)" "stored now (view s) i = Some j"
  shows "\<not> time_ok now \<Longrightarrow> adds view up s (snd (Complete redis now i s)) d"
    "jp_Attempts j < jp_MaxRetries j \<Longrightarrow> \<not> time_ok (retry_at oor now j) \<Longrightarrow> adds view up s (snd (Fail oor redis now i err s)) d"
proof -
  have g: "fst (GetJob redis now i s) = Inr j" "view (snd (GetJob redis now i s)) = view s" "up (snd (GetJob redis now i s))"
    using GetJob_stored GetJob_frame assms(1,3) by auto
  show "\<not> time_ok now \<Longrightarrow> adds view up s (snd (Complete redis now i s)) d"
    using g assms(2) UpdateJob_fails [of "completed now j"]
    by (simp add: Complete_def case_prod_unfold adds_def completed_def times_ok_def)
  show "jp_Attempts j < jp_MaxRetries j \<Longrightarrow> \<not> time_ok (retry_at oor now j) \<Longrightarrow> adds view up s (snd (Fail oor redis now i err s)) d"
    using g assms(2) UpdateJob_fails [of "retrying oor now err j"]
    by (simp add: Fail_def case_prod_unfold adds_def retrying_def times_ok_def Let_def retry_at_def)
qed

lemma Complete_adds:
  assumes "up s" "records_ok (view s)"
  shows "adds view up s (snd (Complete redis now i s)) (\<lambda>_. 0)"
proof (cases "stored now (view s) i")
  case None
  then show ?thesis by (rule missing_job_adds [OF assms])
next
  case (Some j)
  then have j: "times_ok j" using assms(2) by (auto simp: records_ok_def)
  show ?thesis
  proof (cases "time_ok now")
    case True
    then show ?thesis using Complete_ok [OF assms(1) Some j True] assms(2) outcome_times(1) [OF j True]
      by (simp add: adds_def complete_view_def records_ok_put)
  next
    case False
    then show ?thesis by (rule unwritable_adds(1) [OF assms Some])
  qed
qed

lemma Fail_adds:
  assumes "up s" "records_ok (view s)"
  shows "adds view up s (snd (Fail oor redis now i err s)) (only i)"
proof (cases "stored now (view s) i")
  case None
  then show ?thesis by (rule missing_job_adds [OF assms])
next
  case (Some j)
  then have j: "times_ok j" "jp_ID j = i" using assms(2) by (auto simp: records_ok_def)
  consider (dead) "\<not> jp_Attempts j < jp_MaxRetries j" | (retry) "jp_Attempts j < jp_MaxRetries j" "time_ok (retry_at oor now j)"
    | (late) "jp_Attempts j < jp_MaxRetries j" "\<not> time_ok (retry_at oor now j)" by blast
  then show ?thesis
  proof cases
    case dead
    then show ?thesis using Fail_dead [OF assms(1) Some dead j(1), of oor err] assms(2) outcome_times(3) [OF j(1)] j(2)
      by (simp add: adds_def dead_view_def records_ok_put occurrences_push)
  next
    case retry
    have "occurrences (retry_view oor now err j (view s)) k \<le> occurrences (view s) k + only i k" for k
      using occurrences_schedule [of "retry_at oor now j" i "put_job now (retrying oor now err j) (view s)" k] j(2)
      by (simp add: retry_view_def split: if_splits)
    moreover have "records_ok (retry_view oor now err j (view s))"
      using assms(2) outcome_times(2) [OF j(1) retry(2)] by (simp add: retry_view_def records_ok_put)
    ultimately show ?thesis
      using Fail_retry [OF assms(1) Some retry(1) j(1) retry(2), of err] by (simp add: adds_def)
  next
    case late
    then show ?thesis by (rule unwritable_adds(2) [OF assms Some])
  qed
qed

lemma Requeue_adds:
  assumes "up s" "records_ok (view s)"
  shows "adds view up s (snd (RequeueJob redis now i (QueueName p) s)) (only i)"
proof -
  have "view (snd (RequeueJob redis now i (QueueName p) s)) = push_list (QueueName p) i (view s)"
    "up (snd (RequeueJob redis now i (QueueName p) s))"
    using assms(1) by (simp_all add: RequeueJob_def case_prod_unfold laws push_list_def)
  then show ?thesis using assms(2) occurrences_push [OF keys_in(2)] by (simp add: adds_def)
qed

lemma Process_adds:
  assumes "up s" "records_ok (view s)"
  shows "adds view up s (snd (ProcessScheduled redis now s)) (\<lambda>_. 0)"
proof -
  obtain ids where ids: "distinct ids"
    "set ids = {i. \<exists>sc. rv_zset (view s) keyPrefixScheduled i = Some sc \<and> sc \<le> real_of_int (unix_seconds now)}"
    "view (snd (ProcessScheduled redis now s)) = foldl (\<lambda>v i. release_view now i v) (view s) ids"
    "up (snd (ProcessScheduled redis now s))"
    by (rule ProcessScheduled_ok [OF assms])
  have "\<forall>x\<in>set ids. rv_zset (view s) keyPrefixScheduled x \<noteq> None" using ids(2) by auto
  then show ?thesis using occurrences_release_all [OF assms(2) ids(1)] ids(3,4) by (simp add: adds_def)
qed

end

lemma adds_refl: "up s \<Longrightarrow> records_ok (view s) \<Longrightarrow> adds view up s s d"
  by (simp add: adds_def)

lemma adds_trans:
  "adds view up s s1 (\<lambda>_. 0) \<Longrightarrow> adds view up s1 s2 d \<Longrightarrow> adds view up s s2 d"
  by (auto simp: adds_def) (meson add_le_mono1 order_trans)

lemma adds_view: "adds view up s s1 d \<Longrightarrow> up s1 \<and> records_ok (view s1)"
  by (simp add: adds_def)

context redis_client
begin

lemma GetJob_adds: "up s \<Longrightarrow> records_ok (view s) \<Longrightarrow> adds view up s (snd (GetJob redis now i s)) (\<lambda>_. 0)"
  using GetJob_frame [of s now i] by (simp add: adds_def)

lemma LREM_adds:
  assumes "up s" "records_ok (view s)" "k = keyPrefixDLQ \<or> (\<exists>p. k = QueueName p)" "n \<in> {0, 1}"
  shows "adds view up s (snd (redis now (LREM k n x) s)) (\<lambda>_. 0)"
proof -
  have t: "key_type k = TList" "k \<in> set (keyPrefixDLQ # queue_keys)" using assms(3) keys_in by auto
  show ?thesis
    using assms(2) occurrences_rem [OF t(2), of "view s" n x] stays_up [OF assms(1)]
    unfolding adds_def LREM_view [OF assms(1) t(1) assms(4)] by simp
qed

lemma DEL_adds:
  assumes "up s" "records_ok (view s)" "key_type k = TStr"
  shows "adds view up s (snd (redis now (DEL k) s)) (\<lambda>_. 0)"
  using assms by (simp add: adds_def laws records_ok_del)

lemma ZREM_adds:
  assumes "up s" "records_ok (view s)"
  shows "adds view up s (snd (redis now (ZREM keyPrefixScheduled x) s)) (\<lambda>_. 0)"
  using assms occurrences_zrem [of "view s" x] by (simp add: adds_def laws)

lemma Delete_adds:
  assumes "up s" "records_ok (view s)"
  shows "adds view up s (snd (DeleteJob redis now i s)) (\<lambda>_. 0)"
proof (cases "stored now (view s) i")
  case None
  then show ?thesis by (rule missing_job_adds [OF assms])
next
  case (Some j)
  let ?s1 = "snd (GetJob redis now i s)"
  let ?s2 = "snd (redis now (DEL (keyPrefixJob @ i)) ?s1)"
  let ?s3 = "snd (redis now (LREM (QueueName (jp_Priority j)) 0 i) ?s2)"
  let ?s4 = "snd (redis now (ZREM keyPrefixScheduled i) ?s3)"
  let ?s5 = "snd (redis now (LREM keyPrefixDLQ 0 i) ?s4)"
  have 1: "adds view up s ?s1 (\<lambda>_. 0)" by (rule GetJob_adds [OF assms])
  have 2: "adds view up s ?s2 (\<lambda>_. 0)" by (rule adds_trans [OF 1 DEL_adds]) (use adds_view [OF 1] in auto)
  have 3: "adds view up s ?s3 (\<lambda>_. 0)" by (rule adds_trans [OF 2 LREM_adds]) (use adds_view [OF 2] in auto)
  have 4: "adds view up s ?s4 (\<lambda>_. 0)" by (rule adds_trans [OF 3 ZREM_adds]) (use adds_view [OF 3] in auto)
  have 5: "adds view up s ?s5 (\<lambda>_. 0)" by (rule adds_trans [OF 4 LREM_adds]) (use adds_view [OF 4] in auto)
  have 6: "adds view up s (snd (redis now (DEL (keyPrefixUnique @ jp_UniqueKey j)) ?s5)) (\<lambda>_. 0)"
    by (rule adds_trans [OF 5 DEL_adds]) (use adds_view [OF 5] in auto)
  show ?thesis using 5 6 GetJob_stored [OF assms(1) Some]
    by (simp add: DeleteJob_def case_prod_unfold Let_def)
qed

lemma RetryDLQ_adds:
  assumes "up s" "records_ok (view s)" "\<And>j. stored now (view s) i = Some j \<Longrightarrow> unique_ttl now j \<noteq> - 1"
  shows "adds view up s (snd (RetryDLQJob redis now uuid i s)) (only uuid)"
proof (cases "stored now (view s) i")
  case None
  then show ?thesis by (rule missing_job_adds [OF assms(1,2)])
next
  case (Some j)
  let ?s1 = "snd (GetJob redis now i s)"
  let ?s2 = "snd (redis now (LREM keyPrefixDLQ 1 i) ?s1)"
  let ?j = "j\<lparr>jp_Status := JobStatusPending, jp_Attempts := 0, jp_LastError := [], jp_ID := uuid\<rparr>"
  have 1: "adds view up s ?s1 (\<lambda>_. 0)" by (rule GetJob_adds [OF assms(1,2)])
  have 2: "adds view up s ?s2 (\<lambda>_. 0)" by (rule adds_trans [OF 1 LREM_adds]) (use adds_view [OF 1] in auto)
  have "unique_ttl now ?j \<noteq> - 1" using assms(3) [OF Some] by (simp add: unique_ttl_def)
  then have "adds view up ?s2 (snd (Enqueue redis now ?j ?s2)) (only (jp_ID ?j))"
    using Enqueue_adds adds_view [OF 2] by blast
  then have 3: "adds view up ?s2 (snd (Enqueue redis now ?j ?s2)) (only uuid)" by simp
  have "fst (redis now (LREM keyPrefixDLQ 1 i) ?s1) \<noteq> RErr" using adds_view [OF 1] by (simp add: laws)
  then have "RetryDLQJob redis now uuid i s = Enqueue redis now ?j ?s2"
    using GetJob_stored [OF assms(1) Some] by (simp add: RetryDLQJob_def case_prod_unfold)
  then show ?thesis using adds_trans [OF 2 3] by simp
qed

lemma inv_adds:
  assumes "queue_inv view up (s, R)" "adds view up s s' d" "\<And>i. d i + count R' i \<le> count R i \<or> occurrences (view s) i + d i + count R' i \<le> 1"
  shows "queue_inv view up (s', R')"
proof -
  have "occurrences (view s') i + count R' i \<le> 1" for i
  proof -
    have "occurrences (view s') i \<le> occurrences (view s) i + d i" using assms(2) by (simp add: adds_def)
    moreover have "occurrences (view s) i + count R i \<le> 1" using assms(1) by (simp add: queue_inv_def)
    ultimately show ?thesis using assms(3) [of i] by linarith
  qed
  then show ?thesis using assms(2) by (simp add: queue_inv_def adds_def)
qed

lemma queue_step_inv:
  assumes "queue_step redis view c c'" "queue_inv view up c"
  shows "queue_inv view up c'"
  using assms
proof (cases rule: queue_step.cases)
  case (enqueue s j R now)
  then have "up s" "records_ok (view s)" using assms(2) by (simp_all add: queue_inv_def)
  from inv_adds [OF _ Enqueue_adds [OF this enqueue(5)]] show ?thesis
    using enqueue assms(2) by (simp add: not_in_iff)
next
  case (taken now ps s j s' R)
  then have u: "up s" "records_ok (view s)" using assms(2) by (simp_all add: queue_inv_def)
  let ?ps = "if ps = [] then default_priorities else ps"
  have d: "dequeue_loop redis now ?ps s = (Inr j, s')" using taken(3) by (simp add: Dequeue_def)
  have "up s'" "records_ok (view s')" "\<And>i. occurrences (view s') i + (if jp_ID j = i then 1 else 0) \<le> occurrences (view s) i"
    using dequeue_places [OF u, of now ?ps] unfolding d by auto
  moreover have "\<And>i. occurrences (view s) i + count R i \<le> 1" using assms(2) taken(1) by (simp add: queue_inv_def)
  ultimately have "occurrences (view s') i + count (add_mset (jp_ID j) R) i \<le> 1" for i
    by (smt (verit) count_add_mset add.assoc add.commute add_le_mono1 order_trans Suc_eq_plus1 add_0)
  then show ?thesis using \<open>up s'\<close> \<open>records_ok (view s')\<close> taken(2) by (simp add: queue_inv_def)
next
  case (idle now ps s e s' R)
  then have u: "up s" "records_ok (view s)" using assms(2) by (simp_all add: queue_inv_def)
  let ?ps = "if ps = [] then default_priorities else ps"
  have d: "dequeue_loop redis now ?ps s = (Inl e, s')" using idle(3) by (simp add: Dequeue_def)
  have "adds view up s s' (\<lambda>_. 0)" using dequeue_places [OF u, of now ?ps] unfolding d by (simp add: adds_def)
  from inv_adds [OF _ this, of R R] show ?thesis using idle assms(2) by simp
next
  case (complete i R s now)
  then have "up s" "records_ok (view s)" using assms(2) by (simp_all add: queue_inv_def)
  from inv_adds [OF _ Complete_adds [OF this]] show ?thesis using complete assms(2) by (simp add: count_diff)
next
  case (fail i R s oor now err)
  then have "up s" "records_ok (view s)" using assms(2) by (simp_all add: queue_inv_def)
  from inv_adds [OF _ Fail_adds [OF this]] show ?thesis using fail assms(2) by simp
next
  case (requeue i R s now p)
  then have "up s" "records_ok (view s)" using assms(2) by (simp_all add: queue_inv_def)
  from inv_adds [OF _ Requeue_adds [OF this]] show ?thesis using requeue assms(2) by simp
next
  case (process s R now)
  then have "up s" "records_ok (view s)" using assms(2) by (simp_all add: queue_inv_def)
  from inv_adds [OF _ Process_adds [OF this]] show ?thesis using process assms(2) by simp
next
  case (delete s R now i)
  then have "up s" "records_ok (view s)" using assms(2) by (simp_all add: queue_inv_def)
  from inv_adds [OF _ Delete_adds [OF this]] show ?thesis using delete assms(2) by simp
next
  case (retry s uuid R i now)
  then have "up s" "records_ok (view s)" using assms(2) by (simp_all add: queue_inv_def)
  from inv_adds [OF _ RetryDLQ_adds [OF this retry(6)]] show ?thesis using retry assms(2) by (simp add: not_in_iff)
qed

end



end
