(* ===== verification/Job_Service.thy ===== *)
theory Job_Service
  imports Job_Scheduler Worker_Pool Queue_Invariant
begin

text \<open>
  \<^verbatim>\<open>internal/jobs/job_service.go\<close> and \<^verbatim>\<open>internal/jobs/service.go\<close>: the service the controllers call.
  It makes jobs and hands them to the queue, and gathers the statistics of the queue, the
  worker pool and the scheduler. Its fields are the three components; the queue is a client of
  Redis and keeps no state of its own.
\<close>

subsection \<open>Data\<close>

record ('w, 'p) jobService =
  js_pool :: "'w WorkerPool"
  js_scheduler :: "'p Scheduler option"

definition NewJobService :: "'w WorkerPool \<Rightarrow> 'p Scheduler option \<Rightarrow> ('w, 'p) jobService" where
  "NewJobService pool sched = \<lparr>js_pool = pool, js_scheduler = sched\<rparr>"

record WorkerStats =
  wks_Running :: bool
  wks_ActiveWorkers :: int
  wks_Concurrency :: int
  wks_ProcessedJobs :: int
  wks_FailedJobs :: int

record SchedulerStats =
  sst_IsLeader :: bool
  sst_RegisteredJobs :: int
  sst_ScheduledJobNames :: "string list"

record QueueStats =
  qs_Pending :: int
  qs_Scheduled :: int
  qs_Running :: int
  qs_Completed :: int
  qs_Failed :: int
  qs_Dead :: int
  qs_QueueSizes :: "string \<rightharpoonup> int"
  qs_WorkerStats :: WorkerStats
  qs_SchedulerStats :: SchedulerStats

subsection \<open>Operations\<close>

text \<open>\<open>data\<close> is what \<^verbatim>\<open>json.Marshal\<close> makes of the payload, \<open>uuid\<close> the fresh identifier.\<close>

definition svc_Enqueue ::
  "'s redis \<Rightarrow> string \<Rightarrow> time \<Rightarrow> string \<Rightarrow> json option \<Rightarrow> JobOption list \<Rightarrow> 's \<Rightarrow> (job_error + string) \<times> 's" where
  "svc_Enqueue redis uuid now jobType data opts s =
     (case NewJobPayload uuid now jobType data opts of
        Inl err \<Rightarrow> (Inl err, s)
      | Inr job \<Rightarrow>
          (case Enqueue redis now job s of
             (Some err, s1) \<Rightarrow> (Inl err, s1)
           | (None, s1) \<Rightarrow> (Inr (jp_ID job), s1)))"

definition EnqueueAt ::
  "'s redis \<Rightarrow> string \<Rightarrow> time \<Rightarrow> string \<Rightarrow> json option \<Rightarrow> time \<Rightarrow> JobOption list \<Rightarrow> 's \<Rightarrow> (job_error + string) \<times> 's" where
  "EnqueueAt redis uuid now jobType data scheduledAt opts s =
     svc_Enqueue redis uuid now jobType data (opts @ [WithScheduledAt scheduledAt]) s"

definition EnqueueIn ::
  "'s redis \<Rightarrow> string \<Rightarrow> time \<Rightarrow> string \<Rightarrow> json option \<Rightarrow> duration \<Rightarrow> JobOption list \<Rightarrow> 's \<Rightarrow> (job_error + string) \<times> 's" where
  "EnqueueIn redis uuid now jobType data delay opts s =
     svc_Enqueue redis uuid now jobType data (opts @ [WithDelay now delay]) s"

definition svc_GetJob :: "'s redis \<Rightarrow> time \<Rightarrow> string \<Rightarrow> 's \<Rightarrow> (job_error + JobPayload) \<times> 's" where
  "svc_GetJob redis now jobID s = GetJob redis now jobID s"

definition CancelJob :: "'s redis \<Rightarrow> time \<Rightarrow> string \<Rightarrow> 's \<Rightarrow> job_error option \<times> 's" where
  "CancelJob redis now jobID s = DeleteJob redis now jobID s"

definition RetryJob :: "'s redis \<Rightarrow> time \<Rightarrow> string \<Rightarrow> 's \<Rightarrow> job_error option \<times> 's" where
  "RetryJob redis now jobID s =
     (case GetJob redis now jobID s of
        (Inl err, s1) \<Rightarrow> (Some err, s1)
      | (Inr job, s1) \<Rightarrow>
          Enqueue redis now (job\<lparr>jp_Status := JobStatusPending, jp_Attempts := 0, jp_LastError := [],
                                 jp_ScheduledAt := None\<rparr>) s1)"

text \<open>A key missing from a Go map reads as zero.\<close>

definition stat_of :: "(string \<rightharpoonup> int) \<Rightarrow> string \<Rightarrow> int" where
  "stat_of m k = (case m k of None \<Rightarrow> 0 | Some n \<Rightarrow> n)"

definition svc_scheduler_stats :: "string list \<Rightarrow> 'p Scheduler option \<Rightarrow> SchedulerStats" where
  "svc_scheduler_stats names sched =
     (case sched of
        None \<Rightarrow> \<lparr>sst_IsLeader = False, sst_RegisteredJobs = 0, sst_ScheduledJobNames = []\<rparr>
      | Some sc \<Rightarrow>
          (let scheduledJobs = ListJobs names sc
           in \<lparr>sst_IsLeader = IsLeader sc, sst_RegisteredJobs = int (length scheduledJobs),
               sst_ScheduledJobNames = map si_Name scheduledJobs\<rparr>))"

definition GetQueueStats ::
  "'s redis \<Rightarrow> time \<Rightarrow> string list \<Rightarrow> ('w, 'p) jobService \<Rightarrow> 's \<Rightarrow> (job_error + QueueStats) \<times> 's" where
  "GetQueueStats redis now names svc s =
     (case GetStats redis now s of
        (Inl err, s1) \<Rightarrow> (Inl err, s1)
      | (Inr queueStats, s1) \<Rightarrow>
          (let poolStats = pool_Stats (js_pool svc)
           in (Inr \<lparr>qs_Pending = stat_of queueStats ''pending'', qs_Scheduled = stat_of queueStats ''scheduled'',
                    qs_Running = 0, qs_Completed = stat_of queueStats ''completed_total'',
                    qs_Failed = stat_of queueStats ''failed_total'', qs_Dead = stat_of queueStats ''dlq'',
                    qs_QueueSizes = [''critical'' \<mapsto> stat_of queueStats ''queue_critical'',
                       ''high'' \<mapsto> stat_of queueStats ''queue_high'', ''normal'' \<mapsto> stat_of queueStats ''queue_normal'',
                       ''low'' \<mapsto> stat_of queueStats ''queue_low''],
                    qs_WorkerStats = \<lparr>wks_Running = ws_Running poolStats, wks_ActiveWorkers = ws_ActiveWorkers poolStats,
                       wks_Concurrency = ws_Concurrency poolStats, wks_ProcessedJobs = ws_ProcessedJobs poolStats,
                       wks_FailedJobs = ws_FailedJobs poolStats\<rparr>,
                    qs_SchedulerStats = svc_scheduler_stats names (js_scheduler svc)\<rparr>, s1)))"

definition svc_GetDLQJobs :: "'s redis \<Rightarrow> time \<Rightarrow> int \<Rightarrow> 's \<Rightarrow> (job_error + JobPayload list) \<times> 's" where
  "svc_GetDLQJobs redis now limit s = GetDLQJobs redis now limit s"

definition svc_RetryDLQJob :: "'s redis \<Rightarrow> time \<Rightarrow> string \<Rightarrow> string \<Rightarrow> 's \<Rightarrow> job_error option \<times> 's" where
  "svc_RetryDLQJob redis now uuid jobID s = RetryDLQJob redis now uuid jobID s"

fun purge_loop :: "'s redis \<Rightarrow> time \<Rightarrow> JobPayload list \<Rightarrow> 's \<Rightarrow> job_error option \<times> 's" where
  "purge_loop redis now [] s = (None, s)"
| "purge_loop redis now (job # js) s =
     (case DeleteJob redis now (jp_ID job) s of
        (Some err, s1) \<Rightarrow> (Some err, s1)
      | (None, s1) \<Rightarrow> purge_loop redis now js s1)"

definition PurgeDLQ :: "'s redis \<Rightarrow> time \<Rightarrow> 's \<Rightarrow> job_error option \<times> 's" where
  "PurgeDLQ redis now s =
     (case GetDLQJobs redis now 10000 s of
        (Inl err, s1) \<Rightarrow> (Some err, s1)
      | (Inr js, s1) \<Rightarrow> purge_loop redis now js s1)"

subsection \<open>Enqueuing\<close>

text \<open>A job made by the service goes to its queue, or to the schedule when its time is in the
  future; the identifier returned is the one under which it is stored.\<close>

lemma svc_enqueue_effect:
  assumes "redis_client redis view up" "up s" "NewJobPayload uuid now jobType data opts = Inr job" "times_ok job"
    and "jp_UniqueKey job = []"
  shows "fst (svc_Enqueue redis uuid now jobType data opts s) = Inr (jp_ID job)
    \<and> view (snd (svc_Enqueue redis uuid now jobType data opts s)) = enqueue_view now job (view s)"
  using redis_client.Enqueue_fresh [OF assms(1,2,4)] assms(3,5)
  by (auto simp: svc_Enqueue_def case_prod_unfold)

lemma EnqueueIn_schedules:
  assumes "redis_client redis view up" "up s" "0 < delay" "time_ok now" "time_ok (now + delay)"
    and "EnqueueIn redis uuid now jobType (Some d) delay [WithPriority p] s = (r, s1)"
  shows "r = Inr uuid \<and> rv_zset (view s1) keyPrefixScheduled uuid = Some (real_of_int (unix_seconds (now + delay)))
    \<and> rv_list (view s1) = rv_list (view s)"
proof -
  obtain job where j: "NewJobPayload uuid now jobType (Some d) ([WithPriority p] @ [WithDelay now delay]) = Inr job"
    and f: "times_ok job" "jp_UniqueKey job = []" "jp_ID job = uuid" "jp_ScheduledAt job = Some (now + delay)"
    using assms(4,5) by (auto simp: NewJobPayload_def option_defs times_ok_def)
  show ?thesis
    using svc_enqueue_effect [OF assms(1,2) j f(1,2)] assms(3,6) f
    by (auto simp: EnqueueIn_def enqueue_view_def place_def due_later_def schedule_def put_job_def hold_unique_def bump_def)
qed

subsection \<open>Retrying\<close>

definition fresh_start :: "JobPayload \<Rightarrow> JobPayload" where
  "fresh_start j = j\<lparr>jp_Status := JobStatusPending, jp_Attempts := 0, jp_LastError := [], jp_ScheduledAt := None\<rparr>"

lemma fresh_start_simps [simp]:
  "jp_ID (fresh_start j) = jp_ID j" "jp_UniqueKey (fresh_start j) = jp_UniqueKey j"
  "jp_Priority (fresh_start j) = jp_Priority j" "jp_ScheduledAt (fresh_start j) = None"
  "times_ok j \<Longrightarrow> times_ok (fresh_start j)"
  by (simp_all add: fresh_start_def times_ok_def)

context redis_client
begin

lemma RetryJob_unknown:
  assumes "up s" "look (view s) now (keyPrefixJob @ i) = None"
  shows "fst (RetryJob redis now i s) = Some ErrJobNotFound \<and> view (snd (RetryJob redis now i s)) = view s"
  using assms by (simp add: RetryJob_def GetJob_def case_prod_unfold laws)

lemma RetryJob_stored:
  assumes "up s" "stored now (view s) i = Some j"
  shows "RetryJob redis now i s = Enqueue redis now (fresh_start j) (snd (GetJob redis now i s))"
    "view (snd (GetJob redis now i s)) = view s" "up (snd (GetJob redis now i s))"
  using GetJob_stored [OF assms] GetJob_frame [OF assms(1)] by (simp_all add: RetryJob_def case_prod_unfold fresh_start_def)

lemma RetryJob_busy:
  assumes "up s" "stored now (view s) i = Some j" "jp_UniqueKey j \<noteq> []"
    and "look (view s) now (keyPrefixUnique @ jp_UniqueKey j) \<noteq> None"
  shows "fst (RetryJob redis now i s) = Some ErrDuplicateJob \<and> view (snd (RetryJob redis now i s)) = view s"
  using Enqueue_duplicate [OF RetryJob_stored(3) [OF assms(1,2)], of "fresh_start j" now] assms(3,4)
  by (simp add: RetryJob_stored(1,2) [OF assms(1,2)])

lemma RetryJob_ok:
  assumes "up s" "stored now (view s) i = Some j" "times_ok j" "jp_ID j = i"
    and "jp_UniqueKey j = [] \<or> look (view s) now (keyPrefixUnique @ jp_UniqueKey j) = None"
  shows "fst (RetryJob redis now i s) = None
    \<and> rv_zset (view (snd (RetryJob redis now i s))) = rv_zset (view s)
    \<and> rv_list (view (snd (RetryJob redis now i s)))
      = (rv_list (view s))(QueueName (jp_Priority j) := i # rv_list (view s) (QueueName (jp_Priority j)))
    \<and> occurrences (view (snd (RetryJob redis now i s))) i = Suc (occurrences (view s) i)"
proof -
  have "fst (RetryJob redis now i s) = None" "view (snd (RetryJob redis now i s)) = enqueue_view now (fresh_start j) (view s)"
    using Enqueue_fresh [OF RetryJob_stored(3) [OF assms(1,2)], of "fresh_start j" now] assms(3,5)
    by (simp_all add: RetryJob_stored(1,2) [OF assms(1,2)] unique_ttl_def)
  moreover have "enqueue_view now (fresh_start j) (view s) = bump ''pending'' 1 (bump ''enqueued_total'' 1 (hold_unique now (fresh_start j)
      (push_list (QueueName (jp_Priority j)) i (put_job now (fresh_start j) (view s)))))"
    using assms(4) by (simp add: enqueue_view_def place_def due_later_def)
  ultimately show ?thesis by (simp add: occurrences_push QueueName_in_keys)
qed

end

text \<open>
  \<^verbatim>\<open>RetryJob\<close> enqueues the job under its old identifier and takes it out of nowhere: whatever
  list or schedule held the identifier still holds it, so a job that waits for a scheduled
  retry, or lies in the dead letter list, is afterwards in two places. While the unique key of
  the job is held (which its own scheduled retry does), the retry is refused as a duplicate
  and nothing changes. An unknown job is reported as such.
\<close>

theorem retry_job_keeps_old_place:
  assumes "redis_client redis view up" "up s" "s1 = snd (RetryJob redis now i s)"
  shows "(look (view s) now (keyPrefixJob @ i) = None \<longrightarrow>
           fst (RetryJob redis now i s) = Some ErrJobNotFound \<and> view s1 = view s)
    \<and> (\<forall>j. stored now (view s) i = Some j \<and> jp_UniqueKey j \<noteq> []
           \<and> look (view s) now (keyPrefixUnique @ jp_UniqueKey j) \<noteq> None \<longrightarrow>
           fst (RetryJob redis now i s) = Some ErrDuplicateJob \<and> view s1 = view s)
    \<and> (\<forall>j. stored now (view s) i = Some j \<and> times_ok j \<and> jp_ID j = i
           \<and> (jp_UniqueKey j = [] \<or> look (view s) now (keyPrefixUnique @ jp_UniqueKey j) = None) \<longrightarrow>
           fst (RetryJob redis now i s) = None \<and> rv_zset (view s1) = rv_zset (view s)
           \<and> rv_list (view s1) = (rv_list (view s))(QueueName (jp_Priority j) := i # rv_list (view s) (QueueName (jp_Priority j)))
           \<and> occurrences (view s1) i = Suc (occurrences (view s) i))"
  unfolding assms(3)
  using redis_client.RetryJob_unknown [OF assms(1,2), of now i] redis_client.RetryJob_busy [OF assms(1,2), of now i]
    redis_client.RetryJob_ok [OF assms(1,2), of now i]
  by (intro conjI allI impI; (elim conjE)?) simp_all

definition buried_store :: mem where
  "buried_store = mem_empty\<lparr>m_list := (m_list mem_empty)(keyPrefixDLQ := [''a'']),
     m_str := (m_str mem_empty)(keyPrefixJob @ ''a'' \<mapsto> (Doc (job_doc (demo_job ''a'' 1)), None))\<rparr>"

lemma buried_store_up: "mem_up buried_store"
  by (simp add: mem_up_def buried_store_def mem_empty_def)

lemma buried_store_view [simp]:
  "stored t (mem_view buried_store) ''a'' = Some (demo_job ''a'' 1)" "rv_list (mem_view buried_store) keyPrefixDLQ = [''a'']"
  by (simp_all add: stored_def look_def buried_store_def mem_view_def mem_empty_def live_def)

theorem retry_job_keeps_old_place_witness:
  "fst (RetryJob mem_redis 5 ''a'' buried_store) = None
   \<and> ''a'' \<in> set (rv_list (mem_view (snd (RetryJob mem_redis 5 ''a'' buried_store))) keyPrefixDLQ)
   \<and> ''a'' \<in> set (rv_list (mem_view (snd (RetryJob mem_redis 5 ''a'' buried_store))) (QueueName 1))"
  using retry_job_keeps_old_place [OF mem.redis_client_axioms buried_store_up refl, of 5 "''a''"] by simp

subsection \<open>Purging the dead letter list\<close>

definition delete_view :: "string \<Rightarrow> JobPayload \<Rightarrow> redis_view \<Rightarrow> redis_view" where
  "delete_view i j v = drop_unique j (v\<lparr>rv_str := (rv_str v)(keyPrefixJob @ i := None),
     rv_list := (rv_list v)(QueueName (jp_Priority j) := removeAll i (rv_list v (QueueName (jp_Priority j))),
                            keyPrefixDLQ := removeAll i (rv_list v keyPrefixDLQ)),
     rv_zset := (rv_zset v)(keyPrefixScheduled := (rv_zset v keyPrefixScheduled)(i := None))\<rparr>)"

lemma stored_delete: "stored t (delete_view i j v) k = (if k = i then None else stored t v k)"
  by (simp add: delete_view_def drop_unique_def stored_def look_def)

lemma dlq_delete: "rv_list (delete_view i j v) keyPrefixDLQ = removeAll i (rv_list v keyPrefixDLQ)"
  by (simp add: delete_view_def drop_unique_def)

context redis_client
begin

lemma DeleteJob_ok:
  assumes "up s" "stored now (view s) i = Some j"
  shows "fst (DeleteJob redis now i s) = None \<and> view (snd (DeleteJob redis now i s)) = delete_view i j (view s)
    \<and> up (snd (DeleteJob redis now i s))"
proof -
  have 1: "fst (GetJob redis now i s) = Inr j" "view (snd (GetJob redis now i s)) = view s" "up (snd (GetJob redis now i s))"
    using GetJob_stored [OF assms] GetJob_frame [OF assms(1)] by auto
  then show ?thesis
    by (simp add: DeleteJob_def case_prod_unfold Let_def laws list_rem_def delete_view_def drop_unique_def)
qed

lemma collect_jobs_stored:
  "up s \<Longrightarrow> fst (collect_jobs redis now ids s) = List.map_filter (stored now (view s)) ids
     \<and> view (snd (collect_jobs redis now ids s)) = view s \<and> up (snd (collect_jobs redis now ids s))"
proof (induction ids arbitrary: s)
  case (Cons i ids)
  have f: "view (snd (GetJob redis now i s)) = view s" "up (snd (GetJob redis now i s))"
    using GetJob_frame [OF Cons(2)] by auto
  show ?case
  proof (cases "stored now (view s) i")
    case None
    then obtain e where "fst (GetJob redis now i s) = Inl e" using GetJob_missing [OF Cons(2)] by blast
    then show ?thesis using Cons(1) [OF f(2)] f(1) None by (simp add: case_prod_unfold map_filter_simps)
  next
    case (Some j)
    then show ?thesis using GetJob_stored [OF Cons(2) Some] Cons(1) [OF f(2)] f(1)
      by (simp add: case_prod_unfold map_filter_simps)
  qed
qed (simp add: map_filter_simps)

lemma purge_loop_ok:
  assumes "up s" "distinct (map jp_ID js)" "\<forall>j\<in>set js. stored now (view s) (jp_ID j) = Some j"
  shows "fst (purge_loop redis now js s) = None
    \<and> rv_list (view (snd (purge_loop redis now js s))) keyPrefixDLQ = filter (\<lambda>i. i \<notin> jp_ID ` set js) (rv_list (view s) keyPrefixDLQ)
    \<and> (\<forall>i. stored now (view (snd (purge_loop redis now js s))) i = (if i \<in> jp_ID ` set js then None else stored now (view s) i))"
  using assms
proof (induction js arbitrary: s)
  case (Cons j js)
  let ?s1 = "snd (DeleteJob redis now (jp_ID j) s)"
  have d: "fst (DeleteJob redis now (jp_ID j) s) = None" "view ?s1 = delete_view (jp_ID j) j (view s)" "up ?s1"
    using DeleteJob_ok [OF Cons(2), of now "jp_ID j" j] Cons(4) by simp_all
  have "\<forall>k\<in>set js. stored now (view ?s1) (jp_ID k) = Some k"
  proof
    fix k assume k: "k \<in> set js"
    then have "jp_ID k \<noteq> jp_ID j" "stored now (view s) (jp_ID k) = Some k" using Cons(3,4) by force+
    then show "stored now (view ?s1) (jp_ID k) = Some k" unfolding d(2) stored_delete by simp
  qed
  note ih = Cons(1) [OF d(3) _ this]
  have e: "purge_loop redis now (j # js) s = purge_loop redis now js ?s1"
    using d(1) by (simp add: case_prod_unfold)
  have "filter (\<lambda>i. i \<notin> jp_ID ` set js) (removeAll (jp_ID j) xs) = filter (\<lambda>i. i \<notin> jp_ID ` set (j # js)) xs" for xs
    by (induction xs) auto
  then show ?case using Cons(3) ih unfolding e d(2) by (simp add: stored_delete dlq_delete)
qed simp

end

lemma map_filter_ids:
  assumes "records_ok v"
  shows "map jp_ID (List.map_filter (stored now v) ids) = filter (\<lambda>i. stored now v i \<noteq> None) ids"
  using assms by (induction ids) (auto simp: map_filter_simps records_ok_def split: option.splits)

text \<open>
  Purging. \<^verbatim>\<open>PurgeDLQ\<close> on a dead letter list of at most 10000 different jobs succeeds and
  deletes exactly the jobs that still have a record: those identifiers leave the list and
  their records are gone, while an identifier whose record has expired (a day after it was
  last written) stays in the list, and no purge will ever remove it.
\<close>

theorem purge_dlq_exact:
  assumes "redis_client redis view up" "up s" "records_ok (view s)" "distinct (rv_list (view s) keyPrefixDLQ)"
    and "length (rv_list (view s) keyPrefixDLQ) \<le> 10000" "s1 = snd (PurgeDLQ redis now s)"
  shows "fst (PurgeDLQ redis now s) = None
    \<and> rv_list (view s1) keyPrefixDLQ = filter (\<lambda>i. stored now (view s) i = None) (rv_list (view s) keyPrefixDLQ)
    \<and> (\<forall>i \<in> set (rv_list (view s) keyPrefixDLQ). stored now (view s1) i = None)"
proof -
  let ?ids = "rv_list (view s) keyPrefixDLQ" and ?js = "List.map_filter (stored now (view s)) (rv_list (view s) keyPrefixDLQ)"
  let ?r = "redis now (LRANGE keyPrefixDLQ 0 9999) s"
  have 1: "fst ?r = RStrings ?ids" "view (snd ?r) = view s" "up (snd ?r)"
    using assms(2,5) by (simp_all add: redis_client.laws [OF assms(1)] list_range_def)
  have 2: "fst (collect_jobs redis now ?ids (snd ?r)) = ?js" "view (snd (collect_jobs redis now ?ids (snd ?r))) = view s"
      "up (snd (collect_jobs redis now ?ids (snd ?r)))"
    using redis_client.collect_jobs_stored [OF assms(1) 1(3), of now ?ids] 1(2) by auto
  have e: "PurgeDLQ redis now s = purge_loop redis now ?js (snd (collect_jobs redis now ?ids (snd ?r)))"
    using 1(1) 2(1) by (simp add: PurgeDLQ_def GetDLQJobs_def case_prod_unfold)
  have ids: "map jp_ID ?js = filter (\<lambda>i. stored now (view s) i \<noteq> None) ?ids"
    by (rule map_filter_ids [OF assms(3)])
  have d: "distinct (map jp_ID ?js)" using assms(4) by (simp only: ids distinct_filter)
  have m: "jp_ID ` set ?js = {i \<in> set ?ids. stored now (view s) i \<noteq> None}"
    using arg_cong [OF ids, of set] by auto
  have st: "\<forall>j\<in>set ?js. stored now (view s) (jp_ID j) = Some j"
    using assms(3) by (auto simp: map_filter_def records_ok_def)
  show ?thesis
    using redis_client.purge_loop_ok [OF assms(1) 2(3) d] st
    by (auto simp: assms(6) e 2(2) m intro: filter_cong)
qed

theorem purge_dlq_exact_witness:
  "fst (PurgeDLQ mem_redis 5 buried_store) = None
   \<and> rv_list (mem_view (snd (PurgeDLQ mem_redis 5 buried_store))) keyPrefixDLQ = []"
proof -
  have "records_ok (mem_view buried_store)"
    by (auto simp: records_ok_def stored_def look_def buried_store_def mem_view_def mem_empty_def live_def
        split: if_splits option.splits)
  then show ?thesis
    using purge_dlq_exact [OF mem.redis_client_axioms buried_store_up _ _ _ refl, of 5] by simp
qed

end
