(* ===== verification/Job_Controller.thy ===== *)
theory Job_Controller
  imports Job_Service Account_Controller
begin

text \<open>
  The HTTP controller of the job system, \<^verbatim>\<open>internal/controller/http/job_controller.go\<close>, over the job
  service of \<open>Job_Service\<close> and the scheduler. Binding the request body is done by gin: its result is an
  argument, as are the JSON value of the payload (\<open>None\<close> for invalid text) and what \<^verbatim>\<open>time.Parse\<close> makes of a
  timestamp.
\<close>

record ('w, 'p) JobController =
  jct_jobService :: "('w, 'p) jobService"
  jct_scheduler :: "'p Scheduler option"

definition NewJobController :: "('w, 'p) jobService \<Rightarrow> 'p Scheduler option \<Rightarrow> ('w, 'p) JobController" where
  "NewJobController svc sched = \<lparr>jct_jobService = svc, jct_scheduler = sched\<rparr>"

definition msgJobIDRequired :: string where "msgJobIDRequired = ''job ID required''"

subsection \<open>Requests and responses\<close>

record EnqueueJobRequest =
  ej_Type :: string
  ej_Payload :: "json option"
  ej_Priority :: string
  ej_ScheduledAt :: string
  ej_DelaySeconds :: int
  ej_UniqueKey :: string
  ej_Tags :: "string list"

record JobResponse =
  jr_ID :: string
  jr_Type :: string
  jr_Priority :: string
  jr_Status :: string
  jr_Attempts :: int
  jr_MaxRetries :: int
  jr_ScheduledAt :: "time option"
  jr_CreatedAt :: time
  jr_StartedAt :: "time option"
  jr_CompletedAt :: "time option"
  jr_LastError :: string
  jr_CorrelationID :: string
  jr_Tags :: "string list"

record ScheduledJobResponse =
  sjr_Name :: string
  sjr_Schedule :: string
  sjr_JobType :: string
  sjr_NextRun :: time
  sjr_Priority :: string

text \<open>The statistics are sent with the fields of \<open>QueueStats\<close>.\<close>

datatype job_data =
    DEnqueued string string | DJob JobResponse | DStats QueueStats | DJobs "JobResponse list"
  | DScheduled "ScheduledJobResponse list"

type_synonym 's job_handler = "(job_data, 's) handler"

definition toJobResponse :: "JobPayload \<Rightarrow> JobResponse" where
  "toJobResponse job =
     \<lparr>jr_ID = jp_ID job, jr_Type = jp_Type job, jr_Priority = Priority_String (jp_Priority job), jr_Status = jp_Status job,
      jr_Attempts = jp_Attempts job, jr_MaxRetries = jp_MaxRetries job, jr_ScheduledAt = jp_ScheduledAt job,
      jr_CreatedAt = jp_CreatedAt job, jr_StartedAt = jp_StartedAt job, jr_CompletedAt = jp_CompletedAt job,
      jr_LastError = jp_LastError job, jr_CorrelationID = jp_CorrelationID job, jr_Tags = jp_Tags job\<rparr>"

subsection \<open>Enqueuing\<close>

definition parse_priority :: "string \<Rightarrow> Priority" where
  "parse_priority p =
     (let q = map to_lower p
      in if q = ''low'' then PriorityLow else if q = ''high'' then PriorityHigh
         else if q = ''critical'' then PriorityCritical else PriorityNormal)"

text \<open>\<^verbatim>\<open>time.Duration(n) * time.Second\<close>, in 64 bits.\<close>

definition seconds :: "int \<Rightarrow> duration" where
  "seconds n = wrap_int64 (n * second)"

text \<open>The options a request asks for; \<open>None\<close> where the timestamp cannot be read.\<close>

definition enqueue_options :: "(string \<Rightarrow> time option) \<Rightarrow> time \<Rightarrow> EnqueueJobRequest \<Rightarrow> JobOption list option" where
  "enqueue_options parse now req =
     (let prio = [WithPriority (parse_priority (ej_Priority req))];
          sched = (if ej_ScheduledAt req \<noteq> [] then map_option (\<lambda>t. [WithScheduledAt t]) (parse (ej_ScheduledAt req))
                   else if ej_DelaySeconds req > 0 then Some [WithDelay now (seconds (ej_DelaySeconds req))]
                   else Some []);
          unique = (if ej_UniqueKey req \<noteq> [] then [WithUniqueKey (ej_UniqueKey req)] else []);
          tags = (if ej_Tags req \<noteq> [] then [WithTags (ej_Tags req)] else [])
      in map_option (\<lambda>o1. prio @ o1 @ unique @ tags) sched)"

definition ctl_EnqueueJob ::
  "'s redis \<Rightarrow> (string \<Rightarrow> time option) \<Rightarrow> time \<Rightarrow> string \<Rightarrow> string + EnqueueJobRequest \<Rightarrow> 's job_handler" where
  "ctl_EnqueueJob redis parse now uuid bound c s =
     (case bound of
        Inl details \<Rightarrow> bad_request now details c s
      | Inr req \<Rightarrow>
          (case enqueue_options parse now req of
             None \<Rightarrow> Done (send_JSON 400 (NewError now ''invalid scheduled_at format, use RFC3339'') c, s)
           | Some opts \<Rightarrow>
               if ej_Payload req = None then Done (send_JSON 400 (NewError now ''invalid payload JSON'') c, s)
               else case svc_Enqueue redis uuid now (ej_Type req) (ej_Payload req) opts s of
                      (Inl err, s1) \<Rightarrow> Done (send_JSON 500 (NewError now ''failed to enqueue job'') c, s1)
                    | (Inr jobID, s1) \<Rightarrow>
                        Done (send_JSON 201 (NewSuccess now (Some (DEnqueued jobID ''Job enqueued successfully'')) ''Job enqueued'') c, s1)))"

subsection \<open>Single jobs\<close>

text \<open>A handler that needs the identifier of the path.\<close>

definition with_job_id :: "time \<Rightarrow> (string \<Rightarrow> 's job_handler) \<Rightarrow> 's job_handler" where
  "with_job_id now h c s =
     (let jobID = gc_Param c ''id''
      in if jobID = [] then Done (send_JSON 400 (NewError now msgJobIDRequired) c, s) else h jobID c s)"

text \<open>The reply to a call that returns an error or nothing.\<close>

definition reply_err :: "time \<Rightarrow> string \<Rightarrow> string \<Rightarrow> ('s \<Rightarrow> job_error option \<times> 's) \<Rightarrow> 's job_handler" where
  "reply_err now failed done call c s =
     (case call s of
        (Some err, s1) \<Rightarrow> Done (send_JSON 500 (NewError now failed) c, s1)
      | (None, s1) \<Rightarrow> Done (send_JSON 200 (NewSuccess now None done) c, s1))"

definition ctl_GetJob :: "'s redis \<Rightarrow> time \<Rightarrow> 's job_handler" where
  "ctl_GetJob redis now = with_job_id now (\<lambda>jobID c s.
     case svc_GetJob redis now jobID s of
       (Inl err, s1) \<Rightarrow> Done (send_JSON 404 (NewError now ''job not found'') c, s1)
     | (Inr job, s1) \<Rightarrow> Done (send_JSON 200 (NewSuccessWithData now (DJob (toJobResponse job))) c, s1))"

definition ctl_CancelJob :: "'s redis \<Rightarrow> time \<Rightarrow> 's job_handler" where
  "ctl_CancelJob redis now = with_job_id now (\<lambda>jobID.
     reply_err now ''failed to cancel job'' ''Job cancelled'' (CancelJob redis now jobID))"

definition ctl_RetryJob :: "'s redis \<Rightarrow> time \<Rightarrow> 's job_handler" where
  "ctl_RetryJob redis now = with_job_id now (\<lambda>jobID.
     reply_err now ''failed to retry job'' ''Job retry initiated'' (RetryJob redis now jobID))"

subsection \<open>Statistics, dead letters and schedules\<close>

definition ctl_GetQueueStats :: "'s redis \<Rightarrow> time \<Rightarrow> string list \<Rightarrow> ('w, 'p) jobService \<Rightarrow> 's job_handler" where
  "ctl_GetQueueStats redis now names svc c s =
     (case GetQueueStats redis now names svc s of
        (Inl err, s1) \<Rightarrow> Done (send_JSON 500 (NewError now ''failed to get queue stats'') c, s1)
      | (Inr stats, s1) \<Rightarrow> Done (send_JSON 200 (NewSuccessWithData now (DStats (stats\<lparr>qs_Running := 0\<rparr>))) c, s1))"

definition ctl_GetDashboard :: "'s redis \<Rightarrow> time \<Rightarrow> string list \<Rightarrow> ('w, 'p) jobService \<Rightarrow> 's job_handler" where
  "ctl_GetDashboard = ctl_GetQueueStats"

definition clamp_limit :: "int \<Rightarrow> int" where
  "clamp_limit limit = (if limit \<le> 0 \<or> limit > 1000 then 100 else limit)"

definition ctl_GetDLQJobs :: "'s redis \<Rightarrow> time \<Rightarrow> 's job_handler" where
  "ctl_GetDLQJobs redis now c s =
     (case svc_GetDLQJobs redis now (clamp_limit (query_int ''limit'' ''100'' c)) s of
        (Inl err, s1) \<Rightarrow> Done (send_JSON 500 (NewError now ''failed to get DLQ jobs'') c, s1)
      | (Inr dlq, s1) \<Rightarrow> Done (send_JSON 200 (NewSuccessWithData now (DJobs (map toJobResponse dlq))) c, s1))"

definition ctl_RetryDLQJob :: "'s redis \<Rightarrow> time \<Rightarrow> string \<Rightarrow> 's job_handler" where
  "ctl_RetryDLQJob redis now uuid = with_job_id now (\<lambda>jobID.
     reply_err now ''failed to retry DLQ job'' ''DLQ job retry initiated'' (svc_RetryDLQJob redis now uuid jobID))"

definition ctl_PurgeDLQ :: "'s redis \<Rightarrow> time \<Rightarrow> 's job_handler" where
  "ctl_PurgeDLQ redis now = reply_err now ''failed to purge DLQ'' ''DLQ purged'' (PurgeDLQ redis now)"

text \<open>An error of \<^verbatim>\<open>GetNextRun\<close> is ignored: the time is then the zero time.\<close>

definition ctl_GetScheduledJobs ::
  "(string \<Rightarrow> 'c option) \<Rightarrow> ('c \<Rightarrow> time \<Rightarrow> time) \<Rightarrow> time \<Rightarrow> string list \<Rightarrow> 'p Scheduler option \<Rightarrow> 's job_handler" where
  "ctl_GetScheduledJobs parse5 next now names sched c s =
     (case sched of
        None \<Rightarrow> Done (send_JSON 200 (NewSuccessWithData now (DScheduled [])) c, s)
      | Some sc \<Rightarrow>
          (let resp = map (\<lambda>job. \<lparr>sjr_Name = si_Name job, sjr_Schedule = si_Schedule job, sjr_JobType = si_JobType job,
                        sjr_NextRun = (case GetNextRun parse5 next now (si_Name job) sc of Inl _ \<Rightarrow> zero_time | Inr t \<Rightarrow> t),
                        sjr_Priority = si_Priority job\<rparr>) (ListJobs names sc)
           in Done (send_JSON 200 (NewSuccessWithData now (DScheduled resp)) c, s)))"

subsection \<open>Routes\<close>

datatype job_route =
    RouteQueues | RouteDashboard | RouteEnqueue "string + EnqueueJobRequest" | RouteJob | RouteCancel | RouteRetry
  | RouteDLQ | RouteRetryDLQ | RoutePurge | RouteScheduled

definition job_protected ::
  "'s redis \<Rightarrow> (string \<Rightarrow> time option) \<Rightarrow> (string \<Rightarrow> 'c option) \<Rightarrow> ('c \<Rightarrow> time \<Rightarrow> time) \<Rightarrow> time \<Rightarrow> string \<Rightarrow> string list \<Rightarrow>
   ('w, 'p) JobController \<Rightarrow> job_route \<Rightarrow> 's job_handler" where
  "job_protected redis parse parse5 next now uuid names ctl rt =
     (case rt of
        RouteEnqueue b \<Rightarrow> ctl_EnqueueJob redis parse now uuid b
      | RouteJob \<Rightarrow> ctl_GetJob redis now
      | RouteCancel \<Rightarrow> ctl_CancelJob redis now
      | RouteRetry \<Rightarrow> ctl_RetryJob redis now
      | RouteDLQ \<Rightarrow> ctl_GetDLQJobs redis now
      | RouteRetryDLQ \<Rightarrow> ctl_RetryDLQJob redis now uuid
      | RoutePurge \<Rightarrow> RequireAdmin now (ctl_PurgeDLQ redis now)
      | _ \<Rightarrow> ctl_GetScheduledJobs parse5 next now names (jct_scheduler ctl))"

definition job_RegisterRoutes ::
  "jwt_lib \<Rightarrow> JWTProvider \<Rightarrow> 's redis \<Rightarrow> (string \<Rightarrow> time option) \<Rightarrow> (string \<Rightarrow> 'c option) \<Rightarrow> ('c \<Rightarrow> time \<Rightarrow> time) \<Rightarrow> time \<Rightarrow>
   string \<Rightarrow> string list \<Rightarrow> ('w, 'p) JobController \<Rightarrow> job_route \<Rightarrow> 's job_handler" where
  "job_RegisterRoutes jl p redis parse parse5 next now uuid names ctl rt =
     (case rt of
        RouteQueues \<Rightarrow> ctl_GetQueueStats redis now names (jct_jobService ctl)
      | RouteDashboard \<Rightarrow> ctl_GetDashboard redis now names (jct_jobService ctl)
      | _ \<Rightarrow> Authenticate jl p now (job_protected redis parse parse5 next now uuid names ctl rt))"

subsection \<open>Properties\<close>

text \<open>When a request asks its job to run.\<close>

definition requested_time :: "(string \<Rightarrow> time option) \<Rightarrow> time \<Rightarrow> EnqueueJobRequest \<Rightarrow> time option" where
  "requested_time parse now req =
     (if ej_ScheduledAt req \<noteq> [] then parse (ej_ScheduledAt req)
      else if ej_DelaySeconds req > 0 then Some (now + seconds (ej_DelaySeconds req)) else None)"

lemma enqueue_options_job:
  assumes "enqueue_options parse now req = Some opts" "ej_UniqueKey req = []"
  shows "\<exists>job. NewJobPayload uuid now (ej_Type req) (Some d) opts = Inr job \<and> jp_ID job = uuid \<and> jp_Type job = ej_Type req
    \<and> jp_Payload job = d \<and> jp_Priority job = parse_priority (ej_Priority req) \<and> jp_UniqueKey job = []
    \<and> jp_ScheduledAt job = requested_time parse now req \<and> jp_Tags job = ej_Tags req
    \<and> jp_CreatedAt job = now \<and> jp_StartedAt job = None \<and> jp_CompletedAt job = None"
  using assms
  by (auto simp: enqueue_options_def Let_def NewJobPayload_def option_defs requested_time_def split: if_splits)

text \<open>
  A request to enqueue a job is carried out: for any Redis that obeys the laws, a well-formed
  request without a unique key is answered with 201 and the identifier of a job that now is in the
  queue of the priority the request names (normal if it names none), or in the schedule if its
  time is in the future, with the type, payload and tags of the request.
\<close>

theorem job_request_is_enqueued:
  assumes "redis_client redis view up" "up s" "ej_Payload req = Some d" "ej_UniqueKey req = []"
    "enqueue_options parse now req \<noteq> None" "time_ok now" "\<And>t. requested_time parse now req = Some t \<Longrightarrow> time_ok t"
  shows "\<exists>job s1. ctl_EnqueueJob redis parse now uuid (Inr req) c s =
        Done (send_JSON 201 (NewSuccess now (Some (DEnqueued uuid ''Job enqueued successfully'')) ''Job enqueued'') c, s1)
    \<and> view s1 = enqueue_view now job (view s)
    \<and> jp_ID job = uuid \<and> jp_Type job = ej_Type req \<and> jp_Payload job = d \<and> jp_Tags job = ej_Tags req
    \<and> jp_Priority job = parse_priority (ej_Priority req) \<and> jp_ScheduledAt job = requested_time parse now req"
proof -
  obtain opts where o: "enqueue_options parse now req = Some opts" using assms(5) by auto
  obtain job where j: "NewJobPayload uuid now (ej_Type req) (Some d) opts = Inr job" "jp_ID job = uuid"
    "jp_Type job = ej_Type req" "jp_Payload job = d" "jp_Priority job = parse_priority (ej_Priority req)"
    "jp_UniqueKey job = []" "jp_ScheduledAt job = requested_time parse now req" "jp_Tags job = ej_Tags req"
    "jp_CreatedAt job = now" "jp_StartedAt job = None" "jp_CompletedAt job = None"
    using enqueue_options_job [OF o assms(4), of uuid d] by blast
  have "times_ok job" using j assms(6, 7)
    by (cases "requested_time parse now req") (simp_all add: times_ok_def)
  from svc_enqueue_effect [OF assms(1, 2) j(1) this j(6)]
  show ?thesis using j o assms(3)
    by (cases "svc_Enqueue redis uuid now (ej_Type req) (Some d) opts s")
       (auto simp: ctl_EnqueueJob_def split: sum.splits)
qed

definition demo_enqueue :: "string \<Rightarrow> int \<Rightarrow> EnqueueJobRequest" where
  "demo_enqueue prio delay = \<lparr>ej_Type = ''mail'', ej_Payload = Some JNull, ej_Priority = prio, ej_ScheduledAt = [],
     ej_DelaySeconds = delay, ej_UniqueKey = [], ej_Tags = []\<rparr>"

definition demo_context :: "'d Context" where
  "demo_context = \<lparr>gc_Method = ''POST'', gc_ReqHeader = (\<lambda>_. []), gc_Param = (\<lambda>_. []), gc_Query = (\<lambda>_. None),
     gc_Keys = Map.empty, gc_Header = Map.empty, gc_Status = 200, gc_Bodies = [], gc_Aborted = False\<rparr>"

theorem job_request_is_enqueued_witness:
  "\<exists>job s1. ctl_EnqueueJob mem_redis (\<lambda>_. None) 0 ''u1'' (Inr (demo_enqueue ''HIGH'' 60)) demo_context mem_empty =
        Done (send_JSON 201 (NewSuccess 0 (Some (DEnqueued ''u1'' ''Job enqueued successfully'')) ''Job enqueued'') demo_context, s1)
    \<and> mem_view s1 = enqueue_view 0 job (mem_view mem_empty) \<and> jp_Priority job = PriorityHigh
    \<and> jp_ScheduledAt job = Some minute"
proof -
  let ?r = "demo_enqueue ''HIGH'' 60"
  have "requested_time (\<lambda>_. None) 0 ?r = Some minute"
    by (simp add: requested_time_def demo_enqueue_def seconds_def wrap_int64_def)
  moreover have "parse_priority ''HIGH'' = PriorityHigh" by code_simp
  moreover have "enqueue_options (\<lambda>_. None) 0 ?r \<noteq> None" by (simp add: enqueue_options_def demo_enqueue_def Let_def)
  moreover have "ej_Payload ?r = Some JNull" "ej_UniqueKey ?r = []" "ej_Priority ?r = ''HIGH''" by (simp_all add: demo_enqueue_def)
  ultimately show ?thesis
    using job_request_is_enqueued [OF mem.redis_client_axioms mem_empty_up, of ?r JNull "\<lambda>_. None" 0 "''u1''" demo_context]
    by (auto simp: time_ok_def)
qed

text \<open>
  A long delay becomes none: the seconds of a request are turned into nanoseconds in 64 bits
  without a check, so a delay between 293 and 584 years (from 9223372037 seconds on) wraps to a
  negative duration and the job goes straight to its queue.
\<close>

theorem huge_delay_runs_at_once:
  assumes "redis_client redis view up" "up s" "ej_Payload req = Some d" "ej_UniqueKey req = []"
    "ej_ScheduledAt req = []" "9223372037 \<le> ej_DelaySeconds req" "ej_DelaySeconds req \<le> 18446744073"
    "time_ok now" "time_ok (now + seconds (ej_DelaySeconds req))"
  shows "\<exists>c1 s1. ctl_EnqueueJob redis parse now uuid (Inr req) c s = Done (c1, s1)
    \<and> rv_list (view s1) (QueueName (parse_priority (ej_Priority req))) =
        uuid # rv_list (view s) (QueueName (parse_priority (ej_Priority req)))
    \<and> rv_zset (view s1) = rv_zset (view s)"
proof -
  let ?n = "ej_DelaySeconds req"
  have "seconds ?n = ?n * second - 2 ^ 64"
  proof -
    have "(?n * second + 2 ^ 63) mod 2 ^ 64 = (?n * second - 2 ^ 63) mod 2 ^ 64"
      using mod_add_self2 [of "?n * second - 2 ^ 63" "2 ^ 64"] by (simp add: algebra_simps)
    also have "\<dots> = ?n * second - 2 ^ 63" using assms(6, 7) by (intro mod_pos_pos_trivial) auto
    finally show ?thesis by (simp add: seconds_def wrap_int64_def)
  qed
  then have neg: "seconds ?n < 0" using assms(7) by simp
  have r: "requested_time parse now req = Some (now + seconds ?n)" using assms(5, 6) by (simp add: requested_time_def)
  have o: "enqueue_options parse now req \<noteq> None" using assms(5, 6) by (simp add: enqueue_options_def Let_def)
  have t: "time_ok t" if "requested_time parse now req = Some t" for t using that r assms(9) by simp
  obtain opts where opts: "enqueue_options parse now req = Some opts" using o by auto
  obtain job where j: "NewJobPayload uuid now (ej_Type req) (Some d) opts = Inr job" "jp_ID job = uuid"
    "jp_Priority job = parse_priority (ej_Priority req)" "jp_UniqueKey job = []"
    "jp_ScheduledAt job = requested_time parse now req" "jp_CreatedAt job = now" "jp_StartedAt job = None" "jp_CompletedAt job = None"
    using enqueue_options_job [OF opts assms(4), of uuid d] by blast
  have "times_ok job" using j assms(8) r t by (auto simp: times_ok_def)
  note e = svc_enqueue_effect [OF assms(1, 2) j(1) this j(4)]
  obtain s1 where s1: "svc_Enqueue redis uuid now (ej_Type req) (Some d) opts s = (Inr uuid, s1)"
    "view s1 = enqueue_view now job (view s)" using e j(2) by (metis prod.collapse)
  have "\<not> due_later now job" using j(5) r neg by (simp add: due_later_def)
  then have "rv_list (view s1) (QueueName (jp_Priority job)) = uuid # rv_list (view s) (QueueName (jp_Priority job))"
    "rv_zset (view s1) = rv_zset (view s)"
    using j(2, 4) by (simp_all add: s1(2) enqueue_view_def view_defs)
  then show ?thesis using s1(1) opts assms(3) j(3) by (simp add: ctl_EnqueueJob_def)
qed

theorem huge_delay_runs_at_once_witness:
  "\<exists>c1 s1. ctl_EnqueueJob mem_redis (\<lambda>_. None) 0 ''u1'' (Inr (demo_enqueue ''low'' 18000000000)) demo_context mem_empty = Done (c1, s1)
    \<and> rv_list (mem_view s1) (QueueName PriorityLow) = [''u1'']"
proof -
  let ?r = "demo_enqueue ''low'' 18000000000"
  have "seconds 18000000000 = - 446744073709551616" by (simp add: seconds_def wrap_int64_def)
  moreover have "parse_priority ''low'' = PriorityLow" by (simp add: parse_priority_def to_lower_def)
  ultimately show ?thesis
    using huge_delay_runs_at_once [OF mem.redis_client_axioms mem_empty_up, of ?r JNull 0 "\<lambda>_. None" "''u1''" demo_context]
    by (auto simp: time_ok_def demo_enqueue_def mem_view_def mem_empty_def)
qed

end
