(* ===== verification/Ssr_Service.thy ===== *)
theory Ssr_Service
  imports Account_Controller
begin

text \<open>
  Server-side rendering: the service of \<^verbatim>\<open>internal/domain/service/impl/ssr_service_impl.go\<close> with its cache and
  counters, and the controller of \<^verbatim>\<open>internal/controller/http/ssr_controller.go\<close>. The properties given to a
  component are of any type \<open>'p\<close>; \<open>None\<close> is a nil map. A rendering reads the clock when it looks into
  the cache (\<open>now\<close>) and when it stores its result (\<open>later\<close>); the time it measured is \<open>took\<close>.
\<close>

subsection \<open>Service\<close>

record 'p SSRRenderResult =
  sr_HTML :: string
  sr_CSS :: string
  sr_Scripts :: "string list"
  sr_State :: "'p option"
  sr_RenderTime :: duration
  sr_Cached :: bool

record 'p SSRCacheEntry =
  ce_Result :: "'p SSRRenderResult"
  ce_ExpiresAt :: time

text \<open>An engine is \<^verbatim>\<open>nil\<close> or answers whether it is ready.\<close>

record 'p ssrService =
  ss_reactEngine :: "bool option"
  ss_angularEngine :: "bool option"
  ss_cache :: "string \<rightharpoonup> 'p SSRCacheEntry"
  ss_cacheEnabled :: bool
  ss_cacheTTL :: duration
  ss_stats :: "string \<rightharpoonup> int"

record SSRStatus =
  st_Status :: string
  st_ReactReady :: bool
  st_AngularReady :: bool
  st_CacheEnabled :: bool
  st_CacheSize :: int
  st_Stats :: "string \<rightharpoonup> int"

definition NewSSRService :: "bool \<Rightarrow> duration \<Rightarrow> 'p ssrService" where
  "NewSSRService cacheEnabled cacheTTL =
     \<lparr>ss_reactEngine = None, ss_angularEngine = None, ss_cache = Map.empty, ss_cacheEnabled = cacheEnabled,
      ss_cacheTTL = cacheTTL,
      ss_stats = [''react_renders'' \<mapsto> 0, ''angular_renders'' \<mapsto> 0, ''cache_hits'' \<mapsto> 0, ''cache_misses'' \<mapsto> 0]\<rparr>"

definition SetReactEngine :: "bool option \<Rightarrow> 'p ssrService \<Rightarrow> 'p ssrService" where
  "SetReactEngine engine s = s\<lparr>ss_reactEngine := engine\<rparr>"

definition SetAngularEngine :: "bool option \<Rightarrow> 'p ssrService \<Rightarrow> 'p ssrService" where
  "SetAngularEngine engine s = s\<lparr>ss_angularEngine := engine\<rparr>"

definition incrementStat :: "string \<Rightarrow> 'p ssrService \<Rightarrow> 'p ssrService" where
  "incrementStat name s =
     s\<lparr>ss_stats := (ss_stats s)(name \<mapsto> (case ss_stats s name of None \<Rightarrow> 0 | Some n \<Rightarrow> n) + 1)\<rparr>"

definition getFromCache :: "time \<Rightarrow> string \<Rightarrow> 'p ssrService \<Rightarrow> 'p SSRRenderResult option" where
  "getFromCache now key s =
     (case ss_cache s key of
        None \<Rightarrow> None
      | Some entry \<Rightarrow> if now > ce_ExpiresAt entry then None
                      else Some ((ce_Result entry)\<lparr>sr_Cached := False\<rparr>))"

definition putInCache :: "time \<Rightarrow> string \<Rightarrow> 'p SSRRenderResult \<Rightarrow> 'p ssrService \<Rightarrow> 'p ssrService" where
  "putInCache now key result s =
     s\<lparr>ss_cache := (ss_cache s)(key \<mapsto> \<lparr>ce_Result = result, ce_ExpiresAt = now + ss_cacheTTL s\<rparr>)\<rparr>"

text \<open>One round of \<^verbatim>\<open>cleanupCache\<close>.\<close>

definition cleanup_round :: "time \<Rightarrow> 'p ssrService \<Rightarrow> 'p ssrService" where
  "cleanup_round now s =
     s\<lparr>ss_cache := (\<lambda>key. case ss_cache s key of
          None \<Rightarrow> None | Some entry \<Rightarrow> if now > ce_ExpiresAt entry then None else Some entry)\<rparr>"

definition toJSON :: "'p option \<Rightarrow> string" where
  "toJSON v = ''{}''"

definition newline :: string where "newline = [CHR 0x0A]"

definition renderPlaceholder :: "string \<Rightarrow> string \<Rightarrow> 'p option \<Rightarrow> string" where
  \<open>renderPlaceholder framework component props =
     ''<div id="ssr-root" data-framework="'' @ framework @ ''" data-component="'' @ component @ ''">'' @ newline @
     ''  <div class="ssr-placeholder">Loading '' @ component @ ''...</div>'' @ newline @
     ''  <script>window.__SSR_STATE__ = '' @ toJSON props @ '';</script>'' @ newline @
     ''</div>''\<close>

definition RenderReact ::
  "time \<Rightarrow> time \<Rightarrow> duration \<Rightarrow> string \<Rightarrow> 'p option \<Rightarrow> 'p ssrService \<Rightarrow> 'p SSRRenderResult \<times> 'p ssrService" where
  "RenderReact now later took component props s =
     (let s1 = incrementStat ''react_renders'' s;
          hit = (if ss_cacheEnabled s1 then getFromCache now (''react:'' @ component) s1 else None)
      in case hit of
           Some result \<Rightarrow> (result\<lparr>sr_Cached := True\<rparr>, incrementStat ''cache_hits'' s1)
         | None \<Rightarrow>
             let s2 = (if ss_cacheEnabled s1 then incrementStat ''cache_misses'' s1 else s1);
                 result = \<lparr>sr_HTML = renderPlaceholder ''react'' component props, sr_CSS = [],
                           sr_Scripts = [''/static/react/bundle.js''], sr_State = props, sr_RenderTime = took,
                           sr_Cached = False\<rparr>
             in (result, if ss_cacheEnabled s2 then putInCache later (''react:'' @ component) result s2 else s2))"

definition RenderAngular ::
  "time \<Rightarrow> time \<Rightarrow> duration \<Rightarrow> string \<Rightarrow> 'p option \<Rightarrow> 'p ssrService \<Rightarrow> 'p SSRRenderResult \<times> 'p ssrService" where
  "RenderAngular now later took component props s =
     (let s1 = incrementStat ''angular_renders'' s;
          hit = (if ss_cacheEnabled s1 then getFromCache now (''angular:'' @ component) s1 else None)
      in case hit of
           Some result \<Rightarrow> (result\<lparr>sr_Cached := True\<rparr>, incrementStat ''cache_hits'' s1)
         | None \<Rightarrow>
             let s2 = (if ss_cacheEnabled s1 then incrementStat ''cache_misses'' s1 else s1);
                 result = \<lparr>sr_HTML = renderPlaceholder ''angular'' component props, sr_CSS = [],
                           sr_Scripts = [''/static/angular/main.js''], sr_State = props, sr_RenderTime = took,
                           sr_Cached = False\<rparr>
             in (result, if ss_cacheEnabled s2 then putInCache later (''angular:'' @ component) result s2 else s2))"

definition ssr_GetStatus :: "'p ssrService \<Rightarrow> SSRStatus" where
  "ssr_GetStatus s =
     \<lparr>st_Status = ''ready'', st_ReactReady = (ss_reactEngine s = Some True), st_AngularReady = (ss_angularEngine s = Some True),
      st_CacheEnabled = ss_cacheEnabled s, st_CacheSize = int (card (dom (ss_cache s))), st_Stats = ss_stats s\<rparr>"

definition ClearCache :: "'p ssrService \<Rightarrow> 'p ssrService" where
  "ClearCache s = s\<lparr>ss_cache := Map.empty\<rparr>"

subsection \<open>Controller\<close>

record 'p RenderResponse =
  rr_HTML :: string
  rr_CSS :: string
  rr_Scripts :: "string list"
  rr_State :: "'p option"
  rr_RenderTime :: int
  rr_Cached :: bool

record 'p RenderRequest =
  rq_Component :: string
  rq_Props :: "'p option"

datatype 'p ssr_data = DRender "'p RenderResponse" | DStatus SSRStatus

type_synonym 'p ssr_handler = "('p ssr_data, 'p ssrService) handler"

definition render_response :: "'p SSRRenderResult \<Rightarrow> 'p RenderResponse" where
  "render_response result =
     \<lparr>rr_HTML = sr_HTML result, rr_CSS = sr_CSS result, rr_Scripts = sr_Scripts result, rr_State = sr_State result,
      rr_RenderTime = go_div (sr_RenderTime result) 1000000, rr_Cached = sr_Cached result\<rparr>"

text \<open>A body that cannot be bound counts as empty. The service never fails, so the error branches of the
  controller are not reached.\<close>

definition ctl_render ::
  "(string \<Rightarrow> 'p option \<Rightarrow> 'p ssrService \<Rightarrow> 'p SSRRenderResult \<times> 'p ssrService) \<Rightarrow> time \<Rightarrow>
   string + 'p RenderRequest \<Rightarrow> 'p ssr_handler" where
  "ctl_render render now bound c s =
     (let component = gc_Param c ''component''
      in if component = [] then Done (send_JSON 400 (NewError now ''component name is required'') c, s)
         else let props = (case bound of Inl _ \<Rightarrow> None | Inr req \<Rightarrow> rq_Props req);
                  (result, s1) = render component props s
              in Done (send_JSON 200 (NewSuccessWithData now (DRender (render_response result))) c, s1))"

definition ctl_RenderReact ::
  "time \<Rightarrow> time \<Rightarrow> duration \<Rightarrow> string + 'p RenderRequest \<Rightarrow> 'p ssr_handler" where
  "ctl_RenderReact now later took = ctl_render (RenderReact now later took) now"

definition ctl_RenderAngular ::
  "time \<Rightarrow> time \<Rightarrow> duration \<Rightarrow> string + 'p RenderRequest \<Rightarrow> 'p ssr_handler" where
  "ctl_RenderAngular now later took = ctl_render (RenderAngular now later took) now"

definition ctl_GetStatus :: "time \<Rightarrow> 'p ssr_handler" where
  "ctl_GetStatus now c s = Done (send_JSON 200 (NewSuccessWithData now (DStatus (ssr_GetStatus s))) c, s)"

definition ctl_ClearCache :: "time \<Rightarrow> 'p ssr_handler" where
  "ctl_ClearCache now c s = Done (send_JSON 200 (NewSuccess now None ''Cache cleared successfully'') c, ClearCache s)"

datatype 'p ssr_route = RouteStatus | RouteReact "string + 'p RenderRequest" | RouteAngular "string + 'p RenderRequest" | RouteClear

fun ssr_RegisterRoutes :: "jwt_lib \<Rightarrow> JWTProvider \<Rightarrow> time \<Rightarrow> time \<Rightarrow> duration \<Rightarrow> 'p ssr_route \<Rightarrow> 'p ssr_handler" where
  "ssr_RegisterRoutes jl p now later took RouteStatus = ctl_GetStatus now"
| "ssr_RegisterRoutes jl p now later took (RouteReact b) = Authenticate jl p now (ctl_RenderReact now later took b)"
| "ssr_RegisterRoutes jl p now later took (RouteAngular b) = Authenticate jl p now (ctl_RenderAngular now later took b)"
| "ssr_RegisterRoutes jl p now later took RouteClear = Authenticate jl p now (RequireAdmin now (ctl_ClearCache now))"

subsection \<open>Runs\<close>

datatype 'p ssr_op =
    OpReact time time duration string "'p option" | OpAngular time time duration string "'p option"
  | OpClear | OpCleanup time | OpEngines "bool option" "bool option"

fun ssr_step :: "'p ssr_op \<Rightarrow> 'p ssrService \<Rightarrow> 'p ssrService" where
  "ssr_step (OpReact now later took c props) s = snd (RenderReact now later took c props s)"
| "ssr_step (OpAngular now later took c props) s = snd (RenderAngular now later took c props s)"
| "ssr_step OpClear s = ClearCache s"
| "ssr_step (OpCleanup now) s = cleanup_round now s"
| "ssr_step (OpEngines r a) s = SetAngularEngine a (SetReactEngine r s)"

text \<open>What a rendering without a cache gives, apart from the state and the time.\<close>

definition same_page :: "string \<Rightarrow> string \<Rightarrow> string \<Rightarrow> 'p SSRRenderResult \<Rightarrow> bool" where
  "same_page framework component script r \<longleftrightarrow>
     sr_HTML r = renderPlaceholder framework component (None :: 'p option) \<and> sr_CSS r = [] \<and> sr_Scripts r = [script]"

definition cache_ok :: "'p ssrService \<Rightarrow> bool" where
  "cache_ok s \<longleftrightarrow> (\<forall>key e. ss_cache s key = Some e \<longrightarrow>
     (\<exists>c. key = ''react:'' @ c \<and> same_page ''react'' c ''/static/react/bundle.js'' (ce_Result e))
   \<or> (\<exists>c. key = ''angular:'' @ c \<and> same_page ''angular'' c ''/static/angular/main.js'' (ce_Result e)))"

text \<open>The counters, and how they add up.\<close>

definition stat :: "'p ssrService \<Rightarrow> string \<Rightarrow> int" where
  "stat s name = (case ss_stats s name of None \<Rightarrow> 0 | Some n \<Rightarrow> n)"

definition stats_ok :: "'p ssrService \<Rightarrow> bool" where
  "stats_ok s \<longleftrightarrow> 0 \<le> stat s ''cache_hits'' \<and> 0 \<le> stat s ''cache_misses''
     \<and> stat s ''cache_hits'' + stat s ''cache_misses'' =
         (if ss_cacheEnabled s then stat s ''react_renders'' + stat s ''angular_renders'' else 0)"

lemma stat_increment [simp]:
  "stat (incrementStat name s) x = (if x = name then stat s x + 1 else stat s x)"
  by (simp add: incrementStat_def stat_def)

lemma ssr_fields [simp]:
  "ss_cache (incrementStat x s) = ss_cache s" "ss_cacheEnabled (incrementStat x s) = ss_cacheEnabled s"
  "ss_cacheTTL (incrementStat x s) = ss_cacheTTL s"
  "ss_cache (putInCache t key r s) = (ss_cache s)(key \<mapsto> \<lparr>ce_Result = r, ce_ExpiresAt = t + ss_cacheTTL s\<rparr>)"
  "ss_cacheEnabled (putInCache t key r s) = ss_cacheEnabled s" "stat (putInCache t key r s) x = stat s x"
  by (simp_all add: incrementStat_def putInCache_def stat_def)

lemma cache_key_disjoint: "''react:'' @ c \<noteq> ''angular:'' @ d"
  by simp

lemma placeholder_props: "renderPlaceholder fw c props = renderPlaceholder fw c (None :: 'p option)"
  by (simp add: renderPlaceholder_def toJSON_def)

lemma cached_page:
  assumes "cache_ok s" "getFromCache now key s = Some r"
  shows "key = ''react:'' @ c \<Longrightarrow> same_page ''react'' c ''/static/react/bundle.js'' r"
    "key = ''angular:'' @ c \<Longrightarrow> same_page ''angular'' c ''/static/angular/main.js'' r"
proof -
  obtain e where e: "ss_cache s key = Some e" "r = (ce_Result e)\<lparr>sr_Cached := False\<rparr>"
    using assms(2) by (auto simp: getFromCache_def split: option.splits if_splits)
  then have page: "(\<exists>c. key = ''react:'' @ c \<and> same_page ''react'' c ''/static/react/bundle.js'' r)
      \<or> (\<exists>c. key = ''angular:'' @ c \<and> same_page ''angular'' c ''/static/angular/main.js'' r)"
    using assms(1) unfolding cache_ok_def by (auto simp: same_page_def)
  then show "key = ''react:'' @ c \<Longrightarrow> same_page ''react'' c ''/static/react/bundle.js'' r"
    "key = ''angular:'' @ c \<Longrightarrow> same_page ''angular'' c ''/static/angular/main.js'' r"
    by auto
qed

lemma cache_ok_put:
  assumes "cache_ok s" "(\<exists>c. key = ''react:'' @ c \<and> same_page ''react'' c ''/static/react/bundle.js'' r)
      \<or> (\<exists>c. key = ''angular:'' @ c \<and> same_page ''angular'' c ''/static/angular/main.js'' r)"
  shows "cache_ok (putInCache t key r s)"
  unfolding cache_ok_def
proof (intro allI impI)
  fix k e
  assume "ss_cache (putInCache t key r s) k = Some e"
  then have "k = key \<and> ce_Result e = r \<or> ss_cache s k = Some e" by (auto split: if_splits)
  then show "(\<exists>c. k = ''react:'' @ c \<and> same_page ''react'' c ''/static/react/bundle.js'' (ce_Result e))
      \<or> (\<exists>c. k = ''angular:'' @ c \<and> same_page ''angular'' c ''/static/angular/main.js'' (ce_Result e))"
    using assms unfolding cache_ok_def by blast
qed

lemma cache_ok_increment [simp]: "cache_ok (incrementStat x s) = cache_ok s"
  by (simp add: cache_ok_def)

lemma fresh_page:
  "same_page fw c script \<lparr>sr_HTML = renderPlaceholder fw c props, sr_CSS = [], sr_Scripts = [script], sr_State = props,
     sr_RenderTime = took, sr_Cached = b\<rparr>"
  by (simp add: same_page_def placeholder_props [of fw c props])

lemma same_page_cached [simp]: "same_page fw c script (r\<lparr>sr_Cached := b\<rparr>) = same_page fw c script r"
  by (simp add: same_page_def)

lemma render_page:
  assumes "cache_ok s"
  shows "same_page ''react'' c ''/static/react/bundle.js'' (fst (RenderReact now later took c props s))"
    "same_page ''angular'' c ''/static/angular/main.js'' (fst (RenderAngular now later took c props s))"
    "cache_ok (snd (RenderReact now later took c props s))" "cache_ok (snd (RenderAngular now later took c props s))"
  using assms cached_page [of "incrementStat ''react_renders'' s" now] cached_page [of "incrementStat ''angular_renders'' s" now]
  by (auto simp: RenderReact_def RenderAngular_def Let_def fresh_page split: option.splits intro!: cache_ok_put)

lemma cache_ok_step: "cache_ok s \<Longrightarrow> cache_ok (ssr_step op s)"
proof (cases op)
  case (OpCleanup now)
  then show "cache_ok s \<Longrightarrow> ?thesis" by (auto simp: cache_ok_def cleanup_round_def split: option.splits if_splits)
qed (auto simp: render_page, auto simp: cache_ok_def ClearCache_def SetAngularEngine_def SetReactEngine_def)

lemma stats_ok_step: "stats_ok s \<Longrightarrow> stats_ok (ssr_step op s) \<and> ss_cacheEnabled (ssr_step op s) = ss_cacheEnabled s"
  by (cases op)
     (auto simp: stats_ok_def RenderReact_def RenderAngular_def Let_def ClearCache_def cleanup_round_def
       SetAngularEngine_def SetReactEngine_def split: option.splits, auto simp: stat_def)

lemma ssr_run:
  "cache_ok (fold ssr_step ops (NewSSRService en ttl)) \<and> stats_ok (fold ssr_step ops (NewSSRService en ttl))
   \<and> ss_cacheEnabled (fold ssr_step ops (NewSSRService en ttl)) = en"
proof -
  have "cache_ok s \<and> stats_ok s \<Longrightarrow> cache_ok (fold ssr_step ops s) \<and> stats_ok (fold ssr_step ops s)
      \<and> ss_cacheEnabled (fold ssr_step ops s) = ss_cacheEnabled s" for s :: "'a ssrService"
    by (induction ops arbitrary: s) (simp_all add: cache_ok_step stats_ok_step)
  moreover have "cache_ok (NewSSRService en ttl)" "stats_ok (NewSSRService en ttl)" "ss_cacheEnabled (NewSSRService en ttl) = en"
    by (simp_all add: cache_ok_def stats_ok_def NewSSRService_def stat_def)
  ultimately show ?thesis by metis
qed

subsection \<open>Properties\<close>

text \<open>
  C19. The cache is transparent for the page: after any sequence of renderings, clean-ups and cache
  clearings a rendering gives the markup, styles and scripts of the uncached rendering of this
  component in this framework, whether it comes from the cache or not.
\<close>

theorem ssr_cache_transparent:
  "same_page ''react'' c ''/static/react/bundle.js''
     (fst (RenderReact now later took c props (fold ssr_step ops (NewSSRService en ttl))))
   \<and> same_page ''angular'' c ''/static/angular/main.js''
     (fst (RenderAngular now later took c props (fold ssr_step ops (NewSSRService en ttl))))"
  by (simp add: render_page ssr_run)

text \<open>
  The counters add up: with the cache enabled every rendering is counted once as a hit or as a
  miss, without it neither is counted.
\<close>

theorem ssr_counters_add_up:
  "stat (fold ssr_step ops (NewSSRService en ttl)) ''cache_hits'' + stat (fold ssr_step ops (NewSSRService en ttl)) ''cache_misses'' =
     (if en then stat (fold ssr_step ops (NewSSRService en ttl)) ''react_renders''
               + stat (fold ssr_step ops (NewSSRService en ttl)) ''angular_renders'' else 0)"
  using ssr_run [of ops en ttl] by (simp add: stats_ok_def)

text \<open>
  The cache gives one caller's state to another: it is looked up by the name of the component
  alone, so until the entry expires every rendering of the component returns the properties the
  first caller sent, whatever the later ones sent.
\<close>

theorem ssr_cache_leaks_state:
  assumes "ss_cacheEnabled s" "getFromCache now (''react:'' @ c) s = None"
    "RenderReact now later took c props s = (r, s1)" "now' \<le> later + ss_cacheTTL s"
  shows "sr_State (fst (RenderReact now' later' took' c props' s1)) = props
    \<and> sr_Cached (fst (RenderReact now' later' took' c props' s1))"
proof -
  have g: "getFromCache now (''react:'' @ c) (incrementStat ''react_renders'' s) = None"
    using assms(2) by (simp add: getFromCache_def)
  have "ss_cacheEnabled s1 \<and> (\<exists>e. ss_cache s1 (''react:'' @ c) = Some e \<and> sr_State (ce_Result e) = props
      \<and> ce_ExpiresAt e = later + ss_cacheTTL s)"
    using assms(1, 3) g by (auto simp: RenderReact_def Let_def)
  then show ?thesis using assms(4)
    by (auto simp: RenderReact_def Let_def getFromCache_def simp del: append.simps)
qed

theorem ssr_cache_leaks_state_witness:
  "sr_State (fst (RenderReact 5 5 0 ''Cart'' (Some ''bob'') (snd (RenderReact 1 2 0 ''Cart'' (Some ''alice'') (NewSSRService True minute)))))
     = Some ''alice''"
proof -
  have "getFromCache 1 (''react:'' @ ''Cart'') (NewSSRService True minute :: string ssrService) = None"
    by (simp add: getFromCache_def NewSSRService_def)
  from ssr_cache_leaks_state [OF _ this surjective_pairing, of 5 2 5 0 "Some ''bob''" 0 "Some ''alice''"]
  show ?thesis by (simp add: NewSSRService_def)
qed

end
