(* ===== verification/Config_Value.thy ===== *)
theory Config_Value
  imports Arcana_Prelude "HOL-Library.Finite_Map"
begin

text \<open>
  The values a configuration is made of, and what \<^verbatim>\<open>internal/configserver\<close> does with them: the deep
  merge of \<^verbatim>\<open>server.go\<close>, the comparison of interface values its client relies on, and what
  \<^verbatim>\<open>encoding/json\<close> makes of a value on its way from the server to the client.

  A Go map with string keys is a finite map; a nil map reads as the empty one. The constructors are
  the dynamic types the YAML and JSON decoders store into an \<^verbatim>\<open>interface{}\<close>: \<open>VAnyMap\<close> is YAML's
  mapping with keys that are not all strings, \<open>VTime\<close> is its time stamp, by the text JSON prints.
\<close>

datatype cfg_value =
    VNil
  | VBool bool
  | VInt int
  | VInt64 int
  | VUint64 int
  | VFloat real
  | VNaN
  | VInf bool
  | VString string
  | VTime string
  | VList "cfg_value list"
  | VMap "(string, cfg_value) fmap"
  | VAnyMap "(cfg_value \<times> cfg_value) list"

type_synonym cfg = "(string, cfg_value) fmap"

definition as_map :: "cfg_value \<Rightarrow> cfg option" where
  "as_map v = (case v of VMap m \<Rightarrow> Some m | _ \<Rightarrow> None)"

lemma as_map_simps [simp]:
  "as_map (VMap m) = Some m"
  "as_map v = Some m \<longleftrightarrow> v = VMap m"
  by (auto simp: as_map_def split: cfg_value.splits)

lemma as_map_None: "as_map v = None \<longleftrightarrow> (\<forall>m. v \<noteq> VMap m)"
  by (auto simp: as_map_def split: cfg_value.splits)

subsection \<open>Deep merge\<close>

lemma fmmap_keys_cong [fundef_cong]:
  assumes "m = n" "\<And>k v. fmlookup n k = Some v \<Longrightarrow> f k v = g k v"
  shows "fmmap_keys f m = fmmap_keys g n"
proof (rule fmap_ext)
  fix k
  show "fmlookup (fmmap_keys f m) k = fmlookup (fmmap_keys g n) k"
    using assms by (cases "fmlookup n k") auto
qed

lemma size_lookup: "fmlookup m k = Some v \<Longrightarrow> size v < size (VMap m)"
proof -
  assume "fmlookup m k = Some v"
  then have "(k, v) \<in> fset (fset_of_fmap m)" by simp
  then have "Suc (case (k, v) of (a, b) \<Rightarrow> 0 + size b) \<le> (\<Sum>x \<in> fset (fset_of_fmap m). Suc (case x of (a, b) \<Rightarrow> 0 + size b))"
    by (intro member_le_sum) auto
  then show ?thesis by (simp add: size_fset_def)
qed

text \<open>
  The second loop of \<^verbatim>\<open>deepMerge\<close> writes each key of \<^verbatim>\<open>override\<close> once, and reads only that key of the result
  before: the entry is the one copied from \<^verbatim>\<open>base\<close>.
\<close>

function deepMerge :: "cfg \<Rightarrow> cfg \<Rightarrow> cfg" where
  "deepMerge base ovr =
     base ++\<^sub>f
     fmmap_keys
       (\<lambda>k v. case fmlookup base k of
                None \<Rightarrow> v
              | Some baseVal \<Rightarrow>
                  (case as_map baseVal of
                     None \<Rightarrow> v
                   | Some baseMap \<Rightarrow>
                       (case as_map v of None \<Rightarrow> v | Some overrideMap \<Rightarrow> VMap (deepMerge baseMap overrideMap))))
       ovr"
  by pat_completeness auto
termination
  by (relation "measure (\<lambda>(base, ovr). size (VMap ovr))") (auto dest!: size_lookup simp del: cfg_value.size)

declare deepMerge.simps [simp del]

text \<open>What the merge leaves under one key.\<close>

definition merge_entry :: "cfg_value option \<Rightarrow> cfg_value \<Rightarrow> cfg_value" where
  "merge_entry b v =
     (case b of
        Some (VMap baseMap) \<Rightarrow> (case v of VMap overrideMap \<Rightarrow> VMap (deepMerge baseMap overrideMap) | _ \<Rightarrow> v)
      | _ \<Rightarrow> v)"

lemma deepMerge_lookup:
  "fmlookup (deepMerge base ovr) k =
     (case fmlookup ovr k of None \<Rightarrow> fmlookup base k | Some v \<Rightarrow> Some (merge_entry (fmlookup base k) v))"
  by (subst deepMerge.simps)
     (auto simp: merge_entry_def as_map_def fmlookup_dom_iff split: option.splits cfg_value.splits)

lemma deepMerge_empty [simp]: "deepMerge fmempty m = m" "deepMerge m fmempty = m"
  by (auto intro!: fmap_ext simp: deepMerge_lookup merge_entry_def split: option.splits)

lemma deepMerge_dom: "fmdom' (deepMerge base ovr) = fmdom' base \<union> fmdom' ovr"
  by (auto simp: fmlookup_dom'_iff deepMerge_lookup split: option.splits)

text \<open>The loop of the source, over the keys of \<^verbatim>\<open>override\<close> in the order the range statement picked.\<close>

definition merge_step :: "cfg \<Rightarrow> string \<Rightarrow> cfg \<Rightarrow> cfg" where
  "merge_step ovr k result =
     (case fmlookup ovr k of None \<Rightarrow> result | Some v \<Rightarrow> fmupd k (merge_entry (fmlookup result k) v) result)"

lemma merge_loop_lookup:
  "distinct ks \<Longrightarrow>
   fmlookup (fold (merge_step ovr) ks result) k =
     (if k \<in> set ks then fmlookup (merge_step ovr k result) k else fmlookup result k)"
proof (induction ks arbitrary: result)
  case (Cons a ks)
  then show ?case by (auto simp: merge_step_def split: option.splits)
qed simp

lemma deepMerge_range:
  assumes "distinct ks" "set ks = fmdom' ovr"
  shows "fold (merge_step ovr) ks base = deepMerge base ovr"
proof (rule fmap_ext)
  fix k
  have "k \<in> set ks \<longleftrightarrow> fmlookup ovr k \<noteq> None" using assms(2) by (auto simp: fmlookup_dom'_iff)
  then show "fmlookup (fold (merge_step ovr) ks base) k = fmlookup (deepMerge base ovr) k"
    using assms(1) by (auto simp: merge_loop_lookup deepMerge_lookup merge_step_def split: option.splits)
qed

lemma deepMerge_self [simp]: "deepMerge m m = m"
proof (induction "size (VMap m)" arbitrary: m rule: less_induct)
  case less
  have "fmlookup (deepMerge m m) k = fmlookup m k" for k
  proof (cases "fmlookup m k")
    case (Some v)
    then show ?thesis
      using less [OF size_lookup [of m k]] by (cases v) (auto simp: deepMerge_lookup merge_entry_def)
  qed (simp add: deepMerge_lookup)
  then show ?case by (intro fmap_ext) auto
qed

subsection \<open>Paths into a configuration\<close>

text \<open>
  The value under a path of keys, and whether a path runs into a value that is not a section:
  the view of a configuration as settings such as \<^verbatim>\<open>database.pool.size\<close>.
\<close>

fun at_path :: "cfg \<Rightarrow> string list \<Rightarrow> cfg_value option" where
  "at_path m [] = Some (VMap m)"
| "at_path m (k # ks) =
     (case fmlookup m k of
        None \<Rightarrow> None
      | Some v \<Rightarrow> (if ks = [] then Some v else case v of VMap n \<Rightarrow> at_path n ks | _ \<Rightarrow> None))"

fun cut_off :: "cfg \<Rightarrow> string list \<Rightarrow> bool" where
  "cut_off m [] = False"
| "cut_off m (k # ks) =
     (case fmlookup m k of
        None \<Rightarrow> False
      | Some v \<Rightarrow> (ks \<noteq> [] \<and> (case v of VMap n \<Rightarrow> cut_off n ks | _ \<Rightarrow> True)))"

text \<open>What the merge of two configurations has under a path, from what each of them has there.\<close>

definition merged_at :: "cfg \<Rightarrow> cfg \<Rightarrow> string list \<Rightarrow> cfg_value option" where
  "merged_at base ovr path =
     (case at_path ovr path of
        Some v \<Rightarrow> Some (merge_entry (at_path base path) v)
      | None \<Rightarrow> if cut_off ovr path then None else at_path base path)"

lemma at_path_Cons_map:
  "fmlookup m k = Some (VMap n) \<Longrightarrow> at_path m (k # ks) = at_path n ks"
  by (cases ks) auto

lemma cut_off_Cons_map: "fmlookup m k = Some (VMap n) \<Longrightarrow> cut_off m (k # ks) = cut_off n ks"
  by (cases ks) auto

lemma merge_entry_other:
  "(\<And>m. b \<noteq> Some (VMap m)) \<Longrightarrow> merge_entry b v = v"
  "(\<And>m. v \<noteq> VMap m) \<Longrightarrow> merge_entry b v = v"
  "merge_entry (Some (VMap x)) (VMap y) = VMap (deepMerge x y)"
  by (auto simp: merge_entry_def split: option.splits cfg_value.splits)

lemma at_path_leaf: "(\<And>n. fmlookup m k \<noteq> Some (VMap n)) \<Longrightarrow> at_path m (k # ks) = (if ks = [] then fmlookup m k else None)"
  by (auto split: option.splits cfg_value.splits)

lemma deepMerge_at_path: "at_path (deepMerge base ovr) path = merged_at base ovr path"
proof (induction path arbitrary: base ovr)
  case Nil
  show ?case by (simp add: merged_at_def merge_entry_def)
next
  case (Cons k ks)
  show ?case
  proof (cases "\<exists>x y. fmlookup base k = Some (VMap x) \<and> fmlookup ovr k = Some (VMap y)")
    case True
    then obtain x y where xy: "fmlookup base k = Some (VMap x)" "fmlookup ovr k = Some (VMap y)" by blast
    then have d: "fmlookup (deepMerge base ovr) k = Some (VMap (deepMerge x y))"
      by (simp add: deepMerge_lookup merge_entry_def)
    show ?thesis
      unfolding merged_at_def at_path_Cons_map [OF d] at_path_Cons_map [OF xy(1)] at_path_Cons_map [OF xy(2)]
        cut_off_Cons_map [OF xy(2)] Cons.IH ..
  next
    case False
    show ?thesis
    proof (cases "fmlookup ovr k")
      case None
      then show ?thesis by (auto simp: merged_at_def deepMerge_lookup)
    next
      case (Some v)
      then have "merge_entry (fmlookup base k) v = v"
        using False by (auto simp: merge_entry_def split: option.splits cfg_value.splits)
      then have d: "fmlookup (deepMerge base ovr) k = Some v" using Some by (simp add: deepMerge_lookup)
      have e: "merge_entry (at_path base (k # ks)) w = w" if "at_path ovr (k # ks) = Some w" for w
        using False Some that
        by (cases "fmlookup base k"; cases v)
           (auto simp: merge_entry_def split: if_splits option.splits cfg_value.splits)
      show ?thesis using False d Some e by (auto simp: merged_at_def split: option.splits cfg_value.splits)
    qed
  qed
qed

subsection \<open>Comparison and JSON\<close>

text \<open>
  \<^verbatim>\<open>v == w\<close> on two interface values: values of different dynamic types differ; two maps or two slices
  make the comparison panic (\<open>None\<close>).
\<close>

fun iface_eq :: "cfg_value \<Rightarrow> cfg_value \<Rightarrow> bool option" where
  "iface_eq VNaN VNaN = Some False"
| "iface_eq (VList xs) (VList ys) = None"
| "iface_eq (VMap m) (VMap n) = None"
| "iface_eq (VAnyMap m) (VAnyMap n) = None"
| "iface_eq v w = Some (v = w)"

text \<open>
  What is read back after a value was printed as JSON: every number is a \<^verbatim>\<open>float64\<close>, a time is a string.
  A value with a part that JSON cannot print makes the encoder fail.
\<close>

primrec json_read :: "cfg_value \<Rightarrow> cfg_value" where
  "json_read VNil = VNil"
| "json_read (VBool b) = VBool b"
| "json_read (VInt n) = VFloat (real_of_int n)"
| "json_read (VInt64 n) = VFloat (real_of_int n)"
| "json_read (VUint64 n) = VFloat (real_of_int n)"
| "json_read (VFloat x) = VFloat x"
| "json_read VNaN = VNaN"
| "json_read (VInf b) = VInf b"
| "json_read (VString s) = VString s"
| "json_read (VTime s) = VString s"
| "json_read (VList xs) = VList (map json_read xs)"
| "json_read (VMap m) = VMap (fmmap json_read m)"
| "json_read (VAnyMap xs) = VAnyMap (map (map_prod json_read json_read) xs)"

primrec json_prints :: "cfg_value \<Rightarrow> bool" where
  "json_prints VNil = True"
| "json_prints (VBool b) = True"
| "json_prints (VInt n) = True"
| "json_prints (VInt64 n) = True"
| "json_prints (VUint64 n) = True"
| "json_prints (VFloat x) = True"
| "json_prints VNaN = False"
| "json_prints (VInf b) = False"
| "json_prints (VString s) = True"
| "json_prints (VTime s) = True"
| "json_prints (VList xs) = list_all id (map json_prints xs)"
| "json_prints (VMap m) = fmpred (\<lambda>_ b. b) (fmmap json_prints m)"
| "json_prints (VAnyMap xs) = False"

text \<open>The values \<^verbatim>\<open>encoding/json\<close> stores into an interface.\<close>

primrec json_native :: "cfg_value \<Rightarrow> bool" where
  "json_native VNil = True"
| "json_native (VBool b) = True"
| "json_native (VInt n) = False"
| "json_native (VInt64 n) = False"
| "json_native (VUint64 n) = False"
| "json_native (VFloat x) = True"
| "json_native VNaN = False"
| "json_native (VInf b) = False"
| "json_native (VString s) = True"
| "json_native (VTime s) = False"
| "json_native (VList xs) = list_all id (map json_native xs)"
| "json_native (VMap m) = fmpred (\<lambda>_ b. b) (fmmap json_native m)"
| "json_native (VAnyMap xs) = False"

lemma json_prints_map: "json_prints (VMap m) \<longleftrightarrow> (\<forall>k v. fmlookup m k = Some v \<longrightarrow> json_prints v)"
  by (auto simp: fmpred_iff)

lemma json_native_map: "json_native (VMap m) \<longleftrightarrow> (\<forall>k v. fmlookup m k = Some v \<longrightarrow> json_native v)"
  by (auto simp: fmpred_iff)

lemma json_read_native: "json_prints v \<Longrightarrow> json_native (json_read v)"
  by (induction v) (auto simp: list_all_iff fmpred_iff fmlookup_ran'_iff)

lemma json_native_read: "json_native v \<Longrightarrow> json_read v = v"
proof (induction v)
  case (VMap m)
  then have "fmmap json_read m = fmmap id m" by (intro fmap.map_cong) (auto simp: fmpred_iff fmlookup_ran'_iff)
  then show ?case by (simp add: fmap.map_id)
qed (auto simp: list_all_iff intro: map_idI)

lemma json_native_prints: "json_native v \<Longrightarrow> json_prints v"
  by (induction v) (auto simp: list_all_iff fmpred_iff fmlookup_ran'_iff)

text \<open>The merge of two configurations that can be printed can be printed.\<close>

lemma deepMerge_prints:
  "json_prints (VMap base) \<Longrightarrow> json_prints (VMap ovr) \<Longrightarrow> json_prints (VMap (deepMerge base ovr))"
proof (induction "size (VMap ovr)" arbitrary: base ovr rule: less_induct)
  case less
  have "json_prints w" if "fmlookup (deepMerge base ovr) k = Some w" for k w
  proof (cases "fmlookup ovr k")
    case None
    then show ?thesis using that less.prems(1) unfolding json_prints_map by (auto simp: deepMerge_lookup)
  next
    case (Some v)
    then have w: "w = merge_entry (fmlookup base k) v" using that by (simp add: deepMerge_lookup)
    have v: "json_prints v" using Some less.prems(2) unfolding json_prints_map by blast
    show ?thesis
    proof (cases "\<exists>x y. fmlookup base k = Some (VMap x) \<and> v = VMap y")
      case True
      then obtain x y where xy: "fmlookup base k = Some (VMap x)" "v = VMap y" by blast
      have "json_prints (VMap x)" using xy(1) iffD1 [OF json_prints_map less.prems(1)] by blast
      then show ?thesis
        using less.hyps [of y x] size_lookup [OF Some] v by (simp add: w xy merge_entry_def)
    next
      case False
      then have "w = v" unfolding w by (auto simp: merge_entry_def split: option.splits cfg_value.splits)
      then show ?thesis using v by simp
    qed
  qed
  then show ?case unfolding json_prints_map by blast
qed

end
