(* ===== verification/Config_Server.thy ===== *)
theory Config_Server
  imports Config_Value File_Path
begin

text \<open>
  The configuration server of \<^verbatim>\<open>internal/configserver/server.go\<close>: it loads the files of a directory, merges a
  profile over the defaults of its application and serves the result over HTTP.

  The directory is a tree, each directory with its entries in the order \<^verbatim>\<open>filepath.Walk\<close> visits them; what
  the file system refuses is part of the tree. The decoders that turn a file into a map
  (\<^verbatim>\<open>gopkg.in/yaml.v3\<close> and \<^verbatim>\<open>encoding/json\<close>) are arguments.
\<close>

subsection \<open>Strings and paths\<close>

fun Split :: "char \<Rightarrow> string \<Rightarrow> string list" where
  "Split sep [] = [[]]"
| "Split sep (c # cs) =
     (if c = sep then [] # Split sep cs
      else case Split sep cs of p # ps \<Rightarrow> (c # p) # ps | [] \<Rightarrow> [[c]])"

fun join_with :: "char \<Rightarrow> string list \<Rightarrow> string" where
  "join_with sep [] = []"
| "join_with sep [p] = p"
| "join_with sep (p # ps) = p @ sep # join_with sep ps"

definition TrimPrefix :: "string \<Rightarrow> string \<Rightarrow> string" where
  "TrimPrefix s pre = (if take (length pre) s = pre then drop (length pre) s else s)"

definition TrimSuffix :: "string \<Rightarrow> string \<Rightarrow> string" where
  "TrimSuffix s suf =
     (if length suf \<le> length s \<and> drop (length s - length suf) s = suf then take (length s - length suf) s else s)"

text \<open>\<^verbatim>\<open>filepath.Base\<close>: the last name of the path, trailing slashes dropped.\<close>

definition Base :: "string \<Rightarrow> string" where
  "Base p = (if p = [] then ''.''
             else let q = rev (dropWhile (\<lambda>c. c = CHR ''/'') (rev p))
                  in if q = [] then ''/'' else last (split_path q))"

subsection \<open>State\<close>

record ConfigServerConfig =
  csc_Enabled :: bool
  csc_Port :: int
  csc_ConfigDir :: string
  csc_RefreshInterval :: duration
  csc_EnableWatch :: bool
  csc_EncryptionKey :: string

definition DefaultConfigServerConfig :: ConfigServerConfig where
  "DefaultConfigServerConfig =
     \<lparr>csc_Enabled = False, csc_Port = 8888, csc_ConfigDir = ''./config-repo'', csc_RefreshInterval = 30 * second,
      csc_EnableWatch = True, csc_EncryptionKey = []\<rparr>"

record ConfigChangeEvent =
  cce_Application :: string
  cce_Profile :: string
  cce_Key :: string
  cce_OldValue :: cfg_value
  cce_NewValue :: cfg_value
  cce_Timestamp :: time

text \<open>A channel of events is what is buffered in it; \<open>cs_watcher\<close> tells whether the field is set.\<close>

record ConfigServer =
  cs_config :: ConfigServerConfig
  cs_configs :: "string \<rightharpoonup> cfg"
  cs_watcher :: bool
  cs_listeners :: "ConfigChangeEvent list list"
  cs_server :: bool

text \<open>Entries of the directory: a file with its content (\<open>None\<close> if reading it fails), a directory, an entry \<^verbatim>\<open>lstat\<close> fails on.\<close>

datatype dir_tree =
    FileEntry "string option"
  | DirEntry "string + (string \<times> dir_tree) list"
  | NoEntry string

datatype file_info = RegularFile "string option" | Directory

record decoders =
  dec_json :: "string \<Rightarrow> cfg option"
  dec_yaml :: "string \<Rightarrow> cfg option"

subsection \<open>Loading\<close>

definition parseConfigFileName :: "string \<Rightarrow> string \<Rightarrow> string \<times> string" where
  "parseConfigFileName path ext =
     (let filename = TrimSuffix (Base path) ext;
          parts = Split (CHR ''-'') filename
      in (hd parts, if length parts > 1 then join_with (CHR ''-'') (tl parts) else ''default''))"

definition readAndParseConfigFile :: "decoders \<Rightarrow> string option \<Rightarrow> string \<Rightarrow> cfg option" where
  "readAndParseConfigFile dec content ext =
     (case content of
        None \<Rightarrow> None
      | Some data \<Rightarrow> if ext = ''.json'' then dec_json dec data else dec_yaml dec data)"

definition config_key :: "string \<Rightarrow> string \<Rightarrow> string" where
  "config_key application profile = application @ CHR ''/'' # profile"

definition processConfigFile ::
  "decoders \<Rightarrow> string \<Rightarrow> file_info option \<Rightarrow> string option \<Rightarrow> ConfigServer \<Rightarrow> string option \<times> ConfigServer" where
  "processConfigFile dec path info err cs =
     (case err of
        Some e \<Rightarrow> (Some e, cs)
      | None \<Rightarrow>
          (case info of
             Some (RegularFile content) \<Rightarrow>
               (let ext = map to_lower (Ext path)
                in if ext \<noteq> ''.yaml'' \<and> ext \<noteq> ''.yml'' \<and> ext \<noteq> ''.json'' then (None, cs)
                   else
                     (let (application, profile) = parseConfigFileName path ext
                      in case readAndParseConfigFile dec content ext of
                           None \<Rightarrow> (None, cs)
                         | Some config \<Rightarrow>
                             (None, cs\<lparr>cs_configs := (cs_configs cs)(config_key application profile \<mapsto> config)\<rparr>)))
           | _ \<Rightarrow> (None, cs)))"

text \<open>\<^verbatim>\<open>filepath.Walk\<close>, for a visitor that never returns \<^verbatim>\<open>SkipDir\<close>.\<close>

fun walk :: "(string \<Rightarrow> file_info option \<Rightarrow> string option \<Rightarrow> 's \<Rightarrow> string option \<times> 's) \<Rightarrow>
             string \<Rightarrow> dir_tree \<Rightarrow> 's \<Rightarrow> string option \<times> 's"
  and walk_names :: "(string \<Rightarrow> file_info option \<Rightarrow> string option \<Rightarrow> 's \<Rightarrow> string option \<times> 's) \<Rightarrow>
             string \<Rightarrow> (string \<times> dir_tree) list \<Rightarrow> 's \<Rightarrow> string option \<times> 's" where
  "walk fn path (NoEntry e) s = fn path None (Some e) s"
| "walk fn path (FileEntry content) s = fn path (Some (RegularFile content)) None s"
| "walk fn path (DirEntry (Inl e)) s = fn path (Some Directory) (Some e) s"
| "walk fn path (DirEntry (Inr names)) s =
     (case fn path (Some Directory) None s of
        (Some e, s1) \<Rightarrow> (Some e, s1)
      | (None, s1) \<Rightarrow> walk_names fn path names s1)"
| "walk_names fn path [] s = (None, s)"
| "walk_names fn path ((name, tree) # rest) s =
     (case walk fn (Join path name) tree s of
        (Some e, s1) \<Rightarrow> (Some e, s1)
      | (None, s1) \<Rightarrow> walk_names fn path rest s1)"

text \<open>
  The configuration directory as \<^verbatim>\<open>os.Stat\<close> finds it: missing, with the error \<^verbatim>\<open>MkdirAll\<close> then returns, or
  there (or unreadable, which the walk reports).
\<close>

datatype config_dir = Missing "string option" | Present dir_tree

definition loadConfigs :: "decoders \<Rightarrow> config_dir \<Rightarrow> ConfigServer \<Rightarrow> string option \<times> ConfigServer" where
  "loadConfigs dec dir cs =
     (case dir of
        Missing (Some e) \<Rightarrow> (Some e, cs)
      | Missing None \<Rightarrow> walk (processConfigFile dec) (csc_ConfigDir (cs_config cs)) (DirEntry (Inr [])) cs
      | Present tree \<Rightarrow> walk (processConfigFile dec) (csc_ConfigDir (cs_config cs)) tree cs)"

text \<open>
  The watcher: \<open>created\<close> tells whether \<^verbatim>\<open>fsnotify.NewWatcher\<close> succeeded, \<open>added\<close> whether the directory could
  be added to it.
\<close>

definition setupWatcher :: "bool \<Rightarrow> bool \<Rightarrow> ConfigServer \<Rightarrow> bool \<times> ConfigServer" where
  "setupWatcher created added cs = (if \<not> created then (False, cs) else (added, cs\<lparr>cs_watcher := True\<rparr>))"

datatype fs_op = OpCreate | OpWrite | OpRemove | OpRename | OpChmod

definition handleWatcherEvent :: "decoders \<Rightarrow> fs_op set \<Rightarrow> config_dir \<Rightarrow> ConfigServer \<Rightarrow> ConfigServer" where
  "handleWatcherEvent dec ops dir cs =
     (if OpWrite \<in> ops \<or> OpCreate \<in> ops then snd (loadConfigs dec dir cs) else cs)"

text \<open>What the watcher's channels deliver, until one of them is closed; errors are only logged.\<close>

datatype watch_message = WatchEvent "fs_op set" config_dir | WatchError | WatchClosed

fun watchConfigChanges :: "decoders \<Rightarrow> watch_message list \<Rightarrow> ConfigServer \<Rightarrow> ConfigServer" where
  "watchConfigChanges dec [] cs = cs"
| "watchConfigChanges dec (WatchEvent ops dir # ms) cs = watchConfigChanges dec ms (handleWatcherEvent dec ops dir cs)"
| "watchConfigChanges dec (WatchError # ms) cs = watchConfigChanges dec ms cs"
| "watchConfigChanges dec (WatchClosed # ms) cs = cs"

definition NewConfigServer ::
  "decoders \<Rightarrow> config_dir \<Rightarrow> bool \<Rightarrow> bool \<Rightarrow> ConfigServerConfig \<Rightarrow> string + ConfigServer" where
  "NewConfigServer dec dir created added config =
     (let cs = \<lparr>cs_config = config, cs_configs = Map.empty, cs_watcher = False, cs_listeners = [], cs_server = False\<rparr>
      in case loadConfigs dec dir cs of
           (Some e, _) \<Rightarrow> Inl (''failed to load configs: '' @ e)
         | (None, cs1) \<Rightarrow> Inr (if csc_EnableWatch config then snd (setupWatcher created added cs1) else cs1))"

subsection \<open>Reading a configuration\<close>

definition mergeWithDefault :: "string \<Rightarrow> cfg \<Rightarrow> ConfigServer \<Rightarrow> cfg" where
  "mergeWithDefault application profileConfig cs =
     (case cs_configs cs (config_key application ''default'') of
        None \<Rightarrow> profileConfig
      | Some defaultConfig \<Rightarrow> deepMerge defaultConfig profileConfig)"

definition GetConfig :: "string \<Rightarrow> string \<Rightarrow> ConfigServer \<Rightarrow> string + cfg" where
  "GetConfig application profile cs =
     (case cs_configs cs (config_key application profile) of
        Some config \<Rightarrow> Inr (mergeWithDefault application config cs)
      | None \<Rightarrow>
          (case cs_configs cs (config_key application ''default'') of
             Some config \<Rightarrow> Inr config
           | None \<Rightarrow> Inl (''configuration not found for '' @ config_key application profile)))"

text \<open>\<^verbatim>\<open>Subscribe\<close> returns the position of the new channel.\<close>

definition Subscribe :: "ConfigServer \<Rightarrow> nat \<times> ConfigServer" where
  "Subscribe cs = (length (cs_listeners cs), cs\<lparr>cs_listeners := cs_listeners cs @ [[]]\<rparr>)"

definition StopServer :: "ConfigServer \<Rightarrow> bool \<times> bool" where
  "StopServer cs = (cs_watcher cs, cs_server cs)"

subsection \<open>HTTP handlers\<close>

text \<open>
  A response: its status and its body, text or JSON (as it is read back), or none, when the encoder
  failed after the handler had nothing left to say.
\<close>

datatype body = TextBody string | JsonBody cfg_value | NoBody

record http_reply =
  hr_Status :: int
  hr_Body :: body

definition http_Error :: "string \<Rightarrow> int \<Rightarrow> http_reply" where
  "http_Error msg status = \<lparr>hr_Status = status, hr_Body = TextBody (msg @ [CHR 0x0A])\<rparr>"

definition encode_json :: "cfg_value \<Rightarrow> http_reply" where
  "encode_json v = \<lparr>hr_Status = 200, hr_Body = (if json_prints v then JsonBody (json_read v) else NoBody)\<rparr>"

definition handleRoot :: http_reply where
  "handleRoot = encode_json (VMap (fmap_of_list
     [(''name'', VString ''Arcana Config Server''), (''version'', VString ''1.0.0'')]))"

definition handleHealth :: http_reply where
  "handleHealth = encode_json (VMap (fmap_of_list [(''status'', VString ''UP'')]))"

definition config_target :: "string \<Rightarrow> string \<times> string" where
  "config_target url_path =
     (let parts = Split (CHR ''/'') (TrimPrefix url_path ''/config/'')
      in (if length parts \<ge> 1 \<and> parts ! 0 \<noteq> [] then parts ! 0 else ''application'',
          if length parts \<ge> 2 \<and> parts ! 1 \<noteq> [] then parts ! 1 else ''default''))"

definition config_document :: "string \<Rightarrow> string \<Rightarrow> cfg \<Rightarrow> cfg_value" where
  "config_document application profile config = VMap (fmap_of_list
     [(''name'', VString application),
      (''profiles'', VList [VString profile]),
      (''propertySources'', VList [VMap (fmap_of_list
         [(''name'', VString (config_key application profile)), (''source'', VMap config)])])])"

definition handleConfig :: "string \<Rightarrow> ConfigServer \<Rightarrow> http_reply" where
  "handleConfig url_path cs =
     (let (application, profile) = config_target url_path
      in case GetConfig application profile cs of
           Inl e \<Rightarrow> http_Error e 404
         | Inr config \<Rightarrow> encode_json (config_document application profile config))"

definition handleRefresh :: "decoders \<Rightarrow> config_dir \<Rightarrow> string \<Rightarrow> ConfigServer \<Rightarrow> http_reply \<times> ConfigServer" where
  "handleRefresh dec dir verb cs =
     (if verb \<noteq> ''POST'' then (http_Error ''Method not allowed'' 405, cs)
      else case loadConfigs dec dir cs of
             (Some e, cs1) \<Rightarrow> (http_Error e 500, cs1)
           | (None, cs1) \<Rightarrow> (encode_json (VMap (fmap_of_list [(''status'', VString ''refreshed'')])), cs1))"

definition handleEncrypt :: "string \<Rightarrow> http_reply" where
  "handleEncrypt verb =
     (if verb \<noteq> ''POST'' then http_Error ''Method not allowed'' 405
      else http_Error ''Encryption not implemented'' 501)"

definition handleDecrypt :: "string \<Rightarrow> http_reply" where
  "handleDecrypt verb =
     (if verb \<noteq> ''POST'' then http_Error ''Method not allowed'' 405
      else http_Error ''Decryption not implemented'' 501)"

text \<open>
  \<^verbatim>\<open>Start\<close> registers the handlers; a request with a clean path goes to the longest pattern that matches,
  and \<^verbatim>\<open>/config\<close> is redirected to \<^verbatim>\<open>/config/\<close>.
\<close>

definition serve :: "decoders \<Rightarrow> config_dir \<Rightarrow> string \<Rightarrow> string \<Rightarrow> ConfigServer \<Rightarrow> http_reply \<times> ConfigServer" where
  "serve dec dir verb url_path cs =
     (if url_path = ''/health'' then (handleHealth, cs)
      else if url_path = ''/refresh'' then handleRefresh dec dir verb cs
      else if url_path = ''/encrypt'' then (handleEncrypt verb, cs)
      else if url_path = ''/decrypt'' then (handleDecrypt verb, cs)
      else if url_path = ''/config'' then (\<lparr>hr_Status = 301, hr_Body = NoBody\<rparr>, cs)
      else if take 8 url_path = ''/config/'' then (handleConfig url_path cs, cs)
      else (handleRoot, cs))"

subsection \<open>File names\<close>

lemma Split_nonempty [simp]: "Split sep s \<noteq> []"
  by (cases s) (auto split: list.splits)

lemma Split_plain: "sep \<notin> set s \<Longrightarrow> Split sep s = [s]"
  by (induction s) auto

lemma Split_append: "Split sep (a @ sep # b) = Split sep a @ Split sep b"
proof (induction a)
  case (Cons c a)
  then show ?case by (cases "Split sep a") auto
qed simp

lemma join_with_Split [simp]: "join_with sep (Split sep s) = s"
proof (induction s)
  case (Cons c s)
  then show ?case by (cases "Split sep s" rule: join_with.cases [of "(sep, _)"]) auto
qed simp

lemma split_path_Split: "split_path s = Split (CHR ''/'') s"
  by (induction s) (auto split: list.splits)

lemma TrimPrefix_append [simp]: "TrimPrefix (pre @ s) pre = s"
  by (simp add: TrimPrefix_def)

lemma TrimSuffix_append [simp]: "TrimSuffix (s @ suf) suf = s"
  by (simp add: TrimSuffix_def)

lemma Base_name:
  assumes "name \<noteq> []" "CHR ''/'' \<notin> set name"
  shows "Base (dir @ CHR ''/'' # name) = name" "Base name = name"
proof -
  have "last name \<noteq> CHR ''/''" using assms by (metis last_in_set)
  then have d: "dropWhile (\<lambda>c. c = CHR ''/'') (rev name @ xs) = rev name @ xs" for xs
    using assms(1) by (cases name rule: rev_cases) auto
  show "Base (dir @ CHR ''/'' # name) = name" "Base name = name"
    using assms d [of "CHR ''/'' # rev dir"] d [of "[]"]
    by (auto simp: Base_def Let_def split_path_append split_path_plain)
qed

lemma Ext_name:
  assumes "CHR ''/'' \<notin> set stem" "CHR ''/'' \<notin> set suf" "CHR ''.'' \<notin> set suf"
  shows "Ext (dir @ CHR ''/'' # stem @ CHR ''.'' # suf) = CHR ''.'' # suf"
    "Ext (stem @ CHR ''.'' # suf) = CHR ''.'' # suf"
  using assms by (auto simp: Ext_def Let_def split_path_append split_path_plain takeWhile_append)

text \<open>The name of a file, as \<^verbatim>\<open>Join\<close> puts it behind its directory.\<close>

definition plain_name :: "string \<Rightarrow> bool" where
  "plain_name f \<longleftrightarrow> f \<noteq> [] \<and> f \<noteq> ''.'' \<and> f \<noteq> ''..'' \<and> CHR ''/'' \<notin> set f"

lemma Join_shape:
  assumes "dir \<noteq> []" "plain_name f"
  shows "Join dir f = f \<or> (\<exists>q. Join dir f = q @ CHR ''/'' # f)"
proof -
  have "Clean (Join dir f) = Join dir f" "path_names (Join dir f) = path_names dir @ [f]"
    using assms by (auto intro!: Join_names simp: plain_name_def)
  then have "Join dir f = render_path (path_rooted (Join dir f)) (path_names dir @ [f])"
    by (simp add: Clean_def)
  moreover have "\<exists>q. CHR ''/'' # join_path (path_names dir @ [f]) = q @ CHR ''/'' # f"
    by (cases "path_names dir = []") (auto simp: join_path_snoc intro: exI [of _ "CHR ''/'' # _"])
  moreover have "join_path (path_names dir @ [f]) = f \<or> (\<exists>q. join_path (path_names dir @ [f]) = q @ CHR ''/'' # f)"
    by (cases "path_names dir = []") (auto simp: join_path_snoc)
  ultimately show ?thesis by (auto simp: render_path_def split: if_splits)
qed

text \<open>The name of the file of an application and a profile.\<close>

definition config_extension :: "string \<Rightarrow> bool" where
  "config_extension ext \<longleftrightarrow> ext = ''.yaml'' \<or> ext = ''.yml'' \<or> ext = ''.json''"

definition config_file_name :: "string \<Rightarrow> string \<Rightarrow> string \<Rightarrow> string" where
  "config_file_name application profile ext = application @ CHR ''-'' # profile @ ext"

lemma config_extension_cases:
  assumes "config_extension ext"
  obtains suf where "ext = CHR ''.'' # suf" "CHR ''/'' \<notin> set suf" "CHR ''.'' \<notin> set suf" "map to_lower ext = ext"
  using assms unfolding config_extension_def
  by (elim disjE; intro that [of "tl ext"]) (auto simp: to_lower_def)

lemma named_file_path:
  assumes "dir \<noteq> []" "config_extension ext" "CHR ''/'' \<notin> set stem" "stem \<noteq> []"
  shows "map to_lower (Ext (Join dir (stem @ ext))) = ext" "Base (Join dir (stem @ ext)) = stem @ ext"
proof -
  obtain suf where ext: "ext = CHR ''.'' # suf" "CHR ''/'' \<notin> set suf" "CHR ''.'' \<notin> set suf" "map to_lower ext = ext"
    using assms(2) by (rule config_extension_cases)
  have n: "plain_name (stem @ ext)"
    using assms ext by (cases stem) (auto simp: plain_name_def config_extension_def)
  have "Ext (Join dir (stem @ ext)) = ext"
    using Join_shape [OF assms(1) n] Ext_name [OF assms(3) ext(2,3)] by (auto simp: ext(1))
  then show "map to_lower (Ext (Join dir (stem @ ext))) = ext" using ext(4) by simp
  show "Base (Join dir (stem @ ext)) = stem @ ext"
    using Join_shape [OF assms(1) n] Base_name [of "stem @ ext"] n by (auto simp: plain_name_def)
qed

lemma parse_named_file:
  assumes "dir \<noteq> []" "config_extension ext" "CHR ''/'' \<notin> set application" "CHR ''-'' \<notin> set application"
    "CHR ''/'' \<notin> set profile"
  shows "parseConfigFileName (Join dir (config_file_name application profile ext)) ext = (application, profile)"
proof -
  have b: "Base (Join dir (config_file_name application profile ext)) = (application @ CHR ''-'' # profile) @ ext"
    using named_file_path(2) [OF assms(1,2), of "application @ CHR ''-'' # profile"] assms
    by (simp add: config_file_name_def)
  have "Split (CHR ''-'') (application @ CHR ''-'' # profile) = application # Split (CHR ''-'') profile"
    using assms(4) by (simp add: Split_append Split_plain)
  then show ?thesis unfolding parseConfigFileName_def b TrimSuffix_append Let_def by simp
qed

lemma parse_default_file:
  assumes "dir \<noteq> []" "config_extension ext" "CHR ''/'' \<notin> set application" "CHR ''-'' \<notin> set application"
    "application \<noteq> []"
  shows "parseConfigFileName (Join dir (application @ ext)) ext = (application, ''default'')"
  unfolding parseConfigFileName_def Let_def named_file_path(2) [OF assms(1-3,5)] TrimSuffix_append
  by (simp add: Split_plain assms(4))

subsection \<open>What a walk loads\<close>

text \<open>The calls of the visitor, in order, and the run of them up to the first error.\<close>

type_synonym visit = "string \<times> file_info option \<times> string option"

fun visits :: "string \<Rightarrow> dir_tree \<Rightarrow> visit list"
  and visits_names :: "string \<Rightarrow> (string \<times> dir_tree) list \<Rightarrow> visit list" where
  "visits path (NoEntry e) = [(path, None, Some e)]"
| "visits path (FileEntry content) = [(path, Some (RegularFile content), None)]"
| "visits path (DirEntry (Inl e)) = [(path, Some Directory, Some e)]"
| "visits path (DirEntry (Inr names)) = (path, Some Directory, None) # visits_names path names"
| "visits_names path [] = []"
| "visits_names path ((name, tree) # rest) = visits (Join path name) tree @ visits_names path rest"

fun run_visits ::
  "(string \<Rightarrow> file_info option \<Rightarrow> string option \<Rightarrow> 's \<Rightarrow> string option \<times> 's) \<Rightarrow> visit list \<Rightarrow> 's \<Rightarrow> string option \<times> 's" where
  "run_visits fn [] s = (None, s)"
| "run_visits fn ((path, info, err) # vs) s =
     (case fn path info err s of (Some e, s1) \<Rightarrow> (Some e, s1) | (None, s1) \<Rightarrow> run_visits fn vs s1)"

lemma run_visits_append:
  "run_visits fn (vs @ ws) s =
     (case run_visits fn vs s of (Some e, s1) \<Rightarrow> (Some e, s1) | (None, s1) \<Rightarrow> run_visits fn ws s1)"
  by (induction vs arbitrary: s) (auto split: prod.splits option.splits)

lemma run_visits_single:
  "(case fn path info err s of (Some e, s1) \<Rightarrow> (Some e, s1) | (None, s1) \<Rightarrow> (None, s1)) = fn path info err s"
  by (auto split: prod.splits option.splits)

lemma walk_visits:
  "walk fn path tree s = run_visits fn (visits path tree) s"
  "walk_names fn path names s = run_visits fn (visits_names path names) s"
  by (induction fn path tree s and fn path names s rule: walk_walk_names.induct)
     (simp_all add: run_visits_append run_visits_single split: prod.splits option.splits)

text \<open>What one visit stores: the key and the configuration of a file that is read and decoded.\<close>

definition file_entry :: "decoders \<Rightarrow> visit \<Rightarrow> (string \<times> cfg) option" where
  "file_entry dec v =
     (case v of
        (path, Some (RegularFile content), None) \<Rightarrow>
          (let ext = map to_lower (Ext path)
           in if config_extension ext
              then map_option (Pair (case_prod config_key (parseConfigFileName path ext)))
                     (readAndParseConfigFile dec content ext)
              else None)
      | _ \<Rightarrow> None)"

definition visit_fails :: "visit \<Rightarrow> bool" where
  "visit_fails v = (snd (snd v) \<noteq> None)"

definition store_entry :: "(string \<times> cfg) option \<Rightarrow> ConfigServer \<Rightarrow> ConfigServer" where
  "store_entry e cs = (case e of None \<Rightarrow> cs | Some (k, m) \<Rightarrow> cs\<lparr>cs_configs := (cs_configs cs)(k \<mapsto> m)\<rparr>)"

lemma processConfigFile_visit:
  "processConfigFile dec path info err cs = (err, store_entry (file_entry dec (path, info, err)) cs)"
  by (auto simp: processConfigFile_def file_entry_def store_entry_def config_extension_def Let_def
      split: option.splits file_info.splits prod.splits)

text \<open>The entries of the files the walk reaches before it fails; of two files with one key the later one counts.\<close>

definition loaded :: "decoders \<Rightarrow> visit list \<Rightarrow> string \<rightharpoonup> cfg" where
  "loaded dec vs = map_of (rev (List.map_filter (file_entry dec) (takeWhile (\<lambda>v. \<not> visit_fails v) vs)))"

definition walk_error :: "visit list \<Rightarrow> string option" where
  "walk_error vs = (case find visit_fails vs of None \<Rightarrow> None | Some v \<Rightarrow> snd (snd v))"

lemma run_load:
  "run_visits (processConfigFile dec) vs cs = (walk_error vs, cs\<lparr>cs_configs := cs_configs cs ++ loaded dec vs\<rparr>)"
proof (induction vs arbitrary: cs)
  case Nil
  show ?case by (simp add: walk_error_def loaded_def List.map_filter_def)
next
  case (Cons v vs)
  obtain path info err where v: "v = (path, info, err)" by (metis prod_cases3)
  show ?case
  proof (cases err)
    case None
    then show ?thesis
      using v Cons.IH [of "store_entry (file_entry dec v) cs"]
      by (auto simp: processConfigFile_visit walk_error_def loaded_def visit_fails_def store_entry_def
          map_filter_simps map_add_upd_left split: option.splits)
  next
    case (Some e)
    then have "file_entry dec v = None" by (auto simp: v file_entry_def split: option.splits file_info.splits)
    then show ?thesis
      using Some v by (simp add: processConfigFile_visit walk_error_def loaded_def visit_fails_def store_entry_def List.map_filter_def)
  qed
qed

definition dir_visits :: "string \<Rightarrow> config_dir \<Rightarrow> visit list" where
  "dir_visits path dir =
     (case dir of Missing (Some e) \<Rightarrow> [(path, None, Some e)]
      | Missing None \<Rightarrow> [(path, Some Directory, None)]
      | Present tree \<Rightarrow> visits path tree)"

lemma loadConfigs_spec:
  "loadConfigs dec dir cs =
     (let vs = dir_visits (csc_ConfigDir (cs_config cs)) dir
      in (walk_error vs, cs\<lparr>cs_configs := cs_configs cs ++ loaded dec vs\<rparr>))"
proof -
  let ?d = "csc_ConfigDir (cs_config cs)"
  have e: "loaded dec [(?d, Some Directory, None)] = Map.empty" "loaded dec [(?d, None, Some e)] = Map.empty" for e
    by (simp_all add: loaded_def visit_fails_def file_entry_def List.map_filter_def)
  show ?thesis
    by (auto simp: loadConfigs_def dir_visits_def Let_def walk_visits(1) run_load walk_error_def visit_fails_def e
        processConfigFile_visit file_entry_def store_entry_def simp del: walk.simps
        split: config_dir.splits option.splits)
qed

lemma config_key_inj:
  assumes "CHR ''/'' \<notin> set a" "CHR ''/'' \<notin> set a'" "config_key a p = config_key a' p'"
  shows "a = a' \<and> p = p'"
proof -
  have t: "takeWhile (\<lambda>c. c \<noteq> CHR ''/'') (config_key b q) = b" if "CHR ''/'' \<notin> set b" for b q
    using that by (auto simp: config_key_def takeWhile_append)
  have "a = a'" using t [OF assms(1), of p] t [OF assms(2), of p'] assms(3) by simp
  then show ?thesis using assms(3) by (simp add: config_key_def)
qed

subsection \<open>What the server answers\<close>

text \<open>
  The settings of an application under a profile, from the configurations of the files: those of the
  profile over those of the default profile.
\<close>

definition settings_of :: "(string \<rightharpoonup> cfg) \<Rightarrow> string \<Rightarrow> string \<Rightarrow> (string list \<Rightarrow> cfg_value option) option" where
  "settings_of files application profile =
     (case (files (config_key application profile), files (config_key application ''default'')) of
        (Some p, d) \<Rightarrow> Some (merged_at (case d of None \<Rightarrow> fmempty | Some b \<Rightarrow> b) p)
      | (None, Some d) \<Rightarrow> Some (at_path d)
      | (None, None) \<Rightarrow> None)"

definition answered :: "string + cfg \<Rightarrow> (string list \<Rightarrow> cfg_value option) option" where
  "answered r = (case r of Inl e \<Rightarrow> None | Inr m \<Rightarrow> Some (at_path m))"

lemma merged_at_deepMerge: "merged_at base ovr = at_path (deepMerge base ovr)"
  by (rule ext) (simp add: deepMerge_at_path)

lemma GetConfig_settings: "answered (GetConfig application profile cs) = settings_of (cs_configs cs) application profile"
  by (auto simp: answered_def GetConfig_def settings_of_def mergeWithDefault_def merged_at_deepMerge split: option.splits)

lemma NewConfigServer_configs:
  assumes "NewConfigServer dec dir created added config = Inr cs"
  shows "cs_configs cs = loaded dec (dir_visits (csc_ConfigDir config) dir)" "cs_config cs = config"
    "walk_error (dir_visits (csc_ConfigDir config) dir) = None"
  using assms
  by (auto simp: NewConfigServer_def loadConfigs_spec Let_def setupWatcher_def split: option.splits if_splits)

lemma loaded_entry:
  assumes "loaded dec vs key = Some m"
  obtains v where "v \<in> set vs" "file_entry dec v = Some (key, m)"
proof -
  have "(key, m) \<in> set (List.map_filter (file_entry dec) (takeWhile (\<lambda>v. \<not> visit_fails v) vs))"
    using assms map_of_SomeD unfolding loaded_def by fastforce
  then obtain v where "v \<in> set (takeWhile (\<lambda>v. \<not> visit_fails v) vs)" "file_entry dec v = Some (key, m)"
    by (auto simp: List.map_filter_def)
  then show ?thesis using that [of v] set_takeWhileD [of v] by blast
qed

lemma Split_hd_no_sep: "sep \<notin> set (hd (Split sep s))"
proof (induction s)
  case (Cons c s)
  then show ?case by (cases "Split sep s") auto
qed simp

lemma entry_no_dash:
  assumes "file_entry dec v = Some (config_key application profile, m)" "CHR ''/'' \<notin> set application"
  shows "CHR ''-'' \<notin> set application"
proof -
  from assms(1) obtain path ext a p where
    ap: "parseConfigFileName path ext = (a, p)" and k: "config_key application profile = config_key a p"
    by (auto simp: file_entry_def Let_def split: prod.splits option.splits file_info.splits if_splits)
  then have a: "CHR ''-'' \<notin> set a" using Split_hd_no_sep by (auto simp: parseConfigFileName_def Let_def)
  have "takeWhile (\<lambda>c. c \<noteq> CHR ''/'') (config_key application profile) = application"
    using assms(2) by (auto simp: config_key_def takeWhile_append)
  moreover have "set (takeWhile (\<lambda>c. c \<noteq> CHR ''/'') (config_key a p)) \<subseteq> set a"
    by (auto simp: config_key_def takeWhile_append dest: set_takeWhileD)
  ultimately show ?thesis using k a by auto
qed

text \<open>
  C29. Precedence. A server started on a directory answers, for every application and profile, with
  exactly the settings its files give: a file of the profile overrides the default profile of the
  application setting by setting at every depth (a section is merged, anything else replaced), the
  default profile alone answers for a profile without a file, and without either there is an error.
  Of two files for one profile the later in the walk counts, and a file that cannot be read or
  decoded counts as missing.
\<close>

theorem server_serves_its_files:
  assumes "NewConfigServer dec dir created added config = Inr cs"
  shows "answered (GetConfig application profile cs) =
           settings_of (loaded dec (dir_visits (csc_ConfigDir config) dir)) application profile"
  by (simp add: GetConfig_settings NewConfigServer_configs [OF assms])

text \<open>A directory with a default and a production profile; the decoder knows the two contents.\<close>

definition demo_default :: cfg where
  "demo_default = fmap_of_list
     [(''name'', VString ''shop''), (''db'', VMap (fmap_of_list [(''host'', VString ''localhost''), (''port'', VInt 3306)]))]"

definition demo_prod :: cfg where
  "demo_prod = fmap_of_list [(''db'', VMap (fmap_of_list [(''host'', VString ''db1'')]))]"

definition demo_decoders :: decoders where
  "demo_decoders = \<lparr>dec_json = (\<lambda>s. None),
     dec_yaml = (\<lambda>s. if s = ''D'' then Some demo_default else if s = ''P'' then Some demo_prod else None)\<rparr>"

definition demo_tree :: dir_tree where
  "demo_tree = DirEntry (Inr
     [(''app-prod.yaml'', FileEntry (Some ''P'')), (''app.yaml'', FileEntry (Some ''D'')),
      (''notes.txt'', FileEntry (Some ''x''))])"

definition demo_dir_config :: ConfigServerConfig where
  "demo_dir_config = DefaultConfigServerConfig\<lparr>csc_ConfigDir := ''repo''\<rparr>"

definition demo_configs :: "string \<rightharpoonup> cfg" where
  "demo_configs = [''app/prod'' \<mapsto> demo_prod, ''app/default'' \<mapsto> demo_default]"

lemma demo_visits:
  "dir_visits ''repo'' (Present demo_tree) =
     [(''repo'', Some Directory, None), (''repo/app-prod.yaml'', Some (RegularFile (Some ''P'')), None),
      (''repo/app.yaml'', Some (RegularFile (Some ''D'')), None),
      (''repo/notes.txt'', Some (RegularFile (Some ''x'')), None)]"
  by code_simp

lemma demo_entries:
  "file_entry demo_decoders (''repo'', Some Directory, None) = None"
  "file_entry demo_decoders (''repo/app-prod.yaml'', Some (RegularFile (Some ''P'')), None) = Some (''app/prod'', demo_prod)"
  "file_entry demo_decoders (''repo/app.yaml'', Some (RegularFile (Some ''D'')), None) = Some (''app/default'', demo_default)"
  "file_entry demo_decoders (''repo/notes.txt'', Some (RegularFile (Some ''x'')), None) = None"
proof -
  have e: "map to_lower (Ext ''repo/app-prod.yaml'') = ''.yaml''" "map to_lower (Ext ''repo/app.yaml'') = ''.yaml''"
    "map to_lower (Ext ''repo/notes.txt'') = ''.txt''"
    "parseConfigFileName ''repo/app-prod.yaml'' ''.yaml'' = (''app'', ''prod'')"
    "parseConfigFileName ''repo/app.yaml'' ''.yaml'' = (''app'', ''default'')"
    by code_simp+
  show "file_entry demo_decoders (''repo'', Some Directory, None) = None"
  "file_entry demo_decoders (''repo/app-prod.yaml'', Some (RegularFile (Some ''P'')), None) = Some (''app/prod'', demo_prod)"
  "file_entry demo_decoders (''repo/app.yaml'', Some (RegularFile (Some ''D'')), None) = Some (''app/default'', demo_default)"
  "file_entry demo_decoders (''repo/notes.txt'', Some (RegularFile (Some ''x'')), None) = None"
    unfolding file_entry_def
    by (simp_all add: e Let_def config_extension_def readAndParseConfigFile_def demo_decoders_def config_key_def)
qed

lemma demo_loaded: "loaded demo_decoders (dir_visits ''repo'' (Present demo_tree)) = demo_configs"
  unfolding loaded_def demo_visits
  by (simp add: visit_fails_def map_filter_simps demo_entries demo_configs_def fun_upd_twist)

definition demo_server :: ConfigServer where
  "demo_server = \<lparr>cs_config = demo_dir_config, cs_configs = demo_configs, cs_watcher = True, cs_listeners = [], cs_server = False\<rparr>"

lemma demo_server_new: "NewConfigServer demo_decoders (Present demo_tree) True True demo_dir_config = Inr demo_server"
proof -
  have d: "csc_ConfigDir demo_dir_config = ''repo''" "csc_EnableWatch demo_dir_config"
    by (simp_all add: demo_dir_config_def DefaultConfigServerConfig_def)
  have "walk_error (dir_visits ''repo'' (Present demo_tree)) = None"
    unfolding demo_visits by (simp add: walk_error_def visit_fails_def)
  then show ?thesis
    by (simp add: NewConfigServer_def loadConfigs_spec Let_def d demo_loaded setupWatcher_def demo_server_def)
qed

theorem server_serves_its_files_witness:
  "map_option (\<lambda>s. (s [''db'', ''host''], s [''db'', ''port''], s [''name''], s [''db'', ''name'']))
     (answered (GetConfig ''app'' ''prod'' demo_server)) =
   Some (Some (VString ''db1''), Some (VInt 3306), Some (VString ''shop''), None)"
proof -
  have d: "csc_ConfigDir demo_dir_config = ''repo''"
    by (simp add: demo_dir_config_def)
  show ?thesis
    unfolding server_serves_its_files [OF demo_server_new, of "''app''" "''prod''"] d demo_loaded
    by (simp add: settings_of_def demo_configs_def config_key_def merged_at_def demo_default_def demo_prod_def merge_entry_def)
qed

subsection \<open>Where the server falls short\<close>

text \<open>Nothing is removed from the table: a configuration that was loaded once is found for ever.\<close>

lemma reload_keeps:
  assumes "cs_configs cs key \<noteq> None"
  shows "cs_configs (snd (loadConfigs dec dir cs)) key \<noteq> None"
  using assms by (auto simp: loadConfigs_spec Let_def map_add_def split: option.splits)

lemma watch_keeps:
  assumes "cs_configs cs key \<noteq> None"
  shows "cs_configs (watchConfigChanges dec ms cs) key \<noteq> None"
  using assms
  by (induction dec ms cs rule: watchConfigChanges.induct)
     (simp_all add: handleWatcherEvent_def reload_keeps del: not_None_eq)

text \<open>
  Files that are gone. After a file is removed from the directory, a refresh answers 200 and the
  server goes on serving what the file said, where a server started on the same directory would not
  find the configuration: the table is never cleared, and the watcher ignores removals anyway.
\<close>

theorem deleted_file_is_still_served:
  assumes "NewConfigServer dec dir True True config = Inr cs" "GetConfig application profile cs = Inr m"
    and "walk_error (dir_visits (csc_ConfigDir config) dir') = None"
    and "loaded dec (dir_visits (csc_ConfigDir config) dir') = Map.empty"
  shows "hr_Status (fst (handleRefresh dec dir' ''POST'' cs)) = 200
    \<and> GetConfig application profile (snd (handleRefresh dec dir' ''POST'' cs)) = Inr m
    \<and> (\<exists>fresh. NewConfigServer dec dir' True True config = Inr fresh \<and> isl (GetConfig application profile fresh))"
proof -
  have c: "cs_config cs = config" using NewConfigServer_configs [OF assms(1)] by blast
  have l: "loadConfigs dec dir' cs = (None, cs)"
    using assms(3,4) by (simp add: loadConfigs_spec Let_def c)
  obtain fresh where f: "NewConfigServer dec dir' True True config = Inr fresh"
    using assms(3) by (simp add: NewConfigServer_def loadConfigs_spec Let_def)
  then have "cs_configs fresh = Map.empty" using NewConfigServer_configs(1) [OF f] assms(4) by simp
  then show ?thesis using assms(2) f l by (simp add: handleRefresh_def encode_json_def GetConfig_def)
qed

theorem deleted_file_is_still_served_witness:
  "\<exists>m. GetConfig ''app'' ''prod'' (snd (handleRefresh demo_decoders (Present (DirEntry (Inr []))) ''POST'' demo_server)) = Inr m"
proof -
  have "GetConfig ''app'' ''prod'' demo_server = Inr (deepMerge demo_default demo_prod)"
    by (simp add: GetConfig_def mergeWithDefault_def demo_server_def demo_configs_def config_key_def)
  moreover have "walk_error (dir_visits (csc_ConfigDir demo_dir_config) (Present (DirEntry (Inr [])))) = None"
    "loaded demo_decoders (dir_visits (csc_ConfigDir demo_dir_config) (Present (DirEntry (Inr [])))) = Map.empty"
    by (simp_all add: dir_visits_def walk_error_def visit_fails_def loaded_def file_entry_def List.map_filter_def)
  ultimately show ?thesis
    using deleted_file_is_still_served [OF demo_server_new] by blast
qed

text \<open>
  Names with a hyphen. No file name gives an application whose name has a hyphen in it: the part
  behind the first hyphen is the profile. A server started on whatever directory does not find the
  configuration of such an application under any profile.
\<close>

theorem hyphenated_application_is_never_found:
  assumes "NewConfigServer dec dir created added config = Inr cs"
    and "CHR ''-'' \<in> set application" "CHR ''/'' \<notin> set application"
  shows "GetConfig application profile cs = Inl (''configuration not found for '' @ config_key application profile)"
proof -
  have "cs_configs cs (config_key application p) = None" for p
  proof (rule ccontr)
    assume "cs_configs cs (config_key application p) \<noteq> None"
    then obtain m where "loaded dec (dir_visits (csc_ConfigDir config) dir) (config_key application p) = Some m"
      using NewConfigServer_configs(1) [OF assms(1)] by auto
    then show False by (rule loaded_entry) (use entry_no_dash assms(2,3) in blast)
  qed
  then show ?thesis by (simp add: GetConfig_def)
qed

theorem hyphenated_application_is_never_found_witness:
  "isl (GetConfig ''user-service'' ''prod'' demo_server)"
  by (simp add: hyphenated_application_is_never_found [OF demo_server_new])

lemma json_prints_of_list:
  "distinct (map fst kvs) \<Longrightarrow> json_prints (VMap (fmap_of_list kvs)) \<longleftrightarrow> (\<forall>(k, v) \<in> set kvs. json_prints v)"
  unfolding json_prints_map fmlookup_of_list by (auto simp: map_of_eq_Some_iff)

lemma config_document_prints: "json_prints (config_document application profile m) \<longleftrightarrow> json_prints (VMap m)"
  unfolding config_document_def
  by (simp add: json_prints_of_list del: json_prints.simps(12) fmap_of_list_simps)

text \<open>
  A configuration JSON cannot print (a YAML mapping with a key that is not a string, \<^verbatim>\<open>.nan\<close>) is answered with
  status 200 and no body.
\<close>

lemma unprintable_config_answers_nothing:
  assumes "GetConfig application profile cs = Inr m" "\<not> json_prints (VMap m)" "config_target url_path = (application, profile)"
  shows "handleConfig url_path cs = \<lparr>hr_Status = 200, hr_Body = NoBody\<rparr>"
proof -
  have "\<not> json_prints (config_document application profile m)" using assms(2) by (simp add: config_document_prints)
  then show ?thesis using assms(1,3) by (simp add: handleConfig_def encode_json_def)
qed

end
