(* ===== verification/Config_Client.thy ===== *)
theory Config_Client
  imports Config_Server
begin

text \<open>
  The client of \<^verbatim>\<open>internal/configserver/client.go\<close>: it fetches its configuration from the server with retries,
  caches it, tells its listeners about changes and refreshes it periodically.

  What the HTTP client returns for the \<open>i\<close>-th request of a call is an argument (\<open>get\<close>), and so is the
  order \<open>ks\<close> in which a range statement visits the keys of a map. A listener is of any type \<open>'l\<close>; the
  goroutines started for them are the list of listeners with what they are given. A panic is \<open>None\<close>.
\<close>

record ConfigClientConfig =
  ccc_Enabled :: bool
  ccc_ServerURL :: string
  ccc_Application :: string
  ccc_Profile :: string
  ccc_FailFast :: bool
  ccc_RetryCount :: int
  ccc_RetryInterval :: duration
  ccc_RefreshInterval :: duration
  ccc_Timeout :: duration

definition DefaultConfigClientConfig :: ConfigClientConfig where
  "DefaultConfigClientConfig =
     \<lparr>ccc_Enabled = False, ccc_ServerURL = ''http://localhost:8888'', ccc_Application = ''application'',
      ccc_Profile = ''default'', ccc_FailFast = False, ccc_RetryCount = 3, ccc_RetryInterval = second,
      ccc_RefreshInterval = 30 * second, ccc_Timeout = 5 * second\<rparr>"

record PropertySource =
  ps_Name :: string
  ps_Source :: cfg

record ConfigResponse =
  cr_Name :: string
  cr_Profiles :: "string list"
  cr_PropertySources :: "PropertySource list"

text \<open>\<open>cc_loops\<close> counts the refresh goroutines; \<open>cc_stopped\<close> tells whether \<^verbatim>\<open>stopCh\<close> is closed.\<close>

record 'l ConfigClient =
  cc_config :: ConfigClientConfig
  cc_cache :: cfg
  cc_stopped :: bool
  cc_loops :: nat
  cc_listeners :: "'l list"

datatype client_error = RequestErr string | StatusErr int body | DecodeErr | RefreshErr body

subsection \<open>Decoding a response\<close>

text \<open>
  \<^verbatim>\<open>json.Decoder\<close> on the structs above: a missing or null field keeps its zero value, a value of the wrong
  type is an error. The fields are looked up by their exact names.
\<close>

definition str_field :: "cfg \<Rightarrow> string \<Rightarrow> string option" where
  "str_field m k = (case fmlookup m k of None \<Rightarrow> Some [] | Some VNil \<Rightarrow> Some [] | Some (VString s) \<Rightarrow> Some s | _ \<Rightarrow> None)"

definition map_field :: "cfg \<Rightarrow> string \<Rightarrow> cfg option" where
  "map_field m k = (case fmlookup m k of None \<Rightarrow> Some fmempty | Some VNil \<Rightarrow> Some fmempty | Some (VMap n) \<Rightarrow> Some n | _ \<Rightarrow> None)"

definition list_field :: "cfg \<Rightarrow> string \<Rightarrow> cfg_value list option" where
  "list_field m k = (case fmlookup m k of None \<Rightarrow> Some [] | Some VNil \<Rightarrow> Some [] | Some (VList xs) \<Rightarrow> Some xs | _ \<Rightarrow> None)"

definition decode_string :: "cfg_value \<Rightarrow> string option" where
  "decode_string v = (case v of VNil \<Rightarrow> Some [] | VString s \<Rightarrow> Some s | _ \<Rightarrow> None)"

definition decode_source :: "cfg_value \<Rightarrow> PropertySource option" where
  "decode_source v =
     (case v of
        VNil \<Rightarrow> Some \<lparr>ps_Name = [], ps_Source = fmempty\<rparr>
      | VMap m \<Rightarrow>
          (case (str_field m ''name'', map_field m ''source'') of
             (Some n, Some src) \<Rightarrow> Some \<lparr>ps_Name = n, ps_Source = src\<rparr>
           | _ \<Rightarrow> None)
      | _ \<Rightarrow> None)"

definition decode_response :: "body \<Rightarrow> ConfigResponse option" where
  "decode_response b =
     (case b of
        JsonBody VNil \<Rightarrow> Some \<lparr>cr_Name = [], cr_Profiles = [], cr_PropertySources = []\<rparr>
      | JsonBody (VMap m) \<Rightarrow>
          (case (str_field m ''name'',
                 Option.bind (list_field m ''profiles'') (those \<circ> map decode_string),
                 Option.bind (list_field m ''propertySources'') (those \<circ> map decode_source)) of
             (Some n, Some ps, Some srcs) \<Rightarrow> Some \<lparr>cr_Name = n, cr_Profiles = ps, cr_PropertySources = srcs\<rparr>
           | _ \<Rightarrow> None)
      | _ \<Rightarrow> None)"

subsection \<open>Fetching\<close>

definition mergePropertySources :: "PropertySource list \<Rightarrow> cfg" where
  "mergePropertySources sources = fold (\<lambda>src merged. merged ++\<^sub>f ps_Source src) (rev sources) fmempty"

text \<open>The loop of \<^verbatim>\<open>configEqual\<close> over the keys \<open>ks\<close> of the first map.\<close>

fun equal_loop :: "string list \<Rightarrow> cfg \<Rightarrow> cfg \<Rightarrow> bool option" where
  "equal_loop [] a b = Some True"
| "equal_loop (k # ks) a b =
     (case fmlookup a k of
        None \<Rightarrow> equal_loop ks a b
      | Some v \<Rightarrow>
          (case fmlookup b k of
             None \<Rightarrow> Some False
           | Some bv \<Rightarrow>
               (case iface_eq v bv of
                  None \<Rightarrow> None
                | Some True \<Rightarrow> equal_loop ks a b
                | Some False \<Rightarrow> Some False)))"

definition configEqual :: "string list \<Rightarrow> cfg \<Rightarrow> cfg \<Rightarrow> bool option" where
  "configEqual ks a b = (if fcard (fmdom a) \<noteq> fcard (fmdom b) then Some False else equal_loop ks a b)"

definition notifyListeners :: "cfg \<Rightarrow> 'l ConfigClient \<Rightarrow> ('l \<times> cfg) list" where
  "notifyListeners config c = map (\<lambda>listener. (listener, config)) (cc_listeners c)"

definition updateCache :: "string list \<Rightarrow> cfg \<Rightarrow> 'l ConfigClient \<Rightarrow> ('l \<times> cfg) list option \<times> 'l ConfigClient" where
  "updateCache ks newConfig c =
     (let oldConfig = cc_cache c;
          c1 = c\<lparr>cc_cache := newConfig\<rparr>
      in (case configEqual ks oldConfig newConfig of
            None \<Rightarrow> None
          | Some same \<Rightarrow> Some (if same then [] else notifyListeners newConfig c1), c1))"

type_synonym 'l fetched = "(client_error option \<times> ('l \<times> cfg) list) option \<times> 'l ConfigClient"

definition fetchConfigOnce :: "string + http_reply \<Rightarrow> string list \<Rightarrow> 'l ConfigClient \<Rightarrow> 'l fetched" where
  "fetchConfigOnce answer ks c =
     (case answer of
        Inl e \<Rightarrow> (Some (Some (RequestErr e), []), c)
      | Inr resp \<Rightarrow>
          if hr_Status resp \<noteq> 200 then (Some (Some (StatusErr (hr_Status resp) (hr_Body resp)), []), c)
          else case decode_response (hr_Body resp) of
                 None \<Rightarrow> (Some (Some DecodeErr, []), c)
               | Some configResp \<Rightarrow>
                   (case updateCache ks (mergePropertySources (cr_PropertySources configResp)) c of
                      (None, c1) \<Rightarrow> (None, c1)
                    | (Some started, c1) \<Rightarrow> (Some (None, started), c1)))"

definition fetch_path :: "ConfigClientConfig \<Rightarrow> string" where
  "fetch_path config = ''/config/'' @ ccc_Application config @ ''/'' @ ccc_Profile config"

definition fetch_url :: "ConfigClientConfig \<Rightarrow> string" where
  "fetch_url config = ccc_ServerURL config @ fetch_path config"

lemma fetchConfigOnce_error:
  assumes "fetchConfigOnce answer ks c = (Some (Some err, started), c1)"
  shows "c1 = c" "started = []"
  using assms by (auto simp: fetchConfigOnce_def split: sum.splits if_splits option.splits prod.splits)

text \<open>
  The loop of \<^verbatim>\<open>fetchConfig\<close> with its counter \<open>i\<close>; the first component is the time slept. The counter stays
  below the largest \<^verbatim>\<open>int\<close> (the loop would wrap around after \<open>2 ^ 63\<close> requests).
\<close>

function fetch_loop ::
  "(int \<Rightarrow> string \<Rightarrow> string + http_reply) \<Rightarrow> string list \<Rightarrow> int \<Rightarrow> client_error option \<Rightarrow> duration \<Rightarrow> 'l ConfigClient
     \<Rightarrow> duration \<times> 'l fetched" where
  "fetch_loop get ks i lastErr slept c =
     (if i > ccc_RetryCount (cc_config c) then (slept, Some (lastErr, []), c)
      else
        (let slept1 = (if i > 0 then slept + max 0 (ccc_RetryInterval (cc_config c)) else slept)
         in case fetchConfigOnce (get i (fetch_url (cc_config c))) ks c of
              (None, c1) \<Rightarrow> (slept1, None, c1)
            | (Some (Some err, _), c1) \<Rightarrow> fetch_loop get ks (i + 1) (Some err) slept1 c1
            | (Some (None, started), c1) \<Rightarrow> (slept1, Some (None, started), c1)))"
  by pat_completeness auto
termination
  by (relation "measure (\<lambda>(get, ks, i, lastErr, slept, c). nat (ccc_RetryCount (cc_config c) + 1 - i))")
     (auto dest: fetchConfigOnce_error [OF sym])

declare fetch_loop.simps [simp del]

definition fetchConfig ::
  "(int \<Rightarrow> string \<Rightarrow> string + http_reply) \<Rightarrow> string list \<Rightarrow> 'l ConfigClient \<Rightarrow> duration \<times> 'l fetched" where
  "fetchConfig get ks c = fetch_loop get ks 0 None 0 c"

definition Refresh ::
  "(int \<Rightarrow> string \<Rightarrow> string + http_reply) \<Rightarrow> string list \<Rightarrow> 'l ConfigClient \<Rightarrow> duration \<times> 'l fetched" where
  "Refresh get ks c = fetchConfig get ks c"

definition NewConfigClient ::
  "(int \<Rightarrow> string \<Rightarrow> string + http_reply) \<Rightarrow> string list \<Rightarrow> ConfigClientConfig \<Rightarrow> (client_error + 'l ConfigClient) option" where
  "NewConfigClient get ks config =
     (let client = \<lparr>cc_config = config, cc_cache = fmempty, cc_stopped = False, cc_loops = 0, cc_listeners = []\<rparr>
      in if \<not> ccc_Enabled config then Some (Inr client)
         else case snd (fetchConfig get ks client) of
                (None, _) \<Rightarrow> None
              | (Some (Some err, _), client1) \<Rightarrow> if ccc_FailFast config then Some (Inl err) else Some (Inr client1)
              | (Some (None, _), client1) \<Rightarrow> Some (Inr client1))"

definition StartClient :: "'l ConfigClient \<Rightarrow> 'l ConfigClient" where
  "StartClient c =
     (if \<not> ccc_Enabled (cc_config c) \<or> ccc_RefreshInterval (cc_config c) \<le> 0 then c
      else c\<lparr>cc_loops := cc_loops c + 1\<rparr>)"

text \<open>The refresh goroutine: one tick after the other until it is told to stop; a panic ends the process.\<close>

datatype tick = Tick "int \<Rightarrow> string \<Rightarrow> string + http_reply" "string list" | StopTick

fun refresh_loop :: "tick list \<Rightarrow> 'l ConfigClient \<Rightarrow> 'l ConfigClient option" where
  "refresh_loop [] c = Some c"
| "refresh_loop (StopTick # ts) c = Some c"
| "refresh_loop (Tick get ks # ts) c =
     (case snd (Refresh get ks c) of (None, _) \<Rightarrow> None | (Some _, c1) \<Rightarrow> refresh_loop ts c1)"

definition StopClient :: "'l ConfigClient \<Rightarrow> 'l ConfigClient option" where
  "StopClient c = (if cc_stopped c then None else Some (c\<lparr>cc_stopped := True\<rparr>))"

definition RefreshConfig ::
  "string + http_reply \<Rightarrow> (int \<Rightarrow> string \<Rightarrow> string + http_reply) \<Rightarrow> string list \<Rightarrow> 'l ConfigClient \<Rightarrow> 'l fetched" where
  "RefreshConfig posted get ks c =
     (case posted of
        Inl e \<Rightarrow> (Some (Some (RequestErr e), []), c)
      | Inr resp \<Rightarrow>
          if hr_Status resp \<noteq> 200 then (Some (Some (RefreshErr (hr_Body resp)), []), c)
          else snd (fetchConfig get ks c))"

subsection \<open>Reading\<close>

definition ClientGet :: "string \<Rightarrow> 'l ConfigClient \<Rightarrow> cfg_value option" where
  "ClientGet key c = fmlookup (cc_cache c) key"

definition GetString :: "string \<Rightarrow> string \<Rightarrow> 'l ConfigClient \<Rightarrow> string" where
  "GetString key defaultValue c =
     (case ClientGet key c of
        None \<Rightarrow> defaultValue
      | Some value \<Rightarrow> (case value of VString str \<Rightarrow> str | _ \<Rightarrow> defaultValue))"

definition GetInt :: "(real \<Rightarrow> int) \<Rightarrow> string \<Rightarrow> int \<Rightarrow> 'l ConfigClient \<Rightarrow> int" where
  "GetInt oor key defaultValue c =
     (case ClientGet key c of
        None \<Rightarrow> defaultValue
      | Some value \<Rightarrow>
          (case value of VInt v \<Rightarrow> v | VInt64 v \<Rightarrow> v | VFloat v \<Rightarrow> int64_of_float oor v | _ \<Rightarrow> defaultValue))"

definition GetBool :: "string \<Rightarrow> bool \<Rightarrow> 'l ConfigClient \<Rightarrow> bool" where
  "GetBool key defaultValue c =
     (case ClientGet key c of
        None \<Rightarrow> defaultValue
      | Some value \<Rightarrow> (case value of VBool b \<Rightarrow> b | _ \<Rightarrow> defaultValue))"

definition GetAll :: "'l ConfigClient \<Rightarrow> cfg" where
  "GetAll c = cc_cache c"

definition OnChange :: "'l \<Rightarrow> 'l ConfigClient \<Rightarrow> 'l ConfigClient" where
  "OnChange callback c = c\<lparr>cc_listeners := cc_listeners c @ [callback]\<rparr>"

subsection \<open>The retries\<close>

text \<open>The error of one request, and the first request that ends the loop.\<close>

definition attempt :: "(int \<Rightarrow> string \<Rightarrow> string + http_reply) \<Rightarrow> string list \<Rightarrow> 'l ConfigClient \<Rightarrow> int \<Rightarrow> 'l fetched" where
  "attempt get ks c i = fetchConfigOnce (get i (fetch_url (cc_config c))) ks c"

definition attempt_error :: "(int \<Rightarrow> string \<Rightarrow> string + http_reply) \<Rightarrow> string list \<Rightarrow> 'l ConfigClient \<Rightarrow> int \<Rightarrow> client_error option" where
  "attempt_error get ks c i = (case fst (attempt get ks c i) of Some (Some err, _) \<Rightarrow> Some err | _ \<Rightarrow> None)"

definition pause :: "'l ConfigClient \<Rightarrow> duration" where
  "pause c = max 0 (ccc_RetryInterval (cc_config c))"

lemma attempt_error_Some:
  assumes "attempt_error get ks c i = Some err"
  shows "attempt get ks c i = (Some (Some err, []), c)"
proof -
  obtain started c1 where a: "attempt get ks c i = (Some (Some err, started), c1)"
    using assms by (cases "attempt get ks c i") (auto simp: attempt_error_def split: option.splits)
  then show ?thesis using fetchConfigOnce_error [of "get i (fetch_url (cc_config c))" ks c err started c1] by (simp add: attempt_def)
qed

lemma fetch_loop_step:
  assumes "i \<le> ccc_RetryCount (cc_config c)"
  shows "fetch_loop get ks i lastErr slept c =
    (let slept1 = (if i > 0 then slept + pause c else slept)
     in case attempt_error get ks c i of
          Some err \<Rightarrow> fetch_loop get ks (i + 1) (Some err) slept1 c
        | None \<Rightarrow> (slept1, attempt get ks c i))"
proof (cases "attempt_error get ks c i")
  case None
  then show ?thesis
    using assms by (subst fetch_loop.simps)
      (auto simp: attempt_error_def attempt_def [symmetric] pause_def Let_def split: option.splits prod.splits)
next
  case (Some err)
  then show ?thesis
    using assms attempt_error_Some [OF Some]
    by (subst fetch_loop.simps) (simp add: attempt_def [symmetric] pause_def Let_def)
qed

text \<open>What the loop returns, from the outcomes of the requests alone.\<close>

definition first_success :: "(int \<Rightarrow> string \<Rightarrow> string + http_reply) \<Rightarrow> string list \<Rightarrow> 'l ConfigClient \<Rightarrow> int \<Rightarrow> int option" where
  "first_success get ks c i = find (\<lambda>j. attempt_error get ks c j = None) [i..ccc_RetryCount (cc_config c)]"

lemma fetch_loop_result:
  assumes "0 \<le> i"
  shows "fetch_loop get ks i lastErr slept c =
    (case first_success get ks c i of
       Some j \<Rightarrow> (slept + (j + 1 - max i 1) * pause c, attempt get ks c j)
     | None \<Rightarrow>
         (if i > ccc_RetryCount (cc_config c) then (slept, Some (lastErr, []), c)
          else (slept + (ccc_RetryCount (cc_config c) + 1 - max i 1) * pause c,
                Some (attempt_error get ks c (ccc_RetryCount (cc_config c)), []), c)))"
  using assms
proof (induction "nat (ccc_RetryCount (cc_config c) + 1 - i)" arbitrary: i lastErr slept rule: less_induct)
  case less
  let ?n = "ccc_RetryCount (cc_config c)"
  show ?case
  proof (cases "i > ?n")
    case True
    then show ?thesis by (subst fetch_loop.simps) (simp add: first_success_def)
  next
    case False
    then have up: "[i..?n] = i # [i + 1..?n]" by (simp add: upto_rec1)
    show ?thesis
    proof (cases "attempt_error get ks c i")
      case None
      then show ?thesis
        using False less.prems by (auto simp: fetch_loop_step first_success_def up Let_def)
    next
      case (Some err)
      then have f: "first_success get ks c i = first_success get ks c (i + 1)" by (simp add: first_success_def up)
      have IH: "fetch_loop get ks (i + 1) (Some err) s c =
        (case first_success get ks c (i + 1) of
           Some j \<Rightarrow> (s + (j - i) * pause c, attempt get ks c j)
         | None \<Rightarrow> (if i = ?n then (s, Some (Some err, []), c)
                    else (s + (?n - i) * pause c, Some (attempt_error get ks c ?n, []), c)))" for s
        using False less.prems by (subst less.hyps) (auto split: option.splits)
      let ?s = "slept + (i + 1 - max i 1) * pause c"
      have m: "max i 1 = (if i = 0 then 1 else i)" using less.prems by auto
      have step: "fetch_loop get ks i lastErr slept c = fetch_loop get ks (i + 1) (Some err) ?s c"
        using False less.prems Some by (subst fetch_loop_step) (auto simp: Let_def m)
      have "?s + (j - i) * pause c = slept + (j + 1 - max i 1) * pause c" for j by (simp add: algebra_simps)
      then show ?thesis unfolding step IH f using False Some by (auto split: option.splits)
    qed
  qed
qed

text \<open>
  C31. Termination of the retries. \<^verbatim>\<open>fetchConfig\<close> ends after at most \<^verbatim>\<open>RetryCount + 1\<close> requests, whatever the
  server answers: its result is that of the first request that did not fail, after one pause per
  request before it; if all of them fail, it is the error of the last one, the cache is as it was and
  \<^verbatim>\<open>RetryCount\<close> pauses were taken. With a negative count it asks nothing and reports success.
\<close>

theorem fetch_ends_within_retries:
  "fetchConfig get ks c =
    (let n = ccc_RetryCount (cc_config c)
     in case find (\<lambda>i. attempt_error get ks c i = None) [0..n] of
          Some i \<Rightarrow> (i * pause c, attempt get ks c i)
        | None \<Rightarrow> if n < 0 then (0, Some (None, []), c)
                  else (n * pause c, Some (attempt_error get ks c n, []), c))"
  unfolding fetchConfig_def Let_def
  by (subst fetch_loop_result) (auto simp: first_success_def split: option.splits)

subsection \<open>Client and server\<close>

text \<open>The client asks the server it is configured for, whose state is \<open>cs\<close>.\<close>

definition asks :: "ConfigClientConfig \<Rightarrow> ConfigServer \<Rightarrow> (int \<Rightarrow> string \<Rightarrow> string + http_reply) \<Rightarrow> bool" where
  "asks config cs get \<longleftrightarrow>
     (\<forall>i. get i (fetch_url config) = Inr (handleConfig (fetch_path config) cs))"

definition plain_target :: "ConfigClientConfig \<Rightarrow> bool" where
  "plain_target config \<longleftrightarrow> ccc_Application config \<noteq> [] \<and> ccc_Profile config \<noteq> []
     \<and> CHR ''/'' \<notin> set (ccc_Application config) \<and> CHR ''/'' \<notin> set (ccc_Profile config)"

lemma config_target_plain:
  assumes "plain_target config"
  shows "config_target (fetch_path config) =
    (ccc_Application config, ccc_Profile config)"
proof -
  have "Split (CHR ''/'') (ccc_Application config @ CHR ''/'' # ccc_Profile config) = [ccc_Application config, ccc_Profile config]"
    using assms by (simp add: Split_append Split_plain plain_target_def)
  then show ?thesis
    using assms TrimPrefix_append [of "''/config/''" "ccc_Application config @ ''/'' @ ccc_Profile config"]
    unfolding config_target_def plain_target_def fetch_path_def by (simp del: TrimPrefix_append)
qed

text \<open>The document the server prints is read back as one property source.\<close>

lemma decode_config_document:
  "decode_response (JsonBody (json_read (config_document application profile m))) =
     Some \<lparr>cr_Name = application, cr_Profiles = [profile],
           cr_PropertySources = [\<lparr>ps_Name = config_key application profile, ps_Source = fmmap json_read m\<rparr>]\<rparr>"
  by (simp add: config_document_def decode_response_def str_field_def list_field_def map_field_def decode_string_def
      decode_source_def)

lemma mergePropertySources_single [simp]: "mergePropertySources [src] = ps_Source src"
  by (simp add: mergePropertySources_def)

text \<open>What one answer of the server does to the client.\<close>

lemma fetch_from_server:
  assumes "asks (cc_config c) cs get" "plain_target (cc_config c)"
    and "GetConfig (ccc_Application (cc_config c)) (ccc_Profile (cc_config c)) cs = Inr m" "json_prints (VMap m)"
    and "ccc_RetryCount (cc_config c) \<ge> 0"
  shows "snd (fetchConfig get ks c) =
    (case updateCache ks (fmmap json_read m) c of
       (None, c1) \<Rightarrow> (None, c1) | (Some started, c1) \<Rightarrow> (Some (None, started), c1))"
proof -
  let ?c = "cc_config c"
  have h: "handleConfig (fetch_path ?c) cs =
      encode_json (config_document (ccc_Application ?c) (ccc_Profile ?c) m)"
    unfolding handleConfig_def config_target_plain [OF assms(2)] by (simp add: assms(3))
  have a: "attempt get ks c 0 =
    (case updateCache ks (fmmap json_read m) c of
       (None, c1) \<Rightarrow> (None, c1) | (Some started, c1) \<Rightarrow> (Some (None, started), c1))"
    using assms(1,4) unfolding asks_def attempt_def
    by (simp add: fetchConfigOnce_def h encode_json_def config_document_prints decode_config_document
        del: json_prints.simps(12))
  then have "attempt_error get ks c 0 = None" by (auto simp: attempt_error_def split: prod.splits option.splits)
  then have "first_success get ks c 0 = Some 0" using assms(5) by (simp add: first_success_def upto_rec1)
  then show ?thesis by (simp add: fetchConfig_def fetch_loop_result a)
qed

lemma configEqual_empty: "configEqual ks fmempty b \<noteq> None"
proof -
  have "equal_loop ks fmempty b = Some True" by (induction ks) auto
  then show ?thesis by (auto simp: configEqual_def)
qed

lemma new_client_reads:
  assumes "asks config cs get" "plain_target config"
    and "GetConfig (ccc_Application config) (ccc_Profile config) cs = Inr m" "json_prints (VMap m)"
    and "ccc_RetryCount config \<ge> 0" "ccc_Enabled config"
  shows "(NewConfigClient get ks config :: (client_error + 'l ConfigClient) option) =
    Some (Inr \<lparr>cc_config = config, cc_cache = fmmap json_read m, cc_stopped = False, cc_loops = 0, cc_listeners = []\<rparr>)"
proof -
  let ?c = "\<lparr>cc_config = config, cc_cache = fmempty, cc_stopped = False, cc_loops = 0, cc_listeners = []\<rparr> :: 'l ConfigClient"
  have "snd (fetchConfig get ks ?c) = (Some (None, []), ?c\<lparr>cc_cache := fmmap json_read m\<rparr>)"
    using configEqual_empty [of ks "fmmap json_read m"] assms
    by (subst fetch_from_server [where cs = cs and m = m]) (auto simp: updateCache_def Let_def notifyListeners_def)
  then show ?thesis using assms(6) by (simp add: NewConfigClient_def Let_def)
qed

subsection \<open>Comparing configurations\<close>

definition nested :: "cfg_value \<Rightarrow> bool" where
  "nested v = (case v of VList _ \<Rightarrow> True | VMap _ \<Rightarrow> True | VAnyMap _ \<Rightarrow> True | _ \<Rightarrow> False)"

definition ranges_over :: "string list \<Rightarrow> cfg \<Rightarrow> bool" where
  "ranges_over ks m \<longleftrightarrow> distinct ks \<and> set ks = fmdom' m"

lemma iface_eq_same: "json_native v \<Longrightarrow> iface_eq v v = (if nested v then None else Some True)"
  by (cases v) (auto simp: nested_def)

lemma iface_eq_scalar: "json_native v \<Longrightarrow> \<not> nested v \<Longrightarrow> iface_eq v w = Some (v = w)"
  by (cases v; cases w) (auto simp: nested_def)

lemma equal_loop_same:
  assumes "json_native (VMap a)" "k \<in> set ks" "fmlookup a k = Some v" "nested v"
  shows "equal_loop ks a a = None"
  using assms(2)
proof (induction ks)
  case (Cons k' ks)
  have "iface_eq w w = None \<or> iface_eq w w = Some True" if "fmlookup a k' = Some w" for w
    using that assms(1) iface_eq_same [of w] unfolding json_native_map by (auto split: if_splits)
  moreover have "iface_eq v v = None" using assms(1,3,4) iface_eq_same [of v] unfolding json_native_map by auto
  ultimately show ?case using Cons assms(3) by (auto split: option.splits)
qed simp

lemma equal_loop_flat:
  assumes "json_native (VMap a)" "\<And>k v. fmlookup a k = Some v \<Longrightarrow> \<not> nested v" "set ks \<subseteq> fmdom' a"
  shows "equal_loop ks a b = Some (\<forall>k \<in> set ks. fmlookup a k = fmlookup b k)"
  using assms(3)
proof (induction ks)
  case (Cons k ks)
  then obtain v where v: "fmlookup a k = Some v" by (auto simp: fmlookup_dom'_iff)
  then have "iface_eq v w = Some (v = w)" for w
    using assms(1,2) iface_eq_scalar unfolding json_native_map by blast
  then show ?case using Cons v by (auto split: option.splits bool.splits)
qed simp

lemma configEqual_flat:
  assumes "json_native (VMap a)" "\<And>k v. fmlookup a k = Some v \<Longrightarrow> \<not> nested v" "ranges_over ks a"
  shows "configEqual ks a b = Some (a = b)"
proof -
  have l: "equal_loop ks a b = Some (\<forall>k \<in> fmdom' a. fmlookup a k = fmlookup b k)"
    using assms by (subst equal_loop_flat) (auto simp: ranges_over_def)
  have "a = b" if c: "fcard (fmdom a) = fcard (fmdom b)" and e: "\<forall>k \<in> fmdom' a. fmlookup a k = fmlookup b k"
  proof -
    have "fmlookup b k \<noteq> None" if "fmlookup a k \<noteq> None" for k
      using e that by (metis fmdom'_notI fmdom'_notD)
    then have "fmdom a |\<subseteq>| fmdom b" by (auto simp: fmlookup_dom_iff)
    then have "fmdom a = fmdom b" using c by (metis fcard_seteq le_refl)
    then have "fmlookup a k = None \<longleftrightarrow> fmlookup b k = None" for k by (metis fmdom_notD fmdom_notI)
    then show ?thesis using e by (intro fmap_ext) (metis fmdom'_notD)
  qed
  then show ?thesis using l by (auto simp: configEqual_def)
qed

text \<open>
  C30. Round trip. A client that starts against a running server reads back what the server's files
  say: every string and truth value as it is, every integer a \<^verbatim>\<open>float64\<close> can hold as the same integer although
  it travels as a float, and the caller's default for a setting that is not there.
\<close>

theorem client_reads_server_settings:
  assumes "asks config cs get" "plain_target config" "ccc_RetryCount config \<ge> 0" "ccc_Enabled config"
    and "GetConfig (ccc_Application config) (ccc_Profile config) cs = Inr m" "json_prints (VMap m)"
  shows "\<exists>c :: 'l ConfigClient. NewConfigClient get ks config = Some (Inr c)
    \<and> (\<forall>key. ClientGet key c = map_option json_read (fmlookup m key))
    \<and> (\<forall>key s d. fmlookup m key = Some (VString s) \<longrightarrow> GetString key d c = s)
    \<and> (\<forall>key b d. fmlookup m key = Some (VBool b) \<longrightarrow> GetBool key d c = b)
    \<and> (\<forall>key n d. fmlookup m key = Some (VInt n) \<and> \<bar>n\<bar> \<le> 2 ^ 53 \<longrightarrow> GetInt oor key d c = n)
    \<and> (\<forall>key s b n. fmlookup m key = None \<longrightarrow>
         GetString key s c = s \<and> GetBool key b c = b \<and> GetInt oor key n c = n)"
proof -
  let ?c = "\<lparr>cc_config = config, cc_cache = fmmap json_read m, cc_stopped = False, cc_loops = 0, cc_listeners = []\<rparr> :: 'l ConfigClient"
  have "NewConfigClient get ks config = Some (Inr ?c)" using assms by (intro new_client_reads)
  moreover have "int64_of_float oor (real_of_int n) = n" if "\<bar>n\<bar> \<le> 2 ^ 53" for n
    using that by (auto simp: int64_of_float_def in_int64_def)
  ultimately show ?thesis
    by (intro exI [of _ ?c]) (auto simp: ClientGet_def GetString_def GetBool_def GetInt_def)
qed

text \<open>A client of the server whose directory has a default and a production profile.\<close>

definition demo_client_config :: ConfigClientConfig where
  "demo_client_config = DefaultConfigClientConfig\<lparr>ccc_Enabled := True, ccc_Application := ''app'', ccc_Profile := ''prod''\<rparr>"

definition demo_get :: "int \<Rightarrow> string \<Rightarrow> string + http_reply" where
  "demo_get i url = Inr (handleConfig (fetch_path demo_client_config) demo_server)"

definition demo_merged :: cfg where
  "demo_merged = deepMerge demo_default demo_prod"

lemma demo_client:
  "asks demo_client_config demo_server demo_get" "plain_target demo_client_config"
  "ccc_RetryCount demo_client_config \<ge> 0" "ccc_Enabled demo_client_config"
  "GetConfig (ccc_Application demo_client_config) (ccc_Profile demo_client_config) demo_server = Inr demo_merged"
  by (simp_all add: asks_def demo_get_def plain_target_def demo_client_config_def DefaultConfigClientConfig_def
      GetConfig_def mergeWithDefault_def demo_server_def demo_configs_def config_key_def demo_merged_def)

lemma demo_merged_prints: "json_prints (VMap demo_merged)"
  unfolding demo_merged_def demo_default_def demo_prod_def
  by (intro deepMerge_prints) (simp_all add: json_prints_of_list del: json_prints.simps(12) fmap_of_list_simps)

lemma demo_merged_lookup:
  "fmlookup demo_merged ''name'' = Some (VString ''shop'')"
  "\<exists>m. fmlookup demo_merged ''db'' = Some (VMap m)"
  by (simp_all add: demo_merged_def deepMerge_lookup demo_default_def demo_prod_def merge_entry_def)

lemma demo_merged_keys: "ranges_over [''db'', ''name''] (fmmap json_read demo_merged)"
  by (auto simp: ranges_over_def demo_merged_def deepMerge_dom demo_default_def demo_prod_def)

theorem client_reads_server_settings_witness:
  "\<exists>c :: nat ConfigClient. NewConfigClient demo_get [] demo_client_config = Some (Inr c)
     \<and> GetString ''name'' ''none'' c = ''shop''"
  using client_reads_server_settings [OF demo_client demo_merged_prints] demo_merged_lookup(1) by blast

text \<open>
  Notifications. When a flat configuration (no sections, no lists) is cached, a refresh that
  reaches the server never panics, whatever order the comparison takes: it caches the new
  configuration and starts every listener once with it if anything changed, and none otherwise.
\<close>

theorem flat_refresh_notifies_changes:
  assumes "asks (cc_config c) cs get" "plain_target (cc_config c)" "ccc_RetryCount (cc_config c) \<ge> 0"
    and "GetConfig (ccc_Application (cc_config c)) (ccc_Profile (cc_config c)) cs = Inr m" "json_prints (VMap m)"
    and "json_native (VMap (cc_cache c))" "\<And>k v. fmlookup (cc_cache c) k = Some v \<Longrightarrow> \<not> nested v"
    and "ranges_over ks (cc_cache c)"
  shows "snd (Refresh get ks c) =
    (Some (None, if fmmap json_read m = cc_cache c then []
                 else map (\<lambda>l. (l, fmmap json_read m)) (cc_listeners c)),
     c\<lparr>cc_cache := fmmap json_read m\<rparr>)"
  using assms fetch_from_server [OF assms(1,2,4,5,3)] configEqual_flat [OF assms(6-8)]
  by (auto simp: Refresh_def updateCache_def Let_def notifyListeners_def)

text \<open>
  Nested configurations. If the configuration has a section or a list in it, the first periodic
  refresh that finds it unchanged panics, whatever order the comparison takes: two interface values
  that hold maps or slices must not be compared. The refresh runs in a goroutine of its own that
  nothing recovers, so the whole process ends.
\<close>

theorem unchanged_nested_config_crashes:
  assumes "asks config cs get" "plain_target config" "ccc_RetryCount config \<ge> 0" "ccc_Enabled config"
    and "GetConfig (ccc_Application config) (ccc_Profile config) cs = Inr m" "json_prints (VMap m)"
    and "fmlookup m key = Some v" "nested v"
    and "NewConfigClient get ks config = Some (Inr (c :: 'l ConfigClient))" "ranges_over ks' (cc_cache c)"
  shows "refresh_loop (Tick get ks' # ticks) (StartClient c) = None"
proof -
  let ?n = "fmmap json_read m"
  have c: "c = \<lparr>cc_config = config, cc_cache = ?n, cc_stopped = False, cc_loops = 0, cc_listeners = []\<rparr>"
    using new_client_reads [OF assms(1,2,5,6,3,4), of ks, where ?'l = 'l] assms(9) by simp
  have cache: "cc_cache (StartClient c) = ?n" "cc_config (StartClient c) = config" by (simp_all add: StartClient_def c)
  have "json_native (VMap ?n)" using json_read_native [OF assms(6)] by simp
  moreover have "key \<in> set ks'" using assms(7,10) by (auto simp: ranges_over_def c fmlookup_dom'_iff)
  moreover have "fmlookup ?n key = Some (json_read v)" using assms(7) by simp
  moreover have "nested (json_read v)" using assms(8) by (cases v) (auto simp: nested_def)
  ultimately have "equal_loop ks' ?n ?n = None" by (rule equal_loop_same)
  then have "updateCache ks' ?n (StartClient c) = (None, (StartClient c)\<lparr>cc_cache := ?n\<rparr>)"
    by (simp add: updateCache_def cache configEqual_def)
  moreover have "snd (fetchConfig get ks' (StartClient c)) =
      (case updateCache ks' ?n (StartClient c) of
         (None, c1) \<Rightarrow> (None, c1) | (Some started, c1) \<Rightarrow> (Some (None, started), c1))"
    by (rule fetch_from_server [where cs = cs]) (use assms cache in simp_all)
  ultimately show ?thesis by (simp add: Refresh_def)
qed

theorem unchanged_nested_config_crashes_witness:
  "refresh_loop [Tick demo_get [''db'', ''name'']]
     (StartClient (\<lparr>cc_config = demo_client_config, cc_cache = fmmap json_read demo_merged, cc_stopped = False,
        cc_loops = 0, cc_listeners = []\<rparr> :: nat ConfigClient)) = None"
proof -
  obtain m where "fmlookup demo_merged ''db'' = Some (VMap m)" using demo_merged_lookup(2) by blast
  moreover have "nested (VMap m)" by (simp add: nested_def)
  ultimately show ?thesis
    by (rule unchanged_nested_config_crashes [OF demo_client demo_merged_prints, where ks = "[]"])
       (simp_all add: new_client_reads [OF demo_client(1,2,5) demo_merged_prints demo_client(3,4)] demo_merged_keys)
qed

definition flat_client :: "nat ConfigClient" where
  "flat_client = \<lparr>cc_config = demo_client_config, cc_cache = fmap_of_list [(''name'', VString ''old'')], cc_stopped = False,
     cc_loops = 1, cc_listeners = [1, 2]\<rparr>"

theorem flat_refresh_notifies_changes_witness:
  "snd (Refresh demo_get [''name''] flat_client) =
     (Some (None, [(1, fmmap json_read demo_merged), (2, fmmap json_read demo_merged)]),
      flat_client\<lparr>cc_cache := fmmap json_read demo_merged\<rparr>)"
proof -
  have c: "cc_config flat_client = demo_client_config" "cc_cache flat_client = fmupd ''name'' (VString ''old'') fmempty"
    by (simp_all add: flat_client_def)
  have "fmlookup (fmmap json_read demo_merged) ''name'' \<noteq> fmlookup (cc_cache flat_client) ''name''"
    using demo_merged_lookup(1) by (simp add: c)
  then have d: "fmmap json_read demo_merged \<noteq> cc_cache flat_client" by metis
  have "snd (Refresh demo_get [''name''] flat_client) =
    (Some (None, if fmmap json_read demo_merged = cc_cache flat_client then []
                 else map (\<lambda>l. (l, fmmap json_read demo_merged)) (cc_listeners flat_client)),
     flat_client\<lparr>cc_cache := fmmap json_read demo_merged\<rparr>)"
  proof (rule flat_refresh_notifies_changes [where cs = demo_server])
    show "json_native (VMap (cc_cache flat_client))" unfolding json_native_map by (simp add: c)
  qed (use demo_client demo_merged_prints in \<open>auto simp: c nested_def ranges_over_def simp del: json_prints.simps split: if_splits\<close>)
  then show ?thesis using d by (simp add: flat_client_def)
qed

end
