(* ===== verification/Mongo_Client.thy ===== *)
theory Mongo_Client
  imports Gorm_Dao
begin

text \<open>
  MongoDB and its driver are not part of the repository. The data access objects take them as an
  argument: a function that runs one command on a collection of an opaque database. What the code
  relies on, the documented effect of the commands it sends, is the locale \<open>mongo_db\<close>, over a view
  of each collection as the list of its documents and of the counters as a function. A document is
  the map of its fields, without the \<^verbatim>\<open>_id\<close> the driver generates; a date has the millisecond as its unit.

  The generic object \<^verbatim>\<open>baseMongoDAO\<close> and the counter of \<^verbatim>\<open>internal/domain/dao/impl/mongo/base_dao_impl.go\<close>
  follow, and an executable store in memory that satisfies the laws closes the theory.
\<close>

subsection \<open>Commands\<close>

datatype bson = BNull | BInt int | BStr string | BBool bool | BDate int

type_synonym bdoc = "string \<rightharpoonup> bson"

text \<open>\<open>MIsNil\<close> is a field compared with nil, which also holds of a missing field.\<close>

datatype mfilter =
    MAny | MEq string bson | MIsNil string | MLess string int | MBoth mfilter mfilter | MEither mfilter mfilter

fun matches :: "mfilter \<Rightarrow> bdoc \<Rightarrow> bool" where
  "matches MAny d = True"
| "matches (MEq f v) d = (d f = Some v)"
| "matches (MIsNil f) d = (d f = None \<or> d f = Some BNull)"
| "matches (MLess f t) d = (case d f of Some (BDate u) \<Rightarrow> u < t | _ \<Rightarrow> False)"
| "matches (MBoth p q) d = (matches p d \<and> matches q d)"
| "matches (MEither p q) d = (matches p d \<or> matches q d)"

text \<open>\<open>Find\<close> has the field to sort by, whether descending, the number of documents to skip and the limit.\<close>

datatype mcmd =
    InsertOne bdoc | FindOne mfilter | Find mfilter "string \<times> bool" "(int \<times> int) option" | CountDocuments mfilter
  | UpdateOne mfilter bdoc | UpdateMany mfilter bdoc | DeleteMany mfilter | FindOneAndInc string string

datatype mreply = MDoc bdoc | MDocs "bdoc list" | MCount int | MDone | MNoDocuments | MErr

type_synonym 's mongo = "string \<Rightarrow> mcmd \<Rightarrow> 's \<Rightarrow> mreply \<times> 's"

text \<open>The unique indexes \<^verbatim>\<open>createMongoIndexes\<close> asks for.\<close>

definition unique_index :: "string \<Rightarrow> string list" where
  "unique_index coll =
     (if coll = ''users'' then [''username'', ''email'']
      else if coll = ''plugins'' then [''key'']
      else if coll = ''refresh_tokens'' then [''token'']
      else [])"

definition dup_key :: "string \<Rightarrow> bdoc list \<Rightarrow> bdoc \<Rightarrow> bool" where
  "dup_key coll docs d = list_ex (\<lambda>d'. list_ex (\<lambda>f. d' f = d f) (unique_index coll)) docs"

fun bson_rank :: "bson option \<Rightarrow> int" where
  "bson_rank (Some (BInt n)) = n"
| "bson_rank (Some (BDate t)) = t"
| "bson_rank _ = 0"

text \<open>The order of a query; strings are left in any order, as for the SQL tables.\<close>

definition doc_precedes :: "string \<times> bool \<Rightarrow> bdoc \<Rightarrow> bdoc \<Rightarrow> bool" where
  "doc_precedes ord a b =
     (if snd ord then bson_rank (b (fst ord)) \<le> bson_rank (a (fst ord))
      else bson_rank (a (fst ord)) \<le> bson_rank (b (fst ord)))"

text \<open>A limit of zero is no limit.\<close>

definition doc_page :: "(int \<times> int) option \<Rightarrow> 'd list \<Rightarrow> 'd list" where
  "doc_page p xs =
     (case p of None \<Rightarrow> xs
      | Some (skp, n) \<Rightarrow> if n = 0 then drop (nat skp) xs else take (nat n) (drop (nat skp) xs))"

definition doc_page_ok :: "(int \<times> int) option \<Rightarrow> bool" where
  "doc_page_ok p = (case p of None \<Rightarrow> True | Some (skp, n) \<Rightarrow> 0 \<le> skp \<and> 0 \<le> n)"

fun reads_only :: "mcmd \<Rightarrow> bool" where
  "reads_only (FindOne q) = True"
| "reads_only (Find q ord p) = True"
| "reads_only (CountDocuments q) = True"
| "reads_only _ = False"

text \<open>What an update of the document at position \<open>i\<close> leaves.\<close>

definition updated_at :: "nat \<Rightarrow> bdoc \<Rightarrow> bdoc list \<Rightarrow> bdoc list" where
  "updated_at i upd docs = docs[i := docs ! i ++ upd]"

definition update_clashes :: "string \<Rightarrow> nat \<Rightarrow> bdoc \<Rightarrow> bdoc list \<Rightarrow> bool" where
  "update_clashes coll i upd docs = dup_key coll (take i docs @ drop (Suc i) docs) (docs ! i ++ upd)"

subsection \<open>The laws\<close>

locale mongo_db =
  fixes db :: "'s mongo" and view :: "'s \<Rightarrow> string \<Rightarrow> bdoc list" and counter :: "'s \<Rightarrow> string \<Rightarrow> int"
    and up :: "'s \<Rightarrow> bool"
  assumes stays_up: "up s \<Longrightarrow> up (snd (db c q s))"
    and frame: "up s \<Longrightarrow> c' \<noteq> c \<Longrightarrow> view (snd (db c q s)) c' = view s c'"
    and counter_frame: "up s \<Longrightarrow> (\<forall>k f. q \<noteq> FindOneAndInc k f) \<Longrightarrow> counter (snd (db c q s)) = counter s"
    and read_view: "up s \<Longrightarrow> reads_only q \<Longrightarrow> view (snd (db c q s)) c = view s c"
    and FindOne_some: "up s \<Longrightarrow> \<exists>d \<in> set (view s c). matches p d \<Longrightarrow>
      \<exists>d \<in> set (view s c). matches p d \<and> fst (db c (FindOne p) s) = MDoc d"
    and FindOne_none: "up s \<Longrightarrow> \<forall>d \<in> set (view s c). \<not> matches p d \<Longrightarrow> fst (db c (FindOne p) s) = MNoDocuments"
    and Find_reply: "up s \<Longrightarrow> doc_page_ok pg \<Longrightarrow>
      \<exists>docs. fst (db c (Find p ord pg) s) = MDocs (doc_page pg docs)
        \<and> mset docs = mset (filter (matches p) (view s c)) \<and> sorted_wrt (doc_precedes ord) docs"
    and Find_negative: "up s \<Longrightarrow> skp < 0 \<Longrightarrow> fst (db c (Find p ord (Some (skp, n))) s) = MErr"
    and Count_reply: "up s \<Longrightarrow> fst (db c (CountDocuments p) s) = MCount (int (length (filter (matches p) (view s c))))"
    and Insert_ok: "up s \<Longrightarrow> \<not> dup_key c (view s c) d \<Longrightarrow>
      fst (db c (InsertOne d) s) = MDone \<and> view (snd (db c (InsertOne d) s)) c = view s c @ [d]"
    and Insert_err: "up s \<Longrightarrow> dup_key c (view s c) d \<Longrightarrow>
      fst (db c (InsertOne d) s) = MErr \<and> view (snd (db c (InsertOne d) s)) c = view s c"
    and UpdateOne_none: "up s \<Longrightarrow> \<forall>d \<in> set (view s c). \<not> matches p d \<Longrightarrow>
      fst (db c (UpdateOne p upd) s) = MDone \<and> view (snd (db c (UpdateOne p upd) s)) c = view s c"
    and UpdateOne_some: "up s \<Longrightarrow> \<exists>d \<in> set (view s c). matches p d \<Longrightarrow>
      \<exists>i < length (view s c). matches p (view s c ! i)
        \<and> (if update_clashes c i upd (view s c)
            then fst (db c (UpdateOne p upd) s) = MErr \<and> view (snd (db c (UpdateOne p upd) s)) c = view s c
            else fst (db c (UpdateOne p upd) s) = MDone
              \<and> view (snd (db c (UpdateOne p upd) s)) c = updated_at i upd (view s c))"
    and UpdateMany_law: "up s \<Longrightarrow> (\<forall>f \<in> set (unique_index c). upd f = None) \<Longrightarrow>
      fst (db c (UpdateMany p upd) s) = MDone
        \<and> view (snd (db c (UpdateMany p upd) s)) c = map (\<lambda>d. if matches p d then d ++ upd else d) (view s c)"
    and DeleteMany_law: "up s \<Longrightarrow>
      fst (db c (DeleteMany p) s) = MDone
        \<and> view (snd (db c (DeleteMany p) s)) c = filter (\<lambda>d. \<not> matches p d) (view s c)"
    and Inc_law: "up s \<Longrightarrow>
      fst (db ''counters'' (FindOneAndInc k ''value'') s) =
        MDoc [''_id'' \<mapsto> BStr k, ''value'' \<mapsto> BInt (counter s k + 1)]
      \<and> counter (snd (db ''counters'' (FindOneAndInc k ''value'') s)) = (counter s)(k := counter s k + 1)"

subsection \<open>The generic object\<close>

definition mongo_done :: "'s mongo \<Rightarrow> string \<Rightarrow> mcmd \<Rightarrow> ('s, unit) svc" where
  "mongo_done db coll q s = (case db coll q s of (MDone, s1) \<Rightarrow> (Inr (), s1) | (_, s1) \<Rightarrow> (Inl DbError, s1))"

definition NextID :: "'s mongo \<Rightarrow> string \<Rightarrow> ('s, int) svc" where
  "NextID db collectionName s =
     (case db ''counters'' (FindOneAndInc collectionName ''value'') s of
        (MDoc d, s1) \<Rightarrow> (case d ''value'' of Some (BInt n) \<Rightarrow> (Inr n, s1) | _ \<Rightarrow> (Inl DbError, s1))
      | (_, s1) \<Rightarrow> (Inl DbError, s1))"

definition notDeletedFilter :: mfilter where
  "notDeletedFilter = MIsNil ''deleted_at''"

definition withNotDeleted :: "mfilter \<Rightarrow> mfilter" where
  "withNotDeleted p = MBoth p (MIsNil ''deleted_at'')"

definition mongo_count :: "'s mongo \<Rightarrow> string \<Rightarrow> mfilter \<Rightarrow> ('s, int) svc" where
  "mongo_count db coll p s =
     (case db coll (CountDocuments p) s of (MCount n, s1) \<Rightarrow> (Inr n, s1) | (_, s1) \<Rightarrow> (Inl DbError, s1))"

definition existsBy :: "'s mongo \<Rightarrow> string \<Rightarrow> string \<Rightarrow> bson \<Rightarrow> ('s, bool) svc" where
  "existsBy db coll f v =
     and_then (mongo_count db coll (withNotDeleted (if v = BNull then MIsNil f else MEq f v))) (\<lambda>n. ret (n > 0))"

text \<open>
  \<^verbatim>\<open>findOneByFilter\<close> with the callers' treatment of \<^verbatim>\<open>ErrNoDocuments\<close>, and \<^verbatim>\<open>findManyByFilter\<close>. Decoding is that
  of the document type; it fails on a field of the wrong type.
\<close>

definition findOneByFilter :: "'s mongo \<Rightarrow> string \<Rightarrow> (bdoc \<Rightarrow> 'd option) \<Rightarrow> mfilter \<Rightarrow> ('s, 'd option) svc" where
  "findOneByFilter db coll dec p s =
     (case db coll (FindOne p) s of
        (MDoc d, s1) \<Rightarrow> (case dec d of None \<Rightarrow> (Inl DbError, s1) | Some x \<Rightarrow> (Inr (Some x), s1))
      | (MNoDocuments, s1) \<Rightarrow> (Inr None, s1)
      | (_, s1) \<Rightarrow> (Inl DbError, s1))"

definition findManyByFilter ::
  "'s mongo \<Rightarrow> string \<Rightarrow> (bdoc \<Rightarrow> 'd option) \<Rightarrow> mfilter \<Rightarrow> string \<times> bool \<Rightarrow> (int \<times> int) option \<Rightarrow> ('s, 'd list) svc" where
  "findManyByFilter db coll dec p ord pg s =
     (case db coll (Find p ord pg) s of
        (MDocs ds, s1) \<Rightarrow> (case those (map dec ds) of None \<Rightarrow> (Inl DbError, s1) | Some xs \<Rightarrow> (Inr xs, s1))
      | (_, s1) \<Rightarrow> (Inl DbError, s1))"

definition insertOne :: "'s mongo \<Rightarrow> string \<Rightarrow> bdoc \<Rightarrow> ('s, unit) svc" where
  "insertOne db coll d = mongo_done db coll (InsertOne d)"

definition updateOne :: "'s mongo \<Rightarrow> string \<Rightarrow> mfilter \<Rightarrow> bdoc \<Rightarrow> ('s, unit) svc" where
  "updateOne db coll p upd = mongo_done db coll (UpdateOne p upd)"

definition updateMany :: "'s mongo \<Rightarrow> string \<Rightarrow> mfilter \<Rightarrow> bdoc \<Rightarrow> ('s, unit) svc" where
  "updateMany db coll p upd = mongo_done db coll (UpdateMany p upd)"

definition deleteMany :: "'s mongo \<Rightarrow> string \<Rightarrow> mfilter \<Rightarrow> ('s, unit) svc" where
  "deleteMany db coll p = mongo_done db coll (DeleteMany p)"

text \<open>The page of \<^verbatim>\<open>FindAll\<close>; each entity sorts by a field of its own.\<close>

definition mongo_find_all ::
  "'s mongo \<Rightarrow> string \<Rightarrow> (bdoc \<Rightarrow> 'd option) \<Rightarrow> string \<Rightarrow> int \<Rightarrow> int \<Rightarrow> ('s, 'd list \<times> int) svc" where
  "mongo_find_all db coll dec srt page psize =
     and_then (mongo_count db coll notDeletedFilter) (\<lambda>total.
     and_then (findManyByFilter db coll dec notDeletedFilter (srt, True) (Some (page_offset page psize, psize))) (\<lambda>docs.
     ret (docs, total)))"

subsection \<open>A store in memory\<close>

record mem_mongo =
  mm_docs :: "string \<Rightarrow> bdoc list"
  mm_counters :: "string \<Rightarrow> int"

definition mem_put :: "string \<Rightarrow> bdoc list \<Rightarrow> mem_mongo \<Rightarrow> mem_mongo" where
  "mem_put c docs s = s\<lparr>mm_docs := (mm_docs s)(c := docs)\<rparr>"

definition first_match :: "mfilter \<Rightarrow> bdoc list \<Rightarrow> nat option" where
  "first_match p docs =
     (let i = length (takeWhile (\<lambda>d. \<not> matches p d) docs) in if i < length docs then Some i else None)"

fun mem_mongo_cmd :: "mem_mongo mongo" where
  "mem_mongo_cmd c (InsertOne d) s =
     (if dup_key c (mm_docs s c) d then (MErr, s) else (MDone, mem_put c (mm_docs s c @ [d]) s))"
| "mem_mongo_cmd c (FindOne p) s =
     ((case List.find (matches p) (mm_docs s c) of None \<Rightarrow> MNoDocuments | Some d \<Rightarrow> MDoc d), s)"
| "mem_mongo_cmd c (Find p ord pg) s =
     ((if (case pg of None \<Rightarrow> False | Some (skp, n) \<Rightarrow> skp < 0) then MErr
       else MDocs (doc_page pg (foldr (ins_row (doc_precedes ord)) (filter (matches p) (mm_docs s c)) []))), s)"
| "mem_mongo_cmd c (CountDocuments p) s = (MCount (int (length (filter (matches p) (mm_docs s c)))), s)"
| "mem_mongo_cmd c (UpdateOne p upd) s =
     (case first_match p (mm_docs s c) of
        None \<Rightarrow> (MDone, s)
      | Some i \<Rightarrow> if update_clashes c i upd (mm_docs s c) then (MErr, s)
                  else (MDone, mem_put c (updated_at i upd (mm_docs s c)) s))"
| "mem_mongo_cmd c (UpdateMany p upd) s =
     (MDone, mem_put c (map (\<lambda>d. if matches p d then d ++ upd else d) (mm_docs s c)) s)"
| "mem_mongo_cmd c (DeleteMany p) s = (MDone, mem_put c (filter (\<lambda>d. \<not> matches p d) (mm_docs s c)) s)"
| "mem_mongo_cmd c (FindOneAndInc k f) s =
     (MDoc [''_id'' \<mapsto> BStr k, f \<mapsto> BInt (mm_counters s k + 1)],
      s\<lparr>mm_counters := (mm_counters s)(k := mm_counters s k + 1)\<rparr>)"

lemma first_match_Some:
  assumes "\<exists>d \<in> set docs. matches p d"
  obtains i where "first_match p docs = Some i" "i < length docs" "matches p (docs ! i)"
proof -
  let ?i = "length (takeWhile (\<lambda>d. \<not> matches p d) docs)"
  have "takeWhile (\<lambda>d. \<not> matches p d) docs \<noteq> docs" using assms by (auto simp: takeWhile_eq_all_conv)
  then have "?i < length docs" by (metis length_takeWhile_le linorder_neqE_nat not_le takeWhile_eq_take take_all)
  moreover from this have "matches p (docs ! ?i)" using nth_length_takeWhile by blast
  ultimately show ?thesis using that by (simp add: first_match_def Let_def)
qed

lemma first_match_None: "\<forall>d \<in> set docs. \<not> matches p d \<Longrightarrow> first_match p docs = None"
  by (simp add: first_match_def Let_def takeWhile_eq_all_conv [THEN iffD2])

lemma doc_order: "doc_precedes ord a b \<or> doc_precedes ord b a"
  "doc_precedes ord a b \<Longrightarrow> doc_precedes ord b e \<Longrightarrow> doc_precedes ord a e"
  by (auto simp: doc_precedes_def)

lemma sorted_docs: "sorted_wrt (doc_precedes ord) (foldr (ins_row (doc_precedes ord)) docs [])"
  by (rule sorted_ins_rows) (use doc_order in blast)+

lemma mem_find_some:
  "\<exists>d \<in> set docs. matches p d \<Longrightarrow> \<exists>d \<in> set docs. matches p d \<and> List.find (matches p) docs = Some d"
  by (induction docs) auto

interpretation mem: mongo_db mem_mongo_cmd mm_docs mm_counters "\<lambda>s. True"
proof
  fix s c c' q p
  show "True" by simp
  show "c' \<noteq> c \<Longrightarrow> mm_docs (snd (mem_mongo_cmd c q s)) c' = mm_docs s c'"
    by (cases q) (auto simp: mem_put_def split: option.splits)
  show "\<forall>k f. q \<noteq> FindOneAndInc k f \<Longrightarrow> mm_counters (snd (mem_mongo_cmd c q s)) = mm_counters s"
    by (cases q) (auto simp: mem_put_def split: option.splits)
  show "reads_only q \<Longrightarrow> mm_docs (snd (mem_mongo_cmd c q s)) c = mm_docs s c" by (cases q) auto
  show "\<exists>d \<in> set (mm_docs s c). matches p d \<Longrightarrow>
      \<exists>d \<in> set (mm_docs s c). matches p d \<and> fst (mem_mongo_cmd c (FindOne p) s) = MDoc d"
    by (drule mem_find_some) auto
  show "\<forall>d \<in> set (mm_docs s c). \<not> matches p d \<Longrightarrow> fst (mem_mongo_cmd c (FindOne p) s) = MNoDocuments"
    by (auto split: option.splits simp: find_Some_iff)
next
  fix s c p ord pg
  show "doc_page_ok pg \<Longrightarrow> \<exists>docs. fst (mem_mongo_cmd c (Find p ord pg) s) = MDocs (doc_page pg docs)
        \<and> mset docs = mset (filter (matches p) (mm_docs s c)) \<and> sorted_wrt (doc_precedes ord) docs"
    by (rule exI [of _ "foldr (ins_row (doc_precedes ord)) (filter (matches p) (mm_docs s c)) []"])
       (auto simp: mset_ins_rows doc_page_ok_def sorted_docs split: option.splits)
next
  fix s c p upd
  show "\<exists>d \<in> set (mm_docs s c). matches p d \<Longrightarrow>
      \<exists>i < length (mm_docs s c). matches p (mm_docs s c ! i)
        \<and> (if update_clashes c i upd (mm_docs s c)
            then fst (mem_mongo_cmd c (UpdateOne p upd) s) = MErr \<and> mm_docs (snd (mem_mongo_cmd c (UpdateOne p upd) s)) c = mm_docs s c
            else fst (mem_mongo_cmd c (UpdateOne p upd) s) = MDone
              \<and> mm_docs (snd (mem_mongo_cmd c (UpdateOne p upd) s)) c = updated_at i upd (mm_docs s c))"
    by (erule first_match_Some) (auto simp: mem_put_def)
qed (auto simp: mem_put_def first_match_None)

end
