(* ===== verification/Mongo_Dao.thy ===== *)
theory Mongo_Dao
  imports Mongo_Client Plugin_Dao
begin

text \<open>
  The MongoDB side of the data layer: the documents of \<^verbatim>\<open>internal/domain/dao/impl/mongo/document\<close> with their
  BSON form, the mappers of \<^verbatim>\<open>.../mapper\<close> between documents and entities, and the data access objects for
  users, refresh tokens, plugins and extensions. A \<^verbatim>\<open>nil\<close> document or entity is \<open>None\<close>.

  BSON keeps a time to the millisecond, and leaves a field tagged \<^verbatim>\<open>omitempty\<close> out when it is empty.
\<close>

subsection \<open>Documents\<close>

record UserDocument =
  ud_NumericID :: int
  ud_Username :: string
  ud_Email :: string
  ud_Password :: string
  ud_FirstName :: string
  ud_LastName :: string
  ud_Role :: string
  ud_IsActive :: bool
  ud_IsVerified :: bool
  ud_CreatedAt :: time
  ud_UpdatedAt :: time
  ud_DeletedAt :: "time option"

record RefreshTokenDocument =
  td_NumericID :: int
  td_UserID :: int
  td_Token :: string
  td_ExpiresAt :: time
  td_Revoked :: bool
  td_CreatedAt :: time
  td_DeletedAt :: "time option"

record PluginDocument =
  pd_NumericID :: int
  pd_Key :: string
  pd_Name :: string
  pd_Description :: string
  pd_Version :: string
  pd_Author :: string
  pd_Type :: string
  pd_State :: string
  pd_Config :: string
  pd_Checksum :: string
  pd_Path :: string
  pd_InstalledAt :: time
  pd_EnabledAt :: "time option"
  pd_CreatedAt :: time
  pd_UpdatedAt :: time
  pd_DeletedAt :: "time option"

record PluginExtensionDocument =
  xd_NumericID :: int
  xd_PluginID :: int
  xd_Name :: string
  xd_Type :: string
  xd_Path :: string
  xd_Handler :: string
  xd_Config :: string
  xd_CreatedAt :: time
  xd_DeletedAt :: "time option"

definition doc_IsExpired :: "time \<Rightarrow> RefreshTokenDocument \<Rightarrow> bool" where
  "doc_IsExpired now d \<longleftrightarrow> now > td_ExpiresAt d"

definition doc_IsValid :: "time \<Rightarrow> RefreshTokenDocument \<Rightarrow> bool" where
  "doc_IsValid now d \<longleftrightarrow> \<not> td_Revoked d \<and> \<not> doc_IsExpired now d"

definition doc_IsEnabled :: "PluginDocument \<Rightarrow> bool" where
  "doc_IsEnabled d \<longleftrightarrow> pd_State d = ''ENABLED''"

subsection \<open>BSON\<close>

definition to_ms :: "time \<Rightarrow> int" where
  "to_ms t = t div 1000000"

definition of_ms :: "int \<Rightarrow> time" where
  "of_ms m = m * 1000000"

text \<open>The time that is read back.\<close>

definition trunc_ms :: "time \<Rightarrow> time" where
  "trunc_ms t = of_ms (to_ms t)"

lemma to_ms_of_ms [simp]: "to_ms (of_ms m) = m"
  by (simp add: to_ms_def of_ms_def)

lemma trunc_ms_bounds: "trunc_ms t \<le> t" "t < trunc_ms t + 1000000"
  by (simp_all add: trunc_ms_def of_ms_def to_ms_def)

text \<open>A document as a list of its fields in order; \<open>None\<close> is a field that is left out.\<close>

definition str_omit :: "string \<Rightarrow> bson option" where
  "str_omit s = (if s = [] then None else Some (BStr s))"

definition time_omit :: "time option \<Rightarrow> bson option" where
  "time_omit t = map_option (\<lambda>t. BDate (to_ms t)) t"

definition bson_doc :: "(string \<times> bson option) list \<Rightarrow> bdoc" where
  "bson_doc fs k = (case map_of fs k of None \<Rightarrow> None | Some v \<Rightarrow> v)"

lemma bson_doc_simps [simp]:
  "bson_doc [] = Map.empty"
  "bson_doc ((k, v) # fs) = (\<lambda>x. if x = k then v else bson_doc fs x)"
  by (auto simp: bson_doc_def)

definition user_bson :: "UserDocument \<Rightarrow> bdoc" where
  "user_bson d = bson_doc
     [(''numeric_id'', Some (BInt (ud_NumericID d))), (''username'', Some (BStr (ud_Username d))),
      (''email'', Some (BStr (ud_Email d))), (''password'', Some (BStr (ud_Password d))),
      (''first_name'', str_omit (ud_FirstName d)), (''last_name'', str_omit (ud_LastName d)),
      (''role'', Some (BStr (ud_Role d))), (''is_active'', Some (BBool (ud_IsActive d))),
      (''is_verified'', Some (BBool (ud_IsVerified d))), (''created_at'', Some (BDate (to_ms (ud_CreatedAt d)))),
      (''updated_at'', Some (BDate (to_ms (ud_UpdatedAt d)))), (''deleted_at'', time_omit (ud_DeletedAt d))]"

definition token_bson :: "RefreshTokenDocument \<Rightarrow> bdoc" where
  "token_bson d = bson_doc
     [(''numeric_id'', Some (BInt (td_NumericID d))), (''user_id'', Some (BInt (td_UserID d))),
      (''token'', Some (BStr (td_Token d))), (''expires_at'', Some (BDate (to_ms (td_ExpiresAt d)))),
      (''revoked'', Some (BBool (td_Revoked d))), (''created_at'', Some (BDate (to_ms (td_CreatedAt d)))),
      (''deleted_at'', time_omit (td_DeletedAt d))]"

definition plugin_bson :: "PluginDocument \<Rightarrow> bdoc" where
  "plugin_bson d = bson_doc
     [(''numeric_id'', Some (BInt (pd_NumericID d))), (''key'', Some (BStr (pd_Key d))),
      (''name'', Some (BStr (pd_Name d))), (''description'', str_omit (pd_Description d)),
      (''version'', Some (BStr (pd_Version d))), (''author'', str_omit (pd_Author d)),
      (''type'', Some (BStr (pd_Type d))), (''state'', Some (BStr (pd_State d))),
      (''config'', str_omit (pd_Config d)), (''checksum'', str_omit (pd_Checksum d)),
      (''path'', str_omit (pd_Path d)), (''installed_at'', Some (BDate (to_ms (pd_InstalledAt d)))),
      (''enabled_at'', time_omit (pd_EnabledAt d)), (''created_at'', Some (BDate (to_ms (pd_CreatedAt d)))),
      (''updated_at'', Some (BDate (to_ms (pd_UpdatedAt d)))), (''deleted_at'', time_omit (pd_DeletedAt d))]"

definition extension_bson :: "PluginExtensionDocument \<Rightarrow> bdoc" where
  "extension_bson d = bson_doc
     [(''numeric_id'', Some (BInt (xd_NumericID d))), (''plugin_id'', Some (BInt (xd_PluginID d))),
      (''name'', Some (BStr (xd_Name d))), (''type'', Some (BStr (xd_Type d))), (''path'', str_omit (xd_Path d)),
      (''handler'', str_omit (xd_Handler d)), (''config'', str_omit (xd_Config d)),
      (''created_at'', Some (BDate (to_ms (xd_CreatedAt d)))), (''deleted_at'', time_omit (xd_DeletedAt d))]"

text \<open>Decoding: a missing or null field is the zero value, a field of another type is an error.\<close>

datatype kind = KInt | KStr | KBool | KTime

fun of_kind :: "kind \<Rightarrow> bson \<Rightarrow> bool" where
  "of_kind k BNull = True"
| "of_kind k (BInt n) = (k = KInt)"
| "of_kind k (BStr s) = (k = KStr)"
| "of_kind k (BBool b) = (k = KBool)"
| "of_kind k (BDate m) = (k = KTime)"

definition typed :: "(string \<times> kind) list \<Rightarrow> bdoc \<Rightarrow> bool" where
  "typed ks d = list_all (\<lambda>(f, k). case d f of None \<Rightarrow> True | Some v \<Rightarrow> of_kind k v) ks"

definition get_int :: "string \<Rightarrow> bdoc \<Rightarrow> int" where
  "get_int f d = (case d f of Some (BInt n) \<Rightarrow> n | _ \<Rightarrow> 0)"

definition get_str :: "string \<Rightarrow> bdoc \<Rightarrow> string" where
  "get_str f d = (case d f of Some (BStr s) \<Rightarrow> s | _ \<Rightarrow> [])"

definition get_bool :: "string \<Rightarrow> bdoc \<Rightarrow> bool" where
  "get_bool f d = (case d f of Some (BBool b) \<Rightarrow> b | _ \<Rightarrow> False)"

definition get_time :: "string \<Rightarrow> bdoc \<Rightarrow> time" where
  "get_time f d = (case d f of Some (BDate m) \<Rightarrow> of_ms m | _ \<Rightarrow> zero_time)"

definition get_time_opt :: "string \<Rightarrow> bdoc \<Rightarrow> time option" where
  "get_time_opt f d = (case d f of Some (BDate m) \<Rightarrow> Some (of_ms m) | _ \<Rightarrow> None)"

lemmas bson_gets = get_int_def get_str_def get_bool_def get_time_def get_time_opt_def

definition user_kinds :: "(string \<times> kind) list" where
  "user_kinds =
     [(''numeric_id'', KInt), (''username'', KStr), (''email'', KStr), (''password'', KStr), (''first_name'', KStr),
      (''last_name'', KStr), (''role'', KStr), (''is_active'', KBool), (''is_verified'', KBool), (''created_at'', KTime),
      (''updated_at'', KTime), (''deleted_at'', KTime)]"

definition user_of_bson :: "bdoc \<Rightarrow> UserDocument option" where
  "user_of_bson d =
     (if typed user_kinds d
      then Some \<lparr>ud_NumericID = get_int ''numeric_id'' d, ud_Username = get_str ''username'' d,
        ud_Email = get_str ''email'' d, ud_Password = get_str ''password'' d, ud_FirstName = get_str ''first_name'' d,
        ud_LastName = get_str ''last_name'' d, ud_Role = get_str ''role'' d, ud_IsActive = get_bool ''is_active'' d,
        ud_IsVerified = get_bool ''is_verified'' d, ud_CreatedAt = get_time ''created_at'' d,
        ud_UpdatedAt = get_time ''updated_at'' d, ud_DeletedAt = get_time_opt ''deleted_at'' d\<rparr>
      else None)"

definition token_kinds :: "(string \<times> kind) list" where
  "token_kinds =
     [(''numeric_id'', KInt), (''user_id'', KInt), (''token'', KStr), (''expires_at'', KTime), (''revoked'', KBool),
      (''created_at'', KTime), (''deleted_at'', KTime)]"

definition token_of_bson :: "bdoc \<Rightarrow> RefreshTokenDocument option" where
  "token_of_bson d =
     (if typed token_kinds d
      then Some \<lparr>td_NumericID = get_int ''numeric_id'' d, td_UserID = get_int ''user_id'' d, td_Token = get_str ''token'' d,
        td_ExpiresAt = get_time ''expires_at'' d, td_Revoked = get_bool ''revoked'' d,
        td_CreatedAt = get_time ''created_at'' d, td_DeletedAt = get_time_opt ''deleted_at'' d\<rparr>
      else None)"

definition plugin_kinds :: "(string \<times> kind) list" where
  "plugin_kinds =
     [(''numeric_id'', KInt), (''key'', KStr), (''name'', KStr), (''description'', KStr), (''version'', KStr),
      (''author'', KStr), (''type'', KStr), (''state'', KStr), (''config'', KStr), (''checksum'', KStr), (''path'', KStr),
      (''installed_at'', KTime), (''enabled_at'', KTime), (''created_at'', KTime), (''updated_at'', KTime),
      (''deleted_at'', KTime)]"

definition plugin_of_bson :: "bdoc \<Rightarrow> PluginDocument option" where
  "plugin_of_bson d =
     (if typed plugin_kinds d
      then Some \<lparr>pd_NumericID = get_int ''numeric_id'' d, pd_Key = get_str ''key'' d, pd_Name = get_str ''name'' d,
        pd_Description = get_str ''description'' d, pd_Version = get_str ''version'' d, pd_Author = get_str ''author'' d,
        pd_Type = get_str ''type'' d, pd_State = get_str ''state'' d, pd_Config = get_str ''config'' d,
        pd_Checksum = get_str ''checksum'' d, pd_Path = get_str ''path'' d, pd_InstalledAt = get_time ''installed_at'' d,
        pd_EnabledAt = get_time_opt ''enabled_at'' d, pd_CreatedAt = get_time ''created_at'' d,
        pd_UpdatedAt = get_time ''updated_at'' d, pd_DeletedAt = get_time_opt ''deleted_at'' d\<rparr>
      else None)"

definition extension_kinds :: "(string \<times> kind) list" where
  "extension_kinds =
     [(''numeric_id'', KInt), (''plugin_id'', KInt), (''name'', KStr), (''type'', KStr), (''path'', KStr),
      (''handler'', KStr), (''config'', KStr), (''created_at'', KTime), (''deleted_at'', KTime)]"

definition extension_of_bson :: "bdoc \<Rightarrow> PluginExtensionDocument option" where
  "extension_of_bson d =
     (if typed extension_kinds d
      then Some \<lparr>xd_NumericID = get_int ''numeric_id'' d, xd_PluginID = get_int ''plugin_id'' d, xd_Name = get_str ''name'' d,
        xd_Type = get_str ''type'' d, xd_Path = get_str ''path'' d, xd_Handler = get_str ''handler'' d,
        xd_Config = get_str ''config'' d, xd_CreatedAt = get_time ''created_at'' d,
        xd_DeletedAt = get_time_opt ''deleted_at'' d\<rparr>
      else None)"

subsection \<open>Mappers\<close>

definition user_ToDocument :: "User option \<Rightarrow> UserDocument option" where
  "user_ToDocument = map_option (\<lambda>u.
     \<lparr>ud_NumericID = u_ID u, ud_Username = u_Username u, ud_Email = u_Email u, ud_Password = u_Password u,
      ud_FirstName = u_FirstName u, ud_LastName = u_LastName u, ud_Role = u_Role u, ud_IsActive = u_IsActive u,
      ud_IsVerified = u_IsVerified u, ud_CreatedAt = u_CreatedAt u, ud_UpdatedAt = u_UpdatedAt u,
      ud_DeletedAt = u_DeletedAt u\<rparr>)"

definition user_ToEntity :: "UserDocument option \<Rightarrow> User option" where
  "user_ToEntity = map_option (\<lambda>d.
     \<lparr>u_ID = ud_NumericID d, u_Username = ud_Username d, u_Email = ud_Email d, u_Password = ud_Password d,
      u_FirstName = ud_FirstName d, u_LastName = ud_LastName d, u_Role = ud_Role d, u_IsActive = ud_IsActive d,
      u_IsVerified = ud_IsVerified d, u_CreatedAt = ud_CreatedAt d, u_UpdatedAt = ud_UpdatedAt d,
      u_DeletedAt = ud_DeletedAt d\<rparr>)"

definition token_ToDocument :: "RefreshToken option \<Rightarrow> RefreshTokenDocument option" where
  "token_ToDocument = map_option (\<lambda>t.
     \<lparr>td_NumericID = rt_ID t, td_UserID = rt_UserID t, td_Token = rt_Token t, td_ExpiresAt = rt_ExpiresAt t,
      td_Revoked = rt_Revoked t, td_CreatedAt = rt_CreatedAt t, td_DeletedAt = rt_DeletedAt t\<rparr>)"

definition token_ToEntity :: "RefreshTokenDocument option \<Rightarrow> RefreshToken option" where
  "token_ToEntity = map_option (\<lambda>d.
     \<lparr>rt_ID = td_NumericID d, rt_UserID = td_UserID d, rt_Token = td_Token d, rt_ExpiresAt = td_ExpiresAt d,
      rt_Revoked = td_Revoked d, rt_CreatedAt = td_CreatedAt d, rt_DeletedAt = td_DeletedAt d, rt_User = zero_user\<rparr>)"

definition plugin_ToDocument :: "Plugin option \<Rightarrow> PluginDocument option" where
  "plugin_ToDocument = map_option (\<lambda>p.
     \<lparr>pd_NumericID = pl_ID p, pd_Key = pl_Key p, pd_Name = pl_Name p, pd_Description = pl_Description p,
      pd_Version = pl_Version p, pd_Author = pl_Author p, pd_Type = pl_Type p, pd_State = pl_State p,
      pd_Config = pl_Config p, pd_Checksum = pl_Checksum p, pd_Path = pl_Path p, pd_InstalledAt = pl_InstalledAt p,
      pd_EnabledAt = pl_EnabledAt p, pd_CreatedAt = pl_CreatedAt p, pd_UpdatedAt = pl_UpdatedAt p,
      pd_DeletedAt = pl_DeletedAt p\<rparr>)"

definition plugin_ToEntity :: "PluginDocument option \<Rightarrow> Plugin option" where
  "plugin_ToEntity = map_option (\<lambda>d.
     \<lparr>pl_ID = pd_NumericID d, pl_Key = pd_Key d, pl_Name = pd_Name d, pl_Description = pd_Description d,
      pl_Version = pd_Version d, pl_Author = pd_Author d, pl_Type = pd_Type d, pl_State = pd_State d,
      pl_Config = pd_Config d, pl_Checksum = pd_Checksum d, pl_Path = pd_Path d, pl_InstalledAt = pd_InstalledAt d,
      pl_EnabledAt = pd_EnabledAt d, pl_CreatedAt = pd_CreatedAt d, pl_UpdatedAt = pd_UpdatedAt d,
      pl_DeletedAt = pd_DeletedAt d\<rparr>)"

definition extension_ToDocument :: "PluginExtension option \<Rightarrow> PluginExtensionDocument option" where
  "extension_ToDocument = map_option (\<lambda>x.
     \<lparr>xd_NumericID = px_ID x, xd_PluginID = px_PluginID x, xd_Name = px_Name x, xd_Type = px_Type x,
      xd_Path = px_Path x, xd_Handler = px_Handler x, xd_Config = px_Config x, xd_CreatedAt = px_CreatedAt x,
      xd_DeletedAt = px_DeletedAt x\<rparr>)"

definition extension_ToEntity :: "PluginExtensionDocument option \<Rightarrow> PluginExtension option" where
  "extension_ToEntity = map_option (\<lambda>d.
     \<lparr>px_ID = xd_NumericID d, px_PluginID = xd_PluginID d, px_Name = xd_Name d, px_Type = xd_Type d,
      px_Path = xd_Path d, px_Handler = xd_Handler d, px_Config = xd_Config d, px_CreatedAt = xd_CreatedAt d,
      px_DeletedAt = xd_DeletedAt d, px_Plugin = zero_plugin\<rparr>)"

text \<open>Slices, of any of the entities: \<^verbatim>\<open>nil\<close> stays \<^verbatim>\<open>nil\<close>, each element is mapped.\<close>

definition user_ToEntities :: "UserDocument option list option \<Rightarrow> User option list option" where
  "user_ToEntities = map_option (map user_ToEntity)"

definition user_ToDocuments :: "User option list option \<Rightarrow> UserDocument option list option" where
  "user_ToDocuments = map_option (map user_ToDocument)"

definition token_ToEntities :: "RefreshTokenDocument option list option \<Rightarrow> RefreshToken option list option" where
  "token_ToEntities = map_option (map token_ToEntity)"

definition token_ToDocuments :: "RefreshToken option list option \<Rightarrow> RefreshTokenDocument option list option" where
  "token_ToDocuments = map_option (map token_ToDocument)"

definition plugin_ToEntities :: "PluginDocument option list option \<Rightarrow> Plugin option list option" where
  "plugin_ToEntities = map_option (map plugin_ToEntity)"

definition plugin_ToDocuments :: "Plugin option list option \<Rightarrow> PluginDocument option list option" where
  "plugin_ToDocuments = map_option (map plugin_ToDocument)"

definition extension_ToEntities :: "PluginExtensionDocument option list option \<Rightarrow> PluginExtension option list option" where
  "extension_ToEntities = map_option (map extension_ToEntity)"

definition extension_ToDocuments :: "PluginExtension option list option \<Rightarrow> PluginExtensionDocument option list option" where
  "extension_ToDocuments = map_option (map extension_ToDocument)"

lemmas mapper_defs = user_ToDocument_def user_ToEntity_def token_ToDocument_def token_ToEntity_def
  plugin_ToDocument_def plugin_ToEntity_def extension_ToDocument_def extension_ToEntity_def

text \<open>What is written for an entity, and the entity a stored document stands for.\<close>

definition user_doc :: "User \<Rightarrow> bdoc" where
  "user_doc u = (case user_ToDocument (Some u) of Some d \<Rightarrow> user_bson d | None \<Rightarrow> Map.empty)"

definition user_entity :: "bdoc \<Rightarrow> User option" where
  "user_entity d = user_ToEntity (user_of_bson d)"

definition token_doc :: "RefreshToken \<Rightarrow> bdoc" where
  "token_doc t = (case token_ToDocument (Some t) of Some d \<Rightarrow> token_bson d | None \<Rightarrow> Map.empty)"

definition token_entity :: "bdoc \<Rightarrow> RefreshToken option" where
  "token_entity d = token_ToEntity (token_of_bson d)"

definition plugin_doc :: "Plugin \<Rightarrow> bdoc" where
  "plugin_doc p = (case plugin_ToDocument (Some p) of Some d \<Rightarrow> plugin_bson d | None \<Rightarrow> Map.empty)"

definition plugin_entity :: "bdoc \<Rightarrow> Plugin option" where
  "plugin_entity d = plugin_ToEntity (plugin_of_bson d)"

definition extension_doc :: "PluginExtension \<Rightarrow> bdoc" where
  "extension_doc x = (case extension_ToDocument (Some x) of Some d \<Rightarrow> extension_bson d | None \<Rightarrow> Map.empty)"

definition extension_entity :: "bdoc \<Rightarrow> PluginExtension option" where
  "extension_entity d = extension_ToEntity (extension_of_bson d)"

subsection \<open>Users\<close>

text \<open>The clock is read twice by \<^verbatim>\<open>Create\<close>. The result is the entity behind the pointer afterwards.\<close>

definition by_id :: "int \<Rightarrow> mfilter" where
  "by_id i = MEq ''numeric_id'' (BInt i)"

definition created :: "'s mongo \<Rightarrow> string \<Rightarrow> ('e \<Rightarrow> bdoc) \<Rightarrow> (int \<Rightarrow> 'e) \<Rightarrow> ('s, 'e) svc" where
  "created db coll doc mk =
     and_then (NextID db coll) (\<lambda>i. and_then (insertOne db coll (doc (mk i))) (\<lambda>_. ret (mk i)))"

definition musers_Create :: "'s mongo \<Rightarrow> time \<Rightarrow> time \<Rightarrow> User \<Rightarrow> ('s, User) svc" where
  "musers_Create db now now' user =
     created db ''users'' user_doc (\<lambda>i. user\<lparr>u_ID := i, u_CreatedAt := now, u_UpdatedAt := now'\<rparr>)"

definition musers_FindByID :: "'s mongo \<Rightarrow> int \<Rightarrow> ('s, User option) svc" where
  "musers_FindByID db i = findOneByFilter db ''users'' user_entity (withNotDeleted (by_id i))"

definition musers_Update :: "'s mongo \<Rightarrow> time \<Rightarrow> User \<Rightarrow> ('s, unit) svc" where
  "musers_Update db now user = updateOne db ''users'' (by_id (u_ID user)) (user_doc (user\<lparr>u_UpdatedAt := now\<rparr>))"

definition musers_Delete :: "'s mongo \<Rightarrow> time \<Rightarrow> int \<Rightarrow> ('s, unit) svc" where
  "musers_Delete db now i = updateOne db ''users'' (by_id i) [''deleted_at'' \<mapsto> BDate (to_ms now)]"

definition musers_FindAll :: "'s mongo \<Rightarrow> int \<Rightarrow> int \<Rightarrow> ('s, User list \<times> int) svc" where
  "musers_FindAll db = mongo_find_all db ''users'' user_entity ''numeric_id''"

definition musers_Count :: "'s mongo \<Rightarrow> ('s, int) svc" where
  "musers_Count db = mongo_count db ''users'' notDeletedFilter"

definition musers_ExistsBy :: "'s mongo \<Rightarrow> string \<Rightarrow> bson \<Rightarrow> ('s, bool) svc" where
  "musers_ExistsBy db f v = existsBy db ''users'' f v"

definition musers_FindByUsername :: "'s mongo \<Rightarrow> string \<Rightarrow> ('s, User option) svc" where
  "musers_FindByUsername db username =
     findOneByFilter db ''users'' user_entity (withNotDeleted (MEq ''username'' (BStr username)))"

definition musers_FindByEmail :: "'s mongo \<Rightarrow> string \<Rightarrow> ('s, User option) svc" where
  "musers_FindByEmail db email = findOneByFilter db ''users'' user_entity (withNotDeleted (MEq ''email'' (BStr email)))"

definition musers_FindByUsernameOrEmail :: "'s mongo \<Rightarrow> string \<Rightarrow> ('s, User option) svc" where
  "musers_FindByUsernameOrEmail db x =
     findOneByFilter db ''users'' user_entity
       (MBoth (MEither (MEq ''username'' (BStr x)) (MEq ''email'' (BStr x))) (MIsNil ''deleted_at''))"

definition musers_ExistsByUsername :: "'s mongo \<Rightarrow> string \<Rightarrow> ('s, bool) svc" where
  "musers_ExistsByUsername db username = existsBy db ''users'' ''username'' (BStr username)"

definition musers_ExistsByEmail :: "'s mongo \<Rightarrow> string \<Rightarrow> ('s, bool) svc" where
  "musers_ExistsByEmail db email = existsBy db ''users'' ''email'' (BStr email)"

subsection \<open>Refresh tokens\<close>

text \<open>\<open>find_user\<close> is \<^verbatim>\<open>FindByID\<close> of the field \<^verbatim>\<open>userDAO\<close>, or \<open>None\<close> if that is \<^verbatim>\<open>nil\<close>; its errors are ignored.\<close>

definition load_user :: "(int \<Rightarrow> ('s, User option) svc) option \<Rightarrow> RefreshToken option \<Rightarrow> ('s, RefreshToken option) svc" where
  "load_user find_user found s =
     (case (find_user, found) of
        (Some f, Some token) \<Rightarrow>
          (case f (rt_UserID token) s of
             (Inr (Some user), s1) \<Rightarrow> (Inr (Some (token\<lparr>rt_User := user\<rparr>)), s1)
           | (_, s1) \<Rightarrow> (Inr (Some token), s1))
      | _ \<Rightarrow> (Inr found, s))"

definition mtokens_Create :: "'s mongo \<Rightarrow> time \<Rightarrow> RefreshToken \<Rightarrow> ('s, RefreshToken) svc" where
  "mtokens_Create db now token = created db ''refresh_tokens'' token_doc (\<lambda>i. token\<lparr>rt_ID := i, rt_CreatedAt := now\<rparr>)"

definition mtokens_FindByID ::
  "'s mongo \<Rightarrow> (int \<Rightarrow> ('s, User option) svc) option \<Rightarrow> int \<Rightarrow> ('s, RefreshToken option) svc" where
  "mtokens_FindByID db find_user i =
     and_then (findOneByFilter db ''refresh_tokens'' token_entity (withNotDeleted (by_id i))) (load_user find_user)"

definition mtokens_Update :: "'s mongo \<Rightarrow> RefreshToken \<Rightarrow> ('s, unit) svc" where
  "mtokens_Update db token = updateOne db ''refresh_tokens'' (by_id (rt_ID token)) (token_doc token)"

definition mtokens_Delete :: "'s mongo \<Rightarrow> time \<Rightarrow> int \<Rightarrow> ('s, unit) svc" where
  "mtokens_Delete db now i = updateOne db ''refresh_tokens'' (by_id i) [''deleted_at'' \<mapsto> BDate (to_ms now)]"

definition mtokens_FindAll :: "'s mongo \<Rightarrow> int \<Rightarrow> int \<Rightarrow> ('s, RefreshToken list \<times> int) svc" where
  "mtokens_FindAll db = mongo_find_all db ''refresh_tokens'' token_entity ''created_at''"

definition mtokens_Count :: "'s mongo \<Rightarrow> ('s, int) svc" where
  "mtokens_Count db = mongo_count db ''refresh_tokens'' notDeletedFilter"

definition mtokens_ExistsBy :: "'s mongo \<Rightarrow> string \<Rightarrow> bson \<Rightarrow> ('s, bool) svc" where
  "mtokens_ExistsBy db f v = existsBy db ''refresh_tokens'' f v"

definition mtokens_FindByToken ::
  "'s mongo \<Rightarrow> (int \<Rightarrow> ('s, User option) svc) option \<Rightarrow> string \<Rightarrow> ('s, RefreshToken option) svc" where
  "mtokens_FindByToken db find_user token =
     and_then
       (findOneByFilter db ''refresh_tokens'' token_entity
          (MBoth (MBoth (MEq ''token'' (BStr token)) (MEq ''revoked'' (BBool False))) (MIsNil ''deleted_at'')))
       (load_user find_user)"

definition mtokens_RevokeByToken :: "'s mongo \<Rightarrow> string \<Rightarrow> ('s, unit) svc" where
  "mtokens_RevokeByToken db token =
     updateOne db ''refresh_tokens'' (MEq ''token'' (BStr token)) [''revoked'' \<mapsto> BBool True]"

definition mtokens_RevokeAllByUserID :: "'s mongo \<Rightarrow> int \<Rightarrow> ('s, unit) svc" where
  "mtokens_RevokeAllByUserID db userID =
     updateMany db ''refresh_tokens'' (MEq ''user_id'' (BInt userID)) [''revoked'' \<mapsto> BBool True]"

definition mtokens_DeleteExpired :: "'s mongo \<Rightarrow> time \<Rightarrow> ('s, unit) svc" where
  "mtokens_DeleteExpired db now = deleteMany db ''refresh_tokens'' (MLess ''expires_at'' (to_ms now))"

subsection \<open>Plugins\<close>

definition mplugins_Create :: "'s mongo \<Rightarrow> time \<Rightarrow> time \<Rightarrow> Plugin \<Rightarrow> ('s, Plugin) svc" where
  "mplugins_Create db now now' plugin =
     created db ''plugins'' plugin_doc (\<lambda>i. plugin\<lparr>pl_ID := i, pl_CreatedAt := now, pl_UpdatedAt := now'\<rparr>)"

definition mplugins_FindByID :: "'s mongo \<Rightarrow> int \<Rightarrow> ('s, Plugin option) svc" where
  "mplugins_FindByID db i = findOneByFilter db ''plugins'' plugin_entity (withNotDeleted (by_id i))"

definition mplugins_Update :: "'s mongo \<Rightarrow> time \<Rightarrow> Plugin \<Rightarrow> ('s, unit) svc" where
  "mplugins_Update db now plugin =
     updateOne db ''plugins'' (by_id (pl_ID plugin)) (plugin_doc (plugin\<lparr>pl_UpdatedAt := now\<rparr>))"

definition mplugins_Delete :: "'s mongo \<Rightarrow> time \<Rightarrow> int \<Rightarrow> ('s, unit) svc" where
  "mplugins_Delete db now i =
     updateOne db ''plugins'' (by_id i) [''deleted_at'' \<mapsto> BDate (to_ms now), ''updated_at'' \<mapsto> BDate (to_ms now)]"

definition mplugins_FindAll :: "'s mongo \<Rightarrow> int \<Rightarrow> int \<Rightarrow> ('s, Plugin list \<times> int) svc" where
  "mplugins_FindAll db = mongo_find_all db ''plugins'' plugin_entity ''installed_at''"

definition mplugins_Count :: "'s mongo \<Rightarrow> ('s, int) svc" where
  "mplugins_Count db = mongo_count db ''plugins'' notDeletedFilter"

definition mplugins_ExistsBy :: "'s mongo \<Rightarrow> string \<Rightarrow> bson \<Rightarrow> ('s, bool) svc" where
  "mplugins_ExistsBy db f v = existsBy db ''plugins'' f v"

definition mplugins_FindByKey :: "'s mongo \<Rightarrow> string \<Rightarrow> ('s, Plugin option) svc" where
  "mplugins_FindByKey db key = findOneByFilter db ''plugins'' plugin_entity (withNotDeleted (MEq ''key'' (BStr key)))"

definition mplugins_DeleteByKey :: "'s mongo \<Rightarrow> time \<Rightarrow> string \<Rightarrow> ('s, unit) svc" where
  "mplugins_DeleteByKey db now key =
     updateOne db ''plugins'' (MEq ''key'' (BStr key))
       [''deleted_at'' \<mapsto> BDate (to_ms now), ''updated_at'' \<mapsto> BDate (to_ms now)]"

definition mplugins_FindByState :: "'s mongo \<Rightarrow> PluginState \<Rightarrow> ('s, Plugin list) svc" where
  "mplugins_FindByState db st =
     findManyByFilter db ''plugins'' plugin_entity (withNotDeleted (MEq ''state'' (BStr st))) (''name'', False) None"

definition mplugins_FindEnabled :: "'s mongo \<Rightarrow> ('s, Plugin list) svc" where
  "mplugins_FindEnabled db = mplugins_FindByState db PluginStateEnabled"

definition mplugins_ExistsByKey :: "'s mongo \<Rightarrow> string \<Rightarrow> ('s, bool) svc" where
  "mplugins_ExistsByKey db key = existsBy db ''plugins'' ''key'' (BStr key)"

definition mplugins_UpdateState :: "'s mongo \<Rightarrow> time \<Rightarrow> int \<Rightarrow> PluginState \<Rightarrow> ('s, unit) svc" where
  "mplugins_UpdateState db now i st =
     updateOne db ''plugins'' (by_id i)
       ([''state'' \<mapsto> BStr st, ''updated_at'' \<mapsto> BDate (to_ms now)] ++
        (if st = PluginStateEnabled then [''enabled_at'' \<mapsto> BDate (to_ms now)] else Map.empty))"

subsection \<open>Extensions\<close>

definition mextensions_Create :: "'s mongo \<Rightarrow> time \<Rightarrow> PluginExtension \<Rightarrow> ('s, PluginExtension) svc" where
  "mextensions_Create db now x = created db ''plugin_extensions'' extension_doc (\<lambda>i. x\<lparr>px_ID := i, px_CreatedAt := now\<rparr>)"

definition mextensions_FindByID :: "'s mongo \<Rightarrow> int \<Rightarrow> ('s, PluginExtension option) svc" where
  "mextensions_FindByID db i = findOneByFilter db ''plugin_extensions'' extension_entity (withNotDeleted (by_id i))"

definition mextensions_Update :: "'s mongo \<Rightarrow> PluginExtension \<Rightarrow> ('s, unit) svc" where
  "mextensions_Update db x = updateOne db ''plugin_extensions'' (by_id (px_ID x)) (extension_doc x)"

definition mextensions_Delete :: "'s mongo \<Rightarrow> time \<Rightarrow> int \<Rightarrow> ('s, unit) svc" where
  "mextensions_Delete db now i = updateOne db ''plugin_extensions'' (by_id i) [''deleted_at'' \<mapsto> BDate (to_ms now)]"

definition mextensions_FindAll :: "'s mongo \<Rightarrow> int \<Rightarrow> int \<Rightarrow> ('s, PluginExtension list \<times> int) svc" where
  "mextensions_FindAll db = mongo_find_all db ''plugin_extensions'' extension_entity ''created_at''"

definition mextensions_Count :: "'s mongo \<Rightarrow> ('s, int) svc" where
  "mextensions_Count db = mongo_count db ''plugin_extensions'' notDeletedFilter"

definition mextensions_ExistsBy :: "'s mongo \<Rightarrow> string \<Rightarrow> bson \<Rightarrow> ('s, bool) svc" where
  "mextensions_ExistsBy db f v = existsBy db ''plugin_extensions'' f v"

definition mextensions_FindByPluginID :: "'s mongo \<Rightarrow> int \<Rightarrow> ('s, PluginExtension list) svc" where
  "mextensions_FindByPluginID db i =
     findManyByFilter db ''plugin_extensions'' extension_entity (withNotDeleted (MEq ''plugin_id'' (BInt i)))
       (''name'', False) None"

definition mextensions_DeleteByPluginID :: "'s mongo \<Rightarrow> time \<Rightarrow> int \<Rightarrow> ('s, unit) svc" where
  "mextensions_DeleteByPluginID db now i =
     updateMany db ''plugin_extensions'' (MEq ''plugin_id'' (BInt i)) [''deleted_at'' \<mapsto> BDate (to_ms now)]"

end
