(* ===== verification/Mongo_Properties.thy ===== *)
theory Mongo_Properties
  imports Mongo_Dao
begin

text \<open>
  Properties of the MongoDB data layer under the laws of \<open>mongo_db\<close>. What the four collections have in
  common, how an entity is written and read back, is the locale \<open>mongo_entity\<close>, interpreted for users,
  refresh tokens, plugins and extensions; \<open>mongo_store\<close> joins it with a database, and the lemmas on
  creation, lookup and update are proved there once.
\<close>

subsection \<open>A collection in order\<close>

definition numeric_id :: "bdoc \<Rightarrow> bson option" where
  "numeric_id d = d ''numeric_id''"

definition id_within :: "int \<Rightarrow> bdoc \<Rightarrow> bool" where
  "id_within n d = (case numeric_id d of Some (BInt i) \<Rightarrow> 0 < i \<and> i \<le> n | _ \<Rightarrow> False)"

lemma id_within_iff: "id_within n d \<longleftrightarrow> (\<exists>i. numeric_id d = Some (BInt i) \<and> 0 < i \<and> i \<le> n)"
  by (auto simp: id_within_def split: option.splits bson.splits)

definition col_ok :: "(string \<times> kind) list \<Rightarrow> bdoc list \<Rightarrow> int \<Rightarrow> bool" where
  "col_ok ks docs n \<longleftrightarrow> 0 \<le> n \<and> distinct (map numeric_id docs) \<and> list_all (\<lambda>d. typed ks d \<and> id_within n d) docs"

lemma col_okD:
  assumes "col_ok ks docs n"
  shows "d \<in> set docs \<Longrightarrow> typed ks d" "d \<in> set docs \<Longrightarrow> id_within n d" "distinct (map numeric_id docs)"
  using assms by (auto simp: col_ok_def list_all_iff)

lemma col_ok_same_id:
  assumes "col_ok ks docs n" "d \<in> set docs" "d' \<in> set docs" "numeric_id d = numeric_id d'"
  shows "d = d'"
  using inj_onD [OF distinct_map [THEN iffD1, THEN conjunct2, OF col_okD(3) [OF assms(1)]] assms(4,2,3)] .

lemma typed_iff: "typed ks d \<longleftrightarrow> (\<forall>f k v. (f, k) \<in> set ks \<longrightarrow> d f = Some v \<longrightarrow> of_kind k v)"
  unfolding typed_def list_all_iff by (auto split: option.splits)

lemma typed_add: "typed ks d \<Longrightarrow> typed ks u \<Longrightarrow> typed ks (d ++ u)"
  unfolding typed_iff map_add_def by (fastforce split: option.splits)

lemma distinct_position:
  assumes "distinct (map f xs)" "i < length xs"
  shows "take i xs @ drop (Suc i) xs = filter (\<lambda>x. f x \<noteq> f (xs ! i)) xs"
    and "xs[i := g (xs ! i)] = map (\<lambda>x. if f x = f (xs ! i) then g x else x) xs"
proof -
  have xs: "xs = take i xs @ xs ! i # drop (Suc i) xs" using assms(2) by (rule id_take_nth_drop)
  have "distinct (map f (take i xs @ xs ! i # drop (Suc i) xs))" using assms(1) xs by argo
  then have n: "\<forall>x \<in> set (take i xs) \<union> set (drop (Suc i) xs). f x \<noteq> f (xs ! i)" by (auto simp: image_iff)
  then have "filter (\<lambda>x. f x \<noteq> f (xs ! i)) (take i xs @ xs ! i # drop (Suc i) xs) = take i xs @ drop (Suc i) xs"
    by (auto simp: filter_id_conv)
  then show "take i xs @ drop (Suc i) xs = filter (\<lambda>x. f x \<noteq> f (xs ! i)) xs" using xs by argo
  have "map (\<lambda>x. if f x = f (xs ! i) then g x else x) (take i xs @ xs ! i # drop (Suc i) xs) =
      take i xs @ g (xs ! i) # drop (Suc i) xs"
    using n by (auto intro!: map_idI)
  then show "xs[i := g (xs ! i)] = map (\<lambda>x. if f x = f (xs ! i) then g x else x) xs"
    using xs assms(2) by (metis upd_conv_take_nth_drop)
qed

lemma col_ok_map:
  assumes "col_ok ks docs n"
    and "\<And>d. d \<in> set docs \<Longrightarrow> typed ks (g d)" "\<And>d. d \<in> set docs \<Longrightarrow> numeric_id (g d) = numeric_id d"
  shows "col_ok ks (map g docs) n"
proof -
  have "map numeric_id (map g docs) = map numeric_id docs" using assms(3) by simp
  then show ?thesis using assms unfolding col_ok_def list_all_iff id_within_def by (simp del: map_map)
qed

lemma col_ok_filter: "col_ok ks docs n \<Longrightarrow> col_ok ks (filter P docs) n"
  by (auto simp: col_ok_def list_all_iff distinct_map_filter)

lemma col_ok_bump: "col_ok ks docs n \<Longrightarrow> col_ok ks docs (n + 1)"
  unfolding col_ok_def list_all_iff id_within_iff by (metis add.commute zle_add1_eq_le order_less_imp_le zless_add1_eq)

lemma col_ok_insert:
  assumes "col_ok ks docs n" "typed ks d" "numeric_id d = Some (BInt (n + 1))"
  shows "col_ok ks (docs @ [d]) (n + 1)"
proof -
  have "numeric_id d \<noteq> numeric_id d'" if "d' \<in> set docs" for d'
    using col_okD(2) [OF assms(1) that] assms(3) by (auto simp: id_within_iff)
  then have "distinct (map numeric_id (docs @ [d]))" using col_okD(3) [OF assms(1)] by (auto simp: image_iff)
  moreover have "0 \<le> n" using assms(1) by (simp add: col_ok_def)
  ultimately show ?thesis
    using assms(2,3) col_ok_bump [OF assms(1)] by (simp add: col_ok_def id_within_iff)
qed

text \<open>An update that keeps the key of every document it may reach.\<close>

definition keeps_ids :: "mfilter \<Rightarrow> bdoc \<Rightarrow> bool" where
  "keeps_ids p upd \<longleftrightarrow> (\<forall>d. matches p d \<longrightarrow> upd ''numeric_id'' = None \<or> upd ''numeric_id'' = d ''numeric_id'')"

lemma keeps_ids_id: "keeps_ids p upd \<Longrightarrow> matches p d \<Longrightarrow> numeric_id (d ++ upd) = numeric_id d"
  unfolding keeps_ids_def numeric_id_def by (auto simp: map_add_def split: option.splits)

subsection \<open>Databases\<close>

context mongo_db
begin

lemma NextID_result:
  assumes "up s"
  shows "fst (NextID db c s) = Inr (counter s c + 1)" "up (snd (NextID db c s))"
    "counter (snd (NextID db c s)) = (counter s)(c := counter s c + 1)"
    "c' \<noteq> ''counters'' \<Longrightarrow> view (snd (NextID db c s)) c' = view s c'"
  using Inc_law [OF assms, of c] stays_up [OF assms, of "''counters''" "FindOneAndInc c ''value''"]
    frame [OF assms, of c' "''counters''" "FindOneAndInc c ''value''"]
  by (auto simp: NextID_def split: prod.splits)

lemma mongo_done_state: "snd (mongo_done db c q s) = snd (db c q s)"
  by (simp add: mongo_done_def split: prod.splits mreply.splits)

lemma findOne_unique:
  assumes "up s" "d \<in> set (view s c)" "matches p d" "\<And>d'. d' \<in> set (view s c) \<Longrightarrow> matches p d' \<Longrightarrow> d' = d"
    and "dec d = Some e"
  shows "fst (findOneByFilter db c dec p s) = Inr (Some e)"
proof -
  obtain d' where "d' \<in> set (view s c)" "matches p d'" "fst (db c (FindOne p) s) = MDoc d'"
    using FindOne_some [OF assms(1), of c p] assms(2,3) by blast
  then have "fst (db c (FindOne p) s) = MDoc d" using assms(4) by blast
  then show ?thesis using assms(5) by (auto simp: findOneByFilter_def split: prod.splits)
qed

lemma findOne_nothing:
  assumes "up s" "\<And>d. d \<in> set (view s c) \<Longrightarrow> \<not> matches p d"
  shows "fst (findOneByFilter db c dec p s) = Inr None"
  using FindOne_none [OF assms(1), of c p] assms(2) by (auto simp: findOneByFilter_def split: prod.splits)

text \<open>The keys and the types survive every update.\<close>

lemma keep_updateOne:
  assumes "up s" "col_ok ks (view s c) n" "typed ks upd" "keeps_ids p upd"
  shows "col_ok ks (view (snd (db c (UpdateOne p upd) s)) c) n"
proof (cases "\<exists>d \<in> set (view s c). matches p d")
  case True
  then obtain i where i: "i < length (view s c)" "matches p (view s c ! i)"
    and v: "view (snd (db c (UpdateOne p upd) s)) c \<in> {view s c, updated_at i upd (view s c)}"
    using UpdateOne_some [OF assms(1), of c p upd] by (metis insertCI)
  have "updated_at i upd (view s c) =
      map (\<lambda>d. if numeric_id d = numeric_id (view s c ! i) then d ++ upd else d) (view s c)"
    unfolding updated_at_def using assms(2) i(1) by (intro distinct_position(2)) (auto simp: col_ok_def)
  moreover have "col_ok ks (map (\<lambda>d. if numeric_id d = numeric_id (view s c ! i) then d ++ upd else d) (view s c)) n"
  proof (rule col_ok_map [OF assms(2)])
    fix d assume d: "d \<in> set (view s c)"
    show "typed ks (if numeric_id d = numeric_id (view s c ! i) then d ++ upd else d)"
      using typed_add [OF _ assms(3)] col_okD(1) [OF assms(2) d] by simp
    have "d = view s c ! i" if "numeric_id d = numeric_id (view s c ! i)"
      using col_ok_same_id [OF assms(2) d] that i(1) by simp
    then show "numeric_id (if numeric_id d = numeric_id (view s c ! i) then d ++ upd else d) = numeric_id d"
      using keeps_ids_id [OF assms(4) i(2)] by auto
  qed
  ultimately show ?thesis using v assms(2) by auto
qed (use UpdateOne_none [OF assms(1)] assms(2) in auto)

lemma keep_updateMany:
  assumes "up s" "col_ok ks (view s c) n" "typed ks upd" "keeps_ids p upd" "\<forall>f \<in> set (unique_index c). upd f = None"
  shows "col_ok ks (view (snd (db c (UpdateMany p upd) s)) c) n"
proof -
  have v: "view (snd (db c (UpdateMany p upd) s)) c = map (\<lambda>d. if matches p d then d ++ upd else d) (view s c)"
    using UpdateMany_law [OF assms(1,5)] by blast
  show ?thesis
    unfolding v
    by (rule col_ok_map [OF assms(2)])
       (simp_all add: typed_add [OF _ assms(3)] col_okD(1) [OF assms(2)] keeps_ids_id [OF assms(4)])
qed

lemma keep_deleteMany:
  assumes "up s" "col_ok ks (view s c) n"
  shows "col_ok ks (view (snd (db c (DeleteMany p) s)) c) n"
  using DeleteMany_law [OF assms(1), of c p] assms(2) by (simp add: col_ok_filter)

text \<open>An update by key, of the one document that has it.\<close>

lemma update_by_id:
  assumes "up s" "col_ok ks (view s c) n" "d \<in> set (view s c)" "numeric_id d = Some (BInt i)"
    and "\<not> dup_key c (filter (\<lambda>d'. numeric_id d' \<noteq> numeric_id d) (view s c)) (d ++ upd)"
  shows "fst (updateOne db c (by_id i) upd s) = Inr ()"
    "view (snd (updateOne db c (by_id i) upd s)) c = map (\<lambda>d'. if numeric_id d' = numeric_id d then d' ++ upd else d') (view s c)"
proof -
  let ?v = "view s c"
  have m: "matches (by_id i) d' \<longleftrightarrow> numeric_id d' = numeric_id d" for d'
    by (simp add: by_id_def numeric_id_def assms(4) [unfolded numeric_id_def])
  obtain j where j: "j < length ?v" "matches (by_id i) (?v ! j)"
    and r: "if update_clashes c j upd ?v
      then fst (db c (UpdateOne (by_id i) upd) s) = MErr \<and> view (snd (db c (UpdateOne (by_id i) upd) s)) c = ?v
      else fst (db c (UpdateOne (by_id i) upd) s) = MDone
        \<and> view (snd (db c (UpdateOne (by_id i) upd) s)) c = updated_at j upd ?v"
    using UpdateOne_some [OF assms(1), of c "by_id i" upd] assms(3) m [of d] by blast
  have dist: "distinct (map numeric_id ?v)" using assms(2) by (simp add: col_ok_def)
  have e: "?v ! j = d" using col_ok_same_id [OF assms(2) _ assms(3)] j m [of "?v ! j"] by simp
  have "\<not> update_clashes c j upd ?v"
    using assms(5) unfolding update_clashes_def distinct_position(1) [OF dist j(1)] e .
  then have "fst (db c (UpdateOne (by_id i) upd) s) = MDone"
    "view (snd (db c (UpdateOne (by_id i) upd) s)) c = updated_at j upd ?v" using r by simp_all
  then show "fst (updateOne db c (by_id i) upd s) = Inr ()"
    "view (snd (updateOne db c (by_id i) upd s)) c = map (\<lambda>d'. if numeric_id d' = numeric_id d then d' ++ upd else d') ?v"
    using distinct_position(2) [OF dist j(1), of "\<lambda>d. d ++ upd"]
    by (auto simp: updateOne_def mongo_done_def updated_at_def e split: prod.splits)
qed

end

subsection \<open>Entities\<close>

text \<open>\<open>norm\<close> is what is left of an entity once it was stored.\<close>

locale mongo_entity =
  fixes ks :: "(string \<times> kind) list" and doc :: "'e \<Rightarrow> bdoc" and ent :: "bdoc \<Rightarrow> 'e option"
    and ident :: "'e \<Rightarrow> int" and norm :: "'e \<Rightarrow> 'e"
  assumes doc_typed: "typed ks (doc e)"
    and doc_id: "numeric_id (doc e) = Some (BInt (ident e))"
    and ent_doc: "ent (doc e) = Some (norm e)"
    and ent_typed: "typed ks d \<Longrightarrow> ent d \<noteq> None"

locale mongo_store = mongo_db db view counter up + mongo_entity ks doc ent ident norm
  for db :: "'s mongo" and view counter up ks and doc :: "'e \<Rightarrow> bdoc" and ent ident norm +
  fixes coll :: string
  assumes not_counters: "coll \<noteq> ''counters''"
begin

lemma created_ok:
  fixes mk :: "int \<Rightarrow> 'e"
  assumes "up s" "col_ok ks (view s coll) (counter s coll)" "\<And>i. ident (mk i) = i"
    and "\<not> dup_key coll (view s coll) (doc (mk (counter s coll + 1)))"
  defines "r \<equiv> created db coll doc mk s" and "n \<equiv> counter s coll + 1"
  shows "fst r = Inr (mk n)" "up (snd r)" "view (snd r) coll = view s coll @ [doc (mk n)]"
    "counter (snd r) = (counter s)(coll := n)" "col_ok ks (view (snd r) coll) (counter (snd r) coll)"
proof -
  let ?s = "snd (NextID db coll s)"
  note N = NextID_result [OF assms(1), where c = coll]
  have i: "fst (db coll (InsertOne (doc (mk n))) ?s) = MDone"
    "view (snd (db coll (InsertOne (doc (mk n))) ?s)) coll = view s coll @ [doc (mk n)]"
    using Insert_ok [OF N(2), of coll "doc (mk n)"] assms(4) by (simp_all add: N(3) N(4) [OF not_counters] n_def)
  then have r: "r = (Inr (mk n), snd (db coll (InsertOne (doc (mk n))) ?s))"
    unfolding r_def created_def and_then_Inr [where f = "NextID db coll", OF N(1)]
    by (auto simp: insertOne_def and_then_def mongo_done_def ret_def n_def split: prod.splits)
  show "fst r = Inr (mk n)" "up (snd r)" "view (snd r) coll = view s coll @ [doc (mk n)]"
    using i stays_up [OF N(2)] by (simp_all add: r)
  show c: "counter (snd r) = (counter s)(coll := n)"
    using counter_frame [OF N(2), of "InsertOne (doc (mk n))" coll] by (simp add: r N(3) n_def)
  show "col_ok ks (view (snd r) coll) (counter (snd r) coll)"
    using col_ok_insert [OF assms(2) doc_typed, of "mk n"] i c by (simp add: r doc_id assms(3) n_def)
qed

text \<open>Whatever happens, a creation leaves the collection in order and the others alone.\<close>

lemma created_keeps:
  fixes mk :: "int \<Rightarrow> 'e"
  assumes "up s" "col_ok ks (view s coll) (counter s coll)" "\<And>i. ident (mk i) = i"
  defines "s1 \<equiv> snd (created db coll doc mk s)"
  shows "up s1" "col_ok ks (view s1 coll) (counter s1 coll)"
    "c \<noteq> coll \<Longrightarrow> c \<noteq> ''counters'' \<Longrightarrow> view s1 c = view s c \<and> counter s1 c = counter s c"
proof -
  let ?n = "counter s coll + 1"
  let ?s = "snd (NextID db coll s)"
  let ?q = "InsertOne (doc (mk ?n))"
  note N = NextID_result [OF assms(1), where c = coll]
  have s1: "s1 = snd (db coll ?q ?s)"
    unfolding s1_def created_def and_then_Inr [where f = "NextID db coll", OF N(1)]
    by (auto simp: insertOne_def and_then_def mongo_done_def ret_def split: prod.splits mreply.splits)
  show "up s1" unfolding s1 by (rule stays_up [OF N(2)])
  have c: "counter s1 = (counter s)(coll := ?n)"
    using counter_frame [OF N(2), of ?q coll] by (simp add: s1 N(3))
  show "col_ok ks (view s1 coll) (counter s1 coll)"
  proof (cases "dup_key coll (view s coll) (doc (mk ?n))")
    case True
    then have "view s1 coll = view s coll"
      using Insert_err [OF N(2), of coll] N(4) [OF not_counters] by (simp add: s1)
    then show ?thesis using col_ok_bump [OF assms(2)] c by simp
  next
    case False
    then show ?thesis using created_ok(5) [OF assms(1-3)] by (simp add: s1_def)
  qed
  show "view s1 c = view s c \<and> counter s1 c = counter s c" if "c \<noteq> coll" "c \<noteq> ''counters''"
    using that frame [OF N(2), of c coll ?q] N(4) [OF that(2)] c by (simp add: s1)
qed

text \<open>A live document is found by its key, and the creation of an entity can be read back.\<close>

lemma find_by_id:
  assumes "up s" "col_ok ks (view s coll) n" "d \<in> set (view s coll)" "numeric_id d = Some (BInt i)"
    and "d ''deleted_at'' = None" "ent d = Some e"
  shows "fst (findOneByFilter db coll ent (withNotDeleted (by_id i)) s) = Inr (Some e)"
proof (rule findOne_unique [OF assms(1,3)])
  show "matches (withNotDeleted (by_id i)) d"
    using assms(4,5) by (simp add: withNotDeleted_def by_id_def numeric_id_def)
  show "d' = d" if "d' \<in> set (view s coll)" "matches (withNotDeleted (by_id i)) d'" for d'
    using col_ok_same_id [OF assms(2) that(1) assms(3)] that(2) assms(4)
    by (simp add: withNotDeleted_def by_id_def numeric_id_def)
qed (rule assms(6))

lemma created_found:
  fixes mk :: "int \<Rightarrow> 'e"
  assumes "up s" "col_ok ks (view s coll) (counter s coll)" "\<And>i. ident (mk i) = i"
    and "\<not> dup_key coll (view s coll) (doc (mk (counter s coll + 1)))"
    and "doc (mk (counter s coll + 1)) ''deleted_at'' = None"
  shows "fst (findOneByFilter db coll ent (withNotDeleted (by_id (counter s coll + 1))) (snd (created db coll doc mk s)))
    = Inr (Some (norm (mk (counter s coll + 1))))"
  using created_ok [OF assms(1-4)] assms(5) ent_doc doc_id assms(3)
  by (intro find_by_id [where d = "doc (mk (counter s coll + 1))"]) auto

lemma created_found_by:
  fixes mk :: "int \<Rightarrow> 'e"
  assumes "up s" "col_ok ks (view s coll) (counter s coll)" "\<And>i. ident (mk i) = i"
    and "\<not> dup_key coll (view s coll) (doc (mk (counter s coll + 1)))"
    and "doc (mk (counter s coll + 1)) ''deleted_at'' = None"
    and "matches p (doc (mk (counter s coll + 1)))" "\<forall>d \<in> set (view s coll). \<not> matches p d"
  shows "fst (findOneByFilter db coll ent (withNotDeleted p) (snd (created db coll doc mk s)))
    = Inr (Some (norm (mk (counter s coll + 1))))"
  using created_ok [OF assms(1-4)] assms(5-7) ent_doc
  by (intro findOne_unique [where d = "doc (mk (counter s coll + 1))"]) (auto simp: withNotDeleted_def)

text \<open>Every document of a collection in order can be decoded.\<close>

lemma all_decode:
  assumes "col_ok ks docs n" "d \<in> set docs"
  shows "\<exists>e. ent d = Some e"
  using ent_typed [OF col_okD(1) [OF assms]] by auto

end

definition stored_user :: "User \<Rightarrow> User" where
  "stored_user u = u\<lparr>u_CreatedAt := trunc_ms (u_CreatedAt u), u_UpdatedAt := trunc_ms (u_UpdatedAt u),
     u_DeletedAt := map_option trunc_ms (u_DeletedAt u)\<rparr>"

definition stored_token :: "RefreshToken \<Rightarrow> RefreshToken" where
  "stored_token t = t\<lparr>rt_ExpiresAt := trunc_ms (rt_ExpiresAt t), rt_CreatedAt := trunc_ms (rt_CreatedAt t),
     rt_DeletedAt := map_option trunc_ms (rt_DeletedAt t), rt_User := zero_user\<rparr>"

definition stored_plugin :: "Plugin \<Rightarrow> Plugin" where
  "stored_plugin p = p\<lparr>pl_InstalledAt := trunc_ms (pl_InstalledAt p), pl_EnabledAt := map_option trunc_ms (pl_EnabledAt p),
     pl_CreatedAt := trunc_ms (pl_CreatedAt p), pl_UpdatedAt := trunc_ms (pl_UpdatedAt p),
     pl_DeletedAt := map_option trunc_ms (pl_DeletedAt p)\<rparr>"

definition stored_extension :: "PluginExtension \<Rightarrow> PluginExtension" where
  "stored_extension x = x\<lparr>px_CreatedAt := trunc_ms (px_CreatedAt x), px_DeletedAt := map_option trunc_ms (px_DeletedAt x),
     px_Plugin := zero_plugin\<rparr>"

lemmas omit_defs = str_omit_def time_omit_def

interpretation user_docs: mongo_entity user_kinds user_doc user_entity u_ID stored_user
proof
  fix u :: User and d
  show "typed user_kinds (user_doc u)"
    by (simp add: typed_def user_kinds_def user_doc_def mapper_defs user_bson_def omit_defs split: option.splits)
  then show "user_entity (user_doc u) = Some (stored_user u)"
    by (cases u; simp add: user_entity_def user_of_bson_def)
       (simp add: bson_gets user_doc_def mapper_defs user_bson_def omit_defs stored_user_def trunc_ms_def split: option.splits)
  show "numeric_id (user_doc u) = Some (BInt (u_ID u))"
    by (simp add: numeric_id_def user_doc_def mapper_defs user_bson_def)
  show "typed user_kinds d \<Longrightarrow> user_entity d \<noteq> None" by (simp add: user_entity_def user_of_bson_def mapper_defs)
qed

interpretation token_docs: mongo_entity token_kinds token_doc token_entity rt_ID stored_token
proof
  fix t :: RefreshToken and d
  show "typed token_kinds (token_doc t)"
    by (simp add: typed_def token_kinds_def token_doc_def mapper_defs token_bson_def omit_defs split: option.splits)
  then show "token_entity (token_doc t) = Some (stored_token t)"
    by (cases t; simp add: token_entity_def token_of_bson_def)
       (simp add: bson_gets token_doc_def mapper_defs token_bson_def omit_defs stored_token_def trunc_ms_def split: option.splits)
  show "numeric_id (token_doc t) = Some (BInt (rt_ID t))"
    by (simp add: numeric_id_def token_doc_def mapper_defs token_bson_def)
  show "typed token_kinds d \<Longrightarrow> token_entity d \<noteq> None" by (simp add: token_entity_def token_of_bson_def mapper_defs)
qed

interpretation plugin_docs: mongo_entity plugin_kinds plugin_doc plugin_entity pl_ID stored_plugin
proof
  fix p :: Plugin and d
  show "typed plugin_kinds (plugin_doc p)"
    by (simp add: typed_def plugin_kinds_def plugin_doc_def mapper_defs plugin_bson_def omit_defs split: option.splits)
  then show "plugin_entity (plugin_doc p) = Some (stored_plugin p)"
    by (cases p; simp add: plugin_entity_def plugin_of_bson_def)
       (simp add: bson_gets plugin_doc_def mapper_defs plugin_bson_def omit_defs stored_plugin_def trunc_ms_def split: option.splits)
  show "numeric_id (plugin_doc p) = Some (BInt (pl_ID p))"
    by (simp add: numeric_id_def plugin_doc_def mapper_defs plugin_bson_def)
  show "typed plugin_kinds d \<Longrightarrow> plugin_entity d \<noteq> None" by (simp add: plugin_entity_def plugin_of_bson_def mapper_defs)
qed

interpretation extension_docs: mongo_entity extension_kinds extension_doc extension_entity px_ID stored_extension
proof
  fix x :: PluginExtension and d
  show "typed extension_kinds (extension_doc x)"
    by (simp add: typed_def extension_kinds_def extension_doc_def mapper_defs extension_bson_def omit_defs split: option.splits)
  then show "extension_entity (extension_doc x) = Some (stored_extension x)"
    by (cases x; simp add: extension_entity_def extension_of_bson_def)
       (simp add: bson_gets extension_doc_def mapper_defs extension_bson_def omit_defs stored_extension_def trunc_ms_def split: option.splits)
  show "numeric_id (extension_doc x) = Some (BInt (px_ID x))"
    by (simp add: numeric_id_def extension_doc_def mapper_defs extension_bson_def)
  show "typed extension_kinds d \<Longrightarrow> extension_entity d \<noteq> None" by (simp add: extension_entity_def extension_of_bson_def mapper_defs)
qed

text \<open>The four collections of one database.\<close>

lemma mongo_stores:
  assumes "mongo_db db view counter up"
  shows "mongo_store db view counter up user_kinds user_doc user_entity u_ID stored_user ''users''"
    "mongo_store db view counter up token_kinds token_doc token_entity rt_ID stored_token ''refresh_tokens''"
    "mongo_store db view counter up plugin_kinds plugin_doc plugin_entity pl_ID stored_plugin ''plugins''"
    "mongo_store db view counter up extension_kinds extension_doc extension_entity px_ID stored_extension ''plugin_extensions''"
  by (intro mongo_store.intro mongo_store_axioms.intro assms user_docs.mongo_entity_axioms token_docs.mongo_entity_axioms
      plugin_docs.mongo_entity_axioms extension_docs.mongo_entity_axioms; simp)+

interpretation mem_user_store: mongo_store mem_mongo_cmd mm_docs mm_counters "\<lambda>s. True"
  user_kinds user_doc user_entity u_ID stored_user "''users''"
  by (rule mongo_stores(1) [OF mem.mongo_db_axioms])

subsection \<open>Types and keys\<close>

datatype mdao_op =
    UserCreate time time User | UserUpdate time User | UserDelete time int
  | TokenCreate time RefreshToken | TokenUpdate RefreshToken | TokenDelete time int | TokenRevoke string
  | TokenRevokeAll int | TokenExpire time
  | PluginCreate time time Plugin | PluginUpdate time Plugin | PluginDelete time int | PluginDeleteByKey time string
  | PluginSetState time int PluginState
  | ExtensionCreate time PluginExtension | ExtensionUpdate PluginExtension | ExtensionDelete time int
  | ExtensionDeleteAll time int

fun mdao_step :: "'s mongo \<Rightarrow> mdao_op \<Rightarrow> 's \<Rightarrow> 's" where
  "mdao_step db (UserCreate now now' u) s = snd (musers_Create db now now' u s)"
| "mdao_step db (UserUpdate now u) s = snd (musers_Update db now u s)"
| "mdao_step db (UserDelete now i) s = snd (musers_Delete db now i s)"
| "mdao_step db (TokenCreate now t) s = snd (mtokens_Create db now t s)"
| "mdao_step db (TokenUpdate t) s = snd (mtokens_Update db t s)"
| "mdao_step db (TokenDelete now i) s = snd (mtokens_Delete db now i s)"
| "mdao_step db (TokenRevoke token) s = snd (mtokens_RevokeByToken db token s)"
| "mdao_step db (TokenRevokeAll i) s = snd (mtokens_RevokeAllByUserID db i s)"
| "mdao_step db (TokenExpire now) s = snd (mtokens_DeleteExpired db now s)"
| "mdao_step db (PluginCreate now now' p) s = snd (mplugins_Create db now now' p s)"
| "mdao_step db (PluginUpdate now p) s = snd (mplugins_Update db now p s)"
| "mdao_step db (PluginDelete now i) s = snd (mplugins_Delete db now i s)"
| "mdao_step db (PluginDeleteByKey now key) s = snd (mplugins_DeleteByKey db now key s)"
| "mdao_step db (PluginSetState now i st) s = snd (mplugins_UpdateState db now i st s)"
| "mdao_step db (ExtensionCreate now x) s = snd (mextensions_Create db now x s)"
| "mdao_step db (ExtensionUpdate x) s = snd (mextensions_Update db x s)"
| "mdao_step db (ExtensionDelete now i) s = snd (mextensions_Delete db now i s)"
| "mdao_step db (ExtensionDeleteAll now i) s = snd (mextensions_DeleteByPluginID db now i s)"

definition kinds_of :: "string \<Rightarrow> (string \<times> kind) list option" where
  "kinds_of = [''users'' \<mapsto> user_kinds, ''refresh_tokens'' \<mapsto> token_kinds, ''plugins'' \<mapsto> plugin_kinds,
     ''plugin_extensions'' \<mapsto> extension_kinds]"

definition mongo_ok :: "('s \<Rightarrow> string \<Rightarrow> bdoc list) \<Rightarrow> ('s \<Rightarrow> string \<Rightarrow> int) \<Rightarrow> 's \<Rightarrow> bool" where
  "mongo_ok view counter s \<longleftrightarrow> (\<forall>c ks. kinds_of c = Some ks \<longrightarrow> col_ok ks (view s c) (counter s c))"

lemma kinds_of_counters: "kinds_of c = Some ks \<Longrightarrow> c \<noteq> ''counters''"
  by (auto simp: kinds_of_def split: if_splits)

lemma kinds_of_simps [simp]:
  "kinds_of ''users'' = Some user_kinds" "kinds_of ''refresh_tokens'' = Some token_kinds"
  "kinds_of ''plugins'' = Some plugin_kinds" "kinds_of ''plugin_extensions'' = Some extension_kinds"
  by (simp_all add: kinds_of_def)

context mongo_db
begin

text \<open>A command that keeps its own collection in order and draws no number keeps the database in order.\<close>

lemma ok_command:
  assumes "up s" "mongo_ok view counter s" "kinds_of c = Some ks" "\<forall>k f. q \<noteq> FindOneAndInc k f"
    and "col_ok ks (view s c) (counter s c) \<Longrightarrow> col_ok ks (view (snd (db c q s)) c) (counter s c)"
  shows "mongo_ok view counter (snd (mongo_done db c q s))"
  unfolding mongo_done_state mongo_ok_def
proof (intro allI impI)
  fix c' ks' assume k: "kinds_of c' = Some ks'"
  show "col_ok ks' (view (snd (db c q s)) c') (counter (snd (db c q s)) c')"
    using assms k frame [OF assms(1), of c' c q] counter_frame [OF assms(1,4), of c]
    unfolding mongo_ok_def by (cases "c' = c") auto
qed

lemma ok_updateOne:
  assumes "up s" "mongo_ok view counter s" "kinds_of c = Some ks" "typed ks upd" "keeps_ids p upd"
  shows "mongo_ok view counter (snd (updateOne db c p upd s))"
  unfolding updateOne_def using assms by (intro ok_command keep_updateOne) auto

lemma ok_updateMany:
  assumes "up s" "mongo_ok view counter s" "kinds_of c = Some ks" "typed ks upd" "keeps_ids p upd"
    "\<forall>f \<in> set (unique_index c). upd f = None"
  shows "mongo_ok view counter (snd (updateMany db c p upd s))"
  unfolding updateMany_def using assms by (intro ok_command keep_updateMany) auto

lemma ok_deleteMany:
  assumes "up s" "mongo_ok view counter s" "kinds_of c = Some ks"
  shows "mongo_ok view counter (snd (deleteMany db c p s))"
  unfolding deleteMany_def using assms by (intro ok_command keep_deleteMany) auto

lemma up_writes:
  assumes "up s"
  shows "up (snd (updateOne db c p upd s))" "up (snd (updateMany db c p upd s))" "up (snd (deleteMany db c p s))"
  using stays_up [OF assms] by (simp_all add: updateOne_def updateMany_def deleteMany_def mongo_done_state)

end

context mongo_store
begin

lemma ok_created:
  assumes "up s" "mongo_ok view counter s" "kinds_of coll = Some ks" "\<And>i. ident (mk i) = i"
  shows "mongo_ok view counter (snd (created db coll doc mk s)) \<and> up (snd (created db coll doc mk s))"
proof -
  have c: "col_ok ks (view s coll) (counter s coll)" using assms(2,3) by (simp add: mongo_ok_def)
  note K = created_keeps [OF assms(1) c, of mk, OF assms(4)]
  have "col_ok ks' (view (snd (created db coll doc mk s)) c) (counter (snd (created db coll doc mk s)) c)"
    if k: "kinds_of c = Some ks'" for c ks'
  proof (cases "c = coll")
    case True
    then show ?thesis using K(2) assms(3) k by simp
  next
    case False
    then show ?thesis using K(3) [OF False kinds_of_counters [OF k]] k assms(2) by (simp add: mongo_ok_def)
  qed
  then show ?thesis using K(1) by (simp add: mongo_ok_def)
qed

lemma ok_save:
  assumes "up s" "mongo_ok view counter s" "kinds_of coll = Some ks" "ident e = i"
  shows "mongo_ok view counter (snd (updateOne db coll (by_id i) (doc e) s))"
  using assms(1-3)
proof (rule ok_updateOne)
  show "keeps_ids (by_id i) (doc e)"
    using doc_id [of e] assms(4) by (simp add: keeps_ids_def by_id_def numeric_id_def)
qed (rule doc_typed)

end

lemma keeps_ids_other: "upd ''numeric_id'' = None \<Longrightarrow> keeps_ids p upd"
  by (simp add: keeps_ids_def)

lemma kinds_fields:
  "typed user_kinds [''deleted_at'' \<mapsto> BDate m]"
  "typed token_kinds [''deleted_at'' \<mapsto> BDate m]"
  "typed token_kinds [''revoked'' \<mapsto> BBool b]"
  "typed extension_kinds [''deleted_at'' \<mapsto> BDate m]"
  "typed plugin_kinds [''deleted_at'' \<mapsto> BDate m, ''updated_at'' \<mapsto> BDate m]"
  "typed plugin_kinds [''state'' \<mapsto> BStr st, ''updated_at'' \<mapsto> BDate m]"
  "typed plugin_kinds [''enabled_at'' \<mapsto> BDate m]"
  "typed plugin_kinds Map.empty"
  by (simp_all add: typed_def user_kinds_def token_kinds_def extension_kinds_def plugin_kinds_def)

lemma mdao_step_ok:
  assumes "mongo_db db view counter up" "up s" "mongo_ok view counter s"
  shows "mongo_ok view counter (mdao_step db oper s) \<and> up (mdao_step db oper s)"
proof -
  note U = mongo_stores(1) [OF assms(1)] and T = mongo_stores(2) [OF assms(1)]
    and P = mongo_stores(3) [OF assms(1)] and X = mongo_stores(4) [OF assms(1)]
  note M = mongo_db.up_writes [OF assms(1,2)]
  note up1 = mongo_db.ok_updateOne [OF assms] and upm = mongo_db.ok_updateMany [OF assms]
  show ?thesis
  proof (cases oper)
    case (UserCreate now now' u)
    show ?thesis unfolding UserCreate mdao_step.simps musers_Create_def
      by (rule mongo_store.ok_created [OF U assms(2,3)]) simp_all
  next
    case (UserUpdate now u)
    show ?thesis unfolding UserUpdate mdao_step.simps musers_Update_def
      using mongo_store.ok_save [OF U assms(2,3), of "u\<lparr>u_UpdatedAt := now\<rparr>" "u_ID u"] M(1) by simp
  next
    case (UserDelete now i)
    show ?thesis unfolding UserDelete mdao_step.simps musers_Delete_def
      using up1 [OF _ kinds_fields(1) keeps_ids_other] M(1) by simp
  next
    case (TokenCreate now t)
    show ?thesis unfolding TokenCreate mdao_step.simps mtokens_Create_def
      by (rule mongo_store.ok_created [OF T assms(2,3)]) simp_all
  next
    case (TokenUpdate t)
    show ?thesis unfolding TokenUpdate mdao_step.simps mtokens_Update_def
      using mongo_store.ok_save [OF T assms(2,3)] M(1) by simp
  next
    case (TokenDelete now i)
    show ?thesis unfolding TokenDelete mdao_step.simps mtokens_Delete_def
      using up1 [OF _ kinds_fields(2) keeps_ids_other] M(1) by simp
  next
    case (TokenRevoke token)
    show ?thesis unfolding TokenRevoke mdao_step.simps mtokens_RevokeByToken_def
      using up1 [OF _ kinds_fields(3) keeps_ids_other] M(1) by simp
  next
    case (TokenRevokeAll i)
    show ?thesis unfolding TokenRevokeAll mdao_step.simps mtokens_RevokeAllByUserID_def
      using upm [OF _ kinds_fields(3) keeps_ids_other] M(2) by (simp add: unique_index_def)
  next
    case (TokenExpire now)
    show ?thesis unfolding TokenExpire mdao_step.simps mtokens_DeleteExpired_def
      using mongo_db.ok_deleteMany [OF assms] M(3) by simp
  next
    case (PluginCreate now now' p)
    show ?thesis unfolding PluginCreate mdao_step.simps mplugins_Create_def
      by (rule mongo_store.ok_created [OF P assms(2,3)]) simp_all
  next
    case (PluginUpdate now p)
    show ?thesis unfolding PluginUpdate mdao_step.simps mplugins_Update_def
      using mongo_store.ok_save [OF P assms(2,3), of "p\<lparr>pl_UpdatedAt := now\<rparr>" "pl_ID p"] M(1) by simp
  next
    case (PluginDelete now i)
    show ?thesis unfolding PluginDelete mdao_step.simps mplugins_Delete_def
      using up1 [OF _ kinds_fields(5) keeps_ids_other] M(1) by simp
  next
    case (PluginDeleteByKey now key)
    show ?thesis unfolding PluginDeleteByKey mdao_step.simps mplugins_DeleteByKey_def
      using up1 [OF _ kinds_fields(5) keeps_ids_other] M(1) by simp
  next
    case (PluginSetState now i st)
    show ?thesis unfolding PluginSetState mdao_step.simps mplugins_UpdateState_def
      using up1 [OF _ typed_add [OF kinds_fields(6,7)] keeps_ids_other]
        up1 [OF _ typed_add [OF kinds_fields(6,8)] keeps_ids_other] M(1) by simp
  next
    case (ExtensionCreate now x)
    show ?thesis unfolding ExtensionCreate mdao_step.simps mextensions_Create_def
      by (rule mongo_store.ok_created [OF X assms(2,3)]) simp_all
  next
    case (ExtensionUpdate x)
    show ?thesis unfolding ExtensionUpdate mdao_step.simps mextensions_Update_def
      using mongo_store.ok_save [OF X assms(2,3)] M(1) by simp
  next
    case (ExtensionDelete now i)
    show ?thesis unfolding ExtensionDelete mdao_step.simps mextensions_Delete_def
      using up1 [OF _ kinds_fields(4) keeps_ids_other] M(1) by simp
  next
    case (ExtensionDeleteAll now i)
    show ?thesis unfolding ExtensionDeleteAll mdao_step.simps mextensions_DeleteByPluginID_def
      using upm [OF _ kinds_fields(4) keeps_ids_other] M(2) by (simp add: unique_index_def)
  qed
qed

lemma mdao_run_ok:
  assumes "mongo_db db view counter up" "up s" "mongo_ok view counter s"
  shows "mongo_ok view counter (fold (mdao_step db) opers s) \<and> up (fold (mdao_step db) opers s)"
  using assms(2,3) by (induction opers arbitrary: s) (simp_all add: mdao_step_ok [OF assms(1)])

text \<open>
  C39. Types of the stored documents. Whatever sequence of operations the data access objects run on an
  empty database, every document in a collection has the types its struct declares, so that reading
  it never fails to decode, and carries a numeric identifier of its own, drawn from the counter.
\<close>

theorem mongo_documents_stay_typed:
  assumes "mongo_db db view counter up" "up s" "\<forall>c. view s c = [] \<and> counter s c = 0"
    and "s1 = fold (mdao_step db) opers s"
  shows "(\<forall>d \<in> set (view s1 ''users''). \<exists>u. user_entity d = Some u)
    \<and> (\<forall>d \<in> set (view s1 ''refresh_tokens''). \<exists>t. token_entity d = Some t)
    \<and> (\<forall>d \<in> set (view s1 ''plugins''). \<exists>p. plugin_entity d = Some p)
    \<and> (\<forall>d \<in> set (view s1 ''plugin_extensions''). \<exists>x. extension_entity d = Some x)
    \<and> (\<forall>c \<in> {''users'', ''refresh_tokens'', ''plugins'', ''plugin_extensions''}.
         distinct (map numeric_id (view s1 c)) \<and> (\<forall>d \<in> set (view s1 c). id_within (counter s1 c) d))"
proof -
  have "mongo_ok view counter s" using assms(3) by (simp add: mongo_ok_def col_ok_def)
  then have "mongo_ok view counter s1" unfolding assms(4) using mdao_run_ok [OF assms(1,2)] by blast
  then have ok: "kinds_of c = Some ks \<Longrightarrow> col_ok ks (view s1 c) (counter s1 c)" for c ks by (simp add: mongo_ok_def)
  note S = mongo_stores [OF assms(1)]
  have ids: "distinct (map numeric_id (view s1 c)) \<and> (\<forall>d \<in> set (view s1 c). id_within (counter s1 c) d)"
    if "kinds_of c = Some ks" for c ks
    using col_okD [OF ok [OF that]] by blast
  show ?thesis
    using ids [OF kinds_of_simps(1)] ids [OF kinds_of_simps(2)] ids [OF kinds_of_simps(3)] ids [OF kinds_of_simps(4)]
      mongo_store.all_decode [OF S(1) ok [OF kinds_of_simps(1)]] mongo_store.all_decode [OF S(2) ok [OF kinds_of_simps(2)]]
      mongo_store.all_decode [OF S(3) ok [OF kinds_of_simps(3)]] mongo_store.all_decode [OF S(4) ok [OF kinds_of_simps(4)]]
    by blast
qed

definition empty_mongo :: mem_mongo where
  "empty_mongo = \<lparr>mm_docs = (\<lambda>c. []), mm_counters = (\<lambda>c. 0)\<rparr>"

theorem mongo_documents_stay_typed_witness:
  "list_all (\<lambda>d. user_entity d \<noteq> None)
     (mm_docs (fold (mdao_step mem_mongo_cmd) [UserCreate 5 6 zero_user, UserDelete 7 1] empty_mongo) ''users'')"
proof -
  have "\<forall>c. mm_docs empty_mongo c = [] \<and> mm_counters empty_mongo c = 0" by (simp add: empty_mongo_def)
  from mongo_documents_stay_typed [OF mem.mongo_db_axioms TrueI this refl] show ?thesis
    unfolding list_all_iff by (metis option.distinct(1))
qed

subsection \<open>Users\<close>

lemma user_doc_fields [simp]:
  "user_doc u ''username'' = Some (BStr (u_Username u))" "user_doc u ''email'' = Some (BStr (u_Email u))"
  "user_doc u ''deleted_at'' = time_omit (u_DeletedAt u)" "user_doc u ''numeric_id'' = Some (BInt (u_ID u))"
  "user_doc u ''password'' = Some (BStr (u_Password u))" "user_doc u ''first_name'' = str_omit (u_FirstName u)"
  "user_doc u ''last_name'' = str_omit (u_LastName u)" "user_doc u ''role'' = Some (BStr (u_Role u))"
  "user_doc u ''is_active'' = Some (BBool (u_IsActive u))" "user_doc u ''is_verified'' = Some (BBool (u_IsVerified u))"
  "user_doc u ''created_at'' = Some (BDate (to_ms (u_CreatedAt u)))"
  "user_doc u ''updated_at'' = Some (BDate (to_ms (u_UpdatedAt u)))"
  by (simp_all add: user_doc_def mapper_defs user_bson_def)

lemma user_dup_key:
  "dup_key ''users'' docs d \<longleftrightarrow> (\<exists>d' \<in> set docs. d' ''username'' = d ''username'' \<or> d' ''email'' = d ''email'')"
  by (simp add: dup_key_def unique_index_def list_ex_iff)

text \<open>
  C40. Reading back. A user created under a name and an address that no document has is found by its
  new identifier, its name and its address, as it was given but for the times, which keep their
  milliseconds only.
\<close>

theorem mongo_user_reads_back:
  assumes "mongo_db db view counter up" "up s" "mongo_ok view counter s" "u_DeletedAt u = None"
    and "\<forall>d \<in> set (view s ''users''). d ''username'' \<noteq> Some (BStr (u_Username u)) \<and> d ''email'' \<noteq> Some (BStr (u_Email u))"
  shows "\<exists>u1 s1. musers_Create db now now' u s = (Inr u1, s1)
    \<and> u1 = u\<lparr>u_ID := counter s ''users'' + 1, u_CreatedAt := now, u_UpdatedAt := now'\<rparr>
    \<and> fst (musers_FindByID db (u_ID u1) s1) = Inr (Some (stored_user u1))
    \<and> fst (musers_FindByUsername db (u_Username u) s1) = Inr (Some (stored_user u1))
    \<and> fst (musers_FindByEmail db (u_Email u) s1) = Inr (Some (stored_user u1))"
proof -
  let ?mk = "\<lambda>i. u\<lparr>u_ID := i, u_CreatedAt := now, u_UpdatedAt := now'\<rparr>"
  let ?r = "created db ''users'' user_doc ?mk s"
  let ?u = "?mk (counter s ''users'' + 1)"
  note S = mongo_stores(1) [OF assms(1)]
  have ok: "col_ok user_kinds (view s ''users'') (counter s ''users'')" using assms(3) by (simp add: mongo_ok_def)
  have free: "\<not> dup_key ''users'' (view s ''users'') (user_doc ?u)" using assms(5) by (auto simp: user_dup_key)
  have id: "u_ID (?mk i) = i" for i by simp
  have live: "user_doc ?u ''deleted_at'' = None" using assms(4) by (simp add: time_omit_def)
  note C = mongo_store.created_ok(1) [OF S, OF assms(2) ok, where mk = ?mk, OF id free]
  note F = mongo_store.created_found_by [OF S, OF assms(2) ok, where mk = ?mk, OF id free live]
  have "fst (musers_FindByID db (u_ID ?u) (snd ?r)) = Inr (Some (stored_user ?u))"
    unfolding musers_FindByID_def id by (rule mongo_store.created_found [OF S, OF assms(2) ok, where mk = ?mk, OF id free live])
  moreover have "fst (musers_FindByUsername db (u_Username u) (snd ?r)) = Inr (Some (stored_user ?u))"
    unfolding musers_FindByUsername_def by (rule F) (use assms(5) in simp_all)
  moreover have "fst (musers_FindByEmail db (u_Email u) (snd ?r)) = Inr (Some (stored_user ?u))"
    unfolding musers_FindByEmail_def by (rule F) (use assms(5) in simp_all)
  moreover have "musers_Create db now now' u s = (Inr ?u, snd ?r)"
    unfolding musers_Create_def by (rule prod_eqI) (simp_all only: fst_conv snd_conv C)
  ultimately show ?thesis by (intro exI conjI) (assumption | rule refl)+
qed

definition demo_mongo_user :: User where
  "demo_mongo_user = zero_user\<lparr>u_Username := ''ann'', u_Email := ''a@x'', u_FirstName := ''Ann''\<rparr>"

lemma empty_mongo_ok: "mongo_ok mm_docs mm_counters empty_mongo"
  by (simp add: mongo_ok_def empty_mongo_def col_ok_def)

theorem mongo_user_reads_back_witness:
  "\<exists>u1 s1. musers_Create mem_mongo_cmd 1234567 1234568 demo_mongo_user empty_mongo = (Inr u1, s1)
     \<and> fst (musers_FindByUsername mem_mongo_cmd ''ann'' s1) = Inr (Some (stored_user u1))"
proof -
  have d: "u_DeletedAt demo_mongo_user = None" "u_Username demo_mongo_user = ''ann''"
    by (simp_all add: demo_mongo_user_def zero_user_def)
  have "\<forall>d \<in> set (mm_docs empty_mongo ''users''). d ''username'' \<noteq> Some (BStr (u_Username demo_mongo_user))
      \<and> d ''email'' \<noteq> Some (BStr (u_Email demo_mongo_user))" by (simp add: empty_mongo_def)
  from mongo_user_reads_back [OF mem.mongo_db_axioms, OF TrueI empty_mongo_ok d(1) this, of 1234567 1234568]
  show ?thesis unfolding d(2) by (elim exE conjE) (intro exI conjI)
qed

lemma merged_field:
  "m f = None \<Longrightarrow> (d ++ m) f = d f" "m f = Some v \<Longrightarrow> (d ++ m) f = Some v"
  by (simp_all add: map_add_def)

lemma str_omit_merge: "get_str f (d ++ m) = (if v = [] then get_str f d else v)" if "m f = str_omit v"
  using that by (simp add: get_str_def str_omit_def merged_field)

lemma user_entity_merge:
  assumes "user_entity d = Some old" "u_DeletedAt old = None" "u_DeletedAt u = None"
  shows "user_entity (d ++ user_doc u) = Some ((stored_user u)
    \<lparr>u_FirstName := if u_FirstName u = [] then u_FirstName old else u_FirstName u,
     u_LastName := if u_LastName u = [] then u_LastName old else u_LastName u\<rparr>)"
proof -
  have t: "typed user_kinds d" using assms(1) by (auto simp: user_entity_def user_of_bson_def mapper_defs split: if_splits)
  then have o: "u_FirstName old = get_str ''first_name'' d" "u_LastName old = get_str ''last_name'' d"
    "u_DeletedAt old = get_time_opt ''deleted_at'' d"
    using assms(1) by (auto simp: user_entity_def user_of_bson_def mapper_defs)
  have names: "get_str ''first_name'' (d ++ user_doc u) = (if u_FirstName u = [] then u_FirstName old else u_FirstName u)"
    "get_str ''last_name'' (d ++ user_doc u) = (if u_LastName u = [] then u_LastName old else u_LastName u)"
    unfolding o by (rule str_omit_merge; simp)+
  have del: "get_time_opt ''deleted_at'' (d ++ user_doc u) = None"
    using assms(2,3) o(3) by (simp add: get_time_opt_def merged_field time_omit_def)
  have rest: "get_int ''numeric_id'' (d ++ user_doc u) = u_ID u" "get_str ''username'' (d ++ user_doc u) = u_Username u"
    "get_str ''email'' (d ++ user_doc u) = u_Email u" "get_str ''password'' (d ++ user_doc u) = u_Password u"
    "get_str ''role'' (d ++ user_doc u) = u_Role u" "get_bool ''is_active'' (d ++ user_doc u) = u_IsActive u"
    "get_bool ''is_verified'' (d ++ user_doc u) = u_IsVerified u"
    "get_time ''created_at'' (d ++ user_doc u) = trunc_ms (u_CreatedAt u)"
    "get_time ''updated_at'' (d ++ user_doc u) = trunc_ms (u_UpdatedAt u)"
    by (simp_all add: bson_gets merged_field trunc_ms_def)
  have "typed user_kinds (d ++ user_doc u)" using t user_docs.doc_typed by (rule typed_add)
  then have "user_entity (d ++ user_doc u) = Some
      \<lparr>u_ID = u_ID u, u_Username = u_Username u, u_Email = u_Email u, u_Password = u_Password u,
       u_FirstName = (if u_FirstName u = [] then u_FirstName old else u_FirstName u),
       u_LastName = (if u_LastName u = [] then u_LastName old else u_LastName u), u_Role = u_Role u,
       u_IsActive = u_IsActive u, u_IsVerified = u_IsVerified u, u_CreatedAt = trunc_ms (u_CreatedAt u),
       u_UpdatedAt = trunc_ms (u_UpdatedAt u), u_DeletedAt = None\<rparr>"
    by (simp add: user_entity_def user_of_bson_def user_ToEntity_def names del rest)
  then show ?thesis using assms(3) by (simp add: stored_user_def)
qed

text \<open>
  Fields that cannot be cleared. \<^verbatim>\<open>Update\<close> stores every field of the user, times to the millisecond, except
  an empty first or last name: \<^verbatim>\<open>omitempty\<close> leaves it out of the \<^verbatim>\<open>$set\<close>, and the old name stays.
\<close>

theorem mongo_update_keeps_cleared_names:
  assumes "mongo_db db view counter up" "up s" "mongo_ok view counter s"
    and "d \<in> set (view s ''users'')" "user_entity d = Some old" "u_DeletedAt old = None" "d ''deleted_at'' = None"
    and "numeric_id d = Some (BInt (u_ID u))" "u_DeletedAt u = None"
    and "\<forall>d' \<in> set (view s ''users''). numeric_id d' \<noteq> numeric_id d \<longrightarrow>
      d' ''username'' \<noteq> Some (BStr (u_Username u)) \<and> d' ''email'' \<noteq> Some (BStr (u_Email u))"
  shows "fst (musers_Update db now u s) = Inr ()
    \<and> fst (musers_FindByID db (u_ID u) (snd (musers_Update db now u s))) = Inr (Some
        ((stored_user (u\<lparr>u_UpdatedAt := now\<rparr>))
           \<lparr>u_FirstName := if u_FirstName u = [] then u_FirstName old else u_FirstName u,
            u_LastName := if u_LastName u = [] then u_LastName old else u_LastName u\<rparr>))"
proof -
  let ?u = "u\<lparr>u_UpdatedAt := now\<rparr>"
  let ?v = "view s ''users''" and ?d = "d ++ user_doc ?u"
  let ?s = "snd (updateOne db ''users'' (by_id (u_ID u)) (user_doc ?u) s)"
  have ok: "col_ok user_kinds ?v (counter s ''users'')" using assms(3) by (simp add: mongo_ok_def)
  have free: "\<not> dup_key ''users'' (filter (\<lambda>d'. numeric_id d' \<noteq> numeric_id d) ?v) ?d"
    using assms(10) by (simp add: user_dup_key merged_field)
  note U = mongo_db.update_by_id [OF assms(1), OF assms(2) ok assms(4,8) free]
  have id: "u_ID ?u = u_ID u" by simp
  have s: "up ?s" "mongo_ok view counter ?s"
    using mongo_db.up_writes(1) [OF assms(1,2)]
      mongo_store.ok_save [OF mongo_stores(1) [OF assms(1)], OF assms(2,3) kinds_of_simps(1) id] by blast+
  have ok1: "col_ok user_kinds (view ?s ''users'') (counter ?s ''users'')" using s(2) by (simp add: mongo_ok_def)
  have m: "?d \<in> set (view ?s ''users'')" unfolding U(2) using assms(4) by auto
  have n: "numeric_id ?d = Some (BInt (u_ID u))" "?d ''deleted_at'' = None"
    using assms(7,9) by (simp_all add: numeric_id_def merged_field time_omit_def)
  have e: "user_entity ?d = Some ((stored_user ?u)
      \<lparr>u_FirstName := if u_FirstName u = [] then u_FirstName old else u_FirstName u,
       u_LastName := if u_LastName u = [] then u_LastName old else u_LastName u\<rparr>)"
    using user_entity_merge [OF assms(5,6), of ?u] assms(9) by simp
  show ?thesis
    unfolding musers_Update_def musers_FindByID_def
    using U(1) mongo_store.find_by_id [OF mongo_stores(1) [OF assms(1)], OF s(1) ok1 m n e] by blast
qed

definition one_user :: mem_mongo where
  "one_user = \<lparr>mm_docs = (\<lambda>c. if c = ''users'' then [user_doc (demo_mongo_user\<lparr>u_ID := 1\<rparr>)] else []), mm_counters = (\<lambda>c. 1)\<rparr>"

lemma one_user_ok: "mongo_ok mm_docs mm_counters one_user"
  by (auto simp: mongo_ok_def one_user_def col_ok_def id_within_def user_docs.doc_typed user_docs.doc_id kinds_of_def split: if_splits)

theorem mongo_update_keeps_cleared_names_witness:
  "map_sum id (map_option u_FirstName)
     (fst (musers_FindByID mem_mongo_cmd 1
        (snd (musers_Update mem_mongo_cmd 9 (demo_mongo_user\<lparr>u_ID := 1, u_FirstName := []\<rparr>) one_user)))) = Inr (Some ''Ann'')"
proof -
  let ?a = "demo_mongo_user\<lparr>u_ID := 1\<rparr>" and ?b = "demo_mongo_user\<lparr>u_ID := 1, u_FirstName := []\<rparr>"
  have v: "mm_docs one_user ''users'' = [user_doc ?a]" by (simp add: one_user_def)
  have d: "u_DeletedAt ?a = None" "u_FirstName ?a = ''Ann''" by (simp_all add: demo_mongo_user_def zero_user_def)
  have "user_doc ?a \<in> set (mm_docs one_user ''users'')" by (simp add: v)
  moreover have "u_DeletedAt (stored_user ?a) = None" "user_doc ?a ''deleted_at'' = None"
    "numeric_id (user_doc ?a) = Some (BInt (u_ID ?b))" "u_DeletedAt ?b = None"
    using d by (simp_all add: stored_user_def time_omit_def user_docs.doc_id)
  moreover have "\<forall>d' \<in> set (mm_docs one_user ''users''). numeric_id d' \<noteq> numeric_id (user_doc ?a) \<longrightarrow>
      d' ''username'' \<noteq> Some (BStr (u_Username ?b)) \<and> d' ''email'' \<noteq> Some (BStr (u_Email ?b))" by (simp add: v)
  ultimately have "fst (musers_FindByID mem_mongo_cmd (u_ID ?b) (snd (musers_Update mem_mongo_cmd 9 ?b one_user))) =
      Inr (Some ((stored_user (?b\<lparr>u_UpdatedAt := 9\<rparr>))
        \<lparr>u_FirstName := if u_FirstName ?b = [] then u_FirstName (stored_user ?a) else u_FirstName ?b,
         u_LastName := if u_LastName ?b = [] then u_LastName (stored_user ?a) else u_LastName ?b\<rparr>))"
    by (rule conjunct2 [OF mongo_update_keeps_cleared_names [OF mem.mongo_db_axioms, OF TrueI one_user_ok _ user_docs.ent_doc]])
  then show ?thesis using d(2) by (simp add: stored_user_def)
qed

text \<open>
  Pages. A limit of zero is no limit to MongoDB: a page of size zero holds every live user, where
  the SQL implementation returns none.
\<close>

lemma those_all: "(\<And>x. x \<in> set xs \<Longrightarrow> f x \<noteq> None) \<Longrightarrow> \<exists>ys. those (map f xs) = Some ys \<and> length ys = length xs"
proof (induction xs)
  case (Cons x xs)
  then obtain y ys where "f x = Some y" "those (map f xs) = Some ys" "length ys = length xs" by fastforce
  then show ?case by simp
qed simp

theorem mongo_empty_page_holds_everyone:
  assumes "mongo_db db view counter up" "up s" "mongo_ok view counter s"
  shows "\<exists>us. fst (musers_FindAll db page 0 s) = Inr (us, int (length us))
    \<and> length us = length (filter (matches notDeletedFilter) (view s ''users''))"
proof -
  let ?q = "Find notDeletedFilter (''numeric_id'', True) (Some (0, 0))"
  let ?n = "length (filter (matches notDeletedFilter) (view s ''users''))"
  let ?s = "snd (db ''users'' (CountDocuments notDeletedFilter) s)"
  have c: "fst (mongo_count db ''users'' notDeletedFilter s) = Inr (int ?n)" "snd (mongo_count db ''users'' notDeletedFilter s) = ?s"
    using mongo_db.Count_reply [OF assms(1,2), of "''users''" notDeletedFilter]
    by (auto simp: mongo_count_def split: prod.splits)
  have up: "up ?s" and v: "view ?s ''users'' = view s ''users''"
    using mongo_db.stays_up [OF assms(1,2)] mongo_db.read_view [OF assms(1,2)] by simp_all
  have pg: "doc_page_ok (Some (0, 0))" by (simp add: doc_page_ok_def)
  from mongo_db.Find_reply [OF assms(1), OF up pg, of "''users''" notDeletedFilter "(''numeric_id'', True)"]
  obtain docs where "fst (db ''users'' ?q ?s) = MDocs (doc_page (Some (0, 0)) docs)"
    and m: "mset docs = mset (filter (matches notDeletedFilter) (view ?s ''users''))" by (elim exE conjE)
  then have docs: "fst (db ''users'' ?q ?s) = MDocs docs" by (simp only: doc_page_def option.case prod.case) simp
  note ms = m [unfolded v]
  have set: "set docs \<subseteq> set (view s ''users'')" using mset_eq_setD [OF ms] by auto
  have ok: "col_ok user_kinds (view s ''users'') (counter s ''users'')" using assms(3) by (simp add: mongo_ok_def)
  have "user_entity d \<noteq> None" if "d \<in> set docs" for d
    by (rule user_docs.ent_typed [OF col_okD(1) [OF ok]]) (rule subsetD [OF set that])
  from those_all [of docs user_entity, OF this] obtain us where us: "those (map user_entity docs) = Some us" "length us = length docs" by blast
  have len: "length docs = ?n" using mset_eq_length [OF ms] .
  have p: "page_offset page 0 = 0" by (simp add: page_offset_def wrap_int64_def)
  have "fst (findManyByFilter db ''users'' user_entity notDeletedFilter (''numeric_id'', True) (Some (0, 0)) ?s) = Inr us"
    using docs us(1) by (auto simp: findManyByFilter_def split: prod.splits)
  then have "fst (musers_FindAll db page 0 s) = Inr (us, int ?n)"
    unfolding musers_FindAll_def mongo_find_all_def p
    using c by (auto simp: and_then_def ret_def split: prod.splits sum.splits)
  then show ?thesis using us(2) len by auto
qed

theorem mongo_empty_page_holds_everyone_witness:
  "\<exists>us. fst (musers_FindAll mem_mongo_cmd 1 0 one_user) = Inr (us, 1)"
proof -
  have "length (filter (matches notDeletedFilter) (mm_docs one_user ''users'')) = 1"
    by (simp add: one_user_def notDeletedFilter_def demo_mongo_user_def zero_user_def time_omit_def)
  then show ?thesis
    using mongo_empty_page_holds_everyone [OF mem.mongo_db_axioms, OF TrueI one_user_ok, of 1] by fastforce
qed

end
