(* ===== verification/Grpc_Layer.thy ===== *)
theory Grpc_Layer
  imports User_Service
begin

text \<open>
  The gRPC layers: the user service of the repository layer
  (\<^verbatim>\<open>internal/controller/grpc/repository/user_service.go\<close>), the repository that calls it from another process
  (\<^verbatim>\<open>internal/domain/repository/grpc/user_repository.go\<close>), the authentication and user services of the service
  layer (\<^verbatim>\<open>internal/controller/grpc/service\<close>) and the interceptors of \<^verbatim>\<open>internal/controller/grpc/server.go\<close>.

  The messages are the records the protocol files declare; an optional field and a pointer to a
  message are options. What carries a message to the server and the answer back is generated code: the
  client is a record of functions, \<open>direct_client\<close> the one that reaches a server of this repository.
\<close>

subsection \<open>Messages and status codes\<close>

datatype grpc_code =
    NotFound_code | Unauthenticated_code | AlreadyExists_code | PermissionDenied_code | Internal_code | Unimplemented_code

text \<open>A status: its code, its message, and the error the message ends with.\<close>

datatype grpc_error = Status grpc_code string "svc_error option"

type_synonym ('s, 'a) rpc = "('s, grpc_error, 'a) call"

record Timestamp =
  ts_Seconds :: int
  ts_Nanos :: int

record pb_UserResponse =
  pb_Id :: int
  pb_Username :: string
  pb_Email :: string
  pb_FirstName :: string
  pb_LastName :: string
  pb_Role :: string
  pb_IsActive :: bool
  pb_IsVerified :: bool
  pb_CreatedAt :: "Timestamp option"
  pb_UpdatedAt :: "Timestamp option"

record pb_CreateUserRequest =
  cq_Username :: string
  cq_Email :: string
  cq_Password :: string
  cq_FirstName :: "string option"
  cq_LastName :: "string option"

record pb_UpdateUserRequest =
  uq_Id :: int
  uq_Email :: "string option"
  uq_FirstName :: "string option"
  uq_LastName :: "string option"
  uq_Password :: "string option"
  uq_IsActive :: "bool option"
  uq_IsVerified :: "bool option"

record pb_ListUsersResponse =
  lr_Users :: "pb_UserResponse list"
  lr_Page :: int
  lr_Size :: int
  lr_TotalItems :: int
  lr_TotalPages :: int

record pb_AuthResponse =
  pa_AccessToken :: string
  pa_RefreshToken :: string
  pa_TokenType :: string
  pa_ExpiresIn :: int
  pa_User :: pb_UserResponse

record pb_ValidateTokenResponse =
  vt_Valid :: bool
  vt_UserId :: int
  vt_Username :: string
  vt_Role :: string

definition toProtoTimestamp :: "time \<Rightarrow> Timestamp" where
  "toProtoTimestamp t = \<lparr>ts_Seconds = unix_seconds t, ts_Nanos = t mod second\<rparr>"

definition fromProtoTimestamp :: "Timestamp option \<Rightarrow> time" where
  "fromProtoTimestamp t = (case t of None \<Rightarrow> zero_time | Some ts \<Rightarrow> ts_Seconds ts * second + ts_Nanos ts)"

definition wrap_int32 :: "int \<Rightarrow> int" where
  "wrap_int32 x = (x + 2 ^ 31) mod 2 ^ 32 - 2 ^ 31"

text \<open>A call of the repository or the service whose error becomes a status.\<close>

definition on_error :: "(svc_error \<Rightarrow> grpc_error) \<Rightarrow> ('s, 'a) svc \<Rightarrow> ('s, 'a) rpc" where
  "on_error f m s = (case m s of (Inl e, s1) \<Rightarrow> (Inl (f e), s1) | (Inr x, s1) \<Rightarrow> (Inr x, s1))"

definition internal :: "string \<Rightarrow> svc_error \<Rightarrow> grpc_error" where
  "internal msg e = Status Internal_code msg (Some e)"

subsection \<open>The repository layer\<close>

definition toProtoUser :: "User \<Rightarrow> pb_UserResponse" where
  "toProtoUser u =
     \<lparr>pb_Id = u_ID u, pb_Username = u_Username u, pb_Email = u_Email u, pb_FirstName = u_FirstName u,
      pb_LastName = u_LastName u, pb_Role = u_Role u, pb_IsActive = u_IsActive u, pb_IsVerified = u_IsVerified u,
      pb_CreatedAt = Some (toProtoTimestamp (u_CreatedAt u)), pb_UpdatedAt = Some (toProtoTimestamp (u_UpdatedAt u))\<rparr>"

definition user_not_found :: grpc_error where
  "user_not_found = Status NotFound_code ''user not found'' None"

definition found_user :: "User option \<Rightarrow> ('s, pb_UserResponse) rpc" where
  "found_user found = (case found of None \<Rightarrow> fail user_not_found | Some user \<Rightarrow> ret (toProtoUser user))"

definition rs_GetUser :: "('s, User) table \<Rightarrow> time \<Rightarrow> int \<Rightarrow> ('s, pb_UserResponse) rpc" where
  "rs_GetUser udb now i = and_then (on_error (internal ''failed to get user: '') (GetByID udb now i)) found_user"

definition rs_CreateUser :: "('s, User) table \<Rightarrow> time \<Rightarrow> pb_CreateUserRequest \<Rightarrow> ('s, pb_UserResponse) rpc" where
  "rs_CreateUser udb now req =
     (let user = zero_user\<lparr>u_Username := cq_Username req, u_Email := cq_Email req, u_Password := cq_Password req,
                   u_Role := RoleUser, u_IsActive := True\<rparr>;
          user1 = (case cq_FirstName req of Some n \<Rightarrow> user\<lparr>u_FirstName := n\<rparr> | None \<Rightarrow> user);
          user2 = (case cq_LastName req of Some n \<Rightarrow> user1\<lparr>u_LastName := n\<rparr> | None \<Rightarrow> user1)
      in and_then (on_error (internal ''failed to create user: '') (repo_CreateUser udb now user2)) (\<lambda>created.
         ret (toProtoUser created)))"

definition apply_update :: "pb_UpdateUserRequest \<Rightarrow> User \<Rightarrow> User" where
  "apply_update req user =
     (let user1 = (case uq_Email req of Some x \<Rightarrow> user\<lparr>u_Email := x\<rparr> | None \<Rightarrow> user);
          user2 = (case uq_FirstName req of Some x \<Rightarrow> user1\<lparr>u_FirstName := x\<rparr> | None \<Rightarrow> user1);
          user3 = (case uq_LastName req of Some x \<Rightarrow> user2\<lparr>u_LastName := x\<rparr> | None \<Rightarrow> user2);
          user4 = (case uq_Password req of Some x \<Rightarrow> user3\<lparr>u_Password := x\<rparr> | None \<Rightarrow> user3);
          user5 = (case uq_IsActive req of Some x \<Rightarrow> user4\<lparr>u_IsActive := x\<rparr> | None \<Rightarrow> user4)
      in case uq_IsVerified req of Some x \<Rightarrow> user5\<lparr>u_IsVerified := x\<rparr> | None \<Rightarrow> user5)"

text \<open>Saving the entity sets its time of update.\<close>

definition rs_UpdateUser :: "('s, User) table \<Rightarrow> time \<Rightarrow> pb_UpdateUserRequest \<Rightarrow> ('s, pb_UserResponse) rpc" where
  "rs_UpdateUser udb now req =
     and_then (on_error (internal ''failed to get user: '') (GetByID udb now (uq_Id req))) (\<lambda>found.
     case found of
       None \<Rightarrow> fail user_not_found
     | Some user \<Rightarrow>
         and_then (on_error (internal ''failed to update user: '') (repo_UpdateUser udb now (apply_update req user))) (\<lambda>_.
         ret (toProtoUser ((apply_update req user)\<lparr>u_UpdatedAt := now\<rparr>))))"

definition rs_DeleteUser :: "('s, User) table \<Rightarrow> time \<Rightarrow> int \<Rightarrow> ('s, unit) rpc" where
  "rs_DeleteUser udb now i = on_error (internal ''failed to delete user: '') (repo_DeleteUser udb now i)"

definition rs_ListUsers :: "('s, User) table \<Rightarrow> time \<Rightarrow> int \<Rightarrow> int \<Rightarrow> ('s, pb_ListUsersResponse) rpc" where
  "rs_ListUsers udb now req_page req_size =
     (let page = (if req_page < 1 then 1 else req_page);
          psize = (if req_size < 1 \<or> req_size > 100 then 10 else req_size)
      in and_then (on_error (internal ''failed to list users: '') (repo_ListUsers udb now page psize)) (\<lambda>(users, total).
         ret \<lparr>lr_Users = map toProtoUser users, lr_Page = wrap_int32 page, lr_Size = wrap_int32 psize,
              lr_TotalItems = total, lr_TotalPages = wrap_int32 (go_div (total + psize - 1) psize)\<rparr>))"

definition rs_GetUserByUsername :: "('s, User) table \<Rightarrow> time \<Rightarrow> string \<Rightarrow> ('s, pb_UserResponse) rpc" where
  "rs_GetUserByUsername udb now x =
     and_then (on_error (internal ''failed to get user: '') (GetByUsername udb now x)) found_user"

definition rs_GetUserByEmail :: "('s, User) table \<Rightarrow> time \<Rightarrow> string \<Rightarrow> ('s, pb_UserResponse) rpc" where
  "rs_GetUserByEmail udb now x = and_then (on_error (internal ''failed to get user: '') (GetByEmail udb now x)) found_user"

definition rs_ExistsByUsername :: "('s, User) table \<Rightarrow> time \<Rightarrow> string \<Rightarrow> ('s, bool) rpc" where
  "rs_ExistsByUsername udb now x = on_error (internal ''failed to check: '') (repo_ExistsByUsername udb now x)"

definition rs_ExistsByEmail :: "('s, User) table \<Rightarrow> time \<Rightarrow> string \<Rightarrow> ('s, bool) rpc" where
  "rs_ExistsByEmail udb now x = on_error (internal ''failed to check: '') (repo_ExistsByEmail udb now x)"

subsection \<open>The repository over gRPC\<close>

record 's user_client =
  cl_CreateUser :: "pb_CreateUserRequest \<Rightarrow> ('s, pb_UserResponse) rpc"
  cl_GetUser :: "int \<Rightarrow> ('s, pb_UserResponse) rpc"
  cl_UpdateUser :: "pb_UpdateUserRequest \<Rightarrow> ('s, pb_UserResponse) rpc"
  cl_DeleteUser :: "int \<Rightarrow> ('s, unit) rpc"
  cl_ListUsers :: "int \<Rightarrow> int \<Rightarrow> ('s, pb_ListUsersResponse) rpc"
  cl_GetUserByUsername :: "string \<Rightarrow> ('s, pb_UserResponse) rpc"
  cl_GetUserByEmail :: "string \<Rightarrow> ('s, pb_UserResponse) rpc"
  cl_ExistsByUsername :: "string \<Rightarrow> ('s, bool) rpc"
  cl_ExistsByEmail :: "string \<Rightarrow> ('s, bool) rpc"

text \<open>A client whose calls reach the repository layer at the instant \<open>now\<close>.\<close>

definition direct_client :: "('s, User) table \<Rightarrow> time \<Rightarrow> 's user_client" where
  "direct_client udb now =
     \<lparr>cl_CreateUser = rs_CreateUser udb now, cl_GetUser = rs_GetUser udb now, cl_UpdateUser = rs_UpdateUser udb now,
      cl_DeleteUser = rs_DeleteUser udb now, cl_ListUsers = rs_ListUsers udb now,
      cl_GetUserByUsername = rs_GetUserByUsername udb now, cl_GetUserByEmail = rs_GetUserByEmail udb now,
      cl_ExistsByUsername = rs_ExistsByUsername udb now, cl_ExistsByEmail = rs_ExistsByEmail udb now\<rparr>"

definition pb_toEntity :: "pb_UserResponse \<Rightarrow> User" where
  "pb_toEntity resp =
     zero_user\<lparr>u_ID := pb_Id resp, u_Username := pb_Username resp, u_Email := pb_Email resp,
       u_FirstName := pb_FirstName resp, u_LastName := pb_LastName resp, u_Role := pb_Role resp,
       u_IsActive := pb_IsActive resp, u_IsVerified := pb_IsVerified resp,
       u_CreatedAt := fromProtoTimestamp (pb_CreatedAt resp), u_UpdatedAt := fromProtoTimestamp (pb_UpdatedAt resp)\<rparr>"

text \<open>The answer to a query: \<^verbatim>\<open>NotFound\<close> is no user and no error.\<close>

definition or_nil :: "('s, pb_UserResponse) rpc \<Rightarrow> ('s, User option) rpc" where
  "or_nil m s =
     (case m s of
        (Inl (Status c msg e), s1) \<Rightarrow> if c = NotFound_code then (Inr None, s1) else (Inl (Status c msg e), s1)
      | (Inr resp, s1) \<Rightarrow> (Inr (Some (pb_toEntity resp)), s1))"

definition gr_Create :: "'s user_client \<Rightarrow> User \<Rightarrow> ('s, User) rpc" where
  "gr_Create cl user =
     and_then (cl_CreateUser cl
       \<lparr>cq_Username = u_Username user, cq_Email = u_Email user, cq_Password = u_Password user,
        cq_FirstName = (if u_FirstName user \<noteq> [] then Some (u_FirstName user) else None),
        cq_LastName = (if u_LastName user \<noteq> [] then Some (u_LastName user) else None)\<rparr>) (\<lambda>resp.
     ret (user\<lparr>u_ID := pb_Id resp, u_CreatedAt := fromProtoTimestamp (pb_CreatedAt resp),
       u_UpdatedAt := fromProtoTimestamp (pb_UpdatedAt resp)\<rparr>))"

definition gr_GetByID :: "'s user_client \<Rightarrow> int \<Rightarrow> ('s, User option) rpc" where
  "gr_GetByID cl i = or_nil (cl_GetUser cl i)"

definition gr_GetByUsername :: "'s user_client \<Rightarrow> string \<Rightarrow> ('s, User option) rpc" where
  "gr_GetByUsername cl x = or_nil (cl_GetUserByUsername cl x)"

definition gr_GetByEmail :: "'s user_client \<Rightarrow> string \<Rightarrow> ('s, User option) rpc" where
  "gr_GetByEmail cl x = or_nil (cl_GetUserByEmail cl x)"

definition gr_GetByUsernameOrEmail :: "'s user_client \<Rightarrow> string \<Rightarrow> ('s, User option) rpc" where
  "gr_GetByUsernameOrEmail cl x =
     and_then (gr_GetByUsername cl x) (\<lambda>found. case found of Some user \<Rightarrow> ret (Some user) | None \<Rightarrow> gr_GetByEmail cl x)"

definition gr_Update :: "'s user_client \<Rightarrow> User \<Rightarrow> ('s, User) rpc" where
  "gr_Update cl user =
     and_then (cl_UpdateUser cl
       \<lparr>uq_Id = u_ID user, uq_Email = Some (u_Email user), uq_FirstName = Some (u_FirstName user),
        uq_LastName = Some (u_LastName user), uq_Password = Some (u_Password user),
        uq_IsActive = Some (u_IsActive user), uq_IsVerified = Some (u_IsVerified user)\<rparr>) (\<lambda>resp.
     ret (user\<lparr>u_UpdatedAt := fromProtoTimestamp (pb_UpdatedAt resp)\<rparr>))"

definition gr_Delete :: "'s user_client \<Rightarrow> int \<Rightarrow> ('s, unit) rpc" where
  "gr_Delete cl i = cl_DeleteUser cl i"

definition gr_List :: "'s user_client \<Rightarrow> int \<Rightarrow> int \<Rightarrow> ('s, User list \<times> int) rpc" where
  "gr_List cl page psize =
     and_then (cl_ListUsers cl (wrap_int32 page) (wrap_int32 psize)) (\<lambda>resp.
     ret (map pb_toEntity (lr_Users resp), lr_TotalItems resp))"

definition gr_ExistsByUsername :: "'s user_client \<Rightarrow> string \<Rightarrow> ('s, bool) rpc" where
  "gr_ExistsByUsername cl x = cl_ExistsByUsername cl x"

definition gr_ExistsByEmail :: "'s user_client \<Rightarrow> string \<Rightarrow> ('s, bool) rpc" where
  "gr_ExistsByEmail cl x = cl_ExistsByEmail cl x"

subsection \<open>The service layer\<close>

definition auth_mapError :: "svc_error \<Rightarrow> grpc_error" where
  "auth_mapError err =
     (case err of
        ErrUserNotFound \<Rightarrow> Status NotFound_code ''user not found'' None
      | ErrInvalidCredentials \<Rightarrow> Status Unauthenticated_code ''invalid credentials'' None
      | ErrUserAlreadyExists \<Rightarrow> Status AlreadyExists_code ''user already exists'' None
      | ErrInvalidToken \<Rightarrow> Status Unauthenticated_code ''invalid or expired token'' None
      | ErrUserInactive \<Rightarrow> Status PermissionDenied_code ''user account is inactive'' None
      | _ \<Rightarrow> internal ''internal error: '' err)"

definition user_mapError :: "svc_error \<Rightarrow> grpc_error" where
  "user_mapError err =
     (case err of
        ErrUserNotFound \<Rightarrow> Status NotFound_code ''user not found'' None
      | ErrUserAlreadyExists \<Rightarrow> Status AlreadyExists_code ''user already exists'' None
      | _ \<Rightarrow> internal ''internal error: '' err)"

definition response_toProto :: "UserResponse \<Rightarrow> pb_UserResponse" where
  "response_toProto u =
     \<lparr>pb_Id = ur_ID u, pb_Username = ur_Username u, pb_Email = ur_Email u, pb_FirstName = ur_FirstName u,
      pb_LastName = ur_LastName u, pb_Role = ur_Role u, pb_IsActive = ur_IsActive u, pb_IsVerified = ur_IsVerified u,
      pb_CreatedAt = Some (toProtoTimestamp (ur_CreatedAt u)), pb_UpdatedAt = Some (toProtoTimestamp (ur_UpdatedAt u))\<rparr>"

definition toProtoAuthResponse :: "AuthResponse \<Rightarrow> pb_AuthResponse" where
  "toProtoAuthResponse r =
     \<lparr>pa_AccessToken = ar_AccessToken r, pa_RefreshToken = ar_RefreshToken r, pa_TokenType = ar_TokenType r,
      pa_ExpiresIn = ar_ExpiresIn r, pa_User = response_toProto (ar_User r)\<rparr>"

definition as_Register ::
  "'s authService \<Rightarrow> time \<Rightarrow> nat \<Rightarrow> string \<Rightarrow> string \<Rightarrow> string \<Rightarrow> string \<Rightarrow> string option \<Rightarrow> string option
     \<Rightarrow> ('s, pb_AuthResponse) rpc" where
  "as_Register a now salt uuid username email password fname lname =
     and_then (on_error auth_mapError (auth_Register a now salt uuid
       \<lparr>rq_Username = username, rq_Email = email, rq_Password = password,
        rq_FirstName = (case fname of None \<Rightarrow> [] | Some n \<Rightarrow> n), rq_LastName = (case lname of None \<Rightarrow> [] | Some n \<Rightarrow> n)\<rparr>)) (\<lambda>r.
     ret (toProtoAuthResponse r))"

definition as_Login :: "'s authService \<Rightarrow> time \<Rightarrow> string \<Rightarrow> string \<Rightarrow> string \<Rightarrow> ('s, pb_AuthResponse) rpc" where
  "as_Login a now uuid usernameOrEmail password =
     and_then (on_error auth_mapError (auth_Login a now uuid
       \<lparr>lq_UsernameOrEmail = usernameOrEmail, lq_Password = password\<rparr>)) (\<lambda>r. ret (toProtoAuthResponse r))"

definition as_RefreshToken :: "'s authService \<Rightarrow> time \<Rightarrow> string \<Rightarrow> string \<Rightarrow> ('s, pb_AuthResponse) rpc" where
  "as_RefreshToken a now uuid tok =
     and_then (on_error auth_mapError (auth_RefreshToken a now uuid tok)) (\<lambda>r. ret (toProtoAuthResponse r))"

definition as_Logout :: "'s authService \<Rightarrow> time \<Rightarrow> string \<Rightarrow> ('s, unit) rpc" where
  "as_Logout a now tok = on_error auth_mapError (auth_Logout a now tok)"

definition as_LogoutAll :: "'s authService \<Rightarrow> time \<Rightarrow> int \<Rightarrow> ('s, unit) rpc" where
  "as_LogoutAll a now i = on_error auth_mapError (auth_LogoutAll a now i)"

definition as_ValidateToken :: "'s authService \<Rightarrow> time \<Rightarrow> string \<Rightarrow> pb_ValidateTokenResponse" where
  "as_ValidateToken a now tok =
     (case ValidateAccessToken (as_jwt a) (as_jwtProvider a) now tok of
        Inl _ \<Rightarrow> \<lparr>vt_Valid = False, vt_UserId = 0, vt_Username = [], vt_Role = []\<rparr>
      | Inr claims \<Rightarrow> \<lparr>vt_Valid = True, vt_UserId = uc_UserID claims, vt_Username = uc_Username claims,
                      vt_Role = uc_Role claims\<rparr>)"

definition sv_GetUser :: "'s userService \<Rightarrow> time \<Rightarrow> int \<Rightarrow> ('s, pb_UserResponse) rpc" where
  "sv_GetUser us now i =
     and_then (on_error user_mapError (user_GetByID us now i)) (\<lambda>u. ret (response_toProto u))"

definition sv_CreateUser :: "pb_CreateUserRequest \<Rightarrow> ('s, pb_UserResponse) rpc" where
  "sv_CreateUser req = fail (Status Unimplemented_code ''use AuthService.Register to create users'' None)"

definition sv_UpdateUser :: "'s userService \<Rightarrow> time \<Rightarrow> pb_UpdateUserRequest \<Rightarrow> ('s, pb_UserResponse) rpc" where
  "sv_UpdateUser us now req =
     and_then (on_error user_mapError (user_Update us now (uq_Id req)
       \<lparr>up_FirstName = (case uq_FirstName req of None \<Rightarrow> [] | Some x \<Rightarrow> x),
        up_LastName = (case uq_LastName req of None \<Rightarrow> [] | Some x \<Rightarrow> x),
        up_Email = (case uq_Email req of None \<Rightarrow> [] | Some x \<Rightarrow> x)\<rparr>)) (\<lambda>u. ret (response_toProto u))"

definition sv_DeleteUser :: "'s userService \<Rightarrow> time \<Rightarrow> int \<Rightarrow> ('s, unit) rpc" where
  "sv_DeleteUser us now i = on_error user_mapError (user_Delete us now i)"

text \<open>The page of the service is always there (its size is never zero).\<close>

definition sv_ListUsers :: "'s userService \<Rightarrow> time \<Rightarrow> int \<Rightarrow> int \<Rightarrow> ('s, pb_ListUsersResponse option) rpc" where
  "sv_ListUsers us now page psize =
     and_then (on_error user_mapError (user_List us now page psize)) (\<lambda>r.
     ret (map_option (\<lambda>p.
       \<lparr>lr_Users = map response_toProto (pr_Items p), lr_Page = wrap_int32 (pi_Page (pr_PageInfo p)),
        lr_Size = wrap_int32 (pi_Size (pr_PageInfo p)), lr_TotalItems = pi_TotalItems (pr_PageInfo p),
        lr_TotalPages = wrap_int32 (pi_TotalPages (pr_PageInfo p))\<rparr>) r))"

definition sv_GetUserByUsername :: "'s userService \<Rightarrow> time \<Rightarrow> string \<Rightarrow> ('s, pb_UserResponse) rpc" where
  "sv_GetUserByUsername us now x =
     and_then (on_error user_mapError (user_GetByUsername us now x)) (\<lambda>u. ret (response_toProto u))"

definition sv_GetUserByEmail :: "'s userService \<Rightarrow> time \<Rightarrow> string \<Rightarrow> ('s, pb_UserResponse) rpc" where
  "sv_GetUserByEmail us now x =
     and_then (on_error user_mapError (user_GetByEmail us now x)) (\<lambda>u. ret (response_toProto u))"

definition sv_ExistsByUsername :: "'s userService \<Rightarrow> time \<Rightarrow> string \<Rightarrow> ('s, bool) rpc" where
  "sv_ExistsByUsername us now x = on_error user_mapError (user_ExistsByUsername us now x)"

definition sv_ExistsByEmail :: "'s userService \<Rightarrow> time \<Rightarrow> string \<Rightarrow> ('s, bool) rpc" where
  "sv_ExistsByEmail us now x = on_error user_mapError (user_ExistsByEmail us now x)"

subsection \<open>Interceptors\<close>

text \<open>
  A handler answers, fails, or panics (\<open>None\<close>). \<^verbatim>\<open>RecoveryInterceptor\<close> turns a panic into an error without a
  status; the logging interceptor in front of it changes nothing and returns what was logged.
\<close>

datatype handler_error = Reported grpc_error | Internal_server_error

definition RecoveryInterceptor :: "('a \<Rightarrow> (grpc_error + 'b) option) \<Rightarrow> 'a \<Rightarrow> handler_error + 'b" where
  "RecoveryInterceptor handler req =
     (case handler req of
        None \<Rightarrow> Inl Internal_server_error
      | Some (Inl e) \<Rightarrow> Inl (Reported e)
      | Some (Inr resp) \<Rightarrow> Inr resp)"

datatype grpc_log = LogRequest string | LogFailure string

definition LoggingInterceptor :: "string \<Rightarrow> ('a \<Rightarrow> 'e + 'b) \<Rightarrow> 'a \<Rightarrow> ('e + 'b) \<times> grpc_log list" where
  "LoggingInterceptor full_method handler req =
     (let r = handler req in (r, LogRequest full_method # (if isl r then [LogFailure full_method] else [])))"

subsection \<open>What goes over the wire\<close>

lemma timestamp_roundtrip [simp]: "fromProtoTimestamp (Some (toProtoTimestamp t)) = t"
  by (simp add: fromProtoTimestamp_def toProtoTimestamp_def unix_seconds_def)

text \<open>A user response has no password, and says nothing of a deletion.\<close>

definition wire_user :: "User \<Rightarrow> User" where
  "wire_user u = u\<lparr>u_Password := [], u_DeletedAt := None\<rparr>"

lemma wire_roundtrip [simp]: "pb_toEntity (toProtoUser u) = wire_user u"
  by (cases u) (simp add: pb_toEntity_def toProtoUser_def wire_user_def zero_user_def)

definition over_wire :: "string \<Rightarrow> ('a \<Rightarrow> 'b) \<Rightarrow> ('s, 'a) svc \<Rightarrow> ('s, 'b) rpc" where
  "over_wire msg f m = and_then (on_error (internal msg) m) (\<lambda>x. ret (f x))"

lemma or_nil_found:
  "or_nil (and_then (on_error (internal msg) m) found_user) = over_wire msg (map_option wire_user) m"
  by (rule ext)
     (auto simp: or_nil_def over_wire_def and_then_def on_error_def internal_def found_user_def user_not_found_def
        fail_def ret_def split: sum.splits option.splits prod.splits)

lemma over_wire_id: "over_wire msg (\<lambda>x. x) m = on_error (internal msg) m"
  by (rule ext) (auto simp: over_wire_def and_then_def ret_def on_error_def split: sum.splits prod.splits)

lemma wrap_int32_id: "- (2 ^ 31) \<le> x \<Longrightarrow> x < 2 ^ 31 \<Longrightarrow> wrap_int32 x = x"
  by (simp add: wrap_int32_def)


lemma mem_user_up: "0 < u_ID u \<Longrightarrow> mem_db_up ([u], [])"
  by (simp add: mem_db_up_def indexed_def)


subsection \<open>Saving what was read\<close>

context sql_table
begin

lemma Update_same_keys:
  assumes "up s" "r0 \<in> set (view s)" "sc_id sc r0 = sc_id sc r" "sc_deleted sc r0 = None" "sc_fits sc r"
    "list_all (\<lambda>f. sc_col sc f r = sc_col sc f r0) (sc_unique sc)"
  shows "fst (dao_Update db now r s) = Inr ()
    \<and> view (snd (dao_Update db now r s)) =
        map (\<lambda>r'. if sc_id sc r' = sc_id sc r then sc_touch sc now r else r') (view s)"
proof -
  have v: "sees sc (CEq ''id'' (VInt (sc_id sc r))) r0" using assms(3, 4) by (simp add: sees_def id_col)
  have "\<not> clash sc (others sc (sc_id sc r) (view s)) r"
  proof
    assume "clash sc (others sc (sc_id sc r) (view s)) r"
    then obtain r' f where x: "r' \<in> set (view s)" "sc_id sc r' \<noteq> sc_id sc r" "f \<in> set (sc_unique sc)"
        "sc_col sc f r' = sc_col sc f r" by (auto simp: clash_def others_def list_ex_iff)
    have "distinct (map (sc_col sc f) (view s))"
      using view_indexed [OF assms(1)] x(3) by (auto simp: indexed_def list_all_iff)
    moreover have "sc_col sc f r' = sc_col sc f r0" using x(3, 4) assms(6) by (auto simp: list_all_iff)
    ultimately have "r' = r0" using x(1) assms(2) by (auto simp: distinct_map inj_on_def)
    with x(2) assms(3) show False by simp
  qed
  from SAVE_ok [OF assms(1) v assms(2, 5) this, of now] show ?thesis
    by (simp add: dao_Update_def exec_reply exec_view)
qed

end

lemma repo_Update_keeps:
  assumes tb: "sql_table user_schema udb view up (\<lambda>_ _. True)"
    and s: "up s" "u \<in> set (view s)" "u_DeletedAt u = None"
    and r: "u_ID r = u_ID u" "u_Username r = u_Username u" "u_Email r = u_Email u" "user_fits r"
  shows "fst (repo_UpdateUser udb now r s) = Inr ()"
    and "view (snd (repo_UpdateUser udb now r s)) =
      map (\<lambda>r'. if u_ID r' = u_ID u then r\<lparr>u_UpdatedAt := now\<rparr> else r') (view s)"
  using sql_table.Update_same_keys [OF tb s(1, 2), of r now] s(3) r by (simp_all add: repo_UpdateUser_def)

lemma repo_GetByID_row:
  assumes tb: "sql_table user_schema udb view up (\<lambda>_ _. True)" and s: "up s" "u \<in> set (view s)" "u_DeletedAt u = None"
  shows "fst (GetByID udb now (u_ID u) s) = Inr (Some u)"
    and "up (snd (GetByID udb now (u_ID u) s))" and "view (snd (GetByID udb now (u_ID u) s)) = view s"
  using sql_table.first_by_laws [OF tb s(1)] sql_table.row_by_id [OF tb s(1), of "u_ID u" u] s(2, 3)
  by (simp_all add: GetByID_def dao_FindByID_def)

text \<open>
  An edit through the remote repository loses the password: reading a user over gRPC and saving it
  with another first name succeeds and stores an empty password, since the answer that was read has none
  and the update always sends one.
\<close>

theorem grpc_update_wipes_password:
  assumes tb: "sql_table user_schema udb view up (\<lambda>_ _. True)"
    and s: "up s" "u \<in> set (view s)" "u_DeletedAt u = None" and fits: "user_fits (u\<lparr>u_FirstName := n\<rparr>)"
  shows "fst (gr_GetByID (direct_client udb now) (u_ID u) s) = Inr (Some (wire_user u))
    \<and> (let s1 = snd (gr_GetByID (direct_client udb now) (u_ID u) s);
           (r, s2) = gr_Update (direct_client udb now) ((wire_user u)\<lparr>u_FirstName := n\<rparr>) s1
       in \<not> isl r
          \<and> view s2 = map (\<lambda>r. if u_ID r = u_ID u
               then u\<lparr>u_FirstName := n, u_Password := [], u_UpdatedAt := now\<rparr> else r) (view s))"
proof -
  let ?get = "GetByID udb now (u_ID u)"
  obtain s1 where g: "?get s = (Inr (Some u), s1)" "up s1" "u \<in> set (view s1)" "view s1 = view s"
    using repo_GetByID_row [OF tb s, of now] s(2) by (cases "?get s") auto
  obtain s2 where g1: "?get s1 = (Inr (Some u), s2)" "up s2" "u \<in> set (view s2)" "view s2 = view s"
    using repo_GetByID_row [OF tb g(2, 3) s(3), of now] g(3, 4) by (cases "?get s1") auto
  let ?r = "u\<lparr>u_FirstName := n, u_Password := []\<rparr>"
  have fr: "user_fits ?r" using fits by (simp add: user_fits_def)
  obtain s3 where u: "repo_UpdateUser udb now ?r s2 = (Inr (), s3)"
    "view s3 = map (\<lambda>r. if u_ID r = u_ID u then ?r\<lparr>u_UpdatedAt := now\<rparr> else r) (view s)"
    using repo_Update_keeps [OF tb g1(2, 3) s(3) _ _ _ fr, of now] g1(4) by (cases "repo_UpdateUser udb now ?r s2") auto
  have read: "gr_GetByID (direct_client udb now) (u_ID u) s = (Inr (Some (wire_user u)), s1)"
    using g(1) by (simp add: gr_GetByID_def direct_client_def rs_GetUser_def or_nil_found over_wire_def
        and_then_def on_error_def ret_def)
  have "apply_update \<lparr>uq_Id = u_ID u, uq_Email = Some (u_Email u), uq_FirstName = Some n, uq_LastName = Some (u_LastName u),
      uq_Password = Some [], uq_IsActive = Some (u_IsActive u), uq_IsVerified = Some (u_IsVerified u)\<rparr> u = ?r"
    by (simp add: apply_update_def)
  then obtain w where "gr_Update (direct_client udb now) ((wire_user u)\<lparr>u_FirstName := n\<rparr>) s1 = (Inr w, s3)"
    using u(1) g1(1) by (simp add: gr_Update_def direct_client_def rs_UpdateUser_def and_then_def on_error_def ret_def wire_user_def)
  then show ?thesis using u(2) read by simp
qed

theorem grpc_update_wipes_password_witness:
  "let u = zero_user\<lparr>u_ID := 7, u_Username := ''ann'', u_Password := ''hash''\<rparr>;
       s1 = snd (gr_GetByID (direct_client mem_users 5) 7 ([u], []));
       (r, s2) = gr_Update (direct_client mem_users 5) ((wire_user u)\<lparr>u_FirstName := ''Ann''\<rparr>) s1
   in \<not> isl r \<and> map u_Password (fst s2) = [[]]"
proof -
  let ?u = "zero_user\<lparr>u_ID := 7, u_Username := ''ann'', u_Password := ''hash''\<rparr>"
  have up: "mem_db_up ([?u], [])" by (simp add: mem_user_up)
  have id: "u_ID ?u = 7" "u_DeletedAt ?u = None" by (simp_all add: zero_user_def)
  have "?u \<in> set (fst ([?u], [] :: RefreshToken list))" "user_fits (?u\<lparr>u_FirstName := ''Ann''\<rparr>)"
    by (simp_all add: user_fits_def zero_user_def)
  note th = conjunct2 [OF grpc_update_wipes_password [OF mem_users_table, OF up this(1) id(2) this(2), of 5]]
  have pw: "map u_Password (map (\<lambda>r. if u_ID r = 7 then ?u\<lparr>u_FirstName := ''Ann'', u_Password := [], u_UpdatedAt := 5\<rparr> else r)
      (fst ([?u], [] :: RefreshToken list))) = [[]]"
    by (simp add: id)
  show ?thesis using th unfolding Let_def id(1) split_beta by (elim conjE, intro conjI) (assumption, simp only: pw)
qed

end
