(* ===== verification/App_Config.thy ===== *)
theory App_Config
  imports Security
begin

text \<open>
  The configuration of the application (\<^verbatim>\<open>internal/config/config.go\<close>, \<^verbatim>\<open>internal/config/worker.go\<close>): the structs
  with the keys of their \<^verbatim>\<open>mapstructure\<close> tags, the defaults, \<^verbatim>\<open>Load\<close>, \<^verbatim>\<open>Validate\<close>, the connection strings and
  the predicates on drivers and layers.

  Viper is not part of the repository. Reading the configuration file and filling the struct from
  defaults, file and environment are functions of a record; the laws of the locale \<open>viper_lib\<close> are the
  documented order of precedence (environment, file, default; an empty variable counts as unset, and the
  environment is asked only for keys that a default or the file names). \<open>mem_Unmarshal\<close> is a viper that
  satisfies them.
\<close>

subsection \<open>The structs\<close>

record AppConfig =
  ap_Name :: string
  ap_Version :: string
  ap_Environment :: string
  ap_Debug :: bool

record ServerConfig =
  se_Host :: string
  se_Port :: int
  se_ReadTimeout :: duration
  se_WriteTimeout :: duration
  se_IdleTimeout :: duration

record GRPCConfig =
  gp_Host :: string
  gp_Port :: int
  gp_TLSEnabled :: bool
  gp_CertFile :: string
  gp_KeyFile :: string
  gp_CAFile :: string

record DatabaseConfig =
  db_Driver :: string
  db_Host :: string
  db_Port :: int
  db_Name :: string
  db_User :: string
  db_Password :: string
  db_SSLMode :: string
  db_MaxOpenConns :: int
  db_MaxIdleConns :: int
  db_ConnMaxLifetime :: duration
  db_AuthSource :: string
  db_ReplicaSet :: string

record RedisConfig =
  rd_Host :: string
  rd_Port :: int
  rd_Password :: string
  rd_DB :: int

record DeploymentConfig =
  dp_Mode :: string
  dp_Layer :: string
  dp_Protocol :: string

record PluginConfig =
  pc_Enabled :: bool
  pc_PluginsDirectory :: string
  pc_AutoLoad :: bool
  pc_HotReload :: bool

record SSRConfig =
  sr_Enabled :: bool
  sr_ReactPath :: string
  sr_AngularPath :: string
  sr_CacheEnabled :: bool
  sr_CacheTTL :: int

record Config =
  cf_App :: AppConfig
  cf_Server :: ServerConfig
  cf_Database :: DatabaseConfig
  cf_Redis :: RedisConfig
  cf_JWT :: JWTConfig
  cf_Deployment :: DeploymentConfig
  cf_Plugin :: PluginConfig
  cf_SSR :: SSRConfig
  cf_GRPC :: GRPCConfig

definition DeploymentMonolithic :: string where "DeploymentMonolithic = ''monolithic''"
definition DeploymentLayered :: string where "DeploymentLayered = ''layered''"
definition DeploymentKubernetes :: string where "DeploymentKubernetes = ''kubernetes''"

definition LayerController :: string where "LayerController = ''controller''"
definition LayerService :: string where "LayerService = ''service''"
definition LayerRepository :: string where "LayerRepository = ''repository''"
definition LayerAll :: string where "LayerAll = []"

definition ProtocolHTTP :: string where "ProtocolHTTP = ''http''"
definition ProtocolGRPC :: string where "ProtocolGRPC = ''grpc''"

definition DriverMySQL :: string where "DriverMySQL = ''mysql''"
definition DriverPostgres :: string where "DriverPostgres = ''postgres''"
definition DriverMongoDB :: string where "DriverMongoDB = ''mongodb''"

lemmas layer_names = LayerController_def LayerService_def LayerRepository_def LayerAll_def
  ProtocolHTTP_def ProtocolGRPC_def
lemmas driver_names = DriverMySQL_def DriverPostgres_def DriverMongoDB_def

subsection \<open>Loading\<close>

datatype setting = SStr string | SInt int | SBool bool | SDur duration

type_synonym settings = "string \<Rightarrow> setting option"
type_synonym environ = "string \<Rightarrow> string"

definition setDefaults :: "environ \<Rightarrow> (string \<times> setting) list" where
  "setDefaults env =
    [(''app.name'', SStr ''arcana-cloud-go''), (''app.version'', SStr ''1.0.0''),
     (''app.environment'', SStr ''development''), (''app.debug'', SBool True),
     (''server.host'', SStr ''0.0.0.0''), (''server.port'', SInt 8080),
     (''server.read_timeout'', SDur (30 * second)), (''server.write_timeout'', SDur (30 * second)),
     (''server.idle_timeout'', SDur (60 * second)),
     (''grpc.host'', SStr ''0.0.0.0''), (''grpc.port'', SInt 9090), (''grpc.tls_enabled'', SBool False),
     (''database.driver'', SStr ''mysql''), (''database.host'', SStr ''localhost''), (''database.port'', SInt 3306),
     (''database.name'', SStr ''arcana_cloud''), (''database.user'', SStr ''root''), (''database.password'', SStr []),
     (''database.ssl_mode'', SStr ''disable''), (''database.max_open_conns'', SInt 25),
     (''database.max_idle_conns'', SInt 10), (''database.conn_max_lifetime'', SDur (5 * minute)),
     (''redis.host'', SStr ''localhost''), (''redis.port'', SInt 6379), (''redis.password'', SStr []), (''redis.db'', SInt 0),
     (''jwt.secret'', SStr (env ''JWT_SECRET'')), (''jwt.access_token_duration'', SDur hour),
     (''jwt.refresh_token_duration'', SDur (30 * 24 * hour)), (''jwt.issuer'', SStr ''arcana-cloud''),
     (''deployment.mode'', SStr DeploymentMonolithic), (''deployment.layer'', SStr LayerAll),
     (''deployment.protocol'', SStr ProtocolGRPC),
     (''plugin.enabled'', SBool True), (''plugin.plugins_directory'', SStr ''./plugins''), (''plugin.auto_load'', SBool True),
     (''plugin.hot_reload'', SBool True),
     (''ssr.enabled'', SBool True), (''ssr.react_path'', SStr ''./arcana-web/react-app''),
     (''ssr.angular_path'', SStr ''./arcana-web/angular-app''), (''ssr.cache_enabled'', SBool True),
     (''ssr.cache_ttl'', SInt 3600)]"

text \<open>\<^verbatim>\<open>ConfigFileNotFoundError\<close>, or another error of reading or parsing the file.\<close>

datatype read_error = ConfigFileNotFound | ReadFailed string

datatype load_error =
    ErrReadConfig string | ErrUnmarshal string | ErrSecretRequired | ErrDatabaseNameRequired

text \<open>A viper: the file it finds on its search paths, and how it fills the struct.\<close>

record viper =
  vp_ReadInConfig :: "read_error + settings"
  vp_Unmarshal :: "(string \<times> setting) list \<Rightarrow> settings \<Rightarrow> environ \<Rightarrow> string + Config"

definition cfg_Validate :: "Config \<Rightarrow> load_error option" where
  "cfg_Validate c =
     (if jc_Secret (cf_JWT c) = [] then Some ErrSecretRequired
      else if db_Name (cf_Database c) = [] then Some ErrDatabaseNameRequired
      else None)"

definition Load :: "viper \<Rightarrow> environ \<Rightarrow> load_error + Config" where
  "Load v env =
     (case (case vp_ReadInConfig v of
              Inr file \<Rightarrow> Inr file
            | Inl ConfigFileNotFound \<Rightarrow> Inr Map.empty
            | Inl (ReadFailed e) \<Rightarrow> Inl (ErrReadConfig e)) of
        Inl e \<Rightarrow> Inl e
      | Inr file \<Rightarrow>
          (case vp_Unmarshal v (setDefaults env) file env of
             Inl e \<Rightarrow> Inl (ErrUnmarshal e)
           | Inr cfg \<Rightarrow> (case cfg_Validate cfg of Some e \<Rightarrow> Inl e | None \<Rightarrow> Inr cfg)))"

subsection \<open>Connection strings\<close>

definition DSN :: "DatabaseConfig \<Rightarrow> string" where
  "DSN c =
     (if db_Driver c = DriverMySQL
      then db_User c @ '':'' @ db_Password c @ ''@tcp('' @ db_Host c @ '':'' @ itoa (db_Port c) @ '')/'' @ db_Name c
        @ ''?charset=utf8mb4&parseTime=True&loc=Local''
      else if db_Driver c = DriverPostgres
      then ''host='' @ db_Host c @ '' port='' @ itoa (db_Port c) @ '' user='' @ db_User c @ '' password='' @ db_Password c
        @ '' dbname='' @ db_Name c @ '' sslmode='' @ db_SSLMode c
      else [])"

fun join_amp :: "string list \<Rightarrow> string" where
  "join_amp [] = []"
| "join_amp [p] = p"
| "join_amp (p # ps) = p @ ''&'' @ join_amp ps"

definition mongo_params :: "DatabaseConfig \<Rightarrow> string list" where
  "mongo_params c =
     (if db_AuthSource c \<noteq> [] then [''authSource='' @ db_AuthSource c] else [])
     @ (if db_ReplicaSet c \<noteq> [] then [''replicaSet='' @ db_ReplicaSet c] else [])"

definition appendMongoOptions :: "DatabaseConfig \<Rightarrow> string \<Rightarrow> string" where
  "appendMongoOptions c uri =
     (let params = mongo_params c in if length params > 0 then uri @ ''?'' @ join_amp params else uri)"

definition MongoURI :: "DatabaseConfig \<Rightarrow> string" where
  "MongoURI c =
     (if db_User c \<noteq> [] \<and> db_Password c \<noteq> []
      then appendMongoOptions c (''mongodb://'' @ db_User c @ '':'' @ db_Password c @ ''@'' @ db_Host c @ '':''
        @ itoa (db_Port c) @ ''/'' @ db_Name c)
      else appendMongoOptions c (''mongodb://'' @ db_Host c @ '':'' @ itoa (db_Port c) @ ''/'' @ db_Name c))"

subsection \<open>Drivers, layers and protocol\<close>

definition IsMongoDB :: "DatabaseConfig \<Rightarrow> bool" where "IsMongoDB c \<longleftrightarrow> db_Driver c = DriverMongoDB"
definition IsMySQL :: "DatabaseConfig \<Rightarrow> bool" where "IsMySQL c \<longleftrightarrow> db_Driver c = DriverMySQL"
definition IsPostgres :: "DatabaseConfig \<Rightarrow> bool" where "IsPostgres c \<longleftrightarrow> db_Driver c = DriverPostgres"
definition IsSQL :: "DatabaseConfig \<Rightarrow> bool" where
  "IsSQL c \<longleftrightarrow> db_Driver c = DriverMySQL \<or> db_Driver c = DriverPostgres"

definition IsControllerLayer :: "DeploymentConfig \<Rightarrow> bool" where
  "IsControllerLayer c \<longleftrightarrow> dp_Layer c = LayerAll \<or> dp_Layer c = LayerController"
definition IsServiceLayer :: "DeploymentConfig \<Rightarrow> bool" where
  "IsServiceLayer c \<longleftrightarrow> dp_Layer c = LayerAll \<or> dp_Layer c = LayerService"
definition IsRepositoryLayer :: "DeploymentConfig \<Rightarrow> bool" where
  "IsRepositoryLayer c \<longleftrightarrow> dp_Layer c = LayerAll \<or> dp_Layer c = LayerRepository"
definition IsGRPC :: "DeploymentConfig \<Rightarrow> bool" where
  "IsGRPC c \<longleftrightarrow> dp_Protocol c = ProtocolGRPC"

lemmas layer_defs = IsControllerLayer_def IsServiceLayer_def IsRepositoryLayer_def IsGRPC_def

subsection \<open>Worker settings\<close>

record WorkerConfig =
  wk_Enabled :: bool
  wk_Concurrency :: int
  wk_PollInterval :: duration
  wk_ShutdownTimeout :: duration

definition DefaultWorkerConfig :: WorkerConfig where
  "DefaultWorkerConfig =
     \<lparr>wk_Enabled = True, wk_Concurrency = 8, wk_PollInterval = 100 * millisecond, wk_ShutdownTimeout = 30 * second\<rparr>"

record SchedulerSettings =
  ss_Enabled :: bool
  ss_LeaderLockTTL :: duration

definition DefaultSchedulerSettings :: SchedulerSettings where
  "DefaultSchedulerSettings = \<lparr>ss_Enabled = True, ss_LeaderLockTTL = 30 * second\<rparr>"

subsection \<open>What viper promises\<close>

text \<open>The string fields by the keys of their tags.\<close>

definition config_str :: "string \<Rightarrow> Config \<Rightarrow> string option" where
  "config_str k c =
     map_of
       [(''app.name'', ap_Name (cf_App c)), (''app.version'', ap_Version (cf_App c)),
        (''app.environment'', ap_Environment (cf_App c)), (''server.host'', se_Host (cf_Server c)),
        (''grpc.host'', gp_Host (cf_GRPC c)), (''grpc.cert_file'', gp_CertFile (cf_GRPC c)),
        (''grpc.key_file'', gp_KeyFile (cf_GRPC c)), (''grpc.ca_file'', gp_CAFile (cf_GRPC c)),
        (''database.driver'', db_Driver (cf_Database c)), (''database.host'', db_Host (cf_Database c)),
        (''database.name'', db_Name (cf_Database c)), (''database.user'', db_User (cf_Database c)),
        (''database.password'', db_Password (cf_Database c)), (''database.ssl_mode'', db_SSLMode (cf_Database c)),
        (''database.auth_source'', db_AuthSource (cf_Database c)), (''database.replica_set'', db_ReplicaSet (cf_Database c)),
        (''redis.host'', rd_Host (cf_Redis c)), (''redis.password'', rd_Password (cf_Redis c)),
        (''jwt.secret'', jc_Secret (cf_JWT c)), (''jwt.issuer'', jc_Issuer (cf_JWT c)),
        (''deployment.mode'', dp_Mode (cf_Deployment c)), (''deployment.layer'', dp_Layer (cf_Deployment c)),
        (''deployment.protocol'', dp_Protocol (cf_Deployment c)),
        (''plugin.plugins_directory'', pc_PluginsDirectory (cf_Plugin c)),
        (''ssr.react_path'', sr_ReactPath (cf_SSR c)), (''ssr.angular_path'', sr_AngularPath (cf_SSR c))] k"

text \<open>The variable of a key: \<^verbatim>\<open>ARCANA_\<close> and the key in capitals with every dot an underscore.\<close>

definition env_char :: "char \<Rightarrow> char" where
  "env_char c = (if c = CHR ''.'' then CHR ''_''
     else if 97 \<le> (of_char c :: nat) \<and> (of_char c :: nat) \<le> 122 then char_of (of_char c - 32 :: nat) else c)"

definition env_name :: "string \<Rightarrow> string" where
  "env_name k = ''ARCANA_'' @ map env_char k"

text \<open>A key that a default or the file names.\<close>

definition known_key :: "(string \<times> setting) list \<Rightarrow> settings \<Rightarrow> string \<Rightarrow> bool" where
  "known_key dflt file k \<longleftrightarrow> map_of dflt k \<noteq> None \<or> file k \<noteq> None"

locale viper_lib =
  fixes unmarshal :: "(string \<times> setting) list \<Rightarrow> settings \<Rightarrow> environ \<Rightarrow> string + Config"
  assumes from_env: "unmarshal dflt file env = Inr c \<Longrightarrow> known_key dflt file k \<Longrightarrow> config_str k c = Some s \<Longrightarrow>
      env (env_name k) \<noteq> [] \<Longrightarrow> s = env (env_name k)"
    and from_file: "unmarshal dflt file env = Inr c \<Longrightarrow> file k = Some (SStr x) \<Longrightarrow> config_str k c = Some s \<Longrightarrow>
      env (env_name k) = [] \<Longrightarrow> s = x"
    and from_default: "unmarshal dflt file env = Inr c \<Longrightarrow> file k = None \<Longrightarrow> map_of dflt k = Some (SStr x) \<Longrightarrow>
      config_str k c = Some s \<Longrightarrow> env (env_name k) = [] \<Longrightarrow> s = x"
    and from_nowhere: "unmarshal dflt file env = Inr c \<Longrightarrow> \<not> known_key dflt file k \<Longrightarrow> config_str k c = Some s \<Longrightarrow> s = []"

subsection \<open>A viper in memory\<close>

definition find_setting :: "(string \<times> setting) list \<Rightarrow> settings \<Rightarrow> environ \<Rightarrow> string \<Rightarrow> setting option" where
  "find_setting dflt file env k =
     (if known_key dflt file k \<and> env (env_name k) \<noteq> [] then Some (SStr (env (env_name k)))
      else case file k of Some v \<Rightarrow> Some v | None \<Rightarrow> map_of dflt k)"

fun str_of :: "setting option \<Rightarrow> string" where
  "str_of None = []"
| "str_of (Some (SStr s)) = s"
| "str_of (Some (SInt n)) = itoa n"
| "str_of (Some (SBool b)) = (if b then ''1'' else ''0'')"
| "str_of (Some (SDur d)) = itoa d"

fun int_of :: "setting option \<Rightarrow> int option" where
  "int_of None = Some 0"
| "int_of (Some (SInt n)) = Some n"
| "int_of (Some (SDur d)) = Some d"
| "int_of (Some (SBool b)) = Some (if b then 1 else 0)"
| "int_of (Some (SStr s)) = atoi s"

fun bool_of :: "setting option \<Rightarrow> bool option" where
  "bool_of None = Some False"
| "bool_of (Some (SBool b)) = Some b"
| "bool_of (Some (SStr s)) = (if s = ''true'' then Some True else if s = ''false'' then Some False else None)"
| "bool_of (Some (SInt n)) = Some (n \<noteq> 0)"
| "bool_of (Some (SDur d)) = Some (d \<noteq> 0)"

definition parse_unit :: "string \<Rightarrow> duration option" where
  "parse_unit u = map_of [(''ns'', 1), (''ms'', millisecond), (''s'', second), (''m'', minute), (''h'', hour)] u"

fun dur_of :: "setting option \<Rightarrow> duration option" where
  "dur_of (Some (SStr s)) =
     (let (ds, u) = (takeWhile (\<lambda>c. c \<in> set ''0123456789'') s, dropWhile (\<lambda>c. c \<in> set ''0123456789'') s)
      in case (atoi ds, parse_unit u) of (Some n, Some d) \<Rightarrow> Some (n * d) | _ \<Rightarrow> None)"
| "dur_of v = int_of v"

definition str_keys :: "string list" where
  "str_keys = [''app.name'', ''app.version'', ''app.environment'', ''server.host'', ''grpc.host'', ''grpc.cert_file'',
     ''grpc.key_file'', ''grpc.ca_file'', ''database.driver'', ''database.host'', ''database.name'', ''database.user'',
     ''database.password'', ''database.ssl_mode'', ''database.auth_source'', ''database.replica_set'', ''redis.host'',
     ''redis.password'', ''jwt.secret'', ''jwt.issuer'', ''deployment.mode'', ''deployment.layer'', ''deployment.protocol'',
     ''plugin.plugins_directory'', ''ssr.react_path'', ''ssr.angular_path'']"

definition int_keys :: "string list" where
  "int_keys = [''server.port'', ''grpc.port'', ''database.port'', ''database.max_open_conns'', ''database.max_idle_conns'',
     ''redis.port'', ''redis.db'', ''ssr.cache_ttl'']"

definition bool_keys :: "string list" where
  "bool_keys = [''app.debug'', ''grpc.tls_enabled'', ''plugin.enabled'', ''plugin.auto_load'', ''plugin.hot_reload'',
     ''ssr.enabled'', ''ssr.cache_enabled'']"

definition dur_keys :: "string list" where
  "dur_keys = [''server.read_timeout'', ''server.write_timeout'', ''server.idle_timeout'', ''database.conn_max_lifetime'',
     ''jwt.access_token_duration'', ''jwt.refresh_token_duration'']"

definition fill_config ::
  "(string \<Rightarrow> string) \<Rightarrow> (string \<Rightarrow> int) \<Rightarrow> (string \<Rightarrow> bool) \<Rightarrow> (string \<Rightarrow> duration) \<Rightarrow> Config" where
  "fill_config S I B D =
     \<lparr>cf_App = \<lparr>ap_Name = S ''app.name'', ap_Version = S ''app.version'', ap_Environment = S ''app.environment'',
        ap_Debug = B ''app.debug''\<rparr>,
      cf_Server = \<lparr>se_Host = S ''server.host'', se_Port = I ''server.port'', se_ReadTimeout = D ''server.read_timeout'',
        se_WriteTimeout = D ''server.write_timeout'', se_IdleTimeout = D ''server.idle_timeout''\<rparr>,
      cf_Database = \<lparr>db_Driver = S ''database.driver'', db_Host = S ''database.host'', db_Port = I ''database.port'',
        db_Name = S ''database.name'', db_User = S ''database.user'', db_Password = S ''database.password'',
        db_SSLMode = S ''database.ssl_mode'', db_MaxOpenConns = I ''database.max_open_conns'',
        db_MaxIdleConns = I ''database.max_idle_conns'', db_ConnMaxLifetime = D ''database.conn_max_lifetime'',
        db_AuthSource = S ''database.auth_source'', db_ReplicaSet = S ''database.replica_set''\<rparr>,
      cf_Redis = \<lparr>rd_Host = S ''redis.host'', rd_Port = I ''redis.port'', rd_Password = S ''redis.password'',
        rd_DB = I ''redis.db''\<rparr>,
      cf_JWT = \<lparr>jc_Secret = S ''jwt.secret'', jc_AccessTokenDuration = D ''jwt.access_token_duration'',
        jc_RefreshTokenDuration = D ''jwt.refresh_token_duration'', jc_Issuer = S ''jwt.issuer''\<rparr>,
      cf_Deployment = \<lparr>dp_Mode = S ''deployment.mode'', dp_Layer = S ''deployment.layer'',
        dp_Protocol = S ''deployment.protocol''\<rparr>,
      cf_Plugin = \<lparr>pc_Enabled = B ''plugin.enabled'', pc_PluginsDirectory = S ''plugin.plugins_directory'',
        pc_AutoLoad = B ''plugin.auto_load'', pc_HotReload = B ''plugin.hot_reload''\<rparr>,
      cf_SSR = \<lparr>sr_Enabled = B ''ssr.enabled'', sr_ReactPath = S ''ssr.react_path'', sr_AngularPath = S ''ssr.angular_path'',
        sr_CacheEnabled = B ''ssr.cache_enabled'', sr_CacheTTL = I ''ssr.cache_ttl''\<rparr>,
      cf_GRPC = \<lparr>gp_Host = S ''grpc.host'', gp_Port = I ''grpc.port'', gp_TLSEnabled = B ''grpc.tls_enabled'',
        gp_CertFile = S ''grpc.cert_file'', gp_KeyFile = S ''grpc.key_file'', gp_CAFile = S ''grpc.ca_file''\<rparr>\<rparr>"

definition mem_Unmarshal :: "(string \<times> setting) list \<Rightarrow> settings \<Rightarrow> environ \<Rightarrow> string + Config" where
  "mem_Unmarshal dflt file env =
     (let g = find_setting dflt file env
      in if list_ex (\<lambda>k. int_of (g k) = None) int_keys \<or> list_ex (\<lambda>k. bool_of (g k) = None) bool_keys
           \<or> list_ex (\<lambda>k. dur_of (g k) = None) dur_keys
         then Inl ''decoding failed''
         else Inr (fill_config (\<lambda>k. str_of (g k)) (\<lambda>k. the (int_of (g k))) (\<lambda>k. the (bool_of (g k)))
           (\<lambda>k. the (dur_of (g k)))))"

lemma config_str_filled: "config_str k (fill_config S I B D) = (if k \<in> set str_keys then Some (S k) else None)"
proof -
  have "config_str k (fill_config S I B D) = map_of (map (\<lambda>k. (k, S k)) str_keys) k"
    by (simp only: config_str_def fill_config_def str_keys_def list.map Config.simps AppConfig.simps ServerConfig.simps
        DatabaseConfig.simps RedisConfig.simps JWTConfig.simps DeploymentConfig.simps PluginConfig.simps SSRConfig.simps
        GRPCConfig.simps)
  then show ?thesis by (simp add: map_of_map_restrict restrict_map_def)
qed

lemma mem_Unmarshal_str:
  assumes "mem_Unmarshal dflt file env = Inr c" "config_str k c = Some s"
  shows "s = str_of (find_setting dflt file env k)"
proof -
  from assms(1) obtain S I B D where "c = fill_config S I B D" "S = (\<lambda>k. str_of (find_setting dflt file env k))"
    by (auto simp: mem_Unmarshal_def Let_def split: if_splits)
  with assms(2) show ?thesis by (simp add: config_str_filled split: if_splits)
qed

interpretation mem_viper: viper_lib mem_Unmarshal
proof
  fix dflt fl env c k s x
  assume m: "mem_Unmarshal dflt fl env = Inr c" and k: "config_str k c = Some s"
  note eq = mem_Unmarshal_str [OF m k]
  show "known_key dflt fl k \<Longrightarrow> env (env_name k) \<noteq> [] \<Longrightarrow> s = env (env_name k)"
    "fl k = Some (SStr x) \<Longrightarrow> env (env_name k) = [] \<Longrightarrow> s = x"
    "fl k = None \<Longrightarrow> map_of dflt k = Some (SStr x) \<Longrightarrow> env (env_name k) = [] \<Longrightarrow> s = x"
    "\<not> known_key dflt fl k \<Longrightarrow> s = []"
    using eq by (auto simp: find_setting_def known_key_def)
qed

subsection \<open>The configuration file of the repository\<close>

text \<open>\<^verbatim>\<open>config/config.yaml\<close>, which the image of the application contains.\<close>

definition shipped_settings :: settings where
  "shipped_settings = map_of
    [(''app.name'', SStr ''arcana-cloud-go''), (''app.version'', SStr ''1.0.0''), (''app.environment'', SStr ''development''),
     (''app.debug'', SBool True),
     (''server.host'', SStr ''0.0.0.0''), (''server.port'', SInt 8080), (''server.read_timeout'', SStr ''30s''),
     (''server.write_timeout'', SStr ''30s''), (''server.idle_timeout'', SStr ''60s''),
     (''grpc.host'', SStr ''0.0.0.0''), (''grpc.port'', SInt 9090), (''grpc.tls_enabled'', SBool False),
     (''grpc.cert_file'', SStr []), (''grpc.key_file'', SStr []), (''grpc.ca_file'', SStr []),
     (''database.driver'', SStr ''mysql''), (''database.host'', SStr ''localhost''), (''database.port'', SInt 3306),
     (''database.name'', SStr ''arcana_cloud''), (''database.user'', SStr ''root''), (''database.password'', SStr []),
     (''database.ssl_mode'', SStr ''disable''), (''database.max_open_conns'', SInt 25), (''database.max_idle_conns'', SInt 10),
     (''database.conn_max_lifetime'', SStr ''5m''),
     (''redis.host'', SStr ''localhost''), (''redis.port'', SInt 6379), (''redis.password'', SStr []), (''redis.db'', SInt 0),
     (''jwt.secret'', SStr ''${JWT_SECRET}''), (''jwt.access_token_duration'', SStr ''1h''),
     (''jwt.refresh_token_duration'', SStr ''720h''), (''jwt.issuer'', SStr ''arcana-cloud''),
     (''deployment.mode'', SStr ''monolithic''), (''deployment.layer'', SStr []), (''deployment.protocol'', SStr ''grpc''),
     (''plugin.enabled'', SBool True), (''plugin.plugins_directory'', SStr ''./plugins''), (''plugin.auto_load'', SBool True),
     (''plugin.hot_reload'', SBool True),
     (''ssr.enabled'', SBool True), (''ssr.react_path'', SStr ''./arcana-web/react-app''),
     (''ssr.angular_path'', SStr ''./arcana-web/angular-app''), (''ssr.cache_enabled'', SBool True),
     (''ssr.cache_ttl'', SInt 3600)]"

lemma config_str_fields [simp]:
  "config_str ''jwt.secret'' c = Some (jc_Secret (cf_JWT c))"
  "config_str ''database.name'' c = Some (db_Name (cf_Database c))"
  "config_str ''database.auth_source'' c = Some (db_AuthSource (cf_Database c))"
  "config_str ''deployment.layer'' c = Some (dp_Layer (cf_Deployment c))"
  "config_str ''deployment.protocol'' c = Some (dp_Protocol (cf_Deployment c))"
  by (simp_all add: config_str_def)

lemma shipped_values:
  "shipped_settings ''jwt.secret'' = Some (SStr ''${JWT_SECRET}'')"
  "shipped_settings ''database.name'' = Some (SStr ''arcana_cloud'')"
  "shipped_settings ''database.auth_source'' = None"
  "shipped_settings ''deployment.layer'' = Some (SStr LayerAll)"
  "shipped_settings ''deployment.protocol'' = Some (SStr ProtocolGRPC)"
  by (simp_all add: shipped_settings_def layer_names)

lemma env_name_secret: "env_name ''jwt.secret'' = ''ARCANA_JWT_SECRET''"
  by code_simp

lemma env_name_deployment:
  "env_name ''deployment.layer'' = ''ARCANA_DEPLOYMENT_LAYER''"
  "env_name ''deployment.protocol'' = ''ARCANA_DEPLOYMENT_PROTOCOL''"
  by code_simp+

lemma default_deployment:
  "map_of (setDefaults env) ''deployment.layer'' = Some (SStr LayerAll)"
  "map_of (setDefaults env) ''deployment.protocol'' = Some (SStr ProtocolGRPC)"
  by (simp_all add: setDefaults_def)

lemma default_auth_source: "map_of (setDefaults env) ''database.auth_source'' = None"
  by (simp add: setDefaults_def)

lemma Validate_same_secret: "jw_secret p = jw_secret q \<Longrightarrow> ValidateAccessToken jl p = ValidateAccessToken jl q"
proof -
  assume "jw_secret p = jw_secret q"
  then have "hmac_key p = hmac_key q" by (simp add: hmac_key_def fun_eq_iff)
  then show ?thesis by (intro ext) (simp add: ValidateAccessToken_def)
qed

context viper_lib
begin

lemma shipped_loads:
  assumes "unmarshal dflt shipped_settings env = Inr cfg" "env ''ARCANA_JWT_SECRET'' = []"
  shows "jc_Secret (cf_JWT cfg) = ''${JWT_SECRET}''" and "cfg_Validate cfg = None"
proof -
  show s: "jc_Secret (cf_JWT cfg) = ''${JWT_SECRET}''"
    using from_file [OF assms(1) shipped_values(1) config_str_fields(1)] assms(2) by (simp only: env_name_secret)
  have "db_Name (cf_Database cfg) \<noteq> []"
  proof (cases "env (env_name ''database.name'') = []")
    case True
    then show ?thesis using from_file [OF assms(1) shipped_values(2) config_str_fields(2)] by simp
  next
    case False
    then show ?thesis using from_env [OF assms(1) _ config_str_fields(2) False] by (simp add: known_key_def shipped_values)
  qed
  with s show "cfg_Validate cfg = None" by (simp add: cfg_Validate_def)
qed

lemma deployment_unset:
  assumes "unmarshal (setDefaults env) fl env = Inr cfg" "fl = Map.empty \<or> fl = shipped_settings"
    and "env ''ARCANA_DEPLOYMENT_LAYER'' = []" "env ''ARCANA_DEPLOYMENT_PROTOCOL'' = []"
  shows "dp_Layer (cf_Deployment cfg) = LayerAll" and "dp_Protocol (cf_Deployment cfg) = ProtocolGRPC"
proof -
  note e = assms(3, 4) [folded env_name_deployment]
  show "dp_Layer (cf_Deployment cfg) = LayerAll"
    using from_file [OF assms(1) _ config_str_fields(4) e(1)] from_default [OF assms(1) _ default_deployment(1) config_str_fields(4) e(1)]
      assms(2) shipped_values(4) by auto
  show "dp_Protocol (cf_Deployment cfg) = ProtocolGRPC"
    using from_file [OF assms(1) _ config_str_fields(5) e(2)] from_default [OF assms(1) _ default_deployment(2) config_str_fields(5) e(2)]
      assms(2) shipped_values(5) by auto
qed

lemma auth_source_needs_file:
  assumes "unmarshal (setDefaults env) fl env' = Inr cfg" "fl ''database.auth_source'' = None"
  shows "db_AuthSource (cf_Database cfg) = []"
  using from_nowhere [OF assms(1) _ config_str_fields(3)] default_auth_source [of env] assms(2)
  by (simp only: known_key_def) simp

end


lemma env_name_prefix: "env_name k \<noteq> ''JWT_SECRET''"
  by (simp add: env_name_def)

lemma shipped_unmarshals: "\<exists>cfg. mem_Unmarshal (setDefaults e) shipped_settings (\<lambda>x. if x = ''JWT_SECRET'' then secret else []) = Inr cfg"
proof -
  let ?env = "\<lambda>x. if x = ''JWT_SECRET'' then secret else []"
  have g: "find_setting (setDefaults e) shipped_settings ?env k =
      (case shipped_settings k of Some v \<Rightarrow> Some v | None \<Rightarrow> map_of (setDefaults e) k)" for k
    by (simp add: find_setting_def env_name_prefix)
  have i: "\<not> list_ex (\<lambda>k. int_of (find_setting (setDefaults e) shipped_settings ?env k) = None) int_keys"
    unfolding g int_keys_def by (simp add: shipped_settings_def)
  have b: "\<not> list_ex (\<lambda>k. bool_of (find_setting (setDefaults e) shipped_settings ?env k) = None) bool_keys"
    unfolding g bool_keys_def by (simp add: shipped_settings_def)
  have d: "\<not> list_ex (\<lambda>k. dur_of (find_setting (setDefaults e) shipped_settings ?env k) = None) dur_keys"
    unfolding g dur_keys_def by (simp add: shipped_settings_def atoi_def parse_unit_def)
  from i b d show ?thesis unfolding mem_Unmarshal_def Let_def by simp
qed


subsection \<open>The connection string of MongoDB\<close>

text \<open>The parts of a string around the first separator, and the parts of a connection string: user,
  password, host, port, database, and the two options.\<close>

definition until :: "char \<Rightarrow> string \<Rightarrow> string \<times> string" where
  "until c s = (takeWhile (\<lambda>x. x \<noteq> c) s, drop 1 (dropWhile (\<lambda>x. x \<noteq> c) s))"

lemma until_sep: "c \<notin> set a \<Longrightarrow> until c (a @ c # b) = (a, b)"
  by (induction a) (auto simp: until_def)

lemma until_none: "c \<notin> set a \<Longrightarrow> until c a = (a, [])"
  by (induction a) (auto simp: until_def)

definition uri_option :: "string \<Rightarrow> string \<Rightarrow> string" where
  "uri_option k q =
     (let (p1, p2) = until (CHR ''&'') q; (k1, v1) = until (CHR ''='') p1; (k2, v2) = until (CHR ''='') p2
      in if k1 = k then v1 else if k2 = k then v2 else [])"

definition uri_parts :: "string \<Rightarrow> (string \<times> string) \<times> string \<times> string \<times> string \<times> string \<times> string" where
  "uri_parts uri =
     (let s = drop 10 uri;
          (auth, hostpart) = (if CHR ''@'' \<in> set s
             then (let (a, r) = until (CHR ''@'') s in (until (CHR '':'') a, r)) else (([], []), s));
          (host, r1) = until (CHR '':'') hostpart;
          (port, r2) = until (CHR ''/'') r1;
          (name, q) = until (CHR ''?'') r2
      in (auth, host, port, name, uri_option ''authSource'' q, uri_option ''replicaSet'' q))"

definition plain_part :: "string \<Rightarrow> bool" where
  "plain_part s \<longleftrightarrow> list_all (\<lambda>c. c \<notin> set s) '':@/?&=''"

lemma itoa_chars: "c \<in> set (itoa n) \<Longrightarrow> c = CHR ''-'' \<or> 48 \<le> (of_char c :: nat) \<and> (of_char c :: nat) \<le> 57"
  using nat_digits_range by (auto simp: itoa_def split: if_splits)

lemma plain_itoa: "plain_part (itoa n)"
  using itoa_chars [of _ n] by (force simp: plain_part_def)

lemma option_parts:
  assumes "plain_part a" "plain_part r"
  shows "uri_option ''authSource'' (join_amp ((if a \<noteq> [] then [''authSource='' @ a] else []) @ (if r \<noteq> [] then [''replicaSet='' @ r] else []))) = a"
    and "uri_option ''replicaSet'' (join_amp ((if a \<noteq> [] then [''authSource='' @ a] else []) @ (if r \<noteq> [] then [''replicaSet='' @ r] else []))) = r"
proof -
  have s: "until (CHR ''='') (''authSource='' @ a) = (''authSource'', a)" "until (CHR ''='') (''replicaSet='' @ r) = (''replicaSet'', r)"
    by (simp_all add: until_def)
  have n: "CHR ''&'' \<notin> set (''authSource='' @ a)" "CHR ''&'' \<notin> set (''replicaSet='' @ r)"
    using assms by (simp_all add: plain_part_def)
  have m: "until (CHR ''&'') (''authSource='' @ a @ ''&'' @ ''replicaSet='' @ r) = (''authSource='' @ a, ''replicaSet='' @ r)"
    using until_sep [OF n(1), of "''replicaSet='' @ r"] by simp
  note u = until_none [OF n(1)] until_none [OF n(2)]
  have e: "until c [] = ([], [])" for c by (simp add: until_def)
  show "uri_option ''authSource'' (join_amp ((if a \<noteq> [] then [''authSource='' @ a] else []) @ (if r \<noteq> [] then [''replicaSet='' @ r] else []))) = a"
    "uri_option ''replicaSet'' (join_amp ((if a \<noteq> [] then [''authSource='' @ a] else []) @ (if r \<noteq> [] then [''replicaSet='' @ r] else []))) = r"
    using s m u e by (cases "a = []"; cases "r = []"; simp add: uri_option_def)+
qed

definition uri_tail :: "DatabaseConfig \<Rightarrow> string" where
  "uri_tail c = db_Host c @ CHR '':'' # itoa (db_Port c) @ CHR ''/'' # db_Name c
     @ (if mongo_params c = [] then [] else CHR ''?'' # join_amp (mongo_params c))"

lemma MongoURI_tail:
  "MongoURI c = ''mongodb://'' @ (if db_User c \<noteq> [] \<and> db_Password c \<noteq> []
     then db_User c @ CHR '':'' # db_Password c @ CHR ''@'' # uri_tail c else uri_tail c)"
  by (simp add: MongoURI_def appendMongoOptions_def uri_tail_def Let_def)

definition uri_safe :: "DatabaseConfig \<Rightarrow> bool" where
  "uri_safe c \<longleftrightarrow> list_all plain_part [db_User c, db_Password c, db_Host c, db_Name c, db_AuthSource c, db_ReplicaSet c]"

lemma plain_not_in: "plain_part s \<Longrightarrow> list_all (\<lambda>c. c \<notin> set s) '':@/?&=''"
  by (simp only: plain_part_def)

lemma tail_parts:
  assumes "uri_safe c"
  shows "CHR ''@'' \<notin> set (uri_tail c)"
    and "(let (host, r1) = until (CHR '':'') (uri_tail c); (port, r2) = until (CHR ''/'') r1; (name, q) = until (CHR ''?'') r2
      in (host, port, name, uri_option ''authSource'' q, uri_option ''replicaSet'' q)) =
     (db_Host c, itoa (db_Port c), db_Name c, db_AuthSource c, db_ReplicaSet c)"
proof -
  have p: "plain_part (db_Host c)" "plain_part (db_Name c)" "plain_part (db_AuthSource c)" "plain_part (db_ReplicaSet c)"
    using assms by (simp_all add: uri_safe_def)
  note n = p [THEN plain_not_in, simplified] plain_itoa [of "db_Port c", THEN plain_not_in, simplified]
  show "CHR ''@'' \<notin> set (uri_tail c)" using n by (simp add: uri_tail_def mongo_params_def)
  let ?q = "join_amp (mongo_params c)"
  let ?rest = "if mongo_params c = [] then [] else CHR ''?'' # ?q"
  have h: "until (CHR '':'') (uri_tail c) = (db_Host c, itoa (db_Port c) @ CHR ''/'' # db_Name c @ ?rest)"
    unfolding uri_tail_def by (rule until_sep) (use n in simp)
  have o: "until (CHR ''/'') (itoa (db_Port c) @ CHR ''/'' # db_Name c @ ?rest) = (itoa (db_Port c), db_Name c @ ?rest)"
    by (rule until_sep) (use n in simp)
  have d: "until (CHR ''?'') (db_Name c @ ?rest) = (db_Name c, ?q)"
    using until_sep [of "CHR ''?''" "db_Name c"] until_none [of "CHR ''?''" "db_Name c"] n by simp
  show "(let (host, r1) = until (CHR '':'') (uri_tail c); (port, r2) = until (CHR ''/'') r1; (name, q) = until (CHR ''?'') r2
      in (host, port, name, uri_option ''authSource'' q, uri_option ''replicaSet'' q)) =
     (db_Host c, itoa (db_Port c), db_Name c, db_AuthSource c, db_ReplicaSet c)"
    unfolding h Let_def prod.case o d unfolding mongo_params_def option_parts [OF p(3, 4)] by (rule refl)
qed

text \<open>
  The connection string of MongoDB reads back. When no setting contains one of the separators
  \<^verbatim>\<open>: @ / ? & =\<close>, the parts of the string are the user, the password (both left out unless both are set), the
  host, the port, the database and the two options of the configuration.
\<close>

theorem mongo_uri_reads_back:
  assumes "uri_safe c"
  shows "uri_parts (MongoURI c) =
    ((if db_User c \<noteq> [] \<and> db_Password c \<noteq> [] then (db_User c, db_Password c) else ([], [])),
     db_Host c, itoa (db_Port c), db_Name c, db_AuthSource c, db_ReplicaSet c)"
proof -
  note t = tail_parts [OF assms]
  have p: "plain_part (db_User c)" "plain_part (db_Password c)" using assms by (simp_all add: uri_safe_def)
  note n = p [THEN plain_not_in, simplified]
  show ?thesis
  proof (cases "db_User c \<noteq> [] \<and> db_Password c \<noteq> []")
    case True
    have a: "until (CHR ''@'') (db_User c @ CHR '':'' # db_Password c @ CHR ''@'' # uri_tail c) =
        (db_User c @ CHR '':'' # db_Password c, uri_tail c)"
      using until_sep [of "CHR ''@''" "db_User c @ CHR '':'' # db_Password c" "uri_tail c"] n by simp
    have u: "until (CHR '':'') (db_User c @ CHR '':'' # db_Password c) = (db_User c, db_Password c)"
      by (rule until_sep) (use n in simp)
    show ?thesis using True t(2) a u by (simp add: uri_parts_def MongoURI_tail Let_def split_beta)
  next
    case False
    then have "MongoURI c = ''mongodb://'' @ uri_tail c" by (auto simp: MongoURI_tail)
    then show ?thesis using t by (simp add: if_not_P [OF False] uri_parts_def Let_def split_beta)
  qed
qed

definition mongo_config :: "string \<Rightarrow> string \<Rightarrow> string \<Rightarrow> DatabaseConfig" where
  "mongo_config user password host =
     \<lparr>db_Driver = DriverMongoDB, db_Host = host, db_Port = 27017, db_Name = ''arcana'', db_User = user, db_Password = password,
      db_SSLMode = [], db_MaxOpenConns = 25, db_MaxIdleConns = 10, db_ConnMaxLifetime = 0, db_AuthSource = ''admin'',
      db_ReplicaSet = []\<rparr>"

theorem mongo_uri_reads_back_witness:
  "uri_parts (MongoURI (mongo_config ''ann'' ''pw'' ''mongo'')) =
     ((''ann'', ''pw''), ''mongo'', itoa 27017, ''arcana'', ''admin'', [])"
proof -
  have "uri_safe (mongo_config ''ann'' ''pw'' ''mongo'')" by (simp add: uri_safe_def plain_part_def mongo_config_def)
  from mongo_uri_reads_back [OF this] show ?thesis by (simp add: mongo_config_def)
qed

text \<open>
  Settings are not escaped: a password that contains separators changes the host, so that two
  configurations have one connection string.
\<close>

theorem mongo_uri_is_ambiguous:
  "MongoURI (mongo_config ''u'' ''p@evil:1/x?'' ''db'') = MongoURI (mongo_config ''u'' ''p'' ''evil:1/x?@db'')"
  by (simp add: MongoURI_def mongo_config_def appendMongoOptions_def mongo_params_def)

end
