(* ===== verification/Deployment.thy ===== *)
theory Deployment
  imports App_Config
begin

text \<open>
  How the application is put together for its deployment (\<^verbatim>\<open>internal/di\<close>): the database and the data access
  objects that the driver selects, the connections between the layers
  (\<^verbatim>\<open>internal/grpc/client/client.go\<close>), the gRPC services each layer registers and the servers it starts.

  Opening a database, dialling and the registry of a gRPC server are library code and arguments of the
  definitions; the locale \<open>grpc_registry\<close> states that a name can be registered once and that the second
  registration ends the process.
\<close>

subsection \<open>Databases and data access objects\<close>

record 'g SQLDatabase =
  sd_DB :: "'g option"

record 'm MongoDatabase =
  md_DB :: "'m option"

datatype db_error = ErrUnsupportedDriver string | ErrConnect string | ErrInstance string | ErrPing string

text \<open>A pool of connections: its handle and the limits that were set.\<close>

record 'h sql_pool =
  sp_handle :: 'h
  sp_MaxOpenConns :: int
  sp_MaxIdleConns :: int
  sp_ConnMaxLifetime :: duration

definition provideSQLDatabase ::
  "(string \<Rightarrow> string \<Rightarrow> string + 'g) \<Rightarrow> ('g \<Rightarrow> string + 'h) \<Rightarrow> DatabaseConfig
     \<Rightarrow> db_error + ('g \<times> 'h sql_pool) SQLDatabase" where
  "provideSQLDatabase gorm_open instance_of cfg =
     (if IsMongoDB cfg then Inr \<lparr>sd_DB = None\<rparr>
      else if db_Driver cfg \<noteq> DriverMySQL \<and> db_Driver cfg \<noteq> DriverPostgres then Inl (ErrUnsupportedDriver (db_Driver cfg))
      else case gorm_open (db_Driver cfg) (DSN cfg) of
        Inl e \<Rightarrow> Inl (ErrConnect e)
      | Inr db \<Rightarrow>
          (case instance_of db of
             Inl e \<Rightarrow> Inl (ErrInstance e)
           | Inr h \<Rightarrow> Inr \<lparr>sd_DB = Some (db, \<lparr>sp_handle = h, sp_MaxOpenConns = db_MaxOpenConns cfg,
               sp_MaxIdleConns = db_MaxIdleConns cfg, sp_ConnMaxLifetime = db_ConnMaxLifetime cfg\<rparr>)\<rparr>))"

definition provideMongoDatabase ::
  "(string \<Rightarrow> string + 'c) \<Rightarrow> ('c \<Rightarrow> string option) \<Rightarrow> ('c \<Rightarrow> string \<Rightarrow> 'm) \<Rightarrow> DatabaseConfig
     \<Rightarrow> db_error + 'm MongoDatabase" where
  "provideMongoDatabase connect ping database cfg =
     (if \<not> IsMongoDB cfg then Inr \<lparr>md_DB = None\<rparr>
      else case connect (MongoURI cfg) of
        Inl e \<Rightarrow> Inl (ErrConnect e)
      | Inr client \<Rightarrow>
          (case ping client of
             Some e \<Rightarrow> Inl (ErrPing e)
           | None \<Rightarrow> Inr \<lparr>md_DB = Some (database client (db_Name cfg))\<rparr>))"

text \<open>The tables to migrate, or the indexes to create.\<close>

datatype migration = AutoMigrate "string list" | CreateMongoIndexes | NoMigration

definition runMigrations :: "'g SQLDatabase \<Rightarrow> 'm MongoDatabase \<Rightarrow> migration" where
  "runMigrations sqlDB mongoDB =
     (if sd_DB sqlDB \<noteq> None then AutoMigrate [''User'', ''RefreshToken'', ''Plugin'', ''PluginExtension'']
      else if md_DB mongoDB \<noteq> None then CreateMongoIndexes
      else NoMigration)"

text \<open>A data access object over the handle it was made with (\<open>None\<close> is \<^verbatim>\<open>nil\<close>).\<close>

datatype ('g, 'm) dao_impl = GormDAO "'g option" | MongoDAO "'m option" "'m option"

definition provideMongoIDCounter :: "'m MongoDatabase \<Rightarrow> 'm option" where
  "provideMongoIDCounter mongoDB = md_DB mongoDB"

definition provideUserDAO :: "DatabaseConfig \<Rightarrow> 'g SQLDatabase \<Rightarrow> 'm MongoDatabase \<Rightarrow> 'm option \<Rightarrow> ('g, 'm) dao_impl" where
  "provideUserDAO cfg sqlDB mongoDB idCounter =
     (if IsMongoDB cfg then MongoDAO (md_DB mongoDB) idCounter else GormDAO (sd_DB sqlDB))"

definition provideRefreshTokenDAO ::
  "DatabaseConfig \<Rightarrow> 'g SQLDatabase \<Rightarrow> 'm MongoDatabase \<Rightarrow> 'm option \<Rightarrow> ('g, 'm) dao_impl
     \<Rightarrow> ('g, 'm) dao_impl \<times> ('g, 'm) dao_impl option" where
  "provideRefreshTokenDAO cfg sqlDB mongoDB idCounter userDAO =
     (if IsMongoDB cfg then (MongoDAO (md_DB mongoDB) idCounter, Some userDAO) else (GormDAO (sd_DB sqlDB), None))"

definition providePluginDAO :: "DatabaseConfig \<Rightarrow> 'g SQLDatabase \<Rightarrow> 'm MongoDatabase \<Rightarrow> 'm option \<Rightarrow> ('g, 'm) dao_impl" where
  "providePluginDAO cfg sqlDB mongoDB idCounter =
     (if IsMongoDB cfg then MongoDAO (md_DB mongoDB) idCounter else GormDAO (sd_DB sqlDB))"

definition providePluginExtensionDAO ::
  "DatabaseConfig \<Rightarrow> 'g SQLDatabase \<Rightarrow> 'm MongoDatabase \<Rightarrow> 'm option \<Rightarrow> ('g, 'm) dao_impl" where
  "providePluginExtensionDAO cfg sqlDB mongoDB idCounter =
     (if IsMongoDB cfg then MongoDAO (md_DB mongoDB) idCounter else GormDAO (sd_DB sqlDB))"

fun usable :: "('g, 'm) dao_impl \<Rightarrow> bool" where
  "usable (GormDAO g) = (g \<noteq> None)"
| "usable (MongoDAO m i) = (m \<noteq> None \<and> i \<noteq> None)"

subsection \<open>Connections to the other layers\<close>

text \<open>\<^verbatim>\<open>strconv.Atoi\<close>: an optional sign and digits within 64 bits.\<close>

definition strconv_Atoi :: "string \<Rightarrow> int option" where
  "strconv_Atoi s =
     (case (case s of CHR ''+'' # CHR ''-'' # _ \<Rightarrow> None | CHR ''+'' # ds \<Rightarrow> atoi ds | _ \<Rightarrow> atoi s) of
        Some n \<Rightarrow> if in_int64 n then Some n else None
      | None \<Rightarrow> None)"

definition getEnvOrDefault :: "environ \<Rightarrow> string \<Rightarrow> string \<Rightarrow> string" where
  "getEnvOrDefault env key dflt = (if env key \<noteq> [] then env key else dflt)"

definition getEnvOrDefaultInt :: "environ \<Rightarrow> string \<Rightarrow> int \<Rightarrow> int" where
  "getEnvOrDefaultInt env key dflt =
     (if env key \<noteq> [] then (case strconv_Atoi (env key) of Some n \<Rightarrow> n | None \<Rightarrow> dflt) else dflt)"

record GRPCClientConfigs =
  cc_RepositoryHost :: string
  cc_RepositoryPort :: int
  cc_ServiceHost :: string
  cc_ServicePort :: int

definition provideGRPCClientConfig :: "environ \<Rightarrow> GRPCClientConfigs" where
  "provideGRPCClientConfig env =
     \<lparr>cc_RepositoryHost = getEnvOrDefault env ''REPOSITORY_GRPC_HOST'' ''localhost'',
      cc_RepositoryPort = getEnvOrDefaultInt env ''REPOSITORY_GRPC_PORT'' 9090,
      cc_ServiceHost = getEnvOrDefault env ''SERVICE_GRPC_HOST'' ''localhost'',
      cc_ServicePort = getEnvOrDefaultInt env ''SERVICE_GRPC_PORT'' 9091\<rparr>"

record GRPCClientConfig =
  gx_Host :: string
  gx_Port :: int
  gx_Timeout :: duration
  gx_MaxRetries :: int
  gx_KeepAlive :: duration
  gx_InsecureEnabled :: bool

definition DefaultClientConfig :: "string \<Rightarrow> int \<Rightarrow> GRPCClientConfig" where
  "DefaultClientConfig host port =
     \<lparr>gx_Host = host, gx_Port = port, gx_Timeout = 30 * second, gx_MaxRetries = 3, gx_KeepAlive = 30 * second,
      gx_InsecureEnabled = True\<rparr>"

datatype dial_option = InsecureTransport | WaitForReadyCalls

text \<open>Dialling gives a connection or an error; both service clients are made over it.\<close>

record 'c GRPCClient =
  gl_conn :: "'c option"
  gl_config :: GRPCClientConfig

definition NewGRPCClient ::
  "(string \<Rightarrow> dial_option list \<Rightarrow> string + 'c) \<Rightarrow> GRPCClientConfig \<Rightarrow> string + 'c GRPCClient" where
  "NewGRPCClient dial config =
     (let target = gx_Host config @ '':'' @ itoa (gx_Port config);
          opts = (if gx_InsecureEnabled config then [InsecureTransport] else []) @ [WaitForReadyCalls]
      in case dial target opts of
        Inl e \<Rightarrow> Inl (''failed to connect to gRPC server: '' @ e)
      | Inr conn \<Rightarrow> Inr \<lparr>gl_conn = Some conn, gl_config = config\<rparr>)"

definition client_Close :: "('c \<Rightarrow> string option) \<Rightarrow> 'c GRPCClient \<Rightarrow> string option" where
  "client_Close close c = (case gl_conn c of Some conn \<Rightarrow> close conn | None \<Rightarrow> None)"

text \<open>
  The states of a connection: 0 idle, 1 connecting, 2 ready, 3 transient failure, 4 shutdown. The list
  holds the states that follow, one for each change that happens before the context ends.
\<close>

fun WaitForReady :: "int \<Rightarrow> int list \<Rightarrow> string option" where
  "WaitForReady state changes =
     (if state = 2 then None
      else case changes of
        [] \<Rightarrow> Some ''connection state change timed out''
      | state' # rest \<Rightarrow> if state' = 4 then Some ''connection is shutdown'' else WaitForReady state' rest)"

declare WaitForReady.simps [simp del]

definition provideRepositoryGRPCClient ::
  "(string \<Rightarrow> dial_option list \<Rightarrow> string + 'c) \<Rightarrow> GRPCClientConfigs \<Rightarrow> DeploymentConfig \<Rightarrow> string + 'c GRPCClient option" where
  "provideRepositoryGRPCClient dial configs deploy =
     (if IsRepositoryLayer deploy then Inr None
      else case NewGRPCClient dial (DefaultClientConfig (cc_RepositoryHost configs) (cc_RepositoryPort configs)) of
        Inl e \<Rightarrow> Inl e | Inr c \<Rightarrow> Inr (Some c))"

definition provideServiceGRPCClient ::
  "(string \<Rightarrow> dial_option list \<Rightarrow> string + 'c) \<Rightarrow> GRPCClientConfigs \<Rightarrow> DeploymentConfig \<Rightarrow> string + 'c GRPCClient option" where
  "provideServiceGRPCClient dial configs deploy =
     (if \<not> IsControllerLayer deploy \<or> IsServiceLayer deploy then Inr None
      else case NewGRPCClient dial (DefaultClientConfig (cc_ServiceHost configs) (cc_ServicePort configs)) of
        Inl e \<Rightarrow> Inl e | Inr c \<Rightarrow> Inr (Some c))"

definition provideGRPCUserRepository :: "'c GRPCClient option \<Rightarrow> DeploymentConfig \<Rightarrow> 'c GRPCClient option" where
  "provideGRPCUserRepository repoClient deploy = (if IsRepositoryLayer deploy then None else repoClient)"

subsection \<open>Services and servers\<close>

text \<open>The three services of the code, with the names their protocol files give them.\<close>

datatype grpc_service = RepositoryUserService | ServiceAuthService | ServiceUserService

fun service_name :: "grpc_service \<Rightarrow> string" where
  "service_name RepositoryUserService = ''arcana.cloud.UserService''"
| "service_name ServiceAuthService = ''arcana.cloud.AuthService''"
| "service_name ServiceUserService = ''arcana.cloud.UserService''"

type_synonym 'r register = "string \<Rightarrow> grpc_service \<Rightarrow> 'r \<Rightarrow> 'r option"

definition registerRepositoryLayerGRPCServices :: "'r register \<Rightarrow> DeploymentConfig \<Rightarrow> 'r \<Rightarrow> 'r option" where
  "registerRepositoryLayerGRPCServices register deploy server =
     (if \<not> IsRepositoryLayer deploy \<or> \<not> IsGRPC deploy then Some server
      else register (service_name RepositoryUserService) RepositoryUserService server)"

definition registerServiceLayerGRPCServices :: "'r register \<Rightarrow> DeploymentConfig \<Rightarrow> 'r \<Rightarrow> 'r option" where
  "registerServiceLayerGRPCServices register deploy server =
     (if \<not> IsServiceLayer deploy \<or> \<not> IsGRPC deploy then Some server
      else case register (service_name ServiceAuthService) ServiceAuthService server of
        None \<Rightarrow> None
      | Some server1 \<Rightarrow> register (service_name ServiceUserService) ServiceUserService server1)"

text \<open>A server that is started with the application.\<close>

datatype start_hook = StartHTTP | StartGRPC | StartRepositoryGRPC

definition startHTTPServer :: "DeploymentConfig \<Rightarrow> start_hook list" where
  "startHTTPServer deploy = [StartHTTP]"

definition startGRPCServer :: "DeploymentConfig \<Rightarrow> start_hook list" where
  "startGRPCServer deploy = (if \<not> IsServiceLayer deploy \<or> \<not> IsGRPC deploy then [] else [StartGRPC])"

definition startRepositoryLayerGRPCServer :: "DeploymentConfig \<Rightarrow> start_hook list" where
  "startRepositoryLayerGRPCServer deploy =
     (if \<not> IsRepositoryLayer deploy \<or> \<not> IsGRPC deploy then [] else [StartRepositoryGRPC])"

datatype controller = HealthEndpoint | ReadyEndpoint | AuthController | UserController | PluginController | SSRController | JobController

definition registerHTTPRoutes :: "(string \<times> controller) list" where
  "registerHTTPRoutes =
     [(''/health'', HealthEndpoint), (''/ready'', ReadyEndpoint), (''/api/v1'', AuthController), (''/api/v1'', UserController),
      (''/api/v1'', PluginController), (''/api/v1'', SSRController), (''/api/v1'', JobController)]"

record http_server =
  hs_Addr :: string
  hs_ReadTimeout :: duration
  hs_WriteTimeout :: duration
  hs_IdleTimeout :: duration

definition provideHTTPServer :: "ServerConfig \<Rightarrow> http_server" where
  "provideHTTPServer cfg =
     \<lparr>hs_Addr = se_Host cfg @ '':'' @ itoa (se_Port cfg), hs_ReadTimeout = se_ReadTimeout cfg,
      hs_WriteTimeout = se_WriteTimeout cfg, hs_IdleTimeout = se_IdleTimeout cfg\<rparr>"

text \<open>The application: its modules in order. \<open>None\<close>: the process ends.\<close>

record 'r application =
  ap_routes :: "(string \<times> controller) list"
  ap_registry :: 'r
  ap_hooks :: "start_hook list"

definition AppModule :: "'r register \<Rightarrow> DeploymentConfig \<Rightarrow> 'r \<Rightarrow> 'r application option" where
  "AppModule register deploy server =
     (case registerRepositoryLayerGRPCServices register deploy server of
        None \<Rightarrow> None
      | Some server1 \<Rightarrow>
          (case registerServiceLayerGRPCServices register deploy server1 of
             None \<Rightarrow> None
           | Some server2 \<Rightarrow> Some
               \<lparr>ap_routes = registerHTTPRoutes, ap_registry = server2,
                ap_hooks = startHTTPServer deploy @ startGRPCServer deploy @ startRepositoryLayerGRPCServer deploy\<rparr>))"

subsection \<open>Transport credentials\<close>

text \<open>The interceptors in the order of the chain, behind the credentials if there are any.\<close>

datatype 'k server_option = Creds 'k | ChainLogging | ChainRecovery

definition NewServer :: "(string \<Rightarrow> string \<Rightarrow> string + 'k) \<Rightarrow> GRPCConfig \<Rightarrow> string + 'k server_option list" where
  "NewServer load_tls cfg =
     (case (if gp_TLSEnabled cfg
            then (case load_tls (gp_CertFile cfg) (gp_KeyFile cfg) of
                    Inl e \<Rightarrow> Inl (''failed to load TLS credentials: '' @ e) | Inr creds \<Rightarrow> Inr [Creds creds])
            else Inr []) of
        Inl e \<Rightarrow> Inl e
      | Inr opts \<Rightarrow> Inr (opts @ [ChainLogging, ChainRecovery]))"

record MTLSConfig =
  mt_Enabled :: bool
  mt_CertFile :: string
  mt_KeyFile :: string
  mt_CAFile :: string
  mt_ServerName :: string

text \<open>Credentials: the certificate, the pool of authorities, and which side they are for.\<close>

datatype ('k, 'p) tls_config = ServerTLS 'k 'p | ClientTLS 'k 'p string

datatype tls_error = ErrLoadCertificate string | ErrReadCA string | ErrParseCA

definition load_material ::
  "(string \<Rightarrow> string \<Rightarrow> string + 'k) \<Rightarrow> (string \<Rightarrow> string + string) \<Rightarrow> (string \<Rightarrow> 'p option) \<Rightarrow> MTLSConfig
     \<Rightarrow> tls_error + 'k \<times> 'p" where
  "load_material load_pair read_file pem cfg =
     (case load_pair (mt_CertFile cfg) (mt_KeyFile cfg) of
        Inl e \<Rightarrow> Inl (ErrLoadCertificate e)
      | Inr cert \<Rightarrow>
          (case read_file (mt_CAFile cfg) of
             Inl e \<Rightarrow> Inl (ErrReadCA e)
           | Inr caCert \<Rightarrow> (case pem caCert of None \<Rightarrow> Inl ErrParseCA | Some caPool \<Rightarrow> Inr (cert, caPool))))"

definition ServerCredentials ::
  "(string \<Rightarrow> string \<Rightarrow> string + 'k) \<Rightarrow> (string \<Rightarrow> string + string) \<Rightarrow> (string \<Rightarrow> 'p option) \<Rightarrow> MTLSConfig
     \<Rightarrow> tls_error + ('k, 'p) tls_config option" where
  "ServerCredentials load_pair read_file pem cfg =
     (if \<not> mt_Enabled cfg then Inr None
      else case load_material load_pair read_file pem cfg of
        Inl e \<Rightarrow> Inl e | Inr (cert, caPool) \<Rightarrow> Inr (Some (ServerTLS cert caPool)))"

definition ClientCredentials ::
  "(string \<Rightarrow> string \<Rightarrow> string + 'k) \<Rightarrow> (string \<Rightarrow> string + string) \<Rightarrow> (string \<Rightarrow> 'p option) \<Rightarrow> MTLSConfig
     \<Rightarrow> tls_error + ('k, 'p) tls_config option" where
  "ClientCredentials load_pair read_file pem cfg =
     (if \<not> mt_Enabled cfg then Inr None
      else case load_material load_pair read_file pem cfg of
        Inl e \<Rightarrow> Inl e | Inr (cert, caPool) \<Rightarrow> Inr (Some (ClientTLS cert caPool (mt_ServerName cfg))))"

subsection \<open>Which database is used\<close>

text \<open>
  The data access objects work on the configured database. When the databases can be opened, every
  data access object has a handle of the driver that is configured, MySQL and PostgreSQL through GORM with
  the configured limits, MongoDB with its counter of identifiers, and the migrations are those of that
  driver; any other driver is refused at the start.
\<close>

theorem data_access_matches_driver:
  assumes "gorm_open (db_Driver cfg) (DSN cfg) = Inr g" "instance_of g = Inr h"
    and "connect (MongoURI cfg) = Inr client" "ping client = None"
  shows "(IsSQL cfg \<or> IsMongoDB cfg \<longrightarrow>
     (\<exists>sqlDB mongoDB. provideSQLDatabase gorm_open instance_of cfg = Inr sqlDB
       \<and> provideMongoDatabase connect ping database cfg = Inr mongoDB
       \<and> runMigrations sqlDB mongoDB = (if IsSQL cfg then AutoMigrate [''User'', ''RefreshToken'', ''Plugin'', ''PluginExtension''] else CreateMongoIndexes)
       \<and> (let idc = provideMongoIDCounter mongoDB; user = provideUserDAO cfg sqlDB mongoDB idc;
              tok = fst (provideRefreshTokenDAO cfg sqlDB mongoDB idc user)
          in list_all (\<lambda>d. usable d \<and> (case d of GormDAO p \<Rightarrow> IsSQL cfg
               \<and> p = Some (g, \<lparr>sp_handle = h, sp_MaxOpenConns = db_MaxOpenConns cfg, sp_MaxIdleConns = db_MaxIdleConns cfg,
                     sp_ConnMaxLifetime = db_ConnMaxLifetime cfg\<rparr>)
             | MongoDAO m i \<Rightarrow> IsMongoDB cfg \<and> m = Some (database client (db_Name cfg)) \<and> i = m))
             [user, tok, providePluginDAO cfg sqlDB mongoDB idc, providePluginExtensionDAO cfg sqlDB mongoDB idc])))
    \<and> (\<not> IsSQL cfg \<and> \<not> IsMongoDB cfg \<longrightarrow>
        provideSQLDatabase gorm_open instance_of cfg = Inl (ErrUnsupportedDriver (db_Driver cfg)))"
proof (intro conjI impI)
  assume d: "IsSQL cfg \<or> IsMongoDB cfg"
  note defs = provideSQLDatabase_def provideMongoDatabase_def runMigrations_def provideMongoIDCounter_def provideUserDAO_def
    provideRefreshTokenDAO_def providePluginDAO_def providePluginExtensionDAO_def Let_def
  show "\<exists>sqlDB mongoDB. provideSQLDatabase gorm_open instance_of cfg = Inr sqlDB
       \<and> provideMongoDatabase connect ping database cfg = Inr mongoDB
       \<and> runMigrations sqlDB mongoDB = (if IsSQL cfg then AutoMigrate [''User'', ''RefreshToken'', ''Plugin'', ''PluginExtension''] else CreateMongoIndexes)
       \<and> (let idc = provideMongoIDCounter mongoDB; user = provideUserDAO cfg sqlDB mongoDB idc;
              tok = fst (provideRefreshTokenDAO cfg sqlDB mongoDB idc user)
          in list_all (\<lambda>d. usable d \<and> (case d of GormDAO p \<Rightarrow> IsSQL cfg
               \<and> p = Some (g, \<lparr>sp_handle = h, sp_MaxOpenConns = db_MaxOpenConns cfg, sp_MaxIdleConns = db_MaxIdleConns cfg,
                     sp_ConnMaxLifetime = db_ConnMaxLifetime cfg\<rparr>)
             | MongoDAO m i \<Rightarrow> IsMongoDB cfg \<and> m = Some (database client (db_Name cfg)) \<and> i = m))
             [user, tok, providePluginDAO cfg sqlDB mongoDB idc, providePluginExtensionDAO cfg sqlDB mongoDB idc])"
  proof (cases "IsMongoDB cfg")
    case True
    then have "\<not> IsSQL cfg" by (simp add: IsSQL_def IsMongoDB_def driver_names)
    with True show ?thesis using assms(3, 4) by (simp add: defs)
  next
    case False
    with d have s: "IsSQL cfg" by simp
    then have "\<not> (db_Driver cfg \<noteq> DriverMySQL \<and> db_Driver cfg \<noteq> DriverPostgres)" by (simp add: IsSQL_def)
    with False s show ?thesis using assms(1, 2) by (simp add: defs)
  qed
next
  assume "\<not> IsSQL cfg \<and> \<not> IsMongoDB cfg"
  then show "provideSQLDatabase gorm_open instance_of cfg = Inl (ErrUnsupportedDriver (db_Driver cfg))"
    by (simp add: provideSQLDatabase_def IsSQL_def)
qed

theorem data_access_matches_driver_witness:
  "provideSQLDatabase (\<lambda>_ _. Inr ()) (\<lambda>_. Inr ()) ((mongo_config [] [] ''h'')\<lparr>db_Driver := ''oracle''\<rparr>) =
     Inl (ErrUnsupportedDriver ''oracle'')"
  using data_access_matches_driver [of "\<lambda>_ _. Inr ()" "(mongo_config [] [] ''h'')\<lparr>db_Driver := ''oracle''\<rparr>" "()" "\<lambda>_. Inr ()" "()"
      "\<lambda>_. Inr ()" "()" "\<lambda>_. None" "\<lambda>_ _. ()"]
  by (simp add: IsSQL_def IsMongoDB_def driver_names)

subsection \<open>What each layer serves\<close>

text \<open>The registry of a gRPC server.\<close>

locale grpc_registry =
  fixes register :: "'r register" and services :: "'r \<Rightarrow> (string \<times> grpc_service) list"
  assumes register_new: "n \<notin> fst ` set (services r) \<Longrightarrow>
      \<exists>r'. register n sv r = Some r' \<and> services r' = services r @ [(n, sv)]"
    and register_again: "n \<in> fst ` set (services r) \<Longrightarrow> register n sv r = None"
begin

lemma register_user_twice:
  assumes "services r = []"
  shows "\<exists>r1. register (service_name RepositoryUserService) RepositoryUserService r = Some r1
    \<and> services r1 = [(service_name RepositoryUserService, RepositoryUserService)]
    \<and> (case register (service_name ServiceAuthService) ServiceAuthService r1 of None \<Rightarrow> True
       | Some r2 \<Rightarrow> register (service_name ServiceUserService) ServiceUserService r2 = None)"
proof -
  obtain r1 where r1: "register (service_name RepositoryUserService) RepositoryUserService r = Some r1"
    "services r1 = [(service_name RepositoryUserService, RepositoryUserService)]"
    using register_new [of "service_name RepositoryUserService" r RepositoryUserService] assms by auto
  obtain r2 where r2: "register (service_name ServiceAuthService) ServiceAuthService r1 = Some r2"
    "services r2 = services r1 @ [(service_name ServiceAuthService, ServiceAuthService)]"
    using register_new [of "service_name ServiceAuthService" r1 ServiceAuthService] r1(2) by auto
  have "register (service_name ServiceUserService) ServiceUserService r2 = None"
    by (rule register_again) (simp add: r2(2) r1(2))
  with r1 r2 show ?thesis by simp
qed

lemma register_services:
  assumes "services r = []"
  shows "\<exists>r1 r2. register (service_name ServiceAuthService) ServiceAuthService r = Some r1
    \<and> register (service_name ServiceUserService) ServiceUserService r1 = Some r2
    \<and> services r2 = map (\<lambda>sv. (service_name sv, sv)) [ServiceAuthService, ServiceUserService]"
proof -
  obtain r1 where r1: "register (service_name ServiceAuthService) ServiceAuthService r = Some r1"
    "services r1 = [(service_name ServiceAuthService, ServiceAuthService)]"
    using register_new [of "service_name ServiceAuthService" r ServiceAuthService] assms by auto
  obtain r2 where "register (service_name ServiceUserService) ServiceUserService r1 = Some r2"
    "services r2 = services r1 @ [(service_name ServiceUserService, ServiceUserService)]"
    using register_new [of "service_name ServiceUserService" r1 ServiceUserService] r1(2) by auto
  with r1 show ?thesis by simp
qed

text \<open>The services of a layer, when the protocol is gRPC and the layer is one.\<close>

lemma app_starts:
  assumes "services r = []"
  shows "AppModule register deploy r = None \<longleftrightarrow> IsGRPC deploy \<and> dp_Layer deploy = LayerAll"
    and "AppModule register deploy r = Some app \<Longrightarrow> services (ap_registry app) =
      (if IsGRPC deploy \<and> dp_Layer deploy = LayerRepository then [(service_name RepositoryUserService, RepositoryUserService)]
       else if IsGRPC deploy \<and> dp_Layer deploy = LayerService
       then map (\<lambda>sv. (service_name sv, sv)) [ServiceAuthService, ServiceUserService] else [])"
proof -
  note defs = AppModule_def registerRepositoryLayerGRPCServices_def registerServiceLayerGRPCServices_def layer_defs
  have ne: "LayerAll \<noteq> LayerService" "LayerAll \<noteq> LayerRepository" "LayerService \<noteq> LayerRepository"
    by (simp_all add: layer_names)
  note ne = ne ne [symmetric]
  show "AppModule register deploy r = None \<longleftrightarrow> IsGRPC deploy \<and> dp_Layer deploy = LayerAll"
    using register_user_twice [OF assms] register_services [OF assms]
    by (auto simp: defs ne simp del: service_name.simps split: option.splits)
  show "AppModule register deploy r = Some app \<Longrightarrow> services (ap_registry app) =
      (if IsGRPC deploy \<and> dp_Layer deploy = LayerRepository then [(service_name RepositoryUserService, RepositoryUserService)]
       else if IsGRPC deploy \<and> dp_Layer deploy = LayerService
       then map (\<lambda>sv. (service_name sv, sv)) [ServiceAuthService, ServiceUserService] else [])"
    using register_user_twice [OF assms] register_services [OF assms] assms
    by (auto simp: defs ne simp del: service_name.simps split: option.splits if_splits)
qed

end

definition mem_register :: "(string \<times> grpc_service) list register" where
  "mem_register n sv r = (if n \<in> fst ` set r then None else Some (r @ [(n, sv)]))"

interpretation mem_registry: grpc_registry mem_register "\<lambda>r. r"
  by unfold_locales (auto simp: mem_register_def)

text \<open>
  C37. What a layer serves. Over gRPC the repository layer registers its user service and the service layer
  the authentication and the user service, each starts the gRPC server once, and every other deployment
  registers nothing and starts the HTTP server alone. The one exception is an instance that is to serve all layers over gRPC:
  both user services carry one name, and the second registration ends the process.
\<close>

theorem layers_serve_their_services:
  assumes reg: "grpc_registry register services" and r: "services r = []"
  shows "case AppModule register deploy r of
      None \<Rightarrow> IsGRPC deploy \<and> dp_Layer deploy = LayerAll
    | Some app \<Rightarrow> \<not> (IsGRPC deploy \<and> dp_Layer deploy = LayerAll)
        \<and> (services (ap_registry app), ap_hooks app) =
            (if IsGRPC deploy \<and> dp_Layer deploy = LayerRepository
             then ([(''arcana.cloud.UserService'', RepositoryUserService)], [StartHTTP, StartRepositoryGRPC])
             else if IsGRPC deploy \<and> dp_Layer deploy = LayerService
             then ([(''arcana.cloud.AuthService'', ServiceAuthService), (''arcana.cloud.UserService'', ServiceUserService)],
                   [StartHTTP, StartGRPC])
             else ([], [StartHTTP]))"
proof (cases "AppModule register deploy r")
  case None
  then show ?thesis using grpc_registry.app_starts(1) [OF reg r, of deploy] by simp
next
  case (Some app)
  then have n: "\<not> (IsGRPC deploy \<and> dp_Layer deploy = LayerAll)"
    using grpc_registry.app_starts(1) [OF reg r, of deploy] by simp
  have "ap_hooks app = startHTTPServer deploy @ startGRPCServer deploy @ startRepositoryLayerGRPCServer deploy"
    using Some by (auto simp: AppModule_def split: option.splits)
  then have h: "ap_hooks app = (if IsGRPC deploy \<and> dp_Layer deploy = LayerRepository then [StartHTTP, StartRepositoryGRPC]
      else if IsGRPC deploy \<and> dp_Layer deploy = LayerService then [StartHTTP, StartGRPC] else [StartHTTP])"
    using n by (auto simp: startHTTPServer_def startGRPCServer_def startRepositoryLayerGRPCServer_def
        IsServiceLayer_def IsRepositoryLayer_def layer_names)
  show ?thesis using Some n h grpc_registry.app_starts(2) [OF reg r Some] by simp
qed

definition layer_of :: "string \<Rightarrow> DeploymentConfig" where
  "layer_of l = \<lparr>dp_Mode = DeploymentLayered, dp_Layer = l, dp_Protocol = ProtocolGRPC\<rparr>"

theorem layers_serve_their_services_witness:
  "(case AppModule mem_register (layer_of LayerService) [] of None \<Rightarrow> False
    | Some app \<Rightarrow> map snd (ap_registry app) = [ServiceAuthService, ServiceUserService] \<and> ap_hooks app = [StartHTTP, StartGRPC])"
  using layers_serve_their_services [OF mem_registry.grpc_registry_axioms, of "[]" "layer_of LayerService"]
  by (auto simp: layer_of_def IsGRPC_def layer_names split: option.splits)

text \<open>
  The default deployment does not start. With no configuration file, or with the one of the
  repository, and no variable that sets layer or protocol, the configuration asks for all layers over gRPC,
  and registering the services ends the process.
\<close>

theorem default_deployment_cannot_start:
  assumes "viper_lib unmarshal" "unmarshal (setDefaults env) fl env = Inr cfg" "fl = Map.empty \<or> fl = shipped_settings"
    and "env ''ARCANA_DEPLOYMENT_LAYER'' = []" "env ''ARCANA_DEPLOYMENT_PROTOCOL'' = []"
    and "grpc_registry register services" "services r = []"
  shows "AppModule register (cf_Deployment cfg) r = None"
  using viper_lib.deployment_unset [OF assms(1-5)] grpc_registry.app_starts(1) [OF assms(6, 7)]
  by (simp add: IsGRPC_def)

theorem default_deployment_cannot_start_witness:
  "\<exists>cfg. mem_Unmarshal (setDefaults (\<lambda>x. if x = ''JWT_SECRET'' then ''s'' else [])) shipped_settings
       (\<lambda>x. if x = ''JWT_SECRET'' then ''s'' else []) = Inr cfg \<and> AppModule mem_register (cf_Deployment cfg) [] = None"
proof -
  let ?env = "\<lambda>x. if x = ''JWT_SECRET'' then ''s'' else []"
  obtain cfg where c: "mem_Unmarshal (setDefaults ?env) shipped_settings ?env = Inr cfg" using shipped_unmarshals by blast
  have "AppModule mem_register (cf_Deployment cfg) [] = None"
    by (rule default_deployment_cannot_start [OF mem_viper.viper_lib_axioms, OF c _ _ _ mem_registry.grpc_registry_axioms]) simp_all
  with c show ?thesis by blast
qed

end
