(* ===== verification/Graphql.thy ===== *)
theory Graphql
  imports Account_Controller Plugin_Manager
begin

text \<open>
  The GraphQL controller, \<^verbatim>\<open>internal/controller/graphql\<close>: the schema, the resolvers over the
  authentication service, the user service and the plugin manager, and the handler of requests.

  Parsing, validating and executing a query is library code: \<^verbatim>\<open>graphql.Do\<close> is an argument of the handler. What
  the resolvers rely on is that their arguments have the types of the schema, \<open>args_ok\<close>. A resolver
  returns a value and an error as in the source, or panics (\<open>None\<close>) where a type assertion fails. Its
  state is that of the database beside that of the plugin manager.
\<close>

subsection \<open>Values\<close>

datatype gval = GNull | GBool bool | GInt int | GStr string | GObj "(string \<times> gval) list"

type_synonym gargs = "string \<rightharpoonup> gval"

text \<open>The type assertions \<^verbatim>\<open>x.(string)\<close>, \<^verbatim>\<open>x.(int)\<close> and \<^verbatim>\<open>x.(map[string]interface{})\<close>.\<close>

fun arg_string :: "gval option \<Rightarrow> string option" where
  "arg_string (Some (GStr s)) = Some s"
| "arg_string _ = None"

fun arg_int :: "gval option \<Rightarrow> int option" where
  "arg_int (Some (GInt n)) = Some n"
| "arg_int _ = None"

fun arg_object :: "gval option \<Rightarrow> gargs option" where
  "arg_object (Some (GObj fs)) = Some (map_of fs)"
| "arg_object _ = None"

definition or_zero :: "string option \<Rightarrow> string" where
  "or_zero s = (case s of None \<Rightarrow> [] | Some x \<Rightarrow> x)"

record plugin_view =
  pw_id :: string
  pw_key :: string
  pw_name :: string
  pw_version :: string
  pw_description :: string
  pw_state :: ManagedState
  pw_enabled :: bool

datatype gdata =
    GNil | GBoolean bool | GAuth AuthResponse | GUser UserResponse | GUsers "UserResponse list" PageInfo
  | GPlugin plugin_view | GPlugins "plugin_view list"

datatype gerror = GMessage string | GService svc_error | GManager mgr_error

type_synonym 's resolved = "(gdata \<times> gerror option) option \<times> 's"

record gq_context =
  qc_UserID :: "int option"
  qc_Username :: "string option"
  qc_Token :: "string option"

definition anonymous :: gq_context where
  "anonymous = \<lparr>qc_UserID = None, qc_Username = None, qc_Token = None\<rparr>"

definition getUserIDFromContext :: "gq_context \<Rightarrow> int" where
  "getUserIDFromContext ctx = (case qc_UserID ctx of Some i \<Rightarrow> i | None \<Rightarrow> 0)"

definition getTokenFromContext :: "gq_context \<Rightarrow> string" where
  "getTokenFromContext ctx = (case qc_Token ctx of Some t \<Rightarrow> t | None \<Rightarrow> [])"

subsection \<open>Resolvers\<close>

text \<open>The plugin manager is there or \<^verbatim>\<open>nil\<close>; what the plugins do is part of it.\<close>

record ('s, 'p, 'c, 'v, 'rt, 'w) Resolver =
  rv_authService :: "'s authService"
  rv_userService :: "'s userService"
  rv_pluginManager :: "('p, 'c, 'v, 'rt, 'w) plugin_code option"

type_synonym ('s, 'p, 'c, 'w) gq_state = "'s \<times> (('p, 'c) Manager \<times> 'w)"

definition errInvalidInput :: string where "errInvalidInput = ''invalid input''"
definition errNotAuthenticated :: string where "errNotAuthenticated = ''not authenticated''"
definition errPluginSystemDisabled :: string where "errPluginSystemDisabled = ''plugin system not enabled''"
definition errInvalidPluginKey :: string where "errInvalidPluginKey = ''invalid plugin key''"

definition gq_fail :: "gdata \<Rightarrow> string \<Rightarrow> 't \<Rightarrow> 't resolved" where
  "gq_fail v msg st = (Some (v, Some (GMessage msg)), st)"

text \<open>A call of a service; the second function gives the value beside an error.\<close>

definition gq_call :: "('a \<Rightarrow> gdata) \<Rightarrow> gdata \<Rightarrow> ('s, 'a) svc \<Rightarrow> 's \<times> 'm \<Rightarrow> ('s \<times> 'm) resolved" where
  "gq_call f v m = (\<lambda>(s, w).
     case m s of
       (Inl e, s1) \<Rightarrow> (Some (v, Some (GService e)), (s1, w))
     | (Inr x, s1) \<Rightarrow> (Some (f x, None), (s1, w)))"

definition gq_Register ::
  "('s, 'p, 'c, 'v, 'rt, 'w) Resolver \<Rightarrow> time \<Rightarrow> nat \<Rightarrow> string \<Rightarrow> gargs \<Rightarrow> 's \<times> 'm \<Rightarrow> ('s \<times> 'm) resolved" where
  "gq_Register r now salt uuid args st =
     (case arg_object (args ''input'') of
        None \<Rightarrow> gq_fail GNil errInvalidInput st
      | Some input \<Rightarrow>
          (case (arg_string (input ''username''), arg_string (input ''email''), arg_string (input ''password'')) of
             (Some username, Some email, Some password) \<Rightarrow>
               gq_call GAuth GNil (auth_Register (rv_authService r) now salt uuid
                 \<lparr>rq_Username = username, rq_Email = email, rq_Password = password,
                  rq_FirstName = or_zero (arg_string (input ''firstName'')),
                  rq_LastName = or_zero (arg_string (input ''lastName''))\<rparr>) st
           | _ \<Rightarrow> (None, st)))"

definition gq_Login ::
  "('s, 'p, 'c, 'v, 'rt, 'w) Resolver \<Rightarrow> time \<Rightarrow> string \<Rightarrow> gargs \<Rightarrow> 's \<times> 'm \<Rightarrow> ('s \<times> 'm) resolved" where
  "gq_Login r now uuid args st =
     (case arg_object (args ''input'') of
        None \<Rightarrow> gq_fail GNil errInvalidInput st
      | Some input \<Rightarrow>
          (case (arg_string (input ''usernameOrEmail''), arg_string (input ''password'')) of
             (Some name, Some password) \<Rightarrow>
               gq_call GAuth GNil (auth_Login (rv_authService r) now uuid \<lparr>lq_UsernameOrEmail = name, lq_Password = password\<rparr>) st
           | _ \<Rightarrow> (None, st)))"

definition gq_RefreshToken ::
  "('s, 'p, 'c, 'v, 'rt, 'w) Resolver \<Rightarrow> time \<Rightarrow> string \<Rightarrow> gargs \<Rightarrow> 's \<times> 'm \<Rightarrow> ('s \<times> 'm) resolved" where
  "gq_RefreshToken r now uuid args st =
     (case arg_string (args ''refreshToken'') of
        None \<Rightarrow> gq_fail GNil ''invalid refresh token'' st
      | Some tok \<Rightarrow> gq_call GAuth GNil (auth_RefreshToken (rv_authService r) now uuid tok) st)"

definition gq_Logout ::
  "('s, 'p, 'c, 'v, 'rt, 'w) Resolver \<Rightarrow> time \<Rightarrow> gq_context \<Rightarrow> 's \<times> 'm \<Rightarrow> ('s \<times> 'm) resolved" where
  "gq_Logout r now ctx st =
     (let token = getTokenFromContext ctx
      in if token = [] then gq_fail (GBoolean False) errNotAuthenticated st
         else gq_call (\<lambda>_. GBoolean True) (GBoolean False) (auth_Logout (rv_authService r) now token) st)"

definition gq_Me ::
  "('s, 'p, 'c, 'v, 'rt, 'w) Resolver \<Rightarrow> time \<Rightarrow> gq_context \<Rightarrow> 's \<times> 'm \<Rightarrow> ('s \<times> 'm) resolved" where
  "gq_Me r now ctx st =
     (let userID = getUserIDFromContext ctx
      in if userID = 0 then gq_fail GNil errNotAuthenticated st
         else gq_call GUser GNil (user_GetByID (rv_userService r) now userID) st)"

definition gq_User ::
  "('s, 'p, 'c, 'v, 'rt, 'w) Resolver \<Rightarrow> time \<Rightarrow> gargs \<Rightarrow> 's \<times> 'm \<Rightarrow> ('s \<times> 'm) resolved" where
  "gq_User r now args st =
     (case arg_string (args ''id'') of
        None \<Rightarrow> gq_fail GNil ''invalid user ID'' st
      | Some i \<Rightarrow>
          (case ParseUint32 i of
             None \<Rightarrow> gq_fail GNil ''invalid user ID format'' st
           | Some userID \<Rightarrow> gq_call GUser GNil (user_GetByID (rv_userService r) now userID) st))"

text \<open>A missing page would be a \<^verbatim>\<open>nil\<close> dereference.\<close>

definition gq_Users ::
  "('s, 'p, 'c, 'v, 'rt, 'w) Resolver \<Rightarrow> time \<Rightarrow> gargs \<Rightarrow> 's \<times> 'm \<Rightarrow> ('s \<times> 'm) resolved" where
  "gq_Users r now args = (\<lambda>(s, w).
     let page = (case arg_int (args ''page'') of Some n \<Rightarrow> n | None \<Rightarrow> 1);
         psize = (case arg_int (args ''size'') of Some n \<Rightarrow> n | None \<Rightarrow> 10)
     in case user_List (rv_userService r) now page psize s of
          (Inl e, s1) \<Rightarrow> (Some (GNil, Some (GService e)), (s1, w))
        | (Inr None, s1) \<Rightarrow> (None, (s1, w))
        | (Inr (Some result), s1) \<Rightarrow> (Some (GUsers (pr_Items result) (pr_PageInfo result), None), (s1, w)))"

definition gq_UpdateProfile ::
  "('s, 'p, 'c, 'v, 'rt, 'w) Resolver \<Rightarrow> time \<Rightarrow> gq_context \<Rightarrow> gargs \<Rightarrow> 's \<times> 'm \<Rightarrow> ('s \<times> 'm) resolved" where
  "gq_UpdateProfile r now ctx args st =
     (let userID = getUserIDFromContext ctx
      in if userID = 0 then gq_fail GNil errNotAuthenticated st
         else case arg_object (args ''input'') of
           None \<Rightarrow> gq_fail GNil errInvalidInput st
         | Some input \<Rightarrow>
             gq_call GUser GNil (user_Update (rv_userService r) now userID
               \<lparr>up_FirstName = or_zero (arg_string (input ''firstName'')), up_LastName = or_zero (arg_string (input ''lastName'')),
                up_Email = or_zero (arg_string (input ''email''))\<rparr>) st)"

definition gq_ChangePassword ::
  "('s, 'p, 'c, 'v, 'rt, 'w) Resolver \<Rightarrow> time \<Rightarrow> nat \<Rightarrow> gq_context \<Rightarrow> gargs \<Rightarrow> 's \<times> 'm \<Rightarrow> ('s \<times> 'm) resolved" where
  "gq_ChangePassword r now salt ctx args st =
     (let userID = getUserIDFromContext ctx
      in if userID = 0 then gq_fail (GBoolean False) errNotAuthenticated st
         else gq_call (\<lambda>_. GBoolean True) (GBoolean False) (user_ChangePassword (rv_userService r) now salt userID
           \<lparr>cp_OldPassword = or_zero (arg_string (args ''currentPassword'')),
            cp_NewPassword = or_zero (arg_string (args ''newPassword''))\<rparr>) st)"

definition plugin_fields :: "('p, 'c) ManagedPlugin \<Rightarrow> plugin_view" where
  "plugin_fields plugin =
     \<lparr>pw_id = pf_Key (mp_Info plugin), pw_key = pf_Key (mp_Info plugin), pw_name = pf_Name (mp_Info plugin),
      pw_version = pf_Version (mp_Info plugin), pw_description = pf_Description (mp_Info plugin),
      pw_state = mp_State plugin, pw_enabled = (mp_State plugin = StateStarted)\<rparr>"

text \<open>\<open>ord\<close>: the order in which the manager's table is visited.\<close>

definition gq_Plugins ::
  "('s, 'p, 'c, 'v, 'rt, 'w) Resolver \<Rightarrow> string list \<Rightarrow> ('s, 'p, 'c, 'w) gq_state \<Rightarrow> ('s, 'p, 'c, 'w) gq_state resolved" where
  "gq_Plugins r ord st =
     (case rv_pluginManager r of
        None \<Rightarrow> (Some (GPlugins [], None), st)
      | Some _ \<Rightarrow> (Some (GPlugins (map plugin_fields (ListPlugins ord (fst (snd st)))), None), st))"

definition gq_Plugin ::
  "('s, 'p, 'c, 'v, 'rt, 'w) Resolver \<Rightarrow> gargs \<Rightarrow> ('s, 'p, 'c, 'w) gq_state \<Rightarrow> ('s, 'p, 'c, 'w) gq_state resolved" where
  "gq_Plugin r args st =
     (case rv_pluginManager r of
        None \<Rightarrow> gq_fail GNil errPluginSystemDisabled st
      | Some _ \<Rightarrow>
          (case arg_string (args ''key'') of
             None \<Rightarrow> gq_fail GNil errInvalidPluginKey st
           | Some key \<Rightarrow>
               (case GetPlugin key (fst (snd st)) of
                  None \<Rightarrow> gq_fail GNil ''plugin not found'' st
                | Some plugin \<Rightarrow> (Some (GPlugin (plugin_fields plugin), None), st))))"

definition gq_EnablePlugin ::
  "('s, 'p, 'c, 'v, 'rt, 'w) Resolver \<Rightarrow> gargs \<Rightarrow> ('s, 'p, 'c, 'w) gq_state \<Rightarrow> ('s, 'p, 'c, 'w) gq_state resolved" where
  "gq_EnablePlugin r args st =
     (case rv_pluginManager r of
        None \<Rightarrow> gq_fail GNil errPluginSystemDisabled st
      | Some pc \<Rightarrow>
          (case arg_string (args ''key'') of
             None \<Rightarrow> gq_fail GNil errInvalidPluginKey st
           | Some key \<Rightarrow>
               (case StartPlugin pc key None (snd st) of
                  (Inl e, m1) \<Rightarrow> (Some (GNil, Some (GManager e)), (fst st, m1))
                | (Inr _, m1) \<Rightarrow> gq_Plugin r args (fst st, m1))))"

definition gq_DisablePlugin ::
  "('s, 'p, 'c, 'v, 'rt, 'w) Resolver \<Rightarrow> gargs \<Rightarrow> ('s, 'p, 'c, 'w) gq_state \<Rightarrow> ('s, 'p, 'c, 'w) gq_state resolved" where
  "gq_DisablePlugin r args st =
     (case rv_pluginManager r of
        None \<Rightarrow> gq_fail GNil errPluginSystemDisabled st
      | Some pc \<Rightarrow>
          (case arg_string (args ''key'') of
             None \<Rightarrow> gq_fail GNil errInvalidPluginKey st
           | Some key \<Rightarrow>
               (case StopPlugin pc key (snd st) of
                  (Inl e, m1) \<Rightarrow> (Some (GNil, Some (GManager e)), (fst st, m1))
                | (Inr _, m1) \<Rightarrow> gq_Plugin r args (fst st, m1))))"

datatype user_field = UInt int | UStr string | UBool bool | UTime time

definition ToUserResponse :: "UserResponse option \<Rightarrow> (string \<times> user_field) list option" where
  "ToUserResponse user =
     map_option (\<lambda>u.
       [(''id'', UInt (ur_ID u)), (''username'', UStr (ur_Username u)), (''email'', UStr (ur_Email u)),
        (''firstName'', UStr (ur_FirstName u)), (''lastName'', UStr (ur_LastName u)), (''role'', UStr (ur_Role u)),
        (''isActive'', UBool (ur_IsActive u)), (''isVerified'', UBool (ur_IsVerified u)),
        (''createdAt'', UTime (ur_CreatedAt u)), (''updatedAt'', UTime (ur_UpdatedAt u))]) user"

subsection \<open>The schema\<close>

datatype gtype = TString | TInt | TBoolean | TID | TDateTime | TObject string | TInput string | TList gtype | TNonNull gtype

definition userType :: "(string \<times> gtype) list" where
  "userType =
     [(''id'', TNonNull TID), (''username'', TNonNull TString), (''email'', TNonNull TString), (''firstName'', TString),
      (''lastName'', TString), (''role'', TNonNull TString), (''isActive'', TNonNull TBoolean), (''isVerified'', TNonNull TBoolean),
      (''createdAt'', TNonNull TDateTime), (''updatedAt'', TNonNull TDateTime)]"

definition authResponseType :: "(string \<times> gtype) list" where
  "authResponseType =
     [(''accessToken'', TNonNull TString), (''refreshToken'', TNonNull TString), (''tokenType'', TNonNull TString),
      (''expiresIn'', TNonNull TInt), (''user'', TNonNull (TObject ''User''))]"

definition pageInfoType :: "(string \<times> gtype) list" where
  "pageInfoType =
     [(''page'', TNonNull TInt), (''size'', TNonNull TInt), (''totalItems'', TNonNull TInt), (''totalPages'', TNonNull TInt)]"

definition usersConnectionType :: "(string \<times> gtype) list" where
  "usersConnectionType =
     [(''items'', TNonNull (TList (TNonNull (TObject ''User'')))), (''pageInfo'', TNonNull (TObject ''PageInfo''))]"

definition pluginType :: "(string \<times> gtype) list" where
  "pluginType =
     [(''id'', TNonNull TID), (''key'', TNonNull TString), (''name'', TNonNull TString), (''version'', TNonNull TString),
      (''description'', TString), (''state'', TNonNull TString), (''enabled'', TNonNull TBoolean)]"

definition registerInputType :: "(string \<times> gtype) list" where
  "registerInputType =
     [(''username'', TNonNull TString), (''email'', TNonNull TString), (''password'', TNonNull TString), (''firstName'', TString),
      (''lastName'', TString)]"

definition loginInputType :: "(string \<times> gtype) list" where
  "loginInputType = [(''usernameOrEmail'', TNonNull TString), (''password'', TNonNull TString)]"

definition updateProfileInputType :: "(string \<times> gtype) list" where
  "updateProfileInputType = [(''firstName'', TString), (''lastName'', TString), (''email'', TString)]"

datatype gq_op =
    FieldMe | FieldUser | FieldUsers | FieldPlugins | FieldPlugin | FieldRegister | FieldLogin | FieldRefreshToken | FieldLogout | FieldUpdateProfile
  | FieldChangePassword | FieldEnablePlugin | FieldDisablePlugin

text \<open>A field: its type, its arguments with their types and defaults, and its resolver.\<close>

record gq_field =
  qf_Type :: gtype
  qf_Args :: "(string \<times> gtype \<times> gval option) list"
  qf_Resolve :: gq_op

definition queryType :: "(string \<times> gq_field) list" where
  "queryType =
     [(''me'', \<lparr>qf_Type = TObject ''User'', qf_Args = [], qf_Resolve = FieldMe\<rparr>),
      (''user'', \<lparr>qf_Type = TObject ''User'', qf_Args = [(''id'', TNonNull TID, None)], qf_Resolve = FieldUser\<rparr>),
      (''users'', \<lparr>qf_Type = TObject ''UsersConnection'',
         qf_Args = [(''page'', TInt, Some (GInt 1)), (''size'', TInt, Some (GInt 10))], qf_Resolve = FieldUsers\<rparr>),
      (''plugins'', \<lparr>qf_Type = TList (TObject ''Plugin''), qf_Args = [], qf_Resolve = FieldPlugins\<rparr>),
      (''plugin'', \<lparr>qf_Type = TObject ''Plugin'', qf_Args = [(''key'', TNonNull TString, None)], qf_Resolve = FieldPlugin\<rparr>)]"

definition mutationType :: "(string \<times> gq_field) list" where
  "mutationType =
     [(''register'', \<lparr>qf_Type = TObject ''AuthResponse'', qf_Args = [(''input'', TNonNull (TInput ''RegisterInput''), None)],
         qf_Resolve = FieldRegister\<rparr>),
      (''login'', \<lparr>qf_Type = TObject ''AuthResponse'', qf_Args = [(''input'', TNonNull (TInput ''LoginInput''), None)],
         qf_Resolve = FieldLogin\<rparr>),
      (''refreshToken'', \<lparr>qf_Type = TObject ''AuthResponse'', qf_Args = [(''refreshToken'', TNonNull TString, None)],
         qf_Resolve = FieldRefreshToken\<rparr>),
      (''logout'', \<lparr>qf_Type = TBoolean, qf_Args = [], qf_Resolve = FieldLogout\<rparr>),
      (''updateProfile'', \<lparr>qf_Type = TObject ''User'', qf_Args = [(''input'', TNonNull (TInput ''UpdateProfileInput''), None)],
         qf_Resolve = FieldUpdateProfile\<rparr>),
      (''changePassword'', \<lparr>qf_Type = TBoolean,
         qf_Args = [(''currentPassword'', TNonNull TString, None), (''newPassword'', TNonNull TString, None)],
         qf_Resolve = FieldChangePassword\<rparr>),
      (''enablePlugin'', \<lparr>qf_Type = TObject ''Plugin'', qf_Args = [(''key'', TNonNull TString, None)], qf_Resolve = FieldEnablePlugin\<rparr>),
      (''disablePlugin'', \<lparr>qf_Type = TObject ''Plugin'', qf_Args = [(''key'', TNonNull TString, None)], qf_Resolve = FieldDisablePlugin\<rparr>)]"

record gq_schema =
  gs_Objects :: "(string \<times> (string \<times> gtype) list) list"
  gs_Inputs :: "(string \<times> (string \<times> gtype) list) list"
  gs_Query :: "(string \<times> gq_field) list"
  gs_Mutation :: "(string \<times> gq_field) list"

definition BuildSchema :: gq_schema where
  "BuildSchema =
     \<lparr>gs_Objects = [(''User'', userType), (''AuthResponse'', authResponseType), (''PageInfo'', pageInfoType),
        (''UsersConnection'', usersConnectionType), (''Plugin'', pluginType)],
      gs_Inputs = [(''RegisterInput'', registerInputType), (''LoginInput'', loginInputType),
        (''UpdateProfileInput'', updateProfileInputType)],
      gs_Query = queryType, gs_Mutation = mutationType\<rparr>"

text \<open>The reads of the clock and the random values of an operation.\<close>

record gq_env =
  ge_now :: time
  ge_salt :: nat
  ge_uuid :: string
  ge_order :: "string list"

fun resolve ::
  "('s, 'p, 'c, 'v, 'rt, 'w) Resolver \<Rightarrow> gq_env \<Rightarrow> gq_op \<Rightarrow> gq_context \<Rightarrow> gargs \<Rightarrow> ('s, 'p, 'c, 'w) gq_state
     \<Rightarrow> ('s, 'p, 'c, 'w) gq_state resolved" where
  "resolve r e FieldMe ctx args = gq_Me r (ge_now e) ctx"
| "resolve r e FieldUser ctx args = gq_User r (ge_now e) args"
| "resolve r e FieldUsers ctx args = gq_Users r (ge_now e) args"
| "resolve r e FieldPlugins ctx args = gq_Plugins r (ge_order e)"
| "resolve r e FieldPlugin ctx args = gq_Plugin r args"
| "resolve r e FieldRegister ctx args = gq_Register r (ge_now e) (ge_salt e) (ge_uuid e) args"
| "resolve r e FieldLogin ctx args = gq_Login r (ge_now e) (ge_uuid e) args"
| "resolve r e FieldRefreshToken ctx args = gq_RefreshToken r (ge_now e) (ge_uuid e) args"
| "resolve r e FieldLogout ctx args = gq_Logout r (ge_now e) ctx"
| "resolve r e FieldUpdateProfile ctx args = gq_UpdateProfile r (ge_now e) ctx args"
| "resolve r e FieldChangePassword ctx args = gq_ChangePassword r (ge_now e) (ge_salt e) ctx args"
| "resolve r e FieldEnablePlugin ctx args = gq_EnablePlugin r args"
| "resolve r e FieldDisablePlugin ctx args = gq_DisablePlugin r args"

subsection \<open>Requests\<close>

record GraphQLConfig =
  gqc_Enabled :: bool
  gqc_Path :: string
  gqc_PlaygroundPath :: string
  gqc_EnablePlayground :: bool
  gqc_MaxDepth :: int
  gqc_MaxComplexity :: int

definition DefaultGraphQLConfig :: GraphQLConfig where
  "DefaultGraphQLConfig =
     \<lparr>gqc_Enabled = False, gqc_Path = ''/graphql'', gqc_PlaygroundPath = ''/playground'', gqc_EnablePlayground = True,
      gqc_MaxDepth = 10, gqc_MaxComplexity = 100\<rparr>"

record 'v GraphQLRequest =
  rq_Query :: string
  rq_OperationName :: string
  rq_Variables :: 'v

datatype gq_handler = HandleGraphQL | HandlePlayground

definition gq_RegisterRoutes :: "GraphQLConfig \<Rightarrow> (string \<times> string \<times> gq_handler) list" where
  "gq_RegisterRoutes cfg =
     [(''POST'', gqc_Path cfg, HandleGraphQL), (''GET'', gqc_Path cfg, HandleGraphQL)]
     @ (if gqc_EnablePlayground cfg then [(''GET'', gqc_PlaygroundPath cfg, HandlePlayground)] else [])"

definition extractAuthContext :: "jwt_lib \<Rightarrow> JWTProvider \<Rightarrow> time \<Rightarrow> string \<Rightarrow> gq_context" where
  "extractAuthContext jl p now authHeader =
     (if authHeader = [] then anonymous
      else case bearer authHeader of
        None \<Rightarrow> anonymous
      | Some token \<Rightarrow>
          (case ValidateAccessToken jl p now token of
             Inl _ \<Rightarrow> anonymous
           | Inr claims \<Rightarrow> \<lparr>qc_UserID = Some (uc_UserID claims), qc_Username = Some (uc_Username claims), qc_Token = Some token\<rparr>))"

datatype 'r gq_reply = InvalidBody | InvalidVariables | Answer 'r

text \<open>
  Binding the body and decoding the variables of the query string are library calls whose results are
  arguments; \<^verbatim>\<open>graphql.Do\<close> executes the request on the state of the application.
\<close>

definition handleGraphQL ::
  "jwt_lib \<Rightarrow> JWTProvider \<Rightarrow> time \<Rightarrow> ('v GraphQLRequest \<Rightarrow> gq_context \<Rightarrow> 's \<Rightarrow> 'r \<times> 's)
     \<Rightarrow> 'v GraphQLRequest option \<Rightarrow> (string \<Rightarrow> 'v option) \<Rightarrow> 'v \<Rightarrow> 'd Context \<Rightarrow> 's \<Rightarrow> (int \<times> 'r gq_reply) \<times> 's" where
  "handleGraphQL jl p now graphql_Do bound decode no_variables c s =
     (let q = (\<lambda>k. case gc_Query c k of None \<Rightarrow> [] | Some x \<Rightarrow> x);
          parsed = (if gc_Method c = ''POST''
             then (case bound of None \<Rightarrow> Inl InvalidBody | Some req \<Rightarrow> Inr req)
             else if q ''variables'' = []
             then Inr \<lparr>rq_Query = q ''query'', rq_OperationName = q ''operationName'', rq_Variables = no_variables\<rparr>
             else case decode (q ''variables'') of
               None \<Rightarrow> Inl InvalidVariables
             | Some vs \<Rightarrow> Inr \<lparr>rq_Query = q ''query'', rq_OperationName = q ''operationName'', rq_Variables = vs\<rparr>)
      in case parsed of
        Inl reply \<Rightarrow> ((400, reply), s)
      | Inr req \<Rightarrow>
          (case graphql_Do req (extractAuthContext jl p now (gc_ReqHeader c ''Authorization'')) s of
             (result, s1) \<Rightarrow> ((200, Answer result), s1)))"

subsection \<open>Arguments and results of the right type\<close>

fun nonnull :: "gtype \<Rightarrow> bool" where
  "nonnull (TNonNull t) = True"
| "nonnull _ = False"

fun leaf_ok :: "gtype \<Rightarrow> gval \<Rightarrow> bool" where
  "leaf_ok (TNonNull t) v = (v \<noteq> GNull \<and> leaf_ok t v)"
| "leaf_ok TString v = (v = GNull \<or> arg_string (Some v) \<noteq> None)"
| "leaf_ok TID v = (v = GNull \<or> arg_string (Some v) \<noteq> None)"
| "leaf_ok TInt v = (case v of GNull \<Rightarrow> True | GInt n \<Rightarrow> - (2 ^ 31) \<le> n \<and> n < 2 ^ 31 | _ \<Rightarrow> False)"
| "leaf_ok TBoolean v = (case v of GNull \<Rightarrow> True | GBool b \<Rightarrow> True | _ \<Rightarrow> False)"
| "leaf_ok _ v = False"

definition object_ok :: "(string \<times> gtype) list \<Rightarrow> gargs \<Rightarrow> bool" where
  "object_ok ts fs = list_all (\<lambda>(f, t). case fs f of None \<Rightarrow> \<not> nonnull t | Some v \<Rightarrow> leaf_ok t v) ts"

text \<open>The fields of an input object are scalars.\<close>

fun arg_ok :: "(string \<times> (string \<times> gtype) list) list \<Rightarrow> gtype \<Rightarrow> gval \<Rightarrow> bool" where
  "arg_ok inputs (TNonNull t) v = (v \<noteq> GNull \<and> arg_ok inputs t v)"
| "arg_ok inputs (TInput n) v =
     (case map_of inputs n of None \<Rightarrow> False
      | Some ts \<Rightarrow> v = GNull \<or> (case arg_object (Some v) of None \<Rightarrow> False | Some fs \<Rightarrow> object_ok ts fs))"
| "arg_ok inputs t v = leaf_ok t v"

text \<open>What the library hands to a resolver: every argument is there unless it may be missing, with a value
  of its type.\<close>

definition args_ok :: "gq_schema \<Rightarrow> gq_field \<Rightarrow> gargs \<Rightarrow> bool" where
  "args_ok sc fld args = list_all (\<lambda>(a, t, d). case args a of None \<Rightarrow> \<not> nonnull t \<and> d = None | Some v \<Rightarrow> arg_ok (gs_Inputs sc) t v) (qf_Args fld)"

fun data_ok :: "gtype \<Rightarrow> gdata \<Rightarrow> bool" where
  "data_ok TBoolean v = (case v of GBoolean b \<Rightarrow> True | _ \<Rightarrow> False)"
| "data_ok (TObject n) v =
     (case v of GAuth a \<Rightarrow> n = ''AuthResponse'' | GUser u \<Rightarrow> n = ''User'' | GUsers us pg \<Rightarrow> n = ''UsersConnection''
      | GPlugin p \<Rightarrow> n = ''Plugin'' | _ \<Rightarrow> False)"
| "data_ok (TList t) v = (case v of GPlugins ps \<Rightarrow> t = TObject ''Plugin'' | _ \<Rightarrow> False)"
| "data_ok _ v = False"

text \<open>A resolver that did not panic and returned an error or a value of the field's type.\<close>

definition typed_result :: "gtype \<Rightarrow> 't resolved \<Rightarrow> bool" where
  "typed_result t res = (case fst res of None \<Rightarrow> False | Some (v, err) \<Rightarrow> err = None \<longrightarrow> data_ok t v)"

lemma typed_fail [simp]: "typed_result t (gq_fail v msg st)"
  by (simp add: typed_result_def gq_fail_def)

lemma typed_error [simp]: "typed_result t (Some (v, Some e), st)"
  by (simp add: typed_result_def)

lemma typed_call: "(\<And>x. data_ok t (f x)) \<Longrightarrow> typed_result t (gq_call f v m st)"
  by (auto simp: typed_result_def gq_call_def split: prod.splits sum.splits)

lemma user_List_page: "fst (user_List us now page psize s) \<noteq> Inr None"
proof
  have "clamp_size psize \<noteq> 0" using clamped(2) [of psize] by simp
  moreover assume "fst (user_List us now page psize s) = Inr None"
  ultimately show False
    by (auto simp: user_List_def and_then_def ret_def NewPagedResponse_def Let_def split: prod.splits sum.splits)
qed

lemma typed_Users: "typed_result (TObject ''UsersConnection'') (gq_Users r now args st)"
  using user_List_page [of "rv_userService r" now "case arg_int (args ''page'') of Some n \<Rightarrow> n | None \<Rightarrow> 1"
      "case arg_int (args ''size'') of Some n \<Rightarrow> n | None \<Rightarrow> 10" "fst st"]
  by (auto simp: typed_result_def gq_Users_def Let_def split: prod.splits sum.splits option.splits)

lemma typed_plugins:
  "typed_result (TList (TObject ''Plugin'')) (gq_Plugins r ord st)" "typed_result (TObject ''Plugin'') (gq_Plugin r args st)"
  by (simp_all add: gq_Plugins_def gq_Plugin_def typed_result_def gq_fail_def split: option.splits)

lemma typed_switches:
  "typed_result (TObject ''Plugin'') (gq_EnablePlugin r args st)" "typed_result (TObject ''Plugin'') (gq_DisablePlugin r args st)"
  by (auto simp: gq_EnablePlugin_def gq_DisablePlugin_def typed_plugins(2) split: option.splits prod.splits sum.splits)

lemma given_string: "case fs f of None \<Rightarrow> \<not> nonnull (TNonNull TString) | Some v \<Rightarrow> leaf_ok (TNonNull TString) v \<Longrightarrow>
   \<exists>x. arg_string (fs f) = Some x"
  by (auto split: option.splits)

lemma given_object:
  assumes "case args a of None \<Rightarrow> False | Some v \<Rightarrow> v \<noteq> GNull \<and> arg_ok inputs (TInput n) v" "map_of inputs n = Some ts"
  shows "\<exists>fs. arg_object (args a) = Some fs \<and> object_ok ts fs"
  using assms by (auto split: option.splits)

lemma typed_Register:
  assumes "object_ok registerInputType fs" "arg_object (args ''input'') = Some fs"
  shows "typed_result (TObject ''AuthResponse'') (gq_Register r now salt uuid args st)"
proof -
  have "\<exists>x. arg_string (fs ''username'') = Some x" "\<exists>x. arg_string (fs ''email'') = Some x" "\<exists>x. arg_string (fs ''password'') = Some x"
    using assms(1) by (auto simp: object_ok_def registerInputType_def intro!: given_string)
  with assms(2) show ?thesis by (auto simp: gq_Register_def intro!: typed_call)
qed

lemma typed_Login:
  assumes "object_ok loginInputType fs" "arg_object (args ''input'') = Some fs"
  shows "typed_result (TObject ''AuthResponse'') (gq_Login r now uuid args st)"
proof -
  have "\<exists>x. arg_string (fs ''usernameOrEmail'') = Some x" "\<exists>x. arg_string (fs ''password'') = Some x"
    using assms(1) by (auto simp: object_ok_def loginInputType_def intro!: given_string)
  with assms(2) show ?thesis by (auto simp: gq_Login_def intro!: typed_call)
qed

lemma typed_session:
  "typed_result (TObject ''User'') (gq_Me r now ctx st)" "typed_result (TObject ''User'') (gq_User r now args st)"
  "typed_result (TObject ''User'') (gq_UpdateProfile r now ctx args st)"
  "typed_result TBoolean (gq_ChangePassword r now salt ctx args st)" "typed_result TBoolean (gq_Logout r now ctx st)"
  "typed_result (TObject ''AuthResponse'') (gq_RefreshToken r now uuid args st)"
  by (auto simp: gq_Me_def gq_User_def gq_UpdateProfile_def gq_ChangePassword_def gq_Logout_def gq_RefreshToken_def Let_def
      intro!: typed_call split: option.splits)

text \<open>
  C33. No query makes a resolver panic. For every field of the schema and all arguments of the types the
  schema declares, whoever asks and whatever the services answer, the resolver returns an error or a
  value of the type of the field.
\<close>

theorem graphql_resolvers_typed:
  assumes "(name, fld) \<in> set (gs_Query BuildSchema) \<union> set (gs_Mutation BuildSchema)" "args_ok BuildSchema fld args"
  shows "typed_result (qf_Type fld) (resolve r e (qf_Resolve fld) ctx args st)"
proof -
  have q: "typed_result (qf_Type fld) (resolve r e (qf_Resolve fld) ctx args st)" if "(name, fld) \<in> set queryType"
    using that unfolding queryType_def
    by (auto simp: typed_session typed_Users typed_plugins)
  have input: "\<exists>fs. arg_object (args ''input'') = Some fs \<and> object_ok ts fs"
    if "qf_Args fld = [(''input'', TNonNull (TInput n), None)]" "map_of (gs_Inputs BuildSchema) n = Some ts" for n ts
    using assms(2) that by (intro given_object [where inputs = "gs_Inputs BuildSchema" and n = n])
      (auto simp: args_ok_def split: option.splits)
  have i: "map_of (gs_Inputs BuildSchema) ''RegisterInput'' = Some registerInputType"
    "map_of (gs_Inputs BuildSchema) ''LoginInput'' = Some loginInputType" by (simp_all add: BuildSchema_def)
  have m: "typed_result (qf_Type fld) (resolve r e (qf_Resolve fld) ctx args st)" if "(name, fld) \<in> set mutationType"
    using that input [OF _ i(1)] input [OF _ i(2)] unfolding mutationType_def
    by (auto simp: typed_session typed_switches dest: typed_Register typed_Login)
  show ?thesis using assms(1) q m by (auto simp: BuildSchema_def)
qed

lemma BuildSchema_fields:
  "map_of (gs_Query BuildSchema @ gs_Mutation BuildSchema) ''login'' =
     Some \<lparr>qf_Type = TObject ''AuthResponse'', qf_Args = [(''input'', TNonNull (TInput ''LoginInput''), None)], qf_Resolve = FieldLogin\<rparr>"
  by (simp add: BuildSchema_def queryType_def mutationType_def)

definition no_plugins :: "(mem_db, unit, unit, unit, unit, unit) Resolver" where
  "no_plugins = \<lparr>rv_authService = demo_auth, rv_userService = user_service_of demo_auth, rv_pluginManager = None\<rparr>"

theorem graphql_resolvers_typed_witness:
  "typed_result (TObject ''AuthResponse'')
     (resolve no_plugins \<lparr>ge_now = 0, ge_salt = 0, ge_uuid = ''2'', ge_order = []\<rparr> FieldLogin anonymous
        [''input'' \<mapsto> GObj [(''usernameOrEmail'', GStr ''ann''), (''password'', GStr ''secret'')]] (demo_db, NewManager [], ()))"
proof -
  let ?f = "\<lparr>qf_Type = TObject ''AuthResponse'', qf_Args = [(''input'', TNonNull (TInput ''LoginInput''), None)], qf_Resolve = FieldLogin\<rparr>"
  have "(''login'', ?f) \<in> set (gs_Query BuildSchema) \<union> set (gs_Mutation BuildSchema)"
    using map_of_SomeD [OF BuildSchema_fields] by simp
  moreover have "args_ok BuildSchema ?f [''input'' \<mapsto> GObj [(''usernameOrEmail'', GStr ''ann''), (''password'', GStr ''secret'')]]"
    by (simp add: args_ok_def BuildSchema_def object_ok_def loginInputType_def)
  ultimately show ?thesis
    using graphql_resolvers_typed [of "''login''" ?f "[''input'' \<mapsto> GObj [(''usernameOrEmail'', GStr ''ann''), (''password'', GStr ''secret'')]]"
        no_plugins "\<lparr>ge_now = 0, ge_salt = 0, ge_uuid = ''2'', ge_order = []\<rparr>" anonymous "(demo_db, NewManager [], ())"]
    by (simp only: gq_field.simps)
qed

subsection \<open>Who may do what\<close>

lemma extract_caller:
  "extractAuthContext jl p now (gc_ReqHeader c ''Authorization'') =
     (case caller jl p now c of
        None \<Rightarrow> anonymous
      | Some cl \<Rightarrow> \<lparr>qc_UserID = Some (uc_UserID cl), qc_Username = Some (uc_Username cl),
          qc_Token = bearer (gc_ReqHeader c ''Authorization'')\<rparr>)"
  by (auto simp: extractAuthContext_def caller_def split: option.splits sum.splits)

text \<open>The fields about the session of the caller.\<close>

definition session_ops :: "gq_op list" where
  "session_ops = [FieldMe, FieldUpdateProfile, FieldChangePassword, FieldLogout]"

text \<open>
  C34. Over GraphQL only the session is guarded. Without a valid bearer token the fields about the caller
  (me, updateProfile, changePassword, logout) answer with the error "not authenticated" and change nothing. No
  other field looks at the caller: anyone may read every user and start and stop plugins, which the
  HTTP routes grant to administrators only.
\<close>

theorem graphql_guards_session_only:
  "(caller jl p now c = None \<longrightarrow> list_all (\<lambda>op. \<exists>v.
      resolve r e op (extractAuthContext jl p now (gc_ReqHeader c ''Authorization'')) args st =
        (Some (v, Some (GMessage ''not authenticated'')), st)) session_ops)
   \<and> (op \<notin> set session_ops \<longrightarrow> resolve r e op ctx args st = resolve r e op anonymous args st)"
proof (intro conjI impI)
  assume "caller jl p now c = None"
  then show "list_all (\<lambda>op. \<exists>v. resolve r e op (extractAuthContext jl p now (gc_ReqHeader c ''Authorization'')) args st =
        (Some (v, Some (GMessage ''not authenticated'')), st)) session_ops"
    by (simp add: extract_caller session_ops_def gq_Me_def gq_UpdateProfile_def gq_ChangePassword_def gq_Logout_def
        getUserIDFromContext_def getTokenFromContext_def anonymous_def gq_fail_def errNotAuthenticated_def)
next
  assume "op \<notin> set session_ops"
  then show "resolve r e op ctx args st = resolve r e op anonymous args st"
    by (cases op) (simp_all add: session_ops_def)
qed

text \<open>
  A stranger switches plugins on: a query without any token starts a loaded plugin whose code
  initialises and starts, and the answer says that it is enabled.
\<close>

theorem graphql_stranger_starts_plugin:
  assumes "rv_pluginManager r = Some pc" "mg_plugins m key = Some a" "a < length (mg_heap m)"
    "mp_State (mg_heap m ! a) \<noteq> StateStarted"
    "pc_Init pc (mp_Plugin (mg_heap m ! a)) None w = (None, w1)" "pc_Start pc (mp_Plugin (mg_heap m ! a)) w1 = (None, w2)"
  shows "\<exists>v m1. resolve r e FieldEnablePlugin (extractAuthContext jl p now []) [''key'' \<mapsto> GStr key] (s, m, w) =
      (Some (GPlugin v, None), (s, m1, w2))
    \<and> pw_enabled v \<and> mp_State (mg_heap m1 ! a) = StateStarted \<and> mg_plugins m1 = mg_plugins m"
proof -
  have "StartPlugin pc key None (m, w) =
      (Inr (), (set_managed a (\<lambda>p. p\<lparr>mp_State := StateStarted, mp_Config := None\<rparr>) m, w2))"
    using assms by (simp add: StartPlugin_def and_then_def lookup_plugin_def start_managed_def Let_def)
  then show ?thesis using assms(1-3)
    by (simp add: gq_EnablePlugin_def gq_Plugin_def GetPlugin_def plugin_fields_def)
qed

definition demo_resolver :: "(mem_db, unit, unit, unit, string, unit) Resolver" where
  "demo_resolver = \<lparr>rv_authService = demo_auth, rv_userService = user_service_of demo_auth, rv_pluginManager = Some (demo_code None)\<rparr>"

definition loaded_manager :: "(unit, unit) Manager" where
  "loaded_manager = \<lparr>mg_plugins = [''hello'' \<mapsto> 0], mg_pluginsDir = [], mg_events_closed = False,
     mg_heap = [\<lparr>mp_Info = demo_info, mp_Plugin = (), mp_State = StateLoaded, mp_Path = [], mp_Error = None, mp_Config = None\<rparr>]\<rparr>"

theorem graphql_stranger_starts_plugin_witness:
  "\<exists>v m1. resolve demo_resolver \<lparr>ge_now = 0, ge_salt = 0, ge_uuid = [], ge_order = []\<rparr> FieldEnablePlugin
       (extractAuthContext mem_jwt demo_provider 0 []) [''key'' \<mapsto> GStr ''hello''] (demo_db, loaded_manager, ()) =
      (Some (GPlugin v, None), (demo_db, m1, ())) \<and> pw_enabled v \<and> mp_State (mg_heap m1 ! 0) = StateStarted"
  using graphql_stranger_starts_plugin [of demo_resolver "demo_code None" loaded_manager "''hello''" 0 "()" "()" "()"
      "\<lparr>ge_now = 0, ge_salt = 0, ge_uuid = [], ge_order = []\<rparr>" mem_jwt demo_provider 0 demo_db]
  by (auto simp: demo_resolver_def loaded_manager_def demo_code_def)

theorem graphql_guards_session_only_witness:
  "\<exists>v. resolve demo_resolver \<lparr>ge_now = 0, ge_salt = 0, ge_uuid = [], ge_order = []\<rparr> FieldMe
       (extractAuthContext mem_jwt demo_provider 0 (gc_ReqHeader (demo_request []) ''Authorization'')) Map.empty (demo_db, loaded_manager, ()) =
      (Some (v, Some (GMessage ''not authenticated'')), (demo_db, loaded_manager, ()))"
proof -
  have "caller mem_jwt demo_provider 0 (demo_request [] :: account_data Context) = None" by (simp add: caller_def demo_request_def)
  with graphql_guards_session_only [of mem_jwt demo_provider 0 "demo_request []" demo_resolver
      "\<lparr>ge_now = 0, ge_salt = 0, ge_uuid = [], ge_order = []\<rparr>" Map.empty "(demo_db, loaded_manager, ())"]
  show ?thesis by (simp add: session_ops_def)
qed

text \<open>
  Logging out over GraphQL hands the access token to the service, which looks for a refresh token of
  that text: the answer is true, and no session ends.
\<close>

theorem graphql_logout_keeps_session:
  assumes "auth_service a uview tview up" "up s" "rv_authService r = a" "access \<noteq> []" "\<forall>t \<in> set (tview s). rt_Token t \<noteq> access"
  shows "\<exists>s1. gq_Logout r now \<lparr>qc_UserID = i, qc_Username = n, qc_Token = Some access\<rparr> (s, m) = (Some (GBoolean True, None), (s1, m))
     \<and> up s1 \<and> tview s1 = tview s \<and> uview s1 = uview s"
proof -
  note q = auth_db.revoke_laws [OF auth_service.axioms(1) [OF assms(1)] assms(2), of now access]
  have "map (\<lambda>t. if rt_DeletedAt t = None \<and> rt_Token t = access then t\<lparr>rt_Revoked := True\<rparr> else t) (tview s) = tview s"
    using assms(5) by (intro map_idI) auto
  with q show ?thesis using assms(3, 4)
    by (cases "auth_Logout a now access s")
       (simp add: gq_Logout_def getTokenFromContext_def gq_call_def auth_Logout_def)
qed

lemma demo_access_nonempty: "demo_access \<noteq> []"
proof
  assume "demo_access = []"
  with demo_generated(2) show False by (auto simp: GenerateAccessToken_def mem_jwt_def mem_sign_def split: option.splits if_splits json.splits)
qed

theorem graphql_logout_keeps_session_witness:
  "\<exists>s1. gq_Logout demo_resolver 5 \<lparr>qc_UserID = Some 1, qc_Username = Some ''ann'', qc_Token = Some demo_access\<rparr> (demo_db, loaded_manager, ()) =
     (Some (GBoolean True, None), (s1, loaded_manager, ())) \<and> snd s1 = snd demo_db"
  using graphql_logout_keeps_session [OF demo_service demo_db_up _ demo_access_nonempty demo_access_not_stored,
      of demo_resolver 5 "Some 1" "Some ''ann''" "(loaded_manager, ())"]
  by (auto simp: demo_resolver_def)

end
