(* ===== verification/Worker_Main.thy ===== *)
theory Worker_Main
  imports Job_Service
begin

text \<open>
  The worker process, \<^verbatim>\<open>cmd/worker/main.go\<close>, the same wiring inside the server, \<^verbatim>\<open>internal/di/jobs.go\<close>, and the
  payloads of \<^verbatim>\<open>internal/jobs/handler/registry.go\<close>: environment variables, default handlers and scheduled
  jobs, start, endpoints and shutdown, composed from the worker pool, the scheduler and the lock
  manager.

  The pool holds the lock manager it was given, so the one the endpoints and the shutdown use is that of
  the pool. Log entries of handlers are the world they change.
\<close>

subsection \<open>Payloads\<close>

record EmailJobPayload =
  em_To :: "string list"
  em_Subject :: string
  em_Body :: string
  em_TemplateID :: string
  em_TemplateData :: "(string \<times> json) list"

record WebhookJobPayload =
  wh_URL :: string
  wh_Method :: string
  wh_Headers :: "(string \<times> string) list"
  wh_Body :: json
  wh_Timeout :: int

record CleanupJobPayload =
  cl_Type :: string
  cl_OlderThan :: int
  cl_DryRun :: bool

record NotificationJobPayload =
  nt_UserID :: int
  nt_Type :: string
  nt_Title :: string
  nt_Message :: string
  nt_Data :: "(string \<times> json) list"

record ReportJobPayload =
  rp_ReportType :: string
  rp_Format :: string
  rp_Parameters :: "(string \<times> json) list"
  rp_Recipients :: "string list"

record SyncJobPayload =
  sy_Source :: string
  sy_Destination :: string
  sy_EntityType :: string
  sy_LastSyncAt :: string
  sy_FullSync :: bool

text \<open>Decoding a payload, \<^verbatim>\<open>json.Unmarshal\<close> into its struct.\<close>

fun str_pairs :: "(string \<times> json) list \<Rightarrow> (string \<times> string) list option" where
  "str_pairs [] = Some []"
| "str_pairs ((k, d) # ps) = do { s \<leftarrow> as_str (Some d); rest \<leftarrow> str_pairs ps; Some ((k, s) # rest) }"

definition read_email :: "json \<Rightarrow> EmailJobPayload option" where
  "read_email d = do {
     fs \<leftarrow> as_obj (Some d);
     to1 \<leftarrow> as_strs (map_of fs ''to'');
     subject1 \<leftarrow> as_str (map_of fs ''subject'');
     body1 \<leftarrow> as_str (map_of fs ''body'');
     template \<leftarrow> as_str (map_of fs ''template_id'');
     data \<leftarrow> as_obj (map_of fs ''template_data'');
     Some \<lparr>em_To = to1, em_Subject = subject1, em_Body = body1, em_TemplateID = template, em_TemplateData = data\<rparr> }"

definition read_webhook :: "json \<Rightarrow> WebhookJobPayload option" where
  "read_webhook d = do {
     fs \<leftarrow> as_obj (Some d);
     url \<leftarrow> as_str (map_of fs ''url'');
     method \<leftarrow> as_str (map_of fs ''method'');
     hs \<leftarrow> as_obj (map_of fs ''headers'');
     headers \<leftarrow> str_pairs hs;
     body1 \<leftarrow> as_raw (map_of fs ''body'');
     timeout \<leftarrow> as_int (map_of fs ''timeout_seconds'');
     Some \<lparr>wh_URL = url, wh_Method = method, wh_Headers = headers, wh_Body = body1, wh_Timeout = timeout\<rparr> }"

definition read_cleanup :: "json \<Rightarrow> CleanupJobPayload option" where
  "read_cleanup d = do {
     fs \<leftarrow> as_obj (Some d);
     type1 \<leftarrow> as_str (map_of fs ''type'');
     older \<leftarrow> as_int (map_of fs ''older_than_days'');
     dry \<leftarrow> as_bool (map_of fs ''dry_run'');
     Some \<lparr>cl_Type = type1, cl_OlderThan = older, cl_DryRun = dry\<rparr> }"

definition read_notification :: "json \<Rightarrow> NotificationJobPayload option" where
  "read_notification d = do {
     fs \<leftarrow> as_obj (Some d);
     user \<leftarrow> as_int (map_of fs ''user_id'');
     type1 \<leftarrow> as_str (map_of fs ''type'');
     title \<leftarrow> as_str (map_of fs ''title'');
     message \<leftarrow> as_str (map_of fs ''message'');
     data \<leftarrow> as_obj (map_of fs ''data'');
     if user < 0 \<or> 2 ^ 64 \<le> user then None
     else Some \<lparr>nt_UserID = user, nt_Type = type1, nt_Title = title, nt_Message = message, nt_Data = data\<rparr> }"

definition read_report :: "json \<Rightarrow> ReportJobPayload option" where
  "read_report d = do {
     fs \<leftarrow> as_obj (Some d);
     type1 \<leftarrow> as_str (map_of fs ''report_type'');
     format \<leftarrow> as_str (map_of fs ''format'');
     params \<leftarrow> as_obj (map_of fs ''parameters'');
     recipients \<leftarrow> as_strs (map_of fs ''recipients'');
     Some \<lparr>rp_ReportType = type1, rp_Format = format, rp_Parameters = params, rp_Recipients = recipients\<rparr> }"

definition read_sync :: "json \<Rightarrow> SyncJobPayload option" where
  "read_sync d = do {
     fs \<leftarrow> as_obj (Some d);
     src \<leftarrow> as_str (map_of fs ''source'');
     dest \<leftarrow> as_str (map_of fs ''destination'');
     entity \<leftarrow> as_str (map_of fs ''entity_type'');
     since \<leftarrow> as_str (map_of fs ''last_sync_at'');
     full \<leftarrow> as_bool (map_of fs ''full_sync'');
     Some \<lparr>sy_Source = src, sy_Destination = dest, sy_EntityType = entity, sy_LastSyncAt = since, sy_FullSync = full\<rparr> }"

text \<open>The payloads the scheduler encodes, \<^verbatim>\<open>json.Marshal\<close>.\<close>

datatype sched_payload = PCleanup CleanupJobPayload | PSync SyncJobPayload

fun marshal_sched :: "sched_payload \<Rightarrow> json option" where
  "marshal_sched (PCleanup p) =
     Some (JObj [(''type'', JStr (cl_Type p)), (''older_than_days'', JNum (real_of_int (cl_OlderThan p))),
       (''dry_run'', JBool (cl_DryRun p))])"
| "marshal_sched (PSync p) =
     Some (JObj ([(''source'', JStr (sy_Source p)), (''destination'', JStr (sy_Destination p)), (''entity_type'', JStr (sy_EntityType p))]
       @ (if sy_LastSyncAt p = [] then [] else [(''last_sync_at'', JStr (sy_LastSyncAt p))]) @ [(''full_sync'', JBool (sy_FullSync p))]))"

subsection \<open>Handlers and scheduled jobs\<close>

datatype handler_log =
    LogEmail "string list" string | LogWebhook string string | LogCleanup string int | LogNotification int string
  | LogReport string string | LogSync string string
  | LogCleanupRun string int bool | LogNotificationTitle int string string | LogSyncEntity string string string

type_synonym worker_world = "handler_log list"

definition logging :: "('p \<Rightarrow> handler_log) \<Rightarrow> 'p \<Rightarrow> worker_world \<Rightarrow> handler_result \<times> worker_world" where
  "logging entry payload w = (HOk, w @ [entry payload])"

definition registerHandlers :: "Registry \<times> worker_world WorkerPool \<Rightarrow> Registry \<times> worker_world WorkerPool" where
  "registerHandlers c =
     (let c1 = Register read_email ''handler.EmailJobPayload'' ''email'' (logging (\<lambda>p. LogEmail (em_To p) (em_Subject p))) c;
          c2 = Register read_webhook ''handler.WebhookJobPayload'' ''webhook'' (logging (\<lambda>p. LogWebhook (wh_URL p) (wh_Method p))) c1;
          c3 = Register read_cleanup ''handler.CleanupJobPayload'' ''cleanup'' (logging (\<lambda>p. LogCleanup (cl_Type p) (cl_OlderThan p))) c2;
          c4 = Register read_notification ''handler.NotificationJobPayload'' ''notification''
                 (logging (\<lambda>p. LogNotification (nt_UserID p) (nt_Type p))) c3;
          c5 = Register read_report ''handler.ReportJobPayload'' ''report'' (logging (\<lambda>p. LogReport (rp_ReportType p) (rp_Format p))) c4
      in Register read_sync ''handler.SyncJobPayload'' ''sync'' (logging (\<lambda>p. LogSync (sy_Source p) (sy_Destination p))) c5)"

text \<open>The handlers of the server differ in what they log.\<close>

definition registerDefaultHandlers :: "Registry \<times> worker_world WorkerPool \<Rightarrow> Registry \<times> worker_world WorkerPool" where
  "registerDefaultHandlers c =
     (let c1 = Register read_email ''handler.EmailJobPayload'' ''email'' (logging (\<lambda>p. LogEmail (em_To p) (em_Subject p))) c;
          c2 = Register read_webhook ''handler.WebhookJobPayload'' ''webhook'' (logging (\<lambda>p. LogWebhook (wh_URL p) (wh_Method p))) c1;
          c3 = Register read_cleanup ''handler.CleanupJobPayload'' ''cleanup''
                 (logging (\<lambda>p. LogCleanupRun (cl_Type p) (cl_OlderThan p) (cl_DryRun p))) c2;
          c4 = Register read_notification ''handler.NotificationJobPayload'' ''notification''
                 (logging (\<lambda>p. LogNotificationTitle (nt_UserID p) (nt_Type p) (nt_Title p))) c3;
          c5 = Register read_report ''handler.ReportJobPayload'' ''report'' (logging (\<lambda>p. LogReport (rp_ReportType p) (rp_Format p))) c4
      in Register read_sync ''handler.SyncJobPayload'' ''sync''
           (logging (\<lambda>p. LogSyncEntity (sy_Source p) (sy_Destination p) (sy_EntityType p))) c5)"

definition ListHandlers :: "Registry \<Rightarrow> (string \<rightharpoonup> string)" where
  "ListHandlers r = hr_types r"

definition daily_cleanup :: "string list \<Rightarrow> sched_payload ScheduledJob" where
  "daily_cleanup tags =
     \<lparr>sj_Name = ''daily-token-cleanup'', sj_Schedule = DailyMidnight, sj_JobType = ''cleanup'',
      sj_Payload = PCleanup \<lparr>cl_Type = ''expired_tokens'', cl_OlderThan = 30, cl_DryRun = False\<rparr>,
      sj_Priority = PriorityLow, sj_UniqueKey = [], sj_Tags = tags, sj_Singleton = True\<rparr>"

definition hourly_sync :: "string list \<Rightarrow> sched_payload ScheduledJob" where
  "hourly_sync tags =
     \<lparr>sj_Name = ''hourly-stats-sync'', sj_Schedule = EveryHour, sj_JobType = ''sync'',
      sj_Payload = PSync \<lparr>sy_Source = ''database'', sy_Destination = ''cache'', sy_EntityType = ''stats'', sy_LastSyncAt = [],
        sy_FullSync = False\<rparr>,
      sj_Priority = PriorityNormal, sj_UniqueKey = [], sj_Tags = tags, sj_Singleton = False\<rparr>"

text \<open>In the worker process the results of the registrations are dropped; the server logs a failure and
  goes on. Both leave the scheduler that the registrations leave.\<close>

definition registerScheduledJobs :: "(string \<Rightarrow> 'c option) \<Rightarrow> sched_payload Scheduler \<Rightarrow> sched_payload Scheduler" where
  "registerScheduledJobs parse5 sc =
     snd (RegisterJob parse5 (hourly_sync []) (snd (RegisterJob parse5 (daily_cleanup []) sc)))"

definition registerDefaultScheduledJobs ::
  "(string \<Rightarrow> 'c option) \<Rightarrow> sched_payload Scheduler \<Rightarrow> sched_error list \<times> sched_payload Scheduler" where
  "registerDefaultScheduledJobs parse5 sc =
     (case RegisterJob parse5 (daily_cleanup [''maintenance'', ''cleanup'']) sc of
        (e1, sc1) \<Rightarrow> (case RegisterJob parse5 (hourly_sync [''stats'', ''sync'']) sc1 of
          (e2, sc2) \<Rightarrow> ((case e1 of None \<Rightarrow> [] | Some e \<Rightarrow> [e]) @ (case e2 of None \<Rightarrow> [] | Some e \<Rightarrow> [e]), sc2)))"

subsection \<open>Setting up\<close>

text \<open>\<^verbatim>\<open>fmt.Sscanf(s, "%d", &x)\<close>: blanks, a sign and digits; what follows is not read, and without
  digits, or with too many, the variable keeps its value.\<close>

definition Sscanf_d :: "string \<Rightarrow> int \<Rightarrow> int" where
  "Sscanf_d s old =
     (let s1 = dropWhile (\<lambda>c. is_space c \<and> c \<noteq> CHR 0x0A) s;
          neg = (case s1 of c # _ \<Rightarrow> c = CHR ''-'' | [] \<Rightarrow> False);
          s2 = (case s1 of c # r \<Rightarrow> if c = CHR ''-'' \<or> c = CHR ''+'' then r else s1 | [] \<Rightarrow> []);
          ds = takeWhile (\<lambda>c. 48 \<le> (of_char c :: nat) \<and> (of_char c :: nat) \<le> 57) s2
      in if ds = [] then old
         else case digits_val 0 ds of
           None \<Rightarrow> old
         | Some n \<Rightarrow> let v = (if neg then - n else n) in if in_int64 v then v else old)"

definition setupLockManager :: "string \<Rightarrow> LockManager" where
  "setupLockManager uuid = NewLockManager uuid DefaultLockManagerConfig"

definition worker_config :: "(string \<Rightarrow> string) \<Rightarrow> WorkerPoolConfig" where
  "worker_config env =
     (let c0 = DefaultWorkerPoolConfig;
          c1 = (if env ''ARCANA_WORKER_CONCURRENCY'' \<noteq> []
                then c0\<lparr>wc_Concurrency := Sscanf_d (env ''ARCANA_WORKER_CONCURRENCY'') (wc_Concurrency c0)\<rparr> else c0);
          c2 = (if env ''ARCANA_WORKER_DISABLE_LOCKING'' = ''true'' then c1\<lparr>wc_EnableLocking := False\<rparr> else c1)
      in if env ''ARCANA_WORKER_DISABLE_IDEMPOTENCY'' = ''true'' then c2\<lparr>wc_EnableIdempotency := False\<rparr> else c2)"

definition setupWorkerPool :: "(string \<Rightarrow> string) \<Rightarrow> Metrics \<Rightarrow> LockManager \<Rightarrow> 'w WorkerPool" where
  "setupWorkerPool env globalMetrics lm = SetLockManager lm (NewWorkerPool (worker_config env) globalMetrics)"

definition setupScheduler :: "string \<Rightarrow> 'p Scheduler" where
  "setupScheduler uuid = NewSchedulerWithConfig uuid DefaultSchedulerConfig"

definition provideWorkerPool :: "Metrics \<Rightarrow> LockManager \<Rightarrow> 'w WorkerPool" where
  "provideWorkerPool globalMetrics lm = SetLockManager lm (NewWorkerPool DefaultWorkerPoolConfig globalMetrics)"

record worker_process =
  pr_pool :: "worker_world WorkerPool"
  pr_registry :: Registry
  pr_sched :: "sched_payload Scheduler"

datatype start_error = ErrPoolStart string | ErrSchedulerStart sched_error

text \<open>Both starts, in the order of \<^verbatim>\<open>main\<close> and of the start hook; a failure ends the process or fails the
  start of the application.\<close>

definition start_workers ::
  "(string \<Rightarrow> 'c option) \<Rightarrow> string list \<Rightarrow> worker_process \<Rightarrow> start_error option \<times> worker_process" where
  "start_workers parse6 names pr =
     (case pool_Start (pr_pool pr) of
        (Some e, p1) \<Rightarrow> (Some (ErrPoolStart e), pr\<lparr>pr_pool := p1\<rparr>)
      | (None, p1) \<Rightarrow>
          (case sched_Start parse6 names (pr_sched pr) of
             (Some e, sc1) \<Rightarrow> (Some (ErrSchedulerStart e), pr\<lparr>pr_pool := p1, pr_sched := sc1\<rparr>)
           | (None, sc1) \<Rightarrow> (None, pr\<lparr>pr_pool := p1, pr_sched := sc1\<rparr>)))"

definition worker_main ::
  "(string \<Rightarrow> 'a option) \<Rightarrow> (string \<Rightarrow> 'c option) \<Rightarrow> (string \<Rightarrow> string) \<Rightarrow> string list \<Rightarrow> string \<Rightarrow> string \<Rightarrow> Metrics
     \<Rightarrow> start_error option \<times> worker_process" where
  "worker_main parse5 parse6 env names worker_id instance_id metrics =
     (let lm = setupLockManager worker_id;
          pool = setupWorkerPool env metrics lm;
          (registry, pool1) = registerHandlers (\<lparr>hr_types = Map.empty\<rparr>, pool);
          sched = registerScheduledJobs parse5 (setupScheduler instance_id)
      in start_workers parse6 names \<lparr>pr_pool = pool1, pr_registry = registry, pr_sched = sched\<rparr>)"

text \<open>
  The shutdown, of the process and as the stop hook of the server: stop the scheduler, then the pool, then release the locks. The errors are
  logged. \<open>None\<close> is a panic.
\<close>

definition gracefulShutdown ::
  "'s redis \<Rightarrow> time \<Rightarrow> time \<Rightarrow> time \<Rightarrow> nat list \<Rightarrow> nat list \<Rightarrow> worker_process \<times> 's \<Rightarrow> (worker_process \<times> 's) option" where
  "gracefulShutdown redis t1 t2 t3 locks1 locks2 = (\<lambda>(pr, s).
     case sched_Stop redis t1 (pr_sched pr, s) of
       None \<Rightarrow> None
     | Some (sc1, s1) \<Rightarrow>
         (case pool_Stop redis t2 locks1 (pr_pool pr, s1) of
            None \<Rightarrow> None
          | Some (p2, s2) \<Rightarrow>
              (case wp_lockManager p2 of
                 None \<Rightarrow> Some (pr\<lparr>pr_pool := p2, pr_sched := sc1\<rparr>, s2)
               | Some lm \<Rightarrow>
                   (case ReleaseAllLocks redis t3 locks2 (lm, s2) of
                      (lm3, s3) \<Rightarrow> Some (pr\<lparr>pr_pool := p2\<lparr>wp_lockManager := Some lm3\<rparr>, pr_sched := sc1\<rparr>, s3)))))"

subsection \<open>Endpoints\<close>

definition quote :: string where "quote = [CHR 0x22]"

definition json_pair :: "string \<Rightarrow> string \<Rightarrow> string" where
  "json_pair k v = quote @ k @ quote @ '':'' @ v"

definition handleHealth :: "Metrics \<Rightarrow> 'p Scheduler \<Rightarrow> LockManager \<Rightarrow> int \<times> string" where
  "handleHealth metrics sc lm =
     (let health = GetHealthCheck (IsLeader sc) metrics
      in (if hc_Status health = ''healthy'' then 200 else 503,
          ''{'' @ json_pair ''status'' (quote @ hc_Status health @ quote) @ '','' @
          json_pair ''workers_active'' (itoa (hc_WorkersActive health)) @ '','' @
          json_pair ''jobs_pending'' (itoa (hc_JobsPending health)) @ '','' @
          json_pair ''is_leader'' (if hc_IsLeader health then ''true'' else ''false'') @ '','' @
          json_pair ''worker_id'' (quote @ GetWorkerID lm @ quote) @ ''}''))"

definition handleReady :: "int \<times> string" where
  "handleReady = (200, ''{'' @ json_pair ''status'' (quote @ ''ready'' @ quote) @ ''}'')"

fun running_entries :: "bool \<Rightarrow> (string \<times> string) list \<Rightarrow> string" where
  "running_entries at_first [] = []"
| "running_entries at_first ((jobID, info) # jobs) =
     (if at_first then [] else '','') @ json_pair jobID (quote @ info @ quote) @ running_entries False jobs"

text \<open>\<open>err_text\<close> renders an error of the lock manager.\<close>

definition handleRunning :: "(lock_error \<Rightarrow> string) \<Rightarrow> 's redis \<Rightarrow> time \<Rightarrow> 's \<Rightarrow> (int \<times> string) \<times> 's" where
  "handleRunning err_text redis now s =
     (case GetRunningJobs redis now s of
        (Inl e, s1) \<Rightarrow> ((500, ''{'' @ json_pair ''error'' (quote @ err_text e @ quote) @ ''}''), s1)
      | (Inr jobs, s1) \<Rightarrow>
          ((200, ''{'' @ json_pair ''running_jobs'' (itoa (int (length jobs))) @ '','' @ quote @ ''jobs'' @ quote @ '':{''
              @ running_entries True jobs @ ''}}''), s1))"

subsection \<open>The process starts\<close>

lemma payload_roundtrip:
  "Option.bind (marshal_sched (PCleanup p)) read_cleanup = Some p"
  "Option.bind (marshal_sched (PSync q)) read_sync = Some q"
  by (simp_all add: read_cleanup_def read_sync_def)

lemma registered_handlers:
  "wp_handlers (snd (registerHandlers (r, p))) = (wp_handlers p)
     (''email'' \<mapsto> wrapHandler read_email (logging (\<lambda>p. LogEmail (em_To p) (em_Subject p))),
      ''webhook'' \<mapsto> wrapHandler read_webhook (logging (\<lambda>p. LogWebhook (wh_URL p) (wh_Method p))),
      ''cleanup'' \<mapsto> wrapHandler read_cleanup (logging (\<lambda>p. LogCleanup (cl_Type p) (cl_OlderThan p))),
      ''notification'' \<mapsto> wrapHandler read_notification (logging (\<lambda>p. LogNotification (nt_UserID p) (nt_Type p))),
      ''report'' \<mapsto> wrapHandler read_report (logging (\<lambda>p. LogReport (rp_ReportType p) (rp_Format p))),
      ''sync'' \<mapsto> wrapHandler read_sync (logging (\<lambda>p. LogSync (sy_Source p) (sy_Destination p))))"
  "wp_config (snd (registerHandlers (r, p))) = wp_config p" "wp_lockManager (snd (registerHandlers (r, p))) = wp_lockManager p"
  "wp_running (snd (registerHandlers (r, p))) = wp_running p" "wp_goroutines (snd (registerHandlers (r, p))) = wp_goroutines p"
  by (simp_all add: registerHandlers_def Register_def RegisterHandler_def)

text \<open>Process and server know the same job types, with the same payloads.\<close>

lemma default_handlers:
  "fst (registerDefaultHandlers (r, p)) = fst (registerHandlers (r, p))"
  "dom (wp_handlers (snd (registerDefaultHandlers (r, p)))) = dom (wp_handlers (snd (registerHandlers (r, p))))"
  by (auto simp: registerDefaultHandlers_def registerHandlers_def Register_def RegisterHandler_def)

text \<open>A handler that reads the payload of a scheduled job and succeeds.\<close>

definition accepts :: "worker_world WorkerPool \<Rightarrow> sched_payload ScheduledJob \<Rightarrow> bool" where
  "accepts p job =
     (case (wp_handlers p (sj_JobType job), marshal_sched (sj_Payload job)) of
        (Some h, Some d) \<Rightarrow> fst (h d []) = HOk
      | _ \<Rightarrow> False)"

lemma accepts_defaults:
  "accepts (snd (registerHandlers (r, p))) (daily_cleanup tags)" "accepts (snd (registerHandlers (r, p))) (hourly_sync tags)"
  by (simp_all add: accepts_def registered_handlers daily_cleanup_def hourly_sync_def wrapHandler_def logging_def
      read_cleanup_def read_sync_def)

lemma registered_jobs:
  "registerScheduledJobs parse5 sc = register_all parse5 [daily_cleanup [], hourly_sync []] sc"
  by (simp add: registerScheduledJobs_def register_all_def)

text \<open>
  The worker process comes up. Whatever the environment says, starting succeeds: the pool runs as many
  workers as \<^verbatim>\<open>ARCANA_WORKER_CONCURRENCY\<close> asks for (none for zero or a negative number), it has a handler for
  exactly the six job types, and the handlers of the default scheduled jobs read their payloads. But
  the scheduler has no entry: the schedules pass a parser of five fields at the registration and fail the
  one of six fields at the start, so that none of these jobs ever runs.
\<close>

theorem worker_process_starts:
  assumes std: "\<forall>sp c. parse5 sp = Some c \<longrightarrow> \<not> prefix ''@'' (cron_body sp) \<and> length (str_fields (cron_body sp)) = 5"
    and secs: "\<forall>sp c. parse6 sp = Some c \<longrightarrow> prefix ''@'' (cron_body sp) \<or> length (str_fields (cron_body sp)) = 6"
  shows "\<exists>pr. worker_main parse5 parse6 env names wid iid metrics = (None, pr)
    \<and> wp_running (pr_pool pr)
    \<and> wp_goroutines (pr_pool pr) = max 0 (wc_Concurrency (worker_config env)) + 1 + (if wc_EnableLocking (worker_config env) then 1 else 0)
    \<and> dom (wp_handlers (pr_pool pr)) = {''email'', ''webhook'', ''cleanup'', ''notification'', ''report'', ''sync''}
    \<and> accepts (pr_pool pr) (daily_cleanup []) \<and> accepts (pr_pool pr) (hourly_sync [])
    \<and> sc_running (pr_sched pr) \<and> sc_entries (pr_sched pr) = []"
proof -
  let ?sc = "registerScheduledJobs parse5 (setupScheduler iid)"
  have t: "(\<forall>n j. sc_jobs ?sc n = Some j \<longrightarrow> parse5 (sj_Schedule j) \<noteq> None) \<and> sc_entries ?sc = [] \<and> \<not> sc_running ?sc"
    unfolding registered_jobs setupScheduler_def
    using register_all_table [of "NewSchedulerWithConfig iid DefaultSchedulerConfig" parse5 "[daily_cleanup [], hourly_sync []]"]
    by (auto simp: NewSchedulerWithConfig_def)
  have "\<forall>n j. sc_jobs ?sc n = Some j \<longrightarrow> parse6 (sj_Schedule j) = None"
  proof (intro allI impI)
    fix n j assume "sc_jobs ?sc n = Some j"
    then have "parse5 (sj_Schedule j) \<noteq> None" using t by blast
    then have "\<not> prefix ''@'' (cron_body (sj_Schedule j))" "length (str_fields (cron_body (sj_Schedule j))) = 5" using std by blast+
    then show "parse6 (sj_Schedule j) = None" using secs by (cases "parse6 (sj_Schedule j)") auto
  qed
  then have st: "sched_Start parse6 names ?sc = (None, ?sc\<lparr>sc_running := True, sc_elections := Suc (sc_elections ?sc)\<rparr>)"
    using t by (simp add: sched_Start_def setup_none)
  let ?pool = "setupWorkerPool env metrics (setupLockManager wid) :: worker_world WorkerPool"
  let ?p = "snd (registerHandlers (\<lparr>hr_types = Map.empty\<rparr>, ?pool))"
  let ?g = "max 0 (wc_Concurrency (worker_config env)) + 1 + (if wc_EnableLocking (worker_config env) then 1 else 0)"
  have pool: "wp_config ?p = worker_config env" "wp_lockManager ?p \<noteq> None" "\<not> wp_running ?p" "wp_goroutines ?p = 0"
    by (simp_all add: registered_handlers setupWorkerPool_def SetLockManager_def NewWorkerPool_def)
  have ps: "pool_Start ?p = (None, ?p\<lparr>wp_running := True, wp_goroutines := ?g\<rparr>)"
    using pool by (simp add: pool_Start_def locking_on_def)
  have d: "dom (wp_handlers ?p) = {''email'', ''webhook'', ''cleanup'', ''notification'', ''report'', ''sync''}"
    unfolding registered_handlers(1) by (auto simp: setupWorkerPool_def SetLockManager_def NewWorkerPool_def)
  let ?pr = "\<lparr>pr_pool = ?p\<lparr>wp_running := True, wp_goroutines := ?g\<rparr>, pr_registry = fst (registerHandlers (\<lparr>hr_types = Map.empty\<rparr>, ?pool)),
     pr_sched = ?sc\<lparr>sc_running := True, sc_elections := Suc (sc_elections ?sc)\<rparr>\<rparr>"
  have m: "worker_main parse5 parse6 env names wid iid metrics = (None, ?pr)"
    by (simp add: worker_main_def Let_def split_beta start_workers_def ps st)
  have acc: "accepts (p\<lparr>wp_running := a, wp_goroutines := b\<rparr>) j = accepts p j" for p a b j by (simp add: accepts_def)
  show ?thesis using m d t accepts_defaults by (intro exI [of _ ?pr]) (simp add: acc)
qed

theorem worker_process_starts_witness:
  "\<exists>pr. worker_main (counting_parser 5) (counting_parser 6) (\<lambda>x. if x = ''ARCANA_WORKER_CONCURRENCY'' then ''0 workers'' else [])
       [''daily-token-cleanup'', ''hourly-stats-sync''] worker_a ''i'' NewMetrics = (None, pr)
     \<and> wp_goroutines (pr_pool pr) = 2 \<and> sc_entries (pr_sched pr) = []"
proof -
  let ?env = "\<lambda>x. if x = ''ARCANA_WORKER_CONCURRENCY'' then ''0 workers'' else []"
  have c: "wc_Concurrency (worker_config ?env) = 0" "wc_EnableLocking (worker_config ?env)"
    by (simp_all add: worker_config_def DefaultWorkerPoolConfig_def Sscanf_d_def is_space_def in_int64_def)
  have std: "\<forall>sp c. counting_parser 5 sp = Some c \<longrightarrow> \<not> prefix ''@'' (cron_body sp) \<and> length (str_fields (cron_body sp)) = 5"
    by (simp add: counting_parser_def)
  have secs: "\<forall>sp c. counting_parser 6 sp = Some c \<longrightarrow> prefix ''@'' (cron_body sp) \<or> length (str_fields (cron_body sp)) = 6"
    by (simp add: counting_parser_def)
  obtain pr where pr: "worker_main (counting_parser 5) (counting_parser 6) ?env [''daily-token-cleanup'', ''hourly-stats-sync'']
        worker_a ''i'' NewMetrics = (None, pr)"
    "wp_goroutines (pr_pool pr) = max 0 (wc_Concurrency (worker_config ?env)) + 1 + (if wc_EnableLocking (worker_config ?env) then 1 else 0)"
    "sc_entries (pr_sched pr) = []"
    using worker_process_starts [OF std secs, of ?env "[''daily-token-cleanup'', ''hourly-stats-sync'']" worker_a "''i''" NewMetrics]
    by (elim exE conjE) (rule that)
  show ?thesis using pr(1,3) pr(2) [unfolded c(1)] c(2) by (intro exI [of _ pr] conjI) simp_all
qed

subsection \<open>The process stops\<close>

text \<open>The lock of job \<open>i\<close> belongs to worker \<open>w\<close>, in the sense of the release script; from \<open>v\<close> to \<open>v'\<close> no string
  but locks that belong to \<open>w\<close> is deleted.\<close>

definition owns :: "string \<Rightarrow> redis_view \<Rightarrow> time \<Rightarrow> string \<Rightarrow> bool" where
  "owns w v now i \<longleftrightarrow> (case look v now (keyPrefixJobLock @ i) of Some (Text val) \<Rightarrow> sublist (w @ '':'') val | _ \<Rightarrow> False)"

definition frees :: "string \<Rightarrow> time \<Rightarrow> redis_view \<Rightarrow> redis_view \<Rightarrow> bool" where
  "frees w now v v' \<longleftrightarrow> (\<forall>k. rv_str v' k = rv_str v k
     \<or> rv_str v' k = None \<and> (\<exists>i. k = keyPrefixJobLock @ i \<and> owns w v now i))"

lemma frees_refl: "rv_str v' = rv_str v \<Longrightarrow> frees w now v v'"
  by (simp add: frees_def)

lemma owns_cong:
  assumes "rv_str v' (keyPrefixJobLock @ i) = rv_str v (keyPrefixJobLock @ i)"
  shows "owns w v' now i = owns w v now i"
  unfolding owns_def look_cong [OF assms] ..

lemma owns_earlier: "owns w v t i \<Longrightarrow> now \<le> t \<Longrightarrow> owns w v now i"
  unfolding owns_def look_def live_def
  by (cases "rv_str v (keyPrefixJobLock @ i)") (auto split: option.splits if_splits)

lemma frees_cases:
  assumes "frees w now v v'"
  obtains "rv_str v' k = rv_str v k" | i where "k = keyPrefixJobLock @ i" "rv_str v' k = None" "owns w v now i"
  using assms unfolding frees_def by blast

lemma frees_trans:
  assumes "frees w now v v'" "frees w now v' v''"
  shows "frees w now v v''"
  unfolding frees_def
proof
  fix k
  show "rv_str v'' k = rv_str v k \<or> rv_str v'' k = None \<and> (\<exists>i. k = keyPrefixJobLock @ i \<and> owns w v now i)"
    using assms(2)
  proof (cases rule: frees_cases [of w now v' v'' k])
    case 1
    then show ?thesis using assms(1) unfolding frees_def by simp
  next
    case (2 i)
    show ?thesis using assms(1)
    proof (cases rule: frees_cases [of w now v v' k])
      case 1
      then show ?thesis using 2 owns_cong [of v' i v w now] by auto
    qed (use 2 in auto)
  qed
qed

lemma frees_disowns:
  assumes "frees w' now' v v'" "\<not> owns w v now i" "now \<le> t"
  shows "\<not> owns w v' t i"
  using assms(1)
proof (cases rule: frees_cases [of w' now' v v' "keyPrefixJobLock @ i"])
  case 1
  then show ?thesis using owns_cong [OF 1] owns_earlier assms(2,3) by blast
next
  case 2
  then show ?thesis by (simp add: owns_def look_def)
qed

lemma frees_others:
  assumes "frees w now v v'" "\<not> owns w v now i"
  shows "rv_str v' (keyPrefixJobLock @ i) = rv_str v (keyPrefixJobLock @ i)"
proof (rule ccontr)
  assume "\<not> ?thesis"
  then obtain j where "keyPrefixJobLock @ i = keyPrefixJobLock @ j" "owns w v now j" using assms(1) unfolding frees_def by blast
  then show False using assms(2) by simp
qed

lemma frees_less: "frees w now v v' \<Longrightarrow> rv_str v' k = rv_str v k \<or> rv_str v' k = None"
  unfolding frees_def by (drule spec [of _ k], erule disjE) simp_all

lemma frees_no_lock:
  assumes "frees w now v v'" "\<And>i. k \<noteq> keyPrefixJobLock @ i"
  shows "rv_str v' k = rv_str v k"
  using assms unfolding frees_def by blast

lemma look_earlier: "look v t k = Some x \<Longrightarrow> now \<le> t \<Longrightarrow> look v now k = Some x"
  unfolding look_def live_def by (cases "rv_str v k") (auto split: option.splits if_splits)

lemma leader_key_no_lock [simp]: "keyPrefixJobLock @ i \<noteq> leaderKey" "leaderKey \<noteq> keyPrefixJobLock @ i"
  by (simp_all add: lock_key_defs leaderKey_def)

lemma rival_not_owned:
  assumes "uuid_like w" "uuid_like w'" "w' \<noteq> w" "rv_str v (keyPrefixJobLock @ i) = Some (Text (lock_value w' n), e)"
  shows "\<not> owns w v now i"
  using owner_sublist [OF assms(2,1)] assms(3,4) by (simp add: owns_def look_def)

lemma frees_rival:
  assumes "frees w now v v'" "uuid_like w" "uuid_like w'" "w' \<noteq> w" "locked v i w' T"
  shows "locked v' i w' T"
  using assms(5) frees_others [OF assms(1) rival_not_owned [OF assms(2-4)]] unfolding locked_def by metis

context redis_client
begin

lemma freed_lock:
  assumes "up s3" "0 \<le> lm_lockTTL b" "uuid_like w" "\<not> owns w (view s3) t i" "locked v1 i w T" "frees w t2 v1 v2" "frees w t3 v2 (view s3)"
  shows "fst (AcquireLock redis t i (b, s3)) = Inr (length (lm_locks b))"
proof -
  obtain n where "rv_str v1 (keyPrefixJobLock @ i) = Some (Text (lock_value w n), Some T)" using assms(5) by (auto simp: locked_def)
  then have "rv_str (view s3) (keyPrefixJobLock @ i) \<in> {None, Some (Text (lock_value w n), Some T)}"
    using frees_less [OF assms(6), of "keyPrefixJobLock @ i"] frees_less [OF assms(7), of "keyPrefixJobLock @ i"] by auto
  then have "look (view s3) t (keyPrefixJobLock @ i) = None"
    using assms(4) owner_sublist [OF assms(3,3)] by (auto simp: owns_def look_def split: if_splits)
  then show ?thesis using AcquireLock_free(1) [OF assms(1,2), of t i] by (metis prod_cases3 fst_conv)
qed

lemma release_one:
  assumes "up s" "locks_ok lm" "p < length (lm_locks lm)" "ReleaseLock redis now (Some p) (lm, s) = (r, lm', s')"
  shows "up s'" "lm_locks lm' = (lm_locks lm)[p := (lm_locks lm ! p)\<lparr>jl_held := False\<rparr>]" "lm_workerID lm' = lm_workerID lm"
    "lm_lockTTL lm' = lm_lockTTL lm" "frees (lm_workerID lm) now (view s) (view s')"
    "jl_held (lm_locks lm ! p) \<Longrightarrow> \<not> owns (lm_workerID lm) (view s') now (jl_jobID (lm_locks lm ! p))"
proof -
  let ?i = "jl_jobID (lm_locks lm ! p)" and ?w = "lm_workerID lm"
  let ?r = "release_script redis now (keyPrefixJobLock @ ?i) (?w @ '':'') s"
  note key = locks_ok_nth(1) [OF assms(2,3)]
  have R: "fst ?r \<noteq> RErr" "up (snd ?r)" "\<not> owns ?w (view (snd ?r)) now ?i"
    using assms(1) by (auto simp: release_script_def case_prod_unfold laws owns_def look_def split: option.splits blob.splits if_splits)
  have F: "frees ?w now (view s) (view (snd ?r))"
  proof (cases "owns ?w (view s) now ?i")
    case True
    then have "view (snd ?r) = (view s)\<lparr>rv_str := (rv_str (view s))(keyPrefixJobLock @ ?i := None)\<rparr>"
      using assms(1) by (auto simp: release_script_def case_prod_unfold laws owns_def split: option.splits blob.splits if_splits)
    then show ?thesis using True by (auto simp: frees_def)
  next
    case False
    then have "view (snd ?r) = view s"
      using assms(1) by (auto simp: release_script_def case_prod_unfold laws owns_def split: option.splits blob.splits if_splits)
    then show ?thesis by (simp add: frees_refl)
  qed
  note ut = untrack_frame [OF R(2)]
  have *: "up s' \<and> lm_locks lm' = (lm_locks lm)[p := (lm_locks lm ! p)\<lparr>jl_held := False\<rparr>] \<and> lm_workerID lm' = ?w
      \<and> lm_lockTTL lm' = lm_lockTTL lm \<and> frees ?w now (view s) (view s')
      \<and> (jl_held (lm_locks lm ! p) \<longrightarrow> \<not> owns ?w (view s') now ?i)"
  proof (cases "jl_held (lm_locks lm ! p)")
    case True
    let ?lm1 = "lm\<lparr>lm_locks := (lm_locks lm)[p := (lm_locks lm ! p)\<lparr>jl_held := False\<rparr>]\<rparr>"
    have "s' = untrackRunningJob redis now ?lm1 ?i (snd ?r)" "lm' = ?lm1\<lparr>lm_activeLocks := (lm_activeLocks lm)(?i := None)\<rparr>"
      using assms(4) True R(1) by (cases "fst ?r"; simp add: ReleaseLock_def key Let_def case_prod_unfold)+
    moreover have "rv_str (view s') = rv_str (view (snd ?r))" using ut calculation(1) by simp
    ultimately show ?thesis using ut R(3) frees_trans [OF F frees_refl [of "view s'"]] look_cong [of "view s'" _ "view (snd ?r)"]
      by (simp add: owns_def)
  next
    case False
    then have "(lm_locks lm ! p)\<lparr>jl_held := False\<rparr> = lm_locks lm ! p" by (cases "lm_locks lm ! p") simp
    then have "(lm_locks lm)[p := (lm_locks lm ! p)\<lparr>jl_held := False\<rparr>] = lm_locks lm" by simp
    then show ?thesis using False assms(1,4) by (auto simp add: ReleaseLock_def frees_refl)
  qed
  then show "up s'" "lm_locks lm' = (lm_locks lm)[p := (lm_locks lm ! p)\<lparr>jl_held := False\<rparr>]" "lm_workerID lm' = lm_workerID lm"
    "lm_lockTTL lm' = lm_lockTTL lm" "frees (lm_workerID lm) now (view s) (view s')"
    "jl_held (lm_locks lm ! p) \<Longrightarrow> \<not> owns (lm_workerID lm) (view s') now (jl_jobID (lm_locks lm ! p))" by blast+
qed

lemma locks_ok_update:
  assumes "locks_ok lm" "p < length (lm_locks lm)" "lm_locks lm' = (lm_locks lm)[p := (lm_locks lm ! p)\<lparr>jl_held := False\<rparr>]"
    "lm_workerID lm' = lm_workerID lm" "lm_lockTTL lm' = lm_lockTTL lm"
  shows "locks_ok lm'"
  using assms set_update_subset_insert [of "lm_locks lm" p "(lm_locks lm ! p)\<lparr>jl_held := False\<rparr>"] nth_mem [OF assms(2)]
  unfolding locks_ok_def by fastforce

lemma release_many_locks:
  assumes "release_loop redis now ps (lm, s) = (lm', s')" "up s" "locks_ok lm" "list_all (\<lambda>p. p < length (lm_locks lm)) ps"
  shows "up s' \<and> locks_ok lm' \<and> length (lm_locks lm') = length (lm_locks lm) \<and> lm_workerID lm' = lm_workerID lm
    \<and> frees (lm_workerID lm) now (view s) (view s')
    \<and> (\<forall>p \<in> set ps. jl_held (lm_locks lm ! p) \<longrightarrow> \<not> owns (lm_workerID lm) (view s') now (jl_jobID (lm_locks lm ! p)))"
  using assms
proof (induction ps arbitrary: lm s)
  case Nil
  then show ?case by (simp add: frees_refl)
next
  case (Cons p ps)
  obtain r lm1 s1 where e: "ReleaseLock redis now (Some p) (lm, s) = (r, lm1, s1)" by (metis prod_cases3)
  have p: "p < length (lm_locks lm)" using Cons.prems(4) by simp
  note one = release_one [OF Cons.prems(2,3) p e]
  note ok1 = locks_ok_update [OF Cons.prems(3) p one(2,3,4)]
  have IH: "up s' \<and> locks_ok lm' \<and> length (lm_locks lm') = length (lm_locks lm1) \<and> lm_workerID lm' = lm_workerID lm1
    \<and> frees (lm_workerID lm1) now (view s1) (view s')
    \<and> (\<forall>p \<in> set ps. jl_held (lm_locks lm1 ! p) \<longrightarrow> \<not> owns (lm_workerID lm1) (view s') now (jl_jobID (lm_locks lm1 ! p)))"
    using Cons.prems(1,4) one(1,2) ok1 e by (intro Cons.IH) simp_all
  have "\<not> owns (lm_workerID lm) (view s') now (jl_jobID (lm_locks lm ! q))" if "q \<in> set (p # ps)" "jl_held (lm_locks lm ! q)" for q
  proof (cases "q = p")
    case True
    then have n: "\<not> owns (lm_workerID lm) (view s1) now (jl_jobID (lm_locks lm ! q))" using one(6) that(2) by simp
    show ?thesis by (rule frees_disowns [OF conjunct1 [OF conjunct2 [OF conjunct2 [OF conjunct2 [OF conjunct2 [OF IH]]]]] n order_refl])
  next
    case False
    then have "q \<in> set ps" "lm_locks lm1 ! q = lm_locks lm ! q" using that(1) one(2) by simp_all
    then show ?thesis using IH one(3) that(2) by metis
  qed
  then show ?case using IH one(2,3) frees_trans [OF one(5)] by simp
qed

lemma release_all_locks:
  assumes "ReleaseAllLocks redis now ps (lm, s) = (lm', s')" "up s" "locks_ok lm" "list_all (\<lambda>p. p < length (lm_locks lm)) ps"
  shows "up s' \<and> locks_ok lm' \<and> length (lm_locks lm') = length (lm_locks lm) \<and> lm_workerID lm' = lm_workerID lm
    \<and> frees (lm_workerID lm) now (view s) (view s')
    \<and> (\<forall>p \<in> set ps. jl_held (lm_locks lm ! p) \<longrightarrow> \<not> owns (lm_workerID lm) (view s') now (jl_jobID (lm_locks lm ! p)))"
proof -
  obtain s1 where e: "release_loop redis now ps (lm, s) = (lm', s1)" "s' = snd (redis now (DEL (keyPrefixWorkerJobs @ lm_workerID lm')) s1)"
    using assms(1) by (auto simp: ReleaseAllLocks_def split: prod.splits)
  note m = release_many_locks [OF e(1) assms(2-4)]
  then have "rv_str (view s') = rv_str (view s1)" "up s'" using e(2) by (simp_all add: laws)
  then show ?thesis using m frees_trans [OF _ frees_refl, of "lm_workerID lm" now "view s" "view s1" "view s'"]
      look_cong [of "view s'" _ "view s1"] by (simp add: owns_def)
qed

lemma stop_leader:
  assumes "sched_Stop redis now (sc, s) = Some (sc', s')" "up s" "sc_running sc"
  shows "up s'" "\<not> sc_running sc'" "\<not> IsLeader sc'" "k \<noteq> leaderKey \<Longrightarrow> rv_str (view s') k = rv_str (view s) k"
    "IsLeader sc \<Longrightarrow> look (view s') now leaderKey \<noteq> Some (Text (sc_instanceID sc))"
proof -
  have e: "releaseLeadership redis now (sc\<lparr>sc_running := False, sc_stopClosed := True\<rparr>, s) = (sc', s')"
    using assms(1,3) by (auto simp: sched_Stop_def split: if_splits)
  show "up s'" "\<not> sc_running sc'" "\<not> IsLeader sc'" "k \<noteq> leaderKey \<Longrightarrow> rv_str (view s') k = rv_str (view s) k"
    "IsLeader sc \<Longrightarrow> look (view s') now leaderKey \<noteq> Some (Text (sc_instanceID sc))"
    using e assms(2)
    by (auto simp: releaseLeadership_def releaseLeadership_begin_def releaseLeadership_end_def IsLeader_def case_prod_unfold laws look_def
        split: option.splits blob.splits if_splits)
qed

end


definition stopping :: worker_process where
  "stopping = \<lparr>pr_pool = (provideWorkerPool NewMetrics
       (fst (snd (AcquireLock mem_redis 5 ''j'' (NewLockManager worker_a DefaultLockManagerConfig, lock_store)))))\<lparr>wp_running := True\<rparr>,
     pr_registry = \<lparr>hr_types = Map.empty\<rparr>, pr_sched = (setupScheduler ''i'')\<lparr>sc_running := True, sc_isLeader := True\<rparr>\<rparr>"


end
