(* ===== verification/Observability.thy ===== *)
theory Observability
  imports Http_Middleware Redis_Client
begin

text \<open>
  Tracing and metrics, \<^verbatim>\<open>internal/observability\<close>: the HTTP middleware and the gRPC interceptors that
  open a span around every call, the carrier that takes the trace across the wire, the set-up of the
  tracing provider, and the metrics provider.

  The OpenTelemetry library is an argument: a record of the calls the code makes, on a state of the library,
  with what is documented of them in the locale \<open>tracing_sdk\<close>. A handler returns an error or a
  value, or panics (\<open>None\<close>); deferred calls run in each case. Durations that the code measures
  with the clock are arguments.
\<close>

subsection \<open>Spans\<close>

datatype attr_val = AStr string | AInt int | ABool bool

type_synonym attrs = "(string \<times> attr_val) list"

datatype span_kind = SpanKindServer | SpanKindClient

datatype span_code = CodeUnset | CodeError | CodeOk

record span_context =
  tx_Trace :: int
  tx_Span :: int

record 'e span =
  tr_Name :: string
  tr_Kind :: span_kind
  tr_Context :: span_context
  tr_Parent :: "span_context option"
  tr_Attrs :: attrs
  tr_Status :: "span_code \<times> string"
  tr_Errors :: "'e list"
  tr_Ended :: bool

datatype 'e span_op = SetAttributes attrs | SetStatus span_code string | RecordError 'e | EndSpan

record ('c, 'o, 'e) otel =
  sdk_Start :: "'c \<Rightarrow> string \<Rightarrow> span_kind \<Rightarrow> attrs \<Rightarrow> 'o \<Rightarrow> ('c \<times> nat) \<times> 'o"
  sdk_Do :: "nat \<Rightarrow> 'e span_op \<Rightarrow> 'o \<Rightarrow> 'o"
  sdk_SpanFromContext :: "'c \<Rightarrow> nat option"
  sdk_Extract :: "'c \<Rightarrow> (string \<Rightarrow> string) \<Rightarrow> 'c"
  sdk_Inject :: "'c \<Rightarrow> (string \<times> string) list"

definition AttrHTTPMethod :: string where "AttrHTTPMethod = ''http.method''"
definition AttrHTTPURL :: string where "AttrHTTPURL = ''http.url''"
definition AttrHTTPStatusCode :: string where "AttrHTTPStatusCode = ''http.status_code''"
definition AttrHTTPRoute :: string where "AttrHTTPRoute = ''http.route''"
definition AttrGRPCService :: string where "AttrGRPCService = ''rpc.service''"
definition AttrGRPCMethod :: string where "AttrGRPCMethod = ''rpc.method''"
definition AttrDBSystem :: string where "AttrDBSystem = ''db.system''"
definition AttrDBOperation :: string where "AttrDBOperation = ''db.operation''"
definition attrGRPCStatusCode :: string where "attrGRPCStatusCode = ''rpc.grpc.status_code''"

text \<open>Whole milliseconds, \<^verbatim>\<open>Duration.Milliseconds\<close>.\<close>

definition Milliseconds :: "duration \<Rightarrow> int" where
  "Milliseconds d = (if 0 \<le> d then d div millisecond else - (- d div millisecond))"

subsection \<open>The carrier\<close>

text \<open>Metadata of gRPC: keys in lower case, each with its values.\<close>

type_synonym MD = "string \<rightharpoonup> string list"

definition carrier_Get :: "MD \<Rightarrow> string \<Rightarrow> string" where
  "carrier_Get mc key = (case mc (map to_lower key) of Some (v # _) \<Rightarrow> v | _ \<Rightarrow> [])"

definition carrier_Set :: "string \<times> string \<Rightarrow> MD \<Rightarrow> MD" where
  "carrier_Set kv mc = mc(map to_lower (fst kv) \<mapsto> [snd kv])"

text \<open>\<^verbatim>\<open>propagator.Inject\<close> sets the pairs of the context one after the other.\<close>

definition inject_all :: "(string \<times> string) list \<Rightarrow> MD \<Rightarrow> MD" where
  "inject_all kvs mc = fold carrier_Set kvs mc"

subsection \<open>Middleware and interceptors\<close>

text \<open>What a request ends with: its status and the errors gin collected.\<close>

record 'e http_end =
  he_Status :: int
  he_Errors :: "'e list"

definition TracingMiddleware ::
  "('c, 'o, 'e) otel \<Rightarrow> string \<Rightarrow> string \<Rightarrow> string \<Rightarrow> string \<Rightarrow> (string \<Rightarrow> string) \<Rightarrow> duration
     \<Rightarrow> ('c \<Rightarrow> 'o \<Rightarrow> 'e http_end option \<times> 'o) \<Rightarrow> 'c \<Rightarrow> 'o \<Rightarrow> 'e http_end option \<times> 'o" where
  "TracingMiddleware k full_path url_path url meth header dur next ctx w =
     (let ctx1 = sdk_Extract k ctx header;
          spanName = (if full_path = [] then url_path else full_path);
          ((ctx2, i), w1) = sdk_Start k ctx1 spanName SpanKindServer
             [(AttrHTTPMethod, AStr meth), (AttrHTTPURL, AStr url), (AttrHTTPRoute, AStr spanName)] w;
          (res, w2) = next ctx2 w1
      in (res, sdk_Do k i EndSpan
           (case res of
              None \<Rightarrow> w2
            | Some h \<Rightarrow>
                (let w3 = sdk_Do k i (SetAttributes [(AttrHTTPStatusCode, AInt (he_Status h)),
                            (''http.response_time_ms'', AInt (Milliseconds dur))]) w2;
                     w4 = sdk_Do k i (if he_Status h \<ge> 400 then SetStatus CodeError ''HTTP error'' else SetStatus CodeOk []) w3
                 in fold (\<lambda>e. sdk_Do k i (RecordError e)) (he_Errors h) w4))))"

text \<open>\<open>from_error\<close> is \<^verbatim>\<open>status.FromError\<close>: the name of the code and the message.\<close>

definition report_call ::
  "('c, 'o, 'e) otel \<Rightarrow> ('e \<Rightarrow> string \<times> string) \<Rightarrow> nat \<Rightarrow> duration \<Rightarrow> 'e + 'r \<Rightarrow> 'o \<Rightarrow> 'o" where
  "report_call k from_error i dur res w =
     (let w1 = sdk_Do k i (SetAttributes [(''rpc.response_time_ms'', AInt (Milliseconds dur))]) w
      in case res of
           Inl e \<Rightarrow>
             (let w2 = sdk_Do k i (SetStatus CodeError (snd (from_error e))) w1;
                  w3 = sdk_Do k i (RecordError e) w2
              in sdk_Do k i (SetAttributes [(attrGRPCStatusCode, AStr (fst (from_error e)))]) w3)
         | Inr _ \<Rightarrow>
             sdk_Do k i (SetAttributes [(attrGRPCStatusCode, AStr ''OK'')]) (sdk_Do k i (SetStatus CodeOk []) w1))"

definition UnaryServerInterceptor ::
  "('c, 'o, 'e) otel \<Rightarrow> ('e \<Rightarrow> string \<times> string) \<Rightarrow> string \<Rightarrow> string \<Rightarrow> duration \<Rightarrow> MD option
     \<Rightarrow> ('c \<Rightarrow> 'q \<Rightarrow> 'o \<Rightarrow> ('e + 'r) option \<times> 'o) \<Rightarrow> 'c \<Rightarrow> 'q \<Rightarrow> 'o \<Rightarrow> ('e + 'r) option \<times> 'o" where
  "UnaryServerInterceptor k from_error service full_method dur md handler ctx req w =
     (let ctx1 = (case md of Some m \<Rightarrow> sdk_Extract k ctx (carrier_Get m) | None \<Rightarrow> ctx);
          ((ctx2, i), w1) = sdk_Start k ctx1 full_method SpanKindServer
             [(AttrGRPCService, AStr service), (AttrGRPCMethod, AStr full_method)] w;
          (res, w2) = handler ctx2 req w1
      in (res, sdk_Do k i EndSpan (case res of None \<Rightarrow> w2 | Some r \<Rightarrow> report_call k from_error i dur r w2)))"

definition StreamServerInterceptor ::
  "('c, 'o, 'e) otel \<Rightarrow> ('e \<Rightarrow> string \<times> string) \<Rightarrow> string \<Rightarrow> string \<Rightarrow> MD option
     \<Rightarrow> ('c \<Rightarrow> 'o \<Rightarrow> 'e option option \<times> 'o) \<Rightarrow> 'c \<Rightarrow> 'o \<Rightarrow> 'e option option \<times> 'o" where
  "StreamServerInterceptor k from_error service full_method md handler ctx w =
     (let ctx1 = (case md of Some m \<Rightarrow> sdk_Extract k ctx (carrier_Get m) | None \<Rightarrow> ctx);
          ((ctx2, i), w1) = sdk_Start k ctx1 full_method SpanKindServer
             [(AttrGRPCService, AStr service), (AttrGRPCMethod, AStr full_method), (''rpc.grpc.stream'', ABool True)] w;
          (res, w2) = handler ctx2 w1
      in (res, sdk_Do k i EndSpan
           (case res of
              None \<Rightarrow> w2
            | Some (Some e) \<Rightarrow> sdk_Do k i (RecordError e) (sdk_Do k i (SetStatus CodeError (snd (from_error e))) w2)
            | Some None \<Rightarrow> sdk_Do k i (SetStatus CodeOk []) w2)))"

definition UnaryClientInterceptor ::
  "('c, 'o, 'e) otel \<Rightarrow> ('e \<Rightarrow> string \<times> string) \<Rightarrow> string \<Rightarrow> string \<Rightarrow> duration \<Rightarrow> MD option
     \<Rightarrow> ('c \<Rightarrow> MD \<Rightarrow> 'q \<Rightarrow> 'o \<Rightarrow> ('e + 'r) option \<times> 'o) \<Rightarrow> 'c \<Rightarrow> 'q \<Rightarrow> 'o \<Rightarrow> ('e + 'r) option \<times> 'o" where
  "UnaryClientInterceptor k from_error service meth dur outgoing invoker ctx req w =
     (let ((ctx1, i), w1) = sdk_Start k ctx meth SpanKindClient
             [(AttrGRPCService, AStr service), (AttrGRPCMethod, AStr meth), (''rpc.system'', AStr ''grpc'')] w;
          md = inject_all (sdk_Inject k ctx1) (case outgoing of Some m \<Rightarrow> m | None \<Rightarrow> Map.empty);
          (res, w2) = invoker ctx1 md req w1
      in (res, sdk_Do k i EndSpan (case res of None \<Rightarrow> w2 | Some r \<Rightarrow> report_call k from_error i dur r w2)))"

definition AddSpanAttributes :: "('c, 'o, 'e) otel \<Rightarrow> 'c \<Rightarrow> attrs \<Rightarrow> 'o \<Rightarrow> 'o" where
  "AddSpanAttributes k ctx a w = (case sdk_SpanFromContext k ctx of None \<Rightarrow> w | Some i \<Rightarrow> sdk_Do k i (SetAttributes a) w)"

definition RecordSpanError :: "('c, 'o, 'e) otel \<Rightarrow> 'c \<Rightarrow> 'e \<Rightarrow> 'o \<Rightarrow> 'o" where
  "RecordSpanError k ctx e w = (case sdk_SpanFromContext k ctx of None \<Rightarrow> w | Some i \<Rightarrow> sdk_Do k i (RecordError e) w)"

definition SetSpanStatus :: "('c, 'o, 'e) otel \<Rightarrow> 'c \<Rightarrow> span_code \<Rightarrow> string \<Rightarrow> 'o \<Rightarrow> 'o" where
  "SetSpanStatus k ctx code desc w = (case sdk_SpanFromContext k ctx of None \<Rightarrow> w | Some i \<Rightarrow> sdk_Do k i (SetStatus code desc) w)"

subsection \<open>What the library promises\<close>

fun code_rank :: "span_code \<Rightarrow> nat" where
  "code_rank CodeUnset = 0" | "code_rank CodeError = 1" | "code_rank CodeOk = 2"

text \<open>A span takes no operation after its end; a status replaces those of no higher rank, and only an error
  keeps its description.\<close>

definition apply_op :: "'e span_op \<Rightarrow> 'e span \<Rightarrow> 'e span" where
  "apply_op op x =
     (if tr_Ended x then x
      else case op of
        SetAttributes a \<Rightarrow> x\<lparr>tr_Attrs := tr_Attrs x @ a\<rparr>
      | SetStatus code desc \<Rightarrow>
          if code_rank code < code_rank (fst (tr_Status x)) then x
          else x\<lparr>tr_Status := (code, if code = CodeError then desc else [])\<rparr>
      | RecordError e \<Rightarrow> x\<lparr>tr_Errors := tr_Errors x @ [e]\<rparr>
      | EndSpan \<Rightarrow> x\<lparr>tr_Ended := True\<rparr>)"

locale tracing_sdk =
  fixes k :: "('c, 'o, 'e) otel" and spans :: "'o \<Rightarrow> 'e span list" and current :: "'c \<Rightarrow> span_context option"
  assumes start_span: "\<exists>x c'. fst (sdk_Start k c name kind a w) = (c', length (spans w))
      \<and> spans (snd (sdk_Start k c name kind a w)) = spans w @ [x] \<and> current c' = Some (tr_Context x)
      \<and> tr_Name x = name \<and> tr_Kind x = kind \<and> tr_Attrs x = a \<and> tr_Parent x = current c
      \<and> tr_Status x = (CodeUnset, []) \<and> tr_Errors x = [] \<and> \<not> tr_Ended x
      \<and> (case current c of None \<Rightarrow> True | Some y \<Rightarrow> tx_Trace (tr_Context x) = tx_Trace y)"
    and do_span: "i < length (spans w) \<Longrightarrow> spans (sdk_Do k i op w) = (spans w)[i := apply_op op (spans w ! i)]"
    and extract_injected: "current c = Some y \<Longrightarrow> list_all (\<lambda>(h, v). get h = v) (sdk_Inject k c)
      \<Longrightarrow> current (sdk_Extract k c0 get) = Some y"
    and inject_headers: "distinct (map fst (sdk_Inject k c)) \<and> list_all (\<lambda>(h, v). map to_lower h = h) (sdk_Inject k c)"

text \<open>A text map: reading a header gives what was set last under it.\<close>

locale text_map =
  fixes get :: "'m \<Rightarrow> string \<Rightarrow> string" and set1 :: "string \<times> string \<Rightarrow> 'm \<Rightarrow> 'm"
  assumes get_set: "get (set1 (h, v) m) h = v"
    and get_other: "map to_lower h' \<noteq> map to_lower h \<Longrightarrow> get (set1 (h, v) m) h' = get m h'"
begin

lemma get_untouched:
  "map to_lower h \<notin> set (map (\<lambda>(h, v). map to_lower h) kvs) \<Longrightarrow> get (fold set1 kvs m) h = get m h"
  by (induction kvs arbitrary: m) (auto simp: get_other)

lemma get_all:
  assumes "distinct (map fst kvs)" "list_all (\<lambda>(h, v). map to_lower h = h) kvs"
  shows "list_all (\<lambda>(h, v). get (fold set1 kvs m) h = v) kvs"
  using assms
proof (induction kvs arbitrary: m)
  case (Cons kv kvs)
  obtain h v where kv: "kv = (h, v)" by fastforce
  have "map to_lower h \<notin> set (map (\<lambda>(h, v). map to_lower h) kvs)"
    using Cons.prems by (auto simp: kv list_all_iff) force
  then show ?case using Cons by (simp add: kv get_untouched get_set)
qed simp

end

interpretation carrier: text_map carrier_Get carrier_Set
  by unfold_locales (simp_all add: carrier_Get_def carrier_Set_def)

text \<open>The handler may open spans and add attributes to those there are.\<close>

definition keeps_spans :: "('o \<Rightarrow> 'e span list) \<Rightarrow> ('o \<Rightarrow> 'r \<times> 'o) \<Rightarrow> bool" where
  "keeps_spans spans f \<longleftrightarrow> (\<forall>w. length (spans w) \<le> length (spans (snd (f w)))
     \<and> (\<forall>i < length (spans w). \<exists>a. spans (snd (f w)) ! i = (spans w ! i)\<lparr>tr_Attrs := a\<rparr>))"

definition call_status :: "('e \<Rightarrow> string \<times> string) \<Rightarrow> ('e + 'r) option \<Rightarrow> span_code \<times> string" where
  "call_status fe res = (case res of None \<Rightarrow> (CodeUnset, []) | Some (Inl e) \<Rightarrow> (CodeError, snd (fe e)) | Some (Inr _) \<Rightarrow> (CodeOk, []))"

context tracing_sdk
begin

lemma start_cases:
  obtains c' x w1 where "sdk_Start k c name kind a w = ((c', length (spans w)), w1)" "spans w1 = spans w @ [x]"
    "current c' = Some (tr_Context x)" "tr_Name x = name" "tr_Kind x = kind" "tr_Attrs x = a" "tr_Parent x = current c"
    "tr_Status x = (CodeUnset, [])" "tr_Errors x = []" "\<not> tr_Ended x"
    "case current c of None \<Rightarrow> True | Some y \<Rightarrow> tx_Trace (tr_Context x) = tx_Trace y"
  using start_span [of c name kind a w] by (metis prod.collapse)

lemma do_here:
  assumes "i < length (spans w)"
  shows "length (spans (sdk_Do k i op w)) = length (spans w)" "spans (sdk_Do k i op w) ! i = apply_op op (spans w ! i)"
    "j \<noteq> i \<Longrightarrow> spans (sdk_Do k i op w) ! j = spans w ! j"
  using assms by (simp_all add: do_span)

text \<open>What a span says of a call that was reported and ended.\<close>

lemma report_ends:
  assumes "i < length (spans w)" "\<not> tr_Ended (spans w ! i)" "tr_Status (spans w ! i) = (CodeUnset, [])"
    and "w' = sdk_Do k i EndSpan (case res of None \<Rightarrow> w | Some r \<Rightarrow> report_call k fe i dur r w)"
  shows "length (spans w') = length (spans w)" "j \<noteq> i \<Longrightarrow> spans w' ! j = spans w ! j" "tr_Ended (spans w' ! i)"
    "tr_Name (spans w' ! i) = tr_Name (spans w ! i)" "tr_Parent (spans w' ! i) = tr_Parent (spans w ! i)"
    "tr_Context (spans w' ! i) = tr_Context (spans w ! i)" "tr_Kind (spans w' ! i) = tr_Kind (spans w ! i)"
    "tr_Status (spans w' ! i) = call_status fe res"
    "tr_Errors (spans w' ! i) = tr_Errors (spans w ! i) @ (case res of Some (Inl e) \<Rightarrow> [e] | _ \<Rightarrow> [])"
  using assms
  by (auto simp: report_call_def Let_def do_span apply_op_def call_status_def split: option.splits sum.splits)

lemma kept:
  assumes "keeps_spans spans f" "f w = (r, w')" "i < length (spans w)"
  shows "length (spans w) \<le> length (spans w')" "\<exists>a. spans w' ! i = (spans w ! i)\<lparr>tr_Attrs := a\<rparr>"
  using assms unfolding keeps_spans_def by (metis snd_conv)+

text \<open>A body that runs inside a span, as in both interceptors for single calls: \<open>x\<close> is the span when the body
  starts, and \<open>w'\<close> the state after its end.\<close>

lemma spanned:
  fixes f :: "'c \<Rightarrow> 'o \<Rightarrow> ('e + 'r) option \<times> 'o"
  assumes "\<And>c. keeps_spans spans (f c)"
  obtains c1 x w1 res w2 w' where "sdk_Start k ctx name kind a w = ((c1, length (spans w)), w1)" "f c1 w1 = (res, w2)"
    "w' = sdk_Do k (length (spans w)) EndSpan (case res of None \<Rightarrow> w2 | Some r \<Rightarrow> report_call k fe (length (spans w)) dur r w2)"
    "spans w1 = spans w @ [x]" "current c1 = Some (tr_Context x)" "length (spans w) < length (spans w2)"
    "length (spans w') = length (spans w2)" "\<And>j. j \<noteq> length (spans w) \<Longrightarrow> spans w' ! j = spans w2 ! j"
    "tr_Context (spans w' ! length (spans w)) = tr_Context x" "tr_Ended (spans w' ! length (spans w))"
    "tr_Name (spans w' ! length (spans w)) = name" "tr_Kind (spans w' ! length (spans w)) = kind"
    "tr_Status (spans w' ! length (spans w)) = call_status fe res" "tr_Parent (spans w' ! length (spans w)) = current ctx"
    "\<And>y. current ctx = Some y \<Longrightarrow> tx_Trace (tr_Context x) = tx_Trace y"
proof -
  let ?n = "length (spans w)"
  obtain c1 x w1 where st: "sdk_Start k ctx name kind a w = ((c1, ?n), w1)" "spans w1 = spans w @ [x]"
    "current c1 = Some (tr_Context x)" "tr_Name x = name" "tr_Kind x = kind" "tr_Parent x = current ctx"
    "tr_Status x = (CodeUnset, [])" "\<not> tr_Ended x"
    "case current ctx of None \<Rightarrow> True | Some y \<Rightarrow> tx_Trace (tr_Context x) = tx_Trace y"
    by (rule start_cases [of ctx name kind a w]) blast
  obtain res w2 where h: "f c1 w1 = (res, w2)" by fastforce
  define w' where "w' = sdk_Do k ?n EndSpan (case res of None \<Rightarrow> w2 | Some r \<Rightarrow> report_call k fe ?n dur r w2)"
  note kp = kept [OF assms h, of ?n]
  obtain as where as: "spans w2 ! ?n = x\<lparr>tr_Attrs := as\<rparr>" using kp(2) st(2) by auto
  have pre: "?n < length (spans w2)" "\<not> tr_Ended (spans w2 ! ?n)" "tr_Status (spans w2 ! ?n) = (CodeUnset, [])"
    using kp(1) st(2,7,8) as by simp_all
  note e = report_ends [OF pre w'_def]
  show thesis
    by (rule that [OF st(1) h w'_def st(2,3) pre(1) e(1,2)]) (use e(3-8) st(4-6,9) as in simp_all)
qed

text \<open>One call through the interceptor of the server.\<close>

lemma server_call:
  assumes "\<And>c. keeps_spans spans (handler c req)"
    and ctx1: "ctx1 = (case md of Some m \<Rightarrow> sdk_Extract k ctx (carrier_Get m) | None \<Rightarrow> ctx)"
  obtains c1 w1 res w2 w' where
    "UnaryServerInterceptor k fe service meth dur md handler ctx req w = (res, w')" "handler c1 req w1 = (res, w2)"
    "length (spans w) < length (spans w')" "\<And>j. j < length (spans w) \<Longrightarrow> \<exists>a. spans w' ! j = (spans w ! j)\<lparr>tr_Attrs := a\<rparr>"
    "current c1 = Some (tr_Context (spans w' ! length (spans w)))" "tr_Ended (spans w' ! length (spans w))"
    "tr_Name (spans w' ! length (spans w)) = meth" "tr_Kind (spans w' ! length (spans w)) = SpanKindServer"
    "tr_Status (spans w' ! length (spans w)) = call_status fe res" "tr_Parent (spans w' ! length (spans w)) = current ctx1"
    "\<And>y. current ctx1 = Some y \<Longrightarrow> tx_Trace (tr_Context (spans w' ! length (spans w))) = tx_Trace y"
proof (rule spanned [of "\<lambda>c. handler c req" ctx1 meth SpanKindServer "[(AttrGRPCService, AStr service), (AttrGRPCMethod, AStr meth)]" w fe dur,
      OF assms(1)], goal_cases)
  case (1 c1 x w1 res w2 w')
  have u: "UnaryServerInterceptor k fe service meth dur md handler ctx req w = (res, w')"
    by (simp add: UnaryServerInterceptor_def Let_def ctx1 [symmetric] 1(2-4))
  have l: "length (spans w) < length (spans w')" using 1(7,8) by simp
  have old: "\<exists>a. spans w' ! j = (spans w ! j)\<lparr>tr_Attrs := a\<rparr>" if "j < length (spans w)" for j
    using kept(2) [OF assms(1) 1(3), of j] 1(9) [of j] 1(5) that by (simp add: nth_append)
  show ?case by (rule 1(1) [OF u 1(3) l old _ 1(11-15)]) (use 1(6,10,16) in simp_all)
qed

end

text \<open>
  C35. A trace crosses the wire. When a client calls a server and both have their interceptors, the handler
  runs once, with the trace in its context, and what it returns is what the call returns. The two spans are
  ended, whatever happens, a panic of the handler included; the one of the server has that of the client as its
  parent and belongs to the same trace, however the client came to it, and each carries the status of its side: an
  error with its message, success, or none after a panic.
\<close>

theorem trace_crosses_wire:
  fixes k :: "('c, 'o, 'e) otel" and handler :: "'c \<Rightarrow> 'q \<Rightarrow> 'o \<Rightarrow> ('e + 'r) option \<times> 'o"
  assumes "tracing_sdk k spans current" "\<And>c. keeps_spans spans (handler c req)"
    and "\<And>c m. list_all (\<lambda>(h, v). carrier_Get (transport m) h = carrier_Get m h) (sdk_Inject k c)"
    and inv: "invoker = (\<lambda>c md q w. let (res, w') = UnaryServerInterceptor k fes server_name meth durs (Some (transport md)) handler ctxs q w
        in (Some (answer res), w'))"
  shows "\<exists>c1 w1 res w2 w'. UnaryClientInterceptor k fec client_name meth durc outgoing invoker ctx req w = (Some (answer res), w')
    \<and> handler c1 req w1 = (res, w2) \<and> current c1 = Some (tr_Context (spans w' ! Suc (length (spans w))))
    \<and> Suc (length (spans w)) < length (spans w')
    \<and> (let x = spans w' ! length (spans w); y = spans w' ! Suc (length (spans w))
       in tr_Ended x \<and> tr_Name x = meth \<and> tr_Kind x = SpanKindClient \<and> tr_Status x = call_status fec (Some (answer res))
        \<and> tr_Parent x = current ctx
        \<and> tr_Ended y \<and> tr_Name y = meth \<and> tr_Kind y = SpanKindServer \<and> tr_Status y = call_status fes res
        \<and> tr_Parent y = Some (tr_Context x) \<and> tx_Trace (tr_Context y) = tx_Trace (tr_Context x))"
proof -
  let ?n = "length (spans w)"
  let ?md = "\<lambda>c. inject_all (sdk_Inject k c) (case outgoing of Some m \<Rightarrow> m | None \<Rightarrow> Map.empty)"
  note server = tracing_sdk.server_call [of k spans current handler req, OF assms(1,2) refl]
  have "keeps_spans spans (\<lambda>w. invoker c md req w)" for c md
    unfolding keeps_spans_def
  proof
    fix v
    show "length (spans v) \<le> length (spans (snd (invoker c md req v)))
      \<and> (\<forall>i < length (spans v). \<exists>a. spans (snd (invoker c md req v)) ! i = (spans v ! i)\<lparr>tr_Attrs := a\<rparr>)"
      by (rule server [where md = "Some (transport md)" and w = v and fe = fes and service = server_name and meth = meth and dur = durs and ctx = ctxs])
         (simp add: inv)
  qed
  then have keeps: "\<And>c. keeps_spans spans ((\<lambda>c. invoker c (?md c) req) c)" by simp
  show ?thesis
  proof (rule tracing_sdk.spanned [where f = "\<lambda>c. invoker c (?md c) req" and k = k and spans = spans and current = current,
        OF assms(1) keeps, where ctx = ctx and name = meth and kind = SpanKindClient
        and a = "[(AttrGRPCService, AStr client_name), (AttrGRPCMethod, AStr meth), (''rpc.system'', AStr ''grpc'')]" and w = w
        and fe = fec and dur = durc], goal_cases)
    case (1 c0 x w0 res' w3 w')
    have hs: "list_all (\<lambda>(h, v). carrier_Get (transport (?md c0)) h = v) (sdk_Inject k c0)"
      using carrier.get_all [of "sdk_Inject k c0" "case outgoing of Some m \<Rightarrow> m | None \<Rightarrow> Map.empty"] tracing_sdk.inject_headers [OF assms(1), of c0] assms(3) [of "?md c0" c0]
      by (auto simp: inject_all_def list_all_iff)
    note cur = tracing_sdk.extract_injected [OF assms(1) 1(5) hs, of ctxs]
    note client = 1
    show ?case
    proof (rule server [where md = "Some (transport (?md c0))" and w = w0 and fe = fes and service = server_name and meth = meth and dur = durs and ctx = ctxs],
        goal_cases)
      case (1 c1 w1 res w2 w4)
      have x: "res' = Some (answer res)" "w3 = w4" using client(2) 1(1) by (simp_all add: inv)
      have n: "length (spans w0) = Suc ?n" "spans w' ! Suc ?n = spans w4 ! Suc ?n" using client(4,8) x(2) by simp_all
      have c: "UnaryClientInterceptor k fec client_name meth durc outgoing invoker ctx req w = (Some (answer res), w')"
        using client(1-3) by (simp add: UnaryClientInterceptor_def Let_def x(1))
      show ?case
        by (intro exI [of _ c1] exI [of _ w1] exI [of _ res] exI [of _ w2] exI [of _ w'])
           (use c client 1 n x cur in \<open>simp add: Let_def\<close>)
    qed
  qed
qed

subsection \<open>A library in memory\<close>

definition mem_Start ::
  "span_context option \<Rightarrow> string \<Rightarrow> span_kind \<Rightarrow> attrs \<Rightarrow> 'e span list \<Rightarrow> (span_context option \<times> nat) \<times> 'e span list" where
  "mem_Start c name kind a w =
     (let n = length w;
          new = \<lparr>tx_Trace = (case c of Some y \<Rightarrow> tx_Trace y | None \<Rightarrow> int n), tx_Span = int n\<rparr>
      in ((Some new, n), w @ [\<lparr>tr_Name = name, tr_Kind = kind, tr_Context = new, tr_Parent = c, tr_Attrs = a,
            tr_Status = (CodeUnset, []), tr_Errors = [], tr_Ended = False\<rparr>]))"

definition mem_Extract :: "span_context option \<Rightarrow> (string \<Rightarrow> string) \<Rightarrow> span_context option" where
  "mem_Extract c get =
     (let v = get ''traceparent''
      in case (atoi (takeWhile (\<lambda>x. x \<noteq> CHR '':'') v), atoi (drop 1 (dropWhile (\<lambda>x. x \<noteq> CHR '':'') v))) of
           (Some t, Some s) \<Rightarrow> Some \<lparr>tx_Trace = t, tx_Span = s\<rparr>
         | _ \<Rightarrow> c)"

definition mem_otel :: "(span_context option, 'e span list, 'e) otel" where
  "mem_otel = \<lparr>sdk_Start = mem_Start, sdk_Do = (\<lambda>i op w. w[i := apply_op op (w ! i)]),
     sdk_SpanFromContext = map_option (\<lambda>y. nat (tx_Span y)), sdk_Extract = mem_Extract,
     sdk_Inject = (\<lambda>c. case c of None \<Rightarrow> [] | Some y \<Rightarrow> [(''traceparent'', itoa (tx_Trace y) @ '':'' @ itoa (tx_Span y))])\<rparr>"

lemma mem_extract: "get ''traceparent'' = itoa t @ '':'' @ itoa s \<Longrightarrow> mem_Extract c get = Some \<lparr>tx_Trace = t, tx_Span = s\<rparr>"
proof -
  assume g: "get ''traceparent'' = itoa t @ '':'' @ itoa s"
  have "takeWhile (\<lambda>x. x \<noteq> CHR '':'') (itoa t @ '':'' @ itoa s) = itoa t" "dropWhile (\<lambda>x. x \<noteq> CHR '':'') (itoa t @ '':'' @ itoa s) = '':'' @ itoa s"
    using itoa_no_colon [of t] by (subst takeWhile_append2 dropWhile_append2; auto)+
  then show ?thesis unfolding mem_Extract_def Let_def g by simp
qed

interpretation mem_sdk: tracing_sdk "mem_otel :: (span_context option, 'e span list, 'e) otel" "\<lambda>w. w" "\<lambda>c. c"
proof (unfold_locales, goal_cases)
  case (3 c y get c0)
  then show ?case using mem_extract [of get "tx_Trace y" "tx_Span y" c0] by (cases y) (auto simp: mem_otel_def)
next
  case (4 c)
  then show ?case by (auto simp: mem_otel_def to_lower_def split: option.splits)
qed (auto simp: mem_otel_def mem_Start_def Let_def split: option.splits)

definition demo_call :: "span_context option \<Rightarrow> int \<Rightarrow> string span list \<Rightarrow> (string + int) option \<times> string span list" where
  "demo_call c q w = (if q < 0 then None else if q = 0 then Some (Inl ''zero'') else Some (Inr (q + 1)), w)"

lemma demo_call_keeps: "keeps_spans (\<lambda>w. w) (demo_call c q)"
  unfolding keeps_spans_def demo_call_def using exI [of "\<lambda>a. x = x\<lparr>tr_Attrs := a\<rparr>" "tr_Attrs x" for x] by auto

theorem trace_crosses_wire_witness:
  "\<exists>w'. UnaryClientInterceptor mem_otel (\<lambda>e. (''Internal'', e)) ''client'' ''/m'' 5 None
      (\<lambda>c md q w. let (res, w') = UnaryServerInterceptor mem_otel (\<lambda>e. (''Internal'', e)) ''server'' ''/m'' 3 (Some md) demo_call None q w
         in (Some (case res of None \<Rightarrow> Inl ''panic'' | Some r \<Rightarrow> r), w')) None 0 [] = (Some (Inl ''zero''), w')
     \<and> tr_Parent (w' ! 1) = Some (tr_Context (w' ! 0)) \<and> tr_Status (w' ! 1) = (CodeError, ''zero'')"
proof -
  have wire: "list_all (\<lambda>(h, v). carrier_Get m h = carrier_Get m h) (sdk_Inject mem_otel c)" for c m by (simp add: list_all_iff split_beta)
  note t = trace_crosses_wire [where handler = demo_call and fes = "\<lambda>e. (''Internal'', e)" and server_name = "''server''" and meth = "''/m''" and durs = 3 and ctxs = None
      and req = 0 and answer = "\<lambda>res. case res of None \<Rightarrow> Inl ''panic'' | Some r \<Rightarrow> r" and fec = "\<lambda>e. (''Internal'', e)"
      and client_name = "''client''" and durc = 5 and outgoing = None and ctx = None and w = "[]" and transport = "\<lambda>m. m",
      OF mem_sdk.tracing_sdk_axioms demo_call_keeps wire refl]
  show ?thesis using t by (auto simp: demo_call_def Let_def call_status_def)
qed

subsection \<open>Setting up tracing\<close>

record TracingConfig =
  tc_Enabled :: bool
  tc_ServiceName :: string
  tc_ServiceVersion :: string
  tc_Environment :: string
  tc_ExporterType :: string
  tc_OTLPEndpoint :: string
  tc_OTLPInsecure :: bool
  tc_SamplingRate :: real
  tc_PropagatorType :: string

definition DefaultTracingConfig :: TracingConfig where
  "DefaultTracingConfig =
     \<lparr>tc_Enabled = False, tc_ServiceName = ''arcana-cloud-go'', tc_ServiceVersion = ''1.0.0'', tc_Environment = ''development'',
      tc_ExporterType = ''stdout'', tc_OTLPEndpoint = ''localhost:4317'', tc_OTLPInsecure = True, tc_SamplingRate = 1,
      tc_PropagatorType = ''tracecontext''\<rparr>"

datatype exporter = StdoutExporter | OTLPGrpc string bool | OTLPHttp string bool
datatype sampler = AlwaysSample | NeverSample | TraceIDRatioBased real
datatype propagator = TraceContext | Baggage

text \<open>The global tracer provider and propagator of the library.\<close>

record otel_globals =
  og_provider :: "(exporter \<times> sampler) option"
  og_propagators :: "propagator list"

record TracingProvider =
  tp_config :: TracingConfig
  tp_tracerProvider :: "(exporter \<times> sampler) option"

definition createExporter :: "TracingConfig \<Rightarrow> exporter" where
  "createExporter config =
     (if tc_ExporterType config = ''stdout'' then StdoutExporter
      else if tc_ExporterType config = ''otlp-grpc'' then OTLPGrpc (tc_OTLPEndpoint config) (tc_OTLPInsecure config)
      else if tc_ExporterType config = ''otlp-http'' then OTLPHttp (tc_OTLPEndpoint config) (tc_OTLPInsecure config)
      else StdoutExporter)"

definition createPropagator :: "string \<Rightarrow> propagator list" where
  "createPropagator _ = [TraceContext, Baggage]"

text \<open>\<open>merge\<close> and \<open>open_exporter\<close> are library calls that may fail.\<close>

definition NewTracingProvider ::
  "string option \<Rightarrow> (exporter \<Rightarrow> string option) \<Rightarrow> TracingConfig \<Rightarrow> otel_globals \<Rightarrow> (string + TracingProvider) \<times> otel_globals" where
  "NewTracingProvider merge open_exporter config g =
     (if \<not> tc_Enabled config then (Inr \<lparr>tp_config = config, tp_tracerProvider = None\<rparr>, g)
      else case merge of
        Some e \<Rightarrow> (Inl (''failed to create resource: '' @ e), g)
      | None \<Rightarrow>
          (case open_exporter (createExporter config) of
             Some e \<Rightarrow> (Inl (''failed to create exporter: '' @ e), g)
           | None \<Rightarrow>
               (let sampler = (if tc_SamplingRate config \<ge> 1 then AlwaysSample
                               else if tc_SamplingRate config \<le> 0 then NeverSample
                               else TraceIDRatioBased (tc_SamplingRate config));
                    tp = (createExporter config, sampler)
                in (Inr \<lparr>tp_config = config, tp_tracerProvider = Some tp\<rparr>,
                    g\<lparr>og_provider := Some tp, og_propagators := createPropagator (tc_PropagatorType config)\<rparr>))))"

definition tracing_Shutdown :: "(exporter \<times> sampler \<Rightarrow> string option) \<Rightarrow> TracingProvider \<Rightarrow> string option" where
  "tracing_Shutdown shutdown tp = (case tp_tracerProvider tp of Some p \<Rightarrow> shutdown p | None \<Rightarrow> None)"

text \<open>A sampling rate is always within bounds, and a provider that was made is the global one, or tracing
  is off and the globals are as they were.\<close>

lemma tracing_setup:
  assumes "NewTracingProvider merge open_exporter config g = (Inr tp, g')"
  shows "case tp_tracerProvider tp of
      None \<Rightarrow> \<not> tc_Enabled config \<and> g' = g
    | Some p \<Rightarrow> tc_Enabled config \<and> og_provider g' = Some p \<and> og_propagators g' = [TraceContext, Baggage]
        \<and> (case snd p of TraceIDRatioBased q \<Rightarrow> 0 < q \<and> q < 1 | _ \<Rightarrow> True)"
  using assms
  by (auto simp: NewTracingProvider_def createPropagator_def Let_def split: if_splits option.splits)

lemma unknown_exporter_prints: "createExporter (DefaultTracingConfig\<lparr>tc_ExporterType := ''jaeger''\<rparr>) = StdoutExporter"
  by (simp add: createExporter_def DefaultTracingConfig_def)

subsection \<open>Metrics\<close>

text \<open>An instrument is its name, and a measurement what the library is told. A method called on an
  instrument that is \<^verbatim>\<open>nil\<close> panics (\<open>None\<close>); the code asks only for the first of each pair.\<close>

record MetricsConfig =
  mc_Enabled :: bool
  mc_ServiceName :: string
  mc_PrometheusPath :: string

definition DefaultMetricsConfig :: MetricsConfig where
  "DefaultMetricsConfig = \<lparr>mc_Enabled = True, mc_ServiceName = ''arcana-cloud-go'', mc_PrometheusPath = ''/metrics''\<rparr>"

record MetricsProvider =
  mp_config :: MetricsConfig
  mp_exported :: bool
  mp_httpRequestsTotal :: "string option"
  mp_httpRequestDuration :: "string option"
  mp_grpcRequestsTotal :: "string option"
  mp_grpcRequestDuration :: "string option"
  mp_dbOperationsTotal :: "string option"
  mp_dbOperationDuration :: "string option"
  mp_activeConnections :: "string option"
  mp_cacheHits :: "string option"
  mp_cacheMisses :: "string option"

datatype measurement = MAdd string int attrs | MRecord string real attrs

definition bare_provider :: "MetricsConfig \<Rightarrow> bool \<Rightarrow> MetricsProvider" where
  "bare_provider config exported =
     \<lparr>mp_config = config, mp_exported = exported, mp_httpRequestsTotal = None, mp_httpRequestDuration = None,
      mp_grpcRequestsTotal = None, mp_grpcRequestDuration = None, mp_dbOperationsTotal = None, mp_dbOperationDuration = None,
      mp_activeConnections = None, mp_cacheHits = None, mp_cacheMisses = None\<rparr>"

text \<open>Creating one instrument, unless a creation failed before.\<close>

definition make ::
  "(string \<Rightarrow> string option) \<Rightarrow> string \<Rightarrow> ((string option \<Rightarrow> string option) \<Rightarrow> MetricsProvider \<Rightarrow> MetricsProvider)
     \<Rightarrow> string + MetricsProvider \<Rightarrow> string + MetricsProvider" where
  "make create name upd r =
     (case r of
        Inl e \<Rightarrow> Inl e
      | Inr mp \<Rightarrow> (case create name of Some e \<Rightarrow> Inl e | None \<Rightarrow> Inr (upd (\<lambda>_. Some name) mp)))"

definition initMetrics :: "(string \<Rightarrow> string option) \<Rightarrow> MetricsProvider \<Rightarrow> string + MetricsProvider" where
  "initMetrics create mp =
     make create ''cache_misses_total'' mp_cacheMisses_update
    (make create ''cache_hits_total'' mp_cacheHits_update
    (make create ''active_connections'' mp_activeConnections_update
    (make create ''db_operation_duration_seconds'' mp_dbOperationDuration_update
    (make create ''db_operations_total'' mp_dbOperationsTotal_update
    (make create ''grpc_request_duration_seconds'' mp_grpcRequestDuration_update
    (make create ''grpc_requests_total'' mp_grpcRequestsTotal_update
    (make create ''http_request_duration_seconds'' mp_httpRequestDuration_update
    (make create ''http_requests_total'' mp_httpRequestsTotal_update (Inr mp)))))))))"

definition NewMetricsProvider ::
  "string option \<Rightarrow> (string \<Rightarrow> string option) \<Rightarrow> MetricsConfig \<Rightarrow> string + MetricsProvider" where
  "NewMetricsProvider exporter create config =
     (if \<not> mc_Enabled config then Inr (bare_provider config False)
      else case exporter of
        Some e \<Rightarrow> Inl e
      | None \<Rightarrow> initMetrics create (bare_provider config True))"

definition seconds_of :: "duration \<Rightarrow> real" where
  "seconds_of d = real_of_int d / real_of_int second"

definition add_both :: "string option \<Rightarrow> string option \<Rightarrow> attrs \<Rightarrow> duration \<Rightarrow> measurement list \<Rightarrow> measurement list option" where
  "add_both ctr hist a d w =
     (case ctr of
        None \<Rightarrow> Some w
      | Some c \<Rightarrow> (case hist of None \<Rightarrow> None | Some h \<Rightarrow> Some (w @ [MAdd c 1 a, MRecord h (seconds_of d) a])))"

definition add_one :: "string option \<Rightarrow> int \<Rightarrow> attrs \<Rightarrow> measurement list \<Rightarrow> measurement list option" where
  "add_one c n a w = Some (case c of None \<Rightarrow> w | Some name \<Rightarrow> w @ [MAdd name n a])"

definition RecordHTTPRequest :: "MetricsProvider \<Rightarrow> string \<Rightarrow> string \<Rightarrow> int \<Rightarrow> duration \<Rightarrow> measurement list \<Rightarrow> measurement list option" where
  "RecordHTTPRequest mp meth path statusCode d =
     add_both (mp_httpRequestsTotal mp) (mp_httpRequestDuration mp)
       [(AttrHTTPMethod, AStr meth), (AttrHTTPRoute, AStr path), (AttrHTTPStatusCode, AInt statusCode)] d"

definition RecordGRPCRequest :: "MetricsProvider \<Rightarrow> string \<Rightarrow> string \<Rightarrow> bool \<Rightarrow> duration \<Rightarrow> measurement list \<Rightarrow> measurement list option" where
  "RecordGRPCRequest mp service meth success d =
     add_both (mp_grpcRequestsTotal mp) (mp_grpcRequestDuration mp)
       [(AttrGRPCService, AStr service), (AttrGRPCMethod, AStr meth), (AttrDBOperation, AStr (if success then ''ok'' else ''error''))] d"

definition RecordDBOperation :: "MetricsProvider \<Rightarrow> string \<Rightarrow> bool \<Rightarrow> duration \<Rightarrow> measurement list \<Rightarrow> measurement list option" where
  "RecordDBOperation mp operation success d =
     add_both (mp_dbOperationsTotal mp) (mp_dbOperationDuration mp)
       [(AttrDBOperation, AStr operation), (AttrDBSystem, AStr (if success then ''ok'' else ''error''))] d"

definition RecordCacheHit :: "MetricsProvider \<Rightarrow> string \<Rightarrow> measurement list \<Rightarrow> measurement list option" where
  "RecordCacheHit mp cacheName = add_one (mp_cacheHits mp) 1 [(AttrDBSystem, AStr cacheName)]"

definition RecordCacheMiss :: "MetricsProvider \<Rightarrow> string \<Rightarrow> measurement list \<Rightarrow> measurement list option" where
  "RecordCacheMiss mp cacheName = add_one (mp_cacheMisses mp) 1 [(AttrDBSystem, AStr cacheName)]"

definition IncrementConnections :: "MetricsProvider \<Rightarrow> string \<Rightarrow> measurement list \<Rightarrow> measurement list option" where
  "IncrementConnections mp connType = add_one (mp_activeConnections mp) 1 [(AttrDBSystem, AStr connType)]"

definition DecrementConnections :: "MetricsProvider \<Rightarrow> string \<Rightarrow> measurement list \<Rightarrow> measurement list option" where
  "DecrementConnections mp connType = add_one (mp_activeConnections mp) (- 1) [(AttrDBSystem, AStr connType)]"

datatype metrics_handler = PrometheusPage | NotFoundPage

definition metrics_Handler :: "MetricsProvider \<Rightarrow> metrics_handler" where
  "metrics_Handler mp = (if mp_exported mp then PrometheusPage else NotFoundPage)"

definition metrics_Shutdown :: "string option \<Rightarrow> MetricsProvider \<Rightarrow> string option" where
  "metrics_Shutdown shutdown mp = (if mp_exported mp then shutdown else None)"

datatype metric_call =
    HTTPDone string string int duration | GRPCDone string string bool duration | DBDone string bool duration
  | CacheHit string | CacheMiss string | Connected string | Disconnected string

fun record_call :: "MetricsProvider \<Rightarrow> metric_call \<Rightarrow> measurement list \<Rightarrow> measurement list option" where
  "record_call mp (HTTPDone m p st d) w = RecordHTTPRequest mp m p st d w"
| "record_call mp (GRPCDone s m ok d) w = RecordGRPCRequest mp s m ok d w"
| "record_call mp (DBDone op ok d) w = RecordDBOperation mp op ok d w"
| "record_call mp (CacheHit c) w = RecordCacheHit mp c w"
| "record_call mp (CacheMiss c) w = RecordCacheMiss mp c w"
| "record_call mp (Connected c) w = IncrementConnections mp c w"
| "record_call mp (Disconnected c) w = DecrementConnections mp c w"

fun record_calls :: "MetricsProvider \<Rightarrow> metric_call list \<Rightarrow> measurement list \<Rightarrow> measurement list option" where
  "record_calls mp [] w = Some w"
| "record_calls mp (x # xs) w = Option.bind (record_call mp x w) (record_calls mp xs)"

text \<open>The value of a counter with given attributes.\<close>

fun added :: "string \<Rightarrow> attrs \<Rightarrow> measurement \<Rightarrow> int" where
  "added name a (MAdd n i b) = (if n = name \<and> b = a then i else 0)"
| "added name a (MRecord n r b) = 0"

definition counter :: "string \<Rightarrow> attrs \<Rightarrow> measurement list \<Rightarrow> int" where
  "counter name a w = (\<Sum>m \<leftarrow> w. added name a m)"

lemma counter_append [simp]: "counter name a (v @ w) = counter name a v + counter name a w"
  by (simp add: counter_def)

lemma counter_simps [simp]: "counter name a [] = 0" "counter name a (m # w) = added name a m + counter name a w"
  by (simp_all add: counter_def)

definition all_instruments :: "MetricsConfig \<Rightarrow> MetricsProvider" where
  "all_instruments config =
     \<lparr>mp_config = config, mp_exported = True, mp_httpRequestsTotal = Some ''http_requests_total'',
      mp_httpRequestDuration = Some ''http_request_duration_seconds'', mp_grpcRequestsTotal = Some ''grpc_requests_total'',
      mp_grpcRequestDuration = Some ''grpc_request_duration_seconds'', mp_dbOperationsTotal = Some ''db_operations_total'',
      mp_dbOperationDuration = Some ''db_operation_duration_seconds'', mp_activeConnections = Some ''active_connections'',
      mp_cacheHits = Some ''cache_hits_total'', mp_cacheMisses = Some ''cache_misses_total''\<rparr>"

text \<open>A provider has all instruments or, when metrics are off, none.\<close>

lemma made_provider:
  assumes "NewMetricsProvider exporter create config = Inr mp"
  shows "mp = (if mc_Enabled config then all_instruments config else bare_provider config False)"
  using assms
  by (auto simp: NewMetricsProvider_def initMetrics_def make_def bare_provider_def all_instruments_def
      split: if_splits option.splits sum.splits)

definition measured :: "MetricsProvider \<Rightarrow> metric_call \<Rightarrow> measurement list" where
  "measured mp x = (case record_call mp x [] of Some w \<Rightarrow> w | None \<Rightarrow> [])"

lemmas recording_defs = RecordHTTPRequest_def RecordGRPCRequest_def RecordDBOperation_def RecordCacheHit_def RecordCacheMiss_def
  IncrementConnections_def DecrementConnections_def add_both_def add_one_def

lemma record_made:
  assumes "mp = all_instruments config \<or> mp = bare_provider config False"
  shows "record_call mp x w = Some (w @ measured mp x)"
  using assms by (cases x) (auto simp: recording_defs measured_def all_instruments_def bare_provider_def)

lemma records_made:
  assumes "mp = all_instruments config \<or> mp = bare_provider config False"
  shows "record_calls mp xs w = Some (w @ concat (map (measured mp) xs))"
  by (induction xs arbitrary: w) (simp_all add: record_made [OF assms])

definition http_attrs :: "string \<Rightarrow> string \<Rightarrow> int \<Rightarrow> attrs" where
  "http_attrs m p st = [(AttrHTTPMethod, AStr m), (AttrHTTPRoute, AStr p), (AttrHTTPStatusCode, AInt st)]"

text \<open>
  The counters account for what happened. Whatever calls are recorded, in whatever order, no method of a
  provider panics; when metrics are on, the counter of requests with a method, a path and a status is the
  number of such requests, the counters of the cache are the numbers of hits and misses, and the gauge of
  connections of a kind is the number opened less the number closed. When they are off nothing is
  recorded and the page answers 404.
\<close>

theorem metrics_account:
  assumes "NewMetricsProvider exporter create config = Inr mp"
  shows "\<exists>w. record_calls mp xs [] = Some w
    \<and> (metrics_Handler mp = PrometheusPage \<longleftrightarrow> mc_Enabled config) \<and> (\<not> mc_Enabled config \<longrightarrow> w = [])
    \<and> (mc_Enabled config \<longrightarrow>
         counter ''http_requests_total'' (http_attrs m p st) w = int (length (filter (\<lambda>x. \<exists>d. x = HTTPDone m p st d) xs))
       \<and> counter ''cache_hits_total'' [(AttrDBSystem, AStr c)] w = int (length (filter (\<lambda>x. x = CacheHit c) xs))
       \<and> counter ''cache_misses_total'' [(AttrDBSystem, AStr c)] w = int (length (filter (\<lambda>x. x = CacheMiss c) xs))
       \<and> counter ''active_connections'' [(AttrDBSystem, AStr c)] w =
           int (length (filter (\<lambda>x. x = Connected c) xs)) - int (length (filter (\<lambda>x. x = Disconnected c) xs)))"
proof -
  note mp = made_provider [OF assms]
  let ?w = "concat (map (measured mp) xs)"
  have r: "record_calls mp xs [] = Some ?w" using records_made [of mp config xs "[]"] mp by (simp split: if_splits)
  have off: "?w = []" if "\<not> mc_Enabled config"
    using mp that by (induction xs) (auto simp: measured_def bare_provider_def recording_defs elim: record_call.elims split: option.splits)
  have on: "counter ''http_requests_total'' (http_attrs m p st) (measured mp x) = (if \<exists>d. x = HTTPDone m p st d then 1 else 0)
      \<and> counter ''cache_hits_total'' [(AttrDBSystem, AStr c)] (measured mp x) = (if x = CacheHit c then 1 else 0)
      \<and> counter ''cache_misses_total'' [(AttrDBSystem, AStr c)] (measured mp x) = (if x = CacheMiss c then 1 else 0)
      \<and> counter ''active_connections'' [(AttrDBSystem, AStr c)] (measured mp x) =
          (if x = Connected c then 1 else 0) - (if x = Disconnected c then 1 else 0)" if "mc_Enabled config" for x
    using mp that by (cases x) (auto simp: measured_def all_instruments_def recording_defs http_attrs_def)
  have sums: "mc_Enabled config \<Longrightarrow>
         counter ''http_requests_total'' (http_attrs m p st) ?w = int (length (filter (\<lambda>x. \<exists>d. x = HTTPDone m p st d) xs))
       \<and> counter ''cache_hits_total'' [(AttrDBSystem, AStr c)] ?w = int (length (filter (\<lambda>x. x = CacheHit c) xs))
       \<and> counter ''cache_misses_total'' [(AttrDBSystem, AStr c)] ?w = int (length (filter (\<lambda>x. x = CacheMiss c) xs))
       \<and> counter ''active_connections'' [(AttrDBSystem, AStr c)] ?w =
           int (length (filter (\<lambda>x. x = Connected c) xs)) - int (length (filter (\<lambda>x. x = Disconnected c) xs))"
    by (induction xs) (simp_all add: on)
  show ?thesis using r off sums mp by (auto simp: metrics_Handler_def all_instruments_def bare_provider_def)
qed

theorem metrics_account_witness:
  "\<exists>mp w. NewMetricsProvider None (\<lambda>_. None) DefaultMetricsConfig = Inr mp
     \<and> record_calls mp [Connected ''ws'', Connected ''ws'', Disconnected ''ws''] [] = Some w
     \<and> counter ''active_connections'' [(AttrDBSystem, AStr ''ws'')] w = 1"
proof -
  obtain mp where mp: "NewMetricsProvider None (\<lambda>_. None) DefaultMetricsConfig = Inr mp"
    by (simp add: NewMetricsProvider_def initMetrics_def make_def DefaultMetricsConfig_def)
  have "mc_Enabled DefaultMetricsConfig" by (simp add: DefaultMetricsConfig_def)
  with metrics_account [OF mp, of "[Connected ''ws'', Connected ''ws'', Disconnected ''ws'']" "[]" "[]" 0 "''ws''"] mp
  show ?thesis by auto
qed

end
