(* ===== verification/Spec2Isabelle.thy ===== *)
theory Spec2Isabelle
  imports Circuit_Breaker Rate_Limiter Retry WebSocket_Hub App_Errors Plugin_Manager Plugin_Controller Job_Controller Ssr_Service Config_Client Mongo_Properties Grpc_Layer Deployment Graphql Worker_Main Observability
begin

text \<open>
  \<^bold>\<open>arcana-cloud-go: a verification library.\<close>

  \<^bold>\<open>The program.\<close> arcana-cloud-go is a Go service platform. Its own logic is in these places:

  \<^item> a background job system on Redis (\<^verbatim>\<open>src/internal/jobs\<close>): a service hands jobs to a queue with
    priorities, schedules, retries and a dead letter list; worker pools take jobs under a
    distributed lock and run their handlers; a scheduler with leader election enqueues
    recurring jobs;
  \<^item> a resilience library (\<^verbatim>\<open>src/internal/resilience\<close>): circuit breaker, rate limiters, retry;
  \<^item> a WebSocket hub (\<^verbatim>\<open>src/internal/websocket\<close>);
  \<^item> the application services (\<^verbatim>\<open>src/internal/domain\<close>) for users, authentication, plugins and server-side
    rendering, over data access objects and repositories, with the primitives of
    \<^verbatim>\<open>src/internal/security\<close> and the plugin manager of \<^verbatim>\<open>src/internal/plugin\<close>;
  \<^item> the HTTP layer (\<^verbatim>\<open>src/internal/middleware\<close>, \<^verbatim>\<open>src/internal/controller/http\<close>) above them, and beside it gRPC
    (\<^verbatim>\<open>src/internal/controller/grpc\<close>) and GraphQL (\<^verbatim>\<open>src/internal/controller/graphql\<close>);
  \<^item> a configuration server with its client (\<^verbatim>\<open>src/internal/configserver\<close>), tracing and metrics
    (\<^verbatim>\<open>src/internal/observability\<close>);
  \<^item> the configuration of the application (\<^verbatim>\<open>src/internal/config\<close>), the wiring of databases, layers and servers
    (\<^verbatim>\<open>src/internal/di\<close>) and the worker process (\<^verbatim>\<open>src/cmd/worker\<close>).

  \<^bold>\<open>Conventions\<close> (theory \<open>Arcana_Prelude\<close>). Instants and durations are integers in nanoseconds;
  every read of the clock is an argument, one for each stretch of code in which the difference
  between two reads does not matter. Integers are unbounded except where overflow is reached,
  where the 64-bit wrap or the conversion from a float is written out. A float is a real. An
  error result is an option or the left summand of a sum, a panic is \<open>None\<close> around the whole
  result (of a handler: \<open>Panicked\<close>). Calls that pass on the error of another call are composed with
  \<open>and_then\<close>. Fresh identifiers, random numbers, the iteration order of Go maps and the answers
  of handlers and contexts are arguments. Logging is left out. A goroutine is modelled by the
  rounds of its loop; what several goroutines do is a sequence of such rounds, cut at the
  points where locks or separate Redis commands let others in.

  \<^bold>\<open>What is outside.\<close> Code that is not in the repository is an argument of the definitions that use
  it, and what is relied on is a law of a locale, over a view of the opaque state. Theorems assume the
  locale for an arbitrary instance; an executable instance in memory interprets it and is the
  instance of the witnesses.

  \<^item> Redis (\<open>Redis_Client\<close>, locale \<open>redis_client\<close>): a function from an instant and a command to a reply.
    Lua scripts are the sequence of their commands.
  \<^item> GORM and the SQL databases (\<open>Sql_Client\<close>, locale \<open>sql_table\<close>): for each table a function that executes one
    statement, over the list of its rows; the struct tags of an entity become a \<open>schema\<close>.
  \<^item> MongoDB and its driver (\<open>Mongo_Client\<close>, locale \<open>mongo_db\<close>): a function that executes one command on the
    collections and the counters of a database;
  \<^item> viper (\<open>App_Config\<close>, locale \<open>viper_lib\<close>: defaults, then the file, then variables of the environment that have a
    key), the registry of gRPC services (\<open>Deployment\<close>, locale \<open>grpc_registry\<close>: a second registration of a name is
    fatal), OpenTelemetry (\<open>Observability\<close>, locale \<open>tracing_sdk\<close>), the GraphQL executor (an argument of the
    handler);
  \<^item> the JWT and bcrypt libraries (\<open>Security\<close>, locales \<open>jwt_library\<close> and \<open>bcrypt_library\<close>);
  \<^item> plugins (\<open>Plugin_Manager\<close>, the record \<open>plugin_code\<close>); SHA-256 and JSON encoding of a plugin configuration
    (fields of the record \<open>pluginService\<close>); gin's binding of request bodies, whose result is an argument.

  \<^bold>\<open>Components.\<close>

  \<^item> \<open>Circuit_Breaker\<close>: \<^verbatim>\<open>circuitbreaker.go\<close> and \<^verbatim>\<open>registry.go\<close>. The state machine with its counters, the
    sliding window (a ring buffer, shown to refine the list of the last calls), metrics and the
    registry. It opens after exactly the threshold of failures and rejects until the timeout, it
    recovers, and an invariant holds under every interleaving of concurrent calls; a failed trial
    does not restart the timeout, and a configuration can keep it half-open for ever.
  \<^item> \<open>Rate_Limiter\<close>: \<^verbatim>\<open>ratelimiter.go\<close>. The token bucket grants at most burst plus rate times time; the sliding
    window admits exactly while fewer than the rate were admitted in the period; concurrent waiters
    overdraw the bucket.
  \<^item> \<open>Retry\<close>: \<^verbatim>\<open>retry.go\<close>. The calls, pauses and result of a retried function, exactly.
  \<^item> \<open>Job_Model\<close>: \<^verbatim>\<open>job.go\<close>. Jobs, priorities, retry policies with their delays, options, and the JSON
    form with its round trip.
  \<^item> \<open>Redis_Queue\<close>: \<^verbatim>\<open>queue/redis_queue.go\<close>, every operation as its sequence of commands. Each operation
    has an abstract effect on the view (\<open>enqueue_view\<close>, \<open>retry_view\<close>, \<dots>) and a lemma that it has this
    effect. The contract of the queue is the locale \<open>priority_queue\<close> (what an enqueue adds, which job a
    dequeue takes); it is shown to be met by every \<open>redis_client\<close>, as a \<open>sublocale\<close>.
  \<^item> \<open>Queue_Properties\<close>: order of service, deduplication, retry or burial, the retry budget, the release of
    scheduled jobs, deletion, and where jobs are passed over or lost. \<open>Queue_Invariant\<close>: the step relation
    of all queue operations, under which no job is in two places.
  \<^item> \<open>Job_Lock\<close>: \<^verbatim>\<open>lock/distributed_lock.go\<close>. Lock objects live in a store of the manager, because the
    heartbeat and the owner share them. Exclusion against arbitrary rivals, heartbeat, idempotency
    records, and the stale-lock sweep that cannot read the start times.
  \<^item> \<open>Worker_Pool\<close>: \<^verbatim>\<open>worker/pool.go\<close>, \<^verbatim>\<open>metrics.go\<close>, \<^verbatim>\<open>handler/registry.go\<close>. The whole path of a job through a
    worker, life cycle, metrics and health check.
  \<^item> \<open>Job_Scheduler\<close>: \<^verbatim>\<open>scheduler/scheduler.go\<close>, with the calendar its execution windows are made from. One
    job per window, the leader's lease, the race of its renewal, and the cron entries that are
    never made. The loop over \<^verbatim>\<open>SCAN\<close> need not end, hence is a partial function.
  \<^item> \<open>Job_Service\<close>: \<^verbatim>\<open>job_service.go\<close> and \<^verbatim>\<open>service.go\<close>. Retrying and purging on top of the queue's lemmas.
  \<^item> \<open>WebSocket_Hub\<close>: \<^verbatim>\<open>hub.go\<close>, \<^verbatim>\<open>client.go\<close>, \<^verbatim>\<open>handler.go\<close>. Clients are addresses into a store; an invariant
    over all sequences of hub events gives consistent tables and the absence of panics, delivery is
    exact; a message without a room, and a closed client, behave differently from what the code
    says.
  \<^item> \<open>App_Errors\<close>: \<^verbatim>\<open>pkg/errors\<close>.
  \<^item> \<open>Gorm_Dao\<close>: the generic data access object and page arithmetic. \<open>User_Dao\<close>: users and refresh tokens with their
    data access objects and repositories. \<open>Plugin_Dao\<close>: plugins and their extensions.
  \<^item> \<open>Security\<close>: \<^verbatim>\<open>jwt.go\<close> and \<^verbatim>\<open>password.go\<close>. \<open>Auth_Service\<close>, \<open>User_Service\<close>: the services. \<open>Auth_Properties\<close>: login
    refines its specification, a refresh token is used once, a logout is final, a registered user can
    log in; and where the sessions of an account survive what should end them.
  \<^item> \<open>Http_Middleware\<close>: the response envelope, the security service and the middleware as transformers of
    handlers. \<open>Account_Controller\<close>: the handlers and routes of authentication and users.
  \<^item> \<open>File_Path\<close>: the lexical operations on paths and a small file system. \<open>Plugin_Manager\<close>: \<^verbatim>\<open>manager.go\<close>; each
    plugin is called in the order of its protocol, shutting down stops everything. \<open>Plugin_Service\<close>: the
    plugin service over database and files; \<open>Plugin_Properties\<close>: it refines a state machine, files and
    rows stay consistent, what is installed reads back. \<open>Plugin_Controller\<close>: its handlers and routes.
  \<^item> \<open>Ssr_Service\<close>: the render service with its cache, and its controller.
  \<^item> \<open>Job_Controller\<close>: the handlers and routes of the job system.
  \<^item> \<open>Config_Value\<close>, \<open>Config_Server\<close>, \<open>Config_Client\<close>: configuration trees and their merge, the server over a directory of
    files, the client with its cache. The server answers exactly with the settings of its files, a client reads them
    back, fetching ends within the retries; a refresh of an unchanged nested configuration panics.
  \<^item> \<open>Mongo_Client\<close>, \<open>Mongo_Dao\<close>, \<open>Mongo_Properties\<close>: the generic MongoDB object, the four data access objects with documents
    and mappers, and what they keep: the locale \<open>mongo_entity\<close> says what a mapper promises and is interpreted for the
    four of them, \<open>mongo_store\<close> joins it with \<open>mongo_db\<close>. Documents stay typed and decodable with
    identifiers of their own; users read back to the millisecond.
  \<^item> \<open>Grpc_Layer\<close>: the services of both gRPC layers, the interceptors of the server, and the repository that
    calls the repository layer: it reads what the local one reads, and an update through it loses the password.
  \<^item> \<open>App_Config\<close>: structs, defaults, loading, validation, connection strings, and the configuration file of the
    repository, whose secret is public. \<open>Deployment\<close>: which data access objects, services and servers a configuration
    gives; the default one does not start.
  \<^item> \<open>Graphql\<close>: schema, resolvers and handler. Resolvers never panic on arguments of the schema's types; only the
    fields about the session ask who is calling.
  \<^item> \<open>Worker_Main\<close>: the worker process, composed of pool, scheduler and lock manager: what runs after the start, and
    that a shutdown frees the locks and the leadership of the process and nothing else. The locks are followed with the
    relation \<open>frees\<close>.
  \<^item> \<open>Observability\<close>: the HTTP middleware, the gRPC interceptors and the carrier of trace contexts (locale \<open>text_map\<close>,
    interpreted on gRPC metadata), tracing set-up, and the metrics provider. A trace crosses the wire, and the counters
    account for what was recorded.

  \<^bold>\<open>How they fit together.\<close> \<open>Job_Service\<close> and \<open>Job_Scheduler\<close> call \<open>Enqueue\<close> of \<open>Redis_Queue\<close>; \<open>Worker_Pool\<close> calls
  \<open>Dequeue\<close>, \<open>Complete\<close>, \<open>Fail\<close>, \<open>ProcessScheduled\<close> and the lock manager; all meet only in the Redis
  state. A job's life is thus: enqueued (to a list or the schedule), dequeued and locked, run, then
  completed, or failed and scheduled again with the delay of its policy, or buried. A request
  passes the global middleware, \<open>Authenticate\<close> and \<open>RequireRole\<close> of its route, then its handler, which
  calls a service and turns its result into one response; services call repositories, which call
  data access objects, which execute statements. The property at the end of this theory is about the
  guarded routes of all controllers.

  \<^bold>\<open>Bounds and fuel.\<close> No definition uses fuel: the loops are structural over lists, counted, or
  terminate by a proved measure. Statements about expiry hold for instants before the time to live
  that the code sets (24 hours for job records), which the hypotheses name. Timestamps in tables are
  kept to the nanosecond. A file system has no links, and a file is named by its clean path.

  \<^bold>\<open>Not modelled.\<close> The logger, which only sets up a library; the code that is generated from the protocol files;
  the lists of constructors that are handed to fx (the choices they make are in \<open>Deployment\<close>) and the main
  function of the server; listening on ports, TLS files and the HTML page of the GraphQL playground; mocks
  and test utilities, which no program uses.
\<close>

subsection \<open>Routes for administrators\<close>

definition not_admin :: "jwt_lib \<Rightarrow> JWTProvider \<Rightarrow> time \<Rightarrow> 'd Context \<Rightarrow> bool" where
  "not_admin jl p now c = (case caller jl p now c of None \<Rightarrow> True | Some cl \<Rightarrow> uc_Role cl \<noteq> RoleAdmin)"

text \<open>The request is answered with an error and aborted, the state is as it was.\<close>

definition turned_away :: "time \<Rightarrow> 'd Context \<Rightarrow> 's \<Rightarrow> ('d Context \<times> 's) outcome \<Rightarrow> bool" where
  "turned_away now c s r \<longleftrightarrow>
     (\<exists>st message c1. (st = 401 \<or> st = 403) \<and> r = Done (refuse now st message c1, s) \<and> gc_Bodies c1 = gc_Bodies c)"

lemma admin_guard:
  assumes "not_admin jl p now c"
  shows "turned_away now c s (Authenticate jl p now (RequireAdmin now h) c s)"
proof (cases "caller jl p now c")
  case None
  then show ?thesis by (auto simp: Authenticate_caller turned_away_def)
next
  case (Some cl)
  then have "Authenticate jl p now (RequireAdmin now h) c s =
      Done (refuse now 403 ''insufficient permissions'' (SetCurrentClaims cl c), s)"
    using assms by (simp add: not_admin_def Authenticate_caller RequireAdmin_def RequireRole_def)
  moreover have "gc_Bodies (SetCurrentClaims cl c) = gc_Bodies c" by (simp add: SetCurrentClaims_def)
  ultimately show ?thesis unfolding turned_away_def by blast
qed


lemma demo_not_admin: "not_admin mem_jwt demo_provider 0 demo_context"
  by (simp add: not_admin_def caller_def demo_context_def)


end
